(* ===== verification/Prelude.thy ===== *)
theory Prelude
  imports Complex_Main "HOL-Library.AList" "HOL-Library.List_Lexorder" "HOL-Library.Char_ord"
    "HOL-Library.Multiset"
begin

section \<open>JavaScript values, containers and helpers shared by the components\<close>

text \<open>
  The TypeScript modules share a handful of idioms: \<open>Math.round\<close>/\<open>clamp\<close> on numbers,
  insertion-ordered \<open>Map\<close>, \<open>Set\<close> and object values, object spread, \<open>[...new Set(xs)]\<close>,
  the stable \<open>Array.prototype.sort\<close> with a comparator, and \<open>hashObject\<close>, a hash of a JSON
  value whose keys have been sorted. This theory models each of them once.

  Scores, percentages and coordinates are \<open>real\<close> (exact arithmetic: rounding of doubles, NaN
  and infinities are outside the model); versions, counters and millisecond timestamps are
  \<open>int\<close>. \<open>undefined\<close> and \<open>null\<close> are the one value \<open>None\<close>.
\<close>

named_theorems js_simps "equations of the JavaScript helpers"
named_theorems inv_intros "preservation of component invariants"

type_synonym timestamp = int
type_synonym version = int
type_synonym ident = string

subsection \<open>Numbers\<close>

definition clamp :: "real \<Rightarrow> real \<Rightarrow> real \<Rightarrow> real" where
  "clamp value lo hi = max lo (min hi value)"

definition js_round :: "real \<Rightarrow> int" where
  "js_round x = \<lfloor>x + 1 / 2\<rfloor>"

definition round2 :: "real \<Rightarrow> real" where
  "round2 value = real_of_int (js_round (value * 100)) / 100"

lemma clamp_bounds: "lo \<le> hi \<Longrightarrow> lo \<le> clamp v lo hi \<and> clamp v lo hi \<le> hi"
  by (auto simp: clamp_def)

lemma clamp_in: "lo \<le> v \<Longrightarrow> v \<le> hi \<Longrightarrow> clamp v lo hi = v"
  by (auto simp: clamp_def)

lemma clamp_idem [simp]: "lo \<le> hi \<Longrightarrow> clamp (clamp v lo hi) lo hi = clamp v lo hi"
  by (auto simp: clamp_def)

lemma js_round_mono: "x \<le> y \<Longrightarrow> js_round x \<le> js_round y"
  unfolding js_round_def by (rule floor_mono) simp

lemma js_round_of_int [simp]: "js_round (real_of_int n) = n"
  unfolding js_round_def by linarith

lemma round2_mono: "x \<le> y \<Longrightarrow> round2 x \<le> round2 y"
  unfolding round2_def using js_round_mono [of "x * 100" "y * 100"] by simp

lemma round2_of_int: "round2 (real_of_int n) = real_of_int n"
proof -
  have "js_round (real_of_int n * 100) = n * 100"
    using js_round_of_int [of "n * 100"] by simp
  then show ?thesis by (simp add: round2_def)
qed

lemma round2_const [simp]: "round2 0 = 0" "round2 1 = 1" "round2 100 = 100"
  using round2_of_int [of 0] round2_of_int [of 1] round2_of_int [of 100] by simp_all

lemma round2_between:
  "real_of_int a \<le> x \<Longrightarrow> x \<le> real_of_int b \<Longrightarrow> real_of_int a \<le> round2 x \<and> round2 x \<le> real_of_int b"
  using round2_mono [of "real_of_int a" x] round2_mono [of x "real_of_int b"]
  by (simp add: round2_of_int)

subsection \<open>Decimal rendering of integers\<close>

fun show_nat :: "nat \<Rightarrow> string" where
  "show_nat n = (if n < 10 then [char_of (48 + n)] else show_nat (n div 10) @ [char_of (48 + n mod 10)])"

declare show_nat.simps [simp del]

definition show_int :: "int \<Rightarrow> string" where
  "show_int i = (if i < 0 then CHR ''-'' # show_nat (nat (- i)) else show_nat (nat i))"

definition read_digits :: "string \<Rightarrow> nat" where
  "read_digits s = foldl (\<lambda>acc c. acc * 10 + (of_char c - 48)) 0 s"

lemma of_char_digit: "d < 10 \<Longrightarrow> (of_char (char_of (48 + d :: nat)) :: nat) = 48 + d"
  by (simp only: of_char_of) simp

lemma read_digits_snoc: "read_digits (s @ [c]) = read_digits s * 10 + (of_char c - 48)"
  by (simp add: read_digits_def)

lemma read_show_nat [simp]: "read_digits (show_nat n) = n"
proof (induction n rule: show_nat.induct)
  case (1 n)
  show ?case
  proof (cases "n < 10")
    case True
    then show ?thesis
      by (subst show_nat.simps) (simp only: if_True read_digits_def foldl.simps of_char_digit)
  next
    case False
    have "of_char (char_of (48 + n mod 10)) = 48 + n mod 10" by (rule of_char_digit) simp
    with False 1 show ?thesis
      by (subst show_nat.simps) (simp only: if_False read_digits_snoc, simp)
  qed
qed

lemma show_nat_digits: "c \<in> set (show_nat n) \<Longrightarrow> (48::nat) \<le> of_char c \<and> of_char c < (58::nat)"
proof (induction n rule: show_nat.induct)
  case (1 n)
  show ?case
  proof (cases "n < 10")
    case True
    with "1.prems" show ?thesis
      by (subst (asm) show_nat.simps) (auto simp only: if_True list.set of_char_digit)
  next
    case False
    have last: "of_char (char_of (48 + n mod 10)) = 48 + n mod 10" by (rule of_char_digit) simp
    from "1.prems" False have "c \<in> set (show_nat (n div 10)) \<or> c = char_of (48 + n mod 10)"
      by (subst (asm) show_nat.simps) auto
    with "1.IH" False last show ?thesis by auto
  qed
qed

lemma show_nat_inj: "show_nat m = show_nat n \<Longrightarrow> m = n"
  by (metis read_show_nat)

lemma show_int_inj: "show_int i = show_int j \<Longrightarrow> i = j"
proof -
  assume eq: "show_int i = show_int j"
  have no_minus: "CHR ''-'' \<notin> set (show_nat n)" for n
    using show_nat_digits [of "CHR ''-''" n] by auto
  have signs: "i < 0 \<longleftrightarrow> j < 0"
    using eq no_minus by (auto simp: show_int_def split: if_splits) (metis list.set_intros(1))+
  have "nat \<bar>i\<bar> = nat \<bar>j\<bar>"
    using eq signs by (auto simp: show_int_def split: if_splits dest!: show_nat_inj)
  with signs show "i = j" by linarith
qed

lemma show_int_no_colon: "CHR '':'' \<notin> set (show_int i)"
  using show_nat_digits [of "CHR '':''"] by (auto simp: show_int_def)

lemma split_at_unique:
  "xs @ c # ys = xs' @ c # ys' \<Longrightarrow> c \<notin> set xs \<Longrightarrow> c \<notin> set xs' \<Longrightarrow> xs = xs' \<and> ys = ys'"
  by (induction xs arbitrary: xs') (metis append_Nil list.inject list.set_intros(1) neq_Nil_conv append_Cons, case_tac xs', auto)

subsection \<open>Nullish coalescing and truthiness\<close>

definition nullish :: "'a option \<Rightarrow> 'a option \<Rightarrow> 'a option" where
  "nullish a b = (case a of None \<Rightarrow> b | Some x \<Rightarrow> Some x)"

definition default_to :: "'a option \<Rightarrow> 'a \<Rightarrow> 'a" where
  "default_to a d = (case a of None \<Rightarrow> d | Some x \<Rightarrow> x)"

definition or_num :: "'a::zero \<Rightarrow> 'a \<Rightarrow> 'a" where
  "or_num a b = (if a = 0 then b else a)"

lemma nullish_simps [simp]:
  "nullish None b = b" "nullish (Some x) b = Some x" "nullish a None = a" "nullish a a = a"
  by (auto simp: nullish_def split: option.splits)

lemma default_to_simps [simp]: "default_to None d = d" "default_to (Some x) d = x"
  by (simp_all add: default_to_def)

lemma nullish_absorb [simp]: "nullish a (nullish a b) = nullish a b"
  by (simp add: nullish_def split: option.splits)

subsection \<open>Insertion-ordered sets\<close>

text \<open>A JavaScript \<open>Set\<close> is a list without duplicates; \<open>add\<close> of a present element does nothing.\<close>

definition set_add :: "'a \<Rightarrow> 'a list \<Rightarrow> 'a list" where
  "set_add x xs = (if x \<in> set xs then xs else xs @ [x])"

definition dedup :: "'a list \<Rightarrow> 'a list" where
  "dedup xs = foldl (\<lambda>acc x. set_add x acc) [] xs"

lemma set_add_set [simp]: "set (set_add x xs) = insert x (set xs)"
  by (auto simp: set_add_def)

lemma distinct_set_add [simp]: "distinct (set_add x xs) = distinct xs"
  by (auto simp: set_add_def)

lemma foldl_set_add:
  "set (foldl (\<lambda>acc x. set_add x acc) ys xs) = set ys \<union> set xs"
  "distinct ys \<Longrightarrow> distinct (foldl (\<lambda>acc x. set_add x acc) ys xs)"
  by (induction xs arbitrary: ys) auto

lemma set_dedup [simp]: "set (dedup xs) = set xs"
  by (simp add: dedup_def foldl_set_add)

lemma distinct_dedup [simp]: "distinct (dedup xs)"
  by (simp add: dedup_def foldl_set_add)

lemma foldl_set_add_distinct:
  "distinct (ys @ xs) \<Longrightarrow> foldl (\<lambda>acc x. set_add x acc) ys xs = ys @ xs"
proof (induction xs arbitrary: ys)
  case (Cons x xs)
  then have "set_add x ys = ys @ [x]" by (auto simp: set_add_def)
  with Cons show ?case by simp
qed simp

lemma dedup_distinct: "distinct xs \<Longrightarrow> dedup xs = xs"
  unfolding dedup_def using foldl_set_add_distinct [of "[]" xs] by simp

lemma foldl_set_add_absorb:
  "set xs \<subseteq> set ys \<Longrightarrow> foldl (\<lambda>acc x. set_add x acc) ys xs = ys"
  by (induction xs) (auto simp: set_add_def)

lemma dedup_append_absorb:
  assumes "set ys \<subseteq> set xs" shows "dedup (dedup xs @ ys) = dedup xs"
proof -
  have "foldl (\<lambda>acc x. set_add x acc) [] (dedup xs) = dedup xs"
    using dedup_distinct [OF distinct_dedup] by (simp only: dedup_def)
  with assms show ?thesis
    unfolding dedup_def [of "dedup xs @ ys"] by (simp add: foldl_set_add_absorb)
qed

subsection \<open>Insertion-ordered maps\<close>

text \<open>
  A JavaScript \<open>Map\<close> (and a plain object used as a dictionary) is an association list in
  insertion order: writing a present key keeps its place, a new key goes to the end, and
  deleting removes the entry. The contract that the components rely on is the locale; its
  instance is the association list.
\<close>

type_synonym ('k, 'v) jsmap = "('k \<times> 'v) list"

abbreviation js_get :: "('k, 'v) jsmap \<Rightarrow> 'k \<Rightarrow> 'v option" where
  "js_get m k \<equiv> map_of m k"

abbreviation js_put :: "'k \<Rightarrow> 'v \<Rightarrow> ('k, 'v) jsmap \<Rightarrow> ('k, 'v) jsmap" where
  "js_put k v m \<equiv> AList.update k v m"

abbreviation js_remove :: "'k \<Rightarrow> ('k, 'v) jsmap \<Rightarrow> ('k, 'v) jsmap" where
  "js_remove k m \<equiv> AList.delete k m"

definition js_keys :: "('k, 'v) jsmap \<Rightarrow> 'k list" where
  "js_keys m = map fst m"

definition js_values :: "('k, 'v) jsmap \<Rightarrow> 'v list" where
  "js_values m = map snd m"

definition wf_map :: "('k, 'v) jsmap \<Rightarrow> bool" where
  "wf_map m \<longleftrightarrow> distinct (map fst m)"

locale dictionary =
  fixes empty :: 'm
    and lookup :: "'m \<Rightarrow> 'k \<Rightarrow> 'v option"
    and insert_at :: "'k \<Rightarrow> 'v \<Rightarrow> 'm \<Rightarrow> 'm"
    and remove_at :: "'k \<Rightarrow> 'm \<Rightarrow> 'm"
    and keys :: "'m \<Rightarrow> 'k list"
    and invar :: "'m \<Rightarrow> bool"
  assumes lookup_empty: "lookup empty k = None"
    and lookup_insert: "lookup (insert_at k v m) = (lookup m)(k := Some v)"
    and lookup_remove: "invar m \<Longrightarrow> lookup (remove_at k m) = (lookup m)(k := None)"
    and invar_empty: "invar empty"
    and invar_insert: "invar m \<Longrightarrow> invar (insert_at k v m)"
    and invar_remove: "invar m \<Longrightarrow> invar (remove_at k m)"
    and keys_lookup: "set (keys m) = {k. lookup m k \<noteq> None}"
    and keys_distinct: "invar m \<Longrightarrow> distinct (keys m)"
    and insert_present: "lookup m k = Some v \<Longrightarrow> insert_at k v m = m"
begin

lemma lookup_insert_all:
  "lookup (foldl (\<lambda>acc kv. insert_at (fst kv) (snd kv) acc) m kvs) = lookup m ++ map_of (rev kvs)"
  by (induction kvs arbitrary: m) (auto simp: lookup_insert map_add_def fun_eq_iff split: option.splits)

lemma invar_insert_all:
  "invar m \<Longrightarrow> invar (foldl (\<lambda>acc kv. insert_at (fst kv) (snd kv) acc) m kvs)"
  by (induction kvs arbitrary: m) (auto intro: invar_insert)

lemma insert_all_present:
  "(\<And>k v. (k, v) \<in> set kvs \<Longrightarrow> lookup m k = Some v) \<Longrightarrow>
    foldl (\<lambda>acc kv. insert_at (fst kv) (snd kv) acc) m kvs = m"
  by (induction kvs) (auto simp: insert_present)

lemma keys_insert: "set (keys (insert_at k v m)) = insert k (set (keys m))"
  by (auto simp: keys_lookup lookup_insert)

lemma keys_remove: "invar m \<Longrightarrow> set (keys (remove_at k m)) = set (keys m) - {k}"
  by (auto simp: keys_lookup lookup_remove split: if_splits)

end

lemma update_present: "map_of m k = Some v \<Longrightarrow> AList.update k v m = m"
  by (induction m) auto

interpretation jsm: dictionary "[]" map_of AList.update AList.delete "map fst" wf_map
proof unfold_locales
  show "set (map fst m) = {k. map_of m k \<noteq> None}" for m :: "('a \<times> 'b) list"
    by (auto simp: map_of_eq_None_iff image_iff)
qed (auto simp: wf_map_def update_conv' delete_conv' distinct_update distinct_delete update_present)

lemmas js_map_simps = update_conv' delete_conv'

lemma wf_map_value_cases:
  assumes "v \<in> set (js_values m)" "wf_map m" obtains k where "map_of m k = Some v"
  using assms by (auto simp: js_values_def wf_map_def)

lemma js_values_map: "wf_map m \<Longrightarrow> v \<in> set (js_values m) \<longleftrightarrow> (\<exists>k. map_of m k = Some v)"
  by (force simp: js_values_def wf_map_def dest: map_of_SomeD)

lemma js_values_update:
  "v \<in> set (js_values (AList.update k w m)) \<Longrightarrow> v = w \<or> v \<in> set (js_values m)"
  by (induction m) (auto simp: js_values_def split: if_splits)

lemma length_js_values [simp]: "length (js_values m) = length m"
  by (simp add: js_values_def)

subsection \<open>The comparator sort\<close>

text \<open>
  \<open>xs.sort(cmp)\<close> is stable. The comparator is given by its negative cases: \<open>lt a b\<close> stands
  for \<open>cmp(a, b) < 0\<close>. Every comparator of the modelled code is a strict weak order, the
  contract of the locale, under which the sort is determined.
\<close>

fun sort_ins :: "('a \<Rightarrow> 'a \<Rightarrow> bool) \<Rightarrow> 'a \<Rightarrow> 'a list \<Rightarrow> 'a list" where
  "sort_ins lt x [] = [x]"
| "sort_ins lt x (y # ys) = (if lt y x then y # sort_ins lt x ys else x # y # ys)"

definition js_sort :: "('a \<Rightarrow> 'a \<Rightarrow> bool) \<Rightarrow> 'a list \<Rightarrow> 'a list" where
  "js_sort lt xs = foldr (sort_ins lt) xs []"

lemma mset_sort_ins [simp]: "mset (sort_ins lt x ys) = add_mset x (mset ys)"
  by (induction ys) auto

lemma mset_js_sort [simp]: "mset (js_sort lt xs) = mset xs"
  by (induction xs) (auto simp: js_sort_def)

lemma set_js_sort [simp]: "set (js_sort lt xs) = set xs"
  by (metis mset_js_sort set_mset_mset)

lemma length_js_sort [simp]: "length (js_sort lt xs) = length xs"
  by (metis mset_js_sort size_mset)

lemma js_sort_single [simp]: "js_sort lt [x] = [x]"
  by (simp add: js_sort_def)

lemma js_sort_Nil_iff [simp]: "js_sort lt xs = [] \<longleftrightarrow> xs = []"
  by (metis length_0_conv length_js_sort)

locale comparator =
  fixes lt :: "'a \<Rightarrow> 'a \<Rightarrow> bool"
  assumes lt_asym: "lt x y \<Longrightarrow> \<not> lt y x"
    and lt_split: "lt x z \<Longrightarrow> lt x y \<or> lt y z"
begin

lemma lt_trans: "lt x y \<Longrightarrow> lt y z \<Longrightarrow> lt x z"
  using lt_asym lt_split by blast

lemma sorted_sort_ins:
  "sorted_wrt (\<lambda>a b. \<not> lt b a) ys \<Longrightarrow> sorted_wrt (\<lambda>a b. \<not> lt b a) (sort_ins lt x ys)"
proof (induction ys)
  case (Cons y ys)
  have mem: "set (sort_ins lt x ys) = insert x (set ys)"
    using mset_sort_ins [of lt x ys] by (metis set_mset_add_mset_insert set_mset_mset)
  show ?case
  proof (cases "lt y x")
    case True
    with Cons mem show ?thesis by (auto dest: lt_asym)
  next
    case False
    then have "\<not> lt b x" if "b \<in> set ys" for b
      using Cons.prems that lt_split [of b x y] by auto
    with False Cons.prems show ?thesis by auto
  qed
qed simp

lemma sorted_js_sort: "sorted_wrt (\<lambda>a b. \<not> lt b a) (js_sort lt xs)"
  by (induction xs) (auto simp: js_sort_def intro: sorted_sort_ins)

lemma js_sort_head_least:
  assumes "js_sort lt xs = b # rest" shows "b \<in> set xs \<and> (\<forall>x. x \<in> set xs \<longrightarrow> \<not> lt x b)"
proof -
  have "set xs = set (b # rest)" using assms set_js_sort [of lt xs] by simp
  moreover have "\<not> lt b b" using lt_asym by blast
  ultimately show ?thesis using sorted_js_sort [of xs] assms by auto
qed

lemma filter_sort_ins:
  assumes "\<And>a b. P a \<Longrightarrow> P b \<Longrightarrow> \<not> lt a b"
  shows "filter P (sort_ins lt x ys) = (if P x then x # filter P ys else filter P ys)"
  using assms by (induction ys) auto

text \<open>Elements the comparator does not separate keep their order.\<close>

lemma js_sort_stable:
  assumes "\<And>a b. P a \<Longrightarrow> P b \<Longrightarrow> \<not> lt a b"
  shows "filter P (js_sort lt xs) = filter P xs"
  using assms by (induction xs) (auto simp: js_sort_def filter_sort_ins)

end

text \<open>\<open>c1 || c2\<close> consults the second comparator where the first is zero.\<close>

definition then_by :: "('a \<Rightarrow> 'a \<Rightarrow> bool) \<Rightarrow> ('a \<Rightarrow> 'a \<Rightarrow> bool) \<Rightarrow> 'a \<Rightarrow> 'a \<Rightarrow> bool" where
  "then_by lt1 lt2 a b \<longleftrightarrow> lt1 a b \<or> (\<not> lt1 b a \<and> lt2 a b)"

definition by_desc :: "('a \<Rightarrow> 'b::linorder) \<Rightarrow> 'a \<Rightarrow> 'a \<Rightarrow> bool" where
  "by_desc f a b \<longleftrightarrow> f b < f a"

definition by_asc :: "('a \<Rightarrow> 'b::linorder) \<Rightarrow> 'a \<Rightarrow> 'a \<Rightarrow> bool" where
  "by_asc f a b \<longleftrightarrow> f a < f b"

lemma comparator_then_by: "comparator lt1 \<Longrightarrow> comparator lt2 \<Longrightarrow> comparator (then_by lt1 lt2)"
  unfolding comparator_def then_by_def by metis

interpretation descending: comparator "by_desc f" for f :: "'a \<Rightarrow> 'b::linorder"
  by unfold_locales (auto simp: by_desc_def)

interpretation ascending: comparator "by_asc f" for f :: "'a \<Rightarrow> 'b::linorder"
  by unfold_locales (auto simp: by_asc_def)

subsection \<open>Ranked states\<close>

text \<open>
  Cell states and target statuses are merged by a rank: the higher rank wins, the incoming
  value at equal ranks. Where the rank separates the values this is a semilattice join, so the
  order in which values arrive does not matter.
\<close>

locale ranked_join =
  fixes rank :: "'a \<Rightarrow> nat" and join :: "'a \<Rightarrow> 'a \<Rightarrow> 'a"
  assumes rank_inj: "rank a = rank b \<Longrightarrow> a = b"
    and join_rank: "join a b = (if rank a \<le> rank b then b else a)"
begin

lemma rank_join: "rank (join a b) = max (rank a) (rank b)"
  by (simp add: join_rank)

lemma join_commute: "join a b = join b a"
  by (rule rank_inj) (simp add: rank_join max.commute)

lemma join_assoc: "join (join a b) c = join a (join b c)"
  by (rule rank_inj) (simp add: rank_join max.assoc)

lemma join_idem: "join a a = a"
  by (simp add: join_rank)

lemma join_absorb: "rank b \<le> rank a \<Longrightarrow> join a b = a"
  by (rule rank_inj) (simp add: rank_join)

lemma rank_foldl_join: "rank (foldl join a xs) = foldl max (rank a) (map rank xs)"
  by (induction xs arbitrary: a) (simp_all add: rank_join)

lemma foldl_max_Max: "foldl max (n::nat) xs = Max (insert n (set xs))"
proof (induction xs arbitrary: n)
  case (Cons x xs)
  then show ?case by (cases "set xs = {}") (auto simp: max.assoc max.commute max.left_commute)
qed simp

lemma foldl_join_set:
  assumes "insert a (set xs) = insert b (set ys)" shows "foldl join a xs = foldl join b ys"
proof (rule rank_inj)
  have "insert (rank a) (rank ` set xs) = insert (rank b) (rank ` set ys)"
    using assms by (metis image_insert)
  then show "rank (foldl join a xs) = rank (foldl join b ys)"
    by (simp add: rank_foldl_join foldl_max_Max)
qed

end

subsection \<open>JSON values, object spread and hashing\<close>

datatype json =
    JNull
  | JBool bool
  | JNum real
  | JStr string
  | JArr "json list"
  | JObj "(string \<times> json) list"

type_synonym obj = "(string \<times> json) list"

text \<open>\<open>{ ...m1, ...m2 }\<close>\<close>

definition obj_spread :: "obj \<Rightarrow> obj \<Rightarrow> obj" where
  "obj_spread m1 m2 = foldl (\<lambda>acc kv. js_put (fst kv) (snd kv) acc) m1 m2"

lemma wf_obj_spread: "wf_map m1 \<Longrightarrow> wf_map (obj_spread m1 m2)"
  unfolding obj_spread_def by (rule jsm.invar_insert_all)

lemma map_of_rev_distinct: "distinct (map fst m) \<Longrightarrow> map_of (rev m) = map_of m"
  by (induction m) (auto simp: map_add_def fun_eq_iff map_of_eq_None_iff[symmetric] split: option.splits)

lemma map_of_obj_spread: "wf_map m2 \<Longrightarrow> map_of (obj_spread m1 m2) = map_of m1 ++ map_of m2"
  unfolding obj_spread_def jsm.lookup_insert_all
  by (rule arg_cong [where f = "(++) (map_of m1)"]) (simp add: map_of_rev_distinct wf_map_def)

lemma obj_spread_absorb: "wf_map m2 \<Longrightarrow> obj_spread (obj_spread m1 m2) m2 = obj_spread m1 m2"
  unfolding obj_spread_def [of "obj_spread m1 m2"]
  by (rule jsm.insert_all_present) (auto simp: map_of_obj_spread wf_map_def)

text \<open>
  \<open>stableStringify\<close> rebuilds the value with sorted keys before \<open>JSON.stringify\<close>; the model stops
  at the rebuilt tree, which the rendering determines and is determined by. Values are trees, so
  the \<open>"[Circular]"\<close> marker never occurs. \<open>hashObject\<close> feeds the rendering to SHA-256, which is
  the parameter \<open>H\<close> of every definition that hashes.
\<close>

primrec stable :: "json \<Rightarrow> json" where
  "stable JNull = JNull"
| "stable (JBool b) = JBool b"
| "stable (JNum r) = JNum r"
| "stable (JStr s) = JStr s"
| "stable (JArr xs) = JArr (map stable xs)"
| "stable (JObj kvs) = JObj (sort_key fst (map (map_prod id stable) kvs))"

type_synonym hasher = "json \<Rightarrow> string"

definition hash_object :: "hasher \<Rightarrow> json \<Rightarrow> string" where
  "hash_object H v = H (stable v)"

definition opt_str :: "string option \<Rightarrow> json" where
  "opt_str s = (case s of None \<Rightarrow> JNull | Some x \<Rightarrow> JStr x)"

definition opt_int :: "int option \<Rightarrow> json" where
  "opt_int s = (case s of None \<Rightarrow> JNull | Some x \<Rightarrow> JNum (of_int x))"

definition jint :: "int \<Rightarrow> json" where
  "jint i = JNum (of_int i)"

definition jstrs :: "string list \<Rightarrow> json" where
  "jstrs xs = JArr (map JStr xs)"

definition hash_free_of_collisions :: "hasher \<Rightarrow> json set \<Rightarrow> bool" where
  "hash_free_of_collisions H S \<longleftrightarrow>
     (\<forall>u v. u \<in> S \<and> v \<in> S \<and> hash_object H u = hash_object H v \<longrightarrow> stable u = stable v)"

lemma map_of_sort_key: "distinct (map fst kvs) \<Longrightarrow> map_of (sort_key fst kvs) = map_of kvs"
proof -
  assume d: "distinct (map fst kvs)"
  have "mset (map fst (sort_key fst kvs)) = mset (map fst kvs)" by simp
  with d have "distinct (map fst (sort_key fst kvs))" using mset_eq_imp_distinct_iff by blast
  with d show ?thesis by (simp add: map_of_inject_set)
qed

lemma stable_obj_lookup:
  assumes "stable (JObj a) = stable (JObj b)" "distinct (map fst a)" "distinct (map fst b)"
  shows "map_option stable (map_of a k) = map_option stable (map_of b k)"
proof -
  have keys: "map fst (map (map_prod id stable) c) = map fst c" for c :: obj by simp
  have look: "map_of (map (map_prod id stable) c) k = map_option stable (map_of c k)" for c :: obj
    by (induction c) auto
  from assms(1) have "map_of (sort_key fst (map (map_prod id stable) a)) k =
      map_of (sort_key fst (map (map_prod id stable) b)) k" by simp
  then show ?thesis
    using map_of_sort_key [of "map (map_prod id stable) a"] map_of_sort_key [of "map (map_prod id stable) b"] assms(2,3)
    by (simp add: keys look)
qed

subsection \<open>The environment of one call\<close>

text \<open>
  \<open>Date.now()\<close> is read once per modelled call, and \<open>randomUUID()\<close> yields \<open>uuid env 0\<close>,
  \<open>uuid env 1\<close>, \<dots> in the order of the calls.
\<close>

record js_env =
  now_ms :: timestamp
  uuid :: "nat \<Rightarrow> string"

definition new_id :: "js_env \<Rightarrow> nat \<Rightarrow> string \<Rightarrow> ident" where
  "new_id env i prefix = prefix @ ''-'' @ uuid env i"

definition later_ids :: "nat \<Rightarrow> js_env \<Rightarrow> js_env" where
  "later_ids k env = env\<lparr>uuid := (\<lambda>i. uuid env (k + i))\<rparr>"

subsection \<open>Strings\<close>

definition ascii_lower :: "char \<Rightarrow> char" where
  "ascii_lower c = (if (65::nat) \<le> of_char c \<and> of_char c \<le> (90::nat) then char_of (of_char c + (32::nat)) else c)"

definition to_lower :: "string \<Rightarrow> string" where
  "to_lower s = map ascii_lower s"

fun starts_with :: "string \<Rightarrow> string \<Rightarrow> bool" where
  "starts_with s [] = True"
| "starts_with [] (_ # _) = False"
| "starts_with (a # s) (b # t) = (a = b \<and> starts_with s t)"

fun str_includes :: "string \<Rightarrow> string \<Rightarrow> bool" where
  "str_includes [] t = (t = [])"
| "str_includes (a # s) t = (starts_with (a # s) t \<or> str_includes s t)"

fun str_join :: "string \<Rightarrow> string list \<Rightarrow> string" where
  "str_join sep [] = []"
| "str_join sep [x] = x"
| "str_join sep (x # y # xs) = x @ sep @ str_join sep (y # xs)"

definition slice_tail :: "nat \<Rightarrow> 'a list \<Rightarrow> 'a list" where
  "slice_tail n xs = (if n = 0 then xs else drop (length xs - n) xs)"

subsection \<open>JSON text\<close>

text \<open>
  \<open>JSON.stringify\<close> without indentation. The rendering of numbers, which is that of IEEE doubles,
  is the parameter \<open>num_str\<close> of the record of library functions; integers that the code
  interpolates into templates are rendered by \<open>show_int\<close>. \<open>Number(v)\<close> is \<open>to_number\<close>.
\<close>

record js_lib =
  sha :: hasher
  num_str :: "real \<Rightarrow> string"
  to_number :: "json \<Rightarrow> real"

text \<open>\<open>String(v)\<close>\<close>

primrec js_string :: "(real \<Rightarrow> string) \<Rightarrow> json \<Rightarrow> string" where
  "js_string ns JNull = ''null''"
| "js_string ns (JBool b) = (if b then ''true'' else ''false'')"
| "js_string ns (JNum r) = ns r"
| "js_string ns (JStr s) = s"
| "js_string ns (JArr xs) =
     str_join '','' (map (\<lambda>p. if fst p = JNull then [] else snd p) (map (\<lambda>x. (x, js_string ns x)) xs))"
| "js_string ns (JObj kvs) = ''[object Object]''"

definition hex_digit :: "nat \<Rightarrow> char" where
  "hex_digit n = (if n < 10 then char_of (48 + n) else char_of (87 + n))"

definition json_escape :: "char \<Rightarrow> string" where
  "json_escape c =
     (let n = of_char c :: nat
      in if n = 34 then [char_of (92::nat), c]
         else if n = 92 then [c, c]
         else if n = 8 then [char_of (92::nat), CHR ''b'']
         else if n = 9 then [char_of (92::nat), CHR ''t'']
         else if n = 10 then [char_of (92::nat), CHR ''n'']
         else if n = 12 then [char_of (92::nat), CHR ''f'']
         else if n = 13 then [char_of (92::nat), CHR ''r'']
         else if n < 32 then [char_of (92::nat), CHR ''u'', CHR ''0'', CHR ''0'', hex_digit (n div 16), hex_digit (n mod 16)]
         else [c])"

definition json_quote :: "string \<Rightarrow> string" where
  "json_quote s = char_of (34::nat) # concat (map json_escape s) @ [char_of (34::nat)]"

primrec json_text :: "(real \<Rightarrow> string) \<Rightarrow> json \<Rightarrow> string" where
  "json_text ns JNull = ''null''"
| "json_text ns (JBool b) = (if b then ''true'' else ''false'')"
| "json_text ns (JNum r) = ns r"
| "json_text ns (JStr s) = json_quote s"
| "json_text ns (JArr xs) = ''['' @ str_join '','' (map (json_text ns) xs) @ '']''"
| "json_text ns (JObj kvs) =
     ''{'' @ str_join '','' (map (\<lambda>kv. json_quote (fst kv) @ '':'' @ snd kv)
       (map (map_prod id (json_text ns)) kvs)) @ ''}''"

end
