(* ===== verification/MissionPhases.thy ===== *)
theory MissionPhases
  imports Prelude
begin

section \<open>Mission phases and the mission read model\<close>

text \<open>
  Models \<open>src/src/backend/shared/mission-phases.ts\<close> (the phases, the nominal pipeline, the
  phases Vertex may commit next, the Lattice readiness gate) and
  \<open>src/src/backend/shared/mission-state.ts\<close> (the canonical read model and its empty value).
  The lemmas describe the paths the Vertex contract admits.
\<close>

datatype mission_phase =
    PInit | PDiscovery | PSearch | PTriage | PRescue | PExtraction | PReturn | PComplete | PAborted

definition MISSION_PHASES :: "mission_phase list" where
  "MISSION_PHASES =
     [PInit, PDiscovery, PSearch, PTriage, PRescue, PExtraction, PReturn, PComplete, PAborted]"

fun phase_str :: "mission_phase \<Rightarrow> string" where
  "phase_str PInit = ''init''"
| "phase_str PDiscovery = ''discovery''"
| "phase_str PSearch = ''search''"
| "phase_str PTriage = ''triage''"
| "phase_str PRescue = ''rescue''"
| "phase_str PExtraction = ''extraction''"
| "phase_str PReturn = ''return''"
| "phase_str PComplete = ''complete''"
| "phase_str PAborted = ''aborted''"

definition TERMINAL_PHASES :: "mission_phase list" where
  "TERMINAL_PHASES = [PComplete, PAborted]"

definition LINEAR :: "mission_phase list" where
  "LINEAR = [PInit, PDiscovery, PSearch, PTriage, PRescue, PExtraction, PReturn, PComplete]"

text \<open>The module-level loop that fills the \<open>forward\<close> map.\<close>

definition forward :: "(mission_phase, mission_phase) jsmap" where
  "forward = foldl (\<lambda>m i. js_put (LINEAR ! i) (LINEAR ! (i + 1)) m) [] [0..<length LINEAR - 1]"

definition nominalNextPhase :: "mission_phase \<Rightarrow> mission_phase option" where
  "nominalNextPhase from_ph = js_get forward from_ph"

definition validVertexNextPhases :: "mission_phase \<Rightarrow> mission_phase list" where
  "validVertexNextPhases from_ph =
     (if from_ph \<in> set TERMINAL_PHASES then []
      else (case nominalNextPhase from_ph of None \<Rightarrow> [] | Some next \<Rightarrow> [next])
           @ (if from_ph = PSearch then [PDiscovery] else [])
           @ [PAborted])"

record phase_gate_context =
  peerCount :: int
  hasThermal :: bool
  hasRelay :: bool
  hasCarrier :: bool

definition latticePhaseReadiness :: "mission_phase \<Rightarrow> phase_gate_context \<Rightarrow> bool \<times> string option" where
  "latticePhaseReadiness phase ctx =
     (if phase = PInit \<or> phase = PAborted \<or> phase = PComplete then (True, None)
      else if peerCount ctx < 1 then (False, Some ''no_nodes'')
      else if phase = PDiscovery \<or> phase = PSearch then (peerCount ctx \<ge> 1, None)
      else if phase = PTriage then (peerCount ctx \<ge> 1, None)
      else if phase = PRescue then (peerCount ctx \<ge> 1, None)
      else if phase = PExtraction then
        (if \<not> hasCarrier ctx then (False, Some ''need_carrier'') else (True, None))
      else if phase = PReturn then (True, None)
      else (True, None))"

subsection \<open>The mission read model\<close>

text \<open>
  The ledger replay writes payload values into these three types by unchecked casts (\<open>as\<close>); the last
  constructor of each is a value outside the declared union that such a cast lets through.
\<close>

datatype connectivity_mode = CmNormal | CmDegraded | CmPartialPartition | CmBlackout | CmRecovery | CmResync | CmCast json

datatype mission_node_role = MrExplorer | MrRelay | MrCarrier | MrMedic | MrObserver | MrCast json

record roster_entry =
  re_nodeId :: ident
  re_role :: mission_node_role
  re_joinedAtMs :: timestamp
  re_capabilities :: "string list"

record sar_target =
  st_targetId :: ident
  st_discoveredBy :: "ident option"
  st_confirmedByVertex :: "bool option"
  st_notes :: "string option"

record task_assignment =
  ta_taskId :: ident
  ta_nodeId :: ident
  ta_taskType :: string
  ta_assignedAtMs :: timestamp

datatype alert_level = AlInfo | AlWarn | AlCritical | AlCast json

record safety_alert =
  al_alertId :: ident
  al_level :: alert_level
  al_message :: string
  al_raisedAtMs :: timestamp
  al_sourceNodeId :: "ident option"

record map_summary =
  su_cellsKnown :: real
  su_lastMergedVersion :: "version option"
  su_bbox :: "((real \<times> real) \<times> (real \<times> real)) option"

record consensus_pointer =
  cp_sequence :: version
  cp_lastEventHash :: string

record mission_state =
  ms_missionId :: ident
  ms_phase :: mission_phase
  ms_scenario :: "string option"
  ms_createdAtMs :: timestamp
  ms_updatedAtMs :: timestamp
  ms_roster :: "(ident, roster_entry) jsmap"
  ms_targets :: "(ident, sar_target) jsmap"
  ms_assignments :: "(ident, task_assignment) jsmap"
  ms_mapSummary :: map_summary
  ms_alerts :: "safety_alert list"
  ms_consensusPointer :: consensus_pointer
  ms_recoveryCheckpoints :: "string list"
  ms_connectivityMode :: "connectivity_mode option"
  ms_completedTaskIds :: "ident list"

definition emptyMissionState :: "ident \<Rightarrow> timestamp \<Rightarrow> mission_state" where
  "emptyMissionState missionId nowMs =
     \<lparr> ms_missionId = missionId, ms_phase = PInit, ms_scenario = None,
       ms_createdAtMs = nowMs, ms_updatedAtMs = nowMs,
       ms_roster = [], ms_targets = [], ms_assignments = [],
       ms_mapSummary = \<lparr> su_cellsKnown = 0, su_lastMergedVersion = None, su_bbox = None \<rparr>,
       ms_alerts = [],
       ms_consensusPointer = \<lparr> cp_sequence = 0, cp_lastEventHash = ''genesis'' \<rparr>,
       ms_recoveryCheckpoints = [], ms_connectivityMode = Some CmNormal, ms_completedTaskIds = [] \<rparr>"

subsection \<open>Paths of the Vertex contract\<close>

lemma forward_pairs:
  "forward = [(PInit, PDiscovery), (PDiscovery, PSearch), (PSearch, PTriage), (PTriage, PRescue),
     (PRescue, PExtraction), (PExtraction, PReturn), (PReturn, PComplete)]"
  by (simp add: forward_def LINEAR_def upt_rec)

lemma nominalNextPhase_simps [simp]:
  "nominalNextPhase PInit = Some PDiscovery" "nominalNextPhase PDiscovery = Some PSearch"
  "nominalNextPhase PSearch = Some PTriage" "nominalNextPhase PTriage = Some PRescue"
  "nominalNextPhase PRescue = Some PExtraction" "nominalNextPhase PExtraction = Some PReturn"
  "nominalNextPhase PReturn = Some PComplete"
  "nominalNextPhase PComplete = None" "nominalNextPhase PAborted = None"
  by (simp_all add: nominalNextPhase_def forward_pairs)

lemma validVertexNextPhases_simps [simp]:
  "validVertexNextPhases PInit = [PDiscovery, PAborted]"
  "validVertexNextPhases PDiscovery = [PSearch, PAborted]"
  "validVertexNextPhases PSearch = [PTriage, PDiscovery, PAborted]"
  "validVertexNextPhases PTriage = [PRescue, PAborted]"
  "validVertexNextPhases PRescue = [PExtraction, PAborted]"
  "validVertexNextPhases PExtraction = [PReturn, PAborted]"
  "validVertexNextPhases PReturn = [PComplete, PAborted]"
  "validVertexNextPhases PComplete = []" "validVertexNextPhases PAborted = []"
  by (simp_all add: validVertexNextPhases_def TERMINAL_PHASES_def)

text \<open>\<open>phase_path next visited p\<close>: a run that starts in \<open>init\<close>, has visited \<open>visited\<close> and is in \<open>p\<close>.\<close>

inductive phase_path :: "(mission_phase \<Rightarrow> mission_phase list) \<Rightarrow> mission_phase list \<Rightarrow> mission_phase \<Rightarrow> bool"
  for nxt :: "mission_phase \<Rightarrow> mission_phase list" where
  path_start: "phase_path nxt [PInit] PInit"
| path_step: "phase_path nxt vs p \<Longrightarrow> q \<in> set (nxt p) \<Longrightarrow> phase_path nxt (vs @ [q]) q"

inductive_cases phase_path_stepE: "phase_path nxt (vs @ [q]) q"

definition linear_prefix :: "mission_phase \<Rightarrow> mission_phase list" where
  "linear_prefix p = (if p = PAborted then [PInit] else takeWhile (\<lambda>x. x \<noteq> p) LINEAR @ [p])"

lemma linear_prefix_step:
  "q \<in> set (validVertexNextPhases p) \<Longrightarrow> set (linear_prefix q) \<subseteq> insert q (set (linear_prefix p))"
  by (cases p; cases q) (simp_all add: linear_prefix_def LINEAR_def)

lemma vertex_path_covers_prefix:
  "phase_path validVertexNextPhases vs p \<Longrightarrow> set (linear_prefix p) \<subseteq> set vs"
proof (induction rule: phase_path.induct)
  case path_start
  show ?case by (simp add: linear_prefix_def LINEAR_def)
next
  case (path_step vs p q)
  then show ?case using linear_prefix_step [of q p] by auto
qed

text \<open>
  C1. A mission that the Vertex ordering contract carries to \<open>complete\<close> has been through every
  phase of the nominal pipeline: no sequence of valid next phases skips one.
\<close>

theorem complete_visits_every_phase:
  assumes "phase_path validVertexNextPhases vs PComplete"
  shows "set LINEAR \<subseteq> set vs"
  using vertex_path_covers_prefix [OF assms] by (simp add: linear_prefix_def LINEAR_def)

lemma nominal_path:
  "phase_path validVertexNextPhases
     [PInit, PDiscovery, PSearch, PTriage, PRescue, PExtraction, PReturn, PComplete] PComplete"
proof -
  have s: "phase_path validVertexNextPhases [PInit] PInit" by (rule path_start)
  have "phase_path validVertexNextPhases ([PInit] @ [PDiscovery]) PDiscovery" by (rule path_step [OF s]) simp
  then have "phase_path validVertexNextPhases (([PInit] @ [PDiscovery]) @ [PSearch]) PSearch" by (rule path_step) simp
  then have "phase_path validVertexNextPhases ((([PInit] @ [PDiscovery]) @ [PSearch]) @ [PTriage]) PTriage"
    by (rule path_step) simp
  note path_step [OF this, of PRescue, simplified]
  note path_step [OF this, of PExtraction, simplified]
  note path_step [OF this, of PReturn, simplified]
  note path_step [OF this, of PComplete, simplified]
  then show ?thesis by simp
qed

theorem complete_visits_every_phase_witness:
  "set LINEAR \<subseteq> set [PInit, PDiscovery, PSearch, PTriage, PRescue, PExtraction, PReturn, PComplete]"
  by (rule complete_visits_every_phase [OF nominal_path])

text \<open>
  The terminal phases are exactly the phases with no valid successor, and every phase that is
  not terminal may be aborted.
\<close>

theorem terminal_iff_no_successor:
  "(p \<in> set TERMINAL_PHASES) = (validVertexNextPhases p = []) \<and>
   (validVertexNextPhases p \<noteq> []) = (PAborted \<in> set (validVertexNextPhases p))"
  by (cases p) (simp_all add: TERMINAL_PHASES_def)

end
