(* ===== verification/SharedMap.thy ===== *)
theory SharedMap
  imports Prelude
begin

section \<open>The monotonic shared map\<close>

text \<open>
  Models the map half of \<open>src/src/backend/shared/tashi-mission-map-machine.ts\<close>: \<open>CellState\<close>,
  \<open>MapCell\<close>, \<open>MapDelta\<close>, \<open>MapSnapshot\<close>, the class \<open>MonotonicSharedMap\<close> and the
  \<open>MapDeltaCoordinator\<close>. The private fields \<open>cells\<close> (a \<open>Map\<close>), \<open>dirty\<close> (a \<open>Set\<close>) and
  \<open>version\<close> are the record \<open>shared_map\<close>; a method that mutates them returns the new record.
  The lemmas show that each operation keeps the well-formedness invariant and only adds
  knowledge, that merging is idempotent, how the dirty set drains, and where concurrent
  replicas lose or never settle.
\<close>

subsection \<open>Data\<close>

datatype cell_state = Unknown | Frontier | Seen | Searched | Blocked | Target | Safe

fun cell_state_str :: "cell_state \<Rightarrow> string" where
  "cell_state_str Unknown = ''unknown''"
| "cell_state_str Frontier = ''frontier''"
| "cell_state_str Seen = ''seen''"
| "cell_state_str Searched = ''searched''"
| "cell_state_str Blocked = ''blocked''"
| "cell_state_str Target = ''target''"
| "cell_state_str Safe = ''safe''"

record map_cell =
  mc_cellId :: ident
  mc_x :: int
  mc_y :: int
  mc_z :: int
  mc_state :: cell_state
  mc_confidence :: real
  mc_owner :: "ident option"
  mc_cost :: real
  mc_lastSeenMs :: timestamp
  mc_version :: version
  mc_confirmedBy :: "ident list"
  mc_metadata :: obj

record map_delta =
  md_deltaId :: ident
  md_mapId :: ident
  md_baseVersion :: version
  md_createdAtMs :: timestamp
  md_sourceNodeId :: ident
  md_cells :: "map_cell list"
  md_reason :: string
  md_metadata :: obj

record map_snapshot =
  sn_mapId :: ident
  sn_version :: version
  sn_updatedAtMs :: timestamp
  sn_cells :: "(ident, map_cell) jsmap"
  sn_frontierCount :: int
  sn_searchedCount :: int
  sn_blockedCount :: int
  sn_targetCount :: int
  sn_exploredCount :: int
  sn_dirtyCount :: int
  sn_coveragePct :: real
  sn_metadata :: obj

record merge_stats =
  inserted :: nat
  updated :: nat
  ignored :: nat

record shared_map =
  sm_mapId :: ident
  sm_cells :: "(ident, map_cell) jsmap"
  sm_dirty :: "ident list"
  sm_version :: version

definition new_shared_map :: "ident \<Rightarrow> shared_map" where
  "new_shared_map mapId = \<lparr> sm_mapId = mapId, sm_cells = [], sm_dirty = [], sm_version = 0 \<rparr>"

definition cellId :: "int \<Rightarrow> int \<Rightarrow> int \<Rightarrow> ident" where
  "cellId x y z = show_int x @ '':'' @ show_int y @ '':'' @ show_int z"

subsection \<open>Private helpers\<close>

definition getVersion :: "shared_map \<Rightarrow> version" where
  "getVersion m = sm_version m"

definition bump :: "shared_map \<Rightarrow> shared_map" where
  "bump m = m\<lparr>sm_version := sm_version m + 1\<rparr>"

definition markDirty :: "ident \<Rightarrow> shared_map \<Rightarrow> shared_map" where
  "markDirty i m = m\<lparr>sm_dirty := set_add i (sm_dirty m)\<rparr>"

definition cells_set :: "ident \<Rightarrow> map_cell \<Rightarrow> shared_map \<Rightarrow> shared_map" where
  "cells_set i c m = m\<lparr>sm_cells := js_put i c (sm_cells m)\<rparr>"

fun stateRank :: "cell_state \<Rightarrow> nat" where
  "stateRank Unknown = 0"
| "stateRank Frontier = 1"
| "stateRank Seen = 2"
| "stateRank Searched = 3"
| "stateRank Safe = 4"
| "stateRank Target = 5"
| "stateRank Blocked = 6"

definition mergeState :: "cell_state \<Rightarrow> cell_state \<Rightarrow> cell_state" where
  "mergeState current incoming =
     (let currentRank = stateRank current; incomingRank = stateRank incoming
      in if incomingRank \<ge> currentRank then incoming
         else if incoming = Target \<and> current \<noteq> Blocked then incoming
         else if incoming = Blocked \<and> current \<noteq> Target then incoming
         else current)"

definition normalizeCell :: "map_cell \<Rightarrow> map_cell" where
  "normalizeCell cell = cell\<lparr> mc_confidence := clamp (mc_confidence cell) 0 1,
     mc_cost := max 0 (mc_cost cell),
     mc_confirmedBy := dedup (mc_confirmedBy cell),
     mc_metadata := obj_spread [] (mc_metadata cell) \<rparr>"

definition currentOrCreate :: "timestamp \<Rightarrow> int \<Rightarrow> int \<Rightarrow> int \<Rightarrow> shared_map \<Rightarrow> map_cell \<times> shared_map" where
  "currentOrCreate now x y z m =
     (let i = cellId x y z
      in case js_get (sm_cells m) i of
           Some current \<Rightarrow> (current, m)
         | None \<Rightarrow>
             (let created = \<lparr> mc_cellId = i, mc_x = x, mc_y = y, mc_z = z, mc_state = Unknown,
                   mc_confidence = 0, mc_owner = None, mc_cost = 1, mc_lastSeenMs = now,
                   mc_version = 0, mc_confirmedBy = [], mc_metadata = [] \<rparr>
              in (created, cells_set i created m)))"

definition resolve :: "map_cell \<Rightarrow> map_cell \<Rightarrow> map_cell" where
  "resolve current incoming =
     (let nextState =
            (if mc_version incoming > mc_version current
             then mergeState (mc_state current) (mc_state incoming)
             else if mc_version incoming = mc_version current
                     \<and> mc_lastSeenMs incoming \<ge> mc_lastSeenMs current
             then mergeState (mc_state current) (mc_state incoming)
             else mc_state current);
          nextConfidence = max (mc_confidence current) (mc_confidence incoming);
          nextCost = min (mc_cost current) (or_num (mc_cost incoming) (mc_cost current));
          nextOwner = nullish (mc_owner incoming) (mc_owner current);
          nextConfirmedBy = dedup (mc_confirmedBy current @ mc_confirmedBy incoming);
          nextMetadata = obj_spread (obj_spread [] (mc_metadata current)) (mc_metadata incoming);
          merged = current\<lparr> mc_state := nextState, mc_confidence := nextConfidence,
            mc_owner := nextOwner, mc_cost := nextCost,
            mc_lastSeenMs := max (mc_lastSeenMs current) (mc_lastSeenMs incoming),
            mc_version := max (mc_version current) (mc_version incoming),
            mc_confirmedBy := nextConfirmedBy, mc_metadata := nextMetadata \<rparr>;
          unchanged =
            (mc_state merged = mc_state current
             \<and> mc_confidence merged = mc_confidence current
             \<and> mc_owner merged = mc_owner current
             \<and> mc_cost merged = mc_cost current
             \<and> mc_lastSeenMs merged = mc_lastSeenMs current
             \<and> mc_version merged = mc_version current
             \<and> stable (JObj (mc_metadata merged)) = stable (JObj (mc_metadata current))
             \<and> stable (jstrs (mc_confirmedBy merged)) = stable (jstrs (mc_confirmedBy current)))
      in if unchanged then current else merged\<lparr>mc_version := mc_version merged + 1\<rparr>)"

subsection \<open>Local updates\<close>

definition upsert :: "map_cell \<Rightarrow> shared_map \<Rightarrow> map_cell \<times> shared_map" where
  "upsert cell m =
     (let incoming = normalizeCell cell;
          next = (case js_get (sm_cells m) (mc_cellId cell) of
                    Some current \<Rightarrow> resolve current incoming
                  | None \<Rightarrow> incoming)
      in (next, bump (markDirty (mc_cellId next) (cells_set (mc_cellId next) next m))))"

text \<open>
  The six \<open>mark\<close> methods repeat one body and differ in the state merged in, the confidence
  floor and the metadata added; \<open>mark_cell\<close> is that body. Default arguments of the source are
  written out by its callers.
\<close>

definition mark_cell :: "timestamp \<Rightarrow> cell_state \<Rightarrow> real \<Rightarrow> obj \<Rightarrow> int \<Rightarrow> int \<Rightarrow> int \<Rightarrow> ident option \<Rightarrow>
    shared_map \<Rightarrow> map_cell \<times> shared_map" where
  "mark_cell now st conf extra x y z owner m =
     (let i = cellId x y z;
          (current, m1) = currentOrCreate now x y z m;
          next = current\<lparr> mc_state := mergeState (mc_state current) st,
            mc_owner := nullish owner (mc_owner current),
            mc_confidence := max (mc_confidence current) conf,
            mc_lastSeenMs := now,
            mc_version := mc_version current + 1,
            mc_metadata := obj_spread (obj_spread [] (mc_metadata current)) extra \<rparr>
      in (next, bump (markDirty i (cells_set i next m1))))"

definition markSeen :: "timestamp \<Rightarrow> int \<Rightarrow> int \<Rightarrow> int \<Rightarrow> ident option \<Rightarrow> real \<Rightarrow> obj \<Rightarrow> shared_map \<Rightarrow> map_cell \<times> shared_map" where
  "markSeen now x y z owner confidence metadata m = mark_cell now Seen confidence metadata x y z owner m"

definition markFrontier :: "timestamp \<Rightarrow> int \<Rightarrow> int \<Rightarrow> int \<Rightarrow> ident option \<Rightarrow> shared_map \<Rightarrow> map_cell \<times> shared_map" where
  "markFrontier now x y z owner m =
     mark_cell now Frontier (35 / 100) [(''frontier'', JBool True)] x y z owner m"

definition markSearched :: "timestamp \<Rightarrow> int \<Rightarrow> int \<Rightarrow> int \<Rightarrow> ident option \<Rightarrow> real \<Rightarrow> shared_map \<Rightarrow> map_cell \<times> shared_map" where
  "markSearched now x y z owner confidence m =
     mark_cell now Searched confidence [(''searched'', JBool True)] x y z owner m"

definition markBlocked :: "timestamp \<Rightarrow> int \<Rightarrow> int \<Rightarrow> int \<Rightarrow> ident option \<Rightarrow> string \<Rightarrow> shared_map \<Rightarrow> map_cell \<times> shared_map" where
  "markBlocked now x y z owner reason m =
     mark_cell now Blocked 1 [(''blocked'', JBool True), (''reason'', JStr reason)] x y z owner m"

definition markTarget :: "timestamp \<Rightarrow> int \<Rightarrow> int \<Rightarrow> int \<Rightarrow> ident option \<Rightarrow> string \<Rightarrow> real \<Rightarrow> shared_map \<Rightarrow> map_cell \<times> shared_map" where
  "markTarget now x y z owner targetType confidence m =
     mark_cell now Target confidence [(''targetType'', JStr targetType)] x y z owner m"

definition markSafe :: "timestamp \<Rightarrow> int \<Rightarrow> int \<Rightarrow> int \<Rightarrow> ident option \<Rightarrow> shared_map \<Rightarrow> map_cell \<times> shared_map" where
  "markSafe now x y z owner m =
     mark_cell now Safe (75 / 100) [(''safe'', JBool True)] x y z owner m"

subsection \<open>Merging a remote replica\<close>

definition cell_changed :: "map_cell \<Rightarrow> map_cell \<Rightarrow> bool" where
  "cell_changed resolved current \<longleftrightarrow>
     mc_state resolved \<noteq> mc_state current
     \<or> mc_confidence resolved \<noteq> mc_confidence current
     \<or> mc_owner resolved \<noteq> mc_owner current
     \<or> mc_cost resolved \<noteq> mc_cost current
     \<or> mc_lastSeenMs resolved \<noteq> mc_lastSeenMs current
     \<or> mc_version resolved \<noteq> mc_version current
     \<or> stable (JObj (mc_metadata resolved)) \<noteq> stable (JObj (mc_metadata current))
     \<or> stable (jstrs (mc_confirmedBy resolved)) \<noteq> stable (jstrs (mc_confirmedBy current))"

text \<open>One turn of the \<open>for\<close> loop over the remote cells.\<close>

definition merge_one :: "map_cell \<Rightarrow> merge_stats \<times> shared_map \<Rightarrow> merge_stats \<times> shared_map" where
  "merge_one remote acc =
     (let (stats, m) = acc; normalized = normalizeCell remote
      in case js_get (sm_cells m) (mc_cellId remote) of
           None \<Rightarrow> (stats\<lparr>inserted := inserted stats + 1\<rparr>,
                    markDirty (mc_cellId normalized) (cells_set (mc_cellId normalized) normalized m))
         | Some current \<Rightarrow>
             (let resolved = resolve current normalized
              in if cell_changed resolved current
                 then (stats\<lparr>updated := updated stats + 1\<rparr>,
                       markDirty (mc_cellId resolved) (cells_set (mc_cellId resolved) resolved m))
                 else (stats\<lparr>ignored := ignored stats + 1\<rparr>, m)))"

definition merge_loop :: "map_cell list \<Rightarrow> shared_map \<Rightarrow> merge_stats \<times> shared_map" where
  "merge_loop remoteCells m =
     foldl (\<lambda>acc remote. merge_one remote acc) (\<lparr>inserted = 0, updated = 0, ignored = 0\<rparr>, m) remoteCells"

definition merge :: "map_cell list \<Rightarrow> version \<Rightarrow> shared_map \<Rightarrow> merge_stats \<times> shared_map" where
  "merge remoteCells sourceVersion m =
     (let (stats, m1) = merge_loop remoteCells m;
          m2 = (if sourceVersion > sm_version m1 then m1\<lparr>sm_version := sourceVersion\<rparr> else m1);
          m3 = (if inserted stats + updated stats > 0 then bump m2 else m2)
      in (stats, m3))"

definition mergeSnapshot :: "map_snapshot \<Rightarrow> shared_map \<Rightarrow> merge_stats \<times> shared_map" where
  "mergeSnapshot snapshot m = merge (js_values (sn_cells snapshot)) (sn_version snapshot) m"

subsection \<open>Reading and flushing\<close>

definition explored_state :: "cell_state \<Rightarrow> bool" where
  "explored_state s \<longleftrightarrow> s \<in> set [Seen, Searched, Target, Blocked, Safe]"

definition count_state :: "cell_state \<Rightarrow> map_cell list \<Rightarrow> int" where
  "count_state s cs = int (length (filter (\<lambda>c. mc_state c = s) cs))"

definition coverage :: "int \<Rightarrow> int \<Rightarrow> real" where
  "coverage exploredCount totalKnown =
     (if totalKnown > 0 then round2 ((real_of_int exploredCount / real_of_int totalKnown) * 100) else 0)"

definition snapshot :: "timestamp \<Rightarrow> shared_map \<Rightarrow> map_snapshot" where
  "snapshot now m =
     (let cells = sm_cells m; cs = js_values cells;
          exploredCount = int (length (filter (\<lambda>c. explored_state (mc_state c)) cs));
          totalKnown = int (length (js_keys cells))
      in \<lparr> sn_mapId = sm_mapId m, sn_version = sm_version m, sn_updatedAtMs = now, sn_cells = cells,
           sn_frontierCount = count_state Frontier cs,
           sn_searchedCount = count_state Searched cs,
           sn_blockedCount = count_state Blocked cs,
           sn_targetCount = count_state Target cs,
           sn_exploredCount = exploredCount,
           sn_dirtyCount = int (length (sm_dirty m)),
           sn_coveragePct = coverage exploredCount totalKnown,
           sn_metadata = [(''dirty'', jint (int (length (sm_dirty m))))] \<rparr>)"

definition delta :: "js_env \<Rightarrow> nat \<Rightarrow> string \<Rightarrow> ident \<Rightarrow> shared_map \<Rightarrow> map_delta \<times> shared_map" where
  "delta env maxCells reason sourceNodeId m =
     (let dirtyIds = take maxCells (sm_dirty m);
          m1 = m\<lparr>sm_dirty := foldl (\<lambda>d i. removeAll i d) (sm_dirty m) dirtyIds\<rparr>;
          cells = List.map_filter (js_get (sm_cells m1)) dirtyIds;
          remainingDirty = int (length (sm_dirty m1))
      in (\<lparr> md_deltaId = new_id env 0 ''delta'', md_mapId = sm_mapId m, md_baseVersion = sm_version m,
            md_createdAtMs = now_ms env, md_sourceNodeId = sourceNodeId, md_cells = cells,
            md_reason = reason,
            md_metadata = [(''remainingDirty'', jint remainingDirty),
              (''flushed'', jint (int (length dirtyIds))), (''maxCells'', jint (int maxCells))] \<rparr>,
          m1))"

definition isDirty :: "shared_map \<Rightarrow> bool" where
  "isDirty m \<longleftrightarrow> length (sm_dirty m) > 0"

definition dirtyCount :: "shared_map \<Rightarrow> int" where
  "dirtyCount m = int (length (sm_dirty m))"

definition cell :: "ident \<Rightarrow> shared_map \<Rightarrow> map_cell option" where
  "cell i m = js_get (sm_cells m) i"

definition allCells :: "shared_map \<Rightarrow> map_cell list" where
  "allCells m = js_values (sm_cells m)"

definition frontierCells :: "shared_map \<Rightarrow> map_cell list" where
  "frontierCells m = filter (\<lambda>c. mc_state c = Frontier) (allCells m)"

definition exploredCells :: "shared_map \<Rightarrow> map_cell list" where
  "exploredCells m = filter (\<lambda>c. explored_state (mc_state c)) (allCells m)"

definition summary :: "timestamp \<Rightarrow> shared_map \<Rightarrow> obj" where
  "summary now m =
     (let snap = snapshot now m
      in [(''mapId'', JStr (sn_mapId snap)), (''version'', jint (sn_version snap)),
          (''cells'', jint (int (length (js_keys (sn_cells snap))))),
          (''frontierCount'', jint (sn_frontierCount snap)),
          (''searchedCount'', jint (sn_searchedCount snap)),
          (''blockedCount'', jint (sn_blockedCount snap)),
          (''targetCount'', jint (sn_targetCount snap)),
          (''exploredCount'', jint (sn_exploredCount snap)),
          (''dirtyCount'', jint (sn_dirtyCount snap)),
          (''coveragePct'', JNum (sn_coveragePct snap))])"

subsection \<open>The delta coordinator\<close>

text \<open>
  The optional \<open>commit\<close> adapter is the flag \<open>hasCommit\<close>; the calls made on it are returned in
  order, as values of \<open>map_commit\<close>.
\<close>

datatype map_commit = CommitMapDelta map_delta | CommitMapSnapshot map_snapshot

definition committed :: "bool \<Rightarrow> map_commit list \<Rightarrow> map_commit list" where
  "committed hasCommit cs = (if hasCommit then cs else [])"

definition stageSeen :: "timestamp \<Rightarrow> int \<Rightarrow> int \<Rightarrow> int \<Rightarrow> ident option \<Rightarrow> shared_map \<Rightarrow> map_cell \<times> shared_map" where
  "stageSeen now x y z owner m = markSeen now x y z owner (6 / 10) [] m"

definition stageFrontier :: "timestamp \<Rightarrow> int \<Rightarrow> int \<Rightarrow> int \<Rightarrow> ident option \<Rightarrow> shared_map \<Rightarrow> map_cell \<times> shared_map" where
  "stageFrontier now x y z owner m = markFrontier now x y z owner m"

definition stageSearched :: "timestamp \<Rightarrow> int \<Rightarrow> int \<Rightarrow> int \<Rightarrow> ident option \<Rightarrow> shared_map \<Rightarrow> map_cell \<times> shared_map" where
  "stageSearched now x y z owner m = markSearched now x y z owner (9 / 10) m"

definition stageBlocked :: "timestamp \<Rightarrow> int \<Rightarrow> int \<Rightarrow> int \<Rightarrow> ident option \<Rightarrow> string \<Rightarrow> shared_map \<Rightarrow> map_cell \<times> shared_map" where
  "stageBlocked now x y z owner reason m = markBlocked now x y z owner reason m"

definition stageTarget :: "bool \<Rightarrow> js_env \<Rightarrow> int \<Rightarrow> int \<Rightarrow> int \<Rightarrow> ident option \<Rightarrow> string \<Rightarrow> shared_map \<Rightarrow>
    map_cell \<times> map_commit list \<times> shared_map" where
  "stageTarget hasCommit env x y z owner targetType m =
     (let (c, m1) = markTarget (now_ms env) x y z owner targetType 1 m
      in if hasCommit
         then (let (d, m2) = delta env 50 ''target_detection'' (default_to owner ''local'') m1
               in (c, [CommitMapDelta d, CommitMapSnapshot (snapshot (now_ms env) m2)], m2))
         else (c, [], m1))"

definition mergeRemote :: "bool \<Rightarrow> timestamp \<Rightarrow> map_snapshot \<Rightarrow> shared_map \<Rightarrow>
    merge_stats \<times> map_commit list \<times> shared_map" where
  "mergeRemote hasCommit now snap m =
     (let (result, m1) = mergeSnapshot snap m
      in (result, committed hasCommit [CommitMapSnapshot (snapshot now m1)], m1))"

definition flushDelta :: "bool \<Rightarrow> js_env \<Rightarrow> string \<Rightarrow> ident \<Rightarrow> shared_map \<Rightarrow>
    map_delta \<times> map_commit list \<times> shared_map" where
  "flushDelta hasCommit env reason sourceNodeId m =
     (let (d, m1) = delta env 200 reason sourceNodeId m
      in (d, committed hasCommit [CommitMapDelta d], m1))"

definition replaceFromSnapshot :: "bool \<Rightarrow> timestamp \<Rightarrow> map_snapshot \<Rightarrow> shared_map \<Rightarrow>
    merge_stats \<times> map_commit list \<times> shared_map" where
  "replaceFromSnapshot hasCommit now snap m = mergeRemote hasCommit now snap m"

subsection \<open>The state lattice\<close>

text \<open>
  The two extra branches of \<open>mergeState\<close> (an incoming \<open>Target\<close> or \<open>Blocked\<close> of lower rank) can
  never be taken with effect, because \<open>Blocked\<close> is the top rank and only \<open>Blocked\<close> outranks
  \<open>Target\<close>. What remains is the rank join.
\<close>

lemma mergeState_rank: "mergeState a b = (if stateRank a \<le> stateRank b then b else a)"
  by (cases a; cases b) (simp_all add: mergeState_def)

lemma stateRank_inj: "stateRank a = stateRank b \<Longrightarrow> a = b"
  by (cases a; cases b) simp_all

interpretation cell_join: ranked_join stateRank mergeState
  by unfold_locales (simp_all add: mergeState_rank stateRank_inj)

instantiation cell_state :: linorder
begin

definition less_eq_cell_state :: "cell_state \<Rightarrow> cell_state \<Rightarrow> bool" where
  "less_eq_cell_state a b \<longleftrightarrow> stateRank a \<le> stateRank b"

definition less_cell_state :: "cell_state \<Rightarrow> cell_state \<Rightarrow> bool" where
  "less_cell_state a b \<longleftrightarrow> stateRank a < stateRank b"

instance
  by intro_classes (auto simp: less_eq_cell_state_def less_cell_state_def intro: stateRank_inj)

end

lemma mergeState_max: "mergeState a b = max a b"
  by (auto simp: mergeState_rank max_def less_eq_cell_state_def intro: stateRank_inj)

subsection \<open>Accessors of the private helpers\<close>

lemma helper_simps [simp]:
  "sm_cells (bump m) = sm_cells m" "sm_dirty (bump m) = sm_dirty m" "sm_version (bump m) = sm_version m + 1"
  "sm_mapId (bump m) = sm_mapId m"
  "sm_cells (markDirty i m) = sm_cells m" "sm_dirty (markDirty i m) = set_add i (sm_dirty m)"
  "sm_version (markDirty i m) = sm_version m" "sm_mapId (markDirty i m) = sm_mapId m"
  "sm_cells (cells_set i c m) = js_put i c (sm_cells m)" "sm_dirty (cells_set i c m) = sm_dirty m"
  "sm_version (cells_set i c m) = sm_version m" "sm_mapId (cells_set i c m) = sm_mapId m"
  by (simp_all add: bump_def markDirty_def cells_set_def)

lemma normalizeCell_simps [simp]:
  "mc_cellId (normalizeCell c) = mc_cellId c" "mc_state (normalizeCell c) = mc_state c"
  "mc_version (normalizeCell c) = mc_version c" "mc_owner (normalizeCell c) = mc_owner c"
  "mc_lastSeenMs (normalizeCell c) = mc_lastSeenMs c"
  "mc_confidence (normalizeCell c) = clamp (mc_confidence c) 0 1"
  "mc_cost (normalizeCell c) = max 0 (mc_cost c)"
  "mc_confirmedBy (normalizeCell c) = dedup (mc_confirmedBy c)"
  "mc_metadata (normalizeCell c) = obj_spread [] (mc_metadata c)"
  by (simp_all add: normalizeCell_def)

lemma resolve_cellId [simp]: "mc_cellId (resolve c i) = mc_cellId c"
  by (simp add: resolve_def Let_def)

lemma currentOrCreate_cases:
  obtains c where "map_of (sm_cells m) (cellId x y z) = Some c" "currentOrCreate now x y z m = (c, m)"
  | c where "map_of (sm_cells m) (cellId x y z) = None"
      "currentOrCreate now x y z m = (c, cells_set (cellId x y z) c m)"
      "mc_cellId c = cellId x y z" "mc_state c = Unknown" "mc_confidence c = 0" "mc_version c = 0"
      "mc_owner c = None" "mc_confirmedBy c = []" "mc_metadata c = []" "mc_cost c = 1"
  by (cases "map_of (sm_cells m) (cellId x y z)") (auto simp: currentOrCreate_def Let_def)

subsection \<open>Well-formedness\<close>

definition wf_shared :: "shared_map \<Rightarrow> bool" where
  "wf_shared m \<longleftrightarrow> wf_map (sm_cells m)
     \<and> (\<forall>k c. map_of (sm_cells m) k = Some c \<longrightarrow> mc_cellId c = k)
     \<and> distinct (sm_dirty m) \<and> set (sm_dirty m) \<subseteq> dom (map_of (sm_cells m))"

lemma wf_sharedI:
  assumes "wf_map (sm_cells m)" "\<And>k c. map_of (sm_cells m) k = Some c \<Longrightarrow> mc_cellId c = k"
    "distinct (sm_dirty m)" "set (sm_dirty m) \<subseteq> dom (map_of (sm_cells m))"
  shows "wf_shared m"
  using assms by (auto simp: wf_shared_def)

lemma wf_new_shared_map: "wf_shared (new_shared_map i)"
  by (simp add: wf_shared_def new_shared_map_def wf_map_def)

lemma wf_bump [simp]: "wf_shared (bump m) = wf_shared m"
  by (simp add: wf_shared_def)

lemma wf_set_version [simp]: "wf_shared (m\<lparr>sm_version := v\<rparr>) = wf_shared m"
  by (simp add: wf_shared_def)

lemma wf_cells_set:
  "wf_shared m \<Longrightarrow> mc_cellId c = i \<Longrightarrow> wf_shared (cells_set i c m)"
  by (auto simp: wf_shared_def js_map_simps jsm.invar_insert split: if_splits)

lemma wf_write:
  "wf_shared m \<Longrightarrow> mc_cellId c = i \<Longrightarrow> wf_shared (markDirty i (cells_set i c m))"
  by (auto simp: wf_shared_def js_map_simps jsm.invar_insert split: if_splits)

lemma wf_upsert [inv_intros]: "wf_shared m \<Longrightarrow> wf_shared (snd (upsert c m))"
  by (auto simp: upsert_def Let_def intro!: wf_write)

lemma wf_mark_cell: "wf_shared m \<Longrightarrow> wf_shared (snd (mark_cell now st conf ex x y z own m))"
  by (rule currentOrCreate_cases [of m x y z now])
    (auto simp: mark_cell_def Let_def wf_shared_def [of m] intro!: wf_write wf_cells_set)

lemmas mark_defs = markSeen_def markFrontier_def markSearched_def markBlocked_def markTarget_def markSafe_def

lemma wf_marks [inv_intros]:
  assumes "wf_shared m"
  shows "wf_shared (snd (markSeen now x y z own cf md m))"
    "wf_shared (snd (markFrontier now x y z own m))"
    "wf_shared (snd (markSearched now x y z own cf m))"
    "wf_shared (snd (markBlocked now x y z own rs m))"
    "wf_shared (snd (markTarget now x y z own tt cf m))"
    "wf_shared (snd (markSafe now x y z own m))"
  using assms by (simp_all add: mark_defs wf_mark_cell)

lemma wf_merge_one: "wf_shared (snd acc) \<Longrightarrow> wf_shared (snd (merge_one r acc))"
  by (cases acc) (auto simp: merge_one_def Let_def intro!: wf_write split: option.splits)

lemma wf_merge_foldl:
  "wf_shared (snd acc) \<Longrightarrow> wf_shared (snd (foldl (\<lambda>acc r. merge_one r acc) acc rs))"
  by (induction rs arbitrary: acc) (auto simp: wf_merge_one)

lemma wf_merge_loop: "wf_shared m \<Longrightarrow> wf_shared (snd (merge_loop rs m))"
  unfolding merge_loop_def by (rule wf_merge_foldl) simp

lemma wf_merge [inv_intros]: "wf_shared m \<Longrightarrow> wf_shared (snd (merge rs v m))"
  using wf_merge_loop [of m rs] by (cases "merge_loop rs m") (simp add: merge_def Let_def)

lemma foldl_removeAll: "set (foldl (\<lambda>d i. removeAll i d) xs ys) = set xs - set ys"
  "distinct xs \<Longrightarrow> distinct (foldl (\<lambda>d i. removeAll i d) xs ys)"
  by (induction ys arbitrary: xs) (auto simp: distinct_removeAll)

lemma wf_delta [inv_intros]: "wf_shared m \<Longrightarrow> wf_shared (snd (delta env n rs src m))"
  by (auto simp: delta_def Let_def wf_shared_def foldl_removeAll)

subsection \<open>The knowledge order\<close>

text \<open>
  \<open>cell_le c d\<close>: everything \<open>c\<close> records is still recorded by \<open>d\<close>. The claim of the source, that
  knowledge is never lost by an update, is that every operation moves the map up this order.
\<close>

definition cell_le :: "map_cell \<Rightarrow> map_cell \<Rightarrow> bool" where
  "cell_le c d \<longleftrightarrow> mc_cellId d = mc_cellId c \<and> mc_state c \<le> mc_state d
     \<and> mc_confidence c \<le> mc_confidence d \<and> mc_version c \<le> mc_version d
     \<and> mc_cost d \<le> mc_cost c
     \<and> set (mc_confirmedBy c) \<subseteq> set (mc_confirmedBy d)
     \<and> dom (map_of (mc_metadata c)) \<subseteq> dom (map_of (mc_metadata d))
     \<and> (mc_owner c \<noteq> None \<longrightarrow> mc_owner d \<noteq> None)"

definition knows_le :: "shared_map \<Rightarrow> shared_map \<Rightarrow> bool" where
  "knows_le m m' \<longleftrightarrow> sm_version m \<le> sm_version m'
     \<and> (\<forall>k c. map_of (sm_cells m) k = Some c \<longrightarrow>
           (\<exists>d. map_of (sm_cells m') k = Some d \<and> cell_le c d))"

lemma cell_le_refl [simp]: "cell_le c c"
  by (simp add: cell_le_def)

lemma cell_le_trans: "cell_le a b \<Longrightarrow> cell_le b c \<Longrightarrow> cell_le a c"
  unfolding cell_le_def by (elim conjE) (intro conjI; (blast intro: order_trans | force))

lemma knows_le_refl [simp]: "knows_le m m"
  by (auto simp: knows_le_def)

lemma knows_le_trans: "knows_le a b \<Longrightarrow> knows_le b c \<Longrightarrow> knows_le a c"
  unfolding knows_le_def by (meson cell_le_trans order_trans)

lemma dom_obj_spread [simp]: "dom (map_of (obj_spread a b)) = dom (map_of a) \<union> dom (map_of b)"
  by (simp add: obj_spread_def jsm.lookup_insert_all dom_map_of_conv_image_fst Un_commute)

lemma resolve_cell_le: "cell_le c (resolve c i)"
  by (auto simp: resolve_def cell_le_def Let_def mergeState_max nullish_def split: option.splits)

lemma knows_le_write:
  assumes "\<And>c. map_of (sm_cells m) i = Some c \<Longrightarrow> cell_le c d"
  shows "knows_le m (markDirty j (cells_set i d m))"
  using assms by (auto simp: knows_le_def js_map_simps)

lemma knows_le_bump [simp]: "knows_le m (bump m)"
  by (auto simp: knows_le_def)

lemma knows_le_set_version: "sm_version m \<le> v \<Longrightarrow> knows_le m (m\<lparr>sm_version := v\<rparr>)"
  by (auto simp: knows_le_def)

lemma wf_shared_cellId: "wf_shared m \<Longrightarrow> map_of (sm_cells m) k = Some c \<Longrightarrow> mc_cellId c = k"
  by (simp add: wf_shared_def)

lemma upsert_knows_le: "wf_shared m \<Longrightarrow> knows_le m (snd (upsert c m))"
  unfolding upsert_def Let_def snd_conv
  by (rule knows_le_trans [OF knows_le_write knows_le_bump])
    (auto simp: resolve_cell_le wf_shared_cellId split: option.splits)

lemma mark_cell_lookup:
  "\<exists>d. mark_cell now st cf ex x y z own m = (d, snd (mark_cell now st cf ex x y z own m))
     \<and> map_of (sm_cells (snd (mark_cell now st cf ex x y z own m))) = (map_of (sm_cells m))(cellId x y z \<mapsto> d)
     \<and> sm_version (snd (mark_cell now st cf ex x y z own m)) = sm_version m + 1
     \<and> (\<forall>c. map_of (sm_cells m) (cellId x y z) = Some c \<longrightarrow> cell_le c d)
     \<and> mc_state d = mergeState (case map_of (sm_cells m) (cellId x y z) of None \<Rightarrow> Unknown | Some c \<Rightarrow> mc_state c) st"
  by (rule currentOrCreate_cases [of m x y z now])
    (auto simp: mark_cell_def Let_def js_map_simps cell_le_def mergeState_max nullish_def split: option.splits)

lemma mark_cell_knows_le: "knows_le m (snd (mark_cell now st cf ex x y z own m))"
  using mark_cell_lookup [of now st cf ex x y z own m] by (auto simp: knows_le_def)

lemma marks_knows_le:
  "knows_le m (snd (markSeen now x y z own cf md m))"
  "knows_le m (snd (markFrontier now x y z own m))"
  "knows_le m (snd (markSearched now x y z own cf m))"
  "knows_le m (snd (markBlocked now x y z own rs m))"
  "knows_le m (snd (markTarget now x y z own tt cf m))"
  "knows_le m (snd (markSafe now x y z own m))"
  by (simp_all add: mark_defs mark_cell_knows_le)

lemma merge_one_knows_le:
  assumes "wf_shared (snd acc)" shows "knows_le (snd acc) (snd (merge_one r acc))"
proof (cases acc)
  case (Pair stats m)
  then show ?thesis using assms
    by (auto simp: merge_one_def Let_def resolve_cell_le wf_shared_cellId intro!: knows_le_write
        split: option.splits)
qed

lemma merge_foldl_knows_le:
  "wf_shared (snd acc) \<Longrightarrow> knows_le (snd acc) (snd (foldl (\<lambda>acc r. merge_one r acc) acc rs))"
proof (induction rs arbitrary: acc)
  case (Cons r rs)
  then show ?case
    using knows_le_trans [OF merge_one_knows_le Cons.IH [OF wf_merge_one]] by auto
qed simp

lemma merge_loop_knows_le: "wf_shared m \<Longrightarrow> knows_le m (snd (merge_loop rs m))"
  unfolding merge_loop_def
  using merge_foldl_knows_le [of "(\<lparr>inserted = 0, updated = 0, ignored = 0\<rparr>, m)" rs] by simp

lemma merge_knows_le:
  assumes "wf_shared m" shows "knows_le m (snd (merge rs v m))"
proof (cases "merge_loop rs m")
  case (Pair stats m1)
  then have "knows_le m m1" using merge_loop_knows_le [OF assms, of rs] by simp
  then show ?thesis
    using knows_le_trans [of m m1 "m1\<lparr>sm_version := v\<rparr>"] knows_le_trans [of m m1 "bump m1"]
      knows_le_trans [of m "m1\<lparr>sm_version := v\<rparr>" "bump (m1\<lparr>sm_version := v\<rparr>)"] knows_le_set_version [of m1 v]
    by (simp add: merge_def Let_def Pair)
qed

lemma delta_cells [simp]:
  "sm_cells (snd (delta env n rs src m)) = sm_cells m"
  "sm_version (snd (delta env n rs src m)) = sm_version m"
  by (simp_all add: delta_def Let_def)

lemma delta_knows_le: "knows_le m (snd (delta env n rs src m))"
  by (auto simp: knows_le_def)

subsection \<open>Runs of operations\<close>

datatype map_op =
    OpUpsert map_cell
  | OpSeen int int int "ident option" real obj
  | OpFrontier int int int "ident option"
  | OpSearched int int int "ident option" real
  | OpBlocked int int int "ident option" string
  | OpTarget int int int "ident option" string real
  | OpSafe int int int "ident option"
  | OpMerge map_snapshot
  | OpDelta nat string ident

fun map_apply :: "js_env \<Rightarrow> map_op \<Rightarrow> shared_map \<Rightarrow> shared_map" where
  "map_apply env (OpUpsert c) m = snd (upsert c m)"
| "map_apply env (OpSeen x y z own cf md) m = snd (markSeen (now_ms env) x y z own cf md m)"
| "map_apply env (OpFrontier x y z own) m = snd (markFrontier (now_ms env) x y z own m)"
| "map_apply env (OpSearched x y z own cf) m = snd (markSearched (now_ms env) x y z own cf m)"
| "map_apply env (OpBlocked x y z own rs) m = snd (markBlocked (now_ms env) x y z own rs m)"
| "map_apply env (OpTarget x y z own tt cf) m = snd (markTarget (now_ms env) x y z own tt cf m)"
| "map_apply env (OpSafe x y z own) m = snd (markSafe (now_ms env) x y z own m)"
| "map_apply env (OpMerge s) m = snd (mergeSnapshot s m)"
| "map_apply env (OpDelta n rs src) m = snd (delta env n rs src m)"

definition map_run :: "(js_env \<times> map_op) list \<Rightarrow> shared_map \<Rightarrow> shared_map" where
  "map_run ops m = foldl (\<lambda>m eo. map_apply (fst eo) (snd eo) m) m ops"

lemma wf_map_apply: "wf_shared m \<Longrightarrow> wf_shared (map_apply env op m)"
  by (cases op) (simp_all add: inv_intros mergeSnapshot_def)

lemma map_apply_knows_le: "wf_shared m \<Longrightarrow> knows_le m (map_apply env op m)"
  by (cases op) (simp_all add: upsert_knows_le marks_knows_le merge_knows_le delta_knows_le mergeSnapshot_def)

lemma map_run_invariant: "wf_shared m \<Longrightarrow> wf_shared (map_run ops m) \<and> knows_le m (map_run ops m)"
proof (induction ops arbitrary: m)
  case (Cons eo ops)
  then have "wf_shared (map_apply (fst eo) (snd eo) m)" by (simp add: wf_map_apply)
  with Cons show ?case
    using knows_le_trans [OF map_apply_knows_le] by (fastforce simp: map_run_def)
qed (simp add: map_run_def)

lemma map_reachable:
  "wf_shared (map_run ops (new_shared_map mapId)) \<and>
   knows_le (new_shared_map mapId) (map_run ops (new_shared_map mapId))"
  by (rule map_run_invariant [OF wf_new_shared_map])

text \<open>
  C26. From an empty map, whatever sequence of local updates, remote merges and flushes runs, the
  map stays well formed: one cell per identifier, stored under its own \<open>cellId\<close>, and the dirty
  set lists stored cells without repetition.
\<close>

theorem map_reachable_wf: "wf_shared (map_run ops (new_shared_map mapId))"
  by (rule map_reachable [THEN conjunct1])

text \<open>
  Monotonicity: along any run, every cell stays present, its state only climbs the rank
  order, its confidence and version never fall, its cost never rises, and no confirmation,
  metadata key or ownership is dropped; the map version never falls.
\<close>

theorem map_run_monotone:
  "knows_le (map_run ops1 (new_shared_map mapId)) (map_run (ops1 @ ops2) (new_shared_map mapId))"
  using map_run_invariant [OF map_reachable [THEN conjunct1], of ops2 ops1 mapId] by (simp add: map_run_def)

subsection \<open>Merging is idempotent\<close>

lemma obj_spread_Nil: "wf_map m \<Longrightarrow> obj_spread [] m = m"
proof -
  have "foldl (\<lambda>acc kv. js_put (fst kv) (snd kv) acc) xs ys = xs @ ys" if "distinct (map fst (xs @ ys))" for xs ys :: obj
    using that
  proof (induction ys arbitrary: xs)
    case (Cons kv ys)
    have "AList.update k v zs = zs @ [(k, v)]" if "k \<notin> fst ` set zs" for k v and zs :: obj
      using that by (induction zs) auto
    with Cons.prems have "js_put (fst kv) (snd kv) xs = xs @ [kv]" by auto
    with Cons show ?case by simp
  qed simp
  then show "wf_map m \<Longrightarrow> obj_spread [] m = m" by (simp add: obj_spread_def wf_map_def)
qed

lemma wf_normalized_metadata [simp]: "wf_map (mc_metadata (normalizeCell r))" "wf_map (obj_spread [] md)"
  using wf_obj_spread [of "[]"] by (simp_all add: jsm.invar_empty)

lemma obj_spread_self: "wf_map m \<Longrightarrow> obj_spread m m = m"
  using obj_spread_absorb [of m "[]"] by (simp add: obj_spread_Nil)

lemma resolve_cases:
  "resolve c i = c \<or> mc_version (resolve c i) = max (mc_version c) (mc_version i) + 1"
  by (simp add: resolve_def Let_def)

lemma cell_changed_resolve: "cell_changed (resolve c i) c \<longleftrightarrow> resolve c i \<noteq> c"
  using resolve_cases [of c i] by (auto simp: cell_changed_def)

lemma resolve_unchangedI:
  assumes "mc_version c > mc_version i \<or> mergeState (mc_state c) (mc_state i) = mc_state c"
    "mc_confidence i \<le> mc_confidence c" "mc_owner i = None \<or> mc_owner i = mc_owner c"
    "mc_cost i = 0 \<or> mc_cost c \<le> mc_cost i"
    "mc_lastSeenMs i \<le> mc_lastSeenMs c" "mc_version i \<le> mc_version c"
    "obj_spread (obj_spread [] (mc_metadata c)) (mc_metadata i) = mc_metadata c"
    "dedup (mc_confirmedBy c @ mc_confirmedBy i) = mc_confirmedBy c"
  shows "resolve c i = c"
proof -
  have st: "(if mc_version c < mc_version i then mergeState (mc_state c) (mc_state i)
      else if mc_version i = mc_version c \<and> mc_lastSeenMs c \<le> mc_lastSeenMs i
      then mergeState (mc_state c) (mc_state i) else mc_state c) = mc_state c"
    using assms(1,6) by auto
  have rest: "max (mc_confidence c) (mc_confidence i) = mc_confidence c"
    "nullish (mc_owner i) (mc_owner c) = mc_owner c"
    "min (mc_cost c) (or_num (mc_cost i) (mc_cost c)) = mc_cost c"
    "max (mc_lastSeenMs c) (mc_lastSeenMs i) = mc_lastSeenMs c"
    "max (mc_version c) (mc_version i) = mc_version c"
    using assms(2-6) by (auto simp: or_num_def)
  show ?thesis
    unfolding resolve_def Let_def by (rule if_P) (simp add: st rest assms(7,8))
qed

lemma resolve_self: "wf_map (mc_metadata c) \<Longrightarrow> mc_confirmedBy c = dedup xs \<Longrightarrow> resolve c c = c"
  by (rule resolve_unchangedI)
    (simp_all add: obj_spread_Nil obj_spread_self cell_join.join_idem dedup_append_absorb)

lemma resolve_again:
  assumes "wf_map (mc_metadata i)" "wf_map (mc_metadata c)"
  shows "resolve (resolve c i) i = resolve c i"
proof (cases "resolve c i = c")
  case False
  define d where "d = resolve c i"
  have wf: "wf_map (mc_metadata d)"
    using assms by (simp add: d_def resolve_def Let_def wf_obj_spread obj_spread_Nil)
  from False have v: "mc_version d = max (mc_version c) (mc_version i) + 1"
    using resolve_cases [of c i] by (auto simp: d_def)
  have f: "mc_confidence d = max (mc_confidence c) (mc_confidence i)"
    "mc_owner d = nullish (mc_owner i) (mc_owner c)"
    "mc_cost d = min (mc_cost c) (or_num (mc_cost i) (mc_cost c))"
    "mc_lastSeenMs d = max (mc_lastSeenMs c) (mc_lastSeenMs i)"
    "mc_metadata d = obj_spread (mc_metadata c) (mc_metadata i)"
    "mc_confirmedBy d = dedup (mc_confirmedBy c @ mc_confirmedBy i)"
    using False assms by (auto simp: d_def resolve_def Let_def obj_spread_Nil split: if_splits)
  have "resolve d i = d"
  proof (rule resolve_unchangedI)
    show "mc_version i < mc_version d \<or> mergeState (mc_state d) (mc_state i) = mc_state d" using v by simp
    show "obj_spread (obj_spread [] (mc_metadata d)) (mc_metadata i) = mc_metadata d"
      using wf assms by (simp add: obj_spread_Nil) (simp add: f obj_spread_absorb)
    show "dedup (mc_confirmedBy d @ mc_confirmedBy i) = mc_confirmedBy d"
      by (simp add: f dedup_append_absorb)
  qed (use v in \<open>auto simp: f nullish_def or_num_def min_def split: option.splits\<close>)
  then show ?thesis by (simp add: d_def)
qed simp

definition merge_cell :: "map_cell option \<Rightarrow> map_cell \<Rightarrow> map_cell" where
  "merge_cell cur r = (case cur of None \<Rightarrow> normalizeCell r | Some c \<Rightarrow> resolve c (normalizeCell r))"

lemma merge_one_cells:
  assumes "wf_shared m"
  shows "map_of (sm_cells (snd (merge_one r (st, m)))) =
    (map_of (sm_cells m))(mc_cellId r \<mapsto> merge_cell (map_of (sm_cells m) (mc_cellId r)) r)"
  using assms
  by (auto simp: merge_one_def merge_cell_def Let_def js_map_simps cell_changed_resolve wf_shared_cellId
      fun_upd_idem split: option.splits)

lemma merge_one_again:
  assumes "map_of (sm_cells m) (mc_cellId r) = Some (merge_cell cur r)"
    "\<And>c. cur = Some c \<Longrightarrow> wf_map (mc_metadata c)"
  shows "merge_one r (st, m) = (st\<lparr>ignored := ignored st + 1\<rparr>, m)"
proof -
  have "resolve (merge_cell cur r) (normalizeCell r) = merge_cell cur r"
  proof (cases cur)
    case None
    then show ?thesis by (simp add: merge_cell_def resolve_self [of _ "mc_confirmedBy r"])
  next
    case (Some c)
    then show ?thesis using assms(2) by (simp add: merge_cell_def resolve_again)
  qed
  moreover have "\<not> cell_changed c c" for c by (simp add: cell_changed_def)
  ultimately show ?thesis using assms(1) by (simp add: merge_one_def Let_def)
qed

definition wf_metadata :: "shared_map \<Rightarrow> bool" where
  "wf_metadata m \<longleftrightarrow> (\<forall>k c. map_of (sm_cells m) k = Some c \<longrightarrow> wf_map (mc_metadata c))"

lemma wf_merge_cell: "(\<And>c. cur = Some c \<Longrightarrow> wf_map (mc_metadata c)) \<Longrightarrow> wf_map (mc_metadata (merge_cell cur r))"
  by (cases cur) (auto simp: merge_cell_def resolve_def Let_def wf_obj_spread)

lemma wf_metadata_merge_one: "wf_shared m \<Longrightarrow> wf_metadata m \<Longrightarrow> wf_metadata (snd (merge_one r (st, m)))"
  using wf_merge_cell [of "map_of (sm_cells m) (mc_cellId r)" r]
  by (auto simp: wf_metadata_def merge_one_cells)

lemma merge_foldl_cells:
  assumes "wf_shared (snd acc)" "distinct (map mc_cellId rs)"
  shows "map_of (sm_cells (snd (foldl (\<lambda>acc r. merge_one r acc) acc rs))) k =
    (case map_of (map (\<lambda>r. (mc_cellId r, r)) rs) k of
       None \<Rightarrow> map_of (sm_cells (snd acc)) k
     | Some r \<Rightarrow> Some (merge_cell (map_of (sm_cells (snd acc)) k) r))"
  using assms
proof (induction rs arbitrary: acc)
  case (Cons r rs)
  obtain st m where acc: "acc = (st, m)" by (cases acc)
  have wf: "wf_shared (snd (merge_one r acc))" using Cons.prems(1) by (rule wf_merge_one)
  have "map_of (map (\<lambda>r. (mc_cellId r, r)) rs) (mc_cellId r) = None"
    using Cons.prems(2) by (simp add: map_of_eq_None_iff image_image)
  with Cons.IH [OF wf] Cons.prems show ?case
    by (auto simp: acc merge_one_cells split: option.splits)
qed simp

lemma merge_foldl_ignored:
  assumes "\<And>r. r \<in> set rs \<Longrightarrow> \<exists>cur. map_of (sm_cells m) (mc_cellId r) = Some (merge_cell cur r)
      \<and> (\<forall>c. cur = Some c \<longrightarrow> wf_map (mc_metadata c))"
  shows "foldl (\<lambda>acc r. merge_one r acc) (st, m) rs = (st\<lparr>ignored := ignored st + length rs\<rparr>, m)"
  using assms
proof (induction rs arbitrary: st)
  case (Cons r rs)
  then obtain cur where "map_of (sm_cells m) (mc_cellId r) = Some (merge_cell cur r)"
    "\<And>c. cur = Some c \<Longrightarrow> wf_map (mc_metadata c)"
    by (meson list.set_intros(1))
  then have "merge_one r (st, m) = (st\<lparr>ignored := ignored st + 1\<rparr>, m)" by (rule merge_one_again)
  with Cons show ?case by simp
qed simp

lemma merge_cells [simp]: "sm_cells (snd (merge rs v m)) = sm_cells (snd (merge_loop rs m))"
  by (simp add: merge_def Let_def split: prod.splits)

lemma merge_lookup:
  assumes "wf_shared m" "distinct (map mc_cellId rs)"
  shows "map_of (sm_cells (snd (merge rs v m))) k =
    (case map_of (map (\<lambda>r. (mc_cellId r, r)) rs) k of
       None \<Rightarrow> map_of (sm_cells m) k
     | Some r \<Rightarrow> Some (merge_cell (map_of (sm_cells m) k) r))"
  using merge_foldl_cells [of "(\<lparr>inserted = 0, updated = 0, ignored = 0\<rparr>, m)" rs k] assms
  by (simp add: merge_loop_def split: option.splits)

lemma merge_version_ge: "v \<le> sm_version (snd (merge rs v m))"
  by (auto simp: merge_def Let_def split: prod.splits)

lemma wf_metadata_write:
  "wf_metadata m \<Longrightarrow> wf_map (mc_metadata c) \<Longrightarrow> wf_metadata (markDirty j (cells_set i c m))"
  "wf_metadata m \<Longrightarrow> wf_map (mc_metadata c) \<Longrightarrow> wf_metadata (cells_set i c m)"
  by (auto simp: wf_metadata_def js_map_simps)

lemma wf_metadata_version [simp]:
  "wf_metadata (bump m) = wf_metadata m" "wf_metadata (m\<lparr>sm_version := v\<rparr>) = wf_metadata m"
  by (simp_all add: wf_metadata_def)

lemma wf_metadata_mark_cell: "wf_metadata m \<Longrightarrow> wf_metadata (snd (mark_cell now st conf ex x y z own m))"
  by (rule currentOrCreate_cases [of m x y z now])
    (auto simp: mark_cell_def Let_def wf_map_def [of "[]"] intro!: wf_metadata_write wf_obj_spread)

lemma wf_metadata_upsert: "wf_metadata m \<Longrightarrow> wf_metadata (snd (upsert c m))"
  using wf_merge_cell [of "map_of (sm_cells m) (mc_cellId c)" c]
  by (auto simp: upsert_def Let_def merge_cell_def wf_metadata_def [of m] split: option.splits
      intro!: wf_metadata_write)

lemma wf_metadata_merge: "wf_shared m \<Longrightarrow> wf_metadata m \<Longrightarrow> wf_metadata (snd (merge rs v m))"
proof -
  have "wf_shared (snd acc) \<Longrightarrow> wf_metadata (snd acc) \<Longrightarrow>
      wf_metadata (snd (foldl (\<lambda>acc r. merge_one r acc) acc rs))" for acc
  proof (induction rs arbitrary: acc)
    case (Cons r rs)
    then show ?case
      using wf_merge_one [of acc r] wf_metadata_merge_one [of "snd acc" r "fst acc"] by simp
  qed simp
  from this [of "(\<lparr>inserted = 0, updated = 0, ignored = 0\<rparr>, m)"]
  have "wf_shared m \<Longrightarrow> wf_metadata m \<Longrightarrow> wf_metadata (snd (merge_loop rs m))"
    by (simp add: merge_loop_def)
  then show "wf_shared m \<Longrightarrow> wf_metadata m \<Longrightarrow> wf_metadata (snd (merge rs v m))"
    by (simp add: wf_metadata_def)
qed

lemma wf_metadata_apply: "wf_shared m \<Longrightarrow> wf_metadata m \<Longrightarrow> wf_metadata (map_apply env op m)"
  by (cases op) (simp_all add: wf_metadata_upsert wf_metadata_mark_cell wf_metadata_merge mark_defs
      mergeSnapshot_def, simp add: wf_metadata_def)

lemma map_run_wf_metadata: "wf_metadata (map_run ops (new_shared_map mapId))"
proof -
  have "wf_shared m \<Longrightarrow> wf_metadata m \<Longrightarrow> wf_metadata (map_run ops m)" for m
  proof (induction ops arbitrary: m)
    case (Cons eo ops)
    then show ?case
      using wf_map_apply [of m "fst eo" "snd eo"] wf_metadata_apply [of m "fst eo" "snd eo"]
      by (simp add: map_run_def)
  qed (simp add: map_run_def)
  moreover have "wf_metadata (new_shared_map mapId)" by (simp add: wf_metadata_def new_shared_map_def)
  ultimately show ?thesis by (simp add: wf_new_shared_map)
qed

text \<open>
  Re-delivery is harmless: on a replica reached by any run, merging the cells of a snapshot
  (one cell per identifier) a second time ignores every one of them and leaves the replica as it
  was, version and dirty set included.
\<close>

theorem merge_idempotent:
  assumes "m = map_run ops (new_shared_map mapId)" "distinct (map mc_cellId rs)"
  shows "merge rs v (snd (merge rs v m)) =
    (\<lparr>inserted = 0, updated = 0, ignored = length rs\<rparr>, snd (merge rs v m))"
proof -
  have wf: "wf_shared m" "wf_metadata m"
    unfolding assms(1) by (rule map_reachable [THEN conjunct1]) (rule map_run_wf_metadata)
  define m1 where "m1 = snd (merge rs v m)"
  have "\<exists>cur. map_of (sm_cells m1) (mc_cellId r) = Some (merge_cell cur r)
      \<and> (\<forall>c. cur = Some c \<longrightarrow> wf_map (mc_metadata c))" if "r \<in> set rs" for r
  proof -
    have "map_of (map (\<lambda>r. (mc_cellId r, r)) rs) (mc_cellId r) = Some r"
      using that assms(2) by (auto intro!: map_of_is_SomeI simp: o_def)
    then show ?thesis
      using wf assms(2) by (auto simp: m1_def merge_lookup wf_metadata_def simp del: merge_cells)
  qed
  then have "merge_loop rs m1 = (\<lparr>inserted = 0, updated = 0, ignored = length rs\<rparr>, m1)"
    using merge_foldl_ignored [of rs m1 "\<lparr>inserted = 0, updated = 0, ignored = 0\<rparr>"]
    by (simp add: merge_loop_def)
  moreover have "v \<le> sm_version m1" unfolding m1_def by (rule merge_version_ge)
  ultimately have "merge rs v m1 = (\<lparr>inserted = 0, updated = 0, ignored = length rs\<rparr>, m1)"
    by (simp add: merge_def)
  then show ?thesis by (simp add: m1_def)
qed

definition demo_cell :: "int \<Rightarrow> cell_state \<Rightarrow> version \<Rightarrow> timestamp \<Rightarrow> map_cell" where
  "demo_cell x st v seen =
     \<lparr> mc_cellId = cellId x 0 0, mc_x = x, mc_y = 0, mc_z = 0, mc_state = st, mc_confidence = 1,
       mc_owner = None, mc_cost = 1, mc_lastSeenMs = seen, mc_version = v, mc_confirmedBy = [],
       mc_metadata = [] \<rparr>"

theorem merge_idempotent_witness:
  "merge [demo_cell 1 Blocked 1 5] 3 (snd (merge [demo_cell 1 Blocked 1 5] 3 (map_run [] (new_shared_map ''m'')))) =
    (\<lparr>inserted = 0, updated = 0, ignored = 1\<rparr>,
     snd (merge [demo_cell 1 Blocked 1 5] 3 (map_run [] (new_shared_map ''m''))))"
  using merge_idempotent [of "map_run [] (new_shared_map ''m'')" "[]" "''m''" "[demo_cell 1 Blocked 1 5]" 3]
  by simp

subsection \<open>Cell identifiers\<close>

text \<open>
  The textual key of a cell determines its coordinates, so two cells never share an entry.
\<close>

theorem cellId_injective: "(cellId x y z = cellId x' y' z') = (x = x' \<and> y = y' \<and> z = z')"
proof
  assume "cellId x y z = cellId x' y' z'"
  then have eq: "show_int x @ CHR '':'' # (show_int y @ CHR '':'' # show_int z) =
      show_int x' @ CHR '':'' # (show_int y' @ CHR '':'' # show_int z')"
    by (simp add: cellId_def)
  note split_at_unique [OF eq show_int_no_colon show_int_no_colon]
  moreover from this have "show_int y = show_int y' \<and> show_int z = show_int z'"
    using split_at_unique [of "show_int y" "CHR '':''" "show_int z" "show_int y'" "show_int z'"] show_int_no_colon
    by blast
  ultimately show "x = x' \<and> y = y' \<and> z = z'" using show_int_inj by blast
qed simp

subsection \<open>Marks commute\<close>

definition state_at :: "shared_map \<Rightarrow> ident \<Rightarrow> cell_state" where
  "state_at m i = (case map_of (sm_cells m) i of None \<Rightarrow> Unknown | Some c \<Rightarrow> mc_state c)"

fun mark_of :: "map_op \<Rightarrow> (ident \<times> cell_state) option" where
  "mark_of (OpSeen x y z own cf md) = Some (cellId x y z, Seen)"
| "mark_of (OpFrontier x y z own) = Some (cellId x y z, Frontier)"
| "mark_of (OpSearched x y z own cf) = Some (cellId x y z, Searched)"
| "mark_of (OpBlocked x y z own rs) = Some (cellId x y z, Blocked)"
| "mark_of (OpTarget x y z own tt cf) = Some (cellId x y z, Target)"
| "mark_of (OpSafe x y z own) = Some (cellId x y z, Safe)"
| "mark_of _ = None"

lemma state_at_mark_cell:
  "state_at (snd (mark_cell now st cf ex x y z own m)) i =
    (if i = cellId x y z then mergeState (state_at m i) st else state_at m i)"
  using mark_cell_lookup [of now st cf ex x y z own m] by (auto simp: state_at_def)

lemma state_at_mark:
  "mark_of op = Some (j, st) \<Longrightarrow>
    state_at (map_apply env op m) i = (if i = j then mergeState (state_at m i) st else state_at m i)"
  by (cases op) (auto simp: mark_defs state_at_mark_cell)

definition marks_at :: "ident \<Rightarrow> (js_env \<times> map_op) list \<Rightarrow> cell_state list" where
  "marks_at i ops = List.map_filter (\<lambda>eo. case mark_of (snd eo) of
     Some (j, st) \<Rightarrow> if j = i then Some st else None | None \<Rightarrow> None) ops"

lemma state_at_marks:
  assumes "\<And>eo. eo \<in> set ops \<Longrightarrow> mark_of (snd eo) \<noteq> None"
  shows "state_at (map_run ops m) i = foldl mergeState (state_at m i) (marks_at i ops)"
  using assms
proof (induction ops arbitrary: m)
  case (Cons eo ops)
  then obtain j st where "mark_of (snd eo) = Some (j, st)" by fastforce
  with Cons show ?case
    by (simp add: map_run_def marks_at_def state_at_mark)
qed (simp add: map_run_def marks_at_def)

lemma in_marks_at: "st \<in> set (marks_at i ops) \<longleftrightarrow> (\<exists>eo\<in>set ops. mark_of (snd eo) = Some (i, st))"
proof (induction ops)
  case (Cons eo ops)
  then show ?case by (cases "mark_of (snd eo)") (auto simp: marks_at_def split: if_splits)
qed (simp add: marks_at_def)

lemma set_marks_at: "set (marks_at i ops) = {st. Some (i, st) \<in> mark_of ` snd ` set ops}"
  by (auto simp: in_marks_at) (force simp: image_iff)+

text \<open>
  Local marks commute: two sequences of marks that make the same observations, in any order,
  at any times, with any repetitions, leave every cell in the same state.
\<close>

theorem marks_order_independent:
  assumes "\<And>eo. eo \<in> set ops1 \<union> set ops2 \<Longrightarrow> mark_of (snd eo) \<noteq> None"
    "mark_of ` snd ` set ops1 = mark_of ` snd ` set ops2"
  shows "state_at (map_run ops1 m) i = state_at (map_run ops2 m) i"
proof -
  have "set (marks_at i ops1) = set (marks_at i ops2)" by (simp add: set_marks_at assms(2))
  then have "foldl mergeState (state_at m i) (marks_at i ops1) = foldl mergeState (state_at m i) (marks_at i ops2)"
    by (intro cell_join.foldl_join_set) simp
  then show ?thesis using assms(1) by (simp add: state_at_marks)
qed

definition demo_env :: "timestamp \<Rightarrow> js_env" where
  "demo_env t = \<lparr> now_ms = t, uuid = (\<lambda>i. show_nat i) \<rparr>"

theorem marks_order_independent_witness:
  "state_at (map_run [(demo_env 1, OpSeen 0 0 0 None 1 []), (demo_env 2, OpBlocked 0 0 0 None [])]
     (new_shared_map [])) (cellId 0 0 0) =
   state_at (map_run [(demo_env 3, OpBlocked 0 0 0 None []), (demo_env 4, OpSeen 0 0 0 None 1 []),
     (demo_env 5, OpSeen 0 0 0 None 1 [])] (new_shared_map [])) (cellId 0 0 0)"
  by (rule marks_order_independent) auto

subsection \<open>Flushing\<close>

lemma foldl_removeAll_filter: "foldl (\<lambda>d i. removeAll i d) xs ys = filter (\<lambda>x. x \<notin> set ys) xs"
  by (induction ys arbitrary: xs) (auto simp: removeAll_filter_not_eq intro: filter_cong)

lemma foldl_removeAll_take: "distinct xs \<Longrightarrow> foldl (\<lambda>d i. removeAll i d) xs (take k xs) = drop k xs"
proof -
  assume d: "distinct xs"
  have "filter (\<lambda>x. x \<notin> set (take k xs)) (take k xs @ drop k xs) = drop k xs"
    using set_take_disj_set_drop_if_distinct [OF d le_refl, of k]
    by (auto simp: filter_empty_conv simp del: append_take_drop_id intro!: filter_True)
  then show ?thesis by (simp add: foldl_removeAll_filter)
qed

lemma map_filter_present:
  "set ks \<subseteq> dom m \<Longrightarrow> List.map_filter m ks = map (\<lambda>k. the (m k)) ks"
  by (induction ks) auto

lemma delta_wf:
  assumes "wf_shared m"
  shows "sm_dirty (snd (delta env k rs src m)) = drop k (sm_dirty m)"
    "md_cells (fst (delta env k rs src m)) = map (\<lambda>i. the (cell i m)) (take k (sm_dirty m))"
proof -
  have "set (take k (sm_dirty m)) \<subseteq> dom (map_of (sm_cells m))"
    using assms by (auto simp: wf_shared_def dest: in_set_takeD)
  then show "md_cells (fst (delta env k rs src m)) = map (\<lambda>i. the (cell i m)) (take k (sm_dirty m))"
    by (simp add: delta_def Let_def map_filter_present cell_def)
qed (use assms in \<open>simp add: delta_def Let_def wf_shared_def foldl_removeAll_take\<close>)

primrec flush_times :: "nat \<Rightarrow> js_env \<Rightarrow> nat \<Rightarrow> string \<Rightarrow> ident \<Rightarrow> shared_map \<Rightarrow> map_delta list \<times> shared_map" where
  "flush_times 0 env k rs src m = ([], m)"
| "flush_times (Suc n) env k rs src m =
     (let (d, m1) = delta env k rs src m; (ds, m2) = flush_times n (later_ids 1 env) k rs src m1
      in (d # ds, m2))"

text \<open>
  Flushing drains: with batches of \<open>maxCells > 0\<close> cells, enough flushes empty the dirty set,
  and the batches together carry each dirty cell exactly once, in the order it became dirty.
\<close>

theorem flush_drains:
  assumes "wf_shared m" "length (sm_dirty m) \<le> n * k"
  shows "sm_dirty (snd (flush_times n env k rs src m)) = [] \<and>
    concat (map md_cells (fst (flush_times n env k rs src m))) = map (\<lambda>i. the (cell i m)) (sm_dirty m)"
  using assms
proof (induction n arbitrary: m env)
  case (Suc n)
  define m1 where "m1 = snd (delta env k rs src m)"
  have m1: "wf_shared m1" "sm_dirty m1 = drop k (sm_dirty m)" "sm_cells m1 = sm_cells m"
    using Suc.prems(1) by (simp_all add: m1_def wf_delta delta_wf)
  have step: "delta env k rs src m = (fst (delta env k rs src m), m1)" by (simp add: m1_def)
  have "length (sm_dirty m1) \<le> n * k" using Suc.prems(2) m1(2) by simp
  with Suc.IH [OF m1(1), of "later_ids 1 env"] have ih: "sm_dirty (snd (flush_times n (later_ids 1 env) k rs src m1)) = []"
    "concat (map md_cells (fst (flush_times n (later_ids 1 env) k rs src m1))) =
      map (\<lambda>i. the (cell i m)) (drop k (sm_dirty m))"
    using m1 by (auto simp: cell_def)
  have "map (\<lambda>i. the (cell i m)) (take k (sm_dirty m)) @ map (\<lambda>i. the (cell i m)) (drop k (sm_dirty m)) =
      map (\<lambda>i. the (cell i m)) (sm_dirty m)"
    by (simp flip: map_append)
  with ih delta_wf(2) [OF Suc.prems(1)] show ?case
    by (simp add: Let_def m1_def [symmetric] split_beta)
qed simp

theorem flush_drains_witness:
  "sm_dirty (snd (flush_times 1 (demo_env 9) 2 [] [] (snd (merge [demo_cell 1 Blocked 1 5] 3 (new_shared_map []))))) = []"
  by (rule flush_drains [THEN conjunct1])
    (rule wf_merge [OF wf_new_shared_map], simp add: merge_def merge_loop_def merge_one_def new_shared_map_def set_add_def Let_def)

subsection \<open>Snapshots\<close>

lemma coverage_bounds: "0 \<le> e \<Longrightarrow> e \<le> n \<Longrightarrow> 0 \<le> coverage e n \<and> coverage e n \<le> 100"
  using round2_between [of 0 "real_of_int e / real_of_int n * 100" 100]
  by (auto simp: coverage_def divide_le_eq)

lemma snapshot_coverage: "0 \<le> sn_coveragePct (snapshot now m) \<and> sn_coveragePct (snapshot now m) \<le> 100"
  by (simp add: snapshot_def Let_def coverage_bounds js_keys_def js_values_def
      length_filter_le [THEN order_trans])

lemma snapshot_counts:
  "sn_searchedCount (snapshot now m) + sn_blockedCount (snapshot now m) + sn_targetCount (snapshot now m)
     \<le> sn_exploredCount (snapshot now m)"
proof -
  have "length (filter (\<lambda>c. mc_state c = Searched) xs) + length (filter (\<lambda>c. mc_state c = Blocked) xs)
      + length (filter (\<lambda>c. mc_state c = Target) xs) \<le> length (filter (\<lambda>c. explored_state (mc_state c)) xs)" for xs :: "map_cell list"
    by (induction xs) (auto simp: explored_state_def)
  then show ?thesis by (simp add: snapshot_def Let_def count_state_def flip: of_nat_add)
qed

subsection \<open>Two replicas\<close>

lemma snapshot_cells_keyed:
  assumes "wf_shared m" shows "map (\<lambda>r. (mc_cellId r, r)) (js_values (sm_cells m)) = sm_cells m"
proof -
  have "(\<lambda>r. (mc_cellId r, r)) (snd kc) = kc" if "kc \<in> set (sm_cells m)" for kc
    using assms that wf_shared_cellId [of m "fst kc" "snd kc"] by (cases kc) (auto simp: wf_shared_def wf_map_def)
  then show ?thesis by (simp add: js_values_def map_idI)
qed

lemma merge_snapshot_lookup:
  assumes "wf_shared a" "wf_shared b"
  shows "map_of (sm_cells (snd (mergeSnapshot (snapshot now a) b))) k =
    (case map_of (sm_cells a) k of None \<Rightarrow> map_of (sm_cells b) k
     | Some r \<Rightarrow> Some (merge_cell (map_of (sm_cells b) k) r))"
proof -
  have keys: "map mc_cellId (js_values (sm_cells a)) = map fst (sm_cells a)"
    using arg_cong [OF snapshot_cells_keyed [OF assms(1)], of "map fst"] by (simp add: o_def)
  have "distinct (map mc_cellId (js_values (sm_cells a)))"
    unfolding keys using assms(1) by (simp add: wf_shared_def wf_map_def)
  then show ?thesis
    using merge_lookup [OF assms(2), of "js_values (sm_cells a)"] snapshot_cells_keyed [OF assms(1)]
    by (simp add: mergeSnapshot_def snapshot_def Let_def del: merge_cells)
qed

text \<open>
  A fact does not survive a replica that has touched the cell more often: a remote cell with a
  lower version, whatever its state and rank, leaves the local state as it is.
\<close>

theorem stale_state_ignored:
  assumes "wf_shared a" "wf_shared b" "cell k a = Some r" "cell k b = Some c" "mc_version r < mc_version c"
  shows "state_at (snd (mergeSnapshot (snapshot now a) b)) k = state_at b k"
  using assms
  by (simp add: cell_def state_at_def merge_snapshot_lookup merge_cell_def resolve_def Let_def)

definition blocked_replica :: shared_map where
  "blocked_replica = map_run [(demo_env 1, OpBlocked 4 7 0 None ''fire'')] (new_shared_map ''m'')"

definition busy_replica :: shared_map where
  "busy_replica = map_run [(demo_env 2, OpSeen 4 7 0 None 1 []), (demo_env 3, OpSeen 4 7 0 None 1 [])]
     (new_shared_map ''m'')"

lemma replicas_wf: "wf_shared blocked_replica" "wf_shared busy_replica"
  unfolding blocked_replica_def busy_replica_def by (rule map_reachable [THEN conjunct1])+

lemma replicas_cells:
  "map_option (\<lambda>c. (mc_state c, mc_version c)) (cell (cellId 4 7 0) blocked_replica) = Some (Blocked, 1)"
  "map_option (\<lambda>c. (mc_state c, mc_version c)) (cell (cellId 4 7 0) busy_replica) = Some (Seen, 2)"
  by (simp_all add: blocked_replica_def busy_replica_def map_run_def mark_defs mark_cell_def
      currentOrCreate_def Let_def new_shared_map_def cell_def mergeState_def)

theorem stale_state_ignored_witness:
  "state_at (snd (mergeSnapshot (snapshot 9 blocked_replica) busy_replica)) (cellId 4 7 0) = Seen"
proof -
  obtain r c where "cell (cellId 4 7 0) blocked_replica = Some r" "mc_version r = 1"
    "cell (cellId 4 7 0) busy_replica = Some c" "mc_version c = 2" "mc_state c = Seen"
    using replicas_cells by auto
  then show ?thesis
    using stale_state_ignored [of blocked_replica busy_replica "cellId 4 7 0" r c 9] replicas_wf
    by (simp add: state_at_def cell_def)
qed

definition gossip :: "timestamp \<Rightarrow> shared_map \<times> shared_map \<Rightarrow> shared_map \<times> shared_map" where
  "gossip now ab =
     (let b = snd (mergeSnapshot (snapshot now (fst ab)) (snd ab))
      in (snd (mergeSnapshot (snapshot now b) (fst ab)), b))"

lemma wf_mergeSnapshot: "wf_shared m \<Longrightarrow> wf_shared (snd (mergeSnapshot s m))"
  by (simp add: mergeSnapshot_def inv_intros)

lemma resolve_newer: "mc_version c < mc_version i \<Longrightarrow> mc_version (resolve c i) = mc_version i + 1"
  by (simp add: resolve_def Let_def)

lemma resolve_version_bounds:
  "max (mc_version c) (mc_version i) \<le> mc_version (resolve c i)"
  using resolve_cell_le [of c i] by (auto simp: resolve_def Let_def)

lemma gossip_round:
  assumes "wf_shared a" "wf_shared b" "cell k a = Some ca" "cell k b = Some cb"
    "mc_version ca \<noteq> mc_version cb" "gossip now (a, b) = (a', b')"
  shows "wf_shared a' \<and> wf_shared b' \<and> (\<exists>ca' cb'. cell k a' = Some ca' \<and> cell k b' = Some cb'
    \<and> mc_version ca + 1 \<le> mc_version ca' \<and> mc_version ca' = mc_version cb' + 1)"
proof -
  have b': "b' = snd (mergeSnapshot (snapshot now a) b)" and a': "a' = snd (mergeSnapshot (snapshot now b') a)"
    using assms(6) by (auto simp: gossip_def Let_def)
  have wf: "wf_shared b'" "wf_shared a'" using assms(1,2) by (simp_all add: a' b' wf_mergeSnapshot)
  define cb' where "cb' = resolve cb (normalizeCell ca)"
  have cb': "cell k b' = Some cb'"
    using assms by (simp add: b' merge_snapshot_lookup cell_def cb'_def merge_cell_def)
  have newer: "mc_version ca < mc_version cb'"
    using assms(5) resolve_newer [of cb "normalizeCell ca"] resolve_version_bounds [of cb "normalizeCell ca"]
    by (cases "mc_version cb < mc_version ca") (auto simp: cb'_def)
  have "cell k a' = Some (resolve ca (normalizeCell cb'))"
    using assms(1,3) wf(1) cb' by (simp add: a' merge_snapshot_lookup cell_def merge_cell_def)
  moreover have "mc_version (resolve ca (normalizeCell cb')) = mc_version cb' + 1"
    using newer by (simp add: resolve_newer)
  ultimately show ?thesis using wf cb' newer by auto
qed

text \<open>
  C30. Replication never settles: once two replicas hold a cell under different versions, every
  round of exchanging snapshots changes that cell again. After \<open>n\<close> rounds without any local
  update its version has grown by at least \<open>n\<close>, and the replicas still differ.
\<close>

theorem gossip_never_settles:
  assumes "wf_shared a" "wf_shared b" "cell k a = Some ca" "cell k b = Some cb"
    "mc_version ca \<noteq> mc_version cb"
  shows "\<exists>ca' cb'. cell k (fst ((gossip now ^^ n) (a, b))) = Some ca' \<and>
    cell k (snd ((gossip now ^^ n) (a, b))) = Some cb' \<and>
    mc_version ca + int n \<le> mc_version ca' \<and> mc_version ca' \<noteq> mc_version cb'"
  using assms
proof (induction n arbitrary: a b ca cb)
  case (Suc n)
  obtain a' b' where g: "gossip now (a, b) = (a', b')" by fastforce
  from gossip_round [OF Suc.prems g] obtain ca' cb' where r: "wf_shared a'" "wf_shared b'"
    "cell k a' = Some ca'" "cell k b' = Some cb'" "mc_version ca + 1 \<le> mc_version ca'"
    "mc_version ca' = mc_version cb' + 1" by blast
  then have "mc_version ca' \<noteq> mc_version cb'" by simp
  from Suc.IH [OF r(1-4) this] r(5) show ?case
    by (force simp: funpow_Suc_right g simp del: funpow.simps)
qed simp

theorem gossip_never_settles_witness:
  "\<exists>ca' cb'. cell (cellId 4 7 0) (fst ((gossip 9 ^^ 1000) (blocked_replica, busy_replica))) = Some ca' \<and>
    cell (cellId 4 7 0) (snd ((gossip 9 ^^ 1000) (blocked_replica, busy_replica))) = Some cb' \<and>
    1001 \<le> mc_version ca' \<and> mc_version ca' \<noteq> mc_version cb'"
proof -
  obtain r c where "cell (cellId 4 7 0) blocked_replica = Some r" "mc_version r = 1"
    "cell (cellId 4 7 0) busy_replica = Some c" "mc_version c = 2"
    using replicas_cells by auto
  then show ?thesis
    using gossip_never_settles [of blocked_replica busy_replica "cellId 4 7 0" r c 1000 9] replicas_wf by simp
qed

end
