(* ===== verification/MissionMachine.thy ===== *)
theory MissionMachine
  imports MissionPhases SharedMap
begin

section \<open>The mission state machine\<close>

text \<open>
  Models the other half of \<open>src/src/backend/shared/tashi-mission-map-machine.ts\<close>: nodes, targets,
  objectives, the class \<open>MissionStateMachine\<close>, the \<open>MissionPhasePolicy\<close>, the projection
  \<open>missionStateFromMachine\<close> and \<open>buildDemoMission\<close>. The private fields \<open>ctx\<close>, \<open>transitions\<close> and
  \<open>eventLog\<close> are the record \<open>mission_machine\<close>; the calls of the optional callbacks in \<open>deps\<close> are
  appended, in order, to its field \<open>mx_commits\<close>. The shared map is the field \<open>mx_map\<close>: the code
  shares it by reference with the delta coordinator, here \<open>on_map\<close> applies a map operation to it.
  The lemmas give the invariant of the transition log, the gates of every phase, and what the
  node and target merges keep.
\<close>

subsection \<open>Data\<close>

datatype node_role =
    Explorer | Relay | Triage | Rescuer | Standby | Command | Sensor | Transport | Emergency

fun role_str :: "node_role \<Rightarrow> string" where
  "role_str Explorer = ''explorer''"
| "role_str Relay = ''relay''"
| "role_str Triage = ''triage''"
| "role_str Rescuer = ''rescuer''"
| "role_str Standby = ''standby''"
| "role_str Command = ''command''"
| "role_str Sensor = ''sensor''"
| "role_str Transport = ''transport''"
| "role_str Emergency = ''emergency''"

datatype transition_reason =
    Boot | QuorumReached | CoverageReached | TargetConfirmed | TargetAssigned | ContactMade
  | ObjectiveComplete | SafetyDegraded | ManualAbort | OperatorOverride

fun reason_str :: "transition_reason \<Rightarrow> string" where
  "reason_str Boot = ''boot''"
| "reason_str QuorumReached = ''quorum_reached''"
| "reason_str CoverageReached = ''coverage_reached''"
| "reason_str TargetConfirmed = ''target_confirmed''"
| "reason_str TargetAssigned = ''target_assigned''"
| "reason_str ContactMade = ''contact_made''"
| "reason_str ObjectiveComplete = ''objective_complete''"
| "reason_str SafetyDegraded = ''safety_degraded''"
| "reason_str ManualAbort = ''manual_abort''"
| "reason_str OperatorOverride = ''operator_override''"

record xy_point =
  pt_x :: real
  pt_y :: real
  pt_z :: "real option"

record node_status =
  nd_nodeId :: ident
  nd_role :: node_role
  nd_batteryPct :: real
  nd_linkQuality :: real
  nd_gpsFix :: bool
  nd_lastSeenMs :: timestamp
  nd_active :: bool
  nd_capabilities :: "string list"
  nd_missionId :: "ident option"
  nd_location :: "xy_point option"

datatype target_status = TsNew | TsConfirmed | TsAssigned | TsExtracted | TsLost

fun status_str :: "target_status \<Rightarrow> string" where
  "status_str TsNew = ''new''"
| "status_str TsConfirmed = ''confirmed''"
| "status_str TsAssigned = ''assigned''"
| "status_str TsExtracted = ''extracted''"
| "status_str TsLost = ''lost''"

record target_record =
  tg_targetId :: ident
  tg_missionId :: ident
  tg_targetType :: string
  tg_confidence :: real
  tg_position :: "xy_point option"
  tg_confirmedBy :: "ident list"
  tg_assignedTo :: "ident option"
  tg_extractedBy :: "ident option"
  tg_foundAtMs :: timestamp
  tg_confirmedAtMs :: "timestamp option"
  tg_assignedAtMs :: "timestamp option"
  tg_extractedAtMs :: "timestamp option"
  tg_status :: target_status
  tg_metadata :: obj

record mission_objectives =
  ob_totalTargetsExpected :: int
  ob_totalTargetsConfirmed :: int
  ob_totalTargetsExtracted :: int
  ob_minCoveragePct :: real
  ob_minQuorumNodes :: int
  ob_requiredRoles :: "(node_role, int) jsmap"
  ob_safetyCritical :: bool
  ob_maxStaleNodeAgeMs :: int

record partial_objectives =
  po_totalTargetsExpected :: "int option"
  po_totalTargetsConfirmed :: "int option"
  po_totalTargetsExtracted :: "int option"
  po_minCoveragePct :: "real option"
  po_minQuorumNodes :: "int option"
  po_requiredRoles :: "(node_role, int) jsmap option"
  po_safetyCritical :: "bool option"
  po_maxStaleNodeAgeMs :: "int option"

record mission_snapshot =
  ss_missionId :: ident
  ss_phase :: mission_phase
  ss_phaseVersion :: version
  ss_updatedAtMs :: timestamp
  ss_nodes :: "(ident, node_status) jsmap"
  ss_targets :: "(ident, target_record) jsmap"
  ss_coveragePct :: real
  ss_healthyNodeCount :: int
  ss_staleNodeCount :: int
  ss_blockedCells :: int
  ss_searchCells :: int
  ss_discoveredCells :: int
  ss_completedTargets :: int
  ss_objectives :: mission_objectives
  ss_metadata :: obj

record phase_transition =
  pt_transitionId :: ident
  pt_missionId :: ident
  pt_from :: mission_phase
  pt_to :: mission_phase
  pt_reason :: transition_reason
  pt_requestedBy :: ident
  pt_createdAtMs :: timestamp
  pt_version :: version
  pt_entryChecks :: obj
  pt_exitChecks :: obj
  pt_accepted :: bool
  pt_rejectedReason :: "string option"
  pt_proofHash :: string

record machine_event =
  ev_tsMs :: timestamp
  ev_type :: string
  ev_payload :: obj

record machine_deps =
  dp_commitTransition :: bool
  dp_commitSnapshot :: bool
  dp_commitTarget :: bool

datatype machine_commit =
    CommitTransition phase_transition
  | CommitSnapshot mission_snapshot
  | CommitTarget target_record

record mission_machine =
  mx_missionId :: ident
  mx_createdAtMs :: timestamp
  mx_updatedAtMs :: timestamp
  mx_phase :: mission_phase
  mx_phaseVersion :: version
  mx_nodes :: "(ident, node_status) jsmap"
  mx_targets :: "(ident, target_record) jsmap"
  mx_map :: shared_map
  mx_objectives :: mission_objectives
  mx_metadata :: obj
  mx_latestTransition :: "phase_transition option"
  mx_notes :: "string list"
  mx_transitions :: "phase_transition list"
  mx_deps :: machine_deps
  mx_eventLog :: "machine_event list"
  mx_commits :: "machine_commit list"

record phase_checks =
  ck_entry :: obj
  ck_exit :: obj

definition manhattanDistance :: "xy_point \<Rightarrow> xy_point \<Rightarrow> real" where
  "manhattanDistance a b = \<bar>pt_x a - pt_x b\<bar> + \<bar>pt_y a - pt_y b\<bar>
     + \<bar>default_to (pt_z a) 0 - default_to (pt_z b) 0\<bar>"

fun nodeRoleToMissionNodeRole :: "node_role \<Rightarrow> mission_node_role" where
  "nodeRoleToMissionNodeRole Relay = MrRelay"
| "nodeRoleToMissionNodeRole Transport = MrCarrier"
| "nodeRoleToMissionNodeRole Triage = MrMedic"
| "nodeRoleToMissionNodeRole Rescuer = MrMedic"
| "nodeRoleToMissionNodeRole Emergency = MrMedic"
| "nodeRoleToMissionNodeRole Sensor = MrObserver"
| "nodeRoleToMissionNodeRole Command = MrObserver"
| "nodeRoleToMissionNodeRole Standby = MrObserver"
| "nodeRoleToMissionNodeRole Explorer = MrExplorer"

definition xy_json :: "xy_point \<Rightarrow> json" where
  "xy_json p = JObj ([(''x'', JNum (pt_x p)), (''y'', JNum (pt_y p))]
     @ (case pt_z p of None \<Rightarrow> [] | Some z \<Rightarrow> [(''z'', JNum z)]))"

subsection \<open>Construction, getters and the event log\<close>

definition recordEvent :: "js_env \<Rightarrow> string \<Rightarrow> obj \<Rightarrow> mission_machine \<Rightarrow> mission_machine" where
  "recordEvent env type payload mx =
     mx\<lparr>mx_eventLog := mx_eventLog mx @ [\<lparr> ev_tsMs = now_ms env, ev_type = type, ev_payload = payload \<rparr>]\<rparr>"

definition full_objectives :: "partial_objectives \<Rightarrow> mission_objectives" where
  "full_objectives po =
     \<lparr> ob_totalTargetsExpected = default_to (po_totalTargetsExpected po) 0,
       ob_totalTargetsConfirmed = default_to (po_totalTargetsConfirmed po) 0,
       ob_totalTargetsExtracted = default_to (po_totalTargetsExtracted po) 0,
       ob_minCoveragePct = default_to (po_minCoveragePct po) 0,
       ob_minQuorumNodes = default_to (po_minQuorumNodes po) 3,
       ob_requiredRoles = default_to (po_requiredRoles po) [],
       ob_safetyCritical = default_to (po_safetyCritical po) True,
       ob_maxStaleNodeAgeMs = default_to (po_maxStaleNodeAgeMs po) 15000 \<rparr>"

definition new_machine :: "js_env \<Rightarrow> ident \<Rightarrow> shared_map \<Rightarrow> partial_objectives \<Rightarrow> machine_deps \<Rightarrow> obj \<Rightarrow> mission_machine" where
  "new_machine env missionId m objectives deps metadata =
     recordEvent env ''mission_init'' [(''missionId'', JStr missionId)]
     \<lparr> mx_missionId = missionId, mx_createdAtMs = now_ms env, mx_updatedAtMs = now_ms env,
       mx_phase = PInit, mx_phaseVersion = 0, mx_nodes = [], mx_targets = [], mx_map = m,
       mx_objectives = full_objectives objectives, mx_metadata = metadata,
       mx_latestTransition = None, mx_notes = [],
       mx_transitions = [], mx_deps = deps, mx_eventLog = [], mx_commits = [] \<rparr>"

definition on_map :: "(shared_map \<Rightarrow> shared_map) \<Rightarrow> mission_machine \<Rightarrow> mission_machine" where
  "on_map f mx = mx\<lparr>mx_map := f (mx_map mx)\<rparr>"

definition getNode :: "ident \<Rightarrow> mission_machine \<Rightarrow> node_status option" where
  "getNode nodeId mx = js_get (mx_nodes mx) nodeId"

definition getTarget :: "ident \<Rightarrow> mission_machine \<Rightarrow> target_record option" where
  "getTarget targetId mx = js_get (mx_targets mx) targetId"

definition listNodes :: "mission_machine \<Rightarrow> node_status list" where
  "listNodes mx = js_values (mx_nodes mx)"

definition listTargets :: "mission_machine \<Rightarrow> target_record list" where
  "listTargets mx = js_values (mx_targets mx)"

definition listTransitions :: "mission_machine \<Rightarrow> phase_transition list" where
  "listTransitions mx = mx_transitions mx"

definition listEvents :: "nat \<Rightarrow> mission_machine \<Rightarrow> machine_event list" where
  "listEvents limit mx = slice_tail limit (mx_eventLog mx)"

definition alive :: "node_status \<Rightarrow> bool" where
  "alive n \<longleftrightarrow> nd_active n \<and> nd_batteryPct n > 15 \<and> nd_linkQuality n > 2 / 10"

definition stale :: "js_env \<Rightarrow> mission_machine \<Rightarrow> node_status \<Rightarrow> bool" where
  "stale env mx n \<longleftrightarrow> now_ms env - nd_lastSeenMs n > ob_maxStaleNodeAgeMs (mx_objectives mx)"

definition machineSnapshot :: "js_env \<Rightarrow> mission_machine \<Rightarrow> mission_snapshot" where
  "machineSnapshot env mx =
     (let mapSnap = snapshot (now_ms env) (mx_map mx);
          values = js_values (mx_nodes mx)
      in \<lparr> ss_missionId = mx_missionId mx, ss_phase = mx_phase mx, ss_phaseVersion = mx_phaseVersion mx,
           ss_updatedAtMs = now_ms env, ss_nodes = mx_nodes mx, ss_targets = mx_targets mx,
           ss_coveragePct = sn_coveragePct mapSnap,
           ss_healthyNodeCount = int (length (filter alive values)),
           ss_staleNodeCount = int (length (filter (stale env mx) values)),
           ss_blockedCells = sn_blockedCount mapSnap,
           ss_searchCells = sn_searchedCount mapSnap,
           ss_discoveredCells = sn_exploredCount mapSnap,
           ss_completedTargets =
             int (length (filter (\<lambda>t. tg_status t = TsExtracted) (js_values (mx_targets mx)))),
           ss_objectives = mx_objectives mx,
           ss_metadata = obj_spread (obj_spread [] (mx_metadata mx))
             [(''dirtyMap'', jint (dirtyCount (mx_map mx))),
              (''latestTransitionId'', opt_str (map_option pt_transitionId (mx_latestTransition mx)))] \<rparr>)"

text \<open>The optional calls \<open>this.deps.commitTransition?.(\<dots>)\<close>, \<open>commitSnapshot\<close> and \<open>commitTarget\<close>.\<close>

definition callTransition :: "phase_transition \<Rightarrow> mission_machine \<Rightarrow> mission_machine" where
  "callTransition tx mx =
     (if dp_commitTransition (mx_deps mx) then mx\<lparr>mx_commits := mx_commits mx @ [CommitTransition tx]\<rparr> else mx)"

definition callSnapshot :: "js_env \<Rightarrow> mission_machine \<Rightarrow> mission_machine" where
  "callSnapshot env mx =
     (if dp_commitSnapshot (mx_deps mx)
      then mx\<lparr>mx_commits := mx_commits mx @ [CommitSnapshot (machineSnapshot env mx)]\<rparr> else mx)"

definition callTarget :: "target_record \<Rightarrow> mission_machine \<Rightarrow> mission_machine" where
  "callTarget t mx =
     (if dp_commitTarget (mx_deps mx) then mx\<lparr>mx_commits := mx_commits mx @ [CommitTarget t]\<rparr> else mx)"

subsection \<open>Nodes\<close>

definition mergeNode :: "node_status \<Rightarrow> node_status \<Rightarrow> node_status" where
  "mergeNode current incoming = incoming\<lparr>
     nd_batteryPct := max (nd_batteryPct current) (nd_batteryPct incoming),
     nd_linkQuality := max (nd_linkQuality current) (nd_linkQuality incoming),
     nd_lastSeenMs := max (nd_lastSeenMs current) (nd_lastSeenMs incoming),
     nd_capabilities := dedup (nd_capabilities current @ nd_capabilities incoming),
     nd_missionId := nullish (nd_missionId incoming) (nd_missionId current),
     nd_location := nullish (nd_location incoming) (nd_location current) \<rparr>"

definition registerNode :: "js_env \<Rightarrow> node_status \<Rightarrow> mission_machine \<Rightarrow> node_status \<times> mission_machine" where
  "registerNode env node mx =
     (let next = node\<lparr> nd_batteryPct := clamp (nd_batteryPct node) 0 100,
            nd_linkQuality := clamp (nd_linkQuality node) 0 1,
            nd_lastSeenMs := or_num (nd_lastSeenMs node) (now_ms env),
            nd_missionId := nullish (nd_missionId node) (Some (mx_missionId mx)),
            nd_capabilities := dedup (nd_capabilities node) \<rparr>;
          stored = (case js_get (mx_nodes mx) (nd_nodeId node) of
                      Some current \<Rightarrow> mergeNode current next | None \<Rightarrow> next);
          mx1 = mx\<lparr> mx_nodes := js_put (nd_nodeId node) stored (mx_nodes mx), mx_updatedAtMs := now_ms env \<rparr>
      in (stored, recordEvent env ''node_register''
           [(''nodeId'', JStr (nd_nodeId node)), (''role'', JStr (role_str (nd_role node))),
            (''active'', JBool (nd_active next))] mx1))"

record node_patch =
  np_nodeId :: "ident option"
  np_role :: "node_role option"
  np_batteryPct :: "real option"
  np_linkQuality :: "real option"
  np_gpsFix :: "bool option"
  np_lastSeenMs :: "timestamp option"
  np_active :: "bool option"
  np_capabilities :: "string list option"
  np_missionId :: "ident option"
  np_location :: "xy_point option"

definition opt_field :: "string \<Rightarrow> ('a \<Rightarrow> json) \<Rightarrow> 'a option \<Rightarrow> obj" where
  "opt_field k f v = (case v of None \<Rightarrow> [] | Some x \<Rightarrow> [(k, f x)])"

definition patch_json :: "node_patch \<Rightarrow> json" where
  "patch_json p = JObj
     (opt_field ''nodeId'' JStr (np_nodeId p) @ opt_field ''role'' (JStr \<circ> role_str) (np_role p)
      @ opt_field ''batteryPct'' JNum (np_batteryPct p) @ opt_field ''linkQuality'' JNum (np_linkQuality p)
      @ opt_field ''gpsFix'' JBool (np_gpsFix p) @ opt_field ''lastSeenMs'' jint (np_lastSeenMs p)
      @ opt_field ''active'' JBool (np_active p) @ opt_field ''capabilities'' jstrs (np_capabilities p)
      @ opt_field ''missionId'' JStr (np_missionId p) @ opt_field ''location'' xy_json (np_location p))"

definition updateNode :: "js_env \<Rightarrow> ident \<Rightarrow> node_patch \<Rightarrow> mission_machine \<Rightarrow> node_status option \<times> mission_machine" where
  "updateNode env nodeId patch mx =
     (case js_get (mx_nodes mx) nodeId of
        None \<Rightarrow> (None, mx)
      | Some current \<Rightarrow>
          (let next = \<lparr> nd_nodeId = default_to (np_nodeId patch) (nd_nodeId current),
                 nd_role = default_to (np_role patch) (nd_role current),
                 nd_batteryPct = clamp (default_to (np_batteryPct patch) (nd_batteryPct current)) 0 100,
                 nd_linkQuality = clamp (default_to (np_linkQuality patch) (nd_linkQuality current)) 0 1,
                 nd_gpsFix = default_to (np_gpsFix patch) (nd_gpsFix current),
                 nd_lastSeenMs = default_to (np_lastSeenMs patch) (now_ms env),
                 nd_active = default_to (np_active patch) (nd_active current),
                 nd_capabilities = dedup (default_to (np_capabilities patch) (nd_capabilities current)),
                 nd_missionId = nullish (np_missionId patch) (nd_missionId current),
                 nd_location = nullish (np_location patch) (nd_location current) \<rparr>;
               stored = mergeNode current next;
               mx1 = mx\<lparr> mx_nodes := js_put nodeId stored (mx_nodes mx), mx_updatedAtMs := now_ms env \<rparr>
           in (Some stored, recordEvent env ''node_update''
                [(''nodeId'', JStr nodeId), (''patch'', patch_json patch)] mx1)))"

definition removeNode :: "js_env \<Rightarrow> ident \<Rightarrow> mission_machine \<Rightarrow> bool \<times> mission_machine" where
  "removeNode env nodeId mx =
     (case js_get (mx_nodes mx) nodeId of
        None \<Rightarrow> (False, mx)
      | Some _ \<Rightarrow>
          (True, recordEvent env ''node_remove'' [(''nodeId'', JStr nodeId)]
             (mx\<lparr> mx_nodes := js_remove nodeId (mx_nodes mx), mx_updatedAtMs := now_ms env \<rparr>)))"

definition setNodeLocation :: "js_env \<Rightarrow> ident \<Rightarrow> xy_point \<Rightarrow> mission_machine \<Rightarrow> node_status option \<times> mission_machine" where
  "setNodeLocation env nodeId location mx =
     (case js_get (mx_nodes mx) nodeId of
        None \<Rightarrow> (None, mx)
      | Some current \<Rightarrow>
          (let moved = current\<lparr> nd_location := Some location, nd_lastSeenMs := now_ms env \<rparr>
           in (Some moved, recordEvent env ''node_location''
                [(''nodeId'', JStr nodeId), (''location'', xy_json location)]
                (mx\<lparr> mx_nodes := js_put nodeId moved (mx_nodes mx) \<rparr>))))"

subsection \<open>Targets\<close>

fun targetRank :: "target_status \<Rightarrow> nat" where
  "targetRank TsNew = 0"
| "targetRank TsConfirmed = 1"
| "targetRank TsAssigned = 2"
| "targetRank TsExtracted = 3"
| "targetRank TsLost = 4"

definition mergeStatus :: "target_status \<Rightarrow> target_status \<Rightarrow> target_status" where
  "mergeStatus current incoming = (if targetRank incoming \<ge> targetRank current then incoming else current)"

definition mergeTarget :: "target_record \<Rightarrow> target_record \<Rightarrow> target_record" where
  "mergeTarget current incoming = incoming\<lparr>
     tg_status := mergeStatus (tg_status current) (tg_status incoming),
     tg_confidence := max (tg_confidence current) (tg_confidence incoming),
     tg_confirmedBy := dedup (tg_confirmedBy current @ tg_confirmedBy incoming),
     tg_position := nullish (tg_position incoming) (tg_position current),
     tg_assignedTo := nullish (tg_assignedTo incoming) (tg_assignedTo current),
     tg_extractedBy := nullish (tg_extractedBy incoming) (tg_extractedBy current),
     tg_foundAtMs := min (tg_foundAtMs current) (tg_foundAtMs incoming),
     tg_confirmedAtMs := nullish (tg_confirmedAtMs incoming) (tg_confirmedAtMs current),
     tg_assignedAtMs := nullish (tg_assignedAtMs incoming) (tg_assignedAtMs current),
     tg_extractedAtMs := nullish (tg_extractedAtMs incoming) (tg_extractedAtMs current),
     tg_metadata := obj_spread (obj_spread [] (tg_metadata current)) (tg_metadata incoming) \<rparr>"

text \<open>The common tail of the target operations: store, touch, record, commit.\<close>

definition store_target :: "js_env \<Rightarrow> ident \<Rightarrow> target_record \<Rightarrow> string \<Rightarrow> obj \<Rightarrow> mission_machine \<Rightarrow> mission_machine" where
  "store_target env i t event payload mx =
     callSnapshot env (callTarget t (recordEvent env event payload
       (mx\<lparr> mx_targets := js_put i t (mx_targets mx), mx_updatedAtMs := now_ms env \<rparr>)))"

definition upsertTarget :: "js_env \<Rightarrow> target_record \<Rightarrow> mission_machine \<Rightarrow> target_record \<times> mission_machine" where
  "upsertTarget env target mx =
     (let next = (case js_get (mx_targets mx) (tg_targetId target) of
                    Some current \<Rightarrow> mergeTarget current target | None \<Rightarrow> target)
      in (next, store_target env (tg_targetId target) next ''target_upsert''
           [(''targetId'', JStr (tg_targetId target)), (''status'', JStr (status_str (tg_status next))),
            (''missionId'', JStr (tg_missionId next))] mx))"

definition proof_confidence :: "js_lib \<Rightarrow> obj \<Rightarrow> real \<Rightarrow> real" where
  "proof_confidence L prf current =
     (case js_get prf ''confidence'' of
        None \<Rightarrow> current
      | Some JNull \<Rightarrow> current
      | Some (JNum r) \<Rightarrow> r
      | Some v \<Rightarrow> to_number L v)"

definition confirmTarget :: "js_lib \<Rightarrow> js_env \<Rightarrow> ident \<Rightarrow> ident \<Rightarrow> obj \<Rightarrow> mission_machine \<Rightarrow>
    target_record option \<times> mission_machine" where
  "confirmTarget L env targetId nodeId prf mx =
     (case js_get (mx_targets mx) targetId of
        None \<Rightarrow> (None, mx)
      | Some current \<Rightarrow>
          (let next = current\<lparr> tg_status := TsConfirmed,
                 tg_confidence := max (tg_confidence current) (proof_confidence L prf (tg_confidence current)),
                 tg_confirmedBy := dedup (tg_confirmedBy current @ [nodeId]),
                 tg_confirmedAtMs := nullish (tg_confirmedAtMs current) (Some (now_ms env)),
                 tg_metadata := obj_spread (obj_spread [] (tg_metadata current)) prf \<rparr>;
               bumped = (mx_objectives mx)\<lparr> ob_totalTargetsConfirmed :=
                 ob_totalTargetsConfirmed (mx_objectives mx) + (if tg_status current = TsConfirmed then 0 else 1) \<rparr>
           in (Some next, store_target env targetId next ''target_confirm''
                [(''targetId'', JStr targetId), (''nodeId'', JStr nodeId)] (mx\<lparr>mx_objectives := bumped\<rparr>))))"

definition assignTarget :: "js_env \<Rightarrow> ident \<Rightarrow> ident \<Rightarrow> string \<Rightarrow> mission_machine \<Rightarrow>
    target_record option \<times> mission_machine" where
  "assignTarget env targetId nodeId reason mx =
     (case js_get (mx_targets mx) targetId of
        None \<Rightarrow> (None, mx)
      | Some current \<Rightarrow>
          (let next = current\<lparr> tg_status := TsAssigned, tg_assignedTo := Some nodeId,
                 tg_assignedAtMs := Some (now_ms env),
                 tg_metadata := obj_spread (obj_spread [] (tg_metadata current)) [(''assignmentReason'', JStr reason)] \<rparr>
           in (Some next, store_target env targetId next ''target_assign''
                [(''targetId'', JStr targetId), (''nodeId'', JStr nodeId), (''reason'', JStr reason)] mx)))"

definition extractTarget :: "js_env \<Rightarrow> ident \<Rightarrow> ident \<Rightarrow> obj \<Rightarrow> mission_machine \<Rightarrow>
    target_record option \<times> mission_machine" where
  "extractTarget env targetId nodeId prf mx =
     (case js_get (mx_targets mx) targetId of
        None \<Rightarrow> (None, mx)
      | Some current \<Rightarrow>
          (let next = current\<lparr> tg_status := TsExtracted, tg_extractedBy := Some nodeId,
                 tg_extractedAtMs := Some (now_ms env),
                 tg_metadata := obj_spread (obj_spread [] (tg_metadata current)) prf \<rparr>;
               bumped = (mx_objectives mx)\<lparr> ob_totalTargetsExtracted :=
                 ob_totalTargetsExtracted (mx_objectives mx) + (if tg_status current = TsExtracted then 0 else 1) \<rparr>
           in (Some next, store_target env targetId next ''target_extract''
                [(''targetId'', JStr targetId), (''nodeId'', JStr nodeId)] (mx\<lparr>mx_objectives := bumped\<rparr>))))"

definition confirmed_status :: "target_status \<Rightarrow> bool" where
  "confirmed_status st \<longleftrightarrow> st = TsConfirmed \<or> st = TsAssigned \<or> st = TsExtracted"

definition assigned_status :: "target_status \<Rightarrow> bool" where
  "assigned_status st \<longleftrightarrow> st = TsAssigned \<or> st = TsExtracted"

definition listConfirmedTargets :: "mission_machine \<Rightarrow> target_record list" where
  "listConfirmedTargets mx = filter (\<lambda>t. confirmed_status (tg_status t)) (js_values (mx_targets mx))"

definition listAssignedTargets :: "mission_machine \<Rightarrow> target_record list" where
  "listAssignedTargets mx = filter (\<lambda>t. assigned_status (tg_status t)) (js_values (mx_targets mx))"

definition listExtractedTargets :: "mission_machine \<Rightarrow> target_record list" where
  "listExtractedTargets mx = filter (\<lambda>t. tg_status t = TsExtracted) (js_values (mx_targets mx))"

subsection \<open>Checks\<close>

definition countRoles :: "node_status list \<Rightarrow> (node_role, int) jsmap" where
  "countRoles nodes = foldl (\<lambda>counts n. js_put (nd_role n) (default_to (js_get counts (nd_role n)) 0 + 1) counts) [] nodes"

definition roleCount :: "(node_role, int) jsmap \<Rightarrow> node_role \<Rightarrow> int" where
  "roleCount counts r = default_to (js_get counts r) 0"

definition requiredRolesSatisfied :: "mission_machine \<Rightarrow> (node_role, int) jsmap \<Rightarrow> bool" where
  "requiredRolesSatisfied mx counts =
     list_all (\<lambda>rc. \<not> (roleCount counts (fst rc) < snd rc)) (ob_requiredRoles (mx_objectives mx))"

definition coveragePct :: "js_env \<Rightarrow> mission_machine \<Rightarrow> real" where
  "coveragePct env mx = sn_coveragePct (snapshot (now_ms env) (mx_map mx))"

definition areObjectivesComplete :: "js_env \<Rightarrow> mission_machine \<Rightarrow> bool" where
  "areObjectivesComplete env mx =
     (let ob = mx_objectives mx;
          confirmed = int (length (listConfirmedTargets mx));
          extracted = int (length (listExtractedTargets mx))
      in confirmed \<ge> ob_totalTargetsConfirmed ob
         \<or> extracted \<ge> ob_totalTargetsExtracted ob
         \<or> (ob_totalTargetsExpected ob > 0 \<and> extracted \<ge> ob_totalTargetsExpected ob)
         \<or> (coveragePct env mx \<ge> ob_minCoveragePct ob \<and> confirmed = 0 \<and> ob_totalTargetsExpected ob = 0))"

definition quorum :: "mission_machine \<Rightarrow> int" where
  "quorum mx = max (ob_minQuorumNodes (mx_objectives mx)) 1"

definition healthy :: "js_env \<Rightarrow> mission_machine \<Rightarrow> node_status \<Rightarrow> bool" where
  "healthy env mx n \<longleftrightarrow> nd_active n \<and> nd_batteryPct n > 20 \<and> nd_linkQuality n > 3 / 10
     \<and> now_ms env - nd_lastSeenMs n \<le> ob_maxStaleNodeAgeMs (mx_objectives mx)"

definition computeChecks :: "js_env \<Rightarrow> mission_phase \<Rightarrow> mission_machine \<Rightarrow> phase_checks" where
  "computeChecks env to_ph mx =
     (let nodes = js_values (mx_nodes mx);
          activeNodes = filter alive nodes;
          healthyNodes = filter (healthy env mx) nodes;
          staleNodes = filter (stale env mx) nodes;
          confirmedTargets = listConfirmedTargets mx;
          assignedTargets = listAssignedTargets mx;
          extractedTargets = listExtractedTargets mx;
          mapSnap = snapshot (now_ms env) (mx_map mx);
          roleCounts = countRoles nodes;
          q = quorum mx;
          ob = mx_objectives mx
      in case to_ph of
           PDiscovery \<Rightarrow>
             \<lparr> ck_entry =
                 [(''quorumReached'', JBool (int (length activeNodes) \<ge> q)),
                  (''requiredRolesSatisfied'', JBool (requiredRolesSatisfied mx roleCounts)),
                  (''coverageNotTooHigh'', JBool (mx_phase mx = PSearch \<or> sn_coveragePct mapSnap < 30))],
               ck_exit =
                 [(''discoveryProgress'', JBool (sn_exploredCount mapSnap > 0 \<or> int (length nodes) \<ge> q))] \<rparr>
         | PSearch \<Rightarrow>
             \<lparr> ck_entry =
                 [(''quorumReached'', JBool (int (length activeNodes) \<ge> q)),
                  (''coverageReached'', JBool (sn_coveragePct mapSnap \<ge> ob_minCoveragePct ob)),
                  (''relayAvailable'', JBool (js_get roleCounts Relay \<noteq> None))],
               ck_exit =
                 [(''searchProgress'', JBool (sn_searchedCount mapSnap > 0 \<or> sn_exploredCount mapSnap > 0))] \<rparr>
         | PTriage \<Rightarrow>
             \<lparr> ck_entry =
                 [(''atLeastOneTargetConfirmed'', JBool (length confirmedTargets \<ge> 1)),
                  (''triageNodesAvailable'', JBool (roleCount roleCounts Triage > 0 \<or> roleCount roleCounts Rescuer > 0)),
                  (''coverageSufficient'', JBool (sn_coveragePct mapSnap \<ge> ob_minCoveragePct ob * (1 / 2)))],
               ck_exit = [(''triageBacklogCleared'', JBool (length confirmedTargets \<ge> 1))] \<rparr>
         | PRescue \<Rightarrow>
             \<lparr> ck_entry =
                 [(''atLeastOneTargetAssigned'', JBool (length assignedTargets \<ge> 1)),
                  (''rescuersAvailable'', JBool (roleCount roleCounts Rescuer > 0 \<or> roleCount roleCounts Transport > 0)),
                  (''safetyNotCritical'', JBool (\<not> ob_safetyCritical ob \<or> length healthyNodes \<ge> 1))],
               ck_exit = [(''rescueInProgress'', JBool (length assignedTargets \<ge> 1))] \<rparr>
         | PExtraction \<Rightarrow>
             \<lparr> ck_entry =
                 [(''rescuerContactMade'', JBool (length assignedTargets \<ge> 1)),
                  (''extractionTeamAvailable'', JBool (roleCount roleCounts Rescuer > 0)),
                  (''targetInContact'', JBool (list_ex (\<lambda>t. tg_position t \<noteq> None \<or> tg_status t = TsAssigned) assignedTargets))],
               ck_exit = [(''extractionProgress'', JBool (length extractedTargets \<ge> 1))] \<rparr>
         | PReturn \<Rightarrow>
             \<lparr> ck_entry =
                 [(''objectivesComplete'', JBool (areObjectivesComplete env mx)),
                  (''noOpenExtraction'', JBool (length assignedTargets = 0 \<or> length extractedTargets \<ge> length assignedTargets))],
               ck_exit =
                 [(''returnTriggered'', JBool True),
                  (''safetySnapshot'', JObj [(''staleNodes'', jint (int (length staleNodes))),
                     (''healthyNodes'', jint (int (length healthyNodes)))])] \<rparr>
         | PComplete \<Rightarrow>
             \<lparr> ck_entry =
                 [(''objectivesComplete'', JBool (areObjectivesComplete env mx)),
                  (''returnReady'', JBool (mx_phase mx = PReturn \<or> areObjectivesComplete env mx))],
               ck_exit = [(''finalized'', JBool True)] \<rparr>
         | PAborted \<Rightarrow> \<lparr> ck_entry = [(''manualAbort'', JBool True)], ck_exit = [(''finalized'', JBool True)] \<rparr>
         | PInit \<Rightarrow> \<lparr> ck_entry = [], ck_exit = [] \<rparr>)"

definition all_pass :: "obj \<Rightarrow> bool" where
  "all_pass checks = list_all (\<lambda>v. v \<noteq> JBool False) (js_values checks)"

subsection \<open>Transitions\<close>

definition checks_json :: "phase_checks \<Rightarrow> json" where
  "checks_json c = JObj [(''entry'', JObj (ck_entry c)), (''exit'', JObj (ck_exit c))]"

definition canTransition :: "js_lib \<Rightarrow> js_env \<Rightarrow> mission_phase \<Rightarrow> mission_machine \<Rightarrow> bool \<times> string \<times> phase_checks" where
  "canTransition L env to_ph mx =
     (let checks = computeChecks env to_ph mx
      in if \<not> all_pass (ck_entry checks)
         then (False, ''entry_failed:'' @ json_text (num_str L) (JObj (ck_entry checks)), checks)
         else if \<not> all_pass (ck_exit checks)
         then (False, ''exit_failed:'' @ json_text (num_str L) (JObj (ck_exit checks)), checks)
         else (True, ''ok'', checks))"

definition EARLY_RETURN_EXTRAS :: "(mission_phase, mission_phase list) jsmap" where
  "EARLY_RETURN_EXTRAS =
     [(PSearch, [PReturn]), (PTriage, [PReturn]), (PRescue, [PReturn]), (PExtraction, [PReturn])]"

definition allowedTransitions :: "mission_phase \<Rightarrow> mission_phase list" where
  "allowedTransitions from_ph =
     (if from_ph \<in> set TERMINAL_PHASES then []
      else dedup (validVertexNextPhases from_ph @ default_to (js_get EARLY_RETURN_EXTRAS from_ph) []))"

definition evaluateTransition :: "mission_phase \<Rightarrow> mission_phase \<Rightarrow> phase_checks \<Rightarrow> bool \<times> string" where
  "evaluateTransition from_ph to_ph checks =
     (if to_ph \<noteq> PAborted \<and> to_ph \<notin> set (allowedTransitions from_ph)
      then (False, ''illegal_transition:'' @ phase_str from_ph @ ''->'' @ phase_str to_ph)
      else if \<not> (all_pass (ck_entry checks) \<and> all_pass (ck_exit checks))
      then (False, ''checks_failed:'' @ phase_str from_ph @ ''->'' @ phase_str to_ph)
      else (True, ''ok''))"

definition log_transition :: "phase_transition \<Rightarrow> mission_machine \<Rightarrow> mission_machine" where
  "log_transition tx mx = mx\<lparr> mx_transitions := mx_transitions mx @ [tx], mx_latestTransition := Some tx \<rparr>"

definition transition :: "js_lib \<Rightarrow> js_env \<Rightarrow> mission_phase \<Rightarrow> ident \<Rightarrow> transition_reason \<Rightarrow> mission_machine \<Rightarrow>
    phase_transition \<times> mission_machine" where
  "transition L env to_ph requestedBy reason mx =
     (let from_ph = mx_phase mx;
          checks = computeChecks env to_ph mx;
          (ok, why) = evaluateTransition from_ph to_ph checks;
          tx = \<lparr> pt_transitionId = new_id env 0 ''tx'', pt_missionId = mx_missionId mx,
                 pt_from = from_ph, pt_to = to_ph, pt_reason = reason, pt_requestedBy = requestedBy,
                 pt_createdAtMs = now_ms env, pt_version = mx_phaseVersion mx + 1,
                 pt_entryChecks = ck_entry checks, pt_exitChecks = ck_exit checks,
                 pt_accepted = ok, pt_rejectedReason = (if ok then None else Some why),
                 pt_proofHash = hash_object (sha L) (JObj
                   [(''missionId'', JStr (mx_missionId mx)), (''from'', JStr (phase_str from_ph)),
                    (''to'', JStr (phase_str to_ph)), (''reason'', JStr (reason_str reason)),
                    (''checks'', checks_json checks), (''requestedBy'', JStr requestedBy),
                    (''version'', jint (mx_phaseVersion mx + 1))]) \<rparr>;
          mx1 = recordEvent env ''phase_transition_request''
            [(''from'', JStr (phase_str from_ph)), (''to'', JStr (phase_str to_ph)),
             (''reason'', JStr (reason_str reason)), (''requestedBy'', JStr requestedBy)]
            ((log_transition tx mx)\<lparr>mx_updatedAtMs := now_ms env\<rparr>)
      in if \<not> ok
         then (tx, callTransition tx (recordEvent env ''phase_transition_reject''
                [(''from'', JStr (phase_str from_ph)), (''to'', JStr (phase_str to_ph)),
                 (''reason'', opt_str (pt_rejectedReason tx))] mx1))
         else (tx, callSnapshot env (callTransition tx (recordEvent env ''phase_transition_commit''
                [(''from'', JStr (phase_str from_ph)), (''to'', JStr (phase_str to_ph)),
                 (''reason'', JStr (reason_str reason)), (''requestedBy'', JStr requestedBy),
                 (''phaseVersion'', jint (mx_phaseVersion mx + 1))]
                (mx1\<lparr> mx_phase := to_ph, mx_phaseVersion := mx_phaseVersion mx + 1 \<rparr>)))))"

definition forceAbort :: "js_lib \<Rightarrow> js_env \<Rightarrow> ident \<Rightarrow> transition_reason \<Rightarrow> obj \<Rightarrow> mission_machine \<Rightarrow>
    phase_transition \<times> mission_machine" where
  "forceAbort L env requestedBy reason details mx =
     (let from_ph = mx_phase mx;
          tx = \<lparr> pt_transitionId = new_id env 0 ''abort'', pt_missionId = mx_missionId mx,
                 pt_from = from_ph, pt_to = PAborted, pt_reason = reason, pt_requestedBy = requestedBy,
                 pt_createdAtMs = now_ms env, pt_version = mx_phaseVersion mx + 1,
                 pt_entryChecks = obj_spread [(''forced'', JBool True)] details, pt_exitChecks = [],
                 pt_accepted = True, pt_rejectedReason = None,
                 pt_proofHash = hash_object (sha L) (JObj
                   [(''missionId'', JStr (mx_missionId mx)), (''from'', JStr (phase_str from_ph)),
                    (''to'', JStr (phase_str PAborted)), (''reason'', JStr (reason_str reason)),
                    (''details'', JObj details), (''requestedBy'', JStr requestedBy)]) \<rparr>;
          mx1 = (log_transition tx mx)\<lparr> mx_phase := PAborted, mx_phaseVersion := mx_phaseVersion mx + 1,
                  mx_updatedAtMs := now_ms env \<rparr>
      in (tx, callSnapshot env (callTransition tx (recordEvent env ''phase_force_abort''
            [(''from'', JStr (phase_str from_ph)), (''requestedBy'', JStr requestedBy),
             (''reason'', JStr (reason_str reason)), (''details'', JObj details)] mx1))))"

fun reasonFor :: "mission_phase \<Rightarrow> transition_reason" where
  "reasonFor PDiscovery = QuorumReached"
| "reasonFor PSearch = CoverageReached"
| "reasonFor PTriage = TargetConfirmed"
| "reasonFor PRescue = TargetAssigned"
| "reasonFor PExtraction = ContactMade"
| "reasonFor PReturn = ObjectiveComplete"
| "reasonFor PComplete = ObjectiveComplete"
| "reasonFor PAborted = ManualAbort"
| "reasonFor PInit = Boot"

definition canEnterDiscovery :: "mission_machine \<Rightarrow> bool" where
  "canEnterDiscovery mx \<longleftrightarrow>
     int (length (filter alive (js_values (mx_nodes mx)))) \<ge> quorum mx
     \<and> requiredRolesSatisfied mx (countRoles (js_values (mx_nodes mx)))"

definition canEnterSearch :: "js_env \<Rightarrow> mission_machine \<Rightarrow> bool" where
  "canEnterSearch env mx \<longleftrightarrow>
     int (length (filter nd_active (js_values (mx_nodes mx)))) \<ge> quorum mx
     \<and> coveragePct env mx \<ge> ob_minCoveragePct (mx_objectives mx)"

definition entryPhaseAfterInit :: "mission_machine \<Rightarrow> mission_phase option" where
  "entryPhaseAfterInit mx = (if canEnterDiscovery mx then Some PDiscovery else None)"

definition entryPhaseAfterDiscovery :: "js_env \<Rightarrow> mission_machine \<Rightarrow> mission_phase option" where
  "entryPhaseAfterDiscovery env mx = (if canEnterSearch env mx then Some PSearch else None)"

definition entryPhaseAfterSearch :: "js_env \<Rightarrow> mission_machine \<Rightarrow> mission_phase option" where
  "entryPhaseAfterSearch env mx =
     (if length (listConfirmedTargets mx) \<ge> 1 then Some PTriage
      else if coveragePct env mx \<ge> ob_minCoveragePct (mx_objectives mx) \<and> length (listConfirmedTargets mx) = 0
      then Some PReturn
      else None)"

definition entryPhaseAfterTriage :: "mission_machine \<Rightarrow> mission_phase option" where
  "entryPhaseAfterTriage mx = (if length (listAssignedTargets mx) \<ge> 1 then Some PRescue else None)"

definition entryPhaseAfterRescue :: "mission_machine \<Rightarrow> mission_phase option" where
  "entryPhaseAfterRescue mx =
     (if list_ex (\<lambda>t. tg_position t \<noteq> None) (listAssignedTargets mx) then Some PExtraction else None)"

definition entryPhaseAfterExtraction :: "js_env \<Rightarrow> mission_machine \<Rightarrow> mission_phase option" where
  "entryPhaseAfterExtraction env mx =
     (if areObjectivesComplete env mx \<or> \<not> ob_safetyCritical (mx_objectives mx) then Some PReturn else None)"

definition entryPhaseAfterReturn :: "js_env \<Rightarrow> mission_machine \<Rightarrow> mission_phase option" where
  "entryPhaseAfterReturn env mx = (if areObjectivesComplete env mx then Some PComplete else None)"

definition suggestNextPhase :: "js_env \<Rightarrow> mission_machine \<Rightarrow> mission_phase option" where
  "suggestNextPhase env mx =
     (case mx_phase mx of
        PInit \<Rightarrow> entryPhaseAfterInit mx
      | PDiscovery \<Rightarrow> entryPhaseAfterDiscovery env mx
      | PSearch \<Rightarrow> entryPhaseAfterSearch env mx
      | PTriage \<Rightarrow> entryPhaseAfterTriage mx
      | PRescue \<Rightarrow> entryPhaseAfterRescue mx
      | PExtraction \<Rightarrow> entryPhaseAfterExtraction env mx
      | PReturn \<Rightarrow> entryPhaseAfterReturn env mx
      | PComplete \<Rightarrow> None
      | PAborted \<Rightarrow> None)"

definition advanceIfReady :: "js_lib \<Rightarrow> js_env \<Rightarrow> ident \<Rightarrow> mission_machine \<Rightarrow> phase_transition option \<times> mission_machine" where
  "advanceIfReady L env requestedBy mx =
     (case suggestNextPhase env mx of
        None \<Rightarrow> (None, mx)
      | Some next \<Rightarrow>
          if next = mx_phase mx then (None, mx)
          else (let (tx, mx1) = transition L env next requestedBy (reasonFor next) mx
                in (if pt_accepted tx then Some tx else None, mx1)))"

subsection \<open>The phase policy\<close>

definition shouldAdvance :: "js_lib \<Rightarrow> js_env \<Rightarrow> ident \<Rightarrow> mission_machine \<Rightarrow> bool \<times> mission_machine" where
  "shouldAdvance L env requestedBy mx =
     (let (r, mx1) = advanceIfReady L env requestedBy mx in (r \<noteq> None, mx1))"

definition enforceRequestedPhase :: "js_lib \<Rightarrow> js_env \<Rightarrow> mission_phase \<Rightarrow> ident \<Rightarrow> mission_machine \<Rightarrow>
    phase_transition \<times> mission_machine" where
  "enforceRequestedPhase L env to_ph requestedBy mx =
     transition L env to_ph requestedBy (if mx_phase mx = PAborted then ManualAbort else OperatorOverride) mx"

definition abortIfUnsafe :: "js_lib \<Rightarrow> js_env \<Rightarrow> ident \<Rightarrow> transition_reason \<Rightarrow> mission_machine \<Rightarrow>
    phase_transition option \<times> mission_machine" where
  "abortIfUnsafe L env requestedBy reason mx =
     (let snap = machineSnapshot env mx; staleNodes = ss_staleNodeCount snap
      in if staleNodes > 0 \<or> ss_coveragePct snap < ob_minCoveragePct (ss_objectives snap) * (1 / 4)
         then (let (tx, mx1) = forceAbort L env requestedBy reason
                     [(''staleNodes'', jint staleNodes), (''coveragePct'', JNum (ss_coveragePct snap))] mx
               in (Some tx, mx1))
         else (None, mx))"

definition nextAction :: "js_env \<Rightarrow> mission_machine \<Rightarrow> mission_phase option" where
  "nextAction env mx = suggestNextPhase env mx"

subsection \<open>The read model\<close>

definition missionStateFromMachine :: "js_env \<Rightarrow> timestamp option \<Rightarrow> mission_machine \<Rightarrow> mission_state" where
  "missionStateFromMachine env nowMsOverride mx =
     (let snap = machineSnapshot env mx;
          t = default_to nowMsOverride (now_ms env);
          base = emptyMissionState (ss_missionId snap) t;
          roster = foldl (\<lambda>r n. js_put (nd_nodeId n)
              \<lparr> re_nodeId = nd_nodeId n, re_role = nodeRoleToMissionNodeRole (nd_role n),
                re_joinedAtMs = nd_lastSeenMs n, re_capabilities = nd_capabilities n \<rparr> r)
            [] (js_values (ss_nodes snap));
          targets = foldl (\<lambda>r tgt. js_put (tg_targetId tgt)
              \<lparr> st_targetId = tg_targetId tgt,
                st_discoveredBy = (case tg_confirmedBy tgt of [] \<Rightarrow> None | n # _ \<Rightarrow> Some n),
                st_confirmedByVertex = Some (tg_status tgt \<noteq> TsNew \<and> tg_status tgt \<noteq> TsLost),
                st_notes = (case js_get (tg_metadata tgt) ''note'' of Some (JStr n) \<Rightarrow> Some n | _ \<Rightarrow> None) \<rparr> r)
            [] (js_values (ss_targets snap));
          mapS = snapshot (now_ms env) (mx_map mx);
          headHash = default_to (map_option pt_proofHash (mx_latestTransition mx))
            (cp_lastEventHash (ms_consensusPointer base))
      in base\<lparr> ms_phase := ss_phase snap, ms_updatedAtMs := t, ms_roster := roster, ms_targets := targets,
           ms_mapSummary := \<lparr> su_cellsKnown = real (length (js_keys (sn_cells mapS))),
             su_lastMergedVersion = Some (sn_version mapS), su_bbox = None \<rparr>,
           ms_consensusPointer := \<lparr> cp_sequence = ss_phaseVersion snap, cp_lastEventHash = headHash \<rparr> \<rparr>)"

definition demo_objectives :: partial_objectives where
  "demo_objectives =
     \<lparr> po_totalTargetsExpected = Some 1, po_totalTargetsConfirmed = Some 1, po_totalTargetsExtracted = Some 1,
       po_minCoveragePct = Some 20, po_minQuorumNodes = Some 3,
       po_requiredRoles = Some [(Explorer, 1), (Relay, 1), (Triage, 1)],
       po_safetyCritical = Some True, po_maxStaleNodeAgeMs = Some 10000 \<rparr>"

definition buildDemoMission :: "js_env \<Rightarrow> mission_machine" where
  "buildDemoMission env =
     new_machine env ''mission-demo'' (new_shared_map ''demo-map'') demo_objectives
       \<lparr> dp_commitTransition = True, dp_commitSnapshot = True, dp_commitTarget = True \<rparr>
       [(''incident'', JStr ''warehouse_collapse'')]"

subsection \<open>Runs\<close>

datatype machine_op =
    MoRegister node_status
  | MoUpdate ident node_patch
  | MoRemove ident
  | MoLocate ident xy_point
  | MoUpsert target_record
  | MoConfirm ident ident obj
  | MoAssign ident ident string
  | MoExtract ident ident obj
  | MoMap map_op
  | MoTransition mission_phase ident transition_reason
  | MoForceAbort ident transition_reason obj
  | MoAdvance ident
  | MoEnforce mission_phase ident
  | MoAbortIfUnsafe ident transition_reason

fun machine_apply :: "js_lib \<Rightarrow> js_env \<Rightarrow> machine_op \<Rightarrow> mission_machine \<Rightarrow> mission_machine" where
  "machine_apply L env (MoRegister n) mx = snd (registerNode env n mx)"
| "machine_apply L env (MoUpdate i p) mx = snd (updateNode env i p mx)"
| "machine_apply L env (MoRemove i) mx = snd (removeNode env i mx)"
| "machine_apply L env (MoLocate i p) mx = snd (setNodeLocation env i p mx)"
| "machine_apply L env (MoUpsert t) mx = snd (upsertTarget env t mx)"
| "machine_apply L env (MoConfirm i n prf) mx = snd (confirmTarget L env i n prf mx)"
| "machine_apply L env (MoAssign i n r) mx = snd (assignTarget env i n r mx)"
| "machine_apply L env (MoExtract i n prf) mx = snd (extractTarget env i n prf mx)"
| "machine_apply L env (MoMap op) mx = on_map (map_apply env op) mx"
| "machine_apply L env (MoTransition p n r) mx = snd (transition L env p n r mx)"
| "machine_apply L env (MoForceAbort n r d) mx = snd (forceAbort L env n r d mx)"
| "machine_apply L env (MoAdvance n) mx = snd (advanceIfReady L env n mx)"
| "machine_apply L env (MoEnforce p n) mx = snd (enforceRequestedPhase L env p n mx)"
| "machine_apply L env (MoAbortIfUnsafe n r) mx = snd (abortIfUnsafe L env n r mx)"

inductive mission_reach :: "js_lib \<Rightarrow> mission_machine \<Rightarrow> bool" for L :: js_lib where
  reach_new: "mission_reach L (new_machine env mid (new_shared_map mapId) ob deps md)"
| reach_step: "mission_reach L mx \<Longrightarrow> mission_reach L (machine_apply L env op mx)"

subsection \<open>What each operation leaves alone\<close>

definition log_view :: "mission_machine \<Rightarrow>
    ident \<times> mission_phase \<times> version \<times> phase_transition list \<times> phase_transition option" where
  "log_view mx = (mx_missionId mx, mx_phase mx, mx_phaseVersion mx, mx_transitions mx, mx_latestTransition mx)"

lemma plumbing_simps [simp]:
  "log_view (recordEvent env ty pl mx) = log_view mx" "mx_nodes (recordEvent env ty pl mx) = mx_nodes mx"
  "mx_targets (recordEvent env ty pl mx) = mx_targets mx" "mx_map (recordEvent env ty pl mx) = mx_map mx"
  "mx_objectives (recordEvent env ty pl mx) = mx_objectives mx" "mx_deps (recordEvent env ty pl mx) = mx_deps mx"
  "mx_commits (recordEvent env ty pl mx) = mx_commits mx" "mx_phase (recordEvent env ty pl mx) = mx_phase mx"
  "mx_phaseVersion (recordEvent env ty pl mx) = mx_phaseVersion mx"
  "log_view (callTransition tx mx) = log_view mx" "mx_nodes (callTransition tx mx) = mx_nodes mx"
  "mx_targets (callTransition tx mx) = mx_targets mx" "mx_map (callTransition tx mx) = mx_map mx"
  "mx_objectives (callTransition tx mx) = mx_objectives mx" "mx_phase (callTransition tx mx) = mx_phase mx"
  "mx_phaseVersion (callTransition tx mx) = mx_phaseVersion mx" "mx_deps (callTransition tx mx) = mx_deps mx"
  "log_view (callSnapshot env mx) = log_view mx" "mx_nodes (callSnapshot env mx) = mx_nodes mx"
  "mx_targets (callSnapshot env mx) = mx_targets mx" "mx_map (callSnapshot env mx) = mx_map mx"
  "mx_objectives (callSnapshot env mx) = mx_objectives mx" "mx_phase (callSnapshot env mx) = mx_phase mx"
  "mx_phaseVersion (callSnapshot env mx) = mx_phaseVersion mx"
  "log_view (callTarget t mx) = log_view mx" "mx_nodes (callTarget t mx) = mx_nodes mx"
  "mx_targets (callTarget t mx) = mx_targets mx" "mx_map (callTarget t mx) = mx_map mx"
  "mx_objectives (callTarget t mx) = mx_objectives mx"
  by (simp_all add: recordEvent_def callTransition_def callSnapshot_def callTarget_def log_view_def)

lemma plumbing_log_simps [simp]:
  "mx_missionId (recordEvent env ty pl mx) = mx_missionId mx"
  "mx_transitions (recordEvent env ty pl mx) = mx_transitions mx"
  "mx_latestTransition (recordEvent env ty pl mx) = mx_latestTransition mx"
  "mx_missionId (log_transition tx mx) = mx_missionId mx" "mx_phase (log_transition tx mx) = mx_phase mx"
  "mx_phaseVersion (log_transition tx mx) = mx_phaseVersion mx"
  "mx_transitions (log_transition tx mx) = mx_transitions mx @ [tx]"
  "mx_latestTransition (log_transition tx mx) = Some tx"
  "mx_nodes (log_transition tx mx) = mx_nodes mx" "mx_targets (log_transition tx mx) = mx_targets mx"
  "mx_map (log_transition tx mx) = mx_map mx" "mx_objectives (log_transition tx mx) = mx_objectives mx"
  by (simp_all add: recordEvent_def log_transition_def)

lemma log_view_update [simp]:
  "log_view (mx\<lparr>mx_nodes := a\<rparr>) = log_view mx" "log_view (mx\<lparr>mx_targets := b\<rparr>) = log_view mx"
  "log_view (mx\<lparr>mx_updatedAtMs := t\<rparr>) = log_view mx" "log_view (mx\<lparr>mx_objectives := c\<rparr>) = log_view mx"
  "log_view (mx\<lparr>mx_map := d\<rparr>) = log_view mx"
  by (simp_all add: log_view_def)

lemma store_target_simps [simp]:
  "log_view (store_target env i t ev pl mx) = log_view mx" "mx_nodes (store_target env i t ev pl mx) = mx_nodes mx"
  "mx_targets (store_target env i t ev pl mx) = js_put i t (mx_targets mx)"
  "mx_objectives (store_target env i t ev pl mx) = mx_objectives mx"
  "mx_map (store_target env i t ev pl mx) = mx_map mx"
  by (simp_all add: store_target_def)

lemma registry_log_view:
  "log_view (snd (registerNode env n mx)) = log_view mx"
  "log_view (snd (updateNode env i p mx)) = log_view mx"
  "log_view (snd (removeNode env i mx)) = log_view mx"
  "log_view (snd (setNodeLocation env i pos mx)) = log_view mx"
  "log_view (snd (upsertTarget env t mx)) = log_view mx"
  "log_view (snd (confirmTarget L env i node prf mx)) = log_view mx"
  "log_view (snd (assignTarget env i node r mx)) = log_view mx"
  "log_view (snd (extractTarget env i node prf mx)) = log_view mx"
  "log_view (on_map f mx) = log_view mx"
  by (simp_all add: registerNode_def updateNode_def removeNode_def setNodeLocation_def upsertTarget_def
      confirmTarget_def assignTarget_def extractTarget_def on_map_def Let_def split: option.splits)

text \<open>A transition appends its record; phase and version move only when it is accepted.\<close>

definition log_append :: "phase_transition \<Rightarrow> mission_machine \<Rightarrow>
    ident \<times> mission_phase \<times> version \<times> phase_transition list \<times> phase_transition option" where
  "log_append tx mx = (mx_missionId mx, if pt_accepted tx then pt_to tx else mx_phase mx,
     mx_phaseVersion mx + (if pt_accepted tx then 1 else 0), mx_transitions mx @ [tx], Some tx)"

lemma transition_record:
  defines "ok env p mx \<equiv> fst (evaluateTransition (mx_phase mx) p (computeChecks env p mx))"
  shows "pt_from (fst (transition L env p n r mx)) = mx_phase mx"
    "pt_to (fst (transition L env p n r mx)) = p"
    "pt_version (fst (transition L env p n r mx)) = mx_phaseVersion mx + 1"
    "pt_missionId (fst (transition L env p n r mx)) = mx_missionId mx"
    "pt_accepted (fst (transition L env p n r mx)) = ok env p mx"
  unfolding transition_def ok_def Let_def split_beta fst_conv if_distrib [where f = fst] if_cancel
  by simp_all

lemma transition_frame:
  "mx_nodes (snd (transition L env p n r mx)) = mx_nodes mx"
  "mx_targets (snd (transition L env p n r mx)) = mx_targets mx"
  "mx_map (snd (transition L env p n r mx)) = mx_map mx"
  "mx_objectives (snd (transition L env p n r mx)) = mx_objectives mx"
  unfolding transition_def Let_def split_beta snd_conv if_distrib [where f = snd]
  by simp_all

lemma log_view_moved:
  "log_view (mx\<lparr>mx_phase := p, mx_phaseVersion := v\<rparr>) =
    (mx_missionId mx, p, v, mx_transitions mx, mx_latestTransition mx)"
  by (simp add: log_view_def)

lemma transition_log_view:
  "log_view (snd (transition L env p n r mx)) = log_append (fst (transition L env p n r mx)) mx"
  unfolding transition_def Let_def split_beta fst_conv snd_conv if_distrib [where f = snd]
    if_distrib [where f = fst] if_cancel
  by (simp add: log_append_def log_view_moved log_view_def [of "log_transition _ _"])

lemma forceAbort_record:
  "pt_from (fst (forceAbort L env n r d mx)) = mx_phase mx" "pt_to (fst (forceAbort L env n r d mx)) = PAborted"
  "pt_version (fst (forceAbort L env n r d mx)) = mx_phaseVersion mx + 1"
  "pt_missionId (fst (forceAbort L env n r d mx)) = mx_missionId mx" "pt_accepted (fst (forceAbort L env n r d mx))"
  "mx_nodes (snd (forceAbort L env n r d mx)) = mx_nodes mx"
  "mx_targets (snd (forceAbort L env n r d mx)) = mx_targets mx"
  "mx_map (snd (forceAbort L env n r d mx)) = mx_map mx"
  "mx_objectives (snd (forceAbort L env n r d mx)) = mx_objectives mx"
  "log_view (snd (forceAbort L env n r d mx)) = log_append (fst (forceAbort L env n r d mx)) mx"
  unfolding forceAbort_def Let_def fst_conv snd_conv
  by (simp_all add: log_append_def log_view_moved)

lemmas transition_facts = transition_record transition_frame transition_log_view
lemmas forceAbort_facts = forceAbort_record

subsection \<open>The transition log\<close>

definition accepted :: "mission_machine \<Rightarrow> phase_transition list" where
  "accepted mx = filter pt_accepted (mx_transitions mx)"

fun chained :: "mission_phase \<Rightarrow> phase_transition list \<Rightarrow> mission_phase \<Rightarrow> bool" where
  "chained p [] q = (p = q)"
| "chained p (t # ts) q = (pt_from t = p \<and> chained (pt_to t) ts q)"

lemma chained_snoc: "chained p (ts @ [t]) q \<longleftrightarrow> chained p ts (pt_from t) \<and> pt_to t = q"
  by (induction ts arbitrary: p) auto

definition legal :: "phase_transition \<Rightarrow> bool" where
  "legal t \<longleftrightarrow> pt_to t = PAborted \<or> pt_to t \<in> set (allowedTransitions (pt_from t))"

definition wf_log :: "mission_machine \<Rightarrow> bool" where
  "wf_log mx \<longleftrightarrow>
     map pt_version (accepted mx) = map (\<lambda>i. int i + 1) [0..<length (accepted mx)]
     \<and> mx_phaseVersion mx = int (length (accepted mx))
     \<and> chained PInit (accepted mx) (mx_phase mx)
     \<and> (\<forall>t. t \<in> set (mx_transitions mx) \<longrightarrow> pt_missionId t = mx_missionId mx)
     \<and> (\<forall>t. t \<in> set (accepted mx) \<longrightarrow> legal t)
     \<and> mx_latestTransition mx = (if mx_transitions mx = [] then None else Some (last (mx_transitions mx)))"

lemma wf_log_view: "log_view mx' = log_view mx \<Longrightarrow> wf_log mx' = wf_log mx"
  by (simp add: log_view_def wf_log_def accepted_def)

lemma wf_log_append:
  assumes "wf_log mx" "log_view mx' = log_append t mx" "pt_from t = mx_phase mx"
    "pt_version t = mx_phaseVersion mx + 1" "pt_missionId t = mx_missionId mx" "pt_accepted t \<Longrightarrow> legal t"
  shows "wf_log mx'"
  using assms by (auto simp: log_view_def log_append_def wf_log_def accepted_def chained_snoc split: if_splits)

lemma evaluateTransition_legal:
  "fst (evaluateTransition a b c) \<Longrightarrow> b = PAborted \<or> b \<in> set (allowedTransitions a)"
  by (auto simp: evaluateTransition_def split: if_splits)

lemma wf_log_transition: "wf_log mx \<Longrightarrow> wf_log (snd (transition L env p n r mx))"
  by (rule wf_log_append [OF _ transition_log_view])
    (auto simp: transition_record legal_def dest: evaluateTransition_legal)

lemma wf_log_forceAbort: "wf_log mx \<Longrightarrow> wf_log (snd (forceAbort L env n r d mx))"
  by (rule wf_log_append [OF _ forceAbort_record(10)]) (auto simp: forceAbort_record legal_def)

lemma advance_cases:
  "snd (advanceIfReady L env n mx) = mx \<or>
   (\<exists>p. suggestNextPhase env mx = Some p \<and> snd (advanceIfReady L env n mx) = snd (transition L env p n (reasonFor p) mx))"
  by (auto simp: advanceIfReady_def Let_def split: option.splits prod.splits)

lemma abortIfUnsafe_cases:
  "snd (abortIfUnsafe L env n r mx) = mx \<or> (\<exists>d. snd (abortIfUnsafe L env n r mx) = snd (forceAbort L env n r d mx))"
  unfolding abortIfUnsafe_def Let_def split_beta by (simp only: if_distrib [where f = snd] snd_conv) auto

lemma wf_log_apply: "wf_log mx \<Longrightarrow> wf_log (machine_apply L env op mx)"
proof (cases op)
  case (MoAdvance n)
  then show "wf_log mx \<Longrightarrow> ?thesis" using advance_cases [of L env n mx] by (auto simp: wf_log_transition)
next
  case (MoAbortIfUnsafe n r)
  then show "wf_log mx \<Longrightarrow> ?thesis" using abortIfUnsafe_cases [of L env n r mx] by (auto simp: wf_log_forceAbort)
qed (simp_all add: wf_log_view [OF registry_log_view(1)] wf_log_view [OF registry_log_view(2)]
    wf_log_view [OF registry_log_view(3)] wf_log_view [OF registry_log_view(4)] wf_log_view [OF registry_log_view(5)]
    wf_log_view [OF registry_log_view(6)] wf_log_view [OF registry_log_view(7)] wf_log_view [OF registry_log_view(8)]
    wf_log_view [OF registry_log_view(9)] wf_log_transition wf_log_forceAbort enforceRequestedPhase_def)

lemma wf_log_new: "wf_log (new_machine env mid m ob deps md)"
  by (simp add: new_machine_def wf_log_def accepted_def)

lemma reach_wf_log: "mission_reach L mx \<Longrightarrow> wf_log mx"
  by (induction rule: mission_reach.induct) (simp_all add: wf_log_new wf_log_apply)

text \<open>
  The transition log explains the state: in every reachable machine the accepted records
  carry the versions 1, 2, \<dots> up to the phase version, each starts in the phase the previous one
  reached, the first in \<open>init\<close> and the last in the current phase, each is legal, and
  \<open>latestTransition\<close> is the last record logged.
\<close>

theorem transition_log_invariant:
  assumes "mission_reach L mx" shows "wf_log mx"
  using assms by (rule reach_wf_log)

definition toy_lib :: js_lib where
  "toy_lib = \<lparr> sha = (\<lambda>v. ''hash''), num_str = (\<lambda>r. show_int \<lfloor>r\<rfloor>), to_number = (\<lambda>v. 0) \<rparr>"

definition toy_node :: "ident \<Rightarrow> node_role \<Rightarrow> real \<Rightarrow> node_status" where
  "toy_node i role battery = \<lparr> nd_nodeId = i, nd_role = role, nd_batteryPct = battery, nd_linkQuality = 1,
     nd_gpsFix = True, nd_lastSeenMs = 1, nd_active = True, nd_capabilities = [], nd_missionId = None,
     nd_location = None \<rparr>"

definition demo_run :: "machine_op list \<Rightarrow> mission_machine" where
  "demo_run ops = foldl (\<lambda>mx op. machine_apply toy_lib (demo_env 1) op mx) (buildDemoMission (demo_env 1)) ops"

lemma demo_run_reach: "mission_reach toy_lib (demo_run ops)"
proof (induction ops rule: rev_induct)
  case Nil
  show ?case unfolding demo_run_def buildDemoMission_def by (simp add: reach_new)
qed (simp add: demo_run_def reach_step)

theorem transition_log_invariant_witness:
  "wf_log (demo_run [MoTransition PDiscovery ''n'' Boot, MoForceAbort ''n'' ManualAbort []])"
  by (rule transition_log_invariant [OF demo_run_reach])

subsection \<open>Paths of the machine\<close>

definition machine_next :: "mission_phase \<Rightarrow> mission_phase list" where
  "machine_next p = PAborted # allowedTransitions p"

lemma allowedTransitions_simps [simp]:
  "allowedTransitions PInit = [PDiscovery, PAborted]"
  "allowedTransitions PDiscovery = [PSearch, PAborted]"
  "allowedTransitions PSearch = [PTriage, PDiscovery, PAborted, PReturn]"
  "allowedTransitions PTriage = [PRescue, PAborted, PReturn]"
  "allowedTransitions PRescue = [PExtraction, PAborted, PReturn]"
  "allowedTransitions PExtraction = [PReturn, PAborted]"
  "allowedTransitions PReturn = [PComplete, PAborted]"
  "allowedTransitions PComplete = []" "allowedTransitions PAborted = []"
  by (simp_all add: allowedTransitions_def TERMINAL_PHASES_def EARLY_RETURN_EXTRAS_def dedup_def set_add_def)

lemma chained_path:
  "chained p ts q \<Longrightarrow> (\<And>t. t \<in> set ts \<Longrightarrow> legal t) \<Longrightarrow> phase_path machine_next vs p \<Longrightarrow>
    phase_path machine_next (vs @ map pt_to ts) q"
proof (induction ts arbitrary: p vs)
  case (Cons t ts)
  have "pt_to t \<in> set (machine_next p)" using Cons.prems(1,2) by (fastforce simp: legal_def machine_next_def)
  with Cons.prems(3) have "phase_path machine_next (vs @ [pt_to t]) (pt_to t)" by (rule path_step)
  with Cons.IH [of "pt_to t" "vs @ [pt_to t]"] Cons.prems(1,2) show ?case by simp
qed simp

fun always_visited :: "mission_phase \<Rightarrow> mission_phase list" where
  "always_visited PInit = [PInit]"
| "always_visited PDiscovery = [PInit, PDiscovery]"
| "always_visited PSearch = [PInit, PDiscovery, PSearch]"
| "always_visited PTriage = [PInit, PDiscovery, PSearch, PTriage]"
| "always_visited PRescue = [PInit, PDiscovery, PSearch, PTriage, PRescue]"
| "always_visited PExtraction = [PInit, PDiscovery, PSearch, PTriage, PRescue, PExtraction]"
| "always_visited PReturn = [PInit, PDiscovery, PSearch, PReturn]"
| "always_visited PComplete = [PInit, PDiscovery, PSearch, PReturn, PComplete]"
| "always_visited PAborted = [PInit]"

lemma always_visited_step:
  "q \<in> set (machine_next p) \<Longrightarrow> set (always_visited q) \<subseteq> insert q (set (always_visited p))"
  by (cases p; cases q) (simp_all add: machine_next_def)

lemma machine_path_covers: "phase_path machine_next vs p \<Longrightarrow> set (always_visited p) \<subseteq> set vs"
proof (induction rule: phase_path.induct)
  case (path_step vs p q)
  then show ?case using always_visited_step [of q p] by auto
qed simp

lemma chained_aborted:
  assumes "\<And>t. t \<in> set ts \<Longrightarrow> legal t"
  shows "chained PAborted ts q \<Longrightarrow> q = PAborted"
  using assms
proof (induction ts)
  case (Cons t ts)
  have "legal t" by (rule Cons.prems) simp
  with Cons.prems have "pt_to t = PAborted" by (simp add: legal_def)
  with Cons show ?case by simp
qed simp

lemma chained_through_aborted:
  assumes "\<And>t. t \<in> set ts \<Longrightarrow> legal t" "PAborted \<in> pt_to ` set ts"
  shows "chained p ts q \<Longrightarrow> q = PAborted"
  using assms
proof (induction ts arbitrary: p)
  case (Cons t ts)
  show ?case
  proof (cases "pt_to t = PAborted")
    case True
    with Cons.prems chained_aborted [of ts q] show ?thesis by simp
  next
    case False
    with Cons.prems Cons.IH [of "pt_to t"] show ?thesis by auto
  qed
qed simp

text \<open>
  A machine that is in \<open>complete\<close> got there by accepted transitions through \<open>discovery\<close>,
  \<open>search\<close> and \<open>return\<close>; the early-return shortcuts can only skip \<open>triage\<close>, \<open>rescue\<close> and
  \<open>extraction\<close>, and an aborted mission never completes.
\<close>

theorem complete_passed_search_and_return:
  assumes "mission_reach L mx"
  shows "set (always_visited (mx_phase mx)) \<subseteq> set (PInit # map pt_to (accepted mx)) \<and>
    (mx_phase mx = PComplete \<longrightarrow> PAborted \<notin> set (map pt_to (accepted mx)))"
proof -
  from reach_wf_log [OF assms] have c: "chained PInit (accepted mx) (mx_phase mx)"
    and l: "\<And>t. t \<in> set (accepted mx) \<Longrightarrow> legal t" by (auto simp: wf_log_def)
  have "phase_path machine_next ([PInit] @ map pt_to (accepted mx)) (mx_phase mx)"
    by (rule chained_path [OF c l path_start])
  moreover have "mx_phase mx = PComplete \<longrightarrow> PAborted \<notin> set (map pt_to (accepted mx))"
    using chained_through_aborted [OF l _ c] by auto
  ultimately show ?thesis using machine_path_covers by fastforce
qed

theorem complete_passed_search_and_return_witness:
  "set (always_visited (mx_phase (demo_run []))) \<subseteq> set (PInit # map pt_to (accepted (demo_run [])))"
  by (rule complete_passed_search_and_return [OF demo_run_reach, THEN conjunct1])

subsection \<open>The gates\<close>

lemma countRoles_get:
  "js_get (countRoles ns) r =
    (let k = length (filter (\<lambda>n. nd_role n = r) ns) in if k = 0 then None else Some (int k))"
proof -
  have "js_get (foldl (\<lambda>counts n. js_put (nd_role n) (default_to (js_get counts (nd_role n)) 0 + 1) counts) m ns) r =
      (let k = length (filter (\<lambda>n. nd_role n = r) ns)
       in if k = 0 then js_get m r else Some (default_to (js_get m r) 0 + int k))" for m :: "(node_role, int) jsmap"
    by (induction ns arbitrary: m) (auto simp: js_map_simps Let_def)
  from this [of "[]"] show ?thesis by (simp add: countRoles_def)
qed

lemma roleCount_countRoles: "roleCount (countRoles ns) r = int (length (filter (\<lambda>n. nd_role n = r) ns))"
  by (simp add: roleCount_def countRoles_get Let_def)

lemma length_filter_pos: "0 < length (filter P xs) \<longleftrightarrow> (\<exists>x\<in>set xs. P x)"
  by (induction xs) auto

lemma length_filter_ge_1: "Suc 0 \<le> length (filter P xs) \<longleftrightarrow> (\<exists>x\<in>set xs. P x)"
  by (metis Suc_le_eq length_filter_pos)

lemma length_filter_le_imp:
  assumes "\<And>x. Q x \<Longrightarrow> P x"
  shows "length (filter P xs) \<le> length (filter Q xs) \<longleftrightarrow> (\<forall>x\<in>set xs. P x \<longrightarrow> Q x)"
proof (induction xs)
  case (Cons x xs)
  have "length (filter Q xs) \<le> length (filter P xs)" using assms by (induction xs) auto
  with Cons assms show ?case by auto
qed simp

definition has_node :: "mission_machine \<Rightarrow> (node_status \<Rightarrow> bool) \<Rightarrow> bool" where
  "has_node mx P \<longleftrightarrow> (\<exists>n\<in>set (listNodes mx). P n)"

definition has_target :: "mission_machine \<Rightarrow> (target_record \<Rightarrow> bool) \<Rightarrow> bool" where
  "has_target mx P \<longleftrightarrow> (\<exists>t\<in>set (listTargets mx). P t)"

definition count_nodes :: "mission_machine \<Rightarrow> (node_status \<Rightarrow> bool) \<Rightarrow> int" where
  "count_nodes mx P = int (length (filter P (listNodes mx)))"

fun gate :: "js_env \<Rightarrow> mission_machine \<Rightarrow> mission_phase \<Rightarrow> bool" where
  "gate env mx PInit = True"
| "gate env mx PDiscovery \<longleftrightarrow>
     quorum mx \<le> count_nodes mx alive
     \<and> (\<forall>(r, c) \<in> set (ob_requiredRoles (mx_objectives mx)). c \<le> count_nodes mx (\<lambda>n. nd_role n = r))
     \<and> (mx_phase mx = PSearch \<or> coveragePct env mx < 30)"
| "gate env mx PSearch \<longleftrightarrow>
     quorum mx \<le> count_nodes mx alive \<and> ob_minCoveragePct (mx_objectives mx) \<le> coveragePct env mx
     \<and> has_node mx (\<lambda>n. nd_role n = Relay) \<and> exploredCells (mx_map mx) \<noteq> []"
| "gate env mx PTriage \<longleftrightarrow>
     has_target mx (\<lambda>t. confirmed_status (tg_status t))
     \<and> has_node mx (\<lambda>n. nd_role n = Triage \<or> nd_role n = Rescuer)
     \<and> ob_minCoveragePct (mx_objectives mx) / 2 \<le> coveragePct env mx"
| "gate env mx PRescue \<longleftrightarrow>
     has_target mx (\<lambda>t. assigned_status (tg_status t))
     \<and> has_node mx (\<lambda>n. nd_role n = Rescuer \<or> nd_role n = Transport)
     \<and> (ob_safetyCritical (mx_objectives mx) \<longrightarrow> has_node mx (healthy env mx))"
| "gate env mx PExtraction \<longleftrightarrow>
     has_target mx (\<lambda>t. tg_status t = TsExtracted) \<and> has_node mx (\<lambda>n. nd_role n = Rescuer)
     \<and> has_target mx (\<lambda>t. tg_status t = TsAssigned \<or> tg_status t = TsExtracted \<and> tg_position t \<noteq> None)"
| "gate env mx PReturn \<longleftrightarrow>
     areObjectivesComplete env mx \<and> \<not> has_target mx (\<lambda>t. tg_status t = TsAssigned)"
| "gate env mx PComplete \<longleftrightarrow> areObjectivesComplete env mx"
| "gate env mx PAborted = True"

lemma all_pass_simps [simp]:
  "all_pass [] = True" "all_pass ((k, JBool b) # cs) = (b \<and> all_pass cs)"
  "all_pass ((k, JObj o1) # cs) = all_pass cs"
  by (auto simp: all_pass_def js_values_def)

lemma explored_count: "sn_exploredCount (snapshot now m) = int (length (exploredCells m))"
  by (simp add: snapshot_def exploredCells_def allCells_def Let_def)

lemma searched_explored: "0 < sn_searchedCount (snapshot now m) \<Longrightarrow> 0 < sn_exploredCount (snapshot now m)"
  by (auto simp: snapshot_def Let_def count_state_def explored_state_def filter_empty_conv)

lemmas gate_simps = computeChecks_def Let_def has_node_def has_target_def count_nodes_def listNodes_def listTargets_def
  listConfirmedTargets_def listAssignedTargets_def listExtractedTargets_def coveragePct_def

lemma gate_discovery:
  "all_pass (ck_entry (computeChecks env PDiscovery mx)) \<and> all_pass (ck_exit (computeChecks env PDiscovery mx))
    \<longleftrightarrow> gate env mx PDiscovery"
proof -
  have "quorum mx \<le> int (length (filter alive (js_values (mx_nodes mx)))) \<Longrightarrow> quorum mx \<le> int (length (mx_nodes mx))"
    using length_filter_le [of alive "js_values (mx_nodes mx)"] by simp
  then show ?thesis
    by (auto simp: gate_simps requiredRolesSatisfied_def list_all_iff roleCount_countRoles not_less split: prod.splits)
qed

lemma gate_search:
  "all_pass (ck_entry (computeChecks env PSearch mx)) \<and> all_pass (ck_exit (computeChecks env PSearch mx))
    \<longleftrightarrow> gate env mx PSearch"
proof -
  have relay: "(\<exists>k. js_get (countRoles ns) Relay = Some k) \<longleftrightarrow> (\<exists>n\<in>set ns. nd_role n = Relay)" for ns
    by (auto simp: countRoles_get Let_def filter_empty_conv)
  have "0 < sn_searchedCount (snapshot (now_ms env) (mx_map mx)) \<or> 0 < sn_exploredCount (snapshot (now_ms env) (mx_map mx))
      \<longleftrightarrow> exploredCells (mx_map mx) \<noteq> []"
    using searched_explored [of "now_ms env" "mx_map mx"] by (auto simp: explored_count)
  then show ?thesis by (simp add: gate_simps relay)
qed

lemma gate_targets:
  "all_pass (ck_entry (computeChecks env PTriage mx)) \<and> all_pass (ck_exit (computeChecks env PTriage mx))
    \<longleftrightarrow> gate env mx PTriage"
  "all_pass (ck_entry (computeChecks env PRescue mx)) \<and> all_pass (ck_exit (computeChecks env PRescue mx))
    \<longleftrightarrow> gate env mx PRescue"
  "all_pass (ck_entry (computeChecks env PExtraction mx)) \<and> all_pass (ck_exit (computeChecks env PExtraction mx))
    \<longleftrightarrow> gate env mx PExtraction"
  by (auto simp: gate_simps roleCount_countRoles length_filter_pos length_filter_ge_1 list_ex_iff assigned_status_def
      simp del: length_greater_0_conv)

lemma gate_end:
  "all_pass (ck_entry (computeChecks env PReturn mx)) \<and> all_pass (ck_exit (computeChecks env PReturn mx))
    \<longleftrightarrow> gate env mx PReturn"
proof -
  have "length (listAssignedTargets mx) = 0 \<or> length (listAssignedTargets mx) \<le> length (listExtractedTargets mx)
      \<longleftrightarrow> \<not> has_target mx (\<lambda>t. tg_status t = TsAssigned)"
    using length_filter_le_imp [of "\<lambda>t. tg_status t = TsExtracted" "\<lambda>t. assigned_status (tg_status t)" "listTargets mx"]
    by (auto simp: gate_simps assigned_status_def filter_empty_conv)
  then show ?thesis by (simp add: computeChecks_def Let_def)
qed

lemma checks_gate:
  "all_pass (ck_entry (computeChecks env p mx)) \<and> all_pass (ck_exit (computeChecks env p mx)) \<longleftrightarrow> gate env mx p"
proof (cases p)
  case PInit then show ?thesis by (simp add: computeChecks_def Let_def)
next
  case PDiscovery then show ?thesis using gate_discovery [of env mx] by (simp only:)
next
  case PSearch then show ?thesis using gate_search [of env mx] by (simp only:)
next
  case PTriage then show ?thesis using gate_targets(1) [of env mx] by (simp only:)
next
  case PRescue then show ?thesis using gate_targets(2) [of env mx] by (simp only:)
next
  case PExtraction then show ?thesis using gate_targets(3) [of env mx] by (simp only:)
next
  case PReturn then show ?thesis using gate_end [of env mx] by (simp only:)
next
  case PComplete then show ?thesis by (auto simp: computeChecks_def Let_def)
next
  case PAborted then show ?thesis by (simp add: computeChecks_def Let_def)
qed

text \<open>
  The whole check machinery amounts to this: a request is accepted exactly when the target
  phase is \<open>aborted\<close> or allowed from the current one, and the gate of that phase holds, where the
  gate is stated over the nodes, targets and cells themselves. In particular extraction may only
  be entered once a target has already been extracted, the discovery exit check is implied by the
  quorum, and aborting is accepted in every phase, the terminal ones included.
\<close>

theorem transition_accepted_iff:
  "pt_accepted (fst (transition L env p n r mx)) =
    ((p = PAborted \<or> p \<in> set (allowedTransitions (mx_phase mx))) \<and> gate env mx p)"
  by (simp only: transition_record evaluateTransition_def checks_gate) auto

subsection \<open>Advancing\<close>

lemma suggest_allowed:
  "suggestNextPhase env mx = Some p \<Longrightarrow> p \<in> set (allowedTransitions (mx_phase mx)) \<and> p \<noteq> mx_phase mx"
  by (cases "mx_phase mx")
    (auto simp: suggestNextPhase_def entryPhaseAfterInit_def entryPhaseAfterDiscovery_def entryPhaseAfterSearch_def
      entryPhaseAfterTriage_def entryPhaseAfterRescue_def entryPhaseAfterExtraction_def entryPhaseAfterReturn_def
      split: if_splits)

lemma log_view_phase:
  "log_view mx' = log_append tx mx \<Longrightarrow> mx_phase mx' = (if pt_accepted tx then pt_to tx else mx_phase mx)
    \<and> mx_phaseVersion mx' = mx_phaseVersion mx + (if pt_accepted tx then 1 else 0)"
  by (simp add: log_view_def log_append_def)

text \<open>
  \<open>advanceIfReady\<close> returns a record exactly when it has moved the mission: to the suggested
  phase, which is allowed from the current one and whose gate holds, with the version one up.
  Otherwise phase and version are as before.
\<close>

theorem advance_moves_to_suggestion:
  "case advanceIfReady L env n mx of
     (Some tx, mx') \<Rightarrow> suggestNextPhase env mx = Some (pt_to tx)
       \<and> pt_to tx \<in> set (allowedTransitions (mx_phase mx)) \<and> gate env mx (pt_to tx)
       \<and> mx_phase mx' = pt_to tx \<and> mx_phaseVersion mx' = mx_phaseVersion mx + 1
   | (None, mx') \<Rightarrow> mx_phase mx' = mx_phase mx \<and> mx_phaseVersion mx' = mx_phaseVersion mx"
proof (cases "suggestNextPhase env mx")
  case (Some p)
  have acc: "pt_accepted (fst (transition L env p n (reasonFor p) mx)) =
      ((p = PAborted \<or> p \<in> set (allowedTransitions (mx_phase mx))) \<and> gate env mx p)"
    by (simp only: transition_record evaluateTransition_def checks_gate) auto
  obtain tx mx' where t: "transition L env p n (reasonFor p) mx = (tx, mx')" by fastforce
  have "log_view mx' = log_append tx mx" "pt_to tx = p"
    using transition_log_view [of L env p n "reasonFor p" mx] transition_record(2) [of L env p n "reasonFor p" mx]
    by (simp_all add: t)
  with log_view_phase [of mx' tx mx] acc suggest_allowed [OF Some] show ?thesis
    by (auto simp: advanceIfReady_def Some t)
qed (simp add: advanceIfReady_def)

text \<open>
  A rejected request changes nothing but the log: phase, version, nodes, targets, objectives
  and map stay, the record carries the reason, and of the callbacks only \<open>commitTransition\<close> runs.
\<close>

theorem rejected_keeps_state:
  assumes "transition L env p n r mx = (tx, mx')" "\<not> pt_accepted tx"
  shows "mx_phase mx' = mx_phase mx \<and> mx_phaseVersion mx' = mx_phaseVersion mx \<and> mx_nodes mx' = mx_nodes mx
    \<and> mx_targets mx' = mx_targets mx \<and> mx_objectives mx' = mx_objectives mx \<and> mx_map mx' = mx_map mx
    \<and> mx_transitions mx' = mx_transitions mx @ [tx] \<and> pt_rejectedReason tx \<noteq> None
    \<and> mx_commits mx' = mx_commits mx @ (if dp_commitTransition (mx_deps mx) then [CommitTransition tx] else [])"
proof -
  have tx: "tx = fst (transition L env p n r mx)" and mx': "mx' = snd (transition L env p n r mx)"
    using assms(1) by simp_all
  have no: "\<not> fst (evaluateTransition (mx_phase mx) p (computeChecks env p mx))"
    using assms(2) by (simp add: tx transition_record)
  have "log_view mx' = log_append tx mx" unfolding tx mx' by (rule transition_log_view)
  moreover have "pt_rejectedReason tx \<noteq> None \<and>
      mx_commits mx' = mx_commits mx @ (if dp_commitTransition (mx_deps mx) then [CommitTransition tx] else [])"
    unfolding tx mx' transition_def Let_def split_beta
    using no by (simp add: callTransition_def log_transition_def)
  ultimately show ?thesis
    using assms(2) by (simp add: mx' transition_frame log_view_def log_append_def)
qed

theorem rejected_keeps_state_witness:
  "mx_phase (snd (transition toy_lib (demo_env 1) PComplete ''n'' Boot (buildDemoMission (demo_env 1)))) =
    mx_phase (buildDemoMission (demo_env 1))"
proof -
  have "\<not> pt_accepted (fst (transition toy_lib (demo_env 1) PComplete ''n'' Boot (buildDemoMission (demo_env 1))))"
    by (simp only: transition_record evaluateTransition_def) (simp add: buildDemoMission_def new_machine_def)
  then show ?thesis
    using rejected_keeps_state [of toy_lib "demo_env 1" PComplete "''n''" Boot "buildDemoMission (demo_env 1)"]
    by (metis prod.collapse)
qed

text \<open>
  The read model's consensus pointer mixes two histories: after a rejected request its
  sequence is still that of the last accepted transition, but its hash is that of the rejected
  record.
\<close>

theorem rejected_moves_head_hash:
  assumes "transition L env p n r mx = (tx, mx')" "\<not> pt_accepted tx"
  shows "ms_consensusPointer (missionStateFromMachine env' t mx') =
    \<lparr> cp_sequence = mx_phaseVersion mx, cp_lastEventHash = pt_proofHash tx \<rparr>"
proof -
  have "log_view mx' = log_append tx mx"
    using transition_log_view [of L env p n r mx] by (simp add: assms(1))
  with assms(2) show ?thesis
    by (simp add: missionStateFromMachine_def Let_def machineSnapshot_def log_view_def log_append_def)
qed

theorem rejected_moves_head_hash_witness:
  "cp_lastEventHash (ms_consensusPointer (missionStateFromMachine (demo_env 2) None
     (snd (transition toy_lib (demo_env 1) PComplete ''n'' Boot (buildDemoMission (demo_env 1)))))) = ''hash''"
proof -
  have "\<not> pt_accepted (fst (transition toy_lib (demo_env 1) PComplete ''n'' Boot (buildDemoMission (demo_env 1))))"
    by (simp only: transition_record evaluateTransition_def) (simp add: buildDemoMission_def new_machine_def)
  moreover have "pt_proofHash (fst (transition toy_lib (demo_env 1) PComplete ''n'' Boot (buildDemoMission (demo_env 1)))) = ''hash''"
    unfolding transition_def Let_def split_beta by (simp add: hash_object_def toy_lib_def)
  ultimately show ?thesis
    using rejected_moves_head_hash [of toy_lib "demo_env 1" PComplete "''n''" Boot "buildDemoMission (demo_env 1)" _ _ "demo_env 2" None]
    by (metis consensus_pointer.select_convs(2) prod.collapse)
qed

subsection \<open>Node telemetry\<close>

definition no_worse :: "node_status \<Rightarrow> node_status \<Rightarrow> bool" where
  "no_worse n n' \<longleftrightarrow> nd_batteryPct n \<le> nd_batteryPct n' \<and> nd_linkQuality n \<le> nd_linkQuality n'
     \<and> set (nd_capabilities n) \<subseteq> set (nd_capabilities n')"

lemma no_worse_refl [simp]: "no_worse n n"
  by (simp add: no_worse_def)

lemma no_worse_trans: "no_worse a b \<Longrightarrow> no_worse b c \<Longrightarrow> no_worse a c"
  by (auto simp: no_worse_def)

lemma mergeNode_no_worse: "no_worse current (mergeNode current incoming)"
  by (auto simp: no_worse_def mergeNode_def)

definition keeps_nodes :: "mission_machine \<Rightarrow> mission_machine \<Rightarrow> bool" where
  "keeps_nodes mx mx' \<longleftrightarrow>
     (\<forall>i n. getNode i mx = Some n \<longrightarrow> (\<exists>n'. getNode i mx' = Some n' \<and> no_worse n n'))"

lemma keeps_nodes_refl [simp]: "mx_nodes mx' = mx_nodes mx \<Longrightarrow> keeps_nodes mx mx'"
  by (simp add: keeps_nodes_def getNode_def)

lemma keeps_nodes_put:
  "mx_nodes mx' = js_put i n' (mx_nodes mx) \<Longrightarrow> (\<And>n. getNode i mx = Some n \<Longrightarrow> no_worse n n') \<Longrightarrow> keeps_nodes mx mx'"
  by (auto simp: keeps_nodes_def getNode_def js_map_simps)

lemma registerNode_keeps: "keeps_nodes mx (snd (registerNode env n mx))"
  by (rule keeps_nodes_put) (auto simp: registerNode_def Let_def getNode_def mergeNode_no_worse)

lemma updateNode_keeps: "keeps_nodes mx (snd (updateNode env i p mx))"
proof (cases "js_get (mx_nodes mx) i")
  case (Some c)
  then show ?thesis
    by (intro keeps_nodes_put) (auto simp: updateNode_def Let_def getNode_def mergeNode_no_worse)
qed (simp add: updateNode_def)

lemma setNodeLocation_keeps: "keeps_nodes mx (snd (setNodeLocation env i pos mx))"
proof (cases "js_get (mx_nodes mx) i")
  case (Some c)
  then show ?thesis
    by (intro keeps_nodes_put) (auto simp: setNodeLocation_def Let_def getNode_def no_worse_def)
qed (simp add: setNodeLocation_def)

lemma other_ops_nodes:
  "mx_nodes (snd (upsertTarget env t mx)) = mx_nodes mx"
  "mx_nodes (snd (confirmTarget L env i node prf mx)) = mx_nodes mx"
  "mx_nodes (snd (assignTarget env i node r mx)) = mx_nodes mx"
  "mx_nodes (snd (extractTarget env i node prf mx)) = mx_nodes mx"
  "mx_nodes (on_map f mx) = mx_nodes mx"
  "mx_nodes (snd (advanceIfReady L env n mx)) = mx_nodes mx"
  "mx_nodes (snd (abortIfUnsafe L env n rs mx)) = mx_nodes mx"
  "mx_nodes (snd (enforceRequestedPhase L env ph n mx)) = mx_nodes mx"
  using advance_cases [of L env n mx] abortIfUnsafe_cases [of L env n rs mx]
  by (auto simp: upsertTarget_def confirmTarget_def assignTarget_def extractTarget_def on_map_def Let_def
      enforceRequestedPhase_def transition_frame forceAbort_record split: option.splits)

definition machine_run :: "js_lib \<Rightarrow> (js_env \<times> machine_op) list \<Rightarrow> mission_machine \<Rightarrow> mission_machine" where
  "machine_run L ops mx = foldl (\<lambda>mx eo. machine_apply L (fst eo) (snd eo) mx) mx ops"

fun removes :: "ident \<Rightarrow> machine_op \<Rightarrow> bool" where
  "removes i (MoRemove j) \<longleftrightarrow> i = j"
| "removes i _ \<longleftrightarrow> False"

lemma apply_keeps_node:
  assumes "\<not> removes i op" "getNode i mx = Some n"
  shows "\<exists>n'. getNode i (machine_apply L env op mx) = Some n' \<and> no_worse n n'"
proof (cases op)
  case (MoRemove j)
  with assms show ?thesis
    by (auto simp: removeNode_def getNode_def js_map_simps split: option.splits)
next
  case (MoRegister m)
  with assms registerNode_keeps [of mx env m] show ?thesis by (simp add: keeps_nodes_def)
next
  case (MoUpdate j p)
  with assms updateNode_keeps [of mx env j p] show ?thesis by (simp add: keeps_nodes_def)
next
  case (MoLocate j p)
  with assms setNodeLocation_keeps [of mx env j p] show ?thesis by (simp add: keeps_nodes_def)
qed (use assms in \<open>simp_all add: getNode_def other_ops_nodes transition_frame forceAbort_record\<close>)

text \<open>
  A registered node never reports bad news: as long as it is not removed, its recorded
  battery and link quality never fall, whatever telemetry arrives. A drained node stays healthy
  for the quorum.
\<close>

theorem battery_never_falls:
  assumes "getNode i mx = Some n" "\<And>eo. eo \<in> set ops \<Longrightarrow> \<not> removes i (snd eo)"
  shows "\<exists>n'. getNode i (machine_run L ops mx) = Some n' \<and>
    nd_batteryPct n \<le> nd_batteryPct n' \<and> nd_linkQuality n \<le> nd_linkQuality n'"
proof -
  have "\<exists>n'. getNode i (machine_run L ops mx) = Some n' \<and> no_worse n n'"
    using assms
  proof (induction ops arbitrary: mx n)
    case (Cons eo ops)
    from Cons.prems obtain n1 where n1: "getNode i (machine_apply L (fst eo) (snd eo) mx) = Some n1" "no_worse n n1"
      using apply_keeps_node [of i "snd eo" mx n L "fst eo"] by auto
    from Cons.IH [OF n1(1)] Cons.prems(2) obtain n2 where
      "getNode i (machine_run L ops (machine_apply L (fst eo) (snd eo) mx)) = Some n2" "no_worse n1 n2" by auto
    with n1(2) no_worse_trans show ?case by (fastforce simp: machine_run_def)
  qed (simp add: machine_run_def)
  then show ?thesis by (auto simp: no_worse_def)
qed

definition battery_patch :: "real \<Rightarrow> node_patch" where
  "battery_patch b = \<lparr> np_nodeId = None, np_role = None, np_batteryPct = Some b, np_linkQuality = None,
     np_gpsFix = None, np_lastSeenMs = None, np_active = None, np_capabilities = None, np_missionId = None,
     np_location = None \<rparr>"

theorem battery_never_falls_witness:
  "\<exists>n'. getNode ''a'' (machine_run toy_lib [(demo_env 5, MoUpdate ''a'' (battery_patch 3))]
     (demo_run [MoRegister (toy_node ''a'' Relay 90)])) = Some n' \<and> 90 \<le> nd_batteryPct n'"
proof -
  have "\<exists>n. getNode ''a'' (demo_run [MoRegister (toy_node ''a'' Relay 90)]) = Some n \<and> nd_batteryPct n = 90"
    by (simp add: demo_run_def buildDemoMission_def new_machine_def registerNode_def getNode_def toy_node_def
        Let_def recordEvent_def clamp_def)
  then obtain n where n: "getNode ''a'' (demo_run [MoRegister (toy_node ''a'' Relay 90)]) = Some n" "nd_batteryPct n = 90"
    by blast
  from battery_never_falls [OF n(1), of "[(demo_env 5, MoUpdate ''a'' (battery_patch 3))]" toy_lib] n(2)
  show ?thesis by auto
qed

subsection \<open>Target reports\<close>

interpretation status_join: ranked_join targetRank mergeStatus
proof
  show "targetRank a = targetRank b \<Longrightarrow> a = b" for a b by (cases a; cases b) simp_all
  show "mergeStatus a b = (if targetRank a \<le> targetRank b then b else a)" for a b by (simp add: mergeStatus_def)
qed

definition merge_reports :: "target_record \<Rightarrow> target_record list \<Rightarrow> target_record" where
  "merge_reports t rs = foldl mergeTarget t rs"

lemma mergeTarget_simps [simp]:
  "tg_status (mergeTarget t r) = mergeStatus (tg_status t) (tg_status r)"
  "tg_confidence (mergeTarget t r) = max (tg_confidence t) (tg_confidence r)"
  "tg_foundAtMs (mergeTarget t r) = min (tg_foundAtMs t) (tg_foundAtMs r)"
  "tg_confirmedBy (mergeTarget t r) = dedup (tg_confirmedBy t @ tg_confirmedBy r)"
  by (simp_all add: mergeTarget_def)

lemma merge_reports_fields:
  "tg_status (merge_reports t rs) = foldl mergeStatus (tg_status t) (map tg_status rs)"
  "tg_confidence (merge_reports t rs) = Max (insert (tg_confidence t) (tg_confidence ` set rs))"
  "tg_foundAtMs (merge_reports t rs) = Min (insert (tg_foundAtMs t) (tg_foundAtMs ` set rs))"
  "set (tg_confirmedBy (merge_reports t rs)) = set (tg_confirmedBy t) \<union> (\<Union>r\<in>set rs. set (tg_confirmedBy r))"
proof (induction rs arbitrary: t)
  case (Cons r rs)
  { case 1 then show ?case using Cons(1) [of "mergeTarget t r"] by (simp add: merge_reports_def)
  next
    case 2
    have "Max (insert (max a b) A) = Max (insert a (insert b A))" if "finite A" for a b :: real and A
      using that by (cases "A = {}") (simp_all add: max.assoc)
    then show ?case using Cons(2) [of "mergeTarget t r"] by (simp add: merge_reports_def)
  next
    case 3
    have "Min (insert (min a b) A) = Min (insert a (insert b A))" if "finite A" for a b :: int and A
      using that by (cases "A = {}") (simp_all add: min.assoc)
    then show ?case using Cons(3) [of "mergeTarget t r"] by (simp add: merge_reports_def)
  next
    case 4 then show ?case using Cons(4) [of "mergeTarget t r"] by (auto simp: merge_reports_def) }
qed (simp_all add: merge_reports_def)

text \<open>
  Reports about a target converge: merging the same reports in any order, with repetitions,
  gives the same status, confidence, first sighting and set of confirming nodes.
\<close>

theorem target_reports_converge:
  assumes "set rs = set rs'"
  shows "tg_status (merge_reports t rs) = tg_status (merge_reports t rs') \<and>
    tg_confidence (merge_reports t rs) = tg_confidence (merge_reports t rs') \<and>
    tg_foundAtMs (merge_reports t rs) = tg_foundAtMs (merge_reports t rs') \<and>
    set (tg_confirmedBy (merge_reports t rs)) = set (tg_confirmedBy (merge_reports t rs'))"
  using assms status_join.foldl_join_set [of "tg_status t" "map tg_status rs" "tg_status t" "map tg_status rs'"]
  by (simp add: merge_reports_fields)

definition toy_target :: "ident \<Rightarrow> target_status \<Rightarrow> target_record" where
  "toy_target i st = \<lparr> tg_targetId = i, tg_missionId = ''m'', tg_targetType = ''victim'', tg_confidence = 1 / 2,
     tg_position = None, tg_confirmedBy = [], tg_assignedTo = None, tg_extractedBy = None, tg_foundAtMs = 7,
     tg_confirmedAtMs = None, tg_assignedAtMs = None, tg_extractedAtMs = None, tg_status = st, tg_metadata = [] \<rparr>"

theorem target_reports_converge_witness:
  "tg_status (merge_reports (toy_target ''t'' TsNew) [toy_target ''t'' TsAssigned, toy_target ''t'' TsConfirmed]) =
   tg_status (merge_reports (toy_target ''t'' TsNew) [toy_target ''t'' TsConfirmed, toy_target ''t'' TsAssigned])"
  by (rule target_reports_converge [THEN conjunct1]) auto

subsection \<open>Objectives\<close>

lemma count_update:
  assumes "wf_map m" "map_of m k = Some v"
  shows "int (length (filter P (js_values (AList.update k w m)))) =
    int (length (filter P (js_values m))) - (if P v then 1 else 0) + (if P w then 1 else 0)"
  using assms
proof (induction m)
  case (Cons kv m)
  show ?case
  proof (cases "fst kv = k")
    case True
    with Cons.prems show ?thesis by (cases kv) (auto simp: js_values_def)
  next
    case False
    with Cons show ?thesis by (cases kv) (auto simp: js_values_def wf_map_def)
  qed
qed simp

definition wf_targets :: "mission_machine \<Rightarrow> bool" where
  "wf_targets mx \<longleftrightarrow> wf_map (mx_targets mx)"

lemma wf_targets_apply: "wf_targets mx \<Longrightarrow> wf_targets (machine_apply L env op mx)"
proof -
  have same: "mx_targets (snd (registerNode env n mx)) = mx_targets mx" "mx_targets (snd (updateNode env i p mx)) = mx_targets mx"
    "mx_targets (snd (removeNode env i mx)) = mx_targets mx" "mx_targets (snd (setNodeLocation env i pos mx)) = mx_targets mx"
    "mx_targets (on_map f mx) = mx_targets mx" "mx_targets (snd (advanceIfReady L env i mx)) = mx_targets mx"
    "mx_targets (snd (abortIfUnsafe L env i rs mx)) = mx_targets mx" for n i p pos f rs
    using advance_cases [of L env i mx] abortIfUnsafe_cases [of L env i rs mx]
    by (auto simp: registerNode_def updateNode_def removeNode_def setNodeLocation_def on_map_def Let_def
        transition_frame forceAbort_record split: option.splits)
  show "wf_targets mx \<Longrightarrow> ?thesis"
    by (cases op)
      (auto simp: wf_targets_def same transition_frame forceAbort_record enforceRequestedPhase_def upsertTarget_def
        confirmTarget_def assignTarget_def extractTarget_def Let_def jsm.invar_insert split: option.splits)
qed

lemma reach_wf_targets: "mission_reach L mx \<Longrightarrow> wf_targets mx"
  by (induction rule: mission_reach.induct)
    (simp_all add: wf_targets_apply, simp add: wf_targets_def new_machine_def wf_map_def)

definition confirm_gap :: "mission_machine \<Rightarrow> int" where
  "confirm_gap mx = ob_totalTargetsConfirmed (mx_objectives mx) - int (length (listConfirmedTargets mx))"

definition extract_gap :: "mission_machine \<Rightarrow> int" where
  "extract_gap mx = ob_totalTargetsExtracted (mx_objectives mx) - int (length (listExtractedTargets mx))"

text \<open>
  The objectives recede as they are met: \<open>totalTargetsConfirmed\<close> and \<open>totalTargetsExtracted\<close> are
  both the thresholds of \<open>areObjectivesComplete\<close> and counters, so confirming a new target, or
  extracting one, leaves the number still missing as it was.
\<close>

theorem objective_gap_constant:
  assumes "mission_reach L mx" "getTarget i mx = Some t"
  shows "(tg_status t = TsNew \<longrightarrow> confirm_gap (snd (confirmTarget L env i node prf mx)) = confirm_gap mx) \<and>
    (tg_status t \<noteq> TsExtracted \<longrightarrow> extract_gap (snd (extractTarget env i node prf mx)) = extract_gap mx)"
proof -
  have wf: "wf_map (mx_targets mx)" using reach_wf_targets [OF assms(1)] by (simp add: wf_targets_def)
  have t: "map_of (mx_targets mx) i = Some t" using assms(2) by (simp add: getTarget_def)
  show ?thesis
    by (simp add: confirm_gap_def extract_gap_def confirmTarget_def extractTarget_def t Let_def
        listConfirmedTargets_def listExtractedTargets_def count_update [OF wf t] confirmed_status_def)
qed

lemma getTarget_demo: "getTarget ''t'' (demo_run [MoUpsert (toy_target ''t'' st)]) = Some (toy_target ''t'' st)"
  by (simp add: demo_run_def buildDemoMission_def new_machine_def upsertTarget_def getTarget_def toy_target_def Let_def)

theorem objective_gap_constant_witness:
  "confirm_gap (snd (confirmTarget toy_lib (demo_env 2) ''t'' ''n'' [] (demo_run [MoUpsert (toy_target ''t'' TsNew)]))) =
    confirm_gap (demo_run [MoUpsert (toy_target ''t'' TsNew)])"
  using objective_gap_constant [OF demo_run_reach getTarget_demo, of TsNew "demo_env 2" "''n''" "[]"]
  by (simp add: toy_target_def)

text \<open>
  Confirming a target that is already assigned or extracted undoes its progress: the status
  falls back to confirmed, the threshold of confirmed targets rises by one, and the number of
  confirmed targets does not.
\<close>

theorem confirm_regresses:
  assumes "mission_reach L mx" "getTarget i mx = Some t" "assigned_status (tg_status t)"
  shows "(\<exists>t'. getTarget i (snd (confirmTarget L env i node prf mx)) = Some t' \<and> tg_status t' = TsConfirmed) \<and>
    confirm_gap (snd (confirmTarget L env i node prf mx)) = confirm_gap mx + 1 \<and>
    length (listAssignedTargets (snd (confirmTarget L env i node prf mx))) + 1 = length (listAssignedTargets mx)"
proof -
  have wf: "wf_map (mx_targets mx)" using reach_wf_targets [OF assms(1)] by (simp add: wf_targets_def)
  have t: "map_of (mx_targets mx) i = Some t" using assms(2) by (simp add: getTarget_def)
  have "int (length (listAssignedTargets (snd (confirmTarget L env i node prf mx)))) + 1 = int (length (listAssignedTargets mx))"
    using assms(3)
    by (simp add: confirmTarget_def t Let_def listAssignedTargets_def count_update [OF wf t] assigned_status_def)
  moreover have "confirm_gap (snd (confirmTarget L env i node prf mx)) = confirm_gap mx + 1"
    using assms(3)
    by (auto simp: confirm_gap_def confirmTarget_def t Let_def listConfirmedTargets_def count_update [OF wf t]
        assigned_status_def confirmed_status_def)
  ultimately show ?thesis
    by (simp add: getTarget_def confirmTarget_def t Let_def js_map_simps)
qed

theorem confirm_regresses_witness:
  "confirm_gap (snd (confirmTarget toy_lib (demo_env 2) ''t'' ''n'' [] (demo_run [MoUpsert (toy_target ''t'' TsExtracted)]))) =
    confirm_gap (demo_run [MoUpsert (toy_target ''t'' TsExtracted)]) + 1"
  using confirm_regresses [OF demo_run_reach getTarget_demo, of TsExtracted "demo_env 2" "''n''" "[]"]
  by (simp add: toy_target_def assigned_status_def)

end
