(* ===== verification/TaskBidding.thy ===== *)
theory TaskBidding
  imports MissionMachine
begin

section \<open>Task bidding\<close>

text \<open>
  Models the bidding half of \<open>src/src/backend/shared/tashi-task-bidding-recovery.ts\<close>: the task,
  node and bid types, the class \<open>TaskBidRegistry\<close> (windows, bids, weighted bids, commits and a
  history), the \<open>BidScorer\<close> and the \<open>BidDecisionEngine\<close>. A method that throws returns a
  \<open>bid_error\<close> on the left of a sum, together with the state it leaves behind. Optional fields
  that are absent are rendered as \<open>null\<close> in the JSON that is hashed.
\<close>

subsection \<open>Data\<close>

datatype scenario_kind =
    CollapsedBuilding | CaveTunnel | Flood | Wildfire | Industrial | Forest | Night | Indoor
  | Perimeter | TriageScenario

fun scenario_str :: "scenario_kind \<Rightarrow> string" where
  "scenario_str CollapsedBuilding = ''collapsed_building''"
| "scenario_str CaveTunnel = ''cave_tunnel''"
| "scenario_str Flood = ''flood''"
| "scenario_str Wildfire = ''wildfire''"
| "scenario_str Industrial = ''industrial''"
| "scenario_str Forest = ''forest''"
| "scenario_str Night = ''night''"
| "scenario_str Indoor = ''indoor''"
| "scenario_str Perimeter = ''perimeter''"
| "scenario_str TriageScenario = ''triage''"

datatype bid_status =
    BidOpen | BidSubmitted | BidWeighted | BidCommitted | BidRejected | BidExpired | BidCancelled

fun bid_status_str :: "bid_status \<Rightarrow> string" where
  "bid_status_str BidOpen = ''open''"
| "bid_status_str BidSubmitted = ''submitted''"
| "bid_status_str BidWeighted = ''weighted''"
| "bid_status_str BidCommitted = ''committed''"
| "bid_status_str BidRejected = ''rejected''"
| "bid_status_str BidExpired = ''expired''"
| "bid_status_str BidCancelled = ''cancelled''"

datatype reward_kind =
    RewardWork | RewardRelay | RewardDiscovery | RewardRescue | RewardValidation | RewardRecovery
  | RewardSafety | RewardBonus | RewardPenalty

record health_sample =
  hs_timestampMs :: timestamp
  hs_batteryPct :: real
  hs_cpuPct :: real
  hs_memoryPct :: real
  hs_linkQuality :: real
  hs_gpsFix :: bool
  hs_temperatureC :: "real option"
  hs_missionId :: "ident option"

record capability_profile =
  cf_tags :: "string list"
  cf_sensorStack :: "string list"
  cf_maxRangeM :: real
  cf_maxAltitudeM :: real
  cf_indoorSuitability :: real
  cf_outdoorSuitability :: real
  cf_hazardClearance :: "string list"
  cf_notes :: "obj option"

record node_profile =
  pr_nodeId :: ident
  pr_displayName :: string
  pr_role :: node_role
  pr_publicKey :: string
  pr_capabilityProfile :: capability_profile
  pr_health :: health_sample
  pr_trustScore :: real
  pr_reputationScore :: real
  pr_rewardPoints :: real
  pr_contributionCount :: int
  pr_successfulTasks :: int
  pr_failedTasks :: int
  pr_lastSeenMs :: timestamp
  pr_firstSeenMs :: timestamp
  pr_location :: "xy_point option"
  pr_missionId :: "ident option"
  pr_metadata :: obj

record task_work_item =
  tw_taskId :: ident
  tw_missionId :: ident
  tw_scenario :: scenario_kind
  tw_taskType :: string
  tw_priority :: real
  tw_location :: "xy_point option"
  tw_requiredCapabilities :: "string list"
  tw_minTrustScore :: real
  tw_minBatteryPct :: real
  tw_maxDistanceM :: "real option"
  tw_rescueTargetId :: "ident option"
  tw_createdAtMs :: timestamp
  tw_expiresAtMs :: timestamp
  tw_metadata :: obj

record task_bid =
  tb_bidId :: ident
  tb_taskId :: ident
  tb_missionId :: ident
  tb_nodeId :: ident
  tb_role :: node_role
  tb_scenario :: scenario_kind
  tb_capabilityScore :: real
  tb_trustScore :: real
  tb_reputationScore :: real
  tb_batteryPct :: real
  tb_linkQuality :: real
  tb_etaMs :: real
  tb_confidence :: real
  tb_distanceM :: real
  tb_resources :: obj
  tb_proofHints :: obj
  tb_createdAtMs :: timestamp
  tb_expiresAtMs :: timestamp
  tb_status :: bid_status
  tb_metadata :: obj

record score_breakdown =
  sb_total :: real
  sb_capability :: real
  sb_trust :: real
  sb_reputation :: real
  sb_battery :: real
  sb_linkQuality :: real
  sb_distance :: real
  sb_eta :: real
  sb_confidence :: real
  sb_roleFit :: real
  sb_scenarioFit :: real
  sb_penalties :: real
  sb_reasons :: "string list"

record weighted_bid =
  wb_bid :: task_bid
  wb_score :: score_breakdown

datatype window_status = WinOpen | WinClosed | WinCommitted | WinCancelled | WinExpired

fun window_status_str :: "window_status \<Rightarrow> string" where
  "window_status_str WinOpen = ''open''"
| "window_status_str WinClosed = ''closed''"
| "window_status_str WinCommitted = ''committed''"
| "window_status_str WinCancelled = ''cancelled''"
| "window_status_str WinExpired = ''expired''"

record bid_window =
  bw_taskId :: ident
  bw_missionId :: ident
  bw_openedAtMs :: timestamp
  bw_closesAtMs :: timestamp
  bw_closedAtMs :: "timestamp option"
  bw_status :: window_status
  bw_minBids :: int
  bw_requiredQuorum :: int
  bw_acceptedWinnerId :: "ident option"
  bw_winningBidId :: "ident option"
  bw_metadata :: obj

datatype commit_phase = CpBidding | CpCommitted | CpAborted

fun commit_phase_str :: "commit_phase \<Rightarrow> string" where
  "commit_phase_str CpBidding = ''bidding''"
| "commit_phase_str CpCommitted = ''committed''"
| "commit_phase_str CpAborted = ''aborted''"

record bid_commit =
  bc_commitId :: ident
  bc_missionId :: ident
  bc_taskId :: ident
  bc_phase :: commit_phase
  bc_winnerNodeId :: "ident option"
  bc_winningBidId :: "ident option"
  bc_bidsSeen :: int
  bc_consensusSequence :: int
  bc_committedAtMs :: timestamp
  bc_proofHash :: string
  bc_metadata :: obj

datatype bid_error = NoBidWindow ident | BidWindowClosed ident | BidWindowExpired ident

record bid_registry =
  rg_windows :: "(ident, bid_window) jsmap"
  rg_bids :: "(ident, task_bid list) jsmap"
  rg_weighted :: "(ident, weighted_bid) jsmap"
  rg_commits :: "(ident, bid_commit) jsmap"
  rg_history :: "machine_event list"

definition new_registry :: bid_registry where
  "new_registry = \<lparr> rg_windows = [], rg_bids = [], rg_weighted = [], rg_commits = [], rg_history = [] \<rparr>"

subsection \<open>JSON of the records\<close>

definition opt_json :: "('a \<Rightarrow> json) \<Rightarrow> 'a option \<Rightarrow> json" where
  "opt_json f v = (case v of None \<Rightarrow> JNull | Some x \<Rightarrow> f x)"

definition task_json :: "task_work_item \<Rightarrow> json" where
  "task_json t = JObj
     [(''taskId'', JStr (tw_taskId t)), (''missionId'', JStr (tw_missionId t)),
      (''scenario'', JStr (scenario_str (tw_scenario t))), (''taskType'', JStr (tw_taskType t)),
      (''priority'', JNum (tw_priority t)), (''location'', opt_json xy_json (tw_location t)),
      (''requiredCapabilities'', jstrs (tw_requiredCapabilities t)),
      (''minTrustScore'', JNum (tw_minTrustScore t)), (''minBatteryPct'', JNum (tw_minBatteryPct t)),
      (''maxDistanceM'', opt_json JNum (tw_maxDistanceM t)),
      (''rescueTargetId'', opt_str (tw_rescueTargetId t)),
      (''createdAtMs'', jint (tw_createdAtMs t)), (''expiresAtMs'', jint (tw_expiresAtMs t)),
      (''metadata'', JObj (tw_metadata t))]"

definition score_json :: "score_breakdown \<Rightarrow> json" where
  "score_json s = JObj
     [(''total'', JNum (sb_total s)), (''capability'', JNum (sb_capability s)),
      (''trust'', JNum (sb_trust s)), (''reputation'', JNum (sb_reputation s)),
      (''battery'', JNum (sb_battery s)), (''linkQuality'', JNum (sb_linkQuality s)),
      (''distance'', JNum (sb_distance s)), (''eta'', JNum (sb_eta s)),
      (''confidence'', JNum (sb_confidence s)), (''roleFit'', JNum (sb_roleFit s)),
      (''scenarioFit'', JNum (sb_scenarioFit s)), (''penalties'', JNum (sb_penalties s)),
      (''reasons'', jstrs (sb_reasons s))]"

definition bid_obj :: "task_bid \<Rightarrow> obj" where
  "bid_obj b =
     [(''bidId'', JStr (tb_bidId b)), (''taskId'', JStr (tb_taskId b)),
      (''missionId'', JStr (tb_missionId b)), (''nodeId'', JStr (tb_nodeId b)),
      (''role'', JStr (role_str (tb_role b))), (''scenario'', JStr (scenario_str (tb_scenario b))),
      (''capabilityScore'', JNum (tb_capabilityScore b)), (''trustScore'', JNum (tb_trustScore b)),
      (''reputationScore'', JNum (tb_reputationScore b)), (''batteryPct'', JNum (tb_batteryPct b)),
      (''linkQuality'', JNum (tb_linkQuality b)), (''etaMs'', JNum (tb_etaMs b)),
      (''confidence'', JNum (tb_confidence b)), (''distanceM'', JNum (tb_distanceM b)),
      (''resources'', JObj (tb_resources b)), (''proofHints'', JObj (tb_proofHints b)),
      (''createdAtMs'', jint (tb_createdAtMs b)), (''expiresAtMs'', jint (tb_expiresAtMs b)),
      (''status'', JStr (bid_status_str (tb_status b))), (''metadata'', JObj (tb_metadata b))]"

definition bid_json :: "task_bid \<Rightarrow> json" where
  "bid_json b = JObj (bid_obj b)"

definition weighted_json :: "weighted_bid \<Rightarrow> json" where
  "weighted_json w = JObj (bid_obj (wb_bid w) @ [(''score'', score_json (wb_score w))])"

definition commit_obj :: "bid_commit \<Rightarrow> obj" where
  "commit_obj c =
     [(''commitId'', JStr (bc_commitId c)), (''missionId'', JStr (bc_missionId c)),
      (''taskId'', JStr (bc_taskId c)), (''phase'', JStr (commit_phase_str (bc_phase c))),
      (''winnerNodeId'', opt_str (bc_winnerNodeId c)), (''winningBidId'', opt_str (bc_winningBidId c)),
      (''bidsSeen'', jint (bc_bidsSeen c)), (''consensusSequence'', jint (bc_consensusSequence c)),
      (''committedAtMs'', jint (bc_committedAtMs c)), (''proofHash'', JStr (bc_proofHash c)),
      (''metadata'', JObj (bc_metadata c))]"

subsection \<open>The registry\<close>

definition rg_record :: "timestamp \<Rightarrow> string \<Rightarrow> obj \<Rightarrow> bid_registry \<Rightarrow> bid_registry" where
  "rg_record t type payload rg =
     rg\<lparr>rg_history := rg_history rg @ [\<lparr> ev_tsMs = t, ev_type = type, ev_payload = payload \<rparr>]\<rparr>"

definition openWindow :: "js_env \<Rightarrow> task_work_item \<Rightarrow> int \<Rightarrow> int \<Rightarrow> int \<Rightarrow> bid_registry \<Rightarrow> bid_window \<times> bid_registry" where
  "openWindow env task minBids requiredQuorum ttlMs rg =
     (let t = now_ms env;
          win = \<lparr> bw_taskId = tw_taskId task, bw_missionId = tw_missionId task, bw_openedAtMs = t,
            bw_closesAtMs = t + ttlMs, bw_closedAtMs = None, bw_status = WinOpen, bw_minBids = minBids,
            bw_requiredQuorum = requiredQuorum, bw_acceptedWinnerId = None, bw_winningBidId = None,
            bw_metadata = [(''scenario'', JStr (scenario_str (tw_scenario task))),
              (''taskType'', JStr (tw_taskType task)), (''priority'', JNum (tw_priority task))] \<rparr>
      in (win, rg_record t ''window_open''
            [(''taskId'', JStr (tw_taskId task)), (''missionId'', JStr (tw_missionId task)), (''ttlMs'', jint ttlMs)]
            (rg\<lparr>rg_windows := js_put (tw_taskId task) win (rg_windows rg)\<rparr>)))"

definition closeWindow :: "js_env \<Rightarrow> ident \<Rightarrow> string \<Rightarrow> bid_registry \<Rightarrow> bid_window option \<times> bid_registry" where
  "closeWindow env taskId reason rg =
     (case js_get (rg_windows rg) taskId of
        None \<Rightarrow> (None, rg)
      | Some current \<Rightarrow>
          (let t = now_ms env;
               closed = current\<lparr> bw_status := WinClosed, bw_closedAtMs := Some t,
                 bw_metadata := obj_spread (obj_spread [] (bw_metadata current)) [(''closeReason'', JStr reason)] \<rparr>
           in (Some closed, rg_record t ''window_close'' [(''taskId'', JStr taskId), (''reason'', JStr reason)]
                (rg\<lparr>rg_windows := js_put taskId closed (rg_windows rg)\<rparr>))))"

definition window_due :: "timestamp \<Rightarrow> bid_window \<Rightarrow> bool" where
  "window_due now w \<longleftrightarrow> bw_status w = WinOpen \<and> now \<ge> bw_closesAtMs w"

definition expireWindows :: "js_env \<Rightarrow> bid_registry \<Rightarrow> ident list \<times> bid_registry" where
  "expireWindows env rg =
     (let now = now_ms env
      in (map fst (filter (\<lambda>kw. window_due now (snd kw)) (rg_windows rg)),
          rg\<lparr>rg_windows := map (\<lambda>(k, w). (k, if window_due now w
                then w\<lparr> bw_status := WinExpired, bw_closedAtMs := Some now \<rparr> else w)) (rg_windows rg)\<rparr>))"

text \<open>\<open>list.findIndex((b) => b.bidId === bidId)\<close>, and the write at that index.\<close>

fun find_bid :: "ident \<Rightarrow> task_bid list \<Rightarrow> nat option" where
  "find_bid i [] = None"
| "find_bid i (b # bs) = (if tb_bidId b = i then Some 0 else map_option Suc (find_bid i bs))"

definition bids_of :: "ident \<Rightarrow> bid_registry \<Rightarrow> task_bid list" where
  "bids_of taskId rg = default_to (js_get (rg_bids rg) taskId) []"

definition put_bids :: "ident \<Rightarrow> task_bid list \<Rightarrow> bid_registry \<Rightarrow> bid_registry" where
  "put_bids taskId bs rg = rg\<lparr>rg_bids := js_put taskId bs (rg_bids rg)\<rparr>"

definition submitBid :: "js_env \<Rightarrow> task_bid \<Rightarrow> bid_registry \<Rightarrow> (bid_error + task_bid) \<times> bid_registry" where
  "submitBid env bid rg =
     (case js_get (rg_windows rg) (tb_taskId bid) of
        None \<Rightarrow> (Inl (NoBidWindow (tb_taskId bid)), rg)
      | Some window \<Rightarrow>
          if bw_status window \<noteq> WinOpen then (Inl (BidWindowClosed (tb_taskId bid)), rg)
          else
            (let t = now_ms env
             in if t > bw_closesAtMs window
                then (Inl (BidWindowExpired (tb_taskId bid)),
                      rg\<lparr>rg_windows := js_put (tb_taskId bid) (window\<lparr>bw_status := WinExpired\<rparr>) (rg_windows rg)\<rparr>)
                else
                  (let bs = bids_of (tb_taskId bid) rg;
                       next = bid\<lparr>tb_status := BidSubmitted\<rparr>;
                       bs' = (case find_bid (tb_bidId bid) bs of Some dup \<Rightarrow> bs[dup := next] | None \<Rightarrow> bs @ [next])
                   in (Inr bid, rg_record t ''bid_submit''
                         [(''taskId'', JStr (tb_taskId bid)), (''nodeId'', JStr (tb_nodeId bid)), (''bidId'', JStr (tb_bidId bid))]
                         (put_bids (tb_taskId bid) bs' rg)))))"

definition setWeighted :: "js_env \<Rightarrow> weighted_bid \<Rightarrow> bid_registry \<Rightarrow> weighted_bid \<times> bid_registry" where
  "setWeighted env w rg =
     (let bid = wb_bid w;
          rg1 = rg\<lparr>rg_weighted := js_put (tb_bidId bid) w (rg_weighted rg)\<rparr>;
          bs = bids_of (tb_taskId bid) rg1;
          bs' = (case find_bid (tb_bidId bid) bs of
                   Some idx \<Rightarrow> bs[idx := (bs ! idx)\<lparr>tb_status := BidWeighted\<rparr>] | None \<Rightarrow> bs)
      in (w, rg_record (now_ms env) ''bid_weighted''
            [(''taskId'', JStr (tb_taskId bid)), (''bidId'', JStr (tb_bidId bid)), (''nodeId'', JStr (tb_nodeId bid)),
             (''score'', JNum (sb_total (wb_score w)))]
            (put_bids (tb_taskId bid) bs' rg1)))"

definition bidsForTask :: "ident \<Rightarrow> bid_registry \<Rightarrow> task_bid list" where
  "bidsForTask taskId rg = bids_of taskId rg"

definition weighted_before :: "weighted_bid \<Rightarrow> weighted_bid \<Rightarrow> bool" where
  "weighted_before = then_by (by_desc (\<lambda>w. sb_total (wb_score w))) (by_asc (\<lambda>w. tb_etaMs (wb_bid w)))"

definition weightedBidsForTask :: "ident \<Rightarrow> bid_registry \<Rightarrow> weighted_bid list" where
  "weightedBidsForTask taskId rg =
     js_sort weighted_before (filter (\<lambda>w. tb_taskId (wb_bid w) = taskId) (js_values (rg_weighted rg)))"

definition head_opt :: "'a list \<Rightarrow> 'a option" where
  "head_opt xs = (case xs of [] \<Rightarrow> None | x # _ \<Rightarrow> Some x)"

definition bestBid :: "ident \<Rightarrow> bid_registry \<Rightarrow> weighted_bid option" where
  "bestBid taskId rg = head_opt (weightedBidsForTask taskId rg)"

definition commit_metadata :: "task_work_item \<Rightarrow> ident \<Rightarrow> string \<Rightarrow> obj" where
  "commit_metadata task requestedBy reason =
     [(''requestedBy'', JStr requestedBy), (''reason'', JStr reason), (''taskType'', JStr (tw_taskType task)),
      (''scenario'', JStr (scenario_str (tw_scenario task)))]"

text \<open>
  \<open>winningBid\<close> is hashed with every field the object has: a plain bid as \<open>bid_json\<close>, a weighted
  bid, which is passed where a bid is expected, as \<open>weighted_json\<close>; hence the argument \<open>bidJson\<close>.
\<close>

definition buildCommit :: "js_lib \<Rightarrow> js_env \<Rightarrow> task_work_item \<Rightarrow> task_bid \<Rightarrow> json \<Rightarrow> int \<Rightarrow> ident \<Rightarrow> string \<Rightarrow> bid_commit" where
  "buildCommit L env task winningBid bidJson bidsSeen requestedBy reason =
     \<lparr> bc_commitId = new_id env 0 ''commit'', bc_missionId = tw_missionId task, bc_taskId = tw_taskId task,
       bc_phase = CpBidding, bc_winnerNodeId = Some (tb_nodeId winningBid),
       bc_winningBidId = Some (tb_bidId winningBid), bc_bidsSeen = bidsSeen, bc_consensusSequence = 0,
       bc_committedAtMs = now_ms env,
       bc_proofHash = hash_object (sha L) (JObj
         [(''task'', task_json task), (''winningBid'', bidJson), (''requestedBy'', JStr requestedBy),
          (''reason'', JStr reason), (''bidsSeen'', jint bidsSeen)]),
       bc_metadata = commit_metadata task requestedBy reason \<rparr>"

definition buildAbortCommit :: "js_lib \<Rightarrow> js_env \<Rightarrow> task_work_item \<Rightarrow> ident \<Rightarrow> string \<Rightarrow> bid_commit" where
  "buildAbortCommit L env task requestedBy reason =
     \<lparr> bc_commitId = new_id env 0 ''abort'', bc_missionId = tw_missionId task, bc_taskId = tw_taskId task,
       bc_phase = CpAborted, bc_winnerNodeId = None, bc_winningBidId = None, bc_bidsSeen = 0,
       bc_consensusSequence = 0, bc_committedAtMs = now_ms env,
       bc_proofHash = hash_object (sha L) (JObj
         [(''task'', task_json task), (''requestedBy'', JStr requestedBy), (''reason'', JStr reason),
          (''aborted'', JBool True)]),
       bc_metadata = commit_metadata task requestedBy reason \<rparr>"

definition markCommitted :: "js_env \<Rightarrow> ident \<Rightarrow> ident \<Rightarrow> ident \<Rightarrow> int \<Rightarrow> string \<Rightarrow> bid_registry \<Rightarrow> bid_commit \<times> bid_registry" where
  "markCommitted env taskId winnerNodeId winningBidId consensusSequence proofHash rg =
     (let bidsSeen = int (length (bidsForTask taskId rg));
          rcd = \<lparr> bc_commitId = new_id env 0 ''commit'',
            bc_missionId = default_to (map_option bw_missionId (js_get (rg_windows rg) taskId)) [],
            bc_taskId = taskId, bc_phase = CpCommitted, bc_winnerNodeId = Some winnerNodeId,
            bc_winningBidId = Some winningBidId, bc_bidsSeen = bidsSeen,
            bc_consensusSequence = consensusSequence, bc_committedAtMs = now_ms env,
            bc_proofHash = proofHash,
            bc_metadata = [(''winnerChosenFrom'', JStr ''lattice_ranked_bids'')] \<rparr>;
          rg1 = rg\<lparr>rg_commits := js_put taskId rcd (rg_commits rg)\<rparr>;
          rg2 = (case js_get (rg_windows rg1) taskId of
                   None \<Rightarrow> rg1
                 | Some window \<Rightarrow> rg1\<lparr>rg_windows := js_put taskId (window\<lparr> bw_status := WinCommitted,
                     bw_closedAtMs := Some (now_ms env), bw_acceptedWinnerId := Some winnerNodeId,
                     bw_winningBidId := Some winningBidId \<rparr>) (rg_windows rg1)\<rparr>)
      in (rcd, rg_record (now_ms env) ''bid_commit'' (commit_obj rcd) rg2))"

definition rejectBid :: "js_env \<Rightarrow> ident \<Rightarrow> ident \<Rightarrow> string \<Rightarrow> bid_registry \<Rightarrow> bid_registry" where
  "rejectBid env taskId bidId reason rg =
     (let bs = bids_of taskId rg
      in case find_bid bidId bs of
           None \<Rightarrow> rg
         | Some idx \<Rightarrow>
             (let b = bs ! idx;
                  b' = b\<lparr> tb_status := BidRejected,
                    tb_metadata := obj_spread (obj_spread [] (tb_metadata b)) [(''rejectReason'', JStr reason)] \<rparr>
              in rg_record (now_ms env) ''bid_reject''
                   [(''taskId'', JStr taskId), (''bidId'', JStr bidId), (''reason'', JStr reason)]
                   (put_bids taskId (bs[idx := b']) rg)))"

definition cancelTask :: "js_env \<Rightarrow> ident \<Rightarrow> string \<Rightarrow> bid_registry \<Rightarrow> bid_registry" where
  "cancelTask env taskId reason rg =
     (let rg1 = (case js_get (rg_windows rg) taskId of
                   None \<Rightarrow> rg
                 | Some window \<Rightarrow> rg\<lparr>rg_windows := js_put taskId (window\<lparr> bw_status := WinCancelled,
                     bw_closedAtMs := Some (now_ms env),
                     bw_metadata := obj_spread (obj_spread [] (bw_metadata window)) [(''cancelReason'', JStr reason)] \<rparr>)
                     (rg_windows rg)\<rparr>);
          bs = map (\<lambda>b. b\<lparr> tb_status := BidCancelled,
                 tb_metadata := obj_spread (obj_spread [] (tb_metadata b)) [(''cancelReason'', JStr reason)] \<rparr>)
                 (bids_of taskId rg1)
      in rg_record (now_ms env) ''task_cancel'' [(''taskId'', JStr taskId), (''reason'', JStr reason)]
           (put_bids taskId bs rg1))"

definition getCommit :: "ident \<Rightarrow> bid_registry \<Rightarrow> bid_commit option" where
  "getCommit taskId rg = js_get (rg_commits rg) taskId"

definition getWindow :: "ident \<Rightarrow> bid_registry \<Rightarrow> bid_window option" where
  "getWindow taskId rg = js_get (rg_windows rg) taskId"

record registry_summary =
  rs_openWindows :: int
  rs_committed :: int
  rs_totalBids :: int
  rs_weightedBids :: int
  rs_historyTail :: "machine_event list"

definition registrySummary :: "bid_registry \<Rightarrow> registry_summary" where
  "registrySummary rg =
     \<lparr> rs_openWindows = int (length (filter (\<lambda>w. bw_status w = WinOpen) (js_values (rg_windows rg)))),
       rs_committed = int (length (rg_commits rg)),
       rs_totalBids = foldl (\<lambda>acc arr. acc + int (length arr)) 0 (js_values (rg_bids rg)),
       rs_weightedBids = int (length (rg_weighted rg)),
       rs_historyTail = slice_tail 50 (rg_history rg) \<rparr>"

definition recentHistory :: "nat \<Rightarrow> bid_registry \<Rightarrow> machine_event list" where
  "recentHistory limit rg = slice_tail limit (rg_history rg)"

subsection \<open>Scoring\<close>

definition xy_distance :: "xy_point \<Rightarrow> xy_point \<Rightarrow> real" where
  "xy_distance a b = sqrt ((pt_x a - pt_x b)\<^sup>2 + (pt_y a - pt_y b)\<^sup>2
     + (default_to (pt_z a) 0 - default_to (pt_z b) 0)\<^sup>2)"

definition capabilityHits :: "task_work_item \<Rightarrow> node_profile \<Rightarrow> string list" where
  "capabilityHits task node =
     filter (\<lambda>cap. cap \<in> set (cf_tags (pr_capabilityProfile node))) (tw_requiredCapabilities task)"

definition role_fit_rules :: "task_work_item \<Rightarrow> node_profile \<Rightarrow> (bool \<times> real \<times> string) list" where
  "role_fit_rules task node =
     (let r = pr_role node; taskLower = to_lower (tw_taskType task)
      in [(r = Relay \<and> str_includes taskLower ''relay'', 14, ''role_match:relay''),
          (r = Explorer \<and> str_includes taskLower ''search'', 12, ''role_match:explorer''),
          (r = Triage \<and> str_includes taskLower ''triage'', 12, ''role_match:triage''),
          (r = Rescuer \<and> (str_includes taskLower ''rescue'' \<or> str_includes taskLower ''extract''), 14, ''role_match:rescuer''),
          (r = Transport \<and> str_includes taskLower ''transport'', 13, ''role_match:transport'')])"

definition has_tag :: "node_profile \<Rightarrow> string list \<Rightarrow> bool" where
  "has_tag node wanted = list_ex (\<lambda>t. t \<in> set wanted) (cf_tags (pr_capabilityProfile node))"

definition scenario_fit_rules :: "task_work_item \<Rightarrow> node_profile \<Rightarrow> (bool \<times> real \<times> string) list" where
  "scenario_fit_rules task node =
     (let sc = tw_scenario task; cf = pr_capabilityProfile node
      in [(sc = Wildfire \<and> has_tag node [''thermal'', ''smoke_resistant'', ''high_temp''], 15, ''scenario_fit:wildfire''),
          (sc = CaveTunnel \<and> has_tag node [''relay'', ''long_range'', ''indoor''], 15, ''scenario_fit:cave_tunnel''),
          (sc = Flood \<and> has_tag node [''waterproof'', ''payload''], 15, ''scenario_fit:flood''),
          (sc = Indoor \<and> cf_indoorSuitability cf \<ge> 7 / 10, 12, ''scenario_fit:indoor''),
          (sc = Forest \<and> cf_outdoorSuitability cf \<ge> 7 / 10, 12, ''scenario_fit:forest'')])"

text \<open>A run of \<open>if (c) { fit += w; reasons.push(r); }\<close>.\<close>

definition rules_sum :: "(bool \<times> real \<times> string) list \<Rightarrow> real" where
  "rules_sum rules = foldl (\<lambda>acc (c, w, r). if c then acc + w else acc) 0 rules"

definition rules_reasons :: "(bool \<times> real \<times> string) list \<Rightarrow> string list" where
  "rules_reasons rules = map (\<lambda>(c, w, r). r) (filter fst rules)"

definition bid_penalties :: "task_work_item \<Rightarrow> node_profile \<Rightarrow> real" where
  "bid_penalties task node =
     (if hs_batteryPct (pr_health node) < tw_minBatteryPct task then 30 else 0)
     + (if pr_trustScore node < tw_minTrustScore task then 20 else 0)
     + (if hs_linkQuality (pr_health node) < 2 / 10 then 15 else 0)
     + (if \<not> hs_gpsFix (pr_health node) \<and> tw_scenario task \<noteq> CaveTunnel \<and> tw_scenario task \<noteq> Indoor then 6 else 0)"

definition distance_part :: "js_lib \<Rightarrow> task_work_item \<Rightarrow> node_profile \<Rightarrow> real \<times> string list" where
  "distance_part L task node =
     (case (tw_location task, pr_location node) of
        (Some a, Some b) \<Rightarrow>
          (let dist = xy_distance a b
           in (max 0 (12 - dist / max 1 (default_to (tw_maxDistanceM task) 500) * 12),
               [''distance:'' @ num_str L (round2 dist)]))
      | _ \<Rightarrow> (0, []))"

definition score_bid :: "js_lib \<Rightarrow> task_work_item \<Rightarrow> node_profile \<Rightarrow> task_bid \<Rightarrow> score_breakdown" where
  "score_bid L task node bid =
     (let hits = capabilityHits task node;
          required = tw_requiredCapabilities task;
          capability = (if length required > 0 then real (length hits) / real (length required) * 30 else 12);
          capabilityReasons = (if length hits > 0 then [''capabilities:'' @ str_join '','' hits] else []);
          roleFit = rules_sum (role_fit_rules task node);
          scenarioFit = rules_sum (scenario_fit_rules task node);
          trust = pr_trustScore node * 18;
          reputation = pr_reputationScore node * 16;
          battery = hs_batteryPct (pr_health node) / 100 * 10;
          linkQuality = hs_linkQuality (pr_health node) * 8;
          confidence = clamp (tb_confidence bid) 0 1 * 8;
          distanceScore = fst (distance_part L task node);
          distanceReasons = snd (distance_part L task node);
          etaScore = max 0 (10 - tb_etaMs bid / 1000 * (15 / 10));
          resource = (\<lambda>k. js_get (tb_resources bid) k = Some (JBool True));
          resourceReasons =
            (if resource ''relay'' then [''resource:relay''] else [])
            @ (if resource ''vehicle'' then [''resource:vehicle''] else [])
            @ (if resource ''gripper'' then [''resource:gripper''] else []);
          penalties = bid_penalties task node;
          total = capability + roleFit + scenarioFit + trust + reputation + battery + linkQuality
            + distanceScore + etaScore + confidence - penalties
      in \<lparr> sb_total = round2 total, sb_capability = round2 capability, sb_trust = round2 trust,
           sb_reputation = round2 reputation, sb_battery = round2 battery, sb_linkQuality = round2 linkQuality,
           sb_distance = round2 distanceScore, sb_eta = round2 etaScore, sb_confidence = round2 confidence,
           sb_roleFit = round2 roleFit, sb_scenarioFit = round2 scenarioFit, sb_penalties = round2 penalties,
           sb_reasons = capabilityReasons @ rules_reasons (role_fit_rules task node)
             @ rules_reasons (scenario_fit_rules task node) @ distanceReasons @ resourceReasons \<rparr>)"

definition chooseBest :: "js_lib \<Rightarrow> task_work_item \<Rightarrow> node_profile \<Rightarrow> task_bid \<Rightarrow> weighted_bid" where
  "chooseBest L task node bid =
     \<lparr> wb_bid = bid\<lparr>tb_status := BidWeighted\<rparr>, wb_score = score_bid L task node bid \<rparr>"

definition ranked_before :: "weighted_bid \<Rightarrow> weighted_bid \<Rightarrow> bool" where
  "ranked_before = then_by (then_by (by_desc (\<lambda>w. sb_total (wb_score w))) (by_asc (\<lambda>w. tb_etaMs (wb_bid w))))
     (by_desc (\<lambda>w. tb_confidence (wb_bid w)))"

definition rank_bids :: "js_lib \<Rightarrow> task_work_item \<Rightarrow> (task_bid \<times> node_profile) list \<Rightarrow> weighted_bid list" where
  "rank_bids L task bids = js_sort ranked_before (map (\<lambda>(bid, node). chooseBest L task node bid) bids)"

subsection \<open>Ranking\<close>

interpretation weighted_order: comparator weighted_before
  unfolding weighted_before_def
  by (rule comparator_then_by [OF descending.comparator_axioms ascending.comparator_axioms])

interpretation ranked_order: comparator ranked_before
  unfolding ranked_before_def
  by (intro comparator_then_by descending.comparator_axioms ascending.comparator_axioms)

lemma weighted_before_iff:
  "weighted_before a b \<longleftrightarrow> sb_total (wb_score b) < sb_total (wb_score a) \<or>
    sb_total (wb_score a) = sb_total (wb_score b) \<and> tb_etaMs (wb_bid a) < tb_etaMs (wb_bid b)"
  by (auto simp: weighted_before_def then_by_def by_desc_def by_asc_def)

text \<open>
  C33. \<open>bestBid\<close> is an optimum of the weighted bids of the task: none has a higher total, and
  none with the same total a shorter ETA; it is \<open>null\<close> only when the task has no weighted bid.
\<close>

theorem best_bid_optimal:
  "case bestBid taskId rg of
     None \<Rightarrow> (\<forall>w. w \<in> set (js_values (rg_weighted rg)) \<longrightarrow> tb_taskId (wb_bid w) \<noteq> taskId)
   | Some b \<Rightarrow> b \<in> set (js_values (rg_weighted rg)) \<and> tb_taskId (wb_bid b) = taskId \<and>
       (\<forall>w. w \<in> set (js_values (rg_weighted rg)) \<and> tb_taskId (wb_bid w) = taskId \<longrightarrow>
          sb_total (wb_score w) \<le> sb_total (wb_score b) \<and>
          (sb_total (wb_score w) = sb_total (wb_score b) \<longrightarrow> tb_etaMs (wb_bid b) \<le> tb_etaMs (wb_bid w)))"
proof (cases "weightedBidsForTask taskId rg")
  case Nil
  then have "bestBid taskId rg = None" by (simp add: bestBid_def head_opt_def)
  with Nil show ?thesis by (auto simp: weightedBidsForTask_def filter_empty_conv)
next
  case (Cons b rest)
  let ?ws = "filter (\<lambda>w. tb_taskId (wb_bid w) = taskId) (js_values (rg_weighted rg))"
  have least: "b \<in> set ?ws \<and> (\<forall>x. x \<in> set ?ws \<longrightarrow> \<not> weighted_before x b)"
    using weighted_order.js_sort_head_least [of ?ws b rest] Cons by (simp add: weightedBidsForTask_def)
  then show ?thesis
    by (auto simp: bestBid_def head_opt_def Cons weighted_before_iff not_less)
qed

subsection \<open>Submitting\<close>

lemma find_bid_Some: "find_bid i bs = Some k \<Longrightarrow> k < length bs \<and> tb_bidId (bs ! k) = i"
  by (induction bs arbitrary: k) (auto split: if_splits)

lemma find_bid_None: "find_bid i bs = None \<longleftrightarrow> i \<notin> tb_bidId ` set bs"
  by (induction bs) auto

definition upsert_bid :: "task_bid \<Rightarrow> task_bid list \<Rightarrow> task_bid list" where
  "upsert_bid b bs = (case find_bid (tb_bidId b) bs of Some k \<Rightarrow> bs[k := b] | None \<Rightarrow> bs @ [b])"

lemma upsert_bid_cases:
  obtains k where "k < length bs" "tb_bidId (bs ! k) = tb_bidId b" "upsert_bid b bs = bs[k := b]"
  | "tb_bidId b \<notin> tb_bidId ` set bs" "upsert_bid b bs = bs @ [b]"
proof (cases "find_bid (tb_bidId b) bs")
  case None
  then have "tb_bidId b \<notin> tb_bidId ` set bs" by (simp add: find_bid_None)
  moreover have "upsert_bid b bs = bs @ [b]" unfolding upsert_bid_def None by simp
  ultimately show thesis by (rule that(2))
next
  case (Some k)
  then show thesis using find_bid_Some [OF Some] that(1) [of k] by (simp add: upsert_bid_def)
qed

lemma upsert_bid_ids:
  assumes "distinct (map tb_bidId bs)" shows "distinct (map tb_bidId (upsert_bid b bs))"
proof (cases rule: upsert_bid_cases [of bs b])
  case (1 k)
  then have "map tb_bidId (bs[k := b]) = map tb_bidId bs"
    by (simp add: map_update list_update_same_conv)
  with 1 assms show ?thesis by simp
qed (use assms in auto)

lemma upsert_bid_set:
  assumes "distinct (map tb_bidId bs)"
  shows "set (upsert_bid b bs) = insert b {x \<in> set bs. tb_bidId x \<noteq> tb_bidId b}"
proof (cases rule: upsert_bid_cases [of bs b])
  case (1 k)
  have d: "distinct bs" "inj_on tb_bidId (set bs)" using assms by (simp_all add: distinct_map)
  have "x = bs ! k" if "x \<in> set bs" "tb_bidId x = tb_bidId b" for x
    by (rule inj_onD [OF d(2)]) (use that 1(1,2) in simp_all)
  then have "{x \<in> set bs. tb_bidId x \<noteq> tb_bidId b} = set bs - {bs ! k}" using 1(2) by blast
  with set_update_distinct [OF d(1) 1(1), of b] show ?thesis by (simp only: 1(3))
next
  case 2
  have "tb_bidId x \<noteq> tb_bidId b" if "x \<in> set bs" for x
    using 2(1) imageI [OF that, of tb_bidId] by auto
  then have "{x \<in> set bs. tb_bidId x \<noteq> tb_bidId b} = set bs" by blast
  with 2 show ?thesis by simp
qed

lemma submitBid_ok:
  assumes "getWindow (tb_taskId bid) rg = Some w" "bw_status w = WinOpen" "now_ms env \<le> bw_closesAtMs w"
  shows "fst (submitBid env bid rg) = Inr bid"
    "rg_bids (snd (submitBid env bid rg)) =
       js_put (tb_taskId bid) (upsert_bid (bid\<lparr>tb_status := BidSubmitted\<rparr>) (bids_of (tb_taskId bid) rg)) (rg_bids rg)"
    "rg_windows (snd (submitBid env bid rg)) = rg_windows rg"
    "rg_weighted (snd (submitBid env bid rg)) = rg_weighted rg"
    "rg_commits (snd (submitBid env bid rg)) = rg_commits rg"
  using assms
  by (simp_all add: submitBid_def getWindow_def Let_def rg_record_def put_bids_def upsert_bid_def split: option.splits)

lemma submitBid_fails:
  assumes "\<not> (\<exists>w. getWindow (tb_taskId bid) rg = Some w \<and> bw_status w = WinOpen \<and> now_ms env \<le> bw_closesAtMs w)"
  shows "\<exists>e. fst (submitBid env bid rg) = Inl e" "rg_bids (snd (submitBid env bid rg)) = rg_bids rg"
    "rg_weighted (snd (submitBid env bid rg)) = rg_weighted rg" "rg_commits (snd (submitBid env bid rg)) = rg_commits rg"
  using assms by (auto simp: submitBid_def getWindow_def Let_def split: option.splits)

lemma bids_of_put: "bids_of t (rg\<lparr>rg_bids := js_put t bs m\<rparr>) = bs"
  by (simp add: bids_of_def js_map_simps)

definition toy_task :: "ident \<Rightarrow> task_work_item" where
  "toy_task i = \<lparr> tw_taskId = i, tw_missionId = ''m'', tw_scenario = Wildfire, tw_taskType = ''frontier_search'',
     tw_priority = 10, tw_location = None, tw_requiredCapabilities = [], tw_minTrustScore = 0, tw_minBatteryPct = 0,
     tw_maxDistanceM = None, tw_rescueTargetId = None, tw_createdAtMs = 0, tw_expiresAtMs = 100, tw_metadata = [] \<rparr>"

definition toy_bid :: "ident \<Rightarrow> ident \<Rightarrow> ident \<Rightarrow> task_bid" where
  "toy_bid i task node = \<lparr> tb_bidId = i, tb_taskId = task, tb_missionId = ''m'', tb_nodeId = node, tb_role = Explorer,
     tb_scenario = Wildfire, tb_capabilityScore = 0, tb_trustScore = 1, tb_reputationScore = 1, tb_batteryPct = 90,
     tb_linkQuality = 1, tb_etaMs = 1000, tb_confidence = 1, tb_distanceM = 0, tb_resources = [], tb_proofHints = [],
     tb_createdAtMs = 1, tb_expiresAtMs = 100, tb_status = BidOpen, tb_metadata = [] \<rparr>"

definition toy_weighted :: "ident \<Rightarrow> real \<Rightarrow> weighted_bid" where
  "toy_weighted i points = \<lparr> wb_bid = toy_bid i ''t'' ''n'',
     wb_score = \<lparr> sb_total = points, sb_capability = 0, sb_trust = 0, sb_reputation = 0, sb_battery = 0,
       sb_linkQuality = 0, sb_distance = 0, sb_eta = 0, sb_confidence = 0, sb_roleFit = 0, sb_scenarioFit = 0,
       sb_penalties = 0, sb_reasons = [] \<rparr> \<rparr>"

theorem best_bid_optimal_witness:
  "\<exists>b. bestBid ''t'' (snd (setWeighted (demo_env 1) (toy_weighted ''b'' 50) new_registry)) = Some b \<and>
    50 \<le> sb_total (wb_score b)"
proof -
  let ?rg = "snd (setWeighted (demo_env 1) (toy_weighted ''b'' 50) new_registry)"
  have "toy_weighted ''b'' 50 \<in> set (js_values (rg_weighted ?rg))" "tb_taskId (wb_bid (toy_weighted ''b'' 50)) = ''t''"
    "sb_total (wb_score (toy_weighted ''b'' 50)) = 50"
    by (simp_all add: setWeighted_def Let_def rg_record_def put_bids_def new_registry_def js_values_def
        toy_weighted_def toy_bid_def)
  with best_bid_optimal [where taskId = "''t''" and rg = ?rg] show ?thesis
    by (cases "bestBid ''t'' ?rg") auto
qed

text \<open>
  \<open>submitBid\<close> succeeds exactly for an open window whose deadline has not passed. It then
  files the bid, as submitted, in place of any bid of the same id, and touches no other bid of
  the task; when it throws, no bid changes.
\<close>

theorem submit_bid_spec:
  assumes "distinct (map tb_bidId (bids_of (tb_taskId bid) rg))"
  shows "if \<exists>w. getWindow (tb_taskId bid) rg = Some w \<and> bw_status w = WinOpen \<and> now_ms env \<le> bw_closesAtMs w
     then fst (submitBid env bid rg) = Inr bid \<and>
       set (bidsForTask (tb_taskId bid) (snd (submitBid env bid rg))) =
         insert (bid\<lparr>tb_status := BidSubmitted\<rparr>)
           {b \<in> set (bidsForTask (tb_taskId bid) rg). tb_bidId b \<noteq> tb_bidId bid}
     else (\<exists>e. fst (submitBid env bid rg) = Inl e) \<and> rg_bids (snd (submitBid env bid rg)) = rg_bids rg"
proof (cases "\<exists>w. getWindow (tb_taskId bid) rg = Some w \<and> bw_status w = WinOpen \<and> now_ms env \<le> bw_closesAtMs w")
  case True
  then obtain w where "getWindow (tb_taskId bid) rg = Some w" "bw_status w = WinOpen" "now_ms env \<le> bw_closesAtMs w"
    by blast
  note ok = submitBid_ok [OF this]
  have "bidsForTask (tb_taskId bid) (snd (submitBid env bid rg)) =
      upsert_bid (bid\<lparr>tb_status := BidSubmitted\<rparr>) (bids_of (tb_taskId bid) rg)"
    by (simp add: bidsForTask_def bids_of_def ok(2) js_map_simps)
  with True ok(1) upsert_bid_set [OF assms, of "bid\<lparr>tb_status := BidSubmitted\<rparr>"] show ?thesis
    by (simp add: bidsForTask_def)
next
  case False
  then show ?thesis using submitBid_fails(1,2) [of bid rg env] by (simp only: if_False simp_thms)
qed

theorem submit_bid_spec_witness:
  "fst (submitBid (demo_env 5) (toy_bid ''b'' ''t'' ''n'')
     (snd (openWindow (demo_env 1) (toy_task ''t'') 1 1 4000 new_registry))) = Inr (toy_bid ''b'' ''t'' ''n'')"
proof -
  let ?rg = "snd (openWindow (demo_env 1) (toy_task ''t'') 1 1 4000 new_registry)"
  have "bids_of (tb_taskId (toy_bid ''b'' ''t'' ''n'')) ?rg = []"
    by (simp add: openWindow_def Let_def bids_of_def rg_record_def new_registry_def)
  moreover have "\<exists>w. getWindow (tb_taskId (toy_bid ''b'' ''t'' ''n'')) ?rg = Some w \<and> bw_status w = WinOpen
      \<and> now_ms (demo_env 5) \<le> bw_closesAtMs w"
    by (simp add: openWindow_def Let_def getWindow_def rg_record_def new_registry_def toy_task_def toy_bid_def demo_env_def)
  ultimately show ?thesis
    using submit_bid_spec [of "toy_bid ''b'' ''t'' ''n''" ?rg "demo_env 5"] by simp
qed

text \<open>
  The deadline is read in two ways: at the closing instant itself \<open>submitBid\<close> still accepts a
  bid, while \<open>expireWindows\<close> at the same instant expires the window.
\<close>

theorem deadline_instant_disagrees:
  assumes "getWindow (tb_taskId bid) rg = Some w" "bw_status w = WinOpen" "now_ms env = bw_closesAtMs w"
  shows "fst (submitBid env bid rg) = Inr bid \<and> tb_taskId bid \<in> set (fst (expireWindows env rg))"
proof -
  have "(tb_taskId bid, w) \<in> set (rg_windows rg)"
    using assms(1) by (simp add: getWindow_def map_of_SomeD)
  then have "tb_taskId bid \<in> set (fst (expireWindows env rg))"
    using assms(2,3) by (force simp: expireWindows_def Let_def window_due_def)
  then show ?thesis using submitBid_ok(1) [OF assms(1,2)] assms(3) by simp
qed

theorem deadline_instant_disagrees_witness:
  "fst (submitBid (demo_env 4001) (toy_bid ''b'' ''t'' ''n'')
     (snd (openWindow (demo_env 1) (toy_task ''t'') 1 1 4000 new_registry))) = Inr (toy_bid ''b'' ''t'' ''n'')"
proof -
  let ?rg = "snd (openWindow (demo_env 1) (toy_task ''t'') 1 1 4000 new_registry)"
  obtain w where "getWindow (tb_taskId (toy_bid ''b'' ''t'' ''n'')) ?rg = Some w" "bw_status w = WinOpen"
    "now_ms (demo_env 4001) = bw_closesAtMs w"
    by (simp add: openWindow_def Let_def getWindow_def rg_record_def new_registry_def toy_task_def toy_bid_def demo_env_def)
  then show ?thesis by (rule deadline_instant_disagrees [THEN conjunct1])
qed

subsection \<open>Score bounds\<close>

lemma role_fit_bounds: "0 \<le> rules_sum (role_fit_rules task node) \<and> rules_sum (role_fit_rules task node) \<le> 14"
  by (cases "pr_role node") (auto simp: rules_sum_def role_fit_rules_def Let_def)

lemma scenario_fit_bounds: "0 \<le> rules_sum (scenario_fit_rules task node) \<and> rules_sum (scenario_fit_rules task node) \<le> 15"
  by (cases "tw_scenario task") (auto simp: rules_sum_def scenario_fit_rules_def Let_def)

lemma penalties_bounds: "0 \<le> bid_penalties task node \<and> bid_penalties task node \<le> 71"
  by (auto simp: bid_penalties_def)

lemma xy_distance_nonneg: "0 \<le> xy_distance a b"
  by (simp add: xy_distance_def)

lemma distance_score_bounds:
  "0 \<le> d \<Longrightarrow> 0 \<le> max 0 (12 - d / max 1 m * 12) \<and> max 0 (12 - d / max 1 m * 12) \<le> (12::real)"
  by (auto simp: max_def)

definition normal_profile :: "node_profile \<Rightarrow> bool" where
  "normal_profile n \<longleftrightarrow> 0 \<le> pr_trustScore n \<and> pr_trustScore n \<le> 1
     \<and> 0 \<le> pr_reputationScore n \<and> pr_reputationScore n \<le> 1
     \<and> 0 \<le> hs_batteryPct (pr_health n) \<and> hs_batteryPct (pr_health n) \<le> 100
     \<and> 0 \<le> hs_linkQuality (pr_health n) \<and> hs_linkQuality (pr_health n) \<le> 1"

lemma capability_bounds:
  "0 \<le> (if length req > 0 then real (length (filter P req)) / real (length req) * 30 else 12) \<and>
   (if length req > 0 then real (length (filter P req)) / real (length req) * 30 else (12::real)) \<le> 30"
  by (auto simp: divide_le_eq)

lemma distance_part_bounds: "0 \<le> fst (distance_part L task node) \<and> fst (distance_part L task node) \<le> 12"
  using distance_score_bounds [OF xy_distance_nonneg]
  by (simp add: distance_part_def Let_def split: option.splits)

lemma score_sum_bounds:
  assumes "0 \<le> a \<and> a \<le> 30" "0 \<le> b \<and> b \<le> 14" "0 \<le> c \<and> c \<le> 15" "0 \<le> d \<and> d \<le> 18" "0 \<le> e \<and> e \<le> 16"
    "0 \<le> f \<and> f \<le> 10" "0 \<le> g \<and> g \<le> 8" "0 \<le> h \<and> h \<le> 12" "0 \<le> i \<and> i \<le> 10" "0 \<le> j \<and> j \<le> 8"
    "0 \<le> p \<and> p \<le> (71::real)"
  shows "- 71 \<le> round2 (a + b + c + d + e + f + g + h + i + j - p) \<and> round2 (a + b + c + d + e + f + g + h + i + j - p) \<le> 141"
  using assms round2_between [of "- 71" "a + b + c + d + e + f + g + h + i + j - p" 141] by simp

text \<open>
  For a profile with trust, reputation and link quality in [0, 1] and battery in [0, 100],
  and a bid with a non-negative ETA, the total score lies between -71 and 141, whatever
  confidence, distance, role, scenario and capabilities are.
\<close>

theorem score_bounds:
  assumes "normal_profile node" "0 \<le> tb_etaMs bid"
  shows "- 71 \<le> sb_total (score_bid L task node bid) \<and> sb_total (score_bid L task node bid) \<le> 141"
  unfolding score_bid_def Let_def score_breakdown.simps
proof (rule score_sum_bounds)
  show "0 \<le> (if 0 < length (tw_requiredCapabilities task)
      then real (length (capabilityHits task node)) / real (length (tw_requiredCapabilities task)) * 30 else 12) \<and>
    (if 0 < length (tw_requiredCapabilities task)
      then real (length (capabilityHits task node)) / real (length (tw_requiredCapabilities task)) * 30 else 12) \<le> 30"
    unfolding capabilityHits_def by (rule capability_bounds)
qed (use assms role_fit_bounds scenario_fit_bounds penalties_bounds distance_part_bounds
    clamp_bounds [of 0 1 "tb_confidence bid"] in \<open>auto simp: normal_profile_def\<close>)

definition toy_profile :: "ident \<Rightarrow> node_profile" where
  "toy_profile i = \<lparr> pr_nodeId = i, pr_displayName = i, pr_role = Explorer, pr_publicKey = [],
     pr_capabilityProfile = \<lparr> cf_tags = [''camera''], cf_sensorStack = [], cf_maxRangeM = 100, cf_maxAltitudeM = 10,
       cf_indoorSuitability = 0, cf_outdoorSuitability = 1, cf_hazardClearance = [], cf_notes = None \<rparr>,
     pr_health = \<lparr> hs_timestampMs = 1, hs_batteryPct = 80, hs_cpuPct = 0, hs_memoryPct = 0, hs_linkQuality = 1,
       hs_gpsFix = True, hs_temperatureC = None, hs_missionId = None \<rparr>,
     pr_trustScore = 1, pr_reputationScore = 1, pr_rewardPoints = 0, pr_contributionCount = 0,
     pr_successfulTasks = 0, pr_failedTasks = 0, pr_lastSeenMs = 1, pr_firstSeenMs = 1, pr_location = None,
     pr_missionId = None, pr_metadata = [] \<rparr>"

theorem score_bounds_witness:
  "sb_total (score_bid toy_lib (toy_task ''t'') (toy_profile ''n'') (toy_bid ''b'' ''t'' ''n'')) \<le> 141"
  by (rule score_bounds [THEN conjunct2]) (simp_all add: normal_profile_def toy_profile_def toy_bid_def)

subsection \<open>Well-formed registries\<close>

definition wf_registry :: "bid_registry \<Rightarrow> bool" where
  "wf_registry rg \<longleftrightarrow>
     wf_map (rg_windows rg) \<and> wf_map (rg_bids rg) \<and> wf_map (rg_weighted rg) \<and> wf_map (rg_commits rg)
     \<and> (\<forall>t w. js_get (rg_windows rg) t = Some w \<longrightarrow> bw_taskId w = t)
     \<and> (\<forall>t bs. js_get (rg_bids rg) t = Some bs \<longrightarrow>
           distinct (map tb_bidId bs) \<and> (\<forall>b. b \<in> set bs \<longrightarrow> tb_taskId b = t))
     \<and> (\<forall>i w. js_get (rg_weighted rg) i = Some w \<longrightarrow> tb_bidId (wb_bid w) = i)
     \<and> (\<forall>t c. js_get (rg_commits rg) t = Some c \<longrightarrow>
           bc_taskId c = t \<and> bc_phase c = CpCommitted \<and> bc_winnerNodeId c \<noteq> None)"

lemma wf_registry_new: "wf_registry new_registry"
  by (simp add: wf_registry_def new_registry_def wf_map_def)

lemma wf_rg_record [simp]: "wf_registry (rg_record t ty pl rg) = wf_registry rg"
  by (simp add: wf_registry_def rg_record_def)

lemma wf_put_window:
  "wf_registry rg \<Longrightarrow> bw_taskId w = t \<Longrightarrow> wf_registry (rg\<lparr>rg_windows := js_put t w (rg_windows rg)\<rparr>)"
  by (simp add: wf_registry_def jsm.invar_insert js_map_simps)

lemma wf_put_window_eq:
  "wf_registry rg \<Longrightarrow> rg_windows rg = ws \<Longrightarrow> bw_taskId w = t \<Longrightarrow> wf_registry (rg\<lparr>rg_windows := js_put t w ws\<rparr>)"
  using wf_put_window by blast

lemma wf_put_bids:
  "wf_registry rg \<Longrightarrow> distinct (map tb_bidId bs) \<Longrightarrow> (\<And>b. b \<in> set bs \<Longrightarrow> tb_taskId b = t) \<Longrightarrow>
    wf_registry (put_bids t bs rg)"
  by (simp add: wf_registry_def put_bids_def jsm.invar_insert js_map_simps)

lemma wf_bids_of: "wf_registry rg \<Longrightarrow> distinct (map tb_bidId (bids_of t rg)) \<and> (\<forall>b \<in> set (bids_of t rg). tb_taskId b = t)"
  by (cases "js_get (rg_bids rg) t") (auto simp: wf_registry_def bids_of_def)

lemma wf_put_weighted:
  "wf_registry rg \<Longrightarrow> tb_bidId (wb_bid w) = i \<Longrightarrow> wf_registry (rg\<lparr>rg_weighted := js_put i w (rg_weighted rg)\<rparr>)"
  by (simp add: wf_registry_def jsm.invar_insert js_map_simps)

lemma wf_put_commit:
  "wf_registry rg \<Longrightarrow> bc_taskId c = t \<Longrightarrow> bc_phase c = CpCommitted \<Longrightarrow> bc_winnerNodeId c \<noteq> None \<Longrightarrow>
    wf_registry (rg\<lparr>rg_commits := js_put t c (rg_commits rg)\<rparr>)"
  by (simp add: wf_registry_def jsm.invar_insert js_map_simps)

lemma wf_window_task: "wf_registry rg \<Longrightarrow> js_get (rg_windows rg) t = Some w \<Longrightarrow> bw_taskId w = t"
  by (simp add: wf_registry_def)

lemma wf_openWindow [inv_intros]: "wf_registry rg \<Longrightarrow> wf_registry (snd (openWindow env task mb q ttl rg))"
  by (simp add: openWindow_def Let_def wf_put_window)

lemma wf_closeWindow [inv_intros]: "wf_registry rg \<Longrightarrow> wf_registry (snd (closeWindow env t r rg))"
  by (auto simp: closeWindow_def Let_def wf_window_task intro!: wf_put_window split: option.splits)

lemma map_of_map_values: "map_of (map (\<lambda>(k, w). (k, f w)) m) k = map_option f (map_of m k)"
  by (induction m) auto

lemma wf_expireWindows [inv_intros]: "wf_registry rg \<Longrightarrow> wf_registry (snd (expireWindows env rg))"
  by (auto simp: wf_registry_def expireWindows_def Let_def wf_map_def map_of_map_values o_def split_beta
      cong: map_cong)

lemma wf_submitBid [inv_intros]:
  assumes "wf_registry rg" shows "wf_registry (snd (submitBid env bid rg))"
proof -
  let ?b = "bid\<lparr>tb_status := BidSubmitted\<rparr>"
  have ids: "distinct (map tb_bidId (bids_of (tb_taskId bid) rg))" using wf_bids_of [OF assms] by blast
  have "wf_registry (put_bids (tb_taskId bid) (upsert_bid ?b (bids_of (tb_taskId bid) rg)) rg)"
  proof (rule wf_put_bids [OF assms upsert_bid_ids [OF ids]])
    show "tb_taskId b = tb_taskId bid" if "b \<in> set (upsert_bid ?b (bids_of (tb_taskId bid) rg))" for b
      using that wf_bids_of [OF assms, of "tb_taskId bid"] by (auto simp: upsert_bid_set [OF ids])
  qed
  then show ?thesis
    using assms wf_window_task [OF assms]
    by (auto simp: submitBid_def Let_def upsert_bid_def intro!: wf_put_window split: option.splits)
qed

lemma wf_update_bid:
  assumes "wf_registry rg" "find_bid i (bids_of t rg) = Some k" "tb_bidId b' = tb_bidId (bids_of t rg ! k)"
    "tb_taskId b' = tb_taskId (bids_of t rg ! k)"
  shows "wf_registry (put_bids t ((bids_of t rg)[k := b']) rg)"
proof (rule wf_put_bids [OF assms(1)])
  have k: "k < length (bids_of t rg)" using find_bid_Some [OF assms(2)] by simp
  then have "map tb_bidId ((bids_of t rg)[k := b']) = map tb_bidId (bids_of t rg)"
    using assms(3) by (simp add: map_update list_update_same_conv)
  then show "distinct (map tb_bidId ((bids_of t rg)[k := b']))" using wf_bids_of [OF assms(1), of t] by simp
  show "tb_taskId b = t" if "b \<in> set ((bids_of t rg)[k := b'])" for b
    using set_update_subset_insert [of "bids_of t rg" k b'] that assms(4) wf_bids_of [OF assms(1), of t]
      nth_mem [OF k] by auto
qed

lemma wf_setWeighted [inv_intros]:
  assumes "wf_registry rg" shows "wf_registry (snd (setWeighted env w rg))"
proof -
  define rg1 where "rg1 = rg\<lparr>rg_weighted := js_put (tb_bidId (wb_bid w)) w (rg_weighted rg)\<rparr>"
  have wf: "wf_registry rg1" unfolding rg1_def by (rule wf_put_weighted [OF assms refl])
  have "wf_registry (put_bids (tb_taskId (wb_bid w)) (case find_bid (tb_bidId (wb_bid w)) (bids_of (tb_taskId (wb_bid w)) rg1) of
      Some idx \<Rightarrow> (bids_of (tb_taskId (wb_bid w)) rg1)[idx := (bids_of (tb_taskId (wb_bid w)) rg1 ! idx)\<lparr>tb_status := BidWeighted\<rparr>]
    | None \<Rightarrow> bids_of (tb_taskId (wb_bid w)) rg1) rg1)"
    using wf_bids_of [OF wf, of "tb_taskId (wb_bid w)"] wf_put_bids [OF wf] wf_update_bid [OF wf]
    by (cases "find_bid (tb_bidId (wb_bid w)) (bids_of (tb_taskId (wb_bid w)) rg1)") auto
  then show ?thesis unfolding setWeighted_def Let_def snd_conv wf_rg_record rg1_def .
qed

lemma wf_rejectBid [inv_intros]: "wf_registry rg \<Longrightarrow> wf_registry (rejectBid env t i r rg)"
  by (auto simp: rejectBid_def Let_def intro!: wf_update_bid split: option.split)

lemma wf_markCommitted [inv_intros]: "wf_registry rg \<Longrightarrow> wf_registry (snd (markCommitted env t n i sq ph rg))"
proof -
  assume wf: "wf_registry rg"
  have "wf_registry (rg\<lparr>rg_commits := js_put t c (rg_commits rg)\<rparr>)"
    if "bc_taskId c = t" "bc_phase c = CpCommitted" "bc_winnerNodeId c \<noteq> None" for c
    by (rule wf_put_commit [OF wf that])
  then show ?thesis
    using wf_window_task [OF wf]
    by (auto simp: markCommitted_def Let_def intro!: wf_put_window_eq split: option.splits)
qed

lemma wf_cancelTask [inv_intros]: "wf_registry rg \<Longrightarrow> wf_registry (cancelTask env t r rg)"
proof -
  assume wf: "wf_registry rg"
  have wins: "wf_registry (case js_get (rg_windows rg) t of None \<Rightarrow> rg
      | Some window \<Rightarrow> rg\<lparr>rg_windows := js_put t (window\<lparr> bw_status := WinCancelled, bw_closedAtMs := Some (now_ms env),
          bw_metadata := obj_spread (obj_spread [] (bw_metadata window)) [(''cancelReason'', JStr r)] \<rparr>) (rg_windows rg)\<rparr>)"
    using wf wf_window_task [OF wf] by (auto intro!: wf_put_window split: option.splits)
  show ?thesis unfolding cancelTask_def Let_def wf_rg_record
    by (rule wf_put_bids [OF wins]) (use wf_bids_of [OF wins, of t] in \<open>auto simp: o_def\<close>)
qed

datatype registry_op =
    RoOpen task_work_item int int int
  | RoClose ident string
  | RoExpire
  | RoSubmit task_bid
  | RoWeigh weighted_bid
  | RoCommit ident ident ident int string
  | RoReject ident ident string
  | RoCancel ident string

fun registry_apply :: "js_env \<Rightarrow> registry_op \<Rightarrow> bid_registry \<Rightarrow> bid_registry" where
  "registry_apply env (RoOpen task mb q ttl) rg = snd (openWindow env task mb q ttl rg)"
| "registry_apply env (RoClose t r) rg = snd (closeWindow env t r rg)"
| "registry_apply env RoExpire rg = snd (expireWindows env rg)"
| "registry_apply env (RoSubmit b) rg = snd (submitBid env b rg)"
| "registry_apply env (RoWeigh w) rg = snd (setWeighted env w rg)"
| "registry_apply env (RoCommit t n i sq ph) rg = snd (markCommitted env t n i sq ph rg)"
| "registry_apply env (RoReject t i r) rg = rejectBid env t i r rg"
| "registry_apply env (RoCancel t r) rg = cancelTask env t r rg"

definition registry_run :: "(js_env \<times> registry_op) list \<Rightarrow> bid_registry" where
  "registry_run ops = foldl (\<lambda>rg eo. registry_apply (fst eo) (snd eo) rg) new_registry ops"

lemma registry_run_wf: "wf_registry (registry_run ops)"
proof (induction ops rule: rev_induct)
  case Nil
  then show ?case by (simp add: registry_run_def wf_registry_new)
next
  case (snoc eo ops)
  then show ?case by (cases "snd eo") (simp_all add: registry_run_def inv_intros)
qed

text \<open>
  C34. After any run of the registry every window, bid list, weighted bid and commit is stored
  under its own task or bid identifier, a task never lists two bids of one identifier, and every
  stored commit is a committed one with a winner.
\<close>

theorem registry_invariant: "wf_registry (registry_run ops)"
  by (rule registry_run_wf)

lemma weighted_untouched:
  "rg_weighted (rejectBid env t i r rg) = rg_weighted rg"
  "rg_weighted (cancelTask env t r rg) = rg_weighted rg"
  "rg_weighted (snd (closeWindow env t r rg)) = rg_weighted rg"
  "rg_weighted (snd (expireWindows env rg)) = rg_weighted rg"
  "rg_weighted (snd (openWindow env task mb q ttl rg)) = rg_weighted rg"
  "rg_weighted (snd (markCommitted env t n j sq ph rg)) = rg_weighted rg"
  by (simp_all add: rejectBid_def cancelTask_def closeWindow_def expireWindows_def openWindow_def markCommitted_def
      Let_def rg_record_def put_bids_def split: option.splits)

text \<open>
  A weighted bid outlives its rejection: rejecting bids, cancelling the task, closing or
  expiring its window, even committing it or opening a new window for it leave the ranking of the
  task's weighted bids, and so the best bid, as they were.
\<close>

theorem ranking_ignores_rejection:
  "weightedBidsForTask taskId (rejectBid env t i r rg) = weightedBidsForTask taskId rg \<and>
   weightedBidsForTask taskId (cancelTask env t r rg) = weightedBidsForTask taskId rg \<and>
   weightedBidsForTask taskId (snd (closeWindow env t r rg)) = weightedBidsForTask taskId rg \<and>
   weightedBidsForTask taskId (snd (expireWindows env rg)) = weightedBidsForTask taskId rg \<and>
   weightedBidsForTask taskId (snd (markCommitted env t n i sq ph rg)) = weightedBidsForTask taskId rg \<and>
   weightedBidsForTask taskId (snd (openWindow env task mb q ttl rg)) = weightedBidsForTask taskId rg"
  by (simp add: weightedBidsForTask_def weighted_untouched)

end
