(* ===== verification/EventLedger.thy ===== *)
theory EventLedger
  imports TaskBidding
begin

section \<open>The event ledger\<close>

text \<open>
  Models \<open>LedgerEvent\<close> and the class \<open>EventLedgerStore\<close> of
  \<open>src/src/backend/shared/tashi-task-bidding-recovery.ts\<close>. The payload of an event, an untyped
  dictionary in the source, is the record \<open>event_payload\<close>: the entries that the replay casts to a
  type (\<open>node\<close>, \<open>patch\<close>, \<open>target\<close>, \<open>snapshot\<close>, \<open>task\<close>) are typed optional fields, all others are
  JSON in \<open>ep_fields\<close>. The lemmas show that appending keeps the chain valid, that the head hash
  pins the whole history, and which slice the replay of a mission reads.
\<close>

subsection \<open>JSON of nodes, targets and map snapshots\<close>

definition health_json :: "health_sample \<Rightarrow> json" where
  "health_json h = JObj
     [(''timestampMs'', jint (hs_timestampMs h)), (''batteryPct'', JNum (hs_batteryPct h)),
      (''cpuPct'', JNum (hs_cpuPct h)), (''memoryPct'', JNum (hs_memoryPct h)),
      (''linkQuality'', JNum (hs_linkQuality h)), (''gpsFix'', JBool (hs_gpsFix h)),
      (''temperatureC'', opt_json JNum (hs_temperatureC h)), (''missionId'', opt_str (hs_missionId h))]"

definition capability_json :: "capability_profile \<Rightarrow> json" where
  "capability_json c = JObj
     [(''tags'', jstrs (cf_tags c)), (''sensorStack'', jstrs (cf_sensorStack c)),
      (''maxRangeM'', JNum (cf_maxRangeM c)), (''maxAltitudeM'', JNum (cf_maxAltitudeM c)),
      (''indoorSuitability'', JNum (cf_indoorSuitability c)),
      (''outdoorSuitability'', JNum (cf_outdoorSuitability c)),
      (''hazardClearance'', jstrs (cf_hazardClearance c)), (''notes'', opt_json JObj (cf_notes c))]"

definition profile_json :: "node_profile \<Rightarrow> json" where
  "profile_json n = JObj
     [(''nodeId'', JStr (pr_nodeId n)), (''displayName'', JStr (pr_displayName n)),
      (''role'', JStr (role_str (pr_role n))), (''publicKey'', JStr (pr_publicKey n)),
      (''capabilityProfile'', capability_json (pr_capabilityProfile n)), (''health'', health_json (pr_health n)),
      (''trustScore'', JNum (pr_trustScore n)), (''reputationScore'', JNum (pr_reputationScore n)),
      (''rewardPoints'', JNum (pr_rewardPoints n)), (''contributionCount'', jint (pr_contributionCount n)),
      (''successfulTasks'', jint (pr_successfulTasks n)), (''failedTasks'', jint (pr_failedTasks n)),
      (''lastSeenMs'', jint (pr_lastSeenMs n)), (''firstSeenMs'', jint (pr_firstSeenMs n)),
      (''location'', opt_json xy_json (pr_location n)), (''missionId'', opt_str (pr_missionId n)),
      (''metadata'', JObj (pr_metadata n))]"

definition target_json :: "target_record \<Rightarrow> json" where
  "target_json t = JObj
     [(''targetId'', JStr (tg_targetId t)), (''missionId'', JStr (tg_missionId t)),
      (''targetType'', JStr (tg_targetType t)), (''confidence'', JNum (tg_confidence t)),
      (''position'', opt_json xy_json (tg_position t)), (''confirmedBy'', jstrs (tg_confirmedBy t)),
      (''assignedTo'', opt_str (tg_assignedTo t)), (''extractedBy'', opt_str (tg_extractedBy t)),
      (''foundAtMs'', jint (tg_foundAtMs t)), (''confirmedAtMs'', opt_int (tg_confirmedAtMs t)),
      (''assignedAtMs'', opt_int (tg_assignedAtMs t)), (''extractedAtMs'', opt_int (tg_extractedAtMs t)),
      (''status'', JStr (status_str (tg_status t))), (''metadata'', JObj (tg_metadata t))]"

definition cell_json :: "map_cell \<Rightarrow> json" where
  "cell_json c = JObj
     [(''cellId'', JStr (mc_cellId c)), (''x'', jint (mc_x c)), (''y'', jint (mc_y c)), (''z'', jint (mc_z c)),
      (''state'', JStr (cell_state_str (mc_state c))), (''confidence'', JNum (mc_confidence c)),
      (''owner'', opt_str (mc_owner c)), (''cost'', JNum (mc_cost c)), (''lastSeenMs'', jint (mc_lastSeenMs c)),
      (''version'', jint (mc_version c)), (''confirmedBy'', jstrs (mc_confirmedBy c)),
      (''metadata'', JObj (mc_metadata c))]"

definition snapshot_json :: "map_snapshot \<Rightarrow> json" where
  "snapshot_json s = JObj
     [(''mapId'', JStr (sn_mapId s)), (''version'', jint (sn_version s)), (''updatedAtMs'', jint (sn_updatedAtMs s)),
      (''cells'', JObj (map (\<lambda>(k, c). (k, cell_json c)) (sn_cells s))),
      (''frontierCount'', jint (sn_frontierCount s)), (''searchedCount'', jint (sn_searchedCount s)),
      (''blockedCount'', jint (sn_blockedCount s)), (''targetCount'', jint (sn_targetCount s)),
      (''exploredCount'', jint (sn_exploredCount s)), (''dirtyCount'', jint (sn_dirtyCount s)),
      (''coveragePct'', JNum (sn_coveragePct s)), (''metadata'', JObj (sn_metadata s))]"

text \<open>\<open>Partial<NodeProfile>\<close>\<close>

record profile_patch =
  pp_nodeId :: "ident option"
  pp_displayName :: "string option"
  pp_role :: "node_role option"
  pp_publicKey :: "string option"
  pp_capabilityProfile :: "capability_profile option"
  pp_health :: "health_sample option"
  pp_trustScore :: "real option"
  pp_reputationScore :: "real option"
  pp_rewardPoints :: "real option"
  pp_contributionCount :: "int option"
  pp_successfulTasks :: "int option"
  pp_failedTasks :: "int option"
  pp_lastSeenMs :: "timestamp option"
  pp_firstSeenMs :: "timestamp option"
  pp_location :: "xy_point option"
  pp_missionId :: "ident option"
  pp_metadata :: "obj option"

definition profile_patch_json :: "profile_patch \<Rightarrow> json" where
  "profile_patch_json p = JObj
     (opt_field ''nodeId'' JStr (pp_nodeId p) @ opt_field ''displayName'' JStr (pp_displayName p)
      @ opt_field ''role'' (JStr \<circ> role_str) (pp_role p) @ opt_field ''publicKey'' JStr (pp_publicKey p)
      @ opt_field ''capabilityProfile'' capability_json (pp_capabilityProfile p)
      @ opt_field ''health'' health_json (pp_health p) @ opt_field ''trustScore'' JNum (pp_trustScore p)
      @ opt_field ''reputationScore'' JNum (pp_reputationScore p)
      @ opt_field ''rewardPoints'' JNum (pp_rewardPoints p)
      @ opt_field ''contributionCount'' jint (pp_contributionCount p)
      @ opt_field ''successfulTasks'' jint (pp_successfulTasks p)
      @ opt_field ''failedTasks'' jint (pp_failedTasks p) @ opt_field ''lastSeenMs'' jint (pp_lastSeenMs p)
      @ opt_field ''firstSeenMs'' jint (pp_firstSeenMs p) @ opt_field ''location'' xy_json (pp_location p)
      @ opt_field ''missionId'' JStr (pp_missionId p) @ opt_field ''metadata'' JObj (pp_metadata p))"

subsection \<open>Events\<close>

record event_payload =
  ep_node :: "node_profile option"
  ep_patch :: "profile_patch option"
  ep_target :: "target_record option"
  ep_snapshot :: "map_snapshot option"
  ep_task :: "task_work_item option"
  ep_fields :: obj

definition plain_payload :: "obj \<Rightarrow> event_payload" where
  "plain_payload flds = \<lparr> ep_node = None, ep_patch = None, ep_target = None, ep_snapshot = None,
     ep_task = None, ep_fields = flds \<rparr>"

definition payload_json :: "event_payload \<Rightarrow> json" where
  "payload_json p = JObj
     (opt_field ''node'' profile_json (ep_node p) @ opt_field ''patch'' profile_patch_json (ep_patch p)
      @ opt_field ''target'' target_json (ep_target p) @ opt_field ''snapshot'' snapshot_json (ep_snapshot p)
      @ opt_field ''task'' task_json (ep_task p) @ ep_fields p)"

record ledger_event =
  le_eventId :: ident
  le_missionId :: ident
  le_kind :: string
  le_actorId :: ident
  le_payload :: event_payload
  le_previousHash :: string
  le_timestampMs :: timestamp
  le_signature :: string
  le_nonce :: string
  le_blockIndex :: int
  le_cumulativeHash :: string

record ledger_entry =
  en_missionId :: ident
  en_kind :: string
  en_actorId :: ident
  en_payload :: event_payload

record event_ledger =
  lg_entries :: "ledger_event list"
  lg_byMission :: "(ident, ledger_event list) jsmap"

definition new_ledger :: event_ledger where
  "new_ledger = \<lparr> lg_entries = [], lg_byMission = [] \<rparr>"

definition genesis :: string where
  "genesis = ''genesis''"

text \<open>The object \<open>base\<close>, and \<open>{ ...base, signature }\<close>.\<close>

definition base_obj :: "ledger_event \<Rightarrow> obj" where
  "base_obj e =
     [(''eventId'', JStr (le_eventId e)), (''missionId'', JStr (le_missionId e)), (''kind'', JStr (le_kind e)),
      (''actorId'', JStr (le_actorId e)), (''payload'', payload_json (le_payload e)),
      (''previousHash'', JStr (le_previousHash e)), (''timestampMs'', jint (le_timestampMs e)),
      (''nonce'', JStr (le_nonce e)), (''blockIndex'', jint (le_blockIndex e))]"

definition sealed_obj :: "ledger_event \<Rightarrow> obj" where
  "sealed_obj e = base_obj e @ [(''signature'', JStr (le_signature e))]"

definition lastHash :: "event_ledger \<Rightarrow> string" where
  "lastHash lg = (if lg_entries lg = [] then genesis else le_cumulativeHash (last (lg_entries lg)))"

definition append_event :: "js_lib \<Rightarrow> js_env \<Rightarrow> ledger_entry \<Rightarrow> event_ledger \<Rightarrow> ledger_event \<times> event_ledger" where
  "append_event L env entry lg =
     (let base = \<lparr> le_eventId = new_id env 1 ''evt'', le_missionId = en_missionId entry, le_kind = en_kind entry,
            le_actorId = en_actorId entry, le_payload = en_payload entry, le_previousHash = lastHash lg,
            le_timestampMs = now_ms env, le_signature = [], le_nonce = new_id env 0 ''n'',
            le_blockIndex = int (length (lg_entries lg)), le_cumulativeHash = [] \<rparr>;
          signed = base\<lparr>le_signature := hash_object (sha L) (JObj (base_obj base))\<rparr>;
          rcd = signed\<lparr>le_cumulativeHash := hash_object (sha L) (JObj (sealed_obj signed))\<rparr>;
          entries = default_to (js_get (lg_byMission lg) (en_missionId entry)) [] @ [rcd]
      in (rcd, \<lparr> lg_entries = lg_entries lg @ [rcd],
                 lg_byMission = js_put (en_missionId entry) entries (lg_byMission lg) \<rparr>))"

definition byMissionId :: "ident \<Rightarrow> event_ledger \<Rightarrow> ledger_event list" where
  "byMissionId missionId lg = default_to (js_get (lg_byMission lg) missionId) []"

fun find_hash :: "string \<Rightarrow> ledger_event list \<Rightarrow> nat option" where
  "find_hash h [] = None"
| "find_hash h (e # es) = (if le_cumulativeHash e = h then Some 0 else map_option Suc (find_hash h es))"

definition missionEventsAfter :: "ident \<Rightarrow> string option \<Rightarrow> event_ledger \<Rightarrow> ledger_event list" where
  "missionEventsAfter missionId afterHash lg =
     (let es = byMissionId missionId lg
      in case afterHash of
           None \<Rightarrow> es
         | Some h \<Rightarrow>
             if h = [] \<or> h = genesis then es
             else (case find_hash h es of None \<Rightarrow> es | Some idx \<Rightarrow> drop (idx + 1) es))"

definition tail_events :: "nat \<Rightarrow> event_ledger \<Rightarrow> ledger_event list" where
  "tail_events limit lg = slice_tail limit (lg_entries lg)"

definition all_events :: "event_ledger \<Rightarrow> ledger_event list" where
  "all_events lg = lg_entries lg"

fun verify_from :: "js_lib \<Rightarrow> nat \<Rightarrow> string \<Rightarrow> ledger_event list \<Rightarrow> bool \<times> string" where
  "verify_from L i previous [] = (True, ''ok'')"
| "verify_from L i previous (e # es) =
     (if le_blockIndex e \<noteq> int i then (False, ''bad_block_index:'' @ show_nat i)
      else if le_previousHash e \<noteq> previous then (False, ''bad_previous_hash:'' @ show_nat i)
      else if le_signature e \<noteq> hash_object (sha L) (JObj (base_obj e)) then (False, ''bad_signature:'' @ show_nat i)
      else if le_cumulativeHash e \<noteq> hash_object (sha L) (JObj (sealed_obj e)) then (False, ''bad_hash:'' @ show_nat i)
      else verify_from L (i + 1) (le_cumulativeHash e) es)"

definition verify_ledger :: "js_lib \<Rightarrow> event_ledger \<Rightarrow> bool \<times> string" where
  "verify_ledger L lg = verify_from L 0 genesis (lg_entries lg)"

subsection \<open>Appending keeps the chain\<close>

definition sealed :: "js_lib \<Rightarrow> ledger_event \<Rightarrow> bool" where
  "sealed L e \<longleftrightarrow> le_signature e = hash_object (sha L) (JObj (base_obj e))
     \<and> le_cumulativeHash e = hash_object (sha L) (JObj (sealed_obj e))"

definition head_of :: "ledger_event list \<Rightarrow> string" where
  "head_of es = (if es = [] then genesis else le_cumulativeHash (last es))"

fun linked :: "js_lib \<Rightarrow> nat \<Rightarrow> string \<Rightarrow> ledger_event list \<Rightarrow> bool" where
  "linked L i previous [] = True"
| "linked L i previous (e # es) \<longleftrightarrow>
     le_blockIndex e = int i \<and> le_previousHash e = previous \<and> sealed L e \<and> linked L (i + 1) (le_cumulativeHash e) es"

lemma verify_from_linked: "fst (verify_from L i previous es) = linked L i previous es"
  by (induction es arbitrary: i previous) (auto simp: sealed_def)

lemma linked_snoc:
  "linked L i previous (es @ [e]) \<longleftrightarrow> linked L i previous es \<and> sealed L e
    \<and> le_blockIndex e = int (i + length es) \<and> le_previousHash e = (if es = [] then previous else le_cumulativeHash (last es))"
  by (induction es arbitrary: i previous) auto

lemma append_event_entries:
  "lg_entries (snd (append_event L env en lg)) = lg_entries lg @ [fst (append_event L env en lg)]"
  "byMissionId m (snd (append_event L env en lg)) =
    byMissionId m lg @ (if m = en_missionId en then [fst (append_event L env en lg)] else [])"
  "le_missionId (fst (append_event L env en lg)) = en_missionId en"
  "le_kind (fst (append_event L env en lg)) = en_kind en"
  "le_payload (fst (append_event L env en lg)) = en_payload en"
  "lastHash (snd (append_event L env en lg)) = le_cumulativeHash (fst (append_event L env en lg))"
  by (auto simp: append_event_def Let_def byMissionId_def js_map_simps lastHash_def)

lemma append_event_sealed:
  "sealed L (fst (append_event L env en lg))"
  "le_blockIndex (fst (append_event L env en lg)) = int (length (lg_entries lg))"
  "le_previousHash (fst (append_event L env en lg)) = lastHash lg"
  by (simp_all add: append_event_def Let_def sealed_def base_obj_def sealed_obj_def)

definition wf_ledger :: "js_lib \<Rightarrow> event_ledger \<Rightarrow> bool" where
  "wf_ledger L lg \<longleftrightarrow> linked L 0 genesis (lg_entries lg)
     \<and> (\<forall>m. byMissionId m lg = filter (\<lambda>e. le_missionId e = m) (lg_entries lg))"

lemma wf_new_ledger: "wf_ledger L new_ledger"
  by (simp add: wf_ledger_def new_ledger_def byMissionId_def)

lemma wf_append_event [inv_intros]: "wf_ledger L lg \<Longrightarrow> wf_ledger L (snd (append_event L env en lg))"
  by (auto simp: wf_ledger_def append_event_entries linked_snoc append_event_sealed lastHash_def)

definition ledger_run :: "js_lib \<Rightarrow> (js_env \<times> ledger_entry) list \<Rightarrow> event_ledger" where
  "ledger_run L es = foldl (\<lambda>lg x. snd (append_event L (fst x) (snd x) lg)) new_ledger es"

lemma ledger_run_wf: "wf_ledger L (ledger_run L es)"
proof (induction es rule: rev_induct)
  case (snoc x es)
  then show ?case by (simp add: ledger_run_def wf_append_event)
qed (simp add: ledger_run_def wf_new_ledger)

lemma verify_ledger_wf: "wf_ledger L lg \<Longrightarrow> fst (verify_ledger L lg)"
  by (simp add: verify_ledger_def verify_from_linked wf_ledger_def)

text \<open>
  A ledger built by \<open>append\<close> always verifies, whatever hash function is used, and the events
  it files for a mission are exactly the events of that mission, in ledger order.
\<close>

theorem appended_ledger_verifies:
  "fst (verify_ledger L (ledger_run L es)) \<and>
   byMissionId m (ledger_run L es) = filter (\<lambda>e. le_missionId e = m) (all_events (ledger_run L es))"
  using ledger_run_wf [of L es] verify_ledger_wf [of L "ledger_run L es"] by (simp add: wf_ledger_def all_events_def)

subsection \<open>The head pins the history\<close>

lemma sealed_obj_keys: "distinct (map fst (sealed_obj e))"
  by (simp add: sealed_obj_def base_obj_def)

lemma sealed_obj_stable:
  assumes "stable (JObj (sealed_obj a)) = stable (JObj (sealed_obj b))"
  shows "le_previousHash a = le_previousHash b \<and> le_blockIndex a = le_blockIndex b \<and> le_kind a = le_kind b
    \<and> le_missionId a = le_missionId b \<and> le_actorId a = le_actorId b
    \<and> stable (payload_json (le_payload a)) = stable (payload_json (le_payload b))"
proof -
  note look = stable_obj_lookup [OF assms sealed_obj_keys sealed_obj_keys]
  show ?thesis
    using look [of "''previousHash''"] look [of "''blockIndex''"] look [of "''kind''"] look [of "''missionId''"]
      look [of "''actorId''"] look [of "''payload''"]
    by (simp add: sealed_obj_def base_obj_def jint_def)
qed

definition same_record :: "ledger_event \<Rightarrow> ledger_event \<Rightarrow> bool" where
  "same_record a b \<longleftrightarrow> stable (JObj (sealed_obj a)) = stable (JObj (sealed_obj b))"

lemma linked_heads_equal:
  assumes "linked L 0 genesis es" "linked L 0 genesis es'" "head_of es = head_of es'"
    "hash_free_of_collisions (sha L) S"
    "\<And>e. e \<in> set es \<union> set es' \<Longrightarrow> JObj (sealed_obj e) \<in> S \<and> le_cumulativeHash e \<noteq> genesis"
  shows "list_all2 same_record es es'"
  using assms
proof (induction es arbitrary: es' rule: rev_induct)
  case Nil
  have "es' = []"
  proof (rule ccontr)
    assume "es' \<noteq> []"
    then have "le_cumulativeHash (last es') \<noteq> genesis" using Nil.prems(5) [of "last es'"] by simp
    with Nil.prems(3) \<open>es' \<noteq> []\<close> show False by (simp add: head_of_def)
  qed
  then show ?case by simp
next
  case (snoc e es)
  have ne: "le_cumulativeHash e \<noteq> genesis" using snoc.prems(5) [of e] by simp
  with snoc.prems(3) have "es' \<noteq> []" by (auto simp: head_of_def)
  then obtain es1 e1 where es': "es' = es1 @ [e1]" by (metis rev_exhaust)
  have heads: "le_cumulativeHash e = le_cumulativeHash e1" using snoc.prems(3) by (simp add: head_of_def es')
  have s: "sealed L e" "sealed L e1" using snoc.prems(1,2) by (simp_all add: es' linked_snoc)
  have "hash_object (sha L) (JObj (sealed_obj e)) = hash_object (sha L) (JObj (sealed_obj e1))"
    using s heads by (simp add: sealed_def)
  moreover have "JObj (sealed_obj e) \<in> S" "JObj (sealed_obj e1) \<in> S" using snoc.prems(5) [of e] snoc.prems(5) [of e1] es' by simp_all
  ultimately have same: "stable (JObj (sealed_obj e)) = stable (JObj (sealed_obj e1))"
    using snoc.prems(4) unfolding hash_free_of_collisions_def by blast
  have "head_of es = head_of es1"
    using sealed_obj_stable [OF same] snoc.prems(1,2) by (auto simp: head_of_def es' linked_snoc split: if_splits)
  moreover have "linked L 0 genesis es" "linked L 0 genesis es1" using snoc.prems(1,2) by (simp_all add: es' linked_snoc)
  ultimately have "list_all2 same_record es es1"
    by (intro snoc.IH) (use snoc.prems(4,5) es' in auto)
  moreover have "same_record e e1" using same by (simp only: same_record_def)
  ultimately show ?case by (simp add: es' list_all2_appendI)
qed

text \<open>
  C35. The head hash commits to the whole history: two ledgers that verify and report the same
  last hash hold, position by position, the same records, as long as the hash does not collide on
  the records involved and never yields the genesis marker. So no past event can be altered,
  dropped or inserted without changing the head.
\<close>

theorem head_hash_pins_history:
  assumes "fst (verify_ledger L lg)" "fst (verify_ledger L lg')" "lastHash lg = lastHash lg'"
    "hash_free_of_collisions (sha L) S"
    "\<And>e. e \<in> set (all_events lg) \<union> set (all_events lg') \<Longrightarrow>
      JObj (sealed_obj e) \<in> S \<and> le_cumulativeHash e \<noteq> genesis"
  shows "length (all_events lg) = length (all_events lg') \<and>
    (\<forall>i < length (all_events lg). same_record (all_events lg ! i) (all_events lg' ! i))"
proof -
  have "list_all2 same_record (lg_entries lg) (lg_entries lg')"
    using assms linked_heads_equal [of L "lg_entries lg" "lg_entries lg'" S]
    by (simp add: verify_ledger_def verify_from_linked lastHash_def head_of_def all_events_def)
  then show ?thesis by (simp add: list_all2_conv_all_nth all_events_def)
qed

definition toy_entry :: "ident \<Rightarrow> string \<Rightarrow> ledger_entry" where
  "toy_entry m kind = \<lparr> en_missionId = m, en_kind = kind, en_actorId = ''n'', en_payload = plain_payload [] \<rparr>"

theorem head_hash_pins_history_witness:
  "length (all_events (ledger_run toy_lib [(demo_env 1, toy_entry ''m'' ''k'')])) =
   length (all_events (ledger_run toy_lib [(demo_env 1, toy_entry ''m'' ''k'')]))"
proof -
  let ?lg = "ledger_run toy_lib [(demo_env 1, toy_entry ''m'' ''k'')]"
  have "fst (verify_ledger toy_lib ?lg)" by (rule verify_ledger_wf [OF ledger_run_wf])
  moreover obtain e where es: "all_events ?lg = [e]"
    by (simp add: ledger_run_def append_event_entries new_ledger_def all_events_def)
  moreover have "le_cumulativeHash e \<noteq> genesis"
    using es by (auto simp: ledger_run_def append_event_def Let_def all_events_def new_ledger_def hash_object_def
        toy_lib_def genesis_def)
  ultimately show ?thesis
    using head_hash_pins_history [of toy_lib ?lg ?lg "{JObj (sealed_obj e)}"]
    by (simp add: hash_free_of_collisions_def)
qed

subsection \<open>The slice that a replay reads\<close>

lemma find_hash_first:
  assumes "\<And>x. x \<in> set xs \<Longrightarrow> le_cumulativeHash x \<noteq> h" "le_cumulativeHash e = h"
  shows "find_hash h (xs @ e # ys) = Some (length xs)"
  using assms by (induction xs) auto

lemma find_hash_absent: "(\<And>x. x \<in> set xs \<Longrightarrow> le_cumulativeHash x \<noteq> h) \<Longrightarrow> find_hash h xs = None"
  by (induction xs) auto

text \<open>
  When the sealed hash is that of one of the mission's own events, the replay reads exactly
  the events of the mission that were appended after it.
\<close>

theorem replay_slice_exact:
  assumes "wf_ledger L lg" "all_events lg = before @ e # later" "le_missionId e = m"
    "le_cumulativeHash e = h" "h \<noteq> []" "h \<noteq> genesis"
    "\<And>x. x \<in> set before \<Longrightarrow> le_cumulativeHash x \<noteq> h"
  shows "missionEventsAfter m (Some h) lg = filter (\<lambda>x. le_missionId x = m) later"
proof -
  have "byMissionId m lg = filter (\<lambda>x. le_missionId x = m) before @ e # filter (\<lambda>x. le_missionId x = m) later"
    using assms(1-3) by (simp add: wf_ledger_def all_events_def)
  moreover from this have "find_hash h (byMissionId m lg) = Some (length (filter (\<lambda>x. le_missionId x = m) before))"
    using find_hash_first [of "filter (\<lambda>x. le_missionId x = m) before" h e] assms(4,7) by simp
  ultimately show ?thesis using assms(5,6) by (simp add: missionEventsAfter_def Let_def)
qed

text \<open>A hash for examples: the kind of the hashed event.\<close>

definition kind_hash :: hasher where
  "kind_hash v = (case v of JObj kvs \<Rightarrow> (case map_of kvs ''kind'' of Some (JStr k) \<Rightarrow> k | _ \<Rightarrow> []) | _ \<Rightarrow> [])"

definition kind_lib :: js_lib where
  "kind_lib = toy_lib\<lparr>sha := kind_hash\<rparr>"

lemma kind_hash_append: "le_cumulativeHash (fst (append_event kind_lib env en lg)) = en_kind en"
proof -
  have "hash_object kind_hash (JObj (sealed_obj e)) = le_kind e" for e
  proof -
    have "distinct (map fst (map (map_prod id stable) (sealed_obj e)))" using sealed_obj_keys [of e] by simp
    from map_of_sort_key [OF this] show ?thesis
      by (simp add: hash_object_def kind_hash_def sealed_obj_def base_obj_def)
  qed
  then show ?thesis by (simp add: append_event_def Let_def kind_lib_def)
qed

definition two_mission_ledger :: event_ledger where
  "two_mission_ledger = ledger_run kind_lib [(demo_env 1, toy_entry ''m'' ''a''), (demo_env 2, toy_entry ''m'' ''b''),
     (demo_env 3, toy_entry ''other'' ''c'')]"

lemma two_mission_events:
  obtains ea eb ec where "all_events two_mission_ledger = [ea, eb, ec]"
    "le_missionId ea = ''m''" "le_missionId eb = ''m''" "le_missionId ec = ''other''"
    "le_cumulativeHash ea = ''a''" "le_cumulativeHash eb = ''b''" "le_cumulativeHash ec = ''c''"
  by (rule that; simp add: two_mission_ledger_def ledger_run_def append_event_entries new_ledger_def all_events_def)
    (simp_all add: append_event_entries kind_hash_append toy_entry_def)

theorem replay_slice_exact_witness:
  "length (missionEventsAfter ''m'' (Some ''a'') two_mission_ledger) = 1"
proof -
  obtain ea eb ec where es: "all_events two_mission_ledger = [ea, eb, ec]"
    "le_missionId ea = ''m''" "le_missionId eb = ''m''" "le_missionId ec = ''other''" "le_cumulativeHash ea = ''a''"
    using two_mission_events by metis
  have "wf_ledger kind_lib two_mission_ledger" unfolding two_mission_ledger_def by (rule ledger_run_wf)
  from replay_slice_exact [OF this, of "[]" ea "[eb, ec]" "''m''" "''a''"] es show ?thesis
    by (simp add: genesis_def)
qed

text \<open>
  When the ledger head sealed in a checkpoint is an event of another mission, the replay of
  this mission does not start after it: it reads the whole history of the mission again, although
  every one of these events precedes the head.
\<close>

theorem foreign_head_replays_all:
  assumes "wf_ledger L lg" "all_events lg \<noteq> []" "le_missionId (last (all_events lg)) \<noteq> m"
    "\<And>e. e \<in> set (byMissionId m lg) \<Longrightarrow> le_cumulativeHash e \<noteq> lastHash lg"
  shows "missionEventsAfter m (Some (lastHash lg)) lg = filter (\<lambda>e. le_missionId e = m) (butlast (all_events lg))"
proof -
  have "byMissionId m lg = filter (\<lambda>e. le_missionId e = m) (butlast (all_events lg) @ [last (all_events lg)])"
    using assms(1,2) by (simp add: wf_ledger_def all_events_def)
  then have "byMissionId m lg = filter (\<lambda>e. le_missionId e = m) (butlast (all_events lg))"
    using assms(3) by (simp only: filter_append) simp
  moreover have "find_hash (lastHash lg) (byMissionId m lg) = None" using assms(4) by (rule find_hash_absent)
  ultimately show ?thesis by (simp add: missionEventsAfter_def Let_def)
qed

theorem foreign_head_replays_all_witness:
  "length (missionEventsAfter ''m'' (Some (lastHash two_mission_ledger)) two_mission_ledger) = 2"
proof -
  obtain ea eb ec where es: "all_events two_mission_ledger = [ea, eb, ec]"
    "le_missionId ea = ''m''" "le_missionId eb = ''m''" "le_missionId ec = ''other''"
    "le_cumulativeHash ea = ''a''" "le_cumulativeHash eb = ''b''" "le_cumulativeHash ec = ''c''"
    using two_mission_events by metis
  have wf: "wf_ledger kind_lib two_mission_ledger" unfolding two_mission_ledger_def by (rule ledger_run_wf)
  have bm: "byMissionId ''m'' two_mission_ledger = [ea, eb]" "lastHash two_mission_ledger = ''c''"
    using wf es by (simp_all add: wf_ledger_def all_events_def lastHash_def)
  have "le_cumulativeHash e \<noteq> lastHash two_mission_ledger" if "e \<in> set (byMissionId ''m'' two_mission_ledger)" for e
    using that es by (auto simp: bm)
  from foreign_head_replays_all [OF wf _ _ this] es show ?thesis by simp
qed

end
