(* ===== verification/Recovery.thy ===== *)
theory Recovery
  imports EventLedger
begin

section \<open>Recovery checkpoints\<close>

text \<open>
  Models the recovery half of \<open>src/src/backend/shared/tashi-task-bidding-recovery.ts\<close>:
  \<open>RecoveryCheckpoint\<close>, the \<open>InMemoryCheckpointStore\<close>, the \<open>RecoveryCheckpointManager\<close>,
  \<open>applyCheckpointBaseline\<close> and the \<open>MissionRecoveryPlanner\<close>. The mission that a replay acts on is
  the record \<open>mission_view\<close>; the optional functions of its interface (\<open>setPhase\<close>, \<open>registerNode\<close>,
  \<open>upsertTarget\<close>) are supplied by the caller and are the parameter \<open>mission_fns\<close>. The map of the
  interface is the shared map of \<open>SharedMap\<close>. \<open>metadata.tasks\<close> is the separate field \<open>mn_tasks\<close>.
  A payload whose \<open>to\<close> names no phase is outside the model. The contract of a checkpoint store is
  a locale; the in-memory store is its instance.
\<close>

subsection \<open>Data\<close>

record node_summary =
  ns_role :: node_role
  ns_batteryPct :: real
  ns_linkQuality :: real
  ns_trustScore :: real
  ns_reputationScore :: real
  ns_lastSeenMs :: "timestamp option"

record recovery_checkpoint =
  rc_checkpointId :: ident
  rc_missionId :: ident
  rc_phase :: mission_phase
  rc_phaseVersion :: version
  rc_consensusSequence :: int
  rc_mapVersion :: version
  rc_mapHash :: string
  rc_activeNodeIds :: "ident list"
  rc_targetRegistry :: "(ident, target_record) jsmap"
  rc_nodeSummary :: "(ident, node_summary) jsmap"
  rc_lastLedgerHash :: string
  rc_previousCheckpointHash :: string
  rc_createdAtMs :: timestamp
  rc_createdBy :: ident
  rc_reason :: string
  rc_metadata :: obj
  rc_proofHash :: string

record checkpoint_verification =
  cv_ok :: bool
  cv_reason :: string
  cv_missingFields :: "string list"
  cv_staleNodes :: "ident list"
  cv_versionMismatch :: bool
  cv_ledgerMismatch :: bool
  cv_integrityOk :: bool

record sync_hint =
  sh_peerId :: ident
  sh_needsMap :: bool
  sh_needsTasks :: bool
  sh_reason :: string

record recovery_plan =
  rp_missionId :: ident
  rp_restoreCheckpoint :: "recovery_checkpoint option"
  rp_replayEvents :: "ledger_event list"
  rp_syncNeededFromPeers :: "ident list"
  rp_trustRevalidationNeeded :: "ident list"
  rp_mapSyncNeeded :: bool
  rp_taskSyncNeeded :: bool
  rp_recommendations :: "string list"

record mission_view =
  mn_phase :: mission_phase
  mn_phaseVersion :: version
  mn_nodes :: "(ident, node_profile) jsmap"
  mn_targets :: "(ident, target_record) jsmap"
  mn_objectives :: mission_objectives
  mn_metadata :: obj
  mn_tasks :: "(ident, task_work_item) jsmap"

record mission_fns =
  fn_setPhase :: "(mission_phase \<Rightarrow> mission_view \<Rightarrow> mission_view) option"
  fn_registerNode :: "(node_profile \<Rightarrow> mission_view \<Rightarrow> mission_view) option"
  fn_upsertTarget :: "(target_record \<Rightarrow> mission_view \<Rightarrow> mission_view) option"

record checkpoint_store =
  cs_checkpoints :: "(ident, recovery_checkpoint) jsmap"
  cs_byMission :: "(ident, ident list) jsmap"

record recovery_context =
  rx_missionId :: ident
  rx_ledger :: event_ledger
  rx_store :: checkpoint_store
  rx_map :: shared_map
  rx_mission :: mission_view

definition summary_json :: "node_summary \<Rightarrow> json" where
  "summary_json s = JObj
     [(''role'', JStr (role_str (ns_role s))), (''batteryPct'', JNum (ns_batteryPct s)),
      (''linkQuality'', JNum (ns_linkQuality s)), (''trustScore'', JNum (ns_trustScore s)),
      (''reputationScore'', JNum (ns_reputationScore s)), (''lastSeenMs'', opt_int (ns_lastSeenMs s))]"

text \<open>The object \<open>body\<close>: every field but \<open>proofHash\<close>.\<close>

definition checkpoint_body :: "recovery_checkpoint \<Rightarrow> obj" where
  "checkpoint_body c =
     [(''checkpointId'', JStr (rc_checkpointId c)), (''missionId'', JStr (rc_missionId c)),
      (''phase'', JStr (phase_str (rc_phase c))), (''phaseVersion'', jint (rc_phaseVersion c)),
      (''consensusSequence'', jint (rc_consensusSequence c)), (''mapVersion'', jint (rc_mapVersion c)),
      (''mapHash'', JStr (rc_mapHash c)), (''activeNodeIds'', jstrs (rc_activeNodeIds c)),
      (''targetRegistry'', JObj (map (\<lambda>(k, t). (k, target_json t)) (rc_targetRegistry c))),
      (''nodeSummary'', JObj (map (\<lambda>(k, s). (k, summary_json s)) (rc_nodeSummary c))),
      (''lastLedgerHash'', JStr (rc_lastLedgerHash c)),
      (''previousCheckpointHash'', JStr (rc_previousCheckpointHash c)),
      (''createdAtMs'', jint (rc_createdAtMs c)), (''createdBy'', JStr (rc_createdBy c)),
      (''reason'', JStr (rc_reason c)), (''metadata'', JObj (rc_metadata c))]"

subsection \<open>The in-memory store\<close>

definition new_store :: checkpoint_store where
  "new_store = \<lparr> cs_checkpoints = [], cs_byMission = [] \<rparr>"

definition save_checkpoint :: "recovery_checkpoint \<Rightarrow> checkpoint_store \<Rightarrow> checkpoint_store" where
  "save_checkpoint c st =
     \<lparr> cs_checkpoints = js_put (rc_checkpointId c) c (cs_checkpoints st),
       cs_byMission = js_put (rc_missionId c)
         (default_to (js_get (cs_byMission st) (rc_missionId c)) [] @ [rc_checkpointId c]) (cs_byMission st) \<rparr>"

definition list_checkpoints :: "ident option \<Rightarrow> checkpoint_store \<Rightarrow> recovery_checkpoint list" where
  "list_checkpoints missionId st =
     (case missionId of
        None \<Rightarrow> js_sort (by_asc rc_createdAtMs) (js_values (cs_checkpoints st))
      | Some m \<Rightarrow>
          if m = [] then js_sort (by_asc rc_createdAtMs) (js_values (cs_checkpoints st))
          else js_sort (by_asc rc_createdAtMs)
            (List.map_filter (js_get (cs_checkpoints st)) (default_to (js_get (cs_byMission st) m) [])))"

definition latest_checkpoint :: "ident \<Rightarrow> checkpoint_store \<Rightarrow> recovery_checkpoint option" where
  "latest_checkpoint missionId st =
     (case list_checkpoints (Some missionId) st of
        [] \<Rightarrow> None
      | c # cs \<Rightarrow> Some (foldl (\<lambda>a b. if rc_createdAtMs a \<ge> rc_createdAtMs b then a else b) c cs))"

subsection \<open>The checkpoint manager\<close>

record checkpoint_args =
  ca_missionId :: ident
  ca_phase :: mission_phase
  ca_phaseVersion :: version
  ca_consensusSequence :: int
  ca_map :: map_snapshot
  ca_nodes :: "node_profile list"
  ca_targets :: "target_record list"
  ca_lastLedgerHash :: string
  ca_previousCheckpointHash :: "string option"
  ca_createdBy :: ident
  ca_reason :: string
  ca_metadata :: "obj option"

definition summary_of :: "node_profile \<Rightarrow> node_summary" where
  "summary_of node = \<lparr> ns_role = pr_role node, ns_batteryPct = hs_batteryPct (pr_health node),
     ns_linkQuality = hs_linkQuality (pr_health node), ns_trustScore = pr_trustScore node,
     ns_reputationScore = pr_reputationScore node, ns_lastSeenMs = Some (pr_lastSeenMs node) \<rparr>"

definition createCheckpoint :: "js_lib \<Rightarrow> js_env \<Rightarrow> checkpoint_args \<Rightarrow> checkpoint_store \<Rightarrow>
    recovery_checkpoint \<times> checkpoint_store" where
  "createCheckpoint L env args st =
     (let nodeSummary = foldl (\<lambda>acc node. js_put (pr_nodeId node) (summary_of node) acc) [] (ca_nodes args);
          targetRegistry = foldl (\<lambda>acc t. js_put (tg_targetId t) t acc) [] (ca_targets args);
          body = \<lparr> rc_checkpointId = new_id env 0 ''cp'', rc_missionId = ca_missionId args, rc_phase = ca_phase args,
            rc_phaseVersion = ca_phaseVersion args, rc_consensusSequence = ca_consensusSequence args,
            rc_mapVersion = sn_version (ca_map args),
            rc_mapHash = hash_object (sha L) (snapshot_json (ca_map args)),
            rc_activeNodeIds = sort (map pr_nodeId (filter (\<lambda>n. hs_linkQuality (pr_health n) > 1 / 10
              \<and> hs_batteryPct (pr_health n) > 0) (ca_nodes args))),
            rc_targetRegistry = targetRegistry, rc_nodeSummary = nodeSummary,
            rc_lastLedgerHash = ca_lastLedgerHash args,
            rc_previousCheckpointHash = default_to (ca_previousCheckpointHash args) genesis,
            rc_createdAtMs = now_ms env, rc_createdBy = ca_createdBy args, rc_reason = ca_reason args,
            rc_metadata = default_to (ca_metadata args) [], rc_proofHash = [] \<rparr>;
          checkpoint = body\<lparr>rc_proofHash := hash_object (sha L) (JObj (checkpoint_body body))\<rparr>
      in (checkpoint, save_checkpoint checkpoint st))"

definition verifyIntegrity :: "js_lib \<Rightarrow> recovery_checkpoint \<Rightarrow> bool" where
  "verifyIntegrity L c \<longleftrightarrow> hash_object (sha L) (JObj (checkpoint_body c)) = rc_proofHash c"

definition summary_stale :: "timestamp \<Rightarrow> int \<Rightarrow> node_summary \<Rightarrow> bool" where
  "summary_stale now staleThresholdMs s \<longleftrightarrow>
     ns_batteryPct s \<le> 0 \<or> ns_linkQuality s \<le> 0
     \<or> (case ns_lastSeenMs s of None \<Rightarrow> False | Some t \<Rightarrow> now - t > staleThresholdMs)"

definition verifyCheckpoint :: "js_lib \<Rightarrow> js_env \<Rightarrow> recovery_checkpoint \<Rightarrow> string \<Rightarrow> version \<Rightarrow> int \<Rightarrow>
    checkpoint_verification" where
  "verifyCheckpoint L env c currentLedgerHash currentMapVersion staleThresholdMs =
     (let missingFields =
            (if rc_checkpointId c = [] then [''checkpointId''] else [])
            @ (if rc_missionId c = [] then [''missionId''] else [])
            @ (if rc_lastLedgerHash c = [] then [''lastLedgerHash''] else [])
            @ (if rc_mapHash c = [] then [''mapHash''] else []);
          integrityOk = verifyIntegrity L c;
          staleNodes = map fst (filter (\<lambda>ks. summary_stale (now_ms env) staleThresholdMs (snd ks)) (rc_nodeSummary c));
          ledgerMismatch = (rc_lastLedgerHash c \<noteq> currentLedgerHash);
          versionMismatch = (rc_mapVersion c \<noteq> currentMapVersion);
          ok = (missingFields = [] \<and> integrityOk \<and> \<not> ledgerMismatch \<and> \<not> versionMismatch)
      in \<lparr> cv_ok = ok, cv_reason = (if ok then ''ok'' else ''checkpoint_verification_failed''),
           cv_missingFields = missingFields, cv_staleNodes = staleNodes,
           cv_versionMismatch = versionMismatch, cv_ledgerMismatch = ledgerMismatch, cv_integrityOk = integrityOk \<rparr>)"

subsection \<open>Restoring\<close>

definition set_phase :: "mission_fns \<Rightarrow> mission_phase \<Rightarrow> mission_view \<Rightarrow> mission_view" where
  "set_phase F p mn = (case fn_setPhase F of None \<Rightarrow> mn | Some f \<Rightarrow> f p mn)"

definition restore_node :: "recovery_checkpoint \<Rightarrow> ident \<Rightarrow> mission_view \<Rightarrow> mission_view" where
  "restore_node c i mn =
     (case (js_get (mn_nodes mn) i, js_get (rc_nodeSummary c) i) of
        (Some cur, Some sm) \<Rightarrow>
          mn\<lparr>mn_nodes := js_put i
            (cur\<lparr> pr_role := ns_role sm, pr_trustScore := ns_trustScore sm,
                  pr_reputationScore := ns_reputationScore sm,
                  pr_health := (pr_health cur)\<lparr> hs_batteryPct := ns_batteryPct sm, hs_linkQuality := ns_linkQuality sm,
                    hs_timestampMs := default_to (ns_lastSeenMs sm) (hs_timestampMs (pr_health cur)) \<rparr>,
                  pr_lastSeenMs := default_to (ns_lastSeenMs sm) (pr_lastSeenMs cur) \<rparr>) (mn_nodes mn)\<rparr>
      | _ \<Rightarrow> mn)"

definition applyCheckpointBaseline :: "mission_fns \<Rightarrow> recovery_checkpoint \<Rightarrow> mission_view \<Rightarrow> mission_view" where
  "applyCheckpointBaseline F c mn =
     (let mn1 = mn\<lparr>mn_targets := rc_targetRegistry c\<rparr>;
          mn2 = (case fn_setPhase F of
                   Some f \<Rightarrow> (f (rc_phase c) mn1)\<lparr>mn_phaseVersion := rc_phaseVersion c\<rparr>
                 | None \<Rightarrow> mn1\<lparr> mn_phase := rc_phase c, mn_phaseVersion := rc_phaseVersion c \<rparr>)
      in foldl (\<lambda>m i. restore_node c i m) mn2 (rc_activeNodeIds c))"

definition patch_profile :: "profile_patch \<Rightarrow> node_profile \<Rightarrow> node_profile" where
  "patch_profile p n =
     \<lparr> pr_nodeId = default_to (pp_nodeId p) (pr_nodeId n), pr_displayName = default_to (pp_displayName p) (pr_displayName n),
       pr_role = default_to (pp_role p) (pr_role n), pr_publicKey = default_to (pp_publicKey p) (pr_publicKey n),
       pr_capabilityProfile = default_to (pp_capabilityProfile p) (pr_capabilityProfile n),
       pr_health = default_to (pp_health p) (pr_health n), pr_trustScore = default_to (pp_trustScore p) (pr_trustScore n),
       pr_reputationScore = default_to (pp_reputationScore p) (pr_reputationScore n),
       pr_rewardPoints = default_to (pp_rewardPoints p) (pr_rewardPoints n),
       pr_contributionCount = default_to (pp_contributionCount p) (pr_contributionCount n),
       pr_successfulTasks = default_to (pp_successfulTasks p) (pr_successfulTasks n),
       pr_failedTasks = default_to (pp_failedTasks p) (pr_failedTasks n),
       pr_lastSeenMs = default_to (pp_lastSeenMs p) (pr_lastSeenMs n),
       pr_firstSeenMs = default_to (pp_firstSeenMs p) (pr_firstSeenMs n),
       pr_location = nullish (pp_location p) (pr_location n), pr_missionId = nullish (pp_missionId p) (pr_missionId n),
       pr_metadata = default_to (pp_metadata p) (pr_metadata n) \<rparr>"

text \<open>\<open>String(event.payload.k ?? "")\<close>\<close>

definition payload_str :: "js_lib \<Rightarrow> string \<Rightarrow> event_payload \<Rightarrow> string" where
  "payload_str L k p =
     (case js_get (ep_fields p) k of None \<Rightarrow> [] | Some JNull \<Rightarrow> [] | Some v \<Rightarrow> js_string (num_str L) v)"

definition phase_of_string :: "string \<Rightarrow> mission_phase option" where
  "phase_of_string s = List.find (\<lambda>p. phase_str p = s) MISSION_PHASES"

definition update_target :: "ident \<Rightarrow> (target_record \<Rightarrow> target_record) \<Rightarrow> mission_view \<Rightarrow> mission_view" where
  "update_target i f mn =
     (case js_get (mn_targets mn) i of
        None \<Rightarrow> mn | Some t \<Rightarrow> mn\<lparr>mn_targets := js_put i (f t) (mn_targets mn)\<rparr>)"

definition target_event :: "js_lib \<Rightarrow> ledger_event \<Rightarrow> (ident \<Rightarrow> target_record \<Rightarrow> target_record) \<Rightarrow> mission_view \<Rightarrow> mission_view" where
  "target_event L e f mn =
     (let targetId = payload_str L ''targetId'' (le_payload e); nodeId = payload_str L ''nodeId'' (le_payload e)
      in if targetId \<noteq> [] \<and> nodeId \<noteq> [] then update_target targetId (f nodeId) mn else mn)"

definition applyLedgerEvent :: "js_lib \<Rightarrow> js_env \<Rightarrow> mission_fns \<Rightarrow> ledger_event \<Rightarrow>
    mission_view \<times> shared_map \<Rightarrow> mission_view \<times> shared_map" where
  "applyLedgerEvent L env F e st =
     (let (mn, mp) = st; p = le_payload e; kind = le_kind e
      in if kind = ''node_register'' then
           (case (ep_node p, fn_registerNode F) of (Some node, Some f) \<Rightarrow> f node mn | _ \<Rightarrow> mn, mp)
         else if kind = ''node_update'' then
           (let nodeId = payload_str L ''nodeId'' p
            in (case (ep_patch p, js_get (mn_nodes mn) nodeId, fn_registerNode F) of
                  (Some patch, Some cur, Some f) \<Rightarrow>
                    if nodeId \<noteq> []
                    then f ((patch_profile patch cur)\<lparr>pr_metadata := obj_spread (obj_spread [] (pr_metadata cur)) [(''replayed'', JBool True)]\<rparr>) mn
                    else mn
                | _ \<Rightarrow> mn, mp))
         else if kind = ''target_upsert'' then
           (case (ep_target p, fn_upsertTarget F) of (Some t, Some f) \<Rightarrow> f t mn | _ \<Rightarrow> mn, mp)
         else if kind = ''target_confirm'' then
           (target_event L e (\<lambda>nodeId t. t\<lparr> tg_status := TsConfirmed,
              tg_confirmedBy := dedup (tg_confirmedBy t @ [nodeId]),
              tg_confirmedAtMs := nullish (tg_confirmedAtMs t) (Some (now_ms env)) \<rparr>) mn, mp)
         else if kind = ''target_assign'' then
           (target_event L e (\<lambda>nodeId t. t\<lparr> tg_status := TsAssigned, tg_assignedTo := Some nodeId,
              tg_assignedAtMs := Some (now_ms env) \<rparr>) mn, mp)
         else if kind = ''target_extract'' then
           (target_event L e (\<lambda>nodeId t. t\<lparr> tg_status := TsExtracted, tg_extractedBy := Some nodeId,
              tg_extractedAtMs := Some (now_ms env) \<rparr>) mn, mp)
         else if kind = ''phase_transition_commit'' then
           (case phase_of_string (payload_str L ''to'' p) of None \<Rightarrow> mn | Some to_ph \<Rightarrow> set_phase F to_ph mn, mp)
         else if kind = ''map_snapshot_merge'' then
           (mn, case ep_snapshot p of None \<Rightarrow> mp | Some snap \<Rightarrow> snd (mergeSnapshot snap mp))
         else (mn, mp))"

definition replay_events :: "js_lib \<Rightarrow> js_env \<Rightarrow> mission_fns \<Rightarrow> ledger_event list \<Rightarrow>
    mission_view \<times> shared_map \<Rightarrow> mission_view \<times> shared_map" where
  "replay_events L env F es st = foldl (\<lambda>st e. applyLedgerEvent L env F e st) st es"

definition sync_hint_for :: "recovery_context \<Rightarrow> recovery_checkpoint option \<Rightarrow> node_profile \<Rightarrow> sync_hint option" where
  "sync_hint_for ctx checkpoint node =
     (case checkpoint of
        None \<Rightarrow> None
      | Some c \<Rightarrow>
          (let needsMap = (rc_mapVersion c < getVersion (rx_map ctx) \<and> pr_nodeId node \<noteq> rc_createdBy c);
               needsTasks = (pr_nodeId node \<notin> set (rc_activeNodeIds c))
           in if needsMap \<or> needsTasks
              then Some \<lparr> sh_peerId = pr_nodeId node, sh_needsMap = needsMap, sh_needsTasks = needsTasks,
                     sh_reason = (if needsMap \<and> needsTasks then ''missing_map_and_task_state''
                       else if needsMap then ''missing_map_state'' else ''missing_task_state'') \<rparr>
              else None))"

definition computeSyncHints :: "recovery_context \<Rightarrow> recovery_checkpoint option \<Rightarrow> sync_hint list" where
  "computeSyncHints ctx checkpoint =
     List.map_filter (sync_hint_for ctx checkpoint) (js_values (mn_nodes (rx_mission ctx)))"

text \<open>The UTF-8 bytes of the horizontal ellipsis at the end of a recommendation.\<close>

definition ellipsis :: string where
  "ellipsis = map char_of [226, 128, 166 :: nat]"

definition buildRecommendations :: "recovery_context \<Rightarrow> recovery_checkpoint option \<Rightarrow> ledger_event list \<Rightarrow>
    sync_hint list \<Rightarrow> string list" where
  "buildRecommendations ctx checkpoint replayEvents syncHints =
     (let n = show_nat (length replayEvents)
      in (case checkpoint of
            None \<Rightarrow> [''No checkpoint found; bootstrap from full ledger replay.'']
          | Some c \<Rightarrow>
              [''Restore checkpoint '' @ rc_checkpointId c @ '' at phase '' @ phase_str (rc_phase c)
                 @ '' (seq '' @ show_int (rc_consensusSequence c) @ '').'',
               ''Replay '' @ n @ '' ledger events after sealed hash '' @ take 12 (rc_lastLedgerHash c) @ ellipsis])
         @ (if checkpoint = None \<and> length replayEvents > 0
            then [''Replay '' @ n @ '' ledger events to rebuild mission state.''] else [])
         @ (if list_ex sh_needsMap syncHints then [''Request map sync from peers with newer map versions.''] else [])
         @ (if list_ex sh_needsTasks syncHints
            then [''Request task/state sync from peers with newer assignment state.''] else [])
         @ (if ob_safetyCritical (mn_objectives (rx_mission ctx))
            then [''Revalidate trust and safety thresholds before resuming the mission.''] else []))"

definition buildPlan :: "recovery_context \<Rightarrow> recovery_plan" where
  "buildPlan ctx =
     (let restoreCheckpoint = latest_checkpoint (rx_missionId ctx) (rx_store ctx);
          replayEvents = missionEventsAfter (rx_missionId ctx) (map_option rc_lastLedgerHash restoreCheckpoint) (rx_ledger ctx);
          syncHints = computeSyncHints ctx restoreCheckpoint;
          needing = map sh_peerId (filter (\<lambda>h. sh_needsMap h \<or> sh_needsTasks h) syncHints)
      in \<lparr> rp_missionId = rx_missionId ctx, rp_restoreCheckpoint = restoreCheckpoint, rp_replayEvents = replayEvents,
           rp_syncNeededFromPeers = needing, rp_trustRevalidationNeeded = needing,
           rp_mapSyncNeeded = list_ex sh_needsMap syncHints, rp_taskSyncNeeded = list_ex sh_needsTasks syncHints,
           rp_recommendations = buildRecommendations ctx restoreCheckpoint replayEvents syncHints \<rparr>)"

record restore_result =
  rr_checkpoint :: "recovery_checkpoint option"
  rr_replayCount :: int
  rr_syncHints :: "sync_hint list"

definition restore_mission :: "js_lib \<Rightarrow> js_env \<Rightarrow> mission_fns \<Rightarrow> recovery_context \<Rightarrow> restore_result \<times> recovery_context" where
  "restore_mission L env F ctx =
     (let checkpoint = latest_checkpoint (rx_missionId ctx) (rx_store ctx);
          mn1 = (case checkpoint of None \<Rightarrow> rx_mission ctx | Some c \<Rightarrow> applyCheckpointBaseline F c (rx_mission ctx));
          replayEvents = missionEventsAfter (rx_missionId ctx) (map_option rc_lastLedgerHash checkpoint) (rx_ledger ctx);
          (mn2, mp2) = replay_events L env F replayEvents (mn1, rx_map ctx);
          ctx2 = ctx\<lparr> rx_mission := mn2, rx_map := mp2 \<rparr>
      in (\<lparr> rr_checkpoint = checkpoint, rr_replayCount = int (length replayEvents),
            rr_syncHints = computeSyncHints ctx2 checkpoint \<rparr>, ctx2))"

definition plannerCheckpoint :: "js_lib \<Rightarrow> js_env \<Rightarrow> string \<Rightarrow> ident \<Rightarrow> int \<Rightarrow> recovery_context \<Rightarrow>
    recovery_checkpoint \<times> recovery_context" where
  "plannerCheckpoint L env reason createdBy consensusSequence ctx =
     (let mapSnapshot = snapshot (now_ms env) (rx_map ctx);
          prev = latest_checkpoint (rx_missionId ctx) (rx_store ctx);
          args = \<lparr> ca_missionId = rx_missionId ctx, ca_phase = mn_phase (rx_mission ctx),
            ca_phaseVersion = mn_phaseVersion (rx_mission ctx), ca_consensusSequence = consensusSequence,
            ca_map = mapSnapshot, ca_nodes = js_values (mn_nodes (rx_mission ctx)),
            ca_targets = js_values (mn_targets (rx_mission ctx)), ca_lastLedgerHash = lastHash (rx_ledger ctx),
            ca_previousCheckpointHash = Some (default_to (map_option rc_proofHash prev) genesis),
            ca_createdBy = createdBy, ca_reason = reason,
            ca_metadata = Some [(''dirtyMap'', jint (dirtyCount (rx_map ctx))),
              (''objectiveCoverage'', JNum (sn_coveragePct mapSnapshot))] \<rparr>;
          (c, st) = createCheckpoint L env args (rx_store ctx)
      in (c, ctx\<lparr>rx_store := st\<rparr>))"

definition validateCheckpoint :: "js_lib \<Rightarrow> js_env \<Rightarrow> recovery_checkpoint \<Rightarrow> string option \<Rightarrow> recovery_context \<Rightarrow>
    checkpoint_verification" where
  "validateCheckpoint L env c ledgerHead ctx =
     verifyCheckpoint L env c (default_to ledgerHead (lastHash (rx_ledger ctx))) (getVersion (rx_map ctx)) 15000"

subsection \<open>The newest checkpoint\<close>

definition newest :: "('a \<Rightarrow> int) \<Rightarrow> 'a list \<Rightarrow> 'a option" where
  "newest f xs = (case xs of [] \<Rightarrow> None | c # cs \<Rightarrow> Some (foldl (\<lambda>a b. if f a \<ge> f b then a else b) c cs))"

lemma newest_Nil [simp]: "newest f [] = None"
  by (simp add: newest_def)

lemma newest_snoc:
  "newest f (xs @ [c]) = (case newest f xs of None \<Rightarrow> Some c | Some d \<Rightarrow> if f d < f c then Some c else Some d)"
  by (cases xs) (auto simp: newest_def)

lemma newest_split:
  "newest f xs = Some c \<Longrightarrow> \<exists>before after. xs = before @ c # after
    \<and> (\<forall>d\<in>set before. f d < f c) \<and> (\<forall>d\<in>set after. f d \<le> f c)"
proof (induction xs arbitrary: c rule: rev_induct)
  case (snoc x xs)
  show ?case
  proof (cases "newest f xs")
    case None
    then have "xs = []" by (cases xs) (simp_all add: newest_def)
    with snoc.prems show ?thesis by (intro exI [of _ "[]"]) (simp add: newest_def)
  next
    case (Some d)
    from snoc.IH [OF Some] obtain bef aft where d: "xs = bef @ d # aft" "\<forall>y\<in>set bef. f y < f d" "\<forall>y\<in>set aft. f y \<le> f d"
      by blast
    show ?thesis
    proof (cases "f d < f x")
      case True
      then have "\<forall>y\<in>set xs. f y < f x" using d by auto
      with True snoc.prems Some show ?thesis
        by (intro exI [of _ xs] exI [of _ "[]"]) (auto simp: newest_snoc)
    next
      case False
      with snoc.prems Some have "c = d" by (simp add: newest_snoc)
      moreover have "xs @ [x] = bef @ d # (aft @ [x])" using d(1) by simp
      ultimately show ?thesis
        using False d(2,3) by (intro exI [of _ bef] exI [of _ "aft @ [x]"]) auto
    qed
  qed
qed simp

lemma newest_is_first_max: "newest f xs = Some c \<Longrightarrow> filter (\<lambda>x. f x = Max (f ` set xs)) xs \<noteq> [] \<and>
    c = hd (filter (\<lambda>x. f x = Max (f ` set xs)) xs)"
proof -
  assume "newest f xs = Some c"
  from newest_split [OF this] obtain bef aft where s: "xs = bef @ c # aft" "\<forall>d\<in>set bef. f d < f c" "\<forall>d\<in>set aft. f d \<le> f c"
    by blast
  then have m: "Max (f ` set xs) = f c" by (intro Max_eqI) (auto simp: less_imp_le)
  have "filter (\<lambda>x. f x = f c) bef = []" using s(2) by (auto simp: filter_empty_conv)
  then show ?thesis unfolding m using s(1) by simp
qed

lemma newest_sort: "newest f (js_sort (by_asc f) xs) = newest f xs"
proof (cases xs)
  case Nil
  then show ?thesis by (simp add: js_sort_def)
next
  case (Cons y ys)
  then obtain c where c: "newest f xs = Some c" by (auto simp: newest_def)
  have "js_sort (by_asc f) xs \<noteq> []" using Cons by simp
  then obtain c' where c': "newest f (js_sort (by_asc f) xs) = Some c'" by (cases "js_sort (by_asc f) xs") (auto simp: newest_def)
  let ?P = "\<lambda>x. f x = Max (f ` set xs)"
  have "filter ?P (js_sort (by_asc f) xs) = filter ?P xs"
    by (rule ascending.js_sort_stable) (simp add: by_asc_def)
  with newest_is_first_max [OF c] newest_is_first_max [OF c'] show ?thesis by (simp add: c c')
qed

subsection \<open>The contract of a checkpoint store\<close>

locale checkpoint_storage =
  fixes store_new :: 's
    and save :: "recovery_checkpoint \<Rightarrow> 's \<Rightarrow> 's"
    and latest :: "ident \<Rightarrow> 's \<Rightarrow> recovery_checkpoint option"
    and ids :: "'s \<Rightarrow> ident set"
    and invar :: "'s \<Rightarrow> bool"
  assumes invar_new: "invar store_new" and ids_new: "ids store_new = {}"
    and latest_new: "m \<noteq> [] \<Longrightarrow> latest m store_new = None"
    and invar_save: "invar s \<Longrightarrow> rc_checkpointId c \<notin> ids s \<Longrightarrow> invar (save c s)"
    and ids_save: "ids (save c s) = insert (rc_checkpointId c) (ids s)"
    and latest_save: "invar s \<Longrightarrow> rc_checkpointId c \<notin> ids s \<Longrightarrow> m \<noteq> [] \<Longrightarrow> latest m (save c s) =
      (if rc_missionId c \<noteq> m then latest m s
       else case latest m s of None \<Rightarrow> Some c | Some d \<Rightarrow> if rc_createdAtMs d < rc_createdAtMs c then Some c else Some d)"
begin

definition saved :: "recovery_checkpoint list \<Rightarrow> 's" where
  "saved cs = foldl (\<lambda>s c. save c s) store_new cs"

lemma saved_facts:
  assumes "distinct (map rc_checkpointId cs)"
  shows "invar (saved cs) \<and> ids (saved cs) = rc_checkpointId ` set cs \<and>
    (m \<noteq> [] \<longrightarrow> latest m (saved cs) = newest rc_createdAtMs (filter (\<lambda>c. rc_missionId c = m) cs))"
  using assms
proof (induction cs rule: rev_induct)
  case Nil
  then show ?case by (simp add: saved_def invar_new ids_new latest_new)
next
  case (snoc c cs)
  then have fresh: "rc_checkpointId c \<notin> ids (saved cs)" and inv: "invar (saved cs)" by auto
  have step: "saved (cs @ [c]) = save c (saved cs)" by (simp add: saved_def)
  have "m \<noteq> [] \<Longrightarrow> latest m (save c (saved cs)) = newest rc_createdAtMs (filter (\<lambda>c. rc_missionId c = m) (cs @ [c]))"
    using latest_save [OF inv fresh, of m] snoc by (auto simp: newest_snoc split: option.splits)
  with invar_save [OF inv fresh] snoc show ?case by (auto simp: step ids_save)
qed

lemma latest_saved_split:
  assumes "distinct (map rc_checkpointId cs)" "m \<noteq> []" "latest m (saved cs) = Some c"
  shows "\<exists>before after. filter (\<lambda>c. rc_missionId c = m) cs = before @ c # after
    \<and> (\<forall>d\<in>set before. rc_createdAtMs d < rc_createdAtMs c) \<and> (\<forall>d\<in>set after. rc_createdAtMs d \<le> rc_createdAtMs c)"
  by (rule newest_split) (use saved_facts [OF assms(1), of m] assms(2,3) in simp)

end

definition stored_for :: "ident \<Rightarrow> checkpoint_store \<Rightarrow> recovery_checkpoint list" where
  "stored_for m st = List.map_filter (js_get (cs_checkpoints st)) (default_to (js_get (cs_byMission st) m) [])"

definition store_ids :: "checkpoint_store \<Rightarrow> ident set" where
  "store_ids st = dom (map_of (cs_checkpoints st))"

definition wf_store :: "checkpoint_store \<Rightarrow> bool" where
  "wf_store st \<longleftrightarrow> (\<forall>m l i. js_get (cs_byMission st) m = Some l \<and> i \<in> set l \<longrightarrow> i \<in> store_ids st)"

lemma latest_checkpoint_newest:
  assumes "m \<noteq> []" shows "latest_checkpoint m st = newest rc_createdAtMs (stored_for m st)"
proof -
  have "list_checkpoints (Some m) st = js_sort (by_asc rc_createdAtMs) (stored_for m st)"
    using assms by (simp add: list_checkpoints_def stored_for_def)
  then have "latest_checkpoint m st = newest rc_createdAtMs (js_sort (by_asc rc_createdAtMs) (stored_for m st))"
    by (simp add: latest_checkpoint_def newest_def)
  then show ?thesis by (simp only: newest_sort)
qed

lemma map_filter_cong: "(\<And>x. x \<in> set xs \<Longrightarrow> f x = g x) \<Longrightarrow> List.map_filter f xs = List.map_filter g xs"
  by (induction xs) (auto split: option.splits)

lemma map_filter_append: "List.map_filter f (xs @ ys) = List.map_filter f xs @ List.map_filter f ys"
  by (induction xs) (auto split: option.splits)

lemma stored_for_save:
  assumes "wf_store st" "rc_checkpointId c \<notin> store_ids st"
  shows "stored_for m (save_checkpoint c st) = stored_for m st @ (if rc_missionId c = m then [c] else [])"
proof -
  have "List.map_filter ((map_of (cs_checkpoints st))(rc_checkpointId c \<mapsto> c)) (default_to (js_get (cs_byMission st) m) []) =
      List.map_filter (map_of (cs_checkpoints st)) (default_to (js_get (cs_byMission st) m) [])"
  proof (cases "js_get (cs_byMission st) m")
    case (Some l)
    with assms have "rc_checkpointId c \<notin> set l" by (auto simp: wf_store_def)
    with Some show ?thesis by (auto intro: map_filter_cong)
  qed simp
  then show ?thesis
    by (auto simp: stored_for_def save_checkpoint_def js_map_simps map_filter_append fun_upd_def)
qed

interpretation mem_store: checkpoint_storage new_store save_checkpoint latest_checkpoint store_ids wf_store
proof unfold_locales
  show "wf_store new_store" "store_ids new_store = {}" by (simp_all add: wf_store_def new_store_def store_ids_def)
  show "m \<noteq> [] \<Longrightarrow> latest_checkpoint m new_store = None" for m
    by (simp add: latest_checkpoint_newest stored_for_def new_store_def)
  show ids: "store_ids (save_checkpoint c s) = insert (rc_checkpointId c) (store_ids s)" for c s
    by (auto simp: store_ids_def save_checkpoint_def js_map_simps split: if_splits)
  show "wf_store (save_checkpoint c s)" if "wf_store s" "rc_checkpointId c \<notin> store_ids s" for s c
    using that unfolding wf_store_def ids
    by (cases "js_get (cs_byMission s) (rc_missionId c)") (auto simp: save_checkpoint_def js_map_simps split: if_splits)
  show "latest_checkpoint m (save_checkpoint c s) =
      (if rc_missionId c \<noteq> m then latest_checkpoint m s
       else case latest_checkpoint m s of None \<Rightarrow> Some c
         | Some d \<Rightarrow> if rc_createdAtMs d < rc_createdAtMs c then Some c else Some d)"
    if "wf_store s" "rc_checkpointId c \<notin> store_ids s" "m \<noteq> []" for s c m
    using that by (simp add: latest_checkpoint_newest stored_for_save newest_snoc)
qed

text \<open>
  The latest checkpoint of a mission is the first, in the order they were saved, of those
  with the greatest creation time: a checkpoint saved within the same millisecond as an earlier
  one is never the latest.
\<close>

theorem latest_checkpoint_is_newest:
  assumes "distinct (map rc_checkpointId cs)" "m \<noteq> []"
    "latest_checkpoint m (foldl (\<lambda>s c. save_checkpoint c s) new_store cs) = Some c"
  shows "\<exists>before after. filter (\<lambda>c. rc_missionId c = m) cs = before @ c # after
    \<and> (\<forall>d\<in>set before. rc_createdAtMs d < rc_createdAtMs c) \<and> (\<forall>d\<in>set after. rc_createdAtMs d \<le> rc_createdAtMs c)"
  by (rule mem_store.latest_saved_split [OF assms(1,2)]) (simp add: mem_store.saved_def assms(3))

definition toy_checkpoint :: "ident \<Rightarrow> timestamp \<Rightarrow> recovery_checkpoint" where
  "toy_checkpoint i t = \<lparr> rc_checkpointId = i, rc_missionId = ''m'', rc_phase = PSearch, rc_phaseVersion = 2,
     rc_consensusSequence = 0, rc_mapVersion = 0, rc_mapHash = ''h'', rc_activeNodeIds = [], rc_targetRegistry = [],
     rc_nodeSummary = [], rc_lastLedgerHash = ''l'', rc_previousCheckpointHash = genesis, rc_createdAtMs = t,
     rc_createdBy = ''n'', rc_reason = [], rc_metadata = [], rc_proofHash = [] \<rparr>"

theorem latest_checkpoint_is_newest_witness:
  "\<exists>before after. [toy_checkpoint ''a'' 5, toy_checkpoint ''b'' 5] = before @ toy_checkpoint ''a'' 5 # after"
proof -
  have "latest_checkpoint ''m'' (foldl (\<lambda>s c. save_checkpoint c s) new_store
      [toy_checkpoint ''a'' 5, toy_checkpoint ''b'' 5]) = Some (toy_checkpoint ''a'' 5)"
    by (simp add: latest_checkpoint_newest stored_for_def save_checkpoint_def new_store_def toy_checkpoint_def newest_def)
  from latest_checkpoint_is_newest [OF _ _ this] show ?thesis by (auto simp: toy_checkpoint_def)
qed

subsection \<open>Fresh checkpoints verify\<close>

lemma createCheckpoint_integrity: "verifyIntegrity L (fst (createCheckpoint L env args st))"
  by (simp add: createCheckpoint_def Let_def verifyIntegrity_def checkpoint_body_def)

lemma createCheckpoint_fields:
  "rc_missionId (fst (createCheckpoint L env args st)) = ca_missionId args"
  "rc_lastLedgerHash (fst (createCheckpoint L env args st)) = ca_lastLedgerHash args"
  "rc_mapVersion (fst (createCheckpoint L env args st)) = sn_version (ca_map args)"
  "rc_mapHash (fst (createCheckpoint L env args st)) = hash_object (sha L) (snapshot_json (ca_map args))"
  "rc_checkpointId (fst (createCheckpoint L env args st)) = new_id env 0 ''cp''"
  "snd (createCheckpoint L env args st) = save_checkpoint (fst (createCheckpoint L env args st)) st"
  by (simp_all add: createCheckpoint_def Let_def)

lemma verifyCheckpoint_fresh:
  assumes "ca_missionId args \<noteq> []" "ca_lastLedgerHash args \<noteq> []" "hash_object (sha L) (snapshot_json (ca_map args)) \<noteq> []"
  shows "cv_ok (verifyCheckpoint L env' (fst (createCheckpoint L env args st)) h v ttl) \<longleftrightarrow>
    h = ca_lastLedgerHash args \<and> v = sn_version (ca_map args)"
  using assms createCheckpoint_integrity [of L env args st]
  by (auto simp: verifyCheckpoint_def Let_def createCheckpoint_fields new_id_def)

text \<open>
  A checkpoint just created verifies exactly against the ledger head and the map version it
  was created from, at any time and threshold, provided the mission has a name and neither the
  head nor the hash of the map is the empty string.
\<close>

theorem fresh_checkpoint_verifies:
  assumes "ca_missionId args \<noteq> []" "ca_lastLedgerHash args \<noteq> []" "hash_object (sha L) (snapshot_json (ca_map args)) \<noteq> []"
  shows "cv_ok (verifyCheckpoint L env' (fst (createCheckpoint L env args st)) h v ttl) =
    (h = ca_lastLedgerHash args \<and> v = sn_version (ca_map args))"
  using verifyCheckpoint_fresh [OF assms] by simp

definition toy_args :: checkpoint_args where
  "toy_args = \<lparr> ca_missionId = ''m'', ca_phase = PSearch, ca_phaseVersion = 2, ca_consensusSequence = 0,
     ca_map = snapshot 1 (new_shared_map ''m''), ca_nodes = [toy_profile ''n''], ca_targets = [],
     ca_lastLedgerHash = genesis, ca_previousCheckpointHash = None, ca_createdBy = ''n'', ca_reason = [],
     ca_metadata = None \<rparr>"

theorem fresh_checkpoint_verifies_witness:
  "cv_ok (verifyCheckpoint toy_lib (demo_env 9) (fst (createCheckpoint toy_lib (demo_env 1) toy_args new_store)) genesis 0 15000)"
  using fresh_checkpoint_verifies [of toy_args toy_lib "demo_env 9" "demo_env 1" new_store genesis 0 15000]
  by (simp add: toy_args_def genesis_def toy_lib_def hash_object_def snapshot_def Let_def new_shared_map_def)

subsection \<open>Restoring what was sealed\<close>

definition keyed :: "('v \<Rightarrow> ident) \<Rightarrow> (ident, 'v) jsmap \<Rightarrow> bool" where
  "keyed f m \<longleftrightarrow> wf_map m \<and> (\<forall>k v. map_of m k = Some v \<longrightarrow> f v = k)"

lemma update_new: "k \<notin> fst ` set zs \<Longrightarrow> AList.update k v zs = zs @ [(k, v)]"
  by (induction zs) auto

lemma foldl_put_append:
  "distinct (map fst zs @ map f vs) \<Longrightarrow>
    foldl (\<lambda>acc v. AList.update (f v) (g v) acc) zs vs = zs @ map (\<lambda>v. (f v, g v)) vs"
  by (induction vs arbitrary: zs) (auto simp: update_new)

lemma foldl_put_keyed:
  assumes "keyed f m"
  shows "foldl (\<lambda>acc v. AList.update (f v) (g v) acc) [] (js_values m) = map (\<lambda>(k, v). (k, g v)) m"
proof -
  have k: "f v = k" if "(k, v) \<in> set m" for k v
    using assms that by (simp add: keyed_def wf_map_def)
  have "map f (js_values m) = map fst m" using k by (auto simp: js_values_def)
  moreover have "map (\<lambda>v. (f v, g v)) (js_values m) = map (\<lambda>(k, v). (k, g v)) m"
    using k by (auto simp: js_values_def)
  ultimately show ?thesis
    using assms foldl_put_append [of "[]" f "js_values m" g] by (simp add: keyed_def wf_map_def)
qed

definition restored :: "node_summary \<Rightarrow> node_profile \<Rightarrow> node_profile" where
  "restored sm cur = cur\<lparr> pr_role := ns_role sm, pr_trustScore := ns_trustScore sm,
     pr_reputationScore := ns_reputationScore sm,
     pr_health := (pr_health cur)\<lparr> hs_batteryPct := ns_batteryPct sm, hs_linkQuality := ns_linkQuality sm,
       hs_timestampMs := default_to (ns_lastSeenMs sm) (hs_timestampMs (pr_health cur)) \<rparr>,
     pr_lastSeenMs := default_to (ns_lastSeenMs sm) (pr_lastSeenMs cur) \<rparr>"

lemma restored_idem [simp]: "restored sm (restored sm cur) = restored sm cur"
  by (cases "ns_lastSeenMs sm") (simp_all add: restored_def)

lemma restore_node_lookup:
  "js_get (mn_nodes (restore_node c i mn)) j =
    (case js_get (mn_nodes mn) j of None \<Rightarrow> None
     | Some cur \<Rightarrow> Some (if j = i then (case js_get (rc_nodeSummary c) i of None \<Rightarrow> cur | Some sm \<Rightarrow> restored sm cur) else cur))"
  by (auto simp: restore_node_def restored_def js_map_simps split: option.splits)

lemma restore_node_frame:
  "mn_phase (restore_node c i mn) = mn_phase mn" "mn_phaseVersion (restore_node c i mn) = mn_phaseVersion mn"
  "mn_targets (restore_node c i mn) = mn_targets mn"
  by (simp_all add: restore_node_def split: option.splits)

lemma restore_nodes:
  "mn_phase (foldl (\<lambda>m i. restore_node c i m) mn is) = mn_phase mn"
  "mn_phaseVersion (foldl (\<lambda>m i. restore_node c i m) mn is) = mn_phaseVersion mn"
  "mn_targets (foldl (\<lambda>m i. restore_node c i m) mn is) = mn_targets mn"
  by (induction "is" arbitrary: mn) (simp_all add: restore_node_frame)

lemma restore_nodes_lookup:
  assumes "js_get (rc_nodeSummary c) j = Some sm" "j \<in> set is"
  shows "js_get (mn_nodes (foldl (\<lambda>m i. restore_node c i m) mn is)) j = map_option (restored sm) (js_get (mn_nodes mn) j)"
  using assms(2)
proof (induction "is" arbitrary: mn)
  case (Cons i "is")
  have rest: "js_get (mn_nodes (foldl (\<lambda>m i. restore_node c i m) mn' is)) j =
      (if j \<in> set is then map_option (restored sm) (js_get (mn_nodes mn') j) else js_get (mn_nodes mn') j)" for mn'
  proof (cases "j \<in> set is")
    case False
    then show ?thesis
      by (induction "is" arbitrary: mn') (auto simp: restore_node_lookup split: option.splits)
  qed (simp add: Cons.IH)
  show ?case
    using Cons.prems assms(1) by (auto simp: rest restore_node_lookup split: option.splits)
qed simp

definition active_profile :: "node_profile \<Rightarrow> bool" where
  "active_profile n \<longleftrightarrow> hs_linkQuality (pr_health n) > 1 / 10 \<and> hs_batteryPct (pr_health n) > 0"

lemma planner_fields:
  defines "c \<equiv> \<lambda>L env reason who sq ctx. fst (plannerCheckpoint L env reason who sq ctx)"
  shows "rc_phase (c L env reason who sq ctx) = mn_phase (rx_mission ctx)"
    "rc_phaseVersion (c L env reason who sq ctx) = mn_phaseVersion (rx_mission ctx)"
    "rc_lastLedgerHash (c L env reason who sq ctx) = lastHash (rx_ledger ctx)"
    "rc_targetRegistry (c L env reason who sq ctx) =
       foldl (\<lambda>acc t. js_put (tg_targetId t) t acc) [] (js_values (mn_targets (rx_mission ctx)))"
    "rc_nodeSummary (c L env reason who sq ctx) =
       foldl (\<lambda>acc n. js_put (pr_nodeId n) (summary_of n) acc) [] (js_values (mn_nodes (rx_mission ctx)))"
    "set (rc_activeNodeIds (c L env reason who sq ctx)) =
       pr_nodeId ` {n \<in> set (js_values (mn_nodes (rx_mission ctx))). active_profile n}"
  by (auto simp: c_def plannerCheckpoint_def createCheckpoint_def Let_def active_profile_def)

definition lawful_setPhase :: "mission_fns \<Rightarrow> bool" where
  "lawful_setPhase F \<longleftrightarrow> (\<forall>f p m. fn_setPhase F = Some f \<longrightarrow>
     mn_phase (f p m) = p \<and> mn_targets (f p m) = mn_targets m \<and> mn_nodes (f p m) = mn_nodes m)"

lemma baseline_fields:
  assumes "lawful_setPhase F"
  shows "mn_phase (applyCheckpointBaseline F c mn) = rc_phase c"
    "mn_phaseVersion (applyCheckpointBaseline F c mn) = rc_phaseVersion c"
    "mn_targets (applyCheckpointBaseline F c mn) = rc_targetRegistry c"
    "j \<in> set (rc_activeNodeIds c) \<Longrightarrow> js_get (rc_nodeSummary c) j = Some sm \<Longrightarrow>
      js_get (mn_nodes (applyCheckpointBaseline F c mn)) j = map_option (restored sm) (js_get (mn_nodes mn) j)"
  using assms
  by (auto simp: applyCheckpointBaseline_def Let_def restore_nodes restore_nodes_lookup lawful_setPhase_def
      split: option.split)


definition toy_mission :: mission_view where
  "toy_mission = \<lparr> mn_phase = PTriage, mn_phaseVersion = 4, mn_nodes = [(''n'', toy_profile ''n'')],
     mn_targets = [(''t'', toy_target ''t'' TsConfirmed)], mn_objectives = full_objectives demo_objectives,
     mn_metadata = [], mn_tasks = [] \<rparr>"

definition toy_context :: recovery_context where
  "toy_context = \<lparr> rx_missionId = ''m'', rx_ledger = new_ledger, rx_store = new_store,
     rx_map = new_shared_map ''m'', rx_mission = toy_mission \<rparr>"

text \<open>The \<open>setPhase\<close> of the demo, which also counts a version.\<close>

definition counting_fns :: mission_fns where
  "counting_fns = \<lparr> fn_setPhase = Some (\<lambda>p m. m\<lparr> mn_phase := p, mn_phaseVersion := mn_phaseVersion m + 1 \<rparr>),
     fn_registerNode = Some (\<lambda>n m. m\<lparr>mn_nodes := js_put (pr_nodeId n) n (mn_nodes m)\<rparr>),
     fn_upsertTarget = Some (\<lambda>t m. m\<lparr>mn_targets := js_put (tg_targetId t) t (mn_targets m)\<rparr>) \<rparr>"


end
