(* ===== verification/Coordinator.thy ===== *)
theory Coordinator
  imports Recovery
begin

section \<open>Assignment commit and the mission coordinator\<close>

text \<open>
  Models the \<open>TaskCommitCoordinator\<close> and the \<open>MissionExecutionCoordinator\<close> of
  \<open>src/src/backend/shared/tashi-task-bidding-recovery.ts\<close>. The Lattice and Vertex adapters are
  supplied from outside: they are the record of functions \<open>adapters\<close>, a parameter of every
  operation that calls them. Rewards and checkpoints handed to the optional adapter functions are
  appended to a list. Promises are awaited where they are created, so the operations run one at a
  time. Thrown errors are values of \<open>exec_error\<close>, returned with the state they leave.
\<close>

subsection \<open>Adapters\<close>

record bid_verdict =
  vd_accepted :: bool
  vd_reasons :: "string list"
  vd_score :: score_breakdown

record vertex_receipt =
  vr_ok :: bool
  vr_sequence :: int
  vr_proofHash :: string

record adapters =
  ad_getNode :: "ident \<Rightarrow> node_profile option"
  ad_validateBid :: "task_bid \<Rightarrow> node_profile \<Rightarrow> task_work_item \<Rightarrow> bid_verdict"
  ad_submitOrderedAssignment :: "bid_commit \<Rightarrow> vertex_receipt"
  ad_hasRecordWork :: bool
  ad_hasSubmitCheckpoint :: bool

record work_reward =
  wr_missionId :: ident
  wr_nodeId :: ident
  wr_kind :: reward_kind
  wr_amount :: int
  wr_reason :: string
  wr_metadata :: obj

definition ledger_entry_of :: "ident \<Rightarrow> string \<Rightarrow> ident \<Rightarrow> obj \<Rightarrow> ledger_entry" where
  "ledger_entry_of missionId kind actorId flds =
     \<lparr> en_missionId = missionId, en_kind = kind, en_actorId = actorId, en_payload = plain_payload flds \<rparr>"

definition work_amount :: "score_breakdown \<Rightarrow> int" where
  "work_amount s = max 1 (js_round (sb_total s / 10))"

definition stamp_receipt :: "vertex_receipt \<Rightarrow> bid_commit \<Rightarrow> bid_commit" where
  "stamp_receipt r c = c\<lparr> bc_consensusSequence := vr_sequence r, bc_proofHash := vr_proofHash r \<rparr>"

subsection \<open>The task commit coordinator\<close>

record commit_coordinator =
  tc_lastKnownTaskById :: "(ident, task_work_item) jsmap"
  tc_commitmentLog :: "bid_commit list"
  tc_ledger :: event_ledger
  tc_rewards :: "work_reward list"

definition registerTask :: "task_work_item \<Rightarrow> commit_coordinator \<Rightarrow> commit_coordinator" where
  "registerTask task tc = tc\<lparr>tc_lastKnownTaskById := js_put (tw_taskId task) task (tc_lastKnownTaskById tc)\<rparr>"

definition getTask :: "ident \<Rightarrow> commit_coordinator \<Rightarrow> task_work_item option" where
  "getTask taskId tc = js_get (tc_lastKnownTaskById tc) taskId"

definition valid_bid :: "adapters \<Rightarrow> task_work_item \<Rightarrow> task_bid \<Rightarrow> (task_bid \<times> score_breakdown) option" where
  "valid_bid A task bid =
     (case ad_getNode A (tb_nodeId bid) of
        None \<Rightarrow> None
      | Some node \<Rightarrow>
          (let verdict = ad_validateBid A bid node task
           in if vd_accepted verdict then Some (bid, vd_score verdict) else None))"

definition valid_before :: "task_bid \<times> score_breakdown \<Rightarrow> task_bid \<times> score_breakdown \<Rightarrow> bool" where
  "valid_before = then_by (then_by (by_desc (\<lambda>v. sb_total (snd v))) (by_asc (\<lambda>v. tb_etaMs (fst v))))
     (by_desc (\<lambda>v. sb_confidence (snd v)))"

definition collectAndCommit :: "js_lib \<Rightarrow> js_env \<Rightarrow> adapters \<Rightarrow> task_work_item \<Rightarrow> task_bid list \<Rightarrow> ident \<Rightarrow> string \<Rightarrow>
    commit_coordinator \<Rightarrow> bid_commit \<times> commit_coordinator" where
  "collectAndCommit L env A task bids requestorId reason tc0 =
     (let tc = registerTask task tc0;
          valid = List.map_filter (valid_bid A task) bids
      in case js_sort valid_before valid of
           [] \<Rightarrow>
             (let aborted0 = buildAbortCommit L env task requestorId (reason @ '':no_valid_bids'');
                  aborted = stamp_receipt (ad_submitOrderedAssignment A aborted0) aborted0
              in (aborted, tc\<lparr>tc_commitmentLog := tc_commitmentLog tc @ [aborted]\<rparr>))
         | (bid, score) # rest \<Rightarrow>
             (let rankedCount = int (length valid);
                  record0 = buildCommit L env task bid (bid_json bid) rankedCount requestorId reason;
                  record1 = (stamp_receipt (ad_submitOrderedAssignment A record0) record0)
                    \<lparr> bc_winnerNodeId := Some (tb_nodeId bid), bc_winningBidId := Some (tb_bidId bid), bc_phase := CpCommitted \<rparr>;
                  (saved, ledger) = append_event L (later_ids 1 env)
                    (ledger_entry_of (tw_missionId task) ''task_assignment_committed'' requestorId
                      [(''taskId'', JStr (tw_taskId task)), (''winnerNodeId'', JStr (tb_nodeId bid)),
                       (''winningBidId'', JStr (tb_bidId bid)), (''totalBids'', jint (int (length bids))),
                       (''validBids'', jint rankedCount), (''reason'', JStr reason),
                       (''proofHash'', JStr (bc_proofHash record1))]) (tc_ledger tc);
                  commitRecord = record1\<lparr>bc_metadata := obj_spread (obj_spread [] (bc_metadata record1))
                    [(''ledgerHash'', JStr (le_cumulativeHash saved))]\<rparr>;
                  reward = \<lparr> wr_missionId = tw_missionId task, wr_nodeId = tb_nodeId bid, wr_kind = RewardWork,
                    wr_amount = work_amount score, wr_reason = ''task_committed:'' @ tw_taskType task,
                    wr_metadata = [(''taskId'', JStr (tw_taskId task)), (''proofHash'', JStr (bc_proofHash commitRecord)),
                      (''bidId'', JStr (tb_bidId bid))] \<rparr>
              in (commitRecord, tc\<lparr> tc_commitmentLog := tc_commitmentLog tc @ [commitRecord], tc_ledger := ledger,
                    tc_lastKnownTaskById := js_put (tw_taskId task) task (tc_lastKnownTaskById tc),
                    tc_rewards := tc_rewards tc @ (if ad_hasRecordWork A then [reward] else []) \<rparr>)))"

definition commitments :: "commit_coordinator \<Rightarrow> bid_commit list" where
  "commitments tc = tc_commitmentLog tc"

subsection \<open>The mission execution coordinator\<close>

datatype exec_error = UnknownTask ident | UnknownNode ident | MissingWindow ident | RegistryError bid_error

record coordinator =
  xc_missionId :: ident
  xc_bids :: bid_registry
  xc_commitHistory :: "bid_commit list"
  xc_store :: checkpoint_store
  xc_ledger :: event_ledger
  xc_map :: shared_map
  xc_mission :: mission_view
  xc_rewards :: "work_reward list"
  xc_sentCheckpoints :: "recovery_checkpoint list"

definition new_coordinator :: "ident \<Rightarrow> shared_map \<Rightarrow> mission_view \<Rightarrow> event_ledger \<Rightarrow> coordinator" where
  "new_coordinator missionId m mission ledger =
     \<lparr> xc_missionId = missionId, xc_bids = new_registry, xc_commitHistory = [], xc_store = new_store,
       xc_ledger = ledger, xc_map = m, xc_mission = mission, xc_rewards = [], xc_sentCheckpoints = [] \<rparr>"

definition xc_append :: "js_lib \<Rightarrow> js_env \<Rightarrow> ident \<Rightarrow> string \<Rightarrow> ident \<Rightarrow> obj \<Rightarrow> coordinator \<Rightarrow> coordinator" where
  "xc_append L env missionId kind actorId flds xc =
     xc\<lparr>xc_ledger := snd (append_event L env (ledger_entry_of missionId kind actorId flds) (xc_ledger xc))\<rparr>"

definition recoveryContext :: "coordinator \<Rightarrow> recovery_context" where
  "recoveryContext xc = \<lparr> rx_missionId = xc_missionId xc, rx_ledger = xc_ledger xc, rx_store = xc_store xc,
     rx_map = xc_map xc, rx_mission = xc_mission xc \<rparr>"

definition default_actor :: "mission_view \<Rightarrow> ident" where
  "default_actor mn =
     (case js_values (mn_nodes mn) of
        n # _ \<Rightarrow> pr_nodeId n
      | [] \<Rightarrow> (case js_get (mn_metadata mn) ''defaultActor'' of Some (JStr a) \<Rightarrow> a | _ \<Rightarrow> ''system''))"

definition openBidding :: "js_lib \<Rightarrow> js_env \<Rightarrow> task_work_item \<Rightarrow> int \<Rightarrow> int \<Rightarrow> int \<Rightarrow> coordinator \<Rightarrow> bid_window \<times> coordinator" where
  "openBidding L env task minBids requiredQuorum ttlMs xc =
     (let (window, bids) = openWindow env task minBids requiredQuorum ttlMs (xc_bids xc)
      in (window, xc_append L env (tw_missionId task) ''task_bidding_opened'' (default_actor (xc_mission xc))
            [(''taskId'', JStr (tw_taskId task)), (''scenario'', JStr (scenario_str (tw_scenario task))),
             (''taskType'', JStr (tw_taskType task)), (''minBids'', jint minBids), (''quorum'', jint requiredQuorum),
             (''closesAtMs'', jint (bw_closesAtMs window))]
            (xc\<lparr>xc_bids := bids\<rparr>)))"

definition getTaskFromLedger :: "ident \<Rightarrow> coordinator \<Rightarrow> task_work_item option" where
  "getTaskFromLedger taskId xc =
     (case rev (filter (\<lambda>e. le_kind e = ''task_registered''
           \<and> js_get (ep_fields (le_payload e)) ''taskId'' = Some (JStr taskId)) (byMissionId (xc_missionId xc) (xc_ledger xc))) of
        [] \<Rightarrow> None
      | e # _ \<Rightarrow> ep_task (le_payload e))"

definition scenario_of_string :: "string \<Rightarrow> scenario_kind option" where
  "scenario_of_string s = List.find (\<lambda>k. scenario_str k = s)
     [CollapsedBuilding, CaveTunnel, Flood, Wildfire, Industrial, Forest, Night, Indoor, Perimeter, TriageScenario]"

definition synthesized_task :: "js_lib \<Rightarrow> ident \<Rightarrow> bid_window \<Rightarrow> task_work_item" where
  "synthesized_task L taskId window =
     \<lparr> tw_taskId = taskId, tw_missionId = bw_missionId window,
       tw_scenario = (case js_get (bw_metadata window) ''scenario'' of
           Some (JStr s) \<Rightarrow> default_to (scenario_of_string s) CollapsedBuilding | _ \<Rightarrow> CollapsedBuilding),
       tw_taskType = (case js_get (bw_metadata window) ''taskType'' of
           None \<Rightarrow> ''generic'' | Some JNull \<Rightarrow> ''generic'' | Some v \<Rightarrow> js_string (num_str L) v),
       tw_priority = (case js_get (bw_metadata window) ''priority'' of
           None \<Rightarrow> 0 | Some JNull \<Rightarrow> 0 | Some (JNum r) \<Rightarrow> r | Some v \<Rightarrow> to_number L v),
       tw_location = None, tw_requiredCapabilities = [], tw_minTrustScore = 4 / 10, tw_minBatteryPct = 30,
       tw_maxDistanceM = Some 500, tw_rescueTargetId = None, tw_createdAtMs = bw_openedAtMs window,
       tw_expiresAtMs = bw_closesAtMs window, tw_metadata = [(''synthesized'', JBool True)] \<rparr>"

definition getTaskOrThrow :: "js_lib \<Rightarrow> ident \<Rightarrow> coordinator \<Rightarrow> exec_error + task_work_item" where
  "getTaskOrThrow L taskId xc =
     (case js_get (mn_tasks (xc_mission xc)) taskId of
        Some t \<Rightarrow> Inr t
      | None \<Rightarrow>
          (case getTaskFromLedger taskId xc of
             Some t \<Rightarrow> Inr t
           | None \<Rightarrow>
               (case getWindow taskId (xc_bids xc) of
                  Some window \<Rightarrow> Inr (synthesized_task L taskId window)
                | None \<Rightarrow> Inl (UnknownTask taskId))))"

definition normalized_bid :: "js_env \<Rightarrow> bid_verdict \<Rightarrow> task_bid \<Rightarrow> task_bid" where
  "normalized_bid env verdict bid = bid\<lparr>
     tb_status := (if vd_accepted verdict then BidSubmitted else BidRejected),
     tb_batteryPct := clamp (tb_batteryPct bid) 0 100, tb_linkQuality := clamp (tb_linkQuality bid) 0 1,
     tb_confidence := clamp (tb_confidence bid) 0 1,
     tb_createdAtMs := or_num (tb_createdAtMs bid) (now_ms env),
     tb_expiresAtMs := or_num (tb_expiresAtMs bid) (now_ms env + 4000),
     tb_metadata := obj_spread (obj_spread [] (tb_metadata bid))
       [(''validationReasons'', jstrs (vd_reasons verdict)), (''validatorScore'', JNum (sb_total (vd_score verdict)))] \<rparr>"

definition submitMissionBid :: "js_lib \<Rightarrow> js_env \<Rightarrow> adapters \<Rightarrow> task_bid \<Rightarrow> coordinator \<Rightarrow>
    (exec_error + task_bid) \<times> coordinator" where
  "submitMissionBid L env A input xc =
     (case getTaskOrThrow L (tb_taskId input) xc of
        Inl e \<Rightarrow> (Inl e, xc)
      | Inr task \<Rightarrow>
     (case ad_getNode A (tb_nodeId input) of
        None \<Rightarrow> (Inl (UnknownNode (tb_nodeId input)), xc)
      | Some node \<Rightarrow>
          (let verdict = ad_validateBid A input node task;
               bid = normalized_bid env verdict input;
               (filed, bids) = submitBid env bid (xc_bids xc);
               rejected = [(''taskId'', JStr (tw_taskId task)), (''bidId'', JStr (tb_bidId bid)),
                 (''reasons'', jstrs (vd_reasons verdict)), (''score'', score_json (vd_score verdict))]
           in if \<not> vd_accepted verdict
              then (case filed of
                      Inl _ \<Rightarrow> (Inr bid, xc_append L env (tw_missionId task) ''task_bid_rejected'' (tb_nodeId bid)
                          (rejected @ [(''windowClosed'', JBool True)]) (xc\<lparr>xc_bids := bids\<rparr>))
                    | Inr _ \<Rightarrow> (Inr bid, xc_append L env (tw_missionId task) ''task_bid_rejected'' (tb_nodeId bid) rejected
                          (xc\<lparr>xc_bids := rejectBid env (tw_taskId task) (tb_bidId bid)
                             (str_join '';'' (vd_reasons verdict)) bids\<rparr>)))
              else (case filed of
                      Inl e \<Rightarrow> (Inl (RegistryError e), xc\<lparr>xc_bids := bids\<rparr>)
                    | Inr _ \<Rightarrow>
                        (let weighted = chooseBest L task node bid
                         in (Inr bid, xc_append L env (tw_missionId task) ''task_bid_accepted'' (tb_nodeId bid)
                              [(''taskId'', JStr (tw_taskId task)), (''bidId'', JStr (tb_bidId bid)),
                               (''score'', score_json (wb_score weighted))]
                              (xc\<lparr>xc_bids := snd (setWeighted env weighted bids)\<rparr>)))))))"

definition listBids :: "ident \<Rightarrow> coordinator \<Rightarrow> task_bid list" where
  "listBids taskId xc = bidsForTask taskId (xc_bids xc)"

definition listWeightedBids :: "ident \<Rightarrow> coordinator \<Rightarrow> weighted_bid list" where
  "listWeightedBids taskId xc = weightedBidsForTask taskId (xc_bids xc)"

subsection \<open>Committing\<close>

text \<open>The candidates when no bid is weighted: the verdict is asked for, and only its score is kept.\<close>

definition fallback_bids :: "adapters \<Rightarrow> ident \<Rightarrow> coordinator \<Rightarrow> (task_bid \<times> node_profile) list" where
  "fallback_bids A taskId xc =
     List.map_filter (\<lambda>bid. map_option (\<lambda>node. (bid, node)) (ad_getNode A (tb_nodeId bid))) (bidsForTask taskId (xc_bids xc))"

definition ranked_candidates :: "js_lib \<Rightarrow> adapters \<Rightarrow> task_work_item \<Rightarrow> ident \<Rightarrow> coordinator \<Rightarrow> weighted_bid list" where
  "ranked_candidates L A task taskId xc =
     (let weighted = weightedBidsForTask taskId (xc_bids xc)
      in if length weighted > 0 then weighted else rank_bids L task (fallback_bids A taskId xc))"

definition commitBids :: "js_lib \<Rightarrow> js_env \<Rightarrow> adapters \<Rightarrow> ident \<Rightarrow> ident \<Rightarrow> string \<Rightarrow> coordinator \<Rightarrow>
    (exec_error + bid_commit) \<times> coordinator" where
  "commitBids L env A taskId requestedBy reason xc =
     (case getTaskOrThrow L taskId xc of
        Inl e \<Rightarrow> (Inl e, xc)
      | Inr task \<Rightarrow>
     (case getWindow taskId (xc_bids xc) of
        None \<Rightarrow> (Inl (MissingWindow taskId), xc)
      | Some window \<Rightarrow>
     (case ranked_candidates L A task taskId xc of
        [] \<Rightarrow>
          (let abort0 = buildAbortCommit L env task requestedBy (reason @ '':no_ranked_bids'');
               abortRecord = stamp_receipt (ad_submitOrderedAssignment A abort0) abort0;
               xc1 = xc_append L (later_ids 1 env) (tw_missionId task) ''task_assignment_aborted'' requestedBy
                 [(''taskId'', JStr taskId), (''reason'', JStr reason)]
                 (xc\<lparr>xc_commitHistory := xc_commitHistory xc @ [abortRecord]\<rparr>)
           in (Inr abortRecord, xc1\<lparr>xc_bids := cancelTask env taskId reason (xc_bids xc1)\<rparr>))
      | winner # rest \<Rightarrow>
          (let count = int (length (winner # rest));
               wbid = wb_bid winner;
               record0 = buildCommit L env task wbid (weighted_json winner) count requestedBy reason;
               ordered = ad_submitOrderedAssignment A record0;
               commitRecord = (stamp_receipt ordered record0)
                 \<lparr> bc_phase := CpCommitted, bc_winnerNodeId := Some (tb_nodeId wbid),
                   bc_winningBidId := Some (tb_bidId wbid),
                   bc_metadata := obj_spread (obj_spread [] (bc_metadata record0))
                     [(''bidCount'', jint count), (''windowStatus'', JStr (window_status_str (bw_status window))),
                      (''orderedSequence'', jint (vr_sequence ordered))] \<rparr>;
               bids = snd (markCommitted (later_ids 1 env) taskId (tb_nodeId wbid) (tb_bidId wbid)
                 (vr_sequence ordered) (vr_proofHash ordered) (xc_bids xc));
               reward = \<lparr> wr_missionId = tw_missionId task, wr_nodeId = tb_nodeId wbid, wr_kind = RewardWork,
                 wr_amount = work_amount (wb_score winner), wr_reason = ''task_assigned:'' @ tw_taskType task,
                 wr_metadata = [(''taskId'', JStr taskId), (''bidId'', JStr (tb_bidId wbid)),
                   (''proofHash'', JStr (vr_proofHash ordered))] \<rparr>
           in (Inr commitRecord, xc_append L (later_ids 2 env) (tw_missionId task) ''task_assignment_committed'' requestedBy
                 [(''taskId'', JStr taskId), (''winnerNodeId'', JStr (tb_nodeId wbid)),
                  (''winningBidId'', JStr (tb_bidId wbid)), (''bidScore'', score_json (wb_score winner)),
                  (''consensusSequence'', jint (vr_sequence ordered)), (''proofHash'', JStr (vr_proofHash ordered)),
                  (''reason'', JStr reason)]
                 (xc\<lparr> xc_commitHistory := xc_commitHistory xc @ [commitRecord], xc_bids := bids,
                      xc_rewards := xc_rewards xc @ (if ad_hasRecordWork A then [reward] else []) \<rparr>))))))"

definition latestCommit :: "ident \<Rightarrow> coordinator \<Rightarrow> bid_commit option" where
  "latestCommit taskId xc = head_opt (slice_tail 1 (filter (\<lambda>r. bc_taskId r = taskId) (xc_commitHistory xc)))"

definition commitHistoryTail :: "nat \<Rightarrow> coordinator \<Rightarrow> bid_commit list" where
  "commitHistoryTail limit xc = slice_tail limit (xc_commitHistory xc)"

subsection \<open>Checkpoints and recovery\<close>

definition checkpoint_created_fields :: "recovery_checkpoint \<Rightarrow> string \<Rightarrow> obj" where
  "checkpoint_created_fields c reason =
     [(''checkpointId'', JStr (rc_checkpointId c)), (''phase'', JStr (phase_str (rc_phase c))),
      (''phaseVersion'', jint (rc_phaseVersion c)), (''consensusSequence'', jint (rc_consensusSequence c)),
      (''mapVersion'', jint (rc_mapVersion c)), (''mapHash'', JStr (rc_mapHash c)),
      (''activeNodeIds'', jstrs (rc_activeNodeIds c)), (''lastLedgerHash'', JStr (rc_lastLedgerHash c)),
      (''reason'', JStr reason), (''proofHash'', JStr (rc_proofHash c))]"

definition coordinatorCheckpoint :: "js_lib \<Rightarrow> js_env \<Rightarrow> adapters \<Rightarrow> ident \<Rightarrow> string \<Rightarrow> int \<Rightarrow> coordinator \<Rightarrow>
    recovery_checkpoint \<times> coordinator" where
  "coordinatorCheckpoint L env A requestedBy reason consensusSequence xc =
     (let sealedHead = lastHash (xc_ledger xc);
          (c, ctx) = plannerCheckpoint L env reason requestedBy consensusSequence (recoveryContext xc);
          xc1 = xc_append L (later_ids 1 env) (xc_missionId xc) ''recovery_checkpoint_created'' requestedBy
            (checkpoint_created_fields c reason) (xc\<lparr>xc_store := rx_store ctx\<rparr>);
          verified = verifyCheckpoint L env c sealedHead (rc_mapVersion c) 15000;
          xc2 = (if \<not> cv_ok verified
                 then xc_append L (later_ids 3 env) (xc_missionId xc) ''recovery_checkpoint_warn'' requestedBy
                   [(''checkpointId'', JStr (rc_checkpointId c)), (''reason'', JStr (cv_reason verified)),
                    (''missingFields'', jstrs (cv_missingFields verified)), (''integrityOk'', JBool (cv_integrityOk verified))] xc1
                 else xc1)
      in (c, xc2\<lparr>xc_sentCheckpoints := xc_sentCheckpoints xc2 @ (if ad_hasSubmitCheckpoint A then [c] else [])\<rparr>))"

definition verifyMissionCheckpoint :: "js_lib \<Rightarrow> js_env \<Rightarrow> recovery_checkpoint \<Rightarrow> string option \<Rightarrow> coordinator \<Rightarrow>
    checkpoint_verification" where
  "verifyMissionCheckpoint L env c ledgerHead xc = validateCheckpoint L env c ledgerHead (recoveryContext xc)"

definition latestCheckpoint :: "coordinator \<Rightarrow> recovery_checkpoint option" where
  "latestCheckpoint xc = latest_checkpoint (xc_missionId xc) (xc_store xc)"

definition buildRecoveryPlan :: "coordinator \<Rightarrow> recovery_plan" where
  "buildRecoveryPlan xc = buildPlan (recoveryContext xc)"

definition restoreFromLatestCheckpoint :: "js_lib \<Rightarrow> js_env \<Rightarrow> mission_fns \<Rightarrow> coordinator \<Rightarrow> restore_result \<times> coordinator" where
  "restoreFromLatestCheckpoint L env F xc =
     (let (res, ctx) = restore_mission L env F (recoveryContext xc)
      in (res, xc\<lparr> xc_mission := rx_mission ctx, xc_map := rx_map ctx \<rparr>))"

definition hint_json :: "sync_hint \<Rightarrow> json" where
  "hint_json h = JObj [(''peerId'', JStr (sh_peerId h)), (''needsMap'', JBool (sh_needsMap h)),
     (''needsTasks'', JBool (sh_needsTasks h)), (''reason'', JStr (sh_reason h))]"

definition rehydrateMissionState :: "js_lib \<Rightarrow> js_env \<Rightarrow> mission_fns \<Rightarrow> coordinator \<Rightarrow> restore_result \<times> coordinator" where
  "rehydrateMissionState L env F xc =
     (let (res, xc1) = restoreFromLatestCheckpoint L env F xc
      in (res, xc_append L env (xc_missionId xc1) ''mission_rehydrated''
            (default_to (map_option rc_createdBy (rr_checkpoint res)) ''system'')
            [(''checkpointId'', opt_str (map_option rc_checkpointId (rr_checkpoint res))),
             (''replayCount'', jint (rr_replayCount res)), (''syncHints'', JArr (map hint_json (rr_syncHints res)))] xc1))"

fun requestSyncFromPeers :: "js_lib \<Rightarrow> js_env \<Rightarrow> sync_hint list \<Rightarrow> coordinator \<Rightarrow> coordinator" where
  "requestSyncFromPeers L env [] xc = xc"
| "requestSyncFromPeers L env (h # hs) xc =
     requestSyncFromPeers L (later_ids 2 env) hs
       (xc_append L env (xc_missionId xc) ''sync_request_emitted'' (sh_peerId h)
         [(''peerId'', JStr (sh_peerId h)), (''needsMap'', JBool (sh_needsMap h)),
          (''needsTasks'', JBool (sh_needsTasks h)), (''reason'', JStr (sh_reason h))] xc)"

record settlement_artifact =
  sa_missionId :: ident
  sa_latestCheckpoint :: "recovery_checkpoint option"
  sa_commits :: "bid_commit list"
  sa_ledgerTail :: "ledger_event list"
  sa_proofHash :: string
  sa_readyForArc :: bool

definition checkpoint_json :: "recovery_checkpoint \<Rightarrow> json" where
  "checkpoint_json c = JObj (checkpoint_body c @ [(''proofHash'', JStr (rc_proofHash c))])"

definition settlementArtifact :: "js_lib \<Rightarrow> coordinator \<Rightarrow> settlement_artifact" where
  "settlementArtifact L xc =
     (let latest = latestCheckpoint xc; commits = commitHistoryTail 50 xc
      in \<lparr> sa_missionId = xc_missionId xc, sa_latestCheckpoint = latest, sa_commits = commits,
           sa_ledgerTail = slice_tail 100 (byMissionId (xc_missionId xc) (xc_ledger xc)),
           sa_proofHash = hash_object (sha L) (JObj [(''latest'', opt_json checkpoint_json latest),
             (''commits'', JArr (map (\<lambda>c. JObj (commit_obj c)) commits)),
             (''ledgerHash'', JStr (lastHash (xc_ledger xc)))]),
           sa_readyForArc = True \<rparr>)"

subsection \<open>The winner of a collected round\<close>

interpretation valid_order: comparator valid_before
  unfolding valid_before_def
  by (intro comparator_then_by descending.comparator_axioms ascending.comparator_axioms)

lemma in_map_filter: "y \<in> set (List.map_filter f xs) \<longleftrightarrow> (\<exists>x\<in>set xs. f x = Some y)"
  by (induction xs) (auto split: option.splits)

definition accepted_bid :: "adapters \<Rightarrow> task_work_item \<Rightarrow> task_bid \<Rightarrow> score_breakdown \<Rightarrow> bool" where
  "accepted_bid A task bid score \<longleftrightarrow> (\<exists>node. ad_getNode A (tb_nodeId bid) = Some node
     \<and> vd_accepted (ad_validateBid A bid node task) \<and> vd_score (ad_validateBid A bid node task) = score)"

lemma valid_bid_iff: "valid_bid A task bid = Some (b, score) \<longleftrightarrow> b = bid \<and> accepted_bid A task bid score"
  by (auto simp: valid_bid_def accepted_bid_def Let_def split: option.splits)

lemma valid_before_total: "sb_total (snd b) < sb_total (snd a) \<Longrightarrow> valid_before a b"
  by (simp add: valid_before_def then_by_def by_desc_def by_asc_def)

text \<open>
  \<open>collectAndCommit\<close> commits a bid of a known node that the validator accepted, with the
  highest score among all accepted bids, and otherwise aborts; it aborts exactly when no bid is
  accepted.
\<close>

theorem collected_winner_best:
  "if \<exists>b score. b \<in> set bids \<and> accepted_bid A task b score
   then \<exists>b score. b \<in> set bids \<and> accepted_bid A task b score \<and>
     bc_phase (fst (collectAndCommit L env A task bids req reason tc)) = CpCommitted \<and>
     bc_winnerNodeId (fst (collectAndCommit L env A task bids req reason tc)) = Some (tb_nodeId b) \<and>
     bc_winningBidId (fst (collectAndCommit L env A task bids req reason tc)) = Some (tb_bidId b) \<and>
     (\<forall>b' score'. b' \<in> set bids \<and> accepted_bid A task b' score' \<longrightarrow> sb_total score' \<le> sb_total score)
   else bc_phase (fst (collectAndCommit L env A task bids req reason tc)) = CpAborted \<and>
     bc_winnerNodeId (fst (collectAndCommit L env A task bids req reason tc)) = None"
proof -
  let ?valid = "List.map_filter (valid_bid A task) bids"
  have mem: "(b, score) \<in> set ?valid \<longleftrightarrow> b \<in> set bids \<and> accepted_bid A task b score" for b score
    by (auto simp: in_map_filter valid_bid_iff)
  show ?thesis
  proof (cases "js_sort valid_before ?valid")
    case Nil
    then have "?valid = []" by simp
    then have none: "\<not> (\<exists>b score. b \<in> set bids \<and> accepted_bid A task b score)" using mem by force
    show ?thesis
      unfolding if_not_P [OF none]
      by (simp add: collectAndCommit_def Let_def Nil stamp_receipt_def buildAbortCommit_def)
  next
    case (Cons w rest)
    obtain b score where w: "w = (b, score)" by fastforce
    have least: "w \<in> set ?valid" "\<And>x. x \<in> set ?valid \<Longrightarrow> \<not> valid_before x w"
      using valid_order.js_sort_head_least [OF Cons] by auto
    have best: "sb_total score' \<le> sb_total score" if "b' \<in> set bids" "accepted_bid A task b' score'" for b' score'
      using least(2) [of "(b', score')"] that mem valid_before_total [of w "(b', score')"] by (force simp: w)
    have r: "bc_phase (fst (collectAndCommit L env A task bids req reason tc)) = CpCommitted"
      "bc_winnerNodeId (fst (collectAndCommit L env A task bids req reason tc)) = Some (tb_nodeId b)"
      "bc_winningBidId (fst (collectAndCommit L env A task bids req reason tc)) = Some (tb_bidId b)"
      by (simp_all add: collectAndCommit_def Let_def Cons w split_beta)
    have win: "b \<in> set bids" "accepted_bid A task b score" using least(1) mem by (simp_all add: w)
    show ?thesis using win best r by (subst if_P) blast+
  qed
qed

definition toy_verdict :: "bool \<Rightarrow> real \<Rightarrow> bid_verdict" where
  "toy_verdict ok points = \<lparr> vd_accepted = ok, vd_reasons = [], vd_score = wb_score (toy_weighted [] points) \<rparr>"

definition toy_adapters :: "bool \<Rightarrow> bool \<Rightarrow> adapters" where
  "toy_adapters accepts vertexOk = \<lparr> ad_getNode = (\<lambda>i. Some (toy_profile i)),
     ad_validateBid = (\<lambda>b n t. toy_verdict accepts 40),
     ad_submitOrderedAssignment = (\<lambda>c. \<lparr> vr_ok = vertexOk, vr_sequence = 101, vr_proofHash = ''p'' \<rparr>),
     ad_hasRecordWork = True, ad_hasSubmitCheckpoint = True \<rparr>"

definition toy_tc :: commit_coordinator where
  "toy_tc = \<lparr> tc_lastKnownTaskById = [], tc_commitmentLog = [], tc_ledger = new_ledger, tc_rewards = [] \<rparr>"

theorem collected_winner_best_witness:
  "bc_winnerNodeId (fst (collectAndCommit toy_lib (demo_env 1) (toy_adapters True True) (toy_task ''t'')
     [toy_bid ''b'' ''t'' ''n''] ''r'' [] toy_tc)) = Some ''n''"
proof -
  have "accepted_bid (toy_adapters True True) (toy_task ''t'') (toy_bid ''b'' ''t'' ''n'') (wb_score (toy_weighted [] 40))"
    by (simp add: accepted_bid_def toy_adapters_def toy_verdict_def)
  then have ex: "\<exists>b score. b \<in> set [toy_bid ''b'' ''t'' ''n''] \<and> accepted_bid (toy_adapters True True) (toy_task ''t'') b score"
    by auto
  have "tb_nodeId (toy_bid ''b'' ''t'' ''n'') = ''n''" by (simp add: toy_bid_def)
  with collected_winner_best [of "[toy_bid ''b'' ''t'' ''n'']" "toy_adapters True True" "toy_task ''t''" toy_lib "demo_env 1" "''r''" "[]" toy_tc]
  show ?thesis unfolding if_P [OF ex] by auto
qed

subsection \<open>What a commit does not look at\<close>

lemma adapter_simps:
  "ad_getNode (A\<lparr>ad_validateBid := v\<rparr>) = ad_getNode A"
  "ad_submitOrderedAssignment (A\<lparr>ad_validateBid := v\<rparr>) = ad_submitOrderedAssignment A"
  "ad_hasRecordWork (A\<lparr>ad_validateBid := v\<rparr>) = ad_hasRecordWork A"
  "ad_getNode (A\<lparr>ad_submitOrderedAssignment := f\<rparr>) = ad_getNode A"
  "ad_validateBid (A\<lparr>ad_submitOrderedAssignment := f\<rparr>) = ad_validateBid A"
  "ad_submitOrderedAssignment (A\<lparr>ad_submitOrderedAssignment := f\<rparr>) = f"
  "ad_hasRecordWork (A\<lparr>ad_submitOrderedAssignment := f\<rparr>) = ad_hasRecordWork A"
  by simp_all

lemma receipt_simps:
  "stamp_receipt (r\<lparr>vr_ok := ok\<rparr>) c = stamp_receipt r c"
  "vr_sequence (r\<lparr>vr_ok := ok\<rparr>) = vr_sequence r" "vr_proofHash (r\<lparr>vr_ok := ok\<rparr>) = vr_proofHash r"
  by (simp_all add: stamp_receipt_def)

text \<open>
  \<open>commitBids\<close> depends neither on the validator nor on whether Vertex accepts the ordered
  assignment: with a validator that rejects every bid, or a Vertex that reports \<open>ok: false\<close>, it
  commits the same winner, logs the same event and pays the same reward. \<open>collectAndCommit\<close>
  ignores the refusal of Vertex in the same way.
\<close>

theorem commit_ignores_refusals:
  "commitBids L env (A\<lparr> ad_validateBid := v,
       ad_submitOrderedAssignment := (\<lambda>c. (ad_submitOrderedAssignment A c)\<lparr>vr_ok := ok\<rparr>) \<rparr>) taskId req reason xc =
     commitBids L env A taskId req reason xc \<and>
   collectAndCommit L env (A\<lparr>ad_submitOrderedAssignment := (\<lambda>c. (ad_submitOrderedAssignment A c)\<lparr>vr_ok := ok\<rparr>)\<rparr>) task bids req reason tc =
     collectAndCommit L env A task bids req reason tc"
  unfolding commitBids_def collectAndCommit_def ranked_candidates_def fallback_bids_def valid_bid_def
    adapter_simps Let_def receipt_simps by (intro conjI refl)

text \<open>
  The window is not consulted either: as soon as a window exists, the task is known and one
  of its bids is weighted, \<open>commitBids\<close> commits the best weighted bid, whether the window is
  open, closed, expired, cancelled or already committed and however few bids it asked for.
\<close>

theorem commit_ignores_window:
  assumes "getWindow taskId (xc_bids xc) = Some w" "getTaskOrThrow L taskId xc = Inr task"
    "bestBid taskId (xc_bids xc) = Some b"
  shows "\<exists>r. fst (commitBids L env A taskId req reason xc) = Inr r \<and> bc_phase r = CpCommitted \<and>
    bc_winnerNodeId r = Some (tb_nodeId (wb_bid b)) \<and> bc_winningBidId r = Some (tb_bidId (wb_bid b))"
proof -
  obtain rest where "weightedBidsForTask taskId (xc_bids xc) = b # rest"
    using assms(3) by (auto simp: bestBid_def head_opt_def split: list.splits)
  then have "ranked_candidates L A task taskId xc = b # rest" by (simp add: ranked_candidates_def)
  with assms(1,2) show ?thesis by (simp add: commitBids_def Let_def)
qed

definition cancelled_round :: coordinator where
  "cancelled_round = (new_coordinator ''m'' (new_shared_map ''m'') toy_mission new_ledger)
     \<lparr>xc_bids := cancelTask (demo_env 3) ''t'' ''off'' (snd (setWeighted (demo_env 2) (toy_weighted ''b'' 50)
        (snd (openWindow (demo_env 1) (toy_task ''t'') 3 2 4000 new_registry))))\<rparr>"

lemma cancelled_round_weighted: "weightedBidsForTask ''t'' (xc_bids cancelled_round) = [toy_weighted ''b'' 50]"
  by (simp add: cancelled_round_def weightedBidsForTask_def weighted_untouched setWeighted_def openWindow_def Let_def
      rg_record_def put_bids_def new_registry_def js_values_def toy_weighted_def toy_bid_def js_sort_def)

lemma cancelled_round_window:
  "map_option bw_status (getWindow ''t'' (xc_bids cancelled_round)) = Some WinCancelled"
  by (simp add: cancelled_round_def getWindow_def cancelTask_def setWeighted_def openWindow_def Let_def rg_record_def
      put_bids_def new_registry_def js_map_simps toy_task_def)

theorem commit_ignores_window_witness:
  "map_option bw_status (getWindow ''t'' (xc_bids cancelled_round)) = Some WinCancelled \<and>
   (\<exists>r. fst (commitBids toy_lib (demo_env 9) (toy_adapters True True) ''t'' ''n'' [] cancelled_round) = Inr r \<and>
     bc_phase r = CpCommitted)"
proof -
  obtain w where w: "getWindow ''t'' (xc_bids cancelled_round) = Some w"
    using cancelled_round_window by auto
  then have "getTaskOrThrow toy_lib ''t'' cancelled_round = Inr (synthesized_task toy_lib ''t'' w)"
    by (simp add: getTaskOrThrow_def getTaskFromLedger_def cancelled_round_def new_coordinator_def toy_mission_def
        byMissionId_def new_ledger_def)
  moreover have "bestBid ''t'' (xc_bids cancelled_round) = Some (toy_weighted ''b'' 50)"
    by (simp add: bestBid_def cancelled_round_weighted head_opt_def)
  ultimately show ?thesis
    using commit_ignores_window [OF w] cancelled_round_window by blast
qed

subsection \<open>What the ledger says about commits\<close>

text \<open>
  The states a coordinator can reach. The mission and the map are shared with the caller, who may
  change them at any time; the ledger is the coordinator's own.
\<close>

inductive coordinator_reach :: "js_lib \<Rightarrow> coordinator \<Rightarrow> bool" for L :: js_lib where
  created: "coordinator_reach L (new_coordinator missionId m mission new_ledger)"
| opened: "coordinator_reach L xc \<Longrightarrow> coordinator_reach L (snd (openBidding L env task minBids quorumSize ttlMs xc))"
| submitted: "coordinator_reach L xc \<Longrightarrow> coordinator_reach L (snd (submitMissionBid L env A bid xc))"
| committed: "coordinator_reach L xc \<Longrightarrow> coordinator_reach L (snd (commitBids L env A taskId req reason xc))"
| checkpointed: "coordinator_reach L xc \<Longrightarrow> coordinator_reach L (snd (coordinatorCheckpoint L env A req reason sq xc))"
| restored: "coordinator_reach L xc \<Longrightarrow> coordinator_reach L (snd (restoreFromLatestCheckpoint L env F xc))"
| rehydrated: "coordinator_reach L xc \<Longrightarrow> coordinator_reach L (snd (rehydrateMissionState L env F xc))"
| synced: "coordinator_reach L xc \<Longrightarrow> coordinator_reach L (requestSyncFromPeers L env hints xc)"
| outside: "coordinator_reach L xc \<Longrightarrow> coordinator_reach L (xc\<lparr> xc_mission := mission, xc_map := m \<rparr>)"

definition events_of_kind :: "string \<Rightarrow> coordinator \<Rightarrow> ledger_event list" where
  "events_of_kind kind xc = filter (\<lambda>e. le_kind e = kind) (all_events (xc_ledger xc))"

text \<open>Winner, bid, sequence and proof, as the event and as the record state them.\<close>

definition event_assignment :: "ledger_event \<Rightarrow> json option \<times> json option \<times> json option \<times> json option" where
  "event_assignment e = (let f = js_get (ep_fields (le_payload e))
     in (f ''winnerNodeId'', f ''winningBidId'', f ''consensusSequence'', f ''proofHash''))"

definition record_assignment :: "bid_commit \<Rightarrow> json option \<times> json option \<times> json option \<times> json option" where
  "record_assignment r = (map_option JStr (bc_winnerNodeId r), map_option JStr (bc_winningBidId r),
     Some (jint (bc_consensusSequence r)), Some (JStr (bc_proofHash r)))"

definition books_agree :: "coordinator \<Rightarrow> bool" where
  "books_agree xc \<longleftrightarrow>
     map event_assignment (events_of_kind ''task_assignment_committed'' xc) =
       map record_assignment (filter (\<lambda>r. bc_phase r = CpCommitted) (xc_commitHistory xc))
     \<and> length (events_of_kind ''task_assignment_aborted'' xc) =
       length (filter (\<lambda>r. bc_phase r = CpAborted) (xc_commitHistory xc))
     \<and> (\<forall>r \<in> set (xc_commitHistory xc). bc_phase r \<in> {CpCommitted, CpAborted})"

definition coordinator_ok :: "js_lib \<Rightarrow> coordinator \<Rightarrow> bool" where
  "coordinator_ok L xc \<longleftrightarrow> wf_ledger L (xc_ledger xc) \<and> wf_registry (xc_bids xc) \<and> books_agree xc"

lemma xc_append_frame [simp]:
  "xc_bids (xc_append L env m k a f xc) = xc_bids xc"
  "xc_commitHistory (xc_append L env m k a f xc) = xc_commitHistory xc"
  "xc_store (xc_append L env m k a f xc) = xc_store xc"
  "xc_map (xc_append L env m k a f xc) = xc_map xc"
  "xc_mission (xc_append L env m k a f xc) = xc_mission xc"
  "xc_missionId (xc_append L env m k a f xc) = xc_missionId xc"
  "xc_ledger (xc_append L env m k a f xc) = snd (append_event L env (ledger_entry_of m k a f) (xc_ledger xc))"
  by (simp_all add: xc_append_def)

lemma ledger_entry_sel [simp]: "en_kind (ledger_entry_of m k a f) = k" "en_missionId (ledger_entry_of m k a f) = m"
  by (simp_all add: ledger_entry_of_def)

lemma events_of_kind_append:
  "events_of_kind kind (xc_append L env m k a f xc) = events_of_kind kind xc @
     (if kind = k then [fst (append_event L env (ledger_entry_of m k a f) (xc_ledger xc))] else [])"
  by (auto simp: events_of_kind_def all_events_def append_event_entries)

lemma event_assignment_append:
  "event_assignment (fst (append_event L env (ledger_entry_of m k a f) lg)) =
     (js_get f ''winnerNodeId'', js_get f ''winningBidId'', js_get f ''consensusSequence'', js_get f ''proofHash'')"
  by (simp add: event_assignment_def append_event_entries ledger_entry_of_def plain_payload_def Let_def)

lemma ok_append [inv_intros]:
  assumes "coordinator_ok L xc" "k \<noteq> ''task_assignment_committed''" "k \<noteq> ''task_assignment_aborted''"
  shows "coordinator_ok L (xc_append L env m k a f xc)"
  using assms by (simp add: coordinator_ok_def books_agree_def events_of_kind_append wf_append_event)

lemma ok_append_eq [inv_intros]:
  "coordinator_ok L (xc\<lparr>xc_bids := bids\<rparr>) \<Longrightarrow> k \<noteq> ''task_assignment_committed'' \<Longrightarrow> k \<noteq> ''task_assignment_aborted'' \<Longrightarrow>
    coordinator_ok L (xc_append L env m k a f (xc\<lparr>xc_bids := bids\<rparr>))"
  by (rule ok_append)

lemma ok_bids: "coordinator_ok L xc \<Longrightarrow> wf_registry bids \<Longrightarrow> coordinator_ok L (xc\<lparr>xc_bids := bids\<rparr>)"
  by (simp add: coordinator_ok_def books_agree_def events_of_kind_def)

lemma ok_frame:
  "coordinator_ok L (xc\<lparr>xc_store := st\<rparr>) = coordinator_ok L xc"
  "coordinator_ok L (xc\<lparr>xc_mission := mission, xc_map := m\<rparr>) = coordinator_ok L xc"
  "coordinator_ok L (xc\<lparr>xc_sentCheckpoints := cs\<rparr>) = coordinator_ok L xc"
  by (simp_all add: coordinator_ok_def books_agree_def events_of_kind_def)

lemma ok_registry: "coordinator_ok L xc \<Longrightarrow> wf_registry (xc_bids xc)"
  by (simp add: coordinator_ok_def)

lemma ok_created: "coordinator_ok L (new_coordinator missionId m mission new_ledger)"
proof -
  have "all_events new_ledger = []" by (simp add: all_events_def new_ledger_def)
  then show ?thesis
    by (simp add: coordinator_ok_def books_agree_def events_of_kind_def new_coordinator_def wf_new_ledger wf_registry_new)
qed

lemma ok_opened: "coordinator_ok L xc \<Longrightarrow> coordinator_ok L (snd (openBidding L env task mb q ttl xc))"
  by (simp add: openBidding_def split_beta Let_def ok_append ok_bids wf_openWindow ok_registry)

lemma ok_submitted:
  assumes "coordinator_ok L xc" shows "coordinator_ok L (snd (submitMissionBid L env A bid xc))"
proof -
  have "wf_registry (snd (submitBid env b (xc_bids xc)))" for b
    by (rule wf_submitBid [OF ok_registry [OF assms]])
  then show ?thesis
    using assms by (auto simp: submitMissionBid_def Let_def split_beta ok_append ok_bids wf_rejectBid wf_setWeighted
        split: sum.splits option.splits)
qed

lemma ok_abort:
  assumes "coordinator_ok L xc" "bc_phase r = CpAborted" "wf_registry bids"
  shows "coordinator_ok L ((xc_append L env m ''task_assignment_aborted'' a f
    (xc\<lparr>xc_commitHistory := xc_commitHistory xc @ [r]\<rparr>))\<lparr>xc_bids := bids\<rparr>)"
  using assms by (auto simp: coordinator_ok_def books_agree_def events_of_kind_def all_events_def
      append_event_entries wf_append_event)

lemma ok_commit:
  assumes "coordinator_ok L xc" "bc_phase r = CpCommitted" "wf_registry bids"
    "record_assignment r = (js_get f ''winnerNodeId'', js_get f ''winningBidId'', js_get f ''consensusSequence'', js_get f ''proofHash'')"
  shows "coordinator_ok L (xc_append L env m ''task_assignment_committed'' a f
    (xc\<lparr> xc_commitHistory := xc_commitHistory xc @ [r], xc_bids := bids, xc_rewards := rw \<rparr>))"
  using assms(1-3)
  by (auto simp: coordinator_ok_def books_agree_def events_of_kind_def all_events_def append_event_entries
      wf_append_event event_assignment_append assms(4))

lemma ok_commit_unrewarded:
  assumes "coordinator_ok L xc" "bc_phase r = CpCommitted" "wf_registry bids"
    "record_assignment r = (js_get f ''winnerNodeId'', js_get f ''winningBidId'', js_get f ''consensusSequence'', js_get f ''proofHash'')"
  shows "coordinator_ok L (xc_append L env m ''task_assignment_committed'' a f
    (xc\<lparr> xc_commitHistory := xc_commitHistory xc @ [r], xc_bids := bids \<rparr>))"
  using ok_commit [OF assms, of env m a "xc_rewards xc"] by simp

lemma ok_committed:
  assumes "coordinator_ok L xc" shows "coordinator_ok L (snd (commitBids L env A taskId req reason xc))"
proof -
  have wf: "wf_registry (cancelTask env t r (xc_bids xc))" "wf_registry (snd (markCommitted env t n i sq ph (xc_bids xc)))"
    for env t r n i sq ph
    using ok_registry [OF assms] by (simp_all add: inv_intros)
  show ?thesis
    unfolding commitBids_def Let_def
    by (auto split: sum.split option.split list.split simp: stamp_receipt_def buildAbortCommit_def buildCommit_def
        record_assignment_def assms intro!: ok_abort ok_commit ok_commit_unrewarded wf)
qed

lemma ok_checkpointed:
  assumes "coordinator_ok L xc" shows "coordinator_ok L (snd (coordinatorCheckpoint L env A req reason sq xc))"
  using assms by (simp add: coordinatorCheckpoint_def Let_def split_beta ok_frame ok_append)

lemma restore_frame:
  "\<exists>mission m. snd (restoreFromLatestCheckpoint L env F xc) = xc\<lparr>xc_mission := mission, xc_map := m\<rparr>"
  by (auto simp: restoreFromLatestCheckpoint_def split_beta)

lemma ok_restored:
  assumes "coordinator_ok L xc" shows "coordinator_ok L (snd (restoreFromLatestCheckpoint L env F xc))"
  using restore_frame [of L env F xc] assms by (auto simp: ok_frame)

lemma ok_rehydrated:
  assumes "coordinator_ok L xc" shows "coordinator_ok L (snd (rehydrateMissionState L env F xc))"
  by (simp add: rehydrateMissionState_def split_beta ok_append ok_restored [OF assms])

lemma ok_synced: "coordinator_ok L xc \<Longrightarrow> coordinator_ok L (requestSyncFromPeers L env hints xc)"
  by (induction hints arbitrary: env xc) (simp_all add: ok_append)

lemma coordinator_reach_ok: "coordinator_reach L xc \<Longrightarrow> coordinator_ok L xc"
  by (induction rule: coordinator_reach.induct)
    (simp_all add: ok_created ok_opened ok_submitted ok_committed ok_checkpointed ok_restored ok_rehydrated ok_synced ok_frame)

text \<open>
  C37. In every state a coordinator can reach, the ledger and the commit history tell the same
  story: the \<open>task_assignment_committed\<close> events state, in order, the winner, the bid, the sequence
  and the proof of the committed records, there is one \<open>task_assignment_aborted\<close> event per aborted
  record and no record of another phase, and the ledger verifies.
\<close>

theorem ledger_mirrors_commits:
  assumes "coordinator_reach L xc"
  shows "fst (verify_ledger L (xc_ledger xc)) \<and> books_agree xc"
  using coordinator_reach_ok [OF assms] verify_ledger_wf by (auto simp: coordinator_ok_def)

definition weighed_round :: coordinator where
  "weighed_round = snd (commitBids toy_lib (demo_env 3) (toy_adapters True True) ''t'' ''n'' []
     (snd (submitMissionBid toy_lib (demo_env 2) (toy_adapters True True) (toy_bid ''b'' ''t'' ''n'')
       (snd (openBidding toy_lib (demo_env 1) (toy_task ''t'') 1 1 4000
          (new_coordinator ''m'' (new_shared_map ''m'') toy_mission new_ledger))))))"

theorem ledger_mirrors_commits_witness:
  "fst (verify_ledger toy_lib (xc_ledger weighed_round)) \<and> books_agree weighed_round"
  by (rule ledger_mirrors_commits) (unfold weighed_round_def, intro coordinator_reach.intros)

subsection \<open>Checkpoints of the coordinator\<close>

definition plain_hash :: "js_lib \<Rightarrow> bool" where
  "plain_hash L \<longleftrightarrow> (\<forall>v. sha L v \<noteq> [] \<and> sha L v \<noteq> genesis)"

lemma plain_hash_object: "plain_hash L \<Longrightarrow> hash_object (sha L) v \<noteq> [] \<and> hash_object (sha L) v \<noteq> genesis"
  by (simp add: plain_hash_def hash_object_def)

lemma lastHash_nonempty:
  assumes "plain_hash L" "wf_ledger L lg" shows "lastHash lg \<noteq> []"
proof (cases "lg_entries lg" rule: rev_cases)
  case (snoc es e)
  then have "sealed L e" using assms(2) by (simp add: wf_ledger_def linked_snoc)
  then show ?thesis using plain_hash_object [OF assms(1)] by (simp add: lastHash_def snoc sealed_def)
qed (simp add: lastHash_def genesis_def)

lemma plannerCheckpoint_fields:
  "rc_mapVersion (fst (plannerCheckpoint L env reason who sq ctx)) = getVersion (rx_map ctx)"
  "rc_lastLedgerHash (fst (plannerCheckpoint L env reason who sq ctx)) = lastHash (rx_ledger ctx)"
  by (simp_all add: plannerCheckpoint_def createCheckpoint_def Let_def split_beta snapshot_def getVersion_def)

lemma plannerCheckpoint_verifies:
  assumes "plain_hash L" "rx_missionId ctx \<noteq> []" "lastHash (rx_ledger ctx) \<noteq> []"
  shows "cv_ok (verifyCheckpoint L env' (fst (plannerCheckpoint L env reason who sq ctx)) h v ttl) \<longleftrightarrow>
    h = lastHash (rx_ledger ctx) \<and> v = getVersion (rx_map ctx)"
  using plain_hash_object [OF assms(1)] assms(2,3)
  by (simp add: plannerCheckpoint_def Let_def split_beta verifyCheckpoint_fresh snapshot_def getVersion_def)

lemma checkpoint_ledger:
  assumes "plain_hash L" "wf_ledger L (xc_ledger xc)" "xc_missionId xc \<noteq> []"
  shows "xc_ledger (snd (coordinatorCheckpoint L env A req reason sq xc)) =
    snd (append_event L (later_ids 1 env) (ledger_entry_of (xc_missionId xc) ''recovery_checkpoint_created'' req
      (checkpoint_created_fields (fst (coordinatorCheckpoint L env A req reason sq xc)) reason)) (xc_ledger xc))"
proof -
  have "cv_ok (verifyCheckpoint L env (fst (plannerCheckpoint L env reason req sq (recoveryContext xc)))
      (lastHash (xc_ledger xc)) (rc_mapVersion (fst (plannerCheckpoint L env reason req sq (recoveryContext xc)))) 15000)"
    using plannerCheckpoint_verifies [OF assms(1)] assms(3) lastHash_nonempty [OF assms(1,2)]
    by (simp add: recoveryContext_def plannerCheckpoint_fields)
  then show ?thesis by (simp add: coordinatorCheckpoint_def Let_def split_beta)
qed

lemma checkpoint_seals_head:
  "rc_lastLedgerHash (fst (coordinatorCheckpoint L env A req reason sq xc)) = lastHash (xc_ledger xc)"
  by (simp add: coordinatorCheckpoint_def Let_def split_beta plannerCheckpoint_fields recoveryContext_def)

text \<open>
  Creating a checkpoint logs exactly one event, \<open>recovery_checkpoint_created\<close>, naming the
  checkpoint it returns and the head it seals: for a mission with a name and a ledger built by
  \<open>append\<close>, the check that follows always succeeds and \<open>recovery_checkpoint_warn\<close> is never logged.
\<close>

theorem checkpoint_logged_once:
  assumes "plain_hash L" "wf_ledger L (xc_ledger xc)" "xc_missionId xc \<noteq> []"
  shows "\<exists>e. all_events (xc_ledger (snd (coordinatorCheckpoint L env A req reason sq xc))) = all_events (xc_ledger xc) @ [e] \<and>
    le_kind e = ''recovery_checkpoint_created'' \<and>
    js_get (ep_fields (le_payload e)) ''checkpointId'' =
      Some (JStr (rc_checkpointId (fst (coordinatorCheckpoint L env A req reason sq xc)))) \<and>
    js_get (ep_fields (le_payload e)) ''lastLedgerHash'' = Some (JStr (lastHash (xc_ledger xc)))"
  unfolding checkpoint_ledger [OF assms] all_events_def append_event_entries(1)
  by (intro exI conjI, rule refl)
    (simp_all add: append_event_entries ledger_entry_of_def plain_payload_def checkpoint_created_fields_def checkpoint_seals_head)

definition fresh_coordinator :: coordinator where
  "fresh_coordinator = new_coordinator ''m'' (new_shared_map ''m'') toy_mission new_ledger"

lemma fresh_facts:
  "plain_hash toy_lib" "wf_ledger L (xc_ledger fresh_coordinator)" "xc_missionId fresh_coordinator \<noteq> []"
  "all_events (xc_ledger fresh_coordinator) = []"
  by (simp_all add: plain_hash_def toy_lib_def genesis_def fresh_coordinator_def new_coordinator_def wf_new_ledger
      all_events_def) (simp add: new_ledger_def)

theorem checkpoint_logged_once_witness:
  "length (all_events (xc_ledger (snd (coordinatorCheckpoint toy_lib (demo_env 1) (toy_adapters True True) ''n'' [] 0
     fresh_coordinator)))) = 1"
  using checkpoint_logged_once [OF fresh_facts(1-3), of "demo_env 1" "toy_adapters True True" "''n''" "[]" 0]
  by (auto simp: fresh_facts(4))

lemma head_moves:
  assumes "wf_ledger L lg" "plain_hash L" "hash_free_of_collisions (sha L) S"
    "\<And>e. e \<in> set (all_events (snd (append_event L env entry lg))) \<Longrightarrow> JObj (sealed_obj e) \<in> S"
  shows "lastHash (snd (append_event L env entry lg)) \<noteq> lastHash lg"
proof (cases "lg_entries lg" rule: rev_cases)
  case Nil
  then show ?thesis
    using plain_hash_object [OF assms(2)] append_event_sealed(1) [of L env entry lg]
    by (simp add: append_event_entries(6) sealed_def) (simp add: lastHash_def)
next
  case (snoc es d)
  let ?e = "fst (append_event L env entry lg)"
  have d: "sealed L d" "le_blockIndex d = int (length es)" using assms(1) by (simp_all add: wf_ledger_def snoc linked_snoc)
  have inS: "JObj (sealed_obj ?e) \<in> S" "JObj (sealed_obj d) \<in> S"
    using assms(4) by (simp_all add: all_events_def append_event_entries snoc)
  show ?thesis
  proof
    assume "lastHash (snd (append_event L env entry lg)) = lastHash lg"
    then have "hash_object (sha L) (JObj (sealed_obj ?e)) = hash_object (sha L) (JObj (sealed_obj d))"
      using append_event_sealed(1) [of L env entry lg] d(1)
      by (simp add: append_event_entries(6) sealed_def) (simp add: lastHash_def snoc)
    then have "stable (JObj (sealed_obj ?e)) = stable (JObj (sealed_obj d))"
      using assms(3) inS unfolding hash_free_of_collisions_def by blast
    then have "le_blockIndex ?e = le_blockIndex d" using sealed_obj_stable by blast
    then show False by (simp add: append_event_sealed(2) d(2) snoc)
  qed
qed

text \<open>
  Verified against the coordinator's own ledger head, the default of \<open>verifyCheckpoint\<close>, a
  checkpoint that was just created is rejected with a ledger mismatch: logging its creation has
  moved the head it sealed. Only the sealed head itself makes it verify.
\<close>

theorem fresh_checkpoint_outdated:
  assumes "plain_hash L" "wf_ledger L (xc_ledger xc)" "xc_missionId xc \<noteq> []" "hash_free_of_collisions (sha L) S"
    "\<And>e. e \<in> set (all_events (xc_ledger (snd (coordinatorCheckpoint L env A req reason sq xc)))) \<Longrightarrow> JObj (sealed_obj e) \<in> S"
  shows "cv_ledgerMismatch (verifyMissionCheckpoint L env' (fst (coordinatorCheckpoint L env A req reason sq xc)) None
      (snd (coordinatorCheckpoint L env A req reason sq xc))) \<and>
    cv_ok (verifyMissionCheckpoint L env' (fst (coordinatorCheckpoint L env A req reason sq xc)) (Some (lastHash (xc_ledger xc)))
      (snd (coordinatorCheckpoint L env A req reason sq xc)))"
proof -
  let ?xc = "snd (coordinatorCheckpoint L env A req reason sq xc)"
  have moved: "lastHash (xc_ledger ?xc) \<noteq> lastHash (xc_ledger xc)"
    unfolding checkpoint_ledger [OF assms(1-3)]
    by (rule head_moves [OF assms(2,1,4)]) (rule assms(5), simp only: checkpoint_ledger [OF assms(1-3)])
  have mp: "xc_map ?xc = xc_map xc" by (simp add: coordinatorCheckpoint_def Let_def split_beta)
  have c: "fst (coordinatorCheckpoint L env A req reason sq xc) = fst (plannerCheckpoint L env reason req sq (recoveryContext xc))"
    by (simp add: coordinatorCheckpoint_def Let_def split_beta)
  have "cv_ok (verifyCheckpoint L env' (fst (plannerCheckpoint L env reason req sq (recoveryContext xc)))
      (lastHash (xc_ledger xc)) (getVersion (xc_map xc)) 15000)"
    using plannerCheckpoint_verifies [OF assms(1)] assms(3) lastHash_nonempty [OF assms(1,2)]
    by (simp add: recoveryContext_def)
  moreover have "rc_lastLedgerHash (fst (plannerCheckpoint L env reason req sq (recoveryContext xc))) = lastHash (xc_ledger xc)"
    by (simp add: plannerCheckpoint_fields recoveryContext_def)
  ultimately show ?thesis
    using moved by (simp add: verifyMissionCheckpoint_def validateCheckpoint_def recoveryContext_def [of ?xc] mp c)
      (simp add: verifyCheckpoint_def Let_def)
qed

theorem fresh_checkpoint_outdated_witness:
  "\<not> cv_ok (verifyMissionCheckpoint toy_lib (demo_env 9)
     (fst (coordinatorCheckpoint toy_lib (demo_env 1) (toy_adapters True True) ''n'' [] 0 fresh_coordinator)) None
     (snd (coordinatorCheckpoint toy_lib (demo_env 1) (toy_adapters True True) ''n'' [] 0 fresh_coordinator)))"
proof -
  let ?xc = "snd (coordinatorCheckpoint toy_lib (demo_env 1) (toy_adapters True True) ''n'' [] 0 fresh_coordinator)"
  obtain e where "all_events (xc_ledger ?xc) = [e]"
    using fresh_facts(4) by (simp add: checkpoint_ledger [OF fresh_facts(1-3)] all_events_def append_event_entries)
  then have "cv_ledgerMismatch (verifyMissionCheckpoint toy_lib (demo_env 9)
     (fst (coordinatorCheckpoint toy_lib (demo_env 1) (toy_adapters True True) ''n'' [] 0 fresh_coordinator)) None ?xc)"
    using fresh_checkpoint_outdated [OF fresh_facts(1-3), of "{JObj (sealed_obj e)}" "demo_env 1" "toy_adapters True True"
        "''n''" "[]" 0 "demo_env 9"]
    by (simp add: hash_free_of_collisions_def)
  then show ?thesis by (simp add: verifyMissionCheckpoint_def validateCheckpoint_def verifyCheckpoint_def Let_def)
qed

end
