(* ===== verification/LatticeRegistry.thy ===== *)
theory LatticeRegistry
  imports TaskBidding
begin

section \<open>The Lattice node registry\<close>

text \<open>
  Models the data and the class \<open>NodeRegistry\<close> of
  \<open>src/src/backend/lattice/lattice-reward-stack.ts\<close>, with the default policy of each scenario.
  The enumerations \<open>NodeRole\<close>, \<open>ScenarioKind\<close> and \<open>RewardKind\<close> and the type \<open>XYPoint\<close> have
  the same members as in the mission modules and are shared with them. The registry keeps its
  nodes in a \<open>Map\<close>; an absent \<open>metadata\<close> is the empty object; an entry of the history is a time
  and a typed event. \<open>Date.now()\<close> is read once per call. The lemmas show which scores the registry
  keeps in range and what a health report does to earlier attestations.
\<close>

subsection \<open>Data\<close>

datatype health_status = HealthHealthy | HealthDegraded | HealthUnhealthy | HealthOffline | HealthUnknown

datatype validation_type =
    ValDiscovery | ValCapability | ValTaskCompletion | ValRelayContinuity | ValVictimConfirmation
  | ValExtraction | ValGeofenceBreach | ValReconnect | ValMapContribution | ValSafetyResponse

datatype capability_tag =
    TagCamera | TagThermal | TagIR | TagGPS | TagIMU | TagLidar | TagSmokeResistant | TagHighTemp
  | TagWaterproof | TagRelay | TagIndoor | TagOutdoor | TagLongRange | TagCompact | TagGasSensor
  | TagBarometer | TagAudio | TagGripper | TagPayload | TagTransport

record node_endpoint =
  ne_host :: string
  ne_port :: int
  ne_scheme :: "string option"

record lattice_health =
  lh_timestampMs :: timestamp
  lh_batteryPct :: real
  lh_cpuPct :: real
  lh_memoryPct :: real
  lh_linkQuality :: real
  lh_gpsFix :: bool
  lh_temperatureC :: "real option"
  lh_missionId :: "ident option"
  lh_status :: health_status

text \<open>\<open>Partial<NodeHealthSample>\<close>, the argument of \<open>updateHealth\<close>\<close>

record health_patch =
  hp_timestampMs :: "timestamp option"
  hp_batteryPct :: "real option"
  hp_cpuPct :: "real option"
  hp_memoryPct :: "real option"
  hp_linkQuality :: "real option"
  hp_gpsFix :: "bool option"
  hp_temperatureC :: "real option"
  hp_missionId :: "ident option"
  hp_status :: "health_status option"

record lattice_capability =
  lc_tags :: "capability_tag list"
  lc_sensorStack :: "string list"
  lc_maxRangeM :: real
  lc_maxAltitudeM :: real
  lc_indoorSuitability :: real
  lc_outdoorSuitability :: real
  lc_hazardClearance :: "string list"
  lc_notes :: "obj option"

record lattice_node =
  ln_nodeId :: ident
  ln_displayName :: string
  ln_role :: node_role
  ln_endpoint :: "node_endpoint option"
  ln_publicKey :: string
  ln_vendor :: "string option"
  ln_model :: "string option"
  ln_location :: "xy_point option"
  ln_capabilityProfile :: lattice_capability
  ln_health :: lattice_health
  ln_trustScore :: real
  ln_reputationScore :: real
  ln_rewardPoints :: real
  ln_contributionCount :: int
  ln_successfulTasks :: int
  ln_failedTasks :: int
  ln_lastSeenMs :: timestamp
  ln_firstSeenMs :: timestamp
  ln_missionId :: "ident option"
  ln_metadata :: obj

record discovery_event =
  dv_nodeId :: ident
  dv_discoveredBy :: ident
  dv_missionId :: "ident option"
  dv_seenAtMs :: timestamp
  dv_endpoint :: "node_endpoint option"
  dv_location :: "xy_point option"
  dv_metadata :: obj

record peer_attestation =
  pa_witnessId :: ident
  pa_subjectNodeId :: ident
  pa_validationType :: validation_type
  pa_accepted :: bool
  pa_reason :: string
  pa_timestampMs :: timestamp
  pa_evidenceHash :: string

record scenario_policy =
  sp_scenario :: scenario_kind
  sp_minNodes :: int
  sp_requiredRoles :: "(node_role, int) jsmap"
  sp_capabilityWeights :: "(capability_tag, real) jsmap"
  sp_trustWeight :: real
  sp_batteryWeight :: real
  sp_distanceWeight :: real
  sp_linkWeight :: real
  sp_healthWeight :: real
  sp_indoorBias :: real
  sp_outdoorBias :: real
  sp_rewardMultipliers :: "(reward_kind, real) jsmap"
  sp_hazardRequirements :: "string list"

definition deriveHealthStatus :: "real \<Rightarrow> real \<Rightarrow> real \<Rightarrow> real \<Rightarrow> health_status" where
  "deriveHealthStatus batteryPct linkQuality cpuPct memoryPct =
     (if batteryPct < 6 \<or> linkQuality < 8 / 100 then HealthUnhealthy
      else if batteryPct < 22 \<or> linkQuality < 35 / 100 \<or> cpuPct > 88 \<or> memoryPct > 88 then HealthDegraded
      else HealthHealthy)"

definition derived_status :: "lattice_health \<Rightarrow> health_status" where
  "derived_status h = deriveHealthStatus (lh_batteryPct h) (lh_linkQuality h) (lh_cpuPct h) (lh_memoryPct h)"

definition known_status :: "lattice_health \<Rightarrow> health_status" where
  "known_status h = (if lh_status h \<noteq> HealthUnknown then lh_status h else derived_status h)"

subsection \<open>Default policies\<close>

definition collapsed_building_policy :: scenario_policy where
  "collapsed_building_policy = \<lparr> sp_scenario = CollapsedBuilding, sp_minNodes = 5,
     sp_requiredRoles = [(Explorer, 2), (Relay, 1), (Triage, 1), (Rescuer, 1)],
     sp_capabilityWeights = [(TagIndoor, 3), (TagCamera, 2), (TagIMU, 2), (TagGPS, 1), (TagLidar, 2), (TagCompact, 2), (TagRelay, 2)],
     sp_trustWeight = 24 / 100, sp_batteryWeight = 18 / 100, sp_distanceWeight = 22 / 100, sp_linkWeight = 12 / 100,
     sp_healthWeight = 24 / 100, sp_indoorBias = 4 / 10, sp_outdoorBias = 1 / 10,
     sp_rewardMultipliers = [(RewardWork, 1), (RewardRescue, 14 / 10), (RewardRelay, 12 / 10), (RewardValidation, 11 / 10), (RewardRecovery, 11 / 10)],
     sp_hazardRequirements = [''collapse'', ''dust'', ''low_light''] \<rparr>"

definition cave_tunnel_policy :: scenario_policy where
  "cave_tunnel_policy = \<lparr> sp_scenario = CaveTunnel, sp_minNodes = 4,
     sp_requiredRoles = [(Explorer, 1), (Relay, 2), (Rescuer, 1)],
     sp_capabilityWeights = [(TagRelay, 3), (TagLongRange, 2), (TagCompact, 2), (TagIMU, 2), (TagLidar, 2), (TagGPS, 1), (TagIndoor, 2)],
     sp_trustWeight = 25 / 100, sp_batteryWeight = 14 / 100, sp_distanceWeight = 18 / 100, sp_linkWeight = 2 / 10,
     sp_healthWeight = 23 / 100, sp_indoorBias = 5 / 10, sp_outdoorBias = 0,
     sp_rewardMultipliers = [(RewardWork, 1), (RewardRelay, 16 / 10), (RewardValidation, 12 / 10), (RewardRecovery, 11 / 10)],
     sp_hazardRequirements = [''gps_loss'', ''narrow_passage'', ''link_loss''] \<rparr>"

definition flood_policy :: scenario_policy where
  "flood_policy = \<lparr> sp_scenario = Flood, sp_minNodes = 6,
     sp_requiredRoles = [(Explorer, 1), (Transport, 2), (Rescuer, 2), (Relay, 1)],
     sp_capabilityWeights = [(TagWaterproof, 4), (TagPayload, 3), (TagTransport, 3), (TagCamera, 1), (TagGPS, 2)],
     sp_trustWeight = 23 / 100, sp_batteryWeight = 2 / 10, sp_distanceWeight = 18 / 100, sp_linkWeight = 12 / 100,
     sp_healthWeight = 27 / 100, sp_indoorBias = 0, sp_outdoorBias = 4 / 10,
     sp_rewardMultipliers = [(RewardWork, 1), (RewardRescue, 15 / 10), (RewardRecovery, 12 / 10)],
     sp_hazardRequirements = [''water'', ''current'', ''storm''] \<rparr>"

definition wildfire_policy :: scenario_policy where
  "wildfire_policy = \<lparr> sp_scenario = Wildfire, sp_minNodes = 6,
     sp_requiredRoles = [(Explorer, 2), (Relay, 1), (Triage, 2), (Rescuer, 1)],
     sp_capabilityWeights = [(TagThermal, 4), (TagSmokeResistant, 4), (TagHighTemp, 4), (TagIR, 2), (TagCamera, 1), (TagLongRange, 1)],
     sp_trustWeight = 22 / 100, sp_batteryWeight = 16 / 100, sp_distanceWeight = 16 / 100, sp_linkWeight = 12 / 100,
     sp_healthWeight = 34 / 100, sp_indoorBias = 0, sp_outdoorBias = 5 / 10,
     sp_rewardMultipliers = [(RewardWork, 1), (RewardRescue, 16 / 10), (RewardValidation, 12 / 10), (RewardSafety, 125 / 100)],
     sp_hazardRequirements = [''heat'', ''smoke'', ''rapid_change''] \<rparr>"

definition industrial_policy :: scenario_policy where
  "industrial_policy = \<lparr> sp_scenario = Industrial, sp_minNodes = 5,
     sp_requiredRoles = [(Explorer, 1), (Relay, 1), (Triage, 1), (Sensor, 2)],
     sp_capabilityWeights = [(TagGasSensor, 4), (TagBarometer, 2), (TagCamera, 2), (TagIMU, 1), (TagIndoor, 2)],
     sp_trustWeight = 24 / 100, sp_batteryWeight = 16 / 100, sp_distanceWeight = 17 / 100, sp_linkWeight = 13 / 100,
     sp_healthWeight = 3 / 10, sp_indoorBias = 2 / 10, sp_outdoorBias = 0,
     sp_rewardMultipliers = [(RewardWork, 1), (RewardValidation, 11 / 10), (RewardSafety, 13 / 10)],
     sp_hazardRequirements = [''hazmat'', ''toxic'', ''sparks''] \<rparr>"

definition forest_policy :: scenario_policy where
  "forest_policy = \<lparr> sp_scenario = Forest, sp_minNodes = 5,
     sp_requiredRoles = [(Explorer, 2), (Relay, 1), (Rescuer, 2)],
     sp_capabilityWeights = [(TagLongRange, 4), (TagCamera, 2), (TagGPS, 2), (TagThermal, 1), (TagOutdoor, 3)],
     sp_trustWeight = 2 / 10, sp_batteryWeight = 2 / 10, sp_distanceWeight = 22 / 100, sp_linkWeight = 12 / 100,
     sp_healthWeight = 26 / 100, sp_indoorBias = 0, sp_outdoorBias = 5 / 10,
     sp_rewardMultipliers = [(RewardWork, 1), (RewardDiscovery, 12 / 10), (RewardRescue, 13 / 10)],
     sp_hazardRequirements = [''wide_area'', ''terrain'', ''weather''] \<rparr>"

definition night_policy :: scenario_policy where
  "night_policy = \<lparr> sp_scenario = Night, sp_minNodes = 4,
     sp_requiredRoles = [(Explorer, 1), (Relay, 1), (Rescuer, 2)],
     sp_capabilityWeights = [(TagIR, 4), (TagCamera, 2), (TagLidar, 2), (TagGPS, 1)],
     sp_trustWeight = 2 / 10, sp_batteryWeight = 16 / 100, sp_distanceWeight = 18 / 100, sp_linkWeight = 12 / 100,
     sp_healthWeight = 34 / 100, sp_indoorBias = 15 / 100, sp_outdoorBias = 25 / 100,
     sp_rewardMultipliers = [(RewardWork, 1), (RewardRescue, 12 / 10)],
     sp_hazardRequirements = [''darkness'', ''line_of_sight'', ''fatigue''] \<rparr>"

definition indoor_policy :: scenario_policy where
  "indoor_policy = \<lparr> sp_scenario = Indoor, sp_minNodes = 4,
     sp_requiredRoles = [(Explorer, 2), (Triage, 1), (Relay, 1)],
     sp_capabilityWeights = [(TagIndoor, 4), (TagCompact, 3), (TagCamera, 2), (TagIMU, 2), (TagLidar, 2)],
     sp_trustWeight = 24 / 100, sp_batteryWeight = 16 / 100, sp_distanceWeight = 2 / 10, sp_linkWeight = 12 / 100,
     sp_healthWeight = 28 / 100, sp_indoorBias = 5 / 10, sp_outdoorBias = 0,
     sp_rewardMultipliers = [(RewardWork, 1), (RewardDiscovery, 12 / 10), (RewardValidation, 11 / 10)],
     sp_hazardRequirements = [''stairwell'', ''doorways'', ''gps_loss''] \<rparr>"

definition perimeter_policy :: scenario_policy where
  "perimeter_policy = \<lparr> sp_scenario = Perimeter, sp_minNodes = 4,
     sp_requiredRoles = [(Explorer, 1), (Relay, 1), (Sensor, 2)],
     sp_capabilityWeights = [(TagLongRange, 3), (TagCamera, 2), (TagGPS, 2), (TagOutdoor, 2)],
     sp_trustWeight = 2 / 10, sp_batteryWeight = 18 / 100, sp_distanceWeight = 24 / 100, sp_linkWeight = 12 / 100,
     sp_healthWeight = 26 / 100, sp_indoorBias = 0, sp_outdoorBias = 4 / 10,
     sp_rewardMultipliers = [(RewardWork, 1), (RewardDiscovery, 11 / 10), (RewardValidation, 11 / 10)],
     sp_hazardRequirements = [''boundary'', ''unauthorized'', ''outlier''] \<rparr>"

definition triage_policy :: scenario_policy where
  "triage_policy = \<lparr> sp_scenario = TriageScenario, sp_minNodes = 5,
     sp_requiredRoles = [(Explorer, 1), (Triage, 2), (Rescuer, 2)],
     sp_capabilityWeights = [(TagCamera, 2), (TagAudio, 2), (TagGPS, 1), (TagIndoor, 2), (TagIR, 1)],
     sp_trustWeight = 22 / 100, sp_batteryWeight = 16 / 100, sp_distanceWeight = 2 / 10, sp_linkWeight = 12 / 100,
     sp_healthWeight = 3 / 10, sp_indoorBias = 25 / 100, sp_outdoorBias = 15 / 100,
     sp_rewardMultipliers = [(RewardWork, 1), (RewardRescue, 15 / 10), (RewardValidation, 12 / 10)],
     sp_hazardRequirements = [''multiple_victims'', ''priority'', ''capacity''] \<rparr>"

fun scenarioDefaultPolicy :: "scenario_kind \<Rightarrow> scenario_policy" where
  "scenarioDefaultPolicy CollapsedBuilding = collapsed_building_policy"
| "scenarioDefaultPolicy CaveTunnel = cave_tunnel_policy"
| "scenarioDefaultPolicy Flood = flood_policy"
| "scenarioDefaultPolicy Wildfire = wildfire_policy"
| "scenarioDefaultPolicy Industrial = industrial_policy"
| "scenarioDefaultPolicy Forest = forest_policy"
| "scenarioDefaultPolicy Night = night_policy"
| "scenarioDefaultPolicy Indoor = indoor_policy"
| "scenarioDefaultPolicy Perimeter = perimeter_policy"
| "scenarioDefaultPolicy TriageScenario = triage_policy"

subsection \<open>The registry\<close>

datatype registry_event =
    EvRegister ident node_role
  | EvRemove ident
  | EvDiscovery ident ident
  | EvHealth ident lattice_health
  | EvCapability ident lattice_capability
  | EvAttestation peer_attestation

record node_registry =
  nr_nodes :: "(ident, lattice_node) jsmap"
  nr_discoveries :: "discovery_event list"
  nr_attestations :: "peer_attestation list"
  nr_history :: "(timestamp \<times> registry_event) list"
  nr_policies :: "(scenario_kind, scenario_policy) jsmap"

definition new_node_registry :: "(scenario_kind, scenario_policy) jsmap \<Rightarrow> node_registry" where
  "new_node_registry policies =
     \<lparr> nr_nodes = [], nr_discoveries = [], nr_attestations = [], nr_history = [], nr_policies = policies \<rparr>"

definition put_node :: "js_env \<Rightarrow> lattice_node \<Rightarrow> registry_event \<Rightarrow> node_registry \<Rightarrow> node_registry" where
  "put_node env node ev nr =
     nr\<lparr> nr_nodes := js_put (ln_nodeId node) node (nr_nodes nr), nr_history := nr_history nr @ [(now_ms env, ev)] \<rparr>"

definition policyFor :: "scenario_kind \<Rightarrow> node_registry \<Rightarrow> scenario_policy \<times> node_registry" where
  "policyFor scenario nr =
     (case js_get (nr_policies nr) scenario of
        Some existing \<Rightarrow> (existing, nr)
      | None \<Rightarrow>
          (let generated = scenarioDefaultPolicy scenario
           in (generated, nr\<lparr>nr_policies := js_put scenario generated (nr_policies nr)\<rparr>)))"

definition normalize :: "lattice_node \<Rightarrow> lattice_node" where
  "normalize node =
     (let h = (ln_health node)\<lparr> lh_batteryPct := clamp (lh_batteryPct (ln_health node)) 0 100,
            lh_cpuPct := clamp (lh_cpuPct (ln_health node)) 0 100,
            lh_memoryPct := clamp (lh_memoryPct (ln_health node)) 0 100,
            lh_linkQuality := clamp (lh_linkQuality (ln_health node)) 0 1 \<rparr>
      in node\<lparr> ln_trustScore := clamp (ln_trustScore node) 0 1,
               ln_reputationScore := clamp (ln_reputationScore node) 0 1,
               ln_health := h\<lparr>lh_status := known_status h\<rparr> \<rparr>)"

definition trustFromHealth :: "lattice_node \<Rightarrow> real" where
  "trustFromHealth node =
     (let h = ln_health node
      in clamp (1 / 2 + (lh_batteryPct h / 100) * (18 / 100) + lh_linkQuality h * (2 / 10)
           + (if lh_gpsFix h then 5 / 100 else - 5 / 100)
           + (if lh_cpuPct h < 80 then 3 / 100 else - 3 / 100)
           + (if lh_memoryPct h < 80 then 3 / 100 else - 3 / 100)
           - (case lh_temperatureC h of Some t \<Rightarrow> if t > 75 then 8 / 100 else 0 | None \<Rightarrow> 0)
           - (if default_to (lh_missionId h) [] = [] then 2 / 100 else 0)
           - (if lh_status h = HealthDegraded then 4 / 100 else 0)
           - (if lh_status h = HealthUnhealthy \<or> lh_status h = HealthOffline then 12 / 100 else 0)) 0 1)"

definition reputationFromState :: "js_env \<Rightarrow> lattice_node \<Rightarrow> real" where
  "reputationFromState env node =
     (let denom = ln_successfulTasks node + ln_failedTasks node;
          successRate = (if denom > 0 then real_of_int (ln_successfulTasks node) / real_of_int denom else 1 / 2);
          recentBonus = (if ln_lastSeenMs node > now_ms env - 5000 then 4 / 100 else 0)
      in clamp (3 / 10 + successRate * (4 / 10) + clamp (real_of_int (ln_contributionCount node) / 50) 0 (2 / 10)
           + recentBonus) 0 1)"

text \<open>Both scores, as \<open>updateHealth\<close> and \<open>updateCapability\<close> recompute them.\<close>

definition rescored :: "js_env \<Rightarrow> lattice_node \<Rightarrow> lattice_node" where
  "rescored env node = node\<lparr> ln_trustScore := trustFromHealth node, ln_reputationScore := reputationFromState env node \<rparr>"

definition get_node :: "ident \<Rightarrow> node_registry \<Rightarrow> lattice_node option" where
  "get_node nodeId nr = js_get (nr_nodes nr) nodeId"

definition register :: "js_env \<Rightarrow> lattice_node \<Rightarrow> node_registry \<Rightarrow> lattice_node \<times> node_registry" where
  "register env node nr =
     (case js_get (nr_nodes nr) (ln_nodeId node) of
        Some current \<Rightarrow>
          if ln_lastSeenMs node \<ge> ln_lastSeenMs current
          then (normalize node, put_node env (normalize node) (EvRegister (ln_nodeId node) (ln_role node)) nr)
          else (current, nr)
      | None \<Rightarrow> (normalize node, put_node env (normalize node) (EvRegister (ln_nodeId node) (ln_role node)) nr))"

definition all_nodes :: "node_registry \<Rightarrow> lattice_node list" where
  "all_nodes nr = js_sort (by_desc ln_lastSeenMs) (js_values (nr_nodes nr))"

definition active_nodes :: "js_env \<Rightarrow> int \<Rightarrow> node_registry \<Rightarrow> lattice_node list" where
  "active_nodes env thresholdMs nr =
     filter (\<lambda>n. now_ms env - ln_lastSeenMs n < thresholdMs \<and> lh_status (ln_health n) \<noteq> HealthOffline) (all_nodes nr)"

definition stale_nodes :: "js_env \<Rightarrow> int \<Rightarrow> node_registry \<Rightarrow> lattice_node list" where
  "stale_nodes env thresholdMs nr =
     filter (\<lambda>n. now_ms env - ln_lastSeenMs n \<ge> thresholdMs \<or> lh_status (ln_health n) = HealthOffline) (all_nodes nr)"

definition remove_node :: "js_env \<Rightarrow> ident \<Rightarrow> node_registry \<Rightarrow> bool \<times> node_registry" where
  "remove_node env nodeId nr =
     (if js_get (nr_nodes nr) nodeId \<noteq> None
      then (True, nr\<lparr> nr_nodes := js_remove nodeId (nr_nodes nr),
                      nr_history := nr_history nr @ [(now_ms env, EvRemove nodeId)] \<rparr>)
      else (False, nr))"

definition base_health :: "discovery_event \<Rightarrow> lattice_node option \<Rightarrow> lattice_health" where
  "base_health ev existing =
     (case existing of
        Some n \<Rightarrow> ln_health n
      | None \<Rightarrow> \<lparr> lh_timestampMs = dv_seenAtMs ev, lh_batteryPct = 100, lh_cpuPct = 0, lh_memoryPct = 0,
          lh_linkQuality = 1, lh_gpsFix = True, lh_temperatureC = None, lh_missionId = None,
          lh_status = HealthHealthy \<rparr>)"

definition empty_capability :: lattice_capability where
  "empty_capability = \<lparr> lc_tags = [], lc_sensorStack = [], lc_maxRangeM = 0, lc_maxAltitudeM = 0,
     lc_indoorSuitability = 1 / 2, lc_outdoorSuitability = 1 / 2, lc_hazardClearance = [], lc_notes = None \<rparr>"

definition discovered_node :: "discovery_event \<Rightarrow> lattice_node option \<Rightarrow> lattice_node" where
  "discovered_node ev existing =
     (let baseHealth = base_health ev existing;
          keep = (\<lambda>f d. default_to (map_option f existing) d)
      in \<lparr> ln_nodeId = dv_nodeId ev,
           ln_displayName = default_to (map_option ln_displayName existing) (dv_nodeId ev),
           ln_role = default_to (map_option ln_role existing) Standby,
           ln_endpoint = nullish (dv_endpoint ev) (Option.bind existing ln_endpoint),
           ln_publicKey = default_to (map_option ln_publicKey existing) [],
           ln_vendor = Option.bind existing ln_vendor, ln_model = Option.bind existing ln_model,
           ln_location = nullish (dv_location ev) (Option.bind existing ln_location),
           ln_capabilityProfile = default_to (map_option ln_capabilityProfile existing) empty_capability,
           ln_health = baseHealth\<lparr>lh_status := known_status baseHealth\<rparr>,
           ln_trustScore = keep ln_trustScore (1 / 2), ln_reputationScore = keep ln_reputationScore (1 / 2),
           ln_rewardPoints = keep ln_rewardPoints 0,
           ln_contributionCount = default_to (map_option ln_contributionCount existing) 0,
           ln_successfulTasks = default_to (map_option ln_successfulTasks existing) 0,
           ln_failedTasks = default_to (map_option ln_failedTasks existing) 0,
           ln_lastSeenMs = dv_seenAtMs ev,
           ln_firstSeenMs = default_to (map_option ln_firstSeenMs existing) (dv_seenAtMs ev),
           ln_missionId = nullish (dv_missionId ev) (Option.bind existing ln_missionId),
           ln_metadata = obj_spread (obj_spread [] (default_to (map_option ln_metadata existing) [])) (dv_metadata ev) \<rparr>)"

definition discovery :: "js_env \<Rightarrow> discovery_event \<Rightarrow> node_registry \<Rightarrow> lattice_node \<times> node_registry" where
  "discovery env ev nr =
     (let node = normalize (discovered_node ev (js_get (nr_nodes nr) (dv_nodeId ev)))
      in (node, put_node env node (EvDiscovery (ln_nodeId node) (dv_discoveredBy ev))
            (nr\<lparr>nr_discoveries := nr_discoveries nr @ [ev]\<rparr>)))"

definition merged_health :: "js_env \<Rightarrow> health_patch \<Rightarrow> lattice_health \<Rightarrow> lattice_health" where
  "merged_health env patch h =
     (let m = \<lparr> lh_timestampMs = default_to (hp_timestampMs patch) (now_ms env),
            lh_batteryPct = default_to (hp_batteryPct patch) (lh_batteryPct h),
            lh_cpuPct = default_to (hp_cpuPct patch) (lh_cpuPct h),
            lh_memoryPct = default_to (hp_memoryPct patch) (lh_memoryPct h),
            lh_linkQuality = default_to (hp_linkQuality patch) (lh_linkQuality h),
            lh_gpsFix = default_to (hp_gpsFix patch) (lh_gpsFix h),
            lh_temperatureC = nullish (hp_temperatureC patch) (lh_temperatureC h),
            lh_missionId = nullish (hp_missionId patch) (lh_missionId h), lh_status = lh_status h \<rparr>
      in m\<lparr>lh_status := default_to (hp_status patch) (derived_status m)\<rparr>)"

definition updateHealth :: "js_env \<Rightarrow> ident \<Rightarrow> health_patch \<Rightarrow> node_registry \<Rightarrow> lattice_node option \<times> node_registry" where
  "updateHealth env nodeId patch nr =
     (case js_get (nr_nodes nr) nodeId of
        None \<Rightarrow> (None, nr)
      | Some node \<Rightarrow>
          (let node1 = rescored env (node\<lparr> ln_health := merged_health env patch (ln_health node),
                 ln_lastSeenMs := default_to (hp_timestampMs patch) (now_ms env) \<rparr>)
           in (Some node1, nr\<lparr> nr_nodes := js_put nodeId node1 (nr_nodes nr),
                 nr_history := nr_history nr @ [(now_ms env, EvHealth nodeId (ln_health node1))] \<rparr>)))"

definition updateCapability :: "js_env \<Rightarrow> ident \<Rightarrow> lattice_capability \<Rightarrow> node_registry \<Rightarrow>
    lattice_node option \<times> node_registry" where
  "updateCapability env nodeId profile nr =
     (case js_get (nr_nodes nr) nodeId of
        None \<Rightarrow> (None, nr)
      | Some node \<Rightarrow>
          (let node1 = rescored env (node\<lparr>ln_capabilityProfile := profile\<rparr>)
           in (Some node1, nr\<lparr> nr_nodes := js_put nodeId node1 (nr_nodes nr),
                 nr_history := nr_history nr @ [(now_ms env, EvCapability nodeId profile)] \<rparr>)))"

definition attested :: "peer_attestation \<Rightarrow> lattice_node \<Rightarrow> lattice_node" where
  "attested a node =
     (if pa_accepted a
      then node\<lparr> ln_successfulTasks := ln_successfulTasks node + 1, ln_contributionCount := ln_contributionCount node + 1,
             ln_rewardPoints := ln_rewardPoints node + 2,
             ln_trustScore := clamp (ln_trustScore node + 3 / 100) 0 1,
             ln_reputationScore := clamp (ln_reputationScore node + 5 / 100) 0 1,
             ln_lastSeenMs := pa_timestampMs a \<rparr>
      else node\<lparr> ln_failedTasks := ln_failedTasks node + 1,
             ln_trustScore := clamp (ln_trustScore node - 4 / 100) 0 1,
             ln_reputationScore := clamp (ln_reputationScore node - 6 / 100) 0 1,
             ln_lastSeenMs := pa_timestampMs a \<rparr>)"

definition addAttestation :: "js_env \<Rightarrow> peer_attestation \<Rightarrow> node_registry \<Rightarrow> node_registry" where
  "addAttestation env a nr =
     (let nr1 = nr\<lparr>nr_attestations := nr_attestations nr @ [a]\<rparr>
      in case js_get (nr_nodes nr1) (pa_subjectNodeId a) of
           None \<Rightarrow> nr1
         | Some node \<Rightarrow> put_node env (attested a node) (EvAttestation a) nr1)"

definition recentDiscoveries :: "nat \<Rightarrow> node_registry \<Rightarrow> discovery_event list" where
  "recentDiscoveries limit nr = slice_tail limit (nr_discoveries nr)"

definition recentAttestations :: "nat \<Rightarrow> node_registry \<Rightarrow> peer_attestation list" where
  "recentAttestations limit nr = slice_tail limit (nr_attestations nr)"

record node_registry_summary =
  ny_total :: int
  ny_active :: int
  ny_stale :: int
  ny_avgTrust :: real
  ny_avgReputation :: real
  ny_avgRewardPoints :: real
  ny_discoveries :: int
  ny_attestations :: int

definition average :: "(lattice_node \<Rightarrow> real) \<Rightarrow> lattice_node list \<Rightarrow> real" where
  "average f nodes = (if length nodes \<noteq> 0 then round2 (sum_list (map f nodes) / real (length nodes)) else 0)"

definition node_summary_of :: "js_env \<Rightarrow> node_registry \<Rightarrow> node_registry_summary" where
  "node_summary_of env nr =
     (let nodes = all_nodes nr
      in \<lparr> ny_total = int (length nodes), ny_active = int (length (active_nodes env 15000 nr)),
           ny_stale = int (length (stale_nodes env 15000 nr)), ny_avgTrust = average ln_trustScore nodes,
           ny_avgReputation = average ln_reputationScore nodes, ny_avgRewardPoints = average ln_rewardPoints nodes,
           ny_discoveries = int (length (nr_discoveries nr)), ny_attestations = int (length (nr_attestations nr)) \<rparr>)"


subsection \<open>The default policies are balanced\<close>

text \<open>
  In the default policy of every scenario the five score weights sum to one, and the minimum
  number of nodes is the number of nodes the required roles ask for.
\<close>

theorem default_policies_balanced:
  "sp_trustWeight (scenarioDefaultPolicy s) + sp_batteryWeight (scenarioDefaultPolicy s)
     + sp_distanceWeight (scenarioDefaultPolicy s) + sp_linkWeight (scenarioDefaultPolicy s)
     + sp_healthWeight (scenarioDefaultPolicy s) = 1 \<and>
   sp_minNodes (scenarioDefaultPolicy s) = sum_list (js_values (sp_requiredRoles (scenarioDefaultPolicy s)))"
  by (cases s) (simp_all add: js_values_def collapsed_building_policy_def cave_tunnel_policy_def flood_policy_def
      wildfire_policy_def industrial_policy_def forest_policy_def night_policy_def indoor_policy_def
      perimeter_policy_def triage_policy_def)

subsection \<open>Scores stay in range\<close>

definition wf_node :: "lattice_node \<Rightarrow> bool" where
  "wf_node n \<longleftrightarrow> 0 \<le> ln_trustScore n \<and> ln_trustScore n \<le> 1 \<and> 0 \<le> ln_reputationScore n \<and> ln_reputationScore n \<le> 1"

definition wf_nodes :: "node_registry \<Rightarrow> bool" where
  "wf_nodes nr \<longleftrightarrow> wf_map (nr_nodes nr) \<and> (\<forall>i n. js_get (nr_nodes nr) i = Some n \<longrightarrow> ln_nodeId n = i \<and> wf_node n)"

lemma wf_node_normalize: "wf_node (normalize n)"
  using clamp_bounds [of 0 1] by (simp add: wf_node_def normalize_def Let_def)

lemma wf_node_rescored: "wf_node (rescored env n)"
  using clamp_bounds [of 0 1] by (simp add: wf_node_def rescored_def trustFromHealth_def reputationFromState_def Let_def)

lemma wf_node_attested: "wf_node (attested a n)"
  using clamp_bounds [of 0 1] by (simp add: wf_node_def attested_def)

lemma node_ids [simp]:
  "ln_nodeId (normalize n) = ln_nodeId n" "ln_nodeId (rescored env n) = ln_nodeId n" "ln_nodeId (attested a n) = ln_nodeId n"
  "ln_nodeId (discovered_node ev existing) = dv_nodeId ev"
  by (simp_all add: normalize_def rescored_def attested_def discovered_node_def Let_def)

lemma wf_nodes_put:
  "wf_nodes nr \<Longrightarrow> ln_nodeId n = i \<Longrightarrow> wf_node n \<Longrightarrow> wf_nodes (nr\<lparr> nr_nodes := js_put i n (nr_nodes nr), nr_history := h \<rparr>)"
  by (auto simp: wf_nodes_def jsm.invar_insert js_map_simps)

lemma wf_put_node: "wf_nodes nr \<Longrightarrow> wf_node n \<Longrightarrow> wf_nodes (put_node env n ev nr)"
  by (simp add: put_node_def wf_nodes_put)

lemma wf_nodes_frame [simp]:
  "wf_nodes (nr\<lparr>nr_discoveries := ds\<rparr>) = wf_nodes nr" "wf_nodes (nr\<lparr>nr_attestations := as\<rparr>) = wf_nodes nr"
  "wf_nodes (nr\<lparr>nr_policies := ps\<rparr>) = wf_nodes nr"
  by (simp_all add: wf_nodes_def)

lemma wf_nodes_id: "wf_nodes nr \<Longrightarrow> js_get (nr_nodes nr) i = Some n \<Longrightarrow> ln_nodeId n = i"
  by (simp add: wf_nodes_def)

lemma wf_register [inv_intros]: "wf_nodes nr \<Longrightarrow> wf_nodes (snd (register env n nr))"
  by (simp add: register_def wf_put_node wf_node_normalize split: option.split)

lemma wf_discovery [inv_intros]: "wf_nodes nr \<Longrightarrow> wf_nodes (snd (discovery env ev nr))"
  by (simp add: discovery_def Let_def wf_put_node wf_node_normalize)

lemma wf_updateHealth [inv_intros]: "wf_nodes nr \<Longrightarrow> wf_nodes (snd (updateHealth env i p nr))"
  by (auto simp: updateHealth_def Let_def wf_node_rescored wf_nodes_id intro!: wf_nodes_put split: option.split)

lemma wf_updateCapability [inv_intros]: "wf_nodes nr \<Longrightarrow> wf_nodes (snd (updateCapability env i c nr))"
  by (auto simp: updateCapability_def Let_def wf_node_rescored wf_nodes_id intro!: wf_nodes_put split: option.split)

lemma wf_addAttestation [inv_intros]: "wf_nodes nr \<Longrightarrow> wf_nodes (addAttestation env a nr)"
  by (simp add: addAttestation_def Let_def wf_put_node wf_node_attested split: option.split)

lemma wf_remove_node [inv_intros]: "wf_nodes nr \<Longrightarrow> wf_nodes (snd (remove_node env i nr))"
  by (auto simp: remove_node_def wf_nodes_def jsm.invar_remove js_map_simps split: if_splits)

lemma wf_policyFor [inv_intros]: "wf_nodes nr \<Longrightarrow> wf_nodes (snd (policyFor s nr))"
  by (simp add: policyFor_def Let_def split: option.split)

datatype node_op =
    NoRegister lattice_node
  | NoDiscovery discovery_event
  | NoHealth ident health_patch
  | NoCapability ident lattice_capability
  | NoAttest peer_attestation
  | NoRemove ident
  | NoPolicy scenario_kind

fun node_apply :: "js_env \<Rightarrow> node_op \<Rightarrow> node_registry \<Rightarrow> node_registry" where
  "node_apply env (NoRegister n) nr = snd (register env n nr)"
| "node_apply env (NoDiscovery ev) nr = snd (discovery env ev nr)"
| "node_apply env (NoHealth i p) nr = snd (updateHealth env i p nr)"
| "node_apply env (NoCapability i c) nr = snd (updateCapability env i c nr)"
| "node_apply env (NoAttest a) nr = addAttestation env a nr"
| "node_apply env (NoRemove i) nr = snd (remove_node env i nr)"
| "node_apply env (NoPolicy s) nr = snd (policyFor s nr)"

definition node_run :: "(scenario_kind, scenario_policy) jsmap \<Rightarrow> (js_env \<times> node_op) list \<Rightarrow> node_registry" where
  "node_run policies ops = foldl (\<lambda>nr eo. node_apply (fst eo) (snd eo) nr) (new_node_registry policies) ops"

lemma node_run_wf: "wf_nodes (node_run policies ops)"
proof (induction ops rule: rev_induct)
  case Nil
  then show ?case by (simp add: node_run_def new_node_registry_def wf_nodes_def wf_map_def)
next
  case (snoc eo ops)
  then show ?case by (cases "snd eo") (simp_all add: node_run_def inv_intros)
qed

text \<open>
  After any run of the registry every node is stored once, under its own identifier, with a
  trust and a reputation score in [0, 1], whatever scores, health samples and attestations were
  reported.
\<close>

theorem node_scores_bounded: "wf_nodes (node_run policies ops)"
  by (rule node_run_wf)

subsection \<open>Attestations and health reports\<close>

lemma get_addAttestation:
  assumes "wf_nodes nr"
  shows "js_get (nr_nodes (addAttestation env a nr)) i =
    (if i = pa_subjectNodeId a then map_option (attested a) (js_get (nr_nodes nr) i) else js_get (nr_nodes nr) i)"
  using wf_nodes_id [OF assms, of "pa_subjectNodeId a"]
  by (auto simp: addAttestation_def Let_def put_node_def js_map_simps split: option.split)

lemma attested_health [simp]: "ln_health (attested a n) = ln_health n"
  by (simp add: attested_def)

lemma health_addAttestation:
  "wf_nodes nr \<Longrightarrow> map_option ln_health (js_get (nr_nodes (addAttestation env a nr)) i) =
    map_option ln_health (js_get (nr_nodes nr) i)"
  by (cases "pa_subjectNodeId a = i") (auto simp: get_addAttestation option.map_comp o_def)

lemma trust_of_rescored: "ln_trustScore (rescored env n) = trustFromHealth n"
  by (simp add: rescored_def)

lemma trustFromHealth_cong: "ln_health m = ln_health n \<Longrightarrow> trustFromHealth m = trustFromHealth n"
  by (simp add: trustFromHealth_def)

lemma trust_after_health:
  "map_option ln_trustScore (fst (updateHealth env i p nr)) =
     map_option (\<lambda>n. trustFromHealth (n\<lparr>ln_health := merged_health env p (ln_health n)\<rparr>)) (js_get (nr_nodes nr) i)"
  by (auto simp: updateHealth_def Let_def trust_of_rescored intro!: trustFromHealth_cong split: option.split)

text \<open>
  The next health report erases what peers attested about the trust of a node: the trust
  score \<open>updateHealth\<close> computes is the same whether or not any number of attestations, of any
  verdict, came before it.
\<close>

theorem attestation_trust_forgotten:
  assumes "wf_nodes nr"
  shows "map_option ln_trustScore (fst (updateHealth env i p (foldl (\<lambda>nr a. addAttestation env' a nr) nr as))) =
    map_option ln_trustScore (fst (updateHealth env i p nr))"
proof -
  have "map_option ln_health (js_get (nr_nodes (foldl (\<lambda>nr a. addAttestation env' a nr) nr as)) i) =
      map_option ln_health (js_get (nr_nodes nr) i)"
    using assms by (induction as arbitrary: nr) (simp_all add: wf_addAttestation health_addAttestation)
  then show ?thesis
    unfolding trust_after_health
    by (auto simp: map_option_case intro!: trustFromHealth_cong split: option.splits)
qed

definition toy_seen :: discovery_event where
  "toy_seen = \<lparr> dv_nodeId = ''n'', dv_discoveredBy = ''m'', dv_missionId = None, dv_seenAtMs = 1,
     dv_endpoint = None, dv_location = None, dv_metadata = [] \<rparr>"

definition toy_attestation :: "ident \<Rightarrow> bool \<Rightarrow> peer_attestation" where
  "toy_attestation w ok = \<lparr> pa_witnessId = w, pa_subjectNodeId = ''n'', pa_validationType = ValExtraction,
     pa_accepted = ok, pa_reason = [], pa_timestampMs = 2, pa_evidenceHash = [] \<rparr>"

definition no_patch :: health_patch where
  "no_patch = \<lparr> hp_timestampMs = None, hp_batteryPct = None, hp_cpuPct = None, hp_memoryPct = None,
     hp_linkQuality = None, hp_gpsFix = None, hp_temperatureC = None, hp_missionId = None, hp_status = None \<rparr>"

theorem attestation_trust_forgotten_witness:
  "map_option ln_trustScore (fst (updateHealth (demo_env 3) ''n'' no_patch
     (addAttestation (demo_env 2) (toy_attestation ''w'' False) (node_run [] [(demo_env 1, NoDiscovery toy_seen)])))) =
   map_option ln_trustScore (fst (updateHealth (demo_env 3) ''n'' no_patch (node_run [] [(demo_env 1, NoDiscovery toy_seen)])))"
  using attestation_trust_forgotten [of "node_run [] [(demo_env 1, NoDiscovery toy_seen)]", OF node_run_wf,
      where env = "demo_env 3" and i = "''n''" and p = no_patch and env' = "demo_env 2" and as = "[toy_attestation ''w'' False]"]
  by (simp only: foldl.simps)

end
