(* ===== verification/LatticeRewards.thy ===== *)
theory LatticeRewards
  imports LatticeRegistry
begin

section \<open>Validation proofs, contributions and rewards\<close>

text \<open>
  Models the classes \<open>TriangulatedValidator\<close>, \<open>ContributionTracker\<close> and \<open>RewardEngine\<close> of
  \<open>src/src/backend/lattice/lattice-reward-stack.ts\<close>. The identifier \<open>id("proof")\<close> is the first
  identifier of the environment. Amounts are exact reals, rounded by \<open>round2\<close> where the source
  does. The lemmas state when a proof is accepted, what one witness can do alone, and the range
  and order of the reward amounts.
\<close>

subsection \<open>Data\<close>

record validation_proof =
  vp_proofId :: ident
  vp_validationType :: validation_type
  vp_missionId :: ident
  vp_taskId :: "ident option"
  vp_targetId :: "ident option"
  vp_subjectNodeId :: ident
  vp_witnesses :: "ident list"
  vp_evidence :: obj
  vp_createdAtMs :: timestamp
  vp_accepted :: bool
  vp_reason :: string
  vp_sourceHashes :: "string list"

text \<open>The argument of \<open>createProof\<close>\<close>

record proof_input =
  pi_validationType :: validation_type
  pi_missionId :: ident
  pi_taskId :: "ident option"
  pi_targetId :: "ident option"
  pi_subjectNodeId :: ident
  pi_witnesses :: "ident list"
  pi_evidence :: obj
  pi_accepted :: "bool option"
  pi_reason :: "string option"
  pi_evidenceHashes :: "string list option"

record contribution_event =
  ce_eventId :: ident
  ce_missionId :: ident
  ce_nodeId :: ident
  ce_kind :: reward_kind
  ce_label :: string
  ce_proofId :: "ident option"
  ce_taskId :: "ident option"
  ce_targetId :: "ident option"
  ce_weight :: real
  ce_createdAtMs :: timestamp
  ce_metadata :: obj

record reward_event =
  rv_rewardId :: ident
  rv_missionId :: ident
  rv_nodeId :: ident
  rv_kind :: reward_kind
  rv_amount :: real
  rv_reason :: string
  rv_proofId :: "ident option"
  rv_contributionEventId :: "ident option"
  rv_createdAtMs :: timestamp
  rv_settled :: bool
  rv_metadata :: obj

record reward_entry =
  rl_reward :: reward_event
  rl_updatedTrustScore :: real
  rl_updatedReputationScore :: real
  rl_balanceAfter :: real

subsection \<open>The triangulated validator\<close>

record validator =
  va_proofs :: "(ident, validation_proof) jsmap"
  va_attestations :: "peer_attestation list"

definition new_validator :: validator where
  "new_validator = \<lparr> va_proofs = [], va_attestations = [] \<rparr>"

definition createProof :: "js_lib \<Rightarrow> js_env \<Rightarrow> proof_input \<Rightarrow> validator \<Rightarrow> validation_proof \<times> validator" where
  "createProof L env input v =
     (let p = \<lparr> vp_proofId = new_id env 0 ''proof'', vp_validationType = pi_validationType input,
            vp_missionId = pi_missionId input, vp_taskId = pi_taskId input, vp_targetId = pi_targetId input,
            vp_subjectNodeId = pi_subjectNodeId input, vp_witnesses = pi_witnesses input,
            vp_evidence = pi_evidence input, vp_createdAtMs = now_ms env,
            vp_accepted = default_to (pi_accepted input) False, vp_reason = default_to (pi_reason input) [],
            vp_sourceHashes = default_to (pi_evidenceHashes input) [hash_object (sha L) (JObj (pi_evidence input))] \<rparr>
      in (p, v\<lparr>va_proofs := js_put (vp_proofId p) p (va_proofs v)\<rparr>))"

definition ingestProof :: "validation_proof \<Rightarrow> validator \<Rightarrow> validator" where
  "ingestProof p v = v\<lparr>va_proofs := js_put (vp_proofId p) p (va_proofs v)\<rparr>"

definition attest :: "peer_attestation \<Rightarrow> validator \<Rightarrow> validator" where
  "attest a v = v\<lparr>va_attestations := va_attestations v @ [a]\<rparr>"

text \<open>The attestations \<open>evaluate\<close> looks at, and those of one verdict by a witness of the proof.\<close>

definition matching :: "validation_proof \<Rightarrow> validator \<Rightarrow> peer_attestation list" where
  "matching p v = filter (\<lambda>a. pa_subjectNodeId a = vp_subjectNodeId p \<and> pa_validationType a = vp_validationType p)
     (va_attestations v)"

definition votes :: "bool \<Rightarrow> validation_proof \<Rightarrow> validator \<Rightarrow> peer_attestation list" where
  "votes verdict p v = filter (\<lambda>a. pa_accepted a = verdict \<and> pa_witnessId a \<in> set (vp_witnesses p)) (matching p v)"

text \<open>\<open>Math.max(2, Math.ceil(witnesses.size / 2))\<close> over the set of witnesses\<close>

definition quorum_size :: "validation_proof \<Rightarrow> nat" where
  "quorum_size p = max 2 ((length (dedup (vp_witnesses p)) + 1) div 2)"

definition evaluate :: "ident \<Rightarrow> validator \<Rightarrow> validation_proof option \<times> validator" where
  "evaluate proofId v =
     (case js_get (va_proofs v) proofId of
        None \<Rightarrow> (None, v)
      | Some p \<Rightarrow>
          (let positive = votes True p v; negative = votes False p v;
               quorumReached = (length positive \<ge> quorum_size p);
               accepted = (quorumReached \<and> length negative = 0);
               p1 = p\<lparr> vp_accepted := accepted,
                 vp_reason := (if accepted then ''quorum_accepted''
                   else if length negative > 0 then ''negative_attestation'' else ''insufficient_quorum'') \<rparr>
           in (Some p1, v\<lparr>va_proofs := js_put proofId p1 (va_proofs v)\<rparr>)))"

definition acceptedProofs :: "nat \<Rightarrow> validator \<Rightarrow> validation_proof list" where
  "acceptedProofs limit v =
     take limit (js_sort (by_desc vp_createdAtMs) (filter vp_accepted (js_values (va_proofs v))))"

definition recentProofs :: "nat \<Rightarrow> validator \<Rightarrow> validation_proof list" where
  "recentProofs limit v = take limit (js_sort (by_desc vp_createdAtMs) (js_values (va_proofs v)))"

subsection \<open>The contribution tracker\<close>

record tracker =
  ct_contributions :: "(ident, contribution_event) jsmap"
  ct_rewards :: "(ident, reward_event) jsmap"
  ct_rewardLedger :: "reward_entry list"

definition new_tracker :: tracker where
  "new_tracker = \<lparr> ct_contributions = [], ct_rewards = [], ct_rewardLedger = [] \<rparr>"

definition addContribution :: "contribution_event \<Rightarrow> tracker \<Rightarrow> contribution_event \<times> tracker" where
  "addContribution ev ct = (ev, ct\<lparr>ct_contributions := js_put (ce_eventId ev) ev (ct_contributions ct)\<rparr>)"

definition getContribution :: "ident \<Rightarrow> tracker \<Rightarrow> contribution_event option" where
  "getContribution eventId ct = js_get (ct_contributions ct) eventId"

definition recordReward :: "reward_event \<Rightarrow> real \<Rightarrow> real \<Rightarrow> real \<Rightarrow> tracker \<Rightarrow> reward_entry \<times> tracker" where
  "recordReward ev trust reputation balanceAfter ct =
     (let entry = \<lparr> rl_reward = ev, rl_updatedTrustScore = clamp trust 0 1,
            rl_updatedReputationScore = clamp reputation 0 1, rl_balanceAfter = balanceAfter \<rparr>
      in (entry, ct\<lparr> ct_rewards := js_put (rv_rewardId ev) ev (ct_rewards ct),
            ct_rewardLedger := ct_rewardLedger ct @ [entry] \<rparr>))"

definition contributionsFor :: "ident \<Rightarrow> tracker \<Rightarrow> contribution_event list" where
  "contributionsFor nodeId ct =
     js_sort (by_desc ce_createdAtMs) (filter (\<lambda>c. ce_nodeId c = nodeId) (js_values (ct_contributions ct)))"

definition rewardsForNode :: "ident \<Rightarrow> tracker \<Rightarrow> reward_event list" where
  "rewardsForNode nodeId ct =
     js_sort (by_desc rv_createdAtMs) (filter (\<lambda>r. rv_nodeId r = nodeId) (js_values (ct_rewards ct)))"

definition recentContributions :: "nat \<Rightarrow> tracker \<Rightarrow> contribution_event list" where
  "recentContributions limit ct = take limit (js_sort (by_desc ce_createdAtMs) (js_values (ct_contributions ct)))"

definition recentRewards :: "nat \<Rightarrow> tracker \<Rightarrow> reward_event list" where
  "recentRewards limit ct = take limit (js_sort (by_desc rv_createdAtMs) (js_values (ct_rewards ct)))"

definition balanceFor :: "ident \<Rightarrow> tracker \<Rightarrow> real" where
  "balanceFor nodeId ct = sum_list (map rv_amount (rewardsForNode nodeId ct))"

definition reward_ledger :: "tracker \<Rightarrow> reward_entry list" where
  "reward_ledger ct = ct_rewardLedger ct"

subsection \<open>The reward engine\<close>

definition REWARD_KINDS :: "reward_kind list" where
  "REWARD_KINDS = [RewardWork, RewardRelay, RewardDiscovery, RewardRescue, RewardValidation, RewardRecovery,
     RewardSafety, RewardBonus, RewardPenalty]"

definition new_reward_engine :: "(reward_kind, real) jsmap option \<Rightarrow> (reward_kind, real) jsmap" where
  "new_reward_engine multipliers =
     foldl (\<lambda>acc kind. js_put kind (default_to (Option.bind multipliers (\<lambda>ms. js_get ms kind)) 1) acc) [] REWARD_KINDS"

definition amountFor :: "contribution_event \<Rightarrow> validation_proof option \<Rightarrow> (reward_kind, real) jsmap \<Rightarrow> real" where
  "amountFor c p multipliers =
     (let a0 = ce_weight c * 10 * default_to (js_get multipliers (ce_kind c)) 1;
          a1 = (if (case p of Some q \<Rightarrow> vp_accepted q | None \<Rightarrow> False) then a0 * (115 / 100) else a0);
          a2 = (if ce_kind c = RewardRescue \<and> map_option vp_validationType p = Some ValExtraction then a1 * (12 / 10) else a1);
          a3 = (if ce_kind c = RewardRelay \<and> map_option vp_validationType p = Some ValRelayContinuity
                then a2 * (13 / 10) else a2);
          a4 = (if ce_kind c = RewardValidation \<and> p \<noteq> None then a3 * (11 / 10) else a3)
      in round2 (max 0 a4))"

definition penaltyFor :: "contribution_event \<Rightarrow> string \<Rightarrow> real" where
  "penaltyFor c reason =
     (let base = max 0 (ce_weight c * 8)
      in if str_includes reason ''fraud'' \<or> str_includes reason ''invalid''
         then round2 (base * (15 / 10)) else round2 base)"


subsection \<open>When a proof is accepted\<close>

lemma evaluate_accepted:
  assumes "js_get (va_proofs v) i = Some p"
  shows "map_option vp_accepted (fst (evaluate i v)) = Some (length (votes True p v) \<ge> quorum_size p \<and> votes False p v = [])"
  using assms by (simp add: evaluate_def Let_def)

lemma evaluate_reason:
  assumes "js_get (va_proofs v) i = Some p"
  shows "map_option vp_reason (fst (evaluate i v)) = Some
    (if votes False p v \<noteq> [] then ''negative_attestation''
     else if length (votes True p v) \<ge> quorum_size p then ''quorum_accepted'' else ''insufficient_quorum'')"
  using assms by (auto simp: evaluate_def Let_def)

definition voter :: "validation_proof \<Rightarrow> peer_attestation \<Rightarrow> bool" where
  "voter p a \<longleftrightarrow> pa_subjectNodeId a = vp_subjectNodeId p \<and> pa_validationType a = vp_validationType p
     \<and> pa_witnessId a \<in> set (vp_witnesses p)"

lemma votes_attest:
  "votes verdict p (attest a v) = votes verdict p v @ (if voter p a \<and> pa_accepted a = verdict then [a] else [])"
  by (auto simp: votes_def matching_def attest_def voter_def)

lemma proofs_attest [simp]: "va_proofs (attest a v) = va_proofs v"
  by (simp add: attest_def)

lemma repeated_attest:
  "va_proofs ((attest a ^^ k) v) = va_proofs v"
  "voter p a \<Longrightarrow> pa_accepted a \<Longrightarrow> length (votes True p ((attest a ^^ k) v)) = length (votes True p v) + k"
  "pa_accepted a \<Longrightarrow> votes False p ((attest a ^^ k) v) = votes False p v"
  by (induction k) (simp_all add: votes_attest)

text \<open>
  A proof is accepted once its quorum of positive attestations is met and none is negative,
  but the quorum counts attestations, not witnesses: one witness of the proof that attests often
  enough has it accepted alone, however many witnesses the proof names.
\<close>

theorem one_witness_meets_quorum:
  assumes "js_get (va_proofs v) i = Some p" "voter p a" "pa_accepted a" "votes False p v = []" "quorum_size p \<le> k"
  shows "map_option vp_accepted (fst (evaluate i ((attest a ^^ k) v))) = Some True"
  using assms by (simp add: evaluate_accepted repeated_attest)

definition toy_proof :: validation_proof where
  "toy_proof = \<lparr> vp_proofId = ''p'', vp_validationType = ValExtraction, vp_missionId = ''m'', vp_taskId = None,
     vp_targetId = None, vp_subjectNodeId = ''n'', vp_witnesses = [''w'', ''x'', ''y'', ''z''], vp_evidence = [],
     vp_createdAtMs = 1, vp_accepted = False, vp_reason = [], vp_sourceHashes = [] \<rparr>"

theorem one_witness_meets_quorum_witness:
  "map_option vp_accepted (fst (evaluate ''p'' ((attest (toy_attestation ''w'' True) ^^ 2) (ingestProof toy_proof new_validator)))) = Some True"
  by (rule one_witness_meets_quorum [where p = toy_proof])
    (simp_all add: ingestProof_def new_validator_def toy_proof_def voter_def toy_attestation_def votes_def matching_def
      quorum_size_def dedup_def set_add_def)

subsection \<open>Reward amounts\<close>

lemma round2_nonneg: "0 \<le> x \<Longrightarrow> 0 \<le> round2 x"
  using round2_mono [of 0 x] round2_of_int [of 0] by simp

lemma mult_ge_one: "(1::real) \<le> a \<Longrightarrow> 1 \<le> b \<Longrightarrow> 1 \<le> a * b"
  using mult_mono [of 1 a 1 b] by simp

lemma scaled_max: "(1::real) \<le> f \<Longrightarrow> max 0 a \<le> max 0 (a * f)"
  by (cases "0 \<le> a") (auto simp: mult_le_cancel_left1 max_def)

text \<open>
  An amount is never negative, and presenting a proof, accepted or not and of any type, never
  lowers the reward of a contribution.
\<close>

theorem proof_never_lowers_reward:
  "0 \<le> amountFor c p multipliers \<and> amountFor c None multipliers \<le> amountFor c p multipliers"
proof
  show "0 \<le> amountFor c p multipliers" by (simp add: amountFor_def Let_def round2_nonneg)
  let ?a = "ce_weight c * 10 * default_to (js_get multipliers (ce_kind c)) 1"
  have "\<exists>f. 1 \<le> f \<and> amountFor c p multipliers = round2 (max 0 (?a * f))"
  proof -
    define f1 where "f1 = (if (case p of Some q \<Rightarrow> vp_accepted q | None \<Rightarrow> False) then 115 / 100 else 1 :: real)"
    define f2 where "f2 = (if ce_kind c = RewardRescue \<and> map_option vp_validationType p = Some ValExtraction then 12 / 10 else 1 :: real)"
    define f3 where "f3 = (if ce_kind c = RewardRelay \<and> map_option vp_validationType p = Some ValRelayContinuity then 13 / 10 else 1 :: real)"
    define f4 where "f4 = (if ce_kind c = RewardValidation \<and> p \<noteq> None then 11 / 10 else 1 :: real)"
    have "1 \<le> f1" "1 \<le> f2" "1 \<le> f3" "1 \<le> f4" by (simp_all add: f1_def f2_def f3_def f4_def)
    then have "1 \<le> f1 * f2 * f3 * f4" by (intro mult_ge_one) auto
    moreover have "amountFor c p multipliers = round2 (max 0 (?a * (f1 * f2 * f3 * f4)))"
      unfolding amountFor_def Let_def f1_def f2_def f3_def f4_def by (intro arg_cong [where f = round2] arg_cong [where f = "max 0"]) auto
    ultimately show ?thesis by blast
  qed
  moreover have "amountFor c None multipliers = round2 (max 0 ?a)" by (simp add: amountFor_def Let_def)
  ultimately show "amountFor c None multipliers \<le> amountFor c p multipliers"
    using scaled_max round2_mono by metis
qed

lemma values_put_fresh: "js_get m k = None \<Longrightarrow> js_values (js_put k v m) = js_values m @ [v]"
  by (induction m) (auto simp: js_values_def split: if_splits)

lemma mset_rewardsFor: "mset (rewardsForNode i ct) = mset (filter (\<lambda>r. rv_nodeId r = i) (js_values (ct_rewards ct)))"
  by (simp add: rewardsForNode_def)

lemma balance_sum:
  "balanceFor i ct = sum_list (map rv_amount (filter (\<lambda>r. rv_nodeId r = i) (js_values (ct_rewards ct))))"
  by (simp add: balanceFor_def mset_rewardsFor flip: sum_mset_sum_list)

lemma balance_after_reward:
  assumes "js_get (ct_rewards ct) (rv_rewardId ev) = None"
  shows "balanceFor i (snd (recordReward ev t r b ct)) = balanceFor i ct + (if rv_nodeId ev = i then rv_amount ev else 0)"
  using values_put_fresh [OF assms] by (simp add: balance_sum recordReward_def Let_def)

end
