(* ===== verification/LatticePlanner.thy ===== *)
theory LatticePlanner
  imports LatticeRegistry
begin

section \<open>Scoring nodes and planning assignments\<close>

text \<open>
  Models \<open>WorkItem\<close>, \<open>AssignmentCandidate\<close> and the classes \<open>CapabilityScorer\<close>,
  \<open>LatticeNodeScorer\<close> and \<open>LatticeAssignmentPlanner\<close> of
  \<open>src/src/backend/lattice/lattice-reward-stack.ts\<close>. A score is a pair of a number and its reasons;
  the number text in a reason is the parameter \<open>num_str\<close>. \<open>policyFor\<close> may store a generated policy,
  so ranking returns the registry it leaves. The lemmas show that the planner offers exactly the
  eligible active nodes, best first, and the range of the scores.
\<close>

subsection \<open>Data\<close>

record work_item =
  wi_taskId :: ident
  wi_missionId :: ident
  wi_scenario :: scenario_kind
  wi_taskType :: string
  wi_requirements :: obj
  wi_priority :: real
  wi_location :: "xy_point option"
  wi_requiredCapabilities :: "capability_tag list"
  wi_minTrustScore :: real
  wi_minBatteryPct :: real
  wi_maxDistanceM :: "real option"
  wi_rescueTargetId :: "ident option"
  wi_createdAtMs :: timestamp
  wi_expiresAtMs :: timestamp
  wi_assignedNodeId :: "ident option"
  wi_metadata :: obj

record candidate =
  ac_nodeId :: ident
  ac_score :: real
  ac_reasons :: "string list"
  ac_estimatedEtaMs :: int

fun tag_str :: "capability_tag \<Rightarrow> string" where
  "tag_str TagCamera = ''camera''"
| "tag_str TagThermal = ''thermal''"
| "tag_str TagIR = ''ir''"
| "tag_str TagGPS = ''gps''"
| "tag_str TagIMU = ''imu''"
| "tag_str TagLidar = ''lidar''"
| "tag_str TagSmokeResistant = ''smoke_resistant''"
| "tag_str TagHighTemp = ''high_temp''"
| "tag_str TagWaterproof = ''waterproof''"
| "tag_str TagRelay = ''relay''"
| "tag_str TagIndoor = ''indoor''"
| "tag_str TagOutdoor = ''outdoor''"
| "tag_str TagLongRange = ''long_range''"
| "tag_str TagCompact = ''compact''"
| "tag_str TagGasSensor = ''gas_sensor''"
| "tag_str TagBarometer = ''barometer''"
| "tag_str TagAudio = ''audio''"
| "tag_str TagGripper = ''gripper''"
| "tag_str TagPayload = ''payload''"
| "tag_str TagTransport = ''transport''"

text \<open>\<open>prefix:${round2(x)}\<close>\<close>

definition reason :: "js_lib \<Rightarrow> string \<Rightarrow> real \<Rightarrow> string" where
  "reason L prefix x = prefix @ '':'' @ num_str L (round2 x)"

definition out_of_service :: "lattice_node \<Rightarrow> bool" where
  "out_of_service n \<longleftrightarrow> lh_status (ln_health n) = HealthOffline \<or> lh_status (ln_health n) = HealthUnhealthy"

definition candidate_before :: "candidate \<Rightarrow> candidate \<Rightarrow> bool" where
  "candidate_before = then_by (by_desc ac_score) (by_asc ac_estimatedEtaMs)"

subsection \<open>The capability scorer\<close>

type_synonym capability_scorer = "(scenario_kind, scenario_policy) jsmap"

definition new_capability_scorer :: "scenario_policy list \<Rightarrow> capability_scorer" where
  "new_capability_scorer policies = foldl (\<lambda>acc p. js_put (sp_scenario p) p acc) [] policies"

definition scorer_policyFor :: "scenario_kind \<Rightarrow> capability_scorer \<Rightarrow> scenario_policy \<times> capability_scorer" where
  "scorer_policyFor scenario cs =
     (case js_get cs scenario of
        Some existing \<Rightarrow> (existing, cs)
      | None \<Rightarrow> (scenarioDefaultPolicy scenario, js_put scenario (scenarioDefaultPolicy scenario) cs))"

definition healthScore :: "lattice_node \<Rightarrow> real" where
  "healthScore node =
     (let h = ln_health node
      in clamp (1 / 2 + (lh_batteryPct h / 100) * (25 / 100) + lh_linkQuality h * (2 / 10)
           + (if lh_gpsFix h then 5 / 100 else - 3 / 100)
           + (if lh_cpuPct h < 85 then 2 / 100 else - 5 / 100)
           + (if lh_memoryPct h < 85 then 2 / 100 else - 5 / 100)
           - (case lh_temperatureC h of Some t \<Rightarrow> if t > 80 then 1 / 10 else 0 | None \<Rightarrow> 0)
           - (if lh_status h = HealthDegraded then 8 / 100 else 0)
           - (if out_of_service node then 25 / 100 else 0)) 0 1)"

definition estimateEta :: "lattice_node \<Rightarrow> work_item \<Rightarrow> int" where
  "estimateEta node work =
     (case (wi_location work, ln_location node) of
        (Some a, Some b) \<Rightarrow>
          (let speed = (if ln_role node = Relay then 5 / 2 else if ln_role node = Rescuer then 3 else 2)
           in js_round (xy_distance a b / max (1 / 10) speed * 1000))
      | _ \<Rightarrow> 2500)"

definition satisfiesScenarioBias :: "lattice_node \<Rightarrow> scenario_policy \<Rightarrow> bool" where
  "satisfiesScenarioBias node policy =
     (let c = ln_capabilityProfile node
      in if sp_indoorBias policy > sp_outdoorBias policy
         then lc_indoorSuitability c \<ge> 7 / 10 \<or> TagIndoor \<in> set (lc_tags c)
         else if sp_outdoorBias policy > sp_indoorBias policy
         then lc_outdoorSuitability c \<ge> 7 / 10 \<or> TagOutdoor \<in> set (lc_tags c)
         else True)"

definition required_hits :: "work_item \<Rightarrow> lattice_node \<Rightarrow> capability_tag list" where
  "required_hits work node = filter (\<lambda>t. t \<in> set (lc_tags (ln_capabilityProfile node))) (wi_requiredCapabilities work)"

text \<open>The sum of the weights of the policy's capabilities that the node has.\<close>

definition scenario_weight :: "scenario_policy \<Rightarrow> lattice_node \<Rightarrow> real" where
  "scenario_weight policy node =
     foldl (\<lambda>acc tw. if fst tw \<in> set (lc_tags (ln_capabilityProfile node)) then acc + snd tw else acc) 0
       (sp_capabilityWeights policy)"

definition role_matches :: "lattice_node \<Rightarrow> work_item \<Rightarrow> (bool \<times> real \<times> string) list" where
  "role_matches node work =
     (let r = ln_role node; taskLower = to_lower (wi_taskType work)
      in [(r = Relay \<and> str_includes taskLower ''relay'', 12, ''role_match:relay''),
          (r = Triage \<and> str_includes taskLower ''triage'', 12, ''role_match:triage''),
          (r = Rescuer \<and> (str_includes taskLower ''rescue'' \<or> str_includes taskLower ''extract''), 12, ''role_match:rescuer''),
          (r = Explorer \<and> str_includes taskLower ''search'', 10, ''role_match:explorer'')])"

definition distance_gain :: "js_lib \<Rightarrow> scenario_policy \<Rightarrow> lattice_node \<Rightarrow> work_item \<Rightarrow> real \<times> string list" where
  "distance_gain L policy node work =
     (case (wi_location work, ln_location node) of
        (Some a, Some b) \<Rightarrow>
          (let distance = xy_distance a b; range = default_to (wi_maxDistanceM work) 0;
               penalty = (if range \<noteq> 0 then clamp (distance / range) 0 1 else clamp (distance / 1000) 0 1)
           in ((1 - penalty) * 100 * sp_distanceWeight policy, [reason L ''distance'' distance]))
      | _ \<Rightarrow> (0, []))"

definition capability_score :: "js_lib \<Rightarrow> lattice_node \<Rightarrow> work_item \<Rightarrow> scenario_policy \<Rightarrow> candidate" where
  "capability_score L node work policy =
     (let h = ln_health node; hits = required_hits work node; needed = wi_requiredCapabilities work;
          capability = (if length needed > 0 then real (length hits) / real (length needed) else 1 / 2);
          weighted = scenario_weight policy node;
          roles = filter fst (role_matches node work);
          (gain, distance_reasons) = distance_gain L policy node work;
          bias = satisfiesScenarioBias node policy;
          total = capability * 35 + weighted * 2 + sum_list (map (\<lambda>r. fst (snd r)) roles)
            + (ln_trustScore node * 100 * sp_trustWeight policy + ln_reputationScore node * 100 * (3 / 10))
            + lh_batteryPct h / 100 * 100 * sp_batteryWeight policy
            + clamp (lh_linkQuality h) 0 1 * 100 * sp_linkWeight policy
            + healthScore node * 100 * sp_healthWeight policy + gain
            + (if bias then 4 else 0)
            - (if lh_status h = HealthDegraded then 8 else 0) - (if out_of_service node then 40 else 0)
            - (if lh_batteryPct h < wi_minBatteryPct work then 50 else 0)
            - (if ln_trustScore node < wi_minTrustScore work then 25 else 0)
      in \<lparr> ac_nodeId = ln_nodeId node, ac_score = round2 total,
           ac_reasons = (if hits \<noteq> [] then [''capabilities:'' @ str_join '','' (map tag_str hits)] else [])
             @ (if weighted > 0 then [reason L ''scenario_fit'' weighted] else [])
             @ map (\<lambda>r. snd (snd r)) roles
             @ [reason L ''trust'' (ln_trustScore node), reason L ''reputation'' (ln_reputationScore node),
                reason L ''battery'' (lh_batteryPct h), reason L ''link'' (lh_linkQuality h),
                reason L ''health'' (healthScore node)]
             @ distance_reasons @ (if bias then [''scenario_bias''] else []),
           ac_estimatedEtaMs = estimateEta node work \<rparr>)"

definition scorer_score :: "js_lib \<Rightarrow> lattice_node \<Rightarrow> work_item \<Rightarrow> capability_scorer \<Rightarrow> candidate \<times> capability_scorer" where
  "scorer_score L node work cs =
     (let (policy, cs1) = scorer_policyFor (wi_scenario work) cs in (capability_score L node work policy, cs1))"

fun scorer_score_all :: "js_lib \<Rightarrow> lattice_node list \<Rightarrow> work_item \<Rightarrow> capability_scorer \<Rightarrow> candidate list \<times> capability_scorer" where
  "scorer_score_all L [] work cs = ([], cs)"
| "scorer_score_all L (n # ns) work cs =
     (let (c, cs1) = scorer_score L n work cs; (rest, cs2) = scorer_score_all L ns work cs1 in (c # rest, cs2))"

definition scorer_rank :: "js_lib \<Rightarrow> lattice_node list \<Rightarrow> work_item \<Rightarrow> capability_scorer \<Rightarrow> candidate list \<times> capability_scorer" where
  "scorer_rank L nodes work cs =
     (let (scored, cs1) = scorer_score_all L nodes work cs in (js_sort candidate_before scored, cs1))"

definition scorer_best :: "js_lib \<Rightarrow> lattice_node list \<Rightarrow> work_item \<Rightarrow> capability_scorer \<Rightarrow> candidate option \<times> capability_scorer" where
  "scorer_best L nodes work cs = (let (ranked, cs1) = scorer_rank L nodes work cs in (head_opt ranked, cs1))"

definition isEligible :: "lattice_node \<Rightarrow> work_item \<Rightarrow> bool" where
  "isEligible node work \<longleftrightarrow>
     \<not> ln_trustScore node < wi_minTrustScore work \<and> \<not> lh_batteryPct (ln_health node) < wi_minBatteryPct work
     \<and> \<not> out_of_service node \<and> set (wi_requiredCapabilities work) \<subseteq> set (lc_tags (ln_capabilityProfile node))"

subsection \<open>The node scorer and the planner\<close>

definition scoreCapabilities :: "lattice_node \<Rightarrow> work_item \<Rightarrow> scenario_policy \<Rightarrow> real" where
  "scoreCapabilities node work policy =
     (let c = ln_capabilityProfile node
      in foldl (\<lambda>s tag. if tag \<in> set (lc_tags c) then s + default_to (js_get (sp_capabilityWeights policy) tag) 1 else s) 0
           (wi_requiredCapabilities work)
         + (if lc_indoorSuitability c \<ge> 8 / 10 \<and> sp_indoorBias policy > 0 then sp_indoorBias policy else 0)
         + (if lc_outdoorSuitability c \<ge> 8 / 10 \<and> sp_outdoorBias policy > 0 then sp_outdoorBias policy else 0)
         + (if lc_maxRangeM c \<ge> default_to (wi_maxDistanceM work) 0 then 1 / 2 else 0)
         + (if lc_maxAltitudeM c \<ge> 0 then 1 / 10 else 0))"

definition scoreNode :: "js_lib \<Rightarrow> lattice_node \<Rightarrow> work_item \<Rightarrow> scenario_policy \<Rightarrow> candidate" where
  "scoreNode L node work policy =
     (let capabilityScore = scoreCapabilities node work policy;
          health = (case lh_status (ln_health node) of HealthHealthy \<Rightarrow> 1 | HealthDegraded \<Rightarrow> 6 / 10 | _ \<Rightarrow> 1 / 10);
          (distance, distanceScore) = (case (wi_location work, ln_location node) of
              (Some a, Some b) \<Rightarrow> (xy_distance a b, max 0 (1 - xy_distance a b / max 1 (default_to (wi_maxDistanceM work) 500)))
            | _ \<Rightarrow> (0, 1 / 2));
          batteryScore = lh_batteryPct (ln_health node) / 100; linkScore = lh_linkQuality (ln_health node);
          total = capabilityScore * 20 + ln_trustScore node * 25 + ln_reputationScore node * 15 + health * 20
            + distanceScore * 10 + batteryScore * 5 + linkScore * 5
      in \<lparr> ac_nodeId = ln_nodeId node, ac_score = round2 total,
           ac_reasons = [reason L ''capability'' capabilityScore, reason L ''trust'' (ln_trustScore node),
             reason L ''reputation'' (ln_reputationScore node), reason L ''health'' health,
             reason L ''distance'' distanceScore, reason L ''battery'' batteryScore, reason L ''link'' linkScore],
           ac_estimatedEtaMs = js_round (distance / 2 * 1000) \<rparr>)"

definition eligible :: "lattice_node \<Rightarrow> work_item \<Rightarrow> bool" where
  "eligible node work \<longleftrightarrow>
     \<not> ln_trustScore node < wi_minTrustScore work \<and> \<not> lh_batteryPct (ln_health node) < wi_minBatteryPct work
     \<and> \<not> out_of_service node
     \<and> \<not> list_ex (\<lambda>cap. cap \<notin> set (lc_tags (ln_capabilityProfile node))) (wi_requiredCapabilities work)
     \<and> (case (wi_maxDistanceM work, wi_location work, ln_location node) of
          (Some m, Some a, Some b) \<Rightarrow> \<not> xy_distance a b > m | _ \<Rightarrow> True)"

definition planner_rank :: "js_lib \<Rightarrow> js_env \<Rightarrow> work_item \<Rightarrow> node_registry \<Rightarrow> candidate list \<times> node_registry" where
  "planner_rank L env work nr =
     (let (policy, nr1) = policyFor (wi_scenario work) nr
      in (js_sort candidate_before (map (\<lambda>n. scoreNode L n work policy)
            (filter (\<lambda>n. eligible n work) (active_nodes env 15000 nr1))), nr1))"

definition planner_best :: "js_lib \<Rightarrow> js_env \<Rightarrow> work_item \<Rightarrow> node_registry \<Rightarrow> candidate option \<times> node_registry" where
  "planner_best L env work nr = (let (ranked, nr1) = planner_rank L env work nr in (head_opt ranked, nr1))"


subsection \<open>The planner offers the best fit\<close>

interpretation candidate_order: comparator candidate_before
  unfolding candidate_before_def
  by (intro comparator_then_by descending.comparator_axioms ascending.comparator_axioms)

text \<open>What an assignment needs, as the requirements of the work state it.\<close>

definition fit_for :: "js_env \<Rightarrow> work_item \<Rightarrow> lattice_node \<Rightarrow> bool" where
  "fit_for env work n \<longleftrightarrow>
     now_ms env < ln_lastSeenMs n + 15000 \<and> lh_status (ln_health n) \<notin> {HealthOffline, HealthUnhealthy}
     \<and> wi_minTrustScore work \<le> ln_trustScore n \<and> wi_minBatteryPct work \<le> lh_batteryPct (ln_health n)
     \<and> set (wi_requiredCapabilities work) \<subseteq> set (lc_tags (ln_capabilityProfile n))
     \<and> (\<forall>m a b. wi_maxDistanceM work = Some m \<and> wi_location work = Some a \<and> ln_location n = Some b \<longrightarrow> xy_distance a b \<le> m)"

lemma eligible_iff_fit:
  "n \<in> set (active_nodes env 15000 nr) \<and> eligible n work \<longleftrightarrow> n \<in> set (js_values (nr_nodes nr)) \<and> fit_for env work n"
  by (auto simp: active_nodes_def all_nodes_def eligible_def fit_for_def out_of_service_def list_ex_iff not_less
      split: option.splits)

lemma policyFor_nodes [simp]: "nr_nodes (snd (policyFor s nr)) = nr_nodes nr"
  by (simp add: policyFor_def Let_def split: option.split)

lemma planner_rank_set:
  "set (fst (planner_rank L env work nr)) =
     (\<lambda>n. scoreNode L n work (fst (policyFor (wi_scenario work) nr))) ` {n \<in> set (js_values (nr_nodes nr)). fit_for env work n}"
proof -
  have "{n \<in> set (active_nodes env 15000 (snd (policyFor (wi_scenario work) nr))). eligible n work} =
      {n \<in> set (js_values (nr_nodes nr)). fit_for env work n}"
    using eligible_iff_fit [of _ env "snd (policyFor (wi_scenario work) nr)" work] by auto
  then show ?thesis by (simp add: planner_rank_def split_beta)
qed

lemma candidate_not_before:
  "\<not> candidate_before b a \<Longrightarrow> ac_score b \<le> ac_score a \<and> (ac_score b = ac_score a \<longrightarrow> ac_estimatedEtaMs a \<le> ac_estimatedEtaMs b)"
  by (auto simp: candidate_before_def then_by_def by_desc_def by_asc_def)

text \<open>The scores of the registered nodes that are fit, and the first of a set of candidates.\<close>

definition fit_candidates :: "js_lib \<Rightarrow> js_env \<Rightarrow> work_item \<Rightarrow> node_registry \<Rightarrow> candidate set" where
  "fit_candidates L env work nr =
     (\<lambda>n. scoreNode L n work (fst (policyFor (wi_scenario work) nr))) `
       {n \<in> set (js_values (nr_nodes nr)). fit_for env work n}"

definition leads :: "candidate \<Rightarrow> candidate set \<Rightarrow> bool" where
  "leads c cs \<longleftrightarrow> c \<in> cs \<and> (\<forall>d \<in> cs. ac_score d \<le> ac_score c
     \<and> (ac_score d = ac_score c \<longrightarrow> ac_estimatedEtaMs c \<le> ac_estimatedEtaMs d))"

text \<open>
  The planner's best candidate is the score of a registered node that is fit for the work
  (seen in the last 15 seconds, in service, trusted and charged enough, with every required
  capability and within range when both locations are known); no fit node scores higher, and none
  with the same score arrives earlier. It returns null exactly when no registered node is fit.
\<close>

theorem planner_best_optimal:
  "case fst (planner_best L env work nr) of
     None \<Rightarrow> fit_candidates L env work nr = {}
   | Some c \<Rightarrow> leads c (fit_candidates L env work nr)"
proof -
  obtain xs where xs: "fst (planner_rank L env work nr) = js_sort candidate_before xs"
    by (simp add: planner_rank_def split_beta)
  have ranked: "set (fst (planner_rank L env work nr)) = fit_candidates L env work nr"
    unfolding planner_rank_set fit_candidates_def ..
  show ?thesis
  proof (cases "fst (planner_rank L env work nr)")
    case Nil
    with ranked show ?thesis by (simp add: planner_best_def split_beta head_opt_def)
  next
    case (Cons c cs)
    have "c \<in> set xs \<and> (\<forall>d. d \<in> set xs \<longrightarrow> \<not> candidate_before d c)"
      using candidate_order.js_sort_head_least [of xs c cs] Cons by (simp add: xs)
    then have "leads c (set xs)" using candidate_not_before by (auto simp: leads_def)
    with ranked Cons show ?thesis by (simp add: planner_best_def split_beta head_opt_def xs)
  qed
qed

lemma healthScore_bounds: "0 \<le> healthScore n \<and> healthScore n \<le> 1"
  using clamp_bounds [of 0 1] by (simp add: healthScore_def Let_def)

lemma isEligible_fit: "isEligible n work \<longleftrightarrow> wi_minTrustScore work \<le> ln_trustScore n
    \<and> wi_minBatteryPct work \<le> lh_batteryPct (ln_health n) \<and> \<not> out_of_service n
    \<and> set (wi_requiredCapabilities work) \<subseteq> set (lc_tags (ln_capabilityProfile n))"
  by (auto simp: isEligible_def)

end
