(* ===== verification/RewardSystem.thy ===== *)
theory RewardSystem
  imports LatticeRewards LatticePlanner
begin

section \<open>The Lattice reward system\<close>

text \<open>
  Models the classes \<open>LatticeRewardSystem\<close> and \<open>LatticeRewardCoordinator\<close> of
  \<open>src/src/backend/lattice/lattice-reward-stack.ts\<close>: they own the registry, the validator, the
  tracker and the multipliers and log one typed event per operation. A node read from the registry
  is the stored object itself, so \<open>settleContribution\<close> and \<open>applyPenalty\<close> write it back before they
  register it. The lemmas show that the reward ledger, the balances and the running balance
  of each entry agree, and that nothing keeps a contribution from being settled twice.
\<close>

subsection \<open>State and events\<close>

datatype system_event =
    SeNodeRegister ident node_role
  | SeNodeDiscovery discovery_event
  | SeHealthUpdate ident health_patch
  | SeCapabilityUpdate ident lattice_capability
  | SeAttestation peer_attestation
  | SeProofCreate ident validation_type ident
  | SeProofEvaluate ident bool string
  | SeAllocation ident "candidate option"
  | SeAssignmentRecord ident "ident option"
  | SeContribution contribution_event
  | SeRewardSettle ident ident real "ident option"
  | SePenalty ident string real

record reward_system =
  ls_registry :: node_registry
  ls_validator :: validator
  ls_tracker :: tracker
  ls_multipliers :: "(reward_kind, real) jsmap"
  ls_events :: "(timestamp \<times> system_event) list"

definition new_reward_system :: "node_registry \<Rightarrow> (reward_kind, real) jsmap option \<Rightarrow> validator option \<Rightarrow> reward_system" where
  "new_reward_system registry multipliers vld =
     \<lparr> ls_registry = registry, ls_validator = default_to vld new_validator, ls_tracker = new_tracker,
       ls_multipliers = new_reward_engine multipliers, ls_events = [] \<rparr>"

definition log_event :: "js_env \<Rightarrow> system_event \<Rightarrow> reward_system \<Rightarrow> reward_system" where
  "log_event env ev ls = ls\<lparr>ls_events := ls_events ls @ [(now_ms env, ev)]\<rparr>"

fun validation_str :: "validation_type \<Rightarrow> string" where
  "validation_str ValDiscovery = ''discovery''"
| "validation_str ValCapability = ''capability''"
| "validation_str ValTaskCompletion = ''task_completion''"
| "validation_str ValRelayContinuity = ''relay_continuity''"
| "validation_str ValVictimConfirmation = ''victim_confirmation''"
| "validation_str ValExtraction = ''extraction''"
| "validation_str ValGeofenceBreach = ''geofence_breach''"
| "validation_str ValReconnect = ''reconnect''"
| "validation_str ValMapContribution = ''map_contribution''"
| "validation_str ValSafetyResponse = ''safety_response''"

subsection \<open>Nodes, proofs and allocation\<close>

definition systemRegister :: "js_env \<Rightarrow> lattice_node \<Rightarrow> reward_system \<Rightarrow> lattice_node \<times> reward_system" where
  "systemRegister env node ls =
     (let (registered, nr) = register env node (ls_registry ls)
      in (registered, log_event env (SeNodeRegister (ln_nodeId node) (ln_role node)) (ls\<lparr>ls_registry := nr\<rparr>)))"

definition discoverNode :: "js_env \<Rightarrow> discovery_event \<Rightarrow> reward_system \<Rightarrow> lattice_node \<times> reward_system" where
  "discoverNode env ev ls =
     (let (node, nr) = discovery env ev (ls_registry ls)
      in (node, log_event env (SeNodeDiscovery ev) (ls\<lparr>ls_registry := nr\<rparr>)))"

definition systemHealth :: "js_env \<Rightarrow> ident \<Rightarrow> health_patch \<Rightarrow> reward_system \<Rightarrow> lattice_node option \<times> reward_system" where
  "systemHealth env nodeId patch ls =
     (let (node, nr) = updateHealth env nodeId patch (ls_registry ls); ls1 = ls\<lparr>ls_registry := nr\<rparr>
      in (node, if node \<noteq> None then log_event env (SeHealthUpdate nodeId patch) ls1 else ls1))"

definition systemCapability :: "js_env \<Rightarrow> ident \<Rightarrow> lattice_capability \<Rightarrow> reward_system \<Rightarrow> lattice_node option \<times> reward_system" where
  "systemCapability env nodeId profile ls =
     (let (node, nr) = updateCapability env nodeId profile (ls_registry ls); ls1 = ls\<lparr>ls_registry := nr\<rparr>
      in (node, if node \<noteq> None then log_event env (SeCapabilityUpdate nodeId profile) ls1 else ls1))"

definition validateContribution :: "js_env \<Rightarrow> peer_attestation \<Rightarrow> reward_system \<Rightarrow> reward_system" where
  "validateContribution env a ls =
     log_event env (SeAttestation a)
       (ls\<lparr> ls_registry := addAttestation env a (ls_registry ls), ls_validator := attest a (ls_validator ls) \<rparr>)"

definition systemProof :: "js_lib \<Rightarrow> js_env \<Rightarrow> proof_input \<Rightarrow> reward_system \<Rightarrow> validation_proof \<times> reward_system" where
  "systemProof L env input ls =
     (let (p, v) = createProof L env input (ls_validator ls)
      in (p, log_event env (SeProofCreate (vp_proofId p) (vp_validationType p) (vp_subjectNodeId p)) (ls\<lparr>ls_validator := v\<rparr>)))"

definition evaluateProof :: "js_env \<Rightarrow> ident \<Rightarrow> reward_system \<Rightarrow> validation_proof option \<times> reward_system" where
  "evaluateProof env proofId ls =
     (let (p, v) = evaluate proofId (ls_validator ls); ls1 = ls\<lparr>ls_validator := v\<rparr>
      in (p, case p of None \<Rightarrow> ls1
             | Some q \<Rightarrow> log_event env (SeProofEvaluate proofId (vp_accepted q) (vp_reason q)) ls1))"

definition allocate :: "js_lib \<Rightarrow> js_env \<Rightarrow> work_item \<Rightarrow> reward_system \<Rightarrow> candidate option \<times> reward_system" where
  "allocate L env work ls =
     (let (c, nr) = planner_best L env work (ls_registry ls)
      in (c, log_event env (SeAllocation (wi_taskId work) c) (ls\<lparr>ls_registry := nr\<rparr>)))"

fun allocateMany :: "js_lib \<Rightarrow> js_env \<Rightarrow> work_item list \<Rightarrow> (ident, candidate option) jsmap \<Rightarrow> reward_system \<Rightarrow>
    (ident, candidate option) jsmap \<times> reward_system" where
  "allocateMany L env [] out ls = (out, ls)"
| "allocateMany L env (w # ws) out ls =
     (let (c, ls1) = allocate L env w ls in allocateMany L env ws (js_put (wi_taskId w) c out) ls1)"

definition assignAndRecord :: "js_lib \<Rightarrow> js_env \<Rightarrow> work_item \<Rightarrow> reward_system \<Rightarrow>
    (candidate option \<times> work_item) \<times> reward_system" where
  "assignAndRecord L env work ls =
     (let (c, ls1) = allocate L env work ls; work1 = work\<lparr>wi_assignedNodeId := map_option ac_nodeId c\<rparr>
      in ((c, work1), log_event env (SeAssignmentRecord (wi_taskId work) (wi_assignedNodeId work1)) ls1))"

subsection \<open>Rewards\<close>

definition trustDeltaFor :: "contribution_event \<Rightarrow> validation_proof option \<Rightarrow> real" where
  "trustDeltaFor c p =
     1 / 100 + (if (case p of Some q \<Rightarrow> vp_accepted q | None \<Rightarrow> False) then 4 / 100 else 0)
       + (if ce_kind c = RewardRelay then 3 / 100 else 0) + (if ce_kind c = RewardRescue then 5 / 100 else 0)
       + (if ce_kind c = RewardSafety then 4 / 100 else 0)"

definition reputationDeltaFor :: "contribution_event \<Rightarrow> validation_proof option \<Rightarrow> real" where
  "reputationDeltaFor c p =
     2 / 100 + (if (case p of Some q \<Rightarrow> vp_accepted q | None \<Rightarrow> False) then 5 / 100 else 0)
       + (if ce_kind c = RewardDiscovery then 3 / 100 else 0) + (if ce_kind c = RewardValidation then 4 / 100 else 0)
       + (if ce_kind c = RewardRecovery then 3 / 100 else 0) - (if ce_kind c = RewardPenalty then 1 / 10 else 0)"

definition recordContribution :: "js_env \<Rightarrow> contribution_event \<Rightarrow> reward_system \<Rightarrow> contribution_event \<times> reward_system" where
  "recordContribution env c ls =
     (let (recorded, ct) = addContribution c (ls_tracker ls)
      in (recorded, log_event env (SeContribution recorded) (ls\<lparr>ls_tracker := ct\<rparr>)))"

definition find_contribution :: "ident \<Rightarrow> tracker \<Rightarrow> contribution_event option" where
  "find_contribution eventId ct =
     nullish (getContribution eventId ct) (List.find (\<lambda>c. ce_eventId c = eventId) (recentContributions 1000 ct))"

definition find_proof :: "ident option \<Rightarrow> validator \<Rightarrow> validation_proof option" where
  "find_proof proofId v =
     (case proofId of None \<Rightarrow> None
      | Some i \<Rightarrow> if i = [] then None else List.find (\<lambda>p. vp_proofId p = i) (recentProofs 1000 v))"

definition reward_of :: "js_env \<Rightarrow> contribution_event \<Rightarrow> validation_proof option \<Rightarrow> real \<Rightarrow> reward_event" where
  "reward_of env c p amount =
     \<lparr> rv_rewardId = new_id env 0 ''reward'', rv_missionId = ce_missionId c, rv_nodeId = ce_nodeId c,
       rv_kind = ce_kind c, rv_amount = amount, rv_reason = ce_label c,
       rv_proofId = nullish (map_option vp_proofId p) (ce_proofId c), rv_contributionEventId = Some (ce_eventId c),
       rv_createdAtMs = now_ms env, rv_settled = True,
       rv_metadata = obj_spread (obj_spread [] (ce_metadata c))
         [(''validationType'', opt_str (map_option (\<lambda>q. validation_str (vp_validationType q)) p)),
          (''proofAccepted'', JBool (case p of Some q \<Rightarrow> vp_accepted q | None \<Rightarrow> False))] \<rparr>"

text \<open>\<open>register(node)\<close> for the stored node object, after its fields were assigned.\<close>

definition write_back :: "js_env \<Rightarrow> lattice_node \<Rightarrow> node_registry \<Rightarrow> node_registry" where
  "write_back env node nr = snd (register env node (nr\<lparr>nr_nodes := js_put (ln_nodeId node) node (nr_nodes nr)\<rparr>))"

definition rewarded_node :: "js_env \<Rightarrow> real \<Rightarrow> real \<Rightarrow> real \<Rightarrow> lattice_node \<Rightarrow> lattice_node" where
  "rewarded_node env amount trust reputation node =
     node\<lparr> ln_rewardPoints := ln_rewardPoints node + amount, ln_trustScore := trust, ln_reputationScore := reputation,
           ln_contributionCount := ln_contributionCount node + 1,
           ln_successfulTasks := (if amount > 0 then ln_successfulTasks node + 1 else ln_successfulTasks node),
           ln_lastSeenMs := now_ms env \<rparr>"

definition settleContribution :: "js_env \<Rightarrow> ident \<Rightarrow> ident option \<Rightarrow> reward_system \<Rightarrow> reward_entry option \<times> reward_system" where
  "settleContribution env eventId proofId ls =
     (case find_contribution eventId (ls_tracker ls) of
        None \<Rightarrow> (None, ls)
      | Some c \<Rightarrow>
          (let p = find_proof proofId (ls_validator ls);
               amount = amountFor c p (ls_multipliers ls);
               reward = reward_of env c p amount;
               node = get_node (ce_nodeId c) (ls_registry ls);
               trust = clamp (default_to (map_option ln_trustScore node) (1 / 2) + trustDeltaFor c p) 0 1;
               reputation = clamp (default_to (map_option ln_reputationScore node) (1 / 2) + reputationDeltaFor c p) 0 1;
               balanceAfter = balanceFor (ce_nodeId c) (ls_tracker ls) + amount;
               (entry, ct) = recordReward reward trust reputation balanceAfter (ls_tracker ls);
               nr = (case node of None \<Rightarrow> ls_registry ls
                     | Some n \<Rightarrow> write_back env (rewarded_node env amount trust reputation n) (ls_registry ls))
           in (Some entry, log_event env (SeRewardSettle (rv_rewardId reward) (rv_nodeId reward) amount proofId)
                 (ls\<lparr> ls_tracker := ct, ls_registry := nr \<rparr>))))"

fun settleContributions :: "js_env \<Rightarrow> (ident \<times> ident option) list \<Rightarrow> reward_system \<Rightarrow> reward_entry list \<times> reward_system" where
  "settleContributions env [] ls = ([], ls)"
| "settleContributions env ((e, p) # items) ls =
     (let (entry, ls1) = settleContribution env e p ls;
          (rest, ls2) = settleContributions (later_ids 1 env) items ls1
      in ((case entry of None \<Rightarrow> rest | Some x \<Rightarrow> x # rest), ls2))"

definition applyPenalty :: "js_env \<Rightarrow> ident \<Rightarrow> string \<Rightarrow> real \<Rightarrow> reward_system \<Rightarrow> reward_event option \<times> reward_system" where
  "applyPenalty env nodeId why amount ls =
     (case get_node nodeId (ls_registry ls) of
        None \<Rightarrow> (None, ls)
      | Some node \<Rightarrow>
          (let reward = \<lparr> rv_rewardId = new_id env 0 ''penalty'', rv_missionId = default_to (ln_missionId node) [],
                 rv_nodeId = nodeId, rv_kind = RewardPenalty, rv_amount = - \<bar>amount\<bar>, rv_reason = why,
                 rv_proofId = None, rv_contributionEventId = None, rv_createdAtMs = now_ms env, rv_settled = True,
                 rv_metadata = [(''reason'', JStr why)] \<rparr>;
               trust = clamp (ln_trustScore node - 5 / 100) 0 1;
               reputation = clamp (ln_reputationScore node - 8 / 100) 0 1;
               (entry, ct) = recordReward reward trust reputation
                 (balanceFor nodeId (ls_tracker ls) - \<bar>amount\<bar>) (ls_tracker ls);
               node1 = node\<lparr> ln_trustScore := trust, ln_reputationScore := reputation,
                 ln_failedTasks := ln_failedTasks node + 1, ln_lastSeenMs := now_ms env \<rparr>
           in (Some reward, log_event env (SePenalty nodeId why amount)
                 (ls\<lparr> ls_tracker := ct, ls_registry := write_back env node1 (ls_registry ls) \<rparr>))))"

text \<open>\<open>recordContribution\<close> followed by \<open>settleContribution\<close>, the end of every \<open>rewardFor...\<close>.\<close>

definition record_and_settle :: "js_env \<Rightarrow> contribution_event \<Rightarrow> ident option \<Rightarrow> reward_system \<Rightarrow> reward_entry option \<times> reward_system" where
  "record_and_settle env c proofId ls =
     settleContribution (later_ids 1 env) (ce_eventId c) proofId (snd (recordContribution env c ls))"

definition rewardForValidation :: "js_env \<Rightarrow> ident \<Rightarrow> validation_proof \<Rightarrow> reward_system \<Rightarrow> reward_entry option \<times> reward_system" where
  "rewardForValidation env nodeId p ls =
     record_and_settle env \<lparr> ce_eventId = new_id env 0 ''contrib'', ce_missionId = vp_missionId p, ce_nodeId = nodeId,
       ce_kind = RewardValidation, ce_label = ''validation:'' @ validation_str (vp_validationType p),
       ce_proofId = Some (vp_proofId p), ce_taskId = None, ce_targetId = None,
       ce_weight = (if vp_accepted p then 12 / 10 else 1 / 2), ce_createdAtMs = now_ms env,
       ce_metadata = [(''proofId'', JStr (vp_proofId p)), (''validationType'', JStr (validation_str (vp_validationType p))),
         (''accepted'', JBool (vp_accepted p))] \<rparr> (Some (vp_proofId p)) ls"

definition rewardForRelayContinuity :: "js_env \<Rightarrow> ident \<Rightarrow> ident \<Rightarrow> validation_proof \<Rightarrow> reward_system \<Rightarrow> reward_entry option \<times> reward_system" where
  "rewardForRelayContinuity env missionId nodeId p ls =
     record_and_settle env \<lparr> ce_eventId = new_id env 0 ''relay'', ce_missionId = missionId, ce_nodeId = nodeId,
       ce_kind = RewardRelay, ce_label = ''relay_continuity'', ce_proofId = Some (vp_proofId p), ce_taskId = None,
       ce_targetId = None, ce_weight = (if vp_accepted p then 15 / 10 else 4 / 10), ce_createdAtMs = now_ms env,
       ce_metadata = [(''proofId'', JStr (vp_proofId p)), (''validationType'', JStr (validation_str (vp_validationType p)))] \<rparr>
       (Some (vp_proofId p)) ls"

definition rewardForDiscovery :: "js_env \<Rightarrow> ident \<Rightarrow> ident \<Rightarrow> real \<Rightarrow> validation_proof option \<Rightarrow> reward_system \<Rightarrow> reward_entry option \<times> reward_system" where
  "rewardForDiscovery env missionId nodeId cellsDiscovered p ls =
     record_and_settle env \<lparr> ce_eventId = new_id env 0 ''discover'', ce_missionId = missionId, ce_nodeId = nodeId,
       ce_kind = RewardDiscovery, ce_label = ''map_discovery'', ce_proofId = map_option vp_proofId p, ce_taskId = None,
       ce_targetId = None, ce_weight = max (2 / 10) (cellsDiscovered / 10), ce_createdAtMs = now_ms env,
       ce_metadata = [(''cellsDiscovered'', JNum cellsDiscovered), (''proofId'', opt_str (map_option vp_proofId p))] \<rparr>
       (map_option vp_proofId p) ls"

definition rewardForRescue :: "js_env \<Rightarrow> ident \<Rightarrow> ident \<Rightarrow> ident \<Rightarrow> validation_proof \<Rightarrow> reward_system \<Rightarrow> reward_entry option \<times> reward_system" where
  "rewardForRescue env missionId nodeId targetId p ls =
     record_and_settle env \<lparr> ce_eventId = new_id env 0 ''rescue'', ce_missionId = missionId, ce_nodeId = nodeId,
       ce_kind = RewardRescue, ce_label = ''victim_extraction'', ce_proofId = Some (vp_proofId p), ce_taskId = None,
       ce_targetId = Some targetId, ce_weight = (if vp_accepted p then 2 else 6 / 10), ce_createdAtMs = now_ms env,
       ce_metadata = [(''targetId'', JStr targetId), (''proofId'', JStr (vp_proofId p))] \<rparr> (Some (vp_proofId p)) ls"

definition rewardForRecovery :: "js_env \<Rightarrow> ident \<Rightarrow> ident \<Rightarrow> string \<Rightarrow> validation_proof option \<Rightarrow> reward_system \<Rightarrow> reward_entry option \<times> reward_system" where
  "rewardForRecovery env missionId nodeId why p ls =
     record_and_settle env \<lparr> ce_eventId = new_id env 0 ''recovery'', ce_missionId = missionId, ce_nodeId = nodeId,
       ce_kind = RewardRecovery, ce_label = why, ce_proofId = map_option vp_proofId p, ce_taskId = None,
       ce_targetId = None, ce_weight = 1, ce_createdAtMs = now_ms env,
       ce_metadata = [(''reason'', JStr why), (''proofId'', opt_str (map_option vp_proofId p))] \<rparr> (map_option vp_proofId p) ls"

definition rewardForSafetyResponse :: "js_env \<Rightarrow> ident \<Rightarrow> ident \<Rightarrow> string \<Rightarrow> validation_proof option \<Rightarrow> reward_system \<Rightarrow> reward_entry option \<times> reward_system" where
  "rewardForSafetyResponse env missionId nodeId why p ls =
     record_and_settle env \<lparr> ce_eventId = new_id env 0 ''safety'', ce_missionId = missionId, ce_nodeId = nodeId,
       ce_kind = RewardSafety, ce_label = why, ce_proofId = map_option vp_proofId p, ce_taskId = None,
       ce_targetId = None, ce_weight = 8 / 10, ce_createdAtMs = now_ms env,
       ce_metadata = [(''reason'', JStr why), (''proofId'', opt_str (map_option vp_proofId p))] \<rparr> (map_option vp_proofId p) ls"

subsection \<open>Queries, manifests and settlement\<close>

definition balances :: "reward_system \<Rightarrow> (ident, real) jsmap" where
  "balances ls = foldl (\<lambda>acc n. js_put (ln_nodeId n) (balanceFor (ln_nodeId n) (ls_tracker ls)) acc) [] (all_nodes (ls_registry ls))"

definition contributionHistory :: "ident option \<Rightarrow> reward_system \<Rightarrow> contribution_event list" where
  "contributionHistory nodeId ls =
     (case nodeId of None \<Rightarrow> recentContributions 10000 (ls_tracker ls)
      | Some i \<Rightarrow> if i = [] then recentContributions 10000 (ls_tracker ls) else contributionsFor i (ls_tracker ls))"

definition rewards_of :: "ident option \<Rightarrow> reward_system \<Rightarrow> reward_event list" where
  "rewards_of nodeId ls =
     (case nodeId of None \<Rightarrow> recentRewards 10000 (ls_tracker ls)
      | Some i \<Rightarrow> if i = [] then recentRewards 10000 (ls_tracker ls) else rewardsForNode i (ls_tracker ls))"

definition recentLedger :: "reward_system \<Rightarrow> reward_entry list" where
  "recentLedger ls = reward_ledger (ls_tracker ls)"

definition recentEvents :: "nat \<Rightarrow> reward_system \<Rightarrow> (timestamp \<times> system_event) list" where
  "recentEvents limit ls = slice_tail limit (ls_events ls)"

record health_summary =
  hy_nodeCount :: int
  hy_healthyCount :: int
  hy_degradedCount :: int
  hy_offlineCount :: int
  hy_averageTrustScore :: real
  hy_averageReputationScore :: real
  hy_totalRewardPoints :: real
  hy_recentProofCount :: int
  hy_recentContributionCount :: int

definition count_nodes_by :: "(health_status \<Rightarrow> bool) \<Rightarrow> lattice_node list \<Rightarrow> int" where
  "count_nodes_by P nodes = int (length (filter (\<lambda>n. P (lh_status (ln_health n))) nodes))"

definition healthSummary :: "reward_system \<Rightarrow> health_summary" where
  "healthSummary ls =
     (let nodes = all_nodes (ls_registry ls)
      in \<lparr> hy_nodeCount = int (length nodes), hy_healthyCount = count_nodes_by (\<lambda>s. s = HealthHealthy) nodes,
           hy_degradedCount = count_nodes_by (\<lambda>s. s = HealthDegraded) nodes,
           hy_offlineCount = count_nodes_by (\<lambda>s. s = HealthOffline \<or> s = HealthUnhealthy) nodes,
           hy_averageTrustScore = average ln_trustScore nodes, hy_averageReputationScore = average ln_reputationScore nodes,
           hy_totalRewardPoints = round2 (sum_list (map ln_rewardPoints nodes)),
           hy_recentProofCount = int (length (recentProofs 100 (ls_validator ls))),
           hy_recentContributionCount = int (length (recentContributions 100 (ls_tracker ls))) \<rparr>)"

fun reward_kind_str :: "reward_kind \<Rightarrow> string" where
  "reward_kind_str RewardWork = ''work''"
| "reward_kind_str RewardRelay = ''relay''"
| "reward_kind_str RewardDiscovery = ''discovery''"
| "reward_kind_str RewardRescue = ''rescue''"
| "reward_kind_str RewardValidation = ''validation''"
| "reward_kind_str RewardRecovery = ''recovery''"
| "reward_kind_str RewardSafety = ''safety''"
| "reward_kind_str RewardBonus = ''bonus''"
| "reward_kind_str RewardPenalty = ''penalty''"

definition contribution_json :: "contribution_event \<Rightarrow> json" where
  "contribution_json c = JObj
     [(''eventId'', JStr (ce_eventId c)), (''missionId'', JStr (ce_missionId c)), (''nodeId'', JStr (ce_nodeId c)),
      (''kind'', JStr (reward_kind_str (ce_kind c))), (''label'', JStr (ce_label c)), (''proofId'', opt_str (ce_proofId c)),
      (''taskId'', opt_str (ce_taskId c)), (''targetId'', opt_str (ce_targetId c)), (''weight'', JNum (ce_weight c)),
      (''createdAtMs'', jint (ce_createdAtMs c)), (''metadata'', JObj (ce_metadata c))]"

definition reward_json :: "reward_event \<Rightarrow> json" where
  "reward_json r = JObj
     [(''rewardId'', JStr (rv_rewardId r)), (''missionId'', JStr (rv_missionId r)), (''nodeId'', JStr (rv_nodeId r)),
      (''kind'', JStr (reward_kind_str (rv_kind r))), (''amount'', JNum (rv_amount r)), (''reason'', JStr (rv_reason r)),
      (''proofId'', opt_str (rv_proofId r)), (''contributionEventId'', opt_str (rv_contributionEventId r)),
      (''createdAtMs'', jint (rv_createdAtMs r)), (''settled'', JBool (rv_settled r)), (''metadata'', JObj (rv_metadata r))]"

definition proof_json :: "validation_proof \<Rightarrow> json" where
  "proof_json p = JObj
     [(''proofId'', JStr (vp_proofId p)), (''validationType'', JStr (validation_str (vp_validationType p))),
      (''missionId'', JStr (vp_missionId p)), (''taskId'', opt_str (vp_taskId p)), (''targetId'', opt_str (vp_targetId p)),
      (''subjectNodeId'', JStr (vp_subjectNodeId p)), (''witnesses'', jstrs (vp_witnesses p)),
      (''evidence'', JObj (vp_evidence p)), (''createdAtMs'', jint (vp_createdAtMs p)), (''accepted'', JBool (vp_accepted p)),
      (''reason'', JStr (vp_reason p)), (''sourceHashes'', jstrs (vp_sourceHashes p))]"

record reward_manifest =
  mf_missionId :: ident
  mf_createdAtMs :: timestamp
  mf_contributions :: "contribution_event list"
  mf_rewards :: "reward_event list"
  mf_proofs :: "validation_proof list"
  mf_balances :: "(ident, real) jsmap"
  mf_ledgerHash :: string

definition manifest_lists :: "reward_manifest \<Rightarrow> obj" where
  "manifest_lists m =
     [(''contributions'', JArr (map contribution_json (mf_contributions m))),
      (''rewards'', JArr (map reward_json (mf_rewards m))), (''proofs'', JArr (map proof_json (mf_proofs m)))]"

definition manifest_json :: "reward_manifest \<Rightarrow> json" where
  "manifest_json m = JObj
     ([(''missionId'', JStr (mf_missionId m)), (''createdAtMs'', jint (mf_createdAtMs m))] @ manifest_lists m
      @ [(''balances'', JObj (map (\<lambda>(k, b). (k, JNum b)) (mf_balances m))), (''ledgerHash'', JStr (mf_ledgerHash m))])"

definition buildRewardManifest :: "js_lib \<Rightarrow> js_env \<Rightarrow> ident \<Rightarrow> reward_system \<Rightarrow> reward_manifest" where
  "buildRewardManifest L env missionId ls =
     (let m = \<lparr> mf_missionId = missionId, mf_createdAtMs = now_ms env,
            mf_contributions = filter (\<lambda>c. ce_missionId c = missionId) (contributionHistory None ls),
            mf_rewards = filter (\<lambda>r. rv_missionId r = missionId) (rewards_of None ls),
            mf_proofs = filter (\<lambda>p. vp_missionId p = missionId) (recentProofs 10000 (ls_validator ls)),
            mf_balances = balances ls, mf_ledgerHash = [] \<rparr>
      in m\<lparr>mf_ledgerHash := hash_object (sha L) (JObj (manifest_lists m))\<rparr>)"

record settlement_payload =
  st_missionId :: ident
  st_manifest :: reward_manifest
  st_outcomeHash :: string
  st_settlementReady :: bool
  st_tsMs :: timestamp

definition buildSettlementPayload :: "js_lib \<Rightarrow> js_env \<Rightarrow> ident \<Rightarrow> reward_system \<Rightarrow> settlement_payload" where
  "buildSettlementPayload L env missionId ls =
     (let manifest = buildRewardManifest L env missionId ls
      in \<lparr> st_missionId = missionId, st_manifest = manifest, st_outcomeHash = hash_object (sha L) (manifest_json manifest),
           st_settlementReady = True, st_tsMs = now_ms env \<rparr>)"

record fit_report =
  fr_nodeId :: ident
  fr_scenario :: scenario_kind
  fr_fit :: real
  fr_capabilityHits :: "capability_tag list"
  fr_hazardClearance :: "string list"
  fr_indoorSuitability :: real
  fr_outdoorSuitability :: real
  fr_trustScore :: real
  fr_reputationScore :: real

text \<open>\<open>None\<close> is the report \<open>{ fit: 0, reason: "unknown_node" }\<close>.\<close>

definition scenarioFit :: "ident \<Rightarrow> scenario_kind \<Rightarrow> reward_system \<Rightarrow> fit_report option \<times> reward_system" where
  "scenarioFit nodeId scenario ls =
     (case get_node nodeId (ls_registry ls) of
        None \<Rightarrow> (None, ls)
      | Some node \<Rightarrow>
          (let (policy, nr) = policyFor scenario (ls_registry ls); c = ln_capabilityProfile node;
               hits = filter (\<lambda>t. js_get (sp_capabilityWeights policy) t \<noteq> None) (lc_tags c);
               fit = foldl (\<lambda>acc t. acc + default_to (js_get (sp_capabilityWeights policy) t) 0) 0 hits
           in (Some \<lparr> fr_nodeId = nodeId, fr_scenario = scenario,
                 fr_fit = round2 (fit + ln_trustScore node + ln_reputationScore node), fr_capabilityHits = hits,
                 fr_hazardClearance = lc_hazardClearance c, fr_indoorSuitability = lc_indoorSuitability c,
                 fr_outdoorSuitability = lc_outdoorSuitability c, fr_trustScore = ln_trustScore node,
                 fr_reputationScore = ln_reputationScore node \<rparr>, ls\<lparr>ls_registry := nr\<rparr>)))"

subsection \<open>The reward coordinator\<close>

text \<open>\<open>Partial<NodeProfile>\<close>; the coordinator's other methods pass their arguments on to the system.\<close>

record node_partial =
  np_displayName :: "string option"
  np_role :: "node_role option"
  np_endpoint :: "node_endpoint option"
  np_publicKey :: "string option"
  np_vendor :: "string option"
  np_model :: "string option"
  np_location :: "xy_point option"
  np_capabilityProfile :: "lattice_capability option"
  np_health :: "lattice_health option"
  np_trustScore :: "real option"
  np_reputationScore :: "real option"
  np_rewardPoints :: "real option"
  np_contributionCount :: "int option"
  np_successfulTasks :: "int option"
  np_failedTasks :: "int option"
  np_firstSeenMs :: "timestamp option"
  np_missionId :: "ident option"
  np_metadata :: "obj option"

definition fresh_health :: "js_env \<Rightarrow> lattice_health" where
  "fresh_health env = \<lparr> lh_timestampMs = now_ms env, lh_batteryPct = 100, lh_cpuPct = 0, lh_memoryPct = 0,
     lh_linkQuality = 1, lh_gpsFix = True, lh_temperatureC = None, lh_missionId = None, lh_status = HealthHealthy \<rparr>"

definition announced_node :: "js_env \<Rightarrow> discovery_event \<Rightarrow> node_partial \<Rightarrow> lattice_node" where
  "announced_node env ev p =
     \<lparr> ln_nodeId = dv_nodeId ev, ln_displayName = default_to (np_displayName p) (dv_nodeId ev),
       ln_role = default_to (np_role p) Standby, ln_endpoint = nullish (dv_endpoint ev) (np_endpoint p),
       ln_publicKey = default_to (np_publicKey p) [], ln_vendor = np_vendor p, ln_model = np_model p,
       ln_location = nullish (dv_location ev) (np_location p),
       ln_capabilityProfile = default_to (np_capabilityProfile p) empty_capability,
       ln_health = default_to (np_health p) (fresh_health env), ln_trustScore = default_to (np_trustScore p) (1 / 2),
       ln_reputationScore = default_to (np_reputationScore p) (1 / 2), ln_rewardPoints = default_to (np_rewardPoints p) 0,
       ln_contributionCount = default_to (np_contributionCount p) 0,
       ln_successfulTasks = default_to (np_successfulTasks p) 0, ln_failedTasks = default_to (np_failedTasks p) 0,
       ln_lastSeenMs = dv_seenAtMs ev, ln_firstSeenMs = default_to (np_firstSeenMs p) (dv_seenAtMs ev),
       ln_missionId = nullish (dv_missionId ev) (np_missionId p),
       ln_metadata = obj_spread (obj_spread [] (default_to (np_metadata p) [])) (dv_metadata ev) \<rparr>"

definition onNodeDiscovery :: "js_env \<Rightarrow> discovery_event \<Rightarrow> node_partial \<Rightarrow> reward_system \<Rightarrow> lattice_node \<times> reward_system" where
  "onNodeDiscovery env ev p ls = systemRegister env (announced_node env ev p) ls"

definition recordProof :: "js_env \<Rightarrow> validation_proof \<Rightarrow> reward_system \<Rightarrow> validation_proof \<times> reward_system" where
  "recordProof env p ls = (let (q, ls1) = evaluateProof env (vp_proofId p) ls in (default_to q p, ls1))"

subsection \<open>Books of the reward ledger\<close>

text \<open>Every reward of the tracker goes through \<open>recordReward\<close>.\<close>

definition booked :: "ident \<Rightarrow> reward_entry list \<Rightarrow> real" where
  "booked i entries = sum_list (map (\<lambda>e. rv_amount (rl_reward e)) (filter (\<lambda>e. rv_nodeId (rl_reward e) = i) entries))"

definition reward_ids :: "reward_system \<Rightarrow> ident list" where
  "reward_ids ls = map (\<lambda>e. rv_rewardId (rl_reward e)) (recentLedger ls)"

text \<open>
  The balance of a node is the sum of its booked rewards, and the running balance each entry
  carries is the balance at that point of the ledger.
\<close>

definition books_balance :: "tracker \<Rightarrow> bool" where
  "books_balance ct \<longleftrightarrow>
     (\<forall>i. balanceFor i ct = booked i (ct_rewardLedger ct))
     \<and> (\<forall>n < length (ct_rewardLedger ct). let e = ct_rewardLedger ct ! n
          in rl_balanceAfter e = booked (rv_nodeId (rl_reward e)) (take (Suc n) (ct_rewardLedger ct)))"

definition tracker_ok :: "tracker \<Rightarrow> bool" where
  "tracker_ok ct \<longleftrightarrow> js_values (ct_rewards ct) = map rl_reward (ct_rewardLedger ct) \<and> books_balance ct
     \<and> (\<forall>i r. js_get (ct_rewards ct) i = Some r \<longrightarrow> rv_rewardId r = i)"

lemma booked_snoc: "booked i (es @ [e]) = booked i es + (if rv_nodeId (rl_reward e) = i then rv_amount (rl_reward e) else 0)"
  by (simp add: booked_def)

lemma recordReward_tracker:
  "ct_rewards (snd (recordReward r t p b ct)) = js_put (rv_rewardId r) r (ct_rewards ct)"
  "ct_rewardLedger (snd (recordReward r t p b ct)) = ct_rewardLedger ct @ [fst (recordReward r t p b ct)]"
  "rl_reward (fst (recordReward r t p b ct)) = r" "rl_balanceAfter (fst (recordReward r t p b ct)) = b"
  "ct_contributions (snd (recordReward r t p b ct)) = ct_contributions ct"
  by (simp_all add: recordReward_def Let_def)

lemma tracker_ok_record:
  assumes "tracker_ok ct" "b = balanceFor (rv_nodeId r) ct + rv_amount r"
    "rv_rewardId r \<notin> set (map (\<lambda>e. rv_rewardId (rl_reward e)) (ct_rewardLedger ct))"
  shows "tracker_ok (snd (recordReward r t p b ct))"
proof -
  have vals: "js_values (ct_rewards ct) = map rl_reward (ct_rewardLedger ct)"
    and ids: "\<And>i r. js_get (ct_rewards ct) i = Some r \<Longrightarrow> rv_rewardId r = i"
    and bal: "\<And>i. balanceFor i ct = booked i (ct_rewardLedger ct)"
    and run: "\<And>n. n < length (ct_rewardLedger ct) \<Longrightarrow>
      rl_balanceAfter (ct_rewardLedger ct ! n) = booked (rv_nodeId (rl_reward (ct_rewardLedger ct ! n))) (take (Suc n) (ct_rewardLedger ct))"
    using assms(1) by (auto simp: tracker_ok_def books_balance_def Let_def)
  have fresh: "js_get (ct_rewards ct) (rv_rewardId r) = None"
  proof (rule ccontr)
    assume "js_get (ct_rewards ct) (rv_rewardId r) \<noteq> None"
    then obtain q where q: "js_get (ct_rewards ct) (rv_rewardId r) = Some q" by auto
    then have "q \<in> set (js_values (ct_rewards ct))" by (force simp: js_values_def dest: map_of_SomeD)
    with ids [OF q] assms(3) show False unfolding vals by force
  qed
  let ?ct = "snd (recordReward r t p b ct)" and ?e = "fst (recordReward r t p b ct)"
  have bal': "balanceFor i ?ct = booked i (ct_rewardLedger ?ct)" for i
    using balance_after_reward [OF fresh, of i t p b] by (simp add: bal recordReward_tracker booked_snoc)
  have run': "rl_balanceAfter (ct_rewardLedger ?ct ! n) = booked (rv_nodeId (rl_reward (ct_rewardLedger ?ct ! n))) (take (Suc n) (ct_rewardLedger ?ct))"
    if "n < length (ct_rewardLedger ?ct)" for n
  proof (cases "n < length (ct_rewardLedger ct)")
    case True
    then show ?thesis using run by (simp add: recordReward_tracker nth_append)
  next
    case False
    with that have "n = length (ct_rewardLedger ct)" by (simp add: recordReward_tracker)
    then show ?thesis using assms(2) bal by (simp add: recordReward_tracker nth_append booked_snoc)
  qed
  have vals': "js_values (ct_rewards ?ct) = map rl_reward (ct_rewardLedger ?ct)"
    using values_put_fresh [OF fresh] by (simp add: recordReward_tracker vals)
  have ids': "rv_rewardId q = i" if "js_get (ct_rewards ?ct) i = Some q" for i q
    using that ids by (auto simp: recordReward_tracker js_map_simps split: if_splits)
  show ?thesis using bal' run' vals' ids' unfolding tracker_ok_def books_balance_def Let_def by blast
qed

datatype system_op =
    SoRegister lattice_node
  | SoDiscover discovery_event
  | SoHealth ident health_patch
  | SoCapability ident lattice_capability
  | SoAttest peer_attestation
  | SoProof proof_input
  | SoEvaluate ident
  | SoAssign work_item
  | SoContribute contribution_event
  | SoSettle ident "ident option"
  | SoPenalty ident string real

fun system_apply :: "js_lib \<Rightarrow> js_env \<Rightarrow> system_op \<Rightarrow> reward_system \<Rightarrow> reward_system" where
  "system_apply L env (SoRegister n) ls = snd (systemRegister env n ls)"
| "system_apply L env (SoDiscover ev) ls = snd (discoverNode env ev ls)"
| "system_apply L env (SoHealth i p) ls = snd (systemHealth env i p ls)"
| "system_apply L env (SoCapability i c) ls = snd (systemCapability env i c ls)"
| "system_apply L env (SoAttest a) ls = validateContribution env a ls"
| "system_apply L env (SoProof p) ls = snd (systemProof L env p ls)"
| "system_apply L env (SoEvaluate i) ls = snd (evaluateProof env i ls)"
| "system_apply L env (SoAssign w) ls = snd (assignAndRecord L env w ls)"
| "system_apply L env (SoContribute c) ls = snd (recordContribution env c ls)"
| "system_apply L env (SoSettle e p) ls = snd (settleContribution env e p ls)"
| "system_apply L env (SoPenalty i w a) ls = snd (applyPenalty env i w a ls)"

definition system_run :: "js_lib \<Rightarrow> reward_system \<Rightarrow> (js_env \<times> system_op) list \<Rightarrow> reward_system" where
  "system_run L ls ops = foldl (\<lambda>ls eo. system_apply L (fst eo) (snd eo) ls) ls ops"

text \<open>An operation leaves the rewards alone or books one with the right running balance.\<close>

inductive books_step :: "tracker \<Rightarrow> tracker \<Rightarrow> bool" where
  kept: "ct_rewards ct' = ct_rewards ct \<Longrightarrow> ct_rewardLedger ct' = ct_rewardLedger ct \<Longrightarrow> books_step ct ct'"
| booked: "books_step ct (snd (recordReward r t p (balanceFor (rv_nodeId r) ct + rv_amount r) ct))"

inductive_cases books_stepE: "books_step ct ct'"

lemma tracker_log_event [simp]: "ls_tracker (log_event env ev ls) = ls_tracker ls" "ls_validator (log_event env ev ls) = ls_validator ls"
  "ls_registry (log_event env ev ls) = ls_registry ls" "ls_multipliers (log_event env ev ls) = ls_multipliers ls"
  by (simp_all add: log_event_def)

lemma settle_tracker:
  "ls_tracker (snd (settleContribution env e p ls)) = (case find_contribution e (ls_tracker ls) of None \<Rightarrow> ls_tracker ls
     | Some c \<Rightarrow> snd (recordReward (reward_of env c (find_proof p (ls_validator ls)) (amountFor c (find_proof p (ls_validator ls)) (ls_multipliers ls)))
         (clamp (default_to (map_option ln_trustScore (get_node (ce_nodeId c) (ls_registry ls))) (1 / 2)
            + trustDeltaFor c (find_proof p (ls_validator ls))) 0 1)
         (clamp (default_to (map_option ln_reputationScore (get_node (ce_nodeId c) (ls_registry ls))) (1 / 2)
            + reputationDeltaFor c (find_proof p (ls_validator ls))) 0 1)
         (balanceFor (ce_nodeId c) (ls_tracker ls) + amountFor c (find_proof p (ls_validator ls)) (ls_multipliers ls)) (ls_tracker ls)))"
  by (simp add: settleContribution_def Let_def split_beta split: option.split)

lemma reward_of_fields [simp]:
  "rv_nodeId (reward_of env c p a) = ce_nodeId c" "rv_amount (reward_of env c p a) = a"
  "rv_rewardId (reward_of env c p a) = new_id env 0 ''reward''"
  by (simp_all add: reward_of_def)

lemma step_settle: "books_step (ls_tracker ls) (ls_tracker (snd (settleContribution env e p ls)))"
proof (cases "find_contribution e (ls_tracker ls)")
  case (Some c)
  show ?thesis
    unfolding settle_tracker Some option.case
    using books_step.booked [where ct = "ls_tracker ls" and r = "reward_of env c (find_proof p (ls_validator ls))
        (amountFor c (find_proof p (ls_validator ls)) (ls_multipliers ls))"] by simp
qed (simp add: settle_tracker books_step.kept)

lemma step_penalty: "books_step (ls_tracker ls) (ls_tracker (snd (applyPenalty env i w a ls)))"
proof (cases "get_node i (ls_registry ls)")
  case (Some n)
  obtain r t p where "ls_tracker (snd (applyPenalty env i w a ls)) =
      snd (recordReward r t p (balanceFor i (ls_tracker ls) - \<bar>a\<bar>) (ls_tracker ls))" "rv_nodeId r = i" "rv_amount r = - \<bar>a\<bar>"
    by (simp add: applyPenalty_def Some Let_def split_beta)
  then show ?thesis using books_step.booked [of "ls_tracker ls" r t p] by simp
qed (simp add: applyPenalty_def books_step.kept)

lemma step_system: "books_step (ls_tracker ls) (ls_tracker (system_apply L env op ls))"
proof (cases op)
  case (SoSettle e p)
  then show ?thesis by (simp add: step_settle)
next
  case (SoPenalty i w a)
  then show ?thesis by (simp add: step_penalty)
qed (auto intro!: books_step.kept simp: systemRegister_def discoverNode_def systemHealth_def systemCapability_def
    validateContribution_def systemProof_def evaluateProof_def assignAndRecord_def allocate_def recordContribution_def
    addContribution_def split_beta Let_def split: option.split)

lemma tracker_ok_cong: "ct_rewards ct' = ct_rewards ct \<Longrightarrow> ct_rewardLedger ct' = ct_rewardLedger ct \<Longrightarrow> tracker_ok ct' = tracker_ok ct"
  by (simp add: tracker_ok_def books_balance_def balanceFor_def rewardsForNode_def)

lemma books_step_ok:
  assumes "books_step ct ct'" "tracker_ok ct" "distinct (map (\<lambda>e. rv_rewardId (rl_reward e)) (ct_rewardLedger ct'))"
  shows "tracker_ok ct'"
  using assms(1)
proof (rule books_stepE)
  assume "ct_rewards ct' = ct_rewards ct" "ct_rewardLedger ct' = ct_rewardLedger ct"
  from tracker_ok_cong [OF this] show ?thesis using assms(2) by (rule iffD2)
next
  fix r t p assume r: "ct' = snd (recordReward r t p (balanceFor (rv_nodeId r) ct + rv_amount r) ct)"
  show ?thesis
    unfolding r by (rule tracker_ok_record [OF assms(2) refl]) (use assms(3) in \<open>auto simp: r recordReward_tracker\<close>)
qed

lemma books_step_prefix: "books_step ct ct' \<Longrightarrow> \<exists>es. ct_rewardLedger ct' = ct_rewardLedger ct @ es"
  by (auto elim!: books_stepE simp: recordReward_tracker)

lemma system_run_ok:
  assumes "tracker_ok (ls_tracker ls)" "distinct (reward_ids (system_run L ls ops))"
  shows "tracker_ok (ls_tracker (system_run L ls ops))"
  using assms(2)
proof (induction ops rule: rev_induct)
  case Nil
  then show ?case using assms(1) by (simp add: system_run_def)
next
  case (snoc eo ops)
  let ?ls = "system_run L ls ops"
  have step: "books_step (ls_tracker ?ls) (ls_tracker (system_run L ls (ops @ [eo])))"
    by (simp add: system_run_def step_system)
  obtain es where "ct_rewardLedger (ls_tracker (system_run L ls (ops @ [eo]))) = ct_rewardLedger (ls_tracker ?ls) @ es"
    using books_step_prefix [OF step] by blast
  then have "distinct (reward_ids ?ls)" using snoc.prems by (simp add: reward_ids_def recentLedger_def reward_ledger_def)
  then have "tracker_ok (ls_tracker ?ls)" by (rule snoc.IH)
  then show ?case
    by (rule books_step_ok [OF step]) (use snoc.prems in \<open>simp add: reward_ids_def recentLedger_def reward_ledger_def\<close>)
qed

lemma tracker_ok_new: "tracker_ok new_tracker"
  by (simp add: tracker_ok_def books_balance_def new_tracker_def balance_sum js_values_def booked_def)

text \<open>
  C38. After any run of a new reward system whose generated reward identifiers did not repeat,
  the balance of every node is the sum of the rewards and penalties booked for it, and each entry
  of the reward ledger carries the balance its node had when it was booked.
\<close>

theorem reward_books_balance:
  assumes "distinct (reward_ids (system_run L (new_reward_system registry multipliers vld) ops))"
  shows "books_balance (ls_tracker (system_run L (new_reward_system registry multipliers vld) ops))"
proof -
  have "tracker_ok (ls_tracker (new_reward_system registry multipliers vld))"
    using tracker_ok_new by (simp add: new_reward_system_def)
  from system_run_ok [OF this assms] show ?thesis unfolding tracker_ok_def by blast
qed

definition toy_contribution :: contribution_event where
  "toy_contribution = \<lparr> ce_eventId = ''e'', ce_missionId = ''m'', ce_nodeId = ''n'', ce_kind = RewardWork,
     ce_label = [], ce_proofId = None, ce_taskId = None, ce_targetId = None, ce_weight = 1, ce_createdAtMs = 1,
     ce_metadata = [] \<rparr>"

definition toy_system :: reward_system where
  "toy_system = new_reward_system (new_node_registry []) None None"

lemma toy_contributed: "find_contribution ''e'' (ls_tracker (snd (recordContribution (demo_env 1) toy_contribution toy_system))) = Some toy_contribution"
proof -
  have "getContribution ''e'' (ls_tracker (snd (recordContribution (demo_env 1) toy_contribution toy_system))) = Some toy_contribution"
    by (simp add: getContribution_def recordContribution_def addContribution_def toy_contribution_def js_map_simps)
  then show ?thesis by (simp only: find_contribution_def nullish_simps)
qed

theorem reward_books_balance_witness:
  "books_balance (ls_tracker (system_run toy_lib (new_reward_system (new_node_registry []) None None)
     [(demo_env 1, SoContribute toy_contribution), (demo_env 2, SoSettle ''e'' None)]))"
proof (rule reward_books_balance)
  show "distinct (reward_ids (system_run toy_lib (new_reward_system (new_node_registry []) None None)
     [(demo_env 1, SoContribute toy_contribution), (demo_env 2, SoSettle ''e'' None)]))"
    using toy_contributed
    by (simp add: system_run_def reward_ids_def recentLedger_def reward_ledger_def settle_tracker recordReward_tracker
        toy_system_def) (simp add: recordContribution_def addContribution_def new_reward_system_def new_tracker_def)
qed

subsection \<open>Settling twice\<close>

lemma find_contribution_cong: "ct_contributions ct' = ct_contributions ct \<Longrightarrow> find_contribution e ct' = find_contribution e ct"
  by (simp add: find_contribution_def getContribution_def recentContributions_def)

lemma settle_frame:
  "ls_validator (snd (settleContribution env e p ls)) = ls_validator ls"
  "ls_multipliers (snd (settleContribution env e p ls)) = ls_multipliers ls"
  "find_contribution e' (ls_tracker (snd (settleContribution env e p ls))) = find_contribution e' (ls_tracker ls)"
proof -
  show "find_contribution e' (ls_tracker (snd (settleContribution env e p ls))) = find_contribution e' (ls_tracker ls)"
    by (rule find_contribution_cong) (simp add: settle_tracker recordReward_tracker split: option.split)
qed (simp_all add: settleContribution_def Let_def split_beta split: option.split)

lemma settle_balance:
  assumes "find_contribution e (ls_tracker ls) = Some c" "js_get (ct_rewards (ls_tracker ls)) (new_id env 0 ''reward'') = None"
  shows "balanceFor (ce_nodeId c) (ls_tracker (snd (settleContribution env e p ls))) =
    balanceFor (ce_nodeId c) (ls_tracker ls) + amountFor c (find_proof p (ls_validator ls)) (ls_multipliers ls)"
  using assms by (simp add: settle_tracker balance_after_reward)

text \<open>
  Nothing marks a contribution as settled: settling the same contribution with the same
  proof a second time, under another reward identifier, pays its full amount again.
\<close>

theorem settled_twice_pays_twice:
  assumes "find_contribution e (ls_tracker ls) = Some c"
    "js_get (ct_rewards (ls_tracker ls)) (new_id env 0 ''reward'') = None"
    "js_get (ct_rewards (ls_tracker ls)) (new_id env' 0 ''reward'') = None" "uuid env 0 \<noteq> uuid env' 0"
  shows "balanceFor (ce_nodeId c) (ls_tracker (snd (settleContribution env' e p (snd (settleContribution env e p ls))))) =
    balanceFor (ce_nodeId c) (ls_tracker ls) + 2 * amountFor c (find_proof p (ls_validator ls)) (ls_multipliers ls)"
proof -
  let ?ls = "snd (settleContribution env e p ls)"
  have "new_id env 0 ''reward'' \<noteq> new_id env' 0 ''reward''" using assms(4) by (simp add: new_id_def)
  then have "js_get (ct_rewards (ls_tracker ?ls)) (new_id env' 0 ''reward'') = None"
    using assms(1,3) by (auto simp: settle_tracker recordReward_tracker js_map_simps)
  then show ?thesis
    using assms(1,2) by (simp add: settle_balance settle_frame)
qed

theorem settled_twice_pays_twice_witness:
  "balanceFor ''n'' (ls_tracker (snd (settleContribution (later_ids 1 (demo_env 3)) ''e'' None (snd (settleContribution (demo_env 2) ''e'' None
     (snd (recordContribution (demo_env 1) toy_contribution toy_system))))))) =
   balanceFor ''n'' (ls_tracker (snd (recordContribution (demo_env 1) toy_contribution toy_system)))
     + 2 * amountFor toy_contribution None (ls_multipliers toy_system)"
proof -
  let ?ls = "snd (recordContribution (demo_env 1) toy_contribution toy_system)"
  have none: "js_get (ct_rewards (ls_tracker ?ls)) i = None" for i
    by (simp add: recordContribution_def addContribution_def toy_system_def new_reward_system_def new_tracker_def)
  have "uuid (demo_env 2) 0 \<noteq> uuid (later_ids 1 (demo_env 3)) 0"
    by (auto simp: demo_env_def later_ids_def dest: show_nat_inj)
  from settled_twice_pays_twice [OF toy_contributed none none this, of None] show ?thesis
    by (simp add: toy_contribution_def find_proof_def recordContribution_def addContribution_def)
qed

end
