(* ===== verification/Connectivity.thy ===== *)
theory Connectivity
  imports MissionPhases
begin

section \<open>The mesh connectivity graph\<close>

text \<open>
  Models the class \<open>ConnectivityGraph\<close> of \<open>src/src/backend/vertex/connectivity-graph.ts\<close> with the
  types of \<open>swarm-types.ts\<close> it works on. The graph is the map from edge keys to edges; the search
  loop over a stack and a set of seen nodes is a terminating function. The lemmas show that the
  search computes exactly the nodes connected by links of the wanted quality and that the
  partition is the quotient of the nodes by connectedness. The contract of such a search is the
  locale \<open>stack_search\<close>.
\<close>

subsection \<open>Data\<close>

datatype mobility_class = MobMultirotor | MobGround | MobFixedWing | MobSurface

datatype autonomy_policy = ApScoutContinue | ApRelayMaintain | ApRescueContinue | ApMapIndoor | ApCoordinatorQueue

datatype agent_health = AgentOk | AgentDegraded | AgentOffline

record agent_capability =
  cp_sensors :: "string list"
  cp_maxPayloadKg :: real
  cp_maxAltitudeM :: real
  cp_maxSpeedMps :: real
  cp_enduranceMin :: real
  cp_meshRangeM :: real
  cp_indoorScore :: real
  cp_outdoorScore :: real
  cp_gpsImuConfidence :: real
  cp_thermalScore :: real
  cp_lidarScore :: real
  cp_lowLightScore :: real
  cp_gripperScore :: real
  cp_computeTier :: real
  cp_batteryDrainPerTick :: real
  cp_recoveryLatencyMs :: real

record xyz_point =
  pos_x :: real
  pos_y :: real
  pos_z :: real

record swarm_agent =
  sw_nodeId :: ident
  sw_displayName :: string
  sw_vendorId :: string
  sw_model :: string
  sw_role :: mission_node_role
  sw_mobility :: mobility_class
  sw_capabilities :: agent_capability
  sw_position :: xyz_point
  sw_trust01 :: real
  sw_autonomyPolicy :: autonomy_policy
  sw_offline :: "bool option"
  sw_healthStatus :: "agent_health option"
  sw_currentTaskId :: "ident option"
  sw_lastHeartbeatMs :: "timestamp option"

record graph_edge =
  ge_a :: ident
  ge_b :: ident
  ge_latencyMs :: real
  ge_loss :: real
  ge_quality01 :: real
  ge_viaRelay :: "ident option"

record connectivity_snapshot =
  cs_edges :: "graph_edge list"
  cs_partitionClusters :: "ident list list"
  cs_operatorReachable :: "ident list"
  cs_relayChains :: "ident list list"
  cs_bottleneckEdge :: "graph_edge option"
  cs_stalePeers :: "ident list"

type_synonym mesh_graph = "(string, graph_edge) jsmap"

subsection \<open>Edges\<close>

definition edgeKey :: "ident \<Rightarrow> ident \<Rightarrow> string" where
  "edgeKey a b = (if a < b then a @ ''|'' @ b else b @ ''|'' @ a)"

definition setEdge :: "graph_edge \<Rightarrow> mesh_graph \<Rightarrow> mesh_graph" where
  "setEdge e g = js_put (edgeKey (ge_a e) (ge_b e)) e g"

definition removeEdge :: "ident \<Rightarrow> ident \<Rightarrow> mesh_graph \<Rightarrow> mesh_graph" where
  "removeEdge a b g = js_remove (edgeKey a b) g"

definition getEdge :: "ident \<Rightarrow> ident \<Rightarrow> mesh_graph \<Rightarrow> graph_edge option" where
  "getEdge a b g = js_get g (edgeKey a b)"

definition allEdges :: "mesh_graph \<Rightarrow> graph_edge list" where
  "allEdges g = js_values g"

definition ground_dist :: "xyz_point \<Rightarrow> xyz_point \<Rightarrow> real" where
  "ground_dist a b = sqrt ((pos_x a - pos_x b)\<^sup>2 + (pos_z a - pos_z b)\<^sup>2)"

text \<open>The body of the double loop; \<open>rng k\<close> is the \<open>k\<close>-th draw of the generator.\<close>

definition link_nodes :: "real \<Rightarrow> (nat \<Rightarrow> real) \<Rightarrow> swarm_agent \<Rightarrow> mesh_graph \<times> nat \<Rightarrow> swarm_agent \<Rightarrow> mesh_graph \<times> nat" where
  "link_nodes baseRangeM rng na gk nb =
     (let (g, k) = gk; d = ground_dist (sw_position na) (sw_position nb);
          range = baseRangeM
            + 35 / 100 * (cp_meshRangeM (sw_capabilities na) + cp_meshRangeM (sw_capabilities nb)) / 1000 - d * (12 / 10)
      in if range \<le> 0 then gk
         else let quality = max (5 / 100) (min 1 (25 / 100 + range * (6 / 100) + (rng k - 1 / 2) * (15 / 100)));
                  loss = max 0 (min (55 / 100) (55 / 100 - quality * (1 / 2)));
                  latency = real_of_int (js_round (40 + (1 - quality) * 220 + d * 8))
              in (setEdge \<lparr> ge_a = sw_nodeId na, ge_b = sw_nodeId nb, ge_latencyMs = latency, ge_loss = loss,
                    ge_quality01 = quality, ge_viaRelay = None \<rparr> g, Suc k))"

fun link_pairs :: "real \<Rightarrow> (nat \<Rightarrow> real) \<Rightarrow> swarm_agent list \<Rightarrow> mesh_graph \<times> nat \<Rightarrow> mesh_graph \<times> nat" where
  "link_pairs baseRangeM rng [] gk = gk"
| "link_pairs baseRangeM rng (na # rest) gk =
     link_pairs baseRangeM rng rest (foldl (link_nodes baseRangeM rng na) gk rest)"

definition rebuildFromNodes :: "swarm_agent list \<Rightarrow> real \<Rightarrow> (nat \<Rightarrow> real) \<Rightarrow> mesh_graph" where
  "rebuildFromNodes nodes baseRangeM rng = fst (link_pairs baseRangeM rng nodes ([], 0))"

subsection \<open>Search\<close>

definition visit_edge :: "real \<Rightarrow> ident \<Rightarrow> ident list \<times> ident list \<Rightarrow> graph_edge \<Rightarrow> ident list \<times> ident list" where
  "visit_edge minQ cur sq e =
     (if ge_a e \<noteq> cur \<and> ge_b e \<noteq> cur then sq
      else if ge_quality01 e < minQ then sq
      else let other = (if ge_a e = cur then ge_b e else ge_a e)
           in if other \<in> set (fst sq) then sq else (set_add other (fst sq), snd sq @ [other]))"

definition edge_ends :: "graph_edge list \<Rightarrow> ident set" where
  "edge_ends es = ge_a ` set es \<union> ge_b ` set es"

text \<open>What is left to do: every endpoint not seen may still be pushed once.\<close>

definition search_work :: "ident set \<Rightarrow> ident list \<Rightarrow> ident list \<Rightarrow> nat" where
  "search_work U seen q = 2 * card (U - set seen) + length q"

lemma search_work_push:
  assumes "finite U" "y \<in> U" "y \<notin> set seen"
  shows "search_work U (set_add y seen) (q @ [y]) < search_work U seen q"
proof -
  have "U - set (set_add y seen) = U - set seen - {y}" by auto
  moreover have "Suc (card (U - set seen - {y})) = card (U - set seen)"
    by (rule card_Suc_Diff1) (use assms in auto)
  ultimately show ?thesis by (simp add: search_work_def)
qed

lemma search_work_pop: "q \<noteq> [] \<Longrightarrow> search_work U seen (butlast q) < search_work U seen q"
  by (cases q rule: rev_cases) (auto simp: search_work_def)

lemma visit_edge_work:
  assumes "finite U" "ge_a e \<in> U" "ge_b e \<in> U"
  shows "search_work U (fst (visit_edge minQ cur sq e)) (snd (visit_edge minQ cur sq e)) \<le> search_work U (fst sq) (snd sq)"
  using search_work_push [OF assms(1), of _ "fst sq" "snd sq"] assms(2,3)
  by (auto simp: visit_edge_def Let_def less_imp_le)

lemma visit_edges_work:
  assumes "finite U" "edge_ends es \<subseteq> U"
  shows "search_work U (fst (foldl (visit_edge minQ cur) sq es)) (snd (foldl (visit_edge minQ cur) sq es))
    \<le> search_work U (fst sq) (snd sq)"
  using assms(2)
proof (induction es arbitrary: sq)
  case (Cons e es)
  then have "ge_a e \<in> U" "ge_b e \<in> U" "edge_ends es \<subseteq> U" by (auto simp: edge_ends_def)
  with Cons.IH [of "visit_edge minQ cur sq e"] visit_edge_work [OF assms(1), of e minQ cur sq] show ?case by simp
qed simp

lemma finite_edge_ends [simp]: "finite (edge_ends es)"
  by (simp add: edge_ends_def)

function reach_loop :: "real \<Rightarrow> graph_edge list \<Rightarrow> ident list \<Rightarrow> ident list \<Rightarrow> ident list" where
  "reach_loop minQ es q seen =
     (if q = [] then seen
      else let (seen', q') = foldl (visit_edge minQ (last q)) (seen, butlast q) es in reach_loop minQ es q' seen')"
  by pat_completeness auto
termination
proof (relation "measure (\<lambda>(minQ, es, q, seen). search_work (edge_ends es) seen q)")
  fix minQ es seen x seen' q' and q :: "ident list"
  assume "q \<noteq> []" "x = foldl (visit_edge minQ (last q)) (seen, butlast q) es" "(seen', q') = x"
  then have "foldl (visit_edge minQ (last q)) (seen, butlast q) es = (seen', q')" by simp
  then have "search_work (edge_ends es) seen' q' \<le> search_work (edge_ends es) seen (butlast q)"
    using visit_edges_work [of "edge_ends es" es minQ "last q" "(seen, butlast q)"] by simp
  also have "\<dots> < search_work (edge_ends es) seen q" using \<open>q \<noteq> []\<close> by (rule search_work_pop)
  finally show "((minQ, es, q', seen'), minQ, es, q, seen) \<in> measure (\<lambda>(minQ, es, q, seen). search_work (edge_ends es) seen q)"
    by simp
qed simp

declare reach_loop.simps [simp del]

definition reachableFrom :: "ident \<Rightarrow> real \<Rightarrow> mesh_graph \<Rightarrow> ident list" where
  "reachableFrom source minQ g = reach_loop minQ (allEdges g) [source] [source]"

subsection \<open>The contract of a stack search\<close>

definition push_new :: "ident list \<Rightarrow> ident list \<times> ident list \<Rightarrow> ident list \<times> ident list" where
  "push_new ys sq = foldl (\<lambda>sq y. if y \<in> set (fst sq) then sq else (set_add y (fst sq), snd sq @ [y])) sq ys"

lemma push_new_grows:
  "\<exists>new. push_new ys (seen, q) = (seen @ new, q @ new) \<and> set (seen @ new) = set seen \<union> set ys \<and> (distinct seen \<longrightarrow> distinct (seen @ new))"
proof (induction ys arbitrary: seen q)
  case (Cons y ys)
  show ?case
  proof (cases "y \<in> set seen")
    case True
    then show ?thesis using Cons [of seen q] by (auto simp: push_new_def)
  next
    case False
    obtain new where "push_new ys (seen @ [y], q @ [y]) = ((seen @ [y]) @ new, (q @ [y]) @ new)"
      "set ((seen @ [y]) @ new) = set (seen @ [y]) \<union> set ys" "distinct (seen @ [y]) \<longrightarrow> distinct ((seen @ [y]) @ new)"
      using Cons [of "seen @ [y]" "q @ [y]"] by blast
    with False show ?thesis by (intro exI [of _ "y # new"]) (auto simp: push_new_def set_add_def)
  qed
qed (simp add: push_new_def)

lemma push_new_work:
  assumes "finite U" "set ys \<subseteq> U"
  shows "search_work U (fst (push_new ys sq)) (snd (push_new ys sq)) \<le> search_work U (fst sq) (snd sq)"
  using assms(2)
proof (induction ys arbitrary: sq)
  case (Cons y ys)
  let ?sq = "if y \<in> set (fst sq) then sq else (set_add y (fst sq), snd sq @ [y])"
  have "search_work U (fst ?sq) (snd ?sq) \<le> search_work U (fst sq) (snd sq)"
    using search_work_push [OF assms(1), of y "fst sq" "snd sq"] Cons.prems by auto
  with Cons.IH [of ?sq] Cons.prems show ?case by (simp add: push_new_def)
qed (simp add: push_new_def)

locale stack_search =
  fixes nbrs :: "ident \<Rightarrow> ident list" and U :: "ident set"
    and run :: "ident list \<Rightarrow> ident list \<Rightarrow> ident list"
  assumes finite_nodes: "finite U" and nbrs_nodes: "set (nbrs x) \<subseteq> U"
    and run_nil: "run [] seen = seen"
    and run_snoc: "run (q @ [x]) seen = run (snd (push_new (nbrs x) (seen, q))) (fst (push_new (nbrs x) (seen, q)))"
begin

definition edge_rel :: "ident \<Rightarrow> ident \<Rightarrow> bool" where
  "edge_rel x y \<longleftrightarrow> y \<in> set (nbrs x)"

lemma run_spec:
  assumes "set q \<subseteq> set seen" "\<And>x. x \<in> set seen - set q \<Longrightarrow> set (nbrs x) \<subseteq> set seen"
  shows "set seen \<subseteq> set (run q seen) \<and> (\<forall>x \<in> set (run q seen). set (nbrs x) \<subseteq> set (run q seen))
    \<and> (\<forall>y \<in> set (run q seen). \<exists>x \<in> set seen. edge_rel\<^sup>*\<^sup>* x y) \<and> (distinct seen \<longrightarrow> distinct (run q seen))"
  using assms
proof (induction "search_work U seen q" arbitrary: seen q rule: less_induct)
  case less
  show ?case
  proof (cases q rule: rev_cases)
    case Nil
    with less.prems show ?thesis by (auto simp: run_nil)
  next
    case (snoc p x)
    obtain new where new: "push_new (nbrs x) (seen, p) = (seen @ new, p @ new)"
      "set (seen @ new) = set seen \<union> set (nbrs x)" "distinct seen \<longrightarrow> distinct (seen @ new)"
      using push_new_grows [of "nbrs x" seen p] by blast
    have run: "run q seen = run (p @ new) (seen @ new)" by (simp add: snoc run_snoc new(1))
    have "search_work U (seen @ new) (p @ new) < search_work U seen q"
      using push_new_work [OF finite_nodes nbrs_nodes, of x "(seen, p)"] search_work_pop [of q U seen]
      by (simp add: new(1) snoc)
    moreover have "set (p @ new) \<subseteq> set (seen @ new)" using less.prems(1) by (auto simp: snoc)
    moreover have "set (nbrs y) \<subseteq> set (seen @ new)" if "y \<in> set (seen @ new) - set (p @ new)" for y
      using that less.prems(2) [of y] new(2) by (cases "y = x") (auto simp: snoc)
    ultimately have IH: "set (seen @ new) \<subseteq> set (run q seen)" "\<forall>x \<in> set (run q seen). set (nbrs x) \<subseteq> set (run q seen)"
      "\<forall>y \<in> set (run q seen). \<exists>x \<in> set (seen @ new). edge_rel\<^sup>*\<^sup>* x y" "distinct (seen @ new) \<longrightarrow> distinct (run q seen)"
      unfolding run using less.hyps [of "seen @ new" "p @ new"] by blast+
    have "\<exists>z \<in> set seen. edge_rel\<^sup>*\<^sup>* z y" if "y \<in> set (run q seen)" for y
    proof -
      from IH(3) that obtain z where z: "z \<in> set (seen @ new)" "edge_rel\<^sup>*\<^sup>* z y" by blast
      have "x \<in> set seen" using less.prems(1) by (simp add: snoc)
      show ?thesis
      proof (cases "z \<in> set seen")
        case False
        then have "z \<in> set (nbrs x)" using z(1) new(2) by auto
        then have "edge_rel\<^sup>*\<^sup>* x y" using z(2) by (simp add: edge_rel_def converse_rtranclp_into_rtranclp)
        with \<open>x \<in> set seen\<close> show ?thesis by blast
      qed (use z(2) in blast)
    qed
    with IH new(3) show ?thesis by auto
  qed
qed

theorem search_exact: "set (run [s] [s]) = {y. edge_rel\<^sup>*\<^sup>* s y}" "distinct (run [s] [s])"
proof -
  have R: "s \<in> set (run [s] [s])" "\<forall>x \<in> set (run [s] [s]). set (nbrs x) \<subseteq> set (run [s] [s])"
    "\<forall>y \<in> set (run [s] [s]). edge_rel\<^sup>*\<^sup>* s y" "distinct (run [s] [s])"
    using run_spec [of "[s]" "[s]"] by auto
  have "y \<in> set (run [s] [s])" if "edge_rel\<^sup>*\<^sup>* s y" for y
    using that by induction (use R(1,2) in \<open>auto simp: edge_rel_def\<close>)
  with R show "set (run [s] [s]) = {y. edge_rel\<^sup>*\<^sup>* s y}" "distinct (run [s] [s])" by blast+
qed

end

subsection \<open>Connected nodes\<close>

text \<open>The other ends of the good links of a node, in edge order, and the relation they span.\<close>

definition link_ends :: "real \<Rightarrow> graph_edge list \<Rightarrow> ident \<Rightarrow> ident list" where
  "link_ends minQ es cur =
     concat (map (\<lambda>e. if ge_a e \<noteq> cur \<and> ge_b e \<noteq> cur \<or> ge_quality01 e < minQ then []
                      else [if ge_a e = cur then ge_b e else ge_a e]) es)"

definition linked :: "real \<Rightarrow> mesh_graph \<Rightarrow> ident \<Rightarrow> ident \<Rightarrow> bool" where
  "linked minQ g x y \<longleftrightarrow>
     (\<exists>e \<in> set (allEdges g). minQ \<le> ge_quality01 e \<and> (ge_a e = x \<and> ge_b e = y \<or> ge_a e = y \<and> ge_b e = x))"

abbreviation connected :: "real \<Rightarrow> mesh_graph \<Rightarrow> ident \<Rightarrow> ident \<Rightarrow> bool" where
  "connected minQ g \<equiv> (linked minQ g)\<^sup>*\<^sup>*"

lemma push_new_append: "push_new (xs @ ys) sq = push_new ys (push_new xs sq)"
  by (simp add: push_new_def)

lemma link_ends_Cons: "link_ends minQ (e # es) cur = link_ends minQ [e] cur @ link_ends minQ es cur"
  by (simp add: link_ends_def)

lemma visit_edge_push: "visit_edge minQ cur sq e = push_new (link_ends minQ [e] cur) sq"
  by (simp add: visit_edge_def link_ends_def push_new_def Let_def)

lemma visit_edges_push: "foldl (visit_edge minQ cur) sq es = push_new (link_ends minQ es cur) sq"
proof (induction es arbitrary: sq)
  case (Cons e es)
  have "foldl (visit_edge minQ cur) sq (e # es) = push_new (link_ends minQ es cur) (push_new (link_ends minQ [e] cur) sq)"
    by (simp add: Cons visit_edge_push [of _ _ _ e])
  then show ?case by (subst link_ends_Cons) (simp only: push_new_append)
qed (simp add: link_ends_def push_new_def)

interpretation mesh: stack_search "link_ends minQ es" "edge_ends es" "reach_loop minQ es" for minQ es
proof unfold_locales
  show "set (link_ends minQ es x) \<subseteq> edge_ends es" for x
    by (force simp: link_ends_def edge_ends_def split: if_splits)
  show "reach_loop minQ es [] seen = seen" for seen by (simp add: reach_loop.simps)
  show "reach_loop minQ es (q @ [x]) seen =
      reach_loop minQ es (snd (push_new (link_ends minQ es x) (seen, q))) (fst (push_new (link_ends minQ es x) (seen, q)))" for q x seen
    by (subst reach_loop.simps) (simp add: visit_edges_push split_beta)
qed simp

lemma mesh_edge_rel: "mesh.edge_rel minQ (allEdges g) = linked minQ g"
proof (intro ext iffI)
  fix x y
  show "linked minQ g x y \<Longrightarrow> mesh.edge_rel minQ (allEdges g) x y"
    by (force simp: mesh.edge_rel_def linked_def link_ends_def)
  show "mesh.edge_rel minQ (allEdges g) x y \<Longrightarrow> linked minQ g x y"
    by (force simp: mesh.edge_rel_def linked_def link_ends_def split: if_splits)
qed

lemma reach_set: "set (reachableFrom s minQ g) = {y. connected minQ g s y}"
  unfolding reachableFrom_def mesh.search_exact(1) mesh_edge_rel ..

lemma reach_distinct: "distinct (reachableFrom s minQ g)"
  unfolding reachableFrom_def by (rule mesh.search_exact(2))

lemma connected_sym: "connected minQ g x y \<Longrightarrow> connected minQ g y x"
proof (rule sympD [OF symp_rtranclp])
  show "symp (linked minQ g)" by (auto simp: symp_def linked_def)
qed

text \<open>
  C12. The search of the connectivity graph returns, without repeats, exactly the nodes joined to
  the source by a chain of links of at least the wanted quality.
\<close>

theorem reachable_exact:
  "distinct (reachableFrom source minQ g) \<and> set (reachableFrom source minQ g) = {y. connected minQ g source y}"
  by (simp add: reach_set reach_distinct)

subsection \<open>Partition and snapshot\<close>

function partition_loop :: "real \<Rightarrow> mesh_graph \<Rightarrow> ident list \<Rightarrow> ident list list \<Rightarrow> ident list list" where
  "partition_loop minQ g [] clusters = clusters"
| "partition_loop minQ g (start # others) clusters =
     (let part = filter (\<lambda>i. i \<in> set (start # others)) (reachableFrom start minQ g)
      in partition_loop minQ g (filter (\<lambda>i. i \<notin> set part) (start # others)) (clusters @ [sort part]))"
  by pat_completeness auto
termination
  by (relation "measure (\<lambda>(minQ, g, rem, clusters). length rem)") (auto simp: reach_set less_Suc_eq_le)

definition partitionClusters :: "ident list \<Rightarrow> real \<Rightarrow> mesh_graph \<Rightarrow> ident list list" where
  "partitionClusters nodeIds minQ g = js_sort (by_desc length) (partition_loop minQ g (dedup nodeIds) [])"

definition worst_edge :: "graph_edge list \<Rightarrow> graph_edge option" where
  "worst_edge es =
     foldl (\<lambda>worst e. case worst of None \<Rightarrow> Some e
        | Some w \<Rightarrow> if ge_quality01 e < ge_quality01 w then Some e else worst) None es"

definition relay_chains :: "swarm_agent list \<Rightarrow> mesh_graph \<Rightarrow> ident list list" where
  "relay_chains nodes g =
     filter (\<lambda>c. length c > 1)
       (map (\<lambda>n. sw_nodeId n # take 4 (filter (\<lambda>i. i \<noteq> sw_nodeId n) (reachableFrom (sw_nodeId n) (12 / 100) g)))
         (filter (\<lambda>n. sw_role n = MrRelay) nodes))"

definition graph_snapshot :: "ident \<Rightarrow> swarm_agent list \<Rightarrow> ident list \<Rightarrow> mesh_graph \<Rightarrow> connectivity_snapshot" where
  "graph_snapshot operatorId nodes staleIds g =
     \<lparr> cs_edges = allEdges g, cs_partitionClusters = partitionClusters (map sw_nodeId nodes) (1 / 10) g,
       cs_operatorReachable = reachableFrom operatorId (8 / 100) g, cs_relayChains = relay_chains nodes g,
       cs_bottleneckEdge = worst_edge (allEdges g), cs_stalePeers = staleIds \<rparr>"

definition fastestRecoveryNode :: "swarm_agent list \<Rightarrow> ident option" where
  "fastestRecoveryNode nodes =
     map_option sw_nodeId (foldl (\<lambda>best n. case best of None \<Rightarrow> Some n
        | Some b \<Rightarrow> if cp_recoveryLatencyMs (sw_capabilities n) < cp_recoveryLatencyMs (sw_capabilities b)
                    then Some n else best) None nodes)"

text \<open>The nodes of a list under the relation of being connected.\<close>

definition component_rel :: "ident set \<Rightarrow> real \<Rightarrow> mesh_graph \<Rightarrow> (ident \<times> ident) set" where
  "component_rel A minQ g = {(x, y). x \<in> A \<and> y \<in> A \<and> connected minQ g x y}"

lemma component_filter:
  "start \<in> set rem \<Longrightarrow> set (filter (\<lambda>i. i \<in> set rem) (reachableFrom start minQ g)) = component_rel (set rem) minQ g `` {start}"
  by (auto simp: component_rel_def reach_set)

lemma component_closed:
  assumes "A = component_rel B minQ g `` {x}" "x \<in> B" "B' = B - A"
  shows "B // component_rel B minQ g = insert A (B' // component_rel B' minQ g)" "y \<in> B' \<Longrightarrow> component_rel B' minQ g `` {y} \<inter> A = {}"
proof -
  have same: "component_rel B' minQ g `` {y} = component_rel B minQ g `` {y}" if "y \<in> B'" for y
    using that unfolding assms(1,3) component_rel_def by (auto dest: connected_sym intro: rtranclp_trans)
  have inA: "component_rel B minQ g `` {y} = A" if "y \<in> A" for y
    using that unfolding assms(1) component_rel_def by (auto dest: connected_sym intro: rtranclp_trans)
  have "A \<subseteq> B" "x \<in> A" using assms(2) unfolding assms(1) by (auto simp: component_rel_def)
  then have B: "B = A \<union> B'" using assms(3) by blast
  have "B // component_rel B minQ g = (\<lambda>y. component_rel B minQ g `` {y}) ` (A \<union> B')"
    unfolding quotient_def using B by auto
  also have "\<dots> = insert A ((\<lambda>y. component_rel B minQ g `` {y}) ` B')"
    unfolding image_Un using inA \<open>x \<in> A\<close> by auto
  also have "(\<lambda>y. component_rel B minQ g `` {y}) ` B' = (\<lambda>y. component_rel B' minQ g `` {y}) ` B'"
    using same by (intro image_cong) auto
  also have "\<dots> = B' // component_rel B' minQ g" by (auto simp: quotient_def)
  finally show "B // component_rel B minQ g = insert A (B' // component_rel B' minQ g)" .
  show "y \<in> B' \<Longrightarrow> component_rel B' minQ g `` {y} \<inter> A = {}"
    using assms(3) by (auto simp: component_rel_def)
qed

lemma partition_loop_spec:
  "distinct rem \<Longrightarrow> set (map set (partition_loop minQ g rem clusters)) = set (map set clusters) \<union> set rem // component_rel (set rem) minQ g"
  "distinct rem \<Longrightarrow> distinct (concat clusters) \<Longrightarrow> set (concat clusters) \<inter> set rem = {} \<Longrightarrow>
     distinct (concat (partition_loop minQ g rem clusters))"
  "(\<And>c. c \<in> set clusters \<Longrightarrow> sorted c) \<Longrightarrow> c \<in> set (partition_loop minQ g rem clusters) \<Longrightarrow> sorted c"
proof (induction minQ g rem clusters arbitrary: c rule: partition_loop.induct)
  case (1 minQ g clusters)
  {
    case 1
    then show ?case by (simp add: quotient_def)
  next
    case 2
    then show ?case by simp
  next
    case 3
    then show ?case by simp
  }
next
  case (2 minQ g start others clusters)
  let ?rem = "start # others"
  define part where "part = filter (\<lambda>i. i \<in> set ?rem) (reachableFrom start minQ g)"
  let ?rem' = "filter (\<lambda>i. i \<notin> set part) ?rem"
  note IH = "2.IH" [OF part_def]
  have step: "partition_loop minQ g ?rem clusters = partition_loop minQ g ?rem' (clusters @ [sort part])"
    unfolding partition_loop.simps(2) Let_def part_def ..
  have part: "set part = component_rel (set ?rem) minQ g `` {start}"
    unfolding part_def by (rule component_filter) simp
  have rem': "set ?rem' = set ?rem - set part" by auto
  have sub: "set part \<subseteq> set ?rem" "distinct part" by (auto simp: part_def reach_distinct)
  {
    case 1
    have "distinct ?rem'" using 1 by (rule distinct_filter)
    from IH(1) [OF this] show ?case
      unfolding step component_closed(1) [OF part _ rem', OF list.set_intros(1)] by simp
  next
    case 2
    have "distinct ?rem'" using 2(1) by (rule distinct_filter)
    moreover have "distinct (concat (clusters @ [sort part]))" using 2(2,3) sub by auto
    moreover have "set (concat (clusters @ [sort part])) \<inter> set ?rem' = {}" using 2(3) rem' by auto
    ultimately show ?case unfolding step by (rule IH(2))
  next
    case 3
    show ?case by (rule IH(3) [OF _ 3(2) [unfolded step]]) (use 3(1) in auto)
  }
qed

text \<open>
  The clusters of a node list are, as sets, exactly its connected components; no node is
  listed twice, each cluster is sorted and the clusters come largest first.
\<close>

theorem partition_is_quotient:
  "set (map set (partitionClusters nodeIds minQ g)) = set nodeIds // component_rel (set nodeIds) minQ g
   \<and> distinct (concat (partitionClusters nodeIds minQ g))
   \<and> list_all sorted (partitionClusters nodeIds minQ g)
   \<and> sorted_wrt (\<lambda>c d. length d \<le> length c) (partitionClusters nodeIds minQ g)"
proof -
  let ?p = "partition_loop minQ g (dedup nodeIds) []"
  have "mset (concat (js_sort (by_desc length) ?p)) = mset (concat ?p)"
    by (simp add: mset_concat flip: sum_mset_sum_list)
  moreover have "distinct (concat ?p)" by (rule partition_loop_spec(2)) simp_all
  ultimately have "distinct (concat (partitionClusters nodeIds minQ g))"
    unfolding partitionClusters_def by (metis mset_eq_imp_distinct_iff)
  moreover have "list_all sorted (partitionClusters nodeIds minQ g)"
    using partition_loop_spec(3) [of "[]" _ minQ g "dedup nodeIds"] by (auto simp: partitionClusters_def list_all_iff)
  moreover have "sorted_wrt (\<lambda>c d. length d \<le> length c) (partitionClusters nodeIds minQ g)"
    unfolding partitionClusters_def using descending.sorted_js_sort [of length ?p]
    by (rule sorted_wrt_mono_rel [rotated]) (auto simp: by_desc_def)
  moreover have "set (map set ?p) = set nodeIds // component_rel (set nodeIds) minQ g"
    using partition_loop_spec(1) [of "dedup nodeIds" minQ g "[]"] by simp
  ultimately show ?thesis by (simp add: partitionClusters_def)
qed

end
