(* ===== verification/MeshRouting.thy ===== *)
theory MeshRouting
  imports Connectivity
begin

section \<open>Primary and backup routes\<close>

text \<open>
  Models \<open>src/src/mesh/routeOptimizer.ts\<close> and the type \<open>RoutePlan\<close> of \<open>src/src/mesh/types.ts\<close>. The
  queue loop and the walk back along \<open>prev\<close> may run forever in general (negative weights, cyclic
  \<open>prev\<close>), so they are partial functions whose value \<open>None\<close> means that the call does not return;
  \<open>Some None\<close> is the code's \<open>null\<close>. The lemmas carry the invariant of the search: it returns for
  weights that are not negative, and its path is a shortest one.
\<close>

subsection \<open>Adjacency\<close>

record adj_link =
  al_to :: ident
  al_w :: real
  al_edge :: graph_edge

type_synonym adjacency = "(ident, adj_link list) jsmap"

record route_plan =
  rp_topic :: string
  rp_fromId :: ident
  rp_toId :: ident
  rp_primaryPath :: "ident list"
  rp_backupPath :: "ident list"
  rp_primaryQuality01 :: real
  rp_backupQuality01 :: real

definition ensure_node :: "ident \<Rightarrow> adjacency \<Rightarrow> adjacency" where
  "ensure_node i m = (if js_get m i = None then js_put i [] m else m)"

definition push_link :: "ident \<Rightarrow> adj_link \<Rightarrow> adjacency \<Rightarrow> adjacency" where
  "push_link i l m = js_put i (default_to (js_get m i) [] @ [l]) m"

definition edge_weight :: "graph_edge \<Rightarrow> real" where
  "edge_weight e = ge_latencyMs e * (1 + ge_loss e * (5 / 2)) / max (8 / 100) (ge_quality01 e)"

definition add_adj_edge :: "adjacency \<Rightarrow> graph_edge \<Rightarrow> adjacency" where
  "add_adj_edge m e =
     push_link (ge_b e) \<lparr> al_to = ge_a e, al_w = edge_weight e, al_edge = e \<rparr>
       (push_link (ge_a e) \<lparr> al_to = ge_b e, al_w = edge_weight e, al_edge = e \<rparr>
         (ensure_node (ge_b e) (ensure_node (ge_a e) m)))"

definition buildAdj :: "connectivity_snapshot \<Rightarrow> adjacency" where
  "buildAdj snap = foldl add_adj_edge [] (cs_edges snap)"

definition links_of :: "adjacency \<Rightarrow> ident \<Rightarrow> adj_link list" where
  "links_of adj i = default_to (js_get adj i) []"

subsection \<open>The shortest path search\<close>

type_synonym search_state = "(ident, real) jsmap \<times> (ident, ident) jsmap \<times> (ident \<times> real) list"

text \<open>The body of the inner loop, for the entry \<open>cur\<close> taken from the queue.\<close>

definition relax :: "ident \<times> real \<Rightarrow> search_state \<Rightarrow> adj_link \<Rightarrow> search_state" where
  "relax cur s nx =
     (let (ds, prev, pq) = s; nd = snd cur + al_w nx
      in if (case js_get ds (al_to nx) of None \<Rightarrow> True | Some d \<Rightarrow> nd < d)
         then (js_put (al_to nx) nd ds, js_put (al_to nx) (fst cur) prev, pq @ [(al_to nx, nd)])
         else s)"

definition outdated :: "(ident, real) jsmap \<Rightarrow> ident \<times> real \<Rightarrow> bool" where
  "outdated ds cur = (case js_get ds (fst cur) of None \<Rightarrow> False | Some d \<Rightarrow> d < snd cur)"

partial_function (option) search_loop :: "adjacency \<Rightarrow> ident \<Rightarrow> search_state \<Rightarrow> search_state option" where
  "search_loop adj target s =
     (case js_sort (by_asc snd) (snd (snd s)) of
        [] \<Rightarrow> Some s
      | cur # rest \<Rightarrow>
          if fst cur = target then Some (fst s, fst (snd s), rest)
          else if outdated (fst s) cur then search_loop adj target (fst s, fst (snd s), rest)
          else search_loop adj target (foldl (relax cur) (fst s, fst (snd s), rest) (links_of adj (fst cur))))"

text \<open>\<open>while (x)\<close> stops at \<open>undefined\<close> and at the empty string.\<close>

partial_function (option) trace_back :: "(ident, ident) jsmap \<Rightarrow> ident \<Rightarrow> ident list option" where
  "trace_back prev x =
     (if x = [] then Some []
      else case js_get prev x of
             None \<Rightarrow> Some [x]
           | Some y \<Rightarrow> Option.bind (trace_back prev y) (\<lambda>p. Some (x # p)))"

definition shortestPath :: "adjacency \<Rightarrow> ident \<Rightarrow> ident \<Rightarrow> (ident list \<times> real) option option" where
  "shortestPath adj source target =
     Option.bind (search_loop adj target ([(source, 0)], [], [(source, 0)]))
       (\<lambda>(ds, prev, pq). case js_get ds target of
           None \<Rightarrow> Some None
         | Some cost \<Rightarrow> Option.bind (trace_back prev target) (\<lambda>p. Some (Some (rev p, cost))))"

subsection \<open>Plans\<close>

definition find_edge :: "graph_edge list \<Rightarrow> ident \<Rightarrow> ident \<Rightarrow> graph_edge option" where
  "find_edge es a b = List.find (\<lambda>e. ge_a e = a \<and> ge_b e = b \<or> ge_a e = b \<and> ge_b e = a) es"

text \<open>The loop over the hops of the path; a missing edge makes it return 0.1 at once.\<close>

fun hop_quality :: "graph_edge list \<Rightarrow> real \<Rightarrow> ident list \<Rightarrow> real option" where
  "hop_quality es acc (a # b # rest) =
     (case find_edge es a b of
        None \<Rightarrow> None
      | Some e \<Rightarrow> hop_quality es (acc * max (5 / 100) (ge_quality01 e * (1 - ge_loss e))) (b # rest))"
| "hop_quality es acc _ = Some acc"

definition pathQuality :: "ident list \<Rightarrow> connectivity_snapshot \<Rightarrow> real" where
  "pathQuality p snap =
     (if length p < 2 then 35 / 100
      else case hop_quality (cs_edges snap) 1 p of
             None \<Rightarrow> 1 / 10
           | Some acc \<Rightarrow> max (5 / 100) (min 1 acc))"

definition without_hop :: "ident \<Rightarrow> ident \<Rightarrow> adjacency \<Rightarrow> adjacency" where
  "without_hop dropA dropB adj =
     foldl (\<lambda>m kl. js_put (fst kl)
       (filter (\<lambda>x. \<not> (al_to x = dropB \<and> fst kl = dropA \<or> al_to x = dropA \<and> fst kl = dropB)) (snd kl)) m) [] adj"

text \<open>The loop over the hops of the primary path, until one yields another path.\<close>

fun backup_loop :: "connectivity_snapshot \<Rightarrow> adjacency \<Rightarrow> ident \<Rightarrow> ident \<Rightarrow> ident list \<Rightarrow> ident list \<Rightarrow> (ident list \<times> real) option" where
  "backup_loop snap adj source target primary (a # b # rest) =
     Option.bind (shortestPath (without_hop a b adj) source target) (\<lambda>sp2.
       case sp2 of
         Some (p, c) \<Rightarrow>
           if str_join '','' p \<noteq> str_join '','' primary then Some (p, pathQuality p snap)
           else backup_loop snap adj source target primary (b # rest)
       | None \<Rightarrow> backup_loop snap adj source target primary (b # rest))"
| "backup_loop snap adj source target primary _ = Some ([], 8 / 100)"

definition route_topics :: "string list" where
  "route_topics = [''state_sync'', ''discovery_gossip'', ''task_update'', ''heartbeat_propagation'', ''recovery_sync'']"

definition plan_of :: "connectivity_snapshot \<Rightarrow> ident \<Rightarrow> ident \<Rightarrow> nat \<Rightarrow> ident list \<Rightarrow> ident list \<times> real \<Rightarrow> route_plan" where
  "plan_of snap operatorId tgt k primary backup =
     \<lparr> rp_topic = route_topics ! (k mod length route_topics), rp_fromId = operatorId, rp_toId = tgt,
       rp_primaryPath = primary, rp_backupPath = (if fst backup \<noteq> [] then fst backup else rev primary),
       rp_primaryQuality01 = pathQuality primary snap, rp_backupQuality01 = snd backup \<rparr>"

fun plans_loop :: "connectivity_snapshot \<Rightarrow> adjacency \<Rightarrow> ident \<Rightarrow> ident list \<Rightarrow> route_plan list \<Rightarrow> route_plan list option" where
  "plans_loop snap adj operatorId [] plans = Some plans"
| "plans_loop snap adj operatorId (tgt # targets) plans =
     (if tgt = operatorId then plans_loop snap adj operatorId targets plans
      else Option.bind (shortestPath adj operatorId tgt) (\<lambda>primary.
        case primary of
          None \<Rightarrow> plans_loop snap adj operatorId targets plans
        | Some (p, c) \<Rightarrow> Option.bind (backup_loop snap adj operatorId tgt p p) (\<lambda>backup.
            plans_loop snap adj operatorId targets (plans @ [plan_of snap operatorId tgt (length plans) p backup]))))"

definition computeRoutePlans :: "connectivity_snapshot \<Rightarrow> ident \<Rightarrow> ident list \<Rightarrow> route_plan list option" where
  "computeRoutePlans snap operatorId targets =
     map_option (take 6) (plans_loop snap (buildAdj snap) operatorId targets [])"

subsection \<open>Routes\<close>

inductive route :: "adjacency \<Rightarrow> ident \<Rightarrow> ident list \<Rightarrow> real \<Rightarrow> bool" for adj source where
  route_start: "route adj source [source] 0"
| route_hop: "route adj source p c \<Longrightarrow> l \<in> set (links_of adj (last p)) \<Longrightarrow> route adj source (p @ [al_to l]) (c + al_w l)"

text \<open>What \<open>trace_back\<close> walks along.\<close>

inductive traced :: "(ident, ident) jsmap \<Rightarrow> ident \<Rightarrow> ident list \<Rightarrow> bool" for prev where
  traced_end: "js_get prev x = None \<Longrightarrow> traced prev x [x]"
| traced_back: "js_get prev x = Some y \<Longrightarrow> traced prev y p \<Longrightarrow> traced prev x (x # p)"

definition adj_nodes :: "adjacency \<Rightarrow> ident \<Rightarrow> ident set" where
  "adj_nodes adj source = insert source (\<Union>kl \<in> set adj. al_to ` set (snd kl))"

lemma finite_adj_nodes [simp]: "finite (adj_nodes adj source)"
  by (simp add: adj_nodes_def)

lemma links_of_nodes: "l \<in> set (links_of adj i) \<Longrightarrow> al_to l \<in> adj_nodes adj source"
proof (cases "js_get adj i")
  case (Some ls)
  assume "l \<in> set (links_of adj i)"
  with Some have "(i, ls) \<in> set adj" "l \<in> set ls" by (auto simp: links_of_def dest: map_of_SomeD)
  then show ?thesis unfolding adj_nodes_def by force
qed (simp add: links_of_def)

lemma route_nodes: "route adj source p c \<Longrightarrow> p \<noteq> [] \<and> set p \<subseteq> adj_nodes adj source"
proof (induction rule: route.induct)
  case route_start
  then show ?case by (simp add: adj_nodes_def)
next
  case (route_hop p c l)
  then show ?case using links_of_nodes by auto
qed

lemma traced_head: "traced prev x p \<Longrightarrow> \<exists>q. p = x # q"
  by (induction rule: traced.induct) auto

lemma traced_update: "traced prev x p \<Longrightarrow> y \<notin> set p \<Longrightarrow> traced (js_put y u prev) x p"
proof (induction rule: traced.induct)
  case (traced_back x z p)
  then show ?case by (auto intro!: traced.traced_back simp: js_map_simps)
qed (auto intro: traced.traced_end simp: js_map_simps)

lemma trace_back_traced: "traced prev x p \<Longrightarrow> [] \<notin> set p \<Longrightarrow> trace_back prev x = Some p"
proof (induction rule: traced.induct)
  case (traced_end x)
  then show ?case by (subst trace_back.simps) auto
next
  case (traced_back x y p)
  then show ?case by (subst trace_back.simps) auto
qed

subsection \<open>The invariant of the search\<close>

text \<open>
  \<open>S\<close> are the settled nodes, \<open>R\<close> the links of settled nodes that are still to be relaxed, and \<open>m\<close>
  the distance of the node settled last.
\<close>

definition search_inv :: "adjacency \<Rightarrow> ident \<Rightarrow> ident \<Rightarrow> ident set \<Rightarrow> (ident \<times> adj_link) set \<Rightarrow> real \<Rightarrow>
    (ident, real) jsmap \<Rightarrow> (ident, ident) jsmap \<Rightarrow> (ident \<times> real) list \<Rightarrow> bool" where
  "search_inv adj source target S R m ds prev pq \<longleftrightarrow>
     0 \<le> m \<and> target \<notin> S \<and> js_get ds source = Some 0 \<and> distinct pq
     \<and> (\<forall>x d. (x, d) \<in> set pq \<longrightarrow> m \<le> d \<and> (\<exists>dx. js_get ds x = Some dx \<and> dx \<le> d))
     \<and> (\<forall>x dx. js_get ds x = Some dx \<longrightarrow> x \<notin> S \<longrightarrow> (x, dx) \<in> set pq)
     \<and> (\<forall>x \<in> S. \<exists>dx. js_get ds x = Some dx \<and> dx \<le> m \<and> (\<forall>d. (x, d) \<in> set pq \<longrightarrow> dx < d))
     \<and> (\<forall>x \<in> S. \<forall>l \<in> set (links_of adj x). (x, l) \<in> R
          \<or> (\<exists>dx dy. js_get ds x = Some dx \<and> js_get ds (al_to l) = Some dy \<and> dy \<le> dx + al_w l))
     \<and> (\<forall>x dx. js_get ds x = Some dx \<longrightarrow>
          (\<exists>p. traced prev x p \<and> route adj source (rev p) dx \<and> set (tl p) \<subseteq> S))"

lemma search_invD:
  assumes "search_inv adj source target S R m ds prev pq"
  shows "0 \<le> m" "target \<notin> S" "js_get ds source = Some 0" "distinct pq"
    "(x, d) \<in> set pq \<Longrightarrow> m \<le> d" "(x, d) \<in> set pq \<Longrightarrow> \<exists>dx. js_get ds x = Some dx \<and> dx \<le> d"
    "js_get ds x = Some dx \<Longrightarrow> x \<notin> S \<Longrightarrow> (x, dx) \<in> set pq"
    "x \<in> S \<Longrightarrow> \<exists>dx. js_get ds x = Some dx \<and> dx \<le> m \<and> (\<forall>d. (x, d) \<in> set pq \<longrightarrow> dx < d)"
    "x \<in> S \<Longrightarrow> l \<in> set (links_of adj x) \<Longrightarrow> (x, l) \<notin> R \<Longrightarrow>
       \<exists>dx dy. js_get ds x = Some dx \<and> js_get ds (al_to l) = Some dy \<and> dy \<le> dx + al_w l"
    "js_get ds x = Some dx \<Longrightarrow> \<exists>p. traced prev x p \<and> route adj source (rev p) dx \<and> set (tl p) \<subseteq> S"
  using assms unfolding search_inv_def by blast+

lemma search_invI:
  assumes "0 \<le> m" "target \<notin> S" "js_get ds source = Some 0" "distinct pq"
    "\<And>x d. (x, d) \<in> set pq \<Longrightarrow> m \<le> d" "\<And>x d. (x, d) \<in> set pq \<Longrightarrow> \<exists>dx. js_get ds x = Some dx \<and> dx \<le> d"
    "\<And>x dx. js_get ds x = Some dx \<Longrightarrow> x \<notin> S \<Longrightarrow> (x, dx) \<in> set pq"
    "\<And>x. x \<in> S \<Longrightarrow> \<exists>dx. js_get ds x = Some dx \<and> dx \<le> m \<and> (\<forall>d. (x, d) \<in> set pq \<longrightarrow> dx < d)"
    "\<And>x l. x \<in> S \<Longrightarrow> l \<in> set (links_of adj x) \<Longrightarrow> (x, l) \<in> R \<or>
       (\<exists>dx dy. js_get ds x = Some dx \<and> js_get ds (al_to l) = Some dy \<and> dy \<le> dx + al_w l)"
    "\<And>x dx. js_get ds x = Some dx \<Longrightarrow> \<exists>p. traced prev x p \<and> route adj source (rev p) dx \<and> set (tl p) \<subseteq> S"
  shows "search_inv adj source target S R m ds prev pq"
  unfolding search_inv_def by (intro conjI allI impI ballI) (fact assms(1-4) | (rule assms, assumption+))+

lemma search_inv_start: "search_inv adj source target {} {} 0 [(source, 0)] [] [(source, 0)]"
proof -
  have "traced [] source [source]" by (rule traced_end) simp
  then have "\<exists>p. traced [] source p \<and> route adj source (rev p) 0 \<and> set (tl p) \<subseteq> {}"
    by (intro exI [of _ "[source]"]) (simp add: route_start)
  then show ?thesis by (simp add: search_inv_def)
qed

lemma search_inv_links:
  assumes "search_inv adj source target S R m ds prev pq"
    "\<And>x l. x \<in> S \<Longrightarrow> l \<in> set (links_of adj x) \<Longrightarrow> (x, l) \<in> R' \<or>
       (\<exists>dx dy. js_get ds x = Some dx \<and> js_get ds (al_to l) = Some dy \<and> dy \<le> dx + al_w l)"
  shows "search_inv adj source target S R' m ds prev pq"
  using assms(1) unfolding search_inv_def by (elim conjE, intro conjI) (assumption | intro ballI assms(2))+

lemma relax_kept:
  assumes inv: "search_inv adj source target S (insert (u, l) R) m ds prev pq"
    and u: "js_get ds u = Some m" and dy: "js_get ds (al_to l) = Some dy" "dy \<le> m + al_w l"
  shows "search_inv adj source target S R m ds prev pq"
proof (rule search_inv_links [OF inv])
  show "(x, k) \<in> R \<or> (\<exists>dx dy. js_get ds x = Some dx \<and> js_get ds (al_to k) = Some dy \<and> dy \<le> dx + al_w k)"
    if "x \<in> S" "k \<in> set (links_of adj x)" for x k
  proof (cases "(x, k) \<in> insert (u, l) R")
    case True
    with u dy show ?thesis by blast
  next
    case False
    from search_invD(9) [OF inv that this] show ?thesis by blast
  qed
qed

lemma relax_improved:
  assumes inv: "search_inv adj source target S (insert (u, l) R) m ds prev pq"
    and u: "u \<in> S" "js_get ds u = Some m" and l: "l \<in> set (links_of adj u)" "0 \<le> al_w l" "al_to l = y"
    and better: "\<And>dy. js_get ds y = Some dy \<Longrightarrow> m + al_w l < dy"
  shows "search_inv adj source target S R m (js_put y (m + al_w l) ds) (js_put y u prev) (pq @ [(y, m + al_w l)])"
proof -
  let ?nd = "m + al_w l" and ?ds = "js_put y (m + al_w l) ds"
  have yS: "y \<notin> S" using search_invD(8) [OF inv, of y] better l(2) by force
  have src: "y \<noteq> source" using better [of 0] search_invD(1,3) [OF inv] l(2) by force
  have other: "js_get ?ds x = js_get ds x" if "x \<noteq> y" for x using that by (simp add: js_map_simps)
  have yd: "js_get ?ds y = Some ?nd" by (simp add: js_map_simps)
  have lower: "?nd < d" if "(y, d) \<in> set pq" for d using search_invD(6) [OF inv that] better by force
  have queue: "\<exists>dx. js_get ?ds x = Some dx \<and> dx \<le> d" if "(x, d) \<in> set (pq @ [(y, ?nd)])" for x d
    using that search_invD(6) [OF inv, of x d] lower [of d] other [of x] yd by (cases "x = y") auto
  have paths: "\<exists>p. traced (js_put y u prev) x p \<and> route adj source (rev p) dx \<and> set (tl p) \<subseteq> S" if "js_get ?ds x = Some dx" for x dx
  proof (cases "x = y")
    case True
    then have dx: "dx = ?nd" using that yd by simp
    from search_invD(10) [OF inv u(2)] obtain p where p: "traced prev u p" "route adj source (rev p) m" "set (tl p) \<subseteq> S" by blast
    with traced_head [OF p(1)] u(1) have sub: "set p \<subseteq> S" and hd: "hd p = u" "p \<noteq> []" by auto
    have "traced (js_put y u prev) u p" by (rule traced_update [OF p(1)]) (use sub yS in auto)
    then have "traced (js_put y u prev) y (y # p)" by (rule traced_back [rotated]) (simp add: js_map_simps)
    moreover have "route adj source (rev p @ [al_to l]) ?nd"
      by (rule route_hop [OF p(2)]) (use hd l(1) in \<open>simp add: last_rev\<close>)
    ultimately show ?thesis using True dx sub l(3) by (intro exI [of _ "y # p"]) simp
  next
    case False
    then have "js_get ds x = Some dx" using that other by simp
    from search_invD(10) [OF inv this] obtain p
      where p: "traced prev x p" "route adj source (rev p) dx" "set (tl p) \<subseteq> S" by blast
    then have "y \<notin> set p" using traced_head [OF p(1)] False yS by auto
    with p show ?thesis using traced_update by blast
  qed
  have relaxed: "(x, k) \<in> R \<or> (\<exists>dx dy. js_get ?ds x = Some dx \<and> js_get ?ds (al_to k) = Some dy \<and> dy \<le> dx + al_w k)"
    if k: "x \<in> S" "k \<in> set (links_of adj x)" for x k
  proof (cases "(x, k) \<in> insert (u, l) R")
    case True
    then show ?thesis using u yS l(3) other [of u] yd by auto
  next
    case False
    with search_invD(9) [OF inv k] obtain dx dy where "js_get ds x = Some dx" "js_get ds (al_to k) = Some dy" "dy \<le> dx + al_w k"
      by blast
    moreover have "x \<noteq> y" using k yS by auto
    ultimately show ?thesis using other [of x] other [of "al_to k"] yd better [of dy] by (cases "al_to k = y") auto
  qed
  have "distinct (pq @ [(y, ?nd)])" using search_invD(4) [OF inv] lower by auto
  moreover have "\<exists>dx. js_get ?ds x = Some dx \<and> dx \<le> m \<and> (\<forall>d. (x, d) \<in> set (pq @ [(y, ?nd)]) \<longrightarrow> dx < d)" if "x \<in> S" for x
  proof -
    have "x \<noteq> y" using that yS by blast
    with search_invD(8) [OF inv that] other [of x] show ?thesis by auto
  qed
  moreover have "(x, dx) \<in> set (pq @ [(y, ?nd)])" if "js_get ?ds x = Some dx" "x \<notin> S" for x dx
    using that search_invD(7) [OF inv, of x dx] other [of x] yd by (cases "x = y") auto
  moreover have "m \<le> d" if "(x, d) \<in> set (pq @ [(y, ?nd)])" for x d
    using that search_invD(5) [OF inv, of x d] l(2) by auto
  ultimately show ?thesis
    unfolding search_inv_def using queue paths relaxed search_invD(1,2,3) [OF inv] other [of source] src by auto
qed

lemma relax_inv:
  assumes inv: "search_inv adj source target S (insert (u, l) R) m ds prev pq"
    and u: "u \<in> S" "js_get ds u = Some m" and l: "l \<in> set (links_of adj u)" "0 \<le> al_w l"
    and step: "relax (u, m) (ds, prev, pq) l = (ds', prev', pq')"
  shows "search_inv adj source target S R m ds' prev' pq' \<and> js_get ds' u = Some m"
proof (cases "case js_get ds (al_to l) of None \<Rightarrow> True | Some d \<Rightarrow> m + al_w l < d")
  case True
  then have better: "m + al_w l < dy" if "js_get ds (al_to l) = Some dy" for dy using that by simp
  have "al_to l \<noteq> u" using better [of m] u(2) l(2) by auto
  with True u(2) step relax_improved [OF inv u l refl] better show ?thesis
    by (auto simp: relax_def js_map_simps Let_def)
next
  case False
  then obtain dy where "js_get ds (al_to l) = Some dy" "dy \<le> m + al_w l" by (auto split: option.splits)
  with False u(2) step relax_kept [OF inv u(2)] show ?thesis by (simp add: relax_def)
qed

lemma relax_all_inv:
  assumes "search_inv adj source target S ({u} \<times> set ls) m ds prev pq" "u \<in> S" "js_get ds u = Some m"
    "\<And>l. l \<in> set ls \<Longrightarrow> l \<in> set (links_of adj u) \<and> 0 \<le> al_w l" "foldl (relax (u, m)) (ds, prev, pq) ls = (ds', prev', pq')"
  shows "search_inv adj source target S {} m ds' prev' pq'"
  using assms
proof (induction ls arbitrary: ds prev pq)
  case (Cons l ls)
  obtain ds1 prev1 pq1 where step: "relax (u, m) (ds, prev, pq) l = (ds1, prev1, pq1)" by (metis prod_cases3)
  have "{u} \<times> set (l # ls) = insert (u, l) ({u} \<times> set ls)" by auto
  then have "search_inv adj source target S (insert (u, l) ({u} \<times> set ls)) m ds prev pq" using Cons.prems(1) by simp
  from relax_inv [OF this Cons.prems(2,3) _ _ step] Cons.prems(4)
  have "search_inv adj source target S ({u} \<times> set ls) m ds1 prev1 pq1" "js_get ds1 u = Some m" by auto
  then show ?case using Cons.IH [of ds1 prev1 pq1] Cons.prems(2,4,5) step by simp
qed simp

lemma pop_least:
  assumes "js_sort (by_asc snd) pq = cur # rest"
  shows "set pq = insert cur (set rest)" "distinct pq \<Longrightarrow> cur \<notin> set rest \<and> distinct rest"
    "(x, d) \<in> set pq \<Longrightarrow> snd cur \<le> d" "length rest < length pq"
proof -
  have m: "mset pq = mset (cur # rest)" using assms mset_js_sort [of "by_asc snd" pq] by simp
  then show "set pq = insert cur (set rest)" by (metis list.simps(15) set_mset_mset)
  show "distinct pq \<Longrightarrow> cur \<notin> set rest \<and> distinct rest" using mset_eq_imp_distinct_iff [OF m] by simp
  show "length rest < length pq" using mset_eq_length [OF m] by simp
  show "(x, d) \<in> set pq \<Longrightarrow> snd cur \<le> d"
    using ascending.js_sort_head_least [OF assms] by (fastforce simp: by_asc_def)
qed

lemma pop_outdated:
  assumes inv: "search_inv adj source target S {} m ds prev pq" and pop: "js_sort (by_asc snd) pq = cur # rest"
    and old: "outdated ds cur"
  shows "search_inv adj source target S {} m ds prev rest"
proof -
  have sub: "distinct rest" using pop_least(2) [OF pop] search_invD(4) [OF inv] by blast
  have old_in: "e \<in> set pq" if "e \<in> set rest" for e using that pop_least(1) [OF pop] by blast
  show ?thesis
  proof (rule search_invI)
    show "(x, dx) \<in> set rest" if "js_get ds x = Some dx" "x \<notin> S" for x dx
      using search_invD(7) [OF inv that] pop_least(1) [OF pop] old that(1) by (auto simp: outdated_def)
    show "m \<le> d" "\<exists>dx. js_get ds x = Some dx \<and> dx \<le> d" if "(x, d) \<in> set rest" for x d
      using search_invD(5,6) [OF inv old_in [OF that]] by blast+
    show "\<exists>dx. js_get ds x = Some dx \<and> dx \<le> m \<and> (\<forall>d. (x, d) \<in> set rest \<longrightarrow> dx < d)" if "x \<in> S" for x
      using search_invD(8) [OF inv that] old_in by blast
    show "(x, l) \<in> {} \<or> (\<exists>dx dy. js_get ds x = Some dx \<and> js_get ds (al_to l) = Some dy \<and> dy \<le> dx + al_w l)"
      if "x \<in> S" "l \<in> set (links_of adj x)" for x l
      using search_invD(9) [OF inv that] by blast
  qed (rule search_invD(1,2,3,10) [OF inv] sub, assumption?)+
qed

lemma pop_settles:
  assumes inv: "search_inv adj source target S {} m ds prev pq" and pop: "js_sort (by_asc snd) pq = (u, d) # rest"
    and new: "\<not> outdated ds (u, d)" "u \<noteq> target"
  shows "js_get ds u = Some d" "u \<notin> S" "search_inv adj source target (insert u S) ({u} \<times> set (links_of adj u)) d ds prev rest"
proof -
  have set_pq: "set pq = insert (u, d) (set rest)" and dist: "(u, d) \<notin> set rest" "distinct rest"
    using pop_least(1,2) [OF pop] search_invD(4) [OF inv] by auto
  have least: "d \<le> d'" if "(x, d') \<in> set pq" for x d' using pop_least(3) [OF pop that] by simp
  have ud: "(u, d) \<in> set pq" by (simp add: set_pq)
  from search_invD(6) [OF inv ud] new(1) show du: "js_get ds u = Some d" by (auto simp: outdated_def)
  show uS: "u \<notin> S" using search_invD(8) [OF inv, of u] du ud by auto
  have md: "m \<le> d" using search_invD(5) [OF inv ud] .
  have "\<exists>dx. js_get ds x = Some dx \<and> dx \<le> d \<and> (\<forall>d'. (x, d') \<in> set rest \<longrightarrow> dx < d')" if "x \<in> insert u S" for x
  proof (cases "x = u")
    case True
    have "d < d'" if "(u, d') \<in> set rest" for d'
    proof -
      have "d \<noteq> d'" using that dist(1) by blast
      moreover have "d \<le> d'" by (rule least [of u]) (simp add: set_pq that)
      ultimately show ?thesis by simp
    qed
    with True du show ?thesis by blast
  next
    case False
    with that have "x \<in> S" by blast
    from search_invD(8) [OF inv this] obtain dx where "js_get ds x = Some dx" "dx \<le> m" "\<forall>d. (x, d) \<in> set pq \<longrightarrow> dx < d" by blast
    with md set_pq show ?thesis by (intro exI [of _ dx]) simp
  qed
  note settled = this
  show "search_inv adj source target (insert u S) ({u} \<times> set (links_of adj u)) d ds prev rest"
  proof (rule search_invI)
    show "(x, l) \<in> {u} \<times> set (links_of adj u)
        \<or> (\<exists>dx dy. js_get ds x = Some dx \<and> js_get ds (al_to l) = Some dy \<and> dy \<le> dx + al_w l)"
      if "x \<in> insert u S" "l \<in> set (links_of adj x)" for x l
    proof (cases "x = u")
      case False
      with that have "x \<in> S" by blast
      from search_invD(9) [OF inv this that(2)] show ?thesis by blast
    qed (use that in simp)
    show "(x, dx) \<in> set rest" if "js_get ds x = Some dx" "x \<notin> insert u S" for x dx
      using search_invD(7) [OF inv that(1)] that(2) set_pq by simp
    show "d \<le> d'" if "(x, d') \<in> set rest" for x d' by (rule least [of x]) (simp add: set_pq that)
    show "\<exists>dx. js_get ds x = Some dx \<and> dx \<le> d'" if "(x, d') \<in> set rest" for x d'
      by (rule search_invD(6) [OF inv]) (simp add: set_pq that)
    show "\<exists>p. traced prev x p \<and> route adj source (rev p) dx \<and> set (tl p) \<subseteq> insert u S" if "js_get ds x = Some dx" for x dx
      using search_invD(10) [OF inv that] by blast
    show "0 \<le> d" "target \<notin> insert u S" using search_invD(1,2) [OF inv] md new(2) by auto
  qed (rule search_invD(3) [OF inv] dist(2) settled, assumption?)+
qed

text \<open>No route is cheaper than the distance found, up to the cheapest entry of the queue.\<close>

lemma route_bound:
  assumes inv: "search_inv adj source target S {} m ds prev pq" and least: "\<And>x d. (x, d) \<in> set pq \<Longrightarrow> k \<le> d"
    and w: "\<And>i l. l \<in> set (links_of adj i) \<Longrightarrow> 0 \<le> al_w l" and r: "route adj source p c"
  shows "(\<exists>dx. js_get ds (last p) = Some dx \<and> dx \<le> c) \<or> k \<le> c"
  using r
proof (induction rule: route.induct)
  case route_start
  then show ?case using search_invD(3) [OF inv] by simp
next
  case (route_hop p c l)
  from w [OF route_hop.hyps(2)] have wl: "0 \<le> al_w l" .
  from route_hop.IH show ?case
  proof
    assume "\<exists>dx. js_get ds (last p) = Some dx \<and> dx \<le> c"
    then obtain dx where dx: "js_get ds (last p) = Some dx" "dx \<le> c" by blast
    show ?thesis
    proof (cases "last p \<in> S")
      case True
      from search_invD(9) [OF inv this route_hop.hyps(2)] dx show ?thesis by auto
    next
      case False
      from least [OF search_invD(7) [OF inv dx(1) False]] dx(2) wl show ?thesis by simp
    qed
  qed (use wl in simp)
qed

subsection \<open>The search returns a shortest route\<close>

definition sound_adj :: "adjacency \<Rightarrow> bool" where
  "sound_adj adj \<longleftrightarrow> list_all (\<lambda>kl. list_all (\<lambda>l. 0 \<le> al_w l \<and> al_to l \<noteq> []) (snd kl)) adj"

lemma sound_links: "sound_adj adj \<Longrightarrow> l \<in> set (links_of adj i) \<Longrightarrow> 0 \<le> al_w l \<and> al_to l \<noteq> []"
  by (cases "js_get adj i") (force simp: sound_adj_def links_of_def list_all_iff dest: map_of_SomeD)+

definition search_done :: "adjacency \<Rightarrow> ident \<Rightarrow> ident \<Rightarrow> (ident, real) jsmap \<Rightarrow> (ident, ident) jsmap \<Rightarrow> bool" where
  "search_done adj source target ds prev \<longleftrightarrow>
     (case js_get ds target of
        None \<Rightarrow> \<not> (\<exists>p c. route adj source p c \<and> last p = target)
      | Some dx \<Rightarrow> (\<exists>p. traced prev target p \<and> route adj source (rev p) dx)
          \<and> (\<forall>p c. route adj source p c \<and> last p = target \<longrightarrow> dx \<le> c))"

lemma search_empty_done:
  assumes inv: "search_inv adj source target S {} m ds prev []" and ok: "sound_adj adj"
  shows "search_done adj source target ds prev"
proof -
  have found: "\<exists>dx. js_get ds target = Some dx \<and> dx \<le> c" if r: "route adj source p c" "last p = target" for p c
    using route_bound [OF inv _ _ r(1), of "c + 1"] sound_links [OF ok] r(2) by auto
  show ?thesis
  proof (cases "js_get ds target")
    case None
    with found show ?thesis by (auto simp: search_done_def)
  next
    case (Some dx)
    with found search_invD(10) [OF inv Some] show ?thesis by (fastforce simp: search_done_def)
  qed
qed

lemma search_break_done:
  assumes inv: "search_inv adj source target S {} m ds prev pq" and ok: "sound_adj adj"
    and pop: "js_sort (by_asc snd) pq = (target, d) # rest"
  shows "search_done adj source target ds prev"
proof -
  have "(target, d) \<in> set pq" using pop_least(1) [OF pop] by simp
  from search_invD(6) [OF inv this] obtain dx where dx: "js_get ds target = Some dx" "dx \<le> d" by blast
  have "(target, dx) \<in> set pq" by (rule search_invD(7) [OF inv dx(1) search_invD(2) [OF inv]])
  from pop_least(3) [OF pop this] dx(2) have "dx = d" by simp
  have "dx \<le> c" if r: "route adj source p c" "last p = target" for p c
    using route_bound [OF inv _ _ r(1), of d] pop_least(3) [OF pop] sound_links [OF ok] r(2) dx \<open>dx = d\<close> by fastforce
  with search_invD(10) [OF inv dx(1)] dx(1) show ?thesis by (auto simp: search_done_def)
qed

lemma settled_nodes: "search_inv adj source target S R m ds prev pq \<Longrightarrow> js_get ds x = Some d \<Longrightarrow> x \<in> adj_nodes adj source"
  using search_invD(10) [of adj source target S R m ds prev pq x d] by (fastforce dest: traced_head route_nodes)

lemma search_returns:
  assumes "search_inv adj source target S {} m ds prev pq" "sound_adj adj"
  shows "\<exists>ds' prev' pq'. search_loop adj target (ds, prev, pq) = Some (ds', prev', pq') \<and> search_done adj source target ds' prev'"
  using assms(1)
proof (induction "card (adj_nodes adj source - S)" arbitrary: S m ds prev pq rule: less_induct)
  case (less S)
  note settle = less.hyps
  from less.prems show ?case
  proof (induction "length pq" arbitrary: pq rule: less_induct)
    case less
    note inv = less.prems
    show ?case
    proof (cases "js_sort (by_asc snd) pq")
      case Nil
      then have "pq = []" by simp
      with inv search_empty_done [OF _ assms(2)] show ?thesis by (subst search_loop.simps) (auto simp: js_sort_def)
    next
      case (Cons cur rest)
      obtain u d where cur: "cur = (u, d)" by (cases cur)
      note pop = Cons [unfolded cur]
      consider "u = target" | "u \<noteq> target" "outdated ds cur" | "u \<noteq> target" "\<not> outdated ds cur" by blast
      then show ?thesis
      proof cases
        case 1
        with pop search_break_done [OF inv assms(2)] show ?thesis by (subst search_loop.simps) simp
      next
        case 2
        have "search_inv adj source target S {} m ds prev rest" by (rule pop_outdated [OF inv Cons 2(2)])
        from less.hyps [OF pop_least(4) [OF Cons] this] 2 pop show ?thesis
          by (subst search_loop.simps) (simp add: cur)
      next
        case 3
        note new = pop_settles [OF inv pop 3(2) [unfolded cur] 3(1)]
        obtain ds1 prev1 pq1 where fold: "foldl (relax (u, d)) (ds, prev, rest) (links_of adj u) = (ds1, prev1, pq1)"
          by (metis prod_cases3)
        have inv1: "search_inv adj source target (insert u S) {} d ds1 prev1 pq1"
          by (rule relax_all_inv [OF new(3) _ new(1) _ fold]) (use sound_links [OF assms(2)] in auto)
        have "u \<in> adj_nodes adj source - S" using settled_nodes [OF inv new(1)] new(2) by blast
        then have "card (adj_nodes adj source - insert u S) < card (adj_nodes adj source - S)"
          by (intro psubset_card_mono) auto
        from settle [OF this inv1] fold 3 pop show ?thesis
          by (subst search_loop.simps) (simp add: cur)
      qed
    qed
  qed
qed

lemma route_named: "route adj source p c \<Longrightarrow> sound_adj adj \<Longrightarrow> source \<noteq> [] \<Longrightarrow> [] \<notin> set p"
  by (induction rule: route.induct) (auto dest: sound_links)

text \<open>The outcome of a call: it returned \<open>null\<close> and there is no route, or it returned a cheapest one.\<close>

definition shortest_answer :: "adjacency \<Rightarrow> ident \<Rightarrow> ident \<Rightarrow> (ident list \<times> real) option \<Rightarrow> bool" where
  "shortest_answer adj source target r \<longleftrightarrow>
     (case r of
        None \<Rightarrow> \<not> (\<exists>p c. route adj source p c \<and> last p = target)
      | Some (p, c) \<Rightarrow> route adj source p c \<and> last p = target
          \<and> (\<forall>q d. route adj source q d \<and> last q = target \<longrightarrow> c \<le> d))"

lemma shortest_path_correct:
  assumes "sound_adj adj" "source \<noteq> []"
  shows "\<exists>r. shortestPath adj source target = Some r \<and> shortest_answer adj source target r"
proof -
  obtain ds prev pq where run: "search_loop adj target ([(source, 0)], [], [(source, 0)]) = Some (ds, prev, pq)"
    and fin: "search_done adj source target ds prev"
    using search_returns [OF search_inv_start assms(1), of target source] by blast
  show ?thesis
  proof (cases "js_get ds target")
    case None
    with run fin show ?thesis by (simp add: shortestPath_def search_done_def shortest_answer_def)
  next
    case (Some c)
    with fin obtain p where p: "traced prev target p" "route adj source (rev p) c"
      and best: "\<forall>q d. route adj source q d \<and> last q = target \<longrightarrow> c \<le> d" by (auto simp: search_done_def)
    have "trace_back prev target = Some p"
      by (rule trace_back_traced [OF p(1)]) (use route_named [OF p(2) assms] in simp)
    moreover have "last (rev p) = target" using traced_head [OF p(1)] by auto
    ultimately show ?thesis using run Some p(2) best by (simp add: shortestPath_def shortest_answer_def)
  qed
qed

text \<open>
  C10. For weights that are not negative and nodes with names, the shortest path search returns: \<open>null\<close>
  exactly when no route joins source and target, and otherwise a route together with its cost,
  than which no route is cheaper.
\<close>

theorem shortest_path_returns_optimum:
  assumes "sound_adj adj" "source \<noteq> []"
  shows "\<exists>r. shortestPath adj source target = Some r \<and> shortest_answer adj source target r"
  by (rule shortest_path_correct [OF assms])

definition toy_edge :: "ident \<Rightarrow> ident \<Rightarrow> real \<Rightarrow> graph_edge" where
  "toy_edge a b ms = \<lparr> ge_a = a, ge_b = b, ge_latencyMs = ms, ge_loss = 0, ge_quality01 = 1, ge_viaRelay = None \<rparr>"

definition toy_snapshot :: connectivity_snapshot where
  "toy_snapshot = \<lparr> cs_edges = [toy_edge ''a'' ''b'' 10, toy_edge ''b'' ''c'' 10, toy_edge ''a'' ''c'' 50], cs_partitionClusters = [],
     cs_operatorReachable = [], cs_relayChains = [], cs_bottleneckEdge = None, cs_stalePeers = [] \<rparr>"

theorem shortest_path_returns_optimum_witness:
  "\<exists>r. shortestPath (buildAdj toy_snapshot) ''a'' ''c'' = Some r \<and> shortest_answer (buildAdj toy_snapshot) ''a'' ''c'' r"
  by (rule shortest_path_returns_optimum)
    (simp_all add: buildAdj_def toy_snapshot_def toy_edge_def add_adj_edge_def ensure_node_def push_link_def edge_weight_def
      sound_adj_def)

subsection \<open>Plans over a snapshot\<close>

definition sound_snapshot :: "connectivity_snapshot \<Rightarrow> bool" where
  "sound_snapshot snap \<longleftrightarrow>
     list_all (\<lambda>e. 0 \<le> ge_latencyMs e \<and> 0 \<le> ge_loss e \<and> ge_a e \<noteq> [] \<and> ge_b e \<noteq> []) (cs_edges snap)"

definition adj_ok :: "adjacency \<Rightarrow> bool" where
  "adj_ok adj \<longleftrightarrow> wf_map adj \<and> sound_adj adj"

lemma adj_ok_links: "wf_map adj \<Longrightarrow> sound_adj adj \<longleftrightarrow> (\<forall>i ls. js_get adj i = Some ls \<longrightarrow> list_all (\<lambda>l. 0 \<le> al_w l \<and> al_to l \<noteq> []) ls)"
  by (force simp: sound_adj_def list_all_iff wf_map_def)

lemma adj_ok_put: "adj_ok adj \<Longrightarrow> list_all (\<lambda>l. 0 \<le> al_w l \<and> al_to l \<noteq> []) ls \<Longrightarrow> adj_ok (js_put i ls adj)"
  unfolding adj_ok_def using jsm.invar_insert [of adj i ls] by (auto simp: adj_ok_links js_map_simps)

lemma adj_ok_get: "adj_ok adj \<Longrightarrow> list_all (\<lambda>l. 0 \<le> al_w l \<and> al_to l \<noteq> []) (default_to (js_get adj i) [])"
  by (cases "js_get adj i") (auto simp: adj_ok_def adj_ok_links)

lemma adj_ok_edge:
  assumes "adj_ok m" "0 \<le> ge_latencyMs e" "0 \<le> ge_loss e" "ge_a e \<noteq> []" "ge_b e \<noteq> []"
  shows "adj_ok (add_adj_edge m e)"
proof -
  have "0 \<le> edge_weight e" using assms(2,3) by (simp add: edge_weight_def)
  moreover have "adj_ok (ensure_node i n)" if "adj_ok n" for i n using that adj_ok_put [of n "[]" i] by (simp add: ensure_node_def)
  moreover have "adj_ok (push_link i l n)" if "adj_ok n" "0 \<le> al_w l" "al_to l \<noteq> []" for i l n
    using that adj_ok_put [OF that(1)] adj_ok_get [OF that(1), of i] by (simp add: push_link_def)
  ultimately show ?thesis unfolding add_adj_edge_def using assms by simp
qed

lemma adj_ok_build: "sound_snapshot snap \<Longrightarrow> adj_ok (buildAdj snap)"
proof -
  assume ok: "sound_snapshot snap"
  have "adj_ok (foldl add_adj_edge m es)" if "adj_ok m" "set es \<subseteq> set (cs_edges snap)" for m es
    using that
  proof (induction es arbitrary: m)
    case (Cons e es)
    have "adj_ok (add_adj_edge m e)" by (rule adj_ok_edge) (use Cons.prems ok in \<open>auto simp: sound_snapshot_def list_all_iff\<close>)
    with Cons show ?case by simp
  qed simp
  then show ?thesis unfolding buildAdj_def by (simp add: adj_ok_def wf_map_def sound_adj_def)
qed

lemma without_hop_links:
  assumes "wf_map adj"
  shows "wf_map (without_hop a b adj)" "set (links_of (without_hop a b adj) i) \<subseteq> set (links_of adj i)"
proof -
  let ?f = "\<lambda>kl. filter (\<lambda>x. \<not> (al_to x = b \<and> fst kl = a \<or> al_to x = a \<and> fst kl = b)) (snd kl)"
  let ?kvs = "map (\<lambda>kl. (fst kl, ?f kl)) adj"
  have eq: "without_hop a b adj = foldl (\<lambda>acc kv. js_put (fst kv) (snd kv) acc) [] ?kvs"
    by (simp add: without_hop_def foldl_map)
  show "wf_map (without_hop a b adj)" unfolding eq by (rule jsm.invar_insert_all [OF jsm.invar_empty])
  have "map fst ?kvs = map fst adj" by simp
  then have "distinct (map fst ?kvs)" using assms by (simp only: wf_map_def)
  then have "map_of (rev ?kvs) = map_of ?kvs" by (rule map_of_rev_distinct)
  moreover have "map_of ?kvs i = map_option (\<lambda>ls. ?f (i, ls)) (map_of adj i)" by (induction adj) auto
  ultimately have "js_get (without_hop a b adj) i = map_option (\<lambda>ls. ?f (i, ls)) (js_get adj i)"
    unfolding eq jsm.lookup_insert_all by (simp add: map_add_def split: option.split)
  then show "set (links_of (without_hop a b adj) i) \<subseteq> set (links_of adj i)" by (cases "js_get adj i") (auto simp: links_of_def)
qed

lemma adj_ok_without: "adj_ok adj \<Longrightarrow> adj_ok (without_hop a b adj)"
proof -
  assume ok: "adj_ok adj"
  then have wf: "wf_map adj" by (simp add: adj_ok_def)
  have "list_all (\<lambda>l. 0 \<le> al_w l \<and> al_to l \<noteq> []) ls" if "js_get (without_hop a b adj) i = Some ls" for i ls
    using without_hop_links(2) [OF wf, of a b i] that adj_ok_get [OF ok, of i] by (auto simp: links_of_def list_all_iff)
  then show ?thesis using without_hop_links(1) [OF wf] by (simp add: adj_ok_def adj_ok_links)
qed

lemma route_mono: "route adj source p c \<Longrightarrow> (\<And>i. set (links_of adj i) \<subseteq> set (links_of adj' i)) \<Longrightarrow> route adj' source p c"
  by (induction rule: route.induct) (auto intro: route.intros)

lemma pathQuality_bounds: "5 / 100 \<le> pathQuality p snap \<and> pathQuality p snap \<le> 1"
  by (auto simp: pathQuality_def max_def split: option.split)

text \<open>What a plan promises for its target.\<close>

definition plan_ok :: "connectivity_snapshot \<Rightarrow> ident \<Rightarrow> route_plan \<Rightarrow> bool" where
  "plan_ok snap source pl \<longleftrightarrow>
     rp_fromId pl = source
     \<and> (\<exists>c. shortest_answer (buildAdj snap) source (rp_toId pl) (Some (rp_primaryPath pl, c)))
     \<and> (rp_backupPath pl = rev (rp_primaryPath pl)
        \<or> (\<exists>c. route (buildAdj snap) source (rp_backupPath pl) c \<and> last (rp_backupPath pl) = rp_toId pl))
     \<and> 5 / 100 \<le> rp_primaryQuality01 pl \<and> rp_primaryQuality01 pl \<le> 1
     \<and> 5 / 100 \<le> rp_backupQuality01 pl \<and> rp_backupQuality01 pl \<le> 1"

definition route_to :: "adjacency \<Rightarrow> ident \<Rightarrow> ident \<Rightarrow> bool" where
  "route_to adj source target \<longleftrightarrow> (\<exists>p c. route adj source p c \<and> last p = target)"

lemma answer_route_to: "shortest_answer adj source target r \<Longrightarrow> route_to adj source target \<longleftrightarrow> r \<noteq> None"
  by (auto simp: shortest_answer_def route_to_def split: option.splits)

lemma backup_returns:
  assumes "adj_ok adj" "source \<noteq> []"
  shows "\<exists>p q. backup_loop snap adj source target primary hops = Some (p, q) \<and> 5 / 100 \<le> q \<and> q \<le> 1
    \<and> (p = [] \<or> (\<exists>c. route adj source p c \<and> last p = target))"
proof (induction hops rule: induct_list012)
  case (3 a b rest)
  have ok: "sound_adj (without_hop a b adj)" using adj_ok_without [OF assms(1)] by (simp add: adj_ok_def)
  obtain r where r: "shortestPath (without_hop a b adj) source target = Some r" "shortest_answer (without_hop a b adj) source target r"
    using shortest_path_correct [OF ok assms(2)] by blast
  show ?case
  proof (cases r)
    case (Some pc)
    obtain p c where pc: "pc = (p, c)" by (cases pc)
    have "wf_map adj" using assms(1) by (simp add: adj_ok_def)
    then have "route adj source p c \<and> last p = target"
      using r(2) route_mono [OF _ without_hop_links(2) [of adj a b], of source p c] by (auto simp: Some pc shortest_answer_def)
    then show ?thesis using r(1) 3(2) pathQuality_bounds [of p snap] by (auto simp: Some pc)
  qed (use r(1) 3(2) in simp)
qed (intro exI [of _ "[]"] exI [of _ "8 / 100 :: real"], simp)+

lemma plans_return:
  assumes "sound_snapshot snap" "source \<noteq> []" "list_all (plan_ok snap source) plans"
  shows "\<exists>plans'. plans_loop snap (buildAdj snap) source targets plans = Some plans' \<and> list_all (plan_ok snap source) plans'
    \<and> map rp_toId plans' = map rp_toId plans
        @ filter (\<lambda>t. t \<noteq> source \<and> route_to (buildAdj snap) source t) targets"
  using assms(3)
proof (induction targets arbitrary: plans)
  case (Cons tgt targets)
  have ok: "adj_ok (buildAdj snap)" using adj_ok_build [OF assms(1)] .
  then have "sound_adj (buildAdj snap)" by (simp add: adj_ok_def)
  from shortest_path_correct [OF this assms(2)] obtain r
    where r: "shortestPath (buildAdj snap) source tgt = Some r" "shortest_answer (buildAdj snap) source tgt r" by blast
  show ?case
  proof (cases "tgt = source \<or> r = None")
    case True
    then have "\<not> (tgt \<noteq> source \<and> route_to (buildAdj snap) source tgt)" using answer_route_to [OF r(2)] by blast
    with True r(1) Cons show ?thesis by auto
  next
    case False
    then obtain p c where pc: "r = Some (p, c)" by auto
    obtain bp q where b: "backup_loop snap (buildAdj snap) source tgt p p = Some (bp, q)" "5 / 100 \<le> q" "q \<le> 1"
      "bp = [] \<or> (\<exists>c. route (buildAdj snap) source bp c \<and> last bp = tgt)" using backup_returns [OF ok assms(2)] by blast
    let ?pl = "plan_of snap source tgt (length plans) p (bp, q)"
    have "plan_ok snap source ?pl"
      using r(2) b(2-4) pathQuality_bounds [of p snap] by (auto simp: plan_ok_def plan_of_def pc)
    then have "list_all (plan_ok snap source) (plans @ [?pl])" using Cons.prems by simp
    from Cons.IH [OF this] show ?thesis
      using r(1) answer_route_to [OF r(2)] False b(1) by (auto simp: pc) (simp add: plan_of_def)
  qed
qed simp

text \<open>
  On a snapshot with latencies and losses that are not negative and named nodes, route
  planning returns: one plan for each reachable target other than the operator, in the order of
  the targets and at most six; each primary path is a cheapest route, each backup path is a route
  to the target or the reversed primary path, and the qualities lie in [0.05, 1].
\<close>

theorem route_plans_sound:
  assumes "sound_snapshot snap" "operatorId \<noteq> []"
  shows "\<exists>plans. computeRoutePlans snap operatorId targets = Some plans \<and> list_all (plan_ok snap operatorId) plans
    \<and> map rp_toId plans =
        take 6 (filter (\<lambda>t. t \<noteq> operatorId \<and> route_to (buildAdj snap) operatorId t) targets)"
proof -
  obtain plans where "plans_loop snap (buildAdj snap) operatorId targets [] = Some plans" "list_all (plan_ok snap operatorId) plans"
    "map rp_toId plans = filter (\<lambda>t. t \<noteq> operatorId \<and> route_to (buildAdj snap) operatorId t) targets"
    using plans_return [OF assms, of "[]" targets] by auto
  then show ?thesis
    by (intro exI [of _ "take 6 plans"]) (auto simp: computeRoutePlans_def list_all_iff take_map [symmetric] dest: in_set_takeD)
qed

theorem route_plans_sound_witness:
  "\<exists>plans. computeRoutePlans toy_snapshot ''a'' [''b'', ''c''] = Some plans \<and> list_all (plan_ok toy_snapshot ''a'') plans
    \<and> map rp_toId plans = take 6 (filter (\<lambda>t. t \<noteq> ''a'' \<and> route_to (buildAdj toy_snapshot) ''a'' t) [''b'', ''c''])"
  by (rule route_plans_sound) (simp_all add: sound_snapshot_def toy_snapshot_def toy_edge_def)

end
