(* ===== verification/MeshViews.thy ===== *)
theory MeshViews
  imports Connectivity
begin

section \<open>Mesh views, bridges and relays\<close>

text \<open>
  Models \<open>networkConditions.ts\<close>, \<open>normalizers.ts\<close> and the function \<open>estimateBridges\<close> of
  \<open>connectivityGraph.ts\<close> in \<open>src/src/vertex2\<close>, with the types they use. The component count of \<open>estimateBridges\<close> is a second
  instance of the search contract of theory \<open>Connectivity\<close>; the lemmas show that it counts the
  connected components, so that the bridges are exactly the articulation nodes.
\<close>

subsection \<open>Network conditions\<close>

definition clamp01 :: "real \<Rightarrow> real" where
  "clamp01 x = max 0 (min 1 x)"

definition lerp :: "real \<Rightarrow> real \<Rightarrow> real \<Rightarrow> real" where
  "lerp a b t = a + (b - a) * t"

datatype stress_mode = NsNormal | NsDegraded | NsHighLatency | NsLossy | NsPartitioned | NsRecovery | NsOffline

fun stressModeFromVertex :: "connectivity_mode \<Rightarrow> stress_mode" where
  "stressModeFromVertex CmNormal = NsNormal"
| "stressModeFromVertex CmDegraded = NsDegraded"
| "stressModeFromVertex CmPartialPartition = NsPartitioned"
| "stressModeFromVertex CmBlackout = NsOffline"
| "stressModeFromVertex CmRecovery = NsRecovery"
| "stressModeFromVertex CmResync = NsRecovery"
| "stressModeFromVertex (CmCast v) = NsNormal"

record network_vector =
  nv_baseLatencyMs :: real
  nv_jitterMs :: real
  nv_loss01 :: real
  nv_dup01 :: real
  nv_reorder01 :: real
  nv_ackDelayMs :: real
  nv_timeoutChance01 :: real
  nv_staleDelivery01 :: real
  nv_retransmitPressure01 :: real
  nv_routeInstability01 :: real

record network_bias =
  nb_baseLatencyMs :: "real option"
  nb_jitterMs :: "real option"
  nb_loss01 :: "real option"
  nb_dup01 :: "real option"
  nb_reorder01 :: "real option"
  nb_ackDelayMs :: "real option"
  nb_timeoutChance01 :: "real option"
  nb_staleDelivery01 :: "real option"
  nb_retransmitPressure01 :: "real option"
  nb_routeInstability01 :: "real option"

fun baselineVector :: "stress_mode \<Rightarrow> network_vector" where
  "baselineVector NsNormal = \<lparr> nv_baseLatencyMs = 35, nv_jitterMs = 12, nv_loss01 = 4 / 100, nv_dup01 = 2 / 100,
     nv_reorder01 = 1 / 100, nv_ackDelayMs = 20, nv_timeoutChance01 = 2 / 100, nv_staleDelivery01 = 1 / 100,
     nv_retransmitPressure01 = 8 / 100, nv_routeInstability01 = 5 / 100 \<rparr>"
| "baselineVector NsDegraded = \<lparr> nv_baseLatencyMs = 90, nv_jitterMs = 40, nv_loss01 = 12 / 100, nv_dup01 = 5 / 100,
     nv_reorder01 = 6 / 100, nv_ackDelayMs = 70, nv_timeoutChance01 = 8 / 100, nv_staleDelivery01 = 7 / 100,
     nv_retransmitPressure01 = 22 / 100, nv_routeInstability01 = 18 / 100 \<rparr>"
| "baselineVector NsHighLatency = \<lparr> nv_baseLatencyMs = 260, nv_jitterMs = 120, nv_loss01 = 6 / 100, nv_dup01 = 3 / 100,
     nv_reorder01 = 4 / 100, nv_ackDelayMs = 180, nv_timeoutChance01 = 12 / 100, nv_staleDelivery01 = 5 / 100,
     nv_retransmitPressure01 = 28 / 100, nv_routeInstability01 = 22 / 100 \<rparr>"
| "baselineVector NsLossy = \<lparr> nv_baseLatencyMs = 55, nv_jitterMs = 25, nv_loss01 = 28 / 100, nv_dup01 = 12 / 100,
     nv_reorder01 = 1 / 10, nv_ackDelayMs = 55, nv_timeoutChance01 = 18 / 100, nv_staleDelivery01 = 12 / 100,
     nv_retransmitPressure01 = 45 / 100, nv_routeInstability01 = 25 / 100 \<rparr>"
| "baselineVector NsPartitioned = \<lparr> nv_baseLatencyMs = 140, nv_jitterMs = 60, nv_loss01 = 22 / 100, nv_dup01 = 8 / 100,
     nv_reorder01 = 12 / 100, nv_ackDelayMs = 120, nv_timeoutChance01 = 22 / 100, nv_staleDelivery01 = 18 / 100,
     nv_retransmitPressure01 = 5 / 10, nv_routeInstability01 = 55 / 100 \<rparr>"
| "baselineVector NsRecovery = \<lparr> nv_baseLatencyMs = 80, nv_jitterMs = 35, nv_loss01 = 9 / 100, nv_dup01 = 4 / 100,
     nv_reorder01 = 5 / 100, nv_ackDelayMs = 60, nv_timeoutChance01 = 7 / 100, nv_staleDelivery01 = 6 / 100,
     nv_retransmitPressure01 = 3 / 10, nv_routeInstability01 = 2 / 10 \<rparr>"
| "baselineVector NsOffline = \<lparr> nv_baseLatencyMs = 420, nv_jitterMs = 160, nv_loss01 = 45 / 100, nv_dup01 = 6 / 100,
     nv_reorder01 = 8 / 100, nv_ackDelayMs = 260, nv_timeoutChance01 = 35 / 100, nv_staleDelivery01 = 22 / 100,
     nv_retransmitPressure01 = 62 / 100, nv_routeInstability01 = 4 / 10 \<rparr>"

definition mergeVectors :: "network_vector \<Rightarrow> network_bias \<Rightarrow> network_vector" where
  "mergeVectors a b =
     \<lparr> nv_baseLatencyMs = default_to (nb_baseLatencyMs b) (nv_baseLatencyMs a),
       nv_jitterMs = default_to (nb_jitterMs b) (nv_jitterMs a),
       nv_loss01 = clamp01 (default_to (nb_loss01 b) (nv_loss01 a)),
       nv_dup01 = clamp01 (default_to (nb_dup01 b) (nv_dup01 a)),
       nv_reorder01 = clamp01 (default_to (nb_reorder01 b) (nv_reorder01 a)),
       nv_ackDelayMs = default_to (nb_ackDelayMs b) (nv_ackDelayMs a),
       nv_timeoutChance01 = clamp01 (default_to (nb_timeoutChance01 b) (nv_timeoutChance01 a)),
       nv_staleDelivery01 = clamp01 (default_to (nb_staleDelivery01 b) (nv_staleDelivery01 a)),
       nv_retransmitPressure01 = clamp01 (default_to (nb_retransmitPressure01 b) (nv_retransmitPressure01 a)),
       nv_routeInstability01 = clamp01 (default_to (nb_routeInstability01 b) (nv_routeInstability01 a)) \<rparr>"

record network_controller =
  nc_mode :: stress_mode
  nc_manual :: network_bias

definition no_bias :: network_bias where
  "no_bias = \<lparr> nb_baseLatencyMs = None, nb_jitterMs = None, nb_loss01 = None, nb_dup01 = None, nb_reorder01 = None,
     nb_ackDelayMs = None, nb_timeoutChance01 = None, nb_staleDelivery01 = None, nb_retransmitPressure01 = None,
     nb_routeInstability01 = None \<rparr>"

definition new_network_controller :: "stress_mode \<Rightarrow> network_controller" where
  "new_network_controller initial = \<lparr> nc_mode = initial, nc_manual = no_bias \<rparr>"

definition setMode :: "stress_mode \<Rightarrow> network_controller \<Rightarrow> network_controller" where
  "setMode m nc = nc\<lparr>nc_mode := m\<rparr>"

definition injectLatency :: "real \<Rightarrow> network_controller \<Rightarrow> network_controller" where
  "injectLatency deltaMs nc =
     nc\<lparr>nc_manual := (nc_manual nc)
       \<lparr> nb_baseLatencyMs := Some (default_to (nb_baseLatencyMs (nc_manual nc)) 0 + deltaMs),
         nb_jitterMs := Some (default_to (nb_jitterMs (nc_manual nc)) 0 + of_int \<lfloor>deltaMs * (35 / 100)\<rfloor>) \<rparr>\<rparr>"

definition injectLoss :: "real \<Rightarrow> network_controller \<Rightarrow> network_controller" where
  "injectLoss delta01 nc =
     nc\<lparr>nc_manual := (nc_manual nc)\<lparr>nb_loss01 := Some (clamp01 (default_to (nb_loss01 (nc_manual nc)) 0 + delta01))\<rparr>\<rparr>"

definition resetManual :: "network_controller \<Rightarrow> network_controller" where
  "resetManual nc = nc\<lparr>nc_manual := no_bias\<rparr>"

definition controller_vector :: "network_controller \<Rightarrow> network_vector" where
  "controller_vector nc = mergeVectors (baselineVector (nc_mode nc)) (nc_manual nc)"

subsection \<open>Bridges\<close>

text \<open>The adjacency sets; \<open>adj.get(x)?.add(y)\<close> does nothing for a node that is not listed.\<close>

definition add_neighbour :: "ident \<Rightarrow> ident \<Rightarrow> (ident, ident list) jsmap \<Rightarrow> (ident, ident list) jsmap" where
  "add_neighbour x y adj = (case js_get adj x of None \<Rightarrow> adj | Some ys \<Rightarrow> js_put x (set_add y ys) adj)"

definition bridge_adj :: "ident list \<Rightarrow> (ident \<times> ident) list \<Rightarrow> (ident, ident list) jsmap" where
  "bridge_adj nodeIds edges =
     foldl (\<lambda>adj e. add_neighbour (snd e) (fst e) (add_neighbour (fst e) (snd e) adj))
       (foldl (\<lambda>adj i. js_put i [] adj) [] nodeIds) edges"

definition visit_node :: "ident option \<Rightarrow> ident list \<times> ident list \<Rightarrow> ident \<Rightarrow> ident list \<times> ident list" where
  "visit_node ignored sq y =
     (if ignored = Some y then sq else if y \<in> set (fst sq) then sq else (set_add y (fst sq), snd sq @ [y]))"

definition adj_values :: "(ident, ident list) jsmap \<Rightarrow> ident set" where
  "adj_values adj = (\<Union>kv \<in> set adj. set (snd kv))"

lemma finite_adj_values [simp]: "finite (adj_values adj)"
  by (simp add: adj_values_def)

definition live_neighbours :: "(ident, ident list) jsmap \<Rightarrow> ident option \<Rightarrow> ident \<Rightarrow> ident list" where
  "live_neighbours adj ignored x = filter (\<lambda>y. ignored \<noteq> Some y) (default_to (js_get adj x) [])"

lemma live_neighbours_values: "set (live_neighbours adj ignored x) \<subseteq> adj_values adj"
  by (cases "js_get adj x") (force simp: live_neighbours_def adj_values_def dest: map_of_SomeD)+

lemma visit_nodes_push: "foldl (visit_node ignored) sq ys = push_new (filter (\<lambda>y. ignored \<noteq> Some y) ys) sq"
proof (induction ys arbitrary: sq)
  case (Cons y ys)
  then show ?case by (simp add: visit_node_def push_new_def)
qed (simp add: push_new_def)

function component_loop :: "(ident, ident list) jsmap \<Rightarrow> ident option \<Rightarrow> ident list \<Rightarrow> ident list \<Rightarrow> ident list" where
  "component_loop adj ignored st seen =
     (if st = [] then seen
      else let (seen', st') = foldl (visit_node ignored) (seen, butlast st) (default_to (js_get adj (last st)) [])
           in component_loop adj ignored st' seen')"
  by pat_completeness auto
termination
proof (relation "measure (\<lambda>(adj, ignored, st, seen). search_work (adj_values adj) seen st)")
  fix adj ignored seen x seen' st' and st :: "ident list"
  assume "st \<noteq> []" "x = foldl (visit_node ignored) (seen, butlast st) (default_to (js_get adj (last st)) [])" "(seen', st') = x"
  then have "push_new (live_neighbours adj ignored (last st)) (seen, butlast st) = (seen', st')"
    by (simp add: visit_nodes_push live_neighbours_def)
  then have "search_work (adj_values adj) seen' st' \<le> search_work (adj_values adj) seen (butlast st)"
    using push_new_work [OF finite_adj_values live_neighbours_values, of adj ignored "last st" "(seen, butlast st)"] by simp
  also have "\<dots> < search_work (adj_values adj) seen st" using \<open>st \<noteq> []\<close> by (rule search_work_pop)
  finally show "((adj, ignored, st', seen'), adj, ignored, st, seen) \<in> measure (\<lambda>(adj, ignored, st, seen). search_work (adj_values adj) seen st)"
    by simp
qed simp

declare component_loop.simps [simp del]

definition count_step :: "(ident, ident list) jsmap \<Rightarrow> ident option \<Rightarrow> ident list \<times> nat \<Rightarrow> ident \<Rightarrow> ident list \<times> nat" where
  "count_step adj ignored sc n =
     (if ignored = Some n then sc else if n \<in> set (fst sc) then sc
      else (component_loop adj ignored [n] (set_add n (fst sc)), Suc (snd sc)))"

definition countComponents :: "ident list \<Rightarrow> (ident, ident list) jsmap \<Rightarrow> ident option \<Rightarrow> nat" where
  "countComponents nodeIds adj ignored = snd (foldl (count_step adj ignored) ([], 0) nodeIds)"

definition estimateBridges :: "ident list \<Rightarrow> (ident \<times> ident) list \<Rightarrow> ident list" where
  "estimateBridges nodeIds edges =
     (let adj = bridge_adj nodeIds edges; baseline = countComponents nodeIds adj None
      in foldl (\<lambda>bridges n. if countComponents nodeIds adj (Some n) > baseline then set_add n bridges else bridges) [] nodeIds)"

subsection \<open>The bridges are the articulation nodes\<close>

text \<open>Nodes of \<open>A\<close> joined by an edge within \<open>A\<close>, and the components they span.\<close>

definition near :: "ident set \<Rightarrow> (ident \<times> ident) list \<Rightarrow> ident \<Rightarrow> ident \<Rightarrow> bool" where
  "near A edges x y \<longleftrightarrow> x \<in> A \<and> y \<in> A \<and> ((x, y) \<in> set edges \<or> (y, x) \<in> set edges)"

definition node_components :: "ident set \<Rightarrow> (ident \<times> ident) list \<Rightarrow> ident set set" where
  "node_components A edges = A // {(x, y). x \<in> A \<and> y \<in> A \<and> (near A edges)\<^sup>*\<^sup>* x y}"

interpretation fragile: stack_search "live_neighbours adj ignored" "adj_values adj" "component_loop adj ignored" for adj ignored
proof unfold_locales
  show "component_loop adj ignored [] seen = seen" for seen by (simp add: component_loop.simps)
  show "component_loop adj ignored (q @ [x]) seen =
      component_loop adj ignored (snd (push_new (live_neighbours adj ignored x) (seen, q)))
        (fst (push_new (live_neighbours adj ignored x) (seen, q)))" for q x seen
    by (subst component_loop.simps) (simp add: visit_nodes_push live_neighbours_def split_beta)
qed (simp_all add: live_neighbours_values)

lemma add_neighbour_get:
  "js_get (add_neighbour x y adj) i = (if i = x then map_option (set_add y) (js_get adj x) else js_get adj i)"
  by (cases "js_get adj x") (auto simp: add_neighbour_def js_map_simps)

lemma bridge_adj_empty: "js_get (foldl (\<lambda>adj i. js_put i [] adj) m ids) i = (if i \<in> set ids then Some [] else js_get m i)"
  by (induction ids arbitrary: m) (auto simp: js_map_simps)

lemma add_neighbours_get:
  "map_option set (js_get (foldl (\<lambda>adj e. add_neighbour (snd e) (fst e) (add_neighbour (fst e) (snd e) adj)) m edges) i) =
   map_option (\<lambda>ys. set ys \<union> {y. (i, y) \<in> set edges \<or> (y, i) \<in> set edges}) (js_get m i)"
proof (induction edges arbitrary: m)
  case (Cons e edges)
  show ?case
    unfolding foldl.simps Cons.IH by (cases e; cases "js_get m i") (auto simp: add_neighbour_get)
qed (cases "js_get m i", simp_all)

lemma bridge_adj_get:
  "map_option set (js_get (bridge_adj nodeIds edges) i) =
     (if i \<in> set nodeIds then Some {y. (i, y) \<in> set edges \<or> (y, i) \<in> set edges} else None)"
  by (simp add: bridge_adj_def add_neighbours_get bridge_adj_empty)

lemma fragile_edge:
  "fragile.edge_rel (bridge_adj nodeIds edges) ignored x y \<longleftrightarrow>
     x \<in> set nodeIds \<and> ignored \<noteq> Some y \<and> ((x, y) \<in> set edges \<or> (y, x) \<in> set edges)"
  using bridge_adj_get [of nodeIds edges x]
  by (cases "js_get (bridge_adj nodeIds edges) x") (auto simp: fragile.edge_rel_def live_neighbours_def split: if_splits)

definition live_nodes :: "ident list \<Rightarrow> ident option \<Rightarrow> ident set" where
  "live_nodes nodeIds ignored = {n \<in> set nodeIds. ignored \<noteq> Some n}"

text \<open>Between live nodes the search relation is the one spanned by the edges among them.\<close>

lemma fragile_reach:
  assumes "(fragile.edge_rel (bridge_adj nodeIds edges) ignored)\<^sup>*\<^sup>* x y" "x \<in> live_nodes nodeIds ignored" "y \<in> live_nodes nodeIds ignored"
  shows "(near (live_nodes nodeIds ignored) edges)\<^sup>*\<^sup>* x y"
  using assms
proof (induction rule: converse_rtranclp_induct)
  case (step x z)
  show ?case
  proof (cases "z \<in> live_nodes nodeIds ignored")
    case True
    then have "near (live_nodes nodeIds ignored) edges x z" using step.hyps(1) step.prems(1) by (auto simp: near_def fragile_edge)
    with step True show ?thesis by (meson converse_rtranclp_into_rtranclp)
  next
    case False
    then have "z \<notin> set nodeIds" using step.hyps(1) by (auto simp: live_nodes_def fragile_edge)
    then have "z = y" using step.hyps(2) by (auto elim: converse_rtranclpE simp: fragile_edge)
    with False step.prems(2) show ?thesis by simp
  qed
qed simp

lemma near_reach: "(near (live_nodes nodeIds ignored) edges)\<^sup>*\<^sup>* x y \<Longrightarrow> (fragile.edge_rel (bridge_adj nodeIds edges) ignored)\<^sup>*\<^sup>* x y"
  by (rule rtranclp_mono [THEN predicate2D, rotated]) (auto simp: near_def live_nodes_def fragile_edge)

lemma near_sym: "(near A edges)\<^sup>*\<^sup>* x y \<Longrightarrow> (near A edges)\<^sup>*\<^sup>* y x"
  by (rule sympD [OF symp_rtranclp]) (auto simp: symp_def near_def)

text \<open>The classes that the nodes counted so far span, and the invariant of the counting loop.\<close>

definition near_class :: "ident set \<Rightarrow> (ident \<times> ident) list \<Rightarrow> ident \<Rightarrow> ident set" where
  "near_class A edges x = {y \<in> A. (near A edges)\<^sup>*\<^sup>* x y}"

lemma near_class_eq: "(near A edges)\<^sup>*\<^sup>* x y \<Longrightarrow> near_class A edges x = near_class A edges y"
  unfolding near_class_def by (auto intro: rtranclp_trans dest: near_sym)

definition counted :: "ident list \<Rightarrow> (ident \<times> ident) list \<Rightarrow> ident option \<Rightarrow> ident set \<Rightarrow> ident list \<times> nat \<Rightarrow> bool" where
  "counted nodeIds edges ignored done_ids sc \<longleftrightarrow>
     (let A = live_nodes nodeIds ignored
      in set (fst sc) \<inter> A = (\<Union>x \<in> done_ids. near_class A edges x)
         \<and> (\<forall>x \<in> set (fst sc). set (live_neighbours (bridge_adj nodeIds edges) ignored x) \<subseteq> set (fst sc))
         \<and> snd sc = card (near_class A edges ` done_ids) \<and> done_ids \<subseteq> A)"

lemma counted_step:
  assumes inv: "counted nodeIds edges ignored D sc" and n: "n \<in> live_nodes nodeIds ignored"
  shows "counted nodeIds edges ignored (insert n D) (count_step (bridge_adj nodeIds edges) ignored sc n)"
proof -
  let ?A = "live_nodes nodeIds ignored" and ?adj = "bridge_adj nodeIds edges"
  let ?cls = "near_class ?A edges"
  have seen: "set (fst sc) \<inter> ?A = (\<Union>x \<in> D. ?cls x)" and closed: "\<forall>x \<in> set (fst sc). set (live_neighbours ?adj ignored x) \<subseteq> set (fst sc)"
    and num: "snd sc = card (?cls ` D)" and D: "D \<subseteq> ?A"
    using inv by (auto simp: counted_def Let_def)
  have live: "ignored \<noteq> Some n" using n by (simp add: live_nodes_def)
  have self: "n \<in> ?cls n" using n by (simp add: near_class_def)
  show ?thesis
  proof (cases "n \<in> set (fst sc)")
    case True
    with seen n obtain p where p: "p \<in> D" "n \<in> ?cls p" by blast
    then have "?cls n = ?cls p" by (intro near_class_eq [symmetric]) (simp add: near_class_def)
    then have "?cls ` insert n D = ?cls ` D" "(\<Union>x \<in> insert n D. ?cls x) = (\<Union>x \<in> D. ?cls x)" using p(1) by auto
    with seen num D n closed have "set (fst sc) \<inter> ?A = (\<Union>x \<in> insert n D. ?cls x)" "snd sc = card (?cls ` insert n D)" "insert n D \<subseteq> ?A"
      by (simp_all only:) auto
    then show ?thesis using True live closed by (simp only: count_step_def counted_def Let_def) simp
  next
    case False
    define R where "R = component_loop ?adj ignored [n] (set_add n (fst sc))"
    have spec: "set (set_add n (fst sc)) \<subseteq> set R" "\<forall>x \<in> set R. set (live_neighbours ?adj ignored x) \<subseteq> set R"
      "\<forall>y \<in> set R. \<exists>x \<in> set (set_add n (fst sc)). (fragile.edge_rel ?adj ignored)\<^sup>*\<^sup>* x y"
      unfolding R_def using fragile.run_spec [of "[n]" "set_add n (fst sc)" ?adj ignored] closed by auto
    have keep: "y \<in> set (fst sc)" if "(fragile.edge_rel ?adj ignored)\<^sup>*\<^sup>* x y" "x \<in> set (fst sc)" for x y
      using that by induction (use closed in \<open>auto simp: fragile.edge_rel_def\<close>)
    have grow: "y \<in> set R" if "(fragile.edge_rel ?adj ignored)\<^sup>*\<^sup>* n y" for y
      using that by induction (use spec(1,2) in \<open>auto simp: fragile.edge_rel_def\<close>)
    have RA: "set R \<inter> ?A = (\<Union>x \<in> insert n D. ?cls x)"
    proof (intro equalityI subsetI)
      fix y assume y: "y \<in> set R \<inter> ?A"
      with spec(3) obtain x where x: "x \<in> insert n (set (fst sc))" "(fragile.edge_rel ?adj ignored)\<^sup>*\<^sup>* x y" by auto
      show "y \<in> (\<Union>x \<in> insert n D. ?cls x)"
      proof (cases "x = n")
        case True
        with x(2) y n show ?thesis using fragile_reach by (auto simp: near_class_def)
      next
        case False
        with x keep y seen show ?thesis by auto
      qed
    next
      fix y assume "y \<in> (\<Union>x \<in> insert n D. ?cls x)"
      then consider "y \<in> ?cls n" | "y \<in> set (fst sc) \<inter> ?A" using seen by auto
      then show "y \<in> set R \<inter> ?A"
      proof cases
        case 1
        then show ?thesis using grow near_reach by (auto simp: near_class_def)
      qed (use spec(1) in auto)
    qed
    have "?cls n \<notin> ?cls ` D" using self False seen n by auto
    moreover have "finite D" using D by (rule finite_subset) (simp add: live_nodes_def)
    ultimately have "card (?cls ` insert n D) = Suc (card (?cls ` D))" by simp
    then show ?thesis
      using False live RA spec(2) num D n by (simp add: count_step_def counted_def Let_def R_def [symmetric])
  qed
qed

lemma counted_all:
  assumes "set ns \<subseteq> set nodeIds" "counted nodeIds edges ignored D sc"
  shows "counted nodeIds edges ignored (D \<union> live_nodes ns ignored) (foldl (count_step (bridge_adj nodeIds edges) ignored) sc ns)"
  using assms
proof (induction ns arbitrary: D sc)
  case (Cons n ns)
  show ?case
  proof (cases "ignored = Some n")
    case True
    then have "live_nodes (n # ns) ignored = live_nodes ns ignored" by (auto simp: live_nodes_def)
    with True Cons show ?thesis by (simp add: count_step_def)
  next
    case False
    then have "n \<in> live_nodes nodeIds ignored" using Cons.prems(1) by (simp add: live_nodes_def)
    from Cons.IH [OF _ counted_step [OF Cons.prems(2) this]] Cons.prems(1)
    have "counted nodeIds edges ignored (insert n D \<union> live_nodes ns ignored)
        (foldl (count_step (bridge_adj nodeIds edges) ignored) sc (n # ns))" by simp
    moreover have "insert n D \<union> live_nodes ns ignored = D \<union> live_nodes (n # ns) ignored" using False by (auto simp: live_nodes_def)
    ultimately show ?thesis by simp
  qed
qed (simp add: live_nodes_def)

lemma countComponents_card:
  "countComponents nodeIds (bridge_adj nodeIds edges) ignored = card (node_components (live_nodes nodeIds ignored) edges)"
proof -
  let ?A = "live_nodes nodeIds ignored"
  have "counted nodeIds edges ignored {} ([], 0)" by (simp add: counted_def)
  from counted_all [OF subset_refl this]
  have "countComponents nodeIds (bridge_adj nodeIds edges) ignored = card (near_class ?A edges ` ?A)"
    by (simp add: counted_def Let_def countComponents_def)
  also have "near_class ?A edges ` ?A = node_components ?A edges"
    by (auto simp: node_components_def quotient_def near_class_def)
  finally show ?thesis .
qed

lemma foldl_set_add_filter: "set (foldl (\<lambda>bs n. if P n then set_add n bs else bs) bs ns) = set bs \<union> {n \<in> set ns. P n}"
  by (induction ns arbitrary: bs) auto

text \<open>
  C13. The bridges of a graph are exactly its articulation nodes: those whose removal leaves more
  connected components among the remaining nodes than the graph has.
\<close>

theorem bridges_are_articulations:
  "set (estimateBridges nodeIds edges) =
     {n \<in> set nodeIds. card (node_components (set nodeIds) edges) < card (node_components (set nodeIds - {n}) edges)}"
proof -
  have "live_nodes nodeIds None = set nodeIds" "live_nodes nodeIds (Some n) = set nodeIds - {n}" for n
    by (auto simp: live_nodes_def)
  then show ?thesis
    by (simp add: estimateBridges_def Let_def foldl_set_add_filter countComponents_card)
qed

end
