(* ===== verification/MeshReports.thy ===== *)
theory MeshReports
  imports MeshViews
begin

section \<open>Graph views, relay nominations and discovery\<close>

text \<open>
  Models the views built on a connectivity snapshot: \<open>buildMeshGraphView\<close> and \<open>pickRelayPathHint\<close>
  of \<open>src/src/vertex2/connectivityGraph.ts\<close>, and \<open>connectivityGraph.ts\<close>, \<open>partitionManager.ts\<close>,
  \<open>relayPlanner.ts\<close> and \<open>discoveryEngine.ts\<close> of \<open>src/src/mesh\<close> with the types they use. A random
  generator is the stream of its draws together with the number of draws made. The lemmas bound the nominations and
  the discovery states.
\<close>

subsection \<open>The mesh graph view\<close>

record mesh_link =
  ml_a :: ident
  ml_b :: ident
  ml_latencyMs :: real
  ml_loss01 :: real
  ml_quality01 :: real
  ml_viaRelay :: "ident option"
  ml_isBridge :: bool
  ml_partitionA :: "string option"
  ml_partitionB :: "string option"

record mesh_graph_view =
  gv_nodes :: "ident list"
  gv_links :: "mesh_link list"
  gv_bridges :: "ident list"
  gv_relayRank :: "(ident \<times> real) list"
  gv_operatorReachable :: "ident list"
  gv_isolated :: "ident list"
  gv_partitionLabels :: "(ident, string) jsmap"

definition edge_nodes :: "graph_edge list \<Rightarrow> ident list" where
  "edge_nodes es = foldl (\<lambda>acc e. set_add (ge_b e) (set_add (ge_a e) acc)) [] es"

definition view_link :: "network_vector \<Rightarrow> ident list \<Rightarrow> graph_edge \<Rightarrow> mesh_link" where
  "view_link v bridges e =
     (let stress = clamp01 (1 - ge_quality01 e + nv_routeInstability01 v * (35 / 100))
      in \<lparr> ml_a = ge_a e, ml_b = ge_b e,
           ml_latencyMs = max 8 (ge_latencyMs e + nv_baseLatencyMs v * (25 / 100) + nv_jitterMs v * stress),
           ml_loss01 = clamp01 (ge_loss e * (55 / 100) + nv_loss01 v * (45 / 100)),
           ml_quality01 = clamp01 (ge_quality01 e * (1 - nv_loss01 v * (35 / 100))),
           ml_viaRelay = ge_viaRelay e, ml_isBridge = (ge_a e \<in> set bridges \<or> ge_b e \<in> set bridges),
           ml_partitionA = None, ml_partitionB = None \<rparr>)"

definition relay_rank_of :: "mesh_link list \<Rightarrow> ident \<Rightarrow> ident \<times> real" where
  "relay_rank_of links peerId =
     (let own = filter (\<lambda>l. ml_a l = peerId \<or> ml_b l = peerId) links;
          score = foldl (\<lambda>s l. s + ml_quality01 l * (1 - ml_loss01 l)) 0 own
      in (peerId, clamp01 (score / max 1 (real (length own)))))"

definition partition_labels :: "ident list list \<Rightarrow> (ident, string) jsmap" where
  "partition_labels clusters =
     foldl (\<lambda>m ic. foldl (\<lambda>m i. js_put i (CHR ''P'' # show_nat (fst ic)) m) m (snd ic)) [] (enumerate 0 clusters)"

definition buildMeshGraphView :: "connectivity_snapshot \<Rightarrow> ident \<Rightarrow> network_vector \<Rightarrow> mesh_graph_view" where
  "buildMeshGraphView snap operatorId v =
     (let nodeList = edge_nodes (cs_edges snap);
          bridges = estimateBridges nodeList (map (\<lambda>e. (ge_a e, ge_b e)) (cs_edges snap));
          links = map (view_link v bridges) (cs_edges snap)
      in \<lparr> gv_nodes = nodeList, gv_links = links, gv_bridges = bridges,
           gv_relayRank = js_sort (by_desc snd) (map (relay_rank_of links) nodeList),
           gv_operatorReachable = cs_operatorReachable snap,
           gv_isolated = filter (\<lambda>i. i \<notin> set (cs_operatorReachable snap)) nodeList,
           gv_partitionLabels = partition_labels (cs_partitionClusters snap) \<rparr>)"

definition joins :: "graph_edge \<Rightarrow> ident \<Rightarrow> ident \<Rightarrow> bool" where
  "joins e a b \<longleftrightarrow> ge_a e = a \<and> ge_b e = b \<or> ge_b e = a \<and> ge_a e = b"

fun pickRelayPathHint :: "graph_edge list \<Rightarrow> ident \<Rightarrow> ident \<Rightarrow> ident list \<Rightarrow> ident option" where
  "pickRelayPathHint edges from_id to_id [] = None"
| "pickRelayPathHint edges from_id to_id (r # rs) =
     (case (List.find (\<lambda>e. joins e from_id r) edges, List.find (\<lambda>e. joins e r to_id) edges) of
        (Some a, Some b) \<Rightarrow>
          if ge_quality01 a > 12 / 100 \<and> ge_quality01 b > 12 / 100 then Some r
          else pickRelayPathHint edges from_id to_id rs
      | _ \<Rightarrow> pickRelayPathHint edges from_id to_id rs)"

subsection \<open>The operational graph\<close>

datatype mesh_archetype = ArScoutDrone | ArRelayDrone | ArIndoorRobot | ArRescueRobot | ArBackupCoordinator | ArSensorNode
  | ArTransportNode | ArStandbyNode

datatype link_state = LinkLinked | LinkDegraded | LinkIsolated | LinkOffline

record rich_profile =
  rf_nodeId :: ident
  rf_displayName :: string
  rf_vendorOrFamily :: string
  rf_roleLabel :: string
  rf_archetype :: mesh_archetype
  rf_communicationRangeM :: real
  rf_antennaGain01 :: real
  rf_battery01 :: real
  rf_trust01 :: real
  rf_reliability01 :: real
  rf_packetLossSensitivity01 :: real
  rf_latencySensitivity01 :: real
  rf_relaySuitability01 :: real
  rf_autonomyLevel01 :: real
  rf_sensorStack :: "string list"
  rf_position :: xyz_point
  rf_connectivityState :: link_state
  rf_lastHeartbeatMs :: timestamp
  rf_partitionClusterId :: string
  rf_localQueueDepth :: int
  rf_recoveryReadiness01 :: real

text \<open>An operational edge is its graph edge with three more fields.\<close>

record operational_edge =
  oe_edge :: graph_edge
  oe_routeCost :: real
  oe_relayImportance01 :: real
  oe_indirectHint :: "ident option"

record operational_graph =
  og_nodes :: "ident list"
  og_edges :: "operational_edge list"
  og_partitionClusters :: "ident list list"
  og_bridgeNodes :: "ident list"
  og_bottleneckEdge :: "operational_edge option"
  og_isolatedNodes :: "ident list"
  og_operatorReachable :: "ident list"
  og_recoveryEdges :: "operational_edge list"

definition routeCost :: "graph_edge \<Rightarrow> real" where
  "routeCost e = ge_latencyMs e * (1 + ge_loss e * (22 / 10)) * (1 / max (5 / 100) (ge_quality01 e))"

definition find_profile :: "ident \<Rightarrow> rich_profile list \<Rightarrow> rich_profile option" where
  "find_profile i profiles = List.find (\<lambda>p. rf_nodeId p = i) profiles"

definition operational_of :: "rich_profile list \<Rightarrow> graph_edge \<Rightarrow> operational_edge" where
  "operational_of profiles e =
     (let suit = (\<lambda>i. default_to (map_option rf_relaySuitability01 (find_profile i profiles)) (1 / 2));
          importance = 1 / 2 * suit (ge_a e) + 1 / 2 * suit (ge_b e)
            + (if default_to (ge_viaRelay e) [] \<noteq> [] then 12 / 100 else 0)
      in \<lparr> oe_edge = e, oe_routeCost = routeCost e, oe_relayImportance01 = min 1 importance,
           oe_indirectHint = ge_viaRelay e \<rparr>)"

definition degree_map :: "operational_edge list \<Rightarrow> (ident, nat) jsmap" where
  "degree_map es =
     foldl (\<lambda>m oe. (let m1 = js_put (ge_a (oe_edge oe)) (default_to (js_get m (ge_a (oe_edge oe))) 0 + 1) m
                    in js_put (ge_b (oe_edge oe)) (default_to (js_get m1 (ge_b (oe_edge oe))) 0 + 1) m1)) [] es"

fun cluster_index :: "ident list list \<Rightarrow> ident \<Rightarrow> nat option" where
  "cluster_index [] i = None"
| "cluster_index (c # cs) i = (if i \<in> set c then Some 0 else map_option Suc (cluster_index cs i))"

definition in_other_cluster :: "ident list list \<Rightarrow> ident \<Rightarrow> ident \<Rightarrow> bool" where
  "in_other_cluster clusters i j =
     (case (cluster_index clusters i, cluster_index clusters j) of (Some ci, Some cj) \<Rightarrow> ci \<noteq> cj | _ \<Rightarrow> False)"

definition crosses :: "ident list list \<Rightarrow> operational_edge list \<Rightarrow> ident \<Rightarrow> nat" where
  "crosses clusters es i =
     length (filter (\<lambda>oe. (ge_a (oe_edge oe) = i \<or> ge_b (oe_edge oe) = i)
       \<and> in_other_cluster clusters i (if ge_a (oe_edge oe) = i then ge_b (oe_edge oe) else ge_a (oe_edge oe))) es)"

definition bridge_nodes :: "ident list list \<Rightarrow> operational_edge list \<Rightarrow> ident list" where
  "bridge_nodes clusters es =
     map fst (filter (\<lambda>(i, d). length clusters > 1 \<and> d \<ge> 2 \<and> crosses clusters es i > 0) (degree_map es))"

definition buildOperationalGraph :: "connectivity_snapshot \<Rightarrow> rich_profile list \<Rightarrow> operational_graph" where
  "buildOperationalGraph snap profiles =
     (let nodes = dedup (concat (cs_partitionClusters snap) @ map rf_nodeId profiles);
          es = map (operational_of profiles) (cs_edges snap)
      in \<lparr> og_nodes = nodes, og_edges = es, og_partitionClusters = cs_partitionClusters snap,
           og_bridgeNodes = dedup (bridge_nodes (cs_partitionClusters snap) es),
           og_bottleneckEdge = map_option (\<lambda>e. \<lparr> oe_edge = e, oe_routeCost = routeCost e, oe_relayImportance01 = 55 / 100,
              oe_indirectHint = None \<rparr>) (cs_bottleneckEdge snap),
           og_isolatedNodes = filter (\<lambda>i. i \<notin> set (cs_operatorReachable snap) \<and> i \<notin> set (cs_stalePeers snap)) nodes,
           og_operatorReachable = cs_operatorReachable snap,
           og_recoveryEdges = filter (\<lambda>oe. ge_a (oe_edge oe) \<in> set (cs_stalePeers snap)
             \<or> ge_b (oe_edge oe) \<in> set (cs_stalePeers snap)) es \<rparr>)"

record partition_summary =
  su_clusterCount :: nat
  su_largestClusterSize :: nat
  su_operatorClusterSize :: nat
  su_bridgeHintCount :: nat

definition summarizePartitions :: "connectivity_snapshot \<Rightarrow> ident \<Rightarrow> partition_summary" where
  "summarizePartitions snap operatorId =
     \<lparr> su_clusterCount = max 1 (length (cs_partitionClusters snap)),
       su_largestClusterSize = foldl (\<lambda>k c. max k (length c)) 0 (cs_partitionClusters snap),
       su_operatorClusterSize = foldl (\<lambda>k c. if operatorId \<in> set c then length c else k) 0 (cs_partitionClusters snap),
       su_bridgeHintCount = length (cs_relayChains snap) \<rparr>"

subsection \<open>Relay nominations\<close>

record relay_nomination =
  rn_nodeId :: ident
  rn_score01 :: real
  rn_reasons :: "string list"
  rn_holdsPosition :: bool
  rn_estimatedLoad01 :: real

definition neighbor_set :: "ident \<Rightarrow> connectivity_snapshot \<Rightarrow> ident list" where
  "neighbor_set i snap =
     foldl (\<lambda>s e. (let s1 = (if ge_a e = i then set_add (ge_b e) s else s)
                   in if ge_b e = i then set_add (ge_a e) s1 else s1)) [] (cs_edges snap)"

definition stationary_score :: "mesh_archetype \<Rightarrow> real" where
  "stationary_score ar =
     (if ar \<in> {ArRelayDrone, ArBackupCoordinator, ArSensorNode} then 85 / 100
      else if ar = ArScoutDrone then 35 / 100 else 55 / 100)"

definition load_estimate :: "operational_graph \<Rightarrow> rich_profile \<Rightarrow> real" where
  "load_estimate graph p =
     min 1 (of_int (rf_localQueueDepth p) / 14
       + (case og_bottleneckEdge graph of None \<Rightarrow> 0
          | Some oe \<Rightarrow> if ge_a (oe_edge oe) = rf_nodeId p \<or> ge_b (oe_edge oe) = rf_nodeId p then 15 / 100 else 0))"

definition nominate :: "ident \<Rightarrow> connectivity_snapshot \<Rightarrow> operational_graph \<Rightarrow> real \<Rightarrow> rich_profile \<Rightarrow> relay_nomination" where
  "nominate operatorId snap graph draw p =
     (let nbr = neighbor_set (rf_nodeId p) snap; opN = neighbor_set operatorId snap;
          touches = length (filter (in_other_cluster (cs_partitionClusters snap) (rf_nodeId p)) nbr);
          bridge = rf_nodeId p \<in> set (og_bridgeNodes graph);
          stationary = stationary_score (rf_archetype p);
          load = load_estimate graph p;
          opSide = (rf_nodeId p \<in> set opN \<or> list_ex (\<lambda>x. x \<in> set opN) nbr);
          score = min 1 (22 / 100 + rf_relaySuitability01 p * (38 / 100) + rf_trust01 p * (12 / 100)
            + rf_battery01 p * (1 / 10) + (if bridge then 18 / 100 else 0) + real touches * (6 / 100)
            + stationary * (8 / 100) - load * (12 / 100) + (if opSide then 6 / 100 else 0) + (draw - 1 / 2) * (4 / 100));
          reasons = (if rf_relaySuitability01 p > 72 / 100 then [''high relay suitability''] else [])
            @ (if bridge then [''bridges partition neighborhoods''] else [])
            @ (if rf_battery01 p > 55 / 100 then [''adequate battery headroom''] else [])
            @ (if length nbr \<ge> 3 then [''high local degree''] else [])
            @ (if touches > 0 then [''straddles split clusters''] else [])
            @ (if opSide then [''keeps operator path alive''] else [])
      in \<lparr> rn_nodeId = rf_nodeId p, rn_score01 = score,
           rn_reasons = (if reasons = [] then [''best marginal score for mesh continuity''] else reasons),
           rn_holdsPosition = (stationary > 65 / 100), rn_estimatedLoad01 = load \<rparr>)"

definition planRelays :: "ident \<Rightarrow> connectivity_snapshot \<Rightarrow> rich_profile list \<Rightarrow> operational_graph \<Rightarrow> (nat \<Rightarrow> real) \<Rightarrow> relay_nomination list" where
  "planRelays operatorId snap profiles graph rng =
     (let alive = filter (\<lambda>p. rf_connectivityState p \<noteq> LinkOffline) profiles
      in take 4 (js_sort (by_desc rn_score01) (map (\<lambda>(k, p). nominate operatorId snap graph (rng k) p) (enumerate 0 alive))))"

subsection \<open>Discovery\<close>

datatype discovery_state = DsUnknown | DsSuspected | DsDiscovered | DsConfirmed | DsStale | DsLost | DsRecovered

record discovery_cell =
  dc_observerId :: ident
  dc_targetId :: ident
  dc_state :: discovery_state
  dc_sightings :: nat
  dc_ticksSinceSighting :: nat
  dc_viaRelay :: "ident option"

definition neighborsOf :: "ident \<Rightarrow> connectivity_snapshot \<Rightarrow> ident list" where
  "neighborsOf i snap =
     List.map_filter (\<lambda>e. if ge_a e = i then Some (ge_b e) else if ge_b e = i then Some (ge_a e) else None) (cs_edges snap)"

definition edgeBetween :: "connectivity_snapshot \<Rightarrow> ident \<Rightarrow> ident \<Rightarrow> graph_edge option" where
  "edgeBetween snap a b = List.find (\<lambda>e. ge_a e = a \<and> ge_b e = b \<or> ge_a e = b \<and> ge_b e = a) (cs_edges snap)"

fun discovery_speed :: "stress_mode \<Rightarrow> real" where
  "discovery_speed NsNormal = 92 / 100"
| "discovery_speed NsDegraded = 78 / 100"
| "discovery_speed NsHighLatency = 62 / 100"
| "discovery_speed NsLossy = 52 / 100"
| "discovery_speed NsPartitioned = 58 / 100"
| "discovery_speed NsRecovery = 72 / 100"
| "discovery_speed NsOffline = 45 / 100"

text \<open>The first neighbour through which each second hop is known.\<close>

definition second_hops :: "ident \<Rightarrow> connectivity_snapshot \<Rightarrow> (ident, ident) jsmap" where
  "second_hops obs snap =
     foldl (\<lambda>m n. foldl (\<lambda>m x. if x = obs \<or> js_get m x \<noteq> None then m else js_put x n m) m (neighborsOf n snap)) []
       (neighborsOf obs snap)"

definition discovery_key :: "ident \<Rightarrow> ident \<Rightarrow> ident \<times> ident" where
  "discovery_key obs target = (obs, target)"

text \<open>The state of a cell after its counters were updated.\<close>

definition next_discovery :: "discovery_cell \<Rightarrow> discovery_state" where
  "next_discovery c =
     (if dc_ticksSinceSighting c = 0
      then if dc_sightings c \<ge> 3 then (if dc_state c = DsLost then DsRecovered else DsConfirmed)
           else if dc_sightings c = 1 then DsSuspected
           else if dc_sightings c \<ge> 2 then DsDiscovered
           else dc_state c
      else if dc_state c \<noteq> DsUnknown \<and> dc_ticksSinceSighting c > 14 then DsLost
      else if dc_state c \<noteq> DsUnknown \<and> dc_ticksSinceSighting c > 6 then DsStale
      else dc_state c)"

text \<open>
  One candidate of one observer. The key \<open>`${obs}->${target}`\<close> of the map is the pair; the state
  carries the cells and the number of draws so far.
\<close>

definition sight_target :: "connectivity_snapshot \<Rightarrow> real \<Rightarrow> real \<Rightarrow> (nat \<Rightarrow> real) \<Rightarrow> ident \<Rightarrow> (ident, ident) jsmap \<Rightarrow>
    (ident \<times> ident, discovery_cell) jsmap \<times> nat \<Rightarrow> ident \<Rightarrow> (ident \<times> ident, discovery_cell) jsmap \<times> nat" where
  "sight_target snap speed loss01 rng obs hops ck target =
     (if target = obs then ck
      else (let (cells, k) = ck; key = discovery_key obs target; edge = edgeBetween snap obs target;
                relayHint = (case edge of Some _ \<Rightarrow> None | None \<Rightarrow> js_get hops target);
                hinted = default_to relayHint [] \<noteq> [];
                baseQual = (case edge of Some e \<Rightarrow> ge_quality01 e | None \<Rightarrow> if hinted then 35 / 100 else 0);
                chance = speed * baseQual * (1 - loss01 * (65 / 100)) * (if edge \<noteq> None then 1 else 22 / 100);
                cell0 = default_to (js_get cells key) \<lparr> dc_observerId = obs, dc_targetId = target, dc_state = DsUnknown,
                  dc_sightings = 0, dc_ticksSinceSighting = 99, dc_viaRelay = None \<rparr>;
                cell1 = cell0\<lparr>dc_ticksSinceSighting := dc_ticksSinceSighting cell0 + 1\<rparr>;
                saw = rng k < chance;
                cell2 = (if saw then cell1\<lparr> dc_sightings := dc_sightings cell1 + 1, dc_ticksSinceSighting := 0,
                    dc_viaRelay := (if edge \<noteq> None then None else if hinted then relayHint else dc_viaRelay cell1) \<rparr>
                  else cell1);
                cell3 = cell2\<lparr>dc_state := next_discovery cell2\<rparr>;
                whisper = (\<not> saw \<and> hinted \<and> rng (k + 1) < 4 / 100 * speed \<and> dc_state cell3 = DsUnknown);
                cell4 = (if whisper then cell3\<lparr> dc_state := DsSuspected, dc_viaRelay := relayHint \<rparr> else cell3)
            in (js_put key cell4 cells, if \<not> saw \<and> hinted then k + 2 else k + 1)))"

definition observe :: "connectivity_snapshot \<Rightarrow> real \<Rightarrow> real \<Rightarrow> (nat \<Rightarrow> real) \<Rightarrow>
    (ident \<times> ident, discovery_cell) jsmap \<times> nat \<Rightarrow> ident \<Rightarrow> (ident \<times> ident, discovery_cell) jsmap \<times> nat" where
  "observe snap speed loss01 rng ck obs =
     (if obs \<in> set (cs_stalePeers snap) then ck
      else (let hops = second_hops obs snap
            in foldl (sight_target snap speed loss01 rng obs hops) ck (dedup (neighborsOf obs snap @ js_keys hops))))"

definition advanceDiscoveryRegistry :: "connectivity_snapshot \<Rightarrow> ident list \<Rightarrow> stress_mode \<Rightarrow> real \<Rightarrow> (nat \<Rightarrow> real) \<Rightarrow>
    (ident \<times> ident, discovery_cell) jsmap \<Rightarrow> (ident \<times> ident, discovery_cell) jsmap" where
  "advanceDiscoveryRegistry snap observerIds stress loss01 rng cells =
     fst (foldl (observe snap (discovery_speed stress) loss01 rng) (cells, 0) observerIds)"

definition discoveryEntries :: "(ident \<times> ident, discovery_cell) jsmap \<Rightarrow> discovery_cell list" where
  "discoveryEntries cells = slice_tail 220 (filter (\<lambda>c. dc_state c \<noteq> DsUnknown) (js_values cells))"

subsection \<open>The life of a discovery cell\<close>

text \<open>One tick: the snapshot, the observers, the stress mode, the loss and the draws.\<close>

type_synonym discovery_tick = "connectivity_snapshot \<times> ident list \<times> stress_mode \<times> real \<times> (nat \<Rightarrow> real)"

definition discovery_run :: "discovery_tick list \<Rightarrow> (ident \<times> ident, discovery_cell) jsmap" where
  "discovery_run ticks =
     foldl (\<lambda>cells (snap, observerIds, stress, loss01, rng). advanceDiscoveryRegistry snap observerIds stress loss01 rng cells) [] ticks"

definition wf_sighting :: "discovery_cell \<Rightarrow> bool" where
  "wf_sighting c \<longleftrightarrow> dc_observerId c \<noteq> dc_targetId c \<and>
     (case dc_state c of
        DsUnknown \<Rightarrow> dc_sightings c = 0
      | DsSuspected \<Rightarrow> dc_sightings c = 0 \<and> 99 < dc_ticksSinceSighting c \<or> dc_sightings c = 1 \<and> dc_ticksSinceSighting c \<le> 6
      | DsDiscovered \<Rightarrow> dc_sightings c = 2 \<and> dc_ticksSinceSighting c \<le> 6
      | DsConfirmed \<Rightarrow> 3 \<le> dc_sightings c \<and> dc_ticksSinceSighting c \<le> 6
      | DsRecovered \<Rightarrow> 3 \<le> dc_sightings c \<and> dc_ticksSinceSighting c \<le> 6
      | DsStale \<Rightarrow> 6 < dc_ticksSinceSighting c \<and> dc_ticksSinceSighting c \<le> 14
      | DsLost \<Rightarrow> 14 < dc_ticksSinceSighting c)"

lemma wf_sighting_seen:
  assumes "wf_sighting c" "c' = c\<lparr>dc_sightings := dc_sightings c + 1, dc_ticksSinceSighting := 0, dc_viaRelay := v\<rparr>"
  shows "wf_sighting (c'\<lparr>dc_state := next_discovery c'\<rparr>)"
  using assms by (cases "dc_state c") (auto simp: wf_sighting_def next_discovery_def)

lemma wf_sighting_unseen:
  assumes "wf_sighting c" "c' = c\<lparr>dc_ticksSinceSighting := dc_ticksSinceSighting c + 1\<rparr>"
  shows "wf_sighting (c'\<lparr>dc_state := next_discovery c'\<rparr>)"
  using assms by (cases "dc_state c") (auto simp: wf_sighting_def next_discovery_def)

text \<open>A cell that is unknown was never sighted, so its counter is still beyond its initial value.\<close>

definition fresh_ticks :: "discovery_cell \<Rightarrow> bool" where
  "fresh_ticks c \<longleftrightarrow> (dc_state c = DsUnknown \<longrightarrow> 99 \<le> dc_ticksSinceSighting c)"

definition cell_ok :: "discovery_cell \<Rightarrow> bool" where
  "cell_ok c \<longleftrightarrow> wf_sighting c \<and> fresh_ticks c"

lemma cell_ok_seen:
  assumes "cell_ok c" "c' = c\<lparr>dc_sightings := dc_sightings c + 1, dc_ticksSinceSighting := 0, dc_viaRelay := v\<rparr>"
  shows "cell_ok (c'\<lparr>dc_state := next_discovery c'\<rparr>)"
  unfolding cell_ok_def
  using wf_sighting_seen [OF _ assms(2)] assms by (cases "dc_state c") (auto simp: cell_ok_def fresh_ticks_def next_discovery_def wf_sighting_def)

lemma cell_ok_unseen:
  assumes "cell_ok c" "c' = c\<lparr>dc_ticksSinceSighting := dc_ticksSinceSighting c + 1\<rparr>"
  shows "cell_ok (c'\<lparr>dc_state := next_discovery c'\<rparr>)"
  unfolding cell_ok_def
  using wf_sighting_unseen [OF _ assms(2)] assms by (cases "dc_state c") (auto simp: cell_ok_def fresh_ticks_def next_discovery_def)

lemma next_discovery_unknown:
  "cell_ok c \<Longrightarrow> c' = c\<lparr>dc_ticksSinceSighting := dc_ticksSinceSighting c + 1\<rparr> \<Longrightarrow> next_discovery c' = DsUnknown \<Longrightarrow>
     wf_sighting (c'\<lparr>dc_state := DsSuspected, dc_viaRelay := v\<rparr>)"
  by (cases "dc_state c") (auto simp: cell_ok_def wf_sighting_def fresh_ticks_def next_discovery_def split: if_splits)

lemma sight_target_ok:
  assumes "list_all cell_ok (js_values (fst ck))"
  shows "list_all cell_ok (js_values (fst (sight_target snap speed loss01 rng obs hops ck target)))"
proof (cases "target = obs")
  case False
  obtain cells k where ck: "ck = (cells, k)" by (cases ck)
  define c0 where "c0 = default_to (js_get cells (discovery_key obs target)) \<lparr> dc_observerId = obs, dc_targetId = target,
    dc_state = DsUnknown, dc_sightings = 0, dc_ticksSinceSighting = 99, dc_viaRelay = None \<rparr>"
  have c0: "cell_ok c0"
  proof (cases "js_get cells (discovery_key obs target)")
    case None
    then show ?thesis using False by (simp add: c0_def cell_ok_def wf_sighting_def fresh_ticks_def)
  next
    case (Some c)
    then have "c \<in> set (js_values cells)" by (force simp: js_values_def dest: map_of_SomeD)
    then show ?thesis using assms Some by (simp add: c0_def ck list_all_iff)
  qed
  have put: "list_all cell_ok (js_values (js_put (discovery_key obs target) c cells))" if "cell_ok c" for c
    using assms that by (auto simp: ck list_all_iff dest: js_values_update)
  show ?thesis
    unfolding ck sight_target_def if_not_P [OF False] prod.case Let_def c0_def [symmetric] fst_conv
    by (rule put) (use c0 cell_ok_seen [OF c0 refl] cell_ok_unseen [OF c0 refl] next_discovery_unknown [OF c0 refl] in
      \<open>auto simp: cell_ok_def fresh_ticks_def\<close>)
qed (use assms in \<open>simp add: sight_target_def\<close>)

lemma foldl_invariant: "P s \<Longrightarrow> (\<And>s x. P s \<Longrightarrow> P (f s x)) \<Longrightarrow> P (foldl f s xs)"
  by (induction xs arbitrary: s) auto

lemma observe_ok:
  "list_all cell_ok (js_values (fst ck)) \<Longrightarrow> list_all cell_ok (js_values (fst (observe snap speed loss01 rng ck obs)))"
  unfolding observe_def Let_def by (auto intro!: foldl_invariant [where P = "\<lambda>ck. list_all cell_ok (js_values (fst ck))"] sight_target_ok)

lemma discovery_run_ok: "list_all cell_ok (js_values (discovery_run ticks))"
  unfolding discovery_run_def
proof (rule foldl_invariant [where P = "\<lambda>cells. list_all cell_ok (js_values cells)"])
  fix cells :: "(ident \<times> ident, discovery_cell) jsmap" and t :: discovery_tick
  assume ok: "list_all cell_ok (js_values cells)"
  obtain snap observerIds stress loss01 rng where t: "t = (snap, observerIds, stress, loss01, rng)" by (metis prod_cases5)
  have "list_all cell_ok (js_values (fst (foldl (observe snap (discovery_speed stress) loss01 rng) (cells, 0) observerIds)))"
    by (rule foldl_invariant [where P = "\<lambda>ck. list_all cell_ok (js_values (fst ck))"]) (use ok observe_ok in auto)
  then show "list_all cell_ok (js_values (case t of (snap, observerIds, stress, loss01, rng) \<Rightarrow>
      advanceDiscoveryRegistry snap observerIds stress loss01 rng cells))"
    by (simp add: t advanceDiscoveryRegistry_def)
qed (simp add: js_values_def)

text \<open>
  After any run of the discovery registry the state of every cell agrees with its counters: no
  observer tracks itself, a confirmed or recovered peer was sighted three times and within the
  last six ticks, a stale peer was missed for 7 to 14 ticks and a lost one for more. A peer suspected
  from a whisper alone keeps a counter of 100 or more, so the next tick that misses it declares it lost.
\<close>

theorem discovery_states_agree: "list_all wf_sighting (js_values (discovery_run ticks))"
  using discovery_run_ok [of ticks] by (auto simp: list_all_iff cell_ok_def)

subsection \<open>Nominations\<close>

lemma nominate_score: "rn_score01 (nominate operatorId snap graph draw p) \<le> 1"
  by (simp add: nominate_def Let_def)

text \<open>
  At most four relays are nominated, best score first; none of them is offline and no score
  exceeds one.
\<close>

theorem relay_plan_bounded:
  "length (planRelays operatorId snap profiles graph rng) \<le> 4
   \<and> sorted_wrt (\<lambda>a b. rn_score01 b \<le> rn_score01 a) (planRelays operatorId snap profiles graph rng)
   \<and> list_all (\<lambda>r. rn_score01 r \<le> 1) (planRelays operatorId snap profiles graph rng)
   \<and> rn_nodeId ` set (planRelays operatorId snap profiles graph rng)
       \<subseteq> rf_nodeId ` {p \<in> set profiles. rf_connectivityState p \<noteq> LinkOffline}"
proof -
  let ?ns = "map (\<lambda>(k, p). nominate operatorId snap graph (rng k) p) (enumerate 0 (filter (\<lambda>p. rf_connectivityState p \<noteq> LinkOffline) profiles))"
  have "sorted_wrt (\<lambda>a b. rn_score01 b \<le> rn_score01 a) (js_sort (by_desc rn_score01) ?ns)"
    using descending.sorted_js_sort [of rn_score01 ?ns] by (rule sorted_wrt_mono_rel [rotated]) (auto simp: by_desc_def)
  then have "sorted_wrt (\<lambda>a b. rn_score01 b \<le> rn_score01 a) (take 4 (js_sort (by_desc rn_score01) ?ns))"
    by (rule sorted_wrt_take)
  moreover have "rn_nodeId r \<in> rf_nodeId ` {p \<in> set profiles. rf_connectivityState p \<noteq> LinkOffline} \<and> rn_score01 r \<le> 1"
    if "r \<in> set (take 4 (js_sort (by_desc rn_score01) ?ns))" for r
  proof -
    from that have "r \<in> set ?ns" by (auto dest: in_set_takeD)
    then obtain k p where kp: "(k, p) \<in> set (enumerate 0 (filter (\<lambda>p. rf_connectivityState p \<noteq> LinkOffline) profiles))"
      "r = nominate operatorId snap graph (rng k) p" by auto
    from kp(1) have "p \<in> set (filter (\<lambda>p. rf_connectivityState p \<noteq> LinkOffline) profiles)" by (auto simp: enumerate_eq_zip dest: set_zip_rightD)
    then show ?thesis using kp(2) nominate_score by (auto simp: nominate_def Let_def)
  qed
  ultimately show ?thesis unfolding planRelays_def Let_def by (auto simp: list_all_iff)
qed

end
