(* ===== verification/HashChains.thy ===== *)
theory HashChains
  imports Prelude
begin

section \<open>Hash chains and Merkle roots\<close>

text \<open>
  Models \<open>hash-chain.ts\<close>, \<open>event-types.ts\<close> and the class \<open>MissionLedger\<close> of \<open>mission-ledger.ts\<close> in
  \<open>src/src/backend/vertex\<close>, and the class \<open>MeshEventLedger\<close> of \<open>src/src/vertex2/eventLedger.ts\<close>.
  SHA-256 in hexadecimal is the parameter \<open>H\<close> and the text of a number the parameter \<open>ns\<close>. What the two ledgers share is the locale
  \<open>chained_log\<close>. The lemmas show when appending keeps a chain valid and what a Merkle root pins.
\<close>

subsection \<open>Stable text and Merkle root\<close>

primrec stable_string :: "(real \<Rightarrow> string) \<Rightarrow> json \<Rightarrow> string" where
  "stable_string ns JNull = ''null''"
| "stable_string ns (JBool b) = (if b then ''true'' else ''false'')"
| "stable_string ns (JNum r) = ns r"
| "stable_string ns (JStr s) = json_quote s"
| "stable_string ns (JArr xs) = ''['' @ str_join '','' (map (stable_string ns) xs) @ '']''"
| "stable_string ns (JObj kvs) = ''{'' @ str_join '','' (map (\<lambda>kv. json_quote (fst kv) @ '':'' @ snd kv)
       (sort_key fst (map (map_prod id (stable_string ns)) kvs))) @ ''}''"

fun merkle_level :: "(string \<Rightarrow> string) \<Rightarrow> string list \<Rightarrow> string list" where
  "merkle_level H [] = []"
| "merkle_level H [x] = [H (x @ ''|'' @ x)]"
| "merkle_level H (x # y # rest) = H (x @ ''|'' @ y) # merkle_level H rest"

lemma length_merkle_level: "length (merkle_level H xs) = (length xs + 1) div 2"
  by (induction H xs rule: merkle_level.induct) auto

function merkle_loop :: "(string \<Rightarrow> string) \<Rightarrow> string list \<Rightarrow> string list" where
  "merkle_loop H level = (if length level > 1 then merkle_loop H (merkle_level H level) else level)"
  by pat_completeness auto
termination by (relation "measure (\<lambda>(H, level). length level)") (auto simp: length_merkle_level)

declare merkle_loop.simps [simp del]

definition merkleRootHex :: "(string \<Rightarrow> string) \<Rightarrow> string list \<Rightarrow> string" where
  "merkleRootHex H leaves = (if leaves = [] then H ''merkle|empty'' else merkle_loop H leaves ! 0)"

subsection \<open>Event kinds\<close>

definition VERTEX_LEDGER_EVENT_TYPES :: "string list" where
  "VERTEX_LEDGER_EVENT_TYPES = [''mission_created'', ''phase_transition'', ''node_join'', ''role_change'', ''target_discovered'',
     ''target_confirmed'', ''task_bid'', ''task_assigned'', ''task_completed'', ''task_reassigned'', ''extraction_confirmed'',
     ''safety_alert'', ''recovery_checkpoint'', ''blackout_entered'', ''blackout_cleared'', ''sync_reconciled'',
     ''local_autonomy_activated'', ''tentative_phase'']"

definition LATTICE_LEDGER_EVENT_TYPES :: "string list" where
  "LATTICE_LEDGER_EVENT_TYPES = [''node_heartbeat'', ''node_offline'', ''capacity_score_update'', ''reputation_update'']"

definition ARC_LEDGER_EVENT_TYPES :: "string list" where
  "ARC_LEDGER_EVENT_TYPES = [''settlement_manifest_sealed'', ''proof_anchored'']"

definition isVertexEvent :: "string \<Rightarrow> bool" where
  "isVertexEvent t \<longleftrightarrow> t \<in> set VERTEX_LEDGER_EVENT_TYPES"

subsection \<open>The contract of a chained log\<close>

datatype chain_report = ChainOk | ChainBroken nat string

locale chained_log =
  fixes prev_of :: "'e \<Rightarrow> string" and seal_of :: "'e \<Rightarrow> string" and digest :: "string \<Rightarrow> 'e \<Rightarrow> string"
    and verify :: "string \<Rightarrow> nat \<Rightarrow> 'e list \<Rightarrow> chain_report"
  assumes verify_Nil: "verify p i [] = ChainOk"
    and verify_Cons: "verify p i (e # es) =
      (if prev_of e \<noteq> p then ChainBroken i ''previous_link''
       else if digest p e \<noteq> seal_of e then ChainBroken i ''event_hash''
       else verify (seal_of e) (i + 1) es)"
begin

definition chain_tail :: "string \<Rightarrow> 'e list \<Rightarrow> string" where
  "chain_tail p es = (if es = [] then p else seal_of (last es))"

lemma verify_snoc:
  "verify p i (es @ [e]) = ChainOk \<longleftrightarrow>
     verify p i es = ChainOk \<and> prev_of e = chain_tail p es \<and> digest (chain_tail p es) e = seal_of e"
  by (induction es arbitrary: p i) (simp_all add: verify_Nil verify_Cons chain_tail_def)

text \<open>A broken chain stays broken, at the same place and for the same reason.\<close>

lemma verify_append_broken: "verify p i es = ChainBroken k why \<Longrightarrow> verify p i (es @ fs) = ChainBroken k why"
  by (induction es arbitrary: p i) (simp_all add: verify_Nil verify_Cons split: if_splits)

lemma verify_append_link:
  "verify p i es = ChainOk \<Longrightarrow> prev_of e \<noteq> chain_tail p es \<Longrightarrow> verify p i (es @ e # fs) = ChainBroken (i + length es) ''previous_link''"
  by (induction es arbitrary: p i) (simp_all add: verify_Nil verify_Cons chain_tail_def split: if_splits)

end

subsection \<open>The mission ledger\<close>

datatype control_plane = PlaneVertex | PlaneLattice | PlaneArc

fun plane_str :: "control_plane \<Rightarrow> string" where
  "plane_str PlaneVertex = ''vertex''"
| "plane_str PlaneLattice = ''lattice''"
| "plane_str PlaneArc = ''arc''"

record mission_event_input =
  mi_missionId :: ident
  mi_actorId :: ident
  mi_eventType :: string
  mi_plane :: control_plane
  mi_payload :: obj
  mi_timestamp :: timestamp
  mi_previousHash :: string

record chain_event = mission_event_input +
  mi_eventHash :: string

definition event_core :: "'a mission_event_input_scheme \<Rightarrow> json" where
  "event_core e = JObj [(''missionId'', JStr (mi_missionId e)), (''actorId'', JStr (mi_actorId e)),
     (''eventType'', JStr (mi_eventType e)), (''plane'', JStr (plane_str (mi_plane e))),
     (''payload'', JObj (mi_payload e)), (''timestamp'', jint (mi_timestamp e))]"

definition computeEventHash :: "(string \<Rightarrow> string) \<Rightarrow> (real \<Rightarrow> string) \<Rightarrow> string \<Rightarrow> json \<Rightarrow> string" where
  "computeEventHash H ns previousHash core = H (previousHash @ ''|'' @ stable_string ns core)"

type_synonym mission_ledger = "chain_event list"

definition ledger_head :: "mission_ledger \<Rightarrow> chain_event option" where
  "ledger_head lg = (if lg = [] then None else Some (last lg))"

definition tailHash :: "mission_ledger \<Rightarrow> string" where
  "tailHash lg = default_to (map_option mi_eventHash (ledger_head lg)) ''genesis''"

definition eventsForMission :: "ident \<Rightarrow> mission_ledger \<Rightarrow> chain_event list" where
  "eventsForMission missionId lg = filter (\<lambda>e. mi_missionId e = missionId) lg"

definition missionTailHash :: "ident \<Rightarrow> mission_ledger \<Rightarrow> string" where
  "missionTailHash missionId lg =
     (let mine = eventsForMission missionId lg in if mine \<noteq> [] then mi_eventHash (last mine) else ''genesis'')"

definition eventsForNodeInMission :: "ident \<Rightarrow> ident \<Rightarrow> mission_ledger \<Rightarrow> chain_event list" where
  "eventsForNodeInMission nodeId missionId lg =
     filter (\<lambda>e. if mi_missionId e \<noteq> missionId then False else if mi_actorId e = nodeId then True
                 else js_get (mi_payload e) ''nodeId'' = Some (JStr nodeId)) lg"

definition append_mission_event :: "(string \<Rightarrow> string) \<Rightarrow> (real \<Rightarrow> string) \<Rightarrow> mission_event_input \<Rightarrow> mission_ledger \<Rightarrow>
    (string + chain_event) \<times> mission_ledger" where
  "append_mission_event H ns input lg =
     (let prev = mi_previousHash input;
          full = mission_event_input.extend input \<lparr> mi_eventHash = computeEventHash H ns prev (event_core input) \<rparr>
      in if mi_previousHash full \<noteq> prev then (Inl ''previousHash_mismatch'', lg)
         else (Inr full, lg @ [full]))"

fun verify_events :: "(string \<Rightarrow> string) \<Rightarrow> (real \<Rightarrow> string) \<Rightarrow> string \<Rightarrow> nat \<Rightarrow> mission_ledger \<Rightarrow> chain_report" where
  "verify_events H ns prev i [] = ChainOk"
| "verify_events H ns prev i (e # es) =
     (if mi_previousHash e \<noteq> prev then ChainBroken i ''previous_link''
      else let expected = computeEventHash H ns prev (event_core e)
           in if expected \<noteq> mi_eventHash e then ChainBroken i ''event_hash''
              else verify_events H ns (mi_eventHash e) (i + 1) es)"

definition verifyChain :: "(string \<Rightarrow> string) \<Rightarrow> (real \<Rightarrow> string) \<Rightarrow> mission_ledger \<Rightarrow> chain_report" where
  "verifyChain H ns lg = verify_events H ns ''genesis'' 0 lg"

interpretation mission_chain: chained_log mi_previousHash mi_eventHash "\<lambda>p e. computeEventHash H ns p (event_core e)"
  "verify_events H ns" for H ns
  by unfold_locales simp_all

lemma mission_chain_tail: "mission_chain.chain_tail ''genesis'' lg = tailHash lg"
  by (simp add: mission_chain.chain_tail_def tailHash_def ledger_head_def)

lemma append_mission_event_snd:
  "append_mission_event H ns input lg =
     (let full = mission_event_input.extend input \<lparr> mi_eventHash = computeEventHash H ns (mi_previousHash input) (event_core input) \<rparr>
      in (Inr full, lg @ [full]))"
  by (simp add: append_mission_event_def mission_event_input.defs Let_def)

subsection \<open>The mesh event ledger\<close>

datatype mesh_event_type = MePeerDiscovered | MeHeartbeatMesh | MeTopologyChanged | MeProposalCreated | MeTaskMeshOpened
  | MeTaskMeshAssigned | MeRoleMeshHandoff | MeConsensusVote | MeConsensusCommitted | MeConsensusRejected | MePacketLossSim
  | MeDelaySpike | MePartitionStart | MePartitionEnd | MeRecoverySync | MeCheckpointSaved | MeReplayCommit

fun mesh_event_str :: "mesh_event_type \<Rightarrow> string" where
  "mesh_event_str MePeerDiscovered = ''peer_discovered''"
| "mesh_event_str MeHeartbeatMesh = ''heartbeat_mesh''"
| "mesh_event_str MeTopologyChanged = ''topology_changed''"
| "mesh_event_str MeProposalCreated = ''proposal_created''"
| "mesh_event_str MeTaskMeshOpened = ''task_mesh_opened''"
| "mesh_event_str MeTaskMeshAssigned = ''task_mesh_assigned''"
| "mesh_event_str MeRoleMeshHandoff = ''role_mesh_handoff''"
| "mesh_event_str MeConsensusVote = ''consensus_vote''"
| "mesh_event_str MeConsensusCommitted = ''consensus_committed''"
| "mesh_event_str MeConsensusRejected = ''consensus_rejected''"
| "mesh_event_str MePacketLossSim = ''packet_loss_sim''"
| "mesh_event_str MeDelaySpike = ''delay_spike''"
| "mesh_event_str MePartitionStart = ''partition_start''"
| "mesh_event_str MePartitionEnd = ''partition_end''"
| "mesh_event_str MeRecoverySync = ''recovery_sync''"
| "mesh_event_str MeCheckpointSaved = ''checkpoint_saved''"
| "mesh_event_str MeReplayCommit = ''replay_commit''"

datatype commitment_status = CsPending | CsCommitted | CsRejected | CsSuperseded

fun commitment_str :: "commitment_status \<Rightarrow> string" where
  "commitment_str CsPending = ''pending''"
| "commitment_str CsCommitted = ''committed''"
| "commitment_str CsRejected = ''rejected''"
| "commitment_str CsSuperseded = ''superseded''"

datatype source_label = SlVertex | SlLattice | SlMeshnet | SlArc

fun source_label_str :: "source_label \<Rightarrow> string" where
  "source_label_str SlVertex = ''vertex''"
| "source_label_str SlLattice = ''lattice''"
| "source_label_str SlMeshnet = ''meshnet''"
| "source_label_str SlArc = ''arc''"

record mesh_event =
  mv_id :: ident
  mv_timestamp :: timestamp
  mv_missionId :: ident
  mv_actorPeerId :: ident
  mv_previousHash :: string
  mv_eventHash :: string
  mv_eventType :: mesh_event_type
  mv_payload :: obj
  mv_sourceLabel :: source_label
  mv_commitmentStatus :: commitment_status
  mv_proofHint :: string

text \<open>\<open>AppendMeshEventInput\<close>: the identifier and the proof hint are optional.\<close>

record mesh_event_input =
  mn_id :: "ident option"
  mn_timestamp :: timestamp
  mn_missionId :: ident
  mn_actorPeerId :: ident
  mn_previousHash :: string
  mn_eventType :: mesh_event_type
  mn_payload :: obj
  mn_sourceLabel :: source_label
  mn_commitmentStatus :: commitment_status
  mn_proofHint :: "string option"

record mesh_ledger =
  mg_events :: "mesh_event list"
  mg_serial :: nat

definition mesh_core :: "mesh_event \<Rightarrow> json" where
  "mesh_core e = JObj [(''timestamp'', jint (mv_timestamp e)), (''missionId'', JStr (mv_missionId e)),
     (''actorPeerId'', JStr (mv_actorPeerId e)), (''eventType'', JStr (mesh_event_str (mv_eventType e))),
     (''payload'', JObj (mv_payload e)), (''sourceLabel'', JStr (source_label_str (mv_sourceLabel e))),
     (''commitmentStatus'', JStr (commitment_str (mv_commitmentStatus e))), (''proofHint'', JStr (mv_proofHint e))]"

definition hashFor :: "(string \<Rightarrow> string) \<Rightarrow> (real \<Rightarrow> string) \<Rightarrow> string \<Rightarrow> mesh_event \<Rightarrow> string" where
  "hashFor H ns previousHash e = H (previousHash @ ''|'' @ stable_string ns (mesh_core e))"

definition mesh_tailHash :: "mesh_ledger \<Rightarrow> string" where
  "mesh_tailHash lg = (if mg_events lg = [] then ''genesis'' else mv_eventHash (last (mg_events lg)))"

definition append_mesh_event :: "(string \<Rightarrow> string) \<Rightarrow> (real \<Rightarrow> string) \<Rightarrow> mesh_event_input \<Rightarrow> mesh_ledger \<Rightarrow> mesh_event \<times> mesh_ledger" where
  "append_mesh_event H ns input lg =
     (let (i, serial) = (case mn_id input of Some i \<Rightarrow> (i, mg_serial lg)
            | None \<Rightarrow> (''mesh-'' @ show_nat (mg_serial lg), mg_serial lg + 1));
          prev = mn_previousHash input;
          hint = (case mn_proofHint input of Some h \<Rightarrow> h
            | None \<Rightarrow> take 24 (H (''poc|'' @ prev @ ''|'' @ mesh_event_str (mn_eventType input) @ ''|''
                        @ stable_string ns (JObj (mn_payload input)))));
          base = \<lparr> mv_id = i, mv_timestamp = mn_timestamp input, mv_missionId = mn_missionId input,
            mv_actorPeerId = mn_actorPeerId input, mv_previousHash = prev, mv_eventHash = [],
            mv_eventType = mn_eventType input, mv_payload = mn_payload input, mv_sourceLabel = mn_sourceLabel input,
            mv_commitmentStatus = mn_commitmentStatus input, mv_proofHint = hint \<rparr>;
          full = base\<lparr>mv_eventHash := hashFor H ns prev base\<rparr>
      in (full, \<lparr> mg_events = mg_events lg @ [full], mg_serial = serial \<rparr>))"

fun verify_mesh_events :: "(string \<Rightarrow> string) \<Rightarrow> (real \<Rightarrow> string) \<Rightarrow> string \<Rightarrow> nat \<Rightarrow> mesh_event list \<Rightarrow> chain_report" where
  "verify_mesh_events H ns prev i [] = ChainOk"
| "verify_mesh_events H ns prev i (e # es) =
     (if mv_previousHash e \<noteq> prev then ChainBroken i ''previous_link''
      else if hashFor H ns prev e \<noteq> mv_eventHash e then ChainBroken i ''event_hash''
      else verify_mesh_events H ns (mv_eventHash e) (i + 1) es)"

definition mesh_verifyChain :: "(string \<Rightarrow> string) \<Rightarrow> (real \<Rightarrow> string) \<Rightarrow> mesh_ledger \<Rightarrow> chain_report" where
  "mesh_verifyChain H ns lg = verify_mesh_events H ns ''genesis'' 0 (mg_events lg)"

definition statusFor :: "mesh_event_type \<Rightarrow> commitment_status" where
  "statusFor t =
     (if t = MeConsensusCommitted \<or> t = MeReplayCommit \<or> t = MeCheckpointSaved \<or> t = MeTaskMeshAssigned then CsCommitted
      else if t = MeConsensusRejected then CsRejected else CsPending)"

interpretation mesh_chain: chained_log mv_previousHash mv_eventHash "hashFor H ns" "verify_mesh_events H ns" for H ns
  by unfold_locales simp_all

lemma mesh_chain_tail: "mesh_chain.chain_tail ''genesis'' (mg_events lg) = mesh_tailHash lg"
  by (simp add: mesh_chain.chain_tail_def mesh_tailHash_def)

subsection \<open>What appending and a Merkle root guarantee\<close>

text \<open>
  Appending to the mission ledger never fails, whatever previous hash the caller passes: the
  mismatch check compares the input with itself. The chain verifies afterwards exactly when it verified before
  and the caller passed the hash of the last event.
\<close>

theorem mission_append_verifies_iff:
  "isl (fst (append_mission_event H ns input lg)) = False
   \<and> (verifyChain H ns (snd (append_mission_event H ns input lg)) = ChainOk
      \<longleftrightarrow> verifyChain H ns lg = ChainOk \<and> mi_previousHash input = tailHash lg)"
  unfolding append_mission_event_snd verifyChain_def Let_def fst_conv snd_conv mission_chain.verify_snoc mission_chain_tail
  by (auto simp: mission_event_input.defs event_core_def)

lemma mesh_append_fields:
  "mg_events (snd (append_mesh_event H ns input lg)) = mg_events lg @ [fst (append_mesh_event H ns input lg)]"
  "mv_previousHash (fst (append_mesh_event H ns input lg)) = mn_previousHash input"
  "mv_eventHash (fst (append_mesh_event H ns input lg)) = hashFor H ns (mn_previousHash input) (fst (append_mesh_event H ns input lg))"
  by (simp_all add: append_mesh_event_def Let_def hashFor_def mesh_core_def split_beta)

text \<open>
  The mesh ledger verifies after an append exactly when it verified before and the caller passed
  the current tail hash; an append with another previous hash to a ledger that verified is reported as a broken link at its own position, and
  no later append repairs it.
\<close>

theorem mesh_append_verifies_iff:
  "mesh_verifyChain H ns (snd (append_mesh_event H ns input lg)) =
     (if mn_previousHash input = mesh_tailHash lg \<or> mesh_verifyChain H ns lg \<noteq> ChainOk then mesh_verifyChain H ns lg
      else ChainBroken (length (mg_events lg)) ''previous_link'')"
proof (cases "mesh_verifyChain H ns lg")
  case ChainOk
  show ?thesis
  proof (cases "mn_previousHash input = mesh_tailHash lg")
    case True
    then have "mesh_verifyChain H ns (snd (append_mesh_event H ns input lg)) = ChainOk"
      using ChainOk unfolding mesh_verifyChain_def mesh_append_fields(1) mesh_chain.verify_snoc mesh_chain_tail
      by (simp add: mesh_append_fields(2,3))
    with True ChainOk show ?thesis by simp
  next
    case False
    then show ?thesis
      using ChainOk mesh_chain.verify_append_link [of H ns "''genesis''" 0 "mg_events lg" "fst (append_mesh_event H ns input lg)" "[]"]
      by (simp add: mesh_verifyChain_def mesh_append_fields(1,2) mesh_chain_tail)
  qed
next
  case (ChainBroken k why)
  then show ?thesis
    using mesh_chain.verify_append_broken [of H ns "''genesis''" 0 "mg_events lg" k why "[fst (append_mesh_event H ns input lg)]"]
    by (simp add: mesh_verifyChain_def mesh_append_fields(1))
qed

subsection \<open>Merkle roots\<close>

definition collides :: "(string \<Rightarrow> string) \<Rightarrow> bool" where
  "collides H \<longleftrightarrow> (\<exists>a b. a \<noteq> b \<and> H a = H b)"

definition bar_free :: "string list \<Rightarrow> bool" where
  "bar_free xs \<longleftrightarrow> list_all (\<lambda>x. CHR ''|'' \<notin> set x) xs"

lemma bar_free_level: "(\<And>s. CHR ''|'' \<notin> set (H s)) \<Longrightarrow> bar_free (merkle_level H xs)"
  by (induction H xs rule: merkle_level.induct) (simp_all add: bar_free_def)

lemma merkle_pair:
  assumes "H (x @ ''|'' @ y) = H (x' @ ''|'' @ y')" "CHR ''|'' \<notin> set x" "CHR ''|'' \<notin> set x'" "\<not> collides H"
  shows "x = x' \<and> y = y'"
proof -
  have "x @ ''|'' @ y = x' @ ''|'' @ y'" using assms(1,4) by (auto simp: collides_def)
  then show ?thesis using split_at_unique [of x "CHR ''|''" y x' y'] assms(2,3) by simp
qed

lemma merkle_level_inj:
  assumes "\<not> collides H"
  shows "length xs = length ys \<Longrightarrow> bar_free xs \<Longrightarrow> bar_free ys \<Longrightarrow> merkle_level H xs = merkle_level H ys \<Longrightarrow> xs = ys"
proof (induction xs arbitrary: ys rule: induct_list012)
  case (2 x)
  then obtain y where "ys = [y]" by (cases ys) auto
  with 2 show ?case using merkle_pair [OF _ _ _ assms, of x x y y] by (simp add: bar_free_def)
next
  case (3 x y rest)
  then obtain x' ys' where "ys = x' # ys'" by (cases ys) auto
  with 3 obtain y' rest' where ys: "ys = x' # y' # rest'" by (cases ys') auto
  with 3 have "H (x @ ''|'' @ y) = H (x' @ ''|'' @ y')" "rest = rest'" by (simp_all add: bar_free_def)
  with 3(4,5) show ?case using merkle_pair [OF _ _ _ assms, of x y x' y'] by (simp add: ys bar_free_def)
qed simp

lemma merkle_loop_inj:
  assumes "\<not> collides H" "\<And>s. CHR ''|'' \<notin> set (H s)"
  shows "length xs = length ys \<Longrightarrow> bar_free xs \<Longrightarrow> bar_free ys \<Longrightarrow> merkle_loop H xs = merkle_loop H ys \<Longrightarrow> xs = ys"
proof (induction "length xs" arbitrary: xs ys rule: less_induct)
  case less
  show ?case
  proof (cases "length xs > 1")
    case True
    then have "merkle_loop H (merkle_level H xs) = merkle_loop H (merkle_level H ys)"
      using less.prems(1,4) by (simp add: merkle_loop.simps [of H xs] merkle_loop.simps [of H ys])
    moreover have "length (merkle_level H xs) < length xs" "length (merkle_level H xs) = length (merkle_level H ys)"
      using True less.prems(1) by (auto simp: length_merkle_level)
    ultimately have "merkle_level H xs = merkle_level H ys"
      using less.hyps [of "merkle_level H xs" "merkle_level H ys"] bar_free_level [of H, OF assms(2)] by blast
    with merkle_level_inj [OF assms(1)] less.prems show ?thesis by blast
  qed (use less.prems in \<open>simp add: merkle_loop.simps [of H xs] merkle_loop.simps [of H ys]\<close>)
qed

lemma length_merkle_loop: "xs \<noteq> [] \<Longrightarrow> length (merkle_loop H xs) = 1"
proof (induction H xs rule: merkle_loop.induct)
  case (1 H level)
  show ?case
  proof (cases "length level > 1")
    case True
    then have "length (merkle_level H level) > 0" by (simp add: length_merkle_level)
    then have "merkle_level H level \<noteq> []" by blast
    with 1 True show ?thesis by (simp add: merkle_loop.simps [of H level])
  next
    case False
    with "1.prems" show ?thesis by (subst merkle_loop.simps) (cases level, auto)
  qed
qed

text \<open>
  A Merkle root pins its leaves: if the hash has no collision and no digest contains the
  separator, two lists of digests of the same length with the same root are the same list.
\<close>

theorem merkle_pins_leaves:
  assumes "\<not> collides H" "\<And>s. CHR ''|'' \<notin> set (H s)" "length xs = length ys" "bar_free xs" "bar_free ys"
    "merkleRootHex H xs = merkleRootHex H ys"
  shows "xs = ys"
proof (cases "xs = []")
  case False
  with assms(3) have "ys \<noteq> []" by auto
  with False obtain x y where xy: "merkle_loop H xs = [x]" "merkle_loop H ys = [y]"
    using length_merkle_loop by (metis One_nat_def length_0_conv length_Suc_conv)
  then have "merkle_loop H xs = merkle_loop H ys"
    using assms(6) False \<open>ys \<noteq> []\<close> by (simp add: merkleRootHex_def)
  with assms(3-5) show ?thesis using merkle_loop_inj [OF assms(1,2)] by blast
qed (use assms(3) in simp)

text \<open>An injective encoding whose values avoid the separator, to instantiate the hash.\<close>

definition toy_hash :: "string \<Rightarrow> string" where
  "toy_hash s = concat (map (\<lambda>c. if c = CHR ''|'' then ''a0'' else if c = CHR ''a'' then ''a1'' else [c]) s)"

lemma toy_hash_inj: "toy_hash s = toy_hash t \<Longrightarrow> s = t"
proof (induction s arbitrary: t)
  case Nil
  then show ?case by (cases t) (auto simp: toy_hash_def split: if_splits)
next
  case (Cons c s)
  then obtain d t' where t: "t = d # t'" by (cases t) (auto simp: toy_hash_def split: if_splits)
  with Cons.prems have "c = d \<and> toy_hash s = toy_hash t'" by (auto simp: toy_hash_def split: if_splits)
  with Cons.IH [of t'] t show ?case by simp
qed

theorem merkle_pins_leaves_witness: "[''11'', ''22'', ''33''] = [''11'', ''22'', ''33'']"
proof (rule merkle_pins_leaves [of toy_hash])
  show "\<not> collides toy_hash" using toy_hash_inj by (auto simp: collides_def)
  show "CHR ''|'' \<notin> set (toy_hash s)" for s by (auto simp: toy_hash_def split: if_splits)
qed (simp_all add: bar_free_def)

lemma merkle_level_duplicate: "odd (length xs) \<Longrightarrow> merkle_level H (xs @ [last xs]) = merkle_level H xs"
  by (induction xs rule: induct_list012) auto

lemma even_pairs: "even (length (concat (map (\<lambda>p. [fst p, snd p]) ps)))"
  by (induction ps) auto

text \<open>
  The number of leaves is not pinned: repeating the last of an odd number of leaves (three or
  more) leaves the root as it was, so two different lists share a root under every hash.
\<close>

theorem merkle_root_ambiguous:
  "merkleRootHex H (a # b # concat (map (\<lambda>p. [fst p, snd p]) ps) @ [c, c]) =
   merkleRootHex H (a # b # concat (map (\<lambda>p. [fst p, snd p]) ps) @ [c])"
proof -
  let ?xs = "a # b # concat (map (\<lambda>p. [fst p, snd p]) ps) @ [c]"
  have "merkle_level H (?xs @ [last ?xs]) = merkle_level H ?xs"
    by (rule merkle_level_duplicate) (use even_pairs [of ps] in simp)
  then have "merkle_level H (?xs @ [c]) = merkle_level H ?xs" by simp
  then have "merkle_loop H (?xs @ [c]) = merkle_loop H ?xs"
    by (simp only: merkle_loop.simps [of H "?xs @ [c]"] merkle_loop.simps [of H ?xs]) simp
  then show ?thesis by (simp add: merkleRootHex_def)
qed

end
