(* ===== verification/MeshQueues.thy ===== *)
theory MeshQueues
  imports MeshViews
begin

section \<open>Retry queues, recovery buffers and mesh consensus\<close>

text \<open>
  Models \<open>retryQueue.ts\<close>, \<open>recoveryManager.ts\<close>, \<open>checkpointStore.ts\<close> and \<open>consensusEngine.ts\<close> of
  \<open>src/src/vertex2\<close>, and \<open>retryQueue.ts\<close>, \<open>recoveryManager.ts\<close> and \<open>stateMerger.ts\<close> of \<open>src/src/mesh\<close>. The callbacks of a
  drain are arguments, and a random draw is an argument of the call that makes it. The lemmas show that a drain loses nothing
  and makes progress on every due item, that buffers keep the newest operations, and what the
  vote count of a proposal guarantees.
\<close>

subsection \<open>Retry queues\<close>

record 'a retry_env =
  re_id :: ident
  re_deliverAtMs :: timestamp
  re_attempts :: nat
  re_payload :: 'a

record 'a retry_queue =
  rq_items :: "'a retry_env list"
  rq_serial :: nat

definition new_retry_queue :: "'a retry_queue" where
  "new_retry_queue = \<lparr> rq_items = [], rq_serial = 1 \<rparr>"

definition enqueue_retry :: "timestamp \<Rightarrow> nat option \<Rightarrow> 'a \<Rightarrow> 'a retry_queue \<Rightarrow> 'a retry_env \<times> 'a retry_queue" where
  "enqueue_retry deliverAt attempts payload q =
     (let env = \<lparr> re_id = ''rq-'' @ show_nat (rq_serial q), re_deliverAtMs = deliverAt,
            re_attempts = default_to attempts 0, re_payload = payload \<rparr>
      in (env, \<lparr> rq_items = rq_items q @ [env], rq_serial = rq_serial q + 1 \<rparr>))"

record 'a drain_policy =
  dp_shouldDrop :: "'a retry_env \<Rightarrow> bool"
  dp_backoffMs :: "'a retry_env \<Rightarrow> int"
  dp_maxAttempts :: nat

record 'a drain_result =
  dr_ready :: "'a retry_env list"
  dr_remain :: "'a retry_env list"
  dr_rescheduled :: nat
  dr_dead :: nat

text \<open>The body of the loop over the items.\<close>

definition drain_item :: "timestamp \<Rightarrow> 'a drain_policy \<Rightarrow> 'a drain_result \<Rightarrow> 'a retry_env \<Rightarrow> 'a drain_result" where
  "drain_item now pol r env =
     (if now < re_deliverAtMs env then r\<lparr>dr_remain := dr_remain r @ [env]\<rparr>
      else if dp_shouldDrop pol env
      then (if re_attempts env + 1 \<ge> dp_maxAttempts pol then r\<lparr>dr_dead := dr_dead r + 1\<rparr>
            else r\<lparr> dr_rescheduled := dr_rescheduled r + 1,
                   dr_remain := dr_remain r @ [env\<lparr> re_attempts := re_attempts env + 1,
                     re_deliverAtMs := now + dp_backoffMs pol env \<rparr>] \<rparr>)
      else r\<lparr>dr_ready := dr_ready r @ [env]\<rparr>)"

definition drain_items :: "timestamp \<Rightarrow> 'a drain_policy \<Rightarrow> 'a retry_env list \<Rightarrow> 'a drain_result" where
  "drain_items now pol items =
     foldl (drain_item now pol) \<lparr> dr_ready = [], dr_remain = [], dr_rescheduled = 0, dr_dead = 0 \<rparr> items"

definition drain_retry :: "timestamp \<Rightarrow> 'a drain_policy \<Rightarrow> 'a retry_queue \<Rightarrow> 'a drain_result \<times> 'a retry_queue" where
  "drain_retry now pol q = (let r = drain_items now pol (rq_items q) in (r, q\<lparr>rq_items := dr_remain r\<rparr>))"

definition retry_depth :: "'a retry_queue \<Rightarrow> nat" where
  "retry_depth q = length (rq_items q)"

text \<open>The mesh queue is the same without identifiers; its deadline test is written the other way round.\<close>

record 'a mesh_retry_env =
  mr_deliverAtMs :: timestamp
  mr_attempts :: nat
  mr_payload :: 'a

definition enqueue_mesh :: "timestamp \<Rightarrow> nat option \<Rightarrow> 'a \<Rightarrow> 'a mesh_retry_env list \<Rightarrow> 'a mesh_retry_env list" where
  "enqueue_mesh deliverAt attempts payload q =
     q @ [\<lparr> mr_deliverAtMs = deliverAt, mr_attempts = default_to attempts 0, mr_payload = payload \<rparr>]"

text \<open>The result is the ready items, the items kept, the dead and the requeued count.\<close>

type_synonym 'a mesh_drain = "'a mesh_retry_env list \<times> 'a mesh_retry_env list \<times> nat \<times> nat"

definition drain_mesh_item :: "timestamp \<Rightarrow> ('a mesh_retry_env \<Rightarrow> bool) \<Rightarrow> ('a mesh_retry_env \<Rightarrow> int) \<Rightarrow> nat \<Rightarrow> 'a mesh_drain \<Rightarrow>
    'a mesh_retry_env \<Rightarrow> 'a mesh_drain" where
  "drain_mesh_item now shouldDrop backoff maxAttempts r env =
     (let (ready, next, dead, requeued) = r
      in if mr_deliverAtMs env > now then (ready, next @ [env], dead, requeued)
         else if shouldDrop env
         then (if mr_attempts env + 1 \<ge> maxAttempts then (ready, next, dead + 1, requeued)
               else (ready, next @ [env\<lparr> mr_attempts := mr_attempts env + 1, mr_deliverAtMs := now + backoff env \<rparr>],
                     dead, requeued + 1))
         else (ready @ [env], next, dead, requeued))"

definition drain_mesh :: "timestamp \<Rightarrow> ('a mesh_retry_env \<Rightarrow> bool) \<Rightarrow> ('a mesh_retry_env \<Rightarrow> int) \<Rightarrow> nat \<Rightarrow> 'a mesh_retry_env list \<Rightarrow> 'a mesh_drain" where
  "drain_mesh now shouldDrop backoff maxAttempts q =
     foldl (drain_mesh_item now shouldDrop backoff maxAttempts) ([], [], 0, 0) q"

subsection \<open>Recovery buffers and checkpoints\<close>

record buffered_op =
  bo_atMs :: timestamp
  bo_kind :: string
  bo_payload :: obj

type_synonym op_buffers = "(ident, buffered_op list) jsmap"

definition bufferForPeer :: "ident \<Rightarrow> buffered_op \<Rightarrow> op_buffers \<Rightarrow> op_buffers" where
  "bufferForPeer peerId opn bs = js_put peerId (slice_tail 120 (default_to (js_get bs peerId) [] @ [opn])) bs"

definition drainPeer :: "ident \<Rightarrow> op_buffers \<Rightarrow> buffered_op list \<times> op_buffers" where
  "drainPeer peerId bs = (default_to (js_get bs peerId) [], js_put peerId [] bs)"

definition drainAll_ops :: "op_buffers \<Rightarrow> buffered_op list \<times> op_buffers" where
  "drainAll_ops bs = (js_sort (by_asc bo_atMs) (concat (js_values bs)), [])"

text \<open>The buffers of \<open>src/src/mesh/recoveryManager.ts\<close>, with the time of the last flush.\<close>

record recovery_buffers =
  rb_byPeer :: op_buffers
  rb_lastFlushAt :: "timestamp option"

definition buffer_item :: "ident \<Rightarrow> buffered_op \<Rightarrow> recovery_buffers \<Rightarrow> recovery_buffers" where
  "buffer_item peerId item rb =
     rb\<lparr>rb_byPeer := js_put peerId (slice_tail 80 (default_to (js_get (rb_byPeer rb) peerId) [] @ [item])) (rb_byPeer rb)\<rparr>"

definition pendingCount :: "recovery_buffers \<Rightarrow> nat" where
  "pendingCount rb = foldl (\<lambda>n a. n + length a) 0 (js_values (rb_byPeer rb))"

definition drainAll_buffers :: "timestamp \<Rightarrow> recovery_buffers \<Rightarrow> buffered_op list \<times> recovery_buffers" where
  "drainAll_buffers now rb = (concat (js_values (rb_byPeer rb)), \<lparr> rb_byPeer = [], rb_lastFlushAt = Some now \<rparr>)"

definition save_mesh_checkpoint :: "ident \<Rightarrow> ident list \<Rightarrow> ident list" where
  "save_mesh_checkpoint i ids = slice_tail 24 (ids @ [i])"

subsection \<open>Last writer wins\<close>

record 'a versioned_cell =
  vc_tick :: int
  vc_source :: ident
  vc_value :: 'a

definition mergeLww :: "'a versioned_cell option \<Rightarrow> 'a versioned_cell \<Rightarrow> 'a versioned_cell" where
  "mergeLww current incoming =
     (case current of
        None \<Rightarrow> incoming
      | Some cur \<Rightarrow>
          if vc_tick incoming > vc_tick cur then incoming
          else if vc_tick incoming = vc_tick cur \<and> vc_source incoming > vc_source cur then incoming
          else cur)"

subsection \<open>Consensus\<close>

datatype decision = DecPending | DecCommitted | DecRejected

record proposal =
  pr_id :: ident
  pr_summary :: string
  pr_createdAtMs :: timestamp
  pr_votesYes :: "ident list"
  pr_votesNo :: "ident list"
  pr_decided :: decision
  pr_commitAtMs :: "timestamp option"
  pr_commitLatencyMs :: "int option"

record consensus_engine =
  cn_seq :: nat
  cn_active :: "proposal option"
  cn_history :: "proposal list"

definition new_consensus :: consensus_engine where
  "new_consensus = \<lparr> cn_seq = 0, cn_active = None, cn_history = [] \<rparr>"

definition consensus_snapshot :: "consensus_engine \<Rightarrow> proposal list" where
  "consensus_snapshot ce = (case cn_active ce of Some p \<Rightarrow> cn_history ce @ [p] | None \<Rightarrow> cn_history ce)"

definition maybeStartProposal :: "timestamp \<Rightarrow> real \<Rightarrow> (ident \<Rightarrow> string) \<Rightarrow> consensus_engine \<Rightarrow> proposal option \<times> consensus_engine" where
  "maybeStartProposal now draw summaryFactory ce =
     (if (case cn_active ce of Some p \<Rightarrow> pr_decided p = DecPending | None \<Rightarrow> False) then (None, ce)
      else if draw > 22 / 100 then (None, ce)
      else (let i = ''prop-'' @ show_nat (cn_seq ce + 1);
                p = \<lparr> pr_id = i, pr_summary = summaryFactory i, pr_createdAtMs = now, pr_votesYes = [], pr_votesNo = [],
                  pr_decided = DecPending, pr_commitAtMs = None, pr_commitLatencyMs = None \<rparr>
            in (Some p, ce\<lparr> cn_seq := cn_seq ce + 1, cn_active := Some p \<rparr>)))"

definition quorum_need :: "nat \<Rightarrow> nat" where
  "quorum_need n = min n (2 * ((n - 1) div 3) + 1)"

definition adjusted_need :: "nat \<Rightarrow> real \<Rightarrow> int" where
  "adjusted_need n stress = min (int n) (max 2 \<lceil>real (quorum_need n) * (92 / 100 + stress * (8 / 100))\<rceil>)"

definition decide :: "decision \<Rightarrow> timestamp \<Rightarrow> proposal \<Rightarrow> proposal" where
  "decide d now p = p\<lparr> pr_decided := d, pr_commitAtMs := Some now, pr_commitLatencyMs := Some (now - pr_createdAtMs p) \<rparr>"

text \<open>\<open>flip = draw < 0.03\<close>\<close>

definition cast_vote :: "ident \<Rightarrow> bool \<Rightarrow> real \<Rightarrow> proposal \<Rightarrow> proposal" where
  "cast_vote peerId vote_yes draw p =
     (let yes = (if draw < 3 / 100 then \<not> vote_yes else vote_yes)
      in if yes then p\<lparr>pr_votesYes := set_add peerId (pr_votesYes p)\<rparr>
         else p\<lparr>pr_votesNo := set_add peerId (pr_votesNo p)\<rparr>)"

text \<open>The first component is what the call returns: a decided proposal or nothing.\<close>

definition registerVote :: "ident \<Rightarrow> ident \<Rightarrow> bool \<Rightarrow> ident list \<Rightarrow> network_vector \<Rightarrow> real \<Rightarrow> timestamp \<Rightarrow> consensus_engine \<Rightarrow>
    proposal option \<times> consensus_engine" where
  "registerVote proposalId peerId vote_yes reachablePeers v draw now ce =
     (case cn_active ce of
        None \<Rightarrow> (None, ce)
      | Some p0 \<Rightarrow>
          if pr_id p0 \<noteq> proposalId then (None, ce)
          else if pr_decided p0 \<noteq> DecPending then (None, ce)
          else
            (let p = cast_vote peerId vote_yes draw p0;
                 n = max 1 (length reachablePeers);
                 stress = clamp01 (nv_loss01 v + nv_timeoutChance01 v * (35 / 100))
             in if int (length (pr_votesYes p)) \<ge> adjusted_need n stress
                then (let d = decide DecCommitted now p in (Some d, ce\<lparr> cn_history := cn_history ce @ [d], cn_active := None \<rparr>))
                else if length (pr_votesNo p) > max 1 (n div 3)
                then (let d = decide DecRejected now p in (Some d, ce\<lparr> cn_history := cn_history ce @ [d], cn_active := None \<rparr>))
                else (None, ce\<lparr>cn_active := Some p\<rparr>)))"

definition forceExpire :: "consensus_engine \<Rightarrow> consensus_engine" where
  "forceExpire ce =
     (case cn_active ce of
        Some p \<Rightarrow> if pr_decided p = DecPending
                  then ce\<lparr> cn_history := cn_history ce @ [p\<lparr>pr_decided := DecRejected\<rparr>], cn_active := None \<rparr> else ce
      | None \<Rightarrow> ce)"

subsection \<open>Drains lose nothing and make progress\<close>

definition is_due :: "timestamp \<Rightarrow> 'a retry_env \<Rightarrow> bool" where
  "is_due now env \<longleftrightarrow> re_deliverAtMs env \<le> now"

text \<open>How often an item may still be tried; every item may be tried once.\<close>

definition tries_left :: "nat \<Rightarrow> 'a retry_env \<Rightarrow> nat" where
  "tries_left maxAttempts env = max 1 (maxAttempts - re_attempts env)"

definition retry_budget :: "nat \<Rightarrow> 'a retry_env list \<Rightarrow> nat" where
  "retry_budget maxAttempts items = sum_list (map (tries_left maxAttempts) items)"

lemma drain_items_Nil [simp]:
  "dr_ready (drain_items now pol []) = []" "dr_remain (drain_items now pol []) = []" "dr_dead (drain_items now pol []) = 0"
  by (simp_all add: drain_items_def)

lemma drain_items_snoc: "drain_items now pol (items @ [env]) = drain_item now pol (drain_items now pol items) env"
  by (simp add: drain_items_def)

lemma drain_ready: "dr_ready (drain_items now pol items) = filter (\<lambda>e. is_due now e \<and> \<not> dp_shouldDrop pol e) items"
  by (induction items rule: rev_induct) (auto simp: drain_items_snoc drain_item_def is_due_def)

lemma drain_counts:
  "length (dr_ready (drain_items now pol items)) + length (dr_remain (drain_items now pol items)) + dr_dead (drain_items now pol items) = length items"
  by (induction items rule: rev_induct) (auto simp: drain_items_snoc drain_item_def)

lemma drain_budget:
  "retry_budget (dp_maxAttempts pol) (dr_remain (drain_items now pol items)) + length (filter (is_due now) items)
     \<le> retry_budget (dp_maxAttempts pol) items"
proof (induction items rule: rev_induct)
  case (snoc env items)
  then show ?case by (auto simp: drain_items_snoc drain_item_def retry_budget_def tries_left_def is_due_def)
qed (simp add: retry_budget_def)

text \<open>
  C14. A drain hands out exactly the due items that are not dropped, in queue order; every item is
  handed out, kept or counted dead; and each due item uses up one of its remaining tries, so no item outlives its tries.
\<close>

theorem drain_progress:
  "dr_ready (fst (drain_retry now pol q)) = filter (\<lambda>e. is_due now e \<and> \<not> dp_shouldDrop pol e) (rq_items q)
   \<and> length (dr_ready (fst (drain_retry now pol q))) + retry_depth (snd (drain_retry now pol q))
       + dr_dead (fst (drain_retry now pol q)) = retry_depth q
   \<and> retry_budget (dp_maxAttempts pol) (rq_items (snd (drain_retry now pol q))) + length (filter (is_due now) (rq_items q))
       \<le> retry_budget (dp_maxAttempts pol) (rq_items q)"
  using drain_ready [of now pol "rq_items q"] drain_counts [of now pol "rq_items q"] drain_budget [of pol now "rq_items q"]
  by (simp add: drain_retry_def retry_depth_def Let_def)

text \<open>The mesh queue is the queue without its identifiers.\<close>

definition forget_id :: "'a retry_env \<Rightarrow> 'a mesh_retry_env" where
  "forget_id env = \<lparr> mr_deliverAtMs = re_deliverAtMs env, mr_attempts = re_attempts env, mr_payload = re_payload env \<rparr>"

definition lift_policy :: "('a mesh_retry_env \<Rightarrow> bool) \<Rightarrow> ('a mesh_retry_env \<Rightarrow> int) \<Rightarrow> nat \<Rightarrow> 'a drain_policy" where
  "lift_policy shouldDrop backoff maxAttempts =
     \<lparr> dp_shouldDrop = shouldDrop \<circ> forget_id, dp_backoffMs = backoff \<circ> forget_id, dp_maxAttempts = maxAttempts \<rparr>"

definition forget_result :: "'a drain_result \<Rightarrow> 'a mesh_drain" where
  "forget_result r = (map forget_id (dr_ready r), map forget_id (dr_remain r), dr_dead r, dr_rescheduled r)"

lemma forget_item:
  "forget_result (drain_item now (lift_policy sd bo M) r env) = drain_mesh_item now sd bo M (forget_result r) (forget_id env)"
  by (simp add: drain_item_def drain_mesh_item_def forget_result_def lift_policy_def forget_id_def)

text \<open>
  The two retry queues are one algorithm: forgetting the identifiers turns a drain of the
  vertex queue into the drain of the mesh queue, for every policy.
\<close>

theorem mesh_drain_refines:
  "forget_result (fst (drain_retry now (lift_policy shouldDrop backoff maxAttempts) q)) =
     drain_mesh now shouldDrop backoff maxAttempts (map forget_id (rq_items q))"
proof -
  have "forget_result (foldl (drain_item now (lift_policy shouldDrop backoff maxAttempts)) r items) =
      foldl (drain_mesh_item now shouldDrop backoff maxAttempts) (forget_result r) (map forget_id items)" for r items
    by (induction items arbitrary: r) (simp_all add: forget_item)
  then show ?thesis by (simp add: drain_retry_def drain_items_def drain_mesh_def Let_def) (simp add: forget_result_def)
qed

subsection \<open>Buffers keep the newest operations\<close>

definition buffer_all :: "(ident \<times> buffered_op) list \<Rightarrow> op_buffers" where
  "buffer_all ops = foldl (\<lambda>bs (i, opn). bufferForPeer i opn bs) [] ops"

definition ops_of :: "ident \<Rightarrow> (ident \<times> buffered_op) list \<Rightarrow> buffered_op list" where
  "ops_of i ops = map snd (filter (\<lambda>io. fst io = i) ops)"

lemma slice_tail_snoc: "0 < n \<Longrightarrow> slice_tail n (slice_tail n xs @ [x]) = slice_tail n (xs @ [x])"
proof (cases "n \<le> length xs")
  case True
  assume "0 < n"
  then have "slice_tail n (slice_tail n xs @ [x]) = drop 1 (drop (length xs - n) xs) @ [x]"
    using True by (simp add: slice_tail_def)
  also have "\<dots> = drop (length xs + 1 - n) xs @ [x]" using True by (simp add: Suc_diff_le)
  finally show ?thesis using \<open>0 < n\<close> True by (simp add: slice_tail_def)
qed (simp add: slice_tail_def)

lemma buffer_all_get: "default_to (js_get (buffer_all ops) i) [] = slice_tail 120 (ops_of i ops)"
proof (induction ops rule: rev_induct)
  case Nil
  then show ?case by (simp add: buffer_all_def ops_of_def slice_tail_def)
next
  case (snoc io ops)
  obtain k opn where io: "io = (k, opn)" by (cases io)
  have "buffer_all (ops @ [io]) = bufferForPeer k opn (buffer_all ops)" by (simp add: buffer_all_def io)
  then show ?case
    using snoc.IH slice_tail_snoc [of 120 "ops_of i ops" opn]
    by (auto simp: bufferForPeer_def js_map_simps ops_of_def io)
qed

lemma wf_buffer_all: "wf_map (buffer_all ops)"
  by (induction ops rule: rev_induct) (auto simp: buffer_all_def bufferForPeer_def split_beta intro: jsm.invar_insert jsm.invar_empty)

text \<open>
  Draining all buffers after any sequence of buffered operations empties them and returns, in
  the order of their times, exactly the last 120 operations of each peer: older ones are lost.
\<close>

theorem drain_returns_newest:
  "mset (fst (drainAll_ops (buffer_all ops))) =
     (\<Sum>i \<in> set (map fst ops). mset (slice_tail 120 (ops_of i ops)))
   \<and> sorted (map bo_atMs (fst (drainAll_ops (buffer_all ops)))) \<and> snd (drainAll_ops (buffer_all ops)) = []"
proof -
  have keys: "set (map fst (buffer_all ops)) = set (map fst ops)"
  proof (induction ops rule: rev_induct)
    case (snoc io ops)
    have "buffer_all (ops @ [io]) = bufferForPeer (fst io) (snd io) (buffer_all ops)" by (simp add: buffer_all_def split_beta)
    then have "set (map fst (buffer_all (ops @ [io]))) = insert (fst io) (set (map fst (buffer_all ops)))"
      by (simp only: bufferForPeer_def jsm.keys_insert)
    with snoc show ?case by simp
  qed (simp add: buffer_all_def)
  have wf: "distinct (map fst (buffer_all ops))" using wf_buffer_all [of ops] by (simp add: wf_map_def)
  have concat_sum: "mset (concat (js_values m)) = (\<Sum>i \<in> set (map fst m). mset (default_to (js_get m i) []))"
    if "distinct (map fst m)" for m :: op_buffers
    using that
  proof (induction m)
    case (Cons kv m)
    have "(\<Sum>i \<in> set (map fst m). mset (default_to (js_get (kv # m) i) [])) = (\<Sum>i \<in> set (map fst m). mset (default_to (js_get m i) []))"
    proof (rule sum.cong [OF refl])
      fix i assume "i \<in> set (map fst m)"
      then have "i \<noteq> fst kv" using Cons.prems by (metis distinct.simps(2) list.simps(9))
      then show "mset (default_to (js_get (kv # m) i) []) = mset (default_to (js_get m i) [])" by (cases kv) simp
    qed
    with Cons show ?case by (simp add: js_values_def)
  qed (simp add: js_values_def)
  have "sorted (map bo_atMs (js_sort (by_asc bo_atMs) xs))" for xs
    unfolding sorted_map using ascending.sorted_js_sort [of bo_atMs xs]
    by (rule sorted_wrt_mono_rel [rotated]) (auto simp: by_asc_def)
  then show ?thesis by (simp add: drainAll_ops_def concat_sum [OF wf] keys [simplified] buffer_all_get)
qed

subsection \<open>Consensus decides once\<close>

datatype consensus_op =
    CoStart timestamp real "ident \<Rightarrow> string"
  | CoVote ident ident bool "ident list" network_vector real timestamp
  | CoExpire

fun consensus_apply :: "consensus_engine \<Rightarrow> consensus_op \<Rightarrow> consensus_engine" where
  "consensus_apply ce (CoStart now draw f) = snd (maybeStartProposal now draw f ce)"
| "consensus_apply ce (CoVote i p y rs v draw now) = snd (registerVote i p y rs v draw now ce)"
| "consensus_apply ce CoExpire = forceExpire ce"

definition consensus_run :: "consensus_op list \<Rightarrow> consensus_engine" where
  "consensus_run ops = foldl consensus_apply new_consensus ops"

definition decided_ok :: "proposal \<Rightarrow> bool" where
  "decided_ok p \<longleftrightarrow> pr_decided p \<noteq> DecPending \<and> (pr_decided p = DecCommitted \<longrightarrow> pr_votesYes p \<noteq> [])
     \<and> distinct (pr_votesYes p) \<and> distinct (pr_votesNo p)"

definition consensus_ok :: "consensus_engine \<Rightarrow> bool" where
  "consensus_ok ce \<longleftrightarrow>
     map pr_id (consensus_snapshot ce) = map (\<lambda>k. ''prop-'' @ show_nat (k + 1)) [0..<cn_seq ce]
     \<and> list_all decided_ok (cn_history ce)
     \<and> (case cn_active ce of None \<Rightarrow> True
        | Some p \<Rightarrow> pr_decided p = DecPending \<and> distinct (pr_votesYes p) \<and> distinct (pr_votesNo p))"

lemma adjusted_need_pos: "n \<ge> 1 \<Longrightarrow> adjusted_need n stress \<ge> 1"
  by (simp add: adjusted_need_def)

lemma cast_vote_fields:
  "pr_id (cast_vote i y draw p) = pr_id p" "pr_decided (cast_vote i y draw p) = pr_decided p"
  "distinct (pr_votesYes p) \<Longrightarrow> distinct (pr_votesYes (cast_vote i y draw p))"
  "distinct (pr_votesNo p) \<Longrightarrow> distinct (pr_votesNo (cast_vote i y draw p))"
  by (simp_all add: cast_vote_def Let_def)

lemma consensus_ok_settle:
  assumes "consensus_ok ce" "cn_active ce = Some p0" "pr_id d = pr_id p0" "decided_ok d"
  shows "consensus_ok (ce\<lparr> cn_history := cn_history ce @ [d], cn_active := None \<rparr>)"
  using assms by (simp add: consensus_ok_def consensus_snapshot_def)

lemma consensus_ok_wait:
  assumes "consensus_ok ce" "cn_active ce = Some p0" "pr_id p = pr_id p0" "pr_decided p = DecPending"
    "distinct (pr_votesYes p)" "distinct (pr_votesNo p)"
  shows "consensus_ok (ce\<lparr>cn_active := Some p\<rparr>)"
  using assms by (simp add: consensus_ok_def consensus_snapshot_def)

lemma consensus_vote_ok:
  assumes "consensus_ok ce" shows "consensus_ok (snd (registerVote i p y rs v draw now ce))"
proof (cases "cn_active ce")
  case (Some p0)
  let ?p1 = "cast_vote p y draw p0"
  let ?need = "adjusted_need (max 1 (length rs)) (clamp01 (nv_loss01 v + nv_timeoutChance01 v * (35 / 100)))"
  have p0: "pr_decided p0 = DecPending" "distinct (pr_votesYes p0)" "distinct (pr_votesNo p0)"
    using assms Some by (simp_all add: consensus_ok_def)
  note p1 = cast_vote_fields(1,2) [of p y draw p0] cast_vote_fields(3) [OF p0(2)] cast_vote_fields(4) [OF p0(3)]
  have won: "decided_ok (decide DecCommitted now ?p1)" if "?need \<le> int (length (pr_votesYes ?p1))"
  proof -
    have "1 \<le> ?need" by (rule adjusted_need_pos) simp
    then have "pr_votesYes ?p1 \<noteq> []" using that by auto
    then show ?thesis using p1 by (simp add: decided_ok_def decide_def)
  qed
  have lost: "decided_ok (decide DecRejected now ?p1)" using p1 by (simp add: decided_ok_def decide_def)
  have ids: "pr_id (decide d now ?p1) = pr_id p0" for d using p1(1) by (simp add: decide_def)
  show ?thesis
    unfolding registerVote_def Some option.case Let_def
    using assms consensus_ok_settle [OF assms Some ids won] consensus_ok_settle [OF assms Some ids lost]
      consensus_ok_wait [OF assms Some p1(1)] p1 p0(1) by simp
qed (use assms in \<open>simp add: registerVote_def\<close>)

lemma consensus_apply_ok: "consensus_ok ce \<Longrightarrow> consensus_ok (consensus_apply ce opn)"
proof (cases opn)
  case (CoStart now draw f)
  assume "consensus_ok ce"
  then show ?thesis
    by (auto simp: CoStart maybeStartProposal_def Let_def consensus_ok_def consensus_snapshot_def split: option.splits)
next
  case CoExpire
  assume "consensus_ok ce"
  then show ?thesis
    by (auto simp: CoExpire forceExpire_def consensus_ok_def consensus_snapshot_def decided_ok_def split: option.splits)
qed (simp add: consensus_vote_ok)

lemma consensus_run_ok: "consensus_ok (consensus_run ops)"
proof -
  have "consensus_ok new_consensus" by (simp add: consensus_ok_def new_consensus_def consensus_snapshot_def)
  then have "consensus_ok (foldl consensus_apply new_consensus ops)"
    by (induction ops rule: rev_induct) (simp_all add: consensus_apply_ok)
  then show ?thesis by (simp add: consensus_run_def)
qed

lemma consensus_history_grows: "\<exists>es. cn_history (foldl consensus_apply ce ops) = cn_history ce @ es"
proof (induction ops arbitrary: ce)
  case (Cons opn ops)
  have "\<exists>es. cn_history (consensus_apply ce opn) = cn_history ce @ es"
    by (cases opn) (auto simp: maybeStartProposal_def registerVote_def forceExpire_def Let_def split: option.splits)
  with Cons [of "consensus_apply ce opn"] show ?case by auto
qed simp

text \<open>
  C15. Every proposal is decided once and for good: after any run the proposals are numbered in the order they
  were started, each of them is either the pending one or decided in the history, a committed one has a yes vote, and
  a longer run only adds to the history.
\<close>

theorem consensus_decides_once:
  "consensus_ok (consensus_run ops)
   \<and> take (length (cn_history (consensus_run ops))) (cn_history (consensus_run (ops @ later))) = cn_history (consensus_run ops)"
  using consensus_history_grows [of "consensus_run ops" later] consensus_run_ok [of ops]
  by (auto simp: consensus_run_def)

text \<open>
  The stress adjustment undercuts the quorum: without stress \<open>3 f + 1\<close> reachable peers commit
  with fewer than \<open>2 f + 1\<close> yes votes as soon as \<open>f\<close> is six or more, and a node that reaches at most one
  peer commits on a single vote.
\<close>

theorem stress_free_quorum_too_small:
  "adjusted_need (3 * (f + 6) + 1) 0 < int (2 * (f + 6) + 1) \<and> adjusted_need 1 stress = 1"
proof -
  have "\<lceil>real (quorum_need (3 * (f + 6) + 1)) * (92 / 100)\<rceil> \<le> int (2 * (f + 6))"
    unfolding ceiling_le_iff by (simp add: quorum_need_def)
  then show ?thesis by (simp add: adjusted_need_def)
qed

end
