(* ===== verification/FoxMap.thy ===== *)
theory FoxMap
  imports Prelude "HOL-Library.Word" "HOL-Library.Product_Lexorder"
begin

section \<open>The FoxMQ map: cells, merge, deltas and snapshots\<close>

text \<open>
  Models \<open>mapCell.ts\<close>, \<open>mapMerge.ts\<close>, \<open>mapDelta.ts\<close>, \<open>mapSnapshot.ts\<close>, \<open>mapLedger.ts\<close>, \<open>recovery.ts\<close>,
  \<open>conflictResolver.ts\<close> and \<open>distributedMemory.ts\<close> of \<open>src/src/foxmq\<close>, with the map types of \<open>src/src/swarm/types.ts\<close>. Entries of
  the merge lineage are typed: their texts contain characters outside Latin-1. A checksum runs over
  UTF-16 code units; the text of a cell is the parameter \<open>cell_text\<close>. The
  32-bit arithmetic of the checksum is that of \<open>32 word\<close>.
\<close>

unbundle bit_operations_syntax

subsection \<open>Cells\<close>

datatype fox_state = FxUnknown | FxFrontier | FxSeen | FxSearched | FxBlocked | FxTarget | FxSafe | FxHazard | FxRelayCritical
  | FxUnreachable

datatype proof_source = PsLocalSensor | PsPeerMesh | PsPeerConfirm | PsReplay | PsRecovery | PsOperator

datatype merge_note = NoteInit ident | NoteRank ident | NoteStaleRank ident | NoteVersion ident | NoteKeepVersion ident
  | NoteTime ident | NoteKeepTime ident | NoteConfidence ident | NoteTrust ident | NoteTie ident

record fox_meta =
  fm_state :: fox_state
  fm_version :: version
  fm_updatedAtMs :: timestamp
  fm_lastNodeId :: "ident option"
  fm_confidence01 :: "real option"
  fm_firstSeenBy :: "ident option"
  fm_proofSource :: "proof_source option"
  fm_dirtyLocal :: "bool option"
  fm_mergeLineage :: "merge_note list option"

record fox_delta =
  fd_cells :: "(string, fox_meta) jsmap"
  fd_originNodeId :: ident
  fd_emittedAtMs :: timestamp

record fox_cell =
  fc_cellId :: string
  fc_gx :: int
  fc_gz :: int
  fc_z :: "int option"
  fc_meta :: fox_meta

definition makeCellId :: "int \<Rightarrow> int \<Rightarrow> string" where
  "makeCellId gx gz = show_int gx @ '','' @ show_int gz"

definition metaToFoxCell :: "int \<Rightarrow> int \<Rightarrow> fox_meta \<Rightarrow> fox_cell" where
  "metaToFoxCell gx gz m = \<lparr> fc_cellId = makeCellId gx gz, fc_gx = gx, fc_gz = gz, fc_z = None, fc_meta = m \<rparr>"

definition foxCellToMeta :: "fox_cell \<Rightarrow> fox_meta" where
  "foxCellToMeta c = fc_meta c"

text \<open>A patch has a state, a version and a time, and optionally the other fields.\<close>

record fox_patch =
  fp_state :: fox_state
  fp_version :: version
  fp_updatedAtMs :: timestamp
  fp_lastNodeId :: "ident option"
  fp_confidence01 :: "real option"
  fp_firstSeenBy :: "ident option"
  fp_proofSource :: "proof_source option"
  fp_mergeLineage :: "merge_note list option"

definition patched_meta :: "fox_meta option \<Rightarrow> fox_patch \<Rightarrow> proof_source \<Rightarrow> fox_meta" where
  "patched_meta prev patch source =
     (case prev of
        Some p \<Rightarrow> \<lparr> fm_state = fp_state patch, fm_version = fp_version patch, fm_updatedAtMs = fp_updatedAtMs patch,
          fm_lastNodeId = nullish (fp_lastNodeId patch) (fm_lastNodeId p),
          fm_confidence01 = nullish (fp_confidence01 patch) (fm_confidence01 p),
          fm_firstSeenBy = nullish (fp_firstSeenBy patch) (fm_firstSeenBy p),
          fm_proofSource = Some (default_to (fp_proofSource patch) (default_to (fm_proofSource p) source)),
          fm_dirtyLocal = fm_dirtyLocal p, fm_mergeLineage = nullish (fp_mergeLineage patch) (fm_mergeLineage p) \<rparr>
      | None \<Rightarrow> \<lparr> fm_state = fp_state patch, fm_version = fp_version patch, fm_updatedAtMs = fp_updatedAtMs patch,
          fm_lastNodeId = fp_lastNodeId patch, fm_confidence01 = fp_confidence01 patch,
          fm_firstSeenBy = nullish (fp_firstSeenBy patch) (fp_lastNodeId patch),
          fm_proofSource = Some (default_to (fp_proofSource patch) source), fm_dirtyLocal = Some True,
          fm_mergeLineage = None \<rparr>)"

definition bumpMeta :: "fox_meta option \<Rightarrow> fox_patch \<Rightarrow> proof_source \<Rightarrow> fox_meta" where
  "bumpMeta prev patch source =
     (let base = patched_meta prev patch source;
          seen = Option.bind prev fm_firstSeenBy;
          base1 = (if default_to seen [] = [] \<and> default_to (fp_lastNodeId patch) [] \<noteq> []
                   then base\<lparr>fm_firstSeenBy := fp_lastNodeId patch\<rparr> else base);
          base2 = (case fp_confidence01 patch of None \<Rightarrow> base1
             | Some c \<Rightarrow> base1\<lparr>fm_confidence01 := Some (max (default_to (Option.bind prev fm_confidence01) 0) c)\<rparr>)
      in base2\<lparr>fm_dirtyLocal := Some True\<rparr>)"

subsection \<open>Merge\<close>

fun fox_rank :: "fox_state \<Rightarrow> nat" where
  "fox_rank FxUnknown = 0"
| "fox_rank FxFrontier = 1"
| "fox_rank FxSeen = 2"
| "fox_rank FxSearched = 3"
| "fox_rank FxSafe = 4"
| "fox_rank FxRelayCritical = 5"
| "fox_rank FxBlocked = 6"
| "fox_rank FxHazard = 7"
| "fox_rank FxUnreachable = 8"
| "fox_rank FxTarget = 9"

fun proof_trust :: "proof_source \<Rightarrow> nat" where
  "proof_trust PsLocalSensor = 1"
| "proof_trust PsPeerMesh = 2"
| "proof_trust PsRecovery = 2"
| "proof_trust PsReplay = 2"
| "proof_trust PsOperator = 3"
| "proof_trust PsPeerConfirm = 4"

definition rankOf :: "fox_meta \<Rightarrow> nat" where
  "rankOf m = fox_rank (fm_state m)"

definition trustOf :: "fox_meta \<Rightarrow> nat" where
  "trustOf m = (case fm_proofSource m of Some s \<Rightarrow> proof_trust s | None \<Rightarrow> 1)"

definition appendLineage :: "merge_note list option \<Rightarrow> merge_note \<Rightarrow> merge_note list" where
  "appendLineage base entry = slice_tail 6 (default_to base [] @ [entry])"

definition noted :: "merge_note list option \<Rightarrow> merge_note \<Rightarrow> fox_meta \<Rightarrow> fox_meta" where
  "noted base entry m = m\<lparr>fm_mergeLineage := Some (appendLineage base entry)\<rparr>"

definition conf_of :: "fox_meta \<Rightarrow> real" where
  "conf_of m = default_to (fm_confidence01 m) 0"

definition dirty_of :: "fox_meta \<Rightarrow> bool" where
  "dirty_of m = default_to (fm_dirtyLocal m) False"

definition trusted_source :: "fox_meta \<Rightarrow> fox_meta \<Rightarrow> proof_source option" where
  "trusted_source local remote =
     (if trustOf remote \<ge> trustOf local then nullish (fm_proofSource remote) (fm_proofSource local) else fm_proofSource local)"

definition mergeMapCellMeta :: "fox_meta option \<Rightarrow> fox_meta \<Rightarrow> ident \<Rightarrow> fox_meta" where
  "mergeMapCellMeta local_opt remote origin =
     (case local_opt of
        None \<Rightarrow> noted (fm_mergeLineage remote) (NoteInit origin) (remote\<lparr>fm_dirtyLocal := Some (dirty_of remote)\<rparr>)
      | Some local \<Rightarrow>
          (let lr = rankOf local; rr = rankOf remote; lin = fm_mergeLineage local;
               first = nullish (fm_firstSeenBy local) (fm_firstSeenBy remote)
           in if rr > lr
              then noted lin (NoteRank origin)
                     (remote\<lparr> fm_firstSeenBy := first, fm_dirtyLocal := Some (dirty_of remote) \<rparr>)
              else if rr < lr then noted lin (NoteStaleRank origin) local
              else if fm_version remote > fm_version local
              then noted lin (NoteVersion origin)
                     (remote\<lparr> fm_firstSeenBy := first, fm_confidence01 := Some (max (conf_of local) (conf_of remote)),
                        fm_dirtyLocal := Some (dirty_of remote \<or> dirty_of local) \<rparr>)
              else if fm_version remote < fm_version local then noted lin (NoteKeepVersion origin) local
              else if fm_updatedAtMs remote > fm_updatedAtMs local
              then noted lin (NoteTime origin)
                     (remote\<lparr> fm_proofSource := trusted_source local remote, fm_firstSeenBy := first,
                        fm_confidence01 := Some (max (conf_of local) (conf_of remote)),
                        fm_dirtyLocal := Some (dirty_of remote \<or> dirty_of local) \<rparr>)
              else if fm_updatedAtMs remote < fm_updatedAtMs local then noted lin (NoteKeepTime origin) local
              else if conf_of remote > conf_of local
              then noted lin (NoteConfidence origin)
                     (local\<lparr> fm_confidence01 := Some (conf_of remote), fm_proofSource := trusted_source local remote \<rparr>)
              else if trustOf remote > trustOf local
              then noted lin (NoteTrust origin)
                     (local\<lparr> fm_proofSource := fm_proofSource remote,
                        fm_lastNodeId := nullish (fm_lastNodeId remote) (fm_lastNodeId local) \<rparr>)
              else noted lin (NoteTie origin) local))"

definition resolveCellConflict :: "fox_meta option \<Rightarrow> fox_meta \<Rightarrow> ident \<Rightarrow> fox_meta" where
  "resolveCellConflict local remote origin = mergeMapCellMeta local remote origin"

subsection \<open>Deltas and checksums\<close>

type_synonym units = "nat list"

definition units_of :: "string \<Rightarrow> units" where
  "units_of s = map of_char s"

text \<open>\<open>h ^= c; h = Math.imul(h, 16777619)\<close>\<close>

definition fnv_step :: "32 word \<Rightarrow> nat \<Rightarrow> 32 word" where
  "fnv_step h c = (h XOR word_of_nat c) * 16777619"

definition fnv :: "32 word \<Rightarrow> units \<Rightarrow> 32 word" where
  "fnv h us = foldl fnv_step h us"

text \<open>\<open>(h >>> 0).toString(16)\<close>\<close>

fun show_hex :: "nat \<Rightarrow> string" where
  "show_hex n = (if n < 16 then [hex_digit n] else show_hex (n div 16) @ [hex_digit (n mod 16)])"

declare show_hex.simps [simp del]

definition hashString :: "units \<Rightarrow> string" where
  "hashString us = show_hex (unat (fnv 2166136261 us))"

definition delta_units :: "(fox_meta \<Rightarrow> units) \<Rightarrow> (string, fox_meta) jsmap \<Rightarrow> units" where
  "delta_units cell_text cells =
     concat (map (\<lambda>k. units_of k @ units_of '':'' @ (case js_get cells k of Some c \<Rightarrow> cell_text c | None \<Rightarrow> []))
       (sort (js_keys cells)))"

definition checksumDeltaCells :: "(fox_meta \<Rightarrow> units) \<Rightarrow> (string, fox_meta) jsmap \<Rightarrow> string" where
  "checksumDeltaCells cell_text cells = hashString (delta_units cell_text cells)"

datatype retry_status = RetryNone | RetryScheduled | RetryExhausted

datatype delivery_status = DelPending | DelDelivered | DelAcked | DelDropped | DelDuplicate

record map_delta_msg =
  dm_deltaId :: ident
  dm_sourceNodeId :: ident
  dm_missionId :: ident
  dm_mapId :: ident
  dm_baseVersion :: version
  dm_cellsChanged :: "(string, fox_meta) jsmap"
  dm_changesetSummary :: string
  dm_timestamp :: timestamp
  dm_checksum :: string
  dm_causalSeq :: int
  dm_retryStatus :: retry_status
  dm_deliveryStatus :: delivery_status

definition buildMapDelta :: "(fox_meta \<Rightarrow> units) \<Rightarrow> ident \<Rightarrow> ident \<Rightarrow> ident \<Rightarrow> ident \<Rightarrow> version \<Rightarrow> (string, fox_meta) jsmap \<Rightarrow> int \<Rightarrow>
    timestamp \<Rightarrow> map_delta_msg" where
  "buildMapDelta cell_text deltaId sourceNodeId missionId mapId baseVersion cells causalSeq now =
     \<lparr> dm_deltaId = deltaId, dm_sourceNodeId = sourceNodeId, dm_missionId = missionId, dm_mapId = mapId,
       dm_baseVersion = baseVersion, dm_cellsChanged = cells,
       dm_changesetSummary = show_nat (length cells) @ '' cells @v'' @ show_int baseVersion, dm_timestamp = now,
       dm_checksum = checksumDeltaCells cell_text cells, dm_causalSeq = causalSeq, dm_retryStatus = RetryNone,
       dm_deliveryStatus = DelPending \<rparr>"

subsection \<open>Snapshots\<close>

record fox_snapshot =
  fs_mapId :: ident
  fs_mapVersion :: version
  fs_timestamp :: timestamp
  fs_cells :: "(string, fox_meta) jsmap"
  fs_coveragePct :: real
  fs_frontierCount :: nat
  fs_searchedCount :: nat
  fs_blockedCount :: nat
  fs_targetCount :: nat
  fs_hazardCount :: nat
  fs_dirtyDeltaCount :: nat
  fs_lastSyncPeer :: "ident option"
  fs_sourceLabels :: "string list"
  fs_checksum :: string

definition is_explored :: "fox_state \<Rightarrow> bool" where
  "is_explored s \<longleftrightarrow> s \<in> {FxSeen, FxSearched, FxSafe, FxTarget, FxBlocked, FxHazard, FxRelayCritical, FxUnreachable}"

definition count_meta :: "(fox_meta \<Rightarrow> bool) \<Rightarrow> (string, fox_meta) jsmap \<Rightarrow> nat" where
  "count_meta P cells = length (filter P (js_values cells))"

definition buildMapSnapshot :: "(fox_meta \<Rightarrow> units) \<Rightarrow> ident \<Rightarrow> version \<Rightarrow> timestamp \<Rightarrow> (string, fox_meta) jsmap \<Rightarrow> ident option \<Rightarrow>
    string list option \<Rightarrow> fox_snapshot" where
  "buildMapSnapshot cell_text mapId mapVersion now cells lastSyncPeer sourceLabels =
     (let frontier = count_meta (\<lambda>c. fm_state c = FxFrontier) cells;
          explored = count_meta (\<lambda>c. is_explored (fm_state c)) cells;
          denom = max 1 (explored + frontier)
      in \<lparr> fs_mapId = mapId, fs_mapVersion = mapVersion, fs_timestamp = now, fs_cells = cells,
           fs_coveragePct = min 100 (real explored / real denom * 100), fs_frontierCount = frontier,
           fs_searchedCount = count_meta (\<lambda>c. fm_state c = FxSearched) cells,
           fs_blockedCount = count_meta (\<lambda>c. fm_state c = FxBlocked \<or> fm_state c = FxUnreachable) cells,
           fs_targetCount = count_meta (\<lambda>c. fm_state c = FxTarget) cells,
           fs_hazardCount = count_meta (\<lambda>c. fm_state c = FxHazard) cells,
           fs_dirtyDeltaCount = count_meta dirty_of cells, fs_lastSyncPeer = lastSyncPeer,
           fs_sourceLabels = default_to sourceLabels [''collective_mesh''],
           fs_checksum = checksumDeltaCells cell_text cells \<rparr>)"

subsection \<open>Event ledger and memory records\<close>

datatype memory_status = MsPending | MsRelayed | MsCommitted | MsRejected

datatype memory_event = MeCellUpdate | MeMapDelta | MeSnapshotCommit | MeSyncRequest | MeSyncAck | MeNodeDisconnect
  | MeNodeReconnect | MeOfflineBuffer | MeRecoveryMerge | MePartition | MePartitionHeal | MeReplayTick

record map_event_input =
  ei_nodeId :: ident
  ei_eventType :: memory_event
  ei_affectedCells :: "string list"
  ei_previousHash :: "string option"
  ei_mapVersion :: "version option"
  ei_relayRoute :: "ident list"
  ei_commitStatus :: memory_status
  ei_payload :: "obj option"
  ei_timestamp :: "timestamp option"

record map_ledger_event =
  lv_eventId :: ident
  lv_input :: map_event_input
  lv_timestamp :: timestamp

record map_event_ledger =
  el_events :: "map_ledger_event list"
  el_seq :: nat

definition new_map_ledger :: map_event_ledger where
  "new_map_ledger = \<lparr> el_events = [], el_seq = 1 \<rparr>"

text \<open>\<open>event_text\<close> is the text that \<open>JSON.stringify\<close> gives for the input.\<close>

definition append_map_event :: "(map_event_input \<Rightarrow> units) \<Rightarrow> timestamp \<Rightarrow> map_event_input \<Rightarrow> map_event_ledger \<Rightarrow>
    map_ledger_event \<times> map_event_ledger" where
  "append_map_event event_text now ev lg =
     (let full = \<lparr> lv_eventId = ''fox-'' @ show_nat (el_seq lg) @ ''-'' @ take 8 (hashString (event_text ev)),
            lv_input = ev, lv_timestamp = default_to (ei_timestamp ev) now \<rparr>;
          es = el_events lg @ [full];
          kept = (if length es > 2000 then drop (length es - 2000) es else es)
      in (full, \<lparr> el_events = kept, el_seq = el_seq lg + 1 \<rparr>))"

definition map_ledger_tail :: "nat \<Rightarrow> map_event_ledger \<Rightarrow> map_ledger_event list" where
  "map_ledger_tail n lg = slice_tail n (el_events lg)"

record memory_record =
  my_recordId :: ident
  my_eventId :: ident
  my_nodeId :: ident
  my_eventType :: memory_event
  my_affectedCells :: "string list"
  my_previousHash :: "string option"
  my_mapVersion :: "version option"
  my_relayRoute :: "ident list"
  my_commitStatus :: memory_status
  my_timestamp :: timestamp

definition ledgerEventToMemoryRecord :: "map_ledger_event \<Rightarrow> memory_record" where
  "ledgerEventToMemoryRecord ev =
     \<lparr> my_recordId = ''mem-'' @ lv_eventId ev, my_eventId = lv_eventId ev, my_nodeId = ei_nodeId (lv_input ev),
       my_eventType = ei_eventType (lv_input ev), my_affectedCells = ei_affectedCells (lv_input ev),
       my_previousHash = ei_previousHash (lv_input ev), my_mapVersion = ei_mapVersion (lv_input ev),
       my_relayRoute = ei_relayRoute (lv_input ev), my_commitStatus = ei_commitStatus (lv_input ev),
       my_timestamp = lv_timestamp ev \<rparr>"

subsection \<open>Recovery of a returning node\<close>

record recovery_result =
  rr_mergedCells :: "(string, fox_meta) jsmap"
  rr_recovered :: bool
  rr_cellsHydrated :: nat

definition hydrate_cell :: "(string, fox_meta) jsmap \<Rightarrow> (string, fox_meta) jsmap \<times> nat \<Rightarrow> string \<times> fox_meta \<Rightarrow> (string, fox_meta) jsmap \<times> nat" where
  "hydrate_cell overlay acc kv =
     (let local = js_get overlay (fst kv);
          m = mergeMapCellMeta local ((snd kv)\<lparr>fm_proofSource := Some (default_to (fm_proofSource (snd kv)) PsRecovery)\<rparr>) ''collective'';
          changed = (case local of None \<Rightarrow> True | Some l \<Rightarrow> fm_version m \<noteq> fm_version l \<or> fm_state m \<noteq> fm_state l)
      in (js_put (fst kv) m (fst acc), if changed then snd acc + 1 else snd acc))"

definition keep_overlay :: "(string, fox_meta) jsmap \<Rightarrow> string \<times> fox_meta \<Rightarrow> (string, fox_meta) jsmap" where
  "keep_overlay acc kv =
     (if js_get acc (fst kv) \<noteq> None then acc
      else js_put (fst kv) ((snd kv)\<lparr>fm_proofSource := Some (default_to (fm_proofSource (snd kv)) PsLocalSensor)\<rparr>) acc)"

definition rehydrateNodeFromCollective :: "(string, fox_meta) jsmap \<Rightarrow> (string, fox_meta) jsmap \<Rightarrow> recovery_result" where
  "rehydrateNodeFromCollective collective overlay =
     (let (cells, n) = foldl (hydrate_cell overlay) ([], 0) collective
      in \<lparr> rr_mergedCells = foldl keep_overlay cells overlay, rr_recovered = n > 0, rr_cellsHydrated = n \<rparr>)"

definition deltaFromRecord :: "(string, fox_meta) jsmap \<Rightarrow> ident \<Rightarrow> timestamp \<Rightarrow> fox_delta" where
  "deltaFromRecord cells origin now = \<lparr> fd_cells = cells, fd_originNodeId = origin, fd_emittedAtMs = now \<rparr>"

subsection \<open>The merge is a join of stamps\<close>

text \<open>What the merge compares first: the rank of the state, the version and the time.\<close>

definition stamp :: "fox_meta \<Rightarrow> nat \<times> int \<times> int" where
  "stamp m = (rankOf m, fm_version m, fm_updatedAtMs m)"

lemma fox_rank_inj: "fox_rank a = fox_rank b \<Longrightarrow> a = b"
  by (cases a; cases b) simp_all

lemma stamp_noted [simp]: "stamp (noted base entry m) = stamp m"
  by (simp add: noted_def stamp_def rankOf_def)

lemma stamp_frame [simp]:
  "stamp (m\<lparr>fm_firstSeenBy := a\<rparr>) = stamp m" "stamp (m\<lparr>fm_dirtyLocal := b\<rparr>) = stamp m"
  "stamp (m\<lparr>fm_confidence01 := c\<rparr>) = stamp m" "stamp (m\<lparr>fm_proofSource := d\<rparr>) = stamp m"
  "stamp (m\<lparr>fm_lastNodeId := e\<rparr>) = stamp m"
  by (simp_all add: stamp_def rankOf_def)

lemma merge_stamp: "stamp (mergeMapCellMeta (Some l) r origin) = max (stamp l) (stamp r)"
proof -
  have le: "stamp l \<le> stamp r \<longleftrightarrow> rankOf l < rankOf r \<or> rankOf l = rankOf r \<and> (fm_version l < fm_version r
      \<or> fm_version l = fm_version r \<and> fm_updatedAtMs l \<le> fm_updatedAtMs r)"
    by (auto simp: stamp_def)
  have eq: "rankOf l = rankOf r \<Longrightarrow> fm_version l = fm_version r \<Longrightarrow> fm_updatedAtMs l = fm_updatedAtMs r \<Longrightarrow> stamp l = stamp r"
    by (simp add: stamp_def)
  show ?thesis
    unfolding mergeMapCellMeta_def option.case Let_def max_def le
    using eq by (cases "rankOf l" "rankOf r" rule: linorder_cases; cases "fm_version l" "fm_version r" rule: linorder_cases;
        cases "fm_updatedAtMs l" "fm_updatedAtMs r" rule: linorder_cases) simp_all
qed

lemma merge_state:
  "fm_state (mergeMapCellMeta (Some l) r origin) = (if fox_rank (fm_state l) < fox_rank (fm_state r) then fm_state r else fm_state l)"
proof -
  have "fox_rank (fm_state (mergeMapCellMeta (Some l) r origin)) = max (fox_rank (fm_state l)) (fox_rank (fm_state r))"
    using merge_stamp [of l r origin] by (auto simp: stamp_def rankOf_def max_def split: if_splits)
  then show ?thesis by (intro fox_rank_inj) auto
qed

text \<open>
  Merging a cell implements the join of the stamps (rank of the state, version, time) in their
  lexicographic order, and the state is the one of higher rank: stale evidence never lowers it.
\<close>

theorem fox_merge_is_join:
  "stamp (mergeMapCellMeta (Some l) r origin) = max (stamp l) (stamp r)
   \<and> fm_state (mergeMapCellMeta (Some l) r origin) = (if fox_rank (fm_state l) < fox_rank (fm_state r) then fm_state r else fm_state l)"
  by (simp add: merge_stamp merge_state)

text \<open>A replica that receives a sequence of cells with their origins.\<close>

definition merge_all :: "(fox_meta \<times> ident) list \<Rightarrow> fox_meta option" where
  "merge_all rs = foldl (\<lambda>c (r, origin). Some (mergeMapCellMeta c r origin)) None rs"

lemma merge_all_snoc: "merge_all (rs @ [ro]) = Some (mergeMapCellMeta (merge_all rs) (fst ro) (snd ro))"
  by (simp add: merge_all_def split_beta)

lemma merge_all_Nil [simp]: "merge_all [] = None"
  by (simp add: merge_all_def)

lemma merge_none_stamp: "stamp (mergeMapCellMeta None r origin) = stamp r"
  by (simp add: mergeMapCellMeta_def)

text \<open>
  C31. Replicas converge on state, version and time: after any sequence of received cells they are those of the
  greatest stamp received, whatever the order, the repetitions and the origins.
\<close>

theorem fox_replicas_converge:
  "map_option stamp (merge_all rs) = (if rs = [] then None else Some (Max (stamp ` fst ` set rs)))"
proof (induction rs rule: rev_induct)
  case (snoc ro rs)
  show ?case
  proof (cases "rs = []")
    case True
    then show ?thesis using merge_all_snoc [of "[]" ro] by (simp add: merge_none_stamp)
  next
    case False
    with snoc obtain c where c: "merge_all rs = Some c" "stamp c = Max (stamp ` fst ` set rs)" by auto
    then have "map_option stamp (merge_all (rs @ [ro])) = Some (max (stamp c) (stamp (fst ro)))"
      by (simp add: merge_all_snoc merge_stamp)
    also have "max (stamp c) (stamp (fst ro)) = Max (stamp ` fst ` set (rs @ [ro]))"
      using False c(2) by (simp add: max.commute)
    finally show ?thesis by simp
  qed
qed simp

definition toy_cell :: "version \<Rightarrow> real \<Rightarrow> fox_meta" where
  "toy_cell v conf = \<lparr> fm_state = FxSeen, fm_version = v, fm_updatedAtMs = v, fm_lastNodeId = None, fm_confidence01 = Some conf,
     fm_firstSeenBy = None, fm_proofSource = None, fm_dirtyLocal = None, fm_mergeLineage = None \<rparr>"

text \<open>
  The confidence does not converge: an older cell raises the confidence when it comes first
  and is ignored when it comes second, so two replicas that received the same two cells differ.
\<close>

theorem fox_confidence_diverges:
  "map_option conf_of (merge_all [(toy_cell 1 (9 / 10), a), (toy_cell 2 (1 / 10), b)]) = Some (9 / 10)
   \<and> map_option conf_of (merge_all [(toy_cell 2 (1 / 10), b), (toy_cell 1 (9 / 10), a)]) = Some (1 / 10)"
  by (simp add: merge_all_def mergeMapCellMeta_def toy_cell_def rankOf_def noted_def conf_of_def Let_def max_def)

subsection \<open>What the checksum detects\<close>

lemma fnv_step_inj:
  assumes "fnv_step h c = fnv_step h' c'" shows "h XOR word_of_nat c = h' XOR word_of_nat c'"
proof -
  have inv: "(16777619 :: 32 word) * 899433627 = 1" by simp
  have "(h XOR word_of_nat c) * (16777619 * 899433627) = (h' XOR word_of_nat c') * (16777619 * 899433627)"
    using arg_cong [OF assms [unfolded fnv_step_def], of "\<lambda>w. w * 899433627"] by (simp only: mult.assoc)
  then show ?thesis by (simp only: inv mult_1_right)
qed

lemma xor_cancel: "(w :: 32 word) XOR u = v XOR u \<longleftrightarrow> w = v"
proof
  assume "w XOR u = v XOR u"
  then have "(w XOR u) XOR u = (v XOR u) XOR u" by (rule arg_cong)
  then show "w = v" by (simp add: xor.assoc)
qed simp

lemma fnv_inj: "fnv h us = fnv h' us \<Longrightarrow> h = h'"
proof (induction us arbitrary: h h')
  case (Cons c us)
  then have "fnv_step h c = fnv_step h' c" by (simp add: fnv_def)
  then show ?case using fnv_step_inj xor_cancel by blast
qed (simp add: fnv_def)

text \<open>
  The 32-bit checksum detects every change of a single code unit of the hashed text: each step is a
  bijection of the hash state.
\<close>

theorem fnv_detects_single_change:
  assumes "c \<noteq> d" "c < 65536" "d < 65536"
  shows "fnv h (us @ c # vs) \<noteq> fnv h (us @ d # vs)"
proof
  assume "fnv h (us @ c # vs) = fnv h (us @ d # vs)"
  then have "fnv (fnv_step (fnv h us) c) vs = fnv (fnv_step (fnv h us) d) vs" by (simp add: fnv_def)
  then have "fnv h us XOR word_of_nat c = fnv h us XOR word_of_nat d" by (rule fnv_step_inj [OF fnv_inj])
  then have "(word_of_nat c :: 32 word) XOR fnv h us = word_of_nat d XOR fnv h us"
    unfolding xor.commute [of "fnv h us"] .
  then have "(word_of_nat c :: 32 word) = word_of_nat d" by (rule iffD1 [OF xor_cancel])
  then have "unat (word_of_nat c :: 32 word) = unat (word_of_nat d :: 32 word)" by simp
  with assms show False by (simp add: unat_of_nat)
qed

theorem fnv_detects_single_change_witness: "fnv 2166136261 ([52] @ 44 # [55]) \<noteq> fnv 2166136261 ([52] @ 45 # [55])"
  by (rule fnv_detects_single_change) simp_all

subsection \<open>Recovery keeps what both sides know\<close>

definition joined :: "fox_meta option \<Rightarrow> fox_meta option \<Rightarrow> (nat \<times> int \<times> int) option" where
  "joined a b = (case (a, b) of (Some x, Some y) \<Rightarrow> Some (max (stamp x) (stamp y)) | (Some x, None) \<Rightarrow> Some (stamp x)
     | (None, Some y) \<Rightarrow> Some (stamp y) | (None, None) \<Rightarrow> None)"

lemma hydrate_get:
  "distinct (map fst kvs) \<Longrightarrow> map_option stamp (js_get (fst (foldl (hydrate_cell overlay) acc kvs)) k) =
     (case map_of kvs k of Some r \<Rightarrow> joined (js_get overlay k) (Some r) | None \<Rightarrow> map_option stamp (js_get (fst acc) k))"
proof (induction kvs arbitrary: acc)
  case (Cons kv kvs)
  obtain k' r where kv: "kv = (k', r)" by (cases kv)
  have head: "map_option stamp (js_get (fst (hydrate_cell overlay acc kv)) k) =
      (if k = k' then joined (js_get overlay k') (Some r) else map_option stamp (js_get (fst acc) k))"
    by (cases "js_get overlay k'")
      (auto simp: hydrate_cell_def kv Let_def js_map_simps joined_def merge_stamp merge_none_stamp)
  have "map_of kvs k' = None" using Cons.prems by (simp add: kv map_of_eq_None_iff)
  with Cons head show ?case by (auto simp: kv split: option.split)
qed simp

lemma overlay_get:
  "distinct (map fst kvs) \<Longrightarrow> map_option stamp (js_get (foldl keep_overlay acc kvs) k) =
     (case js_get acc k of Some c \<Rightarrow> Some (stamp c) | None \<Rightarrow> map_option stamp (map_of kvs k))"
proof (induction kvs arbitrary: acc)
  case (Cons kv kvs)
  obtain k' r where kv: "kv = (k', r)" by (cases kv)
  have "map_of kvs k' = None" using Cons.prems by (simp add: kv map_of_eq_None_iff)
  with Cons show ?case by (auto simp: keep_overlay_def kv js_map_simps split: option.split)
qed (simp split: option.split)

text \<open>
  Rehydrating a returning node loses nothing: every cell of the collective map or of its own
  overlay is there, with the greater of the two stamps where both know it.
\<close>

theorem rehydration_joins:
  assumes "wf_map collective" "wf_map overlay"
  shows "map_option stamp (js_get (rr_mergedCells (rehydrateNodeFromCollective collective overlay)) k) =
     joined (js_get overlay k) (js_get collective k)"
proof -
  obtain cells n where fold: "foldl (hydrate_cell overlay) ([], 0) collective = (cells, n)" by (metis surj_pair)
  have "map_option stamp (js_get cells k) = (case js_get collective k of Some r \<Rightarrow> joined (js_get overlay k) (Some r) | None \<Rightarrow> None)"
    using hydrate_get [of collective overlay "([], 0)" k] assms(1) fold by (simp add: wf_map_def split: option.splits)
  moreover have "map_option stamp (js_get (foldl keep_overlay cells overlay) k) =
      (case js_get cells k of Some c \<Rightarrow> Some (stamp c) | None \<Rightarrow> map_option stamp (js_get overlay k))"
    by (rule overlay_get) (use assms(2) in \<open>simp add: wf_map_def\<close>)
  ultimately show ?thesis
    by (cases "js_get collective k"; cases "js_get overlay k"; cases "js_get cells k")
      (auto simp: rehydrateNodeFromCollective_def fold joined_def)
qed

theorem rehydration_joins_witness:
  "map_option stamp (js_get (rr_mergedCells (rehydrateNodeFromCollective [(''0,0'', toy_cell 2 1)] [(''0,0'', toy_cell 3 1)])) ''0,0'') =
     joined (Some (toy_cell 3 1)) (Some (toy_cell 2 1))"
  using rehydration_joins [of "[(''0,0'', toy_cell 2 1)]" "[(''0,0'', toy_cell 3 1)]" "''0,0''"] by (simp add: wf_map_def)

end
