(* ===== verification/FoxSync.thy ===== *)
theory FoxSync
  imports FoxMap Connectivity
begin

section \<open>The swarm map and its synchronisation\<close>

text \<open>
  Models \<open>sharedMap.ts\<close> and \<open>recoveryManager.ts\<close> of \<open>src/src/swarm\<close> and \<open>mapSyncEngine.ts\<close> and
  \<open>reconciliation.ts\<close> of \<open>src/src/foxmq\<close>. Grid coordinates are integers, since \<open>worldToGrid\<close> rounds, and
  \<open>Number\<close> is modelled on decimal integers, which is what the keys hold. The lemmas show
  what a delta merge keeps, that replicas agree on state and version, and what a synchronisation step can change.
\<close>

subsection \<open>Cell keys\<close>

definition read_number :: "string \<Rightarrow> int option" where
  "read_number s =
     (let neg = (s \<noteq> [] \<and> hd s = CHR ''-''); ds = (if neg then tl s else s)
      in if s = [] then Some 0
         else if ds \<noteq> [] \<and> list_all (\<lambda>c. (48::nat) \<le> of_char c \<and> of_char c \<le> (57::nat)) ds
         then Some (if neg then - int (read_digits ds) else int (read_digits ds))
         else None)"

fun split_on :: "char \<Rightarrow> string \<Rightarrow> string list" where
  "split_on sep [] = [[]]"
| "split_on sep (c # cs) =
     (if c = sep then [] # split_on sep cs
      else (case split_on sep cs of [] \<Rightarrow> [[c]] | w # ws \<Rightarrow> (c # w) # ws))"

definition parseCellKey :: "string \<Rightarrow> (int \<times> int) option" where
  "parseCellKey key =
     (case split_on (CHR '','') key of
        a # b # _ \<Rightarrow> (case (read_number a, read_number b) of (Some x, Some y) \<Rightarrow> Some (x, y) | _ \<Rightarrow> None)
      | _ \<Rightarrow> None)"

subsection \<open>The monotonic shared map\<close>

record swarm_map =
  mo_cells :: "(string, fox_meta) jsmap"
  mo_seq :: int

definition new_swarm_map :: "(string, fox_meta) jsmap \<Rightarrow> swarm_map" where
  "new_swarm_map initial = \<lparr> mo_cells = initial, mo_seq = 1 \<rparr>"

definition mergeCellMeta :: "fox_meta option \<Rightarrow> fox_meta \<Rightarrow> fox_meta" where
  "mergeCellMeta local remote = mergeMapCellMeta local remote (default_to (fm_lastNodeId remote) ''mesh'')"

definition getCell :: "string \<Rightarrow> swarm_map \<Rightarrow> fox_meta option" where
  "getCell k m = js_get (mo_cells m) k"

definition worldToGrid :: "real \<Rightarrow> real \<Rightarrow> real \<Rightarrow> int \<times> int" where
  "worldToGrid x z cellM = (js_round (x / cellM), js_round (z / cellM))"

definition local_meta :: "fox_meta option \<Rightarrow> fox_state \<Rightarrow> version \<Rightarrow> timestamp \<Rightarrow> ident \<Rightarrow> real option \<Rightarrow> proof_source \<Rightarrow> fox_meta" where
  "local_meta prev state v now nodeId conf source =
     \<lparr> fm_state = state, fm_version = v, fm_updatedAtMs = now, fm_lastNodeId = Some nodeId, fm_confidence01 = conf,
       fm_firstSeenBy = Some (default_to (Option.bind prev fm_firstSeenBy) nodeId), fm_proofSource = Some source,
       fm_dirtyLocal = Some True, fm_mergeLineage = None \<rparr>"

definition applyLocalUpdate :: "int \<Rightarrow> int \<Rightarrow> fox_state \<Rightarrow> timestamp \<Rightarrow> ident \<Rightarrow> real option \<Rightarrow> proof_source \<Rightarrow> swarm_map \<Rightarrow> swarm_map" where
  "applyLocalUpdate gx gz state now nodeId conf source m =
     (let key = makeCellId gx gz; prev = getCell key m
      in \<lparr> mo_cells = js_put key (mergeCellMeta prev (local_meta prev state (mo_seq m) now nodeId conf source)) (mo_cells m),
           mo_seq = mo_seq m + 1 \<rparr>)"

text \<open>One entry of a delta: the keys changed so far and the map.\<close>

definition delta_entry :: "ident \<Rightarrow> string list \<times> swarm_map \<Rightarrow> string \<times> fox_meta \<Rightarrow> string list \<times> swarm_map" where
  "delta_entry origin cm kv =
     (let (changed, m) = cm; prev = getCell (fst kv) m;
          peerCell = (mergeMapCellMeta prev (snd kv) origin)\<lparr>fm_dirtyLocal := Some False\<rparr>
      in if (case prev of None \<Rightarrow> True
             | Some p \<Rightarrow> fm_state peerCell \<noteq> fm_state p \<or> fm_version peerCell \<noteq> fm_version p
                 \<or> fm_confidence01 peerCell \<noteq> fm_confidence01 p)
         then (changed @ [fst kv], \<lparr> mo_cells = js_put (fst kv) peerCell (mo_cells m),
                 mo_seq = max (mo_seq m) (fm_version peerCell + 1) \<rparr>)
         else (changed, m))"

definition mergeDelta :: "fox_delta \<Rightarrow> swarm_map \<Rightarrow> string list \<times> swarm_map" where
  "mergeDelta d m = foldl (delta_entry (fd_originNodeId d)) ([], m) (fd_cells d)"

definition ground_explored :: "fox_state \<Rightarrow> bool" where
  "ground_explored s \<longleftrightarrow> s \<in> {FxSearched, FxSafe, FxTarget, FxBlocked, FxHazard, FxRelayCritical, FxUnreachable}"

definition isExplored :: "string \<Rightarrow> swarm_map \<Rightarrow> bool" where
  "isExplored k m = (case getCell k m of Some c \<Rightarrow> ground_explored (fm_state c) | None \<Rightarrow> False)"

definition grid_neighbors :: "int \<Rightarrow> int \<Rightarrow> string list" where
  "grid_neighbors gx gz = [makeCellId (gx + 1) gz, makeCellId (gx - 1) gz, makeCellId gx (gz + 1), makeCellId gx (gz - 1)]"

definition is_unknown :: "string \<Rightarrow> swarm_map \<Rightarrow> bool" where
  "is_unknown k m = (case getCell k m of None \<Rightarrow> True | Some c \<Rightarrow> fm_state c = FxUnknown)"

definition open_frontier :: "timestamp \<Rightarrow> ident \<Rightarrow> swarm_map \<Rightarrow> string \<Rightarrow> swarm_map" where
  "open_frontier now origin m nk =
     (if is_unknown nk m
      then (case parseCellKey nk of
              Some (gx, gz) \<Rightarrow> applyLocalUpdate gx gz FxFrontier now origin None PsLocalSensor m
            | None \<Rightarrow> m)
      else m)"

definition frontier_step :: "timestamp \<Rightarrow> ident \<Rightarrow> swarm_map \<Rightarrow> string \<Rightarrow> swarm_map" where
  "frontier_step now origin m k =
     (if \<not> isExplored k m then m
      else (case parseCellKey k of
              Some (gx, gz) \<Rightarrow> foldl (open_frontier now origin) m (grid_neighbors gx gz)
            | None \<Rightarrow> m))"

definition recomputeFrontiers :: "timestamp \<Rightarrow> ident \<Rightarrow> swarm_map \<Rightarrow> swarm_map" where
  "recomputeFrontiers now origin m = foldl (frontier_step now origin) m (js_keys (mo_cells m))"

record coverage_stats =
  st_total :: nat
  st_explored :: nat
  st_frontier :: nat
  st_target :: nat
  st_coverage01 :: real

definition coverageStats :: "swarm_map \<Rightarrow> coverage_stats" where
  "coverageStats m =
     (let explored = count_meta (\<lambda>c. is_explored (fm_state c)) (mo_cells m);
          frontier = count_meta (\<lambda>c. fm_state c = FxFrontier) (mo_cells m)
      in \<lparr> st_total = length (mo_cells m), st_explored = explored, st_frontier = frontier,
           st_target = count_meta (\<lambda>c. fm_state c = FxTarget) (mo_cells m),
           st_coverage01 = min 1 (real explored / real (max 1 (explored + frontier))) \<rparr>)"

definition frontierKeys :: "swarm_map \<Rightarrow> string list" where
  "frontierKeys m = map fst (filter (\<lambda>kc. fm_state (snd kc) = FxFrontier) (mo_cells m))"

definition exportDelta :: "string list \<Rightarrow> ident \<Rightarrow> timestamp \<Rightarrow> swarm_map \<Rightarrow> fox_delta" where
  "exportDelta keys origin now m =
     \<lparr> fd_cells = foldl (\<lambda>out k. case getCell k m of Some c \<Rightarrow> js_put k c out | None \<Rightarrow> out) [] keys,
       fd_originNodeId = origin, fd_emittedAtMs = now \<rparr>"

subsection \<open>Partition recovery\<close>

definition merge_cells_into :: "(string, fox_meta) jsmap \<Rightarrow> fox_delta \<Rightarrow> (string, fox_meta) jsmap" where
  "merge_cells_into acc d =
     foldl (\<lambda>acc kv. js_put (fst kv) (mergeCellMeta (js_get acc (fst kv)) (snd kv)) acc) acc (fd_cells d)"

definition mergePartitionMapDeltas :: "fox_delta list \<Rightarrow> (string, fox_meta) jsmap" where
  "mergePartitionMapDeltas ds = foldl merge_cells_into [] ds"

definition materializeMergedMap :: "(string, fox_meta) jsmap \<Rightarrow> swarm_map" where
  "materializeMergedMap cells = new_swarm_map cells"

definition reconcilePartitionDeltas :: "fox_delta list \<Rightarrow> (string, fox_meta) jsmap" where
  "reconcilePartitionDeltas buffers = mergePartitionMapDeltas buffers"

subsection \<open>The synchronisation engine\<close>

record sync_engine =
  se_missionId :: ident
  se_mapId :: ident
  se_ledger :: map_event_ledger
  se_partitionBuffer :: "fox_delta list"
  se_lastMeshMergeMs :: timestamp
  se_mergeConflictsResolved :: nat
  se_causalSeq :: int
  se_seenPayloadChecksums :: "string list"
  se_deltaSerial :: nat
  se_duplicateDrops :: nat

definition new_sync_engine :: "ident \<Rightarrow> ident \<Rightarrow> timestamp \<Rightarrow> sync_engine" where
  "new_sync_engine missionId mapId startMs =
     \<lparr> se_missionId = missionId, se_mapId = mapId, se_ledger = new_map_ledger, se_partitionBuffer = [],
       se_lastMeshMergeMs = startMs, se_mergeConflictsResolved = 0, se_causalSeq = 1, se_seenPayloadChecksums = [],
       se_deltaSerial = 1, se_duplicateDrops = 0 \<rparr>"

definition reset_sync_engine :: "timestamp \<Rightarrow> sync_engine \<Rightarrow> sync_engine" where
  "reset_sync_engine startMs se =
     se\<lparr> se_ledger := new_map_ledger, se_partitionBuffer := [], se_mergeConflictsResolved := 0, se_causalSeq := 1,
       se_seenPayloadChecksums := [], se_deltaSerial := 1, se_duplicateDrops := 0, se_lastMeshMergeMs := startMs \<rparr>"

definition computeMapVersion :: "swarm_map \<Rightarrow> sync_engine \<Rightarrow> int" where
  "computeMapVersion m se = max (foldl (\<lambda>v c. max v (fm_version c)) 0 (js_values (mo_cells m))) (se_causalSeq se)"

definition checksumDelta :: "fox_delta \<Rightarrow> string" where
  "checksumDelta d =
     show_nat (length (fd_cells d)) @ '':'' @ fd_originNodeId d @ '':'' @ show_int (fd_emittedAtMs d)"

text \<open>The arguments of a step; \<open>wall_ms\<close> is \<open>Date.now()\<close>, the last two are the JSON texts of a cell and of a ledger input.\<close>

record sync_args =
  sa_graph :: connectivity_snapshot
  sa_nowMs :: timestamp
  sa_rng :: "nat \<Rightarrow> real"
  sa_connectivityMode :: connectivity_mode
  sa_partitionManual :: bool
  sa_liveFoxAvailable :: bool
  sa_mockFallback :: bool
  sa_operatorNodeId :: ident
  sa_offlineNodeIds :: "ident list"
  sa_wall_ms :: timestamp
  sa_cell_text :: "fox_meta \<Rightarrow> units"
  sa_event_text :: "map_event_input \<Rightarrow> units"

definition partition_active :: "sync_args \<Rightarrow> bool" where
  "partition_active a \<longleftrightarrow> sa_partitionManual a \<or> sa_connectivityMode a = CmPartialPartition \<or> sa_connectivityMode a = CmBlackout"

definition worth_sharing :: "fox_state \<Rightarrow> bool" where
  "worth_sharing s \<longleftrightarrow> s \<in> {FxSearched, FxTarget, FxFrontier, FxBlocked, FxHazard, FxRelayCritical, FxUnreachable}"

definition shared_keys :: "swarm_map \<Rightarrow> string list" where
  "shared_keys m = filter (\<lambda>k. case getCell k m of Some c \<Rightarrow> worth_sharing (fm_state c) | None \<Rightarrow> False) (js_keys (mo_cells m))"

definition remember_checksum :: "string \<Rightarrow> string list \<Rightarrow> string list" where
  "remember_checksum c seen = (let s = set_add c seen in if length s > 500 then tl s else s)"

definition log_sync :: "sync_args \<Rightarrow> ident \<Rightarrow> memory_event \<Rightarrow> string list \<Rightarrow> ident list \<Rightarrow> memory_status \<Rightarrow> int \<Rightarrow> obj option \<Rightarrow>
    map_event_ledger \<Rightarrow> map_event_ledger" where
  "log_sync a node kind cells route status v payload lg =
     snd (append_map_event (sa_event_text a) (sa_wall_ms a)
       \<lparr> ei_nodeId = node, ei_eventType = kind, ei_affectedCells = cells, ei_previousHash = None, ei_mapVersion = Some v,
         ei_relayRoute = route, ei_commitStatus = status, ei_payload = payload, ei_timestamp = None \<rparr> lg)"

definition peer_cells :: "(string, fox_meta) jsmap \<Rightarrow> (string, fox_meta) jsmap" where
  "peer_cells cells = map (\<lambda>(k, v). (k, v\<lparr> fm_proofSource := Some PsPeerMesh, fm_dirtyLocal := Some False \<rparr>)) cells"

definition conflict_count :: "swarm_map \<Rightarrow> swarm_map \<Rightarrow> string list \<Rightarrow> nat" where
  "conflict_count before m keys =
     length (filter (\<lambda>k. case (getCell k before, getCell k m) of
        (Some p, Some n) \<Rightarrow> fm_state p \<noteq> fm_state n \<or> fm_version p \<noteq> fm_version n | _ \<Rightarrow> False) keys)"

text \<open>What the loop over the edges carries: the map, the engine, the draws made, the merges and the last peer.\<close>

record sync_run =
  sr_map :: swarm_map
  sr_engine :: sync_engine
  sr_draws :: nat
  sr_merges :: nat
  sr_lastPeer :: "ident option"

definition merge_edge :: "sync_args \<Rightarrow> graph_edge \<Rightarrow> fox_delta \<Rightarrow> sync_run \<Rightarrow> sync_run" where
  "merge_edge a e raw r =
     (let before = sr_map r; se = sr_engine r;
          (changed, m) = mergeDelta \<lparr> fd_cells = peer_cells (fd_cells raw), fd_originNodeId = ge_b e, fd_emittedAtMs = sa_nowMs a \<rparr> before;
          se1 = se\<lparr> se_mergeConflictsResolved := se_mergeConflictsResolved se + conflict_count before m changed,
            se_lastMeshMergeMs := sa_nowMs a, se_causalSeq := se_causalSeq se + 1 \<rparr>;
          built = buildMapDelta (sa_cell_text a) (''d-'' @ show_nat (se_deltaSerial se)) (ge_a e) (se_missionId se) (se_mapId se)
            (computeMapVersion m se1) (fd_cells raw) (se_causalSeq se1) (sa_nowMs a);
          se2 = se1\<lparr> se_deltaSerial := se_deltaSerial se + 1,
            se_ledger := log_sync a (ge_a e) MeMapDelta changed [ge_a e, ge_b e] MsCommitted (dm_causalSeq built)
              (Some [(''deltaId'', JStr (dm_deltaId built)), (''checksum'', JStr (dm_checksum built))]) (se_ledger se1) \<rparr>
      in r\<lparr> sr_map := m, sr_engine := se2, sr_merges := sr_merges r + length changed, sr_lastPeer := Some (ge_b e) \<rparr>)"

definition sync_edge :: "sync_args \<Rightarrow> sync_run \<Rightarrow> graph_edge \<Rightarrow> sync_run" where
  "sync_edge a r e =
     (if ge_quality01 e < 8 / 100 then r
      else
        (let se = sr_engine r; k = sr_draws r;
             sample = take (6 + nat \<lfloor>sa_rng a k * 6\<rfloor>) (shared_keys (sr_map r));
             r1 = r\<lparr>sr_draws := k + 1\<rparr>
         in if length sample < 2 then r1
            else
              (let raw = exportDelta sample (ge_a e) (sa_nowMs a) (sr_map r); sum = checksumDelta raw
               in if sum \<in> set (se_seenPayloadChecksums se)
                  then r1\<lparr>sr_engine := se\<lparr>se_duplicateDrops := se_duplicateDrops se + 1\<rparr>\<rparr>
                  else
                    (let se1 = se\<lparr>se_seenPayloadChecksums := remember_checksum sum (se_seenPayloadChecksums se)\<rparr>;
                         part = partition_active a;
                         r2 = r1\<lparr> sr_engine := se1, sr_draws := (if part then k + 2 else k + 1) \<rparr>
                     in if part \<and> sa_rng a (k + 1) < 38 / 100
                        then r2\<lparr>sr_engine := se1\<lparr> se_partitionBuffer := se_partitionBuffer se1 @ [raw],
                            se_ledger := log_sync a (ge_a e) MeOfflineBuffer (js_keys (fd_cells raw)) [ge_a e, ge_b e] MsPending
                              (se_causalSeq se1) None (se_ledger se1) \<rparr>\<rparr>
                        else
                          (let r3 = r2\<lparr>sr_draws := sr_draws r2 + 1\<rparr>
                           in if sa_rng a (sr_draws r2) > 55 / 100 + ge_quality01 e * (35 / 100) then r3
                              else merge_edge a e raw r3)))))"

definition flush_buffer :: "sync_args \<Rightarrow> sync_run \<Rightarrow> sync_run" where
  "flush_buffer a r =
     (let se = sr_engine r
      in if \<not> partition_active a \<and> se_partitionBuffer se \<noteq> []
         then (let merged = mergePartitionMapDeltas (se_partitionBuffer se);
                   beforeKeys = js_keys (mo_cells (sr_map r));
                   (changed, m) = mergeDelta \<lparr> fd_cells = merged, fd_originNodeId = sa_operatorNodeId a, fd_emittedAtMs = sa_nowMs a \<rparr> (sr_map r)
               in r\<lparr> sr_map := m, sr_merges := sr_merges r + length changed,
                    sr_engine := se\<lparr> se_mergeConflictsResolved := se_mergeConflictsResolved se
                          + length (filter (\<lambda>k. k \<notin> set beforeKeys) changed),
                        se_causalSeq := se_causalSeq se + 1,
                        se_ledger := log_sync a (sa_operatorNodeId a) MeRecoveryMerge changed
                          [''partition_buffer'', sa_operatorNodeId a] MsCommitted (se_causalSeq se + 1) None (se_ledger se),
                        se_partitionBuffer := [], se_lastMeshMergeMs := sa_nowMs a \<rparr> \<rparr>)
         else r)"

record sync_view =
  sv_mapVersion :: int
  sv_lastSnapshot :: fox_snapshot
  sv_dirtyDeltaCount :: nat
  sv_syncLagMs :: int
  sv_causalSeq :: int
  sv_partitionBufferSize :: nat
  sv_recoveryProgress01 :: real
  sv_collectiveMemoryHealth01 :: real
  sv_mergeConflictsResolved :: nat
  sv_meshMergesThisTick :: nat
  sv_lastSyncPeer :: "ident option"
  sv_live :: bool
  sv_liveFoxAvailable :: bool
  sv_offlineContributionsPreserved :: "(ident, nat) jsmap"
  sv_ledgerEventCount :: nat
  sv_duplicateDeltasDropped :: nat

definition count_owner :: "ident list \<Rightarrow> (ident, nat) jsmap \<Rightarrow> fox_meta \<Rightarrow> (ident, nat) jsmap" where
  "count_owner offline acc c =
     (case nullish (fm_firstSeenBy c) (fm_lastNodeId c) of
        None \<Rightarrow> acc
      | Some owner \<Rightarrow> if owner = [] \<or> owner \<notin> set offline then acc
                      else js_put owner (default_to (js_get acc owner) 0 + 1) acc)"

definition sync_report :: "sync_args \<Rightarrow> sync_run \<Rightarrow> sync_view" where
  "sync_report a r =
     (let m = sr_map r; se = sr_engine r; cells = mo_cells m; v = computeMapVersion m se;
          shot = buildMapSnapshot (sa_cell_text a) (se_mapId se) v (sa_nowMs a) cells (sr_lastPeer r)
            (Some (if sa_mockFallback a then [''mock_foxmq'', ''mesh''] else [''live_foxmq'', ''mesh'']))
      in \<lparr> sv_mapVersion = v, sv_lastSnapshot = shot, sv_dirtyDeltaCount = fs_dirtyDeltaCount shot,
           sv_syncLagMs = max 0 (sa_nowMs a - se_lastMeshMergeMs se), sv_causalSeq = se_causalSeq se,
           sv_partitionBufferSize = length (se_partitionBuffer se),
           sv_recoveryProgress01 = (if partition_active a then min 1 (1 - real (length (se_partitionBuffer se)) / 20) else 1),
           sv_collectiveMemoryHealth01 = min 1 ((real (sr_merges r) * (8 / 100) + (if cells \<noteq> [] then 35 / 100 else 0)
             + (if sa_offlineNodeIds a \<noteq> [] then 25 / 100 else 1 / 10)) / max (4 / 10) 1),
           sv_mergeConflictsResolved = se_mergeConflictsResolved se, sv_meshMergesThisTick = sr_merges r,
           sv_lastSyncPeer = sr_lastPeer r, sv_live = (\<not> sa_mockFallback a), sv_liveFoxAvailable = sa_liveFoxAvailable a,
           sv_offlineContributionsPreserved = foldl (count_owner (sa_offlineNodeIds a)) [] (js_values cells),
           sv_ledgerEventCount = length (el_events (se_ledger se)), sv_duplicateDeltasDropped = se_duplicateDrops se \<rparr>)"

definition sync_edges :: "sync_args \<Rightarrow> swarm_map \<Rightarrow> sync_engine \<Rightarrow> sync_run" where
  "sync_edges a m se =
     foldl (sync_edge a) \<lparr> sr_map = m, sr_engine = se, sr_draws = 0, sr_merges = 0, sr_lastPeer = None \<rparr> (cs_edges (sa_graph a))"

text \<open>The whole step: the view it returns, the map and the engine after it.\<close>

definition sync_step :: "sync_args \<Rightarrow> swarm_map \<Rightarrow> sync_engine \<Rightarrow> sync_view \<times> swarm_map \<times> sync_engine" where
  "sync_step a m se = (let r = flush_buffer a (sync_edges a m se) in (sync_report a r, sr_map r, sr_engine r))"

subsection \<open>Keys round-trip\<close>

lemma split_on_append: "sep \<notin> set u \<Longrightarrow> split_on sep (u @ sep # v) = u # split_on sep v"
  by (induction u) auto

lemma split_on_none: "sep \<notin> set u \<Longrightarrow> split_on sep u = [u]"
  by (induction u) auto

lemma show_int_no_comma: "CHR '','' \<notin> set (show_int i)"
  using show_nat_digits [of "CHR '',''"] by (auto simp: show_int_def)

lemma show_nat_not_Nil [simp]: "show_nat n \<noteq> []"
  by (subst show_nat.simps) simp

lemma read_show_int [simp]: "read_number (show_int i) = Some i"
proof -
  have digits: "list_all (\<lambda>c. (48::nat) \<le> of_char c \<and> of_char c \<le> (57::nat)) (show_nat n)" for n
    unfolding list_all_iff using show_nat_digits [of _ n] by fastforce
  have "hd (show_nat n) \<noteq> CHR ''-''" for n
    using show_nat_digits [of "CHR ''-''" n] hd_in_set [OF show_nat_not_Nil [of n]] by fastforce
  with digits show ?thesis by (simp add: read_number_def show_int_def)
qed

lemma parse_makeCellId [simp]: "parseCellKey (makeCellId gx gz) = Some (gx, gz)"
  by (simp add: parseCellKey_def makeCellId_def split_on_append split_on_none show_int_no_comma)

text \<open>
  Every key the map makes is read back to its coordinates, and different coordinates have
  different keys.
\<close>

theorem cell_key_roundtrip:
  "parseCellKey (makeCellId gx gz) = Some (gx, gz) \<and> (makeCellId gx gz = makeCellId gx' gz') = (gx = gx' \<and> gz = gz')"
  by (metis Pair_inject option.inject parse_makeCellId)

subsection \<open>A delta merge joins state and version\<close>

text \<open>The rank of the state and the version: what a delta merge compares before it stores a cell.\<close>

definition core :: "fox_meta \<Rightarrow> nat \<times> int" where
  "core c = (rankOf c, fm_version c)"

fun opt_max :: "'a::linorder option \<Rightarrow> 'a option \<Rightarrow> 'a option" where
  "opt_max None y = y"
| "opt_max (Some a) None = Some a"
| "opt_max (Some a) (Some b) = Some (max a b)"

lemma opt_max_None [simp]: "opt_max x None = x"
  by (cases x) auto

lemma opt_max_assoc: "opt_max (opt_max x y) z = opt_max x (opt_max y z)"
  by (cases x; cases y; cases z) (auto simp: max.assoc)

definition core_at :: "string \<Rightarrow> swarm_map \<Rightarrow> (nat \<times> int) option" where
  "core_at k m = map_option core (getCell k m)"

lemma core_frame [simp]:
  "core (m\<lparr>fm_dirtyLocal := b\<rparr>) = core m" "core (m\<lparr>fm_proofSource := d\<rparr>) = core m"
  by (simp_all add: core_def rankOf_def)

lemma merge_core: "core (mergeMapCellMeta prev r origin) = the (opt_max (map_option core prev) (Some (core r)))"
proof (cases prev)
  case None
  then show ?thesis using merge_none_stamp [of r origin] by (simp add: core_def stamp_def)
next
  case (Some l)
  then show ?thesis using merge_stamp [of l r origin]
    by (auto simp: core_def stamp_def max_def split: if_splits)
qed

lemma core_eq: "core a = core b \<longleftrightarrow> fm_state a = fm_state b \<and> fm_version a = fm_version b"
  using fox_rank_inj by (auto simp: core_def rankOf_def)

lemma getCell_put [simp]:
  "getCell k \<lparr> mo_cells = js_put k' c (mo_cells m), mo_seq = q \<rparr> = (if k = k' then Some c else getCell k m)"
  by (simp add: getCell_def js_map_simps)

lemma delta_entry_core:
  "core_at k (snd (delta_entry origin cm kv)) =
     (if k = fst kv then opt_max (core_at k (snd cm)) (Some (core (snd kv))) else core_at k (snd cm))"
proof -
  let ?p = "getCell (fst kv) (snd cm)"
  let ?n = "(mergeMapCellMeta ?p (snd kv) origin)\<lparr>fm_dirtyLocal := Some False\<rparr>"
  have n: "Some (core ?n) = opt_max (map_option core ?p) (Some (core (snd kv)))"
    by (cases ?p) (simp_all add: merge_core)
  show ?thesis
  proof (cases ?p)
    case None
    with n show ?thesis by (auto simp: delta_entry_def split_beta Let_def core_at_def)
  next
    case (Some p)
    have "fm_state ?n = fm_state p \<and> fm_version ?n = fm_version p \<Longrightarrow> core ?n = core p" by (simp only: core_eq)
    with n Some show ?thesis by (auto simp: delta_entry_def split_beta Let_def core_at_def)
  qed
qed

text \<open>The cores that a list of entries carries for a key.\<close>

definition entry_cores :: "string \<Rightarrow> (string, fox_meta) jsmap \<Rightarrow> (nat \<times> int) list" where
  "entry_cores k kvs = map (core \<circ> snd) (filter (\<lambda>kv. fst kv = k) kvs)"

definition heard :: "string \<Rightarrow> fox_delta list \<Rightarrow> (nat \<times> int) list" where
  "heard k ds = concat (map (\<lambda>d. entry_cores k (fd_cells d)) ds)"

definition greatest :: "'a::linorder list \<Rightarrow> 'a option" where
  "greatest xs = (if xs = [] then None else Some (Max (set xs)))"

lemma greatest_Cons: "greatest (x # xs) = opt_max (Some x) (greatest xs)"
  by (simp add: greatest_def)

lemma greatest_append: "greatest (xs @ ys) = opt_max (greatest xs) (greatest ys)"
  by (induction xs) (simp_all add: greatest_Cons opt_max_assoc, simp add: greatest_def)

lemma delta_fold_core:
  "core_at k (snd (foldl (delta_entry origin) cm kvs)) = opt_max (core_at k (snd cm)) (greatest (entry_cores k kvs))"
proof (induction kvs arbitrary: cm)
  case (Cons kv kvs)
  then show ?case by (simp add: delta_entry_core entry_cores_def greatest_Cons opt_max_assoc)
qed (simp add: entry_cores_def greatest_def)

lemma mergeDelta_core: "core_at k (snd (mergeDelta d m)) = opt_max (core_at k m) (greatest (entry_cores k (fd_cells d)))"
  by (simp add: mergeDelta_def delta_fold_core)

definition receive_all :: "fox_delta list \<Rightarrow> swarm_map" where
  "receive_all ds = foldl (\<lambda>m d. snd (mergeDelta d m)) (new_swarm_map []) ds"

text \<open>
  C32. Swarm maps converge on state and version: after any sequence of deltas, in any order, with any
  repetitions and from any origins, each cell has the greatest state rank and version received for its key.
\<close>

theorem swarm_maps_converge: "core_at k (receive_all ds) = greatest (heard k ds)"
proof (induction ds rule: rev_induct)
  case Nil
  show ?case by (simp add: receive_all_def core_at_def getCell_def new_swarm_map_def heard_def greatest_def)
next
  case (snoc d ds)
  then show ?case by (simp add: receive_all_def mergeDelta_core heard_def greatest_append)
qed

subsection \<open>Merging again changes nothing\<close>

text \<open>A cell has absorbed another one when merging it changes neither state, version nor confidence.\<close>

definition absorbed :: "ident \<Rightarrow> fox_meta \<Rightarrow> fox_meta \<Rightarrow> bool" where
  "absorbed origin r c \<longleftrightarrow>
     (let n = mergeMapCellMeta (Some c) r origin
      in fm_state n = fm_state c \<and> fm_version n = fm_version c \<and> fm_confidence01 n = fm_confidence01 c)"

lemma absorbedI:
  assumes "stamp r \<le> stamp c" "stamp r = stamp c \<Longrightarrow> conf_of r \<le> conf_of c" shows "absorbed origin r c"
proof -
  have le: "rankOf r < rankOf c \<or> rankOf r = rankOf c \<and> (fm_version r < fm_version c
      \<or> fm_version r = fm_version c \<and> (fm_updatedAtMs r < fm_updatedAtMs c
        \<or> fm_updatedAtMs r = fm_updatedAtMs c \<and> conf_of r \<le> conf_of c))"
    using assms by (auto simp: stamp_def)
  show ?thesis
    unfolding absorbed_def mergeMapCellMeta_def option.case Let_def using le by (auto simp: noted_def)
qed

lemma merge_conf: "stamp (mergeMapCellMeta prev r origin) = stamp r \<Longrightarrow> conf_of r \<le> conf_of (mergeMapCellMeta prev r origin)"
proof (cases prev)
  case (Some l)
  assume "stamp (mergeMapCellMeta prev r origin) = stamp r"
  then have "stamp l \<le> stamp r" unfolding Some merge_stamp by (metis max.cobounded1)
  then have "rankOf l < rankOf r \<or> rankOf l = rankOf r \<and> (fm_version l < fm_version r
      \<or> fm_version l = fm_version r \<and> fm_updatedAtMs l \<le> fm_updatedAtMs r)"
    by (auto simp: stamp_def)
  then show ?thesis
    unfolding Some mergeMapCellMeta_def option.case Let_def by (auto simp: noted_def conf_of_def)
qed (simp add: mergeMapCellMeta_def noted_def conf_of_def)

lemma merged_absorbed: "absorbed origin r ((mergeMapCellMeta prev r origin)\<lparr>fm_dirtyLocal := Some False\<rparr>)"
proof (rule absorbedI)
  show "stamp r \<le> stamp ((mergeMapCellMeta prev r origin)\<lparr>fm_dirtyLocal := Some False\<rparr>)"
    by (cases prev) (simp_all add: merge_stamp merge_none_stamp)
  assume "stamp r = stamp ((mergeMapCellMeta prev r origin)\<lparr>fm_dirtyLocal := Some False\<rparr>)"
  then show "conf_of r \<le> conf_of ((mergeMapCellMeta prev r origin)\<lparr>fm_dirtyLocal := Some False\<rparr>)"
    using merge_conf [of prev r origin] by (simp add: conf_of_def)
qed

definition settled :: "ident \<Rightarrow> string \<times> fox_meta \<Rightarrow> swarm_map \<Rightarrow> bool" where
  "settled origin kv m = (case getCell (fst kv) m of Some c \<Rightarrow> absorbed origin (snd kv) c | None \<Rightarrow> False)"

lemma settled_noop: "settled origin kv m \<Longrightarrow> delta_entry origin (changed, m) kv = (changed, m)"
  by (auto simp: settled_def delta_entry_def absorbed_def Let_def split: option.splits)

lemma settled_all_noop:
  "list_all (\<lambda>kv. settled origin kv m) kvs \<Longrightarrow> foldl (delta_entry origin) (changed, m) kvs = (changed, m)"
  by (induction kvs) (simp_all add: settled_noop)

lemma delta_entry_settles: "settled origin kv (snd (delta_entry origin cm kv))"
  using merged_absorbed [of origin "snd kv"]
  by (cases "getCell (fst kv) (snd cm)")
    (auto simp: delta_entry_def split_beta settled_def absorbed_def Let_def)

lemma delta_entry_other: "k \<noteq> fst kv \<Longrightarrow> getCell k (snd (delta_entry origin cm kv)) = getCell k (snd cm)"
  by (auto simp: delta_entry_def split_beta Let_def)

lemma delta_fold_other:
  "k \<notin> fst ` set kvs \<Longrightarrow> getCell k (snd (foldl (delta_entry origin) cm kvs)) = getCell k (snd cm)"
  by (induction kvs arbitrary: cm) (simp_all add: delta_entry_other)

lemma delta_fold_settles:
  "distinct (map fst kvs) \<Longrightarrow> list_all (\<lambda>kv. settled origin kv (snd (foldl (delta_entry origin) cm kvs))) kvs"
proof (induction kvs arbitrary: cm)
  case (Cons kv kvs)
  have "settled origin kv (snd (foldl (delta_entry origin) (delta_entry origin cm kv) kvs))"
    using delta_entry_settles [of origin kv cm] Cons.prems
    by (simp add: settled_def delta_fold_other image_iff)
  with Cons show ?case by simp
qed simp

text \<open>
  Delivering a delta again changes nothing: no key is reported, and cells and sequence number stay.
\<close>

theorem delta_redelivery_noop:
  assumes "wf_map (fd_cells d)" shows "mergeDelta d (snd (mergeDelta d m)) = ([], snd (mergeDelta d m))"
  using assms unfolding mergeDelta_def by (intro settled_all_noop delta_fold_settles) (simp add: wf_map_def)

theorem delta_redelivery_noop_witness:
  "mergeDelta (deltaFromRecord [(''0,0'', toy_cell 2 1)] ''n1'' 5) (snd (mergeDelta (deltaFromRecord [(''0,0'', toy_cell 2 1)] ''n1'' 5) (new_swarm_map [])))
     = ([], snd (mergeDelta (deltaFromRecord [(''0,0'', toy_cell 2 1)] ''n1'' 5) (new_swarm_map [])))"
  by (rule delta_redelivery_noop) (simp add: wf_map_def deltaFromRecord_def)

subsection \<open>What a synchronisation step changes\<close>

lemma exported_cells: "kv \<in> set (fd_cells (exportDelta keys origin now m)) \<Longrightarrow> getCell (fst kv) m = Some (snd kv)"
proof -
  have "kv \<in> set (foldl (\<lambda>out k. case getCell k m of Some c \<Rightarrow> js_put k c out | None \<Rightarrow> out) acc keys) \<Longrightarrow>
      (kv \<in> set acc \<longrightarrow> getCell (fst kv) m = Some (snd kv)) \<Longrightarrow> (\<And>kv. kv \<in> set acc \<Longrightarrow> getCell (fst kv) m = Some (snd kv)) \<Longrightarrow>
      getCell (fst kv) m = Some (snd kv)" for acc
  proof (induction keys arbitrary: acc)
    case (Cons k keys)
    have upd: "x \<in> set (js_put k c out) \<Longrightarrow> x = (k, c) \<or> x \<in> set out" for x c and out :: "(string, fox_meta) jsmap"
      by (induction out) (auto split: if_splits)
    show ?case
    proof (cases "getCell k m")
      case None
      with Cons show ?thesis by auto
    next
      case (Some c)
      have "\<And>x. x \<in> set (js_put k c acc) \<Longrightarrow> getCell (fst x) m = Some (snd x)" using upd Cons.prems(3) Some by fastforce
      with Cons.IH [of "js_put k c acc"] Cons.prems(1) Some show ?thesis by auto
    qed
  qed simp
  from this [of "[]"] show "kv \<in> set (fd_cells (exportDelta keys origin now m)) \<Longrightarrow> ?thesis" by (simp add: exportDelta_def)
qed

lemma own_delta_noop:
  "mergeDelta \<lparr> fd_cells = peer_cells (fd_cells (exportDelta keys a now m)), fd_originNodeId = origin, fd_emittedAtMs = t \<rparr> m = ([], m)"
proof -
  have "settled origin kv m" if "kv \<in> set (peer_cells (fd_cells (exportDelta keys a now m)))" for kv
  proof -
    from that obtain c where c: "(fst kv, c) \<in> set (fd_cells (exportDelta keys a now m))"
      "snd kv = c\<lparr> fm_proofSource := Some PsPeerMesh, fm_dirtyLocal := Some False \<rparr>"
      by (auto simp: peer_cells_def)
    have "absorbed origin (snd kv) c" by (rule absorbedI) (simp_all add: c conf_of_def)
    with exported_cells [OF c(1)] show ?thesis by (simp add: settled_def)
  qed
  then show ?thesis by (simp add: mergeDelta_def settled_all_noop list_all_iff)
qed

lemma sync_edge_idle:
  "sr_map (sync_edge a r e) = sr_map r \<and> sr_merges (sync_edge a r e) = sr_merges r
   \<and> se_mergeConflictsResolved (sr_engine (sync_edge a r e)) = se_mergeConflictsResolved (sr_engine r)"
  by (simp add: sync_edge_def merge_edge_def own_delta_noop conflict_count_def Let_def)

lemma sync_edges_idle:
  "sr_map (foldl (sync_edge a) r es) = sr_map r \<and> sr_merges (foldl (sync_edge a) r es) = sr_merges r
   \<and> se_mergeConflictsResolved (sr_engine (foldl (sync_edge a) r es)) = se_mergeConflictsResolved (sr_engine r)"
  by (induction es arbitrary: r) (simp_all add: sync_edge_idle)

text \<open>
  Mesh synchronisation has no effect: the loop over the edges exports cells of the map and merges
  them back into the same map, so the map, the merge count and the count of resolved conflicts stay what they
  were, whatever the graph, the draws and the connectivity.
\<close>

theorem edge_sync_changes_nothing:
  "sr_map (sync_edges a m se) = m \<and> sr_merges (sync_edges a m se) = 0
   \<and> se_mergeConflictsResolved (sr_engine (sync_edges a m se)) = se_mergeConflictsResolved se"
  by (simp add: sync_edges_def sync_edges_idle)

lemma sync_edge_buffer:
  "\<not> partition_active a \<Longrightarrow> se_partitionBuffer (sr_engine (sync_edge a r e)) = se_partitionBuffer (sr_engine r)"
  by (simp add: sync_edge_def merge_edge_def own_delta_noop Let_def)

lemma sync_edges_buffer:
  "\<not> partition_active a \<Longrightarrow> se_partitionBuffer (sr_engine (foldl (sync_edge a) r es)) = se_partitionBuffer (sr_engine r)"
  by (induction es arbitrary: r) (simp_all add: sync_edge_buffer)

lemma merge_cells_into_core:
  "map_option core (js_get (merge_cells_into acc d) k) = opt_max (map_option core (js_get acc k)) (greatest (entry_cores k (fd_cells d)))"
proof -
  have "map_option core (js_get (foldl (\<lambda>acc kv. js_put (fst kv) (mergeCellMeta (js_get acc (fst kv)) (snd kv)) acc) acc kvs) k) =
      opt_max (map_option core (js_get acc k)) (greatest (entry_cores k kvs))" for kvs
  proof (induction kvs arbitrary: acc)
    case Nil
    show ?case by (simp add: entry_cores_def greatest_def)
  next
    case (Cons kv kvs)
    have "map_option core (js_get (js_put (fst kv) (mergeCellMeta (js_get acc (fst kv)) (snd kv)) acc) k) =
        (if k = fst kv then opt_max (map_option core (js_get acc k)) (Some (core (snd kv))) else map_option core (js_get acc k))"
      by (cases "js_get acc (fst kv)") (auto simp: js_map_simps mergeCellMeta_def merge_core)
    then show ?case unfolding foldl.simps Cons.IH by (simp add: entry_cores_def greatest_Cons opt_max_assoc)
  qed
  then show ?thesis by (simp add: merge_cells_into_def)
qed

lemma partition_merge_core: "map_option core (js_get (mergePartitionMapDeltas ds) k) = greatest (heard k ds)"
proof (induction ds rule: rev_induct)
  case Nil
  show ?case by (simp add: mergePartitionMapDeltas_def heard_def greatest_def)
next
  case (snoc d ds)
  then show ?case by (simp add: mergePartitionMapDeltas_def merge_cells_into_core heard_def greatest_append)
qed

lemma wf_put_fold: "wf_map acc \<Longrightarrow> wf_map (foldl (\<lambda>acc kv. js_put (fst kv) (f acc kv) acc) acc kvs)"
  by (induction kvs arbitrary: acc) (simp_all add: jsm.invar_insert)

lemma wf_partition_merge: "wf_map (mergePartitionMapDeltas ds)"
proof -
  have "wf_map acc \<Longrightarrow> wf_map (merge_cells_into acc d)" for acc d
    unfolding merge_cells_into_def by (rule wf_put_fold)
  then have "wf_map acc \<Longrightarrow> wf_map (foldl merge_cells_into acc ds)" for acc
    by (induction ds arbitrary: acc) auto
  then show ?thesis by (simp add: mergePartitionMapDeltas_def wf_map_def)
qed

lemma entry_cores_wf: "wf_map kvs \<Longrightarrow> greatest (entry_cores k kvs) = map_option core (js_get kvs k)"
proof (induction kvs)
  case (Cons kv kvs)
  have "fst kv \<notin> fst ` set kvs" "wf_map kvs" using Cons.prems by (auto simp: wf_map_def)
  moreover from this have "filter (\<lambda>x. fst x = fst kv) kvs = []" by (auto simp: filter_empty_conv image_iff)
  ultimately show ?case using Cons.IH by (cases "fst kv = k") (auto simp: entry_cores_def greatest_def)
qed (simp add: entry_cores_def greatest_def)

text \<open>
  A step adds to the map exactly what the partition buffer holds: during a partition nothing, afterwards each
  cell has the greatest state rank and version of the map and the buffered deltas, and the buffer is empty.
\<close>

theorem sync_step_delivers_buffer:
  "(let (view, m', se') = sync_step a m se
    in core_at k m' = (if partition_active a then core_at k m else opt_max (core_at k m) (greatest (heard k (se_partitionBuffer se))))
       \<and> (partition_active a \<or> se_partitionBuffer se' = []))"
proof -
  let ?r = "sync_edges a m se"
  have r: "sr_map ?r = m" "\<not> partition_active a \<Longrightarrow> se_partitionBuffer (sr_engine ?r) = se_partitionBuffer se"
    by (simp_all add: sync_edges_def sync_edges_idle sync_edges_buffer)
  show ?thesis
  proof (cases "partition_active a \<or> se_partitionBuffer se = []")
    case True
    then show ?thesis using r by (auto simp: sync_step_def flush_buffer_def Let_def heard_def greatest_def)
  next
    case False
    with r show ?thesis
      by (simp add: sync_step_def flush_buffer_def Let_def split_beta mergeDelta_core entry_cores_wf wf_partition_merge
          partition_merge_core)
  qed
qed

subsection \<open>Versions stay below the sequence number\<close>

datatype swarm_op =
    OpLocal int int fox_state timestamp ident "real option" proof_source
  | OpDelta fox_delta
  | OpFrontiers timestamp ident

fun swarm_apply :: "swarm_map \<Rightarrow> swarm_op \<Rightarrow> swarm_map" where
  "swarm_apply m (OpLocal gx gz state now nodeId conf source) = applyLocalUpdate gx gz state now nodeId conf source m"
| "swarm_apply m (OpDelta d) = snd (mergeDelta d m)"
| "swarm_apply m (OpFrontiers now origin) = recomputeFrontiers now origin m"

definition swarm_run :: "swarm_op list \<Rightarrow> swarm_map" where
  "swarm_run ops = foldl swarm_apply (new_swarm_map []) ops"

definition swarm_ok :: "swarm_map \<Rightarrow> bool" where
  "swarm_ok m \<longleftrightarrow> wf_map (mo_cells m) \<and> list_all (\<lambda>c. fm_version c < mo_seq m) (js_values (mo_cells m))"

lemma swarm_ok_get: "swarm_ok m \<Longrightarrow> getCell k m = Some c \<Longrightarrow> fm_version c < mo_seq m"
  by (force simp: swarm_ok_def getCell_def list_all_iff js_values_def dest: map_of_SomeD)

lemma swarm_ok_put:
  assumes "swarm_ok m" "mo_seq m \<le> q" "fm_version c < q"
  shows "swarm_ok \<lparr> mo_cells = js_put k c (mo_cells m), mo_seq = q \<rparr>"
  using assms by (force simp: swarm_ok_def list_all_iff jsm.invar_insert dest: js_values_update)

lemma merged_version: "fm_version (mergeMapCellMeta prev r origin) \<le> (case prev of None \<Rightarrow> fm_version r | Some l \<Rightarrow> max (fm_version l) (fm_version r))"
proof (cases prev)
  case (Some l)
  then show ?thesis using merge_core [of prev r origin] by (auto simp: core_def max_def split: if_splits)
qed (simp add: mergeMapCellMeta_def noted_def)

lemma local_update_ok [inv_intros]: "swarm_ok m \<Longrightarrow> swarm_ok (applyLocalUpdate gx gz state now nodeId conf source m)"
proof -
  assume ok: "swarm_ok m"
  let ?k = "makeCellId gx gz"
  let ?n = "mergeCellMeta (getCell ?k m) (local_meta (getCell ?k m) state (mo_seq m) now nodeId conf source)"
  have "fm_version ?n \<le> (case getCell ?k m of None \<Rightarrow> mo_seq m | Some l \<Rightarrow> max (fm_version l) (mo_seq m))"
    unfolding mergeCellMeta_def by (rule order_trans [OF merged_version]) (simp add: local_meta_def split: option.split)
  then have "fm_version ?n < mo_seq m + 1"
    using swarm_ok_get [OF ok, of ?k] by (auto split: option.splits)
  with ok show ?thesis unfolding applyLocalUpdate_def Let_def by (intro swarm_ok_put) simp_all
qed

lemma delta_entry_ok: "swarm_ok (snd cm) \<Longrightarrow> swarm_ok (snd (delta_entry origin cm kv))"
  by (auto simp: delta_entry_def split_beta Let_def intro!: swarm_ok_put)

lemma merge_delta_ok [inv_intros]: "swarm_ok m \<Longrightarrow> swarm_ok (snd (mergeDelta d m))"
proof -
  have "swarm_ok (snd cm) \<Longrightarrow> swarm_ok (snd (foldl (delta_entry origin) cm kvs))" for cm origin kvs
    by (induction kvs arbitrary: cm) (simp_all add: delta_entry_ok)
  then show "swarm_ok m \<Longrightarrow> ?thesis" by (simp add: mergeDelta_def)
qed

lemma foldl_inv: "P s \<Longrightarrow> (\<And>s x. P s \<Longrightarrow> P (f s x)) \<Longrightarrow> P (foldl f s xs)"
  by (induction xs arbitrary: s) auto

lemma frontiers_ok [inv_intros]: "swarm_ok m \<Longrightarrow> swarm_ok (recomputeFrontiers now origin m)"
proof -
  have "swarm_ok m \<Longrightarrow> swarm_ok (open_frontier now origin m nk)" for m nk
    by (auto simp: open_frontier_def intro: local_update_ok split: option.split)
  then have "swarm_ok m \<Longrightarrow> swarm_ok (frontier_step now origin m k)" for m k
    by (auto simp: frontier_step_def intro!: foldl_inv [where P = swarm_ok] split: option.split)
  then show "swarm_ok m \<Longrightarrow> ?thesis" by (auto simp: recomputeFrontiers_def intro!: foldl_inv [where P = swarm_ok])
qed

lemma swarm_run_ok: "swarm_ok (swarm_run ops)"
  unfolding swarm_run_def
proof (rule foldl_inv [where P = swarm_ok])
  show "swarm_ok (new_swarm_map [])" by (simp add: swarm_ok_def new_swarm_map_def wf_map_def js_values_def)
  show "swarm_ok (swarm_apply m opn)" if "swarm_ok m" for m opn
    using that by (cases opn) (auto intro: inv_intros)
qed

text \<open>
  On a map that grew from an empty one every cell's version is below the sequence number, so a
  local observation is stored exactly when its state does not fall in rank: then the cell takes the
  observation's state and version, otherwise both stay.
\<close>

theorem local_update_taken:
  "(let m = swarm_run ops; prev = getCell (makeCellId gx gz) m;
        m' = applyLocalUpdate gx gz state now nodeId conf source m
    in swarm_ok m \<and> core_at (makeCellId gx gz) m' =
         (case prev of
            Some c \<Rightarrow> Some (if fox_rank state < rankOf c then core c else (fox_rank state, mo_seq m))
          | None \<Rightarrow> Some (fox_rank state, mo_seq m)))"
proof -
  let ?m = "swarm_run ops" and ?k = "makeCellId gx gz"
  have new: "core (local_meta prev state v now nodeId conf source) = (fox_rank state, v)" for prev v
    by (simp add: core_def rankOf_def local_meta_def)
  have "core_at ?k (applyLocalUpdate gx gz state now nodeId conf source ?m) =
      opt_max (map_option core (getCell ?k ?m)) (Some (fox_rank state, mo_seq ?m))"
    by (cases "getCell ?k ?m") (simp_all add: core_at_def applyLocalUpdate_def Let_def mergeCellMeta_def merge_core new)
  with swarm_ok_get [OF swarm_run_ok, of ?k ops] show ?thesis
    by (auto simp: swarm_run_ok core_def max_def less_eq_prod_def Let_def split: option.split)
qed

text \<open>
  A map that is made from recovered cells starts its sequence at 1 and ignores observations of the
  same rank until its versions have caught up: here the confidence stays 0.2 although a sensor reports 0.9.
\<close>

theorem recovered_map_ignores_update:
  "map_option fm_confidence01 (getCell ''0,0''
     (applyLocalUpdate 0 0 FxSeen 9 node (Some (9 / 10)) PsLocalSensor (materializeMergedMap [(''0,0'', toy_cell 5 (1 / 5))])))
   = Some (Some (1 / 5))"
  by (simp add: applyLocalUpdate_def materializeMergedMap_def new_swarm_map_def getCell_def makeCellId_def show_int_def show_nat.simps
      mergeCellMeta_def mergeMapCellMeta_def local_meta_def toy_cell_def rankOf_def noted_def Let_def char_of_def)

subsection \<open>Frontiers\<close>

definition fox_state_at :: "string \<Rightarrow> swarm_map \<Rightarrow> fox_state option" where
  "fox_state_at k m = map_option fm_state (getCell k m)"

definition beside_explored :: "string \<Rightarrow> swarm_map \<Rightarrow> string list \<Rightarrow> bool" where
  "beside_explored k m keys =
     list_ex (\<lambda>k'. isExplored k' m \<and> (case parseCellKey k' of Some (gx, gz) \<Rightarrow> k \<in> set (grid_neighbors gx gz) | None \<Rightarrow> False)) keys"

lemma unknown_state: "is_unknown k m \<longleftrightarrow> fox_state_at k m = None \<or> fox_state_at k m = Some FxUnknown"
  by (simp add: is_unknown_def fox_state_at_def split: option.split)

lemma explored_at: "isExplored k m \<longleftrightarrow> (case fox_state_at k m of Some s \<Rightarrow> ground_explored s | None \<Rightarrow> False)"
  by (simp add: isExplored_def fox_state_at_def split: option.split)

lemma open_frontier_state:
  "fox_state_at k (open_frontier now origin m (makeCellId gx gz)) =
     (if k = makeCellId gx gz \<and> is_unknown k m then Some FxFrontier else fox_state_at k m)"
proof -
  have "fm_state (mergeCellMeta (getCell nk m) (local_meta prev FxFrontier v now origin None PsLocalSensor)) = FxFrontier"
    if "is_unknown nk m" for nk prev v
    using that by (cases "getCell nk m")
      (simp_all add: is_unknown_def mergeCellMeta_def merge_state local_meta_def, simp add: mergeMapCellMeta_def noted_def)
  then show ?thesis by (auto simp: open_frontier_def applyLocalUpdate_def Let_def fox_state_at_def)
qed

lemma open_frontiers_state:
  "(\<And>nk. nk \<in> set nks \<Longrightarrow> nk \<in> range (\<lambda>(gx, gz). makeCellId gx gz)) \<Longrightarrow>
   fox_state_at k (foldl (open_frontier now origin) m nks) = (if k \<in> set nks \<and> is_unknown k m then Some FxFrontier else fox_state_at k m)"
proof (induction nks arbitrary: m)
  case (Cons nk nks)
  from Cons.prems [of nk] obtain gx gz where nk: "nk = makeCellId gx gz" by auto
  have "fox_state_at k (foldl (open_frontier now origin) (open_frontier now origin m nk) nks) =
      (if k \<in> set nks \<and> is_unknown k (open_frontier now origin m nk) then Some FxFrontier else fox_state_at k (open_frontier now origin m nk))"
    by (rule Cons.IH) (use Cons.prems in auto)
  then show ?case by (auto simp: unknown_state nk open_frontier_state)
qed simp

lemma frontier_step_state:
  "fox_state_at k (frontier_step now origin m k') = (if beside_explored k m [k'] \<and> is_unknown k m then Some FxFrontier else fox_state_at k m)"
proof (cases "parseCellKey k'")
  case (Some p)
  obtain gx gz where p: "p = (gx, gz)" by (cases p)
  have "fox_state_at k (foldl (open_frontier now origin) m (grid_neighbors gx gz)) =
      (if k \<in> set (grid_neighbors gx gz) \<and> is_unknown k m then Some FxFrontier else fox_state_at k m)"
    by (rule open_frontiers_state) (auto simp: grid_neighbors_def)
  with Some p show ?thesis by (simp add: frontier_step_def beside_explored_def)
qed (simp add: frontier_step_def beside_explored_def)

lemma frontier_step_explored: "isExplored k (frontier_step now origin m k') = isExplored k m"
  by (auto simp: explored_at frontier_step_state unknown_state ground_explored_def)

lemma frontier_fold_state:
  "fox_state_at k (foldl (frontier_step now origin) m keys) =
     (if beside_explored k m keys \<and> is_unknown k m then Some FxFrontier else fox_state_at k m)"
proof (induction keys arbitrary: m)
  case (Cons k' keys)
  have "beside_explored k (frontier_step now origin m k') keys = beside_explored k m keys"
    by (simp add: beside_explored_def frontier_step_explored)
  with Cons show ?case by (auto simp: unknown_state frontier_step_state) (auto simp: beside_explored_def)
qed (simp add: beside_explored_def)

text \<open>
  Recomputing the frontiers opens exactly the missing or unknown neighbours of the explored cells; every
  other cell keeps its state.
\<close>

theorem frontiers_exact:
  "fox_state_at k (recomputeFrontiers now origin m) =
     (if beside_explored k m (js_keys (mo_cells m)) \<and> is_unknown k m then Some FxFrontier else fox_state_at k m)"
  by (simp add: recomputeFrontiers_def frontier_fold_state)

end
