(* ===== verification/FoxMessages.thy ===== *)
theory FoxMessages
  imports FoxSync
begin

section \<open>FoxMQ envelopes, node registry and selectors\<close>

text \<open>
  Models \<open>messageEnvelope.ts\<close>, \<open>messageAck.ts\<close>, \<open>topicRegistry.ts\<close>, \<open>nodeRegistry.ts\<close>, \<open>selectors.ts\<close> and
  \<open>neighborsForNode\<close> of \<open>messageRouter.ts\<close> in \<open>src/src/foxmq\<close>. The JSON text of a payload is a parameter; the
  sequence counter is passed along. The lemmas show that the counters shown by the selectors
  are those of the snapshot and which nodes count as offline.
\<close>

subsection \<open>Envelopes\<close>

datatype fox_message = FmDeltaPublish | FmSnapshotPublish | FmStateAck | FmPeerSyncRequest | FmRecoverySyncRequest | FmReplayRequest
  | FmNodeHeartbeat | FmStaleNodeNotice | FmPartitionNotice | FmRejoinNotice

record fox_envelope =
  fe_messageType :: fox_message
  fe_sender :: ident
  fe_recipient :: "ident option"
  fe_missionId :: ident
  fe_mapId :: ident
  fe_version :: version
  fe_sequence :: int
  fe_checksum :: string
  fe_timestamp :: timestamp
  fe_deliveryStatus :: delivery_status
  fe_payload :: json

definition envelope_units :: "(json \<Rightarrow> units) \<Rightarrow> json \<Rightarrow> version \<Rightarrow> timestamp \<Rightarrow> units" where
  "envelope_units payload_text payload v ts =
     units_of (show_int v @ ''|'' @ show_int ts @ ''|'') @ payload_text payload"

definition stableChecksum :: "(json \<Rightarrow> units) \<Rightarrow> json \<Rightarrow> version \<Rightarrow> timestamp \<Rightarrow> string" where
  "stableChecksum payload_text payload v ts = hashString (envelope_units payload_text payload v ts)"

text \<open>The second component is the next value of \<open>seqCounter\<close>.\<close>

definition buildEnvelope :: "(json \<Rightarrow> units) \<Rightarrow> fox_message \<Rightarrow> ident \<Rightarrow> ident option \<Rightarrow> ident \<Rightarrow> ident \<Rightarrow> version \<Rightarrow> json \<Rightarrow> timestamp \<Rightarrow>
    delivery_status option \<Rightarrow> int \<Rightarrow> fox_envelope \<times> int" where
  "buildEnvelope payload_text kind sender recipient missionId mapId v payload ts status counter =
     (\<lparr> fe_messageType = kind, fe_sender = sender, fe_recipient = recipient, fe_missionId = missionId, fe_mapId = mapId,
        fe_version = v, fe_sequence = counter, fe_checksum = stableChecksum payload_text payload v ts, fe_timestamp = ts,
        fe_deliveryStatus = default_to status DelPending, fe_payload = payload \<rparr>, counter + 1)"

definition markEnvelopeAcked :: "fox_envelope \<Rightarrow> fox_envelope" where
  "markEnvelopeAcked env = env\<lparr>fe_deliveryStatus := DelAcked\<rparr>"

definition markEnvelopeDropped :: "fox_envelope \<Rightarrow> fox_envelope" where
  "markEnvelopeDropped env = env\<lparr>fe_deliveryStatus := DelDropped\<rparr>"

definition topicMapDelta :: "ident \<Rightarrow> string" where
  "topicMapDelta missionId = ''foxmq/'' @ missionId @ ''/fleet_world/map_delta''"

definition topicMapSnapshot :: "ident \<Rightarrow> string" where
  "topicMapSnapshot missionId = ''foxmq/'' @ missionId @ ''/fleet_world/map_snapshot''"

definition topicRecovery :: "ident \<Rightarrow> string" where
  "topicRecovery missionId = ''foxmq/'' @ missionId @ ''/fleet_world/recovery''"

definition topicPartition :: "ident \<Rightarrow> string" where
  "topicPartition missionId = ''foxmq/'' @ missionId @ ''/mesh/partition''"

definition neighborsForNode :: "connectivity_snapshot \<Rightarrow> ident \<Rightarrow> nat \<Rightarrow> ident list" where
  "neighborsForNode graph nodeId limit =
     take limit (foldl (\<lambda>out e. if ge_a e = nodeId then set_add (ge_b e) out
        else if ge_b e = nodeId then set_add (ge_a e) out else out) [] (cs_edges graph))"

subsection \<open>Node registry\<close>

record fox_node =
  fn_nodeId :: ident
  fn_online :: bool
  fn_lastHeartbeatMs :: timestamp
  fn_stale :: bool
  fn_sectorLabel :: "string option"

type_synonym fox_nodes = "(ident, fox_node) jsmap"

definition upsert_fox_node :: "fox_node \<Rightarrow> fox_nodes \<Rightarrow> fox_nodes" where
  "upsert_fox_node n nodes = js_put (fn_nodeId n) n nodes"

definition offline_record :: "timestamp \<Rightarrow> int \<Rightarrow> fox_node \<Rightarrow> bool" where
  "offline_record now staleMs r \<longleftrightarrow> \<not> fn_online r \<or> now - fn_lastHeartbeatMs r > staleMs"

definition offlineIds :: "timestamp \<Rightarrow> int \<Rightarrow> fox_nodes \<Rightarrow> ident list" where
  "offlineIds now staleMs nodes = map fn_nodeId (filter (offline_record now staleMs) (js_values nodes))"

subsection \<open>Selectors\<close>

definition fox_coveragePct :: "(string, fox_meta) jsmap \<Rightarrow> real" where
  "fox_coveragePct cells =
     (let frontier = count_meta (\<lambda>c. fm_state c = FxFrontier) cells;
          explored = count_meta (\<lambda>c. is_explored (fm_state c)) cells
      in min 100 (real explored / real (max 1 (explored + frontier)) * 100))"

definition searchedCount :: "(string, fox_meta) jsmap \<Rightarrow> nat" where
  "searchedCount cells = length (filter (\<lambda>c. fm_state c = FxSearched) (js_values cells))"

definition frontierCount :: "(string, fox_meta) jsmap \<Rightarrow> nat" where
  "frontierCount cells = length (filter (\<lambda>c. fm_state c = FxFrontier) (js_values cells))"

definition blockedCount :: "(string, fox_meta) jsmap \<Rightarrow> nat" where
  "blockedCount cells = length (filter (\<lambda>c. fm_state c = FxBlocked \<or> fm_state c = FxUnreachable) (js_values cells))"

definition targetCount :: "(string, fox_meta) jsmap \<Rightarrow> nat" where
  "targetCount cells = length (filter (\<lambda>c. fm_state c = FxTarget) (js_values cells))"

definition hazardCount :: "(string, fox_meta) jsmap \<Rightarrow> nat" where
  "hazardCount cells = length (filter (\<lambda>c. fm_state c = FxHazard) (js_values cells))"

definition fox_dirtyCount :: "(string, fox_meta) jsmap \<Rightarrow> nat" where
  "fox_dirtyCount cells = length (filter dirty_of (js_values cells))"

definition offlineNodeCount :: "ident list \<Rightarrow> ident list \<Rightarrow> nat" where
  "offlineNodeCount nodeIds offline = length (filter (\<lambda>i. i \<in> set offline) nodeIds)"

definition staleNodeCount :: "connectivity_snapshot \<Rightarrow> nat" where
  "staleNodeCount graph = length (cs_stalePeers graph)"

definition syncLagMs :: "sync_view option \<Rightarrow> int" where
  "syncLagMs fox = default_to (map_option sv_syncLagMs fox) 0"

definition recoveryProgress :: "sync_view option \<Rightarrow> real" where
  "recoveryProgress fox = default_to (map_option sv_recoveryProgress01 fox) 0 * 100"

definition collectiveMemoryHealth :: "sync_view option \<Rightarrow> real" where
  "collectiveMemoryHealth fox = default_to (map_option sv_collectiveMemoryHealth01 fox) 0 * 100"

definition partitionCount :: "connectivity_snapshot \<Rightarrow> nat" where
  "partitionCount graph = length (cs_partitionClusters graph)"

definition mergeConflictsResolved :: "sync_view option \<Rightarrow> nat" where
  "mergeConflictsResolved fox = default_to (map_option sv_mergeConflictsResolved fox) 0"

subsection \<open>Properties\<close>

text \<open>
  The selectors recompute what the snapshot already carries: on the cells of a snapshot they give
  its own counters and coverage.
\<close>

theorem selectors_match_snapshot:
  "(let s = buildMapSnapshot cell_text mapId v now cells peer labels
    in fox_coveragePct cells = fs_coveragePct s \<and> searchedCount cells = fs_searchedCount s \<and> frontierCount cells = fs_frontierCount s
       \<and> blockedCount cells = fs_blockedCount s \<and> targetCount cells = fs_targetCount s \<and> hazardCount cells = fs_hazardCount s
       \<and> fox_dirtyCount cells = fs_dirtyDeltaCount s)"
  by (simp add: buildMapSnapshot_def Let_def fox_coveragePct_def searchedCount_def frontierCount_def blockedCount_def targetCount_def
      hazardCount_def fox_dirtyCount_def count_meta_def)

lemma coverage_range: "0 \<le> fox_coveragePct cells \<and> fox_coveragePct cells \<le> 100"
  by (simp add: fox_coveragePct_def Let_def)

definition register_all :: "fox_node list \<Rightarrow> fox_nodes" where
  "register_all ns = foldl (\<lambda>m n. upsert_fox_node n m) [] ns"

definition latest_record :: "ident \<Rightarrow> fox_node list \<Rightarrow> fox_node option" where
  "latest_record i ns = List.find (\<lambda>n. fn_nodeId n = i) (rev ns)"

lemma register_get: "js_get (register_all ns) i = latest_record i ns"
  by (induction ns rule: rev_induct)
    (auto simp: register_all_def latest_record_def upsert_fox_node_def js_map_simps)

lemma register_wf: "wf_map (register_all ns) \<and> list_all (\<lambda>kv. fn_nodeId (snd kv) = fst kv) (register_all ns)"
proof -
  have upd: "x \<in> set (js_put k c out) \<Longrightarrow> x = (k, c) \<or> x \<in> set out" for x :: "ident \<times> fox_node" and k c out
    by (induction out) (auto split: if_splits)
  show ?thesis
    by (induction ns rule: rev_induct)
      (auto simp: register_all_def upsert_fox_node_def list_all_iff jsm.invar_insert dest!: upd, simp add: wf_map_def)
qed

text \<open>
  A registered node is reported offline exactly when its latest record is, and only once.
\<close>

theorem offline_ids_exact:
  "distinct (offlineIds now staleMs (register_all ns))
   \<and> (i \<in> set (offlineIds now staleMs (register_all ns))) =
      (case latest_record i ns of Some r \<Rightarrow> offline_record now staleMs r | None \<Rightarrow> False)"
proof -
  let ?m = "register_all ns"
  have wf: "wf_map ?m" and own: "kv \<in> set ?m \<Longrightarrow> fn_nodeId (snd kv) = fst kv" for kv
    using register_wf [of ns] by (simp_all add: list_all_iff)
  have "map fn_nodeId (js_values ?m) = map fst ?m" using own by (simp add: js_values_def)
  then have "distinct (map fn_nodeId (js_values ?m))" using wf by (simp add: wf_map_def)
  then have "distinct (offlineIds now staleMs ?m)"
    by (auto simp: offlineIds_def distinct_map intro: inj_on_subset)
  moreover have "(i \<in> set (offlineIds now staleMs ?m)) = (case js_get ?m i of Some r \<Rightarrow> offline_record now staleMs r | None \<Rightarrow> False)"
  proof -
    have "i \<in> set (offlineIds now staleMs ?m) \<longleftrightarrow> (\<exists>kv\<in>set ?m. fn_nodeId (snd kv) = i \<and> offline_record now staleMs (snd kv))"
      by (auto simp: offlineIds_def js_values_def Bex_def image_iff)
    also have "\<dots> \<longleftrightarrow> (\<exists>kv\<in>set ?m. fst kv = i \<and> offline_record now staleMs (snd kv))" using own by auto
    also have "\<dots> \<longleftrightarrow> (\<exists>r. js_get ?m i = Some r \<and> offline_record now staleMs r)"
      using wf unfolding wf_map_def by (metis map_of_SomeD map_of_is_SomeI prod.collapse fst_conv snd_conv)
    finally show ?thesis by (simp split: option.split)
  qed
  ultimately show ?thesis by (simp add: register_get)
qed

end
