(* ===== verification/VertexServices.thy ===== *)
theory VertexServices
  imports HashChains Connectivity
begin

section \<open>Vertex services: consensus gateway, task orchestrator, blackout simulator\<close>

text \<open>
  Models \<open>consensus-gateway.ts\<close>, \<open>task-orchestrator.ts\<close>, \<open>bid-scorer.ts\<close>, \<open>vendor-profiles.ts\<close>,
  \<open>fallback-coordinator.ts\<close> and \<open>blackout-simulator.ts\<close> of \<open>src/src/backend/vertex\<close> with the task types of
  \<open>swarm-types.ts\<close>. The gateway works on the ledger of theory \<open>HashChains\<close>; \<open>EventLogger\<close>, which only
  writes a log, is left out. The bid objects of a task are changed in place, which here updates the stored list. The lemmas
  show that a committed batch keeps the chain valid and does not depend on the order of the
  suggestions, which bid wins a task, and what a blackout does to the links.
\<close>

subsection \<open>Consensus gateway\<close>

record vertex_suggestion =
  vs_missionId :: ident
  vs_actorId :: ident
  vs_eventType :: string
  vs_payload :: obj
  vs_timestamp :: timestamp

definition suggestPhaseTransition :: "ident \<Rightarrow> ident \<Rightarrow> mission_phase \<Rightarrow> mission_phase \<Rightarrow> timestamp \<Rightarrow> obj option \<Rightarrow> string + vertex_suggestion" where
  "suggestPhaseTransition missionId actorId fromPhase toPhase nowMs extra =
     (if toPhase \<notin> set (validVertexNextPhases fromPhase)
      then Inl (''invalid_transition:'' @ phase_str fromPhase @ ''->'' @ phase_str toPhase)
      else Inr \<lparr> vs_missionId = missionId, vs_actorId = actorId, vs_eventType = ''phase_transition'',
             vs_payload = obj_spread [(''fromPhase'', JStr (phase_str fromPhase)), (''toPhase'', JStr (phase_str toPhase))]
               (default_to extra []), vs_timestamp = nowMs \<rparr>)"

definition suggestTargetDiscovery :: "ident \<Rightarrow> ident \<Rightarrow> ident \<Rightarrow> timestamp \<Rightarrow> string option \<Rightarrow> vertex_suggestion" where
  "suggestTargetDiscovery missionId actorId targetId nowMs notes =
     \<lparr> vs_missionId = missionId, vs_actorId = actorId, vs_eventType = ''target_discovered'',
       vs_payload = [(''targetId'', JStr targetId), (''notes'', JStr (default_to notes []))], vs_timestamp = nowMs \<rparr>"

definition suggestTaskAssignment :: "ident \<Rightarrow> ident \<Rightarrow> ident \<Rightarrow> ident \<Rightarrow> string \<Rightarrow> timestamp \<Rightarrow> vertex_suggestion" where
  "suggestTaskAssignment missionId actorId taskId nodeId taskType nowMs =
     \<lparr> vs_missionId = missionId, vs_actorId = actorId, vs_eventType = ''task_assigned'',
       vs_payload = [(''taskId'', JStr taskId), (''nodeId'', JStr nodeId), (''taskType'', JStr taskType)], vs_timestamp = nowMs \<rparr>"

definition suggestRecoveryCheckpoint :: "ident \<Rightarrow> ident \<Rightarrow> string \<Rightarrow> timestamp \<Rightarrow> obj option \<Rightarrow> vertex_suggestion" where
  "suggestRecoveryCheckpoint missionId actorId label nowMs extra =
     \<lparr> vs_missionId = missionId, vs_actorId = actorId, vs_eventType = ''recovery_checkpoint'',
       vs_payload = (case extra of Some x \<Rightarrow> obj_spread [(''label'', JStr label)] x | None \<Rightarrow> [(''label'', JStr label)]),
       vs_timestamp = nowMs \<rparr>"

text \<open>\<open>JSON.stringify(v, allow)\<close>: at every level only the allowed keys, in the order of \<open>allow\<close>.\<close>

primrec picked_text :: "(real \<Rightarrow> string) \<Rightarrow> string list \<Rightarrow> json \<Rightarrow> string" where
  "picked_text ns allow JNull = ''null''"
| "picked_text ns allow (JBool b) = (if b then ''true'' else ''false'')"
| "picked_text ns allow (JNum r) = ns r"
| "picked_text ns allow (JStr s) = json_quote s"
| "picked_text ns allow (JArr xs) = ''['' @ str_join '','' (map (picked_text ns allow) xs) @ '']''"
| "picked_text ns allow (JObj kvs) =
     ''{'' @ str_join '','' (concat (map (\<lambda>k. case map_of (map (map_prod id (picked_text ns allow)) kvs) k of
        Some t \<Rightarrow> [json_quote k @ '':'' @ t] | None \<Rightarrow> []) allow)) @ ''}''"

definition stableOrderPayload :: "(real \<Rightarrow> string) \<Rightarrow> obj \<Rightarrow> string" where
  "stableOrderPayload ns p = picked_text ns (sort (js_keys p)) (JObj p)"

definition suggestionKey :: "(real \<Rightarrow> string) \<Rightarrow> vertex_suggestion \<Rightarrow> string" where
  "suggestionKey ns s =
     (let nul = [char_of (0::nat)]
      in show_int (vs_timestamp s) @ nul @ vs_actorId s @ nul @ vs_eventType s @ nul @ stableOrderPayload ns (vs_payload s))"

definition vertex_input :: "mission_ledger \<Rightarrow> vertex_suggestion \<Rightarrow> mission_event_input" where
  "vertex_input lg s =
     \<lparr> mi_missionId = vs_missionId s, mi_actorId = vs_actorId s, mi_eventType = vs_eventType s, mi_plane = PlaneVertex,
       mi_payload = vs_payload s, mi_timestamp = vs_timestamp s, mi_previousHash = tailHash lg \<rparr>"

text \<open>The loop stops at the first \<open>append\<close> that throws; the error is the first component.\<close>

fun commit_sorted :: "(string \<Rightarrow> string) \<Rightarrow> (real \<Rightarrow> string) \<Rightarrow> vertex_suggestion list \<Rightarrow> chain_event list \<times> mission_ledger \<Rightarrow>
    (string + chain_event list) \<times> mission_ledger" where
  "commit_sorted H ns [] (committed, lg) = (Inr committed, lg)"
| "commit_sorted H ns (s # ss) (committed, lg) =
     (case append_mission_event H ns (vertex_input lg s) lg of
        (Inl err, lg') \<Rightarrow> (Inl err, lg')
      | (Inr ev, lg') \<Rightarrow> commit_sorted H ns ss (committed @ [ev], lg'))"

definition commitVertexBatch :: "(string \<Rightarrow> string) \<Rightarrow> (real \<Rightarrow> string) \<Rightarrow> mission_ledger \<Rightarrow> vertex_suggestion list \<Rightarrow>
    (string + chain_event list) \<times> mission_ledger" where
  "commitVertexBatch H ns lg suggestions = commit_sorted H ns (js_sort (by_asc (suggestionKey ns)) suggestions) ([], lg)"

subsection \<open>Vendor profiles\<close>

record vendor_profile =
  vp_label :: string
  vp_commStackStrength :: real
  vp_motorEnduranceFactor :: real
  vp_defaultRecoveryLatencyMs :: real
  vp_batteryCurveSteepness :: real
  vp_traitTags :: "string list"
  vp_patchCapabilities :: "agent_capability \<Rightarrow> agent_capability"

definition VENDOR_PROFILES :: "(ident, vendor_profile) jsmap" where
  "VENDOR_PROFILES =
     [(''aero_nordic'', \<lparr> vp_label = ''AeroNordic UAV'', vp_commStackStrength = 85 / 100, vp_motorEnduranceFactor = 105 / 100,
         vp_defaultRecoveryLatencyMs = 800, vp_batteryCurveSteepness = 1, vp_traitTags = [''cold_weather'', ''long_range''],
         vp_patchCapabilities = (\<lambda>c. c\<lparr> cp_outdoorScore := 95 / 100, cp_gpsImuConfidence := 9 / 10, cp_meshRangeM := 900 \<rparr>) \<rparr>),
      (''meshworks'', \<lparr> vp_label = ''MeshWorks Relay'', vp_commStackStrength = 98 / 100, vp_motorEnduranceFactor = 95 / 100,
         vp_defaultRecoveryLatencyMs = 400, vp_batteryCurveSteepness = 9 / 10, vp_traitTags = [''mesh'', ''relay_grade''],
         vp_patchCapabilities = (\<lambda>c. c\<lparr> cp_meshRangeM := 1400, cp_computeTier := 6 / 10 \<rparr>) \<rparr>),
      (''subterra'', \<lparr> vp_label = ''SubTerra Robotics'', vp_commStackStrength = 7 / 10, vp_motorEnduranceFactor = 11 / 10,
         vp_defaultRecoveryLatencyMs = 1200, vp_batteryCurveSteepness = 85 / 100, vp_traitTags = [''indoor'', ''lidar_first''],
         vp_patchCapabilities = (\<lambda>c. c\<lparr> cp_indoorScore := 95 / 100, cp_lidarScore := 95 / 100, cp_gpsImuConfidence := 45 / 100 \<rparr>) \<rparr>),
      (''heavylift'', \<lparr> vp_label = ''HeavyLift Rescue'', vp_commStackStrength = 72 / 100, vp_motorEnduranceFactor = 88 / 100,
         vp_defaultRecoveryLatencyMs = 1500, vp_batteryCurveSteepness = 115 / 100, vp_traitTags = [''payload'', ''extraction''],
         vp_patchCapabilities = (\<lambda>c. c\<lparr> cp_maxPayloadKg := 45, cp_gripperScore := 95 / 100, cp_maxAltitudeM := 80 \<rparr>) \<rparr>),
      (''cogniflight'', \<lparr> vp_label = ''CogniFlight Command'', vp_commStackStrength = 88 / 100, vp_motorEnduranceFactor = 92 / 100,
         vp_defaultRecoveryLatencyMs = 600, vp_batteryCurveSteepness = 1, vp_traitTags = [''edge_compute'', ''coordination''],
         vp_patchCapabilities = (\<lambda>c. c\<lparr> cp_computeTier := 98 / 100, cp_meshRangeM := 700 \<rparr>) \<rparr>)]"

definition applyVendorToCapabilities :: "agent_capability \<Rightarrow> vendor_profile \<Rightarrow> agent_capability" where
  "applyVendorToCapabilities base vendor =
     (vp_patchCapabilities vendor base)\<lparr>
       cp_meshRangeM := cp_meshRangeM base * (85 / 100 + 15 / 100 * vp_commStackStrength vendor),
       cp_enduranceMin := of_int (js_round (cp_enduranceMin base * vp_motorEnduranceFactor vendor)),
       cp_batteryDrainPerTick := max (5 / 10000) (cp_batteryDrainPerTick base + 8 / 100 * (vp_batteryCurveSteepness vendor - 1)),
       cp_recoveryLatencyMs := vp_defaultRecoveryLatencyMs vendor \<rparr>"

subsection \<open>Tasks, bids and their scores\<close>

datatype swarm_task_status = VtOpen | VtBidding | VtAssigned | VtCompleted | VtExpired | VtSuperseded

datatype agent_bid_status = VbSubmitted | VbRejected | VbSuperseded | VbStale

record agent_bid =
  vb_nodeId :: ident
  vb_etaSec :: real
  vb_confidence01 :: real
  vb_battery01 :: real
  vb_link01 :: real
  vb_submittedAtMs :: timestamp
  vb_status :: agent_bid_status
  vb_score :: "real option"
  vb_scoreReasons :: "string list"

record swarm_task =
  vt_taskId :: ident
  vt_missionId :: ident
  vt_taskType :: string
  vt_priority :: real
  vt_location :: xyz_point
  vt_requirements :: "string list"
  vt_allowedRoles :: "mission_node_role list"
  vt_preferredVendorTraits :: "string list"
  vt_minBattery01 :: real
  vt_minTrust01 :: real
  vt_minConnectivity01 :: real
  vt_expiresAtMs :: timestamp
  vt_status :: swarm_task_status
  vt_bids :: "agent_bid list"
  vt_winnerNodeId :: "ident option"
  vt_fallbackNodeIds :: "ident list"
  vt_commitProofHint :: "string option"
  vt_assignmentReason :: "string option"
  vt_createdAtMs :: timestamp

definition requirement_hits :: "swarm_agent \<Rightarrow> string \<Rightarrow> nat" where
  "requirement_hits node r =
     (let k = to_lower r; c = sw_capabilities node
      in (if list_ex (\<lambda>s. str_includes (to_lower s) k \<or> str_includes k (to_lower s)) (cp_sensors c) then 1 else 0)
         + (if k = ''thermal'' \<and> cp_thermalScore c > 1 / 2 then 1 else 0)
         + (if k = ''lidar'' \<and> cp_lidarScore c > 1 / 2 then 1 else 0)
         + (if k = ''relay'' \<and> sw_role node = MrRelay then 1 else 0)
         + (if k = ''payload'' \<and> cp_maxPayloadKg c \<ge> 15 then 1 else 0))"

definition sensorFit :: "swarm_task \<Rightarrow> swarm_agent \<Rightarrow> real" where
  "sensorFit task node =
     (if vt_requirements task \<noteq> []
      then real (sum_list (map (requirement_hits node) (vt_requirements task))) / real (length (vt_requirements task))
      else 6 / 10)"

definition roleFit :: "swarm_task \<Rightarrow> swarm_agent \<Rightarrow> real" where
  "roleFit task node = (if sw_role node \<in> set (vt_allowedRoles task) then 1 else 25 / 100)"

definition vendorFit :: "swarm_task \<Rightarrow> swarm_agent \<Rightarrow> real" where
  "vendorFit task node =
     (if vt_preferredVendorTraits task = [] then 75 / 100
      else
        (let tags = (case js_get VENDOR_PROFILES (sw_vendorId node) of Some v \<Rightarrow> map to_lower (vp_traitTags v) | None \<Rightarrow> []);
             m = length (filter (\<lambda>t. list_ex (\<lambda>x. str_includes x (to_lower t)) tags) (vt_preferredVendorTraits task))
         in real m / real (length (vt_preferredVendorTraits task))))"

record score_ctx =
  sx_phase :: mission_phase
  sx_connectivityMode :: connectivity_mode
  sx_swarmLoad :: real

text \<open>The last two arguments are \<open>link01\<close> and \<open>telemetryHealth01\<close>.\<close>

definition scoreBid :: "swarm_task \<Rightarrow> swarm_agent \<Rightarrow> agent_bid \<Rightarrow> score_ctx \<Rightarrow> real \<Rightarrow> real \<Rightarrow> real \<times> string list" where
  "scoreBid task node bid ctx link01 telemetryHealth01 =
     (let c = sw_capabilities node; cap = sensorFit task node; rfit = roleFit task node; vfit = vendorFit task node;
          rangePenalty = ground_dist (sw_position node) (vt_location task) / 120;
          phaseBoost = (if sx_phase ctx = PSearch \<and> cp_thermalScore c > 7 / 10 then 8 / 100 else 0);
          blackoutBoost = (if sx_connectivityMode ctx \<noteq> CmNormal \<and> sw_role node = MrRelay then 12 / 100
            else if sx_connectivityMode ctx \<noteq> CmNormal then 4 / 100 else 0);
          recovery = 1 - min 1 (cp_recoveryLatencyMs c / 4000);
          evidence = vb_confidence01 bid * telemetryHealth01;
          score = cap * (21 / 10) + rfit * (14 / 10) + vfit * (9 / 10) + vb_battery01 bid * (11 / 10) + link01 * (85 / 100)
            + sw_trust01 node * 1 + recovery * (55 / 100) + evidence * (9 / 10) - rangePenalty * (35 / 100)
            - min 1 (vb_etaSec bid / 400) * (4 / 10) - sx_swarmLoad ctx * (15 / 100) + phaseBoost + blackoutBoost;
          thermal = (cp_thermalScore c > 85 / 100 \<and> list_ex (\<lambda>x. str_includes (to_lower x) ''thermal'') (vt_requirements task));
          relay = (sw_role node = MrRelay \<and> vt_taskType task = ''relay_extension'');
          lidar = (cp_lidarScore c > 85 / 100 \<and> list_ex (\<lambda>x. str_includes (to_lower x) ''lidar'') (vt_requirements task));
          gripper = (cp_gripperScore c > 85 / 100 \<and> vt_taskType task = ''extraction_prep'');
          total = score + (if thermal then 15 / 100 else 0) + (if relay then 2 / 10 else 0) + (if lidar then 12 / 100 else 0)
            + (if gripper then 18 / 100 else 0);
          reasons = (if cap > 7 / 10 then [''strong sensor / requirement fit''] else [])
            @ (if rfit \<ge> 1 then [''role matches task gate''] else [])
            @ (if blackoutBoost > 6 / 100 then [''mesh resilience valued during degraded comms''] else [])
            @ (if thermal then [''thermal sensor fit for hotspot search''] else [])
            @ (if relay then [''relay drone chosen for long-range mesh''] else [])
            @ (if lidar then [''LIDAR fit for indoor / low-light mapping''] else [])
            @ (if gripper then [''payload / gripper fit for extraction''] else [])
      in (of_int (js_round (total * 1000)) / 1000, reasons))"

subsection \<open>Task orchestrator\<close>

type_synonym orchestrator = "(ident, swarm_task) jsmap"

definition open_swarm_task :: "swarm_task \<Rightarrow> orchestrator \<Rightarrow> orchestrator" where
  "open_swarm_task spec o1 = js_put (vt_taskId spec) spec o1"

definition submit_agent_bid :: "ident \<Rightarrow> agent_bid \<Rightarrow> orchestrator \<Rightarrow> orchestrator" where
  "submit_agent_bid taskId bid o1 =
     (case js_get o1 taskId of
        None \<Rightarrow> o1
      | Some t \<Rightarrow> if vt_status t \<noteq> VtOpen \<and> vt_status t \<noteq> VtBidding then o1
                  else js_put taskId (t\<lparr> vt_bids := vt_bids t @ [bid], vt_status := VtBidding \<rparr>) o1)"

definition below_floor :: "swarm_task \<Rightarrow> swarm_agent \<Rightarrow> agent_bid \<Rightarrow> bool" where
  "below_floor t node b \<longleftrightarrow>
     vb_battery01 b + 1 / 1000000 < vt_minBattery01 t \<or> sw_trust01 node + 1 / 1000000 < vt_minTrust01 t
     \<or> vb_link01 b + 1 / 1000000 < vt_minConnectivity01 t"

definition score_pending :: "swarm_task \<Rightarrow> (ident, swarm_agent) jsmap \<Rightarrow> score_ctx \<Rightarrow> agent_bid \<Rightarrow> agent_bid" where
  "score_pending t nodesById ctx b =
     (if vb_status b \<noteq> VbSubmitted then b
      else (case js_get nodesById (vb_nodeId b) of
          None \<Rightarrow> b\<lparr>vb_status := VbRejected\<rparr>
        | Some node \<Rightarrow>
            if below_floor t node b then b\<lparr>vb_status := VbRejected\<rparr>
            else (let (score, reasons) = scoreBid t node b ctx (vb_link01 b) (min 1 (vb_confidence01 b + 15 / 100))
                  in b\<lparr> vb_score := Some score, vb_scoreReasons := reasons \<rparr>)))"

definition scorePendingBids :: "ident \<Rightarrow> (ident, swarm_agent) jsmap \<Rightarrow> score_ctx \<Rightarrow> orchestrator \<Rightarrow> orchestrator" where
  "scorePendingBids taskId nodesById ctx o1 =
     (case js_get o1 taskId of
        None \<Rightarrow> o1
      | Some t \<Rightarrow> js_put taskId (t\<lparr>vt_bids := map (score_pending t nodesById ctx) (vt_bids t)\<rparr>) o1)"

record assign_result =
  ar_winner :: "ident option"
  ar_fallbacks :: "ident list"
  ar_reason :: "string option"

definition ranked_bids :: "swarm_task \<Rightarrow> agent_bid list" where
  "ranked_bids t =
     js_sort (by_desc (\<lambda>b. default_to (vb_score b) 0)) (filter (\<lambda>b. vb_status b = VbSubmitted \<and> vb_score b \<noteq> None) (vt_bids t))"

definition reason_separator :: string where
  "reason_separator = [CHR '' '', char_of (183::nat), CHR '' '']"

definition assigned_task :: "ident \<Rightarrow> timestamp \<Rightarrow> agent_bid \<Rightarrow> ident list \<Rightarrow> swarm_task \<Rightarrow> swarm_task" where
  "assigned_task taskId nowMs best fallbacks t =
     (let winner = vb_nodeId best
      in t\<lparr> vt_bids := map (\<lambda>b. if vb_nodeId b \<noteq> winner \<and> vb_status b = VbSubmitted then b\<lparr>vb_status := VbSuperseded\<rparr> else b) (vt_bids t),
            vt_winnerNodeId := Some winner, vt_fallbackNodeIds := fallbacks, vt_status := VtAssigned,
            vt_commitProofHint := Some (''assign:'' @ taskId @ '':'' @ winner @ '':'' @ show_int nowMs),
            vt_assignmentReason := Some (if vb_scoreReasons best \<noteq> [] then str_join reason_separator (vb_scoreReasons best)
              else ''score_rank'') \<rparr>)"

definition assignWinner :: "ident \<Rightarrow> timestamp \<Rightarrow> orchestrator \<Rightarrow> assign_result \<times> orchestrator" where
  "assignWinner taskId nowMs o1 =
     (case js_get o1 taskId of
        None \<Rightarrow> (\<lparr> ar_winner = None, ar_fallbacks = [], ar_reason = None \<rparr>, o1)
      | Some t \<Rightarrow>
          (case ranked_bids t of
             [] \<Rightarrow> (\<lparr> ar_winner = None, ar_fallbacks = [], ar_reason = Some ''no_eligible_bids'' \<rparr>, o1)
           | best # rest \<Rightarrow>
               (let fallbacks = map vb_nodeId (take 3 rest)
                in (\<lparr> ar_winner = Some (vb_nodeId best), ar_fallbacks = fallbacks, ar_reason = None \<rparr>,
                    js_put taskId (assigned_task taskId nowMs best fallbacks t) o1))))"

definition markStaleBids :: "ident \<Rightarrow> int \<Rightarrow> timestamp \<Rightarrow> orchestrator \<Rightarrow> orchestrator" where
  "markStaleBids taskId maxAgeMs nowMs o1 =
     (case js_get o1 taskId of
        None \<Rightarrow> o1
      | Some t \<Rightarrow> js_put taskId (t\<lparr>vt_bids := map (\<lambda>b. if vb_status b = VbSubmitted \<and> nowMs - vb_submittedAtMs b > maxAgeMs
            then b\<lparr>vb_status := VbStale\<rparr> else b) (vt_bids t)\<rparr>) o1)"

definition reassignFromFallback :: "ident \<Rightarrow> (ident, swarm_agent) jsmap \<Rightarrow> (ident \<Rightarrow> bool) \<Rightarrow> timestamp \<Rightarrow> orchestrator \<Rightarrow>
    ident option \<times> orchestrator" where
  "reassignFromFallback taskId nodesById isNodeViable nowMs o1 =
     (case js_get o1 taskId of
        None \<Rightarrow> (None, o1)
      | Some t \<Rightarrow>
          if vt_status t \<noteq> VtAssigned \<or> default_to (vt_winnerNodeId t) [] = [] then (None, o1)
          else if isNodeViable (default_to (vt_winnerNodeId t) []) then (None, o1)
          else (case List.find (\<lambda>fid. js_get nodesById fid \<noteq> None \<and> isNodeViable fid) (vt_fallbackNodeIds t) of
              Some fid \<Rightarrow> (Some fid, js_put taskId (t\<lparr> vt_winnerNodeId := Some fid,
                  vt_commitProofHint := Some (''reassign:'' @ taskId @ '':'' @ fid @ '':'' @ show_int nowMs) \<rparr>) o1)
            | None \<Rightarrow> (None, js_put taskId (t\<lparr> vt_status := VtOpen, vt_winnerNodeId := None \<rparr>) o1)))"

definition completeTask :: "ident \<Rightarrow> orchestrator \<Rightarrow> orchestrator" where
  "completeTask taskId o1 =
     (case js_get o1 taskId of None \<Rightarrow> o1 | Some t \<Rightarrow> js_put taskId (t\<lparr>vt_status := VtCompleted\<rparr>) o1)"

subsection \<open>Local autonomy\<close>

record autonomy_directive =
  ad_nodeId :: ident
  ad_policy :: autonomy_policy
  ad_action :: string
  ad_safeOffline :: bool

fun offline_action :: "autonomy_policy \<Rightarrow> string" where
  "offline_action ApScoutContinue = ''scan_next_sector_local''"
| "offline_action ApRelayMaintain = ''maintain_mesh_forwarding''"
| "offline_action ApRescueContinue = ''hold_last_extraction_vector''"
| "offline_action ApMapIndoor = ''continue_slam_room_queue''"
| "offline_action ApCoordinatorQueue = ''queue_orders_until_sync''"

definition localAutonomyDirectives :: "swarm_agent \<Rightarrow> connectivity_mode \<Rightarrow> bool \<Rightarrow> autonomy_directive" where
  "localAutonomyDirectives node mode operatorReachable =
     (let degraded = (mode \<noteq> CmNormal \<and> mode \<noteq> CmResync); p = sw_autonomyPolicy node
      in if \<not> degraded \<and> operatorReachable
         then \<lparr> ad_nodeId = sw_nodeId node, ad_policy = p, ad_action = ''follow_vertex_live'', ad_safeOffline = False \<rparr>
         else \<lparr> ad_nodeId = sw_nodeId node, ad_policy = p, ad_action = offline_action p, ad_safeOffline = True \<rparr>)"

subsection \<open>Blackout simulator\<close>

datatype blackout_severity = SevDegraded | SevPartial | SevFull

record blackout_state =
  bk_active :: bool
  bk_severity :: "blackout_severity option"
  bk_startedAtMs :: "timestamp option"
  bk_endsAtMs :: "timestamp option"

definition no_blackout :: blackout_state where
  "no_blackout = \<lparr> bk_active = False, bk_severity = None, bk_startedAtMs = None, bk_endsAtMs = None \<rparr>"

definition vertexModeFromBlackout :: "blackout_state \<Rightarrow> connectivity_mode" where
  "vertexModeFromBlackout b =
     (if \<not> bk_active b then CmNormal else if bk_severity b = Some SevFull then CmBlackout
      else if bk_severity b = Some SevPartial then CmPartialPartition else CmDegraded)"

definition startBlackout :: "timestamp \<Rightarrow> blackout_severity \<Rightarrow> int \<Rightarrow> blackout_state" where
  "startBlackout nowMs severity durationMs =
     \<lparr> bk_active = True, bk_severity = Some severity, bk_startedAtMs = Some nowMs, bk_endsAtMs = Some (nowMs + durationMs) \<rparr>"

fun edge_stress :: "blackout_severity \<Rightarrow> real \<Rightarrow> real" where
  "edge_stress SevFull draw = 92 / 100 + draw * (6 / 100)"
| "edge_stress SevPartial draw = 45 / 100 + draw * (2 / 10)"
| "edge_stress SevDegraded draw = 15 / 100 + draw * (12 / 100)"

text \<open>Two draws per edge: one for the stress, one for the latency.\<close>

definition stress_edge :: "blackout_severity \<Rightarrow> (nat \<Rightarrow> real) \<Rightarrow> mesh_graph \<times> nat \<Rightarrow> graph_edge \<Rightarrow> mesh_graph \<times> nat" where
  "stress_edge sev rng gk e =
     (let (g, k) = gk; stress = edge_stress sev (rng k)
      in (setEdge (e\<lparr> ge_quality01 := max (2 / 100) (ge_quality01 e * (1 - stress)),
              ge_loss := min (85 / 100) (ge_loss e + stress * (1 / 2)),
              ge_latencyMs := of_int (js_round (ge_latencyMs e + stress * 400 + rng (k + 1) * 180 * stress)) \<rparr>) g, k + 2))"

definition blackout_tick :: "timestamp \<Rightarrow> (nat \<Rightarrow> real) \<Rightarrow> blackout_state \<Rightarrow> mesh_graph \<Rightarrow> connectivity_mode \<times> blackout_state \<times> mesh_graph" where
  "blackout_tick nowMs rng b g =
     (if bk_active b \<and> (case bk_endsAtMs b of Some t \<Rightarrow> nowMs \<ge> t | None \<Rightarrow> False) then (CmRecovery, no_blackout, g)
      else if \<not> bk_active b then (CmNormal, b, g)
      else (vertexModeFromBlackout b, b,
            fst (foldl (stress_edge (default_to (bk_severity b) SevDegraded) rng) (g, 0) (allEdges g))))"

text \<open>The draws are those of the delay and of the reordering.\<close>

definition messageDelayMs :: "graph_edge option \<Rightarrow> real \<Rightarrow> real \<Rightarrow> real" where
  "messageDelayMs edge d1 d2 =
     (case edge of
        None \<Rightarrow> 800 + of_int \<lfloor>d1 * 1200\<rfloor>
      | Some e \<Rightarrow>
          (let base = ge_latencyMs e; jitter = d1 * 600 * (2 / 10 + ge_loss e)
           in if d2 < 8 / 100 then base + jitter + 2000 else base + jitter))"

subsection \<open>A committed batch\<close>

definition sealed_input :: "(string \<Rightarrow> string) \<Rightarrow> (real \<Rightarrow> string) \<Rightarrow> mission_ledger \<Rightarrow> vertex_suggestion \<Rightarrow> chain_event" where
  "sealed_input H ns lg s = mission_event_input.extend (vertex_input lg s)
     \<lparr> mi_eventHash = computeEventHash H ns (tailHash lg) (event_core (vertex_input lg s)) \<rparr>"

lemma append_vertex: "append_mission_event H ns (vertex_input lg s) lg = (Inr (sealed_input H ns lg s), lg @ [sealed_input H ns lg s])"
  by (simp add: append_mission_event_snd sealed_input_def vertex_input_def Let_def)

lemma sealed_verifies: "verifyChain H ns (lg @ [sealed_input H ns lg s]) = ChainOk \<longleftrightarrow> verifyChain H ns lg = ChainOk"
proof -
  have "event_core (sealed_input H ns lg s) = event_core (vertex_input lg s)" "mi_previousHash (sealed_input H ns lg s) = tailHash lg"
    "mi_eventHash (sealed_input H ns lg s) = computeEventHash H ns (tailHash lg) (event_core (vertex_input lg s))"
    by (simp_all add: sealed_input_def vertex_input_def event_core_def mission_event_input.defs)
  then show ?thesis unfolding verifyChain_def mission_chain.verify_snoc mission_chain_tail by simp
qed

definition event_of :: "chain_event \<Rightarrow> vertex_suggestion" where
  "event_of e = \<lparr> vs_missionId = mi_missionId e, vs_actorId = mi_actorId e, vs_eventType = mi_eventType e,
     vs_payload = mi_payload e, vs_timestamp = mi_timestamp e \<rparr>"

lemma event_of_sealed: "event_of (sealed_input H ns lg s) = s"
  by (simp add: event_of_def sealed_input_def vertex_input_def mission_event_input.defs)

lemma commit_sorted_spec:
  "\<exists>evs. commit_sorted H ns ss (done0, lg) = (Inr (done0 @ evs), lg @ evs) \<and> map event_of evs = ss
     \<and> (verifyChain H ns (lg @ evs) = ChainOk \<longleftrightarrow> verifyChain H ns lg = ChainOk)"
proof (induction ss arbitrary: done0 lg)
  case (Cons s ss)
  let ?e = "sealed_input H ns lg s"
  obtain evs where evs: "commit_sorted H ns ss (done0 @ [?e], lg @ [?e]) = (Inr ((done0 @ [?e]) @ evs), (lg @ [?e]) @ evs)"
    "map event_of evs = ss" "verifyChain H ns ((lg @ [?e]) @ evs) = ChainOk \<longleftrightarrow> verifyChain H ns (lg @ [?e]) = ChainOk"
    using Cons by blast
  then show ?case
    by (intro exI [of _ "?e # evs"]) (simp add: append_vertex event_of_sealed sealed_verifies)
qed simp

text \<open>
  Committing a batch never fails: it appends one event for each suggestion, in the order of the
  suggestion keys, and the ledger verifies afterwards exactly when it verified before.
\<close>

theorem batch_extends_chain:
  "\<exists>evs. commitVertexBatch H ns lg ss = (Inr evs, lg @ evs) \<and> map event_of evs = js_sort (by_asc (suggestionKey ns)) ss
     \<and> (verifyChain H ns (lg @ evs) = ChainOk) = (verifyChain H ns lg = ChainOk)"
  using commit_sorted_spec [of H ns "js_sort (by_asc (suggestionKey ns)) ss" "[]" lg] by (simp add: commitVertexBatch_def)

lemma js_sort_unique:
  fixes key :: "'a \<Rightarrow> 'k::linorder"
  assumes "mset xs = mset ys" "inj_on key (set xs)" shows "js_sort (by_asc key) xs = js_sort (by_asc key) ys"
proof -
  have sorted: "sorted (map key (js_sort (by_asc key) zs))" for zs
    using ascending.sorted_js_sort [of key zs] by (simp add: sorted_map by_asc_def not_less)
  have "mset (map key (js_sort (by_asc key) xs)) = mset (map key (js_sort (by_asc key) ys))" using assms(1) by simp
  then have "map key (js_sort (by_asc key) xs) = map key (js_sort (by_asc key) ys)"
    using sorted by (metis properties_for_sort)
  moreover have "set ys = set xs" using assms(1) by (metis set_mset_mset)
  ultimately show ?thesis using assms(2) by (auto simp: inj_on_map_eq_map)
qed

text \<open>
  The order in which the suggestions arrive does not matter, as long as no two of them have the same key.
\<close>

theorem batch_order_independent:
  assumes "mset ss = mset ss'" "inj_on (suggestionKey ns) (set ss)"
  shows "commitVertexBatch H ns lg ss = commitVertexBatch H ns lg ss'"
  using js_sort_unique [OF assms] by (simp add: commitVertexBatch_def)

definition toy_suggestion :: "timestamp \<Rightarrow> vertex_suggestion" where
  "toy_suggestion t = \<lparr> vs_missionId = ''m'', vs_actorId = ''a'', vs_eventType = ''node_join'', vs_payload = [], vs_timestamp = t \<rparr>"

lemma toy_keys: "suggestionKey ns (toy_suggestion 10) < suggestionKey ns (toy_suggestion 9)"
  by (simp add: suggestionKey_def toy_suggestion_def show_int_def show_nat.simps less_char_def)

theorem batch_order_independent_witness:
  "commitVertexBatch H ns [] [toy_suggestion 9, toy_suggestion 10] = commitVertexBatch H ns [] [toy_suggestion 10, toy_suggestion 9]"
  using toy_keys [of ns] by (intro batch_order_independent) (auto simp: add_mset_commute)

text \<open>
  The documented order by timestamp is an order of texts: a suggestion of time 10 is
  committed before one of time 9.
\<close>

theorem batch_order_textual:
  "map_option (map mi_timestamp) (case fst (commitVertexBatch H ns [] [toy_suggestion 9, toy_suggestion 10]) of Inr evs \<Rightarrow> Some evs | Inl err \<Rightarrow> None)
     = Some [10, 9]"
proof -
  have sort: "js_sort (by_asc (suggestionKey ns)) [toy_suggestion 9, toy_suggestion 10] = [toy_suggestion 10, toy_suggestion 9]"
    using toy_keys [of ns] by (simp add: js_sort_def by_asc_def)
  have time: "mi_timestamp (sealed_input H ns l (toy_suggestion t)) = t" for l t
    by (simp add: sealed_input_def vertex_input_def toy_suggestion_def mission_event_input.defs)
  show ?thesis by (simp add: commitVertexBatch_def sort append_vertex time)
qed

subsection \<open>Winners\<close>

lemma ranked_head:
  assumes "ranked_bids t = best # rest"
  shows "best \<in> set (vt_bids t) \<and> vb_status best = VbSubmitted \<and> vb_score best \<noteq> None
    \<and> list_all (\<lambda>b. vb_status b \<noteq> VbSubmitted \<or> vb_score b = None \<or> the (vb_score b) \<le> the (vb_score best)) (vt_bids t)"
proof -
  note head = descending.js_sort_head_least [OF assms [unfolded ranked_bids_def]]
  have best: "best \<in> set (vt_bids t)" "vb_status best = VbSubmitted" "vb_score best \<noteq> None" using head by auto
  have "the (vb_score b) \<le> the (vb_score best)"
    if "b \<in> set (vt_bids t)" "vb_status b = VbSubmitted" "vb_score b \<noteq> None" for b
  proof -
    have "\<not> by_desc (\<lambda>b. default_to (vb_score b) 0) b best" using head that by auto
    with that(3) best(3) show ?thesis by (auto simp: by_desc_def)
  qed
  with best show ?thesis unfolding list_all_iff by blast
qed

lemma ranked_Nil: "ranked_bids t = [] \<longleftrightarrow> list_all (\<lambda>b. vb_status b \<noteq> VbSubmitted \<or> vb_score b = None) (vt_bids t)"
  by (auto simp: ranked_bids_def filter_empty_conv list_all_iff)

definition fit_bid :: "swarm_task \<Rightarrow> (ident, swarm_agent) jsmap \<Rightarrow> agent_bid \<Rightarrow> bool" where
  "fit_bid t nodesById b =
     (case js_get nodesById (vb_nodeId b) of Some node \<Rightarrow> \<not> below_floor t node b | None \<Rightarrow> False)"

definition submitted_fit :: "swarm_task \<Rightarrow> (ident, swarm_agent) jsmap \<Rightarrow> agent_bid \<Rightarrow> bool" where
  "submitted_fit t nodesById b \<longleftrightarrow> vb_status b = VbSubmitted \<and> fit_bid t nodesById b"

lemma score_pending_frame:
  "vb_nodeId (score_pending t nodesById ctx b) = vb_nodeId b \<and> vb_battery01 (score_pending t nodesById ctx b) = vb_battery01 b
   \<and> vb_link01 (score_pending t nodesById ctx b) = vb_link01 b"
  by (simp add: score_pending_def Let_def split_beta split: option.split)

lemma score_pending_fit:
  "vb_status (score_pending t nodesById ctx b) = VbSubmitted \<longleftrightarrow> submitted_fit t nodesById b"
  "submitted_fit t nodesById b \<Longrightarrow> vb_score (score_pending t nodesById ctx b) \<noteq> None"
  by (auto simp: score_pending_def submitted_fit_def fit_bid_def Let_def split_beta split: option.split)

definition winner_sound :: "(ident, swarm_agent) jsmap \<Rightarrow> score_ctx \<Rightarrow> swarm_task \<Rightarrow> assign_result \<Rightarrow> swarm_task \<Rightarrow> bool" where
  "winner_sound nodesById ctx t res t' =
     (case ar_winner res of
        None \<Rightarrow> list_ex (submitted_fit t nodesById) (vt_bids t) = False
      | Some w \<Rightarrow>
          (let scored = map (score_pending t nodesById ctx) (filter (submitted_fit t nodesById) (vt_bids t))
           in list_ex (\<lambda>b. vb_nodeId b = w \<and> list_all (\<lambda>b'. the (vb_score b') \<le> the (vb_score b)) scored) scored)
          \<and> vt_winnerNodeId t' = Some w \<and> vt_status t' = VtAssigned \<and> length (ar_fallbacks res) \<le> 3
          \<and> list_all (\<lambda>b. vb_status b \<noteq> VbSubmitted \<or> vb_nodeId b = w) (vt_bids t'))"

lemma winner_sound_assigned:
  assumes t: "js_get o1 taskId = Some t"
    and s: "assignWinner taskId now (scorePendingBids taskId nodesById ctx o1) = (res, o2)"
  shows "winner_sound nodesById ctx t res (default_to (js_get o2 taskId) t)"
proof -
  let ?t = "t\<lparr>vt_bids := map (score_pending t nodesById ctx) (vt_bids t)\<rparr>"
  have get: "js_get (scorePendingBids taskId nodesById ctx o1) taskId = Some ?t"
    by (simp add: scorePendingBids_def t js_map_simps)
  show ?thesis
  proof (cases "ranked_bids ?t")
    case Nil
    then have "\<not> submitted_fit t nodesById b" if "b \<in> set (vt_bids t)" for b
      using that score_pending_fit [where t = t and nodesById = nodesById and ctx = ctx and b = b] by (auto simp: ranked_Nil list_all_iff)
    with Nil get s show ?thesis by (auto simp: assignWinner_def winner_sound_def list_ex_iff)
  next
    case (Cons best rest)
    obtain b where b: "b \<in> set (vt_bids t)" "best = score_pending t nodesById ctx b" using ranked_head [OF Cons] by auto
    let ?scored = "map (score_pending t nodesById ctx) (filter (submitted_fit t nodesById) (vt_bids t))"
    have "submitted_fit t nodesById b" using ranked_head [OF Cons] b(2) score_pending_fit(1) by metis
    then have "best \<in> set ?scored" using b by auto
    moreover have "the (vb_score b') \<le> the (vb_score best)" if "b' \<in> set ?scored" for b'
    proof -
      from that obtain c where "c \<in> set (vt_bids t)" "submitted_fit t nodesById c" "b' = score_pending t nodesById ctx c" by auto
      then show ?thesis using ranked_head [OF Cons] score_pending_fit [where t = t and nodesById = nodesById and ctx = ctx and b = c]
        by (fastforce simp: list_all_iff)
    qed
    ultimately have "list_ex (\<lambda>b. vb_nodeId b = vb_nodeId best \<and> list_all (\<lambda>b'. the (vb_score b') \<le> the (vb_score b)) ?scored) ?scored"
      unfolding list_ex_iff list_all_iff by blast
    with Cons get s show ?thesis
      by (auto simp: assignWinner_def winner_sound_def assigned_task_def js_map_simps Let_def list_all_iff)
  qed
qed

text \<open>
  Scoring and then assigning picks a node exactly when some submitted bid comes from a known
  node and meets the battery, trust and link floors of the task. The winner is such a node, its
  bid has the greatest score, and no bid of another node stays submitted.
\<close>

theorem winner_meets_floors:
  "(let (res, o2) = assignWinner taskId now (scorePendingBids taskId nodesById ctx o1)
    in case js_get o1 taskId of
         Some t \<Rightarrow> winner_sound nodesById ctx t res (default_to (js_get o2 taskId) t)
       | None \<Rightarrow> ar_winner res = None)"
proof (cases "js_get o1 taskId")
  case None
  then show ?thesis by (simp add: scorePendingBids_def assignWinner_def)
next
  case (Some t)
  then show ?thesis using winner_sound_assigned [OF Some] by (simp split: prod.split)
qed

lemma find_False [simp]: "List.find (\<lambda>x. False) xs = None"
  by (simp add: find_None_iff)

lemma ranked_after_assign:
  assumes "ranked_bids t = best # rest" "vt_bids t' = vt_bids (assigned_task taskId now best fs t)"
  obtains b bs where "ranked_bids t' = b # bs" "vb_nodeId b = vb_nodeId best"
proof -
  have best: "best \<in> set (vt_bids t)" "vb_status best = VbSubmitted" "vb_score best \<noteq> None" using ranked_head [OF assms(1)] by auto
  then have in': "best \<in> set (vt_bids t')" by (force simp: assms(2) assigned_task_def Let_def)
  have own: "vb_nodeId b = vb_nodeId best" if "b \<in> set (vt_bids t')" "vb_status b = VbSubmitted" for b
    using that by (auto simp: assms(2) assigned_task_def Let_def split: if_splits)
  have "ranked_bids t' \<noteq> []" using in' best by (auto simp: ranked_Nil list_all_iff)
  then obtain b bs where "ranked_bids t' = b # bs" by (cases "ranked_bids t'") auto
  with own ranked_head [OF this] that show ?thesis by auto
qed

text \<open>
  Reassignment returns to the node it dropped: when neither the winner nor a fallback is viable the
  task is reopened, but the winner's bid is still submitted and all others are superseded, so the next
  assignment gives the task to the same node.
\<close>

theorem reopened_task_returns_to_winner:
  "(let (r1, o2) = assignWinner taskId t1 o1; (x, o3) = reassignFromFallback taskId nodesById (\<lambda>n. False) t2 o2;
        (r2, o4) = assignWinner taskId t3 o3
    in x = None \<and> ar_winner r2 = ar_winner r1)"
proof (cases "js_get o1 taskId")
  case None
  then show ?thesis by (simp add: assignWinner_def reassignFromFallback_def)
next
  case (Some t)
  show ?thesis
  proof (cases "ranked_bids t")
    case Nil
    then have "ranked_bids (t\<lparr> vt_status := st, vt_winnerNodeId := w \<rparr>) = []" for st w by (simp add: ranked_Nil)
    with Nil Some show ?thesis
      by (simp add: assignWinner_def reassignFromFallback_def js_map_simps Let_def)
  next
    case (Cons best rest)
    let ?t2 = "assigned_task taskId t1 best (map vb_nodeId (take 3 rest)) t"
    have again: "ar_winner (fst (assignWinner taskId t3 o')) = Some (vb_nodeId best)"
      if get': "js_get o' taskId = Some t'" and bids: "vt_bids t' = vt_bids ?t2" for o' t'
    proof -
      obtain b bs where b: "ranked_bids t' = b # bs" "vb_nodeId b = vb_nodeId best" by (rule ranked_after_assign [OF Cons bids])
      show ?thesis unfolding assignWinner_def get' option.case b(1) list.case Let_def by (simp add: b(2))
    qed
    let ?o2 = "js_put taskId ?t2 o1"
    let ?t3 = "if vb_nodeId best = [] then ?t2 else ?t2\<lparr> vt_status := VtOpen, vt_winnerNodeId := None \<rparr>"
    have get: "js_get ?o2 taskId = Some ?t2" by (simp add: js_map_simps)
    have fields: "vt_status ?t2 = VtAssigned" "vt_winnerNodeId ?t2 = Some (vb_nodeId best)"
      by (simp_all add: assigned_task_def Let_def)
    have o3: "reassignFromFallback taskId nodesById (\<lambda>n. False) t2 ?o2 = (None, if vb_nodeId best = [] then ?o2 else js_put taskId ?t3 ?o2)"
      unfolding reassignFromFallback_def get option.case by (simp add: fields)
    have "js_get (if vb_nodeId best = [] then ?o2 else js_put taskId ?t3 ?o2) taskId = Some ?t3" by (simp add: js_map_simps)
    from again [OF this] have "ar_winner (fst (assignWinner taskId t3 (if vb_nodeId best = [] then ?o2 else js_put taskId ?t3 ?o2))) =
        Some (vb_nodeId best)" by simp
    moreover have "assignWinner taskId t1 o1 = (\<lparr> ar_winner = Some (vb_nodeId best), ar_fallbacks = map vb_nodeId (take 3 rest),
        ar_reason = None \<rparr>, ?o2)" by (simp add: assignWinner_def Some Cons Let_def)
    ultimately show ?thesis by (simp only: Let_def split_beta fst_conv snd_conv o3 assign_result.simps simp_thms)
  qed
qed

subsection \<open>Blackouts\<close>

definition edge_in_blackout :: "graph_edge \<Rightarrow> bool" where
  "edge_in_blackout e \<longleftrightarrow> ge_quality01 e \<ge> 2 / 100 \<and> ge_loss e \<le> 85 / 100"

definition well_keyed :: "mesh_graph \<Rightarrow> bool" where
  "well_keyed g \<longleftrightarrow> list_all (\<lambda>ke. fst ke = edgeKey (ge_a (snd ke)) (ge_b (snd ke))) g"

lemma put_entries: "x \<in> set (js_put k v m) \<Longrightarrow> x = (k, v) \<or> x \<in> set m"
  by (induction m) (auto split: if_splits)

lemma setEdge_keyed: "well_keyed g \<Longrightarrow> well_keyed (setEdge e g)"
  by (auto simp: well_keyed_def setEdge_def list_all_iff dest: put_entries)

lemma link_nodes_keyed: "well_keyed (fst gk) \<Longrightarrow> well_keyed (fst (link_nodes r rng na gk nb))"
  by (auto simp: link_nodes_def Let_def split_beta setEdge_keyed)

lemma rebuild_keyed: "well_keyed (rebuildFromNodes nodes r rng)"
proof -
  have "well_keyed (fst gk) \<Longrightarrow> well_keyed (fst (foldl (link_nodes r rng na) gk ns))" for na gk ns
    by (induction ns arbitrary: gk) (simp_all add: link_nodes_keyed)
  then have "well_keyed (fst gk) \<Longrightarrow> well_keyed (fst (link_pairs r rng ns gk))" for gk ns
    by (induction ns arbitrary: gk) simp_all
  then show ?thesis by (simp add: rebuildFromNodes_def well_keyed_def)
qed

lemma rebuild_wf: "wf_map (rebuildFromNodes nodes r rng)"
proof -
  have "wf_map (fst gk) \<Longrightarrow> wf_map (fst (link_nodes r rng na gk nb))" for na gk nb
    by (auto simp: link_nodes_def Let_def split_beta setEdge_def jsm.invar_insert)
  then have "wf_map (fst gk) \<Longrightarrow> wf_map (fst (foldl (link_nodes r rng na) gk ns))" for na gk ns
    by (induction ns arbitrary: gk) simp_all
  then have "wf_map (fst gk) \<Longrightarrow> wf_map (fst (link_pairs r rng ns gk))" for gk ns
    by (induction ns arbitrary: gk) simp_all
  then show ?thesis by (simp add: rebuildFromNodes_def wf_map_def)
qed

definition stressed_except :: "string set \<Rightarrow> mesh_graph \<Rightarrow> bool" where
  "stressed_except ks g \<longleftrightarrow> wf_map g \<and> (\<forall>k e. js_get g k = Some e \<longrightarrow> k \<in> ks \<or> edge_in_blackout e)"

lemma stress_edge_shape:
  obtains q l d where "edge_in_blackout (e\<lparr> ge_quality01 := q, ge_loss := l, ge_latencyMs := d \<rparr>)"
    "fst (stress_edge sev rng gk e) = setEdge (e\<lparr> ge_quality01 := q, ge_loss := l, ge_latencyMs := d \<rparr>) (fst gk)"
proof -
  obtain q l d where "fst (stress_edge sev rng gk e) =
      setEdge (e\<lparr> ge_quality01 := max (2 / 100) q, ge_loss := min (85 / 100) l, ge_latencyMs := d \<rparr>) (fst gk)"
    unfolding stress_edge_def Let_def split_beta fst_conv by blast
  moreover have "edge_in_blackout (e\<lparr> ge_quality01 := max (2 / 100) q, ge_loss := min (85 / 100) l, ge_latencyMs := d \<rparr>)"
    by (simp add: edge_in_blackout_def)
  ultimately show thesis by (rule that [rotated])
qed

lemma stress_edge_stressed:
  "stressed_except ks (fst gk) \<Longrightarrow> stressed_except (ks - {edgeKey (ge_a e) (ge_b e)}) (fst (stress_edge sev rng gk e))"
  by (rule stress_edge_shape [of e sev rng gk])
    (auto simp: stressed_except_def setEdge_def js_map_simps jsm.invar_insert)

lemma stress_edges_stressed:
  "stressed_except ks (fst gk) \<Longrightarrow>
   stressed_except (ks - (\<lambda>e. edgeKey (ge_a e) (ge_b e)) ` set es) (fst (foldl (stress_edge sev rng) gk es))"
proof (induction es arbitrary: ks gk)
  case (Cons e es)
  have "ks - (\<lambda>e. edgeKey (ge_a e) (ge_b e)) ` set (e # es) = ks - {edgeKey (ge_a e) (ge_b e)} - (\<lambda>e. edgeKey (ge_a e) (ge_b e)) ` set es"
    by auto
  with Cons.IH [OF stress_edge_stressed [OF Cons.prems]] show ?case by simp
qed simp

lemma stressed_all:
  assumes "well_keyed g" "wf_map g"
  shows "list_all edge_in_blackout (allEdges (fst (foldl (stress_edge sev rng) (g, 0) (allEdges g))))"
proof -
  let ?es = "allEdges g"
  have "fst ` set g \<subseteq> (\<lambda>e. edgeKey (ge_a e) (ge_b e)) ` set ?es"
  proof (rule subsetI)
    fix k assume "k \<in> fst ` set g"
    then obtain e where "(k, e) \<in> set g" by force
    then have "e \<in> set ?es" "k = edgeKey (ge_a e) (ge_b e)"
      using assms(1) by (force simp: well_keyed_def list_all_iff allEdges_def js_values_def)+
    then show "k \<in> (\<lambda>e. edgeKey (ge_a e) (ge_b e)) ` set ?es" by blast
  qed
  moreover have "stressed_except (fst ` set g) g"
    using assms(2) by (force simp: stressed_except_def dest: map_of_SomeD)
  ultimately have "stressed_except {} (fst (foldl (stress_edge sev rng) (g, 0) ?es))"
    using stress_edges_stressed [of "fst ` set g" "(g, 0)" ?es sev rng] by (metis Diff_eq_empty_iff fst_conv)
  then show ?thesis by (auto simp: stressed_except_def list_all_iff allEdges_def js_values_map)
qed

text \<open>
  A tick ends a blackout exactly at its end time, and then reports recovery. While it lasts
  every link of a graph built from the nodes keeps a quality of at least 0.02 and a loss of at most 0.85, so no
  link is cut; without a blackout the graph stays as it was.
\<close>

theorem blackout_bounds:
  "(let g = rebuildFromNodes nodes r rng0; (mode, b', g') = blackout_tick now rng b g;
        over = (case bk_endsAtMs b of Some t \<Rightarrow> now \<ge> t | None \<Rightarrow> False)
    in bk_active b' = (bk_active b \<and> \<not> over) \<and> (mode = CmRecovery) = (bk_active b \<and> over)
       \<and> (mode = CmNormal) = (\<not> bk_active b)
       \<and> (if bk_active b' then list_all edge_in_blackout (allEdges g') else g' = g))"
  using stressed_all [OF rebuild_keyed rebuild_wf]
  by (auto simp: blackout_tick_def no_blackout_def vertexModeFromBlackout_def Let_def)

end
