(* ===== verification/MissionReplay.thy ===== *)
theory MissionReplay
  imports HashChains MissionPhases
begin

section \<open>Mission scenarios, policies and the replay of the ledger\<close>

text \<open>
  Models \<open>mission-scenarios.ts\<close> and \<open>mission-policy.ts\<close> of \<open>src/src/backend/shared\<close> and
  \<open>demo-replay.ts\<close> of \<open>src/src/backend/vertex\<close>, the fold of ledger rows into the mission read model.
  The text of a number (\<open>String\<close>) is the parameter \<open>ns\<close>; \<open>rd\<close> reads the number a text stands for
  (\<open>Number\<close>), and is \<open>None\<close> where that is not finite. \<open>Date.now()\<close> is an argument. The elements of a
  \<open>capabilities\<close> array are taken as texts. The lemmas say which rows of a ledger determine each part of
  the replayed state.
\<close>

subsection \<open>Scenarios\<close>

definition KNOWN :: "string list" where
  "KNOWN = [''collapsed_building'', ''tunnel'', ''wildfire'', ''extraction'', ''flood_rescue'', ''hazmat'',
     ''indoor_search'', ''perimeter_sweep'', ''triage_operation'', ''night_mission'']"

definition is_space :: "char \<Rightarrow> bool" where
  "is_space c \<longleftrightarrow> of_char c \<in> {9, 10, 11, 12, 13, 32 :: nat}"

definition js_trim :: "string \<Rightarrow> string" where
  "js_trim s = rev (dropWhile is_space (rev (dropWhile is_space s)))"

text \<open>\<open>s.replace(/\s+/g, "_")\<close>\<close>

function collapse_spaces :: "string \<Rightarrow> string" where
  "collapse_spaces [] = []"
| "collapse_spaces (c # s) =
     (if is_space c then CHR ''_'' # collapse_spaces (dropWhile is_space s) else c # collapse_spaces s)"
  by pat_completeness auto
termination by (relation "measure length") (auto simp: le_imp_less_Suc length_dropWhile_le)

definition coerceMissionScenarioKind :: "string option \<Rightarrow> string option" where
  "coerceMissionScenarioKind raw =
     (case raw of None \<Rightarrow> None
      | Some r \<Rightarrow>
          (let k = collapse_spaces (map (\<lambda>c. if c = CHR ''-'' then CHR ''_'' else c) (to_lower (js_trim r)))
           in if k \<in> set KNOWN then Some k else None))"

subsection \<open>Mission policies\<close>

record policy_role =
  plr_type :: string
  plr_minCount :: int
  plr_prioritySensors :: "string list"
  plr_maxRisk :: real

record mission_policy =
  pol_scenario :: string
  pol_roles :: "policy_role list"
  pol_density :: real
  pol_maxDepth :: real
  pol_geofenceRadius :: real
  pol_batteryThreshold :: real
  pol_maxViolations :: int
  pol_emergencyEscalation :: "string list"
  pol_mix :: "(string \<times> real) list"
  pol_confirmationThreshold :: real
  pol_minNodes :: int
  pol_requiredCapabilities :: "string list"

definition TEMPLATES :: "(string, mission_policy) jsmap" where
  "TEMPLATES =
     [(''collapsed_building'', \<lparr> pol_scenario = ''collapsed_building'',
         pol_roles = [
           \<lparr> plr_type = ''explorer'', plr_minCount = 2, plr_prioritySensors = [''thermal'', ''audio''], plr_maxRisk = 3 / 10 \<rparr>,
           \<lparr> plr_type = ''relay'', plr_minCount = 1, plr_prioritySensors = [''indoor''], plr_maxRisk = 2 / 10 \<rparr>,
           \<lparr> plr_type = ''triage'', plr_minCount = 1, plr_prioritySensors = [''optical''], plr_maxRisk = 4 / 10 \<rparr>,
           \<lparr> plr_type = ''extractor'', plr_minCount = 1, plr_prioritySensors = [''transport''], plr_maxRisk = 5 / 10 \<rparr>],
         pol_density = 8 / 10, pol_maxDepth = 50, pol_geofenceRadius = 20,
         pol_batteryThreshold = 4 / 10, pol_maxViolations = 2, pol_emergencyEscalation = [''geo_fence_violation''],
         pol_mix = [(''explore'', 5 / 10), (''relay'', 3 / 10), (''triage'', 15 / 100), (''extract'', 5 / 100)],
         pol_confirmationThreshold = 8 / 10, pol_minNodes = 5, pol_requiredCapabilities = [''indoor'', ''thermal''] \<rparr>),
      (''flood_rescue'', \<lparr> pol_scenario = ''flood_rescue'',
         pol_roles = [
           \<lparr> plr_type = ''explorer'', plr_minCount = 2, plr_prioritySensors = [''optical''], plr_maxRisk = 5 / 10 \<rparr>,
           \<lparr> plr_type = ''relay'', plr_minCount = 1, plr_prioritySensors = [], plr_maxRisk = 3 / 10 \<rparr>,
           \<lparr> plr_type = ''transport'', plr_minCount = 1, plr_prioritySensors = [''waterproof''], plr_maxRisk = 6 / 10 \<rparr>,
           \<lparr> plr_type = ''extractor'', plr_minCount = 2, plr_prioritySensors = [''high_clearance''], plr_maxRisk = 7 / 10 \<rparr>],
         pol_density = 6 / 10, pol_maxDepth = 200, pol_geofenceRadius = 50,
         pol_batteryThreshold = 5 / 10, pol_maxViolations = 1, pol_emergencyEscalation = [''water_level_rising''],
         pol_mix = [(''explore'', 4 / 10), (''transport'', 4 / 10), (''extract'', 2 / 10)],
         pol_confirmationThreshold = 7 / 10, pol_minNodes = 6, pol_requiredCapabilities = [''waterproof'', ''transport''] \<rparr>),
      (''hazmat'', \<lparr> pol_scenario = ''hazmat'',
         pol_roles = [
           \<lparr> plr_type = ''explorer'', plr_minCount = 1, plr_prioritySensors = [''gas'', ''thermal''], plr_maxRisk = 1 / 10 \<rparr>,
           \<lparr> plr_type = ''relay'', plr_minCount = 2, plr_prioritySensors = [''sealed''], plr_maxRisk = 5 / 100 \<rparr>,
           \<lparr> plr_type = ''triage'', plr_minCount = 1, plr_prioritySensors = [''gas''], plr_maxRisk = 2 / 10 \<rparr>],
         pol_density = 12 / 10, pol_maxDepth = 30, pol_geofenceRadius = 10,
         pol_batteryThreshold = 6 / 10, pol_maxViolations = 0, pol_emergencyEscalation = [''gas_detected''],
         pol_mix = [(''relay'', 5 / 10), (''triage'', 3 / 10), (''explore'', 2 / 10)],
         pol_confirmationThreshold = 95 / 100, pol_minNodes = 4, pol_requiredCapabilities = [''gas'', ''sealed''] \<rparr>),
      (''tunnel'', \<lparr> pol_scenario = ''tunnel'',
         pol_roles = [
           \<lparr> plr_type = ''explorer'', plr_minCount = 2, plr_prioritySensors = [''lidar'', ''indoor''], plr_maxRisk = 35 / 100 \<rparr>,
           \<lparr> plr_type = ''relay'', plr_minCount = 2, plr_prioritySensors = [''long_range_radio''], plr_maxRisk = 25 / 100 \<rparr>,
           \<lparr> plr_type = ''triage'', plr_minCount = 0, plr_prioritySensors = [''optical''], plr_maxRisk = 3 / 10 \<rparr>],
         pol_density = 9 / 10, pol_maxDepth = 800, pol_geofenceRadius = 15,
         pol_batteryThreshold = 35 / 100, pol_maxViolations = 2, pol_emergencyEscalation = [''comm_loss'', ''geo_fence_violation''],
         pol_mix = [(''explore'', 45 / 100), (''relay'', 4 / 10), (''triage'', 15 / 100)],
         pol_confirmationThreshold = 85 / 100, pol_minNodes = 4, pol_requiredCapabilities = [''relay''] \<rparr>),
      (''wildfire'', \<lparr> pol_scenario = ''wildfire'',
         pol_roles = [
           \<lparr> plr_type = ''explorer'', plr_minCount = 2, plr_prioritySensors = [''thermal'', ''rgb''], plr_maxRisk = 45 / 100 \<rparr>,
           \<lparr> plr_type = ''relay'', plr_minCount = 1, plr_prioritySensors = [''long_range_radio''], plr_maxRisk = 35 / 100 \<rparr>,
           \<lparr> plr_type = ''triage'', plr_minCount = 1, plr_prioritySensors = [''optical''], plr_maxRisk = 4 / 10 \<rparr>],
         pol_density = 5 / 10, pol_maxDepth = 120, pol_geofenceRadius = 80,
         pol_batteryThreshold = 45 / 100, pol_maxViolations = 1, pol_emergencyEscalation = [''wind_shift'', ''thermal_runaway''],
         pol_mix = [(''explore'', 55 / 100), (''relay'', 25 / 100), (''triage'', 2 / 10)],
         pol_confirmationThreshold = 75 / 100, pol_minNodes = 4, pol_requiredCapabilities = [''thermal''] \<rparr>),
      (''extraction'', \<lparr> pol_scenario = ''extraction'',
         pol_roles = [
           \<lparr> plr_type = ''explorer'', plr_minCount = 1, plr_prioritySensors = [''optical''], plr_maxRisk = 35 / 100 \<rparr>,
           \<lparr> plr_type = ''relay'', plr_minCount = 1, plr_prioritySensors = [], plr_maxRisk = 3 / 10 \<rparr>,
           \<lparr> plr_type = ''extractor'', plr_minCount = 2, plr_prioritySensors = [''winch'', ''carrier''], plr_maxRisk = 45 / 100 \<rparr>,
           \<lparr> plr_type = ''transport'', plr_minCount = 0, plr_prioritySensors = [''carrier''], plr_maxRisk = 4 / 10 \<rparr>],
         pol_density = 55 / 100, pol_maxDepth = 40, pol_geofenceRadius = 25,
         pol_batteryThreshold = 35 / 100, pol_maxViolations = 2, pol_emergencyEscalation = [''load_unstable''],
         pol_mix = [(''extract'', 55 / 100), (''explore'', 25 / 100), (''relay'', 2 / 10)],
         pol_confirmationThreshold = 82 / 100, pol_minNodes = 3, pol_requiredCapabilities = [] \<rparr>)]"

text \<open>\<open>compile\<close> throws on a text that names no scenario; \<open>TEMPLATES[key]\<close> may be \<open>undefined\<close>.\<close>

definition compile_policy :: "string \<Rightarrow> string + mission_policy option" where
  "compile_policy scenario =
     (case coerceMissionScenarioKind (Some scenario) of
        None \<Rightarrow> Inl (''Unknown scenario: '' @ scenario)
      | Some key \<Rightarrow> Inr (js_get TEMPLATES key))"

definition tryCompile :: "string option \<Rightarrow> mission_policy option" where
  "tryCompile scenario =
     (case coerceMissionScenarioKind scenario of None \<Rightarrow> None | Some key \<Rightarrow> js_get TEMPLATES key)"

subsection \<open>Payload values\<close>

text \<open>\<open>e.payload.k\<close>, with \<open>null\<close> read as \<open>undefined\<close> as \<open>??\<close> does.\<close>

definition payload_at :: "'a mission_event_input_scheme \<Rightarrow> string \<Rightarrow> json option" where
  "payload_at e k = (case js_get (mi_payload e) k of Some JNull \<Rightarrow> None | v \<Rightarrow> v)"

text \<open>\<open>String(e.payload.k ?? d)\<close>\<close>

definition payload_text :: "(real \<Rightarrow> string) \<Rightarrow> 'a mission_event_input_scheme \<Rightarrow> string \<Rightarrow> string \<Rightarrow> string" where
  "payload_text ns e k d = (case payload_at e k of None \<Rightarrow> d | Some v \<Rightarrow> js_string ns v)"

definition js_truthy :: "json \<Rightarrow> bool" where
  "js_truthy v = (case v of JNull \<Rightarrow> False | JBool b \<Rightarrow> b | JNum r \<Rightarrow> r \<noteq> 0 | JStr s \<Rightarrow> s \<noteq> [] | _ \<Rightarrow> True)"

text \<open>\<open>Number(v)\<close> where it is finite.\<close>

definition finite_number :: "(real \<Rightarrow> string) \<Rightarrow> (string \<Rightarrow> real option) \<Rightarrow> json \<Rightarrow> real option" where
  "finite_number ns rd v =
     (case v of JNull \<Rightarrow> Some 0 | JBool b \<Rightarrow> Some (if b then 1 else 0) | JNum r \<Rightarrow> Some r | JStr s \<Rightarrow> rd s
      | _ \<Rightarrow> rd (js_string ns v))"

definition asPhase :: "json option \<Rightarrow> mission_phase option" where
  "asPhase v = (case v of Some (JStr s) \<Rightarrow> List.find (\<lambda>p. phase_str p = s) MISSION_PHASES | _ \<Rightarrow> None)"

definition role_cast :: "json \<Rightarrow> mission_node_role" where
  "role_cast v = default_to (js_get [(JStr ''explorer'', MrExplorer), (JStr ''relay'', MrRelay), (JStr ''carrier'', MrCarrier),
     (JStr ''medic'', MrMedic), (JStr ''observer'', MrObserver)] v) (MrCast v)"

definition mode_cast :: "json \<Rightarrow> connectivity_mode" where
  "mode_cast v = default_to (js_get [(JStr ''normal'', CmNormal), (JStr ''degraded'', CmDegraded),
     (JStr ''partial_partition'', CmPartialPartition), (JStr ''blackout'', CmBlackout), (JStr ''recovery'', CmRecovery),
     (JStr ''resync'', CmResync)] v) (CmCast v)"

definition level_cast :: "json \<Rightarrow> alert_level" where
  "level_cast v = default_to (js_get [(JStr ''info'', AlInfo), (JStr ''warn'', AlWarn), (JStr ''critical'', AlCritical)] v) (AlCast v)"

subsection \<open>The replay\<close>

definition on_mission_created :: "(real \<Rightarrow> string) \<Rightarrow> (string \<Rightarrow> real option) \<Rightarrow> chain_event \<Rightarrow> mission_state \<Rightarrow> mission_state" where
  "on_mission_created ns rd e st =
     (let cells = finite_number ns rd (default_to (payload_at e ''cellsKnown'') (JNum 0));
          scenario = coerceMissionScenarioKind (case payload_at e ''scenario'' of Some (JStr s) \<Rightarrow> Some s | _ \<Rightarrow> None)
      in st\<lparr> ms_phase := default_to (asPhase (payload_at e ''phase'')) PInit,
             ms_scenario := nullish scenario (ms_scenario st),
             ms_mapSummary := (case cells of
                 Some c \<Rightarrow> if c > 0 then (ms_mapSummary st)\<lparr> su_cellsKnown := c \<rparr> else ms_mapSummary st
               | None \<Rightarrow> ms_mapSummary st) \<rparr>)"

definition on_phase_transition :: "(real \<Rightarrow> string) \<Rightarrow> (string \<Rightarrow> real option) \<Rightarrow> chain_event \<Rightarrow> mission_state \<Rightarrow> mission_state" where
  "on_phase_transition ns rd e st =
     (let cells = (case payload_at e ''cellsKnown'' of None \<Rightarrow> None | Some v \<Rightarrow> finite_number ns rd v);
          summary = (case cells of
              Some c \<Rightarrow> if c \<ge> 0 then (ms_mapSummary st)\<lparr> su_cellsKnown := max (su_cellsKnown (ms_mapSummary st)) (of_int \<lfloor>c\<rfloor>) \<rparr>
                        else ms_mapSummary st
            | None \<Rightarrow> ms_mapSummary st)
      in case asPhase (payload_at e ''toPhase'') of
           Some to_ph \<Rightarrow> st\<lparr> ms_phase := to_ph, ms_mapSummary := summary \<rparr>
         | None \<Rightarrow> st)"

definition on_node_join :: "(real \<Rightarrow> string) \<Rightarrow> chain_event \<Rightarrow> mission_state \<Rightarrow> mission_state" where
  "on_node_join ns e st =
     (let nodeId = payload_text ns e ''nodeId'' []
      in if nodeId = [] then st
         else st\<lparr> ms_roster := js_put nodeId
                \<lparr> re_nodeId = nodeId,
                  re_role = (case payload_at e ''role'' of None \<Rightarrow> MrObserver | Some v \<Rightarrow> role_cast v),
                  re_joinedAtMs = mi_timestamp e,
                  re_capabilities = (case payload_at e ''capabilities'' of Some (JArr xs) \<Rightarrow> map (js_string ns) xs | _ \<Rightarrow> []) \<rparr>
                (ms_roster st) \<rparr>)"

definition on_role_change :: "(real \<Rightarrow> string) \<Rightarrow> chain_event \<Rightarrow> mission_state \<Rightarrow> mission_state" where
  "on_role_change ns e st =
     (let nodeId = payload_text ns e ''nodeId'' []
      in case (payload_at e ''role'', js_get (ms_roster st) nodeId) of
           (Some role, Some entry) \<Rightarrow>
             if nodeId = [] \<or> \<not> js_truthy role then st
             else st\<lparr> ms_roster := js_put nodeId (entry\<lparr> re_role := role_cast role \<rparr>) (ms_roster st) \<rparr>
         | _ \<Rightarrow> st)"

definition on_target_discovered :: "(real \<Rightarrow> string) \<Rightarrow> chain_event \<Rightarrow> mission_state \<Rightarrow> mission_state" where
  "on_target_discovered ns e st =
     (let targetId = payload_text ns e ''targetId'' []
      in if targetId = [] then st
         else st\<lparr> ms_targets := js_put targetId
                \<lparr> st_targetId = targetId, st_discoveredBy = Some (mi_actorId e), st_confirmedByVertex = Some False,
                  st_notes = Some (payload_text ns e ''notes'' []) \<rparr> (ms_targets st) \<rparr>)"

definition on_target_confirmed :: "(real \<Rightarrow> string) \<Rightarrow> chain_event \<Rightarrow> mission_state \<Rightarrow> mission_state" where
  "on_target_confirmed ns e st =
     (let targetId = payload_text ns e ''targetId'' []
      in case js_get (ms_targets st) targetId of
           None \<Rightarrow> st
         | Some t \<Rightarrow> if targetId = [] then st
                     else st\<lparr> ms_targets := js_put targetId (t\<lparr> st_confirmedByVertex := Some True \<rparr>) (ms_targets st) \<rparr>)"

definition assign_task :: "(real \<Rightarrow> string) \<Rightarrow> string \<Rightarrow> string \<Rightarrow> chain_event \<Rightarrow> mission_state \<Rightarrow> mission_state" where
  "assign_task ns taskId nodeId e st =
     (if taskId = [] \<or> nodeId = [] then st
      else st\<lparr> ms_assignments := js_put taskId
             \<lparr> ta_taskId = taskId, ta_nodeId = nodeId, ta_taskType = payload_text ns e ''taskType'' ''generic'',
               ta_assignedAtMs = mi_timestamp e \<rparr> (ms_assignments st) \<rparr>)"

definition on_task_assigned :: "(real \<Rightarrow> string) \<Rightarrow> chain_event \<Rightarrow> mission_state \<Rightarrow> mission_state" where
  "on_task_assigned ns e st = assign_task ns (payload_text ns e ''taskId'' []) (payload_text ns e ''nodeId'' []) e st"

definition on_task_reassigned :: "(real \<Rightarrow> string) \<Rightarrow> chain_event \<Rightarrow> mission_state \<Rightarrow> mission_state" where
  "on_task_reassigned ns e st =
     assign_task ns (payload_text ns e ''taskId'' []) (payload_text ns e ''newNodeId'' (payload_text ns e ''nodeId'' [])) e st"

definition on_task_completed :: "(real \<Rightarrow> string) \<Rightarrow> chain_event \<Rightarrow> mission_state \<Rightarrow> mission_state" where
  "on_task_completed ns e st =
     (let taskId = payload_text ns e ''taskId'' []
      in if taskId = [] then st
         else st\<lparr> ms_assignments := js_remove taskId (ms_assignments st),
                  ms_completedTaskIds := set_add taskId (dedup (ms_completedTaskIds st)) \<rparr>)"

definition on_extraction_confirmed :: "(real \<Rightarrow> string) \<Rightarrow> chain_event \<Rightarrow> mission_state \<Rightarrow> mission_state" where
  "on_extraction_confirmed ns e st =
     (let targetId = payload_text ns e ''targetId'' []
      in case js_get (ms_targets st) targetId of
           None \<Rightarrow> st
         | Some t \<Rightarrow> if targetId = [] then st
                     else st\<lparr> ms_targets := js_put targetId
                            (t\<lparr> st_notes := Some (default_to (st_notes t) [] @ '' extraction_ok'') \<rparr>) (ms_targets st) \<rparr>)"

definition on_safety_alert :: "(real \<Rightarrow> string) \<Rightarrow> chain_event \<Rightarrow> mission_state \<Rightarrow> mission_state" where
  "on_safety_alert ns e st =
     st\<lparr> ms_alerts := ms_alerts st @
          [\<lparr> al_alertId = payload_text ns e ''alertId'' (take 12 (mi_eventHash e)),
             al_level = (case payload_at e ''level'' of None \<Rightarrow> AlWarn | Some v \<Rightarrow> level_cast v),
             al_message = payload_text ns e ''message'' [], al_raisedAtMs = mi_timestamp e,
             al_sourceNodeId = Some (mi_actorId e) \<rparr>] \<rparr>"

definition applyVertex :: "(real \<Rightarrow> string) \<Rightarrow> (string \<Rightarrow> real option) \<Rightarrow> chain_event \<Rightarrow> mission_state \<Rightarrow> mission_state" where
  "applyVertex ns rd e st =
     (let kind = mi_eventType e
      in if kind = ''mission_created'' then on_mission_created ns rd e st
         else if kind = ''phase_transition'' then on_phase_transition ns rd e st
         else if kind = ''node_join'' then on_node_join ns e st
         else if kind = ''role_change'' then on_role_change ns e st
         else if kind = ''target_discovered'' then on_target_discovered ns e st
         else if kind = ''target_confirmed'' then on_target_confirmed ns e st
         else if kind = ''task_bid'' then st
         else if kind = ''task_assigned'' then on_task_assigned ns e st
         else if kind = ''task_reassigned'' then on_task_reassigned ns e st
         else if kind = ''task_completed'' then on_task_completed ns e st
         else if kind = ''blackout_entered'' then
           st\<lparr> ms_connectivityMode := Some (case payload_at e ''mode'' of None \<Rightarrow> CmBlackout | Some v \<Rightarrow> mode_cast v) \<rparr>
         else if kind = ''blackout_cleared'' then st\<lparr> ms_connectivityMode := Some CmRecovery \<rparr>
         else if kind = ''sync_reconciled'' then st\<lparr> ms_connectivityMode := Some CmNormal \<rparr>
         else if kind = ''local_autonomy_activated'' \<or> kind = ''tentative_phase'' then st
         else if kind = ''extraction_confirmed'' then on_extraction_confirmed ns e st
         else if kind = ''safety_alert'' then on_safety_alert ns e st
         else if kind = ''recovery_checkpoint'' then
           st\<lparr> ms_recoveryCheckpoints := ms_recoveryCheckpoints st @ [payload_text ns e ''label'' (mi_eventHash e)] \<rparr>
         else st)"

text \<open>
  The branch of \<open>applyOne\<close> for a Lattice \<open>node_heartbeat\<close> rebuilds the roster entry from its own fields, which
  gives an equal state.
\<close>

definition advance_pointer :: "chain_event \<Rightarrow> mission_state \<Rightarrow> mission_state" where
  "advance_pointer e st =
     st\<lparr> ms_updatedAtMs := max (ms_updatedAtMs st) (mi_timestamp e),
         ms_consensusPointer := \<lparr> cp_sequence = cp_sequence (ms_consensusPointer st) + 1, cp_lastEventHash = mi_eventHash e \<rparr> \<rparr>"

definition refresh_roster :: "(real \<Rightarrow> string) \<Rightarrow> chain_event \<Rightarrow> mission_state \<Rightarrow> mission_state" where
  "refresh_roster ns e st =
     (let nodeId = payload_text ns e ''nodeId'' []
      in case js_get (ms_roster st) nodeId of
           Some entry \<Rightarrow> if nodeId = [] then st
             else st\<lparr> ms_roster := js_put nodeId (entry\<lparr> re_joinedAtMs := re_joinedAtMs entry \<rparr>) (ms_roster st) \<rparr>
         | None \<Rightarrow> st)"

definition applyOne :: "(real \<Rightarrow> string) \<Rightarrow> (string \<Rightarrow> real option) \<Rightarrow> mission_state \<Rightarrow> chain_event \<Rightarrow> mission_state" where
  "applyOne ns rd st e =
     (let next = advance_pointer e st
      in if mi_plane e = PlaneVertex \<and> isVertexEvent (mi_eventType e) then applyVertex ns rd e next
         else if mi_eventType e = ''node_heartbeat'' \<and> mi_plane e = PlaneLattice then refresh_roster ns e next
         else next)"

definition applyMissionLedgerEvent :: "(real \<Rightarrow> string) \<Rightarrow> (string \<Rightarrow> real option) \<Rightarrow> mission_state \<Rightarrow> chain_event \<Rightarrow> mission_state" where
  "applyMissionLedgerEvent ns rd st e = (if mi_missionId e \<noteq> ms_missionId st then st else applyOne ns rd st e)"

definition creates_mission :: "ident \<Rightarrow> chain_event \<Rightarrow> bool" where
  "creates_mission missionId e \<longleftrightarrow> mi_missionId e = missionId \<and> mi_eventType e = ''mission_created''"

definition replay_start :: "timestamp \<Rightarrow> chain_event list \<Rightarrow> ident \<Rightarrow> mission_state" where
  "replay_start now events missionId =
     emptyMissionState missionId
       (case List.find (creates_mission missionId) events of Some e \<Rightarrow> mi_timestamp e | None \<Rightarrow> now)"

definition replayMissionFromLedger :: "(real \<Rightarrow> string) \<Rightarrow> (string \<Rightarrow> real option) \<Rightarrow> timestamp \<Rightarrow> chain_event list \<Rightarrow> ident \<Rightarrow> mission_state" where
  "replayMissionFromLedger ns rd now events missionId =
     foldl (\<lambda>st e. if mi_missionId e \<noteq> missionId then st else applyOne ns rd st e) (replay_start now events missionId) events"

subsection \<open>Which rows a replay reads\<close>

lemmas replay_handlers = on_mission_created_def on_phase_transition_def on_node_join_def on_role_change_def
  on_target_discovered_def on_target_confirmed_def assign_task_def on_task_assigned_def on_task_reassigned_def
  on_task_completed_def on_extraction_confirmed_def on_safety_alert_def refresh_roster_def

lemma handler_frame:
  "ms_missionId (on_mission_created ns rd e st) = ms_missionId st"
  "ms_missionId (on_phase_transition ns rd e st) = ms_missionId st"
  "ms_missionId (on_node_join ns e st) = ms_missionId st"
  "ms_missionId (on_role_change ns e st) = ms_missionId st"
  "ms_missionId (on_target_discovered ns e st) = ms_missionId st"
  "ms_missionId (on_target_confirmed ns e st) = ms_missionId st"
  "ms_missionId (assign_task ns t n e st) = ms_missionId st"
  "ms_missionId (on_task_completed ns e st) = ms_missionId st"
  "ms_missionId (on_extraction_confirmed ns e st) = ms_missionId st"
  "ms_missionId (on_safety_alert ns e st) = ms_missionId st"
  "ms_missionId (refresh_roster ns e st) = ms_missionId st"
  "ms_consensusPointer (on_mission_created ns rd e st) = ms_consensusPointer st"
  "ms_consensusPointer (on_phase_transition ns rd e st) = ms_consensusPointer st"
  "ms_consensusPointer (on_node_join ns e st) = ms_consensusPointer st"
  "ms_consensusPointer (on_role_change ns e st) = ms_consensusPointer st"
  "ms_consensusPointer (on_target_discovered ns e st) = ms_consensusPointer st"
  "ms_consensusPointer (on_target_confirmed ns e st) = ms_consensusPointer st"
  "ms_consensusPointer (assign_task ns t n e st) = ms_consensusPointer st"
  "ms_consensusPointer (on_task_completed ns e st) = ms_consensusPointer st"
  "ms_consensusPointer (on_extraction_confirmed ns e st) = ms_consensusPointer st"
  "ms_consensusPointer (on_safety_alert ns e st) = ms_consensusPointer st"
  "ms_consensusPointer (refresh_roster ns e st) = ms_consensusPointer st"
  by (simp_all add: replay_handlers Let_def split: option.splits)

lemma applyOne_frame [simp]:
  "ms_missionId (applyOne ns rd st e) = ms_missionId st"
  "ms_consensusPointer (applyOne ns rd st e) =
     \<lparr> cp_sequence = cp_sequence (ms_consensusPointer st) + 1, cp_lastEventHash = mi_eventHash e \<rparr>"
  by (simp_all add: applyOne_def applyVertex_def advance_pointer_def on_task_assigned_def on_task_reassigned_def Let_def handler_frame)

definition replay_rows :: "(real \<Rightarrow> string) \<Rightarrow> (string \<Rightarrow> real option) \<Rightarrow> mission_state \<Rightarrow> chain_event list \<Rightarrow> mission_state" where
  "replay_rows ns rd st es = foldl (applyOne ns rd) st es"

lemma replay_filter:
  "foldl (\<lambda>st e. if mi_missionId e \<noteq> m then st else applyOne ns rd st e) st es = replay_rows ns rd st (eventsForMission m es)"
  by (induction es arbitrary: st) (simp_all add: replay_rows_def eventsForMission_def)

lemma find_created_own: "List.find (creates_mission m) (eventsForMission m es) = List.find (creates_mission m) es"
  by (induction es) (auto simp: creates_mission_def eventsForMission_def)

lemma replay_rows_eq:
  "replayMissionFromLedger ns rd now es m = replay_rows ns rd (replay_start now es m) (eventsForMission m es)"
  by (simp add: replayMissionFromLedger_def replay_filter)

lemma replay_rows_pointer:
  "ms_missionId (replay_rows ns rd st es) = ms_missionId st
   \<and> cp_sequence (ms_consensusPointer (replay_rows ns rd st es)) = cp_sequence (ms_consensusPointer st) + int (length es)
   \<and> cp_lastEventHash (ms_consensusPointer (replay_rows ns rd st es)) =
       (if es = [] then cp_lastEventHash (ms_consensusPointer st) else mi_eventHash (last es))"
  by (induction es arbitrary: st) (simp_all add: replay_rows_def)

lemma apply_rows_eq:
  "ms_missionId st = m \<Longrightarrow> foldl (applyMissionLedgerEvent ns rd) st es = replay_rows ns rd st (eventsForMission m es)"
  by (induction es arbitrary: st) (auto simp: applyMissionLedgerEvent_def replay_rows_def eventsForMission_def)

text \<open>
  The replay of a mission reads only the rows of that mission: rows of other missions, wherever they stand in
  the ledger, change nothing. The consensus pointer counts the mission's rows and names the last one, as the
  ledger's own mission tail does.
\<close>

theorem replay_reads_own_rows:
  "(let st = replayMissionFromLedger ns rd now es m
    in st = replayMissionFromLedger ns rd now (eventsForMission m es) m \<and> ms_missionId st = m
       \<and> cp_sequence (ms_consensusPointer st) = int (length (eventsForMission m es))
       \<and> cp_lastEventHash (ms_consensusPointer st) = missionTailHash m es)"
proof -
  have "eventsForMission m (eventsForMission m es) = eventsForMission m es" by (simp add: eventsForMission_def)
  then show ?thesis
    by (simp add: Let_def replay_rows_eq replay_start_def find_created_own replay_rows_pointer emptyMissionState_def missionTailHash_def)
qed

text \<open>
  Replaying a ledger and then applying the rows appended later one by one gives the replay of the whole ledger, once
  the mission has a \<open>mission_created\<close> row.
\<close>

theorem replay_extends:
  assumes "list_ex (creates_mission m) es"
  shows "foldl (applyMissionLedgerEvent ns rd) (replayMissionFromLedger ns rd now es m) fs
       = replayMissionFromLedger ns rd now' (es @ fs) m"
proof -
  obtain e where e: "List.find (creates_mission m) es = Some e"
    using assms by (cases "List.find (creates_mission m) es") (auto simp: find_None_iff list_ex_iff)
  then have "List.find (creates_mission m) (es @ fs) = Some e"
    by (induction es) (auto split: if_splits)
  then have start: "replay_start now es m = replay_start now' (es @ fs) m" by (simp add: replay_start_def e)
  have "ms_missionId (replayMissionFromLedger ns rd now es m) = m"
    by (simp add: replay_rows_eq replay_rows_pointer replay_start_def emptyMissionState_def)
  from apply_rows_eq [OF this]
  show ?thesis by (simp add: replay_rows_eq start eventsForMission_def replay_rows_def)
qed

definition toy_row :: "string \<Rightarrow> obj \<Rightarrow> chain_event" where
  "toy_row kind p = \<lparr> mi_missionId = ''m1'', mi_actorId = ''n1'', mi_eventType = kind, mi_plane = PlaneVertex,
     mi_payload = p, mi_timestamp = 5, mi_previousHash = ''genesis'', mi_eventHash = ''h'' \<rparr>"

theorem replay_extends_witness:
  "foldl (applyMissionLedgerEvent (\<lambda>r. []) (\<lambda>s. None))
      (replayMissionFromLedger (\<lambda>r. []) (\<lambda>s. None) 0 [toy_row ''mission_created'' []] ''m1'')
      [toy_row ''target_discovered'' [(''targetId'', JStr ''t1'')]]
   = replayMissionFromLedger (\<lambda>r. []) (\<lambda>s. None) 9
       ([toy_row ''mission_created'' []] @ [toy_row ''target_discovered'' [(''targetId'', JStr ''t1'')]]) ''m1''"
  by (rule replay_extends) (simp add: toy_row_def creates_mission_def)

subsection \<open>What the rows determine\<close>

definition vertex_row :: "chain_event \<Rightarrow> bool" where
  "vertex_row e \<longleftrightarrow> mi_plane e = PlaneVertex \<and> isVertexEvent (mi_eventType e)"

definition vertex_kind :: "string \<Rightarrow> chain_event \<Rightarrow> bool" where
  "vertex_kind k e \<longleftrightarrow> mi_plane e = PlaneVertex \<and> mi_eventType e = k"

text \<open>A part of the state that each row either sets to a value of its own or leaves is set by the last row that sets it.\<close>

definition last_written :: "(chain_event \<Rightarrow> 'v option) \<Rightarrow> chain_event list \<Rightarrow> 'v \<Rightarrow> 'v" where
  "last_written writes es d = (let ws = List.map_filter writes es in if ws = [] then d else last ws)"

lemma last_written_simps [simp]:
  "last_written writes [] d = d"
  "last_written writes (es @ [e]) d = (case writes e of Some v \<Rightarrow> v | None \<Rightarrow> last_written writes es d)"
  by (simp_all add: last_written_def List.map_filter_def split: option.split)

lemma last_writer:
  assumes "\<And>st e. I st \<Longrightarrow> get (applyOne ns rd st e) = (case writes e of Some v \<Rightarrow> v | None \<Rightarrow> get st)"
    and "\<And>st e. I st \<Longrightarrow> I (applyOne ns rd st e)" and "I st"
  shows "I (replay_rows ns rd st es) \<and> get (replay_rows ns rd st es) = last_written writes es (get st)"
proof (induction es rule: rev_induct)
  case (snoc e es)
  then show ?case using assms(1,2) [of "replay_rows ns rd st es" e] by (simp add: replay_rows_def split: option.split)
qed (simp add: replay_rows_def assms(3))

definition phase_written :: "chain_event \<Rightarrow> mission_phase option" where
  "phase_written e =
     (if vertex_kind ''mission_created'' e then Some (default_to (asPhase (payload_at e ''phase'')) PInit)
      else if vertex_kind ''phase_transition'' e then asPhase (payload_at e ''toPhase'') else None)"

lemma is_vertex_kinds:
  "isVertexEvent ''mission_created''" "isVertexEvent ''phase_transition''" "isVertexEvent ''target_discovered''"
  "isVertexEvent ''target_confirmed''" "isVertexEvent ''extraction_confirmed''" "isVertexEvent ''task_assigned''"
  "isVertexEvent ''task_reassigned''" "isVertexEvent ''task_completed''" "isVertexEvent ''safety_alert''" "isVertexEvent ''node_join''"
  by (simp_all add: isVertexEvent_def VERTEX_LEDGER_EVENT_TYPES_def)

lemma phase_handlers:
  "ms_phase (on_node_join ns e st) = ms_phase st"
  "ms_phase (on_role_change ns e st) = ms_phase st"
  "ms_phase (on_target_discovered ns e st) = ms_phase st"
  "ms_phase (on_target_confirmed ns e st) = ms_phase st"
  "ms_phase (assign_task ns t n e st) = ms_phase st"
  "ms_phase (on_task_completed ns e st) = ms_phase st"
  "ms_phase (on_extraction_confirmed ns e st) = ms_phase st"
  "ms_phase (on_safety_alert ns e st) = ms_phase st"
  "ms_phase (refresh_roster ns e st) = ms_phase st"
  by (simp_all add: replay_handlers Let_def split: option.splits)

lemma phase_of_vertex:
  "ms_phase (applyVertex ns rd e st) =
     (if mi_eventType e = ''mission_created'' then default_to (asPhase (payload_at e ''phase'')) PInit
      else if mi_eventType e = ''phase_transition'' then default_to (asPhase (payload_at e ''toPhase'')) (ms_phase st)
      else ms_phase st)"
proof -
  have "ms_phase (on_mission_created ns rd e st) = default_to (asPhase (payload_at e ''phase'')) PInit"
    "ms_phase (on_phase_transition ns rd e st) = default_to (asPhase (payload_at e ''toPhase'')) (ms_phase st)"
    by (simp_all add: on_mission_created_def on_phase_transition_def Let_def split: option.split)
  then show ?thesis
    by (simp add: applyVertex_def Let_def if_distrib [of ms_phase] phase_handlers on_task_assigned_def on_task_reassigned_def
)
qed

lemma phase_of_apply:
  "ms_phase (applyOne ns rd st e) = (case phase_written e of Some p \<Rightarrow> p | None \<Rightarrow> ms_phase st)"
proof -
  have "ms_phase (advance_pointer e st) = ms_phase st" by (simp add: advance_pointer_def)
  then have "ms_phase (applyOne ns rd st e) = (if mi_plane e = PlaneVertex \<and> isVertexEvent (mi_eventType e)
      then ms_phase (applyVertex ns rd e (advance_pointer e st)) else ms_phase st)"
    by (simp add: applyOne_def Let_def phase_handlers)
  then show ?thesis
    by (auto simp: phase_of_vertex phase_written_def vertex_kind_def is_vertex_kinds default_to_def advance_pointer_def split: option.split)
qed

definition assignment_written :: "(real \<Rightarrow> string) \<Rightarrow> ident \<Rightarrow> chain_event \<Rightarrow> task_assignment option option" where
  "assignment_written ns t e =
     (let task = payload_text ns e ''taskId'' [];
          node = (if mi_eventType e = ''task_reassigned'' then payload_text ns e ''newNodeId'' (payload_text ns e ''nodeId'' [])
                  else payload_text ns e ''nodeId'' [])
      in if task \<noteq> t \<or> task = [] then None
         else if vertex_kind ''task_completed'' e then Some None
         else if (vertex_kind ''task_assigned'' e \<or> vertex_kind ''task_reassigned'' e) \<and> node \<noteq> []
         then Some (Some \<lparr> ta_taskId = t, ta_nodeId = node, ta_taskType = payload_text ns e ''taskType'' ''generic'',
                ta_assignedAtMs = mi_timestamp e \<rparr>)
         else None)"

lemma assignment_handlers:
  "ms_assignments (on_mission_created ns rd e st) = ms_assignments st"
  "ms_assignments (on_phase_transition ns rd e st) = ms_assignments st"
  "ms_assignments (on_node_join ns e st) = ms_assignments st"
  "ms_assignments (on_role_change ns e st) = ms_assignments st"
  "ms_assignments (on_target_discovered ns e st) = ms_assignments st"
  "ms_assignments (on_target_confirmed ns e st) = ms_assignments st"
  "ms_assignments (on_extraction_confirmed ns e st) = ms_assignments st"
  "ms_assignments (on_safety_alert ns e st) = ms_assignments st"
  "ms_assignments (refresh_roster ns e st) = ms_assignments st"
  by (simp_all add: replay_handlers Let_def split: option.splits)

lemma assignments_of_vertex:
  "ms_assignments (applyVertex ns rd e st) =
     (if mi_eventType e = ''task_assigned'' then ms_assignments (on_task_assigned ns e st)
      else if mi_eventType e = ''task_reassigned'' then ms_assignments (on_task_reassigned ns e st)
      else if mi_eventType e = ''task_completed'' then ms_assignments (on_task_completed ns e st)
      else ms_assignments st)"
  by (simp add: applyVertex_def Let_def if_distrib [of ms_assignments] assignment_handlers)

lemma assignments_of_apply:
  "ms_assignments (applyOne ns rd st e) =
     (if vertex_kind ''task_assigned'' e then ms_assignments (on_task_assigned ns e st)
      else if vertex_kind ''task_reassigned'' e then ms_assignments (on_task_reassigned ns e st)
      else if vertex_kind ''task_completed'' e then ms_assignments (on_task_completed ns e st)
      else ms_assignments st)"
proof -
  have "ms_assignments (advance_pointer e st) = ms_assignments st" 
    "ms_assignments (on_task_assigned ns e (advance_pointer e st)) = ms_assignments (on_task_assigned ns e st)"
    "ms_assignments (on_task_reassigned ns e (advance_pointer e st)) = ms_assignments (on_task_reassigned ns e st)"
    "ms_assignments (on_task_completed ns e (advance_pointer e st)) = ms_assignments (on_task_completed ns e st)"
    by (simp_all add: advance_pointer_def on_task_assigned_def on_task_reassigned_def on_task_completed_def assign_task_def Let_def)
  then show ?thesis
    by (auto simp: applyOne_def Let_def assignment_handlers assignments_of_vertex vertex_kind_def is_vertex_kinds)
qed

lemma wf_assignments: "wf_map (ms_assignments st) \<Longrightarrow> wf_map (ms_assignments (applyOne ns rd st e))"
  by (simp add: assignments_of_apply on_task_assigned_def on_task_reassigned_def assign_task_def on_task_completed_def Let_def
      jsm.invar_insert jsm.invar_remove)

lemma assignment_of_apply:
  assumes "wf_map (ms_assignments st)"
  shows "js_get (ms_assignments (applyOne ns rd st e)) t = (case assignment_written ns t e of Some v \<Rightarrow> v | None \<Rightarrow> js_get (ms_assignments st) t)"
  by (auto simp: assignments_of_apply assignment_written_def vertex_kind_def Let_def on_task_assigned_def on_task_reassigned_def
      assign_task_def on_task_completed_def js_map_simps)

lemma replayed_phase: "ms_phase (replayMissionFromLedger ns rd now es m) = last_written phase_written (eventsForMission m es) PInit"
proof -
  have "ms_phase (replay_start now es m) = PInit" by (simp add: replay_start_def emptyMissionState_def)
  then show ?thesis unfolding replay_rows_eq
    using last_writer [where I = "\<lambda>st. True" and get = ms_phase and st = "replay_start now es m"] by (simp add: phase_of_apply)
qed

lemma replayed_assignment:
  "js_get (ms_assignments (replayMissionFromLedger ns rd now es m)) t = last_written (assignment_written ns t) (eventsForMission m es) None"
proof -
  have "ms_assignments (replay_start now es m) = []" by (simp add: replay_start_def emptyMissionState_def)
  then show ?thesis unfolding replay_rows_eq
    using last_writer [where I = "\<lambda>st. wf_map (ms_assignments st)" and get = "\<lambda>st. js_get (ms_assignments st) t" and st = "replay_start now es m"]
    by (simp add: assignment_of_apply wf_assignments jsm.invar_empty)
qed

text \<open>
  C5. The replayed phase is the one of the last row that names a phase, and a task is assigned exactly as the last row about it says:
  to its node after an assignment or reassignment, to nobody after its completion. Neither depends on any other row.
\<close>

theorem replay_last_row_wins:
  "(let st = replayMissionFromLedger ns rd now es m; rows = eventsForMission m es
    in ms_phase st = last_written phase_written rows PInit
       \<and> js_get (ms_assignments st) t = last_written (assignment_written ns t) rows None)"
  by (simp add: Let_def replayed_phase replayed_assignment)

subsection \<open>Targets\<close>

definition names_target :: "(real \<Rightarrow> string) \<Rightarrow> string \<Rightarrow> ident \<Rightarrow> chain_event \<Rightarrow> bool" where
  "names_target ns kind t e \<longleftrightarrow> vertex_kind kind e \<and> t \<noteq> [] \<and> payload_text ns e ''targetId'' [] = t"

lemma target_handlers:
  "ms_targets (on_mission_created ns rd e st) = ms_targets st"
  "ms_targets (on_phase_transition ns rd e st) = ms_targets st"
  "ms_targets (on_node_join ns e st) = ms_targets st"
  "ms_targets (on_role_change ns e st) = ms_targets st"
  "ms_targets (assign_task ns k n e st) = ms_targets st"
  "ms_targets (on_task_completed ns e st) = ms_targets st"
  "ms_targets (on_safety_alert ns e st) = ms_targets st"
  "ms_targets (refresh_roster ns e st) = ms_targets st"
  "ms_targets (advance_pointer e st) = ms_targets st"
  by (simp_all add: replay_handlers advance_pointer_def Let_def split: option.splits)

lemma targets_of_vertex:
  "ms_targets (applyVertex ns rd e st) =
     (if mi_eventType e = ''target_discovered'' then ms_targets (on_target_discovered ns e st)
      else if mi_eventType e = ''target_confirmed'' then ms_targets (on_target_confirmed ns e st)
      else if mi_eventType e = ''extraction_confirmed'' then ms_targets (on_extraction_confirmed ns e st)
      else ms_targets st)"
  by (simp add: applyVertex_def Let_def if_distrib [of ms_targets] target_handlers on_task_assigned_def on_task_reassigned_def)

definition confirmed_state :: "ident \<Rightarrow> mission_state \<Rightarrow> bool option option" where
  "confirmed_state t st = map_option st_confirmedByVertex (js_get (ms_targets st) t)"

lemma confirmed_of_apply:
  "confirmed_state t (applyOne ns rd st e) =
     (if names_target ns ''target_discovered'' t e then Some (Some False)
      else if names_target ns ''target_confirmed'' t e then map_option (\<lambda>c. Some True) (confirmed_state t st)
      else confirmed_state t st)"
proof -
  have "ms_targets (applyOne ns rd st e) =
      (if mi_plane e = PlaneVertex \<and> isVertexEvent (mi_eventType e) then ms_targets (applyVertex ns rd e (advance_pointer e st)) else ms_targets st)"
    by (simp add: applyOne_def Let_def target_handlers)
  then show ?thesis
    by (auto simp: confirmed_state_def targets_of_vertex target_handlers names_target_def vertex_kind_def is_vertex_kinds js_map_simps
        on_target_discovered_def on_target_confirmed_def on_extraction_confirmed_def Let_def split: option.split)
qed

text \<open>
  C7. A target is known exactly when some row of the mission discovers it, and it is confirmed exactly when a confirmation
  follows the last discovery: a repeated discovery takes the confirmation back.
\<close>

theorem confirmation_exact:
  "confirmed_state t (replayMissionFromLedger ns rd now es m) =
     (let rows = eventsForMission m es; discovers = names_target ns ''target_discovered'' t
      in if list_ex discovers rows
         then Some (Some (list_ex (names_target ns ''target_confirmed'' t) (takeWhile (\<lambda>e. \<not> discovers e) (rev rows))))
         else None)"
proof -
  let ?d = "names_target ns ''target_discovered'' t" and ?c = "names_target ns ''target_confirmed'' t"
  have "confirmed_state t (replay_rows ns rd (replay_start now es m) rows) =
      (if list_ex ?d rows then Some (Some (list_ex ?c (takeWhile (\<lambda>e. \<not> ?d e) (rev rows)))) else None)" for rows
  proof (induction rows rule: rev_induct)
    case (snoc e rows)
    then show ?case by (simp add: replay_rows_def confirmed_of_apply)
  qed (simp add: replay_rows_def replay_start_def emptyMissionState_def confirmed_state_def)
  then show ?thesis by (simp add: Let_def replay_rows_eq)
qed

end
