(* ===== verification/LatticeServices.thy ===== *)
theory LatticeServices
  imports MissionReplay "HOL-Library.Word"
begin

section \<open>Lattice services: node registry, reputation, allocation\<close>

text \<open>
  Models \<open>node-registry.ts\<close>, \<open>capability-scoring.ts\<close>, \<open>reputation-engine.ts\<close> and \<open>allocation-policies.ts\<close> of
  \<open>src/src/backend/lattice\<close>: the trust registry with its scenario budget gate, the reputation folded from ledger rows, and the
  weighted allocation. SHA-256 is the parameter \<open>H\<close>; the order of \<open>localeCompare\<close>, which depends on the host, is the parameter
  \<open>lc\<close>. The lemmas bound trust, reputation and scores, and show that recording a reputation does not change it.
\<close>

subsection \<open>Scores for a scenario\<close>

definition scoreNodeForScenario :: "roster_entry \<Rightarrow> string \<Rightarrow> real" where
  "scoreNodeForScenario entry kind =
     (let caps = dedup (map to_lower (re_capabilities entry)); has = (\<lambda>c. c \<in> set caps); role = re_role entry;
          gain = (\<lambda>b (x::real). if b then x else 0);
          specific =
            (if kind = ''tunnel'' then gain (role = MrRelay \<or> has ''relay'') 40 + gain (has ''lidar'') 15
             else if kind = ''wildfire'' then gain (has ''thermal'') 45 + gain (role = MrExplorer) 10
             else if kind = ''extraction'' then gain (role = MrCarrier \<or> has ''carrier'') 50 + gain (has ''winch'') 20
             else if kind = ''flood_rescue'' then
               gain (role = MrCarrier \<or> has ''carrier'' \<or> has ''boat'') 45 + gain (has ''optical'' \<or> has ''rgb'') 25 + gain (role = MrExplorer) 15
             else if kind = ''hazmat'' then gain (has ''gas'') 40 + gain (has ''thermal'') 30 + gain (role = MrExplorer) 10
             else gain (role = MrExplorer) 25 + gain (has ''thermal'' \<or> has ''rgb'') 15)
      in 50 + specific + gain (has ''long_range_radio'') 10)"

subsection \<open>The node registry\<close>

record node_telemetry =
  hb_nodeId :: ident
  hb_online :: bool
  hb_lastSeenMs :: timestamp
  hb_batteryReserve :: real
  hb_linkQuality :: real
  hb_sensors :: "string list"

record telemetry_patch =
  tp_batteryReserve :: "real option"
  tp_linkQuality :: "real option"
  tp_sensors :: "string list option"

record mission_budget =
  bg_minNodes :: nat
  bg_minRelays :: nat
  bg_minExplorers :: nat
  bg_minExtractors :: nat
  bg_minTriage :: nat
  bg_maxRisk :: real
  bg_minBatteryReserve :: real
  bg_requiredSensors :: "string list"
  bg_minGasRedundantNodes :: "nat option"

definition budget :: "nat \<Rightarrow> nat \<Rightarrow> nat \<Rightarrow> nat \<Rightarrow> nat \<Rightarrow> real \<Rightarrow> real \<Rightarrow> string list \<Rightarrow> mission_budget" where
  "budget nodes relays explorers extractors triage risk reserve sensors =
     \<lparr> bg_minNodes = nodes, bg_minRelays = relays, bg_minExplorers = explorers, bg_minExtractors = extractors,
       bg_minTriage = triage, bg_maxRisk = risk, bg_minBatteryReserve = reserve, bg_requiredSensors = sensors,
       bg_minGasRedundantNodes = None \<rparr>"

definition SCENARIO_BUDGETS :: "(string, mission_budget) jsmap" where
  "SCENARIO_BUDGETS =
     [(''collapsed_building'', budget 5 1 2 1 1 (3 / 10) (4 / 10) [''thermal'', ''audio'']),
      (''flood_rescue'', budget 6 1 2 2 1 (4 / 10) (5 / 10) [''optical'']),
      (''hazmat'', (budget 5 2 1 1 1 (1 / 10) (6 / 10) [''gas'', ''thermal''])\<lparr> bg_minGasRedundantNodes := Some 2 \<rparr>),
      (''tunnel'', budget 4 2 2 0 0 (35 / 100) (35 / 100) []),
      (''wildfire'', budget 4 1 2 0 1 (45 / 100) (45 / 100) [''thermal'']),
      (''extraction'', budget 3 1 1 2 0 (4 / 10) (35 / 100) []),
      (''indoor_search'', budget 4 1 2 0 0 (35 / 100) (4 / 10) [''lidar'', ''optical'']),
      (''perimeter_sweep'', budget 5 2 2 0 0 (4 / 10) (45 / 100) [''optical'']),
      (''triage_operation'', budget 5 1 1 1 2 (25 / 100) (5 / 10) [''thermal'', ''audio'']),
      (''night_mission'', budget 4 1 2 0 1 (35 / 100) (45 / 100) [''thermal'', ''optical''])]"

record trust_registry =
  tr_telemetry :: "(ident, node_telemetry) jsmap"
  tr_trust :: "(ident, real) jsmap"
  tr_rosterRef :: "(ident, roster_entry) jsmap"

definition new_trust_registry :: trust_registry where
  "new_trust_registry = \<lparr> tr_telemetry = [], tr_trust = [], tr_rosterRef = [] \<rparr>"

definition trust_default :: "trust_registry \<Rightarrow> ident \<Rightarrow> trust_registry" where
  "trust_default g i = (if js_get (tr_trust g) i = None then g\<lparr> tr_trust := js_put i 100 (tr_trust g) \<rparr> else g)"

definition seedRoster :: "(ident, roster_entry) jsmap \<Rightarrow> trust_registry \<Rightarrow> trust_registry" where
  "seedRoster roster g = foldl trust_default (g\<lparr> tr_rosterRef := roster \<rparr>) (js_keys roster)"

definition addOrUpdateRosterEntry :: "roster_entry \<Rightarrow> trust_registry \<Rightarrow> trust_registry" where
  "addOrUpdateRosterEntry entry g =
     trust_default (g\<lparr> tr_rosterRef := js_put (re_nodeId entry) entry (tr_rosterRef g) \<rparr>) (re_nodeId entry)"

definition getTelemetry :: "ident \<Rightarrow> trust_registry \<Rightarrow> node_telemetry option" where
  "getTelemetry nodeId g = js_get (tr_telemetry g) nodeId"

definition node_heartbeat :: "ident \<Rightarrow> telemetry_patch \<Rightarrow> timestamp \<Rightarrow> trust_registry \<Rightarrow> trust_registry" where
  "node_heartbeat nodeId patch nowMs g =
     (let prev = js_get (tr_telemetry g) nodeId
      in g\<lparr> tr_telemetry := js_put nodeId
           \<lparr> hb_nodeId = nodeId, hb_online = True, hb_lastSeenMs = nowMs,
             hb_batteryReserve = default_to (nullish (tp_batteryReserve patch) (map_option hb_batteryReserve prev)) 1,
             hb_linkQuality = default_to (nullish (tp_linkQuality patch) (map_option hb_linkQuality prev)) 1,
             hb_sensors = default_to (nullish (tp_sensors patch) (map_option hb_sensors prev)) [] \<rparr>
           (tr_telemetry g) \<rparr>)"

definition markOffline :: "ident \<Rightarrow> timestamp \<Rightarrow> trust_registry \<Rightarrow> trust_registry" where
  "markOffline nodeId nowMs g =
     (case js_get (tr_telemetry g) nodeId of
        None \<Rightarrow> g
      | Some prev \<Rightarrow> g\<lparr> tr_telemetry := js_put nodeId (prev\<lparr> hb_online := False, hb_lastSeenMs := nowMs \<rparr>) (tr_telemetry g) \<rparr>)"

definition applyReputationDelta :: "(ident, real) jsmap \<Rightarrow> ident \<Rightarrow> real \<Rightarrow> (ident, real) jsmap" where
  "applyReputationDelta scores nodeId delta =
     (let prev = default_to (js_get scores nodeId) 100 in js_put nodeId (max 0 (min 200 (prev + delta))) scores)"

definition adjustTrust :: "ident \<Rightarrow> real \<Rightarrow> trust_registry \<Rightarrow> trust_registry" where
  "adjustTrust nodeId delta g =
     g\<lparr> tr_trust := foldl (\<lambda>m kv. js_put (fst kv) (snd kv) m) (tr_trust g) (applyReputationDelta (tr_trust g) nodeId delta) \<rparr>"

definition getTrustScore :: "ident \<Rightarrow> trust_registry \<Rightarrow> real" where
  "getTrustScore nodeId g = default_to (js_get (tr_trust g) nodeId) 100"

definition trust_points :: "real \<Rightarrow> real" where
  "trust_points x = of_int (js_round (max 0 (min 1 x) * 100))"

definition setLatticeTrustFrom01 :: "ident \<Rightarrow> real \<Rightarrow> trust_registry \<Rightarrow> trust_registry" where
  "setLatticeTrustFrom01 nodeId trust01 g = g\<lparr> tr_trust := js_put nodeId (trust_points trust01) (tr_trust g) \<rparr>"

definition latticeTrust01 :: "ident \<Rightarrow> trust_registry \<Rightarrow> real" where
  "latticeTrust01 nodeId g = min 1 (max 0 (default_to (js_get (tr_trust g) nodeId) 100 / 100))"

text \<open>\<open>online && nowMs - lastSeenMs <= staleMs\<close>\<close>

definition live :: "timestamp \<Rightarrow> int \<Rightarrow> node_telemetry \<Rightarrow> bool" where
  "live nowMs staleMs t \<longleftrightarrow> hb_online t \<and> \<not> nowMs - hb_lastSeenMs t > staleMs"

definition isValidForRole :: "ident \<Rightarrow> mission_node_role \<Rightarrow> int \<Rightarrow> timestamp \<Rightarrow> trust_registry \<Rightarrow> bool" where
  "isValidForRole nodeId role staleMs nowMs g =
     (case js_get (tr_telemetry g) nodeId of
        None \<Rightarrow> False
      | Some t \<Rightarrow>
          if \<not> live nowMs staleMs t then False
          else if js_get (tr_rosterRef g) nodeId = None then False
          else if role = MrRelay \<and> hb_linkQuality t < 2 / 10 then False
          else if role = MrCarrier \<and> hb_batteryReserve t < 15 / 100 then False
          else True)"

definition listSensorHints :: "ident \<Rightarrow> trust_registry \<Rightarrow> string list" where
  "listSensorHints nodeId g =
     dedup (map to_lower (case js_get (tr_telemetry g) nodeId of Some t \<Rightarrow> hb_sensors t | None \<Rightarrow> [])
          @ map to_lower (case js_get (tr_rosterRef g) nodeId of Some r \<Rightarrow> re_capabilities r | None \<Rightarrow> []))"

definition budget_eligible :: "mission_budget \<Rightarrow> timestamp \<Rightarrow> int \<Rightarrow> trust_registry \<Rightarrow> ident \<Rightarrow> bool" where
  "budget_eligible b nowMs staleMs g i \<longleftrightarrow>
     (case js_get (tr_telemetry g) i of
        None \<Rightarrow> False
      | Some tel \<Rightarrow>
          if \<not> live nowMs staleMs tel then False
          else if latticeTrust01 i g < 3 / 10 then False
          else if latticeTrust01 i g + 1 / 1000000 < 1 - bg_maxRisk b then False
          else if hb_batteryReserve tel + 1 / 1000000 < bg_minBatteryReserve b then False
          else True)"

text \<open>A roster entry has a role or a capability that names it.\<close>

definition role_or_capability :: "mission_node_role \<Rightarrow> (string \<Rightarrow> bool) \<Rightarrow> (ident, roster_entry) jsmap \<Rightarrow> ident \<Rightarrow> bool" where
  "role_or_capability role names roster i =
     (case js_get roster i of
        None \<Rightarrow> False | Some r \<Rightarrow> re_role r = role \<or> list_ex (\<lambda>c. names (to_lower c)) (re_capabilities r))"

definition sensor_gap :: "string list \<Rightarrow> ident list \<Rightarrow> trust_registry \<Rightarrow> string option" where
  "sensor_gap sensors nodes g =
     List.find (\<lambda>sensor. \<not> list_ex (\<lambda>i. to_lower sensor \<in> set (listSensorHints i g)) nodes) sensors"

definition validateScenarioBudget :: "string \<Rightarrow> mission_state \<Rightarrow> timestamp \<Rightarrow> int \<Rightarrow> trust_registry \<Rightarrow> (string + unit) option" where
  "validateScenarioBudget scenario mission nowMs staleMs g =
     (case js_get SCENARIO_BUDGETS scenario of
        None \<Rightarrow> None
      | Some b \<Rightarrow> Some (
          let roster = ms_roster mission;
              eligible = filter (budget_eligible b nowMs staleMs g) (js_keys roster);
              count = (\<lambda>P. length (filter P eligible));
              gasNeed = default_to (bg_minGasRedundantNodes b) 0
          in if length eligible < bg_minNodes b
             then Inl (''lattice_budget:min_nodes:'' @ show_nat (length eligible) @ ''<'' @ show_nat (bg_minNodes b))
             else if count (role_or_capability MrRelay (\<lambda>c. str_includes c ''relay'') roster) < bg_minRelays b then Inl ''lattice_budget:relays''
             else if count (role_or_capability MrExplorer (\<lambda>c. str_includes c ''explorer'') roster) < bg_minExplorers b then Inl ''lattice_budget:explorers''
             else if count (role_or_capability MrCarrier (\<lambda>c. c \<in> {''carrier'', ''winch'', ''boat''}) roster) < bg_minExtractors b
             then Inl ''lattice_budget:extractors''
             else if count (role_or_capability MrMedic (\<lambda>c. str_includes c ''medic'') roster) < bg_minTriage b then Inl ''lattice_budget:triage''
             else case sensor_gap (bg_requiredSensors b) eligible g of
                    Some sensor \<Rightarrow> Inl (''lattice_budget:sensor:'' @ sensor)
                  | None \<Rightarrow>
                      if gasNeed > 0 \<and> count (\<lambda>i. ''gas'' \<in> set (listSensorHints i g)) < gasNeed
                      then Inl ''lattice_budget:gas_redundancy'' else Inr ()))"

definition capacityScores :: "string \<Rightarrow> timestamp \<Rightarrow> int \<Rightarrow> trust_registry \<Rightarrow> (ident, real) jsmap" where
  "capacityScores kind nowMs staleMs g =
     foldl (\<lambda>out ie. case js_get (tr_telemetry g) (fst ie) of
         None \<Rightarrow> out
       | Some tel \<Rightarrow>
           if \<not> live nowMs staleMs tel then out
           else let s = scoreNodeForScenario (snd ie) kind * (1 / 2 + 1 / 2 * hb_linkQuality tel)
                        * (6 / 10 + 4 / 10 * min 1 (hb_batteryReserve tel))
                in js_put (fst ie) (of_int (js_round (s * 10)) / 10) out) [] (tr_rosterRef g)"

record lattice_snapshot =
  lsn_capturedAtMs :: timestamp
  lsn_onlineNodeIds :: "ident list"
  lsn_trustScores :: "(ident, real) jsmap"
  lsn_capacityHints :: "(ident, real) jsmap"

definition exportSnapshot :: "timestamp \<Rightarrow> string \<Rightarrow> trust_registry \<Rightarrow> lattice_snapshot" where
  "exportSnapshot nowMs scenario g =
     \<lparr> lsn_capturedAtMs = nowMs, lsn_onlineNodeIds = map fst (filter (\<lambda>kv. hb_online (snd kv)) (tr_telemetry g)),
       lsn_trustScores = tr_trust g, lsn_capacityHints = capacityScores scenario nowMs 30000 g \<rparr>"

definition number_obj :: "(ident, real) jsmap \<Rightarrow> json" where
  "number_obj m = JObj (map (map_prod id JNum) m)"

definition lattice_snapshot_json :: "lattice_snapshot \<Rightarrow> json" where
  "lattice_snapshot_json s = JObj [(''capturedAtMs'', jint (lsn_capturedAtMs s)), (''onlineNodeIds'', jstrs (lsn_onlineNodeIds s)),
     (''trustScores'', number_obj (lsn_trustScores s)), (''capacityHints'', number_obj (lsn_capacityHints s))]"

definition validationRootForMission :: "(string \<Rightarrow> string) \<Rightarrow> (real \<Rightarrow> string) \<Rightarrow> ident \<Rightarrow> timestamp \<Rightarrow> string \<Rightarrow> trust_registry \<Rightarrow> string" where
  "validationRootForMission H ns missionId nowMs capacityScenario g =
     H (stable_string ns (JObj [(''missionId'', JStr missionId), (''lattice'', lattice_snapshot_json (exportSnapshot nowMs capacityScenario g))]))"

record swarm_health =
  swh_onlineNodes :: nat
  swh_avgReputation :: real
  swh_batteryCritical :: nat

definition swarmHealthSummary :: "mission_state \<Rightarrow> timestamp \<Rightarrow> int \<Rightarrow> real \<Rightarrow> trust_registry \<Rightarrow> swarm_health" where
  "swarmHealthSummary mission nowMs staleMs batteryCriticalBelow g =
     (let ids = js_keys (ms_roster mission);
          fresh = (\<lambda>i. case js_get (tr_telemetry g) i of Some t \<Rightarrow> live nowMs staleMs t | None \<Rightarrow> False);
          low = (\<lambda>i. case js_get (tr_telemetry g) i of Some t \<Rightarrow> hb_batteryReserve t < batteryCriticalBelow | None \<Rightarrow> False)
      in if ids = [] then \<lparr> swh_onlineNodes = 0, swh_avgReputation = 0, swh_batteryCritical = 0 \<rparr>
         else \<lparr> swh_onlineNodes = length (filter fresh ids),
                swh_avgReputation = sum_list (map (\<lambda>i. latticeTrust01 i g) ids) / real (length ids),
                swh_batteryCritical = length (filter (\<lambda>i. fresh i \<and> low i) ids) \<rparr>)"

definition live_peers :: "ident \<Rightarrow> ident list \<Rightarrow> timestamp \<Rightarrow> int \<Rightarrow> trust_registry \<Rightarrow> node_telemetry list" where
  "live_peers nodeId rosterIds nowMs staleMs g =
     filter (live nowMs staleMs) (List.map_filter (js_get (tr_telemetry g)) (filter (\<lambda>i. i \<noteq> nodeId) rosterIds))"

definition getPeerSyncCount :: "ident \<Rightarrow> ident list \<Rightarrow> timestamp \<Rightarrow> int \<Rightarrow> trust_registry \<Rightarrow> nat" where
  "getPeerSyncCount nodeId rosterIds nowMs staleMs g = length (live_peers nodeId rosterIds nowMs staleMs g)"

definition lastPeerContactMs :: "ident \<Rightarrow> ident list \<Rightarrow> timestamp \<Rightarrow> int \<Rightarrow> trust_registry \<Rightarrow> timestamp" where
  "lastPeerContactMs nodeId rosterIds nowMs staleMs g =
     foldl (\<lambda>m t. max m (hb_lastSeenMs t)) 0 (live_peers nodeId rosterIds nowMs staleMs g)"

subsection \<open>Reputation\<close>

record reputation_score =
  rps_nodeId :: ident
  rps_missionId :: ident
  rps_baseScore :: real
  rps_decay :: real
  rps_proofContributions :: nat
  rps_uptime :: nat
  rps_violations :: nat
  rps_finalScore :: real
  rps_updateEventHash :: "string option"

definition payload_lower :: "(real \<Rightarrow> string) \<Rightarrow> chain_event \<Rightarrow> string \<Rightarrow> string" where
  "payload_lower ns e k = to_lower (payload_text ns e k [])"

definition isProofFailure :: "(real \<Rightarrow> string) \<Rightarrow> chain_event \<Rightarrow> bool" where
  "isProofFailure ns e =
     (let kind = payload_lower ns e ''kind''; msg = payload_lower ns e ''message'';
          either = (\<lambda>w. str_includes kind w \<or> str_includes msg w)
      in if mi_eventType e = ''node_offline'' \<and> mi_plane e = PlaneLattice then True
         else if mi_eventType e \<noteq> ''safety_alert'' then False
         else if either ''geofence'' then True
         else if either ''telemetry'' then True
         else js_get (mi_payload e) ''level'' = Some (JStr ''critical'') \<and> either ''inconsistent'')"

definition isPositiveProof :: "(real \<Rightarrow> string) \<Rightarrow> chain_event \<Rightarrow> bool" where
  "isPositiveProof ns e =
     (if mi_plane e \<noteq> PlaneVertex then False
      else if mi_eventType e \<in> {''target_discovered'', ''target_confirmed'', ''extraction_confirmed''} then True
      else if mi_eventType e = ''recovery_checkpoint'' then str_includes (payload_lower ns e ''label'') ''relay''
      else False)"

record reputation_tally =
  ry_score :: real
  ry_contributions :: nat
  ry_violations :: nat
  ry_heartbeats :: nat

definition tally_event :: "(real \<Rightarrow> string) \<Rightarrow> reputation_tally \<Rightarrow> chain_event \<Rightarrow> reputation_tally" where
  "tally_event ns t e =
     (if mi_eventType e = ''node_heartbeat'' then
        if mi_plane e = PlaneLattice
        then t\<lparr> ry_heartbeats := ry_heartbeats t + 1, ry_score := min 1 (ry_score t + 5 / 100) \<rparr> else t
      else if isPositiveProof ns e
      then t\<lparr> ry_contributions := ry_contributions t + 1, ry_score := min 1 (ry_score t + 15 / 100) \<rparr>
      else if isProofFailure ns e
      then t\<lparr> ry_violations := ry_violations t + 1, ry_score := max 0 (ry_score t - 2 / 10) \<rparr>
      else t)"

definition evaluateFromLedger :: "(real \<Rightarrow> string) \<Rightarrow> ident \<Rightarrow> ident \<Rightarrow> mission_ledger \<Rightarrow> reputation_score" where
  "evaluateFromLedger ns nodeId missionId lg =
     (let events = filter (\<lambda>e. mi_eventType e \<noteq> ''reputation_update'') (eventsForNodeInMission nodeId missionId lg);
          t = foldl (tally_event ns) \<lparr> ry_score = 1 / 2, ry_contributions = 0, ry_violations = 0, ry_heartbeats = 0 \<rparr> events;
          decay = (if ry_violations t > 0 then min (ry_score t) (1 / 10 * real (ry_violations t)) else 0)
      in \<lparr> rps_nodeId = nodeId, rps_missionId = missionId, rps_baseScore = ry_score t, rps_decay = decay,
           rps_proofContributions = ry_contributions t, rps_uptime = ry_heartbeats t, rps_violations = ry_violations t,
           rps_finalScore = max 0 (min 1 (ry_score t - decay + real (ry_contributions t) * (5 / 100))),
           rps_updateEventHash = None \<rparr>)"

definition reputation_fields :: "reputation_score \<Rightarrow> obj" where
  "reputation_fields r =
     [(''nodeId'', JStr (rps_nodeId r)), (''missionId'', JStr (rps_missionId r)), (''baseScore'', JNum (rps_baseScore r)),
      (''decay'', JNum (rps_decay r)), (''proofContributions'', JNum (real (rps_proofContributions r))),
      (''uptime'', JNum (real (rps_uptime r))), (''violations'', JNum (real (rps_violations r))), (''finalScore'', JNum (rps_finalScore r))]"

text \<open>\<open>append\<close> of the ledger never fails (theory \<open>HashChains\<close>), so its error branch keeps the row without a hash.\<close>

definition computeScore :: "(string \<Rightarrow> string) \<Rightarrow> (real \<Rightarrow> string) \<Rightarrow> bool \<Rightarrow> ident \<Rightarrow> ident \<Rightarrow> timestamp \<Rightarrow> mission_ledger \<Rightarrow>
    reputation_score \<times> mission_ledger" where
  "computeScore H ns persist nodeId missionId nowMs lg =
     (let core = evaluateFromLedger ns nodeId missionId lg
      in if persist then
           (case append_mission_event H ns
               \<lparr> mi_missionId = missionId, mi_actorId = nodeId, mi_eventType = ''reputation_update'', mi_plane = PlaneLattice,
                 mi_payload = reputation_fields core @ [(''recordedAtMs'', jint nowMs)], mi_timestamp = nowMs,
                 mi_previousHash = tailHash lg \<rparr> lg of
              (Inr ev, lg') \<Rightarrow> (core\<lparr> rps_updateEventHash := Some (mi_eventHash ev) \<rparr>, lg')
            | (Inl err, lg') \<Rightarrow> (core, lg'))
         else (core, lg))"

definition missionNodeIds :: "(real \<Rightarrow> string) \<Rightarrow> (string \<Rightarrow> real option) \<Rightarrow> timestamp \<Rightarrow> ident \<Rightarrow> mission_ledger \<Rightarrow> ident list" where
  "missionNodeIds ns rd now missionId lg = js_keys (ms_roster (replayMissionFromLedger ns rd now lg missionId))"

fun score_nodes :: "(string \<Rightarrow> string) \<Rightarrow> (real \<Rightarrow> string) \<Rightarrow> bool \<Rightarrow> ident \<Rightarrow> timestamp \<Rightarrow> ident list \<Rightarrow> mission_ledger \<Rightarrow>
    reputation_score list \<times> mission_ledger" where
  "score_nodes H ns persist missionId nowMs [] lg = ([], lg)"
| "score_nodes H ns persist missionId nowMs (i # is) lg =
     (let (r, lg') = computeScore H ns persist i missionId nowMs lg;
          (rs, lg'') = score_nodes H ns persist missionId nowMs is lg'
      in (r # rs, lg''))"

definition getMissionScores :: "(string \<Rightarrow> string) \<Rightarrow> (real \<Rightarrow> string) \<Rightarrow> (string \<Rightarrow> real option) \<Rightarrow> bool \<Rightarrow> ident \<Rightarrow> timestamp \<Rightarrow>
    mission_ledger \<Rightarrow> reputation_score list \<times> mission_ledger" where
  "getMissionScores H ns rd persist missionId nowMs lg =
     score_nodes H ns persist missionId nowMs (missionNodeIds ns rd nowMs missionId lg) lg"

definition task_role_fit :: "string \<Rightarrow> roster_entry \<Rightarrow> real" where
  "task_role_fit taskType entry =
     (let role = re_role entry; cap = (\<lambda>P. list_ex (\<lambda>c. P (to_lower c)) (re_capabilities entry))
      in if taskType = ''explorer'' \<and> (role = MrExplorer \<or> cap (\<lambda>c. str_includes c ''explorer'')) then 95 / 100
         else if taskType = ''relay'' \<and> (role = MrRelay \<or> cap (\<lambda>c. str_includes c ''relay'')) then 95 / 100
         else if taskType = ''extractor'' \<and> (role = MrCarrier \<or> cap (\<lambda>c. c \<in> {''carrier'', ''winch''})) then 95 / 100
         else if taskType = ''triage'' \<and> (role = MrMedic \<or> cap (\<lambda>c. str_includes c ''medic'')) then 95 / 100
         else 35 / 100)"

definition rankNodesForTask :: "(string \<Rightarrow> string \<Rightarrow> bool) \<Rightarrow> (real \<Rightarrow> string) \<Rightarrow> (string \<Rightarrow> real option) \<Rightarrow> timestamp \<Rightarrow> ident \<Rightarrow> string \<Rightarrow>
    mission_ledger \<Rightarrow> ident list" where
  "rankNodesForTask lc ns rd now missionId taskType lg =
     (let roster = ms_roster (replayMissionFromLedger ns rd now lg missionId);
          scored = map (\<lambda>(i, entry). (i, 55 / 100 * rps_finalScore (evaluateFromLedger ns i missionId lg) + 45 / 100 * task_role_fit taskType entry)) roster
      in map fst (js_sort (then_by (by_desc snd) (\<lambda>a b. lc (fst a) (fst b))) scored))"

definition mirror_trust :: "trust_registry \<Rightarrow> reputation_score \<Rightarrow> trust_registry" where
  "mirror_trust g s = g\<lparr> tr_trust := js_put (rps_nodeId s) (trust_points (rps_finalScore s)) (tr_trust g) \<rparr>"

definition syncTrustFromLedgerReputation :: "(string \<Rightarrow> string) \<Rightarrow> (real \<Rightarrow> string) \<Rightarrow> (string \<Rightarrow> real option) \<Rightarrow> bool \<Rightarrow> ident \<Rightarrow> timestamp \<Rightarrow>
    mission_ledger \<Rightarrow> trust_registry \<Rightarrow> trust_registry \<times> mission_ledger" where
  "syncTrustFromLedgerReputation H ns rd persist missionId nowMs lg g =
     (let (scores, lg') = getMissionScores H ns rd persist missionId nowMs lg in (foldl mirror_trust g scores, lg'))"

subsection \<open>Allocation\<close>

type_synonym factor_vector = "(string, real) jsmap"

definition ALLOCATION_FACTORS :: "string list" where
  "ALLOCATION_FACTORS = [''proximity'', ''batteryReserve'', ''capabilityMatch'', ''reputation'', ''currentLoad'', ''hazardClearance'',
     ''relayContinuity'', ''thermalMatch'']"

definition zero_factors :: factor_vector where
  "zero_factors = map (\<lambda>k. (k, 0)) ALLOCATION_FACTORS"

text \<open>\<open>w(p)\<close> spreads \<open>p\<close> over the zeros.\<close>

definition weigh :: "factor_vector \<Rightarrow> factor_vector" where
  "weigh p = foldl (\<lambda>acc kv. js_put (fst kv) (snd kv) acc) zero_factors p"

definition normalizeWeights :: "factor_vector \<Rightarrow> factor_vector" where
  "normalizeWeights v =
     (let total = foldl (+) 0 (js_values v)
      in if total \<le> 0 then js_put ''proximity'' 1 zero_factors
         else foldl (\<lambda>out kv. js_put (fst kv) (snd kv / total) out) zero_factors v)"

definition POLICY_WEIGHTS :: "(string, factor_vector) jsmap" where
  "POLICY_WEIGHTS =
     [(''collapsed_building'', normalizeWeights (weigh [(''proximity'', 22 / 100), (''relayContinuity'', 28 / 100), (''capabilityMatch'', 2 / 10),
         (''batteryReserve'', 12 / 100), (''reputation'', 1 / 10), (''currentLoad'', 4 / 100), (''hazardClearance'', 4 / 100), (''thermalMatch'', 0)])),
      (''wildfire'', normalizeWeights (weigh [(''thermalMatch'', 28 / 100), (''hazardClearance'', 22 / 100), (''capabilityMatch'', 18 / 100),
         (''proximity'', 12 / 100), (''reputation'', 1 / 10), (''batteryReserve'', 6 / 100), (''currentLoad'', 4 / 100), (''relayContinuity'', 0)])),
      (''flood_rescue'', normalizeWeights (weigh [(''proximity'', 25 / 100), (''batteryReserve'', 25 / 100), (''capabilityMatch'', 22 / 100),
         (''reputation'', 15 / 100), (''currentLoad'', 8 / 100), (''hazardClearance'', 5 / 100), (''relayContinuity'', 0), (''thermalMatch'', 0)])),
      (''hazmat'', normalizeWeights (weigh [(''hazardClearance'', 28 / 100), (''thermalMatch'', 18 / 100), (''capabilityMatch'', 18 / 100),
         (''reputation'', 14 / 100), (''proximity'', 1 / 10), (''batteryReserve'', 8 / 100), (''currentLoad'', 4 / 100), (''relayContinuity'', 0)])),
      (''tunnel'', normalizeWeights (weigh [(''relayContinuity'', 3 / 10), (''capabilityMatch'', 22 / 100), (''proximity'', 14 / 100),
         (''batteryReserve'', 12 / 100), (''reputation'', 12 / 100), (''currentLoad'', 6 / 100), (''hazardClearance'', 4 / 100), (''thermalMatch'', 0)])),
      (''extraction'', normalizeWeights (weigh [(''capabilityMatch'', 3 / 10), (''proximity'', 2 / 10), (''batteryReserve'', 18 / 100),
         (''reputation'', 14 / 100), (''currentLoad'', 1 / 10), (''hazardClearance'', 4 / 100), (''relayContinuity'', 4 / 100), (''thermalMatch'', 0)]))]"

record allocation_profile =
  alp_nodeId :: ident
  alp_lat :: real
  alp_lng :: real
  alp_capabilities :: "string list"
  alp_batteryReserve :: real
  alp_linkQuality :: real
  alp_activeTasks :: nat
  alp_reputation01 :: real

text \<open>\<open>(h * 31 + charCode) >>> 0\<close> is the 32-bit word arithmetic.\<close>

definition unit_step :: "32 word \<Rightarrow> char \<Rightarrow> 32 word" where
  "unit_step h c = h * 31 + word_of_nat (of_char c)"

definition stableUnit :: "ident \<Rightarrow> string \<Rightarrow> real" where
  "stableUnit nodeId salt = real (unat (foldl unit_step 0 (nodeId @ '':'' @ salt)) mod 10000) / 10000"

definition defaultNodePosition :: "ident \<Rightarrow> real \<times> real" where
  "defaultNodePosition nodeId =
     (3775 / 100 + stableUnit nodeId ''geo'' * (8 / 100), - (12242 / 100) + stableUnit nodeId ''geo2'' * (8 / 100))"

definition allocation_profile_of :: "mission_state \<Rightarrow> timestamp \<Rightarrow> int \<Rightarrow> trust_registry \<Rightarrow> ident \<Rightarrow> allocation_profile" where
  "allocation_profile_of mission nowMs staleMs g i =
     (let t = getTelemetry i g;
          fresh = (case t of Some x \<Rightarrow> live nowMs staleMs x | None \<Rightarrow> False)
      in \<lparr> alp_nodeId = i, alp_lat = fst (defaultNodePosition i), alp_lng = snd (defaultNodePosition i),
           alp_capabilities = (case js_get (ms_roster mission) i of Some r \<Rightarrow> re_capabilities r | None \<Rightarrow> [])
             @ (case t of Some x \<Rightarrow> hb_sensors x | None \<Rightarrow> []),
           alp_batteryReserve = (if fresh then default_to (map_option hb_batteryReserve t) (1 / 2) else 1 / 10),
           alp_linkQuality = (if fresh then default_to (map_option hb_linkQuality t) (1 / 2) else 0),
           alp_activeTasks = length (filter (\<lambda>a. ta_nodeId a = i) (js_values (ms_assignments mission))),
           alp_reputation01 = latticeTrust01 i g \<rparr>)"

definition buildAllocationProfiles :: "(string \<Rightarrow> string \<Rightarrow> bool) \<Rightarrow> mission_state \<Rightarrow> trust_registry \<Rightarrow> timestamp \<Rightarrow> int \<Rightarrow> allocation_profile list" where
  "buildAllocationProfiles lc mission g nowMs staleMs =
     js_sort (\<lambda>a b. lc (alp_nodeId a) (alp_nodeId b)) (map (allocation_profile_of mission nowMs staleMs g) (js_keys (ms_roster mission)))"

definition atan2 :: "real \<Rightarrow> real \<Rightarrow> real" where
  "atan2 y x =
     (if x > 0 then arctan (y / x)
      else if x < 0 then (if y \<ge> 0 then arctan (y / x) + pi else arctan (y / x) - pi)
      else if y > 0 then pi / 2 else if y < 0 then - (pi / 2) else 0)"

definition haversineKm :: "real \<times> real \<Rightarrow> real \<times> real \<Rightarrow> real" where
  "haversineKm a b =
     (let dLat = (fst b - fst a) * pi / 180; dLng = (snd b - snd a) * pi / 180;
          lat1 = fst a * pi / 180; lat2 = fst b * pi / 180;
          x = sin (dLat / 2) * sin (dLat / 2) + cos lat1 * cos lat2 * sin (dLng / 2) * sin (dLng / 2);
          c = 2 * atan2 (sqrt x) (sqrt (1 - x))
      in 6371 * c)"

definition unit_clamp :: "real \<Rightarrow> real" where
  "unit_clamp x = max 0 (min 1 x)"

definition hasSensor :: "string list \<Rightarrow> string \<Rightarrow> bool" where
  "hasSensor capabilities needle = list_ex (\<lambda>c. str_includes (to_lower c) (to_lower needle)) capabilities"

definition relayContinuityScore :: "allocation_profile \<Rightarrow> mission_state \<Rightarrow> real" where
  "relayContinuityScore profile mission =
     (let relayish = role_or_capability MrRelay (\<lambda>c. str_includes c ''relay'') (ms_roster mission) (alp_nodeId profile)
      in unit_clamp (alp_linkQuality profile * (if relayish then 1 else 55 / 100)))"

definition hazardClearanceScore :: "allocation_profile \<Rightarrow> real" where
  "hazardClearanceScore profile =
     (let caps = map to_lower (alp_capabilities profile); some = (\<lambda>k. list_ex (\<lambda>c. str_includes c k) caps)
      in unit_clamp (35 / 100
           + (if list_ex (\<lambda>c. list_ex (str_includes c) [''gas'', ''cbrn'', ''hazmat'']) caps then 35 / 100 else 0)
           + (if some ''thermal'' then 15 / 100 else 0) + (if some ''sealed'' then 15 / 100 else 0)))"

definition thermalMatchScore :: "allocation_profile \<Rightarrow> real" where
  "thermalMatchScore profile =
     (if hasSensor (alp_capabilities profile) ''thermal'' then 1 else if hasSensor (alp_capabilities profile) ''rgb'' then 55 / 100 else 15 / 100)"

definition task_sensors :: "(string, string list) jsmap" where
  "task_sensors = [(''explorer'', [''optical'', ''thermal'', ''rgb'']), (''relay'', [''relay'', ''indoor'', ''long_range_radio'']),
     (''extractor'', [''transport'', ''carrier'', ''winch'']), (''triage'', [''audio'', ''medic'']),
     (''transport'', [''carrier'', ''boat'', ''waterproof''])]"

definition capabilityMatchForTask :: "allocation_profile \<Rightarrow> string \<Rightarrow> real" where
  "capabilityMatchForTask profile taskType =
     (let caps = map to_lower (alp_capabilities profile); need = default_to (js_get task_sensors taskType) [''optical''];
          hits = length (filter (\<lambda>s. list_ex (\<lambda>c. str_includes c s) caps) need)
      in real hits / max 1 (real (length need)))"

record allocation_score =
  asc_nodeId :: ident
  asc_taskType :: string
  asc_finalScore :: real
  asc_breakdown :: factor_vector
  asc_rank :: nat

definition allocation_breakdown :: "string \<Rightarrow> mission_state \<Rightarrow> (real \<times> real) option \<Rightarrow> allocation_profile \<Rightarrow> factor_vector" where
  "allocation_breakdown taskType mission targetCoords node =
     [(''proximity'', case targetCoords of
          Some c \<Rightarrow> unit_clamp (1 - haversineKm (alp_lat node, alp_lng node) c / 25) | None \<Rightarrow> 55 / 100),
      (''batteryReserve'', unit_clamp (alp_batteryReserve node)),
      (''capabilityMatch'', capabilityMatchForTask node taskType),
      (''reputation'', unit_clamp (alp_reputation01 node)),
      (''currentLoad'', unit_clamp (1 - min (real (alp_activeTasks node)) 5 / 5)),
      (''hazardClearance'', hazardClearanceScore node),
      (''relayContinuity'', relayContinuityScore node mission),
      (''thermalMatch'', thermalMatchScore node)]"

definition weighted_sum :: "factor_vector \<Rightarrow> factor_vector \<Rightarrow> real" where
  "weighted_sum weights breakdown = foldl (\<lambda>s kv. s + snd kv * default_to (js_get breakdown (fst kv)) 0) 0 weights"

definition allocation_score_of :: "factor_vector \<Rightarrow> string \<Rightarrow> mission_state \<Rightarrow> (real \<times> real) option \<Rightarrow> allocation_profile \<Rightarrow> allocation_score" where
  "allocation_score_of weights taskType mission targetCoords node =
     (let breakdown = allocation_breakdown taskType mission targetCoords node
      in \<lparr> asc_nodeId = alp_nodeId node, asc_taskType = taskType, asc_finalScore = unit_clamp (weighted_sum weights breakdown),
           asc_breakdown = breakdown, asc_rank = 0 \<rparr>)"

definition scoreForTask :: "(string \<Rightarrow> string \<Rightarrow> bool) \<Rightarrow> allocation_profile list \<Rightarrow> string \<Rightarrow> string \<Rightarrow> mission_state \<Rightarrow> (real \<times> real) option \<Rightarrow>
    string + allocation_score list" where
  "scoreForTask lc nodes taskType scenario mission targetCoords =
     (case js_get POLICY_WEIGHTS scenario of
        None \<Rightarrow> Inl (''Unknown scenario: '' @ scenario)
      | Some weights \<Rightarrow>
          Inr (map (\<lambda>(i, r). r\<lparr> asc_rank := i + 1 \<rparr>)
            (enumerate 0 (js_sort (then_by (by_desc asc_finalScore) (\<lambda>a b. lc (asc_nodeId a) (asc_nodeId b)))
              (map (allocation_score_of weights taskType mission targetCoords) nodes)))))"

text \<open>The UTF-8 bytes of the dash in the explanation; \<open>fx d x\<close> is \<open>x.toFixed(d)\<close>.\<close>

definition long_dash :: string where
  "long_dash = map char_of [226, 128, 148 :: nat]"

definition explainAssignment :: "(nat \<Rightarrow> real \<Rightarrow> string) \<Rightarrow> allocation_score \<Rightarrow> string \<Rightarrow> string option" where
  "explainAssignment fx top_score scenario =
     (case js_get POLICY_WEIGHTS scenario of
        None \<Rightarrow> None
      | Some w \<Rightarrow>
          (let part = (\<lambda>k. k @ '' '' @ show_int (js_round (default_to (js_get (asc_breakdown top_score) k) 0 * 100)) @ ''%'');
               parts = map (\<lambda>kv. part (fst kv)) (filter (\<lambda>kv. snd kv > 2 / 100) w)
           in Some (''Node '' @ asc_nodeId top_score @ '' assigned ('' @ scenario @ ''): '' @ str_join '', '' (take 4 parts) @ '' '' @ long_dash
                @ '' blended score '' @ fx 3 (asc_finalScore top_score))))"

subsection \<open>Reputation is bounded and recording it does not change it\<close>

lemma tally_bounds:
  "0 \<le> ry_score t \<Longrightarrow> ry_score t \<le> 1 \<Longrightarrow> 0 \<le> ry_score (foldl (tally_event ns) t es) \<and> ry_score (foldl (tally_event ns) t es) \<le> 1"
  by (induction es arbitrary: t) (auto simp: tally_event_def)

text \<open>
  Whatever the ledger holds, base score and final reputation lie between 0 and 1, the decay takes at most the base score, and
  a node without violations loses nothing.
\<close>

theorem reputation_bounded:
  "(let r = evaluateFromLedger ns nodeId missionId lg
    in 0 \<le> rps_decay r \<and> rps_decay r \<le> rps_baseScore r \<and> rps_baseScore r \<le> 1 \<and> 0 \<le> rps_finalScore r \<and> rps_finalScore r \<le> 1
       \<and> (if rps_violations r = 0 then rps_finalScore r \<ge> rps_baseScore r else True))"
proof -
  let ?t = "foldl (tally_event ns) \<lparr> ry_score = 1 / 2, ry_contributions = 0, ry_violations = 0, ry_heartbeats = 0 \<rparr>
     (filter (\<lambda>e. mi_eventType e \<noteq> ''reputation_update'') (eventsForNodeInMission nodeId missionId lg))"
  have "0 \<le> ry_score ?t" "ry_score ?t \<le> 1" by (rule tally_bounds [THEN conjunct1] tally_bounds [THEN conjunct2]; simp)+
  then show ?thesis by (simp add: evaluateFromLedger_def Let_def)
qed

lemma node_rows_append: "eventsForNodeInMission n m (lg @ es) = eventsForNodeInMission n m lg @ eventsForNodeInMission n m es"
  by (simp add: eventsForNodeInMission_def)

lemma evaluate_ignores_updates:
  "list_all (\<lambda>e. mi_eventType e = ''reputation_update'') es \<Longrightarrow> evaluateFromLedger ns n m (lg @ es) = evaluateFromLedger ns n m lg"
proof -
  assume "list_all (\<lambda>e. mi_eventType e = ''reputation_update'') es"
  then have "filter (\<lambda>e. mi_eventType e \<noteq> ''reputation_update'') (eventsForNodeInMission n m es) = []"
    by (auto simp: eventsForNodeInMission_def list_all_iff filter_empty_conv)
  then show ?thesis by (simp add: evaluateFromLedger_def node_rows_append)
qed

definition reputation_row :: "chain_event \<Rightarrow> bool" where
  "reputation_row e \<longleftrightarrow> mi_eventType e = ''reputation_update'' \<and> mi_plane e = PlaneLattice"

lemma computeScore_shape:
  obtains es h where "computeScore H ns persist n m t lg = ((evaluateFromLedger ns n m lg)\<lparr> rps_updateEventHash := h \<rparr>, lg @ es)"
    "list_all reputation_row es" "length es = (if persist then 1 else 0)"
    "verifyChain H ns (lg @ es) = ChainOk \<longleftrightarrow> verifyChain H ns lg = ChainOk"
proof (cases persist)
  case True
  let ?in = "\<lparr> mi_missionId = m, mi_actorId = n, mi_eventType = ''reputation_update'', mi_plane = PlaneLattice,
     mi_payload = reputation_fields (evaluateFromLedger ns n m lg) @ [(''recordedAtMs'', jint t)], mi_timestamp = t, mi_previousHash = tailHash lg \<rparr>"
  have snd: "verifyChain H ns (snd (append_mission_event H ns ?in lg)) = ChainOk \<longleftrightarrow> verifyChain H ns lg = ChainOk"
    unfolding append_mission_event_snd verifyChain_def Let_def snd_conv mission_chain.verify_snoc mission_chain_tail
    by (auto simp: mission_event_input.defs event_core_def)
  show thesis
    by (rule that [of _ "[mission_event_input.extend ?in \<lparr> mi_eventHash = computeEventHash H ns (tailHash lg) (event_core ?in) \<rparr>]"])
      (use True snd in \<open>simp_all add: computeScore_def append_mission_event_snd Let_def reputation_row_def mission_event_input.defs\<close>)
next
  case False
  show thesis by (rule that [of None "[]"]) (use False in \<open>simp_all add: computeScore_def evaluateFromLedger_def Let_def\<close>)
qed

lemma score_nodes_shape:
  obtains rs es where "score_nodes H ns persist m t is lg = (rs, lg @ es)"
    "map (\<lambda>r. r\<lparr> rps_updateEventHash := None \<rparr>) rs = map (\<lambda>i. evaluateFromLedger ns i m lg) is"
    "list_all reputation_row es" "length es = (if persist then length is else 0)"
    "verifyChain H ns (lg @ es) = ChainOk \<longleftrightarrow> verifyChain H ns lg = ChainOk"
proof (induction "is" arbitrary: lg thesis)
  case Nil
  show ?case by (rule Nil [of "[]" "[]"]) simp_all
next
  case (Cons i "is")
  obtain es h where e: "computeScore H ns persist i m t lg = ((evaluateFromLedger ns i m lg)\<lparr> rps_updateEventHash := h \<rparr>, lg @ es)"
    "list_all reputation_row es" "length es = (if persist then 1 else 0)" "verifyChain H ns (lg @ es) = ChainOk \<longleftrightarrow> verifyChain H ns lg = ChainOk"
    by (rule computeScore_shape)
  obtain rs fs where f: "score_nodes H ns persist m t is (lg @ es) = (rs, (lg @ es) @ fs)"
    "map (\<lambda>r. r\<lparr> rps_updateEventHash := None \<rparr>) rs = map (\<lambda>i. evaluateFromLedger ns i m (lg @ es)) is"
    "list_all reputation_row fs" "length fs = (if persist then length is else 0)"
    "verifyChain H ns ((lg @ es) @ fs) = ChainOk \<longleftrightarrow> verifyChain H ns (lg @ es) = ChainOk"
    by (rule Cons.IH)
  have "list_all (\<lambda>e. mi_eventType e = ''reputation_update'') es" using e(2) by (simp add: list_all_iff reputation_row_def)
  note same = evaluate_ignores_updates [OF this]
  have none: "(evaluateFromLedger ns i m lg)\<lparr> rps_updateEventHash := None \<rparr> = evaluateFromLedger ns i m lg"
    by (simp add: evaluateFromLedger_def Let_def)
  show ?case
    by (rule Cons.prems [of "(evaluateFromLedger ns i m lg)\<lparr> rps_updateEventHash := h \<rparr> # rs" "es @ fs"])
      (use e f in \<open>simp_all add: Let_def same none\<close>)
qed

lemma roster_ignores_row: "reputation_row e \<Longrightarrow> ms_roster (applyOne ns rd st e) = ms_roster st"
  by (simp add: reputation_row_def applyOne_def advance_pointer_def Let_def)

lemma missionNodeIds_ignores:
  assumes "list_all reputation_row es" shows "missionNodeIds ns rd now m (lg @ es) = missionNodeIds ns rd now m lg"
proof -
  have "List.find (creates_mission m) (lg @ es) = List.find (creates_mission m) lg"
    using assms by (induction lg) (auto simp: find_None_iff list_all_iff reputation_row_def creates_mission_def)
  then have "replay_start now (lg @ es) m = replay_start now lg m" by (simp add: replay_start_def)
  moreover have "list_all reputation_row fs \<Longrightarrow> ms_roster (replay_rows ns rd st fs) = ms_roster st" for st fs
    by (induction fs arbitrary: st) (simp_all add: replay_rows_def roster_ignores_row)
  moreover have "list_all reputation_row (eventsForMission m es)" using assms by (simp add: list_all_iff eventsForMission_def)
  moreover have "replay_rows ns rd st (a @ b) = replay_rows ns rd (replay_rows ns rd st a) b" for st a b
    by (simp add: replay_rows_def)
  ultimately show ?thesis by (simp add: missionNodeIds_def replay_rows_eq eventsForMission_def)
qed

text \<open>
  C11. Scoring a mission gives every roster node the reputation of the ledger as it was, although each score appends a row
  before the next is computed; afterwards every reputation and the roster are as before, the chain verifies exactly when it did,
  and the ledger has grown by one row per roster node (by none when the engine does not persist).
\<close>

theorem reputation_recording_stable:
  "(let ids = missionNodeIds ns rd now m lg; (rs, lg') = getMissionScores H ns rd persist m now lg
    in map (\<lambda>r. r\<lparr> rps_updateEventHash := None \<rparr>) rs = map (\<lambda>i. evaluateFromLedger ns i m lg) ids
       \<and> (\<forall>n. evaluateFromLedger ns n m lg' = evaluateFromLedger ns n m lg)
       \<and> missionNodeIds ns rd now m lg' = ids
       \<and> (verifyChain H ns lg' = ChainOk) = (verifyChain H ns lg = ChainOk)
       \<and> length lg' = length lg + (if persist then length ids else 0))"
proof -
  let ?ids = "missionNodeIds ns rd now m lg"
  obtain rs es where e: "score_nodes H ns persist m now ?ids lg = (rs, lg @ es)"
    "map (\<lambda>r. r\<lparr> rps_updateEventHash := None \<rparr>) rs = map (\<lambda>i. evaluateFromLedger ns i m lg) ?ids"
    "list_all reputation_row es" "length es = (if persist then length ?ids else 0)"
    "verifyChain H ns (lg @ es) = ChainOk \<longleftrightarrow> verifyChain H ns lg = ChainOk"
    by (rule score_nodes_shape)
  have "list_all (\<lambda>e. mi_eventType e = ''reputation_update'') es" using e(3) by (simp add: list_all_iff reputation_row_def)
  from evaluate_ignores_updates [OF this] missionNodeIds_ignores [OF e(3)] e(2,4,5)
  show ?thesis by (simp add: getMissionScores_def e(1) Let_def)
qed

subsection \<open>Trust\<close>

definition trust_ok :: "trust_registry \<Rightarrow> bool" where
  "trust_ok g \<longleftrightarrow> wf_map (tr_trust g) \<and> list_all (\<lambda>kv. 0 \<le> snd kv \<and> snd kv \<le> 200) (tr_trust g)"

datatype registry_call = RgSeed "(ident, roster_entry) jsmap" | RgAdd roster_entry | RgHeartbeat ident telemetry_patch timestamp
  | RgOffline ident timestamp | RgAdjust ident real | RgSet ident real

fun trust_step :: "registry_call \<Rightarrow> trust_registry \<Rightarrow> trust_registry" where
  "trust_step (RgSeed r) g = seedRoster r g"
| "trust_step (RgAdd e) g = addOrUpdateRosterEntry e g"
| "trust_step (RgHeartbeat i p t) g = node_heartbeat i p t g"
| "trust_step (RgOffline i t) g = markOffline i t g"
| "trust_step (RgAdjust i d) g = adjustTrust i d g"
| "trust_step (RgSet i x) g = setLatticeTrustFrom01 i x g"

lemma trust_put:
  "trust_ok g \<Longrightarrow> 0 \<le> x \<Longrightarrow> x \<le> 200 \<Longrightarrow> trust_ok (g\<lparr> tr_trust := js_put i x (tr_trust g) \<rparr>)"
proof -
  have "kv \<in> set (js_put i x m) \<Longrightarrow> kv = (i, x) \<or> kv \<in> set m" for kv and m :: "(ident, real) jsmap"
    by (induction m) (auto split: if_splits)
  then show "trust_ok g \<Longrightarrow> 0 \<le> x \<Longrightarrow> x \<le> 200 \<Longrightarrow> trust_ok (g\<lparr> tr_trust := js_put i x (tr_trust g) \<rparr>)"
    by (fastforce simp: trust_ok_def list_all_iff jsm.invar_insert)
qed

lemma trust_puts:
  "trust_ok g \<Longrightarrow> list_all (\<lambda>kv. 0 \<le> snd kv \<and> snd kv \<le> 200) kvs \<Longrightarrow>
    trust_ok (g\<lparr> tr_trust := foldl (\<lambda>m kv. js_put (fst kv) (snd kv) m) (tr_trust g) kvs \<rparr>)"
proof (induction kvs arbitrary: g)
  case (Cons kv kvs)
  then show ?case using Cons.IH [OF trust_put [OF Cons.prems(1), of "snd kv" "fst kv"]] by simp
qed simp

lemma trust_delta:
  assumes "trust_ok g" shows "list_all (\<lambda>kv. 0 \<le> snd kv \<and> snd kv \<le> 200) (applyReputationDelta (tr_trust g) i d)"
proof -
  have "trust_ok (g\<lparr> tr_trust := js_put i (max 0 (min 200 (default_to (js_get (tr_trust g) i) 100 + d))) (tr_trust g) \<rparr>)"
    using assms by (rule trust_put) simp_all
  then show ?thesis by (simp add: applyReputationDelta_def Let_def trust_ok_def)
qed

lemma getTrustScore_adjust:
  assumes "wf_map (tr_trust g)"
  shows "getTrustScore j (adjustTrust i d g) = (if j = i then max 0 (min 200 (getTrustScore i g + d)) else getTrustScore j g)"
proof -
  let ?x = "max 0 (min 200 (default_to (js_get (tr_trust g) i) 100 + d))"
  have "wf_map (js_put i ?x (tr_trust g))" using assms by (rule jsm.invar_insert)
  then have "map_of (rev (js_put i ?x (tr_trust g))) = (map_of (tr_trust g))(i \<mapsto> ?x)"
    by (simp only: map_of_rev_distinct wf_map_def update_conv')
  then show ?thesis
    by (simp add: getTrustScore_def adjustTrust_def applyReputationDelta_def Let_def jsm.lookup_insert_all map_add_def split: option.split)
qed

lemma trust_points_bounds: "0 \<le> trust_points x" "trust_points x \<le> 100"
proof -
  have "js_round (of_int 0) \<le> js_round (max 0 (min 1 x) * 100)" by (rule js_round_mono) simp
  moreover have "js_round (max 0 (min 1 x) * 100) \<le> js_round (of_int 100)" by (rule js_round_mono) simp
  ultimately show "0 \<le> trust_points x" "trust_points x \<le> 100" unfolding trust_points_def js_round_of_int by linarith+
qed

lemma trust_default_ok: "trust_ok g \<Longrightarrow> trust_ok (trust_default g i)"
  by (simp add: trust_default_def trust_put)

lemma trust_step_ok: "trust_ok g \<Longrightarrow> trust_ok (trust_step c g)"
proof (cases c)
  case (RgSeed r)
  assume ok: "trust_ok g"
  have "trust_ok h \<Longrightarrow> trust_ok (foldl trust_default h is)" for h "is" by (induction "is" arbitrary: h) (simp_all add: trust_default_ok)
  moreover have "trust_ok (g\<lparr> tr_rosterRef := r \<rparr>)" using ok by (simp add: trust_ok_def)
  ultimately show ?thesis using RgSeed by (simp add: seedRoster_def)
next
  case (RgAdd e)
  assume "trust_ok g"
  then have "trust_ok (g\<lparr> tr_rosterRef := js_put (re_nodeId e) e (tr_rosterRef g) \<rparr>)" by (simp add: trust_ok_def)
  then show ?thesis using RgAdd by (simp add: addOrUpdateRosterEntry_def trust_default_ok)
next
  case (RgAdjust i d)
  assume ok: "trust_ok g"
  show ?thesis using RgAdjust trust_puts [OF ok trust_delta [OF ok, of i d]] by (simp add: adjustTrust_def)
next
  case (RgSet i x)
  assume "trust_ok g"
  from trust_put [OF this trust_points_bounds(1)] trust_points_bounds(2) [of x]
  show ?thesis using RgSet by (simp add: setLatticeTrustFrom01_def order_trans [OF trust_points_bounds(2)])
qed (auto simp: trust_ok_def node_heartbeat_def markOffline_def Let_def split: option.split)

text \<open>
  After any sequence of registry calls every trust score lies between 0 and 200 and the normalised trust between 0 and 1. The documented
  band ends at 100: raising the trust of a node that starts at the default 100 leaves it above.
\<close>

theorem trust_stays_in_band:
  "(let g = foldl (\<lambda>g c. trust_step c g) new_trust_registry calls
    in 0 \<le> getTrustScore i g \<and> getTrustScore i g \<le> 200 \<and> 0 \<le> latticeTrust01 i g \<and> latticeTrust01 i g \<le> 1
       \<and> getTrustScore i (adjustTrust i 50 (trust_step (RgSet i 1) g)) = 150)"
proof -
  have "trust_ok h \<Longrightarrow> trust_ok (foldl (\<lambda>g c. trust_step c g) h calls)" for h
    by (induction calls arbitrary: h) (simp_all add: trust_step_ok)
  moreover have "trust_ok new_trust_registry" by (simp add: trust_ok_def new_trust_registry_def jsm.invar_empty)
  ultimately have ok: "trust_ok (foldl (\<lambda>g c. trust_step c g) new_trust_registry calls)" (is "trust_ok ?g") by blast
  have "0 \<le> getTrustScore i ?g \<and> getTrustScore i ?g \<le> 200"
    using ok by (auto simp: getTrustScore_def trust_ok_def list_all_iff default_to_def split: option.split dest!: map_of_SomeD)
  moreover have "getTrustScore i (adjustTrust i 50 (trust_step (RgSet i 1) ?g)) = 150"
  proof -
    have "wf_map (tr_trust (trust_step (RgSet i 1) ?g))" using trust_step_ok [OF ok] by (simp only: trust_ok_def)
    moreover have "getTrustScore i (trust_step (RgSet i 1) ?g) = 100"
      using js_round_of_int [of 100] by (simp add: getTrustScore_def setLatticeTrustFrom01_def js_map_simps trust_points_def)
    ultimately show ?thesis by (simp only: getTrustScore_adjust if_True) simp
  qed
  ultimately show ?thesis by (simp add: Let_def latticeTrust01_def)
qed

subsection \<open>The budget gate\<close>

text \<open>
  When the gate lets a scenario pass, the roster holds enough nodes that are online, heard of within the window, trusted
  up to the scenario's risk and charged, and every required sensor is offered by one of them.
\<close>

theorem budget_gate_sound:
  "(case validateScenarioBudget scenario mission nowMs staleMs g of
      Some (Inr u) \<Rightarrow>
        (let b = the (js_get SCENARIO_BUDGETS scenario);
             fit = (\<lambda>i. case getTelemetry i g of None \<Rightarrow> False
               | Some t \<Rightarrow> hb_online t \<and> nowMs - hb_lastSeenMs t \<le> staleMs \<and> latticeTrust01 i g + 1 / 1000000 \<ge> 1 - bg_maxRisk b
                    \<and> hb_batteryReserve t + 1 / 1000000 \<ge> bg_minBatteryReserve b);
             nodes = filter fit (js_keys (ms_roster mission))
         in length nodes \<ge> bg_minNodes b
            \<and> list_all (\<lambda>s. list_ex (\<lambda>i. to_lower s \<in> set (listSensorHints i g)) nodes) (bg_requiredSensors b))
    | _ \<Rightarrow> True)"
proof (cases "js_get SCENARIO_BUDGETS scenario")
  case None
  then show ?thesis by (simp add: validateScenarioBudget_def)
next
  case (Some b)
  let ?fit = "\<lambda>i. case getTelemetry i g of None \<Rightarrow> False
      | Some t \<Rightarrow> hb_online t \<and> nowMs - hb_lastSeenMs t \<le> staleMs \<and> latticeTrust01 i g + 1 / 1000000 \<ge> 1 - bg_maxRisk b
           \<and> hb_batteryReserve t + 1 / 1000000 \<ge> bg_minBatteryReserve b"
  let ?E = "filter (budget_eligible b nowMs staleMs g) (js_keys (ms_roster mission))"
  have sub: "budget_eligible b nowMs staleMs g i \<Longrightarrow> ?fit i" for i
    by (auto simp: budget_eligible_def getTelemetry_def live_def split: option.splits if_splits)
  have "length (filter P xs) \<le> length (filter Q xs)" if "\<And>x. P x \<Longrightarrow> Q x" for P Q and xs :: "ident list"
    using that by (induction xs) auto
  from this [of "budget_eligible b nowMs staleMs g" ?fit, OF sub] have len: "length ?E \<le> length (filter ?fit (js_keys (ms_roster mission)))" .
  show ?thesis
  proof (cases "validateScenarioBudget scenario mission nowMs staleMs g = Some (Inr ())")
    case True
    then have n: "bg_minNodes b \<le> length ?E" and gap: "sensor_gap (bg_requiredSensors b) ?E g = None"
      by (simp_all add: validateScenarioBudget_def Some Let_def not_less split: if_splits option.splits)
    have "list_all (\<lambda>s. list_ex (\<lambda>i. to_lower s \<in> set (listSensorHints i g)) (filter ?fit (js_keys (ms_roster mission)))) (bg_requiredSensors b)"
      unfolding list_all_iff list_ex_iff
    proof
      fix s assume "s \<in> set (bg_requiredSensors b)"
      then obtain i where "i \<in> set ?E" "to_lower s \<in> set (listSensorHints i g)"
        using gap by (auto simp: sensor_gap_def find_None_iff list_ex_iff)
      then show "\<exists>i\<in>set (filter ?fit (js_keys (ms_roster mission))). to_lower s \<in> set (listSensorHints i g)" using sub by auto
    qed
    with True n len show ?thesis by (simp add: Some Let_def)
  next
    case False
    then show ?thesis by (simp split: option.split sum.split)
  qed
qed

subsection \<open>Allocation ranks\<close>

lemma sorted_by_key:
  fixes f :: "'a \<Rightarrow> real"
  assumes "\<And>x y. lt y x \<Longrightarrow> f x \<le> f y" "\<And>x y. \<not> lt y x \<Longrightarrow> f y \<le> f x"
  shows "sorted_wrt (\<lambda>a b. f b \<le> f a) (js_sort lt xs)"
proof -
  have ins: "sorted_wrt (\<lambda>a b. f b \<le> f a) ys \<Longrightarrow> sorted_wrt (\<lambda>a b. f b \<le> f a) (sort_ins lt x ys)" for x ys
  proof (induction ys)
    case (Cons y ys)
    have "set (sort_ins lt x ys) = insert x (set ys)"
      using mset_sort_ins [of lt x ys] by (metis set_mset_add_mset_insert set_mset_mset)
    with Cons assms(1) [of y x] assms(2) [of y x] show ?case by (auto dest: order_trans)
  qed simp
  show ?thesis unfolding js_sort_def by (induction xs) (simp_all add: ins)
qed

lemma sorted_first_key: "sorted_wrt (\<lambda>a b. f b \<le> (f a :: real)) (js_sort (then_by (by_desc f) lt2) xs)"
  by (rule sorted_by_key) (auto simp: then_by_def by_desc_def)

lemma policy_weights_normal:
  "list_all (\<lambda>kv. map fst (snd kv) = ALLOCATION_FACTORS \<and> sum_list (map snd (snd kv)) = 1 \<and> list_all (\<lambda>w. 0 \<le> snd w) (snd kv)) POLICY_WEIGHTS"
  by (simp add: POLICY_WEIGHTS_def normalizeWeights_def weigh_def zero_factors_def ALLOCATION_FACTORS_def js_values_def Let_def)

lemma breakdown_unit:
  "list_all (\<lambda>kv. 0 \<le> snd kv \<and> snd kv \<le> 1) (allocation_breakdown taskType mission c node)"
proof -
  have "length (filter P need) \<le> max 1 (length need)" for P and need :: "string list"
    using length_filter_le [of P need] by linarith
  then have "0 \<le> capabilityMatchForTask node taskType \<and> capabilityMatchForTask node taskType \<le> 1"
    by (simp add: capabilityMatchForTask_def Let_def divide_le_eq le_max_iff_disj)
  then show ?thesis
    by (auto simp: allocation_breakdown_def unit_clamp_def thermalMatchScore_def relayContinuityScore_def hazardClearanceScore_def Let_def
        split: option.split)
qed

lemma convex_sum:
  fixes ws vs :: "real list"
  assumes "length ws = length vs" "list_all (\<lambda>w. 0 \<le> w) ws" "list_all (\<lambda>v. 0 \<le> v \<and> v \<le> 1) vs"
  shows "0 \<le> sum_list (map2 (*) ws vs) \<and> sum_list (map2 (*) ws vs) \<le> sum_list ws"
  using assms
proof (induction ws vs rule: list_induct2)
  case (Cons w ws v vs)
  then have "0 \<le> w * v" "w * v \<le> w" by (simp_all add: mult_left_le)
  with Cons show ?case by simp
qed simp

lemma weighted_sum_eq:
  assumes "map fst ws = map fst bs" "distinct (map fst bs)"
  shows "weighted_sum ws bs = sum_list (map2 (*) (map snd ws) (map snd bs))"
proof -
  have fold: "foldl (\<lambda>s kv. s + snd kv * default_to (js_get m (fst kv)) 0) a xs = a + sum_list (map (\<lambda>kv. snd kv * default_to (js_get m (fst kv)) 0) xs)"
    for a :: real and xs and m :: factor_vector by (induction xs arbitrary: a) simp_all
  have "map (\<lambda>kv. snd kv * default_to (js_get m (fst kv)) 0) xs = map2 (*) (map snd xs) (map snd ys)"
    if "map fst xs = map fst ys" "\<And>k v. (k, v) \<in> set ys \<Longrightarrow> js_get m k = Some v" for xs ys :: factor_vector and m
    using that
  proof (induction xs arbitrary: ys)
    case (Cons x xs)
    then obtain y ys' where ys: "ys = y # ys'" by (cases ys) auto
    then have "js_get m (fst x) = Some (snd y)" using Cons.prems(1) Cons.prems(2) [of "fst y" "snd y"] by simp
    moreover have "map (\<lambda>kv. snd kv * default_to (js_get m (fst kv)) 0) xs = map2 (*) (map snd xs) (map snd ys')"
      by (rule Cons.IH) (use Cons.prems ys in auto)
    ultimately show ?case using ys by simp
  qed simp
  from this [OF assms(1)] assms(2) show ?thesis unfolding weighted_sum_def fold by simp
qed

lemma score_in_unit:
  assumes "js_get POLICY_WEIGHTS scenario = Some ws"
  shows "asc_finalScore (allocation_score_of ws taskType mission c node) = weighted_sum ws (allocation_breakdown taskType mission c node)"
    and "0 \<le> asc_finalScore (allocation_score_of ws taskType mission c node)"
    and "asc_finalScore (allocation_score_of ws taskType mission c node) \<le> 1"
proof -
  let ?bs = "allocation_breakdown taskType mission c node"
  have ws: "map fst ws = ALLOCATION_FACTORS" "sum_list (map snd ws) = 1" "list_all (\<lambda>w. 0 \<le> snd w) ws"
    using policy_weights_normal map_of_SomeD [OF assms] by (force simp: list_all_iff)+
  have keys: "map fst ?bs = ALLOCATION_FACTORS" by (simp add: allocation_breakdown_def ALLOCATION_FACTORS_def)
  have "distinct ALLOCATION_FACTORS" by (simp add: ALLOCATION_FACTORS_def)
  then have eq: "weighted_sum ws ?bs = sum_list (map2 (*) (map snd ws) (map snd ?bs))"
    by (intro weighted_sum_eq) (simp_all add: ws(1) keys)
  have "length (map fst ws) = length (map fst ?bs)" by (simp only: ws(1) keys)
  then have "0 \<le> weighted_sum ws ?bs \<and> weighted_sum ws ?bs \<le> 1"
    using convex_sum [of "map snd ws" "map snd ?bs"] ws(2,3) breakdown_unit [of taskType mission c node] unfolding eq
    by (simp add: list_all_iff)
  then show "asc_finalScore (allocation_score_of ws taskType mission c node) = weighted_sum ws ?bs"
    "0 \<le> asc_finalScore (allocation_score_of ws taskType mission c node)" "asc_finalScore (allocation_score_of ws taskType mission c node) \<le> 1"
    by (simp_all add: allocation_score_of_def Let_def unit_clamp_def)
qed

text \<open>
  Allocation refuses exactly the scenarios without a weight vector. Otherwise it returns every candidate once, numbered 1, 2, \<dots>
  in falling order of score, and each score is the weighted mean of the node's eight factors, which the final clamp never cuts.
\<close>

theorem allocation_ranks:
  "(case scoreForTask lc nodes taskType scenario mission c of
      Inl msg \<Rightarrow> js_get POLICY_WEIGHTS scenario = None
    | Inr rs \<Rightarrow>
        map asc_rank rs = [1..<length nodes + 1] \<and> mset (map asc_nodeId rs) = mset (map alp_nodeId nodes)
        \<and> sorted_wrt (\<lambda>a b. asc_finalScore b \<le> asc_finalScore a) rs
        \<and> list_all (\<lambda>r. 0 \<le> asc_finalScore r \<and> asc_finalScore r \<le> 1
             \<and> asc_finalScore r = weighted_sum (the (js_get POLICY_WEIGHTS scenario)) (asc_breakdown r)) rs)"
proof (cases "js_get POLICY_WEIGHTS scenario")
  case None
  then show ?thesis by (simp add: scoreForTask_def)
next
  case (Some ws)
  let ?lt = "then_by (by_desc asc_finalScore) (\<lambda>a b. lc (asc_nodeId a) (asc_nodeId b))"
  let ?xs = "map (allocation_score_of ws taskType mission c) nodes"
  let ?ys = "js_sort ?lt ?xs"
  let ?rs = "map (\<lambda>(i, r). r\<lparr> asc_rank := i + 1 \<rparr>) (enumerate 0 ?ys)"
  have fields: "map asc_finalScore ?rs = map asc_finalScore ?ys" "map asc_nodeId ?rs = map asc_nodeId ?ys" "map asc_breakdown ?rs = map asc_breakdown ?ys"
    by (auto simp: enumerate_eq_zip intro!: nth_equalityI)
  have "map asc_rank ?rs = [1..<length nodes + 1]" by (rule nth_equalityI) (simp_all add: nth_enumerate_eq del: upt_Suc)
  moreover have "mset (map asc_nodeId ?rs) = mset (map alp_nodeId nodes)"
    unfolding fields(2) mset_map mset_js_sort by (simp add: allocation_score_of_def Let_def comp_def image_mset.compositionality)
  moreover have "sorted_wrt (\<lambda>a b. asc_finalScore b \<le> asc_finalScore a) ?rs"
    using sorted_first_key [of asc_finalScore _ ?xs] fields(1) sorted_wrt_map [of "\<lambda>a b. b \<le> a" asc_finalScore] by metis
  moreover have "list_all (\<lambda>r. 0 \<le> asc_finalScore r \<and> asc_finalScore r \<le> 1 \<and> asc_finalScore r = weighted_sum ws (asc_breakdown r)) ?rs"
  proof -
    have "0 \<le> asc_finalScore r \<and> asc_finalScore r \<le> 1 \<and> asc_finalScore r = weighted_sum ws (asc_breakdown r)" if "r \<in> set ?ys" for r
    proof -
      from that obtain n where "r = allocation_score_of ws taskType mission c n" by auto
      then show ?thesis using score_in_unit [OF Some, of taskType mission c n] by (simp add: allocation_score_of_def Let_def)
    qed
    note ok = this
    have "list_all Q (map (\<lambda>(i, r). r\<lparr> asc_rank := i + 1 \<rparr>) (enumerate k ys))"
      if "\<And>r i. r \<in> set ys \<Longrightarrow> Q (r\<lparr> asc_rank := i \<rparr>)" for Q k and ys :: "allocation_score list"
      using that by (induction ys arbitrary: k) simp_all
    then show ?thesis by this (drule ok, simp)
  qed
  ultimately show ?thesis unfolding scoreForTask_def Some option.case sum.case option.sel by blast
qed

subsection \<open>Scenario tables\<close>

definition untabled_scenarios :: "string list" where
  "untabled_scenarios = [''indoor_search'', ''perimeter_sweep'', ''triage_operation'', ''night_mission'']"

lemma known_scenarios:
  "list_all (\<lambda>k. coerceMissionScenarioKind (Some k) = Some k \<and> js_get SCENARIO_BUDGETS k \<noteq> None
      \<and> (js_get POLICY_WEIGHTS k = None) = (k \<in> set untabled_scenarios)
      \<and> (case js_get TEMPLATES k of Some p \<Rightarrow> pol_scenario p = k | None \<Rightarrow> k \<in> set untabled_scenarios)) KNOWN"
  by (simp add: KNOWN_def coerceMissionScenarioKind_def js_trim_def is_space_def to_lower_def ascii_lower_def SCENARIO_BUDGETS_def
      POLICY_WEIGHTS_def TEMPLATES_def untabled_scenarios_def Let_def)

text \<open>
  A scenario text is coerced to a known kind or refused; coercing twice changes nothing. Every known kind has a budget, but
  four of the ten have neither a policy template nor allocation weights: for them \<open>compile\<close> returns \<open>undefined\<close>
  and allocation throws.
\<close>

theorem scenario_tables:
  "(case coerceMissionScenarioKind raw of
      None \<Rightarrow> tryCompile raw = None
    | Some k \<Rightarrow> coerceMissionScenarioKind (Some k) = Some k \<and> js_get SCENARIO_BUDGETS k \<noteq> None
        \<and> isl (scoreForTask lc nodes taskType k mission c) = (k \<in> set untabled_scenarios)
        \<and> (case tryCompile raw of Some p \<Rightarrow> pol_scenario p = k | None \<Rightarrow> k \<in> set untabled_scenarios))"
proof (cases "coerceMissionScenarioKind raw")
  case (Some k)
  then have k: "k \<in> set KNOWN" by (auto simp: coerceMissionScenarioKind_def Let_def split: option.splits if_splits)
  have "isl (scoreForTask lc nodes taskType k mission c) = (js_get POLICY_WEIGHTS k = None)"
    by (simp add: scoreForTask_def split: option.split)
  with k known_scenarios Some show ?thesis by (simp add: list_all_iff tryCompile_def)
qed (simp add: tryCompile_def)

end
