(* ===== verification/MissionServices.thy ===== *)
theory MissionServices
  imports LatticeServices VertexServices FoxMap
begin

section \<open>Mission services: recovery, safety, replay report\<close>

text \<open>
  Models \<open>recovery/recovery-manager.ts\<close>, \<open>safety/safety-engine.ts\<close> and \<open>replay/mission-replayer.ts\<close> of \<open>src/src/backend\<close>,
  over the ledger of theory \<open>HashChains\<close>, the replay of \<open>MissionReplay\<close> and the registry of \<open>LatticeServices\<close>.
  \<open>x.toFixed(d)\<close> is the parameter \<open>fx d x\<close>. The lemmas say what a recovery catches up, what an alert costs, that a safety row is
  read back, and when the report calls a replay deterministic and consistent.
\<close>

subsection \<open>Recovery manager\<close>

datatype node_recovery_state = NrSyncing | NrReplaying | NrRevalidating | NrRecovered | NrDegraded | NrStale | NrIsolated

datatype operator_action = OaMonitor | OaManualSync | OaIsolate

record recovery_diagnostics =
  rdg_initialCheckpointLag :: int
  rdg_checkpointLag :: int
  rdg_mapLagPercent :: real
  rdg_discardedCommands :: nat
  rdg_replayedEvents :: nat
  rdg_pendingTrustRevalidation :: bool
  rdg_peerSyncCount :: nat
  rdg_lastPeerContactMs :: timestamp

record node_recovery =
  nrc_nodeId :: ident
  nrc_missionId :: ident
  nrc_currentState :: node_recovery_state
  nrc_diagnostics :: recovery_diagnostics
  nrc_operatorActions :: "operator_action list"
  nrc_headline :: string
  nrc_timestamp :: timestamp

record recover_context =
  rcx_localCheckpointEventHash :: "string option"
  rcx_localMapCells :: "real option"
  rcx_initialHandshake :: bool

definition STALE_LAG :: int where "STALE_LAG = 100"
definition REPLAY_LAG :: int where "REPLAY_LAG = 20"
definition MAP_DEGRADED_PCT :: real where "MAP_DEGRADED_PCT = 3"
definition LOG_CAP :: nat where "LOG_CAP = 128"

record recovery_manager =
  rmg_localTails :: "(string, string) jsmap"
  rmg_logRing :: "node_recovery list"

definition new_recovery_manager :: recovery_manager where
  "new_recovery_manager = \<lparr> rmg_localTails = [], rmg_logRing = [] \<rparr>"

definition stableHash32 :: "string \<Rightarrow> nat" where
  "stableHash32 s = unat (fnv 2166136261 (units_of s))"

text \<open>\<open>findIndex\<close>: -1 when there is none.\<close>

fun find_index :: "('a \<Rightarrow> bool) \<Rightarrow> 'a list \<Rightarrow> int" where
  "find_index P [] = - 1"
| "find_index P (x # xs) = (if P x then 0 else let i = find_index P xs in if i < 0 then - 1 else i + 1)"

definition missionCheckpointIndex :: "chain_event list \<Rightarrow> string \<Rightarrow> int" where
  "missionCheckpointIndex events localTail =
     (if localTail = ''genesis'' then - 1 else find_index (\<lambda>e. mi_eventHash e = localTail) events)"

definition tail_key :: "ident \<Rightarrow> ident \<Rightarrow> string" where
  "tail_key missionId nodeId = missionId @ '':'' @ nodeId"

definition seedLocalCheckpoint :: "ident \<Rightarrow> ident \<Rightarrow> string \<Rightarrow> recovery_manager \<Rightarrow> recovery_manager" where
  "seedLocalCheckpoint missionId nodeId h rm = rm\<lparr> rmg_localTails := js_put (tail_key missionId nodeId) h (rmg_localTails rm) \<rparr>"

definition getLocalCheckpoint :: "(real \<Rightarrow> string) \<Rightarrow> mission_ledger \<Rightarrow> ident \<Rightarrow> ident \<Rightarrow> recover_context option \<Rightarrow> recovery_manager \<Rightarrow> string" where
  "getLocalCheckpoint ns lg missionId nodeId ctx rm =
     (case Option.bind ctx rcx_localCheckpointEventHash of
        Some (c # cs) \<Rightarrow> c # cs
      | _ \<Rightarrow>
          (case js_get (rmg_localTails rm) (tail_key missionId nodeId) of
             Some h \<Rightarrow> h
           | None \<Rightarrow>
               (case List.find (\<lambda>e. mi_eventType e = ''recovery_checkpoint'' \<and> payload_text ns e ''nodeId'' (mi_actorId e) = nodeId)
                    (rev (eventsForMission missionId lg)) of
                  Some e \<Rightarrow> mi_eventHash e
                | None \<Rightarrow> ''genesis'')))"

definition recentRecoveryLogs :: "nat \<Rightarrow> recovery_manager \<Rightarrow> node_recovery list" where
  "recentRecoveryLogs limit rm = slice_tail limit (rmg_logRing rm)"

definition formatRecoveryHeadline :: "(nat \<Rightarrow> real \<Rightarrow> string) \<Rightarrow> node_recovery \<Rightarrow> string" where
  "formatRecoveryHeadline fx report =
     (let d = nrc_diagnostics report; nodeId = nrc_nodeId report; lag = show_int (rdg_initialCheckpointLag d);
          map_pct = fx 1 (rdg_mapLagPercent d); n = rdg_replayedEvents d
      in case nrc_currentState report of
           NrIsolated \<Rightarrow> nodeId @ '': isolated (no fresh peer sync)''
         | NrStale \<Rightarrow> nodeId @ '': stale ledger ('' @ lag @ '' events behind) '' @ long_dash @ '' manual sync or isolate''
         | NrDegraded \<Rightarrow> nodeId @ '': degraded '' @ long_dash @ '' map '' @ map_pct @ ''% behind''
             @ (if n > 0 then '', replayed '' @ show_nat n @ '' events'' else []) @ '' '' @ long_dash @ '' monitor''
         | NrReplaying \<Rightarrow> nodeId @ '': replaying '' @ show_nat n @ '' events (was '' @ lag @ '' behind)''
         | NrRevalidating \<Rightarrow> nodeId @ '': revalidating Lattice trust ('' @ lag @ '' event gap)''
         | NrSyncing \<Rightarrow> nodeId @ '': syncing to Vertex tail''
         | NrRecovered \<Rightarrow>
             (if n > 0 then nodeId @ '': recovered '' @ long_dash @ '' replayed '' @ show_nat n @ '' events, map '' @ map_pct @ ''% behind''
              else nodeId @ '': recovered '' @ long_dash @ '' checkpoint aligned, map '' @ map_pct @ ''% behind''))"

definition recoveryAggregateSyncStatus :: "node_recovery list \<Rightarrow> string" where
  "recoveryAggregateSyncStatus reports =
     (if reports = [] then ''synced''
      else if list_ex (\<lambda>r. nrc_currentState r = NrStale \<or> nrc_currentState r = NrIsolated) reports then ''stale''
      else if list_ex (\<lambda>r. nrc_currentState r \<in> {NrSyncing, NrReplaying, NrRevalidating}) reports then ''catching_up''
      else ''synced'')"

definition lag_at :: "chain_event list \<Rightarrow> string \<Rightarrow> int" where
  "lag_at events localTail =
     (let i = missionCheckpointIndex events localTail; n = int (length events) in if i < 0 then n else max 0 (n - 1 - i))"

definition computeResidualLag :: "(real \<Rightarrow> string) \<Rightarrow> mission_ledger \<Rightarrow> ident \<Rightarrow> ident \<Rightarrow> recover_context option \<Rightarrow> recovery_manager \<Rightarrow> int" where
  "computeResidualLag ns lg missionId nodeId ctx rm =
     lag_at (eventsForMission missionId lg) (getLocalCheckpoint ns lg missionId nodeId ctx rm)"

definition replay_lag_events :: "ident \<Rightarrow> int \<Rightarrow> mission_ledger \<Rightarrow> nat" where
  "replay_lag_events missionId lag lg =
     (let events = eventsForMission missionId lg; start = max 0 (int (length events) - lag) in length (drop (nat start) events))"

definition advanceLocalTail :: "mission_ledger \<Rightarrow> ident \<Rightarrow> ident \<Rightarrow> recovery_manager \<Rightarrow> recovery_manager" where
  "advanceLocalTail lg missionId nodeId rm =
     rm\<lparr> rmg_localTails := js_put (tail_key missionId nodeId) (missionTailHash missionId lg) (rmg_localTails rm) \<rparr>"

definition refreshTrust :: "bool \<Rightarrow> (real \<Rightarrow> string) \<Rightarrow> mission_ledger \<Rightarrow> ident \<Rightarrow> ident \<Rightarrow> trust_registry \<Rightarrow> trust_registry" where
  "refreshTrust reputation ns lg nodeId missionId g =
     (if \<not> reputation then g else setLatticeTrustFrom01 nodeId (rps_finalScore (evaluateFromLedger ns nodeId missionId lg)) g)"

definition computeMapLag :: "ident \<Rightarrow> mission_state \<Rightarrow> recover_context option \<Rightarrow> real" where
  "computeMapLag nodeId mission ctx =
     (let globalCells = max 0 (su_cellsKnown (ms_mapSummary mission)); local = Option.bind ctx rcx_localMapCells
      in if local \<noteq> None \<and> globalCells > 0
         then min 100 (max 0 (globalCells - the local) / globalCells * 100)
         else if globalCells \<le> 0 then 0
         else let jitter = real (stableHash32 (nodeId @ '':'' @ ms_missionId mission) mod 10000) / 10000;
                  localFrac = 92 / 100 + 8 / 100 * jitter;
                  localCells = of_int \<lfloor>globalCells * localFrac\<rfloor>
              in min 100 ((globalCells - localCells) / globalCells * 100))"

definition countDiscardedStaleCommands :: "ident \<Rightarrow> mission_state \<Rightarrow> int \<Rightarrow> chain_event list \<Rightarrow> nat" where
  "countDiscardedStaleCommands nodeId mission cpIndex events =
     (let ts = (if cpIndex \<ge> 0 \<and> nat cpIndex < length events then mi_timestamp (events ! nat cpIndex) else 0)
      in length (filter (\<lambda>a. ta_nodeId a = nodeId \<and> ta_assignedAtMs a > ts) (js_values (ms_assignments mission))))"

definition getOperatorActions :: "node_recovery_state \<Rightarrow> int \<Rightarrow> real \<Rightarrow> operator_action list" where
  "getOperatorActions st initialLag mapLagPercent =
     dedup ((if st = NrStale \<or> st = NrIsolated then [OaManualSync, OaIsolate] else [])
       @ (if st = NrDegraded \<or> mapLagPercent \<ge> MAP_DEGRADED_PCT then [OaMonitor] else [])
       @ (if st \<in> {NrReplaying, NrRevalidating, NrSyncing} then [OaMonitor] else [])
       @ (if st = NrStale \<and> initialLag > STALE_LAG * 2 then [OaMonitor] else []))"

definition logRecoveryEvent :: "node_recovery \<Rightarrow> recovery_manager \<Rightarrow> recovery_manager" where
  "logRecoveryEvent report rm =
     (let ring = rmg_logRing rm @ [report]
      in rm\<lparr> rmg_logRing := (if length ring > LOG_CAP then drop (length ring - LOG_CAP) ring else ring) \<rparr>)"

text \<open>The catch-up chain of \<open>recoverNode\<close>: state, replayed events, and the manager and registry after it.\<close>

definition catch_up :: "bool \<Rightarrow> (real \<Rightarrow> string) \<Rightarrow> mission_ledger \<Rightarrow> ident \<Rightarrow> ident \<Rightarrow> ident list \<Rightarrow> int \<Rightarrow> nat \<Rightarrow> recover_context option \<Rightarrow>
    recovery_manager \<Rightarrow> trust_registry \<Rightarrow> node_recovery_state \<times> nat \<times> recovery_manager \<times> trust_registry" where
  "catch_up reputation ns lg nodeId missionId rosterIds initialLag peerSyncCount ctx rm g =
     (if initialLag > STALE_LAG then (NrStale, 0, rm, g)
      else if peerSyncCount = 0 \<and> length rosterIds > 1 then (NrIsolated, 0, rm, g)
      else if initialLag > REPLAY_LAG
      then (NrRecovered, replay_lag_events missionId initialLag lg, advanceLocalTail lg missionId nodeId rm, g)
      else if initialLag > 0
      then (NrRecovered, 0, advanceLocalTail lg missionId nodeId rm, refreshTrust reputation ns lg nodeId missionId g)
      else if (case ctx of Some c \<Rightarrow> rcx_initialHandshake c | None \<Rightarrow> False) then (NrSyncing, 0, rm, g)
      else (NrRecovered, 0, rm, g))"

definition recoverNode :: "(nat \<Rightarrow> real \<Rightarrow> string) \<Rightarrow> bool \<Rightarrow> (real \<Rightarrow> string) \<Rightarrow> mission_ledger \<Rightarrow> ident \<Rightarrow> ident \<Rightarrow> mission_state \<Rightarrow> timestamp \<Rightarrow>
    recover_context option \<Rightarrow> recovery_manager \<Rightarrow> trust_registry \<Rightarrow> node_recovery \<times> recovery_manager \<times> trust_registry" where
  "recoverNode fx reputation ns lg nodeId missionId mission nowMs ctx rm g =
     (let events = eventsForMission missionId lg;
          localTail = getLocalCheckpoint ns lg missionId nodeId ctx rm;
          cpIndex = missionCheckpointIndex events localTail;
          initialLag = lag_at events localTail;
          rosterIds = js_keys (ms_roster mission);
          peers = getPeerSyncCount nodeId rosterIds nowMs 30000 g;
          contact = lastPeerContactMs nodeId rosterIds nowMs 30000 g;
          (st, replayed, rm', g') = catch_up reputation ns lg nodeId missionId rosterIds initialLag peers ctx rm g;
          residual = computeResidualLag ns lg missionId nodeId ctx rm';
          mapLag = computeMapLag nodeId mission ctx;
          discarded = countDiscardedStaleCommands nodeId mission cpIndex events;
          st' = (if mapLag \<ge> MAP_DEGRADED_PCT \<and> (st = NrRecovered \<or> st = NrSyncing) then NrDegraded else st);
          report = \<lparr> nrc_nodeId = nodeId, nrc_missionId = missionId, nrc_currentState = st',
            nrc_diagnostics = \<lparr> rdg_initialCheckpointLag = initialLag, rdg_checkpointLag = residual, rdg_mapLagPercent = mapLag,
              rdg_discardedCommands = discarded, rdg_replayedEvents = replayed, rdg_pendingTrustRevalidation = False,
              rdg_peerSyncCount = peers, rdg_lastPeerContactMs = contact \<rparr>,
            nrc_operatorActions = getOperatorActions st' initialLag mapLag, nrc_headline = [], nrc_timestamp = nowMs \<rparr>;
          report' = report\<lparr> nrc_headline := formatRecoveryHeadline fx report \<rparr>
      in (report', logRecoveryEvent report' rm', g'))"

subsection \<open>Safety engine\<close>

datatype safety_type = BatteryCritical | GeoFenceViolation | TempSpike | LinkLoss | GasDetected | WaterLevelRising

fun safety_type_str :: "safety_type \<Rightarrow> string" where
  "safety_type_str BatteryCritical = ''battery_critical''"
| "safety_type_str GeoFenceViolation = ''geo_fence_violation''"
| "safety_type_str TempSpike = ''temp_spike''"
| "safety_type_str LinkLoss = ''link_loss''"
| "safety_type_str GasDetected = ''gas_detected''"
| "safety_type_str WaterLevelRising = ''water_level_rising''"

datatype safety_severity = SvWarning | SvCritical

fun severity_str :: "safety_severity \<Rightarrow> string" where
  "severity_str SvWarning = ''warning''"
| "severity_str SvCritical = ''critical''"

text \<open>The answers required are texts; a ledger row may carry any.\<close>

record safety_event =
  sfe_nodeId :: ident
  sfe_type :: safety_type
  sfe_severity :: safety_severity
  sfe_timestamp :: timestamp
  sfe_payload :: obj
  sfe_responseRequired :: "json list"

record safety_telemetry =
  sft_battery :: "real option"
  sft_batteryReserve :: "real option"
  sft_distanceFromGeofence :: "real option"
  sft_gasLevel :: "real option"
  sft_temperatureC :: "real option"
  sft_waterLevel :: "real option"
  sft_linkQuality :: "real option"
  sft_position :: "json option"

record safety_state =
  sfs_activeAlerts :: "safety_event list"
  sfs_escalatedCount :: nat
  sfs_emergencyMode :: bool
  sfs_trustImpact :: "(ident, real) jsmap"
  sfs_committedEventHash :: "string option"

fun SEVERITY_RANK :: "safety_severity \<Rightarrow> nat" where
  "SEVERITY_RANK SvCritical = 2"
| "SEVERITY_RANK SvWarning = 1"

definition pickHighestSeverity :: "safety_event list \<Rightarrow> safety_event option" where
  "pickHighestSeverity alerts =
     (if alerts = [] then None else Some (hd (js_sort (by_desc (\<lambda>a. SEVERITY_RANK (sfe_severity a))) alerts)))"

definition ledgerLevelToSeverity :: "json option \<Rightarrow> safety_severity" where
  "ledgerLevelToSeverity level = (if level = Some (JStr ''critical'') then SvCritical else SvWarning)"

definition inferAlertType :: "(real \<Rightarrow> string) \<Rightarrow> chain_event \<Rightarrow> safety_type" where
  "inferAlertType ns e =
     (let k = payload_lower ns e ''kind''; msg = payload_lower ns e ''message''
      in if str_includes k ''battery'' \<or> str_includes msg ''battery'' then BatteryCritical
         else if str_includes k ''geo'' \<or> str_includes msg ''geofence'' then GeoFenceViolation
         else if str_includes k ''gas'' \<or> str_includes msg ''gas'' then GasDetected
         else if str_includes k ''water'' \<or> str_includes msg ''water'' then WaterLevelRising
         else if str_includes k ''temp'' \<or> str_includes msg ''temp'' then TempSpike
         else if str_includes k ''link'' \<or> str_includes k ''comm'' \<or> str_includes msg ''link'' then LinkLoss
         else LinkLoss)"

definition safetyEventFromLedger :: "(real \<Rightarrow> string) \<Rightarrow> chain_event \<Rightarrow> safety_event option" where
  "safetyEventFromLedger ns e =
     (if mi_eventType e \<noteq> ''safety_alert'' then None
      else Some \<lparr> sfe_nodeId = mi_actorId e, sfe_type = inferAlertType ns e,
             sfe_severity = ledgerLevelToSeverity (js_get (mi_payload e) ''level''), sfe_timestamp = mi_timestamp e,
             sfe_payload = mi_payload e,
             sfe_responseRequired = (case js_get (mi_payload e) ''responseRequired'' of Some (JArr xs) \<Rightarrow> xs | _ \<Rightarrow> [JStr ''replan'']) \<rparr>)"

definition safety_alert_of :: "ident \<Rightarrow> timestamp \<Rightarrow> safety_type \<Rightarrow> safety_severity \<Rightarrow> obj \<Rightarrow> string list \<Rightarrow> safety_event" where
  "safety_alert_of nodeId t kind severity payload response =
     \<lparr> sfe_nodeId = nodeId, sfe_type = kind, sfe_severity = severity, sfe_timestamp = t, sfe_payload = payload,
       sfe_responseRequired = map JStr response \<rparr>"

definition when_num :: "real option \<Rightarrow> (real \<Rightarrow> bool) \<Rightarrow> (real \<Rightarrow> safety_event) \<Rightarrow> safety_event list" where
  "when_num v P alert = (case v of Some x \<Rightarrow> if P x then [alert x] else [] | None \<Rightarrow> [])"

definition telemetry_alerts :: "mission_policy \<Rightarrow> timestamp \<Rightarrow> ident \<Rightarrow> safety_telemetry \<Rightarrow> safety_event list" where
  "telemetry_alerts policy t nodeId tel =
     when_num (nullish (sft_batteryReserve tel) (sft_battery tel)) (\<lambda>x. x < pol_batteryThreshold policy)
       (\<lambda>x. safety_alert_of nodeId t BatteryCritical SvWarning [(''battery'', JNum x)] [''replan''])
     @ when_num (sft_distanceFromGeofence tel) (\<lambda>x. x < 5)
       (\<lambda>x. safety_alert_of nodeId t GeoFenceViolation SvCritical
          ((''distance'', JNum x) # (case sft_position tel of Some p \<Rightarrow> [(''coords'', p)] | None \<Rightarrow> [])) [''reassign'', ''halt''])
     @ when_num (sft_gasLevel tel) (\<lambda>x. x > 50)
       (\<lambda>x. safety_alert_of nodeId t GasDetected SvCritical [(''gasLevel'', JNum x)] [''evacuate'', ''halt''])
     @ when_num (sft_temperatureC tel) (\<lambda>x. x > 48)
       (\<lambda>x. safety_alert_of nodeId t TempSpike SvWarning [(''temperatureC'', JNum x)] [''replan''])
     @ when_num (sft_waterLevel tel) (\<lambda>x. x > 85 / 100)
       (\<lambda>x. safety_alert_of nodeId t WaterLevelRising SvCritical [(''waterLevel'', JNum x)] [''evacuate'', ''reassign''])
     @ when_num (sft_linkQuality tel) (\<lambda>x. x < 12 / 100)
       (\<lambda>x. safety_alert_of nodeId t LinkLoss SvWarning [(''linkQuality'', JNum x)] [''replan''])"

definition assessTelemetry :: "mission_policy \<Rightarrow> timestamp \<Rightarrow> ident \<Rightarrow> safety_telemetry \<Rightarrow> safety_event option" where
  "assessTelemetry policy t nodeId tel = pickHighestSeverity (telemetry_alerts policy t nodeId tel)"

definition alert_input :: "mission_ledger \<Rightarrow> ident \<Rightarrow> safety_event \<Rightarrow> timestamp \<Rightarrow> mission_event_input" where
  "alert_input lg missionId e nowMs =
     \<lparr> mi_missionId = missionId, mi_actorId = sfe_nodeId e, mi_eventType = ''safety_alert'', mi_plane = PlaneVertex,
       mi_payload = [(''alertId'', JStr (''se-'' @ show_int nowMs @ ''-'' @ safety_type_str (sfe_type e))),
         (''level'', JStr (if sfe_severity e = SvCritical then ''critical'' else ''warn'')),
         (''message'', JStr (safety_type_str (sfe_type e))), (''kind'', JStr (safety_type_str (sfe_type e))),
         (''responseRequired'', JArr (sfe_responseRequired e)), (''safetyPayload'', JObj (sfe_payload e)),
         (''severity'', JStr (severity_str (sfe_severity e)))],
       mi_timestamp = nowMs, mi_previousHash = tailHash lg \<rparr>"

text \<open>
  \<open>triggerEmergencyConsensus\<close> builds a payload and drops it. The error branch of \<open>append\<close>, which is never taken, leaves the
  registry as it was, as the exception would.
\<close>

definition escalate :: "(string \<Rightarrow> string) \<Rightarrow> (real \<Rightarrow> string) \<Rightarrow> ident \<Rightarrow> safety_event \<Rightarrow> timestamp \<Rightarrow> mission_ledger \<Rightarrow> trust_registry \<Rightarrow>
    (string + safety_state) \<times> mission_ledger \<times> trust_registry" where
  "escalate H ns missionId e nowMs lg g =
     (case append_mission_event H ns (alert_input lg missionId e nowMs) lg of
        (Inl err, lg') \<Rightarrow> (Inl err, lg', g)
      | (Inr committed, lg') \<Rightarrow>
          (let delta = (if sfe_severity e = SvCritical then - 24 else - 8)
           in (Inr \<lparr> sfs_activeAlerts = [e], sfs_escalatedCount = 1, sfs_emergencyMode = (sfe_severity e = SvCritical),
                 sfs_trustImpact = [(sfe_nodeId e, delta)], sfs_committedEventHash = Some (mi_eventHash committed) \<rparr>,
               lg', adjustTrust (sfe_nodeId e) delta g)))"

definition getSafetySummary :: "(real \<Rightarrow> string) \<Rightarrow> ident \<Rightarrow> mission_ledger \<Rightarrow> safety_state" where
  "getSafetySummary ns missionId lg =
     (let mapped = List.map_filter (safetyEventFromLedger ns) (filter (\<lambda>e. mi_eventType e = ''safety_alert'') (eventsForMission missionId lg));
          critical = filter (\<lambda>a. sfe_severity a = SvCritical) mapped
      in \<lparr> sfs_activeAlerts = slice_tail 8 mapped, sfs_escalatedCount = length mapped, sfs_emergencyMode = (length critical > 0),
           sfs_trustImpact = [], sfs_committedEventHash = None \<rparr>)"

text \<open>\<open>processMissionTelemetry\<close> of \<open>api/mission-safety.ts\<close>.\<close>

definition processMissionTelemetry :: "(string \<Rightarrow> string) \<Rightarrow> (real \<Rightarrow> string) \<Rightarrow> mission_policy \<Rightarrow> timestamp \<Rightarrow> ident \<Rightarrow> ident \<Rightarrow> safety_telemetry \<Rightarrow> timestamp \<Rightarrow>
    mission_ledger \<Rightarrow> trust_registry \<Rightarrow> (string + safety_state option) \<times> mission_ledger \<times> trust_registry" where
  "processMissionTelemetry H ns policy clock missionId nodeId tel nowMs lg g =
     (case assessTelemetry policy clock nodeId tel of
        None \<Rightarrow> (Inr None, lg, g)
      | Some alert \<Rightarrow>
          (case escalate H ns missionId alert nowMs lg g of
             (Inl err, lg', g') \<Rightarrow> (Inl err, lg', g')
           | (Inr st, lg', g') \<Rightarrow> (Inr (Some st), lg', g')))"

subsection \<open>Mission replayer\<close>

definition role_json :: "mission_node_role \<Rightarrow> json" where
  "role_json r = (case r of MrExplorer \<Rightarrow> JStr ''explorer'' | MrRelay \<Rightarrow> JStr ''relay'' | MrCarrier \<Rightarrow> JStr ''carrier''
     | MrMedic \<Rightarrow> JStr ''medic'' | MrObserver \<Rightarrow> JStr ''observer'' | MrCast v \<Rightarrow> v)"

definition mode_json :: "connectivity_mode \<Rightarrow> json" where
  "mode_json m = (case m of CmNormal \<Rightarrow> JStr ''normal'' | CmDegraded \<Rightarrow> JStr ''degraded'' | CmPartialPartition \<Rightarrow> JStr ''partial_partition''
     | CmBlackout \<Rightarrow> JStr ''blackout'' | CmRecovery \<Rightarrow> JStr ''recovery'' | CmResync \<Rightarrow> JStr ''resync'' | CmCast v \<Rightarrow> v)"

definition level_json :: "alert_level \<Rightarrow> json" where
  "level_json l = (case l of AlInfo \<Rightarrow> JStr ''info'' | AlWarn \<Rightarrow> JStr ''warn'' | AlCritical \<Rightarrow> JStr ''critical'' | AlCast v \<Rightarrow> v)"

text \<open>An optional field that is absent has no key.\<close>

definition optional_field :: "string \<Rightarrow> json option \<Rightarrow> obj" where
  "optional_field k v = (case v of None \<Rightarrow> [] | Some x \<Rightarrow> [(k, x)])"

definition dict_json :: "('v \<Rightarrow> json) \<Rightarrow> (string, 'v) jsmap \<Rightarrow> json" where
  "dict_json f m = JObj (map (map_prod id f) m)"

definition roster_entry_json :: "roster_entry \<Rightarrow> json" where
  "roster_entry_json r = JObj [(''nodeId'', JStr (re_nodeId r)), (''role'', role_json (re_role r)),
     (''joinedAtMs'', jint (re_joinedAtMs r)), (''capabilities'', jstrs (re_capabilities r))]"

definition sar_target_json :: "sar_target \<Rightarrow> json" where
  "sar_target_json t = JObj ([(''targetId'', JStr (st_targetId t))] @ optional_field ''discoveredBy'' (map_option JStr (st_discoveredBy t))
     @ optional_field ''confirmedByVertex'' (map_option JBool (st_confirmedByVertex t)) @ optional_field ''notes'' (map_option JStr (st_notes t)))"

definition assignment_json :: "task_assignment \<Rightarrow> json" where
  "assignment_json a = JObj [(''taskId'', JStr (ta_taskId a)), (''nodeId'', JStr (ta_nodeId a)), (''taskType'', JStr (ta_taskType a)),
     (''assignedAtMs'', jint (ta_assignedAtMs a))]"

definition alert_json :: "safety_alert \<Rightarrow> json" where
  "alert_json a = JObj ([(''alertId'', JStr (al_alertId a)), (''level'', level_json (al_level a)), (''message'', JStr (al_message a)),
     (''raisedAtMs'', jint (al_raisedAtMs a))] @ optional_field ''sourceNodeId'' (map_option JStr (al_sourceNodeId a)))"

definition pair_json :: "real \<times> real \<Rightarrow> json" where
  "pair_json p = JArr [JNum (fst p), JNum (snd p)]"

definition map_summary_json :: "map_summary \<Rightarrow> json" where
  "map_summary_json s = JObj ([(''cellsKnown'', JNum (su_cellsKnown s))]
     @ optional_field ''lastMergedVersion'' (map_option jint (su_lastMergedVersion s))
     @ optional_field ''bbox'' (map_option (\<lambda>b. JObj [(''min'', pair_json (fst b)), (''max'', pair_json (snd b))]) (su_bbox s)))"

definition mission_state_json :: "mission_state \<Rightarrow> json" where
  "mission_state_json s = JObj ([(''missionId'', JStr (ms_missionId s)), (''phase'', JStr (phase_str (ms_phase s)))]
     @ optional_field ''scenario'' (map_option JStr (ms_scenario s))
     @ [(''createdAtMs'', jint (ms_createdAtMs s)), (''updatedAtMs'', jint (ms_updatedAtMs s)),
        (''roster'', dict_json roster_entry_json (ms_roster s)), (''targets'', dict_json sar_target_json (ms_targets s)),
        (''assignments'', dict_json assignment_json (ms_assignments s)), (''mapSummary'', map_summary_json (ms_mapSummary s)),
        (''alerts'', JArr (map alert_json (ms_alerts s))),
        (''consensusPointer'', JObj [(''sequence'', jint (cp_sequence (ms_consensusPointer s))),
           (''lastEventHash'', JStr (cp_lastEventHash (ms_consensusPointer s)))]),
        (''recoveryCheckpoints'', jstrs (ms_recoveryCheckpoints s))]
     @ optional_field ''connectivityMode'' (map_option mode_json (ms_connectivityMode s))
     @ [(''completedTaskIds'', jstrs (ms_completedTaskIds s))])"

definition fingerprintState :: "(real \<Rightarrow> string) \<Rightarrow> mission_state \<Rightarrow> string" where
  "fingerprintState ns st = stable_string ns (mission_state_json st)"

definition coverage_of_cells :: "real \<Rightarrow> int" where
  "coverage_of_cells cells = min 100 (js_round (if cells > 0 then min 100 (8 + sqrt cells * 4) else 0))"

record replay_envelope =
  rev_mission :: mission_state
  rev_lastCommittedHash :: string
  rev_sequence :: version
  rev_lattice :: lattice_snapshot
  rev_policy :: "mission_policy option"
  rev_ledgerTail :: "chain_event option"
  rev_exploredCells :: real
  rev_coveragePercent :: int
  rev_targets :: "(ident \<times> string \<times> real) list"
  rev_activeTasks :: "(ident \<times> string \<times> ident \<times> string) list"
  rev_alertStream :: "(string \<times> safety_severity \<times> string) list"

definition missionEnvelope :: "mission_state \<Rightarrow> mission_policy option \<Rightarrow> chain_event option \<Rightarrow> replay_envelope" where
  "missionEnvelope st policy tail =
     (let rosterIds = js_keys (ms_roster st); cells = su_cellsKnown (ms_mapSummary st)
      in \<lparr> rev_mission = st, rev_lastCommittedHash = cp_lastEventHash (ms_consensusPointer st),
           rev_sequence = cp_sequence (ms_consensusPointer st),
           rev_lattice = \<lparr> lsn_capturedAtMs = ms_updatedAtMs st, lsn_onlineNodeIds = rosterIds,
             lsn_trustScores = foldl (\<lambda>m i. js_put i 1 m) [] rosterIds, lsn_capacityHints = [] \<rparr>,
           rev_policy = policy, rev_ledgerTail = tail, rev_exploredCells = cells, rev_coveragePercent = coverage_of_cells cells,
           rev_targets = map (\<lambda>t. if st_confirmedByVertex t = Some True then (st_targetId t, ''confirmed'', 1)
                                  else (st_targetId t, ''discovered'', 75 / 100)) (js_values (ms_targets st)),
           rev_activeTasks = map (\<lambda>a. (ta_taskId a, ta_taskType a, ta_nodeId a, ''assigned'')) (js_values (ms_assignments st)),
           rev_alertStream = map (\<lambda>a. (''safety'', if al_level a = AlCritical then SvCritical else SvWarning,
             default_to (al_sourceNodeId a) [])) (ms_alerts st) \<rparr>)"

text \<open>Each mission row must link to the global row before it; a later row of the same hash hides an earlier one in the index.\<close>

definition hash_index :: "chain_event list \<Rightarrow> (string, nat) jsmap" where
  "hash_index globals = foldl (\<lambda>m ie. js_put (mi_eventHash (snd ie)) (fst ie) m) [] (enumerate 0 globals)"

definition row_linked :: "chain_event list \<Rightarrow> chain_event \<Rightarrow> bool" where
  "row_linked globals e =
     (case js_get (hash_index globals) (mi_eventHash e) of
        None \<Rightarrow> False
      | Some idx \<Rightarrow> mi_previousHash e = (if idx > 0 then mi_eventHash (globals ! (idx - 1)) else ''genesis''))"

definition verifyMissionEventsAgainstGlobalChain :: "chain_event list \<Rightarrow> chain_event list \<Rightarrow> bool" where
  "verifyMissionEventsAgainstGlobalChain globals mine = list_all (row_linked globals) mine"

definition isPhaseChange :: "chain_event \<Rightarrow> bool" where
  "isPhaseChange e \<longleftrightarrow> mi_eventType e = ''phase_transition'' \<or> mi_eventType e = ''mission_created''"

definition parseAssignment :: "(real \<Rightarrow> string) \<Rightarrow> chain_event \<Rightarrow> ident \<times> string" where
  "parseAssignment ns e = (payload_text ns e ''nodeId'' (mi_actorId e), payload_text ns e ''taskType'' (payload_text ns e ''taskId'' []))"

text \<open>The UTF-8 bytes of the arrow and of the middle dot.\<close>

definition arrow_text :: string where "arrow_text = map char_of [226, 134, 146 :: nat]"
definition dot_text :: string where "dot_text = map char_of [32, 194, 183, 32 :: nat]"

definition describeKeyMoment :: "(real \<Rightarrow> string) \<Rightarrow> chain_event \<Rightarrow> (string \<times> ident list) option" where
  "describeKeyMoment ns e =
     (let kind = mi_eventType e; txt = payload_text ns e; present = filter (\<lambda>s. s \<noteq> [])
      in if kind = ''target_discovered''
         then Some (mi_actorId e @ '' discovered target '' @ txt ''targetId'' ''?'', present [mi_actorId e])
         else if kind = ''target_confirmed''
         then Some (''Target '' @ txt ''targetId'' ''?'' @ '' confirmed'', present [mi_actorId e, txt ''confirmedBy'' []])
         else if kind = ''phase_transition'' then Some (''Phase '' @ arrow_text @ '' '' @ txt ''toPhase'' ''?'', [])
         else if kind = ''task_assigned''
         then Some (''Task '' @ txt ''taskType'' (txt ''taskId'' []) @ '' '' @ arrow_text @ '' '' @ txt ''nodeId'' [], [txt ''nodeId'' (mi_actorId e)])
         else if kind = ''safety_alert'' then Some (''Safety: '' @ txt ''message'' (txt ''alertId'' ''alert''), [mi_actorId e])
         else if kind = ''extraction_confirmed'' then Some (''Extraction confirmed for target '' @ txt ''targetId'' ''?'', [mi_actorId e])
         else None)"

definition buildPrefixState :: "(real \<Rightarrow> string) \<Rightarrow> (string \<Rightarrow> real option) \<Rightarrow> timestamp \<Rightarrow> chain_event list \<Rightarrow> ident \<Rightarrow> nat \<Rightarrow> mission_state" where
  "buildPrefixState ns rd now ordered missionId prefixLen =
     (let t0 = (case List.find (\<lambda>e. mi_eventType e = ''mission_created'') ordered of
            Some e \<Rightarrow> mi_timestamp e
          | None \<Rightarrow> (case ordered of e # _ \<Rightarrow> mi_timestamp e | [] \<Rightarrow> now))
      in foldl (applyMissionLedgerEvent ns rd) (emptyMissionState missionId t0) (take prefixLen ordered))"

record replay_step =
  rst_eventIndex :: nat
  rst_event :: chain_event
  rst_stateBefore :: mission_state
  rst_stateAfter :: mission_state
  rst_envelopeAfter :: replay_envelope
  rst_phaseChange :: bool
  rst_assignmentChange :: "(ident \<times> string) option"
  rst_safetyEvent :: bool
  rst_debugNotes :: "string list"

definition replay_step_of :: "(real \<Rightarrow> string) \<Rightarrow> (string \<Rightarrow> real option) \<Rightarrow> nat \<Rightarrow> chain_event \<Rightarrow> mission_state \<Rightarrow> replay_step" where
  "replay_step_of ns rd index e before =
     (let after = applyMissionLedgerEvent ns rd before e;
          policy = tryCompile (Some (default_to (ms_scenario after) ''collapsed_building''))
      in \<lparr> rst_eventIndex = index, rst_event = e, rst_stateBefore = before, rst_stateAfter = after,
           rst_envelopeAfter = missionEnvelope after policy (Some e), rst_phaseChange = isPhaseChange e,
           rst_assignmentChange = (if mi_eventType e = ''task_assigned'' then Some (parseAssignment ns e) else None),
           rst_safetyEvent = (mi_eventType e = ''safety_alert''),
           rst_debugNotes = [''Event @'' @ show_nat index @ '': '' @ mi_eventType e, ''Actor: '' @ mi_actorId e,
             ''Roster: '' @ show_nat (length (ms_roster after)), ''Targets: '' @ show_nat (length (ms_targets after)),
             ''Alerts: '' @ show_nat (length (ms_alerts after))] \<rparr>)"

fun replay_steps :: "(real \<Rightarrow> string) \<Rightarrow> (string \<Rightarrow> real option) \<Rightarrow> nat \<Rightarrow> chain_event list \<Rightarrow> mission_state \<Rightarrow> replay_step list \<times> mission_state" where
  "replay_steps ns rd i [] st = ([], st)"
| "replay_steps ns rd i (e # es) st =
     (let step = replay_step_of ns rd i e st; (steps, final) = replay_steps ns rd (i + 1) es (rst_stateAfter step)
      in (step # steps, final))"

record mission_replay_report =
  mrp_missionId :: ident
  mrp_totalEvents :: nat
  mrp_phaseHistory :: "string list"
  mrp_keyMoments :: "(timestamp \<times> string \<times> ident list) list"
  mrp_deterministic :: bool
  mrp_consensusOrderValid :: bool
  mrp_finalMapConsistent :: bool
  mrp_operatorSummary :: string
  mrp_finalStateFingerprint :: string

definition discovered_ids :: "(real \<Rightarrow> string) \<Rightarrow> chain_event list \<Rightarrow> ident list" where
  "discovered_ids ns ordered =
     dedup (filter (\<lambda>i. i \<noteq> []) (map (\<lambda>e. payload_text ns e ''targetId'' []) (filter (\<lambda>e. mi_eventType e = ''target_discovered'') ordered)))"

definition generateReport :: "(string \<Rightarrow> string) \<Rightarrow> (real \<Rightarrow> string) \<Rightarrow> (string \<Rightarrow> real option) \<Rightarrow> timestamp \<Rightarrow> mission_ledger \<Rightarrow> ident \<Rightarrow>
    chain_event list \<Rightarrow> chain_event list \<Rightarrow> replay_step list \<Rightarrow> mission_state \<Rightarrow> mission_replay_report" where
  "generateReport H ns rd now lg missionId ordered window steps finalState =
     (let discovered = discovered_ids ns ordered;
          incremental = foldl (applyMissionLedgerEvent ns rd) (buildPrefixState ns rd now ordered missionId 0) ordered;
          deterministic = (fingerprintState ns incremental = fingerprintState ns (replayMissionFromLedger ns rd now lg missionId))
      in \<lparr> mrp_missionId = missionId, mrp_totalEvents = length steps,
           mrp_phaseHistory = map (\<lambda>s. mi_eventType (rst_event s)) (filter rst_phaseChange steps),
           mrp_keyMoments = List.map_filter (\<lambda>e. map_option (\<lambda>m. (mi_timestamp e, fst m, snd m)) (describeKeyMoment ns e)) window,
           mrp_deterministic = deterministic,
           mrp_consensusOrderValid = (verifyChain H ns lg = ChainOk \<and> verifyMissionEventsAgainstGlobalChain lg ordered),
           mrp_finalMapConsistent = (length discovered = 0 \<or> length discovered = length (js_keys (ms_targets finalState))),
           mrp_operatorSummary = str_join dot_text [show_nat (length steps) @ '' step(s) in window'',
             show_nat (length ordered) @ '' total mission events'', ''phase: '' @ phase_str (ms_phase finalState),
             if deterministic then ''replay matches full fold'' else ''replay drift vs full fold''],
           mrp_finalStateFingerprint = fingerprintState ns finalState \<rparr>)"

definition replayMission :: "(string \<Rightarrow> string) \<Rightarrow> (real \<Rightarrow> string) \<Rightarrow> (string \<Rightarrow> real option) \<Rightarrow> timestamp \<Rightarrow> mission_ledger \<Rightarrow> ident \<Rightarrow> int \<Rightarrow> int option \<Rightarrow>
    replay_step list \<times> mission_replay_report" where
  "replayMission H ns rd now lg missionId fromEvent toEvent =
     (let ordered = eventsForMission missionId lg; n = int (length ordered);
          from_i = max 0 (min fromEvent n); to_i = max from_i (min (default_to toEvent n) n);
          window = drop (nat from_i) (take (nat to_i) ordered);
          (steps, final) = replay_steps ns rd (nat from_i) window (buildPrefixState ns rd now ordered missionId (nat from_i))
      in (steps, generateReport H ns rd now lg missionId ordered window steps final))"

subsection \<open>What a recovery catches up\<close>

lemma find_index_last:
  "xs \<noteq> [] \<Longrightarrow> distinct (map h xs) \<Longrightarrow> find_index (\<lambda>e. h e = h (last xs)) xs = int (length xs) - 1"
proof (induction xs)
  case (Cons x xs)
  then show ?case by (cases "xs = []") (auto simp: Let_def dest: last_in_set)
qed simp

lemma lag_at_tail:
  assumes "distinct (map mi_eventHash events)" "''genesis'' \<notin> mi_eventHash ` set events"
  shows "lag_at events (if events = [] then ''genesis'' else mi_eventHash (last events)) = 0"
proof (cases "events = []")
  case False
  then have "mi_eventHash (last events) \<noteq> ''genesis''" using assms(2) by (metis image_eqI last_in_set)
  with False find_index_last [OF False assms(1)] show ?thesis by (simp add: lag_at_def missionCheckpointIndex_def Let_def)
qed (simp add: lag_at_def missionCheckpointIndex_def)

lemma missionTailHash_eq:
  "missionTailHash m lg = (if eventsForMission m lg = [] then ''genesis'' else mi_eventHash (last (eventsForMission m lg)))"
  by (simp add: missionTailHash_def Let_def)

lemma local_checkpoint_advanced:
  "Option.bind ctx rcx_localCheckpointEventHash = None \<Longrightarrow>
    getLocalCheckpoint ns lg m n ctx (advanceLocalTail lg m n rm) = missionTailHash m lg"
  by (simp add: getLocalCheckpoint_def advanceLocalTail_def js_map_simps)

lemma recoverNode_parts:
  assumes "recoverNode fx rep ns lg n m mission now ctx rm g = (report, rm', g')"
  obtains st k rm1 where
    "catch_up rep ns lg n m (js_keys (ms_roster mission)) (lag_at (eventsForMission m lg) (getLocalCheckpoint ns lg m n ctx rm))
       (getPeerSyncCount n (js_keys (ms_roster mission)) now 30000 g) ctx rm g = (st, k, rm1, g')"
    "nrc_currentState report = (if computeMapLag n mission ctx \<ge> MAP_DEGRADED_PCT \<and> (st = NrRecovered \<or> st = NrSyncing) then NrDegraded else st)"
    "rdg_initialCheckpointLag (nrc_diagnostics report) = lag_at (eventsForMission m lg) (getLocalCheckpoint ns lg m n ctx rm)"
    "rdg_checkpointLag (nrc_diagnostics report) = lag_at (eventsForMission m lg) (getLocalCheckpoint ns lg m n ctx rm1)"
    "rdg_replayedEvents (nrc_diagnostics report) = k" "rdg_pendingTrustRevalidation (nrc_diagnostics report) = False"
    "rm' = logRecoveryEvent report rm1"
proof -
  obtain st k rm1 g1 where c: "catch_up rep ns lg n m (js_keys (ms_roster mission)) (lag_at (eventsForMission m lg) (getLocalCheckpoint ns lg m n ctx rm))
       (getPeerSyncCount n (js_keys (ms_roster mission)) now 30000 g) ctx rm g = (st, k, rm1, g1)" by (metis prod_cases4)
  from assms have "g' = g1" "rm' = logRecoveryEvent report rm1" by (auto simp: recoverNode_def Let_def c)
  moreover have "nrc_currentState report = (if computeMapLag n mission ctx \<ge> MAP_DEGRADED_PCT \<and> (st = NrRecovered \<or> st = NrSyncing) then NrDegraded else st)"
    "rdg_initialCheckpointLag (nrc_diagnostics report) = lag_at (eventsForMission m lg) (getLocalCheckpoint ns lg m n ctx rm)"
    "rdg_checkpointLag (nrc_diagnostics report) = lag_at (eventsForMission m lg) (getLocalCheckpoint ns lg m n ctx rm1)"
    "rdg_replayedEvents (nrc_diagnostics report) = k" "rdg_pendingTrustRevalidation (nrc_diagnostics report) = False"
    using assms by (auto simp: recoverNode_def Let_def c computeResidualLag_def)
  ultimately show thesis using c by (intro that) simp_all
qed

lemma lag_at_nonneg: "0 \<le> lag_at events h"
  by (simp add: lag_at_def Let_def)

text \<open>
  A recovery reports a stale node exactly when it is more than 100 rows behind, and never the states that stand for work in
  progress nor a pending trust check. Unless the node is stale or isolated the local tail is brought to the end of the
  mission, provided the caller did not name the checkpoint itself and no two rows share a hash.
\<close>

theorem recovery_catches_up:
  assumes "distinct (map mi_eventHash (eventsForMission m lg))" "''genesis'' \<notin> mi_eventHash ` set (eventsForMission m lg)"
    and "Option.bind ctx rcx_localCheckpointEventHash = None"
    and "recoverNode fx rep ns lg n m mission now ctx rm g = (report, rm', g')"
  shows "(nrc_currentState report = NrStale) = (rdg_initialCheckpointLag (nrc_diagnostics report) > 100)
    \<and> nrc_currentState report \<notin> {NrReplaying, NrRevalidating} \<and> \<not> rdg_pendingTrustRevalidation (nrc_diagnostics report)
    \<and> rdg_checkpointLag (nrc_diagnostics report) =
      (if nrc_currentState report \<in> {NrStale, NrIsolated} then rdg_initialCheckpointLag (nrc_diagnostics report) else 0)"
proof -
  obtain st k rm1 where c: "catch_up rep ns lg n m (js_keys (ms_roster mission)) (lag_at (eventsForMission m lg) (getLocalCheckpoint ns lg m n ctx rm))
       (getPeerSyncCount n (js_keys (ms_roster mission)) now 30000 g) ctx rm g = (st, k, rm1, g')"
    and r: "nrc_currentState report = (if computeMapLag n mission ctx \<ge> MAP_DEGRADED_PCT \<and> (st = NrRecovered \<or> st = NrSyncing) then NrDegraded else st)"
      "rdg_initialCheckpointLag (nrc_diagnostics report) = lag_at (eventsForMission m lg) (getLocalCheckpoint ns lg m n ctx rm)"
      "rdg_checkpointLag (nrc_diagnostics report) = lag_at (eventsForMission m lg) (getLocalCheckpoint ns lg m n ctx rm1)"
      "rdg_pendingTrustRevalidation (nrc_diagnostics report) = False"
    by (rule recoverNode_parts [OF assms(4)])
  have tail: "lag_at (eventsForMission m lg) (getLocalCheckpoint ns lg m n ctx (advanceLocalTail lg m n rm)) = 0"
    unfolding local_checkpoint_advanced [OF assms(3)] missionTailHash_eq by (rule lag_at_tail [OF assms(1,2)])
  show ?thesis
    using c r tail lag_at_nonneg [of "eventsForMission m lg" "getLocalCheckpoint ns lg m n ctx rm"]
    by (auto simp: catch_up_def STALE_LAG_def REPLAY_LAG_def split: if_splits)
qed

theorem recovery_catches_up_witness:
  "(let lg = [toy_row ''mission_created'' []];
        (report, rm', g') = recoverNode (\<lambda>d x. []) True (\<lambda>r. []) lg ''n1'' ''m1'' (emptyMissionState ''m1'' 0) 7 None new_recovery_manager new_trust_registry
    in rdg_checkpointLag (nrc_diagnostics report) = (if nrc_currentState report \<in> {NrStale, NrIsolated} then rdg_initialCheckpointLag (nrc_diagnostics report) else 0))"
proof -
  let ?lg = "[toy_row ''mission_created'' []]"
  obtain report rm' g' where r: "recoverNode (\<lambda>d x. []) True (\<lambda>r. []) ?lg ''n1'' ''m1'' (emptyMissionState ''m1'' 0) 7 None
      new_recovery_manager new_trust_registry = (report, rm', g')" by (metis prod_cases3)
  have "distinct (map mi_eventHash (eventsForMission ''m1'' ?lg))" "''genesis'' \<notin> mi_eventHash ` set (eventsForMission ''m1'' ?lg)"
    by (simp_all add: eventsForMission_def toy_row_def)
  from recovery_catches_up [OF this _ r] show ?thesis by (simp add: r)
qed

text \<open>
  When the caller names the local checkpoint, the recovery reports the lag it started with as the lag that remains, also for
  a node it calls recovered: the advanced tail is not read back.
\<close>

theorem named_checkpoint_never_advances:
  "(let ctx = Some \<lparr> rcx_localCheckpointEventHash = Some (c # cs), rcx_localMapCells = cells, rcx_initialHandshake = b \<rparr>;
        report = fst (recoverNode fx rep ns lg n m mission now ctx rm g)
    in rdg_checkpointLag (nrc_diagnostics report) = rdg_initialCheckpointLag (nrc_diagnostics report))"
proof -
  let ?ctx = "Some \<lparr> rcx_localCheckpointEventHash = Some (c # cs), rcx_localMapCells = cells, rcx_initialHandshake = b \<rparr>"
  obtain report rm' g' where r: "recoverNode fx rep ns lg n m mission now ?ctx rm g = (report, rm', g')" by (metis prod_cases3)
  have named: "getLocalCheckpoint ns lg m n ?ctx x = c # cs" for x by (simp add: getLocalCheckpoint_def)
  show ?thesis by (rule recoverNode_parts [OF r]) (simp add: r named)
qed

subsection \<open>Safety alerts\<close>

lemma pick_spec:
  "(case pickHighestSeverity xs of None \<Rightarrow> xs = []
    | Some a \<Rightarrow> a \<in> set xs \<and> (sfe_severity a = SvCritical) = list_ex (\<lambda>x. sfe_severity x = SvCritical) xs)"
proof (cases "xs = []")
  case False
  let ?lt = "by_desc (\<lambda>a. SEVERITY_RANK (sfe_severity a)) :: safety_event \<Rightarrow> safety_event \<Rightarrow> bool"
  obtain a rest where a: "js_sort ?lt xs = a # rest" using False by (cases "js_sort ?lt xs") auto
  from descending.js_sort_head_least [OF a] have "a \<in> set xs" "\<And>x. x \<in> set xs \<Longrightarrow> SEVERITY_RANK (sfe_severity x) \<le> SEVERITY_RANK (sfe_severity a)"
    by (auto simp: by_desc_def not_less)
  note a' = this
  have rank: "SEVERITY_RANK SvCritical \<le> SEVERITY_RANK s \<longleftrightarrow> s = SvCritical" for s by (cases s) simp_all
  have "sfe_severity a = SvCritical" if "x \<in> set xs" "sfe_severity x = SvCritical" for x
    using a'(2) [OF that(1)] rank unfolding that(2) by blast
  then have "(sfe_severity a = SvCritical) = list_ex (\<lambda>x. sfe_severity x = SvCritical) xs"
    using a'(1) unfolding list_ex_iff by blast
  with False a a'(1) show ?thesis by (simp add: pickHighestSeverity_def)
qed (simp add: pickHighestSeverity_def)

definition reads :: "real option \<Rightarrow> (real \<Rightarrow> bool) \<Rightarrow> bool" where
  "reads v P = (case v of Some x \<Rightarrow> P x | None \<Rightarrow> False)"

text \<open>
  Telemetry raises an alert exactly when some reading crosses its threshold, and the alert is critical exactly when the geofence, gas
  or water reading does: a critical crossing is never hidden by a warning.
\<close>

theorem assessment_exact:
  "(let critical = reads (sft_distanceFromGeofence tel) (\<lambda>x. x < 5) \<or> reads (sft_gasLevel tel) (\<lambda>x. x > 50)
          \<or> reads (sft_waterLevel tel) (\<lambda>x. x > 85 / 100);
        warning = reads (nullish (sft_batteryReserve tel) (sft_battery tel)) (\<lambda>x. x < pol_batteryThreshold policy)
          \<or> reads (sft_temperatureC tel) (\<lambda>x. x > 48) \<or> reads (sft_linkQuality tel) (\<lambda>x. x < 12 / 100)
    in case assessTelemetry policy t nodeId tel of
         None \<Rightarrow> \<not> critical \<and> \<not> warning
       | Some a \<Rightarrow> (critical \<or> warning) \<and> (sfe_severity a = SvCritical) = critical \<and> sfe_nodeId a = nodeId)"
proof -
  let ?xs = "telemetry_alerts policy t nodeId tel"
  have nil: "when_num v P f = [] \<longleftrightarrow> \<not> reads v P" and crit: "list_ex Q (when_num v P f) \<longleftrightarrow> reads v (\<lambda>x. P x \<and> Q (f x))" for v P f Q
    by (auto simp: when_num_def reads_def split: option.split)
  have node: "list_all (\<lambda>a. sfe_nodeId a = nodeId) ?xs"
    by (auto simp: telemetry_alerts_def when_num_def safety_alert_of_def split: option.split)
  have c: "list_ex (\<lambda>x. sfe_severity x = SvCritical) ?xs = (reads (sft_distanceFromGeofence tel) (\<lambda>x. x < 5)
      \<or> reads (sft_gasLevel tel) (\<lambda>x. x > 50) \<or> reads (sft_waterLevel tel) (\<lambda>x. x > 85 / 100))"
    unfolding telemetry_alerts_def list_ex_append crit by (simp add: safety_alert_of_def reads_def split: option.split)
  have n: "?xs = [] \<longleftrightarrow> \<not> (reads (nullish (sft_batteryReserve tel) (sft_battery tel)) (\<lambda>x. x < pol_batteryThreshold policy)
      \<or> reads (sft_distanceFromGeofence tel) (\<lambda>x. x < 5) \<or> reads (sft_gasLevel tel) (\<lambda>x. x > 50) \<or> reads (sft_temperatureC tel) (\<lambda>x. x > 48)
      \<or> reads (sft_waterLevel tel) (\<lambda>x. x > 85 / 100) \<or> reads (sft_linkQuality tel) (\<lambda>x. x < 12 / 100))"
    unfolding telemetry_alerts_def append_is_Nil_conv nil by blast
  show ?thesis
  proof (cases "pickHighestSeverity ?xs")
    case None
    with pick_spec [of ?xs] n show ?thesis by (simp add: assessTelemetry_def)
  next
    case (Some a)
    with pick_spec [of ?xs] have a: "a \<in> set ?xs" "(sfe_severity a = SvCritical) = list_ex (\<lambda>x. sfe_severity x = SvCritical) ?xs" by simp_all
    then have "?xs \<noteq> []" "sfe_nodeId a = nodeId" using node by (auto simp: list_all_iff)
    then show ?thesis using a(2) n unfolding assessTelemetry_def Let_def Some option.case c by blast
  qed
qed

definition alert_row :: "(string \<Rightarrow> string) \<Rightarrow> (real \<Rightarrow> string) \<Rightarrow> mission_ledger \<Rightarrow> ident \<Rightarrow> safety_event \<Rightarrow> timestamp \<Rightarrow> chain_event" where
  "alert_row H ns lg m e t = mission_event_input.extend (alert_input lg m e t)
     \<lparr> mi_eventHash = computeEventHash H ns (tailHash lg) (event_core (alert_input lg m e t)) \<rparr>"

lemma escalate_eq:
  "escalate H ns m e t lg g =
     (let delta = (if sfe_severity e = SvCritical then - 24 else - 8)
      in (Inr \<lparr> sfs_activeAlerts = [e], sfs_escalatedCount = 1, sfs_emergencyMode = (sfe_severity e = SvCritical),
             sfs_trustImpact = [(sfe_nodeId e, delta)], sfs_committedEventHash = Some (mi_eventHash (alert_row H ns lg m e t)) \<rparr>,
           lg @ [alert_row H ns lg m e t], adjustTrust (sfe_nodeId e) delta g))"
  by (simp add: escalate_def append_mission_event_snd alert_row_def alert_input_def Let_def)

lemma alert_row_fields:
  "mi_missionId (alert_row H ns lg m e t) = m" "mi_actorId (alert_row H ns lg m e t) = sfe_nodeId e"
  "mi_eventType (alert_row H ns lg m e t) = ''safety_alert''" "mi_timestamp (alert_row H ns lg m e t) = t"
  "mi_payload (alert_row H ns lg m e t) = mi_payload (alert_input lg m e t)"
  by (simp_all add: alert_row_def alert_input_def mission_event_input.defs)

lemma infer_kinds:
  "mi_payload e = p \<Longrightarrow> js_get p ''kind'' = Some (JStr (safety_type_str k)) \<Longrightarrow> js_get p ''message'' = Some (JStr (safety_type_str k)) \<Longrightarrow>
    inferAlertType ns e = k"
  by (cases k) (simp_all add: inferAlertType_def payload_lower_def payload_text_def payload_at_def to_lower_def ascii_lower_def Let_def)

lemma alert_row_read:
  "safetyEventFromLedger ns (alert_row H ns lg m e t) =
     Some (e\<lparr> sfe_timestamp := t, sfe_payload := mi_payload (alert_row H ns lg m e t) \<rparr>)"
proof -
  have "inferAlertType ns (alert_row H ns lg m e t) = sfe_type e"
    by (rule infer_kinds [OF alert_row_fields(5)]) (simp_all add: alert_input_def)
  moreover have "ledgerLevelToSeverity (js_get (mi_payload (alert_row H ns lg m e t)) ''level'') = sfe_severity e"
    by (cases "sfe_severity e") (simp_all add: alert_row_fields alert_input_def ledgerLevelToSeverity_def)
  ultimately show ?thesis by (simp add: safetyEventFromLedger_def alert_row_fields) (simp add: alert_input_def)
qed

text \<open>
  An escalated alert is read back from its ledger row with the same node, kind, severity and required answers. The chain verifies after
  exactly when it did before, the summary counts one more alert, and the mission is in emergency from the first critical alert on.
\<close>

theorem escalation_round_trip:
  "(let (res, lg', g') = escalate H ns m e t lg g; before = getSafetySummary ns m lg; after = getSafetySummary ns m lg'
    in safetyEventFromLedger ns (last lg') = Some (e\<lparr> sfe_timestamp := t, sfe_payload := mi_payload (last lg') \<rparr>)
       \<and> (verifyChain H ns lg' = ChainOk) = (verifyChain H ns lg = ChainOk)
       \<and> sfs_escalatedCount after = sfs_escalatedCount before + 1
       \<and> sfs_emergencyMode after = (sfs_emergencyMode before \<or> sfe_severity e = SvCritical))"
proof -
  let ?r = "alert_row H ns lg m e t"
  have chain: "(verifyChain H ns (lg @ [?r]) = ChainOk) = (verifyChain H ns lg = ChainOk)"
    unfolding verifyChain_def mission_chain.verify_snoc mission_chain_tail
    by (auto simp: alert_row_def alert_input_def mission_event_input.defs event_core_def)
  have rows: "eventsForMission m (lg @ [?r]) = eventsForMission m lg @ [?r]" by (simp add: eventsForMission_def alert_row_fields)
  have "List.map_filter (safetyEventFromLedger ns) (filter (\<lambda>e. mi_eventType e = ''safety_alert'') (eventsForMission m (lg @ [?r])))
      = List.map_filter (safetyEventFromLedger ns) (filter (\<lambda>e. mi_eventType e = ''safety_alert'') (eventsForMission m lg))
        @ [e\<lparr> sfe_timestamp := t, sfe_payload := mi_payload ?r \<rparr>]"
    by (simp add: rows List.map_filter_def alert_row_fields alert_row_read [unfolded alert_row_fields])
  then show ?thesis by (simp add: escalate_eq Let_def getSafetySummary_def chain alert_row_read)
qed

text \<open>
  After a critical alert a node whose trust was at most the default of 100 no longer counts for a hazmat mission, whatever its
  telemetry, until its trust is raised again.
\<close>

theorem critical_alert_bars_hazmat:
  assumes "trust_ok g" "getTrustScore (sfe_nodeId e) g \<le> 100" "sfe_severity e = SvCritical"
  shows "\<not> budget_eligible (the (js_get SCENARIO_BUDGETS ''hazmat'')) now staleMs (snd (snd (escalate H ns m e t lg g))) (sfe_nodeId e)"
proof -
  let ?g = "adjustTrust (sfe_nodeId e) (- 24) g" and ?i = "sfe_nodeId e"
  have "getTrustScore ?i ?g \<le> 76" using assms(1,2) by (simp add: getTrustScore_adjust trust_ok_def)
  then have trust: "latticeTrust01 ?i ?g \<le> 76 / 100" by (simp add: latticeTrust01_def getTrustScore_def)
  have risk: "bg_maxRisk (the (js_get SCENARIO_BUDGETS ''hazmat'')) = 1 / 10" by (simp add: SCENARIO_BUDGETS_def budget_def)
  have "latticeTrust01 ?i ?g + 1 / 1000000 < 1 - 1 / 10" using trust by linarith
  then show ?thesis by (simp add: escalate_eq assms(3) Let_def budget_eligible_def risk split: option.split)
qed

theorem critical_alert_bars_hazmat_witness:
  "\<not> budget_eligible (the (js_get SCENARIO_BUDGETS ''hazmat'')) 0 30000
     (snd (snd (escalate (\<lambda>s. s) (\<lambda>r. []) ''m1'' (safety_alert_of ''n1'' 0 GasDetected SvCritical [] []) 0 [] new_trust_registry)))
     (sfe_nodeId (safety_alert_of ''n1'' 0 GasDetected SvCritical [] []))"
  by (rule critical_alert_bars_hazmat)
    (simp_all add: trust_ok_def new_trust_registry_def jsm.invar_empty getTrustScore_def safety_alert_of_def)

subsection \<open>The replay report\<close>

lemma steps_final: "snd (replay_steps ns rd i es st) = foldl (applyMissionLedgerEvent ns rd) st es"
  by (induction es arbitrary: i st) (simp_all add: replay_step_of_def Let_def split_beta)

lemma steps_events: "map rst_event (fst (replay_steps ns rd i es st)) = es"
  by (induction es arbitrary: i st) (simp_all add: replay_step_of_def Let_def split_beta)

lemma steps_length: "length (fst (replay_steps ns rd i es st)) = length es"
  by (induction es arbitrary: i st) (simp_all add: Let_def split_beta)

lemma prefix_is_replay:
  assumes "list_ex (creates_mission m) lg"
  shows "foldl (applyMissionLedgerEvent ns rd) (buildPrefixState ns rd now (eventsForMission m lg) m k) (drop k (eventsForMission m lg))
       = replayMissionFromLedger ns rd now' lg m"
proof -
  let ?rows = "eventsForMission m lg"
  have "List.find (\<lambda>e. mi_eventType e = ''mission_created'') (eventsForMission m es) = List.find (creates_mission m) es" for es
    by (induction es) (auto simp: eventsForMission_def creates_mission_def)
  moreover obtain e where "List.find (creates_mission m) lg = Some e"
    using assms by (cases "List.find (creates_mission m) lg") (auto simp: find_None_iff list_ex_iff)
  ultimately have start: "buildPrefixState ns rd now ?rows m k = foldl (applyMissionLedgerEvent ns rd) (replay_start now' lg m) (take k ?rows)"
    by (simp add: buildPrefixState_def replay_start_def)
  have "foldl (applyMissionLedgerEvent ns rd) (replay_start now' lg m) (take k ?rows @ drop k ?rows) = replay_rows ns rd (replay_start now' lg m) (eventsForMission m ?rows)"
    by (simp only: append_take_drop_id, rule apply_rows_eq) (simp add: replay_start_def emptyMissionState_def)
  moreover have "eventsForMission m ?rows = ?rows" by (simp add: eventsForMission_def)
  ultimately show ?thesis unfolding start by (simp only: foldl_append replay_rows_eq)
qed

text \<open>
  For a mission with a creation row, replaying from any start to the end finishes in the state of the full replay, has one step per row of the
  window, and the report calls the replay deterministic.
\<close>

theorem replay_window_deterministic:
  assumes "list_ex (creates_mission m) lg"
  shows "(let (steps, report) = replayMission H ns rd now lg m fromEvent None; n = length (eventsForMission m lg); k = min (nat fromEvent) n
    in map rst_event steps = drop k (eventsForMission m lg) \<and> mrp_totalEvents report = n - k \<and> mrp_deterministic report
       \<and> mrp_finalStateFingerprint report = fingerprintState ns (replayMissionFromLedger ns rd now lg m))"
proof -
  let ?rows = "eventsForMission m lg"
  have k: "nat (max 0 (min fromEvent (int (length ?rows)))) = min (nat fromEvent) (length ?rows)" by linarith
  have to: "nat (max (max 0 (min fromEvent (int (length ?rows)))) (int (length ?rows))) = length ?rows" by linarith
  have "replayMission H ns rd now lg m fromEvent None =
      (let k = min (nat fromEvent) (length ?rows); steps = fst (replay_steps ns rd k (drop k ?rows) (buildPrefixState ns rd now ?rows m k))
       in (steps, generateReport H ns rd now lg m ?rows (drop k ?rows) steps (replayMissionFromLedger ns rd now lg m)))"
    by (simp add: replayMission_def Let_def k to split_beta steps_final prefix_is_replay [OF assms, where now' = now])
  moreover have "foldl (applyMissionLedgerEvent ns rd) (buildPrefixState ns rd now ?rows m 0) ?rows = replayMissionFromLedger ns rd now lg m"
    using prefix_is_replay [OF assms, of ns rd now 0 now] by simp
  ultimately show ?thesis by (simp add: Let_def generateReport_def steps_events steps_length)
qed

theorem replay_window_deterministic_witness:
  "(let lg = [toy_row ''mission_created'' []]; (steps, report) = replayMission (\<lambda>s. s) (\<lambda>r. []) (\<lambda>s. None) 0 lg ''m1'' 0 None;
        n = length (eventsForMission ''m1'' lg); k = min (nat 0) n
    in map rst_event steps = drop k (eventsForMission ''m1'' lg) \<and> mrp_totalEvents report = n - k \<and> mrp_deterministic report
       \<and> mrp_finalStateFingerprint report = fingerprintState (\<lambda>r. []) (replayMissionFromLedger (\<lambda>r. []) (\<lambda>s. None) 0 lg ''m1''))"
  using replay_window_deterministic [of "''m1''" "[toy_row ''mission_created'' []]" "\<lambda>s. s" "\<lambda>r. []" "\<lambda>s. None" 0 0]
  by (simp only: Let_def) (simp add: toy_row_def creates_mission_def)

text \<open>
  The report of a window that ends before the first row declares the map inconsistent whenever the ledger discovers a target
  anywhere: it compares the discoveries of the whole ledger with the targets at the end of the window.
\<close>

theorem empty_window_flagged:
  "mrp_finalMapConsistent (snd (replayMission H ns rd now lg m 0 (Some 0))) = (discovered_ids ns (eventsForMission m lg) = [])"
proof -
  have "ms_targets (buildPrefixState ns rd now (eventsForMission m lg) m 0) = []"
    by (simp add: buildPrefixState_def emptyMissionState_def Let_def)
  then show ?thesis by (simp add: replayMission_def generateReport_def Let_def js_keys_def)
qed

end
