(* ===== verification/MissionApi.thy ===== *)
theory MissionApi
  imports MissionServices
begin

section \<open>The mission facade and the state envelope\<close>

text \<open>
  Models \<open>api/missions.ts\<close>, \<open>api/nodes.ts\<close>, \<open>api/mission-safety.ts\<close>, \<open>api/snapshot-bridge.ts\<close> and \<open>shared/build-envelope.ts\<close> of
  \<open>src/src/backend\<close>: the calls through which a mission is created, nodes join and report, telemetry raises alerts and phases are
  committed. They compose the ledger, the replay, the registry, the gateway and the safety engine. The lemmas show that
  a ledger grown by these calls keeps a valid chain and moves through the phases as the Vertex contract allows.
\<close>

subsection \<open>Missions\<close>

text \<open>\<open>ledger.append\<close> with the tail of the ledger as previous hash; it never fails (theory \<open>HashChains\<close>).\<close>

definition append_row :: "(string \<Rightarrow> string) \<Rightarrow> (real \<Rightarrow> string) \<Rightarrow> ident \<Rightarrow> ident \<Rightarrow> string \<Rightarrow> control_plane \<Rightarrow> obj \<Rightarrow> timestamp \<Rightarrow> mission_ledger \<Rightarrow> mission_ledger" where
  "append_row H ns missionId actorId kind plane payload t lg =
     snd (append_mission_event H ns \<lparr> mi_missionId = missionId, mi_actorId = actorId, mi_eventType = kind, mi_plane = plane,
        mi_payload = payload, mi_timestamp = t, mi_previousHash = tailHash lg \<rparr> lg)"

definition bootstrapMission :: "(string \<Rightarrow> string) \<Rightarrow> (real \<Rightarrow> string) \<Rightarrow> ident \<Rightarrow> ident \<Rightarrow> timestamp \<Rightarrow> string option \<Rightarrow> mission_ledger \<times> string" where
  "bootstrapMission H ns missionId actorId nowMs scenario =
     (let lg = append_row H ns missionId actorId ''mission_created'' PlaneVertex
            ([(''phase'', JStr ''init''), (''name'', JStr missionId)] @ optional_field ''scenario'' (map_option JStr scenario)) nowMs []
      in (lg, mi_eventHash (last lg)))"

definition gate_context :: "mission_state \<Rightarrow> lattice_snapshot \<Rightarrow> phase_gate_context" where
  "gate_context mission snap =
     (let roster = ms_roster mission;
          cap = (\<lambda>w r. list_ex (\<lambda>c. str_includes (to_lower c) w) (re_capabilities r));
          some = (\<lambda>P. list_ex P (js_values roster))
      in \<lparr> peerCount = int (max (length (js_keys roster)) (length (lsn_onlineNodeIds snap))),
           hasThermal = some (cap ''thermal''), hasRelay = some (\<lambda>r. re_role r = MrRelay \<or> cap ''relay'' r),
           hasCarrier = some (\<lambda>r. re_role r = MrCarrier \<or> cap ''carrier'' r) \<rparr>)"

text \<open>
  The first component is the outcome: \<open>Inl reason\<close> for \<open>{ ok: false, reason }\<close>, \<open>Inr ()\<close> for \<open>{ ok: true }\<close>. A scenario without a
  budget, which the parameter type rules out, would throw; the model reports it as a refusal of its own.
\<close>

definition proposeAndCommitPhaseTransition :: "(string \<Rightarrow> string) \<Rightarrow> (real \<Rightarrow> string) \<Rightarrow> (string \<Rightarrow> real option) \<Rightarrow> trust_registry \<Rightarrow> ident \<Rightarrow> ident \<Rightarrow>
    mission_phase \<Rightarrow> timestamp \<Rightarrow> string option \<Rightarrow> obj option \<Rightarrow> mission_ledger \<Rightarrow> (string + unit) \<times> mission_ledger" where
  "proposeAndCommitPhaseTransition H ns rd g missionId actorId toPhase nowMs latticeScenario extra lg =
     (let mission = replayMissionFromLedger ns rd nowMs lg missionId;
          fromPhase = ms_phase mission;
          scenarioGate = nullish latticeScenario (ms_scenario mission);
          budget = (case scenarioGate of
              Some s \<Rightarrow> (if s = [] then Inr ()
                else default_to (validateScenarioBudget s mission nowMs 30000 g) (Inl ''budget_undefined''))
            | None \<Rightarrow> Inr ());
          snap = exportSnapshot nowMs (default_to scenarioGate ''collapsed_building'') g;
          gate = latticePhaseReadiness toPhase (gate_context mission snap)
      in case budget of
           Inl reason \<Rightarrow> (Inl reason, lg)
         | Inr _ \<Rightarrow>
             if \<not> fst gate then (Inl (default_to (snd gate) ''lattice_gate''), lg)
             else (case suggestPhaseTransition missionId actorId fromPhase toPhase nowMs extra of
                     Inl err \<Rightarrow> (Inl err, lg)
                   | Inr sug \<Rightarrow>
                       (case commitVertexBatch H ns lg [sug] of
                          (Inl err, lg') \<Rightarrow> (Inl err, lg')
                        | (Inr evs, lg') \<Rightarrow> (Inr (), lg'))))"

subsection \<open>Nodes\<close>

definition heartbeat_fields :: "telemetry_patch \<Rightarrow> obj" where
  "heartbeat_fields tel = optional_field ''batteryReserve'' (map_option JNum (tp_batteryReserve tel))
     @ optional_field ''linkQuality'' (map_option JNum (tp_linkQuality tel)) @ optional_field ''sensors'' (map_option jstrs (tp_sensors tel))"

definition latticeRecordHeartbeat :: "(string \<Rightarrow> string) \<Rightarrow> (real \<Rightarrow> string) \<Rightarrow> ident \<Rightarrow> ident \<Rightarrow> timestamp \<Rightarrow> telemetry_patch \<Rightarrow>
    mission_ledger \<times> trust_registry \<Rightarrow> mission_ledger \<times> trust_registry" where
  "latticeRecordHeartbeat H ns missionId nodeId nowMs tel lgg =
     (let (lg, g) = lgg
      in (append_row H ns missionId nodeId ''node_heartbeat'' PlaneLattice ((''nodeId'', JStr nodeId) # heartbeat_fields tel) nowMs lg,
          node_heartbeat nodeId tel nowMs g))"

definition commitNodeJoin :: "(string \<Rightarrow> string) \<Rightarrow> (real \<Rightarrow> string) \<Rightarrow> ident \<Rightarrow> roster_entry \<Rightarrow> timestamp \<Rightarrow>
    mission_ledger \<times> trust_registry \<Rightarrow> mission_ledger \<times> trust_registry" where
  "commitNodeJoin H ns missionId entry nowMs lgg =
     (let (lg, g) = lgg
      in (append_row H ns missionId (re_nodeId entry) ''node_join'' PlaneVertex
            [(''nodeId'', JStr (re_nodeId entry)), (''role'', role_json (re_role entry)), (''capabilities'', jstrs (re_capabilities entry))] nowMs lg,
          addOrUpdateRosterEntry entry g))"

subsection \<open>Rows and phases\<close>

definition api_row :: "(string \<Rightarrow> string) \<Rightarrow> (real \<Rightarrow> string) \<Rightarrow> ident \<Rightarrow> ident \<Rightarrow> string \<Rightarrow> control_plane \<Rightarrow> obj \<Rightarrow> timestamp \<Rightarrow> mission_ledger \<Rightarrow> chain_event" where
  "api_row H ns m a kind plane payload t lg =
     (let input = \<lparr> mi_missionId = m, mi_actorId = a, mi_eventType = kind, mi_plane = plane, mi_payload = payload, mi_timestamp = t,
          mi_previousHash = tailHash lg \<rparr>
      in mission_event_input.extend input \<lparr> mi_eventHash = computeEventHash H ns (tailHash lg) (event_core input) \<rparr>)"

lemma append_row_eq: "append_row H ns m a kind plane payload t lg = lg @ [api_row H ns m a kind plane payload t lg]"
  by (simp add: append_row_def api_row_def append_mission_event_snd Let_def)

lemma api_row_fields [simp]:
  "mi_missionId (api_row H ns m a kind plane payload t lg) = m" "mi_actorId (api_row H ns m a kind plane payload t lg) = a"
  "mi_eventType (api_row H ns m a kind plane payload t lg) = kind" "mi_plane (api_row H ns m a kind plane payload t lg) = plane"
  "mi_payload (api_row H ns m a kind plane payload t lg) = payload" "mi_timestamp (api_row H ns m a kind plane payload t lg) = t"
  by (simp_all add: api_row_def mission_event_input.defs Let_def)

lemma api_row_verifies: "verifyChain H ns (lg @ [api_row H ns m a kind plane payload t lg]) = ChainOk \<longleftrightarrow> verifyChain H ns lg = ChainOk"
  unfolding verifyChain_def mission_chain.verify_snoc mission_chain_tail
  by (auto simp: api_row_def mission_event_input.defs event_core_def Let_def)

definition phase_of :: "(real \<Rightarrow> string) \<Rightarrow> (string \<Rightarrow> real option) \<Rightarrow> mission_ledger \<Rightarrow> ident \<Rightarrow> mission_phase" where
  "phase_of ns rd lg m = ms_phase (replayMissionFromLedger ns rd 0 lg m)"

lemma phase_of_any: "ms_phase (replayMissionFromLedger ns rd now lg m) = phase_of ns rd lg m"
  by (simp add: phase_of_def replayed_phase)

lemma phase_of_snoc:
  "phase_of ns rd (lg @ [e]) m = (if mi_missionId e = m then default_to (phase_written e) (phase_of ns rd lg m) else phase_of ns rd lg m)"
  by (simp add: phase_of_def replayed_phase eventsForMission_def default_to_def split: option.split)

lemma other_kinds_keep_phase:
  "mi_eventType e \<noteq> ''mission_created'' \<Longrightarrow> mi_eventType e \<noteq> ''phase_transition'' \<Longrightarrow> phase_of ns rd (lg @ [e]) m = phase_of ns rd lg m"
  by (simp add: phase_of_snoc phase_written_def vertex_kind_def)

lemma asPhase_phase_str: "asPhase (Some (JStr (phase_str p))) = Some p"
  by (cases p) (simp_all add: asPhase_def MISSION_PHASES_def)

definition transition_suggestion :: "ident \<Rightarrow> ident \<Rightarrow> mission_phase \<Rightarrow> mission_phase \<Rightarrow> timestamp \<Rightarrow> obj option \<Rightarrow> vertex_suggestion" where
  "transition_suggestion m a p q t extra =
     \<lparr> vs_missionId = m, vs_actorId = a, vs_eventType = ''phase_transition'',
       vs_payload = obj_spread [(''fromPhase'', JStr (phase_str p)), (''toPhase'', JStr (phase_str q))] (default_to extra []), vs_timestamp = t \<rparr>"

lemma propose_cases:
  obtains reason where "proposeAndCommitPhaseTransition H ns rd g m a q t sc extra lg = (Inl reason, lg)"
  | "proposeAndCommitPhaseTransition H ns rd g m a q t sc extra lg
       = (Inr (), lg @ [sealed_input H ns lg (transition_suggestion m a (phase_of ns rd lg m) q t extra)])"
    "q \<in> set (validVertexNextPhases (phase_of ns rd lg m))"
proof -
  have commit: "commitVertexBatch H ns lg [s] = (Inr [sealed_input H ns lg s], lg @ [sealed_input H ns lg s])" for s
    by (simp add: commitVertexBatch_def append_vertex)
  have "(\<exists>reason. proposeAndCommitPhaseTransition H ns rd g m a q t sc extra lg = (Inl reason, lg))
      \<or> (proposeAndCommitPhaseTransition H ns rd g m a q t sc extra lg
           = (Inr (), lg @ [sealed_input H ns lg (transition_suggestion m a (phase_of ns rd lg m) q t extra)])
         \<and> q \<in> set (validVertexNextPhases (phase_of ns rd lg m)))"
    unfolding proposeAndCommitPhaseTransition_def Let_def phase_of_any suggestPhaseTransition_def transition_suggestion_def
    by (simp add: commit split: sum.split)
  with that show thesis by blast
qed

lemma spread_keeps:
  "js_get extra k = None \<Longrightarrow> js_get (obj_spread base extra) k = js_get base k"
proof -
  assume "js_get extra k = None"
  then have "js_get (rev extra) k = None" by (simp add: map_of_eq_None_iff)
  then show ?thesis unfolding obj_spread_def jsm.lookup_insert_all by (simp add: map_add_def)
qed

lemma phase_after_transition:
  assumes "js_get (default_to extra []) ''toPhase'' = None"
  shows "phase_of ns rd (lg @ [sealed_input H ns lg (transition_suggestion m a p q t extra)]) m = q"
proof -
  let ?e = "sealed_input H ns lg (transition_suggestion m a p q t extra)"
  have "event_of ?e = transition_suggestion m a p q t extra" by (rule event_of_sealed)
  then have f: "mi_missionId ?e = m" "mi_eventType ?e = ''phase_transition''"
      "mi_payload ?e = obj_spread [(''fromPhase'', JStr (phase_str p)), (''toPhase'', JStr (phase_str q))] (default_to extra [])"
    by (simp_all add: event_of_def transition_suggestion_def)
  have "mi_plane ?e = PlaneVertex" by (simp add: sealed_input_def vertex_input_def mission_event_input.defs)
  moreover have "payload_at ?e ''toPhase'' = Some (JStr (phase_str q))"
    unfolding payload_at_def f(3) spread_keeps [OF assms] by simp
  ultimately show ?thesis by (simp add: phase_of_snoc f phase_written_def vertex_kind_def asPhase_phase_str)
qed

text \<open>
  A proposed transition is either refused, and the ledger stays as it is, or committed: then the Vertex contract allows the
  phase after the replayed one, the chain verifies exactly when it did before, and the replayed phase is the proposed one
  unless the extra payload overwrites it.
\<close>

theorem transition_committed_or_refused:
  "(case proposeAndCommitPhaseTransition H ns rd g m a q t sc extra lg of
      (Inl reason, lg') \<Rightarrow> lg' = lg
    | (Inr u, lg') \<Rightarrow> q \<in> set (validVertexNextPhases (phase_of ns rd lg m))
        \<and> (verifyChain H ns lg' = ChainOk) = (verifyChain H ns lg = ChainOk)
        \<and> (if js_get (default_to extra []) ''toPhase'' = None then phase_of ns rd lg' m = q else True))"
  by (rule propose_cases [of H ns rd g m a q t sc extra lg]) (simp_all add: sealed_verifies phase_after_transition)

text \<open>
  C3. The extra payload is spread over the phases after they were checked: a transition from \<open>init\<close> to \<open>discovery\<close> that the
  contract allows can carry a mission straight to \<open>complete\<close>.
\<close>

theorem extra_payload_skips_phases:
  "(let (lg, h) = bootstrapMission H ns m a 0 None; g = node_heartbeat n patch 0 new_trust_registry;
        (res, lg') = proposeAndCommitPhaseTransition H ns rd g m a PDiscovery 1 None (Some [(''toPhase'', JStr ''complete'')]) lg
    in res = Inr () \<and> phase_of ns rd lg m = PInit \<and> phase_of ns rd lg' m = PComplete)"
proof -
  let ?row = "api_row H ns m a ''mission_created'' PlaneVertex [(''phase'', JStr ''init''), (''name'', JStr m)] 0 []"
  let ?extra = "Some [(''toPhase'', JStr ''complete'')]"
  let ?g = "node_heartbeat n patch 0 new_trust_registry"
  have boot: "fst (bootstrapMission H ns m a 0 None) = [?row]" by (simp add: bootstrapMission_def append_row_eq optional_field_def Let_def)
  have empty: "phase_of ns rd [] m = PInit" by (simp add: phase_of_def replayed_phase eventsForMission_def)
  have init: "phase_of ns rd [?row] m = PInit"
    using phase_of_snoc [of ns rd "[]" ?row m] asPhase_phase_str [of PInit]
    by (simp add: phase_written_def vertex_kind_def payload_at_def)
  have scen: "ms_scenario (replayMissionFromLedger ns rd 1 [?row] m) = None"
    by (simp add: replayMissionFromLedger_def applyOne_def applyVertex_def on_mission_created_def is_vertex_kinds replay_start_def emptyMissionState_def
        payload_at_def coerceMissionScenarioKind_def advance_pointer_def Let_def)
  have gate: "latticePhaseReadiness PDiscovery (gate_context mission (exportSnapshot 1 s ?g)) = (True, None)" for mission s
    by (simp add: latticePhaseReadiness_def gate_context_def exportSnapshot_def node_heartbeat_def new_trust_registry_def Let_def)
  let ?e = "sealed_input H ns [?row] (transition_suggestion m a PInit PDiscovery 1 ?extra)"
  have res: "proposeAndCommitPhaseTransition H ns rd ?g m a PDiscovery 1 None ?extra [?row] = (Inr (), [?row, ?e])"
    by (simp add: proposeAndCommitPhaseTransition_def scen gate suggestPhaseTransition_def phase_of_any init commitVertexBatch_def append_vertex
        transition_suggestion_def Let_def)
  have "event_of ?e = transition_suggestion m a PInit PDiscovery 1 ?extra" by (rule event_of_sealed)
  then have f: "mi_missionId ?e = m" "mi_eventType ?e = ''phase_transition''" "js_get (mi_payload ?e) ''toPhase'' = Some (JStr (phase_str PComplete))"
    by (simp_all add: event_of_def transition_suggestion_def obj_spread_def)
  have "mi_plane ?e = PlaneVertex" by (simp add: sealed_input_def vertex_input_def mission_event_input.defs)
  with f have "phase_of ns rd ([?row] @ [?e]) m = PComplete"
    unfolding phase_of_snoc by (simp add: phase_written_def vertex_kind_def payload_at_def asPhase_phase_str del: phase_str.simps)
  then show ?thesis using boot init res by (simp add: Let_def split_beta)
qed

subsection \<open>Runs of calls\<close>

datatype api_call =
    ApHeartbeat ident ident timestamp telemetry_patch
  | ApJoin ident roster_entry timestamp
  | ApTelemetry mission_policy timestamp ident ident safety_telemetry timestamp
  | ApReputation bool ident timestamp
  | ApTransition ident ident mission_phase timestamp "string option" "obj option"

fun api_step :: "(string \<Rightarrow> string) \<Rightarrow> (real \<Rightarrow> string) \<Rightarrow> (string \<Rightarrow> real option) \<Rightarrow> mission_ledger \<times> trust_registry \<Rightarrow> api_call \<Rightarrow> mission_ledger \<times> trust_registry" where
  "api_step H ns rd (lg, g) (ApHeartbeat m n t tel) = latticeRecordHeartbeat H ns m n t tel (lg, g)"
| "api_step H ns rd (lg, g) (ApJoin m entry t) = commitNodeJoin H ns m entry t (lg, g)"
| "api_step H ns rd (lg, g) (ApTelemetry policy clock m n tel t) = snd (processMissionTelemetry H ns policy clock m n tel t lg g)"
| "api_step H ns rd (lg, g) (ApReputation persist m t) =
     (let (g', lg') = syncTrustFromLedgerReputation H ns rd persist m t lg g in (lg', g'))"
| "api_step H ns rd (lg, g) (ApTransition m a q t sc extra) = (snd (proposeAndCommitPhaseTransition H ns rd g m a q t sc extra lg), g)"

fun plain_call :: "api_call \<Rightarrow> bool" where
  "plain_call (ApTransition m a q t sc extra) = (js_get (default_to extra []) ''toPhase'' = None)"
| "plain_call c = True"

definition lawful_ledger :: "(string \<Rightarrow> string) \<Rightarrow> (real \<Rightarrow> string) \<Rightarrow> (string \<Rightarrow> real option) \<Rightarrow> ident \<Rightarrow> mission_ledger \<Rightarrow> bool" where
  "lawful_ledger H ns rd m lg \<longleftrightarrow> verifyChain H ns lg = ChainOk \<and> (\<exists>visited. phase_path validVertexNextPhases visited (phase_of ns rd lg m))"

lemma lawful_other_row:
  "lawful_ledger H ns rd m lg \<Longrightarrow> kind \<noteq> ''mission_created'' \<Longrightarrow> kind \<noteq> ''phase_transition'' \<Longrightarrow>
    lawful_ledger H ns rd m (lg @ [api_row H ns k a kind plane payload t lg])"
  using other_kinds_keep_phase [of "api_row H ns k a kind plane payload t lg"]
  by (simp add: lawful_ledger_def api_row_verifies)

lemma alert_row_api: "alert_row H ns lg m e t = api_row H ns m (sfe_nodeId e) ''safety_alert'' PlaneVertex (mi_payload (alert_input lg m e t)) t lg"
  by (simp add: alert_row_def api_row_def alert_input_def Let_def)

lemma reputation_rows_lawful:
  assumes "lawful_ledger H ns rd m lg" shows "lawful_ledger H ns rd m (snd (score_nodes H ns persist k t is lg))"
proof -
  obtain rs es where e: "score_nodes H ns persist k t is lg = (rs, lg @ es)" "list_all reputation_row es"
    "verifyChain H ns (lg @ es) = ChainOk \<longleftrightarrow> verifyChain H ns lg = ChainOk" by (rule score_nodes_shape)
  have "phase_of ns rd (lg @ es) m = phase_of ns rd lg m" using e(2)
  proof (induction es rule: rev_induct)
    case (snoc x es)
    then show ?case using other_kinds_keep_phase [of x ns rd "lg @ es" m] by (simp add: reputation_row_def)
  qed simp
  with assms e show ?thesis by (simp add: lawful_ledger_def)
qed

lemma api_step_lawful:
  assumes "lawful_ledger H ns rd m (fst s)" "plain_call c" shows "lawful_ledger H ns rd m (fst (api_step H ns rd s c))"
proof -
  obtain lg g where s: "s = (lg, g)" by force
  have ok: "lawful_ledger H ns rd m lg" using assms(1) s by simp
  show ?thesis
  proof (cases c)
    case (ApHeartbeat k n t tel)
    then show ?thesis using lawful_other_row [OF ok] by (simp add: s latticeRecordHeartbeat_def append_row_eq)
  next
    case (ApJoin k entry t)
    then show ?thesis using lawful_other_row [OF ok] by (simp add: s commitNodeJoin_def append_row_eq)
  next
    case (ApTelemetry policy clock k n tel t)
    then show ?thesis using ok lawful_other_row [OF ok]
      by (simp add: s processMissionTelemetry_def escalate_eq alert_row_api Let_def split: option.split)
  next
    case (ApReputation persist k t)
    then show ?thesis using reputation_rows_lawful [OF ok]
      by (simp add: s syncTrustFromLedgerReputation_def getMissionScores_def split_beta)
  next
    case (ApTransition k a q t sc extra)
    then have plain: "js_get (default_to extra []) ''toPhase'' = None" using assms(2) by simp
    obtain visited where path: "phase_path validVertexNextPhases visited (phase_of ns rd lg m)" using ok by (auto simp: lawful_ledger_def)
    show ?thesis
    proof (rule propose_cases [of H ns rd g k a q t sc extra lg])
      fix reason assume "proposeAndCommitPhaseTransition H ns rd g k a q t sc extra lg = (Inl reason, lg)"
      then show ?thesis using ok by (simp add: s ApTransition)
    next
      let ?e = "sealed_input H ns lg (transition_suggestion k a (phase_of ns rd lg k) q t extra)"
      assume res: "proposeAndCommitPhaseTransition H ns rd g k a q t sc extra lg = (Inr (), lg @ [?e])"
        and q: "q \<in> set (validVertexNextPhases (phase_of ns rd lg k))"
      have "\<exists>visited. phase_path validVertexNextPhases visited (phase_of ns rd (lg @ [?e]) m)"
      proof (cases "k = m")
        case True
        then show ?thesis using path_step [OF path] q phase_after_transition [OF plain] by metis
      next
        case False
        have "mi_missionId ?e = k"
          by (simp add: sealed_input_def vertex_input_def transition_suggestion_def mission_event_input.defs)
        with False path show ?thesis by (auto simp: phase_of_snoc)
      qed
      then show ?thesis using ok res by (simp add: s ApTransition lawful_ledger_def sealed_verifies)
    qed
  qed
qed

lemma created_row_phase:
  assumes "js_get payload ''phase'' = Some (JStr ''init'')"
  shows "phase_of ns rd [api_row H ns k a ''mission_created'' PlaneVertex payload t []] m = PInit"
proof -
  let ?row = "api_row H ns k a ''mission_created'' PlaneVertex payload t []"
  have "phase_written ?row = Some PInit"
    using asPhase_phase_str [of PInit] by (simp add: phase_written_def vertex_kind_def payload_at_def assms)
  moreover have "phase_of ns rd [] m = PInit" by (simp add: phase_of_def replayed_phase eventsForMission_def)
  ultimately have "phase_of ns rd ([] @ [?row]) m = PInit" unfolding phase_of_snoc by (simp only: default_to_simps if_cancel)
  then show ?thesis by simp
qed

lemma lawful_bootstrap: "lawful_ledger H ns rd m (fst (bootstrapMission H ns k a t sc))"
proof -
  let ?payload = "[(''phase'', JStr ''init''), (''name'', JStr k)] @ optional_field ''scenario'' (map_option JStr sc)"
  have "phase_of ns rd [api_row H ns k a ''mission_created'' PlaneVertex ?payload t []] m = PInit" by (rule created_row_phase) simp
  moreover have "verifyChain H ns [api_row H ns k a ''mission_created'' PlaneVertex ?payload t []] = ChainOk"
    using api_row_verifies [of H ns "[]"] by (simp add: verifyChain_def)
  ultimately show ?thesis using path_start [of validVertexNextPhases]
    unfolding lawful_ledger_def bootstrapMission_def append_row_eq Let_def fst_conv append_Nil by metis
qed

lemma api_run_lawful:
  "lawful_ledger H ns rd m (fst s) \<Longrightarrow> list_all plain_call calls \<Longrightarrow> lawful_ledger H ns rd m (fst (foldl (api_step H ns rd) s calls))"
  by (induction calls arbitrary: s) (simp_all add: api_step_lawful)



subsection \<open>Joining a mission\<close>

definition declared_role :: "mission_node_role \<Rightarrow> bool" where
  "declared_role r \<longleftrightarrow> (case r of MrCast v \<Rightarrow> False | _ \<Rightarrow> True)"

lemma role_round_trip: "declared_role r \<Longrightarrow> role_json r \<noteq> JNull \<and> role_cast (role_json r) = r"
  by (cases r) (simp_all add: declared_role_def role_json_def role_cast_def)

text \<open>
  C9. A joined node is read back from the ledger: the replayed roster holds its role and capabilities under its identifier, with the time of the
  join, and the registry trusts it as before or fully.
\<close>

theorem join_round_trip:
  assumes "declared_role (re_role entry)" "re_nodeId entry \<noteq> []"
  shows "(let (lg', g') = commitNodeJoin H ns m entry t (lg, g)
    in js_get (ms_roster (replayMissionFromLedger ns rd now lg' m)) (re_nodeId entry) = Some (entry\<lparr> re_joinedAtMs := t \<rparr>)
       \<and> js_get (tr_rosterRef g') (re_nodeId entry) = Some entry \<and> getTrustScore (re_nodeId entry) g' = getTrustScore (re_nodeId entry) g)"
proof -
  let ?row = "api_row H ns m (re_nodeId entry) ''node_join'' PlaneVertex
     [(''nodeId'', JStr (re_nodeId entry)), (''role'', role_json (re_role entry)), (''capabilities'', jstrs (re_capabilities entry))] t lg"
  have strs: "map (js_string ns \<circ> JStr) xs = xs" for xs by (induction xs) simp_all
  have role: "payload_at ?row ''role'' = Some (role_json (re_role entry))" "role_cast (role_json (re_role entry)) = re_role entry"
    using role_round_trip [OF assms(1)] by (auto simp: payload_at_def split: json.split)
  have rows: "eventsForMission m (lg @ [?row]) = eventsForMission m lg @ [?row]" by (simp add: eventsForMission_def)
  have "ms_roster (applyOne ns rd st ?row) = js_put (re_nodeId entry) (entry\<lparr> re_joinedAtMs := t \<rparr>) (ms_roster st)" for st
    using assms(2) by (simp add: applyOne_def applyVertex_def is_vertex_kinds on_node_join_def role advance_pointer_def Let_def)
      (cases entry, simp add: payload_text_def payload_at_def jstrs_def strs)
  then have "js_get (ms_roster (replayMissionFromLedger ns rd now (lg @ [?row]) m)) (re_nodeId entry) = Some (entry\<lparr> re_joinedAtMs := t \<rparr>)"
    by (simp add: replay_rows_eq rows replay_rows_def js_map_simps)
  then show ?thesis
    by (simp add: commitNodeJoin_def append_row_eq addOrUpdateRosterEntry_def trust_default_def getTrustScore_def js_map_simps)
qed

theorem join_round_trip_witness:
  "(let entry = \<lparr> re_nodeId = ''n1'', re_role = MrRelay, re_joinedAtMs = 0, re_capabilities = [''relay''] \<rparr>;
        (lg', g') = commitNodeJoin (\<lambda>s. s) (\<lambda>r. []) ''m1'' entry 5 ([], new_trust_registry)
    in js_get (ms_roster (replayMissionFromLedger (\<lambda>r. []) (\<lambda>s. None) 0 lg' ''m1'')) (re_nodeId entry) = Some (entry\<lparr> re_joinedAtMs := 5 \<rparr>)
       \<and> js_get (tr_rosterRef g') (re_nodeId entry) = Some entry \<and> getTrustScore (re_nodeId entry) g' = getTrustScore (re_nodeId entry) new_trust_registry)"
  unfolding Let_def by (rule join_round_trip [unfolded Let_def]) (simp_all add: declared_role_def)

subsection \<open>The state envelope\<close>

text \<open>The type parameter is that of the settlement manifest, which the envelope only carries.\<close>

record envelope_map =
  emo_exploredCells :: real
  emo_coveragePercent :: int
  emo_targets :: "(ident \<times> string \<times> real) list"

record allocation_preview =
  apv_taskType :: string
  apv_scenario :: string
  apv_ranked :: "allocation_score list"
  apv_topExplanation :: string

record 's tashi_envelope =
  env_mission :: mission_state
  env_lastCommittedHash :: string
  env_sequence :: version
  env_lattice :: lattice_snapshot
  env_settlement :: "'s option"
  env_policy :: "mission_policy option"
  env_budgetCompliance :: "bool option"
  env_ledgerTail :: "chain_event option"
  env_consensusProofs :: "string list"
  env_mapOverview :: envelope_map
  env_activeTasks :: "(ident \<times> string \<times> ident \<times> string) list"
  env_alertStream :: "(string \<times> safety_severity \<times> string) list"
  env_swarmHealth :: swarm_health
  env_replayRoot :: string
  env_syncStatus :: string
  env_recovery :: "(node_recovery list \<times> string) option"
  env_allocationPreview :: "allocation_preview option"
  env_envelopeVersion :: int
  env_capturedAtMs :: timestamp

record 's envelope_options =
  eop_settlement :: "'s option"
  eop_includeRecoveryForRoster :: bool
  eop_recoveryLocalMapCells :: "(ident, real) jsmap"
  eop_allocationTaskType :: "string option"
  eop_allocationTargetCoords :: "(real \<times> real) option"

definition missionLedgerTail :: "mission_ledger \<Rightarrow> ident \<Rightarrow> chain_event option" where
  "missionLedgerTail lg m = (let mine = eventsForMission m lg in if mine \<noteq> [] then Some (last mine) else ledger_head lg)"

definition vertexProofHashes :: "mission_ledger \<Rightarrow> ident \<Rightarrow> nat \<Rightarrow> string list" where
  "vertexProofHashes lg m n = map mi_eventHash (slice_tail n (filter (\<lambda>e. mi_plane e = PlaneVertex) (eventsForMission m lg)))"

text \<open>The recoveries of the roster share one new manager and the registry; no reputation engine is passed.\<close>

fun recover_roster :: "(nat \<Rightarrow> real \<Rightarrow> string) \<Rightarrow> (real \<Rightarrow> string) \<Rightarrow> mission_ledger \<Rightarrow> mission_state \<Rightarrow> timestamp \<Rightarrow> (ident, real) jsmap \<Rightarrow>
    trust_registry \<Rightarrow> ident list \<Rightarrow> recovery_manager \<Rightarrow> node_recovery list" where
  "recover_roster fx ns lg mission nowMs cells g [] rm = []"
| "recover_roster fx ns lg mission nowMs cells g (i # is) rm =
     (let (report, rm', g') = recoverNode fx False ns lg i (ms_missionId mission) mission nowMs
            (Some \<lparr> rcx_localCheckpointEventHash = None, rcx_localMapCells = js_get cells i, rcx_initialHandshake = False \<rparr>) rm g
      in report # recover_roster fx ns lg mission nowMs cells g' is rm')"

definition allocation_preview_of :: "(nat \<Rightarrow> real \<Rightarrow> string) \<Rightarrow> (string \<Rightarrow> string \<Rightarrow> bool) \<Rightarrow> mission_state \<Rightarrow> trust_registry \<Rightarrow> timestamp \<Rightarrow> string \<Rightarrow>
    's envelope_options \<Rightarrow> string + allocation_preview option" where
  "allocation_preview_of fx lc mission g nowMs scenario opts =
     (if default_to (eop_allocationTaskType opts) [] = [] \<and> eop_allocationTargetCoords opts = None then Inr None
      else let taskType = default_to (eop_allocationTaskType opts) ''explorer''
           in case scoreForTask lc (buildAllocationProfiles lc mission g nowMs 30000) taskType scenario mission (eop_allocationTargetCoords opts) of
                Inl err \<Rightarrow> Inl err
              | Inr [] \<Rightarrow> Inr None
              | Inr (best # rest) \<Rightarrow> Inr (Some \<lparr> apv_taskType = taskType, apv_scenario = scenario, apv_ranked = take 8 (best # rest),
                  apv_topExplanation = default_to (explainAssignment fx best scenario) [] \<rparr>))"

text \<open>
  The scenario of a mission is one the replay coerced, so \<open>compile\<close> does not throw on it; the only exception left is that of the
  allocation.
\<close>

definition buildTashiStateEnvelope :: "(nat \<Rightarrow> real \<Rightarrow> string) \<Rightarrow> (string \<Rightarrow> string \<Rightarrow> bool) \<Rightarrow> (real \<Rightarrow> string) \<Rightarrow> mission_state \<Rightarrow> mission_ledger \<Rightarrow>
    trust_registry \<Rightarrow> timestamp \<Rightarrow> 's envelope_options option \<Rightarrow> string + 's tashi_envelope" where
  "buildTashiStateEnvelope fx lc ns mission lg g nowMs opts =
     (let head = ledger_head lg; tail = missionLedgerTail lg (ms_missionId mission);
          scenario = default_to (ms_scenario mission) ''collapsed_building'';
          policy = (case ms_scenario mission of Some s \<Rightarrow> (case compile_policy s of Inr p \<Rightarrow> p | Inl err \<Rightarrow> None) | None \<Rightarrow> None);
          budget = (case ms_scenario mission of Some s \<Rightarrow> validateScenarioBudget s mission nowMs 30000 g | None \<Rightarrow> None);
          cells = su_cellsKnown (ms_mapSummary mission);
          batteryFloor = (case policy of Some p \<Rightarrow> pol_batteryThreshold p | None \<Rightarrow> 2 / 10);
          roster = js_keys (ms_roster mission);
          reports = (case opts of
              Some ops \<Rightarrow> if eop_includeRecoveryForRoster ops \<and> roster \<noteq> []
                then Some (recover_roster fx ns lg mission nowMs (eop_recoveryLocalMapCells ops) g roster new_recovery_manager) else None
            | None \<Rightarrow> None);
          lastHash = default_to (map_option mi_eventHash head) (cp_lastEventHash (ms_consensusPointer mission))
      in case (case opts of Some ops \<Rightarrow> allocation_preview_of fx lc mission g nowMs scenario ops | None \<Rightarrow> Inr None) of
           Inl err \<Rightarrow> Inl err
         | Inr preview \<Rightarrow> Inr
             \<lparr> env_mission = mission, env_lastCommittedHash = lastHash, env_sequence = cp_sequence (ms_consensusPointer mission),
               env_lattice = exportSnapshot nowMs scenario g, env_settlement = Option.bind opts eop_settlement, env_policy = policy,
               env_budgetCompliance = map_option (\<lambda>r. \<not> isl r) budget, env_ledgerTail = tail,
               env_consensusProofs = vertexProofHashes lg (ms_missionId mission) 24,
               env_mapOverview = \<lparr> emo_exploredCells = cells, emo_coveragePercent = coverage_of_cells cells,
                 emo_targets = map (\<lambda>t. if st_confirmedByVertex t = Some True then (st_targetId t, ''confirmed'', 1)
                                        else (st_targetId t, ''provisional'', 55 / 100)) (js_values (ms_targets mission)) \<rparr>,
               env_activeTasks = map (\<lambda>a. (ta_taskId a, ta_taskType a, ta_nodeId a, ''assigned'')) (js_values (ms_assignments mission)),
               env_alertStream = map (\<lambda>a. (if al_message a \<noteq> [] then al_message a else js_string ns (level_json (al_level a)),
                   if al_level a = AlCritical then SvCritical else SvWarning, default_to (al_sourceNodeId a) ''mission'')) (ms_alerts mission),
               env_swarmHealth = swarmHealthSummary mission nowMs 30000 batteryFloor g,
               env_replayRoot = default_to (map_option mi_eventHash tail) lastHash,
               env_syncStatus = (case reports of Some rs \<Rightarrow> recoveryAggregateSyncStatus rs | None \<Rightarrow> ''synced''),
               env_recovery = map_option (\<lambda>rs. (rs, str_join dot_text (map nrc_headline rs))) reports,
               env_allocationPreview = preview, env_envelopeVersion = 1, env_capturedAtMs = nowMs \<rparr>)"

definition missionEnvelopeView :: "(nat \<Rightarrow> real \<Rightarrow> string) \<Rightarrow> (string \<Rightarrow> string \<Rightarrow> bool) \<Rightarrow> (real \<Rightarrow> string) \<Rightarrow> (string \<Rightarrow> real option) \<Rightarrow> mission_ledger \<Rightarrow>
    trust_registry \<Rightarrow> ident \<Rightarrow> timestamp \<Rightarrow> 's envelope_options option \<Rightarrow> string + 's tashi_envelope" where
  "missionEnvelopeView fx lc ns rd lg g m nowMs opts =
     buildTashiStateEnvelope fx lc ns (replayMissionFromLedger ns rd nowMs lg m) lg g nowMs opts"

record sar_projection =
  sap_missionPhase :: string
  sap_ledgerHead :: string
  sap_vertexSequence :: version
  sap_latticeOnline :: nat

definition sarProjectionFromEnvelope :: "'s tashi_envelope \<Rightarrow> sar_projection" where
  "sarProjectionFromEnvelope e =
     \<lparr> sap_missionPhase = phase_str (ms_phase (env_mission e)), sap_ledgerHead = env_lastCommittedHash e, sap_vertexSequence = env_sequence e,
       sap_latticeOnline = length (lsn_onlineNodeIds (env_lattice e)) \<rparr>"

lemma js_round_between: "real_of_int a \<le> x \<Longrightarrow> x \<le> real_of_int b \<Longrightarrow> a \<le> js_round x \<and> js_round x \<le> b"
  using js_round_mono [of "real_of_int a" x] js_round_mono [of x "real_of_int b"] by simp

lemma envelope_coverage_bounds: "0 \<le> coverage_of_cells c \<and> coverage_of_cells c \<le> 100"
proof -
  have "real_of_int 0 \<le> (if c > 0 then min 100 (8 + sqrt c * 4) else 0)" "(if c > 0 then min 100 (8 + sqrt c * 4) else 0) \<le> real_of_int 100"
    by auto
  from js_round_between [OF this] show ?thesis by (simp add: coverage_of_cells_def)
qed

text \<open>
  The envelope of a mission agrees with its replay: phase, sequence and targets are those of the replayed state, the coverage is a percentage,
  one task is shown per assignment, and the building fails only when an allocation preview is asked for.
\<close>

theorem envelope_faithful:
  "(case missionEnvelopeView fx lc ns rd lg g m nowMs opts of
      Inl err \<Rightarrow> opts \<noteq> None
    | Inr e \<Rightarrow> sap_missionPhase (sarProjectionFromEnvelope e) = phase_str (phase_of ns rd lg m)
        \<and> sap_vertexSequence (sarProjectionFromEnvelope e) = int (length (eventsForMission m lg))
        \<and> sap_ledgerHead (sarProjectionFromEnvelope e) = tailHash lg
        \<and> 0 \<le> emo_coveragePercent (env_mapOverview e) \<and> emo_coveragePercent (env_mapOverview e) \<le> 100
        \<and> map fst (env_activeTasks e) = map ta_taskId (js_values (ms_assignments (env_mission e)))
        \<and> env_replayRoot e = (if eventsForMission m lg = [] then tailHash lg else missionTailHash m lg))"
proof -
  let ?st = "replayMissionFromLedger ns rd nowMs lg m"
  have m: "ms_missionId ?st = m" "cp_sequence (ms_consensusPointer ?st) = int (length (eventsForMission m lg))"
    "cp_lastEventHash (ms_consensusPointer ?st) = missionTailHash m lg"
    by (simp_all add: replay_rows_eq replay_rows_pointer replay_start_def emptyMissionState_def missionTailHash_eq)
  have empty: "lg = [] \<Longrightarrow> missionTailHash m lg = tailHash lg" by (simp add: missionTailHash_def tailHash_def eventsForMission_def ledger_head_def)
  have root: "default_to (map_option mi_eventHash (missionLedgerTail lg m)) (tailHash lg)
      = (if eventsForMission m lg = [] then tailHash lg else missionTailHash m lg)"
    using empty by (auto simp: missionLedgerTail_def missionTailHash_eq tailHash_def ledger_head_def Let_def)
  have head: "default_to (map_option mi_eventHash (ledger_head lg)) (missionTailHash m lg) = tailHash lg"
    using empty by (auto simp: tailHash_def ledger_head_def)
  show ?thesis
    by (simp add: missionEnvelopeView_def buildTashiStateEnvelope_def Let_def m root head sarProjectionFromEnvelope_def phase_of_any envelope_coverage_bounds
        comp_def split: option.split sum.split)
qed

end
