(* ===== verification/Settlement.thy ===== *)
theory Settlement
  imports MissionApi
begin

section \<open>Arc settlement\<close>

text \<open>
  Models \<open>arc/evidence-bundle.ts\<close>, \<open>arc/settlement-manifest.ts\<close>, \<open>arc/reward-manifest.ts\<close>, \<open>arc/proof-anchor.ts\<close>, \<open>arc/mission-outcome.ts\<close>,
  \<open>api/settlement.ts\<close> and \<open>settlement/settlement-queue.ts\<close> of \<open>src/src/backend\<close>: what a finished mission is paid for, and how it is sealed. SHA-256 is the parameter
  \<open>H\<close>, \<open>x.toFixed(d)\<close> is \<open>fx d x\<close>, \<open>Number.parseFloat\<close> is \<open>pf\<close>, the order of \<open>localeCompare\<close> is \<open>lc\<close>, and \<open>toISOString\<close> is \<open>iso_text\<close>.
  The lemmas say which rows earn, that sealing a mission leaves its rewards as they were, and how the queue hands manifests over.
\<close>

subsection \<open>Evidence\<close>

datatype evidence_kind = EkThermalHit | EkOptical | EkAudio | EkGas | EkMapDisplacement | EkManualNote | EkRescueContact | EkExtraction

fun evidence_str :: "evidence_kind \<Rightarrow> string" where
  "evidence_str EkThermalHit = ''thermal_hit''"
| "evidence_str EkOptical = ''optical_confirmation''"
| "evidence_str EkAudio = ''audio_signal''"
| "evidence_str EkGas = ''gas_detection''"
| "evidence_str EkMapDisplacement = ''map_displacement''"
| "evidence_str EkManualNote = ''manual_note''"
| "evidence_str EkRescueContact = ''rescue_contact''"
| "evidence_str EkExtraction = ''extraction_confirmation''"

record evidence_item =
  evi_sourceNode :: ident
  evi_timestamp :: timestamp
  evi_evidenceType :: evidence_kind
  evi_confidence :: real
  evi_payload :: obj
  evi_ledgerHash :: string
  evi_nodeTrust :: real
  evi_capabilityMatch :: real

record evidence_bundle =
  evb_missionId :: ident
  evb_bundleHash :: string
  evb_items :: "evidence_item list"
  evb_merkleRoot :: string

definition EVIDENCE_SENSORS :: "(evidence_kind, string list) jsmap" where
  "EVIDENCE_SENSORS = [(EkThermalHit, [''thermal'', ''ir'', ''lwir'']), (EkOptical, [''rgb'', ''camera'', ''eo'', ''visual'']),
     (EkGas, [''gas'', ''chemical'', ''sniffer'']), (EkExtraction, [''carrier'', ''winch'', ''lidar'']),
     (EkRescueContact, [''radio'', ''audio'', ''lte'', ''long_range_radio''])]"

definition classifyEvidence :: "string \<Rightarrow> evidence_kind option" where
  "classifyEvidence kind = js_get [(''target_discovered'', EkThermalHit), (''target_confirmed'', EkOptical), (''safety_alert'', EkGas),
     (''extraction_confirmed'', EkExtraction)] kind"

definition capabilityMatch :: "trust_registry \<Rightarrow> ident \<Rightarrow> evidence_kind \<Rightarrow> real" where
  "capabilityMatch g nodeId kind =
     (let required = default_to (js_get EVIDENCE_SENSORS kind) []; hints = listSensorHints nodeId g
      in if required = [] then 75 / 100
         else if hints = [] then 45 / 100
         else let hit = length (filter (\<lambda>r. list_ex (\<lambda>h. str_includes h r \<or> str_includes r h) hints) required)
              in min 1 (35 / 100 + real hit / real (length required) * (65 / 100)))"

definition confidenceFromPayload :: "obj \<Rightarrow> real" where
  "confidenceFromPayload p =
     (case js_get p ''confidence'' of
        Some (JNum c) \<Rightarrow> min 1 (max 0 c)
      | _ \<Rightarrow> (case js_get p ''thermalTemp'' of Some (JNum t) \<Rightarrow> if t > 37 then 9 / 10 else 72 / 100 | _ \<Rightarrow> 72 / 100))"

definition evidence_of :: "trust_registry \<Rightarrow> ident \<Rightarrow> chain_event \<Rightarrow> evidence_item option" where
  "evidence_of g missionId e =
     (if mi_missionId e \<noteq> missionId then None
      else if mi_plane e = PlaneArc then None
      else map_option (\<lambda>kind. \<lparr> evi_sourceNode = mi_actorId e, evi_timestamp = mi_timestamp e, evi_evidenceType = kind,
             evi_confidence = confidenceFromPayload (mi_payload e), evi_payload = mi_payload e, evi_ledgerHash = mi_eventHash e,
             evi_nodeTrust = latticeTrust01 (mi_actorId e) g, evi_capabilityMatch = capabilityMatch g (mi_actorId e) kind \<rparr>)
           (classifyEvidence (mi_eventType e)))"

definition evidence_json :: "evidence_item \<Rightarrow> json" where
  "evidence_json i = JObj [(''sourceNode'', JStr (evi_sourceNode i)), (''timestamp'', jint (evi_timestamp i)),
     (''evidenceType'', JStr (evidence_str (evi_evidenceType i))), (''confidence'', JNum (evi_confidence i)),
     (''payload'', JObj (evi_payload i)), (''ledgerHash'', JStr (evi_ledgerHash i)),
     (''latticeValidation'', JObj [(''nodeTrust'', JNum (evi_nodeTrust i)), (''capabilityMatch'', JNum (evi_capabilityMatch i))])]"

definition evidence_leaf :: "(string \<Rightarrow> string) \<Rightarrow> (real \<Rightarrow> string) \<Rightarrow> evidence_item \<Rightarrow> string" where
  "evidence_leaf H ns i =
     H (evi_ledgerHash i @ ''|'' @ stable_string ns (JObj (evi_payload i)) @ ''|'' @ evidence_str (evi_evidenceType i))"

definition buildEvidenceBundle :: "(string \<Rightarrow> string) \<Rightarrow> (real \<Rightarrow> string) \<Rightarrow> ident \<Rightarrow> chain_event list \<Rightarrow> trust_registry \<Rightarrow> evidence_bundle" where
  "buildEvidenceBundle H ns missionId ledgerEvents g =
     (let items = List.map_filter (evidence_of g missionId) ledgerEvents;
          root = merkleRootHex H (map (evidence_leaf H ns) items);
          body = stable_string ns (JObj [(''missionId'', JStr missionId), (''items'', JArr (map evidence_json items)), (''merkleRoot'', JStr root)])
      in \<lparr> evb_missionId = missionId, evb_bundleHash = H (''evidence|'' @ body), evb_items = items, evb_merkleRoot = root \<rparr>)"

subsection \<open>Reward manifest\<close>

record proof_contribution =
  pcn_eventType :: string
  pcn_eventHash :: string
  pcn_latticeScore :: real
  pcn_checkpointHash :: string
  pcn_value :: real

record node_reward =
  nrw_nodeId :: ident
  nrw_contributions :: "proof_contribution list"
  nrw_totalEarned :: string
  nrw_reputationAtSettlement :: real

record mission_reward_manifest =
  rwm_missionId :: ident
  rwm_terminalPhase :: string
  rwm_totalPool :: string
  rwm_timestamp :: timestamp
  rwm_nodeRewards :: "node_reward list"
  rwm_vertexLedgerTail :: string
  rwm_latticeValidationRoot :: string
  rwm_safetyEventsIncluded :: nat
  rwm_merkleProofRoot :: string
  rwm_chain :: string
  rwm_txPayloadHash :: string
  rwm_expectedFinality :: int

definition baseRewardWeight :: "(real \<Rightarrow> string) \<Rightarrow> chain_event \<Rightarrow> real" where
  "baseRewardWeight ns e =
     (let kind = mi_eventType e
      in if kind = ''target_discovered'' then 10
         else if kind = ''target_confirmed'' then 15
         else if kind = ''extraction_confirmed'' then 50
         else if kind = ''safety_alert'' then 20
         else if kind = ''recovery_checkpoint'' then (if str_includes (payload_lower ns e ''label'') ''relay'' then 5 else 6)
         else if kind = ''task_assigned'' then 4
         else 0)"

definition checkpointHashBefore :: "chain_event list \<Rightarrow> timestamp \<Rightarrow> string" where
  "checkpointHashBefore events atTs =
     (let checkpoints = filter (\<lambda>e. mi_eventType e = ''recovery_checkpoint'' \<and> mi_timestamp e \<le> atTs) events
      in if checkpoints \<noteq> [] then mi_eventHash (last checkpoints)
         else default_to (map_option mi_eventHash (List.find (\<lambda>e. mi_eventType e = ''mission_created'') events)) ''genesis'')"

definition contribution_json_of :: "proof_contribution \<Rightarrow> json" where
  "contribution_json_of c = JObj [(''eventType'', JStr (pcn_eventType c)), (''eventHash'', JStr (pcn_eventHash c)),
     (''checkpointHash'', JStr (pcn_checkpointHash c)), (''latticeScore'', JNum (pcn_latticeScore c)), (''value'', JNum (pcn_value c))]"

definition contributionMerkleRoot :: "(string \<Rightarrow> string) \<Rightarrow> (real \<Rightarrow> string) \<Rightarrow> proof_contribution list \<Rightarrow> string" where
  "contributionMerkleRoot H ns rows =
     (let leaves = map (\<lambda>c. H (stable_string ns (contribution_json_of c))) rows
      in merkleRootHex H (if leaves \<noteq> [] then leaves else [H ''reward-manifest|empty'']))"

type_synonym earned = "(ident, proof_contribution list \<times> real) jsmap"

definition earn :: "(real \<Rightarrow> string) \<Rightarrow> trust_registry \<Rightarrow> chain_event list \<Rightarrow> earned \<Rightarrow> chain_event \<Rightarrow> earned" where
  "earn ns g events acc e =
     (if mi_plane e = PlaneArc then acc
      else let base = baseRewardWeight ns e
           in if base \<le> 0 then acc
              else let nodeId = mi_actorId e; (cs, total) = default_to (js_get acc nodeId) ([], 0);
                       trust01 = latticeTrust01 nodeId g; weighted = base * trust01
                   in js_put nodeId (cs @ [\<lparr> pcn_eventType = mi_eventType e, pcn_eventHash = mi_eventHash e, pcn_latticeScore = trust01,
                          pcn_checkpointHash = checkpointHashBefore events (mi_timestamp e), pcn_value = weighted \<rparr>], total + weighted) acc)"

definition earned_by_node :: "(real \<Rightarrow> string) \<Rightarrow> trust_registry \<Rightarrow> chain_event list \<Rightarrow> earned" where
  "earned_by_node ns g events = foldl (earn ns g events) [] events"

definition buildMissionRewardManifest :: "(string \<Rightarrow> string) \<Rightarrow> (real \<Rightarrow> string) \<Rightarrow> (string \<Rightarrow> real option) \<Rightarrow> (nat \<Rightarrow> real \<Rightarrow> string) \<Rightarrow> (string \<Rightarrow> string \<Rightarrow> bool) \<Rightarrow>
    mission_ledger \<Rightarrow> trust_registry \<Rightarrow> ident \<Rightarrow> timestamp \<Rightarrow> string \<Rightarrow> string + mission_reward_manifest" where
  "buildMissionRewardManifest H ns rd fx lc lg g missionId nowMs capacityScenario =
     (let mission = replayMissionFromLedger ns rd nowMs lg missionId
      in if ms_phase mission \<notin> set TERMINAL_PHASES then Inl ''Rewards only for terminal missions''
         else
           let events = eventsForMission missionId lg;
               rewards = earned_by_node ns g events;
               root = contributionMerkleRoot H ns (concat (map fst (js_values rewards)));
               totalPool = fx 4 (foldl (\<lambda>s nr. s + snd nr) 0 (js_values rewards)) @ '' HBAR'';
               validation = validationRootForMission H ns missionId nowMs capacityScenario g;
               terminalPhase = (if ms_phase mission = PComplete then ''complete'' else ''aborted'')
           in Inr \<lparr> rwm_missionId = missionId, rwm_terminalPhase = terminalPhase, rwm_totalPool = totalPool, rwm_timestamp = nowMs,
                rwm_nodeRewards = map (\<lambda>(i, cs, total). \<lparr> nrw_nodeId = i, nrw_contributions = cs, nrw_totalEarned = fx 4 total @ '' HBAR'',
                    nrw_reputationAtSettlement = latticeTrust01 i g \<rparr>) (js_sort (\<lambda>a b. lc (fst a) (fst b)) rewards),
                rwm_vertexLedgerTail = missionTailHash missionId lg, rwm_latticeValidationRoot = validation,
                rwm_safetyEventsIncluded = length (filter (\<lambda>e. mi_eventType e = ''safety_alert'') events),
                rwm_merkleProofRoot = root, rwm_chain = ''hedera'',
                rwm_txPayloadHash = H (stable_string ns (JObj [(''missionId'', JStr missionId), (''totalPool'', JStr totalPool),
                  (''merkleProofRoot'', JStr root), (''latticeValidationRoot'', JStr validation), (''terminalPhase'', JStr terminalPhase)])),
                rwm_expectedFinality = 3 \<rparr>)"

subsection \<open>Settlement manifest and anchor\<close>

record reward_claim =
  rcl_nodeId :: ident
  rcl_contributions :: "(string \<times> string \<times> real) list"
  rcl_totalReward :: string
  rcl_latticeScore :: real

record contribution_line =
  cln_nodeId :: ident
  cln_role :: mission_node_role
  cln_validatedEvents :: nat
  cln_proofHashes :: "string list"

record mission_certificate =
  crt_targetsFound :: nat
  crt_extractions :: nat
  crt_coveragePercent :: int
  crt_safetyEvents :: nat

record settlement_manifest =
  sma_manifestId :: ident
  sma_missionId :: ident
  sma_outcome :: string
  sma_phase :: mission_phase
  sma_contributions :: "contribution_line list"
  sma_ledgerRootHash :: string
  sma_ledgerTailHash :: string
  sma_sealedAtMs :: timestamp
  sma_summary :: obj
  sma_evidenceBundleHash :: string
  sma_evidenceMerkleRoot :: string
  sma_nodeContributions :: "reward_claim list"
  sma_missionCertificate :: mission_certificate
  sma_chain :: string
  sma_settlementAmount :: string
  sma_proofMerkleRoot :: string

definition contributionWeight :: "string \<Rightarrow> real" where
  "contributionWeight kind =
     (if kind = ''target_discovered'' then 10 else if kind = ''target_confirmed'' then 15 else if kind = ''extraction_confirmed'' then 50
      else if kind = ''safety_alert'' then 20 else if kind = ''task_assigned'' then 4 else if kind = ''recovery_checkpoint'' then 6 else 0)"

definition computeCertificate :: "mission_state \<Rightarrow> chain_event list \<Rightarrow> mission_certificate" where
  "computeCertificate mission ledgerEvents =
     (let mine = eventsForMission (ms_missionId mission) ledgerEvents
      in \<lparr> crt_targetsFound = length (js_keys (ms_targets mission)),
           crt_extractions = length (filter (\<lambda>e. mi_eventType e = ''extraction_confirmed'') mine),
           crt_coveragePercent = coverage_of_cells (su_cellsKnown (ms_mapSummary mission)), crt_safetyEvents = length (ms_alerts mission) \<rparr>)"

definition claim_row :: "trust_registry \<Rightarrow> (ident, (string \<times> string \<times> real) list \<times> real) jsmap \<Rightarrow> chain_event \<Rightarrow>
    (ident, (string \<times> string \<times> real) list \<times> real) jsmap" where
  "claim_row g acc e =
     (let w = contributionWeight (mi_eventType e); nodeId = mi_actorId e;
          (rows, score) = default_to (js_get acc nodeId) ([], latticeTrust01 nodeId g)
      in if mi_plane e = PlaneArc \<or> w \<le> 0 then acc
         else js_put nodeId (rows @ [(mi_eventType e, mi_eventHash e, w)], score) acc)"

definition computeRewardClaims :: "(nat \<Rightarrow> real \<Rightarrow> string) \<Rightarrow> (string \<Rightarrow> string \<Rightarrow> bool) \<Rightarrow> ident \<Rightarrow> chain_event list \<Rightarrow> trust_registry \<Rightarrow> reward_claim list" where
  "computeRewardClaims fx lc missionId ledgerEvents g =
     map (\<lambda>(i, rows, score). \<lparr> rcl_nodeId = i, rcl_contributions = rows,
            rcl_totalReward = fx 4 (foldl (\<lambda>s c. s + snd (snd c)) 0 rows * score), rcl_latticeScore = score \<rparr>)
       (js_sort (\<lambda>a b. lc (fst a) (fst b)) (foldl (claim_row g) [] (filter (\<lambda>e. mi_missionId e = missionId) ledgerEvents)))"

text \<open>The maps filled from the claims are read here as a lookup of the last claim of the node.\<close>

definition legacyContributions :: "mission_state \<Rightarrow> reward_claim list \<Rightarrow> string \<Rightarrow> contribution_line list" where
  "legacyContributions mission claims ledgerTailHash =
     map (\<lambda>r. let c = List.find (\<lambda>c. rcl_nodeId c = re_nodeId r) (rev claims);
                  hashes = (case c of Some x \<Rightarrow> map (\<lambda>k. fst (snd k)) (rcl_contributions x) | None \<Rightarrow> [])
              in \<lparr> cln_nodeId = re_nodeId r, cln_role = re_role r, cln_validatedEvents = length hashes,
                   cln_proofHashes = (if hashes \<noteq> [] then hashes else [ledgerTailHash]) \<rparr>) (js_values (ms_roster mission))"

definition totalRewardUnits :: "(string \<Rightarrow> real) \<Rightarrow> reward_claim list \<Rightarrow> real" where
  "totalRewardUnits pf claims = foldl (\<lambda>s c. s + pf (if rcl_totalReward c = [] then ''0'' else rcl_totalReward c)) 0 claims"

definition claim_leaves :: "(string \<Rightarrow> string) \<Rightarrow> (real \<Rightarrow> string) \<Rightarrow> reward_claim list \<Rightarrow> string list" where
  "claim_leaves H ns claims =
     concat (map (\<lambda>c. map (\<lambda>(kind, proof, w). H (stable_string ns (JObj [(''nodeId'', JStr (rcl_nodeId c)), (''eventType'', JStr kind),
       (''proofHash'', JStr proof), (''value'', JNum w)]))) (rcl_contributions c)) claims)"

definition buildSettlementManifest :: "(string \<Rightarrow> string) \<Rightarrow> (real \<Rightarrow> string) \<Rightarrow> (string \<Rightarrow> real) \<Rightarrow> (nat \<Rightarrow> real \<Rightarrow> string) \<Rightarrow> (string \<Rightarrow> string \<Rightarrow> bool) \<Rightarrow>
    mission_state \<Rightarrow> chain_event list \<Rightarrow> trust_registry \<Rightarrow> ident \<Rightarrow> timestamp \<Rightarrow> string \<Rightarrow> string \<Rightarrow> settlement_manifest" where
  "buildSettlementManifest H ns pf fx lc mission ledgerEvents g manifestId sealedAtMs ledgerRootHash outcome =
     (let evidence = buildEvidenceBundle H ns (ms_missionId mission) ledgerEvents g;
          claims = computeRewardClaims fx lc (ms_missionId mission) ledgerEvents g;
          leaves = claim_leaves H ns claims;
          proofRoot = merkleRootHex H (if leaves \<noteq> [] then leaves else [H ''contributions|empty'']);
          n = (\<lambda>k. JNum (real k))
      in \<lparr> sma_manifestId = manifestId, sma_missionId = ms_missionId mission, sma_outcome = outcome, sma_phase = ms_phase mission,
           sma_contributions = legacyContributions mission claims ledgerRootHash, sma_ledgerRootHash = ledgerRootHash,
           sma_ledgerTailHash = ledgerRootHash, sma_sealedAtMs = sealedAtMs,
           sma_summary = [(''phase'', JStr (phase_str (ms_phase mission))), (''targets'', n (length (js_keys (ms_targets mission)))),
             (''assignments'', n (length (js_keys (ms_assignments mission)))), (''alerts'', n (length (ms_alerts mission))),
             (''evidenceItems'', n (length (evb_items evidence)))],
           sma_evidenceBundleHash = evb_bundleHash evidence, sma_evidenceMerkleRoot = evb_merkleRoot evidence,
           sma_nodeContributions = claims, sma_missionCertificate = computeCertificate mission ledgerEvents, sma_chain = ''hedera'',
           sma_settlementAmount = fx 4 (totalRewardUnits pf claims) @ '' score-units'', sma_proofMerkleRoot = proofRoot \<rparr>)"

definition claim_json :: "reward_claim \<Rightarrow> json" where
  "claim_json c = JObj [(''nodeId'', JStr (rcl_nodeId c)),
     (''contributions'', JArr (map (\<lambda>(kind, proof, w). JObj [(''eventType'', JStr kind), (''proofHash'', JStr proof), (''value'', JNum w)]) (rcl_contributions c))),
     (''totalReward'', JStr (rcl_totalReward c)), (''latticeScore'', JNum (rcl_latticeScore c))]"

definition line_json :: "contribution_line \<Rightarrow> json" where
  "line_json l = JObj [(''nodeId'', JStr (cln_nodeId l)), (''role'', role_json (cln_role l)),
     (''validatedEvents'', JNum (real (cln_validatedEvents l))), (''proofHashes'', jstrs (cln_proofHashes l))]"

definition manifestCanonicalHash :: "(real \<Rightarrow> string) \<Rightarrow> settlement_manifest \<Rightarrow> string" where
  "manifestCanonicalHash ns m = stable_string ns (JObj [(''manifestId'', JStr (sma_manifestId m)), (''missionId'', JStr (sma_missionId m)),
     (''outcome'', JStr (sma_outcome m)), (''phase'', JStr (phase_str (sma_phase m))), (''ledgerRootHash'', JStr (sma_ledgerRootHash m)),
     (''ledgerTailHash'', JStr (sma_ledgerTailHash m)), (''contributions'', JArr (map line_json (sma_contributions m))),
     (''evidenceBundleHash'', JStr (sma_evidenceBundleHash m)), (''evidenceMerkleRoot'', JStr (sma_evidenceMerkleRoot m)),
     (''nodeContributions'', JArr (map claim_json (sma_nodeContributions m))),
     (''missionCertificate'', JObj [(''targetsFound'', JNum (real (crt_targetsFound (sma_missionCertificate m)))),
        (''extractions'', JNum (real (crt_extractions (sma_missionCertificate m)))),
        (''coveragePercent'', jint (crt_coveragePercent (sma_missionCertificate m))),
        (''safetyEvents'', JNum (real (crt_safetyEvents (sma_missionCertificate m))))]),
     (''arcPayload'', JObj [(''chain'', JStr (sma_chain m)), (''settlementAmount'', JStr (sma_settlementAmount m)),
        (''proofMerkleRoot'', JStr (sma_proofMerkleRoot m))])])"

definition anchorManifestSummary :: "(string \<Rightarrow> string) \<Rightarrow> (real \<Rightarrow> string) \<Rightarrow> settlement_manifest \<Rightarrow> string \<times> string" where
  "anchorManifestSummary H ns m = (sma_chain m @ '':testnet:placeholder'', H (''arc|'' @ manifestCanonicalHash ns m))"

definition mockEmitArcBridgeTx :: "(string \<Rightarrow> string) \<Rightarrow> (real \<Rightarrow> string) \<Rightarrow> settlement_manifest \<Rightarrow> string" where
  "mockEmitArcBridgeTx H ns m = H (''arc_emit|'' @ manifestCanonicalHash ns m)"

subsection \<open>Sealing a mission\<close>

record arc_settlement =
  ars_manifest :: settlement_manifest
  ars_rewardManifest :: mission_reward_manifest
  ars_anchor :: "string \<times> string"
  ars_mockBridgeTxHash :: string

text \<open>The envelope patch repeats fields of the manifest and of the anchor; the event log is left out.\<close>

definition sealArcSettlement :: "(string \<Rightarrow> string) \<Rightarrow> (real \<Rightarrow> string) \<Rightarrow> (string \<Rightarrow> real option) \<Rightarrow> (string \<Rightarrow> real) \<Rightarrow> (nat \<Rightarrow> real \<Rightarrow> string) \<Rightarrow>
    (string \<Rightarrow> string \<Rightarrow> bool) \<Rightarrow> trust_registry \<Rightarrow> ident \<Rightarrow> timestamp \<Rightarrow> mission_ledger \<Rightarrow> (string + arc_settlement) \<times> mission_ledger" where
  "sealArcSettlement H ns rd pf fx lc g missionId nowMs lg =
     (let mission = replayMissionFromLedger ns rd nowMs lg missionId
      in if ms_phase mission \<noteq> PComplete \<and> ms_phase mission \<noteq> PAborted then (Inl ''mission_not_terminal'', lg)
         else
           let root = tailHash lg;
               manifestId = ''manifest-'' @ missionId @ ''-'' @ show_int nowMs;
               manifest = buildSettlementManifest H ns pf fx lc mission lg g manifestId nowMs root
                 (if ms_phase mission = PComplete then ''success'' else ''aborted'');
               scenario = default_to (ms_scenario mission) ''collapsed_building''
           in case buildMissionRewardManifest H ns rd fx lc lg g missionId nowMs scenario of
                Inl err \<Rightarrow> (Inl err, lg)
              | Inr rm \<Rightarrow>
                  (let anchor = anchorManifestSummary H ns manifest; tx = mockEmitArcBridgeTx H ns manifest;
                       lg1 = append_row H ns missionId ''arc-settlement'' ''settlement_manifest_sealed'' PlaneArc
                         [(''manifestId'', JStr manifestId), (''ledgerRootHash'', JStr root),
                          (''evidenceBundleHash'', JStr (sma_evidenceBundleHash manifest)), (''proofMerkleRoot'', JStr (sma_proofMerkleRoot manifest)),
                          (''rewardMerkleRoot'', JStr (rwm_merkleProofRoot rm)),
                          (''rewardSafetyEvents'', JNum (real (rwm_safetyEventsIncluded rm))), (''rewardTotalPool'', JStr (rwm_totalPool rm))]
                         (nowMs + 1) lg;
                       lg2 = append_row H ns missionId ''arc-settlement'' ''proof_anchored'' PlaneArc
                         [(''chainRef'', JStr (fst anchor)), (''rootProofHash'', JStr (snd anchor)), (''mockBridgeTxHash'', JStr tx)]
                         (nowMs + 2) lg1
                   in (Inr \<lparr> ars_manifest = manifest, ars_rewardManifest = rm, ars_anchor = anchor, ars_mockBridgeTxHash = tx \<rparr>, lg2)))"

subsection \<open>Mission outcome\<close>

record mission_outcome =
  moc_missionId :: ident
  moc_terminalHash :: string
  moc_checkpointHash :: string
  moc_scenario :: string
  moc_durationMinutes :: real
  moc_targetsFound :: nat
  moc_extractions :: nat
  moc_coveragePercent :: int
  moc_safetyIncidents :: nat
  moc_totalRewardPool :: string
  moc_status :: string
  moc_eventCount :: nat
  moc_consensusEvents :: nat
  moc_tailEventType :: string
  moc_finalNodeCount :: nat
  moc_avgReputation :: real
  moc_trustViolations :: nat
  moc_contributions :: "(ident \<times> string \<times> string list \<times> string) list"
  moc_settlementReady :: bool
  moc_chainTargets :: "(string \<times> nat \<times> nat) list"
  moc_replayVerified :: bool
  moc_operatorNotes :: "string list"

definition TRUST_VIOLATION_THRESHOLD :: real where "TRUST_VIOLATION_THRESHOLD = 4 / 10"

definition milestone_kinds :: "string list" where
  "milestone_kinds = [''phase_transition'', ''target_discovered'', ''target_confirmed'', ''task_assigned'', ''extraction_confirmed'',
     ''recovery_checkpoint'', ''safety_alert'']"

definition countConsensusStyleEvents :: "chain_event list \<Rightarrow> nat" where
  "countConsensusStyleEvents events = length (filter (\<lambda>e. mi_plane e = PlaneVertex \<and> mi_eventType e \<in> set milestone_kinds) events)"

definition executiveStatus :: "mission_phase \<Rightarrow> string" where
  "executiveStatus p = (if p = PComplete then ''success'' else if p = PAborted then ''partial'' else ''failed'')"

definition proof_json_of :: "proof_contribution \<Rightarrow> json" where
  "proof_json_of c = JObj [(''eventType'', JStr (pcn_eventType c)), (''eventHash'', JStr (pcn_eventHash c)), (''latticeScore'', JNum (pcn_latticeScore c)),
     (''checkpointHash'', JStr (pcn_checkpointHash c)), (''value'', JNum (pcn_value c))]"

definition reward_manifest_json :: "mission_reward_manifest \<Rightarrow> json" where
  "reward_manifest_json r = JObj [(''missionId'', JStr (rwm_missionId r)), (''terminalPhase'', JStr (rwm_terminalPhase r)),
     (''totalPool'', JStr (rwm_totalPool r)), (''timestamp'', jint (rwm_timestamp r)),
     (''nodeRewards'', JArr (map (\<lambda>n. JObj [(''nodeId'', JStr (nrw_nodeId n)), (''contributions'', JArr (map proof_json_of (nrw_contributions n))),
        (''totalEarned'', JStr (nrw_totalEarned n)), (''reputationAtSettlement'', JNum (nrw_reputationAtSettlement n))]) (rwm_nodeRewards r))),
     (''verification'', JObj [(''vertexLedgerTail'', JStr (rwm_vertexLedgerTail r)), (''latticeValidationRoot'', JStr (rwm_latticeValidationRoot r)),
        (''safetyEventsIncluded'', JNum (real (rwm_safetyEventsIncluded r))), (''merkleProofRoot'', JStr (rwm_merkleProofRoot r))]),
     (''arcSettlement'', JObj [(''chain'', JStr (rwm_chain r)), (''txPayloadHash'', JStr (rwm_txPayloadHash r)),
        (''expectedFinality'', jint (rwm_expectedFinality r))])]"

text \<open>Texts are the bytes of their UTF-8 encoding, so the size of the payload is the length of its text.\<close>

definition chainTargetsFromRewardManifest :: "(real \<Rightarrow> string) \<Rightarrow> mission_reward_manifest \<Rightarrow> (string \<times> nat \<times> nat) list" where
  "chainTargetsFromRewardManifest ns r =
     (let size = length (stable_string ns (reward_manifest_json r))
      in [(''hedera'', size, 120000 + min 800000 (size * 18)), (''ethereum'', size, 46000 + min 1200000 (size * 24))])"

definition missionCheckpointHash :: "(string \<Rightarrow> string) \<Rightarrow> (real \<Rightarrow> string) \<Rightarrow> 's tashi_envelope \<Rightarrow> string + string" where
  "missionCheckpointHash H ns e =
     (case env_ledgerTail e of
        None \<Rightarrow> Inl ''mission_outcome_missing_ledger_tail''
      | Some tail \<Rightarrow>
          (let m = env_mission e
           in Inr (H (stable_string ns (JObj [(''missionId'', JStr (ms_missionId m)), (''phase'', JStr (phase_str (ms_phase m))),
                (''ledgerTail'', JStr (mi_eventHash tail)), (''nodeCount'', JNum (real (length (js_keys (ms_roster m))))),
                (''targetCount'', JNum (real (length (js_keys (ms_targets m))))), (''mapCells'', JNum (su_cellsKnown (ms_mapSummary m))),
                (''vertexSequence'', jint (cp_sequence (ms_consensusPointer m)))])))))"

definition outcome_contribution :: "(real \<Rightarrow> string) \<Rightarrow> mission_state \<Rightarrow> node_reward \<Rightarrow> ident \<times> string \<times> string list \<times> string" where
  "outcome_contribution ns mission r =
     (let role = (case js_get (ms_roster mission) (nrw_nodeId r) of Some e \<Rightarrow> js_string ns (role_json (re_role e)) | None \<Rightarrow> ''participant'');
          cs = nrw_contributions r; first_kind = (case cs of c # _ \<Rightarrow> pcn_eventType c | [] \<Rightarrow> ''proof'')
      in (nrw_nodeId r, role @ '': '' @ show_nat (length cs) @ '' proof(s), last '' @ first_kind, map pcn_eventHash (slice_tail 3 cs), nrw_totalEarned r))"

definition settle_rewards :: "(string \<Rightarrow> string) \<Rightarrow> (real \<Rightarrow> string) \<Rightarrow> (string \<Rightarrow> real option) \<Rightarrow> (nat \<Rightarrow> real \<Rightarrow> string) \<Rightarrow> (string \<Rightarrow> string \<Rightarrow> bool) \<Rightarrow>
    mission_ledger \<Rightarrow> trust_registry \<Rightarrow> ident \<Rightarrow> timestamp \<Rightarrow> mission_state \<Rightarrow> string + mission_reward_manifest option" where
  "settle_rewards H ns rd fx lc lg g missionId nowMs mission =
     (if ms_phase mission \<notin> set TERMINAL_PHASES then Inr None
      else case buildMissionRewardManifest H ns rd fx lc lg g missionId nowMs (default_to (ms_scenario mission) ''collapsed_building'') of
             Inl err \<Rightarrow> Inl err | Inr rm \<Rightarrow> Inr (Some rm))"

text \<open>The packet without its own hash, which is that of its stable text.\<close>

definition buildMissionOutcomePacket :: "(string \<Rightarrow> string) \<Rightarrow> (real \<Rightarrow> string) \<Rightarrow> (string \<Rightarrow> real option) \<Rightarrow> (nat \<Rightarrow> real \<Rightarrow> string) \<Rightarrow> (string \<Rightarrow> string \<Rightarrow> bool) \<Rightarrow>
    (timestamp \<Rightarrow> string) \<Rightarrow> mission_ledger \<Rightarrow> trust_registry \<Rightarrow> ident \<Rightarrow> timestamp \<Rightarrow> string + mission_outcome" where
  "buildMissionOutcomePacket H ns rd fx lc iso_text lg g missionId nowMs =
     (let events = eventsForMission missionId lg; mission = replayMissionFromLedger ns rd nowMs lg missionId
      in if events = [] then Inl ''mission_outcome_empty_ledger''
         else case buildTashiStateEnvelope fx lc ns mission lg g nowMs (None :: settlement_manifest envelope_options option) of
           Inl err \<Rightarrow> Inl err
         | Inr envelope \<Rightarrow>
         (case missionCheckpointHash H ns envelope of
            Inl err \<Rightarrow> Inl err
          | Inr checkpointHash \<Rightarrow>
         (case settle_rewards H ns rd fx lc lg g missionId nowMs mission of
            Inl err \<Rightarrow> Inl err
          | Inr rewards \<Rightarrow>
              (let tail = last events; summary = getSafetySummary ns missionId lg; swarm = env_swarmHealth envelope;
                   rosterIds = js_keys (ms_roster mission);
                   report = snd (replayMission H ns rd nowMs lg missionId 0 None);
                   verified = (verifyChain H ns lg = ChainOk \<and> mrp_consensusOrderValid report \<and> mrp_deterministic report);
                   minutes = max 0 (real_of_int (mi_timestamp tail - ms_createdAtMs mission) / 60000)
               in Inr \<lparr> moc_missionId = missionId, moc_terminalHash = mi_eventHash tail, moc_checkpointHash = checkpointHash,
                    moc_scenario = default_to (ms_scenario mission) ''collapsed_building'',
                    moc_durationMinutes = of_int (js_round (minutes * 10)) / 10, moc_targetsFound = length (js_keys (ms_targets mission)),
                    moc_extractions = length (filter (\<lambda>e. mi_eventType e = ''extraction_confirmed'') events),
                    moc_coveragePercent = emo_coveragePercent (env_mapOverview envelope), moc_safetyIncidents = sfs_escalatedCount summary,
                    moc_totalRewardPool = (case rewards of Some r \<Rightarrow> rwm_totalPool r | None \<Rightarrow> ''0.0000 HBAR''),
                    moc_status = executiveStatus (ms_phase mission), moc_eventCount = length events,
                    moc_consensusEvents = countConsensusStyleEvents events, moc_tailEventType = mi_eventType tail,
                    moc_finalNodeCount = length rosterIds, moc_avgReputation = of_int (js_round (swh_avgReputation swarm * 1000)) / 1000,
                    moc_trustViolations = length (filter (\<lambda>i. latticeTrust01 i g < TRUST_VIOLATION_THRESHOLD) rosterIds),
                    moc_contributions = (case rewards of Some r \<Rightarrow> map (outcome_contribution ns mission) (rwm_nodeRewards r) | None \<Rightarrow> []),
                    moc_settlementReady = (ms_phase mission \<in> set TERMINAL_PHASES),
                    moc_chainTargets = (case rewards of Some r \<Rightarrow> chainTargetsFromRewardManifest ns r | None \<Rightarrow> []),
                    moc_replayVerified = verified,
                    moc_operatorNotes = [''Mission '' @ missionId @ '' ledger tail '' @ mi_eventType tail @ '' @ '' @ iso_text (mi_timestamp tail),
                      show_nat (length rosterIds) @ '' roster nodes'' @ dot_text @ show_nat (length events) @ '' mission-scoped events'',
                      show_nat (sfs_escalatedCount summary) @ '' safety ledger rows'' @ dot_text @ ''replay '' @ (if verified then ''ok'' else ''check''),
                      (case rewards of Some r \<Rightarrow> show_nat (length (rwm_nodeRewards r)) @ '' nodes in reward manifest''
                       | None \<Rightarrow> ''Rewards pending terminal phase'')] \<rparr>))))"

subsection \<open>Settlement queue\<close>

text \<open>
  A queued row is one object that the FIFO and the map by mission share, so the map holds the number of the row. \<open>emit\<close> is a
  promise: a step starts it for the first queued row and a later step settles or fails it. Between the two only
  \<open>enqueue\<close> can run, because the drains are chained one after the other.
\<close>

datatype queued_status = QsQueued | QsProcessing | QsSettled | QsFailed

record 'm queued_settlement =
  qst_missionId :: ident
  qst_manifest :: 'm
  qst_status :: queued_status
  qst_arcTxHash :: "string option"
  qst_error :: "string option"
  qst_timestamp :: timestamp

record 'm settlement_queue =
  stq_rows :: "'m queued_settlement list"
  stq_fifo :: "nat list"
  stq_byMission :: "(ident, nat) jsmap"

definition new_settlement_queue :: "'m settlement_queue" where
  "new_settlement_queue = \<lparr> stq_rows = [], stq_fifo = [], stq_byMission = [] \<rparr>"

definition pending_row :: "'m queued_settlement \<Rightarrow> bool" where
  "pending_row r \<longleftrightarrow> qst_status r = QsQueued \<or> qst_status r = QsProcessing"

definition getStatus :: "'m settlement_queue \<Rightarrow> ident \<Rightarrow> 'm queued_settlement option" where
  "getStatus q missionId = map_option (\<lambda>k. stq_rows q ! k) (js_get (stq_byMission q) missionId)"

definition enqueue_settlement :: "timestamp \<Rightarrow> ident \<Rightarrow> 'm \<Rightarrow> 'm settlement_queue \<Rightarrow> 'm settlement_queue" where
  "enqueue_settlement now missionId manifest q =
     (if (case getStatus q missionId of Some r \<Rightarrow> pending_row r | None \<Rightarrow> False) then q
      else let k = length (stq_rows q)
           in q\<lparr> stq_rows := stq_rows q @ [\<lparr> qst_missionId = missionId, qst_manifest = manifest, qst_status = QsQueued, qst_arcTxHash = None,
                    qst_error = None, qst_timestamp = now \<rparr>],
                 stq_fifo := stq_fifo q @ [k], stq_byMission := js_put missionId k (stq_byMission q) \<rparr>)"

definition drop_settled :: "'m settlement_queue \<Rightarrow> 'm settlement_queue" where
  "drop_settled q = q\<lparr> stq_fifo := dropWhile (\<lambda>k. qst_status (stq_rows q ! k) \<noteq> QsQueued) (stq_fifo q) \<rparr>"

definition start_emit :: "'m settlement_queue \<Rightarrow> 'm settlement_queue option" where
  "start_emit q =
     (case stq_fifo (drop_settled q) of
        [] \<Rightarrow> None
      | k # ks \<Rightarrow> Some (q\<lparr> stq_rows := (stq_rows q)[k := (stq_rows q ! k)\<lparr> qst_status := QsProcessing \<rparr>], stq_fifo := k # ks \<rparr>))"

definition finish_emit :: "string + string \<Rightarrow> 'm settlement_queue \<Rightarrow> 'm settlement_queue" where
  "finish_emit res q =
     (case stq_fifo q of
        [] \<Rightarrow> q
      | k # ks \<Rightarrow> q\<lparr> stq_rows := (stq_rows q)[k := (case res of
            Inr tx \<Rightarrow> (stq_rows q ! k)\<lparr> qst_arcTxHash := Some tx, qst_status := QsSettled \<rparr>
          | Inl err \<Rightarrow> (stq_rows q ! k)\<lparr> qst_error := Some err, qst_status := QsFailed \<rparr>)], stq_fifo := ks \<rparr>)"

text \<open>The queue and whether an emission is under way.\<close>

inductive queue_step :: "'m settlement_queue \<times> bool \<Rightarrow> 'm settlement_queue \<times> bool \<Rightarrow> bool" where
  step_enqueue: "queue_step (q, busy) (enqueue_settlement now missionId manifest q, busy)"
| step_start: "start_emit q = Some q' \<Longrightarrow> queue_step (q, False) (q', True)"
| step_finish: "queue_step (q, True) (finish_emit res q, False)"

inductive queue_reach :: "'m settlement_queue \<times> bool \<Rightarrow> bool" where
  reach_new: "queue_reach (new_settlement_queue, False)"
| reach_step: "queue_reach s \<Longrightarrow> queue_step s s' \<Longrightarrow> queue_reach s'"

subsection \<open>What the queue guarantees\<close>

abbreviation row_pending :: "'m settlement_queue \<Rightarrow> nat \<Rightarrow> bool" where
  "row_pending q k \<equiv> pending_row (stq_rows q ! k)"

definition queue_ok :: "'m settlement_queue \<times> bool \<Rightarrow> bool" where
  "queue_ok s \<longleftrightarrow>
     (let (q, busy) = s; n = length (stq_rows q); fifo = stq_fifo q; waiting = (if busy then tl fifo else fifo)
      in distinct fifo \<and> (busy \<longrightarrow> fifo \<noteq> [] \<and> qst_status (stq_rows q ! hd fifo) = QsProcessing)
         \<and> (\<forall>k. k \<in> set waiting \<longrightarrow> qst_status (stq_rows q ! k) = QsQueued)
         \<and> (\<forall>k. k \<in> set fifo \<longleftrightarrow> k < n \<and> row_pending q k)
         \<and> (\<forall>k. k \<in> set fifo \<longrightarrow> js_get (stq_byMission q) (qst_missionId (stq_rows q ! k)) = Some k)
         \<and> (\<forall>m k. js_get (stq_byMission q) m = Some k \<longrightarrow> k < n \<and> qst_missionId (stq_rows q ! k) = m))"

lemma queue_ok_iff:
  "queue_ok (q, busy) \<longleftrightarrow>
     distinct (stq_fifo q) \<and> (busy \<longrightarrow> stq_fifo q \<noteq> [] \<and> qst_status (stq_rows q ! hd (stq_fifo q)) = QsProcessing)
     \<and> (\<forall>k. k \<in> set (if busy then tl (stq_fifo q) else stq_fifo q) \<longrightarrow> qst_status (stq_rows q ! k) = QsQueued)
     \<and> (\<forall>k. k \<in> set (stq_fifo q) \<longleftrightarrow> k < length (stq_rows q) \<and> row_pending q k)
     \<and> (\<forall>k. k \<in> set (stq_fifo q) \<longrightarrow> js_get (stq_byMission q) (qst_missionId (stq_rows q ! k)) = Some k)
     \<and> (\<forall>m k. js_get (stq_byMission q) m = Some k \<longrightarrow> k < length (stq_rows q) \<and> qst_missionId (stq_rows q ! k) = m)"
  by (simp add: queue_ok_def Let_def)

lemma queue_ok_enqueue:
  assumes "queue_ok (q, busy)" shows "queue_ok (enqueue_settlement now m manifest q, busy)"
proof (cases "case getStatus q m of Some r \<Rightarrow> pending_row r | None \<Rightarrow> False")
  case True
  then show ?thesis using assms by (simp add: enqueue_settlement_def)
next
  case False
  let ?n = "length (stq_rows q)" and ?q = "enqueue_settlement now m manifest q"
  have q: "stq_fifo ?q = stq_fifo q @ [?n]" "stq_byMission ?q = js_put m ?n (stq_byMission q)" "length (stq_rows ?q) = ?n + 1"
    "\<And>k. k < ?n \<Longrightarrow> stq_rows ?q ! k = stq_rows q ! k" "qst_missionId (stq_rows ?q ! ?n) = m" "qst_status (stq_rows ?q ! ?n) = QsQueued"
    using False by (simp_all add: enqueue_settlement_def Let_def nth_append)
  have ok: "distinct (stq_fifo q)" "busy \<longrightarrow> stq_fifo q \<noteq> [] \<and> qst_status (stq_rows q ! hd (stq_fifo q)) = QsProcessing"
    "\<And>k. k \<in> set (if busy then tl (stq_fifo q) else stq_fifo q) \<Longrightarrow> qst_status (stq_rows q ! k) = QsQueued"
    "\<And>k. k \<in> set (stq_fifo q) \<longleftrightarrow> k < ?n \<and> row_pending q k"
    "\<And>k. k \<in> set (stq_fifo q) \<Longrightarrow> js_get (stq_byMission q) (qst_missionId (stq_rows q ! k)) = Some k"
    "\<And>x k. js_get (stq_byMission q) x = Some k \<Longrightarrow> k < ?n \<and> qst_missionId (stq_rows q ! k) = x"
    using assms unfolding queue_ok_iff by blast+
  have lt: "k < ?n" if "k \<in> set (stq_fifo q)" for k using ok(4) that by blast
  have other: "qst_missionId (stq_rows q ! k) \<noteq> m" if "k \<in> set (stq_fifo q)" for k
    using ok(4,5) [of k] that False by (auto simp: getStatus_def)
  have pend: "row_pending ?q ?n" by (simp add: pending_row_def q(6))
  show ?thesis unfolding queue_ok_iff
  proof (intro conjI allI impI)
    show "distinct (stq_fifo ?q)" using ok(1) lt by (auto simp: q(1))
  next
    assume busy
    then show "stq_fifo ?q \<noteq> []" and "qst_status (stq_rows ?q ! hd (stq_fifo ?q)) = QsProcessing"
      using ok(2) lt [of "hd (stq_fifo q)"] by (simp_all add: q(1,4))
  next
    fix k assume "k \<in> set (if busy then tl (stq_fifo ?q) else stq_fifo ?q)"
    then have "k = ?n \<or> k \<in> set (if busy then tl (stq_fifo q) else stq_fifo q)" using ok(2) by (auto simp: q(1))
    then show "qst_status (stq_rows ?q ! k) = QsQueued"
    proof
      assume k: "k \<in> set (if busy then tl (stq_fifo q) else stq_fifo q)"
      then have "k \<in> set (stq_fifo q)" by (cases "stq_fifo q") (auto split: if_splits)
      then show ?thesis using ok(3) [OF k] lt by (simp add: q(4))
    qed (simp add: q(6))
  next
    fix k show "(k \<in> set (stq_fifo ?q)) = (k < length (stq_rows ?q) \<and> row_pending ?q k)"
      using ok(4) [of k] pend q(4) [of k] by (auto simp: q(1,3) less_Suc_eq)
  next
    fix k assume "k \<in> set (stq_fifo ?q)"
    then show "js_get (stq_byMission ?q) (qst_missionId (stq_rows ?q ! k)) = Some k"
      using ok(5) [of k] other [of k] lt [of k] by (auto simp: q(1,2,4,5) js_map_simps)
  next
    fix x k assume "js_get (stq_byMission ?q) x = Some k"
    then show "k < length (stq_rows ?q)" and "qst_missionId (stq_rows ?q ! k) = x"
      using ok(6) [of x k] by (auto simp: q(2,3,4,5) js_map_simps split: if_splits)
  qed
qed

lemma drop_settled_ok: "queue_ok (q, False) \<Longrightarrow> drop_settled q = q"
proof -
  assume ok: "queue_ok (q, False)"
  have "dropWhile (\<lambda>k. qst_status (stq_rows q ! k) \<noteq> QsQueued) (stq_fifo q) = stq_fifo q"
    using ok by (cases "stq_fifo q") (simp_all add: queue_ok_iff)
  then show ?thesis by (simp add: drop_settled_def)
qed

text \<open>Replacing the row at the head of the FIFO, without changing its mission, touches no other row.\<close>

lemma head_row_replaced:
  assumes "queue_ok (q, busy)" "stq_fifo q = k # ks" "qst_missionId r = qst_missionId (stq_rows q ! k)"
    and "q' = q\<lparr> stq_rows := (stq_rows q)[k := r], stq_fifo := fifo' \<rparr>"
  shows "k < length (stq_rows q)" "k \<notin> set ks" "distinct ks" "length (stq_rows q') = length (stq_rows q)" "stq_rows q' ! k = r"
    "\<And>i. i \<noteq> k \<Longrightarrow> stq_rows q' ! i = stq_rows q ! i" "\<And>i. qst_missionId (stq_rows q' ! i) = qst_missionId (stq_rows q ! i)"
    "stq_byMission q' = stq_byMission q" "stq_fifo q' = fifo'"
    "\<And>i. i \<in> set ks \<Longrightarrow> qst_status (stq_rows q ! i) = QsQueued"
    "\<And>i. i = k \<or> i \<in> set ks \<longleftrightarrow> i < length (stq_rows q) \<and> row_pending q i"
    "\<And>i. i = k \<or> i \<in> set ks \<Longrightarrow> js_get (stq_byMission q) (qst_missionId (stq_rows q ! i)) = Some i"
    "\<And>m i. js_get (stq_byMission q) m = Some i \<Longrightarrow> i < length (stq_rows q) \<and> qst_missionId (stq_rows q ! i) = m"
proof -
  have ok: "distinct (k # ks)" "\<And>i. i \<in> set (if busy then ks else k # ks) \<Longrightarrow> qst_status (stq_rows q ! i) = QsQueued"
    "\<And>i. i \<in> set (k # ks) \<longleftrightarrow> i < length (stq_rows q) \<and> row_pending q i"
    "\<And>i. i \<in> set (k # ks) \<Longrightarrow> js_get (stq_byMission q) (qst_missionId (stq_rows q ! i)) = Some i"
    "\<And>m i. js_get (stq_byMission q) m = Some i \<Longrightarrow> i < length (stq_rows q) \<and> qst_missionId (stq_rows q ! i) = m"
    using assms(1) unfolding queue_ok_iff assms(2) list.sel by blast+
  show k: "k < length (stq_rows q)" using ok(3) [of k] by simp
  show "k \<notin> set ks" "distinct ks" using ok(1) by simp_all
  show "length (stq_rows q') = length (stq_rows q)" "stq_rows q' ! k = r" "stq_byMission q' = stq_byMission q" "stq_fifo q' = fifo'"
    using k by (simp_all add: assms(4))
  show other: "stq_rows q' ! i = stq_rows q ! i" if "i \<noteq> k" for i using that by (simp add: assms(4))
  show "qst_missionId (stq_rows q' ! i) = qst_missionId (stq_rows q ! i)" for i
    using k assms(3) by (cases "i = k") (simp_all add: assms(4))
  show "qst_status (stq_rows q ! i) = QsQueued" if "i \<in> set ks" for i using ok(2) [of i] that by (cases busy) simp_all
  show "i = k \<or> i \<in> set ks \<longleftrightarrow> i < length (stq_rows q) \<and> row_pending q i" for i using ok(3) [of i] by simp
  show "js_get (stq_byMission q) (qst_missionId (stq_rows q ! i)) = Some i" if "i = k \<or> i \<in> set ks" for i using ok(4) [of i] that by simp
  show "i < length (stq_rows q) \<and> qst_missionId (stq_rows q ! i) = m" if "js_get (stq_byMission q) m = Some i" for m i
    using ok(5) [OF that] .
qed

lemma queue_ok_start:
  assumes "queue_ok (q, False)" "start_emit q = Some q'" shows "queue_ok (q', True)"
proof -
  obtain k ks where f: "stq_fifo q = k # ks" and q': "q' = q\<lparr> stq_rows := (stq_rows q)[k := (stq_rows q ! k)\<lparr> qst_status := QsProcessing \<rparr>], stq_fifo := k # ks \<rparr>"
    using assms drop_settled_ok [OF assms(1)] by (auto simp: start_emit_def split: list.splits)
  note h = head_row_replaced [OF assms(1) f _ q', simplified]
  have pending: "row_pending q' i \<longleftrightarrow> row_pending q i" if "i < length (stq_rows q)" for i
    using h(5,6) h(11) [of i] that by (cases "i = k") (auto simp: pending_row_def)
  have queued: "qst_status (stq_rows q' ! i) = QsQueued" if "i \<in> set ks" for i using h(2,6,10) that by metis
  have head: "qst_status (stq_rows q' ! k) = QsProcessing" by (simp add: h(5))
  have "distinct (k # ks)" using h(2,3) by simp
  moreover have "i \<in> set (k # ks) \<longleftrightarrow> i < length (stq_rows q) \<and> row_pending q' i" for i using h(11) [of i] pending [of i] by auto
  ultimately show ?thesis unfolding queue_ok_iff h(4,7,8,9) if_True list.sel
    using h(12,13) head queued by auto
qed

lemma queue_ok_finish:
  assumes "queue_ok (q, True)" shows "queue_ok (finish_emit res q, False)"
proof -
  obtain k ks where f: "stq_fifo q = k # ks" using assms by (cases "stq_fifo q") (auto simp: queue_ok_iff)
  let ?r = "case res of Inr tx \<Rightarrow> (stq_rows q ! k)\<lparr> qst_arcTxHash := Some tx, qst_status := QsSettled \<rparr>
          | Inl err \<Rightarrow> (stq_rows q ! k)\<lparr> qst_error := Some err, qst_status := QsFailed \<rparr>"
  have q': "finish_emit res q = q\<lparr> stq_rows := (stq_rows q)[k := ?r], stq_fifo := ks \<rparr>" by (simp add: finish_emit_def f)
  have "qst_missionId ?r = qst_missionId (stq_rows q ! k)" and finished: "\<not> pending_row ?r" by (simp_all add: pending_row_def split: sum.split)
  note h = head_row_replaced [OF assms f this(1) q']
  have pending: "row_pending (finish_emit res q) i \<longleftrightarrow> row_pending q i \<and> i \<noteq> k" if "i < length (stq_rows q)" for i
    using h(5,6) finished by (cases "i = k") simp_all
  have queued: "qst_status (stq_rows (finish_emit res q) ! i) = QsQueued" if "i \<in> set ks" for i using h(2,6,10) that by metis
  show ?thesis unfolding queue_ok_iff h(4,7,8,9) if_False
    using h(2,3,11,12,13) pending queued by blast
qed

lemma queue_reach_ok: "queue_reach s \<Longrightarrow> queue_ok s"
proof (induction rule: queue_reach.induct)
  case reach_new
  show ?case by (simp add: queue_ok_def new_settlement_queue_def)
next
  case (reach_step s s')
  from reach_step.hyps(2) reach_step.IH show ?case
    by (cases rule: queue_step.cases) (auto intro: queue_ok_enqueue queue_ok_start queue_ok_finish)
qed



definition drain_round :: "'m settlement_queue \<Rightarrow> string + string \<Rightarrow> 'm settlement_queue" where
  "drain_round q res = (case start_emit q of Some q' \<Rightarrow> finish_emit res q' | None \<Rightarrow> q)"

lemma drain_round_ok:
  assumes "queue_ok (q, False)" shows "queue_ok (drain_round q res, False) \<and> stq_fifo (drain_round q res) = tl (stq_fifo q)"
proof (cases "start_emit q")
  case None
  then show ?thesis using assms drop_settled_ok [OF assms] by (simp add: drain_round_def start_emit_def split: list.splits)
next
  case (Some q')
  then have "stq_fifo q' = stq_fifo q" using drop_settled_ok [OF assms] by (auto simp: start_emit_def split: list.splits)
  then show ?thesis using Some queue_ok_finish [OF queue_ok_start [OF assms Some]]
    by (simp add: drain_round_def finish_emit_def split: list.splits)
qed

text \<open>
  C28. From any reachable state in which no emission runs, as many emissions as the FIFO has rows empty it, whether they succeed or fail: after that no row is pending.
\<close>

theorem settlement_queue_drains:
  assumes "queue_reach (q, False)" "length ress = length (stq_fifo q)"
  shows "stq_fifo (foldl drain_round q ress) = [] \<and> list_all (\<lambda>r. \<not> pending_row r) (stq_rows (foldl drain_round q ress))"
proof -
  have "queue_ok (q, False) \<Longrightarrow> queue_ok (foldl drain_round q ress, False) \<and> stq_fifo (foldl drain_round q ress) = drop (length ress) (stq_fifo q)" for q :: "'a settlement_queue"
    by (induction ress arbitrary: q) (simp_all add: drain_round_ok drop_Suc)
  from this [OF queue_reach_ok [OF assms(1)]] have ok: "queue_ok (foldl drain_round q ress, False)" and empty: "stq_fifo (foldl drain_round q ress) = []"
    by (simp_all add: assms(2))
  then show ?thesis unfolding queue_ok_iff by (simp add: list_all_length)
qed

theorem settlement_queue_drains_witness:
  "(let q = enqueue_settlement 0 ''m1'' () new_settlement_queue; ress = [Inr ''tx'']
    in stq_fifo (foldl drain_round q ress) = [] \<and> list_all (\<lambda>r. \<not> pending_row r) (stq_rows (foldl drain_round q ress)))"
  unfolding Let_def
  by (rule settlement_queue_drains [OF reach_step [OF reach_new step_enqueue]]) (simp add: enqueue_settlement_def new_settlement_queue_def getStatus_def)

subsection \<open>What earns\<close>

definition earning :: "(real \<Rightarrow> string) \<Rightarrow> chain_event \<Rightarrow> bool" where
  "earning ns e \<longleftrightarrow> mi_plane e \<noteq> PlaneArc \<and> 0 < baseRewardWeight ns e"

definition earned_sums :: "earned \<Rightarrow> bool" where
  "earned_sums m \<longleftrightarrow> list_all (\<lambda>kv. snd (snd kv) = sum_list (map pcn_value (fst (snd kv)))) m"

definition earned_count :: "earned \<Rightarrow> nat" where
  "earned_count m = sum_list (map (\<lambda>kv. length (fst (snd kv))) m)"

lemma put_earned:
  "earned_sums m \<Longrightarrow> t = sum_list (map pcn_value cs) \<Longrightarrow> earned_sums (js_put k (cs, t) m)"
  by (induction m) (auto simp: earned_sums_def)

lemma count_put:
  "earned_count (js_put k (cs @ [c], t) m) = earned_count m + 1 + (if js_get m k = None then length cs else 0)
     + (case js_get m k of Some x \<Rightarrow> length cs - length (fst x) | None \<Rightarrow> 0)"
  if "case js_get m k of Some x \<Rightarrow> fst x = cs | None \<Rightarrow> True"
  using that by (induction m) (auto simp: earned_count_def split: if_splits)

lemma earn_step:
  assumes "earned_sums m"
  shows "earned_sums (earn ns g events m e) \<and> earned_count (earn ns g events m e) = earned_count m + (if earning ns e then 1 else 0)"
proof (cases "earning ns e")
  case False
  then show ?thesis using assms by (auto simp: earn_def earning_def Let_def)
next
  case True
  obtain cs total where acc: "default_to (js_get m (mi_actorId e)) ([], 0) = (cs, total)" by force
  have total: "total = sum_list (map pcn_value cs)"
    using acc assms by (cases "js_get m (mi_actorId e)") (auto simp: earned_sums_def list_all_iff dest!: map_of_SomeD)
  have eq: "earn ns g events m e = js_put (mi_actorId e) (cs @ [\<lparr> pcn_eventType = mi_eventType e, pcn_eventHash = mi_eventHash e,
      pcn_latticeScore = latticeTrust01 (mi_actorId e) g, pcn_checkpointHash = checkpointHashBefore events (mi_timestamp e),
      pcn_value = baseRewardWeight ns e * latticeTrust01 (mi_actorId e) g \<rparr>], total + baseRewardWeight ns e * latticeTrust01 (mi_actorId e) g) m"
    using True acc by (simp add: earn_def earning_def Let_def not_le)
  show ?thesis unfolding eq
  proof (intro conjI)
    show "earned_sums (js_put (mi_actorId e) (cs @ [\<lparr> pcn_eventType = mi_eventType e, pcn_eventHash = mi_eventHash e,
      pcn_latticeScore = latticeTrust01 (mi_actorId e) g, pcn_checkpointHash = checkpointHashBefore events (mi_timestamp e),
      pcn_value = baseRewardWeight ns e * latticeTrust01 (mi_actorId e) g \<rparr>], total + baseRewardWeight ns e * latticeTrust01 (mi_actorId e) g) m)"
      by (rule put_earned [OF assms]) (simp add: total)
  qed (use True acc in \<open>subst count_put; auto simp: default_to_def split: option.splits\<close>)
qed


subsection \<open>Sealing\<close>

lemma checkpoint_of_arc_rows:
  "list_all (\<lambda>e. mi_plane e = PlaneArc \<and> mi_eventType e \<noteq> ''recovery_checkpoint'' \<and> mi_eventType e \<noteq> ''mission_created'') rows
     \<Longrightarrow> checkpointHashBefore (es @ rows) t = checkpointHashBefore es t"
proof -
  assume arc: "list_all (\<lambda>e. mi_plane e = PlaneArc \<and> mi_eventType e \<noteq> ''recovery_checkpoint'' \<and> mi_eventType e \<noteq> ''mission_created'') rows"
  have checkpoints: "filter (\<lambda>e. mi_eventType e = ''recovery_checkpoint'' \<and> mi_timestamp e \<le> t) (es @ rows)
      = filter (\<lambda>e. mi_eventType e = ''recovery_checkpoint'' \<and> mi_timestamp e \<le> t) es"
    unfolding filter_append using arc by (induction rows) simp_all
  have created: "List.find (\<lambda>e. mi_eventType e = ''mission_created'') (es @ rows) = List.find (\<lambda>e. mi_eventType e = ''mission_created'') es"
    using arc by (induction es) (induction rows, simp_all)
  show ?thesis unfolding checkpointHashBefore_def checkpoints created ..
qed

lemma arc_rows_earn_nothing:
  assumes "list_all (\<lambda>e. mi_plane e = PlaneArc \<and> mi_eventType e \<noteq> ''recovery_checkpoint'' \<and> mi_eventType e \<noteq> ''mission_created'') rows"
  shows "earned_by_node ns g (es @ rows) = earned_by_node ns g es"
proof -
  have "earn ns g (es @ rows) = earn ns g es"
    unfolding earn_def checkpoint_of_arc_rows [OF assms] ..
  moreover have "foldl (earn ns g es) acc rows = acc" for acc
    using assms by (induction rows arbitrary: acc) (simp_all add: earn_def)
  ultimately show ?thesis by (simp add: earned_by_node_def)
qed

lemma reward_manifest_cases:
  "buildMissionRewardManifest H ns rd fx lc lg g m t sc = Inl e \<longleftrightarrow> phase_of ns rd lg m \<notin> set TERMINAL_PHASES \<and> e = ''Rewards only for terminal missions''"
  "buildMissionRewardManifest H ns rd fx lc lg g m t sc = Inr r \<Longrightarrow>
     rwm_totalPool r = fx 4 (foldl (\<lambda>s nr. s + snd nr) 0 (js_values (earned_by_node ns g (eventsForMission m lg)))) @ '' HBAR''
   \<and> rwm_merkleProofRoot r = contributionMerkleRoot H ns (concat (map fst (js_values (earned_by_node ns g (eventsForMission m lg)))))"
  by (auto simp: buildMissionRewardManifest_def Let_def phase_of_any split: if_splits)

lemma seal_cases:
  assumes "sealArcSettlement H ns rd pf fx lc g m t lg = (res, lg')"
  obtains "phase_of ns rd lg m \<notin> set TERMINAL_PHASES" "res = Inl ''mission_not_terminal''" "lg' = lg"
  | s p1 p2 sc where "phase_of ns rd lg m \<in> set TERMINAL_PHASES" "res = Inr s"
      "buildMissionRewardManifest H ns rd fx lc lg g m t sc = Inr (ars_rewardManifest s)"
      "lg' = (let lg1 = lg @ [api_row H ns m ''arc-settlement'' ''settlement_manifest_sealed'' PlaneArc p1 (t + 1) lg]
              in lg1 @ [api_row H ns m ''arc-settlement'' ''proof_anchored'' PlaneArc p2 (t + 2) lg1])"
proof (cases "phase_of ns rd lg m \<in> set TERMINAL_PHASES")
  case False
  then have shut: "phase_of ns rd lg m \<noteq> PComplete \<and> phase_of ns rd lg m \<noteq> PAborted" by (auto simp: TERMINAL_PHASES_def)
  have "(Inl ''mission_not_terminal'', lg) = (res, lg')"
    using assms unfolding sealArcSettlement_def Let_def phase_of_any if_P [OF shut] .
  then show ?thesis using that(1) [OF False] by simp
next
  case True
  let ?sc = "default_to (ms_scenario (replayMissionFromLedger ns rd t lg m)) ''collapsed_building''"
  obtain rm where rm: "buildMissionRewardManifest H ns rd fx lc lg g m t ?sc = Inr rm"
    using True reward_manifest_cases(1) by (cases "buildMissionRewardManifest H ns rd fx lc lg g m t ?sc") blast+
  have open_gate: "\<not> (phase_of ns rd lg m \<noteq> PComplete \<and> phase_of ns rd lg m \<noteq> PAborted)" using True by (auto simp: TERMINAL_PHASES_def)
  have "\<exists>s p1 p2. sealArcSettlement H ns rd pf fx lc g m t lg = (Inr s,
      (lg @ [api_row H ns m ''arc-settlement'' ''settlement_manifest_sealed'' PlaneArc p1 (t + 1) lg])
        @ [api_row H ns m ''arc-settlement'' ''proof_anchored'' PlaneArc p2 (t + 2)
            (lg @ [api_row H ns m ''arc-settlement'' ''settlement_manifest_sealed'' PlaneArc p1 (t + 1) lg])])
      \<and> ars_rewardManifest s = rm"
    unfolding sealArcSettlement_def Let_def phase_of_any if_not_P [OF open_gate] rm sum.case append_row_eq
    by (intro exI conjI, rule refl) (simp only: arc_settlement.simps)
  then obtain s p1 p2 where s: "res = Inr s" "lg' = (lg @ [api_row H ns m ''arc-settlement'' ''settlement_manifest_sealed'' PlaneArc p1 (t + 1) lg])
        @ [api_row H ns m ''arc-settlement'' ''proof_anchored'' PlaneArc p2 (t + 2)
            (lg @ [api_row H ns m ''arc-settlement'' ''settlement_manifest_sealed'' PlaneArc p1 (t + 1) lg])]" "ars_rewardManifest s = rm"
    unfolding assms by blast
  show ?thesis by (rule that(2) [OF True s(1) rm [folded s(3)]]) (simp add: s(2) Let_def)
qed

text \<open>
  Sealing a mission that is not in a terminal phase is refused and leaves the ledger alone. Otherwise it appends the two Arc rows, keeps the
  phase and the validity of the chain, and changes no reward: a second sealing succeeds too and pays out the same pool under the same proof root.
\<close>

theorem sealing_keeps_rewards:
  "(case sealArcSettlement H ns rd pf fx lc g m t lg of
      (Inl e, lg') \<Rightarrow> phase_of ns rd lg m \<notin> set TERMINAL_PHASES \<and> e = ''mission_not_terminal'' \<and> lg' = lg
    | (Inr s, lg') \<Rightarrow> phase_of ns rd lg m \<in> set TERMINAL_PHASES
        \<and> take (length lg) lg' = lg \<and> map mi_eventType (drop (length lg) lg') = [''settlement_manifest_sealed'', ''proof_anchored'']
        \<and> (verifyChain H ns lg' = ChainOk) = (verifyChain H ns lg = ChainOk) \<and> phase_of ns rd lg' m = phase_of ns rd lg m
        \<and> (case fst (sealArcSettlement H ns rd pf fx lc g m t' lg') of
             Inl e \<Rightarrow> False
           | Inr s' \<Rightarrow> rwm_totalPool (ars_rewardManifest s') = rwm_totalPool (ars_rewardManifest s)
               \<and> rwm_merkleProofRoot (ars_rewardManifest s') = rwm_merkleProofRoot (ars_rewardManifest s)))"
proof -
  obtain res lg' where eq: "sealArcSettlement H ns rd pf fx lc g m t lg = (res, lg')" by force
  then show ?thesis
  proof (cases rule: seal_cases)
    case 1
    then show ?thesis by (simp add: eq)
  next
    case (2 s p1 p2 sc)
    let ?r1 = "api_row H ns m ''arc-settlement'' ''settlement_manifest_sealed'' PlaneArc p1 (t + 1) lg"
    let ?r2 = "api_row H ns m ''arc-settlement'' ''proof_anchored'' PlaneArc p2 (t + 2) (lg @ [?r1])"
    have lg': "lg' = (lg @ [?r1]) @ [?r2]" using 2(4) by (simp add: Let_def)
    have rows: "take (length lg) lg' = lg" "map mi_eventType (drop (length lg) lg') = [''settlement_manifest_sealed'', ''proof_anchored'']"
      by (simp_all add: lg')
    have chain: "(verifyChain H ns lg' = ChainOk) = (verifyChain H ns lg = ChainOk)" unfolding lg' api_row_verifies ..
    have phase: "phase_of ns rd lg' m = phase_of ns rd lg m"
    proof -
      have "phase_of ns rd lg' m = phase_of ns rd (lg @ [?r1]) m" unfolding lg' by (rule other_kinds_keep_phase) simp_all
      also have "\<dots> = phase_of ns rd lg m" by (rule other_kinds_keep_phase) simp_all
      finally show ?thesis .
    qed
    have mine: "eventsForMission m lg' = eventsForMission m lg @ [?r1, ?r2]" by (simp add: lg' eventsForMission_def)
    have earned: "earned_by_node ns g (eventsForMission m lg') = earned_by_node ns g (eventsForMission m lg)"
      unfolding mine by (rule arc_rows_earn_nothing) simp
    obtain res2 lg2 where eq2: "sealArcSettlement H ns rd pf fx lc g m t' lg' = (res2, lg2)" by force
    then show ?thesis
    proof (cases rule: seal_cases)
      case 1
      then show ?thesis using 2(1) phase by simp
    next
      case (2 s' p1' p2' sc')
      have "rwm_totalPool (ars_rewardManifest s') = rwm_totalPool (ars_rewardManifest s)"
        and "rwm_merkleProofRoot (ars_rewardManifest s') = rwm_merkleProofRoot (ars_rewardManifest s)"
        using reward_manifest_cases(2) [OF 2(3)] reward_manifest_cases(2) [OF \<open>buildMissionRewardManifest H ns rd fx lc lg g m t sc = Inr (ars_rewardManifest s)\<close>]
        unfolding earned by simp_all
      then show ?thesis using chain phase rows 2(1,2) \<open>res = Inr s\<close> \<open>phase_of ns rd lg m \<in> set TERMINAL_PHASES\<close> by (simp add: eq eq2)
    qed
  qed
qed

subsection \<open>Evidence bounds\<close>

text \<open>
  An evidence bundle holds one item for every row of the mission of an evidential kind outside the Arc plane, in ledger order, and every
  confidence and capability match lies between zero and one.
\<close>

theorem evidence_exact:
  "(let items = evb_items (buildEvidenceBundle H ns m lg g)
    in map evi_ledgerHash items = map mi_eventHash (filter (\<lambda>e. mi_missionId e = m \<and> mi_plane e \<noteq> PlaneArc
           \<and> mi_eventType e \<in> {''target_discovered'', ''target_confirmed'', ''safety_alert'', ''extraction_confirmed''}) lg)
     \<and> list_all (\<lambda>i. 0 \<le> evi_confidence i \<and> evi_confidence i \<le> 1 \<and> 0 \<le> evi_capabilityMatch i \<and> evi_capabilityMatch i \<le> 1) items)"
proof -
  have conf: "0 \<le> confidenceFromPayload p \<and> confidenceFromPayload p \<le> 1" for p
    by (simp add: confidenceFromPayload_def split: option.split json.split)
  have cap: "0 \<le> capabilityMatch g i k \<and> capabilityMatch g i k \<le> 1" for i k
    by (simp add: capabilityMatch_def Let_def)
  have kinds: "(classifyEvidence k = None) = (k \<notin> {''target_discovered'', ''target_confirmed'', ''safety_alert'', ''extraction_confirmed''})" for k
    by (simp add: classifyEvidence_def)
  have "map evi_ledgerHash (List.map_filter (evidence_of g m) lg) = map mi_eventHash (filter (\<lambda>e. mi_missionId e = m \<and> mi_plane e \<noteq> PlaneArc
           \<and> mi_eventType e \<in> {''target_discovered'', ''target_confirmed'', ''safety_alert'', ''extraction_confirmed''}) lg)"
  proof (induction lg)
    case (Cons e lg)
    then show ?case using kinds [of "mi_eventType e"] by (cases "classifyEvidence (mi_eventType e)") (simp_all add: evidence_of_def List.map_filter_simps)
  qed (simp add: List.map_filter_simps)
  moreover have "list_all (\<lambda>i. 0 \<le> evi_confidence i \<and> evi_confidence i \<le> 1 \<and> 0 \<le> evi_capabilityMatch i \<and> evi_capabilityMatch i \<le> 1)
      (List.map_filter (evidence_of g m) lg)"
    by (induction lg) (auto simp: List.map_filter_simps evidence_of_def conf cap split: option.splits if_splits)
  ultimately show ?thesis by (simp add: buildEvidenceBundle_def Let_def)
qed

end
