(* ===== verification/SwarmDiscovery.thy ===== *)
theory SwarmDiscovery
  imports FoxSync "HOL-Library.Word"
begin

section \<open>Discovery, role handoff and messages of the swarm\<close>

text \<open>
  Models \<open>seededRng.ts\<close>, \<open>targetDiscovery.ts\<close>, \<open>roleManager.ts\<close> and \<open>messageBus.ts\<close> of \<open>src/src/swarm\<close>. Objects that
  the code finds in a map or list and then changes are written back under their identifier. A generator is a stream of draws
  with the number of the next one. The lemmas show what the pipeline keeps of its candidates, that the handoff
  history explains the roles, and that the bus accounts for every message.
\<close>

unbundle bit_operations_syntax

subsection \<open>The seeded generator\<close>

text \<open>
  The counter of \<open>mulberry32\<close> is a double that the code never reduces; the bit operations read it modulo \<open>2 ^ 32\<close>, which is what
  is kept here. The two agree while the counter is exact, that is for the first 4.9 million draws.
\<close>

definition mulberry_step :: "32 word \<Rightarrow> 32 word" where
  "mulberry_step t = t + 0x6D2B79F5"

definition mulberry_value :: "32 word \<Rightarrow> real" where
  "mulberry_value t =
     (let r0 = (t XOR drop_bit 15 t) * (1 OR t);
          r1 = r0 XOR (r0 + (r0 XOR drop_bit 7 r0) * (61 OR r0))
      in real (unat (r1 XOR drop_bit 14 r1)) / 4294967296)"

definition mulberry32 :: "int \<Rightarrow> nat \<Rightarrow> real" where
  "mulberry32 seed k = mulberry_value ((mulberry_step ^^ (k + 1)) (word_of_int seed))"

text \<open>The message bus seeds its generator with its own seed under exclusive or.\<close>

definition p2p_rng :: "int \<Rightarrow> nat \<Rightarrow> real" where
  "p2p_rng seed = mulberry32 (uint (word_of_int seed XOR 0x9E3779B9 :: 32 word))"

definition unit_draws :: "(nat \<Rightarrow> real) \<Rightarrow> bool" where
  "unit_draws rng \<longleftrightarrow> (\<forall>k. 0 \<le> rng k \<and> rng k < 1)"

lemma word32_unit: "0 \<le> real (unat (w :: 32 word)) / 4294967296 \<and> real (unat w) / 4294967296 < 1"
proof -
  define n where "n = unat w"
  have "n < 2 ^ LENGTH(32)" unfolding n_def by (rule unsigned_less)
  then have "real n < real (4294967296 :: nat)" by (simp only: of_nat_less_iff) simp
  then show ?thesis unfolding n_def [symmetric] by simp
qed

lemma mulberry32_draws: "unit_draws (mulberry32 seed)"
  unfolding unit_draws_def mulberry32_def mulberry_value_def Let_def by (intro allI word32_unit)

subsection \<open>Target candidates\<close>

datatype sensor_kind = SkThermal | SkOptical | SkIr | SkAudio | SkGas | SkLidarShape | SkOperatorNote | SkPeerConfirm | SkReplayArtifact

fun sensor_str :: "sensor_kind \<Rightarrow> string" where
  "sensor_str SkThermal = ''thermal''"
| "sensor_str SkOptical = ''optical''"
| "sensor_str SkIr = ''ir''"
| "sensor_str SkAudio = ''audio''"
| "sensor_str SkGas = ''gas''"
| "sensor_str SkLidarShape = ''lidar_shape''"
| "sensor_str SkOperatorNote = ''operator_note''"
| "sensor_str SkPeerConfirm = ''peer_confirm''"
| "sensor_str SkReplayArtifact = ''replay_artifact''"

record target_evidence =
  tev_id :: ident
  tev_sensor :: sensor_kind
  tev_confidence01 :: real
  tev_nodeId :: ident
  tev_atMs :: timestamp
  tev_note :: "string option"

datatype candidate_status = TcCandidate | TcConfirmed

record target_candidate =
  tca_candidateId :: ident
  tca_missionId :: ident
  tca_gx :: int
  tca_gz :: int
  tca_world :: xyz_point
  tca_evidence :: "target_evidence list"
  tca_mergedConfidence01 :: real
  tca_status :: candidate_status
  tca_confirmedByNodeId :: "ident option"
  tca_trustExplanation :: "string list"

record discovery_pipe =
  dsp_candidates :: "(ident, target_candidate) jsmap"
  dsp_serial :: nat
  dsp_evidenceSerial :: nat

definition new_discovery_pipe :: discovery_pipe where
  "new_discovery_pipe = \<lparr> dsp_candidates = [], dsp_serial = 1, dsp_evidenceSerial = 1 \<rparr>"

definition scenarioSensorWeight :: "string \<Rightarrow> sensor_kind \<Rightarrow> real" where
  "scenarioSensorWeight scenario sensor =
     (let thermal = scenario \<in> set [''wildfire'', ''night_mission'', ''triage_operation'', ''flood_rescue''];
          gas = scenario \<in> set [''hazmat'', ''collapsed_building''];
          lidar = scenario \<in> set [''tunnel'', ''indoor_search'']
      in if sensor = SkThermal \<and> thermal then 115 / 100
         else if sensor = SkGas \<and> gas then 12 / 10
         else if sensor = SkLidarShape \<and> lidar then 112 / 100
         else if sensor = SkPeerConfirm then 125 / 100
         else if sensor = SkOperatorNote then 11 / 10
         else 1)"

definition candidate_near :: "int \<Rightarrow> int \<Rightarrow> target_candidate \<Rightarrow> bool" where
  "candidate_near gx gz c \<longleftrightarrow> \<bar>tca_gx c - gx\<bar> \<le> 1 \<and> \<bar>tca_gz c - gz\<bar> \<le> 1"

definition findOrCreateCandidate :: "ident \<Rightarrow> int \<Rightarrow> int \<Rightarrow> xyz_point \<Rightarrow> discovery_pipe \<Rightarrow> target_candidate \<times> discovery_pipe" where
  "findOrCreateCandidate missionId gx gz world p =
     (case List.find (candidate_near gx gz) (js_values (dsp_candidates p)) of
        Some c \<Rightarrow> (c, p)
      | None \<Rightarrow>
          (let i = ''tgt-'' @ show_nat (dsp_serial p);
               c = \<lparr> tca_candidateId = i, tca_missionId = missionId, tca_gx = gx, tca_gz = gz, tca_world = world, tca_evidence = [],
                     tca_mergedConfidence01 = 0, tca_status = TcCandidate, tca_confirmedByNodeId = None, tca_trustExplanation = [] \<rparr>
           in (c, p\<lparr> dsp_candidates := js_put i c (dsp_candidates p), dsp_serial := dsp_serial p + 1 \<rparr>)))"

definition store_candidate :: "target_candidate \<Rightarrow> discovery_pipe \<Rightarrow> discovery_pipe" where
  "store_candidate c p = p\<lparr> dsp_candidates := js_put (tca_candidateId c) c (dsp_candidates p) \<rparr>"

definition weighed_candidate :: "(nat \<Rightarrow> real \<Rightarrow> string) \<Rightarrow> ident \<Rightarrow> real \<Rightarrow> target_candidate \<Rightarrow> target_candidate" where
  "weighed_candidate fx nodeId w c =
     (let nodes = dedup (map tev_nodeId (tca_evidence c));
          agg = sum_list (map tev_confidence01 (tca_evidence c)) / real (max 1 (length (tca_evidence c)));
          merged = min 1 (agg + (if length nodes \<ge> 2 then 18 / 100 else 0));
          c1 = c\<lparr> tca_mergedConfidence01 := merged,
                  tca_trustExplanation := [''sources='' @ show_nat (length nodes),
                    ''sensors='' @ str_join '','' (map sensor_str (dedup (map tev_sensor (tca_evidence c)))), ''scenario_weight='' @ fx 2 w] \<rparr>
      in if tca_status c = TcCandidate \<and> (merged \<ge> 82 / 100 \<or> length nodes \<ge> 2)
         then c1\<lparr> tca_status := TcConfirmed, tca_confirmedByNodeId := Some (default_to (List.find (\<lambda>i. i \<noteq> nodeId) nodes) nodeId) \<rparr>
         else c1)"

definition addEvidence :: "(nat \<Rightarrow> real \<Rightarrow> string) \<Rightarrow> ident \<Rightarrow> swarm_agent \<Rightarrow> sensor_kind \<Rightarrow> real \<Rightarrow> timestamp \<Rightarrow> string \<Rightarrow> string option \<Rightarrow>
    discovery_pipe \<Rightarrow> (target_candidate \<times> bool) \<times> discovery_pipe" where
  "addEvidence fx missionId node sensor confidence01 nowMs scenario note p =
     (let (gx, gz) = worldToGrid (pos_x (sw_position node)) (pos_z (sw_position node)) 4;
          w = scenarioSensorWeight scenario sensor;
          ev = \<lparr> tev_id = ''ev-'' @ show_nat (dsp_evidenceSerial p), tev_sensor = sensor, tev_confidence01 = min 1 (confidence01 * w),
                 tev_nodeId = sw_nodeId node, tev_atMs = nowMs, tev_note = note \<rparr>;
          (c, p1) = findOrCreateCandidate missionId gx gz (sw_position node) (p\<lparr> dsp_evidenceSerial := dsp_evidenceSerial p + 1 \<rparr>);
          c' = weighed_candidate fx (sw_nodeId node) w (c\<lparr> tca_evidence := tca_evidence c @ [ev] \<rparr>)
      in ((c', tca_status c = TcCandidate \<and> tca_status c' = TcConfirmed), store_candidate c' p1))"

text \<open>A hit reads the generator at the draws from \<open>k\<close> on and returns the number of the next draw.\<close>

definition maybeSensorHit :: "swarm_agent \<Rightarrow> string \<Rightarrow> (nat \<Rightarrow> real) \<Rightarrow> nat \<Rightarrow> (sensor_kind \<times> real \<times> string option) option \<times> nat" where
  "maybeSensorHit node scenario rng k =
     (let cp = sw_capabilities node; sensors = cp_sensors cp;
          thermal = ''thermal'' \<in> set sensors; k1 = (if thermal then k + 1 else k)
      in if thermal \<and> rng k < 8 / 100 + cp_thermalScore cp * (6 / 100)
         then (Some (SkThermal, 55 / 100 + cp_thermalScore cp * (25 / 100) + rng k1 * (12 / 100), None), k1 + 1)
         else let lidar = ''lidar'' \<in> set sensors; k2 = (if lidar then k1 + 1 else k1)
         in if lidar \<and> rng k1 < 6 / 100 + cp_lidarScore cp * (5 / 100)
         then (Some (SkLidarShape, 1 / 2 + cp_lidarScore cp * (28 / 100) + rng k2 * (12 / 100), None), k2 + 1)
         else let optical = ''optical'' \<in> set sensors; k3 = (if optical then k2 + 1 else k2)
         in if optical \<and> rng k2 < 5 / 100 + cp_lowLightScore cp * (4 / 100)
         then (Some (SkOptical, 45 / 100 + rng k3 * (2 / 10) + rng (k3 + 1) * (12 / 100), None), k3 + 2)
         else let gas = list_ex (\<lambda>s. str_includes s ''gas'') sensors \<and> scenario = ''hazmat''; k4 = (if gas then k3 + 1 else k3)
         in if gas \<and> rng k3 < 7 / 100
         then (Some (SkGas, 62 / 100 + rng k4 * (15 / 100), Some ''plume_edge''), k4 + 1)
         else let audio = list_ex (\<lambda>s. str_includes s ''audio'') sensors \<and> scenario \<in> set [''collapsed_building'', ''triage_operation''];
                  k5 = (if audio then k4 + 1 else k4)
         in if audio \<and> rng k4 < 5 / 100
         then (Some (SkAudio, 48 / 100 + rng k5 * (2 / 10), None), k5 + 1)
         else (None, k5))"

definition injectOperatorNote :: "ident \<Rightarrow> int \<Rightarrow> int \<Rightarrow> xyz_point \<Rightarrow> timestamp \<Rightarrow> discovery_pipe \<Rightarrow> target_candidate \<times> discovery_pipe" where
  "injectOperatorNote missionId gx gz world nowMs p =
     (let (c, p1) = findOrCreateCandidate missionId gx gz world p;
          c' = c\<lparr> tca_evidence := tca_evidence c @ [\<lparr> tev_id = ''ev-'' @ show_nat (dsp_evidenceSerial p1), tev_sensor = SkOperatorNote,
                    tev_confidence01 = 3 / 4, tev_nodeId = ''operator'', tev_atMs = nowMs, tev_note = Some ''manual_inject'' \<rparr>],
                  tca_mergedConfidence01 := min 1 (tca_mergedConfidence01 c + 2 / 10),
                  tca_trustExplanation := tca_trustExplanation c @ [''operator_note_injected''] \<rparr>
      in (c', store_candidate c' (p1\<lparr> dsp_evidenceSerial := dsp_evidenceSerial p1 + 1 \<rparr>)))"

definition confirmedTargets :: "discovery_pipe \<Rightarrow> target_candidate list" where
  "confirmedTargets p = filter (\<lambda>c. tca_status c = TcConfirmed) (js_values (dsp_candidates p))"

definition nearer_confirmer :: "target_candidate \<Rightarrow> (swarm_agent \<times> real) option \<Rightarrow> swarm_agent \<Rightarrow> (swarm_agent \<times> real) option" where
  "nearer_confirmer c best n =
     (if (case tca_evidence c of e # _ \<Rightarrow> sw_nodeId n = tev_nodeId e | [] \<Rightarrow> False) then best
      else let d = ground_dist (sw_position n) (tca_world c)
           in case best of None \<Rightarrow> Some (n, d) | Some (b, bd) \<Rightarrow> if d < bd then Some (n, d) else best)"

definition nearestConfirmer :: "target_candidate \<Rightarrow> swarm_agent list \<Rightarrow> swarm_agent option" where
  "nearestConfirmer c nodes = map_option fst (foldl (nearer_confirmer c) None nodes)"

subsection \<open>Role handoff\<close>

text \<open>The nodes are told apart by their identifiers, which are distinct in every node list of the program.\<close>

record handoff_record =
  ho_atMs :: timestamp
  ho_nodeId :: ident
  ho_fromRole :: mission_node_role
  ho_toRole :: mission_node_role
  ho_reason :: string
  ho_evidence :: string

text \<open>What the evaluation changes: the nodes, the history (newest first), the records of this call and the draws used.\<close>

record handoff_run =
  hf_nodes :: "swarm_agent list"
  hf_history :: "handoff_record list"
  hf_delta :: "handoff_record list"
  hf_draws :: nat

definition sortByMesh :: "swarm_agent list \<Rightarrow> swarm_agent list" where
  "sortByMesh nodes = js_sort (by_desc (\<lambda>n. cp_meshRangeM (sw_capabilities n))) nodes"

definition handoff_of :: "swarm_agent \<Rightarrow> mission_node_role \<Rightarrow> string \<Rightarrow> string \<Rightarrow> timestamp \<Rightarrow> handoff_record" where
  "handoff_of n to_role reason evidence nowMs =
     \<lparr> ho_atMs = nowMs, ho_nodeId = sw_nodeId n, ho_fromRole = sw_role n, ho_toRole = to_role, ho_reason = reason, ho_evidence = evidence \<rparr>"

definition set_role :: "ident \<Rightarrow> mission_node_role \<Rightarrow> swarm_agent list \<Rightarrow> swarm_agent list" where
  "set_role i r nodes = map (\<lambda>n. if sw_nodeId n = i then n\<lparr> sw_role := r \<rparr> else n) nodes"

definition applyHandoff :: "swarm_agent \<Rightarrow> mission_node_role \<Rightarrow> string \<Rightarrow> string \<Rightarrow> timestamp \<Rightarrow> swarm_agent list \<times> handoff_record list \<Rightarrow>
    bool \<times> swarm_agent list \<times> handoff_record list" where
  "applyHandoff node to_role reason evidence nowMs s =
     (if sw_role node = to_role then (False, s)
      else (True, set_role (sw_nodeId node) to_role (fst s), handoff_of node to_role reason evidence nowMs # snd s))"

definition hand_over :: "swarm_agent \<Rightarrow> mission_node_role \<Rightarrow> string \<Rightarrow> string \<Rightarrow> timestamp \<Rightarrow> handoff_run \<Rightarrow> handoff_run" where
  "hand_over node to_role reason evidence nowMs s =
     (case applyHandoff node to_role reason evidence nowMs (hf_nodes s, hf_history s) of
        (changed, nodes, history) \<Rightarrow>
          s\<lparr> hf_nodes := nodes, hf_history := history, hf_delta := (if changed then hf_delta s @ [hd history] else hf_delta s) \<rparr>)"

definition promote_mesh :: "timestamp \<Rightarrow> handoff_run \<Rightarrow> handoff_run" where
  "promote_mesh nowMs s =
     (case (List.find (\<lambda>n. sw_role n = MrRelay) (hf_nodes s), sortByMesh (hf_nodes s)) of
        (Some relay, best # _) \<Rightarrow>
          if sw_nodeId best \<noteq> sw_nodeId relay \<and> cp_meshRangeM (sw_capabilities best) > cp_meshRangeM (sw_capabilities relay)
          then hand_over best MrRelay ''mesh_promotion'' ''highest_range_during_partition'' nowMs s else s
      | _ \<Rightarrow> s)"

definition isolate_explorer :: "timestamp \<Rightarrow> (nat \<Rightarrow> real) \<Rightarrow> ident list \<Rightarrow> handoff_run \<Rightarrow> ident \<Rightarrow> handoff_run" where
  "isolate_explorer nowMs rng operatorReachable s i =
     (case List.find (\<lambda>n. sw_nodeId n = i) (hf_nodes s) of
        None \<Rightarrow> s
      | Some n \<Rightarrow>
          if sw_role n \<noteq> MrExplorer then s
          else if i \<in> set operatorReachable then s
          else let s1 = s\<lparr> hf_draws := hf_draws s + 1 \<rparr>
               in if rng (hf_draws s) < 35 / 100 then hand_over n MrRelay ''local_relay'' ''isolated_explorer_keeps_mesh'' nowMs s1 else s1)"

definition triage_target :: "timestamp \<Rightarrow> (nat \<Rightarrow> real) \<Rightarrow> handoff_run \<Rightarrow> target_candidate \<Rightarrow> handoff_run" where
  "triage_target nowMs rng s t =
     (case js_sort (by_desc (\<lambda>n. cp_thermalScore (sw_capabilities n)))
             (filter (\<lambda>n. sw_role n = MrCarrier \<or> cp_gripperScore (sw_capabilities n) > 1 / 2) (hf_nodes s)) of
        [] \<Rightarrow> s
      | medic # _ \<Rightarrow>
          if sw_role medic \<noteq> MrCarrier then s
          else let s1 = s\<lparr> hf_draws := hf_draws s + 1 \<rparr>
               in if rng (hf_draws s) < 55 / 100
                  then hand_over medic MrMedic ''triage_after_target'' (''target='' @ tca_candidateId t) nowMs s1 else s1)"

definition extract_target :: "timestamp \<Rightarrow> (nat \<Rightarrow> real) \<Rightarrow> handoff_run \<Rightarrow> target_candidate \<Rightarrow> handoff_run" where
  "extract_target nowMs rng s t =
     (case js_sort (by_desc (\<lambda>n. cp_maxPayloadKg (sw_capabilities n)))
             (filter (\<lambda>n. cp_gripperScore (sw_capabilities n) > 7 / 10) (hf_nodes s)) of
        [] \<Rightarrow> s
      | rescuer # _ \<Rightarrow>
          if sw_role rescuer \<noteq> MrMedic then s
          else let s1 = s\<lparr> hf_draws := hf_draws s + 1 \<rparr>
               in if rng (hf_draws s) < 4 / 10
                  then hand_over rescuer MrCarrier ''extraction_handoff'' (''payload_for='' @ tca_candidateId t) nowMs s1 else s1)"

definition interim_command :: "timestamp \<Rightarrow> (nat \<Rightarrow> real) \<Rightarrow> handoff_run \<Rightarrow> handoff_run" where
  "interim_command nowMs rng s =
     (case List.find (\<lambda>n. sw_role n = MrRelay \<or> sw_role n = MrObserver) (hf_nodes s) of
        None \<Rightarrow> s
      | Some standby \<Rightarrow>
          let s1 = s\<lparr> hf_draws := hf_draws s + 1 \<rparr>
          in if rng (hf_draws s) < 1 / 4
             then hand_over standby MrObserver ''interim_command'' ''operator_unreachable'' nowMs s1 else s1)"

definition mesh_leader :: "swarm_agent list \<Rightarrow> swarm_agent option" where
  "mesh_leader nodes =
     (let order = sortByMesh nodes
      in case List.find (\<lambda>n. sw_role n = MrObserver) order of Some n \<Rightarrow> Some n
         | None \<Rightarrow> (case order of n # _ \<Rightarrow> Some n | [] \<Rightarrow> None))"

definition partition_handoffs :: "connectivity_mode \<Rightarrow> ident list \<Rightarrow> timestamp \<Rightarrow> (nat \<Rightarrow> real) \<Rightarrow> handoff_run \<Rightarrow> handoff_run" where
  "partition_handoffs mode operatorReachable nowMs rng s =
     (if mode = CmBlackout \<or> mode = CmPartialPartition
      then let s1 = s\<lparr> hf_draws := hf_draws s + 1 \<rparr>
           in if rng (hf_draws s) < 45 / 100
              then foldl (isolate_explorer nowMs rng operatorReachable) (promote_mesh nowMs s1) (map sw_nodeId (hf_nodes s)) else s1
      else s)"

definition evaluateHandoffs :: "swarm_agent list \<Rightarrow> connectivity_mode \<Rightarrow> target_candidate list \<Rightarrow> ident list \<Rightarrow> timestamp \<Rightarrow>
    (nat \<Rightarrow> real) \<Rightarrow> nat \<Rightarrow> handoff_record list \<Rightarrow> handoff_run" where
  "evaluateHandoffs nodes mode confirmed operatorReachable nowMs rng k history =
     (let leader = mesh_leader nodes;
          s1 = partition_handoffs mode operatorReachable nowMs rng
                 \<lparr> hf_nodes = nodes, hf_history = history, hf_delta = [], hf_draws = k \<rparr>;
          s2 = foldl (\<lambda>s t. extract_target nowMs rng (triage_target nowMs rng s t) t) s1 confirmed
      in if (case leader of Some n \<Rightarrow> sw_nodeId n \<notin> set operatorReachable | None \<Rightarrow> False) \<and> mode \<noteq> CmNormal
         then interim_command nowMs rng s2 else s2)"

subsection \<open>The message bus\<close>

datatype p2p_topic = TopStateSync | TopMapDelta | TopTaskBid | TopTargetEvidence | TopHeartbeat

record p2p_message =
  ppm_id :: ident
  ppm_from :: ident
  ppm_to :: ident
  ppm_topic :: p2p_topic
  ppm_payload :: json
  ppm_createdAtMs :: int
  ppm_deliverAfterMs :: int
  ppm_attempts :: int

record p2p_bus =
  ppb_queues :: "(ident, p2p_message list) jsmap"
  ppb_serial :: nat
  ppb_draws :: nat

definition new_p2p_bus :: p2p_bus where
  "new_p2p_bus = \<lparr> ppb_queues = [], ppb_serial = 1, ppb_draws = 0 \<rparr>"

text \<open>\<open>q\<close> creates the queue of a peer when it is first asked for.\<close>

definition peer_queue :: "ident \<Rightarrow> p2p_bus \<Rightarrow> p2p_message list \<times> p2p_bus" where
  "peer_queue peer b =
     (case js_get (ppb_queues b) peer of Some q \<Rightarrow> (q, b) | None \<Rightarrow> ([], b\<lparr> ppb_queues := js_put peer [] (ppb_queues b) \<rparr>))"

definition p2p_enqueue :: "ident \<Rightarrow> ident \<Rightarrow> p2p_topic \<Rightarrow> json \<Rightarrow> int \<Rightarrow> int \<Rightarrow> int option \<Rightarrow> p2p_bus \<Rightarrow> p2p_message \<times> p2p_bus" where
  "p2p_enqueue sender receiver topic payload createdAtMs deliverAfterMs attempts b =
     (let m = \<lparr> ppm_id = ''p2p-'' @ show_nat (ppb_serial b), ppm_from = sender, ppm_to = receiver, ppm_topic = topic, ppm_payload = payload,
            ppm_createdAtMs = createdAtMs, ppm_deliverAfterMs = deliverAfterMs, ppm_attempts = default_to attempts 0 \<rparr>;
          (q, b1) = peer_queue receiver (b\<lparr> ppb_serial := ppb_serial b + 1 \<rparr>)
      in (m, b1\<lparr> ppb_queues := js_put receiver (q @ [m]) (ppb_queues b1) \<rparr>))"

record p2p_sweep =
  psw_remain :: "p2p_message list"
  psw_delivered :: "p2p_message list"
  psw_dropped :: nat
  psw_draws :: nat

definition message_loss :: "real \<Rightarrow> p2p_message \<Rightarrow> real \<Rightarrow> real" where
  "message_loss lossBias m draw =
     max 0 (min (65 / 100) (22 / 100 - real_of_int (ppm_attempts m) * (4 / 100) + lossBias + (draw - 1 / 2) * (8 / 100)))"

definition retried :: "int \<Rightarrow> real \<Rightarrow> p2p_message \<Rightarrow> p2p_message" where
  "retried nowMs draw m = m\<lparr> ppm_attempts := ppm_attempts m + 1,
     ppm_deliverAfterMs := ppm_deliverAfterMs m + 120 + \<lfloor>draw * 200\<rfloor>, ppm_createdAtMs := nowMs \<rparr>"

definition sweep_message :: "int \<Rightarrow> real \<Rightarrow> real \<Rightarrow> (nat \<Rightarrow> real) \<Rightarrow> p2p_sweep \<Rightarrow> p2p_message \<Rightarrow> p2p_sweep" where
  "sweep_message nowMs lossBias dupChance rng s m =
     (let k = psw_draws s
      in if nowMs < ppm_createdAtMs m + ppm_deliverAfterMs m then s\<lparr> psw_remain := psw_remain s @ [m] \<rparr>
         else if rng (k + 1) < message_loss lossBias m (rng k)
         then if ppm_attempts m < 4
              then s\<lparr> psw_dropped := psw_dropped s + 1, psw_remain := psw_remain s @ [retried nowMs (rng (k + 2)) m], psw_draws := k + 3 \<rparr>
              else s\<lparr> psw_dropped := psw_dropped s + 1, psw_draws := k + 2 \<rparr>
         else s\<lparr> psw_delivered := psw_delivered s @ (if rng (k + 2) < dupChance then [m, m\<lparr> ppm_id := ppm_id m @ ''-dup'' \<rparr>] else [m]),
                 psw_draws := k + 3 \<rparr>)"

definition sweep_inbox :: "int \<Rightarrow> real \<Rightarrow> real \<Rightarrow> (nat \<Rightarrow> real) \<Rightarrow> (ident, p2p_message list) jsmap \<times> p2p_sweep \<Rightarrow> ident \<times> p2p_message list \<Rightarrow>
    (ident, p2p_message list) jsmap \<times> p2p_sweep" where
  "sweep_inbox nowMs lossBias dupChance rng acc entry =
     (let s = foldl (sweep_message nowMs lossBias dupChance rng) ((snd acc)\<lparr> psw_remain := [] \<rparr>) (snd entry)
      in (fst acc @ [(fst entry, psw_remain s)], s))"

definition p2p_tick :: "int \<Rightarrow> real option \<Rightarrow> real option \<Rightarrow> (nat \<Rightarrow> real) \<Rightarrow> p2p_bus \<Rightarrow> (p2p_message list \<times> nat) \<times> p2p_bus" where
  "p2p_tick nowMs lossBias dupChance rng b =
     (let (queues, s) = foldl (sweep_inbox nowMs (default_to lossBias 0) (default_to dupChance (4 / 100)) rng)
            ([], \<lparr> psw_remain = [], psw_delivered = [], psw_dropped = 0, psw_draws = ppb_draws b \<rparr>) (ppb_queues b)
      in ((psw_delivered s, psw_dropped s), b\<lparr> ppb_queues := queues, ppb_draws := psw_draws s \<rparr>))"

definition p2p_depth :: "ident \<Rightarrow> p2p_bus \<Rightarrow> nat \<times> p2p_bus" where
  "p2p_depth peer b = (let (q, b1) = peer_queue peer b in (length q, b1))"

subsection \<open>What the pipeline keeps\<close>

datatype pipe_op = PoEvidence ident swarm_agent sensor_kind real timestamp string "string option"
  | PoNote ident int int xyz_point timestamp

text \<open>A run returns the pipeline and, for each operation, the candidate it touched and whether it was promoted.\<close>

fun pipe_apply :: "(nat \<Rightarrow> real \<Rightarrow> string) \<Rightarrow> discovery_pipe \<times> (ident \<times> bool) list \<Rightarrow> pipe_op \<Rightarrow> discovery_pipe \<times> (ident \<times> bool) list" where
  "pipe_apply fx (p, lg) (PoEvidence m node sensor conf now sc note) =
     (case addEvidence fx m node sensor conf now sc note p of ((c, promoted), p') \<Rightarrow> (p', lg @ [(tca_candidateId c, promoted)]))"
| "pipe_apply fx (p, lg) (PoNote m gx gz world now) =
     (case injectOperatorNote m gx gz world now p of (c, p') \<Rightarrow> (p', lg @ [(tca_candidateId c, False)]))"

definition pipe_run :: "(nat \<Rightarrow> real \<Rightarrow> string) \<Rightarrow> pipe_op list \<Rightarrow> discovery_pipe \<times> (ident \<times> bool) list" where
  "pipe_run fx ops = foldl (pipe_apply fx) (new_discovery_pipe, []) ops"

fun plain_evidence :: "pipe_op \<Rightarrow> bool" where
  "plain_evidence (PoEvidence m node sensor conf now sc note) = (conf \<ge> 0)"
| "plain_evidence (PoNote m gx gz world now) = True"

definition candidate_data :: "target_candidate \<Rightarrow> bool" where
  "candidate_data c \<longleftrightarrow> 0 \<le> tca_mergedConfidence01 c \<and> tca_mergedConfidence01 c \<le> 1
     \<and> list_all (\<lambda>e. 0 \<le> tev_confidence01 e \<and> tev_confidence01 e \<le> 1) (tca_evidence c)
     \<and> (case tca_confirmedByNodeId c of None \<Rightarrow> tca_status c = TcCandidate
        | Some n \<Rightarrow> tca_status c = TcConfirmed \<and> n \<in> set (map tev_nodeId (tca_evidence c)))"

definition candidate_sound :: "nat \<Rightarrow> (ident \<times> bool) list \<Rightarrow> ident \<Rightarrow> target_candidate \<Rightarrow> bool" where
  "candidate_sound serial lg i c \<longleftrightarrow> tca_candidateId c = i \<and> (\<exists>n < serial. i = ''tgt-'' @ show_nat n)
     \<and> tca_evidence c \<noteq> [] \<and> candidate_data c
     \<and> count_list lg (i, True) = (if tca_status c = TcConfirmed then 1 else 0)"

definition pipe_ok :: "discovery_pipe \<Rightarrow> (ident \<times> bool) list \<Rightarrow> bool" where
  "pipe_ok p lg \<longleftrightarrow> wf_map (dsp_candidates p)
     \<and> (\<forall>i c. js_get (dsp_candidates p) i = Some c \<longrightarrow> candidate_sound (dsp_serial p) lg i c)
     \<and> (\<forall>i j c d. js_get (dsp_candidates p) i = Some c \<longrightarrow> js_get (dsp_candidates p) j = Some d \<longrightarrow> i \<noteq> j
          \<longrightarrow> \<not> candidate_near (tca_gx d) (tca_gz d) c)
     \<and> (\<forall>i. (i, True) \<in> set lg \<longrightarrow> js_get (dsp_candidates p) i \<noteq> None)"

lemma candidate_near_sym: "candidate_near (tca_gx c) (tca_gz c) d = candidate_near (tca_gx d) (tca_gz d) c"
  by (auto simp: candidate_near_def)

lemma candidate_sound_log:
  "candidate_sound n lg i c \<Longrightarrow> j \<noteq> i \<Longrightarrow> n \<le> n' \<Longrightarrow> candidate_sound n' (lg @ [(j, b)]) i c"
  by (force simp: candidate_sound_def)

lemma find_member: "List.find P xs = Some x \<Longrightarrow> x \<in> set xs"
  by (induction xs) (auto split: if_splits)

lemma findOrCreate_cases:
  assumes "pipe_ok p lg" "findOrCreateCandidate m gx gz w p = (c, p1)"
  obtains (old) "js_get (dsp_candidates p) (tca_candidateId c) = Some c" "p1 = p"
  | (fresh) "tca_candidateId c = ''tgt-'' @ show_nat (dsp_serial p)" "js_get (dsp_candidates p) (tca_candidateId c) = None"
      "p1 = p\<lparr> dsp_candidates := js_put (tca_candidateId c) c (dsp_candidates p), dsp_serial := dsp_serial p + 1 \<rparr>"
      "tca_gx c = gx" "tca_gz c = gz" "tca_status c = TcCandidate" "tca_evidence c = []" "candidate_data c" "tca_mergedConfidence01 c = 0"
      "\<And>i d. js_get (dsp_candidates p) i = Some d \<Longrightarrow> \<not> candidate_near gx gz d"
proof (cases "List.find (candidate_near gx gz) (js_values (dsp_candidates p))")
  case (Some d)
  then have "d = c" "p1 = p" using assms(2) by (simp_all add: findOrCreateCandidate_def)
  moreover have "d \<in> set (js_values (dsp_candidates p))" by (rule find_member [OF Some])
  ultimately have "c \<in> set (js_values (dsp_candidates p))" by simp
  then obtain i where "js_get (dsp_candidates p) i = Some c" using assms(1) by (auto simp: pipe_ok_def js_values_map)
  then show ?thesis using old assms(1) \<open>p1 = p\<close> by (auto simp: pipe_ok_def candidate_sound_def)
next
  case None
  let ?i = "''tgt-'' @ show_nat (dsp_serial p)"
  have unused: "js_get (dsp_candidates p) ?i = None"
  proof (rule ccontr)
    assume "js_get (dsp_candidates p) ?i \<noteq> None"
    then obtain d where "candidate_sound (dsp_serial p) lg ?i d" using assms(1) unfolding pipe_ok_def by blast
    then show False by (auto simp: candidate_sound_def dest: show_nat_inj)
  qed
  have far: "\<not> candidate_near gx gz d" if "js_get (dsp_candidates p) i = Some d" for i d
    using None that assms(1) by (auto simp: find_None_iff pipe_ok_def js_values_map)
  show ?thesis using assms(2) None unused far
    by (intro fresh) (auto simp: findOrCreateCandidate_def Let_def candidate_data_def)
qed

lemma pipe_ok_store:
  assumes ok: "pipe_ok p lg" and found: "findOrCreateCandidate m gx gz w p = (c, p1)"
    and same: "tca_candidateId c' = tca_candidateId c" "tca_gx c' = tca_gx c" "tca_gz c' = tca_gz c"
    and data: "candidate_data c \<Longrightarrow> candidate_data c' \<and> tca_evidence c' \<noteq> []"
    and promoted: "b = (tca_status c = TcCandidate \<and> tca_status c' = TcConfirmed)" "tca_status c = TcConfirmed \<Longrightarrow> tca_status c' = TcConfirmed"
    and p': "dsp_candidates p' = dsp_candidates p1" "dsp_serial p' = dsp_serial p1"
  shows "pipe_ok (store_candidate c' p') (lg @ [(tca_candidateId c, b)])"
proof -
  note status = candidate_status.exhaust [of "tca_status c"]
  let ?i = "tca_candidateId c"
  have wf: "wf_map (dsp_candidates p)" and sound: "\<And>i d. js_get (dsp_candidates p) i = Some d \<Longrightarrow> candidate_sound (dsp_serial p) lg i d"
    and apart: "\<And>i j d e. js_get (dsp_candidates p) i = Some d \<Longrightarrow> js_get (dsp_candidates p) j = Some e \<Longrightarrow> i \<noteq> j \<Longrightarrow> \<not> candidate_near (tca_gx e) (tca_gz e) d"
    and logged: "\<And>i. (i, True) \<in> set lg \<Longrightarrow> js_get (dsp_candidates p) i \<noteq> None"
    using ok unfolding pipe_ok_def by blast+
  have serial: "dsp_serial p \<le> dsp_serial p1" and get1: "\<And>j. j \<noteq> ?i \<Longrightarrow> js_get (dsp_candidates p1) j = js_get (dsp_candidates p) j"
    and wf1: "wf_map (dsp_candidates p1)"
    and mine: "candidate_sound (dsp_serial p1) (lg @ [(?i, b)]) ?i c'"
    and far: "\<And>j d. j \<noteq> ?i \<Longrightarrow> js_get (dsp_candidates p) j = Some d \<Longrightarrow> \<not> candidate_near (tca_gx c) (tca_gz c) d"
  proof -
    show "dsp_serial p \<le> dsp_serial p1" using found by (cases rule: findOrCreate_cases [OF ok found]) simp_all
    show "js_get (dsp_candidates p1) j = js_get (dsp_candidates p) j" if "j \<noteq> ?i" for j
      using that by (cases rule: findOrCreate_cases [OF ok found]) (simp_all add: js_map_simps)
    show "wf_map (dsp_candidates p1)" using wf by (cases rule: findOrCreate_cases [OF ok found]) (simp_all add: jsm.invar_insert)
    show "candidate_sound (dsp_serial p1) (lg @ [(?i, b)]) ?i c'"
      using ok found
    proof (cases rule: findOrCreate_cases)
      case old
      then have "candidate_sound (dsp_serial p) lg ?i c" using sound by blast
      then show ?thesis using old(2) data promoted same(1) status by (auto simp: candidate_sound_def)
    next
      case fresh
      have "count_list lg (?i, True) = 0" using logged [of ?i] fresh(2) by (auto simp: count_list_0_iff)
      then show ?thesis using fresh data promoted same(1)
        by (cases "tca_status c'") (auto simp: candidate_sound_def)
    qed
    show "\<not> candidate_near (tca_gx c) (tca_gz c) d" if "j \<noteq> ?i" "js_get (dsp_candidates p) j = Some d" for j d
      using ok found
    proof (cases rule: findOrCreate_cases)
      case old
      then show ?thesis using apart [OF that(2) old(1) that(1)] by simp
    next
      case fresh
      then show ?thesis using that(2) by simp
    qed
  qed
  have get: "js_get (dsp_candidates (store_candidate c' p')) j = (if j = ?i then Some c' else js_get (dsp_candidates p) j)" for j
    using get1 [of j] by (simp add: store_candidate_def p' same js_map_simps)
  have serial': "dsp_serial (store_candidate c' p') = dsp_serial p1" by (simp add: store_candidate_def p')
  show ?thesis unfolding pipe_ok_def
  proof (intro conjI allI impI)
    show "wf_map (dsp_candidates (store_candidate c' p'))" using wf1 by (simp add: store_candidate_def p' jsm.invar_insert)
  next
    fix j d assume "js_get (dsp_candidates (store_candidate c' p')) j = Some d"
    then show "candidate_sound (dsp_serial (store_candidate c' p')) (lg @ [(?i, b)]) j d"
      using mine candidate_sound_log [OF sound] serial unfolding get serial' by (cases "j = ?i") simp_all
  next
    fix j k d e
    assume "js_get (dsp_candidates (store_candidate c' p')) j = Some d" "js_get (dsp_candidates (store_candidate c' p')) k = Some e" "j \<noteq> k"
    note get_eq = this(1,2) [unfolded get] and diff = this(3)
    have near_new: "candidate_near x z c' = candidate_near x z c" for x z by (simp add: candidate_near_def same)
    show "\<not> candidate_near (tca_gx e) (tca_gz e) d"
    proof (cases "j = ?i")
      case True
      then have d: "d = c'" and e: "js_get (dsp_candidates p) k = Some e" "k \<noteq> ?i" using get_eq diff by simp_all
      show ?thesis using far [OF e(2,1)] candidate_near_sym [of c e] by (simp add: d near_new)
    next
      case False
      then have d: "js_get (dsp_candidates p) j = Some d" using get_eq by simp
      show ?thesis
      proof (cases "k = ?i")
        case True
        then have "e = c'" using get_eq by simp
        then show ?thesis using far [OF \<open>j \<noteq> ?i\<close> d] by (simp add: same)
      next
        case k: False
        then show ?thesis using apart [OF d _ diff] get_eq by simp
      qed
    qed
  next
    fix j assume "(j, True) \<in> set (lg @ [(?i, b)])"
    then show "js_get (dsp_candidates (store_candidate c' p')) j \<noteq> None" using logged by (auto simp: get)
  qed
qed

lemma unit_mean:
  "list_all (\<lambda>e. 0 \<le> f e \<and> f e \<le> (1 :: real)) es \<Longrightarrow> 0 \<le> sum_list (map f es) / real (max 1 (length es)) \<and> sum_list (map f es) / real (max 1 (length es)) \<le> 1"
proof -
  assume es: "list_all (\<lambda>e. 0 \<le> f e \<and> f e \<le> 1) es"
  have "0 \<le> sum_list (map f es) \<and> sum_list (map f es) \<le> real (length es)" using es by (induction es) auto
  then have "0 \<le> sum_list (map f es)" "sum_list (map f es) \<le> real (max 1 (length es))" by linarith+
  then show ?thesis by (simp add: divide_le_eq)
qed

lemma weighed_data:
  assumes "candidate_data c" "nodeId \<in> set (map tev_nodeId (tca_evidence c))"
  shows "candidate_data (weighed_candidate fx nodeId w c)"
proof -
  let ?nodes = "dedup (map tev_nodeId (tca_evidence c))"
  have "default_to (List.find (\<lambda>i. i \<noteq> nodeId) ?nodes) nodeId \<in> set (map tev_nodeId (tca_evidence c))"
    using assms(2) find_member [of "\<lambda>i. i \<noteq> nodeId" ?nodes] by (cases "List.find (\<lambda>i. i \<noteq> nodeId) ?nodes") auto
  moreover have "list_all (\<lambda>e. 0 \<le> tev_confidence01 e \<and> tev_confidence01 e \<le> 1) (tca_evidence c)"
    using assms(1) by (simp add: candidate_data_def)
  ultimately show ?thesis using assms(1) unit_mean [of tev_confidence01 "tca_evidence c"]
    by (auto simp: weighed_candidate_def candidate_data_def Let_def split: option.splits)
qed

lemma weighed_fields [simp]:
  "tca_candidateId (weighed_candidate fx n w c) = tca_candidateId c" "tca_gx (weighed_candidate fx n w c) = tca_gx c"
  "tca_gz (weighed_candidate fx n w c) = tca_gz c" "tca_evidence (weighed_candidate fx n w c) = tca_evidence c"
  "tca_status c = TcConfirmed \<Longrightarrow> tca_status (weighed_candidate fx n w c) = TcConfirmed"
  by (simp_all add: weighed_candidate_def Let_def)

lemma pipe_ok_frame: "dsp_candidates p' = dsp_candidates p \<Longrightarrow> dsp_serial p' = dsp_serial p \<Longrightarrow> pipe_ok p lg \<Longrightarrow> pipe_ok p' lg"
  by (simp add: pipe_ok_def)

lemma scenarioSensorWeight_pos: "0 \<le> scenarioSensorWeight sc s"
  by (simp add: scenarioSensorWeight_def Let_def)

lemma pipe_apply_ok:
  assumes "pipe_ok p lg" "plain_evidence x" shows "pipe_ok (fst (pipe_apply fx (p, lg) x)) (snd (pipe_apply fx (p, lg) x))"
proof (cases x)
  case (PoEvidence m node sensor conf now sc nt)
  let ?g = "worldToGrid (pos_x (sw_position node)) (pos_z (sw_position node)) 4" and ?w = "scenarioSensorWeight sc sensor"
  let ?p0 = "p\<lparr> dsp_evidenceSerial := dsp_evidenceSerial p + 1 \<rparr>"
  let ?ev = "\<lparr> tev_id = ''ev-'' @ show_nat (dsp_evidenceSerial p), tev_sensor = sensor, tev_confidence01 = min 1 (conf * ?w),
       tev_nodeId = sw_nodeId node, tev_atMs = now, tev_note = nt \<rparr>"
  obtain c p1 where found: "findOrCreateCandidate m (fst ?g) (snd ?g) (sw_position node) ?p0 = (c, p1)" by force
  let ?c = "weighed_candidate fx (sw_nodeId node) ?w (c\<lparr> tca_evidence := tca_evidence c @ [?ev] \<rparr>)"
  have step: "pipe_apply fx (p, lg) x = (store_candidate ?c p1, lg @ [(tca_candidateId c, tca_status c = TcCandidate \<and> tca_status ?c = TcConfirmed)])"
    using found by (simp add: PoEvidence addEvidence_def split_beta Let_def)
  have conf: "0 \<le> min 1 (conf * ?w)" using assms(2) scenarioSensorWeight_pos by (simp add: PoEvidence)
  have ok0: "pipe_ok ?p0 lg" by (rule pipe_ok_frame [OF _ _ assms(1)]) simp_all
  have "pipe_ok (store_candidate ?c p1) (lg @ [(tca_candidateId c, tca_status c = TcCandidate \<and> tca_status ?c = TcConfirmed)])"
  proof (rule pipe_ok_store [OF ok0 found])
    show "candidate_data c \<Longrightarrow> candidate_data ?c \<and> tca_evidence ?c \<noteq> []"
      using conf by (intro conjI weighed_data) (auto simp: candidate_data_def split: option.splits)
  qed simp_all
  then show ?thesis unfolding step by simp
next
  case (PoNote m gx gz world now)
  obtain c p1 where found: "findOrCreateCandidate m gx gz world p = (c, p1)" by force
  let ?ev = "\<lparr> tev_id = ''ev-'' @ show_nat (dsp_evidenceSerial p1), tev_sensor = SkOperatorNote,
                    tev_confidence01 = 3 / 4, tev_nodeId = ''operator'', tev_atMs = now, tev_note = Some ''manual_inject'' \<rparr>"
  let ?c = "c\<lparr> tca_evidence := tca_evidence c @ [?ev], tca_mergedConfidence01 := min 1 (tca_mergedConfidence01 c + 2 / 10),
                  tca_trustExplanation := tca_trustExplanation c @ [''operator_note_injected''] \<rparr>"
  have step: "pipe_apply fx (p, lg) x = (store_candidate ?c (p1\<lparr> dsp_evidenceSerial := dsp_evidenceSerial p1 + 1 \<rparr>), lg @ [(tca_candidateId c, False)])"
    using found by (simp add: PoNote injectOperatorNote_def Let_def)
  have "pipe_ok (store_candidate ?c (p1\<lparr> dsp_evidenceSerial := dsp_evidenceSerial p1 + 1 \<rparr>)) (lg @ [(tca_candidateId c, False)])"
    by (rule pipe_ok_store [OF assms(1) found]) (auto simp: candidate_data_def split: option.splits)
  then show ?thesis unfolding step by simp
qed

lemma pipe_run_ok: "list_all plain_evidence ops \<Longrightarrow> pipe_ok (fst (pipe_run fx ops)) (snd (pipe_run fx ops))"
proof -
  have "pipe_ok p lg \<Longrightarrow> list_all plain_evidence ops \<Longrightarrow>
      pipe_ok (fst (foldl (pipe_apply fx) (p, lg) ops)) (snd (foldl (pipe_apply fx) (p, lg) ops))" for p lg
  proof (induction ops arbitrary: p lg)
    case (Cons x ops)
    then show ?case using pipe_apply_ok [of p lg x fx] by (cases "pipe_apply fx (p, lg) x") simp
  qed simp
  moreover have "pipe_ok new_discovery_pipe []" by (simp add: pipe_ok_def new_discovery_pipe_def wf_map_def)
  ultimately show "list_all plain_evidence ops \<Longrightarrow> ?thesis" by (simp add: pipe_run_def)
qed


text \<open>A scout that reports from the origin.\<close>

definition toy_scout :: "ident \<Rightarrow> swarm_agent" where
  "toy_scout i = \<lparr> sw_nodeId = i, sw_displayName = i, sw_vendorId = ''v'', sw_model = ''m'', sw_role = MrExplorer, sw_mobility = MobGround,
     sw_capabilities = \<lparr> cp_sensors = [''thermal''], cp_maxPayloadKg = 5, cp_maxAltitudeM = 120, cp_maxSpeedMps = 12, cp_enduranceMin = 35,
       cp_meshRangeM = 600, cp_indoorScore = 1 / 2, cp_outdoorScore = 1 / 2, cp_gpsImuConfidence = 3 / 4, cp_thermalScore = 1 / 5, cp_lidarScore = 1 / 5,
       cp_lowLightScore = 3 / 10, cp_gripperScore = 1 / 10, cp_computeTier = 1 / 2, cp_batteryDrainPerTick = 1 / 1000, cp_recoveryLatencyMs = 900 \<rparr>,
     sw_position = \<lparr> pos_x = 0, pos_y = 0, pos_z = 0 \<rparr>, sw_trust01 = 9 / 10, sw_autonomyPolicy = ApScoutContinue, sw_offline = None,
     sw_healthStatus = None, sw_currentTaskId = None, sw_lastHeartbeatMs = None \<rparr>"


subsection \<open>The handoff history explains the roles\<close>

text \<open>Reading the records back over the nodes: each one must name a node that has its old role.\<close>

fun plays :: "handoff_record list \<Rightarrow> swarm_agent list \<Rightarrow> swarm_agent list option" where
  "plays [] nodes = Some nodes"
| "plays (r # rs) nodes =
     (if list_ex (\<lambda>n. sw_nodeId n = ho_nodeId r \<and> sw_role n = ho_fromRole r) nodes \<and> ho_fromRole r \<noteq> ho_toRole r
      then plays rs (set_role (ho_nodeId r) (ho_toRole r) nodes) else None)"

lemma plays_snoc: "plays (rs @ [r]) nodes = Option.bind (plays rs nodes) (plays [r])"
  by (induction rs arbitrary: nodes) simp_all

definition handoff_ok :: "swarm_agent list \<Rightarrow> handoff_record list \<Rightarrow> handoff_run \<Rightarrow> bool" where
  "handoff_ok nodes history s \<longleftrightarrow> plays (hf_delta s) nodes = Some (hf_nodes s) \<and> hf_history s = rev (hf_delta s) @ history"

lemma hand_over_ok: "handoff_ok nodes history s \<Longrightarrow> n \<in> set (hf_nodes s) \<Longrightarrow> handoff_ok nodes history (hand_over n r reason evidence now s)"
  by (auto simp: handoff_ok_def hand_over_def applyHandoff_def plays_snoc handoff_of_def list_ex_iff)

lemma handoff_draws: "handoff_ok nodes history (s\<lparr> hf_draws := k \<rparr>) = handoff_ok nodes history s"
  by (simp add: handoff_ok_def)

lemma sorted_head_member: "js_sort lt (filter P xs) = x # ys \<Longrightarrow> x \<in> set xs"
  using set_js_sort [of lt "filter P xs"] by auto

lemma sorted_member: "js_sort lt xs = x # ys \<Longrightarrow> x \<in> set xs"
  using set_js_sort [of lt xs] by auto

lemma promote_mesh_ok: "handoff_ok nodes history s \<Longrightarrow> handoff_ok nodes history (promote_mesh now s)"
  by (auto simp: promote_mesh_def sortByMesh_def intro!: hand_over_ok dest: sorted_member split: option.split list.split)

lemma isolate_explorer_ok: "handoff_ok nodes history s \<Longrightarrow> handoff_ok nodes history (isolate_explorer now rng reach s i)"
  using find_member [of "\<lambda>n. sw_nodeId n = i" "hf_nodes s"]
  by (auto simp: isolate_explorer_def Let_def handoff_draws intro!: hand_over_ok split: option.split)

lemma triage_target_ok: "handoff_ok nodes history s \<Longrightarrow> handoff_ok nodes history (triage_target now rng s t)"
  by (auto simp: triage_target_def Let_def handoff_draws intro!: hand_over_ok dest: sorted_head_member split: list.split)

lemma extract_target_ok: "handoff_ok nodes history s \<Longrightarrow> handoff_ok nodes history (extract_target now rng s t)"
  by (auto simp: extract_target_def Let_def handoff_draws intro!: hand_over_ok dest: sorted_head_member split: list.split)

lemma interim_command_ok: "handoff_ok nodes history s \<Longrightarrow> handoff_ok nodes history (interim_command now rng s)"
  using find_member [of "\<lambda>n. sw_role n = MrRelay \<or> sw_role n = MrObserver" "hf_nodes s"]
  by (auto simp: interim_command_def Let_def handoff_draws intro!: hand_over_ok split: option.split)

lemma partition_handoffs_ok: "handoff_ok nodes history s \<Longrightarrow> handoff_ok nodes history (partition_handoffs mode reach now rng s)"
  by (auto simp: partition_handoffs_def Let_def handoff_draws
      intro!: foldl_inv [where P = "handoff_ok nodes history"] isolate_explorer_ok promote_mesh_ok)

text \<open>
  C40. The records an evaluation returns are exactly those it puts in front of the history, and played back over the nodes it was
  given they lead to the nodes it leaves: every role change is recorded, each record names the role the node had, and nothing but
  roles changes. With a normal network and no confirmed target nothing changes at all.
\<close>

theorem handoffs_explained:
  "(let s = evaluateHandoffs nodes mode confirmed reach now rng k history
    in plays (hf_delta s) nodes = Some (hf_nodes s) \<and> hf_history s = rev (hf_delta s) @ history
       \<and> (if mode = CmNormal \<and> confirmed = [] then hf_delta s = [] \<and> hf_draws s = k else True))"
proof -
  let ?s0 = "\<lparr> hf_nodes = nodes, hf_history = history, hf_delta = [], hf_draws = k \<rparr>"
  let ?step = "\<lambda>s t. extract_target now rng (triage_target now rng s t) t"
  have "handoff_ok nodes history ?s0" by (simp add: handoff_ok_def)
  then have "handoff_ok nodes history (foldl ?step (partition_handoffs mode reach now rng ?s0) confirmed)"
    by (intro foldl_inv [where P = "handoff_ok nodes history"] partition_handoffs_ok extract_target_ok triage_target_ok)
  then have "handoff_ok nodes history (evaluateHandoffs nodes mode confirmed reach now rng k history)"
    by (simp add: evaluateHandoffs_def Let_def interim_command_ok)
  moreover have "evaluateHandoffs nodes CmNormal [] reach now rng k history = ?s0"
    by (simp add: evaluateHandoffs_def Let_def partition_handoffs_def)
  ultimately show ?thesis by (auto simp: handoff_ok_def Let_def)
qed

subsection \<open>The bus accounts for every message\<close>

definition queued :: "p2p_bus \<Rightarrow> p2p_message list" where
  "queued b = concat (map snd (ppb_queues b))"

definition due_message :: "int \<Rightarrow> p2p_message \<Rightarrow> bool" where
  "due_message now m \<longleftrightarrow> ppm_createdAtMs m + ppm_deliverAfterMs m \<le> now"

text \<open>How often the messages in the queues can still be dropped.\<close>

definition bus_debt :: "p2p_message list \<Rightarrow> nat" where
  "bus_debt ms = sum_list (map (\<lambda>m. nat (5 - ppm_attempts m)) ms)"

text \<open>One sweep over a list of messages, from a state with nothing left over: what it keeps, delivers and gives up.\<close>

definition swept :: "int \<Rightarrow> p2p_message list \<Rightarrow> p2p_sweep \<Rightarrow> p2p_message list \<Rightarrow> p2p_sweep \<Rightarrow> bool" where
  "swept now ms s kept s' \<longleftrightarrow> (\<exists>got lost.
     mset (map ppm_id ms) = mset (map ppm_id kept) + mset (map ppm_id got) + mset (map ppm_id lost)
     \<and> set got \<subseteq> set (psw_delivered s') \<and> set (psw_delivered s) \<subseteq> set (psw_delivered s')
     \<and> length (psw_delivered s) + length got \<le> length (psw_delivered s') \<and> length (psw_delivered s') \<le> length (psw_delivered s) + 2 * length got
     \<and> list_all (\<lambda>m. ppm_attempts m \<ge> 4 \<and> due_message now m) lost \<and> psw_dropped s + length lost \<le> psw_dropped s'
     \<and> bus_debt kept + length (filter (\<lambda>m. due_message now m \<and> ppm_attempts m \<le> 4) ms) \<le> bus_debt ms)"

lemma sweep_message_swept:
  "\<exists>kept. psw_remain (sweep_message now loss dup rng s m) = psw_remain s @ kept \<and> swept now [m] s kept (sweep_message now loss dup rng s m)"
proof -
  let ?s' = "sweep_message now loss dup rng s m" and ?k = "psw_draws s"
  consider (wait) "\<not> due_message now m"
    | (again) "due_message now m" "rng (?k + 1) < message_loss loss m (rng ?k)" "ppm_attempts m < 4"
    | (give_up) "due_message now m" "rng (?k + 1) < message_loss loss m (rng ?k)" "\<not> ppm_attempts m < 4"
    | (deliver) "due_message now m" "\<not> rng (?k + 1) < message_loss loss m (rng ?k)" by blast
  then show ?thesis
  proof cases
    case wait
    then show ?thesis
      by (intro exI [of _ "[m]"] conjI) (auto simp: sweep_message_def due_message_def swept_def bus_debt_def Let_def intro!: exI [of _ "[]"])
  next
    case again
    then show ?thesis
      by (intro exI [of _ "[retried now (rng (?k + 2)) m]"] conjI)
        (auto simp: sweep_message_def due_message_def swept_def bus_debt_def retried_def Let_def intro!: exI [of _ "[]"])
  next
    case give_up
    then have s': "?s' = s\<lparr> psw_dropped := psw_dropped s + 1, psw_draws := ?k + 2 \<rparr>" by (simp add: sweep_message_def due_message_def Let_def)
    have "swept now [m] s [] ?s'" unfolding swept_def s' using give_up
      by (intro exI [of _ "[]"] exI [of _ "[m]"]) (auto simp: bus_debt_def)
    then show ?thesis by (intro exI [of _ "[]"]) (simp add: s')
  next
    case deliver
    then have s': "?s' = s\<lparr> psw_delivered := psw_delivered s @ (if rng (?k + 2) < dup then [m, m\<lparr> ppm_id := ppm_id m @ ''-dup'' \<rparr>] else [m]), psw_draws := ?k + 3 \<rparr>"
      by (simp add: sweep_message_def due_message_def Let_def)
    have "swept now [m] s [] ?s'" unfolding swept_def s'
      by (intro exI [of _ "[m]"] exI [of _ "[]"]) (auto simp: bus_debt_def)
    then show ?thesis by (intro exI [of _ "[]"]) (simp add: s')
  qed
qed

lemma swept_Nil: "swept now [] s [] s"
  by (auto simp: swept_def bus_debt_def intro!: exI [of _ "[]"])

lemma swept_append:
  assumes "swept now ms s kept s'" "swept now ms' s' kept' s''" shows "swept now (ms @ ms') s (kept @ kept') s''"
proof -
  obtain got lost where a: "mset (map ppm_id ms) = mset (map ppm_id kept) + mset (map ppm_id got) + mset (map ppm_id lost)"
     "set got \<subseteq> set (psw_delivered s')" "set (psw_delivered s) \<subseteq> set (psw_delivered s')"
     "length (psw_delivered s) + length got \<le> length (psw_delivered s')" "length (psw_delivered s') \<le> length (psw_delivered s) + 2 * length got"
     "list_all (\<lambda>m. ppm_attempts m \<ge> 4 \<and> due_message now m) lost" "psw_dropped s + length lost \<le> psw_dropped s'"
     "bus_debt kept + length (filter (\<lambda>m. due_message now m \<and> ppm_attempts m \<le> 4) ms) \<le> bus_debt ms"
    using assms(1) unfolding swept_def by blast
  obtain got' lost' where b: "mset (map ppm_id ms') = mset (map ppm_id kept') + mset (map ppm_id got') + mset (map ppm_id lost')"
     "set got' \<subseteq> set (psw_delivered s'')" "set (psw_delivered s') \<subseteq> set (psw_delivered s'')"
     "length (psw_delivered s') + length got' \<le> length (psw_delivered s'')" "length (psw_delivered s'') \<le> length (psw_delivered s') + 2 * length got'"
     "list_all (\<lambda>m. ppm_attempts m \<ge> 4 \<and> due_message now m) lost'" "psw_dropped s' + length lost' \<le> psw_dropped s''"
     "bus_debt kept' + length (filter (\<lambda>m. due_message now m \<and> ppm_attempts m \<le> 4) ms') \<le> bus_debt ms'"
    using assms(2) unfolding swept_def by blast
  have debt: "bus_debt (xs @ ys) = bus_debt xs + bus_debt ys" for xs ys by (simp add: bus_debt_def)
  show ?thesis unfolding swept_def
  proof (rule exI [of _ "got @ got'"], rule exI [of _ "lost @ lost'"], intro conjI)
    show "mset (map ppm_id (ms @ ms')) = mset (map ppm_id (kept @ kept')) + mset (map ppm_id (got @ got')) + mset (map ppm_id (lost @ lost'))"
      using a(1) b(1) by (simp only: map_append mset_append union_ac)
    show "set (got @ got') \<subseteq> set (psw_delivered s'')" using a(2) b(2,3) by auto
    show "set (psw_delivered s) \<subseteq> set (psw_delivered s'')" using a(3) b(3) by blast
    show "bus_debt (kept @ kept') + length (filter (\<lambda>m. due_message now m \<and> ppm_attempts m \<le> 4) (ms @ ms')) \<le> bus_debt (ms @ ms')"
      using a(8) b(8) by (simp add: debt)
  qed (use a b in simp_all)
qed

lemma sweep_messages_swept:
  "\<exists>kept. psw_remain (foldl (sweep_message now loss dup rng) s ms) = psw_remain s @ kept
     \<and> swept now ms s kept (foldl (sweep_message now loss dup rng) s ms)"
proof (induction ms arbitrary: s)
  case (Cons m ms)
  obtain kept where one: "psw_remain (sweep_message now loss dup rng s m) = psw_remain s @ kept"
      "swept now [m] s kept (sweep_message now loss dup rng s m)" using sweep_message_swept by blast
  obtain kept' where rest: "psw_remain (foldl (sweep_message now loss dup rng) (sweep_message now loss dup rng s m) ms)
        = psw_remain (sweep_message now loss dup rng s m) @ kept'"
      "swept now ms (sweep_message now loss dup rng s m) kept' (foldl (sweep_message now loss dup rng) (sweep_message now loss dup rng s m) ms)"
    using Cons.IH by blast
  show ?case using one rest swept_append [OF one(2) rest(2)] by (intro exI [of _ "kept @ kept'"]) simp
qed (auto intro: swept_Nil)

lemma sweep_step:
  "sweep_inbox now loss dup rng (d, s) q = (let t = foldl (sweep_message now loss dup rng) (s\<lparr> psw_remain := [] \<rparr>) (snd q)
     in (d @ [(fst q, psw_remain t)], t))"
  by (simp add: sweep_inbox_def Let_def)

lemma sweep_inboxes_swept:
  "concat (map snd (fst (foldl (sweep_inbox now loss dup rng) (done0, s) qs))) = concat (map snd done0) @ kept
     \<Longrightarrow> swept now (concat (map snd qs)) s kept (snd (foldl (sweep_inbox now loss dup rng) (done0, s) qs))"
proof (induction qs arbitrary: done0 s kept)
  case Nil
  then show ?case by (simp add: swept_Nil)
next
  case (Cons q qs)
  let ?s' = "foldl (sweep_message now loss dup rng) (s\<lparr> psw_remain := [] \<rparr>) (snd q)"
  have "swept now (snd q) (s\<lparr> psw_remain := [] \<rparr>) (psw_remain ?s') ?s'"
    using sweep_messages_swept [of now loss dup rng "s\<lparr> psw_remain := [] \<rparr>" "snd q"] by auto
  then have first: "swept now (snd q) s (psw_remain ?s') ?s'" by (simp add: swept_def)
  note step = sweep_step [of now loss dup rng done0 s q]
  have grows: "\<exists>r. concat (map snd (fst (foldl (sweep_inbox now loss dup rng) (d, t) qs))) = concat (map snd d) @ r" for d t
  proof (induction qs arbitrary: d t)
    case (Cons q qs)
    let ?t = "foldl (sweep_message now loss dup rng) (t\<lparr> psw_remain := [] \<rparr>) (snd q)"
    obtain r where "concat (map snd (fst (foldl (sweep_inbox now loss dup rng) (d @ [(fst q, psw_remain ?t)], ?t) qs)))
        = concat (map snd (d @ [(fst q, psw_remain ?t)])) @ r" using Cons.IH by blast
    then show ?case by (intro exI [of _ "psw_remain ?t @ r"]) (simp add: sweep_step Let_def)
  qed simp
  obtain r where r: "concat (map snd (fst (foldl (sweep_inbox now loss dup rng) (done0 @ [(fst q, psw_remain ?s')], ?s') qs)))
      = concat (map snd (done0 @ [(fst q, psw_remain ?s')])) @ r" using grows by blast
  then have "kept = psw_remain ?s' @ r" using Cons.prems by (simp add: step Let_def)
  then show ?case using swept_append [OF first Cons.IH [OF r]] by (simp add: step Let_def)
qed

text \<open>
  A tick accounts for every queued message: it is delivered (at most twice), or it stays queued, or it is given up after at
  least four earlier losses, which the drop count includes. Each message that was due and had not run out of attempts
  lowers the number of losses the queues can still take, so a message is lost at most five times.
\<close>

theorem bus_accounts:
  "(let ((delivered, dropped), b') = p2p_tick now lossBias dupChance rng b
    in \<exists>got lost. mset (map ppm_id (queued b)) = mset (map ppm_id (queued b')) + mset (map ppm_id got) + mset (map ppm_id lost)
         \<and> set got \<subseteq> set delivered \<and> length got \<le> length delivered \<and> length delivered \<le> 2 * length got
         \<and> list_all (\<lambda>m. ppm_attempts m \<ge> 4 \<and> due_message now m) lost \<and> length lost \<le> dropped
         \<and> bus_debt (queued b') + length (filter (\<lambda>m. due_message now m \<and> ppm_attempts m \<le> 4) (queued b)) \<le> bus_debt (queued b))"
proof -
  let ?s = "\<lparr> psw_remain = [], psw_delivered = [], psw_dropped = 0, psw_draws = ppb_draws b \<rparr>"
  let ?r = "foldl (sweep_inbox now (default_to lossBias 0) (default_to dupChance (4 / 100)) rng) ([], ?s) (ppb_queues b)"
  have "swept now (concat (map snd (ppb_queues b))) ?s (concat (map snd (fst ?r))) (snd ?r)"
    by (rule sweep_inboxes_swept) simp
  then show ?thesis by (simp add: swept_def p2p_tick_def split_beta Let_def queued_def)
qed

end
