(* ===== verification/SwarmNetwork.thy ===== *)
theory SwarmNetwork
  imports SwarmDiscovery VertexServices
begin

section \<open>Network views and exploration of the swarm\<close>

text \<open>
  Models \<open>networkModel.ts\<close>, \<open>explorationManager.ts\<close> and \<open>peerProfiles.ts\<close> of \<open>src/src/swarm\<close>,
  \<open>foxmq/mockWorldFactory.ts\<close> and \<open>backend/vertex/telemetry-normalizer.ts\<close>. The lemmas show how good a path to the operator is said to be,
  that the frontier is shared out evenly, what a step of the exploration does to map and nodes, and that telemetry is monotonic.
\<close>

subsection \<open>Telemetry\<close>

record sim_telemetry =
  tls_nodeId :: ident
  tls_battery01 :: real
  tls_cpu01 :: real
  tls_mem01 :: real
  tls_link01 :: real
  tls_queueDepth :: int
  tls_sensorConfidence01 :: real
  tls_sequence :: int
  tls_emittedAtMs :: int
  tls_receivedAtMs :: int
  tls_duplicate :: "bool option"

definition normalize_telemetry :: "sim_telemetry \<Rightarrow> (ident, int) jsmap \<Rightarrow> sim_telemetry \<times> (ident, int) jsmap" where
  "normalize_telemetry raw lastSeq =
     (let prev = default_to (js_get lastSeq (tls_nodeId raw)) (- 1); duplicate = (tls_sequence raw \<le> prev)
      in (raw\<lparr> tls_sequence := (if duplicate then prev else tls_sequence raw), tls_duplicate := Some duplicate,
               tls_receivedAtMs := max (tls_receivedAtMs raw) (tls_emittedAtMs raw) \<rparr>,
          if duplicate then lastSeq else js_put (tls_nodeId raw) (tls_sequence raw) lastSeq))"

subsection \<open>Paths to the operator\<close>

definition swarm_edge :: "graph_edge list \<Rightarrow> ident \<Rightarrow> ident \<Rightarrow> graph_edge option" where
  "swarm_edge edges a b = List.find (\<lambda>e. (ge_a e = a \<and> ge_b e = b) \<or> (ge_a e = b \<and> ge_b e = a)) edges"

definition quality_between :: "graph_edge list \<Rightarrow> ident \<Rightarrow> ident \<Rightarrow> real" where
  "quality_between edges a b = (case swarm_edge edges a b of Some e \<Rightarrow> ge_quality01 e | None \<Rightarrow> 0)"

record path_quality =
  pq_quality01 :: real
  pq_usesRelay :: bool
  pq_relayPeer :: "ident option"

definition relay_over :: "graph_edge list \<Rightarrow> ident list \<Rightarrow> ident \<Rightarrow> ident \<Rightarrow> real \<times> ident option \<Rightarrow> graph_edge \<Rightarrow> real \<times> ident option" where
  "relay_over edges operatorReachable nodeId operatorId best e =
     (let peer = (if ge_a e = nodeId then ge_b e else if ge_b e = nodeId then ge_a e else [])
      in if peer = [] \<or> peer = operatorId then best
         else if peer \<notin> set operatorReachable then best
         else let bottled = min (ge_quality01 e) (quality_between edges peer operatorId) * (94 / 100)
              in if bottled > fst best then (bottled, Some peer) else best)"

definition mesh_backbone :: "graph_edge list \<Rightarrow> ident \<Rightarrow> real" where
  "mesh_backbone edges nodeId = foldl (\<lambda>m e. if ge_a e \<noteq> nodeId \<and> ge_b e \<noteq> nodeId then m else max m (ge_quality01 e)) 0 edges"

definition effectiveOperatorPathQuality :: "graph_edge list \<Rightarrow> ident list \<Rightarrow> ident \<Rightarrow> ident \<Rightarrow> path_quality" where
  "effectiveOperatorPathQuality edges operatorReachable nodeId operatorId =
     (let direct = quality_between edges nodeId operatorId;
          (bestRelay, relayPeer) = foldl (relay_over edges operatorReachable nodeId operatorId) (0, None) edges;
          partitioned = nodeId \<notin> set operatorReachable;
          combined = (if partitioned then max (max direct bestRelay) (mesh_backbone edges nodeId * (82 / 100)) else max direct bestRelay);
          usesRelay = (bestRelay \<ge> combined - 1 / 1000000 \<and> bestRelay > direct + 2 / 100)
      in \<lparr> pq_quality01 = max (6 / 100) (min 1 combined), pq_usesRelay = usesRelay, pq_relayPeer = (if usesRelay then relayPeer else None) \<rparr>)"

record peer_reachability =
  prr_nodeId :: ident
  prr_meshBackbone01 :: real
  prr_effectiveOperatorPath01 :: real
  prr_operatorReachable :: bool
  prr_usesRelayToOperator :: bool
  prr_relayPeer :: "ident option"

definition peer_reach :: "connectivity_snapshot \<Rightarrow> ident \<Rightarrow> swarm_agent \<Rightarrow> peer_reachability" where
  "peer_reach snap operatorId n =
     (let q = effectiveOperatorPathQuality (cs_edges snap) (cs_operatorReachable snap) (sw_nodeId n) operatorId
      in \<lparr> prr_nodeId = sw_nodeId n, prr_meshBackbone01 = mesh_backbone (cs_edges snap) (sw_nodeId n), prr_effectiveOperatorPath01 = pq_quality01 q,
           prr_operatorReachable = (sw_nodeId n \<in> set (cs_operatorReachable snap)), prr_usesRelayToOperator = pq_usesRelay q, prr_relayPeer = pq_relayPeer q \<rparr>)"

definition buildPeerReachabilityTable :: "swarm_agent list \<Rightarrow> connectivity_snapshot \<Rightarrow> ident \<Rightarrow> (ident, peer_reachability) jsmap" where
  "buildPeerReachabilityTable nodes snap operatorId = foldl (\<lambda>m n. js_put (sw_nodeId n) (peer_reach snap operatorId n) m) [] nodes"

datatype peer_link_kind = PlDirect | PlDegraded | PlRelayed | PlStale

definition linkKind :: "real \<Rightarrow> ident list \<Rightarrow> ident \<Rightarrow> ident \<Rightarrow> peer_link_kind" where
  "linkKind q stale a b =
     (if a \<in> set stale \<or> b \<in> set stale then PlStale else if q < 18 / 100 then PlDegraded else if q < 35 / 100 then PlRelayed else PlDirect)"

record peer_link_view =
  plv_peerA :: ident
  plv_peerB :: ident
  plv_quality01 :: real
  plv_latencyMs :: real
  plv_loss :: real
  plv_kind :: peer_link_kind
  plv_relayHint :: "ident option"

definition peer_link_of :: "connectivity_snapshot \<Rightarrow> ident \<Rightarrow> (ident, peer_reachability) jsmap \<Rightarrow> graph_edge \<Rightarrow> peer_link_view" where
  "peer_link_of snap operatorId reach e =
     (let ra = js_get reach (ge_a e); rb = js_get reach (ge_b e);
          uses = (\<lambda>r. case r of Some x \<Rightarrow> prr_usesRelayToOperator x | None \<Rightarrow> False); peer = (\<lambda>r. Option.bind r prr_relayPeer);
          touchesOp = (ge_a e = operatorId \<or> ge_b e = operatorId); relayAssist = (\<not> touchesOp \<and> (uses ra \<or> uses rb));
          kind = linkKind (ge_quality01 e) (cs_stalePeers snap) (ge_a e) (ge_b e)
      in \<lparr> plv_peerA = ge_a e, plv_peerB = ge_b e, plv_quality01 = ge_quality01 e, plv_latencyMs = ge_latencyMs e, plv_loss = ge_loss e,
           plv_kind = (if relayAssist \<and> kind = PlDirect then PlRelayed else kind),
           plv_relayHint = (if relayAssist then (if uses ra then peer ra else peer rb) else if touchesOp then nullish (peer ra) (peer rb) else None) \<rparr>)"

definition buildPeerLinkViews :: "connectivity_snapshot \<Rightarrow> ident \<Rightarrow> (ident, peer_reachability) jsmap \<Rightarrow> peer_link_view list" where
  "buildPeerLinkViews snap operatorId reach = map (peer_link_of snap operatorId reach) (cs_edges snap)"

record swarm_partitions =
  pas_clusterCount :: nat
  pas_largestPartitionSize :: nat
  pas_operatorPartitionSize :: nat
  pas_isolatedFromOperator :: "ident list"

definition summarizeSwarmPartitions :: "connectivity_snapshot \<Rightarrow> ident \<Rightarrow> ident list \<Rightarrow> swarm_partitions" where
  "summarizeSwarmPartitions snap operatorId allNodeIds =
     \<lparr> pas_clusterCount = length (cs_partitionClusters snap),
       pas_largestPartitionSize = foldl (\<lambda>m c. max m (length c)) 0 (cs_partitionClusters snap),
       pas_operatorPartitionSize = length (default_to (List.find (\<lambda>c. operatorId \<in> set c) (cs_partitionClusters snap)) []),
       pas_isolatedFromOperator = filter (\<lambda>i. i \<notin> set (cs_operatorReachable snap)) allNodeIds \<rparr>"

fun connectivityStressLabel :: "(real \<Rightarrow> string) \<Rightarrow> connectivity_mode \<Rightarrow> string" where
  "connectivityStressLabel ns CmNormal = ''nominal''"
| "connectivityStressLabel ns CmDegraded = ''lossy_links''"
| "connectivityStressLabel ns CmPartialPartition = ''split_mesh''"
| "connectivityStressLabel ns CmBlackout = ''wide_partition''"
| "connectivityStressLabel ns CmRecovery = ''reconciling''"
| "connectivityStressLabel ns CmResync = ''resync''"
| "connectivityStressLabel ns (CmCast v) = js_string ns v"

definition pickBestReroutePeer :: "swarm_agent list \<Rightarrow> connectivity_snapshot \<Rightarrow> ident option" where
  "pickBestReroutePeer nodes snap =
     (let up = (\<lambda>n. sw_offline n \<noteq> Some True); relays = filter (\<lambda>n. sw_role n = MrRelay \<and> up n) nodes
      in if relays = [] then map_option sw_nodeId (List.find (\<lambda>n. up n \<and> sw_nodeId n \<in> set (cs_operatorReachable snap)) nodes)
         else map_option sw_nodeId (case sortByMesh relays of n # _ \<Rightarrow> Some n | [] \<Rightarrow> None))"

subsection \<open>Peer profiles\<close>

record normalized_peer =
  npe_peerId :: ident
  npe_displayName :: string
  npe_nodeTypeLabel :: string
  npe_vendorFamily :: string
  npe_model :: string
  npe_role :: mission_node_role
  npe_mobility :: mobility_class
  npe_autonomyPolicy :: autonomy_policy
  npe_trust01 :: real
  npe_battery01 :: real
  npe_linkQuality01 :: real
  npe_localAutonomy :: string
  npe_rangeOrEndurance :: string
  npe_indoorOutdoor :: string
  npe_currentTaskId :: "ident option"
  npe_lastHeartbeatMs :: "timestamp option"
  npe_stale :: bool
  npe_offline :: bool
  npe_partitionReachableToOperator :: bool
  npe_relayAssistPeer :: "ident option"
  npe_queueDepth :: int
  npe_recoveryState :: string
  npe_sensors :: "string list"
  npe_raw :: swarm_agent

definition nodeTypeLabel :: "swarm_agent \<Rightarrow> string" where
  "nodeTypeLabel n =
     (let cp = sw_capabilities n
      in if sw_role n = MrRelay then ''relay_drone''
         else if sw_autonomyPolicy n = ApMapIndoor then ''indoor_robot''
         else if sw_role n = MrCarrier \<and> cp_gripperScore cp > 3 / 4 then ''rescue_robot''
         else if sw_role n = MrObserver then ''command_capable_node''
         else if sw_autonomyPolicy n = ApScoutContinue then ''scout_drone''
         else if sw_role n = MrMedic then ''triage_node''
         else if sw_autonomyPolicy n = ApRelayMaintain \<and> cp_computeTier cp < 45 / 100 then ''standby_relay''
         else if cp_maxPayloadKg cp \<ge> 25 then ''transport_capable_node''
         else if cp_thermalScore cp > 85 / 100 \<or> cp_lidarScore cp > 85 / 100 then ''sensor_focused_node''
         else ''general_node'')"

definition recoveryLabel :: "connectivity_mode \<Rightarrow> peer_reachability option \<Rightarrow> string" where
  "recoveryLabel mode reach =
     (if (case reach of Some r \<Rightarrow> \<not> prr_operatorReachable r | None \<Rightarrow> False) then ''partition_local''
      else if mode = CmRecovery then ''merging_deltas''
      else if mode = CmResync then ''resync''
      else if mode = CmBlackout \<or> mode = CmPartialPartition then ''degraded_mesh''
      else ''nominal'')"

fun policy_str :: "autonomy_policy \<Rightarrow> string" where
  "policy_str ApScoutContinue = ''scout_continue''"
| "policy_str ApRelayMaintain = ''relay_maintain''"
| "policy_str ApRescueContinue = ''rescue_continue''"
| "policy_str ApMapIndoor = ''map_indoor''"
| "policy_str ApCoordinatorQueue = ''coordinator_queue''"


definition derivePeerProfile :: "(real \<Rightarrow> string) \<Rightarrow> swarm_agent \<Rightarrow> sim_telemetry option \<Rightarrow> autonomy_directive option \<Rightarrow>
    peer_reachability option \<Rightarrow> connectivity_mode \<Rightarrow> normalized_peer" where
  "derivePeerProfile ns n tel aut reach mode =
     (let cp = sw_capabilities n
      in \<lparr> npe_peerId = sw_nodeId n, npe_displayName = sw_displayName n, npe_nodeTypeLabel = nodeTypeLabel n, npe_vendorFamily = sw_vendorId n,
           npe_model = sw_model n, npe_role = sw_role n, npe_mobility = sw_mobility n, npe_autonomyPolicy = sw_autonomyPolicy n,
           npe_trust01 = sw_trust01 n, npe_battery01 = (case tel of Some t \<Rightarrow> tls_battery01 t | None \<Rightarrow> 3 / 4),
           npe_linkQuality01 = (case tel of Some t \<Rightarrow> tls_link01 t | None \<Rightarrow> case reach of Some r \<Rightarrow> prr_meshBackbone01 r | None \<Rightarrow> 35 / 100),
           npe_localAutonomy = (case aut of Some a \<Rightarrow> policy_str (ad_policy a) @ '':'' @ ad_action a | None \<Rightarrow> ''mesh_coordinated''),
           npe_rangeOrEndurance = show_int (js_round (cp_meshRangeM cp)) @ ''m mesh'' @ reason_separator @ ns (cp_enduranceMin cp) @ ''m endurance'',
           npe_indoorOutdoor = (if cp_indoorScore cp > cp_outdoorScore cp + 12 / 100 then ''indoor_biased''
                                else if cp_outdoorScore cp > cp_indoorScore cp + 12 / 100 then ''outdoor_biased'' else ''mixed''),
           npe_currentTaskId = sw_currentTaskId n, npe_lastHeartbeatMs = nullish (sw_lastHeartbeatMs n) (map_option tls_receivedAtMs tel),
           npe_stale = (case tel of Some t \<Rightarrow> tls_duplicate t = Some True \<or> tls_link01 t < 11 / 100 | None \<Rightarrow> False),
           npe_offline = (sw_offline n = Some True), npe_partitionReachableToOperator = (case reach of Some r \<Rightarrow> prr_operatorReachable r | None \<Rightarrow> False),
           npe_relayAssistPeer = Option.bind reach prr_relayPeer, npe_queueDepth = (case tel of Some t \<Rightarrow> tls_queueDepth t | None \<Rightarrow> 0),
           npe_recoveryState = recoveryLabel mode reach, npe_sensors = cp_sensors cp, npe_raw = n \<rparr>)"

subsection \<open>Exploration\<close>

text \<open>The map profile of a scenario, its own name filled in by the function; scenarios are the strings of \<open>MissionScenarioKind\<close>.\<close>

record map_profile =
  mpr_scenario :: string
  mpr_frontierDensity01 :: real
  mpr_hazardRate01 :: real
  mpr_targetScatter01 :: real
  mpr_syncUrgency01 :: real
  mpr_offlineToleranceMs :: int
  mpr_relayImportance01 :: real
  mpr_confidenceFloor01 :: real

definition map_defaults :: map_profile where
  "map_defaults = \<lparr> mpr_scenario = [], mpr_frontierDensity01 = 45 / 100, mpr_hazardRate01 = 8 / 100, mpr_targetScatter01 = 12 / 100, mpr_syncUrgency01 = 1 / 2,
     mpr_offlineToleranceMs = 25000, mpr_relayImportance01 = 55 / 100, mpr_confidenceFloor01 = 35 / 100 \<rparr>"

definition scenarioMapProfile :: "string \<Rightarrow> map_profile" where
  "scenarioMapProfile s =
     (if s = ''collapsed_building'' then map_defaults\<lparr> mpr_frontierDensity01 := 55 / 100, mpr_hazardRate01 := 12 / 100,
        mpr_relayImportance01 := 62 / 100, mpr_syncUrgency01 := 55 / 100 \<rparr>
      else if s = ''tunnel'' then map_defaults\<lparr> mpr_frontierDensity01 := 35 / 100, mpr_hazardRate01 := 6 / 100,
        mpr_relayImportance01 := 78 / 100, mpr_syncUrgency01 := 42 / 100 \<rparr>
      else if s = ''flood_rescue'' then map_defaults\<lparr> mpr_frontierDensity01 := 1 / 2, mpr_hazardRate01 := 15 / 100, mpr_syncUrgency01 := 62 / 100 \<rparr>
      else if s = ''wildfire'' then map_defaults\<lparr> mpr_frontierDensity01 := 48 / 100, mpr_hazardRate01 := 22 / 100, mpr_syncUrgency01 := 7 / 10 \<rparr>
      else if s = ''hazmat'' then map_defaults\<lparr> mpr_frontierDensity01 := 4 / 10, mpr_hazardRate01 := 28 / 100, mpr_syncUrgency01 := 72 / 100,
        mpr_confidenceFloor01 := 1 / 2 \<rparr>
      else if s = ''indoor_search'' then map_defaults\<lparr> mpr_frontierDensity01 := 58 / 100, mpr_hazardRate01 := 5 / 100, mpr_syncUrgency01 := 38 / 100 \<rparr>
      else if s = ''perimeter_sweep'' then map_defaults\<lparr> mpr_frontierDensity01 := 62 / 100, mpr_hazardRate01 := 4 / 100, mpr_relayImportance01 := 48 / 100 \<rparr>
      else if s = ''triage_operation'' then map_defaults\<lparr> mpr_frontierDensity01 := 52 / 100, mpr_targetScatter01 := 22 / 100, mpr_syncUrgency01 := 65 / 100 \<rparr>
      else if s = ''night_mission'' then map_defaults\<lparr> mpr_frontierDensity01 := 42 / 100, mpr_hazardRate01 := 9 / 100, mpr_syncUrgency01 := 48 / 100 \<rparr>
      else if s = ''extraction'' then map_defaults\<lparr> mpr_frontierDensity01 := 44 / 100, mpr_targetScatter01 := 18 / 100, mpr_relayImportance01 := 1 / 2 \<rparr>
      else map_defaults)\<lparr> mpr_scenario := s \<rparr>"

definition is_explorer :: "swarm_agent \<Rightarrow> bool" where
  "is_explorer n \<longleftrightarrow> sw_role n = MrExplorer \<or> sw_autonomyPolicy n = ApScoutContinue \<or> sw_autonomyPolicy n = ApMapIndoor"

definition explorers :: "swarm_agent list \<Rightarrow> swarm_agent list" where
  "explorers nodes = filter is_explorer nodes"

definition edgeQualityToOperator :: "connectivity_snapshot \<Rightarrow> ident \<Rightarrow> ident \<Rightarrow> real" where
  "edgeQualityToOperator graph nodeId operatorId =
     (case List.find (\<lambda>e. (ge_a e = nodeId \<and> ge_b e = operatorId) \<or> (ge_b e = nodeId \<and> ge_a e = operatorId)) (cs_edges graph) of
        Some e \<Rightarrow> ge_quality01 e | None \<Rightarrow> 0)"

definition deal_key :: "ident list \<Rightarrow> (ident, string list) jsmap \<Rightarrow> nat \<times> string \<Rightarrow> (ident, string list) jsmap" where
  "deal_key ids m ik = (let i = ids ! (fst ik mod length ids) in js_put i (default_to (js_get m i) [] @ [snd ik]) m)"

definition splitFrontiersAmongNodes :: "string list \<Rightarrow> ident list \<Rightarrow> (ident, string list) jsmap" where
  "splitFrontiersAmongNodes keys ids =
     (let out = foldl (\<lambda>m i. js_put i [] m) [] ids
      in if ids = [] then out else foldl (deal_key ids) out (enumerate 0 (js_sort (by_asc (\<lambda>k. k)) keys)))"

record exploration_assignment =
  xa_nodeId :: ident
  xa_frontierKeys :: "string list"
  xa_sectorLabel :: string

record exploration_state =
  xs_nodeId :: ident
  xs_cellsVisitedThisTick :: nat
  xs_assignment :: "exploration_assignment option"

record exploration_args =
  xg_mode :: connectivity_mode
  xg_graph :: connectivity_snapshot
  xg_operatorId :: ident
  xg_nowMs :: timestamp
  xg_rng :: "nat \<Rightarrow> real"
  xg_scenarioMapHint :: string
  xg_scenario :: string

text \<open>
  What a step changes: the map, the positions of the nodes it has been through, the last assignments, the number of the next draw
  and the states it returns.
\<close>

record exploration_run =
  xr_map :: swarm_map
  xr_nodes :: "swarm_agent list"
  xr_last :: "(ident, exploration_assignment) jsmap"
  xr_draws :: nat
  xr_states :: "exploration_state list"

definition active_explorer :: "exploration_args \<Rightarrow> swarm_agent \<Rightarrow> bool" where
  "active_explorer a n =
     (xg_mode a = CmBlackout \<or> xg_mode a = CmPartialPartition
      \<or> \<not> list_ex (\<lambda>e. ge_a e = xg_operatorId a \<or> ge_b e = xg_operatorId a) (cs_edges (xg_graph a))
      \<or> sw_nodeId n \<in> set (cs_operatorReachable (xg_graph a)) \<or> edgeQualityToOperator (xg_graph a) (sw_nodeId n) (xg_operatorId a) > 8 / 100)"

definition explorer_pool :: "exploration_args \<Rightarrow> swarm_agent list \<Rightarrow> swarm_agent list" where
  "explorer_pool a nodes = (let ex = explorers nodes; active = filter (active_explorer a) ex in if active \<noteq> [] then active else ex)"

text \<open>Without a frontier, the cells under the first explorers, or else the first two nodes, are marked as seen.\<close>

definition seed_node :: "timestamp \<Rightarrow> swarm_map \<Rightarrow> swarm_agent \<Rightarrow> swarm_map" where
  "seed_node now m n =
     (case worldToGrid (pos_x (sw_position n)) (pos_z (sw_position n)) 4 of
        (gx, gz) \<Rightarrow> applyLocalUpdate gx gz FxSeen now (sw_nodeId n) None PsLocalSensor m)"

definition bootstrap_map :: "exploration_args \<Rightarrow> swarm_agent list \<Rightarrow> swarm_map \<Rightarrow> swarm_map" where
  "bootstrap_map a nodes m =
     (if frontierKeys m \<noteq> [] then m
      else let seeds = take 3 (explorer_pool a nodes)
           in recomputeFrontiers (xg_nowMs a) ''bootstrap'' (foldl (seed_node (xg_nowMs a)) m (if seeds \<noteq> [] then seeds else take 2 nodes)))"

definition roll_state :: "exploration_args \<Rightarrow> real \<Rightarrow> fox_state" where
  "roll_state a roll =
     (let prof = scenarioMapProfile (xg_scenario a); hint = xg_scenarioMapHint a;
          bias = (if str_includes hint ''contamination'' \<or> str_includes hint ''plume'' then 135 / 100 else 1);
          hazard = mpr_hazardRate01 prof * (22 / 100) * bias
      in if roll < 55 / 1000 then FxBlocked
         else if roll < 55 / 1000 + hazard then FxHazard
         else if roll < 75 / 1000 + hazard then FxUnreachable
         else if roll < 9 / 100 + mpr_relayImportance01 prof * (6 / 100) then FxRelayCritical
         else if roll < 14 / 100 \<and> str_includes hint ''debris'' then FxBlocked
         else FxSearched)"

text \<open>One visit: the node, the map, the cells visited and the number of the next draw.\<close>

type_synonym visit_run = "swarm_agent \<times> swarm_map \<times> nat \<times> nat"

definition visit_cell :: "exploration_args \<Rightarrow> visit_run \<Rightarrow> string \<Rightarrow> visit_run" where
  "visit_cell a v key =
     (let (n, m, visited, k) = v
      in case parseCellKey key of
           None \<Rightarrow> v
         | Some (gx, gz) \<Rightarrow>
             let jitter = (if str_includes (xg_scenarioMapHint a) ''low_gps'' then 35 / 100 else 15 / 100);
                 x = of_int gx * 4 + (xg_rng a k - 1 / 2) * 4 * jitter; z = of_int gz * 4 + (xg_rng a (k + 1) - 1 / 2) * 4 * jitter
             in (n\<lparr> sw_position := (sw_position n)\<lparr> pos_x := x, pos_z := z \<rparr> \<rparr>,
                 applyLocalUpdate gx gz (roll_state a (xg_rng a (k + 2))) (xg_nowMs a) (sw_nodeId n) None PsLocalSensor m, visited + 1, k + 3))"

definition pick_count :: "exploration_args \<Rightarrow> real \<Rightarrow> nat" where
  "pick_count a r = nat (max 1 \<lfloor>1 + r * (if xg_mode a = CmDegraded then 2 else 3)\<rfloor>)"

definition assignment_for :: "(ident, string list) jsmap \<Rightarrow> (ident, exploration_assignment) jsmap \<Rightarrow> swarm_agent \<Rightarrow> exploration_assignment option" where
  "assignment_for split before n =
     (let keys = default_to (js_get split (sw_nodeId n)) []
      in if keys \<noteq> []
         then Some \<lparr> xa_nodeId = sw_nodeId n, xa_frontierKeys = keys,
                xa_sectorLabel = ''sec-'' @ show_nat ((length (sw_nodeId n) + length keys) mod 24) \<rparr>
         else js_get before (sw_nodeId n))"

definition explore_node :: "exploration_args \<Rightarrow> (ident, string list) jsmap \<Rightarrow> exploration_run \<Rightarrow> swarm_agent \<Rightarrow> exploration_run" where
  "explore_node a split s n =
     (let asg = assignment_for split (xr_last s) n; keys = (case asg of Some x \<Rightarrow> xa_frontierKeys x | None \<Rightarrow> []); k = xr_draws s;
          (n', m, visited, k') =
            (if is_explorer n \<and> keys \<noteq> [] then foldl (visit_cell a) (n, xr_map s, 0, k + 1) (take (pick_count a (xg_rng a k)) keys)
             else (n, xr_map s, 0, k))
      in \<lparr> xr_map = recomputeFrontiers (xg_nowMs a) (sw_nodeId n) m, xr_nodes = xr_nodes s @ [n'],
           xr_last = (if keys \<noteq> [] then js_put (sw_nodeId n) (the asg) (xr_last s) else xr_last s), xr_draws = k',
           xr_states = xr_states s @ [\<lparr> xs_nodeId = sw_nodeId n, xs_cellsVisitedThisTick = visited, xs_assignment = asg \<rparr>] \<rparr>)"

definition exploration_step :: "exploration_args \<Rightarrow> swarm_map \<Rightarrow> swarm_agent list \<Rightarrow> (ident, exploration_assignment) jsmap \<Rightarrow> nat \<Rightarrow> exploration_run" where
  "exploration_step a m nodes before k =
     (let ids = map sw_nodeId (explorer_pool a nodes); m1 = bootstrap_map a nodes m;
          split = splitFrontiersAmongNodes (frontierKeys m1) (if ids \<noteq> [] then ids else map sw_nodeId nodes)
      in foldl (explore_node a split) \<lparr> xr_map = m1, xr_nodes = [], xr_last = before, xr_draws = k, xr_states = [] \<rparr> nodes)"

subsection \<open>What the paths promise\<close>

definition relay_ok :: "graph_edge list \<Rightarrow> ident list \<Rightarrow> ident \<Rightarrow> ident \<Rightarrow> real \<times> ident option \<Rightarrow> bool" where
  "relay_ok edges R n oper best =
     (case snd best of None \<Rightarrow> fst best = 0 | Some p \<Rightarrow> p \<in> set R \<and> p \<noteq> oper \<and> fst best > 0 \<and> swarm_edge edges n p \<noteq> None)"

lemma swarm_edge_some:
  assumes "e \<in> set edges" "(ge_a e = a \<and> ge_b e = b) \<or> (ge_a e = b \<and> ge_b e = a)" shows "swarm_edge edges a b \<noteq> None"
  unfolding swarm_edge_def find_None_iff using assms by blast

lemma relay_over_sound:
  assumes "relay_ok edges R n oper best" "e \<in> set edges" shows "relay_ok edges R n oper (relay_over edges R n oper best e)"
proof -
  define p where "p = (if ge_a e = n then ge_b e else if ge_b e = n then ge_a e else [])"
  define q where "q = min (ge_quality01 e) (quality_between edges p oper) * (94 / 100)"
  have eq: "relay_over edges R n oper best e = (if p = [] \<or> p = oper \<or> p \<notin> set R \<or> q \<le> fst best then best else (q, Some p))"
    by (simp add: relay_over_def Let_def p_def [symmetric] q_def not_less)
  have pos: "0 \<le> fst best" using assms(1) by (simp add: relay_ok_def split: option.splits)
  show ?thesis
  proof (cases "p = [] \<or> p = oper \<or> p \<notin> set R \<or> q \<le> fst best")
    case True
    then show ?thesis using assms(1) by (simp add: eq)
  next
    case False
    then have "ge_a e = n \<or> ge_b e = n" unfolding p_def by presburger
    then have "ge_a e = n \<and> ge_b e = p \<or> ge_a e = p \<and> ge_b e = n" unfolding p_def by auto
    then have "swarm_edge edges n p \<noteq> None" by (rule swarm_edge_some [OF assms(2)])
    with False pos show ?thesis by (simp add: eq relay_ok_def)
  qed
qed

lemma relay_fold_sound:
  "set es \<subseteq> set edges \<Longrightarrow> relay_ok edges R n oper best \<Longrightarrow> relay_ok edges R n oper (foldl (relay_over edges R n oper) best es)"
proof (induction es arbitrary: best)
  case (Cons e es)
  then show ?case using relay_over_sound [of edges R n oper best e] by (simp del: split_paired_All)
qed simp

text \<open>
  The quality of a path to the operator is between 0.06 and 1. A relay is named only for a path that uses it: a
  peer other than the operator, itself in reach of the operator, with an edge to the node.
\<close>

theorem operator_path_sound:
  "(let q = effectiveOperatorPathQuality edges R n oper
    in 6 / 100 \<le> pq_quality01 q \<and> pq_quality01 q \<le> 1
       \<and> (case pq_relayPeer q of Some p \<Rightarrow> pq_usesRelay q \<and> p \<in> set R \<and> p \<noteq> oper \<and> swarm_edge edges n p \<noteq> None | None \<Rightarrow> True))"
proof -
  have "relay_ok edges R n oper (foldl (relay_over edges R n oper) (0, None) edges)"
    by (rule relay_fold_sound) (simp_all add: relay_ok_def)
  then show ?thesis unfolding effectiveOperatorPathQuality_def Let_def split_beta relay_ok_def
    by (cases "snd (foldl (relay_over edges R n oper) (0, None) edges)") simp_all
qed

subsection \<open>The frontier is shared out evenly\<close>

lemma deal_keys:
  assumes "distinct ids" "r < length ids" "js_get m (ids ! r) = Some acc"
  shows "js_get (foldl (deal_key ids) m iks) (ids ! r) = Some (acc @ map snd (filter (\<lambda>ik. fst ik mod length ids = r) iks))"
  using assms(3)
proof (induction iks arbitrary: m acc)
  case (Cons ik iks)
  have "fst ik mod length ids < length ids" using assms(2) by (intro mod_less_divisor) linarith
  then have eq: "ids ! (fst ik mod length ids) = ids ! r \<longleftrightarrow> fst ik mod length ids = r"
    using assms(1,2) by (simp add: nth_eq_iff_index_eq)
  show ?case
  proof (cases "fst ik mod length ids = r")
    case True
    have "js_get (deal_key ids m ik) (ids ! r) = Some (acc @ [snd ik])"
      using True Cons.prems by (simp add: deal_key_def js_map_simps)
    from Cons.IH [OF this] True show ?thesis by simp
  next
    case False
    then have "js_get (deal_key ids m ik) (ids ! r) = Some acc" using Cons.prems eq by (simp add: deal_key_def js_map_simps Let_def)
    from Cons.IH [OF this] False show ?thesis by simp
  qed
qed simp

lemma empty_shares: "i \<in> set ids \<Longrightarrow> js_get (foldl (\<lambda>m i. js_put i [] m) m ids) i = Some []"
proof (induction ids arbitrary: m)
  case (Cons j ids)
  have keep: "js_get m i = Some [] \<Longrightarrow> js_get (foldl (\<lambda>m i. js_put i [] m) m ids) i = Some []" for m
    by (induction ids arbitrary: m) (auto simp: js_map_simps)
  show ?case using Cons keep [of "js_put j [] m"] by (cases "i = j") (auto simp: js_map_simps)
qed simp

lemma share_of:
  assumes "distinct ids" "r < length ids"
  shows "js_get (splitFrontiersAmongNodes keys ids) (ids ! r)
    = Some (map snd (filter (\<lambda>ik. fst ik mod length ids = r) (enumerate 0 (js_sort (by_asc (\<lambda>k. k)) keys))))"
proof -
  have "ids ! r \<in> set ids" "ids \<noteq> []" using assms(2) by auto
  then show ?thesis using deal_keys [OF assms empty_shares [of "ids ! r" ids "[]"]] by (simp add: splitFrontiersAmongNodes_def Let_def)
qed

lemma div_step: "r < n \<Longrightarrow> (Suc l + n - 1 - r) div n = (l + n - 1 - r) div n + (if l mod n = r then 1 else 0)" for r n l :: nat
proof -
  assume r: "r < n"
  let ?m = "l + n - 1 - r"
  have "Suc ?m = l + (n - r)" using r by simp
  moreover have "(l + (n - r)) mod n = 0 \<longleftrightarrow> l mod n = r"
  proof -
    have "(l + (n - r)) mod n = 0 \<longleftrightarrow> (l mod n + (n - r)) mod n = 0" by (simp add: mod_simps)
    also have "\<dots> \<longleftrightarrow> l mod n = r"
    proof -
      have "l mod n < n" using r by simp
      then consider "l mod n < r" | "l mod n = r" | "r < l mod n" by linarith
      then show ?thesis
      proof cases
        case 3
        then have "(l mod n + (n - r)) mod n = l mod n - r" using r \<open>l mod n < n\<close> by (simp add: le_mod_geq)
        with 3 show ?thesis by simp
      qed (use r in auto)
    qed
    finally show ?thesis .
  qed
  ultimately have "Suc ?m mod n = 0 \<longleftrightarrow> l mod n = r" by simp
  moreover have "Suc l + n - 1 - r = Suc ?m" using r by simp
  ultimately show ?thesis by (simp add: div_Suc)
qed

lemma share_length: "r < n \<Longrightarrow> length (filter (\<lambda>ik. fst ik mod n = r) (enumerate 0 xs)) = (length xs + n - 1 - r) div n"
proof (induction xs rule: rev_induct)
  case (snoc x xs)
  then show ?case using div_step [of r n "length xs"] by (simp add: enumerate_append_eq)
qed simp

lemma shares_partition:
  assumes "0 < n" shows "mset (concat (map (\<lambda>r. map snd (filter (\<lambda>ik. fst ik mod n = r) es)) [0..<n])) = mset (map snd es)"
proof -
  have "(\<Sum>r<n. mset (map snd (filter (\<lambda>ik. fst ik mod n = r) es))) = mset (map snd es)"
  proof (induction es)
    case (Cons e es)
    have "(\<Sum>r<n. mset (map snd (filter (\<lambda>ik. fst ik mod n = r) (e # es))))
        = (\<Sum>r<n. (if r = fst e mod n then {# snd e #} else {#}) + mset (map snd (filter (\<lambda>ik. fst ik mod n = r) es)))"
      by (rule sum.cong) auto
    also have "\<dots> = {# snd e #} + mset (map snd es)" using assms Cons.IH by (simp add: sum.distrib sum.delta)
    finally show ?case by simp
  qed simp
  then show ?thesis by (simp add: mset_concat interv_sum_list_conv_sum_set_nat atLeast0LessThan comp_def)
qed

text \<open>
  Every frontier key goes to exactly one of the agents, and the shares differ by at most one key.
\<close>

theorem frontier_split_even:
  assumes "distinct ids" "ids \<noteq> []"
  shows "mset (concat (map (\<lambda>i. default_to (js_get (splitFrontiersAmongNodes keys ids) i) []) ids)) = mset keys
    \<and> list_all (\<lambda>i. length (default_to (js_get (splitFrontiersAmongNodes keys ids) i) [])
        \<in> {length keys div length ids, length keys div length ids + 1}) ids"
proof -
  let ?n = "length ids" and ?es = "enumerate 0 (js_sort (by_asc (\<lambda>k. k)) keys)"
  let ?share = "\<lambda>i. default_to (js_get (splitFrontiersAmongNodes keys ids) i) []"
  have share: "?share (ids ! r) = map snd (filter (\<lambda>ik. fst ik mod ?n = r) ?es)" if "r < ?n" for r
    using share_of [OF assms(1) that] by simp
  have "map ?share ids = map (\<lambda>r. map snd (filter (\<lambda>ik. fst ik mod ?n = r) ?es)) [0..<?n]"
    by (rule nth_equalityI) (simp_all add: share)
  then have "mset (concat (map ?share ids)) = mset (map snd ?es)" using assms(2) by (simp add: shares_partition)
  moreover have "mset (map snd ?es) = mset keys" by simp
  moreover have "length (?share (ids ! r)) \<in> {length keys div ?n, length keys div ?n + 1}" if "r < ?n" for r
  proof -
    have len: "length (?share (ids ! r)) = (length keys + (?n - 1 - r)) div ?n"
      using share_length [OF that, of "js_sort (by_asc (\<lambda>k. k)) keys"] that by (simp add: share)
    have "length keys div ?n \<le> (length keys + (?n - 1 - r)) div ?n" by (rule div_le_mono) simp
    moreover have "(length keys + (?n - 1 - r)) div ?n \<le> (length keys + ?n) div ?n" by (rule div_le_mono) simp
    moreover have "(length keys + ?n) div ?n = length keys div ?n + 1" using that by (subst div_add_self2) linarith+
    ultimately show ?thesis unfolding len by force
  qed
  ultimately show ?thesis by (simp add: list_all_length)
qed

theorem frontier_split_even_witness:
  "mset (concat (map (\<lambda>i. default_to (js_get (splitFrontiersAmongNodes [''1,0'', ''0,0'', ''0,1''] [''n1'', ''n2'']) i) []) [''n1'', ''n2'']))
     = mset [''1,0'', ''0,0'', ''0,1'']"
  using frontier_split_even [of "[''n1'', ''n2'']" "[''1,0'', ''0,0'', ''0,1'']"] by simp

subsection \<open>A step of the exploration\<close>

text \<open>Nothing a map knew is lost: rank and version of each cell only go up.\<close>

definition grows :: "swarm_map \<Rightarrow> swarm_map \<Rightarrow> bool" where
  "grows m m' \<longleftrightarrow> (\<forall>key. opt_max (core_at key m) (core_at key m') = core_at key m')"

lemma grows_refl [simp]: "grows m m"
  by (auto simp: grows_def) (metis max.idem opt_max.simps(1,3) option.exhaust)

lemma grows_trans: "grows m m' \<Longrightarrow> grows m' m'' \<Longrightarrow> grows m m''"
  unfolding grows_def by (metis opt_max_assoc)

lemma local_update_grows: "grows m (applyLocalUpdate gx gz state now nodeId conf source m)"
proof -
  have absorb: "opt_max x (opt_max x y) = opt_max x y" for x y :: "(nat \<times> int) option"
    by (cases x; cases y) auto
  have "core_at (makeCellId gx gz) (applyLocalUpdate gx gz state now nodeId conf source m)
      = opt_max (core_at (makeCellId gx gz) m) (Some (core (local_meta (getCell (makeCellId gx gz) m) state (mo_seq m) now nodeId conf source)))"
    by (cases "getCell (makeCellId gx gz) m") (simp_all add: core_at_def applyLocalUpdate_def Let_def mergeCellMeta_def merge_core)
  moreover have "core_at key (applyLocalUpdate gx gz state now nodeId conf source m) = core_at key m" if "key \<noteq> makeCellId gx gz" for key
    using that by (simp add: core_at_def applyLocalUpdate_def Let_def)
  moreover have "opt_max x x = x" for x :: "(nat \<times> int) option" by (cases x) auto
  ultimately show ?thesis unfolding grows_def by (metis absorb)
qed

lemma foldl_grows: "(\<And>m x. grows m (f m x)) \<Longrightarrow> grows m (foldl f m xs)"
  by (induction xs arbitrary: m) (auto intro: grows_trans)

lemma frontiers_grow: "grows m (recomputeFrontiers now origin m)"
proof -
  have "grows m (open_frontier now origin m nk)" for m nk
    by (auto simp: open_frontier_def intro: local_update_grows split: option.split)
  then have "grows m (frontier_step now origin m key)" for m key
    by (auto simp: frontier_step_def intro!: foldl_grows split: option.split)
  then show ?thesis by (simp add: recomputeFrontiers_def foldl_grows)
qed

lemma pick_count_bound:
  assumes "0 \<le> r" "r < 1" shows "pick_count a r \<le> (if xg_mode a = CmDegraded then 2 else 3)"
proof -
  have "\<lfloor>1 + r * c\<rfloor> \<le> c" if "0 < c" for c :: int
  proof -
    have "1 + r * c < of_int c + 1" using assms(2) that by simp
    then show ?thesis by (simp only: floor_le_iff)
  qed
  from this [of 2] this [of 3] have "\<lfloor>1 + r * 2\<rfloor> \<le> 2" "\<lfloor>1 + r * 3\<rfloor> \<le> 3" by (simp_all only: of_int_numeral)
  moreover have "nat (max 1 x) \<le> 2" if "x \<le> 2" for x using that by simp
  moreover have "nat (max 1 x) \<le> 3" if "x \<le> 3" for x using that by simp
  ultimately show ?thesis unfolding pick_count_def by presburger
qed

text \<open>The map is sound and has grown, the node is the same but for its place, and no more cells were visited than keys given.\<close>

lemma visit_cell_sound:
  assumes "swarm_ok m"
  shows "case visit_cell a (n, m, visited, k) key of (n', m', visited', k') \<Rightarrow> swarm_ok m' \<and> grows m m'
    \<and> sw_nodeId n' = sw_nodeId n \<and> sw_role n' = sw_role n \<and> visited' \<le> visited + 1"
  using assms by (auto simp: visit_cell_def Let_def local_update_ok local_update_grows split: option.split)

lemma visit_cells_sound:
  assumes "swarm_ok m"
  shows "case foldl (visit_cell a) (n, m, visited, k) keys of (n', m', visited', k') \<Rightarrow> swarm_ok m' \<and> grows m m'
    \<and> sw_nodeId n' = sw_nodeId n \<and> sw_role n' = sw_role n \<and> visited' \<le> visited + length keys"
  using assms
proof (induction keys arbitrary: n m visited k)
  case (Cons key keys)
  obtain n1 m1 v1 k1 where one: "visit_cell a (n, m, visited, k) key = (n1, m1, v1, k1)" by (metis surj_pair)
  obtain n2 m2 v2 k2 where rest: "foldl (visit_cell a) (n1, m1, v1, k1) keys = (n2, m2, v2, k2)" by (metis surj_pair)
  show ?case using visit_cell_sound [OF Cons.prems, where a = a and n = n and visited = visited and k = k and key = key] Cons.IH [of m1 n1 v1 k1]
    by (auto simp: one rest intro: grows_trans)
qed simp

definition explored_ok :: "exploration_args \<Rightarrow> swarm_map \<Rightarrow> exploration_run \<Rightarrow> bool" where
  "explored_ok a m s \<longleftrightarrow> swarm_ok (xr_map s) \<and> grows m (xr_map s)
     \<and> list_all (\<lambda>x. xs_cellsVisitedThisTick x \<le> (if xg_mode a = CmDegraded then 2 else 3)) (xr_states s)"

lemma explore_node_sound:
  assumes "explored_ok a m s" "unit_draws (xg_rng a)"
  shows "explored_ok a m (explore_node a split s n)
    \<and> (\<exists>n' st. xr_nodes (explore_node a split s n) = xr_nodes s @ [n'] \<and> sw_nodeId n' = sw_nodeId n \<and> sw_role n' = sw_role n
        \<and> xr_states (explore_node a split s n) = xr_states s @ [st] \<and> xs_nodeId st = sw_nodeId n)"
proof -
  define asg where "asg = assignment_for split (xr_last s) n"
  define keys where "keys = (case asg of Some x \<Rightarrow> xa_frontierKeys x | None \<Rightarrow> [])"
  define v where "v = (if is_explorer n \<and> keys \<noteq> []
    then foldl (visit_cell a) (n, xr_map s, 0, xr_draws s + 1) (take (pick_count a (xg_rng a (xr_draws s))) keys) else (n, xr_map s, 0, xr_draws s))"
  obtain n' m' visited k' where v': "v = (n', m', visited, k')" by (metis surj_pair)
  have map_ok: "swarm_ok (xr_map s)" "grows m (xr_map s)" using assms(1) by (auto simp: explored_ok_def)
  have "pick_count a (xg_rng a (xr_draws s)) \<le> (if xg_mode a = CmDegraded then 2 else 3)"
    by (rule pick_count_bound) (use assms(2) in \<open>simp_all add: unit_draws_def\<close>)
  then have sound: "swarm_ok m'" "grows (xr_map s) m'" "sw_nodeId n' = sw_nodeId n" "sw_role n' = sw_role n"
      "visited \<le> (if xg_mode a = CmDegraded then 2 else 3)"
    using visit_cells_sound [OF map_ok(1), where a = a and n = n and visited = 0 and k = "xr_draws s + 1"
      and keys = "take (pick_count a (xg_rng a (xr_draws s))) keys"] map_ok(1) v'
    by (auto simp: v_def split: if_splits)
  have eq: "explore_node a split s n = \<lparr> xr_map = recomputeFrontiers (xg_nowMs a) (sw_nodeId n) m', xr_nodes = xr_nodes s @ [n'],
      xr_last = (if keys \<noteq> [] then js_put (sw_nodeId n) (the asg) (xr_last s) else xr_last s), xr_draws = k',
      xr_states = xr_states s @ [\<lparr> xs_nodeId = sw_nodeId n, xs_cellsVisitedThisTick = visited, xs_assignment = asg \<rparr>] \<rparr>"
    unfolding explore_node_def Let_def asg_def [symmetric] keys_def [symmetric] v_def [symmetric] v' by simp
  have "grows m (recomputeFrontiers (xg_nowMs a) (sw_nodeId n) m')"
    using map_ok(2) sound(2) frontiers_grow grows_trans by blast
  then show ?thesis using assms(1) sound frontiers_ok [OF sound(1)] by (simp add: eq explored_ok_def)
qed

lemma explore_nodes_sound:
  assumes "explored_ok a m s" "unit_draws (xg_rng a)"
  shows "explored_ok a m (foldl (explore_node a split) s nodes)
    \<and> map sw_nodeId (xr_nodes (foldl (explore_node a split) s nodes)) = map sw_nodeId (xr_nodes s @ nodes)
    \<and> map sw_role (xr_nodes (foldl (explore_node a split) s nodes)) = map sw_role (xr_nodes s @ nodes)
    \<and> map xs_nodeId (xr_states (foldl (explore_node a split) s nodes)) = map xs_nodeId (xr_states s) @ map sw_nodeId nodes"
  using assms(1)
proof (induction nodes arbitrary: s)
  case (Cons n nodes)
  note one = explore_node_sound [OF Cons.prems assms(2), of split n]
  obtain n' st where s': "xr_nodes (explore_node a split s n) = xr_nodes s @ [n']" "sw_nodeId n' = sw_nodeId n" "sw_role n' = sw_role n"
      "xr_states (explore_node a split s n) = xr_states s @ [st]" "xs_nodeId st = sw_nodeId n" using one by blast
  show ?case using Cons.IH [of "explore_node a split s n"] one by (simp add: s')
qed simp

lemma bootstrap_sound: "swarm_ok m \<Longrightarrow> swarm_ok (bootstrap_map a nodes m) \<and> grows m (bootstrap_map a nodes m)"
proof -
  have "grows m (seed_node now m n)" "swarm_ok m \<Longrightarrow> swarm_ok (seed_node now m n)" for now m n
    by (auto simp: seed_node_def local_update_grows local_update_ok split: prod.split)
  then have "swarm_ok m \<Longrightarrow> swarm_ok (foldl (seed_node now) m ns)" "grows m (foldl (seed_node now) m ns)" for now m ns
    by (auto intro!: foldl_inv [where P = swarm_ok] foldl_grows)
  then show "swarm_ok m \<Longrightarrow> ?thesis"
    by (auto simp: bootstrap_map_def Let_def intro: frontiers_ok grows_trans [OF _ frontiers_grow])
qed

text \<open>
  A step keeps the map sound and forgets nothing in it, whatever the draws: ranks and versions of the cells only rise. The nodes
  keep their order, identifiers and roles, and each visits at most three cells, two over degraded links.
\<close>

theorem exploration_forgets_nothing:
  assumes "swarm_ok m" "unit_draws (xg_rng a)"
  shows "(let r = exploration_step a m nodes before k
    in swarm_ok (xr_map r) \<and> grows m (xr_map r)
       \<and> map sw_nodeId (xr_nodes r) = map sw_nodeId nodes \<and> map sw_role (xr_nodes r) = map sw_role nodes
       \<and> map xs_nodeId (xr_states r) = map sw_nodeId nodes
       \<and> list_all (\<lambda>x. xs_cellsVisitedThisTick x \<le> (if xg_mode a = CmDegraded then 2 else 3)) (xr_states r))"
proof -
  let ?ids = "map sw_nodeId (explorer_pool a nodes)" and ?m = "bootstrap_map a nodes m"
  let ?s = "\<lparr> xr_map = ?m, xr_nodes = [], xr_last = before, xr_draws = k, xr_states = [] \<rparr>"
  have "explored_ok a m ?s" using bootstrap_sound [OF assms(1)] by (simp add: explored_ok_def)
  from explore_nodes_sound [OF this assms(2)] show ?thesis by (simp add: exploration_step_def Let_def explored_ok_def)
qed

definition toy_exploration :: exploration_args where
  "toy_exploration = \<lparr> xg_mode = CmNormal, xg_graph = \<lparr> cs_edges = [], cs_partitionClusters = [], cs_operatorReachable = [], cs_relayChains = [],
     cs_bottleneckEdge = None, cs_stalePeers = [] \<rparr>, xg_operatorId = ''op'', xg_nowMs = 5, xg_rng = mulberry32 7,
     xg_scenarioMapHint = ''debris'', xg_scenario = ''tunnel'' \<rparr>"

theorem exploration_forgets_nothing_witness:
  "swarm_ok (xr_map (exploration_step toy_exploration (new_swarm_map []) [toy_scout ''n1''] [] 0))"
proof -
  have "swarm_ok (new_swarm_map [])" by (simp add: new_swarm_map_def swarm_ok_def js_values_def wf_map_def)
  moreover have "unit_draws (xg_rng toy_exploration)" by (simp add: toy_exploration_def mulberry32_draws)
  ultimately show ?thesis using exploration_forgets_nothing unfolding Let_def by blast
qed

subsection \<open>Telemetry only moves forward\<close>

definition telemetry_step :: "sim_telemetry list \<times> (ident, int) jsmap \<Rightarrow> sim_telemetry \<Rightarrow> sim_telemetry list \<times> (ident, int) jsmap" where
  "telemetry_step s t = (case normalize_telemetry t (snd s) of (t', m) \<Rightarrow> (fst s @ [t'], m))"

definition sequences :: "ident \<Rightarrow> sim_telemetry list \<Rightarrow> int list" where
  "sequences i ts = map tls_sequence (filter (\<lambda>t. tls_nodeId t = i) ts)"

lemma telemetry_step_sorted:
  assumes "sorted (sequences i (fst s))" "list_all (\<lambda>q. q \<le> default_to (js_get (snd s) i) (- 1)) (sequences i (fst s))"
  shows "sorted (sequences i (fst (telemetry_step s t)))"
    "list_all (\<lambda>q. q \<le> default_to (js_get (snd (telemetry_step s t)) i) (- 1)) (sequences i (fst (telemetry_step s t)))"
  using assms by (auto simp: telemetry_step_def normalize_telemetry_def sequences_def Let_def sorted_append js_map_simps list_all_iff
      split: option.splits)

text \<open>
  The normalised samples of a node have ascending sequence numbers, however the raw samples are ordered or repeated: a sample
  that is not newer than the last one accepted is passed on under that one's number, marked as a duplicate.
\<close>

theorem telemetry_ascends: "sorted (sequences i (fst (foldl telemetry_step ([], []) ts)))"
proof -
  have "sorted (sequences i (fst s)) \<and> list_all (\<lambda>q. q \<le> default_to (js_get (snd s) i) (- 1)) (sequences i (fst s)) \<Longrightarrow>
      sorted (sequences i (fst (foldl telemetry_step s ts)))" for s
    by (induction ts arbitrary: s) (use telemetry_step_sorted in \<open>auto simp del: split_paired_All\<close>)
  from this [of "([], [])"] show ?thesis by (simp add: sequences_def)
qed

end
