(* ===== verification/SwarmFleet.thy ===== *)
theory SwarmFleet
  imports SwarmNetwork
begin

section \<open>The simulated fleet and its scenarios\<close>

text \<open>
  Models \<open>agent-profiles.ts\<close>, \<open>scenario-presets.ts\<close> and \<open>vertex-event-bus.ts\<close> of \<open>src/src/backend/vertex\<close>: the agents a simulation starts with,
  the preset of a scenario, and the events a simulation reports. The lemmas show that the agents have distinct identifiers.
\<close>

subsection \<open>Agents\<close>

definition base_capability :: agent_capability where
  "base_capability = \<lparr> cp_sensors = [], cp_maxPayloadKg = 5, cp_maxAltitudeM = 120, cp_maxSpeedMps = 12, cp_enduranceMin = 35,
     cp_meshRangeM = 600, cp_indoorScore = 1 / 2, cp_outdoorScore = 1 / 2, cp_gpsImuConfidence = 3 / 4, cp_thermalScore = 2 / 10,
     cp_lidarScore = 2 / 10, cp_lowLightScore = 3 / 10, cp_gripperScore = 1 / 10, cp_computeTier = 1 / 2,
     cp_batteryDrainPerTick = 12 / 10000, cp_recoveryLatencyMs = 900 \<rparr>"

text \<open>A partial profile is the update that spreads it over the base.\<close>

record baseline_agent =
  bag_nodeId :: ident
  bag_displayName :: string
  bag_vendorKey :: ident
  bag_model :: string
  bag_role :: mission_node_role
  bag_mobility :: mobility_class
  bag_autonomyPolicy :: autonomy_policy
  bag_capabilitySeed :: "agent_capability \<Rightarrow> agent_capability"

definition VERTEX_BASELINE_FIVE :: "baseline_agent list" where
  "VERTEX_BASELINE_FIVE =
     [\<lparr> bag_nodeId = ''agent-scout-a'', bag_displayName = ''Scout A (thermal)'', bag_vendorKey = ''aero_nordic'', bag_model = ''AN-Scout Mk4'',
        bag_role = MrExplorer, bag_mobility = MobMultirotor, bag_autonomyPolicy = ApScoutContinue,
        bag_capabilitySeed = (\<lambda>c. c\<lparr> cp_sensors := [''thermal'', ''camera'', ''optical''], cp_thermalScore := 95 / 100,
          cp_outdoorScore := 92 / 100, cp_maxAltitudeM := 140, cp_maxSpeedMps := 14, cp_meshRangeM := 650 \<rparr>) \<rparr>,
      \<lparr> bag_nodeId = ''agent-relay-b'', bag_displayName = ''Relay B (mesh)'', bag_vendorKey = ''meshworks'', bag_model = ''MW-Relay X2'',
        bag_role = MrRelay, bag_mobility = MobMultirotor, bag_autonomyPolicy = ApRelayMaintain,
        bag_capabilitySeed = (\<lambda>c. c\<lparr> cp_sensors := [''optical'', ''rf_spectrum''], cp_meshRangeM := 1200, cp_computeTier := 55 / 100,
          cp_outdoorScore := 85 / 100 \<rparr>) \<rparr>,
      \<lparr> bag_nodeId = ''agent-indoor-c'', bag_displayName = ''Indoor C (LIDAR)'', bag_vendorKey = ''subterra'', bag_model = ''ST-UGV-7'',
        bag_role = MrExplorer, bag_mobility = MobGround, bag_autonomyPolicy = ApMapIndoor,
        bag_capabilitySeed = (\<lambda>c. c\<lparr> cp_sensors := [''lidar'', ''imu'', ''optical''], cp_lidarScore := 95 / 100, cp_indoorScore := 95 / 100,
          cp_maxAltitudeM := 3, cp_maxSpeedMps := 22 / 10, cp_gpsImuConfidence := 4 / 10 \<rparr>) \<rparr>,
      \<lparr> bag_nodeId = ''agent-rescue-d'', bag_displayName = ''Rescue D (gripper)'', bag_vendorKey = ''heavylift'', bag_model = ''HL-Rescue 9'',
        bag_role = MrCarrier, bag_mobility = MobGround, bag_autonomyPolicy = ApRescueContinue,
        bag_capabilitySeed = (\<lambda>c. c\<lparr> cp_sensors := [''camera'', ''force_torque''], cp_maxPayloadKg := 40, cp_gripperScore := 92 / 100,
          cp_indoorScore := 65 / 100, cp_outdoorScore := 7 / 10 \<rparr>) \<rparr>,
      \<lparr> bag_nodeId = ''agent-cmd-e'', bag_displayName = ''Command E'', bag_vendorKey = ''cogniflight'', bag_model = ''CF-EdgeCommand'',
        bag_role = MrObserver, bag_mobility = MobMultirotor, bag_autonomyPolicy = ApCoordinatorQueue,
        bag_capabilitySeed = (\<lambda>c. c\<lparr> cp_sensors := [''camera'', ''rf_spectrum'', ''imu''], cp_computeTier := 98 / 100, cp_meshRangeM := 750,
          cp_outdoorScore := 88 / 100 \<rparr>) \<rparr>]"

definition buildSwarmAgent :: "baseline_agent \<Rightarrow> real \<Rightarrow> swarm_agent" where
  "buildSwarmAgent d trust01 =
     (let base = bag_capabilitySeed d base_capability
      in \<lparr> sw_nodeId = bag_nodeId d, sw_displayName = bag_displayName d, sw_vendorId = bag_vendorKey d, sw_model = bag_model d,
           sw_role = bag_role d, sw_mobility = bag_mobility d,
           sw_capabilities = (case js_get VENDOR_PROFILES (bag_vendorKey d) of Some v \<Rightarrow> applyVendorToCapabilities base v | None \<Rightarrow> base),
           sw_position = \<lparr> pos_x = 0, pos_y = 0, pos_z = 0 \<rparr>, sw_trust01 = trust01, sw_autonomyPolicy = bag_autonomyPolicy d,
           sw_offline = None, sw_healthStatus = None, sw_currentTaskId = None, sw_lastHeartbeatMs = None \<rparr>)"

definition EXTRA_AGENT_ARCHETYPES :: "baseline_agent list" where
  "EXTRA_AGENT_ARCHETYPES =
     [\<lparr> bag_nodeId = ''agent-extra-placeholder'', bag_displayName = ''Medic standby'', bag_vendorKey = ''cogniflight'', bag_model = ''CF-Triage'',
        bag_role = MrMedic, bag_mobility = MobMultirotor, bag_autonomyPolicy = ApRescueContinue,
        bag_capabilitySeed = (\<lambda>c. c\<lparr> cp_sensors := [''thermal'', ''camera''], cp_thermalScore := 88 / 100, cp_meshRangeM := 520,
          cp_enduranceMin := 28 \<rparr>) \<rparr>,
      \<lparr> bag_nodeId = ''agent-extra-placeholder'', bag_displayName = ''Perimeter scout'', bag_vendorKey = ''aero_nordic'', bag_model = ''AN-Perimeter'',
        bag_role = MrExplorer, bag_mobility = MobFixedWing, bag_autonomyPolicy = ApScoutContinue,
        bag_capabilitySeed = (\<lambda>c. c\<lparr> cp_sensors := [''optical'', ''imu''], cp_outdoorScore := 95 / 100, cp_maxSpeedMps := 22,
          cp_meshRangeM := 480 \<rparr>) \<rparr>,
      \<lparr> bag_nodeId = ''agent-extra-placeholder'', bag_displayName = ''Hazmat sensor UGV'', bag_vendorKey = ''subterra'', bag_model = ''ST-Chem-2'',
        bag_role = MrExplorer, bag_mobility = MobGround, bag_autonomyPolicy = ApMapIndoor,
        bag_capabilitySeed = (\<lambda>c. c\<lparr> cp_sensors := [''gas'', ''lidar''], cp_indoorScore := 9 / 10, cp_lidarScore := 72 / 100,
          cp_gpsImuConfidence := 55 / 100 \<rparr>) \<rparr>,
      \<lparr> bag_nodeId = ''agent-extra-placeholder'', bag_displayName = ''Heavy transport'', bag_vendorKey = ''heavylift'', bag_model = ''HL-SkyLift'',
        bag_role = MrCarrier, bag_mobility = MobMultirotor, bag_autonomyPolicy = ApRescueContinue,
        bag_capabilitySeed = (\<lambda>c. c\<lparr> cp_sensors := [''camera'', ''force_torque''], cp_maxPayloadKg := 55, cp_gripperScore := 65 / 100,
          cp_meshRangeM := 620 \<rparr>) \<rparr>]"

definition extra_agent :: "real \<Rightarrow> nat \<Rightarrow> swarm_agent" where
  "extra_agent trust01 i =
     (let arche = EXTRA_AGENT_ARCHETYPES ! ((i - 5) mod length EXTRA_AGENT_ARCHETYPES)
      in buildSwarmAgent (arche\<lparr> bag_nodeId := ''agent-extra-'' @ show_nat i, bag_displayName := bag_displayName arche @ '' '' @ show_nat i \<rparr>)
           (trust01 - 15 / 1000 * (real i - 4)))"

definition createBaselineSwarmNodeList :: "nat \<Rightarrow> real \<Rightarrow> swarm_agent list" where
  "createBaselineSwarmNodeList n trust01 =
     map (\<lambda>d. buildSwarmAgent d trust01) VERTEX_BASELINE_FIVE @ map (extra_agent trust01) [5..<max 5 n]"

lemma built_id [simp]: "sw_nodeId (buildSwarmAgent d t) = bag_nodeId d"
  by (simp add: buildSwarmAgent_def Let_def)

lemma extra_id: "sw_nodeId (extra_agent t i) = ''agent-extra-'' @ show_nat i"
  by (simp add: extra_agent_def Let_def)

lemma fleet_ids: "map sw_nodeId (createBaselineSwarmNodeList n t)
    = [''agent-scout-a'', ''agent-relay-b'', ''agent-indoor-c'', ''agent-rescue-d'', ''agent-cmd-e''] @ map (\<lambda>i. ''agent-extra-'' @ show_nat i) [5..<max 5 n]"
  by (simp add: createBaselineSwarmNodeList_def VERTEX_BASELINE_FIVE_def extra_id)

lemma fleet_distinct: "distinct (map sw_nodeId (createBaselineSwarmNodeList n t))"
  unfolding fleet_ids by (auto simp: distinct_map inj_on_def dest: show_nat_inj)

subsection \<open>Scenarios\<close>

datatype comm_expectation = CeDense | CeMixed | CeSparse

record scenario_preset =
  spr_id :: string
  spr_label :: string
  spr_sensorEmphasis :: "string list"
  spr_commExpectation :: comm_expectation
  spr_risk01 :: real
  spr_recoveryThreshold01 :: real
  spr_taskBias :: "string list"
  spr_mapBehavior :: string

definition preset :: "string \<Rightarrow> string \<Rightarrow> string list \<Rightarrow> comm_expectation \<Rightarrow> real \<Rightarrow> real \<Rightarrow> string list \<Rightarrow> string \<Rightarrow> scenario_preset" where
  "preset i label sensors comm risk recovery bias mapb =
     \<lparr> spr_id = i, spr_label = label, spr_sensorEmphasis = sensors, spr_commExpectation = comm, spr_risk01 = risk,
       spr_recoveryThreshold01 = recovery, spr_taskBias = bias, spr_mapBehavior = mapb \<rparr>"

definition VERTEX_SCENARIO_PRESETS :: "scenario_preset list" where
  "VERTEX_SCENARIO_PRESETS =
     [preset ''indoor_search'' ''Indoor search'' [''lidar'', ''imu'', ''optical''] CeSparse (35 / 100) (55 / 100) [''mapping'', ''room_clear''] ''incremental_slam'',
      preset ''collapsed_building'' ''Collapsed building'' [''thermal'', ''audio'', ''gas''] CeMixed (4 / 10) (1 / 2) [''victim_pin'', ''shoring''] ''unstable_debris'',
      preset ''tunnel'' ''Tunnel / cave'' [''lidar'', ''imu''] CeSparse (38 / 100) (52 / 100) [''relay_extension'', ''mapping''] ''low_gps'',
      preset ''flood_rescue'' ''Flood rescue'' [''optical'', ''thermal''] CeMixed (45 / 100) (48 / 100) [''boat_extract'', ''high_water_mark''] ''fluid_boundary'',
      preset ''wildfire'' ''Wildfire perimeter'' [''thermal'', ''optical''] CeDense (48 / 100) (42 / 100) [''perimeter_scan'', ''ember_watch''] ''wind_bias_grid'',
      preset ''hazmat'' ''Hazmat'' [''gas'', ''thermal''] CeMixed (55 / 100) (6 / 10) [''plume_edge'', ''sensor_drop''] ''contamination_gradient'',
      preset ''perimeter_sweep'' ''Perimeter sweep'' [''optical'', ''rf_spectrum''] CeDense (32 / 100) (45 / 100) [''relay_extension'', ''boundary_ping''] ''ring_expand'',
      preset ''triage_operation'' ''Triage operation'' [''thermal'', ''audio''] CeMixed (36 / 100) (1 / 2) [''triage_station'', ''victim_pin''] ''sector_priority'',
      preset ''night_mission'' ''Night mission'' [''thermal'', ''low_light_optical''] CeSparse (41 / 100) (53 / 100) [''slow_search'', ''relay_extension''] ''low_visibility'',
      preset ''extraction'' ''Extraction focus'' [''payload'', ''optical''] CeMixed (37 / 100) (48 / 100) [''extraction_prep'', ''lz_secure''] ''lz_centric'']"

definition presetForScenario :: "string \<Rightarrow> scenario_preset" where
  "presetForScenario s = default_to (List.find (\<lambda>p. spr_id p = s) VERTEX_SCENARIO_PRESETS) (hd VERTEX_SCENARIO_PRESETS)"

record runtime_config =
  rtc_scenario :: string
  rtc_seed :: int
  rtc_tickMs :: int
  rtc_staleHeartbeatMs :: int
  rtc_operatorNodeId :: ident
  rtc_useMockFallback :: "bool option"

definition defaultRuntimeConfig :: "string \<Rightarrow> int \<Rightarrow> runtime_config" where
  "defaultRuntimeConfig scenario seed =
     \<lparr> rtc_scenario = scenario, rtc_seed = seed, rtc_tickMs = 500, rtc_staleHeartbeatMs = 8000, rtc_operatorNodeId = ''agent-cmd-e'',
       rtc_useMockFallback = None \<rparr>"

subsection \<open>Events of a simulation\<close>

datatype sim_event =
    EvTick timestamp
  | EvTelemetry sim_telemetry
  | EvConnectivity connectivity_mode
  | EvTaskOpened ident
  | EvTaskAssigned ident ident "string list"
  | EvLedgerCommitted string string
  | EvBlackout bool "string option"
  | EvRecovery string
  | EvMapUpdated real nat
  | EvTargetCandidate ident real
  | EvTargetConfirmed ident
  | EvRoleHandoff ident mission_node_role string
  | EvFoxmqSync version nat int nat

end
