(* ===== verification/VertexSimulator.thy ===== *)
theory VertexSimulator
  imports SwarmFleet FoxMessages MissionApi
begin

section \<open>The swarm simulator\<close>

text \<open>
  Models \<open>src/src/backend/vertex/swarm-simulator.ts\<close>, the driver that ties ledger, graph, tasks, map, discovery and roles together.
  The record \<open>vertex_sim\<close> holds the fields of \<open>VertexSwarmSimulator\<close>, \<open>vertex_env\<close> what stays fixed during a run: hash, texts,
  generator, clock. Two commits are started without being awaited; such a row is computed at once and waits in \<open>vsm_pending\<close> until it lands,
  and whether it lands at a point where the code yields is a parameter. The views of the mesh layers are left out.
  The lemmas show which properties survive every sequence of calls, and what the rows that are not awaited do to the chain.
\<close>

record vertex_env =
  ven_H :: "string \<Rightarrow> string"
  ven_ns :: "real \<Rightarrow> string"
  ven_fx :: "nat \<Rightarrow> real \<Rightarrow> string"
  ven_rd :: "string \<Rightarrow> real option"
  ven_rng :: "nat \<Rightarrow> real"
  ven_lands :: "nat \<Rightarrow> bool"
  ven_wall :: timestamp
  ven_cell_text :: "fox_meta \<Rightarrow> units"
  ven_event_text :: "map_event_input \<Rightarrow> units"

record vertex_sim =
  vsm_events :: "sim_event list"
  vsm_ledger :: mission_ledger
  vsm_pending :: "(chain_event \<times> sim_event list) list"
  vsm_yields :: nat
  vsm_graph :: mesh_graph
  vsm_blackout :: blackout_state
  vsm_tasks :: orchestrator
  vsm_telemetrySeqs :: "(ident, int) jsmap"
  vsm_sharedMap :: swarm_map
  vsm_assignments :: "(ident, exploration_assignment) jsmap"
  vsm_pipe :: discovery_pipe
  vsm_handoffs :: "handoff_record list"
  vsm_foxMap :: sync_engine
  vsm_draws :: nat
  vsm_nodes :: "swarm_agent list"
  vsm_nowMs :: timestamp
  vsm_phase :: mission_phase
  vsm_missionId :: ident
  vsm_config :: runtime_config
  vsm_tickCount :: nat
  vsm_telemetryBuf :: "sim_telemetry list"
  vsm_lastSeq :: "(ident, int) jsmap"
  vsm_initialized :: bool
  vsm_loggedDiscoveries :: "ident list"
  vsm_taskSerial :: nat
  vsm_partitionManual :: bool

abbreviation "vsm_operator s \<equiv> rtc_operatorNodeId (vsm_config s)"

abbreviation "vsm_scenario s \<equiv> rtc_scenario (vsm_config s)"

definition emit :: "sim_event list \<Rightarrow> vertex_sim \<Rightarrow> vertex_sim" where
  "emit evs s = s\<lparr> vsm_events := vsm_events s @ evs \<rparr>"

text \<open>The next draw, and the generator from the next draw on.\<close>

definition sim_draw :: "vertex_env \<Rightarrow> vertex_sim \<Rightarrow> real" where
  "sim_draw env s = ven_rng env (vsm_draws s)"

definition drawn :: "nat \<Rightarrow> vertex_sim \<Rightarrow> vertex_sim" where
  "drawn n s = s\<lparr> vsm_draws := vsm_draws s + n \<rparr>"

definition rest_draws :: "vertex_env \<Rightarrow> vertex_sim \<Rightarrow> nat \<Rightarrow> real" where
  "rest_draws env s i = ven_rng env (vsm_draws s + i)"

subsection \<open>Rows of the ledger\<close>

text \<open>At a point where the code yields, the pending rows land if the schedule says so.\<close>

definition yield_point :: "vertex_env \<Rightarrow> vertex_sim \<Rightarrow> vertex_sim" where
  "yield_point env s =
     (let s1 = s\<lparr> vsm_yields := vsm_yields s + 1 \<rparr>
      in if ven_lands env (vsm_yields s)
         then s1\<lparr> vsm_ledger := vsm_ledger s @ map fst (vsm_pending s), vsm_events := vsm_events s @ concat (map snd (vsm_pending s)),
                 vsm_pending := [] \<rparr>
         else s1)"

text \<open>An awaited append: the row is computed, the code yields, the row is pushed. The last argument are the events that follow.\<close>

definition sim_row :: "vertex_env \<Rightarrow> ident \<Rightarrow> string \<Rightarrow> obj \<Rightarrow> timestamp \<Rightarrow> vertex_sim \<Rightarrow> chain_event" where
  "sim_row env actorId kind payload t s =
     api_row (ven_H env) (ven_ns env) (vsm_missionId s) actorId kind PlaneVertex payload t (vsm_ledger s)"

definition push_row :: "chain_event \<Rightarrow> vertex_sim \<Rightarrow> vertex_sim" where
  "push_row row s = s\<lparr> vsm_ledger := vsm_ledger s @ [row] \<rparr>"

definition committed_event :: "chain_event \<Rightarrow> sim_event" where
  "committed_event row = EvLedgerCommitted (mi_eventType row) (mi_eventHash row)"

definition sim_append :: "vertex_env \<Rightarrow> ident \<Rightarrow> string \<Rightarrow> obj \<Rightarrow> timestamp \<Rightarrow> vertex_sim \<Rightarrow> vertex_sim" where
  "sim_append env actorId kind payload t s = push_row (sim_row env actorId kind payload t s) (yield_point env s)"

definition sim_commit :: "vertex_env \<Rightarrow> ident \<Rightarrow> string \<Rightarrow> obj \<Rightarrow> timestamp \<Rightarrow> sim_event list \<Rightarrow> vertex_sim \<Rightarrow> vertex_sim" where
  "sim_commit env actorId kind payload t evs s =
     emit (committed_event (sim_row env actorId kind payload t s) # evs) (sim_append env actorId kind payload t s)"

definition sim_suggest :: "vertex_env \<Rightarrow> vertex_suggestion \<Rightarrow> vertex_sim \<Rightarrow> vertex_sim" where
  "sim_suggest env sug s = push_row (sealed_input (ven_H env) (ven_ns env) (vsm_ledger s) sug) (yield_point env s)"

text \<open>A commit that is started and not awaited.\<close>

definition sim_start :: "vertex_env \<Rightarrow> ident \<Rightarrow> string \<Rightarrow> obj \<Rightarrow> timestamp \<Rightarrow> sim_event list \<Rightarrow> vertex_sim \<Rightarrow> vertex_sim" where
  "sim_start env actorId kind payload t evs s =
     (let row = sim_row env actorId kind payload t s in s\<lparr> vsm_pending := vsm_pending s @ [(row, committed_event row # evs)] \<rparr>)"

subsection \<open>Start of a mission\<close>

definition spread_node :: "vertex_env \<Rightarrow> nat \<Rightarrow> nat \<times> swarm_agent \<Rightarrow> swarm_agent" where
  "spread_node env nodeCount ni =
     (let a = real (fst ni) / real (max 1 nodeCount) * pi * 2
      in (snd ni)\<lparr> sw_position := \<lparr> pos_x = cos a * 18 + ven_rng env (2 * fst ni) * 4, pos_y = 0,
            pos_z = sin a * 18 + ven_rng env (2 * fst ni + 1) * 4 \<rparr> \<rparr>)"

definition new_vertex_sim :: "vertex_env \<Rightarrow> ident \<Rightarrow> runtime_config \<Rightarrow> nat \<Rightarrow> timestamp \<Rightarrow> vertex_sim" where
  "new_vertex_sim env missionId config agentCount now =
     (let nodes = createBaselineSwarmNodeList agentCount (9 / 10)
      in \<lparr> vsm_events = [], vsm_ledger = [], vsm_pending = [], vsm_yields = 0, vsm_graph = [], vsm_blackout = no_blackout, vsm_tasks = [],
           vsm_telemetrySeqs = [], vsm_sharedMap = new_swarm_map [], vsm_assignments = [], vsm_pipe = new_discovery_pipe, vsm_handoffs = [],
           vsm_foxMap = new_sync_engine missionId ''fleet_world'' now, vsm_draws = 2 * length nodes,
           vsm_nodes = map (spread_node env (length nodes)) (enumerate 0 nodes), vsm_nowMs = now, vsm_phase = PInit,
           vsm_missionId = missionId, vsm_config = config, vsm_tickCount = 0, vsm_telemetryBuf = [], vsm_lastSeq = [],
           vsm_initialized = False, vsm_loggedDiscoveries = [], vsm_taskSerial = 1, vsm_partitionManual = False \<rparr>)"

definition join_node :: "vertex_env \<Rightarrow> vertex_sim \<Rightarrow> swarm_agent \<Rightarrow> vertex_sim" where
  "join_node env s n =
     sim_append env (sw_nodeId n) ''node_join'' [(''nodeId'', JStr (sw_nodeId n)), (''role'', role_json (sw_role n)),
       (''capabilities'', jstrs (cp_sensors (sw_capabilities n)))] (vsm_nowMs s + 1) s"

definition fresh_mission :: "vertex_env \<Rightarrow> vertex_sim \<Rightarrow> vertex_sim" where
  "fresh_mission env s =
     s\<lparr> vsm_taskSerial := 1, vsm_telemetrySeqs := [], vsm_lastSeq := [], vsm_tickCount := 0, vsm_loggedDiscoveries := [],
       vsm_blackout := no_blackout, vsm_tasks := [], vsm_graph := [], vsm_sharedMap := new_swarm_map [], vsm_assignments := [],
       vsm_pipe := new_discovery_pipe, vsm_handoffs := [], vsm_foxMap := reset_sync_engine (vsm_nowMs s) (vsm_foxMap s),
       vsm_nodes := map (\<lambda>n. n\<lparr> sw_offline := Some False, sw_healthStatus := Some AgentOk \<rparr>) (vsm_nodes s),
       vsm_ledger := fst (bootstrapMission (ven_H env) (ven_ns env) (vsm_missionId s) (vsm_operator s) (vsm_nowMs s) (Some (vsm_scenario s))),
       vsm_pending := [] \<rparr>"

definition initializeMission :: "vertex_env \<Rightarrow> vertex_sim \<Rightarrow> vertex_sim" where
  "initializeMission env s =
     (let s1 = fresh_mission env s; s2 = foldl (join_node env) s1 (vsm_nodes s1);
          s3 = (case suggestPhaseTransition (vsm_missionId s2) (vsm_operator s2) PInit PDiscovery (vsm_nowMs s2 + 2) None of
              Inr sug \<Rightarrow> sim_suggest env sug s2 | Inl e \<Rightarrow> s2)
      in s3\<lparr> vsm_phase := PDiscovery, vsm_initialized := True \<rparr>)"

text \<open>Pending rows of an earlier mission go to the ledger object of that mission, which nobody reads any more.\<close>

definition ensure_initialized :: "vertex_env \<Rightarrow> vertex_sim \<Rightarrow> vertex_sim" where
  "ensure_initialized env s = (if vsm_initialized s then s else initializeMission env s)"

subsection \<open>Motion, telemetry and connectivity\<close>

definition move_agent :: "vertex_env \<Rightarrow> swarm_agent list \<times> nat \<Rightarrow> swarm_agent \<Rightarrow> swarm_agent list \<times> nat" where
  "move_agent env nk n =
     (let (done_nodes, k) = nk; p = sw_position n; wobble = (\<lambda>i. (ven_rng env i - 1 / 2) * (8 / 10))
      in if sw_offline n = Some True then (done_nodes @ [n], k)
         else let x = pos_x p + wobble k; z = pos_z p + wobble (k + 1)
              in if sw_mobility n = MobGround then (done_nodes @ [n\<lparr> sw_position := \<lparr> pos_x = x, pos_y = 0, pos_z = z \<rparr> \<rparr>], k + 2)
                 else (done_nodes @ [n\<lparr> sw_position := \<lparr> pos_x = x, pos_y = max 0 (pos_y p + (ven_rng env (k + 2) - 1 / 2) * (3 / 10)), pos_z = z \<rparr> \<rparr>], k + 3))"

definition moveAgents :: "vertex_env \<Rightarrow> vertex_sim \<Rightarrow> vertex_sim" where
  "moveAgents env s =
     (let (nodes, k) = foldl (move_agent env) ([], vsm_draws s) (vsm_nodes s) in s\<lparr> vsm_nodes := nodes, vsm_draws := k \<rparr>)"

definition online_nodes :: "vertex_sim \<Rightarrow> swarm_agent list" where
  "online_nodes s = filter (\<lambda>n. sw_offline n \<noteq> Some True) (vsm_nodes s)"

definition update_node :: "ident \<Rightarrow> (swarm_agent \<Rightarrow> swarm_agent) \<Rightarrow> swarm_agent list \<Rightarrow> swarm_agent list" where
  "update_node i f nodes = map (\<lambda>n. if sw_nodeId n = i then f n else n) nodes"

text \<open>The draws of a sample, in order: trust, processor, memory, queue, sensors, and the one or two of the delay.\<close>

definition raw_sample :: "vertex_env \<Rightarrow> connectivity_mode \<Rightarrow> vertex_sim \<Rightarrow> swarm_agent \<Rightarrow> sim_telemetry" where
  "raw_sample env mode s n =
     (let k = vsm_draws s; rng = ven_rng env; cp = sw_capabilities n;
          edge = getEdge (sw_nodeId n) (vsm_operator s) (vsm_graph s);
          q = (case edge of Some e \<Rightarrow> ge_quality01 e | None \<Rightarrow> 35 / 100);
          drain = cp_batteryDrainPerTick cp * (if mode = CmBlackout then 85 / 100 else 1)
      in \<lparr> tls_nodeId = sw_nodeId n, tls_battery01 = max (8 / 100) (97 / 100 - drain * real (vsm_tickCount s) * (2 / 100)),
           tls_cpu01 = 2 / 10 + rng (k + 1) * (35 / 100), tls_mem01 = 35 / 100 + rng (k + 2) * (25 / 100),
           tls_link01 = max (5 / 100) (q * (if mode = CmNormal then 1 else 55 / 100)),
           tls_queueDepth = (if mode = CmNormal then \<lfloor>rng (k + 3) * 4\<rfloor> else \<lfloor>4 + rng (k + 3) * 10\<rfloor>),
           tls_sensorConfidence01 = min 1 (55 / 100 + cp_gpsImuConfidence cp * (25 / 100) + rng (k + 4) * (15 / 100)),
           tls_sequence = default_to (js_get (vsm_lastSeq s) (sw_nodeId n)) 0 + 1, tls_emittedAtMs = vsm_nowMs s,
           tls_receivedAtMs = vsm_nowMs s + \<lfloor>messageDelayMs edge (rng (k + 5)) (rng (k + 6))\<rfloor>, tls_duplicate = None \<rparr>)"

definition emit_sample :: "vertex_env \<Rightarrow> connectivity_mode \<Rightarrow> vertex_sim \<Rightarrow> swarm_agent \<Rightarrow> vertex_sim" where
  "emit_sample env mode s n =
     (if sw_offline n = Some True then s
      else let raw = raw_sample env mode s n; (norm, seqs) = normalize_telemetry raw (vsm_telemetrySeqs s);
               trust = max (35 / 100) (min (99 / 100) (sw_trust01 n + (sim_draw env s - 48 / 100) * (2 / 1000)));
               delays = (case getEdge (sw_nodeId n) (vsm_operator s) (vsm_graph s) of None \<Rightarrow> 1 | Some e \<Rightarrow> 2)
           in emit [EvTelemetry norm] (s\<lparr> vsm_draws := vsm_draws s + 5 + delays,
                vsm_lastSeq := js_put (sw_nodeId n) (tls_sequence raw) (vsm_lastSeq s), vsm_telemetrySeqs := seqs,
                vsm_nodes := update_node (sw_nodeId n) (\<lambda>m. m\<lparr> sw_trust01 := trust, sw_lastHeartbeatMs := Some (vsm_nowMs s) \<rparr>) (vsm_nodes s),
                vsm_telemetryBuf := vsm_telemetryBuf s @ [norm] \<rparr>))"

definition emitTelemetry :: "vertex_env \<Rightarrow> connectivity_mode \<Rightarrow> vertex_sim \<Rightarrow> vertex_sim" where
  "emitTelemetry env mode s = foldl (emit_sample env mode) (s\<lparr> vsm_telemetryBuf := [] \<rparr>) (vsm_nodes s)"

fun severity_text :: "blackout_severity \<Rightarrow> string" where
  "severity_text SevFull = ''full''"
| "severity_text SevPartial = ''partial''"
| "severity_text SevDegraded = ''degraded''"

definition blackout_payload :: "blackout_severity \<Rightarrow> obj" where
  "blackout_payload sev =
     [(''mode'', JStr (if sev = SevFull then ''blackout'' else if sev = SevPartial then ''partial_partition'' else ''degraded'')),
      (''severity'', JStr (severity_text sev))]"

definition reconciled_payload :: "vertex_sim \<Rightarrow> obj" where
  "reconciled_payload s = [(''tick'', jint (int (vsm_tickCount s)))]"

text \<open>\<open>commitBlackoutEnter\<close> and \<open>commitSyncReconciled\<close>: awaited by the manual operations, started only in a tick.\<close>

definition commitBlackoutEnter :: "vertex_env \<Rightarrow> bool \<Rightarrow> blackout_severity \<Rightarrow> vertex_sim \<Rightarrow> vertex_sim" where
  "commitBlackoutEnter env awaited sev s =
     (if awaited then sim_commit else sim_start) env (vsm_operator s) ''blackout_entered'' (blackout_payload sev) (vsm_nowMs s)
       [EvBlackout True (Some (severity_text sev))] s"

definition commitSyncReconciled :: "vertex_env \<Rightarrow> bool \<Rightarrow> vertex_sim \<Rightarrow> vertex_sim" where
  "commitSyncReconciled env awaited s =
     (if awaited then sim_commit else sim_start) env (vsm_operator s) ''sync_reconciled'' (reconciled_payload s) (vsm_nowMs s)
       [EvBlackout False None] s"

definition getPreset :: "vertex_sim \<Rightarrow> scenario_preset" where
  "getPreset s = presetForScenario (vsm_scenario s)"

definition scheduleBlackoutIfNeeded :: "vertex_env \<Rightarrow> vertex_sim \<Rightarrow> vertex_sim" where
  "scheduleBlackoutIfNeeded env s =
     (if bk_active (vsm_blackout s) then s
      else if vsm_tickCount s > 8 \<and> vsm_tickCount s mod 47 = 0
      then if sim_draw env s < spr_risk01 (getPreset s) * (35 / 100)
           then let s1 = drawn 1 s; full = (sim_draw env s1 < 25 / 100); s2 = drawn 1 s1;
                    sev = (if full then SevFull else if sim_draw env s2 < 55 / 100 then SevPartial else SevDegraded);
                    s3 = (if full then s2 else drawn 1 s2)
                in commitBlackoutEnter env False sev
                     (drawn 1 s3\<lparr> vsm_blackout := startBlackout (vsm_nowMs s) sev (12000 + \<lfloor>sim_draw env s3 * 8000\<rfloor>) \<rparr>)
           else drawn 1 s
      else s)"

text \<open>An active blackout that has not run out draws twice for each edge.\<close>

definition stepConnectivity :: "vertex_env \<Rightarrow> vertex_sim \<Rightarrow> connectivity_mode \<times> vertex_sim" where
  "stepConnectivity env s =
     (let wasActive = bk_active (vsm_blackout s); (result, b, g) = blackout_tick (vsm_nowMs s) (rest_draws env s) (vsm_blackout s) (vsm_graph s);
          s1 = drawn (if wasActive \<and> bk_active b then 2 * length (allEdges (vsm_graph s)) else 0) (s\<lparr> vsm_blackout := b, vsm_graph := g \<rparr>);
          s2 = (if wasActive \<and> \<not> bk_active b then commitSyncReconciled env False s1 else s1)
      in (if bk_active b then vertexModeFromBlackout b else if result = CmRecovery then CmRecovery else CmNormal, s2))"

subsection \<open>Tasks\<close>

definition open_tasks :: "vertex_sim \<Rightarrow> nat" where
  "open_tasks s = length (filter (\<lambda>t. vt_status t = VtOpen \<or> vt_status t = VtBidding) (js_values (vsm_tasks s)))"

definition ALL_ROLES :: "mission_node_role list" where
  "ALL_ROLES = [MrExplorer, MrRelay, MrCarrier, MrMedic, MrObserver]"

definition open_sim_task :: "swarm_task \<Rightarrow> vertex_sim \<Rightarrow> vertex_sim" where
  "open_sim_task spec s =
     emit [EvTaskOpened (vt_taskId spec)] (s\<lparr> vsm_tasks := open_swarm_task spec (vsm_tasks s), vsm_taskSerial := vsm_taskSerial s + 1 \<rparr>)"

definition next_task_id :: "vertex_sim \<Rightarrow> ident" where
  "next_task_id s = ''vtx-task-'' @ show_nat (vsm_taskSerial s)"

definition spawned_task :: "vertex_env \<Rightarrow> scenario_preset \<Rightarrow> vertex_sim \<Rightarrow> swarm_task" where
  "spawned_task env p s =
     (let bias = (if spr_taskBias p = [] then ''scout'' else spr_taskBias p ! (vsm_tickCount s mod length (spr_taskBias p))); k = vsm_draws s
      in \<lparr> vt_taskId = next_task_id s, vt_missionId = vsm_missionId s,
           vt_taskType = (if str_includes bias ''relay'' then ''relay_extension'' else if str_includes bias ''extract'' then ''extraction_prep'' else ''sector_search''),
           vt_priority = 5 + of_int \<lfloor>ven_rng env (k + 2) * 4\<rfloor>,
           vt_location = \<lparr> pos_x = ven_rng env k * 40 - 20, pos_y = 0, pos_z = ven_rng env (k + 1) * 40 - 20 \<rparr>,
           vt_requirements = take 2 (spr_sensorEmphasis p), vt_allowedRoles = ALL_ROLES,
           vt_preferredVendorTraits = (if spr_commExpectation p = CeSparse then [''mesh'', ''relay_grade''] else [''long_range'']),
           vt_minBattery01 = 22 / 100, vt_minTrust01 = 4 / 10, vt_minConnectivity01 = 12 / 100, vt_expiresAtMs = vsm_nowMs s + 60000,
           vt_status = VtOpen, vt_bids = [], vt_winnerNodeId = None, vt_fallbackNodeIds = [], vt_commitProofHint = None,
           vt_assignmentReason = None, vt_createdAtMs = vsm_nowMs s \<rparr>)"

definition spawnTaskIfNeeded :: "vertex_env \<Rightarrow> scenario_preset \<Rightarrow> vertex_sim \<Rightarrow> vertex_sim" where
  "spawnTaskIfNeeded env p s =
     (if open_tasks s \<ge> 2 then s else if vsm_tickCount s mod 6 \<noteq> 0 then s
      else open_sim_task (spawned_task env p s) (drawn 3 s))"

definition nodes_by_id :: "vertex_sim \<Rightarrow> (ident, swarm_agent) jsmap" where
  "nodes_by_id s = foldl (\<lambda>m n. js_put (sw_nodeId n) n m) [] (vsm_nodes s)"

definition place_bid :: "vertex_env \<Rightarrow> connectivity_snapshot \<Rightarrow> ident \<Rightarrow> vertex_sim \<Rightarrow> swarm_agent \<Rightarrow> vertex_sim" where
  "place_bid env snap taskId s n =
     (let k = vsm_draws s
      in if ven_rng env k > 42 / 100 + cp_computeTier (sw_capabilities n) * (8 / 100) then drawn 1 s
         else drawn 4 s\<lparr> vsm_tasks := submit_agent_bid taskId \<lparr> vb_nodeId = sw_nodeId n,
             vb_etaSec = 30 + of_int \<lfloor>ven_rng env (k + 1) * 180\<rfloor>, vb_confidence01 = 45 / 100 + ven_rng env (k + 2) * (45 / 100),
             vb_battery01 = 35 / 100 + ven_rng env (k + 3) * (55 / 100),
             vb_link01 = pq_quality01 (effectiveOperatorPathQuality (cs_edges snap) (cs_operatorReachable snap) (sw_nodeId n) (vsm_operator s)),
             vb_submittedAtMs = vsm_nowMs s, vb_status = VbSubmitted, vb_score = None, vb_scoreReasons = [] \<rparr> (vsm_tasks s) \<rparr>)"

definition bid_on_task :: "vertex_env \<Rightarrow> connectivity_mode \<Rightarrow> connectivity_snapshot \<Rightarrow> vertex_sim \<Rightarrow> ident \<Rightarrow> vertex_sim" where
  "bid_on_task env mode snap s taskId =
     (case js_get (vsm_tasks s) taskId of
        None \<Rightarrow> s
      | Some t \<Rightarrow>
          if vt_status t \<noteq> VtOpen \<and> vt_status t \<noteq> VtBidding then s
          else let s1 = foldl (place_bid env snap taskId) s (vsm_nodes s); tasks = markStaleBids taskId 25000 (vsm_nowMs s) (vsm_tasks s1);
                   load = real (length (filter (\<lambda>x. vt_status x = VtAssigned) (js_values tasks))) / real (max 1 (length (vsm_nodes s)))
               in s1\<lparr> vsm_tasks := scorePendingBids taskId (nodes_by_id s)
                       \<lparr> sx_phase = vsm_phase s, sx_connectivityMode = mode, sx_swarmLoad = load \<rparr> tasks \<rparr>)"

definition simulateBids :: "vertex_env \<Rightarrow> connectivity_mode \<Rightarrow> connectivity_snapshot \<Rightarrow> vertex_sim \<Rightarrow> vertex_sim" where
  "simulateBids env mode snap s = foldl (bid_on_task env mode snap) s (js_keys (vsm_tasks s))"

definition win_task :: "vertex_env \<Rightarrow> ident \<Rightarrow> vertex_sim \<Rightarrow> vertex_sim" where
  "win_task env taskId s =
     (let (r, tasks) = assignWinner taskId (vsm_nowMs s) (vsm_tasks s); s1 = s\<lparr> vsm_tasks := tasks \<rparr>
      in case (ar_winner r, js_get tasks taskId) of
           (Some winner, Some t) \<Rightarrow>
             if winner = [] \<or> ar_reason r = Some ''no_eligible_bids'' then s1
             else let reasons = (case List.find (\<lambda>b. vb_nodeId b = winner) (vt_bids t) of Some b \<Rightarrow> vb_scoreReasons b | None \<Rightarrow> []);
                      s2 = sim_commit env (vsm_operator s) ''task_assigned'' [(''taskId'', JStr taskId), (''nodeId'', JStr winner),
                             (''taskType'', JStr (vt_taskType t)), (''fallbacks'', jstrs (ar_fallbacks r))] (vsm_nowMs s)
                             [EvTaskAssigned taskId winner reasons] s1;
                      s3 = drawn 1 s2
                  in if sim_draw env s2 < 35 / 100
                     then (let s4 = sim_append env winner ''task_completed'' [(''taskId'', JStr taskId)] (vsm_nowMs s + 1) s3
                           in s4\<lparr> vsm_tasks := completeTask taskId (vsm_tasks s4) \<rparr>)
                     else s3
         | _ \<Rightarrow> s1)"

definition assign_task_step :: "vertex_env \<Rightarrow> connectivity_mode \<Rightarrow> vertex_sim \<Rightarrow> ident \<Rightarrow> vertex_sim" where
  "assign_task_step env mode s taskId =
     (case js_get (vsm_tasks s) taskId of
        None \<Rightarrow> s
      | Some t \<Rightarrow>
          if vt_status t \<noteq> VtBidding \<and> vt_status t \<noteq> VtOpen then s
          else if \<not> list_ex (\<lambda>b. vb_status b = VbSubmitted) (vt_bids t) then s
          else if mode = CmBlackout
          then if sim_draw env s < 55 / 100
               then sim_append env (vsm_operator s) ''local_autonomy_activated''
                      [(''taskId'', JStr taskId), (''note'', JStr ''deferred_assignment_until_sync'')] (vsm_nowMs s) (drawn 1 s)
               else win_task env taskId (drawn 1 s)
          else win_task env taskId s)"

definition node_viable :: "vertex_sim \<Rightarrow> ident \<Rightarrow> bool" where
  "node_viable s i =
     (case List.find (\<lambda>x. tls_nodeId x = i) (vsm_telemetryBuf s) of
        Some tel \<Rightarrow> tls_link01 tel > 8 / 100 \<and> tls_duplicate tel \<noteq> Some True | None \<Rightarrow> False)"

definition reassign_step :: "vertex_env \<Rightarrow> vertex_sim \<Rightarrow> ident \<Rightarrow> vertex_sim" where
  "reassign_step env s taskId =
     (case js_get (vsm_tasks s) taskId of
        None \<Rightarrow> s
      | Some t \<Rightarrow>
          if vt_status t \<noteq> VtAssigned \<or> default_to (vt_winnerNodeId t) [] = [] then s
          else let (next, tasks) = reassignFromFallback taskId (nodes_by_id s) (node_viable s) (vsm_nowMs s) (vsm_tasks s); s1 = s\<lparr> vsm_tasks := tasks \<rparr>
               in (case next of
                     Some fid \<Rightarrow> if fid = [] then s1
                       else sim_append env (vsm_operator s) ''task_reassigned'' [(''taskId'', JStr taskId), (''newNodeId'', JStr fid),
                              (''taskType'', JStr (vt_taskType t))] (vsm_nowMs s) s1
                   | None \<Rightarrow> s1))"

definition assignOpenTasks :: "vertex_env \<Rightarrow> connectivity_mode \<Rightarrow> vertex_sim \<Rightarrow> vertex_sim" where
  "assignOpenTasks env mode s =
     (let s1 = foldl (assign_task_step env mode) s (js_keys (vsm_tasks s))
      in yield_point env (foldl (reassign_step env) s1 (js_keys (vsm_tasks s1))))"

subsection \<open>Phases and checkpoints\<close>

definition maybeAdvancePhase :: "vertex_env \<Rightarrow> vertex_sim \<Rightarrow> vertex_sim" where
  "maybeAdvancePhase env s =
     (let phase = ms_phase (replayMissionFromLedger (ven_ns env) (ven_rd env) (ven_wall env) (vsm_ledger s) (vsm_missionId s));
          s1 = s\<lparr> vsm_phase := phase \<rparr>;
          finished = length (filter (\<lambda>t. vt_status t = VtCompleted) (js_values (vsm_tasks s)))
      in if finished < 1 + vsm_tickCount s div 40 then s1
         else (case nominalNextPhase phase of
                 None \<Rightarrow> s1
               | Some next \<Rightarrow>
                   if next = PAborted then s1
                   else let st = coverageStats (vsm_sharedMap s)
                        in (case suggestPhaseTransition (vsm_missionId s) (vsm_operator s) phase next (vsm_nowMs s)
                                  (Some [(''cellsKnown'', jint (int (st_explored st + st_frontier st + finished * 2)))]) of
                              Inl e \<Rightarrow> s1
                            | Inr sug \<Rightarrow> (sim_suggest env sug s1)\<lparr> vsm_phase := next \<rparr>)))"

definition maybeCheckpoint :: "vertex_env \<Rightarrow> vertex_sim \<Rightarrow> vertex_sim" where
  "maybeCheckpoint env s =
     (if vsm_tickCount s mod 22 \<noteq> 0 then s
      else sim_suggest env (suggestRecoveryCheckpoint (vsm_missionId s) (vsm_operator s) (''ckpt-'' @ show_nat (vsm_tickCount s)) (vsm_nowMs s)
             (Some [(''mapCells'', jint (int (length (mo_cells (vsm_sharedMap s))))),
                (''coverage01'', JNum (st_coverage01 (coverageStats (vsm_sharedMap s))))])) s)"

subsection \<open>Targets and roles\<close>

definition rescue_task :: "target_candidate \<Rightarrow> vertex_sim \<Rightarrow> swarm_task" where
  "rescue_task c s =
     \<lparr> vt_taskId = next_task_id s, vt_missionId = vsm_missionId s, vt_taskType = ''victim_extract'', vt_priority = 9, vt_location = tca_world c,
       vt_requirements = [''thermal'', ''payload'', ''gripper''], vt_allowedRoles = ALL_ROLES,
       vt_preferredVendorTraits = [''rescue'', ''heavy_lift''], vt_minBattery01 = 18 / 100, vt_minTrust01 = 35 / 100,
       vt_minConnectivity01 = 8 / 100, vt_expiresAtMs = vsm_nowMs s + 120000, vt_status = VtOpen, vt_bids = [], vt_winnerNodeId = None,
       vt_fallbackNodeIds = [], vt_commitProofHint = None, vt_assignmentReason = None, vt_createdAtMs = vsm_nowMs s \<rparr>"

definition spawnRescueTaskForTarget :: "target_candidate \<Rightarrow> vertex_sim \<Rightarrow> vertex_sim" where
  "spawnRescueTaskForTarget c s = open_sim_task (rescue_task c s) s"

definition log_discovery :: "vertex_env \<Rightarrow> target_candidate \<Rightarrow> vertex_sim \<Rightarrow> vertex_sim" where
  "log_discovery env c s =
     (if tca_candidateId c \<in> set (vsm_loggedDiscoveries s) then s
      else sim_commit env (case tca_evidence c of e # _ \<Rightarrow> tev_nodeId e | [] \<Rightarrow> vsm_operator s) ''target_discovered''
             [(''targetId'', JStr (tca_candidateId c)), (''confidence'', JNum (tca_mergedConfidence01 c)), (''gx'', jint (tca_gx c)),
              (''gz'', jint (tca_gz c)), (''notes'', JStr (str_join '';'' (tca_trustExplanation c)))] (vsm_nowMs s) []
             (s\<lparr> vsm_loggedDiscoveries := set_add (tca_candidateId c) (vsm_loggedDiscoveries s) \<rparr>))"

definition commitTargetCandidateLedger :: "vertex_env \<Rightarrow> target_candidate \<Rightarrow> bool \<Rightarrow> vertex_sim \<Rightarrow> vertex_sim" where
  "commitTargetCandidateLedger env c promoted s =
     (let s1 = log_discovery env c s
      in if \<not> promoted then s1
         else let s2 = sim_commit env (default_to (tca_confirmedByNodeId c) (vsm_operator s)) ''target_confirmed''
                    [(''targetId'', JStr (tca_candidateId c)), (''confidence'', JNum (tca_mergedConfidence01 c)),
                     (''corroboration'', jint (int (length (tca_evidence c))))] (vsm_nowMs s + 1) [EvTargetConfirmed (tca_candidateId c)] s1
              in spawnRescueTaskForTarget c (s2\<lparr> vsm_sharedMap := applyLocalUpdate (tca_gx c) (tca_gz c) FxTarget (vsm_nowMs s)
                   (default_to (tca_confirmedByNodeId c) ''mesh'') (Some (tca_mergedConfidence01 c)) PsLocalSensor (vsm_sharedMap s2) \<rparr>))"

definition commitRoleChange :: "vertex_env \<Rightarrow> ident \<Rightarrow> mission_node_role \<Rightarrow> string \<Rightarrow> vertex_sim \<Rightarrow> vertex_sim" where
  "commitRoleChange env nodeId role reason s =
     sim_commit env nodeId ''role_change'' [(''nodeId'', JStr nodeId), (''role'', role_json role), (''reason'', JStr reason)] (vsm_nowMs s) [] s"

text \<open>Copies the agents of a sublist back into the list they were taken from.\<close>

definition back_to_fleet :: "swarm_agent list \<Rightarrow> swarm_agent list \<Rightarrow> swarm_agent list" where
  "back_to_fleet part nodes = map (\<lambda>n. default_to (List.find (\<lambda>p. sw_nodeId p = sw_nodeId n) part) n) nodes"

definition explore :: "vertex_env \<Rightarrow> connectivity_mode \<Rightarrow> connectivity_snapshot \<Rightarrow> vertex_sim \<Rightarrow> exploration_state list \<times> vertex_sim" where
  "explore env mode snap s =
     (let r = exploration_step \<lparr> xg_mode = mode, xg_graph = snap, xg_operatorId = vsm_operator s, xg_nowMs = vsm_nowMs s, xg_rng = ven_rng env,
            xg_scenarioMapHint = spr_mapBehavior (getPreset s), xg_scenario = vsm_scenario s \<rparr>
            (vsm_sharedMap s) (online_nodes s) (vsm_assignments s) (vsm_draws s)
      in (xr_states r, s\<lparr> vsm_sharedMap := xr_map r, vsm_nodes := back_to_fleet (xr_nodes r) (vsm_nodes s), vsm_assignments := xr_last r,
            vsm_draws := xr_draws r \<rparr>))"

definition sync_args_of :: "vertex_env \<Rightarrow> connectivity_mode \<Rightarrow> connectivity_snapshot \<Rightarrow> vertex_sim \<Rightarrow> sync_args" where
  "sync_args_of env mode snap s =
     \<lparr> sa_graph = snap, sa_nowMs = vsm_nowMs s, sa_rng = rest_draws env s, sa_connectivityMode = mode, sa_partitionManual = vsm_partitionManual s,
       sa_liveFoxAvailable = (rtc_useMockFallback (vsm_config s) = Some False), sa_mockFallback = (rtc_useMockFallback (vsm_config s) \<noteq> Some False),
       sa_operatorNodeId = vsm_operator s, sa_offlineNodeIds = map sw_nodeId (filter (\<lambda>n. sw_offline n = Some True) (vsm_nodes s)),
       sa_wall_ms = ven_wall env, sa_cell_text = ven_cell_text env, sa_event_text = ven_event_text env \<rparr>"

definition sync_maps :: "vertex_env \<Rightarrow> connectivity_mode \<Rightarrow> connectivity_snapshot \<Rightarrow> vertex_sim \<Rightarrow> sync_view \<times> vertex_sim" where
  "sync_maps env mode snap s =
     (let a = sync_args_of env mode snap s; r = sync_edges a (vsm_sharedMap s) (vsm_foxMap s);
          (v, m, se) = sync_step a (vsm_sharedMap s) (vsm_foxMap s)
      in (v, emit [EvFoxmqSync (sv_mapVersion v) (sv_dirtyDeltaCount v) (sv_syncLagMs v) (sv_partitionBufferSize v)]
               (drawn (sr_draws r) s\<lparr> vsm_sharedMap := m, vsm_foxMap := se \<rparr>)))"

definition sense_node :: "vertex_env \<Rightarrow> vertex_sim \<Rightarrow> swarm_agent \<Rightarrow> vertex_sim" where
  "sense_node env s n =
     (let (gx, gz) = worldToGrid (pos_x (sw_position n)) (pos_z (sw_position n)) 4
      in case getCell (makeCellId gx gz) (vsm_sharedMap s) of
           None \<Rightarrow> s
         | Some cell \<Rightarrow>
             if fm_state cell \<noteq> FxSearched then s
             else let (hit, k) = maybeSensorHit n (vsm_scenario s) (ven_rng env) (vsm_draws s); s1 = s\<lparr> vsm_draws := k \<rparr>
                  in (case hit of
                        None \<Rightarrow> s1
                      | Some (sensor, confidence, note1) \<Rightarrow>
                          let ((c, promoted), p) = addEvidence (ven_fx env) (vsm_missionId s) n sensor confidence (vsm_nowMs s) (vsm_scenario s) note1 (vsm_pipe s1)
                          in commitTargetCandidateLedger env c promoted
                               (emit [EvTargetCandidate (tca_candidateId c) (tca_mergedConfidence01 c)] (s1\<lparr> vsm_pipe := p \<rparr>))))"

definition sense_targets :: "vertex_env \<Rightarrow> vertex_sim \<Rightarrow> vertex_sim" where
  "sense_targets env s = foldl (sense_node env) s (online_nodes s)"

definition commit_handoff :: "vertex_env \<Rightarrow> vertex_sim \<Rightarrow> handoff_record \<Rightarrow> vertex_sim" where
  "commit_handoff env s h =
     commitRoleChange env (ho_nodeId h) (ho_toRole h) (ho_reason h @ '': '' @ ho_evidence h)
       (emit [EvRoleHandoff (ho_nodeId h) (ho_toRole h) (ho_reason h)] s)"

definition handoff_roles :: "vertex_env \<Rightarrow> connectivity_mode \<Rightarrow> connectivity_snapshot \<Rightarrow> vertex_sim \<Rightarrow> vertex_sim" where
  "handoff_roles env mode snap s =
     (let r = evaluateHandoffs (online_nodes s) mode (confirmedTargets (vsm_pipe s)) (cs_operatorReachable snap) (vsm_nowMs s) (ven_rng env)
            (vsm_draws s) (vsm_handoffs s)
      in foldl (commit_handoff env) (s\<lparr> vsm_nodes := back_to_fleet (hf_nodes r) (vsm_nodes s), vsm_handoffs := hf_history r, vsm_draws := hf_draws r \<rparr>)
           (hf_delta r))"

subsection \<open>A tick\<close>

record tick_view =
  tv_phase :: mission_phase
  tv_mode :: connectivity_mode
  tv_graph :: connectivity_snapshot
  tv_autonomy :: "autonomy_directive list"
  tv_ledgerTail :: mission_ledger
  tv_replay :: mission_state
  tv_coverage :: coverage_stats
  tv_exploration :: "exploration_state list"
  tv_foxPublic :: sync_view
  tv_foxTail :: "map_ledger_event list"
  tv_profile :: map_profile

definition stale_telemetry :: "vertex_sim \<Rightarrow> ident list" where
  "stale_telemetry s = foldl (\<lambda>st t. if tls_duplicate t = Some True \<or> tls_link01 t < 11 / 100
      \<or> vsm_nowMs s - tls_receivedAtMs t > rtc_staleHeartbeatMs (vsm_config s) then set_add (tls_nodeId t) st else st) [] (vsm_telemetryBuf s)"

definition rebuild_graph :: "vertex_env \<Rightarrow> vertex_sim \<Rightarrow> vertex_sim" where
  "rebuild_graph env s =
     (let nodes = (if online_nodes s \<noteq> [] then online_nodes s else vsm_nodes s); (g, k) = link_pairs 22 (rest_draws env s) nodes ([], 0)
      in drawn k s\<lparr> vsm_graph := g \<rparr>)"

definition start_tick :: "vertex_env \<Rightarrow> vertex_sim \<Rightarrow> vertex_sim" where
  "start_tick env s =
     (let s1 = ensure_initialized env s; now = vsm_nowMs s1 + rtc_tickMs (vsm_config s1)
      in emit [EvTick now] (s1\<lparr> vsm_tickCount := vsm_tickCount s1 + 1, vsm_nowMs := now \<rparr>))"

definition observe_tick :: "vertex_env \<Rightarrow> vertex_sim \<Rightarrow> (connectivity_mode \<times> connectivity_snapshot) \<times> vertex_sim" where
  "observe_tick env s =
     (let (mode, s1) = stepConnectivity env (scheduleBlackoutIfNeeded env (rebuild_graph env (moveAgents env (start_tick env s))));
          s2 = emitTelemetry env mode s1; snap = graph_snapshot (vsm_operator s2) (vsm_nodes s2) (stale_telemetry s2) (vsm_graph s2)
      in ((mode, snap), emit [EvConnectivity mode] s2))"

definition report_coverage :: "vertex_sim \<Rightarrow> vertex_sim" where
  "report_coverage s = (let st = coverageStats (vsm_sharedMap s) in emit [EvMapUpdated (st_coverage01 st) (st_frontier st)] s)"

definition advance_mission :: "vertex_env \<Rightarrow> connectivity_mode \<Rightarrow> connectivity_snapshot \<Rightarrow> vertex_sim \<Rightarrow> vertex_sim" where
  "advance_mission env mode snap s =
     maybeCheckpoint env (yield_point env (maybeAdvancePhase env (assignOpenTasks env mode
       (simulateBids env mode snap (spawnTaskIfNeeded env (getPreset s) (report_coverage s))))))"

definition sim_tick :: "vertex_env \<Rightarrow> vertex_sim \<Rightarrow> tick_view \<times> vertex_sim" where
  "sim_tick env s =
     (let ((mode, snap), s1) = observe_tick env s;
          autonomy = map (\<lambda>n. localAutonomyDirectives n mode (sw_nodeId n \<in> set (cs_operatorReachable snap))) (vsm_nodes s1);
          (explored, s2) = explore env mode snap s1; (fox, s3) = sync_maps env mode snap s2;
          s4 = yield_point env (advance_mission env mode snap (handoff_roles env mode snap (sense_targets env s3)));
          replay = replayMissionFromLedger (ven_ns env) (ven_rd env) (ven_wall env) (vsm_ledger s4) (vsm_missionId s4)
      in (\<lparr> tv_phase = ms_phase replay, tv_mode = mode, tv_graph = snap, tv_autonomy = autonomy, tv_ledgerTail = slice_tail 40 (vsm_ledger s4),
            tv_replay = replay, tv_coverage = coverageStats (vsm_sharedMap s4), tv_exploration = explored, tv_foxPublic = fox,
            tv_foxTail = map_ledger_tail 80 (se_ledger (vsm_foxMap s4)), tv_profile = scenarioMapProfile (vsm_scenario s4) \<rparr>, s4))"

subsection \<open>Manual operations\<close>

definition forceBlackout :: "vertex_env \<Rightarrow> int \<Rightarrow> blackout_severity \<Rightarrow> vertex_sim \<Rightarrow> vertex_sim" where
  "forceBlackout env durationMs sev s =
     (let s1 = ensure_initialized env s in commitBlackoutEnter env True sev (s1\<lparr> vsm_blackout := startBlackout (vsm_nowMs s1) sev durationMs \<rparr>))"

definition recoverMesh :: "vertex_env \<Rightarrow> vertex_sim \<Rightarrow> vertex_sim" where
  "recoverMesh env s = commitSyncReconciled env True (ensure_initialized env s\<lparr> vsm_blackout := no_blackout \<rparr>)"

definition fox_row :: "vertex_env \<Rightarrow> ident \<Rightarrow> memory_event \<Rightarrow> string list \<Rightarrow> ident list \<Rightarrow> obj option \<Rightarrow> timestamp option \<Rightarrow> vertex_sim \<Rightarrow> vertex_sim" where
  "fox_row env node kind cells route payload t s =
     s\<lparr> vsm_foxMap := (vsm_foxMap s)\<lparr> se_ledger := snd (append_map_event (ven_event_text env) (ven_wall env)
          \<lparr> ei_nodeId = node, ei_eventType = kind, ei_affectedCells = cells, ei_previousHash = None, ei_mapVersion = None, ei_relayRoute = route,
            ei_commitStatus = MsCommitted, ei_payload = payload, ei_timestamp = t \<rparr> (se_ledger (vsm_foxMap s))) \<rparr> \<rparr>"

definition set_health :: "bool \<Rightarrow> ident \<Rightarrow> vertex_sim \<Rightarrow> vertex_sim" where
  "set_health up i s =
     s\<lparr> vsm_nodes := update_node i (\<lambda>n. n\<lparr> sw_offline := Some (\<not> up), sw_healthStatus := Some (if up then AgentOk else AgentOffline) \<rparr>) (vsm_nodes s) \<rparr>"

definition forceNodeDropout :: "vertex_env \<Rightarrow> ident \<Rightarrow> vertex_sim \<Rightarrow> vertex_sim" where
  "forceNodeDropout env i s =
     (if i \<notin> set (map sw_nodeId (vsm_nodes s)) then s
      else fox_row env i MeNodeDisconnect [] [i] None (Some (vsm_nowMs s)) (set_health False i s))"

definition forceNodeRecovery :: "vertex_env \<Rightarrow> ident \<Rightarrow> vertex_sim \<Rightarrow> vertex_sim" where
  "forceNodeRecovery env i s0 =
     (let s = ensure_initialized env s0; cells = length (mo_cells (vsm_sharedMap s))
      in if i \<notin> set (map sw_nodeId (vsm_nodes s)) then s
         else emit [EvRecovery (i @ '' rehydrated from collective map ('' @ show_nat cells @ '' fleet-known cells)'')]
                (fox_row env i MeNodeReconnect [] [i, vsm_operator s] (Some [(''collectiveCells'', jint (int cells))]) (Some (vsm_nowMs s))
                  (set_health True i s)))"

definition handoff_order :: "mission_node_role list" where
  "handoff_order = [MrRelay, MrExplorer, MrMedic, MrObserver, MrCarrier]"

definition forceRoleHandoff :: "vertex_env \<Rightarrow> ident \<Rightarrow> vertex_sim \<Rightarrow> vertex_sim" where
  "forceRoleHandoff env i s0 =
     (let s = ensure_initialized env s0
      in case List.find (\<lambda>n. sw_nodeId n = i) (vsm_nodes s) of
           None \<Rightarrow> s
         | Some n \<Rightarrow>
             if sw_offline n = Some True then s
             else let to_role = handoff_order ! nat \<lfloor>sim_draw env s * 5\<rfloor>; s1 = drawn 1 s
                  in if sw_role n = to_role then s1
                     else let (changed, nodes, history) = applyHandoff n to_role ''manual_ui'' ''demo_intervention'' (vsm_nowMs s) (vsm_nodes s1, vsm_handoffs s1)
                          in if \<not> changed then s1
                             else commitRoleChange env i to_role ''manual_ui''
                                    (emit [EvRoleHandoff i to_role ''manual_ui''] (s1\<lparr> vsm_nodes := nodes, vsm_handoffs := history \<rparr>)))"

definition meshTogglePartition :: "bool \<Rightarrow> vertex_sim \<Rightarrow> vertex_sim" where
  "meshTogglePartition active s = s\<lparr> vsm_partitionManual := active \<rparr>"

definition setUseMockFallback :: "bool \<Rightarrow> vertex_sim \<Rightarrow> vertex_sim" where
  "setUseMockFallback v s = s\<lparr> vsm_config := (vsm_config s)\<lparr> rtc_useMockFallback := Some v \<rparr> \<rparr>"

definition ellipsis_text :: string where
  "ellipsis_text = [char_of (226::nat), char_of (128::nat), char_of (166::nat)]"

definition snapshotFoxMapLedger :: "vertex_env \<Rightarrow> vertex_sim \<Rightarrow> vertex_sim" where
  "snapshotFoxMapLedger env s =
     (let cells = mo_cells (vsm_sharedMap s); sum = checksumDeltaCells (ven_cell_text env) cells
      in emit [EvRecovery (''Fleet map snapshot recorded ('' @ show_nat (length cells) @ '' cells, checksum '' @ take 10 sum @ ellipsis_text @ '')'')]
           (fox_row env (vsm_operator s) MeSnapshotCommit (take 600 (js_keys cells)) [''operator'', ''mesh''] (Some [(''checksum'', JStr sum)]) None s))"

definition replayFoxmqLedger :: "vertex_env \<Rightarrow> vertex_sim \<Rightarrow> vertex_sim" where
  "replayFoxmqLedger env s =
     (let depth = length (el_events (se_ledger (vsm_foxMap s)))
      in emit [EvRecovery (''Replay cursor @'' @ show_nat depth @ '' events'')]
           (fox_row env ''replay'' MeReplayTick [] [''replay''] (Some [(''depth'', jint (int depth))]) None s))"

definition operatorStampCell :: "vertex_env \<Rightarrow> int \<Rightarrow> int \<Rightarrow> vertex_sim \<Rightarrow> vertex_sim" where
  "operatorStampCell env gx gz s =
     fox_row env (vsm_operator s) MeMapDelta [makeCellId gx gz] [''operator''] None None
       (s\<lparr> vsm_sharedMap := applyLocalUpdate gx gz FxSearched (vsm_nowMs s) (vsm_operator s) (Some (95 / 100)) PsOperator (vsm_sharedMap s) \<rparr>)"

definition injectTargetNear :: "vertex_env \<Rightarrow> ident \<Rightarrow> vertex_sim \<Rightarrow> vertex_sim" where
  "injectTargetNear env i s0 =
     (let s = ensure_initialized env s0
      in case List.find (\<lambda>n. sw_nodeId n = i) (vsm_nodes s) of
           None \<Rightarrow> s
         | Some n \<Rightarrow>
             let (gx, gz) = worldToGrid (pos_x (sw_position n)) (pos_z (sw_position n)) 4;
                 (c, p) = injectOperatorNote (vsm_missionId s) gx gz (sw_position n) (vsm_nowMs s) (vsm_pipe s)
             in (case List.find (\<lambda>x. sw_nodeId x \<noteq> i \<and> sw_offline x \<noteq> Some True) (vsm_nodes s) of
                   Some peer \<Rightarrow>
                     let ((c', promoted), p') = addEvidence (ven_fx env) (vsm_missionId s) peer SkPeerConfirm (74 / 100) (vsm_nowMs s) (vsm_scenario s)
                           (Some ''injected_peer'') p
                     in commitTargetCandidateLedger env c' promoted (s\<lparr> vsm_pipe := p' \<rparr>)
                 | None \<Rightarrow> commitTargetCandidateLedger env c (tca_status c = TcConfirmed) (s\<lparr> vsm_pipe := p \<rparr>)))"

subsection \<open>What every call keeps of the ledger\<close>

definition outage_row :: "chain_event \<Rightarrow> bool" where
  "outage_row e \<longleftrightarrow> mi_eventType e = ''blackout_entered'' \<or> mi_eventType e = ''sync_reconciled''"

definition sim_phase :: "vertex_env \<Rightarrow> vertex_sim \<Rightarrow> mission_phase" where
  "sim_phase env s = phase_of (ven_ns env) (ven_rd env) (vsm_ledger s) (vsm_missionId s)"

text \<open>The replayed phase is on a path of the contract, only outage rows are pending, and without outage rows the chain verifies.\<close>

definition ledger_ok :: "vertex_env \<Rightarrow> vertex_sim \<Rightarrow> bool" where
  "ledger_ok env s \<longleftrightarrow> (\<exists>visited. phase_path validVertexNextPhases visited (sim_phase env s))
     \<and> list_all (\<lambda>p. outage_row (fst p)) (vsm_pending s)
     \<and> (vsm_pending s = [] \<longrightarrow> \<not> list_ex outage_row (vsm_ledger s) \<longrightarrow> verifyChain (ven_H env) (ven_ns env) (vsm_ledger s) = ChainOk)"

lemma ledger_ok_cong:
  "vsm_ledger s' = vsm_ledger s \<Longrightarrow> vsm_pending s' = vsm_pending s \<Longrightarrow> vsm_missionId s' = vsm_missionId s \<Longrightarrow> ledger_ok env s' = ledger_ok env s"
  by (simp add: ledger_ok_def sim_phase_def)

lemma outage_keeps_phase: "list_all outage_row es \<Longrightarrow> phase_of ns rd (lg @ es) m = phase_of ns rd lg m"
proof (induction es rule: rev_induct)
  case (snoc e es)
  then show ?case using other_kinds_keep_phase [of e ns rd "lg @ es" m] by (auto simp: outage_row_def)
qed simp

lemma yield_fields [simp]:
  "vsm_missionId (yield_point env s) = vsm_missionId s" "vsm_sharedMap (yield_point env s) = vsm_sharedMap s"
  "vsm_nodes (yield_point env s) = vsm_nodes s" "vsm_initialized (yield_point env s) = vsm_initialized s"
  by (simp_all add: yield_point_def Let_def)

lemma yield_ledger: "\<exists>es. vsm_ledger (yield_point env s) = vsm_ledger s @ map fst es
    \<and> (vsm_pending (yield_point env s) = [] \<and> es = vsm_pending s \<or> vsm_pending (yield_point env s) = vsm_pending s \<and> es = [])"
  by (cases "ven_lands env (vsm_yields s)") (auto simp: yield_point_def Let_def intro!: exI)

lemma yield_phase: "list_all (\<lambda>p. outage_row (fst p)) (vsm_pending s) \<Longrightarrow> sim_phase env (yield_point env' s) = sim_phase env s"
  using yield_ledger [of env' s] by (auto simp: sim_phase_def outage_keeps_phase list_all_iff)

lemma yield_ok: "ledger_ok env s \<Longrightarrow> ledger_ok env (yield_point env s)"
proof -
  assume ok: "ledger_ok env s"
  obtain es where es: "vsm_ledger (yield_point env s) = vsm_ledger s @ map fst es"
      "vsm_pending (yield_point env s) = [] \<and> es = vsm_pending s \<or> vsm_pending (yield_point env s) = vsm_pending s \<and> es = []"
    using yield_ledger by blast
  have phase: "sim_phase env (yield_point env s) = sim_phase env s" using ok by (simp add: yield_phase ledger_ok_def)
  have outage: "list_all (\<lambda>p. outage_row (fst p)) (vsm_pending s)" using ok by (simp add: ledger_ok_def)
  from es(2) show ?thesis
  proof
    assume lands: "vsm_pending (yield_point env s) = [] \<and> es = vsm_pending s"
    have "vsm_pending s = []" if "\<not> list_ex outage_row (vsm_ledger s @ map fst (vsm_pending s))"
      using outage that by (cases "vsm_pending s") auto
    with ok phase es(1) lands show ?thesis by (simp add: ledger_ok_def) (metis append_Nil2 list.simps(8) list_ex_append)
  next
    assume "vsm_pending (yield_point env s) = vsm_pending s \<and> es = []"
    with ok phase es(1) show ?thesis by (simp add: ledger_ok_def)
  qed
qed

definition row_lawful :: "vertex_env \<Rightarrow> vertex_sim \<Rightarrow> chain_event \<Rightarrow> bool" where
  "row_lawful env s row \<longleftrightarrow>
     (case phase_written row of None \<Rightarrow> True | Some q \<Rightarrow> q \<in> set (validVertexNextPhases (sim_phase env s)))
     \<and> (verifyChain (ven_H env) (ven_ns env) (vsm_ledger s @ [row]) = ChainOk \<longleftrightarrow> verifyChain (ven_H env) (ven_ns env) (vsm_ledger s) = ChainOk)"

lemma push_ok:
  assumes "ledger_ok env s" "row_lawful env s row" shows "ledger_ok env (push_row row (yield_point env s))"
proof -
  let ?y = "yield_point env s"
  have "list_all (\<lambda>p. outage_row (fst p)) (vsm_pending s)" using assms(1) by (simp add: ledger_ok_def)
  then have y: "ledger_ok env ?y" "sim_phase env ?y = sim_phase env s" using yield_ok [OF assms(1)] by (simp_all add: yield_phase)
  have phase: "sim_phase env (push_row row ?y)
      = (if mi_missionId row = vsm_missionId s then default_to (phase_written row) (sim_phase env s) else sim_phase env s)"
    using y(2) by (simp add: sim_phase_def push_row_def phase_of_snoc)
  have "\<exists>visited. phase_path validVertexNextPhases visited (sim_phase env (push_row row ?y))"
  proof (cases "mi_missionId row = vsm_missionId s \<and> phase_written row \<noteq> None")
    case True
    then obtain q where q: "phase_written row = Some q" "q \<in> set (validVertexNextPhases (sim_phase env s))"
      using assms(2) by (auto simp: row_lawful_def)
    obtain visited where "phase_path validVertexNextPhases visited (sim_phase env s)" using assms(1) by (auto simp: ledger_ok_def)
    from path_step [OF this q(2)] True q(1) show ?thesis by (auto simp: phase)
  next
    case False
    then show ?thesis using assms(1) by (auto simp: phase ledger_ok_def)
  qed
  moreover have "verifyChain (ven_H env) (ven_ns env) (vsm_ledger (push_row row ?y)) = ChainOk"
    if "vsm_pending ?y = []" "\<not> list_ex outage_row (vsm_ledger ?y @ [row])"
  proof -
    obtain es where es: "vsm_ledger ?y = vsm_ledger s @ map fst es"
      "vsm_pending ?y = [] \<and> es = vsm_pending s \<or> vsm_pending ?y = vsm_pending s \<and> es = []" using yield_ledger by blast
    have "list_all (\<lambda>p. outage_row (fst p)) (vsm_pending s)" using assms(1) by (simp add: ledger_ok_def)
    then have "vsm_pending s = []" using es that by (cases "vsm_pending s") auto
    then show ?thesis using es that assms by (auto simp: ledger_ok_def row_lawful_def push_row_def)
  qed
  ultimately show ?thesis using y(1) by (simp add: ledger_ok_def push_row_def)
qed

lemma other_row_lawful:
  assumes "kind \<noteq> ''mission_created''" "kind \<noteq> ''phase_transition''" shows "row_lawful env s (sim_row env a kind payload t s)"
  using assms by (simp add: row_lawful_def sim_row_def api_row_verifies phase_written_def vertex_kind_def)

lemma append_ok:
  "ledger_ok env s \<Longrightarrow> kind \<noteq> ''mission_created'' \<Longrightarrow> kind \<noteq> ''phase_transition'' \<Longrightarrow> ledger_ok env (sim_append env a kind payload t s)"
  unfolding sim_append_def by (intro push_ok other_row_lawful)

lemma append_fields [simp]:
  "vsm_missionId (sim_append env a kind payload t s) = vsm_missionId s" "vsm_sharedMap (sim_append env a kind payload t s) = vsm_sharedMap s"
  "vsm_nodes (sim_append env a kind payload t s) = vsm_nodes s" "vsm_initialized (sim_append env a kind payload t s) = vsm_initialized s"
  by (simp_all add: sim_append_def push_row_def)

lemma emit_fields [simp]:
  "vsm_ledger (emit evs s) = vsm_ledger s" "vsm_pending (emit evs s) = vsm_pending s" "vsm_missionId (emit evs s) = vsm_missionId s"
  "vsm_sharedMap (emit evs s) = vsm_sharedMap s" "vsm_nodes (emit evs s) = vsm_nodes s" "vsm_initialized (emit evs s) = vsm_initialized s"
  "ledger_ok env (emit evs s) = ledger_ok env s"
  by (simp_all add: emit_def ledger_ok_def sim_phase_def)

lemma drawn_fields [simp]:
  "vsm_ledger (drawn n s) = vsm_ledger s" "vsm_pending (drawn n s) = vsm_pending s" "vsm_missionId (drawn n s) = vsm_missionId s"
  "vsm_sharedMap (drawn n s) = vsm_sharedMap s" "vsm_nodes (drawn n s) = vsm_nodes s" "vsm_initialized (drawn n s) = vsm_initialized s"
  "ledger_ok env (drawn n s) = ledger_ok env s"
  by (simp_all add: drawn_def ledger_ok_def sim_phase_def)

lemma commit_ok:
  "ledger_ok env s \<Longrightarrow> kind \<noteq> ''mission_created'' \<Longrightarrow> kind \<noteq> ''phase_transition'' \<Longrightarrow> ledger_ok env (sim_commit env a kind payload t evs s)"
  by (simp add: sim_commit_def append_ok)

lemma start_ok:
  assumes "ledger_ok env s" "kind = ''blackout_entered'' \<or> kind = ''sync_reconciled''" shows "ledger_ok env (sim_start env a kind payload t evs s)"
proof -
  have "outage_row (sim_row env a kind payload t s)" using assms(2) by (auto simp: outage_row_def sim_row_def)
  then show ?thesis using assms(1) by (simp add: ledger_ok_def sim_phase_def sim_start_def Let_def)
qed

lemma transition_written:
  assumes "js_get (default_to extra []) ''toPhase'' = None"
  shows "phase_written (sealed_input H ns lg (transition_suggestion m a p q t extra)) = Some q"
proof -
  let ?e = "sealed_input H ns lg (transition_suggestion m a p q t extra)"
  have "event_of ?e = transition_suggestion m a p q t extra" by (rule event_of_sealed)
  then have f: "mi_eventType ?e = ''phase_transition''"
      "mi_payload ?e = obj_spread [(''fromPhase'', JStr (phase_str p)), (''toPhase'', JStr (phase_str q))] (default_to extra [])"
    by (simp_all add: event_of_def transition_suggestion_def)
  have "mi_plane ?e = PlaneVertex" by (simp add: sealed_input_def vertex_input_def mission_event_input.defs)
  moreover have "payload_at ?e ''toPhase'' = Some (JStr (phase_str q))" unfolding payload_at_def f(2) spread_keeps [OF assms] by simp
  ultimately show ?thesis by (simp add: f phase_written_def vertex_kind_def asPhase_phase_str)
qed

lemma suggested_transition:
  assumes "suggestPhaseTransition m a p q t extra = Inr sug" "js_get (default_to extra []) ''toPhase'' = None" "sim_phase env s = p"
  shows "row_lawful env s (sealed_input (ven_H env) (ven_ns env) (vsm_ledger s) sug)"
proof -
  have "q \<in> set (validVertexNextPhases p)" "sug = transition_suggestion m a p q t extra"
    using assms(1) by (auto simp: suggestPhaseTransition_def transition_suggestion_def split: if_splits)
  then show ?thesis using assms(3) transition_written [OF assms(2)] by (simp add: row_lawful_def sealed_verifies)
qed

lemma checkpoint_lawful:
  "row_lawful env s (sealed_input (ven_H env) (ven_ns env) (vsm_ledger s) (suggestRecoveryCheckpoint m a label t extra))"
proof -
  have "phase_written (sealed_input (ven_H env) (ven_ns env) (vsm_ledger s) (suggestRecoveryCheckpoint m a label t extra)) = None"
    by (simp add: phase_written_def vertex_kind_def sealed_input_def vertex_input_def mission_event_input.defs suggestRecoveryCheckpoint_def)
  then show ?thesis by (simp add: row_lawful_def sealed_verifies)
qed

lemma suggest_ok:
  "ledger_ok env s \<Longrightarrow> row_lawful env s (sealed_input (ven_H env) (ven_ns env) (vsm_ledger s) sug) \<Longrightarrow> ledger_ok env (sim_suggest env sug s)"
  unfolding sim_suggest_def by (rule push_ok)

lemma suggest_fields [simp]:
  "vsm_missionId (sim_suggest env sug s) = vsm_missionId s" "vsm_sharedMap (sim_suggest env sug s) = vsm_sharedMap s"
  "vsm_nodes (sim_suggest env sug s) = vsm_nodes s" "vsm_initialized (sim_suggest env sug s) = vsm_initialized s"
  by (simp_all add: sim_suggest_def push_row_def)

subsection \<open>What every call keeps of the simulation\<close>

text \<open>
  The step from \<open>s\<close> to \<open>s'\<close> keeps the ledger invariant, keeps the map sound and loses nothing of it, and leaves the
  identifiers of the nodes as they are.
\<close>

definition sim_keeps :: "vertex_env \<Rightarrow> vertex_sim \<Rightarrow> vertex_sim \<Rightarrow> bool" where
  "sim_keeps env s s' \<longleftrightarrow> (ledger_ok env s \<longrightarrow> ledger_ok env s')
     \<and> (swarm_ok (vsm_sharedMap s) \<longrightarrow> swarm_ok (vsm_sharedMap s') \<and> grows (vsm_sharedMap s) (vsm_sharedMap s'))
     \<and> map sw_nodeId (vsm_nodes s') = map sw_nodeId (vsm_nodes s) \<and> vsm_missionId s' = vsm_missionId s \<and> vsm_initialized s' = vsm_initialized s"

lemma keeps_refl [simp]: "sim_keeps env s s"
  by (simp add: sim_keeps_def)

lemma keeps_trans [trans]: "sim_keeps env s s' \<Longrightarrow> sim_keeps env s' s'' \<Longrightarrow> sim_keeps env s s''"
  by (auto simp: sim_keeps_def intro: grows_trans)

lemma keeps_foldl: "(\<And>s x. sim_keeps env s (f s x)) \<Longrightarrow> sim_keeps env s (foldl f s xs)"
  by (induction xs arbitrary: s) (auto intro: keeps_trans)

lemma keeps_frame:
  assumes "vsm_ledger s' = vsm_ledger s" "vsm_pending s' = vsm_pending s" "vsm_missionId s' = vsm_missionId s"
    "vsm_sharedMap s' = vsm_sharedMap s" "map sw_nodeId (vsm_nodes s') = map sw_nodeId (vsm_nodes s)" "vsm_initialized s' = vsm_initialized s"
  shows "sim_keeps env s s'"
  using assms ledger_ok_cong [of s' s env] by (simp add: sim_keeps_def)

lemma keeps_emit: "sim_keeps env s (emit evs s)" "sim_keeps env s (drawn n s)"
  by (auto intro!: keeps_frame)

lemma keeps_yield: "sim_keeps env s (yield_point env s)"
  by (simp add: sim_keeps_def yield_ok)

lemma keeps_append: "kind \<noteq> ''mission_created'' \<Longrightarrow> kind \<noteq> ''phase_transition'' \<Longrightarrow> sim_keeps env s (sim_append env a kind payload t s)"
  by (simp add: sim_keeps_def append_ok)

lemma keeps_commit: "kind \<noteq> ''mission_created'' \<Longrightarrow> kind \<noteq> ''phase_transition'' \<Longrightarrow> sim_keeps env s (sim_commit env a kind payload t evs s)"
  unfolding sim_commit_def by (rule keeps_trans [OF keeps_append keeps_emit(1)])

lemma keeps_start: "kind = ''blackout_entered'' \<or> kind = ''sync_reconciled'' \<Longrightarrow> sim_keeps env s (sim_start env a kind payload t evs s)"
  using start_ok [of env s kind a payload t evs] by (simp add: sim_keeps_def) (simp add: sim_start_def Let_def)

lemma keeps_outage: "sim_keeps env s (commitBlackoutEnter env b sev s)" "sim_keeps env s (commitSyncReconciled env b s)"
  by (simp_all add: commitBlackoutEnter_def commitSyncReconciled_def keeps_commit keeps_start)

lemma move_agents_ids: "map sw_nodeId (fst (foldl (move_agent env) nk ns)) = map sw_nodeId (fst nk) @ map sw_nodeId ns"
proof (induction ns arbitrary: nk)
  case (Cons n ns)
  have "map sw_nodeId (fst (move_agent env nk n)) = map sw_nodeId (fst nk) @ [sw_nodeId n]"
    by (simp add: move_agent_def split_beta Let_def)
  with Cons show ?case by simp
qed simp

lemma keeps_move: "sim_keeps env s (moveAgents env s)"
  using move_agents_ids [of env "([], vsm_draws s)" "vsm_nodes s"] by (intro keeps_frame) (simp_all add: moveAgents_def split_beta)

lemma update_node_ids: "(\<And>n. sw_nodeId (f n) = sw_nodeId n) \<Longrightarrow> map sw_nodeId (update_node i f ns) = map sw_nodeId ns"
  by (simp add: update_node_def)

lemma back_to_fleet_ids: "map sw_nodeId (back_to_fleet part ns) = map sw_nodeId ns"
proof -
  have "sw_nodeId (default_to (List.find (\<lambda>p. sw_nodeId p = sw_nodeId n) part) n) = sw_nodeId n" for n
  proof (cases "List.find (\<lambda>p. sw_nodeId p = sw_nodeId n) part")
    case (Some p)
    then have "sw_nodeId p = sw_nodeId n" unfolding find_Some_iff by blast
    with Some show ?thesis by simp
  qed simp
  then show ?thesis by (simp add: back_to_fleet_def)
qed

lemma set_role_ids: "map sw_nodeId (set_role i r ns) = map sw_nodeId ns"
  by (simp add: set_role_def)

lemma keeps_rebuild: "sim_keeps env s (rebuild_graph env s)"
  by (intro keeps_frame) (simp_all add: rebuild_graph_def split_beta Let_def drawn_def)

lemma keeps_sample: "sim_keeps env s (emit_sample env mode s n)"
proof (cases "sw_offline n = Some True")
  case False
  then show ?thesis by (intro keeps_frame) (simp_all add: emit_sample_def split_beta Let_def emit_def update_node_def)
qed (simp add: emit_sample_def)

lemma keeps_telemetry: "sim_keeps env s (emitTelemetry env mode s)"
  unfolding emitTelemetry_def
  by (rule keeps_trans [OF keeps_frame keeps_foldl [OF keeps_sample]]) simp_all

lemma keeps_schedule: "sim_keeps env s (scheduleBlackoutIfNeeded env s)"
proof -
  have "sim_keeps env s (commitBlackoutEnter env False sev (drawn k s\<lparr> vsm_blackout := b \<rparr>))" for sev k b
    by (rule keeps_trans [OF keeps_frame keeps_outage(1)]) simp_all
  moreover have "drawn a (drawn b s') = drawn (b + a) s'" for a b s' by (simp add: drawn_def)
  ultimately show ?thesis by (auto simp: scheduleBlackoutIfNeeded_def Let_def keeps_emit)
qed

lemma keeps_connectivity: "sim_keeps env s (snd (stepConnectivity env s))"
proof -
  have frame: "sim_keeps env s (drawn k (s\<lparr> vsm_blackout := b, vsm_graph := g \<rparr>))" for k b g
    by (rule keeps_frame) simp_all
  then have "sim_keeps env s (commitSyncReconciled env False (drawn k (s\<lparr> vsm_blackout := b, vsm_graph := g \<rparr>)))" for k b g
    by (rule keeps_trans [OF _ keeps_outage(2)])
  with frame show ?thesis by (simp add: stepConnectivity_def split_beta Let_def)
qed

lemma keeps_open_task: "sim_keeps env s (open_sim_task spec s)"
  by (intro keeps_frame) (simp_all add: open_sim_task_def)

lemma keeps_spawn: "sim_keeps env s (spawnTaskIfNeeded env p s)"
  using keeps_trans [OF keeps_emit(2) keeps_open_task] by (simp add: spawnTaskIfNeeded_def)

lemma keeps_bids: "sim_keeps env s (simulateBids env mode snap s)"
proof -
  have "sim_keeps env s (place_bid env snap i s n)" for s i n
    by (intro keeps_frame) (simp_all add: place_bid_def Let_def drawn_def)
  then have bids: "sim_keeps env s (foldl (place_bid env snap i) s ns)" for s i ns by (rule keeps_foldl)
  have tasks: "sim_keeps env s (s\<lparr> vsm_tasks := ts \<rparr>)" for s ts by (intro keeps_frame) simp_all
  have "sim_keeps env s (bid_on_task env mode snap s i)" for s i
    by (auto simp: bid_on_task_def Let_def intro: keeps_trans [OF bids tasks] split: option.split)
  then show ?thesis unfolding simulateBids_def by (rule keeps_foldl)
qed

lemma keeps_tasks: "sim_keeps env s (s\<lparr> vsm_tasks := ts \<rparr>)"
  by (intro keeps_frame) simp_all

lemma keeps_win: "sim_keeps env s (win_task env i s)"
proof -
  have commit: "sim_keeps env s (sim_commit env a ''task_assigned'' payload t evs (s\<lparr> vsm_tasks := ts \<rparr>))" for a payload t evs ts
    by (rule keeps_trans [OF keeps_tasks keeps_commit]) simp_all
  then have done1: "sim_keeps env s (drawn 1 (sim_commit env a ''task_assigned'' payload t evs (s\<lparr> vsm_tasks := ts \<rparr>)))" for a payload t evs ts
    by (rule keeps_trans [OF _ keeps_emit(2)])
  then have "sim_keeps env s (sim_append env b ''task_completed'' payload' t' (drawn 1 (sim_commit env a ''task_assigned'' payload t evs (s\<lparr> vsm_tasks := ts \<rparr>)))
      \<lparr> vsm_tasks := ts' \<rparr>)" for a b payload payload' t t' evs ts ts'
    by (rule keeps_trans [OF _ keeps_trans [OF keeps_append keeps_tasks]]) simp_all
  with done1 show ?thesis unfolding win_task_def split_beta Let_def by (simp add: keeps_tasks split: option.split)
qed

lemma keeps_assign: "sim_keeps env s (assignOpenTasks env mode s)"
proof -
  have "sim_keeps env s (assign_task_step env mode s i)" for s i
    by (auto simp: assign_task_step_def Let_def keeps_win
        intro: keeps_trans [OF keeps_emit(2) keeps_append] keeps_trans [OF keeps_emit(2) keeps_win] split: option.split)
  moreover have "sim_keeps env s (reassign_step env s i)" for s i
    unfolding reassign_step_def split_beta Let_def
    by (auto simp: keeps_tasks intro: keeps_trans [OF keeps_tasks keeps_append] split: option.split)
  ultimately show ?thesis unfolding assignOpenTasks_def Let_def
    by (intro keeps_trans [OF keeps_foldl keeps_trans [OF keeps_foldl keeps_yield]])
qed

lemma keeps_suggest:
  "row_lawful env s (sealed_input (ven_H env) (ven_ns env) (vsm_ledger s) sug) \<Longrightarrow> sim_keeps env s (sim_suggest env sug s)"
  by (simp add: sim_keeps_def suggest_ok)

lemma keeps_phase: "sim_keeps env s (maybeAdvancePhase env s)"
proof -
  let ?p = "sim_phase env s"
  have p: "ms_phase (replayMissionFromLedger (ven_ns env) (ven_rd env) (ven_wall env) (vsm_ledger s) (vsm_missionId s)) = ?p"
    by (simp add: sim_phase_def phase_of_any)
  have same: "sim_keeps env s (s\<lparr> vsm_phase := q \<rparr>)" for q by (intro keeps_frame) simp_all
  have phase: "sim_phase env (s\<lparr> vsm_phase := q \<rparr>) = ?p" for q by (simp add: sim_phase_def)
  have "sim_keeps env s (sim_suggest env sug (s\<lparr> vsm_phase := ?p \<rparr>)\<lparr> vsm_phase := q' \<rparr>)"
    if "suggestPhaseTransition (vsm_missionId s) a ?p q t (Some [(''cellsKnown'', x)]) = Inr sug" for sug a q q' t x
  proof -
    have "sim_keeps env s (sim_suggest env sug (s\<lparr> vsm_phase := ?p \<rparr>))"
      by (rule keeps_trans [OF same keeps_suggest [OF suggested_transition [OF that _ phase]]]) simp
    also have "sim_keeps env (sim_suggest env sug (s\<lparr> vsm_phase := ?p \<rparr>)) (sim_suggest env sug (s\<lparr> vsm_phase := ?p \<rparr>)\<lparr> vsm_phase := q' \<rparr>)"
      by (rule keeps_frame) simp_all
    finally show ?thesis .
  qed
  with same show ?thesis unfolding maybeAdvancePhase_def Let_def p by (auto split: option.split sum.split)
qed

lemma keeps_checkpoint: "sim_keeps env s (maybeCheckpoint env s)"
  by (simp add: maybeCheckpoint_def sim_keeps_def suggest_ok checkpoint_lawful)

lemma keeps_map:
  "swarm_ok m \<Longrightarrow> swarm_ok m' \<Longrightarrow> grows m m' \<Longrightarrow> vsm_sharedMap s = m \<Longrightarrow> sim_keeps env s (s\<lparr> vsm_sharedMap := m' \<rparr>)"
  by (simp add: sim_keeps_def ledger_ok_def sim_phase_def)

lemma keeps_cell: "sim_keeps env s (s\<lparr> vsm_sharedMap := applyLocalUpdate gx gz st now i conf src (vsm_sharedMap s) \<rparr>)"
  by (simp add: sim_keeps_def ledger_ok_def sim_phase_def local_update_ok local_update_grows)

lemma keeps_discovery: "sim_keeps env s (log_discovery env c s)"
proof -
  have "sim_keeps env s (s\<lparr> vsm_loggedDiscoveries := x \<rparr>)" for x by (intro keeps_frame) simp_all
  then show ?thesis by (auto simp: log_discovery_def intro: keeps_trans [OF _ keeps_commit])
qed

lemma keeps_candidate: "sim_keeps env s (commitTargetCandidateLedger env c promoted s)"
proof -
  let ?s1 = "log_discovery env c s"
  let ?s2 = "sim_commit env (default_to (tca_confirmedByNodeId c) (vsm_operator s)) ''target_confirmed''
      [(''targetId'', JStr (tca_candidateId c)), (''confidence'', JNum (tca_mergedConfidence01 c)), (''corroboration'', jint (int (length (tca_evidence c))))]
      (vsm_nowMs s + 1) [EvTargetConfirmed (tca_candidateId c)] ?s1"
  let ?s3 = "?s2\<lparr> vsm_sharedMap := applyLocalUpdate (tca_gx c) (tca_gz c) FxTarget (vsm_nowMs s)
      (default_to (tca_confirmedByNodeId c) ''mesh'') (Some (tca_mergedConfidence01 c)) PsLocalSensor (vsm_sharedMap ?s2) \<rparr>"
  have eq: "commitTargetCandidateLedger env c promoted s = (if \<not> promoted then ?s1 else spawnRescueTaskForTarget c ?s3)"
    by (simp only: commitTargetCandidateLedger_def Let_def)
  have "sim_keeps env s ?s1" by (rule keeps_discovery)
  moreover have "sim_keeps env ?s1 ?s2" by (rule keeps_commit) simp_all
  moreover have "sim_keeps env ?s2 ?s3" by (rule keeps_cell)
  moreover have "sim_keeps env ?s3 (spawnRescueTaskForTarget c ?s3)" unfolding spawnRescueTaskForTarget_def by (rule keeps_open_task)
  ultimately have "sim_keeps env s (spawnRescueTaskForTarget c ?s3)" by (blast intro: keeps_trans)
  with \<open>sim_keeps env s ?s1\<close> show ?thesis by (simp only: eq if_split) blast
qed

lemma exploration_sound:
  assumes "swarm_ok m" "unit_draws (xg_rng a)"
  shows "swarm_ok (xr_map (exploration_step a m nodes before k)) \<and> grows m (xr_map (exploration_step a m nodes before k))"
proof -
  let ?s = "\<lparr> xr_map = bootstrap_map a nodes m, xr_nodes = [], xr_last = before, xr_draws = k, xr_states = [] \<rparr>"
  have "explored_ok a m ?s" using bootstrap_sound [OF assms(1)] by (simp add: explored_ok_def)
  from explore_nodes_sound [OF this assms(2)] show ?thesis by (simp add: exploration_step_def Let_def explored_ok_def)
qed

lemma keeps_explore:
  assumes "unit_draws (ven_rng env)" shows "sim_keeps env s (snd (explore env mode snap s))"
  using exploration_sound [of "vsm_sharedMap s"] assms
  by (simp add: explore_def Let_def sim_keeps_def back_to_fleet_ids) (simp add: ledger_ok_def sim_phase_def)

text \<open>A merge from the mesh joins cell by cell, so it only adds.\<close>

lemma merge_grows: "grows m (snd (mergeDelta d m))"
proof -
  have "opt_max x (opt_max x y) = opt_max x y" for x y :: "(nat \<times> int) option" by (cases x; cases y) auto
  then show ?thesis by (simp add: grows_def mergeDelta_core)
qed

lemma sync_edge_grows: "grows (sr_map r) (sr_map (sync_edge a r e)) \<and> (swarm_ok (sr_map r) \<longrightarrow> swarm_ok (sr_map (sync_edge a r e)))"
proof -
  have "sr_map (sync_edge a r e) = sr_map r \<or> (\<exists>d. sr_map (sync_edge a r e) = snd (mergeDelta d (sr_map r)))"
    by (simp add: sync_edge_def merge_edge_def split_beta Let_def) blast
  then show ?thesis using merge_grows merge_delta_ok by auto
qed

lemma sync_step_grows:
  "swarm_ok m \<Longrightarrow> swarm_ok (fst (snd (sync_step a m se))) \<and> grows m (fst (snd (sync_step a m se)))"
proof -
  assume ok: "swarm_ok m"
  have "grows (sr_map r) (sr_map (foldl (sync_edge a) r es)) \<and> (swarm_ok (sr_map r) \<longrightarrow> swarm_ok (sr_map (foldl (sync_edge a) r es)))" for r es
  proof (induction es arbitrary: r)
    case (Cons e es)
    from Cons [of "sync_edge a r e"] sync_edge_grows [of r a e] show ?case by (auto intro: grows_trans)
  qed simp
  from this [of "\<lparr> sr_map = m, sr_engine = se, sr_draws = 0, sr_merges = 0, sr_lastPeer = None \<rparr>" "cs_edges (sa_graph a)"] ok
  have edges: "grows m (sr_map (sync_edges a m se))" "swarm_ok (sr_map (sync_edges a m se))" by (simp_all add: sync_edges_def)
  have "sr_map (flush_buffer a r) = sr_map r \<or> (\<exists>d. sr_map (flush_buffer a r) = snd (mergeDelta d (sr_map r)))" for r
    by (auto simp: flush_buffer_def split_beta Let_def)
  then have "swarm_ok (sr_map (flush_buffer a r)) \<and> grows (sr_map r) (sr_map (flush_buffer a r))" if "swarm_ok (sr_map r)" for r
    using that merge_grows merge_delta_ok by (metis grows_refl)
  from this [OF edges(2)] edges(1) show ?thesis by (simp add: sync_step_def Let_def) (blast intro: grows_trans)
qed

lemma keeps_sync: "sim_keeps env s (snd (sync_maps env mode snap s))"
proof -
  define m where "m = fst (snd (sync_step (sync_args_of env mode snap s) (vsm_sharedMap s) (vsm_foxMap s)))"
  have "swarm_ok (vsm_sharedMap s) \<longrightarrow> swarm_ok m \<and> grows (vsm_sharedMap s) m" unfolding m_def using sync_step_grows by blast
  moreover have "snd (sync_maps env mode snap s) = emit e (drawn k s\<lparr> vsm_sharedMap := m, vsm_foxMap := f \<rparr>) \<Longrightarrow> ?thesis" for e k f
    using calculation by (simp add: sim_keeps_def) (simp add: ledger_ok_def sim_phase_def)
  ultimately show ?thesis by (simp add: sync_maps_def split_beta Let_def m_def)
qed

lemma keeps_sense: "sim_keeps env s (sense_targets env s)"
proof -
  have frame: "sim_keeps env s (emit evs (s\<lparr> vsm_draws := k, vsm_pipe := p \<rparr>))" "sim_keeps env s (s\<lparr> vsm_draws := k \<rparr>)" for s evs k p
    by (intro keeps_frame, simp_all)+
  have hit: "sim_keeps env s (commitTargetCandidateLedger env c b (emit evs (s\<lparr> vsm_draws := k, vsm_pipe := p \<rparr>)))" for s c b evs k p
    by (rule keeps_trans [OF frame(1) keeps_candidate])
  have "sim_keeps env s (sense_node env s n)" for s n
    unfolding sense_node_def split_beta Let_def using frame(2) hit by (simp split: option.split)
  then show ?thesis unfolding sense_targets_def by (rule keeps_foldl)
qed

lemma keeps_role: "sim_keeps env s (commitRoleChange env i r reason s)"
  unfolding commitRoleChange_def by (rule keeps_commit) simp_all

lemma keeps_handoffs: "sim_keeps env s (handoff_roles env mode snap s)"
proof -
  have "sim_keeps env s (commit_handoff env s h)" for s h
    unfolding commit_handoff_def by (rule keeps_trans [OF keeps_emit(1) keeps_role])
  then have "sim_keeps env s' (foldl (commit_handoff env) s' hs)" for s' hs by (rule keeps_foldl)
  moreover have "sim_keeps env s (s\<lparr> vsm_nodes := back_to_fleet part (vsm_nodes s), vsm_handoffs := h, vsm_draws := k \<rparr>)" for part h k
    by (intro keeps_frame) (simp_all add: back_to_fleet_ids)
  ultimately show ?thesis unfolding handoff_roles_def Let_def by (blast intro: keeps_trans)
qed

lemma keeps_advance: "sim_keeps env s (advance_mission env mode snap s)"
proof -
  have "sim_keeps env s (report_coverage s)" for s by (simp add: report_coverage_def Let_def keeps_emit)
  then show ?thesis unfolding advance_mission_def
    by (intro keeps_trans [OF _ keeps_checkpoint] keeps_trans [OF _ keeps_yield] keeps_trans [OF _ keeps_phase] keeps_trans [OF _ keeps_assign]
        keeps_trans [OF _ keeps_bids] keeps_trans [OF _ keeps_spawn])
qed

lemma keeps_clock: "sim_keeps env s (emit evs (s\<lparr> vsm_tickCount := k, vsm_nowMs := t \<rparr>))"
  by (intro keeps_frame) simp_all

lemma keeps_start_tick: "vsm_initialized s \<Longrightarrow> sim_keeps env s (start_tick env s)"
  by (simp add: start_tick_def ensure_initialized_def Let_def keeps_clock)

lemma keeps_observe: "sim_keeps env (start_tick env s) (snd (observe_tick env s))"
  unfolding observe_tick_def split_beta Let_def snd_conv
  by (intro keeps_trans [OF _ keeps_emit(1)] keeps_trans [OF _ keeps_telemetry] keeps_trans [OF _ keeps_connectivity]
      keeps_trans [OF _ keeps_schedule] keeps_trans [OF _ keeps_rebuild] keeps_move)

lemma keeps_tick:
  assumes "unit_draws (ven_rng env)" shows "sim_keeps env (start_tick env s) (snd (sim_tick env s))"
  unfolding sim_tick_def split_beta Let_def snd_conv
  by (intro keeps_trans [OF _ keeps_yield] keeps_trans [OF _ keeps_advance] keeps_trans [OF _ keeps_handoffs]
      keeps_trans [OF _ keeps_sense] keeps_trans [OF _ keeps_sync] keeps_trans [OF _ keeps_explore [OF assms]] keeps_observe)

subsection \<open>Sequences of calls\<close>

datatype sim_call = ScRestart | ScTick | ScBlackout int blackout_severity | ScRecover | ScDropout ident | ScReturn ident | ScHandoff ident
  | ScPartition bool | ScFallback bool | ScSnapshot | ScReplay | ScStamp int int | ScInject ident

fun sim_apply :: "vertex_env \<Rightarrow> vertex_sim \<Rightarrow> sim_call \<Rightarrow> vertex_sim" where
  "sim_apply env s ScRestart = initializeMission env s"
| "sim_apply env s ScTick = snd (sim_tick env s)"
| "sim_apply env s (ScBlackout d sev) = forceBlackout env d sev s"
| "sim_apply env s ScRecover = recoverMesh env s"
| "sim_apply env s (ScDropout i) = forceNodeDropout env i s"
| "sim_apply env s (ScReturn i) = forceNodeRecovery env i s"
| "sim_apply env s (ScHandoff i) = forceRoleHandoff env i s"
| "sim_apply env s (ScPartition b) = meshTogglePartition b s"
| "sim_apply env s (ScFallback b) = setUseMockFallback b s"
| "sim_apply env s ScSnapshot = snapshotFoxMapLedger env s"
| "sim_apply env s ScReplay = replayFoxmqLedger env s"
| "sim_apply env s (ScStamp gx gz) = operatorStampCell env gx gz s"
| "sim_apply env s (ScInject i) = injectTargetNear env i s"

text \<open>Whether a call starts the mission first when that has not happened.\<close>

fun starts_mission :: "sim_call \<Rightarrow> bool" where
  "starts_mission ScTick = True" | "starts_mission (ScBlackout d sev) = True" | "starts_mission ScRecover = True"
| "starts_mission (ScReturn i) = True" | "starts_mission (ScHandoff i) = True" | "starts_mission (ScInject i) = True"
| "starts_mission c = False"

lemma keeps_fox_row: "sim_keeps env s (fox_row env' i kind cells route payload t s)"
  by (intro keeps_frame) (simp_all add: fox_row_def)

lemma keeps_health: "sim_keeps env s (set_health b i s)"
  by (intro keeps_frame) (simp_all add: set_health_def update_node_def)

lemma keeps_force_role: "vsm_initialized s \<Longrightarrow> sim_keeps env s (forceRoleHandoff env i s)"
proof -
  assume "vsm_initialized s"
  have frame: "sim_keeps env s (emit evs (drawn 1 s\<lparr> vsm_nodes := set_role j r (vsm_nodes s), vsm_handoffs := h \<rparr>))" for evs j r h
    by (intro keeps_frame) (simp_all add: set_role_ids)
  have "sim_keeps env s (commitRoleChange env i r reason (emit evs (drawn 1 s\<lparr> vsm_nodes := set_role j r' (vsm_nodes s), vsm_handoffs := h \<rparr>)))"
    for evs j r r' h reason by (rule keeps_trans [OF frame keeps_role])
  moreover have "sim_keeps env s (drawn 1 s)" by (rule keeps_emit)
  ultimately show ?thesis using \<open>vsm_initialized s\<close>
    by (simp add: forceRoleHandoff_def ensure_initialized_def Let_def applyHandoff_def split: option.split)
qed

lemma keeps_inject: "vsm_initialized s \<Longrightarrow> sim_keeps env s (injectTargetNear env i s)"
proof -
  assume "vsm_initialized s"
  have "sim_keeps env s (s\<lparr> vsm_pipe := p \<rparr>)" for p by (intro keeps_frame) simp_all
  then have "sim_keeps env s (commitTargetCandidateLedger env c b (s\<lparr> vsm_pipe := p \<rparr>))" for c b p by (rule keeps_trans [OF _ keeps_candidate])
  then show ?thesis using \<open>vsm_initialized s\<close>
    unfolding injectTargetNear_def ensure_initialized_def split_beta Let_def by (simp split: option.split)
qed

lemma keeps_call:
  assumes "unit_draws (ven_rng env)" "c \<noteq> ScRestart" "vsm_initialized s \<or> \<not> starts_mission c" shows "sim_keeps env s (sim_apply env s c)"
proof (cases c)
  case ScTick
  with assms(3) show ?thesis using keeps_trans [OF keeps_start_tick keeps_tick [OF assms(1)]] by simp
next
  case (ScBlackout d sev)
  have "sim_keeps env s (s\<lparr> vsm_blackout := b \<rparr>)" for b by (intro keeps_frame) simp_all
  then have "sim_keeps env s (commitBlackoutEnter env True sev (s\<lparr> vsm_blackout := b \<rparr>))" for b by (rule keeps_trans [OF _ keeps_outage(1)])
  with ScBlackout assms(3) show ?thesis by (simp add: forceBlackout_def ensure_initialized_def Let_def)
next
  case ScRecover
  have "sim_keeps env s (s\<lparr> vsm_blackout := b \<rparr>)" for b by (intro keeps_frame) simp_all
  then have "sim_keeps env s (commitSyncReconciled env True (s\<lparr> vsm_blackout := b \<rparr>))" for b by (rule keeps_trans [OF _ keeps_outage(2)])
  with ScRecover assms(3) show ?thesis by (simp add: recoverMesh_def ensure_initialized_def)
next
  case (ScDropout i)
  then show ?thesis by (simp add: forceNodeDropout_def keeps_trans [OF keeps_health keeps_fox_row])
next
  case (ScReturn i)
  with assms(3) show ?thesis
    by (simp add: forceNodeRecovery_def ensure_initialized_def Let_def keeps_trans [OF keeps_trans [OF keeps_health keeps_fox_row] keeps_emit(1)])
next
  case (ScHandoff i)
  with assms(3) show ?thesis by (simp add: keeps_force_role)
next
  case (ScPartition b)
  then show ?thesis by (intro keeps_frame) (simp_all add: meshTogglePartition_def)
next
  case (ScFallback b)
  then show ?thesis by (intro keeps_frame) (simp_all add: setUseMockFallback_def)
next
  case ScSnapshot
  then show ?thesis by (simp add: snapshotFoxMapLedger_def Let_def keeps_trans [OF keeps_fox_row keeps_emit(1)])
next
  case ScReplay
  then show ?thesis by (simp add: replayFoxmqLedger_def Let_def keeps_trans [OF keeps_fox_row keeps_emit(1)])
next
  case (ScStamp gx gz)
  then show ?thesis by (simp add: operatorStampCell_def keeps_trans [OF keeps_cell keeps_fox_row])
next
  case (ScInject i)
  with assms(3) show ?thesis by (simp add: keeps_inject)
qed (use assms(2) in simp)

lemma append_phase:
  assumes "ledger_ok env s" "kind \<noteq> ''mission_created''" "kind \<noteq> ''phase_transition''"
  shows "sim_phase env (sim_append env a kind payload t s) = sim_phase env s"
proof -
  have y: "sim_phase env (yield_point env s) = sim_phase env s" using assms(1) by (simp add: yield_phase ledger_ok_def)
  have "phase_written (sim_row env a kind payload t s) = None" using assms(2,3) by (simp add: sim_row_def phase_written_def vertex_kind_def)
  then show ?thesis using y by (simp add: sim_phase_def sim_append_def push_row_def phase_of_snoc)
qed

lemma fresh_ok: "ledger_ok env (fresh_mission env s)" "sim_phase env (fresh_mission env s) = PInit"
proof -
  let ?payload = "[(''phase'', JStr ''init''), (''name'', JStr (vsm_missionId s))] @ optional_field ''scenario'' (map_option JStr (Some (vsm_scenario s)))"
  let ?row = "api_row (ven_H env) (ven_ns env) (vsm_missionId s) (vsm_operator s) ''mission_created'' PlaneVertex ?payload (vsm_nowMs s) []"
  have lg: "vsm_ledger (fresh_mission env s) = [?row]" "vsm_pending (fresh_mission env s) = []" "vsm_missionId (fresh_mission env s) = vsm_missionId s"
    by (simp_all add: fresh_mission_def bootstrapMission_def append_row_eq Let_def)
  show phase: "sim_phase env (fresh_mission env s) = PInit" unfolding sim_phase_def lg by (rule created_row_phase) simp
  have "lawful_ledger (ven_H env) (ven_ns env) (ven_rd env) (vsm_missionId s) [?row]"
    using lawful_bootstrap [of "ven_H env" "ven_ns env" "ven_rd env" "vsm_missionId s" "vsm_missionId s" "vsm_operator s" "vsm_nowMs s" "Some (vsm_scenario s)"]
    by (simp add: bootstrapMission_def append_row_eq Let_def)
  then show "ledger_ok env (fresh_mission env s)" by (simp add: ledger_ok_def lawful_ledger_def sim_phase_def lg)
qed

lemma initialize_sound:
  "ledger_ok env (initializeMission env s) \<and> swarm_ok (vsm_sharedMap (initializeMission env s))
   \<and> map sw_nodeId (vsm_nodes (initializeMission env s)) = map sw_nodeId (vsm_nodes s) \<and> vsm_initialized (initializeMission env s)"
proof -
  let ?s1 = "fresh_mission env s"
  have join: "sim_keeps env s' (join_node env s' n) \<and> (ledger_ok env s' \<longrightarrow> sim_phase env (join_node env s' n) = sim_phase env s')" for s' n
    unfolding join_node_def by (simp add: keeps_append append_phase)
  have joins: "sim_keeps env s' (foldl (join_node env) s' ns) \<and> (ledger_ok env s' \<longrightarrow> sim_phase env (foldl (join_node env) s' ns) = sim_phase env s')" for s' ns
  proof (induction ns arbitrary: s')
    case (Cons n ns)
    have "ledger_ok env s' \<Longrightarrow> ledger_ok env (join_node env s' n)" using join [of s' n] by (simp add: sim_keeps_def)
    with Cons [of "join_node env s' n"] join [of s' n] show ?case by (auto intro: keeps_trans)
  qed simp
  define s2 where "s2 = foldl (join_node env) ?s1 (vsm_nodes ?s1)"
  have s2: "sim_keeps env ?s1 s2" "sim_phase env s2 = PInit" using joins [of ?s1 "vsm_nodes ?s1"] fresh_ok by (auto simp: s2_def)
  define s3 where "s3 = (case suggestPhaseTransition (vsm_missionId s2) (vsm_operator s2) PInit PDiscovery (vsm_nowMs s2 + 2) None of
      Inr sug \<Rightarrow> sim_suggest env sug s2 | Inl e \<Rightarrow> s2)"
  have "row_lawful env s2 (sealed_input (ven_H env) (ven_ns env) (vsm_ledger s2) sug)"
    if "suggestPhaseTransition (vsm_missionId s2) (vsm_operator s2) PInit PDiscovery (vsm_nowMs s2 + 2) None = Inr sug" for sug
    by (rule suggested_transition [OF that _ s2(2)]) simp
  then have "sim_keeps env s2 s3" by (auto simp: s3_def keeps_suggest split: sum.split)
  with s2(1) have "sim_keeps env ?s1 s3" by (rule keeps_trans)
  also have "sim_keeps env s3 (s3\<lparr> vsm_phase := PDiscovery \<rparr>)" by (intro keeps_frame) simp_all
  finally have all: "sim_keeps env ?s1 (s3\<lparr> vsm_phase := PDiscovery \<rparr>)" .
  have eq: "initializeMission env s = s3\<lparr> vsm_phase := PDiscovery, vsm_initialized := True \<rparr>"
    by (simp only: initializeMission_def Let_def s2_def s3_def)
  have "swarm_ok (vsm_sharedMap ?s1)" by (simp add: fresh_mission_def new_swarm_map_def swarm_ok_def js_values_def wf_map_def)
  moreover have "map sw_nodeId (vsm_nodes ?s1) = map sw_nodeId (vsm_nodes s)" by (simp add: fresh_mission_def)
  moreover have "ledger_ok env (initializeMission env s) = ledger_ok env (s3\<lparr> vsm_phase := PDiscovery \<rparr>)"
    by (rule ledger_ok_cong) (simp_all add: eq)
  ultimately show ?thesis using all fresh_ok(1) by (simp add: eq sim_keeps_def)
qed

definition sim_sound :: "vertex_env \<Rightarrow> ident list \<Rightarrow> vertex_sim \<Rightarrow> bool" where
  "sim_sound env ids s \<longleftrightarrow> ledger_ok env s \<and> swarm_ok (vsm_sharedMap s) \<and> map sw_nodeId (vsm_nodes s) = ids"

lemma sound_keeps: "sim_sound env ids s \<Longrightarrow> sim_keeps env s s' \<Longrightarrow> sim_sound env ids s'"
  by (simp add: sim_sound_def sim_keeps_def)

lemma sound_initialize: "sim_sound env ids s \<Longrightarrow> sim_sound env ids (initializeMission env s)"
  using initialize_sound [of env s] by (simp add: sim_sound_def)

lemma apply_initialized:
  "starts_mission c \<Longrightarrow> \<not> vsm_initialized s \<Longrightarrow> sim_apply env s c = sim_apply env (initializeMission env s) c"
proof -
  assume "\<not> vsm_initialized s"
  then have "ensure_initialized env s = ensure_initialized env (initializeMission env s)"
    using initialize_sound [of env s] by (simp add: ensure_initialized_def)
  moreover assume "starts_mission c"
  ultimately show ?thesis
    by (cases c) (simp_all only: starts_mission.simps sim_apply.simps sim_tick_def observe_tick_def start_tick_def forceBlackout_def recoverMesh_def
        forceNodeRecovery_def forceRoleHandoff_def injectTargetNear_def)
qed

lemma sound_apply:
  assumes "unit_draws (ven_rng env)" "sim_sound env ids s" shows "sim_sound env ids (sim_apply env s c)"
proof (cases "vsm_initialized s \<or> \<not> starts_mission c")
  case True
  then show ?thesis
    using sound_initialize [OF assms(2)] sound_keeps [OF assms(2) keeps_call [OF assms(1)]] by (cases "c = ScRestart") auto
next
  case False
  have "vsm_initialized (initializeMission env s)" using initialize_sound by blast
  moreover have "c \<noteq> ScRestart" using False by auto
  ultimately have "sim_keeps env (initializeMission env s) (sim_apply env (initializeMission env s) c)" using keeps_call [OF assms(1)] by blast
  with False sound_keeps [OF sound_initialize [OF assms(2)]] show ?thesis by (simp add: apply_initialized)
qed

lemma sound_new: "sim_sound env (map sw_nodeId (createBaselineSwarmNodeList n (9 / 10))) (new_vertex_sim env m cfg n now)"
proof -
  have ids: "map sw_nodeId (map (spread_node env k) (enumerate i ns)) = map sw_nodeId ns" for k i ns
    by (induction ns arbitrary: i) (simp_all add: spread_node_def Let_def)
  have "phase_of (ven_ns env) (ven_rd env) [] m = PInit" by (simp add: phase_of_def replayed_phase eventsForMission_def)
  then have "ledger_ok env (new_vertex_sim env m cfg n now)"
    using path_start [of validVertexNextPhases] by (auto simp: ledger_ok_def sim_phase_def new_vertex_sim_def Let_def verifyChain_def)
  moreover have "swarm_ok (vsm_sharedMap (new_vertex_sim env m cfg n now))"
    by (simp add: new_vertex_sim_def new_swarm_map_def swarm_ok_def js_values_def wf_map_def Let_def)
  ultimately show ?thesis by (simp add: sim_sound_def) (simp add: new_vertex_sim_def Let_def ids [unfolded map_map])
qed

text \<open>The constructor seeds the generator from the configuration.\<close>

definition seeded :: "vertex_env \<Rightarrow> runtime_config \<Rightarrow> vertex_env" where
  "seeded env cfg = env\<lparr> ven_rng := mulberry32 (rtc_seed cfg) \<rparr>"

definition simulate :: "vertex_env \<Rightarrow> ident \<Rightarrow> runtime_config \<Rightarrow> nat \<Rightarrow> timestamp \<Rightarrow> sim_call list \<Rightarrow> vertex_sim" where
  "simulate env m cfg n now calls =
     foldl (sim_apply (seeded env cfg)) (new_vertex_sim (seeded env cfg) m cfg n now) calls"

lemma seeded_draws: "unit_draws (ven_rng (seeded env cfg))"
  by (simp add: seeded_def mulberry32_draws)

lemma simulate_sound:
  "sim_sound (seeded env cfg) (map sw_nodeId (createBaselineSwarmNodeList n (9 / 10))) (simulate env m cfg n now calls)"
proof -
  have "sim_sound (seeded env cfg) ids s \<Longrightarrow> sim_sound (seeded env cfg) ids (foldl (sim_apply (seeded env cfg)) s calls)" for ids s
    by (rule foldl_inv) (simp_all add: sound_apply seeded_draws)
  then show ?thesis using sound_new by (simp add: simulate_def)
qed



subsection \<open>Rows that are not awaited\<close>

lemma forked_chain:
  assumes "mi_previousHash r2 = tailHash lg" "mi_eventHash r1 \<noteq> tailHash lg" shows "verifyChain H ns (lg @ [r1] @ [r2]) \<noteq> ChainOk"
proof -
  have "tailHash (lg @ [r1]) = mi_eventHash r1" by (simp add: tailHash_def ledger_head_def)
  then show ?thesis using assms unfolding verifyChain_def append_assoc [symmetric] mission_chain.verify_snoc mission_chain_tail by auto
qed


definition toy_env :: vertex_env where
  "toy_env = \<lparr> ven_H = (\<lambda>s. s), ven_ns = (\<lambda>r. []), ven_fx = (\<lambda>n r. []), ven_rd = (\<lambda>s. None), ven_rng = mulberry32 1, ven_lands = (\<lambda>k. True),
     ven_wall = 0, ven_cell_text = (\<lambda>c. []), ven_event_text = (\<lambda>e. []) \<rparr>"

definition toy_sim :: vertex_sim where
  "toy_sim = new_vertex_sim toy_env ''m1'' (defaultRuntimeConfig ''tunnel'' 1) 5 0"


end
