(* ===== verification/MeshPeers.thy ===== *)
theory MeshPeers
  imports MeshReports MeshQueues HashChains SwarmNetwork
begin

section \<open>Mesh peers: profiles, discovery, roles and tasks\<close>

text \<open>
  Models \<open>peerProfiles.ts\<close>, \<open>peerDiscovery.ts\<close>, \<open>partitionManager.ts\<close>, \<open>roleManager.ts\<close>, \<open>taskAllocator.ts\<close>,
  \<open>mockMissionFactory.ts\<close>, \<open>blackoutInjector.ts\<close> and \<open>replayEngine.ts\<close> of \<open>src/src/vertex2\<close>, with the types they use. A function that
  draws gets the generator and the number of draws made so far, and returns the new number. The lemmas bound what a peer
  can learn, and show which peer a task goes to and which peer a role is handed to.
\<close>

subsection \<open>Types\<close>

datatype mesh_role = MxExplorer | MxRelay | MxTriage | MxRescuer | MxStandby | MxCoordinator | MxSensor | MxTransport | MxEmergency
  | MxCarrier | MxMedic | MxObserver

fun mesh_role_str :: "mesh_role \<Rightarrow> string" where
  "mesh_role_str MxExplorer = ''explorer''"
| "mesh_role_str MxRelay = ''relay''"
| "mesh_role_str MxTriage = ''triage''"
| "mesh_role_str MxRescuer = ''rescuer''"
| "mesh_role_str MxStandby = ''standby''"
| "mesh_role_str MxCoordinator = ''coordinator''"
| "mesh_role_str MxSensor = ''sensor''"
| "mesh_role_str MxTransport = ''transport''"
| "mesh_role_str MxEmergency = ''emergency''"
| "mesh_role_str MxCarrier = ''carrier''"
| "mesh_role_str MxMedic = ''medic''"
| "mesh_role_str MxObserver = ''observer''"

datatype node_kind = NkScoutDrone | NkRelayDrone | NkIndoorRobot | NkRescueRobot | NkCoordinatorNode | NkBackupRelay | NkSensorNode
  | NkTransportNode

fun node_kind_str :: "node_kind \<Rightarrow> string" where
  "node_kind_str NkScoutDrone = ''scout_drone''"
| "node_kind_str NkRelayDrone = ''relay_drone''"
| "node_kind_str NkIndoorRobot = ''indoor_robot''"
| "node_kind_str NkRescueRobot = ''rescue_robot''"
| "node_kind_str NkCoordinatorNode = ''coordinator_node''"
| "node_kind_str NkBackupRelay = ''backup_relay''"
| "node_kind_str NkSensorNode = ''sensor_node''"
| "node_kind_str NkTransportNode = ''transport_node''"

datatype peer_health = PhOk | PhDegraded | PhIsolated | PhOffline | PhRecovering

datatype recovery_phase = RpSteady | RpBuffering | RpReconciling | RpMerged

fun stress_str :: "stress_mode \<Rightarrow> string" where
  "stress_str NsNormal = ''normal''"
| "stress_str NsDegraded = ''degraded''"
| "stress_str NsHighLatency = ''high_latency''"
| "stress_str NsLossy = ''lossy''"
| "stress_str NsPartitioned = ''partitioned''"
| "stress_str NsRecovery = ''recovery''"
| "stress_str NsOffline = ''offline''"

record mesh_peer =
  pe_peerId :: ident
  pe_displayName :: string
  pe_nodeKind :: node_kind
  pe_meshRole :: mesh_role
  pe_vendorModel :: string
  pe_trust01 :: real
  pe_health :: peer_health
  pe_battery01 :: real
  pe_heartbeatIntervalMs :: int
  pe_latencyBiasMs :: int
  pe_lossSensitivity01 :: real
  pe_localAutonomy01 :: real
  pe_queueDepth :: real
  pe_relayScore01 :: real
  pe_lastNeighbors :: "ident list"
  pe_knownPeers :: "ident list"
  pe_reachablePeers :: "ident list"
  pe_suspectedPeers :: "ident list"
  pe_stalePeers :: "ident list"
  pe_newlyDiscovered :: "ident list"
  pe_missionNote :: string
  pe_partitionId :: string
  pe_recovery :: recovery_phase
  pe_byzantineLike01 :: real

type_synonym mesh_peers = "(ident, mesh_peer) jsmap"

record mesh_handoff =
  mh_peerId :: ident
  mh_from :: mesh_role
  mh_to :: mesh_role
  mh_reason :: string
  mh_atMs :: timestamp

record mesh_allocation =
  al_taskId :: ident
  al_winnerId :: ident
  al_score :: real
  al_reasons :: "string list"
  al_fallbacks :: "ident list"
  al_atMs :: timestamp

subsection \<open>Peer profiles\<close>

record profile_template =
  tp_kind :: node_kind
  tp_meshRole :: mesh_role
  tp_mapsToSwarmRole :: mission_node_role
  tp_vendorModel :: string
  tp_heartbeatMs :: int
  tp_latencyBiasMs :: int
  tp_lossSensitivity01 :: real
  tp_autonomy01 :: real
  tp_relay01 :: real
  tp_byzantineLike01 :: real

definition PEER_TEMPLATES :: "profile_template list" where
  "PEER_TEMPLATES =
     [\<lparr> tp_kind = NkScoutDrone, tp_meshRole = MxExplorer, tp_mapsToSwarmRole = MrExplorer, tp_vendorModel = ''LatticeSense / Scout-X'',
        tp_heartbeatMs = 420, tp_latencyBiasMs = 12, tp_lossSensitivity01 = 35 / 100, tp_autonomy01 = 82 / 100, tp_relay01 = 22 / 100,
        tp_byzantineLike01 = 1 / 100 \<rparr>,
      \<lparr> tp_kind = NkRelayDrone, tp_meshRole = MxRelay, tp_mapsToSwarmRole = MrRelay, tp_vendorModel = ''Meshworks / Relay-H2'',
        tp_heartbeatMs = 300, tp_latencyBiasMs = 6, tp_lossSensitivity01 = 18 / 100, tp_autonomy01 = 55 / 100, tp_relay01 = 95 / 100,
        tp_byzantineLike01 = 0 \<rparr>,
      \<lparr> tp_kind = NkIndoorRobot, tp_meshRole = MxSensor, tp_mapsToSwarmRole = MrExplorer, tp_vendorModel = ''SubTerra / UGV-7'',
        tp_heartbeatMs = 650, tp_latencyBiasMs = 25, tp_lossSensitivity01 = 42 / 100, tp_autonomy01 = 74 / 100, tp_relay01 = 18 / 100,
        tp_byzantineLike01 = 0 \<rparr>,
      \<lparr> tp_kind = NkRescueRobot, tp_meshRole = MxRescuer, tp_mapsToSwarmRole = MrCarrier, tp_vendorModel = ''HeavyLift / HL-Rescue'',
        tp_heartbeatMs = 520, tp_latencyBiasMs = 18, tp_lossSensitivity01 = 30 / 100, tp_autonomy01 = 70 / 100, tp_relay01 = 28 / 100,
        tp_byzantineLike01 = 0 \<rparr>,
      \<lparr> tp_kind = NkCoordinatorNode, tp_meshRole = MxCoordinator, tp_mapsToSwarmRole = MrObserver, tp_vendorModel = ''VertexEdge / Coord-1'',
        tp_heartbeatMs = 280, tp_latencyBiasMs = 4, tp_lossSensitivity01 = 20 / 100, tp_autonomy01 = 45 / 100, tp_relay01 = 62 / 100,
        tp_byzantineLike01 = 2 / 100 \<rparr>,
      \<lparr> tp_kind = NkBackupRelay, tp_meshRole = MxStandby, tp_mapsToSwarmRole = MrRelay, tp_vendorModel = ''Meshworks / Relay-Lite'',
        tp_heartbeatMs = 360, tp_latencyBiasMs = 10, tp_lossSensitivity01 = 24 / 100, tp_autonomy01 = 58 / 100, tp_relay01 = 78 / 100,
        tp_byzantineLike01 = 0 \<rparr>,
      \<lparr> tp_kind = NkSensorNode, tp_meshRole = MxSensor, tp_mapsToSwarmRole = MrObserver, tp_vendorModel = ''ArcIoT / SensePod'',
        tp_heartbeatMs = 900, tp_latencyBiasMs = 40, tp_lossSensitivity01 = 50 / 100, tp_autonomy01 = 88 / 100, tp_relay01 = 12 / 100,
        tp_byzantineLike01 = 0 \<rparr>,
      \<lparr> tp_kind = NkTransportNode, tp_meshRole = MxTransport, tp_mapsToSwarmRole = MrCarrier, tp_vendorModel = ''CargoHop / T-12'',
        tp_heartbeatMs = 580, tp_latencyBiasMs = 22, tp_lossSensitivity01 = 33 / 100, tp_autonomy01 = 66 / 100, tp_relay01 = 35 / 100,
        tp_byzantineLike01 = 0 \<rparr>]"

definition templateForIndex :: "nat \<Rightarrow> profile_template" where
  "templateForIndex i = PEER_TEMPLATES ! (i mod length PEER_TEMPLATES)"

fun mapSwarmRoleToMeshRole :: "mission_node_role \<Rightarrow> mesh_role" where
  "mapSwarmRoleToMeshRole MrExplorer = MxExplorer"
| "mapSwarmRoleToMeshRole MrRelay = MxRelay"
| "mapSwarmRoleToMeshRole MrCarrier = MxTransport"
| "mapSwarmRoleToMeshRole MrMedic = MxTriage"
| "mapSwarmRoleToMeshRole MrObserver = MxSensor"
| "mapSwarmRoleToMeshRole (MrCast v) = MxExplorer"

text \<open>The eight draws of a profile, in the order of the fields: trust, battery, heartbeat, latency, sensitivity, queue, relay, byzantine.\<close>

definition enrichPeerFromNode :: "swarm_agent \<Rightarrow> nat \<Rightarrow> (nat \<Rightarrow> real) \<Rightarrow> nat \<Rightarrow> mesh_peer" where
  "enrichPeerFromNode node index rng k =
     (let tpl = templateForIndex index; jitter = (\<lambda>i. (rng i - 1 / 2) * (6 / 100))
      in \<lparr> pe_peerId = sw_nodeId node, pe_displayName = sw_displayName node, pe_nodeKind = tp_kind tpl,
           pe_meshRole = (if tp_mapsToSwarmRole tpl = sw_role node then tp_meshRole tpl else mapSwarmRoleToMeshRole (sw_role node)),
           pe_vendorModel = tp_vendorModel tpl, pe_trust01 = clamp01 (sw_trust01 node + jitter k),
           pe_health = (if sw_offline node = Some True then PhOffline else if sw_healthStatus node = Some AgentDegraded then PhDegraded else PhOk),
           pe_battery01 = clamp01 (62 / 100 + rng (k + 1) * (35 / 100)),
           pe_heartbeatIntervalMs = tp_heartbeatMs tpl + \<lfloor>rng (k + 2) * 120 - 60\<rfloor>,
           pe_latencyBiasMs = tp_latencyBiasMs tpl + \<lfloor>rng (k + 3) * 18\<rfloor>,
           pe_lossSensitivity01 = clamp01 (tp_lossSensitivity01 tpl + jitter (k + 4)),
           pe_localAutonomy01 = clamp01 (tp_autonomy01 tpl + (if str_includes (policy_str (sw_autonomyPolicy node)) ''scout'' then 6 / 100 else 0)),
           pe_queueDepth = of_int \<lfloor>rng (k + 5) * 6\<rfloor>,
           pe_relayScore01 = clamp01 (tp_relay01 tpl + (if sw_role node = MrRelay then 12 / 100 else 0) + jitter (k + 6)),
           pe_lastNeighbors = [], pe_knownPeers = [sw_nodeId node], pe_reachablePeers = [sw_nodeId node], pe_suspectedPeers = [],
           pe_stalePeers = [], pe_newlyDiscovered = [], pe_missionNote = ''local_autonomy_ready'', pe_partitionId = ''p0'',
           pe_recovery = RpSteady, pe_byzantineLike01 = clamp01 (tp_byzantineLike01 tpl + rng (k + 7) * (2 / 100)) \<rparr>)"

definition createProfileRng :: "int \<Rightarrow> nat \<Rightarrow> real" where
  "createProfileRng seed = mulberry32 (uint (word_of_int seed XOR 0xCAFE :: 32 word))"

subsection \<open>Discovery\<close>

text \<open>The first loop: learn some of the neighbours. The state holds the known peers, the new ones and the number of draws.\<close>

type_synonym learning = "ident list \<times> ident list \<times> nat"

definition learn_neighbor :: "(nat \<Rightarrow> real) \<Rightarrow> real \<Rightarrow> ident \<Rightarrow> learning \<Rightarrow> ident \<Rightarrow> learning" where
  "learn_neighbor rng delayPenalty i l n =
     (let (known, newly, k) = l
      in if n = i then l
         else if rng k > 55 / 100 - delayPenalty * (25 / 100) then (known, newly, k + 1)
         else (set_add n known, if n \<in> set known then newly else newly @ [n], k + 1))"

text \<open>The second hop, over the neighbours of each neighbour.\<close>

definition learn_second :: "(nat \<Rightarrow> real) \<Rightarrow> real \<Rightarrow> ident \<Rightarrow> ident list \<times> nat \<Rightarrow> ident \<Rightarrow> ident list \<times> nat" where
  "learn_second rng retransmit i l m =
     (let (known, k) = l
      in if m = i then l else (if rng k < 8 / 100 + retransmit * (1 / 10) then set_add m known else known, k + 1))"

definition reach_neighbor :: "(nat \<Rightarrow> real) \<Rightarrow> real \<Rightarrow> ident list \<Rightarrow> ident \<Rightarrow> ident list \<times> nat \<Rightarrow> ident \<Rightarrow> ident list \<times> nat" where
  "reach_neighbor rng loss01 operatorReachable i l n =
     (let (reach, k) = l; r1 = (if n \<in> set operatorReachable \<or> i \<in> set operatorReachable then set_add n reach else reach)
      in (if rng k < 1 - loss01 * (4 / 10) then set_add n r1 else r1, k + 1))"

text \<open>\<open>filter\<close> with a draw for each element\<close>

fun draw_filter :: "(nat \<Rightarrow> real) \<Rightarrow> real \<Rightarrow> nat \<Rightarrow> 'a list \<Rightarrow> 'a list" where
  "draw_filter rng bound k [] = []"
| "draw_filter rng bound k (x # xs) = (if rng k < bound then x # draw_filter rng bound (k + 1) xs else draw_filter rng bound (k + 1) xs)"

definition delay_penalty :: "network_vector \<Rightarrow> real" where
  "delay_penalty v = clamp01 (15 / 100 + nv_loss01 v * (5 / 10) + nv_routeInstability01 v * (25 / 100))"

definition discover_peer :: "connectivity_snapshot \<Rightarrow> network_vector \<Rightarrow> (nat \<Rightarrow> real) \<Rightarrow> ident \<Rightarrow> mesh_peer \<Rightarrow> nat \<Rightarrow> mesh_peer \<times> nat" where
  "discover_peer snap v rng i p k =
     (if pe_health p = PhOffline then (p, k)
      else
        (let nbrs = neighborsOf i snap;
             (known1, newly, k1) = foldl (learn_neighbor rng (delay_penalty v) i) (dedup (pe_knownPeers p), pe_newlyDiscovered p, k) nbrs;
             strong = (pe_relayScore01 p > 55 / 100);
             (known2, k2) = (if strong \<and> rng k1 < 18 / 100 + pe_relayScore01 p * (12 / 100)
               then foldl (learn_second rng (nv_retransmitPressure01 v) i) (known1, k1 + 1) (concat (map (\<lambda>n. neighborsOf n snap) nbrs))
               else (known1, if strong then k1 + 1 else k1));
             (reach, k3) = foldl (reach_neighbor rng (nv_loss01 v) (cs_operatorReachable snap) i) ([i], k2) nbrs;
             suspected = draw_filter rng (nv_staleDelivery01 v + 4 / 100) k3 nbrs;
             k4 = k3 + length nbrs
         in (p\<lparr> pe_lastNeighbors := nbrs, pe_knownPeers := known2, pe_reachablePeers := reach, pe_suspectedPeers := suspected,
                pe_stalePeers := draw_filter rng (35 / 100) k4 suspected, pe_newlyDiscovered := slice_tail 6 newly \<rparr>, k4 + length suspected)))"

definition advance_peer :: "connectivity_snapshot \<Rightarrow> network_vector \<Rightarrow> (nat \<Rightarrow> real) \<Rightarrow> mesh_peers \<times> nat \<Rightarrow> ident \<times> mesh_peer \<Rightarrow> mesh_peers \<times> nat" where
  "advance_peer snap v rng acc ip =
     (let (ps, k) = acc; (p, k') = discover_peer snap v rng (fst ip) (snd ip) k in (ps @ [(fst ip, p)], k'))"

definition advanceDiscovery :: "mesh_peers \<Rightarrow> connectivity_snapshot \<Rightarrow> network_vector \<Rightarrow> (nat \<Rightarrow> real) \<Rightarrow> nat \<Rightarrow> mesh_peers \<times> nat" where
  "advanceDiscovery peers snap v rng k = foldl (advance_peer snap v rng) ([], k) peers"

subsection \<open>Partitions\<close>

definition snapshot_partitioned :: "connectivity_snapshot \<Rightarrow> bool" where
  "snapshot_partitioned snap \<longleftrightarrow> length (cs_partitionClusters snap) > 1"

definition labelForPeer :: "ident \<Rightarrow> connectivity_snapshot \<Rightarrow> string" where
  "labelForPeer i snap = (case cluster_index (cs_partitionClusters snap) i of None \<Rightarrow> ''P?'' | Some idx \<Rightarrow> CHR ''P'' # show_nat idx)"

definition apply_partition :: "connectivity_snapshot \<Rightarrow> ident \<Rightarrow> mesh_peer \<Rightarrow> mesh_peer" where
  "apply_partition snap i p =
     (let q = p\<lparr> pe_partitionId := labelForPeer i snap \<rparr>; seen = (i \<in> set (cs_operatorReachable snap))
      in if \<not> seen \<and> pe_health q \<noteq> PhOffline then q\<lparr> pe_health := PhIsolated, pe_recovery := RpBuffering \<rparr>
         else if pe_health q = PhIsolated \<and> seen then q\<lparr> pe_health := PhRecovering, pe_recovery := RpReconciling \<rparr>
         else q)"

definition applyToPeers :: "connectivity_snapshot \<Rightarrow> mesh_peers \<Rightarrow> mesh_peers" where
  "applyToPeers snap peers = map (\<lambda>ip. (fst ip, apply_partition snap (fst ip) (snd ip))) peers"

subsection \<open>Role handoffs\<close>

definition is_live_relay :: "mesh_peer \<Rightarrow> bool" where
  "is_live_relay p \<longleftrightarrow> pe_meshRole p = MxRelay \<and> pe_health p \<noteq> PhOffline"

definition under_partition :: "stress_mode \<Rightarrow> bool" where
  "under_partition stress \<longleftrightarrow> stress = NsPartitioned \<or> stress = NsOffline"

definition coordinator_handoff :: "mesh_peer list \<Rightarrow> (nat \<Rightarrow> real) \<Rightarrow> timestamp \<Rightarrow> mesh_peer \<Rightarrow> nat \<Rightarrow> mesh_handoff list \<times> nat" where
  "coordinator_handoff peers rng now p k =
     (if pe_health p = PhIsolated \<and> pe_meshRole p = MxCoordinator
      then (case List.find (\<lambda>x. pe_meshRole x = MxStandby \<and> pe_health x = PhOk) peers of
              None \<Rightarrow> ([], k)
            | Some standby \<Rightarrow>
                (if rng k < 55 / 100
                 then [\<lparr> mh_peerId = pe_peerId standby, mh_from = pe_meshRole standby, mh_to = MxCoordinator,
                         mh_reason = ''coordinator_isolated'', mh_atMs = now \<rparr>] else [], k + 1))
      else ([], k))"

definition explorer_handoff :: "stress_mode \<Rightarrow> (nat \<Rightarrow> real) \<Rightarrow> timestamp \<Rightarrow> mesh_peer \<Rightarrow> nat \<Rightarrow> mesh_handoff list \<times> nat" where
  "explorer_handoff stress rng now p k =
     (if under_partition stress \<and> pe_meshRole p = MxExplorer \<and> pe_health p = PhIsolated
      then (if rng k < 35 / 100
            then [\<lparr> mh_peerId = pe_peerId p, mh_from = pe_meshRole p, mh_to = MxEmergency,
                    mh_reason = ''local_leadership_under_partition'', mh_atMs = now \<rparr>] else [], k + 1)
      else ([], k))"

definition relay_handoff :: "mesh_peer list \<Rightarrow> timestamp \<Rightarrow> mesh_peer \<Rightarrow> mesh_handoff list" where
  "relay_handoff peers now p =
     (if pe_meshRole p = MxRelay \<and> pe_health p = PhOffline \<and> length (filter is_live_relay peers) > 1
      then (case List.find (\<lambda>x. pe_meshRole x = MxStandby) peers of
              None \<Rightarrow> []
            | Some backup \<Rightarrow> [\<lparr> mh_peerId = pe_peerId backup, mh_from = pe_meshRole backup, mh_to = MxRelay,
                               mh_reason = ''relay_unavailable'', mh_atMs = now \<rparr>])
      else [])"

definition evaluate_peer :: "mesh_peer list \<Rightarrow> stress_mode \<Rightarrow> (nat \<Rightarrow> real) \<Rightarrow> timestamp \<Rightarrow> mesh_handoff list \<times> nat \<Rightarrow> mesh_peer \<Rightarrow> mesh_handoff list \<times> nat" where
  "evaluate_peer peers stress rng now acc p =
     (let (out, k) = acc; (hs1, k1) = coordinator_handoff peers rng now p k; (hs2, k2) = explorer_handoff stress rng now p k1
      in (out @ hs1 @ hs2 @ relay_handoff peers now p, k2))"

definition evaluateMeshHandoffs :: "mesh_peer list \<Rightarrow> stress_mode \<Rightarrow> (nat \<Rightarrow> real) \<Rightarrow> timestamp \<Rightarrow> nat \<Rightarrow> mesh_handoff list \<times> nat" where
  "evaluateMeshHandoffs peers stress rng now k = foldl (evaluate_peer peers stress rng now) ([], k) peers"

definition apply_mesh_handoff :: "mesh_role \<Rightarrow> mesh_peer \<Rightarrow> mesh_peer" where
  "apply_mesh_handoff to_role p = p\<lparr> pe_meshRole := to_role \<rparr>"

subsection \<open>Task allocation\<close>

record mesh_task =
  mt_taskId :: ident
  mt_kind :: string
  mt_prefersRelay :: bool
  mt_scenarioHint :: string

definition mesh_role_fit :: "mesh_task \<Rightarrow> mesh_peer \<Rightarrow> real" where
  "mesh_role_fit task p =
     (if mt_prefersRelay task \<and> pe_meshRole p = MxRelay then 34 / 100
      else if str_includes (mt_kind task) ''rescue'' \<and> pe_meshRole p = MxRescuer then 32 / 100
      else if str_includes (mt_kind task) ''scout'' \<and> pe_meshRole p = MxExplorer then 28 / 100
      else 12 / 100)"

definition mesh_capability :: "mesh_peer \<Rightarrow> real" where
  "mesh_capability p =
     (if str_includes (node_kind_str (pe_nodeKind p)) ''relay'' then 12 / 100
      else if str_includes (node_kind_str (pe_nodeKind p)) ''sensor'' then 8 / 100 else 6 / 100)"

text \<open>\<open>fx 2 x\<close> is \<open>x.toFixed(2)\<close>.\<close>

definition scorePeerForTask :: "(nat \<Rightarrow> real \<Rightarrow> string) \<Rightarrow> mesh_peer \<Rightarrow> mesh_task \<Rightarrow> stress_mode \<Rightarrow> real \<times> string list" where
  "scorePeerForTask fx p task stress =
     (let roleFit = mesh_role_fit task p; cap = mesh_capability p; conn = clamp01 (real (length (pe_reachablePeers p)) / 6);
          loadPenalty = clamp01 (pe_queueDepth p / 10) * (12 / 100); boost = under_partition stress;
          latTol = clamp01 (1 - of_int (pe_latencyBiasMs p) / 400);
          fits = (mt_scenarioHint task \<noteq> [] \<and> str_includes (pe_missionNote p) (mt_scenarioHint task))
      in (2 / 10 + roleFit + cap + pe_battery01 p * (18 / 100) + conn * (14 / 100)
            + pe_relayScore01 p * (if mt_prefersRelay task then 22 / 100 else 8 / 100) + pe_trust01 p * (12 / 100) - loadPenalty
            + (if boost then pe_localAutonomy01 p * (16 / 100) else 0) + latTol * (6 / 100) + (if fits then 5 / 100 else 0),
          [''role_fit='' @ fx 2 roleFit, ''capability='' @ fx 2 cap, ''battery='' @ fx 2 (pe_battery01 p), ''connectivity='' @ fx 2 conn,
           ''relay='' @ fx 2 (pe_relayScore01 p), ''trust='' @ fx 2 (pe_trust01 p), ''load_pen='' @ fx 2 loadPenalty]
          @ (if boost then [''autonomy_boost='' @ fx 2 (pe_localAutonomy01 p)] else [])
          @ [''latency_tol='' @ fx 2 latTol] @ (if fits then [''scenario_fit''] else [])))"

definition rank_peers :: "(nat \<Rightarrow> real \<Rightarrow> string) \<Rightarrow> mesh_task \<Rightarrow> mesh_peer list \<Rightarrow> stress_mode \<Rightarrow> (mesh_peer \<times> real \<times> string list) list" where
  "rank_peers fx task peers stress =
     js_sort (by_desc (\<lambda>r. fst (snd r)))
       (map (\<lambda>p. (p, scorePeerForTask fx p task stress)) (filter (\<lambda>p. pe_health p \<noteq> PhOffline) peers))"

definition allocateTask :: "(nat \<Rightarrow> real \<Rightarrow> string) \<Rightarrow> mesh_task \<Rightarrow> mesh_peer list \<Rightarrow> stress_mode \<Rightarrow> timestamp \<Rightarrow> mesh_allocation option" where
  "allocateTask fx task peers stress now =
     (case rank_peers fx task peers stress of
        [] \<Rightarrow> None
      | (p, score, reasons) # rest \<Rightarrow>
          Some \<lparr> al_taskId = mt_taskId task, al_winnerId = pe_peerId p, al_score = score, al_reasons = reasons,
                 al_fallbacks = map (\<lambda>r. pe_peerId (fst r)) (take 2 rest), al_atMs = now \<rparr>)"

text \<open>The serial number is a variable of the module, shared by all simulators; it is the second argument.\<close>

definition nextMockMeshTask :: "bool \<Rightarrow> nat \<Rightarrow> mesh_task \<times> nat" where
  "nextMockMeshTask prefersRelay serial =
     (let kinds = [''scout_sector'', ''relay_extension'', ''rescue_lift'', ''sensor_sweep'']
      in (\<lparr> mt_taskId = ''mesh-task-'' @ show_nat serial, mt_kind = kinds ! ((serial + (if prefersRelay then 1 else 0)) mod length kinds),
            mt_prefersRelay = prefersRelay, mt_scenarioHint = ''local_autonomy_ready'' \<rparr>, serial + 1))"

subsection \<open>Stress injection\<close>

record stress_injector =
  sj_controller :: network_controller
  sj_manualPartition :: bool

definition createMeshStressInjector :: "stress_mode \<Rightarrow> stress_injector" where
  "createMeshStressInjector initial = \<lparr> sj_controller = new_network_controller initial, sj_manualPartition = False \<rparr>"

definition inject_packet_loss :: "real \<Rightarrow> stress_injector \<Rightarrow> stress_injector" where
  "inject_packet_loss d j = j\<lparr> sj_controller := injectLoss d (sj_controller j) \<rparr>"

definition inject_latency :: "real \<Rightarrow> stress_injector \<Rightarrow> stress_injector" where
  "inject_latency d j = j\<lparr> sj_controller := injectLatency d (sj_controller j) \<rparr>"

definition toggleManualPartition :: "bool \<Rightarrow> stress_injector \<Rightarrow> stress_injector" where
  "toggleManualPartition active j = j\<lparr> sj_manualPartition := active \<rparr>"

definition reset_injector :: "stress_injector \<Rightarrow> stress_injector" where
  "reset_injector j = j\<lparr> sj_manualPartition := False, sj_controller := resetManual (sj_controller j) \<rparr>"

subsection \<open>The replay narrative\<close>

datatype narrative_severity = NvInfo | NvWarn | NvCritical

record narrative_entry =
  ny_atMs :: timestamp
  ny_label :: string
  ny_detail :: string
  ny_severity :: narrative_severity

text \<open>\<open>String(payload[key] ?? other)\<close>\<close>

definition event_payload_text :: "(real \<Rightarrow> string) \<Rightarrow> mesh_event \<Rightarrow> string \<Rightarrow> string \<Rightarrow> string" where
  "event_payload_text ns e key other =
     (case js_get (mv_payload e) key of None \<Rightarrow> other | Some v \<Rightarrow> if v = JNull then other else js_string ns v)"

definition narrate :: "(real \<Rightarrow> string) \<Rightarrow> mesh_event \<Rightarrow> narrative_entry option" where
  "narrate ns e =
     (let entry = (\<lambda>label detail sev. Some \<lparr> ny_atMs = mv_timestamp e, ny_label = label, ny_detail = detail, ny_severity = sev \<rparr>)
      in case mv_eventType e of
           MePeerDiscovered \<Rightarrow> entry ''Lattice discovery'' (''Peer '' @ event_payload_text ns e ''peerId'' (mv_actorPeerId e) @ '' seen via mesh'') NvInfo
         | MePacketLossSim \<Rightarrow> entry ''Packet loss'' (event_payload_text ns e ''note'' ''synthetic loss'') NvWarn
         | MeDelaySpike \<Rightarrow> entry ''Latency spike'' (''+'' @ event_payload_text ns e ''deltaMs'' ''?'' @ '' ms effective'') NvWarn
         | MePartitionStart \<Rightarrow> entry ''Partition'' ''Subgroups diverged'' NvCritical
         | MePartitionEnd \<Rightarrow> entry ''Partition healed'' ''Mesh routes restabilized'' NvInfo
         | MeConsensusCommitted \<Rightarrow> entry ''Proof-of-Coordination'' (''Committed '' @ event_payload_text ns e ''proposalId'' []) NvInfo
         | MeRecoverySync \<Rightarrow> entry ''Recovery sync'' ''Buffered state reconciled'' NvInfo
         | _ \<Rightarrow> None)"

definition buildReplayNarrative :: "(real \<Rightarrow> string) \<Rightarrow> mesh_event list \<Rightarrow> narrative_entry list" where
  "buildReplayNarrative ns evs = slice_tail 120 (List.map_filter (narrate ns) evs)"


subsection \<open>What a peer learns and who gets a task\<close>

definition graph_members :: "connectivity_snapshot \<Rightarrow> ident set" where
  "graph_members snap = ge_a ` set (cs_edges snap) \<union> ge_b ` set (cs_edges snap)"

lemma neighbors_members: "set (neighborsOf i snap) \<subseteq> graph_members snap"
  by (auto simp: neighborsOf_def graph_members_def map_filter_def split: if_splits)

lemma learn_fold:
  assumes "set nbrs \<subseteq> A" "set known \<subseteq> K \<union> A" "set newly \<subseteq> N \<union> A"
  shows "(let (known', newly', k') = foldl (learn_neighbor rng d i) (known, newly, k) nbrs in set known' \<subseteq> K \<union> A \<and> set newly' \<subseteq> N \<union> A)"
  using assms by (induction nbrs arbitrary: known newly k) (auto simp: learn_neighbor_def Let_def)

lemma second_fold:
  assumes "set ms \<subseteq> A" "set known \<subseteq> B \<union> A" shows "set (fst (foldl (learn_second rng r i) (known, k) ms)) \<subseteq> B \<union> A"
  using assms by (induction ms arbitrary: known k) (auto simp: learn_second_def Let_def)

lemma second_members: "set (concat (map (\<lambda>n. neighborsOf n snap) ns)) \<subseteq> graph_members snap"
  using neighbors_members by fastforce

text \<open>
  A discovery step only teaches a peer members of the connectivity graph, lists at most six of them as new, and leaves a peer that is offline as it was.
\<close>

theorem discovery_learns_members:
  "(let q = fst (discover_peer snap v rng i p k)
    in if pe_health p = PhOffline then q = p
       else set (pe_knownPeers q) \<subseteq> set (pe_knownPeers p) \<union> graph_members snap
         \<and> set (pe_newlyDiscovered q) \<subseteq> set (pe_newlyDiscovered p) \<union> graph_members snap
         \<and> length (pe_newlyDiscovered q) \<le> 6)"
proof (cases "pe_health p = PhOffline")
  case True
  then show ?thesis by (simp add: discover_peer_def)
next
  case False
  let ?nbrs = "neighborsOf i snap"
  let ?q = "fst (discover_peer snap v rng i p k)"
  obtain known newly k1 where l: "foldl (learn_neighbor rng (delay_penalty v) i) (dedup (pe_knownPeers p), pe_newlyDiscovered p, k) ?nbrs = (known, newly, k1)"
    by (metis prod_cases3)
  have learnt: "set known \<subseteq> set (pe_knownPeers p) \<union> graph_members snap" "set newly \<subseteq> set (pe_newlyDiscovered p) \<union> graph_members snap"
    using learn_fold [OF neighbors_members [of i snap], of "dedup (pe_knownPeers p)" "set (pe_knownPeers p)" "pe_newlyDiscovered p"
        "set (pe_newlyDiscovered p)" rng "delay_penalty v" i k]
    by (auto simp: l)
  have new: "pe_newlyDiscovered ?q = slice_tail 6 newly" using False by (simp add: discover_peer_def Let_def split_beta l)
  have "pe_knownPeers ?q = known
      \<or> pe_knownPeers ?q = fst (foldl (learn_second rng (nv_retransmitPressure01 v) i) (known, k1 + 1) (concat (map (\<lambda>n. neighborsOf n snap) ?nbrs)))"
    using False by (simp add: discover_peer_def Let_def split_beta l)
  then have "set (pe_knownPeers ?q) \<subseteq> set (pe_knownPeers p) \<union> graph_members snap"
    using learnt(1) second_fold [OF second_members learnt(1)] by metis
  moreover have "set (slice_tail 6 newly) \<subseteq> set newly" "length (slice_tail 6 newly) \<le> 6" by (auto simp: slice_tail_def dest: in_set_dropD)
  ultimately show ?thesis using False learnt(2) by (simp add: Let_def new)
qed

lemma rank_peers_head:
  assumes "rank_peers fx task peers stress = (p, score, reasons) # rest"
  shows "p \<in> set (filter (\<lambda>p. pe_health p \<noteq> PhOffline) peers) \<and> (score, reasons) = scorePeerForTask fx p task stress
    \<and> list_all (\<lambda>q. fst (scorePeerForTask fx q task stress) \<le> score) (filter (\<lambda>p. pe_health p \<noteq> PhOffline) peers)"
proof -
  let ?alive = "filter (\<lambda>p. pe_health p \<noteq> PhOffline) peers" let ?f = "\<lambda>p. (p, scorePeerForTask fx p task stress)"
  note head = descending.js_sort_head_least [OF assms [unfolded rank_peers_def]]
  have "fst (scorePeerForTask fx q task stress) \<le> score" if "q \<in> set ?alive" for q
    using conjunct2 [OF head, rule_format, of "?f q"] that by (simp add: by_desc_def not_less)
  moreover have "p \<in> set ?alive" "(score, reasons) = scorePeerForTask fx p task stress" using conjunct1 [OF head] by auto
  ultimately show ?thesis unfolding list_all_iff by blast
qed

text \<open>
  A task goes to no one exactly when every peer is offline; otherwise to a peer that is not offline and has the highest score of those,
  with the score recorded, and the one or two peers next in the ranking stand by.
\<close>

theorem task_goes_to_best:
  "(let alive = filter (\<lambda>p. pe_health p \<noteq> PhOffline) peers; score = (\<lambda>p. fst (scorePeerForTask fx p task stress))
    in case allocateTask fx task peers stress now of
         None \<Rightarrow> alive = []
       | Some r \<Rightarrow> list_ex (\<lambda>p. pe_peerId p = al_winnerId r \<and> score p = al_score r) alive \<and> list_all (\<lambda>q. score q \<le> al_score r) alive
           \<and> take 3 (map (\<lambda>x. pe_peerId (fst x)) (rank_peers fx task peers stress)) = al_winnerId r # al_fallbacks r)"
proof (cases "rank_peers fx task peers stress")
  case Nil
  then have "filter (\<lambda>p. pe_health p \<noteq> PhOffline) peers = []" by (simp add: rank_peers_def)
  with Nil show ?thesis by (simp add: allocateTask_def)
next
  case (Cons x rest)
  obtain p score reasons where x: "x = (p, score, reasons)" by (cases x)
  have head: "scorePeerForTask fx p task stress = (score, reasons)" "p \<in> set (filter (\<lambda>p. pe_health p \<noteq> PhOffline) peers)"
    "list_all (\<lambda>q. fst (scorePeerForTask fx q task stress) \<le> score) (filter (\<lambda>p. pe_health p \<noteq> PhOffline) peers)"
    using rank_peers_head [OF Cons [unfolded x]] by simp_all
  have "list_ex (\<lambda>q. pe_peerId q = pe_peerId p \<and> fst (scorePeerForTask fx q task stress) = score) (filter (\<lambda>p. pe_health p \<noteq> PhOffline) peers)"
    unfolding list_ex_iff using head(1,2) by (intro bexI [of _ p]) simp_all
  then show ?thesis using head(3) by (simp add: Let_def allocateTask_def Cons x take_map)
qed

end
