(* ===== verification/MeshSimulator.thy ===== *)
theory MeshSimulator
  imports MeshPeers
begin

section \<open>The mesh resilience simulator\<close>

text \<open>
  Models \<open>src/src/vertex2/meshResilienceSimulator.ts\<close>: the record \<open>mesh_sim\<close> holds the fields of the class and
  the serial number of \<open>mockMissionFactory.ts\<close>, \<open>mesh_env\<close> hash, texts and generator, \<open>mesh_ctx\<close> the argument of \<open>step\<close>. Every append of a step is
  awaited, so the rows follow each other; the next step starts when the step before it has returned. A delivery time is a
  real number in the code and is compared with integer times only, so the queue holds it rounded up, which no comparison can tell apart.
  The lemmas show that the ledger always verifies, when the consensus stalls for good, and what
  becomes of the votes that a blackout buffers.
\<close>

record vote_payload =
  vo_proposalId :: ident
  vo_peerId :: ident
  vo_yes :: bool

record mesh_stats =
  mst_deliveredVotes :: nat
  mst_droppedVotes :: nat
  mst_delayedDeliveries :: nat
  mst_duplicates :: nat
  mst_bufferedWhileOffline :: nat
  mst_reroutes :: nat

record mesh_env =
  men_H :: "string \<Rightarrow> string"
  men_ns :: "real \<Rightarrow> string"
  men_fx :: "nat \<Rightarrow> real \<Rightarrow> string"
  men_rng :: "nat \<Rightarrow> real"

record mesh_ctx =
  mcx_missionId :: ident
  mcx_nowMs :: timestamp
  mcx_seed :: int
  mcx_tickIndex :: nat
  mcx_connectivityMode :: connectivity_mode
  mcx_graph :: connectivity_snapshot
  mcx_nodes :: "swarm_agent list"
  mcx_operatorNodeId :: ident
  mcx_telemetryQueueByNode :: "(ident, real) jsmap option"
  mcx_live :: bool

record mesh_sim =
  msm_ledger :: mesh_ledger
  msm_consensus :: consensus_engine
  msm_partitioned :: bool
  msm_recovery :: op_buffers
  msm_checkpoints :: "ident list"
  msm_injector :: stress_injector
  msm_voteQueue :: "vote_payload retry_queue"
  msm_draws :: nat
  msm_stats :: mesh_stats
  msm_taskHistory :: "mesh_allocation list"
  msm_roleHistory :: "mesh_handoff list"
  msm_discoveryPulse :: nat
  msm_lastStress :: stress_mode
  msm_partitionWasActive :: bool
  msm_taskSerial :: nat

definition new_mesh_ledger :: mesh_ledger where
  "new_mesh_ledger = \<lparr> mg_events = [], mg_serial = 1 \<rparr>"

definition new_mesh_sim :: "nat \<Rightarrow> mesh_sim" where
  "new_mesh_sim serial =
     \<lparr> msm_ledger = new_mesh_ledger, msm_consensus = new_consensus, msm_partitioned = False, msm_recovery = [], msm_checkpoints = [],
       msm_injector = createMeshStressInjector NsNormal, msm_voteQueue = new_retry_queue, msm_draws = 0,
       msm_stats = \<lparr> mst_deliveredVotes = 0, mst_droppedVotes = 0, mst_delayedDeliveries = 0, mst_duplicates = 0,
         mst_bufferedWhileOffline = 0, mst_reroutes = 0 \<rparr>,
       msm_taskHistory = [], msm_roleHistory = [], msm_discoveryPulse = 0, msm_lastStress = NsNormal, msm_partitionWasActive = False,
       msm_taskSerial = serial \<rparr>"

definition mesh_draw :: "mesh_env \<Rightarrow> mesh_sim \<Rightarrow> real" where
  "mesh_draw env s = men_rng env (msm_draws s)"

definition mesh_drawn :: "nat \<Rightarrow> mesh_sim \<Rightarrow> mesh_sim" where
  "mesh_drawn n s = s\<lparr> msm_draws := msm_draws s + n \<rparr>"

definition tally :: "(mesh_stats \<Rightarrow> mesh_stats) \<Rightarrow> mesh_sim \<Rightarrow> mesh_sim" where
  "tally f s = s\<lparr> msm_stats := f (msm_stats s) \<rparr>"

text \<open>An awaited append of a row that follows the current tail.\<close>

definition mesh_log :: "mesh_env \<Rightarrow> mesh_ctx \<Rightarrow> ident \<Rightarrow> mesh_event_type \<Rightarrow> obj \<Rightarrow> source_label \<Rightarrow> mesh_sim \<Rightarrow> mesh_sim" where
  "mesh_log env cx actor kind payload label s =
     s\<lparr> msm_ledger := snd (append_mesh_event (men_H env) (men_ns env)
         \<lparr> mn_id = None, mn_timestamp = mcx_nowMs cx, mn_missionId = mcx_missionId cx, mn_actorPeerId = actor,
           mn_previousHash = mesh_tailHash (msm_ledger s), mn_eventType = kind, mn_payload = payload, mn_sourceLabel = label,
           mn_commitmentStatus = statusFor kind, mn_proofHint = None \<rparr> (msm_ledger s)) \<rparr>"

subsection \<open>Peers and clusters of a step\<close>

text \<open>\<open>swap\<close> puts the operator first when it sits in the second half.\<close>

definition syntheticClusters :: "ident list \<Rightarrow> ident \<Rightarrow> bool \<Rightarrow> ident list list" where
  "syntheticClusters nodeIds operatorId enabled =
     (if \<not> enabled \<or> length nodeIds < 4 then [nodeIds]
      else let a = map snd (filter (\<lambda>ix. even (fst ix)) (enumerate 0 nodeIds)); b = map snd (filter (\<lambda>ix. odd (fst ix)) (enumerate 0 nodeIds));
               swapIdx = length (takeWhile (\<lambda>i. i \<noteq> operatorId) b)
           in if operatorId \<notin> set a \<and> operatorId \<in> set b \<and> a ! 0 \<noteq> [] then [a[0 := operatorId], b[swapIdx := a ! 0]] else [a, b])"

definition queue_override :: "mesh_ctx \<Rightarrow> mesh_peer \<Rightarrow> mesh_peer" where
  "queue_override cx p =
     (case (case mcx_telemetryQueueByNode cx of None \<Rightarrow> None | Some m \<Rightarrow> js_get m (pe_peerId p)) of
        None \<Rightarrow> p | Some q \<Rightarrow> p\<lparr> pe_queueDepth := q \<rparr>)"

definition step_profiles :: "mesh_ctx \<Rightarrow> mesh_peers" where
  "step_profiles cx =
     (let rng = createProfileRng (uint (word_of_int (mcx_seed cx) XOR word_of_int (int (mcx_tickIndex cx)) :: 32 word))
      in foldl (\<lambda>m ix. js_put (sw_nodeId (snd ix)) (queue_override cx (enrichPeerFromNode (snd ix) (fst ix) rng (8 * fst ix))) m) []
           (enumerate 0 (mcx_nodes cx)))"

definition effectiveStressMode :: "mesh_ctx \<Rightarrow> mesh_sim \<Rightarrow> stress_mode \<times> mesh_sim" where
  "effectiveStressMode cx s =
     (let j = msm_injector s; c = setMode (stressModeFromVertex (mcx_connectivityMode cx)) (sj_controller j)
      in (nc_mode c, s\<lparr> msm_injector := j\<lparr> sj_controller := c \<rparr>, msm_lastStress := nc_mode c \<rparr>))"

definition step_peers :: "mesh_env \<Rightarrow> mesh_ctx \<Rightarrow> network_vector \<Rightarrow> mesh_sim \<Rightarrow> mesh_peers \<times> mesh_sim" where
  "step_peers env cx v s =
     (let (peers, k) = advanceDiscovery (applyToPeers (mcx_graph cx) (step_profiles cx)) (mcx_graph cx) v (men_rng env) (msm_draws s)
      in (peers, s\<lparr> msm_partitioned := snapshot_partitioned (mcx_graph cx), msm_draws := k \<rparr>))"

subsection \<open>Votes\<close>

text \<open>
  The drop test draws once for each due vote, in the order of the queue, so the draw of a vote is found by its place among
  the due ones; identifiers of a queue are distinct.
\<close>

definition due_place :: "timestamp \<Rightarrow> 'a retry_env list \<Rightarrow> 'a retry_env \<Rightarrow> nat" where
  "due_place now items e = length (takeWhile (\<lambda>x. re_id x \<noteq> re_id e) (filter (\<lambda>x. re_deliverAtMs x \<le> now) items))"

definition loss_chance :: "network_vector \<Rightarrow> mesh_peers \<Rightarrow> ident \<Rightarrow> real" where
  "loss_chance v peers i =
     (let sens = default_to (map_option pe_lossSensitivity01 (js_get peers i)) (3 / 10)
      in clamp01 (nv_loss01 v * (65 / 100 + sens * (5 / 10)) + nv_timeoutChance01 v * (25 / 100)))"

definition vote_policy :: "mesh_env \<Rightarrow> mesh_ctx \<Rightarrow> network_vector \<Rightarrow> mesh_peers \<Rightarrow> mesh_sim \<Rightarrow> vote_payload drain_policy" where
  "vote_policy env cx v peers s =
     \<lparr> dp_shouldDrop = (\<lambda>e. men_rng env (msm_draws s + due_place (mcx_nowMs cx) (rq_items (msm_voteQueue s)) e)
           < loss_chance v peers (vo_peerId (re_payload e))),
       dp_backoffMs = (\<lambda>e. 120 + int (re_attempts e) * 90 + \<lfloor>nv_ackDelayMs v * (35 / 100)\<rfloor>), dp_maxAttempts = 5 \<rparr>"

definition drain_votes :: "mesh_env \<Rightarrow> mesh_ctx \<Rightarrow> network_vector \<Rightarrow> mesh_peers \<Rightarrow> mesh_sim \<Rightarrow> vote_payload retry_env list \<times> mesh_sim" where
  "drain_votes env cx v peers s =
     (let (r, q) = drain_retry (mcx_nowMs cx) (vote_policy env cx v peers s) (msm_voteQueue s);
          due = length (filter (\<lambda>x. re_deliverAtMs x \<le> mcx_nowMs cx) (rq_items (msm_voteQueue s)))
      in (dr_ready r, mesh_drawn due (tally (\<lambda>t. t\<lparr> mst_droppedVotes := mst_droppedVotes t + dr_dead r \<rparr>) (s\<lparr> msm_voteQueue := q \<rparr>))))"

text \<open>\<open>registerVote\<close> draws only for the pending proposal.\<close>

definition vote_counts :: "vote_payload \<Rightarrow> consensus_engine \<Rightarrow> bool" where
  "vote_counts vote ce = (case cn_active ce of None \<Rightarrow> False | Some p \<Rightarrow> pr_id p = vo_proposalId vote \<and> pr_decided p = DecPending)"

definition decision_row :: "mesh_env \<Rightarrow> mesh_ctx \<Rightarrow> proposal \<Rightarrow> mesh_sim \<Rightarrow> mesh_sim" where
  "decision_row env cx p s =
     (if pr_decided p = DecCommitted
      then mesh_log env cx ''vertex-mesh'' MeConsensusCommitted
             [(''proposalId'', JStr (pr_id p)), (''votesYes'', JNum (real (length (pr_votesYes p))))] SlVertex s
      else mesh_log env cx ''vertex-mesh'' MeConsensusRejected [(''proposalId'', JStr (pr_id p))] SlVertex s)"

definition deliver_vote :: "mesh_env \<Rightarrow> mesh_ctx \<Rightarrow> network_vector \<Rightarrow> mesh_sim \<Rightarrow> vote_payload retry_env \<Rightarrow> mesh_sim" where
  "deliver_vote env cx v s e =
     (let vote = re_payload e; population = map sw_nodeId (filter (\<lambda>n. sw_offline n \<noteq> Some True) (mcx_nodes cx)); dup = (mesh_draw env s < nv_dup01 v);
          s1 = mesh_drawn 1 (tally (\<lambda>t. t\<lparr> mst_deliveredVotes := mst_deliveredVotes t + 1,
                 mst_duplicates := mst_duplicates t + (if dup then 1 else 0), mst_delayedDeliveries := mst_delayedDeliveries t + (if dup then 1 else 0) \<rparr>) s);
          (res, ce) = registerVote (vo_proposalId vote) (vo_peerId vote) (vo_yes vote) population v (mesh_draw env s1) (mcx_nowMs cx) (msm_consensus s1);
          s2 = mesh_drawn (if vote_counts vote (msm_consensus s1) then 1 else 0) (s1\<lparr> msm_consensus := ce \<rparr>)
      in case res of None \<Rightarrow> s2 | Some p \<Rightarrow> decision_row env cx p s2)"

definition step_votes :: "mesh_env \<Rightarrow> mesh_ctx \<Rightarrow> network_vector \<Rightarrow> mesh_peers \<Rightarrow> mesh_sim \<Rightarrow> mesh_sim" where
  "step_votes env cx v peers s = (let (ready, s1) = drain_votes env cx v peers s in foldl (deliver_vote env cx v) s1 ready)"

subsection \<open>Proposals\<close>

definition vote_delay :: "mesh_ctx \<Rightarrow> network_vector \<Rightarrow> mesh_peer \<Rightarrow> real \<Rightarrow> real" where
  "vote_delay cx v p draw =
     nv_baseLatencyMs v + nv_jitterMs v * draw + of_int (pe_latencyBiasMs p)
       + (if pe_peerId p \<in> set (cs_stalePeers (mcx_graph cx)) then nv_ackDelayMs v else 0)"

definition send_vote :: "mesh_env \<Rightarrow> mesh_ctx \<Rightarrow> network_vector \<Rightarrow> ident \<Rightarrow> real \<Rightarrow> mesh_peer \<Rightarrow> mesh_sim \<Rightarrow> mesh_sim" where
  "send_vote env cx v proposalId delay p s =
     (let vote = \<lparr> vo_proposalId = proposalId, vo_peerId = pe_peerId p, vo_yes = (mesh_draw env s > pe_byzantineLike01 p + 8 / 100) \<rparr>
      in mesh_drawn 1 (s\<lparr> msm_voteQueue := snd (enqueue_retry (mcx_nowMs cx + \<lceil>delay\<rceil>) None vote (msm_voteQueue s)) \<rparr>))"

definition buffer_vote :: "mesh_ctx \<Rightarrow> ident \<Rightarrow> mesh_peer \<Rightarrow> mesh_sim \<Rightarrow> mesh_sim" where
  "buffer_vote cx proposalId p s =
     tally (\<lambda>t. t\<lparr> mst_bufferedWhileOffline := mst_bufferedWhileOffline t + 1 \<rparr>)
       (s\<lparr> msm_recovery := bufferForPeer (pe_peerId p) \<lparr> bo_atMs = mcx_nowMs cx, bo_kind = ''consensus_vote'',
             bo_payload = [(''proposalId'', JStr proposalId), (''peerId'', JStr (pe_peerId p))] \<rparr> (msm_recovery s) \<rparr>)"

definition cast_peer_vote :: "mesh_env \<Rightarrow> mesh_ctx \<Rightarrow> network_vector \<Rightarrow> ident \<Rightarrow> mesh_sim \<Rightarrow> mesh_peer \<Rightarrow> mesh_sim" where
  "cast_peer_vote env cx v proposalId s p =
     (let delay = vote_delay cx v p (mesh_draw env s); s1 = mesh_drawn 1 s
      in if mcx_connectivityMode cx = CmBlackout
         then (if mesh_draw env s1 < 45 / 100 then buffer_vote cx proposalId p (mesh_drawn 1 s1)
               else send_vote env cx v proposalId delay p (mesh_drawn 1 s1))
         else send_vote env cx v proposalId delay p s1)"

definition has_pending :: "consensus_engine \<Rightarrow> bool" where
  "has_pending ce = (case cn_active ce of None \<Rightarrow> False | Some p \<Rightarrow> pr_decided p = DecPending)"

definition batch_summary :: "ident \<Rightarrow> string" where
  "batch_summary i = ''Proof-of-Coordination batch '' @ i"

definition step_proposal :: "mesh_env \<Rightarrow> mesh_ctx \<Rightarrow> network_vector \<Rightarrow> mesh_peers \<Rightarrow> mesh_sim \<Rightarrow> mesh_sim" where
  "step_proposal env cx v peers s =
     (let (started, ce) = maybeStartProposal (mcx_nowMs cx) (mesh_draw env s) batch_summary (msm_consensus s);
          s1 = mesh_drawn (if has_pending (msm_consensus s) then 0 else 1) (s\<lparr> msm_consensus := ce \<rparr>)
      in case started of
           None \<Rightarrow> s1
         | Some p \<Rightarrow>
             foldl (cast_peer_vote env cx v (pr_id p))
               (mesh_log env cx ''lattice'' MeProposalCreated [(''proposalId'', JStr (pr_id p)), (''summary'', JStr (pr_summary p))] SlLattice s1)
               (filter (\<lambda>p. pe_health p \<noteq> PhOffline) (js_values peers)))"

subsection \<open>Tasks, roles and discoveries\<close>

definition step_task :: "mesh_env \<Rightarrow> mesh_ctx \<Rightarrow> stress_mode \<Rightarrow> mesh_peers \<Rightarrow> mesh_sim \<Rightarrow> mesh_sim" where
  "step_task env cx stress peers s =
     (if mcx_tickIndex cx mod 11 \<noteq> 0 then s
      else if \<not> mesh_draw env s < 55 / 100 then mesh_drawn 1 s
      else let (task, serial) = nextMockMeshTask (stress = NsPartitioned) (msm_taskSerial s); s1 = mesh_drawn 1 (s\<lparr> msm_taskSerial := serial \<rparr>)
           in case allocateTask (men_fx env) task (js_values peers) stress (mcx_nowMs cx) of
                None \<Rightarrow> s1
              | Some r \<Rightarrow>
                  mesh_log env cx (al_winnerId r) MeTaskMeshAssigned [(''taskId'', JStr (al_taskId r)), (''score'', JNum (al_score r)),
                    (''reasons'', jstrs (al_reasons r)), (''fallbacks'', jstrs (al_fallbacks r))] SlMeshnet
                    (s1\<lparr> msm_taskHistory := msm_taskHistory s1 @ [r] \<rparr>))"

definition pass_role :: "mesh_env \<Rightarrow> mesh_ctx \<Rightarrow> mesh_peers \<times> mesh_sim \<Rightarrow> mesh_handoff \<Rightarrow> mesh_peers \<times> mesh_sim" where
  "pass_role env cx acc h =
     (let (peers, s) = acc
      in (case js_get peers (mh_peerId h) of None \<Rightarrow> peers | Some p \<Rightarrow> js_put (mh_peerId h) (apply_mesh_handoff (mh_to h) p) peers,
          mesh_log env cx (mh_peerId h) MeRoleMeshHandoff [(''from'', JStr (mesh_role_str (mh_from h))), (''to'', JStr (mesh_role_str (mh_to h))),
            (''reason'', JStr (mh_reason h))] SlLattice (s\<lparr> msm_roleHistory := msm_roleHistory s @ [h] \<rparr>)))"

definition step_roles :: "mesh_env \<Rightarrow> mesh_ctx \<Rightarrow> stress_mode \<Rightarrow> mesh_peers \<Rightarrow> mesh_sim \<Rightarrow> mesh_peers \<times> mesh_sim" where
  "step_roles env cx stress peers s =
     (let (hs, k) = evaluateMeshHandoffs (js_values peers) stress (men_rng env) (mcx_nowMs cx) (msm_draws s)
      in foldl (pass_role env cx) (peers, s\<lparr> msm_draws := k \<rparr>) hs)"

definition discovery_row :: "mesh_env \<Rightarrow> mesh_ctx \<Rightarrow> mesh_peers \<Rightarrow> mesh_sim \<Rightarrow> mesh_sim" where
  "discovery_row env cx peers s =
     (case List.find (\<lambda>p. pe_newlyDiscovered p \<noteq> []) (js_values peers) of
        None \<Rightarrow> s
      | Some p \<Rightarrow> mesh_log env cx (pe_peerId p) MePeerDiscovered [(''peerId'', JStr (hd (pe_newlyDiscovered p)))] SlLattice s)"

definition step_discovery :: "mesh_env \<Rightarrow> mesh_ctx \<Rightarrow> stress_mode \<Rightarrow> mesh_peers \<Rightarrow> mesh_sim \<Rightarrow> mesh_sim" where
  "step_discovery env cx stress peers s =
     (if mcx_tickIndex cx mod 9 \<noteq> 0 then s
      else let s1 = s\<lparr> msm_discoveryPulse := msm_discoveryPulse s + 1 \<rparr>
           in mesh_log env cx ''meshnet'' MeHeartbeatMesh [(''pulse'', JNum (real (msm_discoveryPulse s1))), (''stress'', JStr (stress_str stress))]
                SlMeshnet (discovery_row env cx peers s1))"

subsection \<open>Network events, partitions and checkpoints\<close>

definition loss_row :: "mesh_env \<Rightarrow> mesh_ctx \<Rightarrow> network_vector \<Rightarrow> mesh_sim \<Rightarrow> mesh_sim" where
  "loss_row env cx v s =
     (if mesh_draw env s < nv_loss01 v * (35 / 100)
      then mesh_log env cx ''meshnet'' MePacketLossSim [(''note'', JStr (''loss='' @ men_fx env 2 (nv_loss01 v)))] SlMeshnet (mesh_drawn 1 s)
      else mesh_drawn 1 s)"

definition reroute_row :: "mesh_env \<Rightarrow> mesh_ctx \<Rightarrow> network_vector \<Rightarrow> mesh_sim \<Rightarrow> mesh_sim" where
  "reroute_row env cx v s =
     (if mesh_draw env s < 5 / 100 + nv_routeInstability01 v * (8 / 100)
      then mesh_log env cx ''meshnet'' MeTopologyChanged [(''reroute'', JBool True)] SlMeshnet
             (tally (\<lambda>t. t\<lparr> mst_reroutes := mst_reroutes t + 1 \<rparr>) (mesh_drawn 1 s))
      else mesh_drawn 1 s)"

definition delay_row :: "mesh_env \<Rightarrow> mesh_ctx \<Rightarrow> network_vector \<Rightarrow> mesh_sim \<Rightarrow> mesh_sim" where
  "delay_row env cx v s =
     (if nv_baseLatencyMs v > 140
      then (if mesh_draw env s < 12 / 100
            then mesh_log env cx ''meshnet'' MeDelaySpike [(''deltaMs'', jint \<lfloor>nv_baseLatencyMs v * (8 / 10)\<rfloor>)] SlMeshnet (mesh_drawn 1 s)
            else mesh_drawn 1 s)
      else s)"

definition start_partition :: "mesh_env \<Rightarrow> mesh_ctx \<Rightarrow> ident list list \<Rightarrow> mesh_sim \<Rightarrow> mesh_sim" where
  "start_partition env cx clusters s =
     mesh_log env cx ''vertex-mesh'' MePartitionStart
       [(''clusters'', JNum (real (max (length (cs_partitionClusters (mcx_graph cx))) (length clusters))))] SlVertex s"

definition end_partition :: "mesh_env \<Rightarrow> mesh_ctx \<Rightarrow> mesh_sim \<Rightarrow> mesh_sim" where
  "end_partition env cx s =
     (let s1 = mesh_log env cx ''vertex-mesh'' MePartitionEnd [] SlVertex s; (pending, buffers) = drainAll_ops (msm_recovery s1);
          s2 = s1\<lparr> msm_recovery := buffers \<rparr>
      in if pending \<noteq> [] then mesh_log env cx ''vertex-mesh'' MeRecoverySync [(''replayedVotes'', JNum (real (length pending)))] SlVertex s2 else s2)"

definition step_partition :: "mesh_env \<Rightarrow> mesh_ctx \<Rightarrow> ident list list \<Rightarrow> mesh_sim \<Rightarrow> mesh_sim" where
  "step_partition env cx clusters s =
     (let active = (length (cs_partitionClusters (mcx_graph cx)) > 1 \<or> sj_manualPartition (msm_injector s) \<and> length clusters > 1);
          s1 = (if active \<and> \<not> msm_partitionWasActive s then start_partition env cx clusters s
                else if \<not> active \<and> msm_partitionWasActive s then end_partition env cx s else s)
      in s1\<lparr> msm_partitionWasActive := active \<rparr>)"

definition step_checkpoint :: "mesh_env \<Rightarrow> mesh_ctx \<Rightarrow> mesh_sim \<Rightarrow> mesh_sim" where
  "step_checkpoint env cx s =
     (if mcx_tickIndex cx mod 31 \<noteq> 0 then s
      else let ck = ''ckpt-'' @ show_nat (mcx_tickIndex cx)
           in mesh_log env cx ''arc'' MeCheckpointSaved [(''ckptId'', JStr ck)] SlArc (s\<lparr> msm_checkpoints := save_mesh_checkpoint ck (msm_checkpoints s) \<rparr>))"

subsection \<open>A step and its view\<close>

record proposal_view =
  pv_id :: ident
  pv_summary :: string
  pv_createdAtMs :: timestamp
  pv_votesYes :: nat
  pv_votesNo :: nat
  pv_votesPending :: int
  pv_quorumNeed :: int
  pv_status :: decision
  pv_commitLatencyMs :: "int option"

record consensus_health =
  chl_sequence :: nat
  chl_lastCommitHash :: "string option"
  chl_pending :: nat
  chl_committed :: nat
  chl_rejected :: nat
  chl_stress01 :: real

record mesh_public_view =
  mpv_missionId :: ident
  mpv_nowMs :: timestamp
  mpv_seed :: int
  mpv_stressMode :: stress_mode
  mpv_connectivityMode :: connectivity_mode
  mpv_peers :: "mesh_peer list"
  mpv_graph :: mesh_graph_view
  mpv_discoveryPulse :: nat
  mpv_health :: consensus_health
  mpv_proposals :: "proposal_view list"
  mpv_ledgerTail :: "mesh_event list"
  mpv_replay :: "narrative_entry list"
  mpv_taskHistory :: "mesh_allocation list"
  mpv_roleHistory :: "mesh_handoff list"
  mpv_checkpoints :: "ident list"
  mpv_stats :: mesh_stats
  mpv_live :: bool

definition view_proposal :: "nat \<Rightarrow> proposal \<Rightarrow> proposal_view" where
  "view_proposal n p =
     \<lparr> pv_id = pr_id p, pv_summary = pr_summary p, pv_createdAtMs = pr_createdAtMs p, pv_votesYes = length (pr_votesYes p),
       pv_votesNo = length (pr_votesNo p), pv_votesPending = max 0 (int n - int (length (pr_votesYes p)) - int (length (pr_votesNo p))),
       pv_quorumNeed = max 2 \<lceil>real n * (66 / 100)\<rceil>, pv_status = pr_decided p, pv_commitLatencyMs = pr_commitLatencyMs p \<rparr>"

definition last_commit_hash :: "mesh_event list \<Rightarrow> string option" where
  "last_commit_hash evs = (case rev (filter (\<lambda>e. mv_eventType e = MeConsensusCommitted) evs) of [] \<Rightarrow> None | e # _ \<Rightarrow> Some (mv_eventHash e))"

definition mesh_view :: "mesh_env \<Rightarrow> mesh_ctx \<Rightarrow> stress_mode \<Rightarrow> network_vector \<Rightarrow> mesh_peers \<Rightarrow> mesh_sim \<Rightarrow> mesh_public_view" where
  "mesh_view env cx stress v peers s =
     (let evs = mg_events (msm_ledger s); proposals = map (view_proposal (length peers)) (consensus_snapshot (msm_consensus s));
          with_status = (\<lambda>d. length (filter (\<lambda>p. pv_status p = d) proposals))
      in \<lparr> mpv_missionId = mcx_missionId cx, mpv_nowMs = mcx_nowMs cx, mpv_seed = mcx_seed cx, mpv_stressMode = stress,
           mpv_connectivityMode = mcx_connectivityMode cx, mpv_peers = js_values peers,
           mpv_graph = buildMeshGraphView (mcx_graph cx) (mcx_operatorNodeId cx) v, mpv_discoveryPulse = msm_discoveryPulse s,
           mpv_health = \<lparr> chl_sequence = cn_seq (msm_consensus s), chl_lastCommitHash = last_commit_hash evs,
             chl_pending = with_status DecPending, chl_committed = with_status DecCommitted, chl_rejected = with_status DecRejected,
             chl_stress01 = clamp01 (nv_loss01 v + nv_timeoutChance01 v) \<rparr>,
           mpv_proposals = proposals, mpv_ledgerTail = slice_tail 40 evs, mpv_replay = buildReplayNarrative (men_ns env) evs,
           mpv_taskHistory = slice_tail 20 (msm_taskHistory s), mpv_roleHistory = slice_tail 20 (msm_roleHistory s),
           mpv_checkpoints = msm_checkpoints s, mpv_stats = msm_stats s, mpv_live = mcx_live cx \<rparr>)"

definition mesh_step :: "mesh_env \<Rightarrow> mesh_ctx \<Rightarrow> mesh_sim \<Rightarrow> mesh_public_view \<times> mesh_sim" where
  "mesh_step env cx s =
     (let (stress, s1) = effectiveStressMode cx s; v = controller_vector (sj_controller (msm_injector s1));
          clusters = syntheticClusters (map sw_nodeId (mcx_nodes cx)) (mcx_operatorNodeId cx) (sj_manualPartition (msm_injector s1));
          (peers, s2) = step_peers env cx v s1; s3 = step_votes env cx v peers s2; s4 = step_proposal env cx v peers s3;
          s5 = step_task env cx stress peers s4; (peers', s6) = step_roles env cx stress peers s5;
          s7 = step_discovery env cx stress peers' s6; s8 = delay_row env cx v (reroute_row env cx v (loss_row env cx v s7));
          s9 = step_checkpoint env cx (step_partition env cx clusters s8)
      in (mesh_view env cx stress v peers' s9, s9))"

datatype mesh_op = MoStep mesh_ctx | MoLoss real | MoLatency real | MoPartition bool | MoReset

fun mesh_apply :: "mesh_env \<Rightarrow> mesh_sim \<Rightarrow> mesh_op \<Rightarrow> mesh_sim" where
  "mesh_apply env s (MoStep cx) = snd (mesh_step env cx s)"
| "mesh_apply env s (MoLoss d) = s\<lparr> msm_injector := inject_packet_loss d (msm_injector s) \<rparr>"
| "mesh_apply env s (MoLatency d) = s\<lparr> msm_injector := inject_latency d (msm_injector s) \<rparr>"
| "mesh_apply env s (MoPartition b) = s\<lparr> msm_injector := toggleManualPartition b (msm_injector s) \<rparr>"
| "mesh_apply env s MoReset = s\<lparr> msm_injector := reset_injector (msm_injector s) \<rparr>"


definition mesh_run :: "mesh_env \<Rightarrow> nat \<Rightarrow> mesh_op list \<Rightarrow> mesh_sim" where
  "mesh_run env serial ops = foldl (mesh_apply env) (new_mesh_sim serial) ops"

subsection \<open>Every stage keeps the chain\<close>

named_theorems mesh_frame "what a stage leaves as it was"

definition chain_ok :: "mesh_env \<Rightarrow> mesh_sim \<Rightarrow> bool" where
  "chain_ok env s \<longleftrightarrow> mesh_verifyChain (men_H env) (men_ns env) (msm_ledger s) = ChainOk"

lemma chain_ok_log [mesh_frame]: "chain_ok env (mesh_log env cx actor kind payload label s) = chain_ok env s"
  by (simp add: chain_ok_def mesh_log_def mesh_append_verifies_iff)

lemma chain_ok_fields [mesh_frame]:
  "chain_ok env (mesh_drawn n s) = chain_ok env s" "chain_ok env (tally f s) = chain_ok env s"
  "chain_ok env (s\<lparr> msm_consensus := c \<rparr>) = chain_ok env s" "chain_ok env (s\<lparr> msm_voteQueue := q \<rparr>) = chain_ok env s"
  "chain_ok env (s\<lparr> msm_recovery := b \<rparr>) = chain_ok env s" "chain_ok env (s\<lparr> msm_checkpoints := cs \<rparr>) = chain_ok env s"
  "chain_ok env (s\<lparr> msm_injector := j \<rparr>) = chain_ok env s" "chain_ok env (s\<lparr> msm_lastStress := m \<rparr>) = chain_ok env s"
  "chain_ok env (s\<lparr> msm_partitioned := a \<rparr>) = chain_ok env s" "chain_ok env (s\<lparr> msm_draws := k \<rparr>) = chain_ok env s"
  "chain_ok env (s\<lparr> msm_taskHistory := th \<rparr>) = chain_ok env s" "chain_ok env (s\<lparr> msm_roleHistory := rh \<rparr>) = chain_ok env s"
  "chain_ok env (s\<lparr> msm_discoveryPulse := n \<rparr>) = chain_ok env s" "chain_ok env (s\<lparr> msm_partitionWasActive := a \<rparr>) = chain_ok env s"
  "chain_ok env (s\<lparr> msm_taskSerial := n \<rparr>) = chain_ok env s"
  by (simp_all add: chain_ok_def mesh_drawn_def tally_def)

text \<open>The fields that decide about proposals.\<close>

definition ballot :: "mesh_sim \<Rightarrow> consensus_engine \<times> vote_payload retry_queue" where
  "ballot s = (msm_consensus s, msm_voteQueue s)"

lemma ballot_fields [mesh_frame]:
  "ballot (mesh_log env cx actor kind payload label s) = ballot s"
  "ballot (mesh_drawn n s) = ballot s" "ballot (tally f s) = ballot s"
  "ballot (s\<lparr> msm_recovery := b \<rparr>) = ballot s" "ballot (s\<lparr> msm_checkpoints := cs \<rparr>) = ballot s"
  "ballot (s\<lparr> msm_injector := j \<rparr>) = ballot s" "ballot (s\<lparr> msm_lastStress := m \<rparr>) = ballot s"
  "ballot (s\<lparr> msm_partitioned := a \<rparr>) = ballot s" "ballot (s\<lparr> msm_draws := k \<rparr>) = ballot s"
  "ballot (s\<lparr> msm_taskHistory := th \<rparr>) = ballot s" "ballot (s\<lparr> msm_roleHistory := rh \<rparr>) = ballot s"
  "ballot (s\<lparr> msm_discoveryPulse := n \<rparr>) = ballot s" "ballot (s\<lparr> msm_partitionWasActive := a \<rparr>) = ballot s"
  "ballot (s\<lparr> msm_taskSerial := n \<rparr>) = ballot s"
  by (simp_all add: ballot_def mesh_log_def mesh_drawn_def tally_def)

lemma fold_keeps: "(\<And>s x. f (g s x) = f s) \<Longrightarrow> f (foldl g s xs) = f s"
  by (induction xs arbitrary: s) simp_all

lemma step_rows_keep:
  "chain_ok env (step_discovery env cx stress peers s) = chain_ok env s" "ballot (step_discovery env cx stress peers s) = ballot s"
  "chain_ok env (loss_row env cx v s) = chain_ok env s" "ballot (loss_row env cx v s) = ballot s"
  "chain_ok env (reroute_row env cx v s) = chain_ok env s" "ballot (reroute_row env cx v s) = ballot s"
  "chain_ok env (delay_row env cx v s) = chain_ok env s" "ballot (delay_row env cx v s) = ballot s"
  "chain_ok env (step_checkpoint env cx s) = chain_ok env s" "ballot (step_checkpoint env cx s) = ballot s"
  by (simp_all add: step_discovery_def discovery_row_def loss_row_def reroute_row_def delay_row_def step_checkpoint_def Let_def mesh_frame
      split: option.split)

lemma step_task_keeps:
  "chain_ok env (step_task env cx stress peers s) = chain_ok env s" "ballot (step_task env cx stress peers s) = ballot s"
  by (simp_all add: step_task_def Let_def split_beta mesh_frame split: option.split)

lemma step_partition_keeps:
  "chain_ok env (step_partition env cx clusters s) = chain_ok env s" "ballot (step_partition env cx clusters s) = ballot s"
  by (simp_all add: step_partition_def start_partition_def end_partition_def Let_def split_beta mesh_frame)

lemma step_roles_keeps:
  "chain_ok env (snd (step_roles env cx stress peers s)) = chain_ok env s" "ballot (snd (step_roles env cx stress peers s)) = ballot s"
proof -
  have one: "chain_ok env (snd (pass_role env cx acc h)) = chain_ok env (snd acc)" "ballot (snd (pass_role env cx acc h)) = ballot (snd acc)" for acc h
    by (simp_all add: pass_role_def split_beta mesh_frame)
  show "chain_ok env (snd (step_roles env cx stress peers s)) = chain_ok env s"
    unfolding step_roles_def Let_def split_beta fold_keeps [where f = "\<lambda>acc. chain_ok env (snd acc)", OF one(1)] by (simp add: mesh_frame)
  show "ballot (snd (step_roles env cx stress peers s)) = ballot s"
    unfolding step_roles_def Let_def split_beta fold_keeps [where f = "\<lambda>acc. ballot (snd acc)", OF one(2)] by (simp add: mesh_frame)
qed

lemma step_start_keeps:
  "chain_ok env (snd (effectiveStressMode cx s)) = chain_ok env s" "ballot (snd (effectiveStressMode cx s)) = ballot s"
  "chain_ok env (snd (step_peers env cx v s)) = chain_ok env s" "ballot (snd (step_peers env cx v s)) = ballot s"
  by (simp_all add: effectiveStressMode_def step_peers_def Let_def split_beta mesh_frame)

lemma chain_ok_deliver: "chain_ok env (deliver_vote env cx v s e) = chain_ok env s"
  by (simp add: deliver_vote_def decision_row_def Let_def split_beta mesh_frame split: option.split)

lemma chain_ok_votes: "chain_ok env (step_votes env cx v peers s) = chain_ok env s"
  unfolding step_votes_def Let_def split_beta fold_keeps [where f = "chain_ok env", OF chain_ok_deliver]
  by (simp add: drain_votes_def Let_def split_beta mesh_frame)

lemma chain_ok_cast: "chain_ok env (cast_peer_vote env cx v i s p) = chain_ok env s"
  by (simp add: cast_peer_vote_def buffer_vote_def send_vote_def Let_def mesh_frame)

lemma chain_ok_proposal: "chain_ok env (step_proposal env cx v peers s) = chain_ok env s"
  by (simp add: step_proposal_def Let_def split_beta fold_keeps [where f = "chain_ok env", OF chain_ok_cast] mesh_frame split: option.split)

lemma chain_ok_step: "chain_ok env (snd (mesh_step env cx s)) = chain_ok env s"
  unfolding mesh_step_def Let_def split_beta snd_conv step_partition_keeps step_rows_keep step_roles_keeps step_task_keeps
    chain_ok_proposal chain_ok_votes step_start_keeps ..

lemma chain_ok_apply: "chain_ok env (mesh_apply env s c) = chain_ok env s"
  by (cases c) (simp_all add: chain_ok_step mesh_frame)

text \<open>
  Whatever steps and injections a simulator receives, its ledger verifies: every row is appended behind the
  current tail, and no append overlaps another.
\<close>

theorem mesh_ledger_always_verifies: "mesh_verifyChain (men_H env) (men_ns env) (msm_ledger (mesh_run env serial ops)) = ChainOk"
proof -
  have "chain_ok env (mesh_run env serial ops) = chain_ok env (new_mesh_sim serial)"
    unfolding mesh_run_def by (rule fold_keeps [where f = "chain_ok env", OF chain_ok_apply])
  then show ?thesis by (simp add: chain_ok_def mesh_verifyChain_def new_mesh_sim_def new_mesh_ledger_def)
qed

subsection \<open>When the consensus stalls\<close>

definition stalled :: "mesh_sim \<Rightarrow> bool" where
  "stalled s \<longleftrightarrow> has_pending (msm_consensus s) \<and> rq_items (msm_voteQueue s) = []"

lemma votes_without_queue: "rq_items (msm_voteQueue s) = [] \<Longrightarrow> ballot (step_votes env cx v peers s) = ballot s"
  by (simp add: step_votes_def drain_votes_def drain_retry_def drain_items_def Let_def split_beta mesh_frame) (simp add: ballot_def)

lemma proposal_while_pending: "has_pending (msm_consensus s) \<Longrightarrow> ballot (step_proposal env cx v peers s) = ballot s"
  by (simp add: step_proposal_def maybeStartProposal_def has_pending_def ballot_def mesh_drawn_def split: option.splits)

lemma ballot_step: "ballot (snd (mesh_step env cx s)) =
    ballot (let s1 = snd (effectiveStressMode cx s); v = controller_vector (sj_controller (msm_injector s1)); ps = step_peers env cx v s1
      in step_proposal env cx v (fst ps) (step_votes env cx v (fst ps) (snd ps)))"
  unfolding mesh_step_def Let_def split_beta snd_conv step_partition_keeps step_rows_keep step_roles_keeps step_task_keeps ..

lemma stalled_ballot: "ballot s' = ballot s \<Longrightarrow> stalled s' = stalled s"
  by (simp add: ballot_def stalled_def)

lemma stalled_step: assumes "stalled s" shows "ballot (snd (mesh_step env cx s)) = ballot s"
proof -
  let ?s1 = "snd (effectiveStressMode cx s)" let ?v = "controller_vector (sj_controller (msm_injector ?s1))"
  let ?ps = "step_peers env cx ?v ?s1" let ?s3 = "step_votes env cx ?v (fst ?ps) (snd ?ps)"
  have b2: "ballot (snd ?ps) = ballot s" by (simp only: step_start_keeps)
  then have "stalled (snd ?ps)" using assms stalled_ballot by blast
  then have b3: "ballot ?s3 = ballot s" using votes_without_queue b2 by (simp add: stalled_def)
  then have "stalled ?s3" using assms stalled_ballot by blast
  then have "ballot (step_proposal env cx ?v (fst ?ps) ?s3) = ballot s" using proposal_while_pending b3 by (simp add: stalled_def)
  then show ?thesis unfolding ballot_step Let_def .
qed

lemma stalled_apply: "stalled s \<Longrightarrow> ballot (mesh_apply env s c) = ballot s"
  by (cases c) (simp_all add: stalled_step mesh_frame)

lemma stalled_fold: "stalled s \<Longrightarrow> ballot (foldl (mesh_apply env) s ops) = ballot s"
proof (induction ops arbitrary: s)
  case (Cons c ops)
  then have "ballot (mesh_apply env s c) = ballot s" by (simp add: stalled_apply)
  moreover from this have "stalled (mesh_apply env s c)" using Cons.prems stalled_ballot by blast
  ultimately show ?case using Cons.IH by simp
qed simp


text \<open>
  C16. A pending proposal with no vote on the way is never decided: votes are sent once, when a proposal starts, and no step sends them
  again or lets the proposal expire. Nor is another proposal ever started.
\<close>

theorem stalled_for_good:
  assumes "stalled s"
  shows "msm_consensus (foldl (mesh_apply env) s ops) = msm_consensus s \<and> has_pending (msm_consensus s)
    \<and> msm_voteQueue (foldl (mesh_apply env) s ops) = msm_voteQueue s"
  using stalled_fold [OF assms] assms by (simp add: ballot_def stalled_def)

text \<open>In a blackout every vote that is drawn below 0.45 goes to the recovery buffers instead of the queue.\<close>

lemma blackout_buffers:
  assumes "mcx_connectivityMode cx = CmBlackout" "\<And>k. men_rng env k < 45 / 100"
  shows "ballot (cast_peer_vote env cx v i s p) = ballot s"
  using assms(1) assms(2) [of "msm_draws (mesh_drawn 1 s)"] by (simp add: cast_peer_vote_def Let_def mesh_draw_def buffer_vote_def mesh_frame)

lemma blackout_stalls:
  assumes mode: "mcx_connectivityMode cx = CmBlackout" and low: "\<And>k. men_rng env k \<le> 22 / 100"
    and quiet: "\<not> has_pending (msm_consensus s)" "rq_items (msm_voteQueue s) = []"
  shows "stalled (snd (mesh_step env cx s))"
proof -
  let ?s1 = "snd (effectiveStressMode cx s)" let ?v = "controller_vector (sj_controller (msm_injector ?s1))"
  let ?ps = "step_peers env cx ?v ?s1" let ?s3 = "step_votes env cx ?v (fst ?ps) (snd ?ps)"
  have b2: "ballot (snd ?ps) = ballot s" by (simp only: step_start_keeps)
  then have "rq_items (msm_voteQueue (snd ?ps)) = []" using quiet(2) by (simp add: ballot_def)
  then have b3: "ballot ?s3 = ballot s" using votes_without_queue b2 by metis
  then have q3: "\<not> has_pending (msm_consensus ?s3)" "rq_items (msm_voteQueue ?s3) = []" using quiet by (simp_all add: ballot_def)
  have low45: "men_rng env k < 45 / 100" for k using low [of k] by simp
  have draw: "\<not> 22 / 100 < mesh_draw env t" for t using low by (simp add: mesh_draw_def not_less)
  have "stalled (step_proposal env cx ?v (fst ?ps) ?s3)"
  proof -
    let ?start = "maybeStartProposal (mcx_nowMs cx) (mesh_draw env ?s3) batch_summary (msm_consensus ?s3)"
    obtain p where p: "fst ?start = Some p" "cn_active (snd ?start) = Some p" "pr_decided p = DecPending"
      using q3(1) draw [of ?s3] by (simp add: maybeStartProposal_def has_pending_def Let_def)
    have "ballot (step_proposal env cx ?v (fst ?ps) ?s3) = (snd ?start, msm_voteQueue ?s3)"
      unfolding step_proposal_def Let_def split_beta p(1) option.case fold_keeps [where f = ballot, OF blackout_buffers [OF mode low45]]
      by (simp add: mesh_frame) (simp add: ballot_def)
    then show ?thesis using p q3(2) by (simp add: ballot_def stalled_def has_pending_def)
  qed
  moreover have "ballot (snd (mesh_step env cx s)) = ballot (step_proposal env cx ?v (fst ?ps) ?s3)" unfolding ballot_step Let_def ..
  ultimately show ?thesis using stalled_ballot by blast
qed

definition toy_mesh_env :: mesh_env where
  "toy_mesh_env = \<lparr> men_H = (\<lambda>x. x), men_ns = (\<lambda>r. []), men_fx = (\<lambda>n r. []), men_rng = (\<lambda>k. 0) \<rparr>"

definition toy_mesh_ctx :: "swarm_agent list \<Rightarrow> connectivity_mode \<Rightarrow> mesh_ctx" where
  "toy_mesh_ctx nodes mode =
     \<lparr> mcx_missionId = ''m'', mcx_nowMs = 1000, mcx_seed = 7, mcx_tickIndex = 1, mcx_connectivityMode = mode,
       mcx_graph = \<lparr> cs_edges = [], cs_partitionClusters = [], cs_operatorReachable = [], cs_relayChains = [], cs_bottleneckEdge = None, cs_stalePeers = [] \<rparr>,
       mcx_nodes = nodes, mcx_operatorNodeId = ''op'', mcx_telemetryQueueByNode = None, mcx_live = False \<rparr>"

theorem stalled_for_good_witness:
  "\<exists>p. cn_active (msm_consensus (mesh_run toy_mesh_env 1
      (MoStep (toy_mesh_ctx [toy_scout ''a'', toy_scout ''b''] CmBlackout) # replicate 50 (MoStep (toy_mesh_ctx [toy_scout ''a'', toy_scout ''b''] CmNormal))))) = Some p
    \<and> pr_decided p = DecPending"
proof -
  let ?black = "MoStep (toy_mesh_ctx [toy_scout ''a'', toy_scout ''b''] CmBlackout)"
  let ?later = "replicate 50 (MoStep (toy_mesh_ctx [toy_scout ''a'', toy_scout ''b''] CmNormal))"
  have "stalled (mesh_apply toy_mesh_env (new_mesh_sim 1) ?black)"
    unfolding mesh_apply.simps
    by (rule blackout_stalls)
      (simp_all add: toy_mesh_ctx_def toy_mesh_env_def new_mesh_sim_def new_consensus_def new_retry_queue_def has_pending_def)
  from stalled_for_good [OF this, of toy_mesh_env ?later] show ?thesis
    by (simp add: mesh_run_def has_pending_def split: option.splits)
qed

subsection \<open>What becomes of buffered votes\<close>

text \<open>
  When a partition ends, the row \<open>recovery_sync\<close> counts the buffered votes as replayed and the buffers are emptied, but no vote
  is registered and none is put back into the queue.
\<close>

theorem buffered_votes_not_replayed:
  "(let s' = end_partition env cx s; pending = concat (js_values (msm_recovery s))
    in msm_recovery s' = [] \<and> msm_consensus s' = msm_consensus s \<and> msm_voteQueue s' = msm_voteQueue s
       \<and> (if pending = [] then True
          else mv_eventType (last (mg_events (msm_ledger s'))) = MeRecoverySync
            \<and> mv_payload (last (mg_events (msm_ledger s'))) = [(''replayedVotes'', JNum (real (length pending)))]))"
proof -
  have b: "ballot (end_partition env cx s) = ballot s" by (simp add: end_partition_def Let_def split_beta mesh_frame)
  have r: "msm_recovery (mesh_log env cx a k p l t) = msm_recovery t" for a k p l t by (simp add: mesh_log_def)
  have l: "mv_eventType (last (mg_events (msm_ledger (mesh_log env cx a k p l t)))) = k \<and>
      mv_payload (last (mg_events (msm_ledger (mesh_log env cx a k p l t)))) = p" for a k p l t
    by (simp add: mesh_log_def append_mesh_event_def Let_def)
  show ?thesis using b unfolding ballot_def
    by (simp add: end_partition_def drainAll_ops_def Let_def split_beta r l)
qed

subsection \<open>Peers of a step\<close>

text \<open>Peers are built anew in every step, so a peer is never isolated before the partition is applied.\<close>

definition peer_state_ok :: "connectivity_snapshot \<Rightarrow> mesh_peer \<Rightarrow> bool" where
  "peer_state_ok snap p \<longleftrightarrow>
     (if pe_health p = PhIsolated then pe_recovery p = RpBuffering \<and> pe_peerId p \<notin> set (cs_operatorReachable snap)
      else pe_recovery p = RpSteady \<and> pe_health p \<noteq> PhRecovering)"

definition entry_ok :: "connectivity_snapshot \<Rightarrow> ident \<times> mesh_peer \<Rightarrow> bool" where
  "entry_ok snap ip \<longleftrightarrow> pe_peerId (snd ip) = fst ip \<and> peer_state_ok snap (snd ip)"

definition fresh_entry :: "ident \<times> mesh_peer \<Rightarrow> bool" where
  "fresh_entry ip \<longleftrightarrow> pe_peerId (snd ip) = fst ip \<and> pe_health (snd ip) \<in> {PhOk, PhDegraded, PhOffline} \<and> pe_recovery (snd ip) = RpSteady"

lemma put_all: "list_all P m \<Longrightarrow> P (k, v) \<Longrightarrow> list_all P (js_put k v m)"
  by (induction m) auto

lemma enrich_fresh: "fresh_entry (sw_nodeId n, queue_override cx (enrichPeerFromNode n i rng k))"
  by (simp add: fresh_entry_def queue_override_def enrichPeerFromNode_def Let_def split: option.split)

lemma profiles_fresh: "list_all fresh_entry (step_profiles cx)"
proof -
  have "list_all fresh_entry m \<Longrightarrow>
      list_all fresh_entry (foldl (\<lambda>m ix. js_put (sw_nodeId (snd ix)) (queue_override cx (enrichPeerFromNode (snd ix) (fst ix) rng (8 * fst ix))) m) m xs)"
    for m rng xs
    by (induction xs arbitrary: m) (simp_all add: put_all enrich_fresh)
  then show ?thesis unfolding step_profiles_def Let_def by simp
qed

lemma partition_entries: "list_all fresh_entry peers \<Longrightarrow> list_all (entry_ok snap) (applyToPeers snap peers)"
  by (induction peers) (auto simp: applyToPeers_def apply_partition_def fresh_entry_def entry_ok_def peer_state_ok_def Let_def)

lemma discover_fields:
  "pe_peerId (fst (discover_peer snap v rng i p k)) = pe_peerId p" "pe_health (fst (discover_peer snap v rng i p k)) = pe_health p"
  "pe_recovery (fst (discover_peer snap v rng i p k)) = pe_recovery p" "pe_meshRole (fst (discover_peer snap v rng i p k)) = pe_meshRole p"
  by (simp_all add: discover_peer_def Let_def split_beta)

lemma entry_discover: "entry_ok snap ip \<Longrightarrow> entry_ok snap (fst ip, fst (discover_peer g v rng (fst ip) (snd ip) k))"
  by (auto simp: entry_ok_def peer_state_ok_def discover_fields)

lemma discovery_entries: "list_all (entry_ok snap) peers \<Longrightarrow> list_all (entry_ok snap) (fst (advanceDiscovery peers g v rng k))"
proof -
  have "list_all (entry_ok snap) ps \<Longrightarrow> list_all (entry_ok snap) peers \<Longrightarrow> list_all (entry_ok snap) (fst (foldl (advance_peer g v rng) (ps, k) peers))" for ps k
    by (induction peers arbitrary: ps k) (simp_all add: advance_peer_def split_beta entry_discover)
  then show "list_all (entry_ok snap) peers \<Longrightarrow> ?thesis" unfolding advanceDiscovery_def by simp
qed

lemma role_entries:
  assumes "list_all (entry_ok snap) (fst acc)" shows "list_all (entry_ok snap) (fst (pass_role env cx acc h))"
proof (cases "js_get (fst acc) (mh_peerId h)")
  case None
  then show ?thesis using assms by (simp add: pass_role_def split_beta)
next
  case (Some p)
  then have "entry_ok snap (mh_peerId h, p)" using assms by (auto simp: list_all_iff dest: map_of_SomeD)
  then have "entry_ok snap (mh_peerId h, apply_mesh_handoff (mh_to h) p)" by (auto simp: entry_ok_def peer_state_ok_def apply_mesh_handoff_def)
  then show ?thesis using assms Some by (simp add: pass_role_def split_beta put_all)
qed

lemma roles_entries:
  assumes "list_all (entry_ok snap) peers" shows "list_all (entry_ok snap) (fst (step_roles env cx stress peers s))"
proof -
  have "list_all (entry_ok snap) (fst acc) \<Longrightarrow> list_all (entry_ok snap) (fst (foldl (pass_role env cx) acc hs))" for acc hs
    by (induction hs arbitrary: acc) (simp_all add: role_entries)
  then show ?thesis using assms by (simp add: step_roles_def split_beta Let_def)
qed

text \<open>
  No step ever shows a peer in recovery: a peer is shown isolated and buffering exactly while the operator cannot reach it, and steady
  otherwise. The branch of the partition manager that moves an isolated peer to recovering is never taken.
\<close>

theorem peers_never_recover: "list_all (peer_state_ok (mcx_graph cx)) (mpv_peers (fst (mesh_step env cx s)))"
proof -
  have "list_all (entry_ok (mcx_graph cx)) (fst (step_peers env cx v t))" for v t
    unfolding step_peers_def Let_def split_beta fst_conv by (rule discovery_entries [OF partition_entries [OF profiles_fresh]])
  then have "list_all (entry_ok (mcx_graph cx)) (fst (step_roles env cx stress (fst (step_peers env cx v t)) u))" for stress v t u
    by (rule roles_entries)
  moreover have "list_all (entry_ok g) ps \<Longrightarrow> list_all (peer_state_ok g) (js_values ps)" for g ps
    by (induction ps) (simp_all add: js_values_def entry_ok_def)
  ultimately show ?thesis unfolding mesh_step_def mesh_view_def Let_def split_beta fst_conv mesh_public_view.simps by blast
qed

end
