(* ===== verification/MeshSurvival.thy ===== *)
theory MeshSurvival
  imports MeshSimulator MeshRouting
begin

section \<open>Mesh messages and the survival engine\<close>

text \<open>
  Models \<open>networkConstraints.ts\<close>, \<open>nodeProfiles.ts\<close>, \<open>telemetryNormalizer.ts\<close>, \<open>messageEnvelope.ts\<close>, \<open>messageBus.ts\<close>,
  \<open>consensusLedger.ts\<close>, \<open>replayEngine.ts\<close> and \<open>meshSurvivalEngine.ts\<close> of \<open>src/src/mesh\<close>. The records \<open>mesh_bus\<close> and
  \<open>survival\<close> hold the fields of \<open>MeshMessageBus\<close> and \<open>MeshSurvivalEngine\<close>; the serial numbers that are variables of a module are fields of
  \<open>survival\<close>. Characters outside ASCII are written as their UTF-8 bytes.
  The lemmas show that the bus delivers no message twice and what becomes of the messages it accepts.
\<close>

subsection \<open>Stress presets\<close>

record mesh_preset =
  mp_id :: ident
  mp_label :: string
  mp_loss01 :: real
  mp_latencyMs :: real
  mp_jitterMs :: real
  mp_dup01 :: real
  mp_reorder01 :: real
  mp_discoverySpeed01 :: real
  mp_relayBias01 :: real
  mp_routeStability01 :: real
  mp_recoverySlowdown01 :: real
  mp_peerTurnover01 :: real

definition mesh_preset_of :: "ident \<Rightarrow> string \<Rightarrow> real \<Rightarrow> real \<Rightarrow> real \<Rightarrow> real \<Rightarrow> real \<Rightarrow> real \<Rightarrow> real \<Rightarrow> real \<Rightarrow> real \<Rightarrow> real \<Rightarrow> mesh_preset" where
  "mesh_preset_of i lbl p1 p2 p3 p4 p5 p6 p7 p8 p9 p10 =
     \<lparr> mp_id = i, mp_label = lbl, mp_loss01 = p1 / 100, mp_latencyMs = p2, mp_jitterMs = p3, mp_dup01 = p4 / 100,
       mp_reorder01 = p5 / 100, mp_discoverySpeed01 = p6 / 100, mp_relayBias01 = p7 / 100, mp_routeStability01 = p8 / 100,
       mp_recoverySlowdown01 = p9 / 100, mp_peerTurnover01 = p10 / 100 \<rparr>"

text \<open>The table, in hundredths where the code has fractions; the descriptions, which only the user interface shows, are left out.\<close>

definition MESH_SCENARIO_PRESETS :: "mesh_preset list" where
  "MESH_SCENARIO_PRESETS =
     [mesh_preset_of ''normal_mesh'' ''Normal mesh'' 4 45 8 1 2 95 35 92 5 2,
      mesh_preset_of ''degraded_mesh'' ''Degraded mesh'' 14 95 22 4 8 72 55 68 22 6,
      mesh_preset_of ''high_latency_mesh'' ''High-latency mesh'' 8 420 120 6 12 50 62 55 45 4,
      mesh_preset_of ''lossy_mesh'' ''Lossy mesh'' 38 70 18 12 10 42 88 40 35 12,
      mesh_preset_of ''partitioned_mesh'' ''Partitioned mesh'' 12 80 20 5 7 55 75 35 55 8,
      mesh_preset_of ''tunnel_connectivity'' ''Tunnel-like connectivity'' 18 55 12 3 5 62 92 48 28 5,
      mesh_preset_of ''urban_obstruction'' ''Urban obstruction'' 22 110 40 8 14 58 70 42 32 9,
      mesh_preset_of ''wildfire_interference'' ''Wildfire interference'' 28 130 55 7 11 48 80 38 40 10,
      mesh_preset_of ''cave_interference'' ''Cave interference'' 32 160 45 5 9 40 85 36 48 7,
      mesh_preset_of ''disaster_zone_blackout'' ''Disaster-zone blackout'' 35 200 80 10 15 35 90 30 62 14]"

definition presetById :: "ident \<Rightarrow> mesh_preset" where
  "presetById i = default_to (List.find (\<lambda>p. mp_id p = i) MESH_SCENARIO_PRESETS) (MESH_SCENARIO_PRESETS ! 0)"

datatype constraint_mode = NcNormal | NcDegraded | NcUnstable | NcPartitioned | NcIsolated | NcRecovering | NcReconnected

definition constraintModeFromSignals :: "connectivity_mode \<Rightarrow> stress_mode \<Rightarrow> constraint_mode" where
  "constraintModeFromSignals mode stress =
     (if mode = CmBlackout \<or> stress = NsOffline then NcIsolated
      else if mode = CmPartialPartition \<or> stress = NsPartitioned then NcPartitioned
      else if mode = CmRecovery \<or> stress = NsRecovery then NcRecovering
      else if mode = CmResync then NcReconnected
      else if stress = NsLossy then NcUnstable
      else if stress = NsHighLatency \<or> stress = NsDegraded then NcDegraded
      else if mode = CmDegraded then NcDegraded
      else NcNormal)"

subsection \<open>Profiles\<close>

fun role_archetype :: "mission_node_role \<Rightarrow> mesh_archetype option" where
  "role_archetype MrExplorer = Some ArScoutDrone"
| "role_archetype MrRelay = Some ArRelayDrone"
| "role_archetype MrMedic = Some ArRescueRobot"
| "role_archetype MrCarrier = Some ArTransportNode"
| "role_archetype MrObserver = Some ArBackupCoordinator"
| "role_archetype (MrCast v) = None"

fun swarm_role_text :: "(real \<Rightarrow> string) \<Rightarrow> mission_node_role \<Rightarrow> string" where
  "swarm_role_text ns MrExplorer = ''explorer''"
| "swarm_role_text ns MrRelay = ''relay''"
| "swarm_role_text ns MrCarrier = ''carrier''"
| "swarm_role_text ns MrMedic = ''medic''"
| "swarm_role_text ns MrObserver = ''observer''"
| "swarm_role_text ns (MrCast v) = js_string ns v"

definition archetype_cycle :: "mesh_archetype list" where
  "archetype_cycle = [ArStandbyNode, ArSensorNode, ArScoutDrone, ArBackupCoordinator, ArRelayDrone, ArIndoorRobot, ArRescueRobot, ArTransportNode]"

definition inferArchetype :: "swarm_agent \<Rightarrow> nat \<Rightarrow> mesh_archetype" where
  "inferArchetype n index =
     (let cp = sw_capabilities n
      in case role_archetype (sw_role n) of
           Some a \<Rightarrow> a
         | None \<Rightarrow>
             if sw_mobility n = MobGround \<and> cp_indoorScore cp > 75 / 100 then ArIndoorRobot
             else if cp_meshRangeM cp > 950 then ArRelayDrone
             else if length (cp_sensors cp) \<le> 2 \<and> cp_computeTier cp < 45 / 100 then ArSensorNode
             else if cp_maxPayloadKg cp > 25 then ArTransportNode
             else archetype_cycle ! (index mod length archetype_cycle))"

text \<open>The middle dot of \<open>vendorOrFamily\<close>\<close>

definition middle_dot :: string where
  "middle_dot = [char_of (194::nat), char_of (183::nat)]"

definition relay_suitability :: "mesh_archetype \<Rightarrow> agent_capability \<Rightarrow> real" where
  "relay_suitability a cp =
     (if a = ArRelayDrone then 92 / 100 else if a = ArBackupCoordinator then 78 / 100 else if a = ArSensorNode then 35 / 100
      else if a = ArScoutDrone then 55 / 100 else if a = ArTransportNode then 48 / 100 else 5 / 10 + cp_outdoorScore cp * (2 / 10))"

definition policy_autonomy :: "autonomy_policy \<Rightarrow> real" where
  "policy_autonomy p =
     (if p = ApCoordinatorQueue then 35 / 100 else if p = ApRelayMaintain then 55 / 100 else if p = ApScoutContinue then 82 / 100 else 72 / 100)"

definition buildRichProfile :: "(real \<Rightarrow> string) \<Rightarrow> swarm_agent \<Rightarrow> nat \<Rightarrow> timestamp \<Rightarrow> string \<Rightarrow> rich_profile" where
  "buildRichProfile ns n index now clusterId =
     (let a = inferArchetype n index; cp = sw_capabilities n; relay = (a = ArRelayDrone); off = (sw_offline n = Some True)
      in \<lparr> rf_nodeId = sw_nodeId n, rf_displayName = sw_displayName n,
           rf_vendorOrFamily = sw_vendorId n @ '' '' @ middle_dot @ '' '' @ sw_model n, rf_roleLabel = swarm_role_text ns (sw_role n),
           rf_archetype = a, rf_communicationRangeM = cp_meshRangeM cp * (92 / 100 + real (index mod 5) * (2 / 100)),
           rf_antennaGain01 = min 1 (55 / 100 + cp_outdoorScore cp * (35 / 100) + (if relay then 12 / 100 else 0)), rf_battery01 = 75 / 100,
           rf_trust01 = sw_trust01 n, rf_reliability01 = min 1 (5 / 10 + sw_trust01 n * (45 / 100) + (if relay then 8 / 100 else 0)),
           rf_packetLossSensitivity01 = (if a = ArSensorNode then 85 / 100 else if relay then 25 / 100
             else 45 / 100 + (1 - sw_trust01 n) * (3 / 10)),
           rf_latencySensitivity01 = (if a = ArIndoorRobot then 7 / 10 else if a = ArScoutDrone then 4 / 10 else 5 / 10),
           rf_relaySuitability01 = relay_suitability a cp, rf_autonomyLevel01 = policy_autonomy (sw_autonomyPolicy n),
           rf_sensorStack = cp_sensors cp, rf_position = sw_position n,
           rf_connectivityState = (if off then LinkOffline else if sw_healthStatus n = Some AgentDegraded then LinkDegraded else LinkLinked),
           rf_lastHeartbeatMs = default_to (sw_lastHeartbeatMs n) now, rf_partitionClusterId = clusterId, rf_localQueueDepth = 0,
           rf_recoveryReadiness01 = (if off then 0 else max (8 / 100) (1 - min 1 (cp_recoveryLatencyMs cp / 4500))) \<rparr>)"

definition clusterIdForNode :: "ident \<Rightarrow> ident list list \<Rightarrow> string" where
  "clusterIdForNode i clusters = (case cluster_index clusters i of None \<Rightarrow> ''p0'' | Some k \<Rightarrow> CHR ''p'' # show_nat k)"

subsection \<open>Telemetry\<close>

record mesh_telemetry =
  mtl_raw :: sim_telemetry
  mtl_nodeId :: ident
  mtl_link01 :: real
  mtl_queueDepth :: int
  mtl_duplicate :: bool

text \<open>The label of the source is not read by any code; a sample is a number, never \<open>NaN\<close>.\<close>

definition normalizeTelemetryBatch :: "sim_telemetry list \<Rightarrow> mesh_telemetry list" where
  "normalizeTelemetryBatch samples =
     map (\<lambda>raw. \<lparr> mtl_raw = raw, mtl_nodeId = tls_nodeId raw, mtl_link01 = max 0 (min 1 (tls_link01 raw)), mtl_queueDepth = max 0 (tls_queueDepth raw),
           mtl_duplicate = (tls_duplicate raw = Some True) \<rparr>) samples"

definition apply_sample :: "mesh_telemetry \<Rightarrow> rich_profile \<Rightarrow> rich_profile" where
  "apply_sample t p =
     p\<lparr> rf_battery01 := tls_battery01 (mtl_raw t), rf_localQueueDepth := mtl_queueDepth t,
        rf_connectivityState := (if mtl_link01 t < 25 / 100 \<or> mtl_duplicate t then LinkDegraded else rf_connectivityState p) \<rparr>"

definition applyTelemetryToProfiles :: "rich_profile list \<Rightarrow> mesh_telemetry list \<Rightarrow> rich_profile list" where
  "applyTelemetryToProfiles profiles batch =
     (let byId = foldl (\<lambda>m t. js_put (mtl_nodeId t) t m) [] batch
      in map (\<lambda>p. case js_get byId (rf_nodeId p) of None \<Rightarrow> p | Some t \<Rightarrow> apply_sample t p) profiles)"

subsection \<open>Envelopes\<close>

datatype envelope_status = EsPending | EsDelivered | EsDropped | EsBuffered | EsDuplicate

record mesh_envelope =
  en_messageId :: ident
  en_sender :: ident
  en_receiver :: ident
  en_topic :: string
  en_timestamp :: timestamp
  en_missionId :: ident
  en_sequence :: int
  en_retryCount :: nat
  en_pathTaken :: "ident list"
  en_deliveryStatus :: envelope_status
  en_checksum :: string
  en_payloadJson :: string

definition simpleChecksum :: "string \<Rightarrow> string" where
  "simpleChecksum s = (let h = hashString (units_of s) in replicate (8 - length h) (CHR ''0'') @ h)"

definition message_id :: "ident \<Rightarrow> nat \<Rightarrow> ident" where
  "message_id missionId serial = ''m-'' @ missionId @ ''-'' @ show_nat serial"

definition createMeshEnvelope :: "(real \<Rightarrow> string) \<Rightarrow> nat \<Rightarrow> ident \<Rightarrow> ident \<Rightarrow> string \<Rightarrow> timestamp \<Rightarrow> ident \<Rightarrow> int \<Rightarrow> json \<Rightarrow> mesh_envelope" where
  "createMeshEnvelope ns serial sender receiver topic now missionId seq payload =
     (let payloadJson = json_text ns payload
      in \<lparr> en_messageId = message_id missionId serial, en_sender = sender, en_receiver = receiver, en_topic = topic, en_timestamp = now,
           en_missionId = missionId, en_sequence = seq, en_retryCount = 0, en_pathTaken = [sender], en_deliveryStatus = EsPending,
           en_checksum = simpleChecksum (payloadJson @ topic @ show_int seq), en_payloadJson = payloadJson \<rparr>)"

definition markEnvelope :: "envelope_status \<Rightarrow> ident list \<Rightarrow> mesh_envelope \<Rightarrow> mesh_envelope" where
  "markEnvelope status hops e = e\<lparr> en_deliveryStatus := status, en_pathTaken := hops \<rparr>"

subsection \<open>The message bus\<close>

record mesh_bus =
  mb_outbox :: "mesh_envelope mesh_retry_env list"
  mb_recent :: "mesh_envelope list"
  mb_delivered :: nat
  mb_dropped :: nat
  mb_buffered :: nat
  mb_dupMerged :: nat
  mb_rerouted :: nat
  mb_seenIds :: "ident list"

definition new_mesh_bus :: mesh_bus where
  "new_mesh_bus = \<lparr> mb_outbox = [], mb_recent = [], mb_delivered = 0, mb_dropped = 0, mb_buffered = 0, mb_dupMerged = 0, mb_rerouted = 0, mb_seenIds = [] \<rparr>"

definition pushRecent :: "mesh_envelope \<Rightarrow> mesh_bus \<Rightarrow> mesh_bus" where
  "pushRecent e b = b\<lparr> mb_recent := take 24 (e # mb_recent b) \<rparr>"

definition noteReroute :: "mesh_bus \<Rightarrow> mesh_bus" where
  "noteReroute b = b\<lparr> mb_rerouted := mb_rerouted b + 1 \<rparr>"

text \<open>\<open>deliver\<close>: the envelope is counted and listed as delivered.\<close>

definition deliver_envelope :: "mesh_envelope \<Rightarrow> mesh_bus \<Rightarrow> mesh_bus" where
  "deliver_envelope e b = pushRecent (markEnvelope EsDelivered (en_pathTaken e @ [en_receiver e]) e) (b\<lparr> mb_delivered := mb_delivered b + 1 \<rparr>)"

type_synonym reach_test = "ident \<Rightarrow> ident \<Rightarrow> bool"

text \<open>One draw for the delay, a second one when the receiver is reachable. The result is the bus and the new number of draws.\<close>

definition emitDirect :: "mesh_envelope \<Rightarrow> timestamp \<Rightarrow> real \<Rightarrow> reach_test \<Rightarrow> (nat \<Rightarrow> real) \<Rightarrow> nat \<Rightarrow> mesh_bus \<Rightarrow> mesh_bus \<times> nat" where
  "emitDirect e now loss01 reachable rng k b =
     (let delay = 30 + \<lfloor>rng k * 120 * (1 + loss01)\<rfloor>
      in if \<not> reachable (en_sender e) (en_receiver e)
         then (b\<lparr> mb_buffered := mb_buffered b + 1, mb_outbox := enqueue_mesh (now + delay * 4) None e (mb_outbox b) \<rparr>, k + 1)
         else if rng (k + 1) < loss01
         then (b\<lparr> mb_dropped := mb_dropped b + 1,
                  mb_outbox := enqueue_mesh (now + delay * 2) None (e\<lparr> en_retryCount := en_retryCount e + 1 \<rparr>) (mb_outbox b) \<rparr>, k + 2)
         else (deliver_envelope e b, k + 2))"

definition due_envelopes :: "timestamp \<Rightarrow> mesh_envelope mesh_retry_env list \<Rightarrow> mesh_envelope mesh_retry_env list" where
  "due_envelopes now q = filter (\<lambda>x. mr_deliverAtMs x \<le> now) q"

text \<open>The drop test draws once for each due envelope; the draw of an envelope is found by its place among the due ones.\<close>

definition envelope_place :: "timestamp \<Rightarrow> mesh_envelope mesh_retry_env list \<Rightarrow> mesh_envelope mesh_retry_env \<Rightarrow> nat" where
  "envelope_place now q x = length (takeWhile (\<lambda>y. en_messageId (mr_payload y) \<noteq> en_messageId (mr_payload x)) (due_envelopes now q))"

definition settle_envelope :: "timestamp \<Rightarrow> reach_test \<Rightarrow> mesh_bus \<Rightarrow> mesh_envelope mesh_retry_env \<Rightarrow> mesh_bus" where
  "settle_envelope now reachable b x =
     (let e = mr_payload x
      in if en_receiver e = ''broadcast'' then b
         else if \<not> reachable (en_sender e) (en_receiver e)
         then b\<lparr> mb_buffered := mb_buffered b + 1, mb_outbox := enqueue_mesh (now + 200) None e (mb_outbox b) \<rparr>
         else if en_messageId e \<in> set (mb_seenIds b) then b\<lparr> mb_dupMerged := mb_dupMerged b + 1 \<rparr>
         else deliver_envelope e (b\<lparr> mb_seenIds := set_add (en_messageId e) (mb_seenIds b) \<rparr>))"

definition bus_tick :: "timestamp \<Rightarrow> real \<Rightarrow> reach_test \<Rightarrow> (nat \<Rightarrow> real) \<Rightarrow> nat \<Rightarrow> mesh_bus \<Rightarrow> mesh_bus \<times> nat" where
  "bus_tick now loss01 reachable rng k b =
     (let q = mb_outbox b;
          (ready, kept, dead, requeued) =
            drain_mesh now (\<lambda>x. rng (k + envelope_place now q x) < loss01 * (55 / 100)) (\<lambda>x. 80 + int (mr_attempts x) * 70) 6 q
      in (foldl (settle_envelope now reachable) (b\<lparr> mb_outbox := kept, mb_dropped := mb_dropped b + dead \<rparr>) ready,
          k + length (due_envelopes now q)))"

subsection \<open>The ledger view\<close>

record consolidated_event =
  cse_id :: ident
  cse_atMs :: timestamp
  cse_kind :: string
  cse_summary :: string
  cse_severity :: narrative_severity
  cse_meta :: "obj option"

text \<open>The serial number is the first component.\<close>

definition view_append :: "timestamp \<Rightarrow> string \<Rightarrow> string \<Rightarrow> narrative_severity \<Rightarrow> obj option \<Rightarrow> nat \<times> consolidated_event list \<Rightarrow> nat \<times> consolidated_event list" where
  "view_append now kind summary sev meta ledger =
     (fst ledger + 1, slice_tail 300 (snd ledger @ [\<lparr> cse_id = ''mesh-ev-'' @ show_nat (fst ledger), cse_atMs = now, cse_kind = kind,
        cse_summary = summary, cse_severity = sev, cse_meta = meta \<rparr>]))"

definition buildMeshReplayNarrative :: "consolidated_event list \<Rightarrow> narrative_entry list" where
  "buildMeshReplayNarrative evs =
     map (\<lambda>e. \<lparr> ny_atMs = cse_atMs e, ny_label = cse_kind e, ny_detail = cse_summary e, ny_severity = cse_severity e \<rparr>) (slice_tail 40 evs)"

definition mapV2Ledger :: "mesh_event \<Rightarrow> consolidated_event" where
  "mapV2Ledger ev =
     \<lparr> cse_id = mv_id ev, cse_atMs = mv_timestamp ev, cse_kind = mesh_event_str (mv_eventType ev),
       cse_summary = mv_actorPeerId ev @ '': '' @ mesh_event_str (mv_eventType ev),
       cse_severity = (if mv_eventType ev = MePartitionStart \<or> mv_eventType ev = MePacketLossSim then NvWarn else NvInfo),
       cse_meta = Some (obj_spread (mv_payload ev) [(''sourceLabel'', JStr (source_label_str (mv_sourceLabel ev)))]) \<rparr>"


subsection \<open>The survival engine\<close>

datatype survival_phase = SpSteady | SpBuffering | SpFlushing | SpMerged

record survival_ctx =
  svc_missionId :: ident
  svc_nowMs :: timestamp
  svc_tickIndex :: nat
  svc_seed :: int
  svc_connectivityMode :: connectivity_mode
  svc_graph :: connectivity_snapshot
  svc_nodes :: "swarm_agent list"
  svc_operatorNodeId :: ident
  svc_live :: bool
  svc_meshV2 :: mesh_public_view
  svc_telemetry :: "sim_telemetry list option"

record survival =
  sv_seed :: "32 word"
  sv_cells :: "(ident \<times> ident, discovery_cell) jsmap"
  sv_bus :: mesh_bus
  sv_recovery :: recovery_buffers
  sv_ledger :: "nat \<times> consolidated_event list"
  sv_messageSerial :: nat
  sv_prevClusterCount :: nat
  sv_recoveryPhase :: survival_phase
  sv_stressPresetId :: ident
  sv_relayBoostUntilTick :: nat

text \<open>A new engine takes over the serial numbers of the modules.\<close>

definition new_survival :: "int \<Rightarrow> nat \<Rightarrow> nat \<Rightarrow> survival" where
  "new_survival seed evSerial messageSerial =
     \<lparr> sv_seed = word_of_int seed, sv_cells = [], sv_bus = new_mesh_bus, sv_recovery = \<lparr> rb_byPeer = [], rb_lastFlushAt = None \<rparr>,
       sv_ledger = (evSerial, []), sv_messageSerial = messageSerial, sv_prevClusterCount = 1, sv_recoveryPhase = SpSteady,
       sv_stressPresetId = ''normal_mesh'', sv_relayBoostUntilTick = 0 \<rparr>"

definition reset_survival :: "int option \<Rightarrow> survival \<Rightarrow> survival" where
  "reset_survival seed s =
     (let s1 = new_survival 0 (fst (sv_ledger s)) (sv_messageSerial s)
      in s1\<lparr> sv_seed := (case seed of None \<Rightarrow> sv_seed s | Some x \<Rightarrow> word_of_int x) \<rparr>)"

definition setStressPreset :: "ident \<Rightarrow> survival \<Rightarrow> survival" where
  "setStressPreset i s = s\<lparr> sv_stressPresetId := mp_id (presetById i) \<rparr>"

definition forceRelayNomination :: "timestamp \<Rightarrow> nat \<Rightarrow> survival \<Rightarrow> survival" where
  "forceRelayNomination now tickIndex s =
     s\<lparr> sv_relayBoostUntilTick := tickIndex + 25,
        sv_ledger := view_append now ''relay_nomination_forced'' ''Operator/UI requested relay emphasis for mesh continuity'' NvInfo
          (Some [(''untilTick'', JNum (real (tickIndex + 25)))]) (sv_ledger s) \<rparr>"

definition reachableFn :: "connectivity_snapshot \<Rightarrow> ident \<Rightarrow> reach_test" where
  "reachableFn snap opn a b \<longleftrightarrow>
     (let on_side = (\<lambda>i. i \<in> set (cs_operatorReachable snap) \<or> i = opn)
      in if a \<in> set (cs_stalePeers snap) \<or> b \<in> set (cs_stalePeers snap) then False
         else if \<not> on_side a \<or> \<not> on_side b then False
         else list_ex (\<lambda>e. joins e a b) (cs_edges snap))"

definition survival_rng :: "survival_ctx \<Rightarrow> nat \<Rightarrow> real" where
  "survival_rng cx = mulberry32 (uint (word_of_int (svc_seed cx) XOR word_of_int (int (svc_tickIndex cx) * 2654435761) :: 32 word))"

definition survival_loss :: "survival_ctx \<Rightarrow> survival \<Rightarrow> real" where
  "survival_loss cx s = min (92 / 100) (chl_stress01 (mpv_health (svc_meshV2 cx)) + mp_loss01 (presetById (sv_stressPresetId s)) * (35 / 100))"

definition survival_nodes :: "survival_ctx \<Rightarrow> swarm_agent list" where
  "survival_nodes cx = filter (\<lambda>n. sw_offline n \<noteq> Some True) (svc_nodes cx)"

definition survival_profiles :: "(real \<Rightarrow> string) \<Rightarrow> survival_ctx \<Rightarrow> rich_profile list" where
  "survival_profiles ns cx =
     (let profiles = map (\<lambda>ix. buildRichProfile ns (snd ix) (fst ix) (svc_nowMs cx)
            (clusterIdForNode (sw_nodeId (snd ix)) (cs_partitionClusters (svc_graph cx)))) (enumerate 0 (survival_nodes cx))
      in case svc_telemetry cx of
           None \<Rightarrow> profiles
         | Some t \<Rightarrow> if t = [] then profiles else applyTelemetryToProfiles profiles (normalizeTelemetryBatch t))"

text \<open>\<open>advanceDiscoveryRegistry\<close> with the number of draws it makes\<close>

definition discover_with_draws :: "survival_ctx \<Rightarrow> real \<Rightarrow> (ident \<times> ident, discovery_cell) jsmap \<Rightarrow> (ident \<times> ident, discovery_cell) jsmap \<times> nat" where
  "discover_with_draws cx loss01 cells =
     foldl (observe (svc_graph cx) (discovery_speed (mpv_stressMode (svc_meshV2 cx))) loss01 (survival_rng cx)) (cells, 0)
       (map sw_nodeId (survival_nodes cx))"

definition boost_first :: "relay_nomination list \<Rightarrow> relay_nomination list" where
  "boost_first plan =
     (case plan of [] \<Rightarrow> []
      | r # rs \<Rightarrow> r\<lparr> rn_score01 := min 1 (rn_score01 r + 18 / 100), rn_reasons := rn_reasons r @ [''UI forced relay window''] \<rparr> # rs)"

definition farthest_targets :: "survival_ctx \<Rightarrow> ident list" where
  "farthest_targets cx =
     map sw_nodeId (slice_tail 5 (js_sort (by_asc (\<lambda>n. sqrt (pos_x (sw_position n) ^ 2 + pos_z (sw_position n) ^ 2)))
       (filter (\<lambda>n. sw_nodeId n \<noteq> svc_operatorNodeId cx) (survival_nodes cx))))"

definition sync_message :: "(real \<Rightarrow> string) \<Rightarrow> survival_ctx \<Rightarrow> real \<Rightarrow> survival \<Rightarrow> nat \<Rightarrow> ident \<Rightarrow> mesh_envelope" where
  "sync_message ns cx loss01 s i target =
     createMeshEnvelope ns (sv_messageSerial s) (svc_operatorNodeId cx) target ''state_sync'' (svc_nowMs cx) (svc_missionId cx) (int (svc_tickIndex cx + i))
       (JObj [(''topic'', JStr ''state_sync''),
         (''body'', JObj [(''preset'', JStr (mp_id (presetById (sv_stressPresetId s)))), (''loss01'', JNum loss01)])])"

definition send_sync :: "(real \<Rightarrow> string) \<Rightarrow> survival_ctx \<Rightarrow> real \<Rightarrow> survival \<times> nat \<Rightarrow> nat \<times> relay_nomination \<Rightarrow> survival \<times> nat" where
  "send_sync ns cx loss01 sk ir =
     (let (s, k) = sk;
          (b, k') = emitDirect (sync_message ns cx loss01 s (fst ir) (rn_nodeId (snd ir))) (svc_nowMs cx) loss01
            (reachableFn (svc_graph cx) (svc_operatorNodeId cx)) (survival_rng cx) k (sv_bus s)
      in (s\<lparr> sv_bus := b, sv_messageSerial := sv_messageSerial s + 1 \<rparr>, k'))"

definition step_bus :: "(real \<Rightarrow> string) \<Rightarrow> survival_ctx \<Rightarrow> real \<Rightarrow> relay_nomination list \<Rightarrow> nat \<Rightarrow> survival \<Rightarrow> survival" where
  "step_bus ns cx loss01 plan k s =
     (let (s1, k1) = (if svc_tickIndex cx mod 4 = 0 then foldl (send_sync ns cx loss01) (s, k) (enumerate 0 (take 2 plan)) else (s, k))
      in s1\<lparr> sv_bus := fst (bus_tick (svc_nowMs cx) loss01 (reachableFn (svc_graph cx) (svc_operatorNodeId cx)) (survival_rng cx) k1 (sv_bus s1)) \<rparr>)"

text \<open>The arrow of the summary\<close>

definition up_arrow :: string where
  "up_arrow = [char_of (226::nat), char_of (134::nat), char_of (145::nat)]"

definition em_dash :: string where
  "em_dash = [char_of (226::nat), char_of (128::nat), char_of (148::nat)]"

definition partition_json :: "partition_summary \<Rightarrow> json" where
  "partition_json p = JObj [(''clusterCount'', JNum (real (su_clusterCount p))), (''largestClusterSize'', JNum (real (su_largestClusterSize p))),
     (''operatorClusterSize'', JNum (real (su_operatorClusterSize p))), (''bridgeHintCount'', JNum (real (su_bridgeHintCount p)))]"

definition detect_partition :: "survival_ctx \<Rightarrow> partition_summary \<Rightarrow> survival \<Rightarrow> survival" where
  "detect_partition cx part s =
     s\<lparr> sv_recoveryPhase := SpBuffering,
        sv_recovery := foldl (\<lambda>rb n. buffer_item (sw_nodeId n) \<lparr> bo_atMs = svc_nowMs cx, bo_kind = ''partition_buffer'',
          bo_payload = [(''clusters'', JNum (real (su_clusterCount part)))] \<rparr> rb) (sv_recovery s) (survival_nodes cx),
        sv_ledger := view_append (svc_nowMs cx) ''partition_detected'' (''Clusters '' @ up_arrow @ '' '' @ show_nat (su_clusterCount part)
          @ '' (operator side '' @ show_nat (su_operatorClusterSize part) @ '')'') NvWarn (Some [(''part'', partition_json part)]) (sv_ledger s) \<rparr>"

definition flush_partition :: "survival_ctx \<Rightarrow> survival \<Rightarrow> survival" where
  "flush_partition cx s =
     (let (flushed, rb) = drainAll_buffers (svc_nowMs cx) (sv_recovery s)
      in s\<lparr> sv_recovery := rb, sv_recoveryPhase := (if flushed \<noteq> [] then SpFlushing else SpMerged),
            sv_ledger := view_append (svc_nowMs cx) ''recovery_flush'' (''Merged partitions '' @ em_dash @ '' flushed '' @ show_nat (length flushed)
              @ '' buffered items'') NvInfo (Some [(''flushed'', JNum (real (length flushed)))]) (sv_ledger s) \<rparr>)"

definition follow_partition :: "survival_ctx \<Rightarrow> survival \<Rightarrow> survival" where
  "follow_partition cx s =
     (let part = summarizePartitions (svc_graph cx) (svc_operatorNodeId cx); n = su_clusterCount part; prev = sv_prevClusterCount s;
          s1 = (if n > prev then detect_partition cx part s else s);
          s2 = (if n < prev \<and> prev > 1 then flush_partition cx s1
                else if sv_recoveryPhase s1 = SpFlushing then s1\<lparr> sv_recoveryPhase := SpMerged \<rparr>
                else if n \<le> 1 then s1\<lparr> sv_recoveryPhase := SpSteady \<rparr> else s1)
      in s2\<lparr> sv_prevClusterCount := n \<rparr>)"

definition autonomy_pulse :: "survival_ctx \<Rightarrow> survival \<Rightarrow> survival" where
  "autonomy_pulse cx s =
     (if svc_tickIndex cx mod 17 \<noteq> 0 then s
      else let p = presetById (sv_stressPresetId s)
           in s\<lparr> sv_ledger := view_append (svc_nowMs cx) ''mesh_autonomy_pulse''
                   (''Local autonomy sustained under '' @ stress_str (mpv_stressMode (svc_meshV2 cx)) @ '' ('' @ mp_label p @ '')'') NvInfo
                   (Some [(''discoverySpeed'', JNum (mp_discoverySpeed01 p))]) (sv_ledger s) \<rparr>)"

record survival_view =
  svv_missionId :: ident
  svv_nowMs :: timestamp
  svv_tickIndex :: nat
  svv_stressPresetId :: ident
  svv_constraintMode :: constraint_mode
  svv_vertexConnectivity :: connectivity_mode
  svv_vertexStress :: stress_mode
  svv_profiles :: "rich_profile list"
  svv_discovery :: "discovery_cell list"
  svv_graph :: operational_graph
  svv_relayPlan :: "relay_nomination list"
  svv_routePlans :: "route_plan list"
  svv_bus :: mesh_bus
  svv_phase :: survival_phase
  svv_pendingFlush :: nat
  svv_lastMergeAtMs :: "timestamp option"
  svv_ledgerTail :: "consolidated_event list"
  svv_replay :: "narrative_entry list"
  svv_live :: bool

text \<open>The view shows the recent messages and the counters of the bus; here it holds the bus itself.\<close>

definition survival_view_of :: "survival_ctx \<Rightarrow> rich_profile list \<Rightarrow> operational_graph \<Rightarrow> relay_nomination list \<Rightarrow> route_plan list \<Rightarrow> survival \<Rightarrow> survival_view" where
  "survival_view_of cx profiles graph plan routes s =
     \<lparr> svv_missionId = svc_missionId cx, svv_nowMs = svc_nowMs cx, svv_tickIndex = svc_tickIndex cx, svv_stressPresetId = sv_stressPresetId s,
       svv_constraintMode = constraintModeFromSignals (svc_connectivityMode cx) (mpv_stressMode (svc_meshV2 cx)),
       svv_vertexConnectivity = svc_connectivityMode cx, svv_vertexStress = mpv_stressMode (svc_meshV2 cx),
       svv_profiles = map (\<lambda>p. p\<lparr> rf_partitionClusterId := clusterIdForNode (rf_nodeId p) (cs_partitionClusters (svc_graph cx)) \<rparr>) profiles,
       svv_discovery = discoveryEntries (sv_cells s), svv_graph = graph, svv_relayPlan = plan, svv_routePlans = routes, svv_bus = sv_bus s,
       svv_phase = sv_recoveryPhase s, svv_pendingFlush = pendingCount (sv_recovery s), svv_lastMergeAtMs = rb_lastFlushAt (sv_recovery s),
       svv_ledgerTail = slice_tail 44 (js_sort (by_asc cse_atMs)
         (slice_tail 22 (snd (sv_ledger s)) @ map mapV2Ledger (slice_tail 14 (mpv_ledgerTail (svc_meshV2 cx))))),
       svv_replay = buildMeshReplayNarrative (slice_tail 50 (snd (sv_ledger s))), svv_live = svc_live cx \<rparr>"

text \<open>A step returns when its route search does.\<close>

definition survival_step :: "(real \<Rightarrow> string) \<Rightarrow> survival_ctx \<Rightarrow> survival \<Rightarrow> (survival_view \<times> survival) option" where
  "survival_step ns cx s =
     (case computeRoutePlans (svc_graph cx) (svc_operatorNodeId cx) (farthest_targets cx) of
        None \<Rightarrow> None
      | Some routes \<Rightarrow>
          (let loss01 = survival_loss cx s; profiles = survival_profiles ns cx; (cells, k) = discover_with_draws cx loss01 (sv_cells s);
               graph = buildOperationalGraph (svc_graph cx) profiles;
               plan0 = planRelays (svc_operatorNodeId cx) (svc_graph cx) profiles graph (\<lambda>i. survival_rng cx (k + i));
               k1 = k + length (filter (\<lambda>p. rf_connectivityState p \<noteq> LinkOffline) profiles);
               plan = (if svc_tickIndex cx < sv_relayBoostUntilTick s then boost_first plan0 else plan0);
               s1 = step_bus ns cx loss01 plan k1 (s\<lparr> sv_cells := cells \<rparr>); s2 = autonomy_pulse cx (follow_partition cx s1)
           in Some (survival_view_of cx profiles graph plan routes s2, s2)))"

datatype survival_op = SoStep survival_ctx | SoReset "int option" | SoPreset ident | SoForce timestamp nat

text \<open>A step whose route search does not return leaves nothing to go on from.\<close>

fun survival_apply :: "(real \<Rightarrow> string) \<Rightarrow> survival \<Rightarrow> survival_op \<Rightarrow> survival option" where
  "survival_apply ns s (SoStep cx) = map_option snd (survival_step ns cx s)"
| "survival_apply ns s (SoReset seed) = Some (reset_survival seed s)"
| "survival_apply ns s (SoPreset i) = Some (setStressPreset i s)"
| "survival_apply ns s (SoForce now t) = Some (forceRelayNomination now t s)"

fun survival_run :: "(real \<Rightarrow> string) \<Rightarrow> survival \<Rightarrow> survival_op list \<Rightarrow> survival option" where
  "survival_run ns s [] = Some s"
| "survival_run ns s (c # cs) = Option.bind (survival_apply ns s c) (\<lambda>s'. survival_run ns s' cs)"


subsection \<open>The bus delivers no message twice\<close>

abbreviation queued_id :: "mesh_envelope mesh_retry_env \<Rightarrow> ident" where
  "queued_id x \<equiv> en_messageId (mr_payload x)"

definition issued :: "nat \<Rightarrow> ident \<Rightarrow> bool" where
  "issued serial i \<longleftrightarrow> (\<exists>m n. n < serial \<and> i = message_id m n)"

lemma message_id_serial: assumes "message_id m n = message_id m' n'" shows "n = n'"
proof -
  have digits: "CHR ''-'' \<notin> set (rev (show_nat k))" for k using show_nat_digits [of "CHR ''-''" k] by auto
  have "rev (show_nat n) @ CHR ''-'' # rev (''m-'' @ m) = rev (show_nat n') @ CHR ''-'' # rev (''m-'' @ m')"
    using arg_cong [OF assms [unfolded message_id_def], of rev] by simp
  then have "rev (show_nat n) = rev (show_nat n')" using split_at_unique digits by metis
  then show ?thesis by (simp add: show_nat_inj)
qed

lemma fresh_id: "\<not> issued serial (message_id m serial)"
  using message_id_serial by (auto simp: issued_def)

text \<open>The state of a bus while a tick has still to settle the envelopes \<open>rest\<close>.\<close>

definition ids_ok :: "nat \<Rightarrow> ident list \<Rightarrow> ident list \<Rightarrow> ident list \<Rightarrow> ident list \<Rightarrow> bool" where
  "ids_ok serial rest outbox recent seen \<longleftrightarrow>
     distinct (rest @ outbox @ recent) \<and> set seen \<inter> (set rest \<union> set outbox) = {}
     \<and> (\<forall>i \<in> set rest \<union> set outbox \<union> set recent \<union> set seen. issued serial i)"

definition bus_ok :: "nat \<Rightarrow> mesh_envelope mesh_retry_env list \<Rightarrow> mesh_bus \<Rightarrow> bool" where
  "bus_ok serial rest b \<longleftrightarrow>
     ids_ok serial (map queued_id rest) (map queued_id (mb_outbox b)) (map en_messageId (mb_recent b)) (mb_seenIds b) \<and> mb_dupMerged b = 0"

lemma ids_ok_shrink: "ids_ok serial rest outbox recent seen \<Longrightarrow> ids_ok serial rest outbox (take n recent) seen"
  by (auto simp: ids_ok_def dest: in_set_takeD)

lemma ids_ok_new:
  assumes "ids_ok serial rest outbox recent seen" "issued serial i" "i \<notin> set rest \<union> set outbox \<union> set recent"
  shows "ids_ok serial rest outbox (i # recent) seen" "i \<notin> set seen \<Longrightarrow> ids_ok serial rest (outbox @ [i]) recent seen"
  using assms by (auto simp: ids_ok_def)

lemma ids_ok_settled:
  assumes "ids_ok serial (i # rest) outbox recent seen"
  shows "ids_ok serial rest outbox recent seen" "ids_ok serial rest (outbox @ [i]) recent seen" "ids_ok serial rest outbox (i # recent) (set_add i seen)"
    "i \<notin> set seen"
  using assms by (auto simp: ids_ok_def)

lemma ids_ok_drain:
  assumes "ids_ok serial [] outbox recent seen" "distinct (rest @ kept)" "set (rest @ kept) \<subseteq> set outbox"
  shows "ids_ok serial rest kept recent seen"
  using assms by (auto simp: ids_ok_def)

lemma bus_ok_later: "bus_ok serial rest b \<Longrightarrow> bus_ok (Suc serial) rest b"
  unfolding bus_ok_def ids_ok_def issued_def using less_SucI by metis

lemma deliver_envelope_ok:
  assumes "ids_ok serial (map queued_id rest) (map queued_id (mb_outbox b)) (en_messageId e # map en_messageId (mb_recent b)) (mb_seenIds b)" "mb_dupMerged b = 0"
  shows "bus_ok serial rest (deliver_envelope e b)"
  using ids_ok_shrink [OF assms(1), of 24] assms(2)
  by (simp add: bus_ok_def deliver_envelope_def pushRecent_def markEnvelope_def take_map)

lemma bus_ok_emit:
  assumes ok: "bus_ok serial [] b" and e: "en_messageId e = message_id m serial"
  shows "bus_ok (Suc serial) [] (fst (emitDirect e now loss01 reachable rng k b))"
proof -
  note later = bus_ok_later [OF ok, unfolded bus_ok_def]
  have issued: "issued (Suc serial) (en_messageId e)" unfolding issued_def e by blast
  have fresh: "en_messageId e \<notin> set (map queued_id []) \<union> set (map queued_id (mb_outbox b)) \<union> set (map en_messageId (mb_recent b))"
    "en_messageId e \<notin> set (mb_seenIds b)"
    using ok fresh_id [of serial m] unfolding e bus_ok_def ids_ok_def by blast+
  note new = ids_ok_new [OF conjunct1 [OF later] issued fresh(1)]
  have "bus_ok (Suc serial) [] (deliver_envelope e b)" using deliver_envelope_ok new(1) later by blast
  moreover have "bus_ok (Suc serial) [] (b\<lparr> mb_buffered := x, mb_outbox := enqueue_mesh t None e (mb_outbox b) \<rparr>)"
    "bus_ok (Suc serial) [] (b\<lparr> mb_dropped := x, mb_outbox := enqueue_mesh t None (e\<lparr> en_retryCount := r \<rparr>) (mb_outbox b) \<rparr>)" for x t r
    using new(2) [OF fresh(2)] later by (simp_all add: bus_ok_def enqueue_mesh_def)
  ultimately show ?thesis by (simp add: emitDirect_def Let_def)
qed

lemma drain_ids:
  assumes "drain_mesh now sd bo mx q = (ready, kept, dead, requeued)" "distinct (map queued_id q)"
  shows "distinct (map queued_id ready @ map queued_id kept) \<and> set (map queued_id ready @ map queued_id kept) \<subseteq> set (map queued_id q)"
  using assms
proof (induction q arbitrary: ready kept dead requeued rule: rev_induct)
  case Nil
  then show ?case by (simp add: drain_mesh_def)
next
  case (snoc x q)
  obtain r1 k1 d1 n1 where q: "drain_mesh now sd bo mx q = (r1, k1, d1, n1)" by (metis prod_cases4)
  define A B Q i where "A = map queued_id r1" "B = map queued_id k1" "Q = map queued_id q" "i = queued_id x"
  have ih: "distinct (A @ B)" "set (A @ B) \<subseteq> set Q" using snoc.IH [OF q] snoc.prems(2) by (simp_all add: A_B_Q_i_def)
  have new: "i \<notin> set Q" using snoc.prems(2) by (simp add: A_B_Q_i_def)
  have "drain_mesh_item now sd bo mx (r1, k1, d1, n1) x = (ready, kept, dead, requeued)"
    using snoc.prems(1) q by (simp add: drain_mesh_def)
  then have "(map queued_id ready, map queued_id kept) \<in> {(A, B @ [i]), (A, B), (A @ [i], B)}"
    by (auto simp: drain_mesh_item_def Let_def A_B_Q_i_def split: if_splits)
  then have "distinct (R @ K) \<and> set (R @ K) \<subseteq> set (Q @ [i])" if "R = map queued_id ready" "K = map queued_id kept" for R K
    unfolding that [symmetric] using ih new by auto
  then show ?case unfolding map_append list.map A_B_Q_i_def(3,4) [symmetric] by blast
qed

lemma settle_ok: assumes "bus_ok serial (x # rest) b" shows "bus_ok serial rest (settle_envelope now reachable b x)"
proof -
  have ids: "ids_ok serial (queued_id x # map queued_id rest) (map queued_id (mb_outbox b)) (map en_messageId (mb_recent b)) (mb_seenIds b)"
    and none: "mb_dupMerged b = 0"
    using assms by (simp_all add: bus_ok_def)
  note settled = ids_ok_settled [OF ids]
  have "bus_ok serial rest (deliver_envelope (mr_payload x) (b\<lparr> mb_seenIds := set_add (queued_id x) (mb_seenIds b) \<rparr>))"
    using settled(3) none by (intro deliver_envelope_ok) simp_all
  then show ?thesis using settled none by (simp add: settle_envelope_def Let_def bus_ok_def enqueue_mesh_def)
qed

lemma tick_ok: assumes "bus_ok serial [] b" shows "bus_ok serial [] (fst (bus_tick now loss01 reachable rng k b))"
proof -
  let ?sd = "\<lambda>x. rng (k + envelope_place now (mb_outbox b) x) < loss01 * (55 / 100)" let ?bo = "\<lambda>x. 80 + int (mr_attempts x) * 70"
  obtain ready kept dead requeued where d: "drain_mesh now ?sd ?bo 6 (mb_outbox b) = (ready, kept, dead, requeued)" by (metis prod_cases4)
  have ids: "ids_ok serial [] (map queued_id (mb_outbox b)) (map en_messageId (mb_recent b)) (mb_seenIds b)" using assms by (simp add: bus_ok_def)
  then have "distinct (map queued_id (mb_outbox b))" unfolding ids_ok_def by (metis append_Nil distinct_append)
  from drain_ids [OF d this] have "ids_ok serial (map queued_id ready) (map queued_id kept) (map en_messageId (mb_recent b)) (mb_seenIds b)"
    by (intro ids_ok_drain [OF ids]) blast+
  then have "bus_ok serial ready (b\<lparr> mb_outbox := kept, mb_dropped := n \<rparr>)" for n using assms by (simp add: bus_ok_def)
  moreover have "bus_ok serial xs c \<Longrightarrow> bus_ok serial [] (foldl (settle_envelope now reachable) c xs)" for xs c
    by (induction xs arbitrary: c) (simp_all add: settle_ok)
  ultimately show ?thesis unfolding bus_tick_def Let_def d prod.case fst_conv by blast
qed

definition survival_bus_ok :: "survival \<Rightarrow> bool" where
  "survival_bus_ok s \<longleftrightarrow> bus_ok (sv_messageSerial s) [] (sv_bus s)"

lemma new_bus_ok: "bus_ok serial [] new_mesh_bus"
  by (simp add: bus_ok_def ids_ok_def new_mesh_bus_def)

lemma send_sync_ok: "survival_bus_ok (fst sk) \<Longrightarrow> survival_bus_ok (fst (send_sync ns cx loss01 sk ir))"
  by (cases sk)
    (auto simp: send_sync_def survival_bus_ok_def split_beta sync_message_def createMeshEnvelope_def Let_def intro!: bus_ok_emit [of _ _ _ "svc_missionId cx"])

lemma step_bus_ok: assumes "survival_bus_ok s" shows "survival_bus_ok (step_bus ns cx loss01 plan k s)"
proof -
  have fold: "survival_bus_ok (fst sk) \<Longrightarrow> survival_bus_ok (fst (foldl (send_sync ns cx loss01) sk irs))" for sk irs
    by (induction irs arbitrary: sk) (simp_all add: send_sync_ok)
  obtain s1 k1 where r: "(if svc_tickIndex cx mod 4 = 0 then foldl (send_sync ns cx loss01) (s, k) (enumerate 0 (take 2 plan)) else (s, k)) = (s1, k1)"
    by (metis surj_pair)
  have "survival_bus_ok s1" using fold [of "(s, k)" "enumerate 0 (take 2 plan)"] assms r by (auto split: if_splits)
  then show ?thesis by (simp add: step_bus_def r survival_bus_ok_def tick_ok)
qed

lemma follow_bus: "sv_bus (autonomy_pulse cx (follow_partition cx s)) = sv_bus s"
  "sv_messageSerial (autonomy_pulse cx (follow_partition cx s)) = sv_messageSerial s"
  by (simp_all add: autonomy_pulse_def follow_partition_def detect_partition_def flush_partition_def drainAll_buffers_def Let_def)

lemma survival_step_some:
  assumes "survival_step ns cx s = Some (v, s')"
  shows "\<exists>cells loss01 plan k. s' = autonomy_pulse cx (follow_partition cx (step_bus ns cx loss01 plan k (s\<lparr> sv_cells := cells \<rparr>)))"
  using assms by (auto simp: survival_step_def Let_def split_beta split: option.splits)

lemma survival_apply_ok: assumes "survival_bus_ok s" "survival_apply ns s c = Some s'" shows "survival_bus_ok s'"
proof (cases c)
  case (SoStep cx)
  then obtain v where "survival_step ns cx s = Some (v, s')" using assms(2) by auto
  then obtain cells loss01 plan k where s': "s' = autonomy_pulse cx (follow_partition cx (step_bus ns cx loss01 plan k (s\<lparr> sv_cells := cells \<rparr>)))"
    using survival_step_some by blast
  have "survival_bus_ok (s\<lparr> sv_cells := cells \<rparr>)" using assms(1) by (simp add: survival_bus_ok_def)
  then show ?thesis using step_bus_ok unfolding s' survival_bus_ok_def follow_bus by blast
next
  case (SoReset seed)
  then show ?thesis using assms(2) new_bus_ok by (auto simp: reset_survival_def new_survival_def survival_bus_ok_def Let_def)
next
  case (SoPreset i)
  then show ?thesis using assms by (auto simp: setStressPreset_def survival_bus_ok_def)
next
  case (SoForce now t)
  then show ?thesis using assms by (auto simp: forceRelayNomination_def survival_bus_ok_def)
qed

lemma survival_run_keeps:
  assumes "survival_run ns s cs = Some s'" "P s" and step: "\<And>s c s'. P s \<Longrightarrow> survival_apply ns s c = Some s' \<Longrightarrow> P s'"
  shows "P s'"
  using assms(1,2)
proof (induction cs arbitrary: s)
  case (Cons c cs)
  then obtain t where "survival_apply ns s c = Some t" "survival_run ns t cs = Some s'" by (auto simp: Option.bind_eq_Some_conv)
  then show ?case using Cons step by blast
qed simp

text \<open>
  C17. Whatever calls an engine receives, a message is either still in the outbox or delivered once or given up: no identifier is
  listed twice among the queued and the recently delivered messages, and the counter of merged duplicates never leaves zero.
\<close>

theorem bus_delivers_once:
  "(case survival_run ns (new_survival seed evSerial messageSerial) cs of
      None \<Rightarrow> True
    | Some s \<Rightarrow> distinct (map queued_id (mb_outbox (sv_bus s)) @ map en_messageId (mb_recent (sv_bus s))) \<and> mb_dupMerged (sv_bus s) = 0)"
proof (cases "survival_run ns (new_survival seed evSerial messageSerial) cs")
  case (Some s)
  have "survival_bus_ok (new_survival seed evSerial messageSerial)" using new_bus_ok by (simp add: survival_bus_ok_def new_survival_def)
  then have "survival_bus_ok s" by (rule survival_run_keeps [OF Some]) (blast intro: survival_apply_ok)
  then show ?thesis using Some by (simp add: survival_bus_ok_def bus_ok_def ids_ok_def)
qed simp

subsection \<open>Recovery buffers hold something only during a partition\<close>

definition buffers_ok :: "survival \<Rightarrow> bool" where
  "buffers_ok s \<longleftrightarrow> sv_prevClusterCount s \<ge> 1
     \<and> (if sv_recoveryPhase s = SpBuffering then sv_prevClusterCount s > 1 else concat (js_values (rb_byPeer (sv_recovery s))) = [])"

lemma follow_buffers: assumes "buffers_ok s" shows "buffers_ok (follow_partition cx s)"
proof -
  define part where "part = summarizePartitions (svc_graph cx) (svc_operatorNodeId cx)"
  have n: "su_clusterCount part \<ge> 1" by (simp add: part_def summarizePartitions_def)
  consider (more) "su_clusterCount part > sv_prevClusterCount s" | (less) "su_clusterCount part < sv_prevClusterCount s"
    | (same) "su_clusterCount part = sv_prevClusterCount s" by linarith
  then show ?thesis
  proof cases
    case more
    then show ?thesis using assms by (auto simp: follow_partition_def part_def [symmetric] Let_def detect_partition_def buffers_ok_def)
  next
    case less
    then show ?thesis using assms n
      by (auto simp: follow_partition_def part_def [symmetric] Let_def flush_partition_def drainAll_buffers_def buffers_ok_def js_values_def)
  next
    case same
    then show ?thesis using assms n by (auto simp: follow_partition_def part_def [symmetric] Let_def buffers_ok_def split: if_splits)
  qed
qed

definition recovery_state :: "survival \<Rightarrow> recovery_buffers \<times> nat \<times> survival_phase" where
  "recovery_state s = (sv_recovery s, sv_prevClusterCount s, sv_recoveryPhase s)"

lemma bus_buffers: "recovery_state (step_bus ns cx loss01 plan k s) = recovery_state s"
proof -
  have "recovery_state (fst (send_sync ns cx loss01 sk ir)) = recovery_state (fst sk)" for sk ir
    by (simp add: send_sync_def split_beta recovery_state_def)
  note fold = fold_keeps [where f = "\<lambda>sk. recovery_state (fst sk)", OF this]
  have "recovery_state (s\<lparr> sv_bus := b \<rparr>) = recovery_state s" for s b by (simp add: recovery_state_def)
  then show ?thesis by (simp add: step_bus_def Let_def split_beta fold)
qed

lemma pulse_buffers: "buffers_ok (autonomy_pulse cx s) = buffers_ok s"
  by (simp add: autonomy_pulse_def buffers_ok_def Let_def)

lemma survival_apply_buffers: assumes "buffers_ok s" "survival_apply ns s c = Some s'" shows "buffers_ok s'"
proof (cases c)
  case (SoStep cx)
  then obtain v where "survival_step ns cx s = Some (v, s')" using assms(2) by auto
  then obtain cells loss01 plan k where s': "s' = autonomy_pulse cx (follow_partition cx (step_bus ns cx loss01 plan k (s\<lparr> sv_cells := cells \<rparr>)))"
    using survival_step_some by blast
  have "buffers_ok (step_bus ns cx loss01 plan k (s\<lparr> sv_cells := cells \<rparr>))"
    using assms(1) bus_buffers [of ns cx loss01 plan k "s\<lparr> sv_cells := cells \<rparr>"] by (auto simp: buffers_ok_def recovery_state_def)
  then have "buffers_ok (follow_partition cx (step_bus ns cx loss01 plan k (s\<lparr> sv_cells := cells \<rparr>)))" by (rule follow_buffers)
  then show ?thesis unfolding s' pulse_buffers .
next
  case (SoReset seed)
  then show ?thesis using assms(2) by (auto simp: reset_survival_def new_survival_def buffers_ok_def js_values_def Let_def)
next
  case (SoPreset i)
  then show ?thesis using assms by (auto simp: setStressPreset_def buffers_ok_def)
next
  case (SoForce now t)
  then show ?thesis using assms by (auto simp: forceRelayNomination_def buffers_ok_def)
qed

text \<open>
  The engine reports \<open>buffering\<close> only while there is more than one cluster, and in every other phase nothing waits in its recovery buffers.
\<close>

theorem buffers_only_while_split:
  "(case survival_run ns (new_survival seed evSerial messageSerial) cs of
      None \<Rightarrow> True
    | Some s \<Rightarrow> if sv_recoveryPhase s = SpBuffering then sv_prevClusterCount s > 1 else concat (js_values (rb_byPeer (sv_recovery s))) = [])"
proof (cases "survival_run ns (new_survival seed evSerial messageSerial) cs")
  case (Some s)
  have "buffers_ok (new_survival seed evSerial messageSerial)" by (simp add: buffers_ok_def new_survival_def js_values_def)
  then have "buffers_ok s" by (rule survival_run_keeps [OF Some]) (blast intro: survival_apply_buffers)
  then show ?thesis using Some by (auto simp: buffers_ok_def)
qed simp

end
