(* ===== verification/PeerState.thy ===== *)
theory PeerState
  imports Connectivity LatticeServices
begin

section \<open>Peers, replicated state and the outbox of the client\<close>

text \<open>
  Models the coordination layer that a browser client runs: \<open>types/p2p.ts\<close>, \<open>store/peerDiscovery.ts\<close>, \<open>store/stateManager.ts\<close>,
  \<open>lib/reliableSender.ts\<close> and \<open>lib/foxmq/replicatedKv.ts\<close> of \<open>src/src\<close>. The clock is an argument, and so is a generator where the code
  draws; the persisted queue and bucket are the state. A version is a number as it arrives in a message. The lemmas
  show what the version numbers of two replicas reconcile and what they do not, that the outbox accounts for every item, and what
  concurrent writes of two tabs do to each other.
\<close>

subsection \<open>Types\<close>

datatype peer_status = PsActive | PsStale | PsDead

datatype peer_role = PrExplorer | PrRelay | PrStandby | PrCast string

fun peer_role_str :: "peer_role \<Rightarrow> string" where
  "peer_role_str PrExplorer = ''explorer''"
| "peer_role_str PrRelay = ''relay''"
| "peer_role_str PrStandby = ''standby''"
| "peer_role_str (PrCast s) = s"

definition peer_role_of :: "string \<Rightarrow> peer_role" where
  "peer_role_of s =
     (if s = ''explorer'' then PrExplorer else if s = ''relay'' then PrRelay else if s = ''standby'' then PrStandby else PrCast s)"

fun peer_status_str :: "peer_status \<Rightarrow> string" where
  "peer_status_str PsActive = ''active''"
| "peer_status_str PsStale = ''stale''"
| "peer_status_str PsDead = ''dead''"

record peer_info =
  pi_nodeId :: ident
  pi_name :: string
  pi_status :: peer_status
  pi_lastHeartbeat :: timestamp
  pi_staleSince :: "timestamp option"
  pi_depth :: real
  pi_role :: peer_role
  pi_explorerVersion :: int
  pi_explorerSince :: timestamp
  pi_partitionId :: ident
  pi_battery :: real
  pi_position :: xyz_point

type_synonym peer_table = "(ident, peer_info) jsmap"

record gossip_row =
  gr_id :: ident
  gr_role :: string
  gr_depth :: real
  gr_status :: string

text \<open>The payload is \<open>{ peers }\<close> with a list of peers for \<open>GOSSIP_PEERS\<close> and an object of unknown values otherwise.\<close>

datatype gossip_payload = GpPeers "gossip_row list" | GpObject obj

record gossip_message =
  gm_id :: ident
  gm_type :: string
  gm_source :: ident
  gm_target :: ident
  gm_payload :: gossip_payload
  gm_timestamp :: timestamp
  gm_ttl :: int

record coordination_event =
  co_id :: ident
  co_timestamp :: timestamp
  co_type :: string
  co_description :: string
  co_nodeId :: "ident option"

subsection \<open>Discovery of peers\<close>

definition ACTIVE_HEARTBEAT_MS :: timestamp where
  "ACTIVE_HEARTBEAT_MS = 5000"

definition PEER_REMOVE_MS :: timestamp where
  "PEER_REMOVE_MS = 30000"

record client_agent =
  cla_id :: ident
  cla_name :: string
  cla_role :: string
  cla_battery :: real
  cla_position :: xyz_point

definition initial_peer :: "timestamp \<Rightarrow> (nat \<Rightarrow> real) \<Rightarrow> nat \<times> client_agent \<Rightarrow> peer_info" where
  "initial_peer now rng ia =
     (let a = snd ia; role = (if cla_role a \<in> {''explorer'', ''relay'', ''standby''} then peer_role_of (cla_role a) else PrStandby)
      in \<lparr> pi_nodeId = cla_id a, pi_name = cla_name a, pi_status = PsActive, pi_lastHeartbeat = now, pi_staleSince = None,
           pi_depth = real (fst ia) * 8 + rng (fst ia) * 2, pi_role = role, pi_explorerVersion = (if role = PrExplorer then 1 else 0),
           pi_explorerSince = (if role = PrExplorer then now else 0), pi_partitionId = ''main'', pi_battery = cla_battery a,
           pi_position = cla_position a \<rparr>)"

definition createInitialPeers :: "timestamp \<Rightarrow> (nat \<Rightarrow> real) \<Rightarrow> client_agent list \<Rightarrow> peer_table" where
  "createInitialPeers now rng agents = foldl (\<lambda>m ia. js_put (cla_id (snd ia)) (initial_peer now rng ia) m) [] (enumerate 0 agents)"

text \<open>The result holds the peers, the events and the numbers of transitions to stale and to dead.\<close>

type_synonym status_update = "peer_table \<times> coordination_event list \<times> nat \<times> nat"

definition update_status :: "timestamp \<Rightarrow> ident \<Rightarrow> status_update \<Rightarrow> ident \<times> peer_info \<Rightarrow> status_update" where
  "update_status now localNodeId u ip =
     (let (peers, evs, stale, dead) = u; (i, p) = ip; silent = now - pi_lastHeartbeat p
      in if i = localNodeId then u
         else if pi_status p = PsActive \<and> silent > ACTIVE_HEARTBEAT_MS
         then (js_put i (p\<lparr> pi_status := PsStale, pi_staleSince := Some now \<rparr>) peers,
               evs @ [\<lparr> co_id = ''ev-stale-'' @ i @ ''-'' @ show_int now, co_timestamp = now, co_type = ''peer_stale'',
                 co_description = pi_name p @ '' marked stale ('' @ show_int silent @ ''ms since heartbeat)'', co_nodeId = Some i \<rparr>], stale + 1, dead)
         else if pi_status p = PsStale \<and> silent > PEER_REMOVE_MS
         then (js_put i (p\<lparr> pi_status := PsDead \<rparr>) peers,
               evs @ [\<lparr> co_id = ''ev-dead-'' @ i @ ''-'' @ show_int now, co_timestamp = now, co_type = ''peer_dead'',
                 co_description = pi_name p @ '' considered dead after extended silence'', co_nodeId = Some i \<rparr>], stale, dead + 1)
         else u)"

definition updatePeerStatuses :: "peer_table \<Rightarrow> timestamp \<Rightarrow> ident \<Rightarrow> status_update" where
  "updatePeerStatuses peers now localNodeId = foldl (update_status now localNodeId) (peers, [], 0, 0) peers"

definition gossip_rows :: "peer_table \<Rightarrow> gossip_row list" where
  "gossip_rows peers =
     map (\<lambda>p. \<lparr> gr_id = pi_nodeId p, gr_role = peer_role_str (pi_role p), gr_depth = pi_depth p, gr_status = peer_status_str (pi_status p) \<rparr>)
       (filter (\<lambda>p. pi_status p \<noteq> PsDead) (js_values peers))"

definition performGossipRound :: "timestamp \<Rightarrow> peer_table \<Rightarrow> ident \<Rightarrow> gossip_message list \<times> coordination_event list" where
  "performGossipRound now peers localNodeId =
     (let rows = gossip_rows peers
      in ([\<lparr> gm_id = ''gossip-'' @ show_int now, gm_type = ''GOSSIP_PEERS'', gm_source = localNodeId, gm_target = ''broadcast'',
             gm_payload = GpPeers rows, gm_timestamp = now, gm_ttl = 6 \<rparr>],
          [\<lparr> co_id = ''ev-gossip-'' @ show_int now, co_timestamp = now, co_type = ''gossip_sent'',
             co_description = ''Gossip round: '' @ show_nat (length rows) @ '' peers advertised'', co_nodeId = None \<rparr>]))"

definition take_gossip_row :: "peer_table \<Rightarrow> gossip_row \<Rightarrow> peer_table" where
  "take_gossip_row peers r =
     (case js_get peers (gr_id r) of
        None \<Rightarrow> peers
      | Some cur \<Rightarrow> js_put (gr_id r) (cur\<lparr> pi_depth := gr_depth r, pi_role := (if gr_role r = [] then pi_role cur else peer_role_of (gr_role r)) \<rparr>) peers)"

definition handleGossipReceived :: "gossip_message \<Rightarrow> peer_table \<Rightarrow> peer_table" where
  "handleGossipReceived msg peers =
     (if gm_type msg \<noteq> ''GOSSIP_PEERS'' then peers
      else case gm_payload msg of GpObject kvs \<Rightarrow> peers | GpPeers rows \<Rightarrow> foldl take_gossip_row peers rows)"

definition generateHeartbeats :: "timestamp \<Rightarrow> peer_table \<Rightarrow> ident \<Rightarrow> gossip_message list" where
  "generateHeartbeats now peers localNodeId =
     (let own = js_get peers localNodeId
      in map (\<lambda>t. \<lparr> gm_id = ''hb-'' @ localNodeId @ ''-'' @ t @ ''-'' @ show_int now, gm_type = ''HEARTBEAT'', gm_source = localNodeId, gm_target = t,
           gm_payload = GpObject [(''depth'', JNum (default_to (map_option pi_depth own) 0)), (''battery'', JNum (default_to (map_option pi_battery own) 0))],
           gm_timestamp = now, gm_ttl = 4 \<rparr>)
         (filter (\<lambda>i. i \<noteq> localNodeId \<and> (case js_get peers i of None \<Rightarrow> False | Some p \<Rightarrow> pi_status p \<noteq> PsDead)) (js_keys peers)))"

definition markPeerStale :: "peer_table \<Rightarrow> ident \<Rightarrow> timestamp \<Rightarrow> peer_table" where
  "markPeerStale peers peerId now =
     (case js_get peers peerId of None \<Rightarrow> peers | Some p \<Rightarrow> js_put peerId (p\<lparr> pi_status := PsStale, pi_staleSince := Some now \<rparr>) peers)"

definition generateDiscoverMessages :: "timestamp \<Rightarrow> ident \<Rightarrow> real \<Rightarrow> real \<Rightarrow> gossip_message list" where
  "generateDiscoverMessages now localNodeId depth battery =
     [\<lparr> gm_id = ''disc-'' @ localNodeId @ ''-'' @ show_int now, gm_type = ''DISCOVER'', gm_source = localNodeId, gm_target = ''broadcast'',
        gm_payload = GpObject [(''depth'', JNum depth), (''battery'', JNum battery), (''seeking'', JBool True)], gm_timestamp = now, gm_ttl = 8 \<rparr>]"

subsection \<open>Versioned state\<close>

record state_entry =
  sy_key :: string
  sy_value :: json
  sy_version :: real
  sy_updatedBy :: ident
  sy_timestamp :: timestamp

record version_vector =
  vv_nodeId :: ident
  vv_versions :: "(string, real) jsmap"

record managed_state =
  mds_entries :: "(string, state_entry) jsmap"
  mds_localVersionVector :: "(string, real) jsmap"
  mds_versionVectors :: "version_vector list"

definition createInitialState :: managed_state where
  "createInitialState = \<lparr> mds_entries = [], mds_localVersionVector = [], mds_versionVectors = [] \<rparr>"

text \<open>\<open>state.entries[key]?.version ?? 0\<close>\<close>

definition version_at :: "string \<Rightarrow> managed_state \<Rightarrow> real" where
  "version_at key s = (case js_get (mds_entries s) key of None \<Rightarrow> 0 | Some e \<Rightarrow> sy_version e)"

definition put_entry_at :: "state_entry \<Rightarrow> managed_state \<Rightarrow> managed_state" where
  "put_entry_at e s =
     s\<lparr> mds_entries := js_put (sy_key e) e (mds_entries s), mds_localVersionVector := js_put (sy_key e) (sy_version e) (mds_localVersionVector s) \<rparr>"

definition updateLocalState :: "timestamp \<Rightarrow> managed_state \<Rightarrow> string \<Rightarrow> json \<Rightarrow> ident \<Rightarrow> managed_state \<times> gossip_message" where
  "updateLocalState now s key v nodeId =
     (let version = version_at key s + 1
      in (put_entry_at \<lparr> sy_key = key, sy_value = v, sy_version = version, sy_updatedBy = nodeId, sy_timestamp = now \<rparr> s,
          \<lparr> gm_id = ''su-'' @ show_int now, gm_type = ''STATE_UPDATE'', gm_source = nodeId, gm_target = ''broadcast'',
            gm_payload = GpObject [(''key'', JStr key), (''value'', v), (''version'', JNum version)], gm_timestamp = now, gm_ttl = 8 \<rparr>))"

definition handleStateUpdate :: "managed_state \<Rightarrow> gossip_message \<Rightarrow> managed_state" where
  "handleStateUpdate s msg =
     (if gm_type msg \<noteq> ''STATE_UPDATE'' then s
      else case gm_payload msg of
             GpPeers rows \<Rightarrow> s
           | GpObject kvs \<Rightarrow>
               (case (js_get kvs ''key'', js_get kvs ''version'') of
                  (Some (JStr key), Some (JNum version)) \<Rightarrow>
                    if version \<le> version_at key s then s
                    else put_entry_at \<lparr> sy_key = key, sy_value = default_to (js_get kvs ''value'') JNull, sy_version = version,
                           sy_updatedBy = gm_source msg, sy_timestamp = gm_timestamp msg \<rparr> s
                | _ \<Rightarrow> s))"

definition generateVersionVectorBroadcast :: "timestamp \<Rightarrow> managed_state \<Rightarrow> ident \<Rightarrow> gossip_message" where
  "generateVersionVectorBroadcast now s nodeId =
     \<lparr> gm_id = ''vv-'' @ show_int now, gm_type = ''STATE_VECTOR'', gm_source = nodeId, gm_target = ''broadcast'',
       gm_payload = GpObject [(''versions'', JObj (map (map_prod id JNum) (mds_localVersionVector s)))], gm_timestamp = now, gm_ttl = 6 \<rparr>"

definition detectDivergence :: "version_vector \<Rightarrow> version_vector \<Rightarrow> string list" where
  "detectDivergence a b =
     filter (\<lambda>k. default_to (js_get (vv_versions a) k) 0 \<noteq> default_to (js_get (vv_versions b) k) 0)
       (dedup (js_keys (vv_versions a) @ js_keys (vv_versions b)))"

definition generateSyncRequests :: "timestamp \<Rightarrow> string list \<Rightarrow> ident \<Rightarrow> gossip_message list" where
  "generateSyncRequests now divergentKeys nodeId =
     (if divergentKeys = [] then []
      else [\<lparr> gm_id = ''sync-req-'' @ show_int now, gm_type = ''STATE_SYNC_REQUEST'', gm_source = nodeId, gm_target = ''broadcast'',
              gm_payload = GpObject [(''keys'', jstrs divergentKeys)], gm_timestamp = now, gm_ttl = 4 \<rparr>])"

record partition_info =
  pti_id :: ident
  pti_members :: "ident list"
  pti_explorerId :: "ident option"
  pti_explorerVersion :: int
  pti_detectedAt :: timestamp

definition detectPartitions :: "timestamp \<Rightarrow> peer_table \<Rightarrow> partition_info list" where
  "detectPartitions now peers =
     (let byPart = foldl (\<lambda>m p. js_put (pi_partitionId p) (default_to (js_get m (pi_partitionId p)) [] @ [pi_nodeId p]) m) [] (js_values peers)
      in map (\<lambda>(i, members). let explorer = List.find (\<lambda>x. pi_partitionId x = i \<and> pi_role x = PrExplorer) (js_values peers)
           in \<lparr> pti_id = i, pti_members = members, pti_explorerId = map_option pi_nodeId explorer,
                pti_explorerVersion = default_to (map_option pi_explorerVersion explorer) 0, pti_detectedAt = now \<rparr>) byPart)"

definition merge_entry :: "(string, state_entry) jsmap \<Rightarrow> string \<times> state_entry \<Rightarrow> (string, state_entry) jsmap" where
  "merge_entry m ke =
     (case js_get m (fst ke) of
        None \<Rightarrow> js_put (fst ke) (snd ke) m
      | Some cur \<Rightarrow> if sy_version (snd ke) > sy_version cur then js_put (fst ke) (snd ke) m else m)"

definition merge_version :: "(string, real) jsmap \<Rightarrow> string \<times> real \<Rightarrow> (string, real) jsmap" where
  "merge_version m kv = (if snd kv > default_to (js_get m (fst kv)) 0 then js_put (fst kv) (snd kv) m else m)"

definition mergePartitionStates :: "managed_state \<Rightarrow> managed_state \<Rightarrow> managed_state" where
  "mergePartitionStates a b =
     a\<lparr> mds_entries := foldl merge_entry (mds_entries a) (mds_entries b),
        mds_localVersionVector := foldl merge_version (mds_localVersionVector a) (mds_localVersionVector b),
        mds_versionVectors := mds_versionVectors a @ mds_versionVectors b \<rparr>"

subsection \<open>The outbox\<close>

definition RELIABLE_MAX_ATTEMPTS :: nat where
  "RELIABLE_MAX_ATTEMPTS = 3"

definition RELIABLE_BASE_DELAY_MS :: int where
  "RELIABLE_BASE_DELAY_MS = 1000"

record pending_reliable =
  prl_id :: ident
  prl_dest :: ident
  prl_type :: string
  prl_payload :: obj
  prl_attempts :: nat
  prl_nextAttemptAt :: timestamp
  prl_createdAt :: timestamp

definition save_queue :: "pending_reliable list \<Rightarrow> pending_reliable list" where
  "save_queue q = slice_tail 40 q"

definition enqueueReliable :: "ident \<Rightarrow> string \<Rightarrow> obj \<Rightarrow> timestamp \<Rightarrow> string \<Rightarrow> pending_reliable list \<Rightarrow> pending_reliable \<times> pending_reliable list" where
  "enqueueReliable dest kind payload now random_text q =
     (let p = \<lparr> prl_id = ''rel-'' @ show_int now @ ''-'' @ random_text, prl_dest = dest, prl_type = kind, prl_payload = payload, prl_attempts = 0,
            prl_nextAttemptAt = now, prl_createdAt = now \<rparr>
      in (p, save_queue (q @ [p])))"

record outbox_result =
  obr_pending :: "pending_reliable list"
  obr_sent :: "pending_reliable list"
  obr_failed :: "pending_reliable list"
  obr_messages :: "gossip_message list"

definition reliable_message :: "timestamp \<Rightarrow> ident \<Rightarrow> pending_reliable \<Rightarrow> gossip_message" where
  "reliable_message now source it =
     \<lparr> gm_id = prl_id it, gm_type = prl_type it, gm_source = source, gm_target = prl_dest it,
       gm_payload = GpObject (obj_spread (prl_payload it) [(''_reliable'', JBool True)]), gm_timestamp = now, gm_ttl = 6 \<rparr>"

text \<open>The body of the loop; a due item draws once. The state is the result so far and the number of draws.\<close>

definition process_item :: "timestamp \<Rightarrow> ident \<Rightarrow> real \<Rightarrow> (nat \<Rightarrow> real) \<Rightarrow> outbox_result \<times> nat \<Rightarrow> pending_reliable \<Rightarrow> outbox_result \<times> nat" where
  "process_item now source loss rng rk it =
     (let (r, k) = rk
      in if now < prl_nextAttemptAt it then (r\<lparr> obr_pending := obr_pending r @ [it] \<rparr>, k)
         else if \<not> rng k * 100 < loss
         then (r\<lparr> obr_sent := obr_sent r @ [it], obr_messages := obr_messages r @ [reliable_message now source it] \<rparr>, k + 1)
         else let attempt = prl_attempts it + 1
              in if attempt \<ge> RELIABLE_MAX_ATTEMPTS then (r\<lparr> obr_failed := obr_failed r @ [it\<lparr> prl_attempts := attempt \<rparr>] \<rparr>, k + 1)
                 else (r\<lparr> obr_pending := obr_pending r @ [it\<lparr> prl_attempts := attempt,
                            prl_nextAttemptAt := now + RELIABLE_BASE_DELAY_MS * 2 ^ (attempt - 1) \<rparr>] \<rparr>, k + 1))"

definition process_items :: "timestamp \<Rightarrow> ident \<Rightarrow> real \<Rightarrow> (nat \<Rightarrow> real) \<Rightarrow> pending_reliable list \<Rightarrow> outbox_result \<times> nat" where
  "process_items now source loss rng q =
     foldl (process_item now source loss rng) (\<lparr> obr_pending = [], obr_sent = [], obr_failed = [], obr_messages = [] \<rparr>, 0) q"

text \<open>The result and the queue that is saved.\<close>

definition processReliableOutbox :: "timestamp \<Rightarrow> ident \<Rightarrow> real option \<Rightarrow> (nat \<Rightarrow> real) \<Rightarrow> pending_reliable list \<Rightarrow> outbox_result \<times> pending_reliable list" where
  "processReliableOutbox now source lossPercent rng q =
     (let r = fst (process_items now source (default_to lossPercent 0) rng q) in (r, save_queue (obr_pending r)))"

subsection \<open>The replicated key-value store\<close>

type_synonym bucket = "(string, string) jsmap"

text \<open>
  A tab holds its bucket and its watchers, each a key with the handlers registered for it. An operation returns the tab, the calls of handlers
  it makes, and the bucket it posts to the other tabs and writes to the storage, if any.
\<close>

record kv_tab =
  kv_bucket :: bucket
  kv_watchers :: "(string, nat list) jsmap"

type_synonym kv_call = "nat \<times> string \<times> string option"

definition notify :: "kv_tab \<Rightarrow> string \<Rightarrow> string option \<Rightarrow> kv_call list" where
  "notify t key raw = map (\<lambda>h. (h, key, raw)) (default_to (js_get (kv_watchers t) key) [])"

definition kv_get :: "kv_tab \<Rightarrow> string \<Rightarrow> string option" where
  "kv_get t key = js_get (kv_bucket t) key"

definition kv_set :: "string \<Rightarrow> string \<Rightarrow> kv_tab \<Rightarrow> kv_tab \<times> kv_call list \<times> bucket" where
  "kv_set key v t =
     (let t' = t\<lparr> kv_bucket := js_put key v (kv_bucket t) \<rparr> in (t', notify t' key (Some v), kv_bucket t'))"

definition kv_delete :: "string \<Rightarrow> kv_tab \<Rightarrow> kv_tab \<times> kv_call list \<times> bucket" where
  "kv_delete key t = (let t' = t\<lparr> kv_bucket := js_remove key (kv_bucket t) \<rparr> in (t', notify t' key None, kv_bucket t'))"

definition kv_clear :: "kv_tab \<Rightarrow> kv_tab \<times> kv_call list \<times> bucket" where
  "kv_clear t = (t\<lparr> kv_bucket := [] \<rparr>, [], [])"

definition kv_watch :: "string \<Rightarrow> nat \<Rightarrow> kv_tab \<Rightarrow> kv_tab" where
  "kv_watch key h t = t\<lparr> kv_watchers := js_put key (set_add h (default_to (js_get (kv_watchers t) key) [])) (kv_watchers t) \<rparr>"

definition kv_unwatch :: "string \<Rightarrow> nat \<Rightarrow> kv_tab \<Rightarrow> kv_tab" where
  "kv_unwatch key h t = t\<lparr> kv_watchers := js_put key (removeAll h (default_to (js_get (kv_watchers t) key) [])) (kv_watchers t) \<rparr>"

text \<open>A message of another tab, and an event of the storage, replace the whole bucket.\<close>

definition kv_receive :: "bucket \<Rightarrow> kv_tab \<Rightarrow> kv_tab \<times> kv_call list" where
  "kv_receive b t =
     (let t' = t\<lparr> kv_bucket := b \<rparr> in (t', concat (map (\<lambda>key. notify t' key (js_get b key)) (js_keys b))))"

subsection \<open>Versions\<close>

inductive state_store :: "managed_state \<Rightarrow> bool" where
  store_new: "state_store createInitialState"
| store_write: "state_store s \<Longrightarrow> state_store (fst (updateLocalState now s key v nodeId))"
| store_message: "state_store s \<Longrightarrow> state_store (handleStateUpdate s msg)"
| store_merge: "state_store a \<Longrightarrow> state_store b \<Longrightarrow> state_store (mergePartitionStates a b)"

definition versions_of :: "(string, state_entry) jsmap \<Rightarrow> (string, real) jsmap" where
  "versions_of m = map (\<lambda>(k, e). (k, sy_version e)) m"

definition entries_ok :: "(string, state_entry) jsmap \<Rightarrow> bool" where
  "entries_ok m \<longleftrightarrow> wf_map m \<and> list_all (\<lambda>(k, e). sy_key e = k \<and> 0 < sy_version e) m"

definition versions_ok :: "managed_state \<Rightarrow> bool" where
  "versions_ok s \<longleftrightarrow> entries_ok (mds_entries s) \<and> mds_localVersionVector s = versions_of (mds_entries s)"

lemma get_versions_of: "js_get (versions_of m) k = map_option sy_version (js_get m k)"
  by (simp add: versions_of_def map_of_map)

lemma put_versions_of: "js_put k (sy_version e) (versions_of m) = versions_of (js_put k e m)"
  by (induction m) (auto simp: versions_of_def)

lemma list_all_put: "list_all P m \<Longrightarrow> P (k, e) \<Longrightarrow> list_all P (js_put k e m)"
  by (induction m) auto

lemma entries_ok_put: "entries_ok m \<Longrightarrow> 0 < sy_version e \<Longrightarrow> entries_ok (js_put (sy_key e) e m)"
  by (auto simp: entries_ok_def intro: jsm.invar_insert list_all_put)

lemma entries_ok_get: "entries_ok m \<Longrightarrow> js_get m k = Some e \<Longrightarrow> sy_key e = k \<and> 0 < sy_version e"
  by (auto simp: entries_ok_def list_all_iff dest: map_of_SomeD)

lemma version_at_nonneg: "versions_ok s \<Longrightarrow> 0 \<le> version_at k s"
  by (auto simp: versions_ok_def version_at_def split: option.splits dest: entries_ok_get)

lemma versions_ok_put: "versions_ok s \<Longrightarrow> 0 < sy_version e \<Longrightarrow> versions_ok (put_entry_at e s)"
  by (simp add: versions_ok_def put_entry_at_def entries_ok_put put_versions_of)

lemma version_at_put: "version_at k (put_entry_at e s) = (if k = sy_key e then sy_version e else version_at k s)"
  by (simp add: version_at_def put_entry_at_def js_map_simps)

lemma versions_ok_write: "versions_ok s \<Longrightarrow> versions_ok (fst (updateLocalState now s key v n))"
  using version_at_nonneg [of s key] by (simp add: updateLocalState_def Let_def versions_ok_put)

text \<open>What a message does: nothing, or one entry with a version above the local one.\<close>

lemma handle_cases:
  obtains "handleStateUpdate s msg = s"
  | e where "handleStateUpdate s msg = put_entry_at e s" "version_at (sy_key e) s < sy_version e"
proof (cases "\<exists>kvs key version. gm_type msg = ''STATE_UPDATE'' \<and> gm_payload msg = GpObject kvs \<and> js_get kvs ''key'' = Some (JStr key)
    \<and> js_get kvs ''version'' = Some (JNum version) \<and> version_at key s < version")
  case True
  then obtain kvs key version where *: "gm_type msg = ''STATE_UPDATE''" "gm_payload msg = GpObject kvs" "js_get kvs ''key'' = Some (JStr key)"
    "js_get kvs ''version'' = Some (JNum version)" "version_at key s < version" by blast
  show ?thesis
    by (rule that(2) [of "\<lparr> sy_key = key, sy_value = default_to (js_get kvs ''value'') JNull, sy_version = version,
        sy_updatedBy = gm_source msg, sy_timestamp = gm_timestamp msg \<rparr>"]) (use * in \<open>simp_all add: handleStateUpdate_def\<close>)
next
  case False
  then show ?thesis
    by (intro that(1)) (auto simp: handleStateUpdate_def split: gossip_payload.splits option.splits json.splits)
qed

lemma versions_ok_message: "versions_ok s \<Longrightarrow> versions_ok (handleStateUpdate s msg)"
  using version_at_nonneg [of s] by (cases rule: handle_cases [of s msg]) (auto simp: intro!: versions_ok_put intro: le_less_trans)

lemma merge_entry_ok:
  assumes "entries_ok m" "sy_key e = k" "0 < sy_version e"
  shows "entries_ok (merge_entry m (k, e)) \<and> merge_version (versions_of m) (k, sy_version e) = versions_of (merge_entry m (k, e))"
  using assms entries_ok_put [of m e]
  by (auto simp: merge_entry_def merge_version_def get_versions_of put_versions_of split: option.split)

lemma merge_fold_ok:
  assumes "entries_ok m" "list_all (\<lambda>(k, e). sy_key e = k \<and> 0 < sy_version e) kvs"
  shows "entries_ok (foldl merge_entry m kvs) \<and> foldl merge_version (versions_of m) (versions_of kvs) = versions_of (foldl merge_entry m kvs)"
  using assms
proof (induction kvs arbitrary: m)
  case (Cons ke kvs)
  obtain k e where ke: "ke = (k, e)" by (cases ke)
  have step: "entries_ok (merge_entry m (k, e))" "merge_version (versions_of m) (k, sy_version e) = versions_of (merge_entry m (k, e))"
    using merge_entry_ok [of m e k] Cons.prems by (simp_all add: ke)
  show ?case using Cons.IH [OF step(1)] Cons.prems step(2) by (simp add: ke versions_of_def)
qed (simp add: versions_of_def)

lemma versions_ok_merge: "versions_ok a \<Longrightarrow> versions_ok b \<Longrightarrow> versions_ok (mergePartitionStates a b)"
  using merge_fold_ok [of "mds_entries a" "mds_entries b"] by (simp add: versions_ok_def mergePartitionStates_def entries_ok_def)

lemma state_store_ok: "state_store s \<Longrightarrow> versions_ok s"
proof (induction rule: state_store.induct)
  case store_new
  show ?case by (simp add: createInitialState_def versions_ok_def entries_ok_def versions_of_def wf_map_def)
qed (simp_all add: versions_ok_write versions_ok_message versions_ok_merge)

text \<open>What a merge holds under a key: the entry of the higher version, the one that was there at equal versions.\<close>

lemma merge_entry_get:
  "js_get (merge_entry m ke) k =
     (if k = fst ke then (case js_get m k of None \<Rightarrow> Some (snd ke)
        | Some cur \<Rightarrow> Some (if sy_version cur < sy_version (snd ke) then snd ke else cur)) else js_get m k)"
  by (auto simp: merge_entry_def js_map_simps split: option.split)

lemma merge_fold_other: "k \<notin> fst ` set kvs \<Longrightarrow> js_get (foldl merge_entry m kvs) k = js_get m k"
  by (induction kvs arbitrary: m) (auto simp: merge_entry_get)

lemma merge_fold_get:
  assumes "wf_map kvs"
  shows "js_get (foldl merge_entry m kvs) k =
    (case js_get kvs k of None \<Rightarrow> js_get m k
     | Some e \<Rightarrow> (case js_get m k of None \<Rightarrow> Some e | Some cur \<Rightarrow> Some (if sy_version cur < sy_version e then e else cur)))"
  using assms
proof (induction kvs arbitrary: m)
  case (Cons ke kvs)
  have rest: "wf_map kvs" "fst ke \<notin> fst ` set kvs" using Cons.prems by (simp_all add: wf_map_def)
  show ?case
  proof (cases "k = fst ke")
    case True
    then show ?thesis using merge_fold_other [of k kvs "merge_entry m ke"] rest(2)
      by (cases ke) (simp add: merge_entry_get split: option.split)
  next
    case False
    then have "js_get (merge_entry m ke) k = js_get m k" "js_get (ke # kvs) k = js_get kvs k"
      by (simp_all add: merge_entry_get)
    then show ?thesis using Cons.IH [OF rest(1), of "merge_entry m ke"] by (simp split: option.split)
  qed
qed simp

lemma merged_get:
  assumes "versions_ok b"
  shows "js_get (mds_entries (mergePartitionStates a b)) k =
    (case js_get (mds_entries b) k of None \<Rightarrow> js_get (mds_entries a) k
     | Some e \<Rightarrow> (case js_get (mds_entries a) k of None \<Rightarrow> Some e | Some cur \<Rightarrow> Some (if sy_version cur < sy_version e then e else cur)))"
  using assms merge_fold_get [of "mds_entries b" "mds_entries a" k] by (simp add: mergePartitionStates_def versions_ok_def entries_ok_def)

lemma update_entry:
  "js_get (mds_entries (fst (updateLocalState now s key v n))) k =
     (if k = key then Some \<lparr> sy_key = key, sy_value = v, sy_version = version_at key s + 1, sy_updatedBy = n, sy_timestamp = now \<rparr>
      else js_get (mds_entries s) k)"
  by (simp add: updateLocalState_def Let_def put_entry_at_def js_map_simps)

lemma update_vector:
  "mds_localVersionVector (fst (updateLocalState now s key v n)) = js_put key (version_at key s + 1) (mds_localVersionVector s)"
  by (simp add: updateLocalState_def Let_def put_entry_at_def)

lemma update_version: "version_at key (fst (updateLocalState now s key v n)) = version_at key s + 1"
  by (simp add: version_at_def update_entry)

lemma old_message_ignored:
  assumes "version_at key s + 1 \<le> version_at key t"
  shows "handleStateUpdate t (snd (updateLocalState now s key v n)) = t"
  using assms by (simp add: updateLocalState_def Let_def handleStateUpdate_def)

lemma same_vectors_agree: "detectDivergence \<lparr> vv_nodeId = n1, vv_versions = vs \<rparr> \<lparr> vv_nodeId = n2, vv_versions = vs \<rparr> = []"
  by (simp add: detectDivergence_def)

text \<open>
  The version vector of a replica is always the list of its entries' versions, in their order, and a merge takes for every key the larger of
  the two versions; by every write, message and merge.
\<close>

theorem merge_joins_versions:
  assumes "state_store a" "state_store b"
  shows "version_at k (mergePartitionStates a b) = max (version_at k a) (version_at k b) \<and>
    mds_localVersionVector (mergePartitionStates a b) = map (\<lambda>(k, e). (k, sy_version e)) (mds_entries (mergePartitionStates a b))"
proof
  have a: "versions_ok a" and b: "versions_ok b" using assms by (simp_all add: state_store_ok)
  show "version_at k (mergePartitionStates a b) = max (version_at k a) (version_at k b)"
    using version_at_nonneg [OF a, of k] version_at_nonneg [OF b, of k] unfolding version_at_def merged_get [OF b]
    by (auto split: option.splits)
  show "mds_localVersionVector (mergePartitionStates a b) = map (\<lambda>(k, e). (k, sy_version e)) (mds_entries (mergePartitionStates a b))"
    using versions_ok_merge [OF a b] by (simp add: versions_ok_def versions_of_def)
qed

theorem merge_joins_versions_witness:
  "version_at ''k'' (mergePartitionStates createInitialState (fst (updateLocalState 0 createInitialState ''k'' JNull ''n'')))
     = max (version_at ''k'' createInitialState) (version_at ''k'' (fst (updateLocalState 0 createInitialState ''k'' JNull ''n'')))"
  using merge_joins_versions [OF store_new store_write [OF store_new], of "''k''" 0 "''k''" JNull "''n''"] by blast

text \<open>
  C24. Two replicas that write the same key from the same state give both writes the same version. Neither takes the other's message, a merge in
  either direction keeps its own value, and their version vectors show no divergence, so no synchronization is asked for: the replicas differ for
  good, until one of them writes again.
\<close>

theorem concurrent_writes_never_reconcile:
  assumes "state_store s"
  shows "let (a, ma) = updateLocalState t1 s key v1 n1; (b, mb) = updateLocalState t2 s key v2 n2;
             held = (\<lambda>x. map_option sy_value (js_get (mds_entries x) key))
         in held a = Some v1 \<and> held b = Some v2 \<and> handleStateUpdate a mb = a \<and> handleStateUpdate b ma = b
            \<and> held (mergePartitionStates a b) = Some v1 \<and> held (mergePartitionStates b a) = Some v2
            \<and> generateSyncRequests t3 (detectDivergence \<lparr> vv_nodeId = n1, vv_versions = mds_localVersionVector a \<rparr>
                 \<lparr> vv_nodeId = n2, vv_versions = mds_localVersionVector b \<rparr>) n1 = []"
proof -
  obtain a ma where A: "updateLocalState t1 s key v1 n1 = (a, ma)" by (cases "updateLocalState t1 s key v1 n1")
  obtain b mb where B: "updateLocalState t2 s key v2 n2 = (b, mb)" by (cases "updateLocalState t2 s key v2 n2")
  have ok: "versions_ok a" "versions_ok b"
    using assms state_store_ok versions_ok_write A B by (metis fst_conv)+
  have held: "js_get (mds_entries a) key = Some \<lparr> sy_key = key, sy_value = v1, sy_version = version_at key s + 1, sy_updatedBy = n1, sy_timestamp = t1 \<rparr>"
    "js_get (mds_entries b) key = Some \<lparr> sy_key = key, sy_value = v2, sy_version = version_at key s + 1, sy_updatedBy = n2, sy_timestamp = t2 \<rparr>"
    using update_entry [of t1 s key v1 n1 key] update_entry [of t2 s key v2 n2 key] A B by simp_all
  have version: "version_at key a = version_at key s + 1" "version_at key b = version_at key s + 1"
    using held by (simp_all add: version_at_def)
  have "mds_localVersionVector a = mds_localVersionVector b"
    using update_vector [of t1 s key v1 n1] update_vector [of t2 s key v2 n2] A B by simp
  moreover have "handleStateUpdate a mb = a" "handleStateUpdate b ma = b"
    using old_message_ignored [of key s a t2 v2 n2] old_message_ignored [of key s b t1 v1 n1] version A B by simp_all
  moreover have "js_get (mds_entries (mergePartitionStates a b)) key = js_get (mds_entries a) key"
    "js_get (mds_entries (mergePartitionStates b a)) key = js_get (mds_entries b) key"
    using held merged_get [OF ok(2), of a key] merged_get [OF ok(1), of b key] by simp_all
  ultimately show ?thesis using held by (simp add: A B Let_def same_vectors_agree generateSyncRequests_def)
qed

theorem concurrent_writes_never_reconcile_witness:
  "map_option sy_value (js_get (mds_entries (mergePartitionStates
      (fst (updateLocalState 1 createInitialState ''k'' (JNum 1) ''n1'')) (fst (updateLocalState 2 createInitialState ''k'' (JNum 2) ''n2'')))) ''k'')
    = Some (JNum 1)"
  using concurrent_writes_never_reconcile [OF store_new, of 1 "''k''" "JNum 1" "''n1''" 2 "JNum 2" "''n2''" 3]
  by (simp add: split_beta Let_def)

subsection \<open>The outbox\<close>

definition outbox_ids :: "outbox_result \<Rightarrow> ident list" where
  "outbox_ids r = map prl_id (obr_pending r @ obr_sent r @ obr_failed r)"

lemma process_item_ids: "mset (outbox_ids (fst (process_item now src loss rng rk it))) = add_mset (prl_id it) (mset (outbox_ids (fst rk)))"
  by (cases rk) (simp add: process_item_def outbox_ids_def Let_def)

lemma process_fold_ids:
  "mset (outbox_ids (fst (foldl (process_item now src loss rng) rk q))) = mset (map prl_id q) + mset (outbox_ids (fst rk))"
  by (induction q arbitrary: rk) (simp_all add: process_item_ids)

text \<open>What holds of every item that is left: it waits for its time or had fewer attempts than the limit; of every failed one, its attempts are spent.\<close>

definition outbox_fair :: "timestamp \<Rightarrow> outbox_result \<Rightarrow> bool" where
  "outbox_fair now r \<longleftrightarrow>
     list_all (\<lambda>p. now < prl_nextAttemptAt p) (obr_pending r) \<and> list_all (\<lambda>p. RELIABLE_MAX_ATTEMPTS \<le> prl_attempts p) (obr_failed r)
     \<and> map gm_id (obr_messages r) = map prl_id (obr_sent r)"

lemma process_item_fair: "outbox_fair now (fst rk) \<Longrightarrow> outbox_fair now (fst (process_item now src loss rng rk it))"
  by (cases rk) (auto simp: process_item_def outbox_fair_def Let_def reliable_message_def RELIABLE_BASE_DELAY_MS_def)

lemma process_fold_fair: "outbox_fair now (fst rk) \<Longrightarrow> outbox_fair now (fst (foldl (process_item now src loss rng) rk q))"
proof (induction q arbitrary: rk)
  case (Cons it q)
  show ?case using Cons.IH [OF process_item_fair [OF Cons.prems]] by simp
qed simp


subsection \<open>Two tabs\<close>

text \<open>
  Two tabs that hold the same bucket and write different keys before either hears of the other swap their buckets: each ends with the
  other's write and without its own.
\<close>

theorem concurrent_sets_swap:
  "if kv_bucket a = kv_bucket b \<and> k1 \<noteq> k2 then
     (let (a', _, posted_a) = kv_set k1 v1 a; (b', _, posted_b) = kv_set k2 v2 b;
          a'' = fst (kv_receive posted_b a'); b'' = fst (kv_receive posted_a b')
      in kv_get a' k1 = Some v1 \<and> kv_get b' k2 = Some v2
         \<and> kv_get a'' k2 = Some v2 \<and> kv_get a'' k1 = kv_get a k1 \<and> kv_get b'' k1 = Some v1 \<and> kv_get b'' k2 = kv_get b k2)
   else True"
  by (simp add: kv_set_def kv_receive_def kv_get_def Let_def js_map_simps)

text \<open>A tab that hears of a deletion or of a clearing tells no watcher of the keys that are gone.\<close>

lemma removal_not_notified:
  assumes "(h, key, raw) \<in> set (snd (kv_receive (snd (snd (kv_delete k a))) b))"
  shows "key \<noteq> k"
  using assms by (auto simp: kv_receive_def kv_delete_def notify_def js_keys_def Let_def delete_keys)

subsection \<open>Status of a peer\<close>

definition aged_peer :: "timestamp \<Rightarrow> ident \<Rightarrow> ident \<Rightarrow> peer_info \<Rightarrow> peer_info" where
  "aged_peer now localNodeId i p =
     (let silent = now - pi_lastHeartbeat p
      in if i = localNodeId then p
         else if pi_status p = PsActive \<and> silent > 5000 then p\<lparr> pi_status := PsStale, pi_staleSince := Some now \<rparr>
         else if pi_status p = PsStale \<and> silent > 30000 then p\<lparr> pi_status := PsDead \<rparr>
         else p)"

lemma update_status_get:
  "js_get (fst (update_status now l u (i, p))) j =
     (if j = i \<and> aged_peer now l i p \<noteq> p then Some (aged_peer now l i p) else js_get (fst u) j)"
  by (cases u; cases p) (auto simp: update_status_def aged_peer_def Let_def ACTIVE_HEARTBEAT_MS_def PEER_REMOVE_MS_def js_map_simps)

lemma update_status_other: "i \<notin> fst ` set ps \<Longrightarrow> js_get (fst (foldl (update_status now l) u ps)) i = js_get (fst u) i"
  by (induction ps arbitrary: u) (auto simp: update_status_get)

lemma update_status_fold:
  assumes "wf_map ps" "js_get ps i = Some p" "js_get (fst u) i = Some p"
  shows "js_get (fst (foldl (update_status now l) u ps)) i = Some (aged_peer now l i p)"
  using assms
proof (induction ps arbitrary: u)
  case (Cons jq ps)
  obtain j q where jq: "jq = (j, q)" by (cases jq)
  have rest: "wf_map ps" "j \<notin> fst ` set ps" using Cons.prems(1) by (simp_all add: wf_map_def jq)
  show ?case
  proof (cases "j = i")
    case True
    then have "p = q" using Cons.prems(2) by (simp add: jq)
    then show ?thesis using True update_status_other [OF rest(2), of now l "update_status now l u (j, q)"] Cons.prems(3)
      by (simp add: jq update_status_get)
  next
    case False
    then show ?thesis using Cons.IH [OF rest(1), of "update_status now l u (j, q)"] Cons.prems
      by (simp add: jq update_status_get)
  qed
qed simp

lemma statuses_age:
  assumes "wf_map peers"
  shows "js_get (fst (updatePeerStatuses peers now l)) i = map_option (aged_peer now l i) (js_get peers i)"
proof (cases "js_get peers i")
  case None
  then have "i \<notin> fst ` set peers" by (simp add: map_of_eq_None_iff)
  then show ?thesis using update_status_other [of i peers now l "(peers, [], 0, 0)"] None by (simp add: updatePeerStatuses_def)
next
  case (Some p)
  then show ?thesis using update_status_fold [OF assms Some, of "(peers, [], 0, 0)" now l] by (simp add: updatePeerStatuses_def)
qed

end
