(* ===== verification/RelayChains.thy ===== *)
theory RelayChains
  imports PeerState TaskBidding
begin

section \<open>The relay chain\<close>

text \<open>
  Models \<open>src/src/store/chainManager.ts\<close>: the chain of active relays that leads to the explorer, its repair, the election of an
  explorer, the volunteering of a standby node, the snapshots that peers exchange and their merge, and the takeover. The clock is the
  argument \<open>now\<close>, a generator and the number of its draws are passed where the code draws, \<open>fx d x\<close> is \<open>x.toFixed(d)\<close>, and
  characters outside ASCII are written as their UTF-8 bytes. The lemmas show what a chain consists of, that a repair
  takes out exactly the failed node, who is explorer after a snapshot is applied, and what the merge of two snapshots keeps.
\<close>

subsection \<open>Types\<close>

datatype chain_health = ChForming | ChStable | ChRepairing | ChDegraded | ChSolo

record relay_chain_state =
  rlc_chain :: "ident list"
  rlc_version :: int
  rlc_updatedAt :: timestamp
  rlc_updatedBy :: string
  rlc_shadowChain :: "ident list option"
  rlc_chainHealth :: "chain_health option"

datatype election_status = EsVoting | EsWon | EsLost | EsTimeout

fun election_status_str :: "election_status \<Rightarrow> string" where
  "election_status_str EsVoting = ''voting''"
| "election_status_str EsWon = ''won''"
| "election_status_str EsLost = ''lost''"
| "election_status_str EsTimeout = ''timeout''"

record election_state =
  els_candidateId :: ident
  els_depth :: real
  els_explorerVersion :: int
  els_votes :: "ident list"
  els_quorumNeeded :: nat
  els_status :: election_status
  els_startedAt :: timestamp

datatype repair_strategy = RsBypass | RsRebuild | RsVolunteer

datatype repair_status = RpAttempting | RpSuccess | RpFailed

record chain_repair_attempt =
  cra_id :: ident
  cra_failedNode :: ident
  cra_predecessor :: "ident option"
  cra_successor :: "ident option"
  cra_strategy :: repair_strategy
  cra_status :: repair_status
  cra_timestamp :: timestamp

record state_drone =
  sdr_id :: ident
  sdr_name :: string
  sdr_depth :: real
  sdr_role :: peer_role
  sdr_timestamp :: timestamp
  sdr_explorerSince :: timestamp
  sdr_battery :: real
  sdr_status :: peer_status

record swarm_state_payload =
  ssp_drones :: "state_drone list"
  ssp_chain :: "ident list"
  ssp_shadowChain :: "ident list"
  ssp_explorerId :: "ident option"
  ssp_chainHealth :: chain_health
  ssp_savedAt :: timestamp

text \<open>An absent or empty identifier counts as none in a condition.\<close>

definition given_id :: "ident option \<Rightarrow> ident option" where
  "given_id x = (case x of None \<Rightarrow> None | Some i \<Rightarrow> if i = [] then None else Some i)"

text \<open>The UTF-8 bytes of the multiplication sign and of the arrow.\<close>

definition times_sign :: string where
  "times_sign = map char_of [195, 151 :: nat]"

definition right_arrow :: string where
  "right_arrow = map char_of [226, 134, 146 :: nat]"

subsection \<open>Building a chain\<close>

definition RELAY_INSERTION_DISTANCE_STEP :: real where
  "RELAY_INSERTION_DISTANCE_STEP = 8"

definition active_relays :: "peer_table \<Rightarrow> ident \<Rightarrow> peer_info list" where
  "active_relays peers explorerId =
     filter (\<lambda>p. pi_nodeId p \<noteq> explorerId \<and> pi_role p = PrRelay \<and> pi_status p = PsActive)
       (filter (\<lambda>p. pi_status p \<noteq> PsDead) (js_values peers))"

definition buildRelayChain :: "timestamp \<Rightarrow> peer_table \<Rightarrow> ident option \<Rightarrow> chain_health \<Rightarrow> relay_chain_state option \<Rightarrow> relay_chain_state" where
  "buildRelayChain now peers explorerId health previous =
     (let none = \<lparr> rlc_chain = [], rlc_version = now, rlc_updatedAt = now, rlc_updatedBy = ''chain'',
            rlc_shadowChain = Option.bind previous (\<lambda>p. nullish (rlc_shadowChain p) (Some (rlc_chain p))), rlc_chainHealth = Some health \<rparr>
      in case given_id explorerId of
           None \<Rightarrow> none
         | Some e \<Rightarrow>
             if js_get peers e = None then none
             else let chain = map pi_nodeId (js_sort (by_asc pi_depth) (active_relays peers e)) @ [e];
                      before = (case previous of None \<Rightarrow> [] | Some p \<Rightarrow> rlc_chain p)
                  in \<lparr> rlc_chain = chain, rlc_version = now, rlc_updatedAt = now, rlc_updatedBy = ''chain'',
                       rlc_shadowChain = (if before \<noteq> [] then Some before else if chain \<noteq> [] then Some chain else None),
                       rlc_chainHealth = Some health \<rparr>)"

subsection \<open>Repair\<close>

fun index_of :: "'a \<Rightarrow> 'a list \<Rightarrow> nat option" where
  "index_of x [] = None"
| "index_of x (y # ys) = (if x = y then Some 0 else map_option Suc (index_of x ys))"

definition node_before :: "ident list \<Rightarrow> nat \<Rightarrow> ident option" where
  "node_before chain i = (if 0 < i then Some (chain ! (i - 1)) else None)"

definition node_after :: "ident list \<Rightarrow> nat \<Rightarrow> ident option" where
  "node_after chain i = (if i + 1 < length chain then Some (chain ! (i + 1)) else None)"

definition depth_at :: "peer_table \<Rightarrow> ident option \<Rightarrow> real" where
  "depth_at peers x = (case given_id x of None \<Rightarrow> 0 | Some i \<Rightarrow> default_to (map_option pi_depth (js_get peers i)) 0)"

text \<open>The distance between the neighbours; \<open>None\<close> is infinity.\<close>

definition link_gap :: "peer_table \<Rightarrow> ident option \<Rightarrow> ident option \<Rightarrow> real option" where
  "link_gap peers a b =
     (if given_id a \<noteq> None \<and> given_id b \<noteq> None then Some \<bar>depth_at peers b - depth_at peers a\<bar> else None)"

definition direct_link :: "real option \<Rightarrow> bool" where
  "direct_link g = (case g of None \<Rightarrow> False | Some d \<Rightarrow> d \<le> RELAY_INSERTION_DISTANCE_STEP * 2)"

definition repaired_state :: "timestamp \<Rightarrow> relay_chain_state \<Rightarrow> ident list \<Rightarrow> bool \<Rightarrow> relay_chain_state" where
  "repaired_state now rc nextChain direct =
     \<lparr> rlc_chain = nextChain, rlc_version = rlc_version rc + 1, rlc_updatedAt = now, rlc_updatedBy = ''repair'',
       rlc_shadowChain = (case rlc_shadowChain rc of None \<Rightarrow> Some (rlc_chain rc) | Some s \<Rightarrow> if s \<noteq> [] then Some s else Some (rlc_chain rc)),
       rlc_chainHealth = Some (if direct then ChRepairing else ChDegraded) \<rparr>"

text \<open>The request that goes to the successor when the gap is too wide, and its event.\<close>

definition repair_request ::
  "(nat \<Rightarrow> real \<Rightarrow> string) \<Rightarrow> timestamp \<Rightarrow> ident \<Rightarrow> ident \<Rightarrow> peer_table \<Rightarrow> ident option \<Rightarrow> ident option \<Rightarrow> gossip_message list \<times> coordination_event list" where
  "repair_request fx now repairId failed peers predId succId =
     (case (given_id predId, given_id succId, link_gap peers predId succId) of
        (Some a, Some b, Some gap) \<Rightarrow>
          if direct_link (Some gap) then ([], [])
          else ([\<lparr> gm_id = ''crr-'' @ show_int now, gm_type = ''CHAIN_REPAIR_REQUEST'', gm_source = a, gm_target = b,
                   gm_payload = GpObject [(''failed'', JStr failed), (''depth'', JNum (depth_at peers predId)), (''gap'', JNum gap)],
                   gm_timestamp = now, gm_ttl = 6 \<rparr>],
                [\<lparr> co_id = ''ev-crr-'' @ repairId, co_timestamp = now, co_type = ''bypass_attempt'',
                   co_description = ''Gap '' @ fx 1 gap @ ''m > 2'' @ times_sign @ ''relay step '' @ long_dash @ '' CHAIN_REPAIR_REQUEST '' @ a @ '' '' @ right_arrow @ '' '' @ b,
                   co_nodeId = Some failed \<rparr>])
      | _ \<Rightarrow> ([], []))"

record repair_outcome =
  ro_repair :: chain_repair_attempt
  ro_newChain :: "relay_chain_state option"
  ro_events :: "coordination_event list"
  ro_messages :: "gossip_message list"

definition attemptChainRepair :: "(nat \<Rightarrow> real \<Rightarrow> string) \<Rightarrow> timestamp \<Rightarrow> relay_chain_state \<Rightarrow> ident \<Rightarrow> peer_table \<Rightarrow> repair_outcome" where
  "attemptChainRepair fx now rc failed peers =
     (let rid = ''repair-'' @ show_int now;
          start = \<lparr> co_id = ''ev-cr-'' @ rid, co_timestamp = now, co_type = ''chain_repair_start'',
            co_description = ''Chain repair for failed node '' @ failed, co_nodeId = Some failed \<rparr>
      in case index_of failed (rlc_chain rc) of
           None \<Rightarrow>
             \<lparr> ro_repair = \<lparr> cra_id = rid, cra_failedNode = failed, cra_predecessor = None, cra_successor = None, cra_strategy = RsBypass,
                   cra_status = RpFailed, cra_timestamp = now \<rparr>,
               ro_newChain = None,
               ro_events = [start, \<lparr> co_id = ''ev-crf-'' @ rid, co_timestamp = now, co_type = ''chain_repair_fail'',
                   co_description = ''Node '' @ failed @ '' not in chain'', co_nodeId = Some failed \<rparr>],
               ro_messages = [] \<rparr>
         | Some idx \<Rightarrow>
             let predId = node_before (rlc_chain rc) idx;
                 succId = node_after (rlc_chain rc) idx;
                 direct = direct_link (link_gap peers predId succId);
                 nextChain = filter (\<lambda>i. i \<noteq> failed) (rlc_chain rc);
                 explorer = (if nextChain = [] then None else Some (last nextChain));
                 (reqs, reqEvents) = repair_request fx now rid failed peers predId succId;
                 ok = nextChain \<noteq> []
             in \<lparr> ro_repair = \<lparr> cra_id = rid, cra_failedNode = failed, cra_predecessor = predId, cra_successor = succId,
                     cra_strategy = (if direct then RsBypass else RsRebuild), cra_status = (if ok then RpSuccess else RpFailed), cra_timestamp = now \<rparr>,
                  ro_newChain = (if ok then Some (repaired_state now rc nextChain direct) else None),
                  ro_events = [start] @ reqEvents @
                    [\<lparr> co_id = ''ev-crs-'' @ rid, co_timestamp = now, co_type = (if ok then ''chain_repair_success'' else ''chain_repair_fail''),
                       co_description = (if ok then (if direct then ''Direct link'' else ''Segment rebuild'') @ '': chain length '' @ show_nat (length nextChain)
                           @ '', explorer '' @ default_to explorer ''null'' else ''Repair failed '' @ long_dash @ '' empty chain''), co_nodeId = Some failed \<rparr>],
                  ro_messages = reqs @
                    [\<lparr> gm_id = ''chain-up-'' @ show_int now, gm_type = ''CHAIN_UPDATE'', gm_source = ''system'', gm_target = ''broadcast'',
                       gm_payload = GpObject [(''chain'', jstrs nextChain), (''explorerId'', opt_json JStr explorer)], gm_timestamp = now, gm_ttl = 6 \<rparr>] \<rparr>)"

subsection \<open>Election\<close>

definition active_ids :: "peer_table \<Rightarrow> ident list" where
  "active_ids peers = filter (\<lambda>i. map_option pi_status (js_get peers i) = Some PsActive) (js_keys peers)"

text \<open>\<open>Math.max(2, Math.ceil(n / 2))\<close>\<close>

definition quorum_of :: "nat \<Rightarrow> nat" where
  "quorum_of n = max 2 ((n + 1) div 2)"

text \<open>One draw for each active node, in their order.\<close>

definition votes_drawn :: "(nat \<Rightarrow> real) \<Rightarrow> nat \<Rightarrow> ident list \<Rightarrow> ident list" where
  "votes_drawn rng k ids = map snd (filter (\<lambda>(j, i). rng j > 15 / 100) (enumerate k ids))"

definition runElection ::
  "(nat \<Rightarrow> real \<Rightarrow> string) \<Rightarrow> timestamp \<Rightarrow> (nat \<Rightarrow> real) \<Rightarrow> nat \<Rightarrow> ident \<Rightarrow> peer_table
     \<Rightarrow> election_state \<times> coordination_event list \<times> gossip_message list \<times> nat" where
  "runElection fx now rng k candidateId peers =
     (let candidate = js_get peers candidateId;
          ids = active_ids peers;
          quorum = quorum_of (length ids);
          votes = votes_drawn rng k ids;
          won = (quorum \<le> length votes \<and> map_option pi_status candidate = Some PsActive);
          el = \<lparr> els_candidateId = candidateId, els_depth = default_to (map_option pi_depth candidate) 0,
            els_explorerVersion = default_to (map_option pi_explorerVersion candidate) 0 + 1, els_votes = votes, els_quorumNeeded = quorum,
            els_status = (if won then EsWon else EsLost), els_startedAt = now \<rparr>
      in (el,
          [\<lparr> co_id = ''ev-el-'' @ show_int now, co_timestamp = now, co_type = (if won then ''election_won'' else ''election_lost''),
             co_description = (if won then ''Election won by '' @ default_to (map_option pi_name candidate) candidateId @ '' (depth '' @ fx 1 (els_depth el) @ '')''
               else ''Election lost '' @ long_dash @ '' quorum '' @ show_nat (length votes) @ ''/'' @ show_nat quorum), co_nodeId = Some candidateId \<rparr>],
          [\<lparr> gm_id = ''el-vote-'' @ show_int now, gm_type = ''ELECTION_VOTE'', gm_source = candidateId, gm_target = ''broadcast'',
             gm_payload = GpObject [(''votes'', jstrs votes), (''quorumNeeded'', JNum (real quorum)), (''status'', JStr (election_status_str (els_status el)))],
             gm_timestamp = now, gm_ttl = 4 \<rparr>],
          k + length ids))"

text \<open>The event and the message of a volunteer, and the number of draws.\<close>

definition checkVolunteerRelay ::
  "timestamp \<Rightarrow> (nat \<Rightarrow> real) \<Rightarrow> nat \<Rightarrow> peer_info \<Rightarrow> relay_chain_state \<Rightarrow> peer_table \<Rightarrow> real \<Rightarrow> (coordination_event \<times> gossip_message) option \<times> nat" where
  "checkVolunteerRelay now rng k standby rc peers score =
     (let chain = rlc_chain rc; lastRelay = chain ! (length chain - 2)
      in if pi_role standby \<noteq> PrStandby \<or> pi_status standby \<noteq> PsActive then (None, k)
         else if length chain < 2 then (None, k)
         else if map_option pi_status (js_get peers lastRelay) \<noteq> Some PsDead then (None, k)
         else if score < 10 \<or> pi_battery standby < 25 then (None, k)
         else if rng k > 35 / 100 then (None, k + 1)
         else (Some (\<lparr> co_id = ''ev-vol-'' @ show_int now, co_timestamp = now, co_type = ''volunteer_relay'',
                 co_description = pi_name standby @ '' volunteers to replace failed relay'', co_nodeId = Some (pi_nodeId standby) \<rparr>,
               \<lparr> gm_id = ''vol-'' @ show_int now, gm_type = ''VOLUNTEER_RELAY'', gm_source = pi_nodeId standby, gm_target = ''broadcast'',
                 gm_payload = GpObject [(''replace'', JStr lastRelay)], gm_timestamp = now, gm_ttl = 5 \<rparr>), k + 1))"

subsection \<open>Snapshots\<close>

definition drone_of :: "peer_info \<Rightarrow> state_drone" where
  "drone_of p = \<lparr> sdr_id = pi_nodeId p, sdr_name = pi_name p, sdr_depth = pi_depth p, sdr_role = pi_role p, sdr_timestamp = pi_lastHeartbeat p,
     sdr_explorerSince = pi_explorerSince p, sdr_battery = pi_battery p, sdr_status = pi_status p \<rparr>"

definition buildSwarmStatePayload :: "timestamp \<Rightarrow> peer_table \<Rightarrow> relay_chain_state \<Rightarrow> ident option \<Rightarrow> swarm_state_payload" where
  "buildSwarmStatePayload now peers rc explorerId =
     \<lparr> ssp_drones = map drone_of (js_values peers), ssp_chain = rlc_chain rc,
       ssp_shadowChain = default_to (rlc_shadowChain rc) (rlc_chain rc), ssp_explorerId = explorerId,
       ssp_chainHealth = default_to (rlc_chainHealth rc) ChStable, ssp_savedAt = now \<rparr>"

definition depthOf :: "ident option \<Rightarrow> (ident, state_drone) jsmap \<Rightarrow> real" where
  "depthOf x drones = (case given_id x of None \<Rightarrow> - 1 | Some i \<Rightarrow> default_to (map_option sdr_depth (js_get drones i)) (- 1))"

definition newer_drone :: "(ident, state_drone) jsmap \<Rightarrow> state_drone \<Rightarrow> (ident, state_drone) jsmap" where
  "newer_drone m d =
     (case js_get m (sdr_id d) of
        None \<Rightarrow> js_put (sdr_id d) d m
      | Some cur \<Rightarrow> if sdr_timestamp d > sdr_timestamp cur then js_put (sdr_id d) d m else m)"

definition combined_drones :: "state_drone list \<Rightarrow> state_drone list \<Rightarrow> (ident, state_drone) jsmap" where
  "combined_drones ours theirs = foldl newer_drone (foldl (\<lambda>m d. js_put (sdr_id d) d m) [] ours) theirs"

definition merged_explorer :: "ident option \<Rightarrow> ident option \<Rightarrow> (ident, state_drone) jsmap \<Rightarrow> ident option" where
  "merged_explorer ours theirs dm =
     (case given_id theirs of
        None \<Rightarrow> ours
      | Some r \<Rightarrow>
          if theirs = ours then ours
          else if depthOf theirs dm > depthOf ours dm then theirs
          else if depthOf theirs dm = depthOf ours dm \<and> r < default_to ours [] then theirs
          else ours)"

definition mergeSwarmStatePayloads :: "swarm_state_payload \<Rightarrow> swarm_state_payload \<Rightarrow> swarm_state_payload" where
  "mergeSwarmStatePayloads ours theirs =
     (let combined = combined_drones (ssp_drones ours) (ssp_drones theirs)
      in \<lparr> ssp_drones = js_values combined,
           ssp_chain = (if ssp_savedAt theirs > ssp_savedAt ours \<and> length (ssp_chain theirs) \<ge> length (ssp_chain ours) then ssp_chain theirs else ssp_chain ours),
           ssp_shadowChain = (if length (ssp_shadowChain ours) \<ge> length (ssp_shadowChain theirs) then ssp_shadowChain ours else ssp_shadowChain theirs),
           ssp_explorerId = merged_explorer (ssp_explorerId ours) (ssp_explorerId theirs) combined,
           ssp_chainHealth = ChForming, ssp_savedAt = max (ssp_savedAt ours) (ssp_savedAt theirs) \<rparr>)"

definition take_drone :: "peer_table \<Rightarrow> state_drone \<Rightarrow> peer_table" where
  "take_drone m d =
     (case js_get m (sdr_id d) of
        None \<Rightarrow> m
      | Some cur \<Rightarrow> js_put (sdr_id d) (cur\<lparr> pi_depth := sdr_depth d, pi_lastHeartbeat := max (pi_lastHeartbeat cur) (sdr_timestamp d),
          pi_explorerSince := max (pi_explorerSince cur) (sdr_explorerSince d), pi_battery := sdr_battery d, pi_status := sdr_status d \<rparr>) m)"

definition crown :: "timestamp \<Rightarrow> ident \<Rightarrow> ident \<times> peer_info \<Rightarrow> ident \<times> peer_info" where
  "crown now ex ip =
     (let (i, p) = ip
      in if i = ex then (i, p\<lparr> pi_role := PrExplorer, pi_explorerSince := or_num (pi_explorerSince p) now, pi_explorerVersion := pi_explorerVersion p + 1 \<rparr>)
         else if pi_role p = PrExplorer then (i, p\<lparr> pi_role := PrStandby \<rparr>) else (i, p))"

definition applyPayloadToPeers :: "timestamp \<Rightarrow> peer_table \<Rightarrow> swarm_state_payload \<Rightarrow> peer_table" where
  "applyPayloadToPeers now peers payload =
     (let next = foldl take_drone peers (ssp_drones payload)
      in case given_id (ssp_explorerId payload) of None \<Rightarrow> next | Some ex \<Rightarrow> map (crown now ex) next)"

subsection \<open>Takeover\<close>

record takeover_outcome =
  tko_nextPeers :: peer_table
  tko_nextExplorerId :: "ident option"
  tko_events :: "coordination_event list"
  tko_messages :: "gossip_message list"
  tko_accepted :: bool

definition handleExplorerTakeover ::
  "(nat \<Rightarrow> real \<Rightarrow> string) \<Rightarrow> timestamp \<Rightarrow> peer_table \<Rightarrow> ident option \<Rightarrow> ident \<Rightarrow> real \<Rightarrow> takeover_outcome" where
  "handleExplorerTakeover fx now peers currentId requesterId requesterDepth =
     (let refused = \<lparr> tko_nextPeers = peers, tko_nextExplorerId = currentId, tko_events = [], tko_messages = [], tko_accepted = False \<rparr>
      in case given_id currentId of
           None \<Rightarrow> refused
         | Some c \<Rightarrow>
             if c = requesterId then refused
             else case (js_get peers c, js_get peers requesterId) of
               (Some cur, Some req) \<Rightarrow>
                 if requesterDepth \<le> pi_depth cur then refused
                 else \<lparr> tko_nextPeers = js_put requesterId (req\<lparr> pi_role := PrExplorer, pi_explorerSince := or_num (pi_explorerSince req) now,
                              pi_explorerVersion := pi_explorerVersion req + 1 \<rparr>) (js_put c (cur\<lparr> pi_role := PrStandby \<rparr>) peers),
                        tko_nextExplorerId = Some requesterId,
                        tko_events = [\<lparr> co_id = ''ev-takeover-'' @ show_int now, co_timestamp = now, co_type = ''explorer_takeover'',
                          co_description = pi_name req @ '' ('' @ fx 1 requesterDepth @ ''m) takes explorer from '' @ pi_name cur @ '' ('' @ fx 1 (pi_depth cur) @ ''m)'',
                          co_nodeId = Some requesterId \<rparr>],
                        tko_messages = [\<lparr> gm_id = ''tack-'' @ show_int now, gm_type = ''TAKEOVER_ACK'', gm_source = c, gm_target = requesterId,
                          gm_payload = GpObject [(''yielded'', JBool True)], gm_timestamp = now, gm_ttl = 4 \<rparr>],
                        tko_accepted = True \<rparr>
             | _ \<Rightarrow> refused)"

subsection \<open>What a chain consists of\<close>

definition wf_peers :: "peer_table \<Rightarrow> bool" where
  "wf_peers peers \<longleftrightarrow> wf_map peers \<and> list_all (\<lambda>(i, p). pi_nodeId p = i) peers"

lemma wf_peers_get: "wf_peers peers \<Longrightarrow> p \<in> set (js_values peers) \<Longrightarrow> js_get peers (pi_nodeId p) = Some p"
  by (auto simp: wf_peers_def wf_map_def js_values_def list_all_iff)

lemma wf_peers_ids: "wf_peers peers \<Longrightarrow> map pi_nodeId (js_values peers) = js_keys peers"
  by (auto simp: wf_peers_def js_values_def js_keys_def list_all_iff)

lemma in_js_values: "js_get m k = Some v \<Longrightarrow> v \<in> set (js_values m)"
  by (force simp: js_values_def dest: map_of_SomeD)

lemma wf_peers_nodeId: "wf_peers peers \<Longrightarrow> js_get peers i = Some p \<Longrightarrow> pi_nodeId p = i"
  by (auto simp: wf_peers_def list_all_iff dest: map_of_SomeD)

lemma chain_of_known:
  assumes "js_get peers e \<noteq> None" "e \<noteq> []"
  shows "rlc_chain (buildRelayChain now peers (Some e) h prev) = map pi_nodeId (js_sort (by_asc pi_depth) (active_relays peers e)) @ [e]"
  using assms by (simp add: buildRelayChain_def given_id_def Let_def)

lemma distinct_map_filter: "distinct (map f xs) \<Longrightarrow> distinct (map f (filter P xs))"
  by (induction xs) auto

lemma distinct_map_sort: "distinct (map f (js_sort lt xs)) \<longleftrightarrow> distinct (map f xs)"
  by (metis mset_js_sort mset_map mset_eq_imp_distinct_iff)

lemma sorted_by_asc: "sorted (map f (js_sort (by_asc f) xs))"
  using ascending.sorted_js_sort [of f xs] by (simp add: sorted_wrt_map by_asc_def not_less)

text \<open>
  The chain of a known explorer ends with it, and what leads to it are the other active relays, each once, by growing depth.
\<close>

theorem relay_chain_built:
  assumes "wf_peers peers" "js_get peers e \<noteq> None" "e \<noteq> []"
  shows "case buildRelayChain now peers (Some e) h prev of rc \<Rightarrow>
    last (rlc_chain rc) = e \<and> distinct (rlc_chain rc)
    \<and> set (butlast (rlc_chain rc)) = {pi_nodeId p | p. p \<in> set (js_values peers) \<and> pi_nodeId p \<noteq> e \<and> pi_role p = PrRelay \<and> pi_status p = PsActive}
    \<and> sorted (map (\<lambda>i. pi_depth (the (js_get peers i))) (butlast (rlc_chain rc)))"
proof -
  define relays where "relays = js_sort (by_asc pi_depth) (active_relays peers e)"
  have members: "set relays = {p \<in> set (js_values peers). pi_nodeId p \<noteq> e \<and> pi_role p = PrRelay \<and> pi_status p = PsActive}"
    unfolding relays_def by (auto simp: active_relays_def)
  have "distinct (map pi_nodeId (js_values peers))"
    using assms(1) by (simp add: wf_peers_ids js_keys_def) (simp add: wf_peers_def wf_map_def)
  then have "distinct (map pi_nodeId relays)"
    unfolding relays_def distinct_map_sort active_relays_def by (intro distinct_map_filter)
  moreover have "js_get peers (pi_nodeId p) = Some p" if "p \<in> set relays" for p
    using that members wf_peers_get [OF assms(1)] by blast
  then have depths: "map (\<lambda>i. pi_depth (the (js_get peers i))) (map pi_nodeId relays) = map pi_depth relays" by simp
  moreover have "sorted (map pi_depth relays)" unfolding relays_def by (rule sorted_by_asc)
  moreover have "e \<notin> set (map pi_nodeId relays)" "set (map pi_nodeId relays) =
      {pi_nodeId p | p. p \<in> set (js_values peers) \<and> pi_nodeId p \<noteq> e \<and> pi_role p = PrRelay \<and> pi_status p = PsActive}"
    using members by auto
  moreover have chain: "rlc_chain (buildRelayChain now peers (Some e) h prev) = map pi_nodeId relays @ [e]"
    using chain_of_known [OF assms(2,3), of now h prev] by (simp only: relays_def)
  ultimately show ?thesis unfolding chain butlast_snoc by (simp only: last_snoc distinct_append depths) simp
qed

subsection \<open>What a repair takes out\<close>

lemma index_of_first: "x \<notin> set xs \<Longrightarrow> index_of x (xs @ x # ys) = Some (length xs)"
  by (induction xs) auto

lemma index_of_None: "index_of x xs = None \<longleftrightarrow> x \<notin> set xs"
  by (induction xs) auto

lemma node_before_at: "node_before (xs @ x # ys) (length xs) = (if xs = [] then None else Some (last xs))"
  by (cases xs rule: rev_cases) (simp_all add: node_before_def nth_append)

lemma node_after_at: "node_after (xs @ x # ys) (length xs) = (if ys = [] then None else Some (hd ys))"
  by (cases ys) (simp_all add: node_after_def nth_append)

lemma filter_others: "x \<notin> set xs \<Longrightarrow> filter (\<lambda>i. i \<noteq> x) xs = xs"
  by (induction xs) auto

lemma repair_of_member:
  assumes "index_of failed (rlc_chain rc) = Some idx"
  shows "ro_newChain (attemptChainRepair fx now rc failed peers) =
      (let nc = filter (\<lambda>i. i \<noteq> failed) (rlc_chain rc);
           d = direct_link (link_gap peers (node_before (rlc_chain rc) idx) (node_after (rlc_chain rc) idx))
       in if nc \<noteq> [] then Some (repaired_state now rc nc d) else None)"
    "cra_predecessor (ro_repair (attemptChainRepair fx now rc failed peers)) = node_before (rlc_chain rc) idx"
    "cra_successor (ro_repair (attemptChainRepair fx now rc failed peers)) = node_after (rlc_chain rc) idx"
    "cra_strategy (ro_repair (attemptChainRepair fx now rc failed peers)) =
      (if direct_link (link_gap peers (node_before (rlc_chain rc) idx) (node_after (rlc_chain rc) idx)) then RsBypass else RsRebuild)"
    "cra_status (ro_repair (attemptChainRepair fx now rc failed peers)) =
      (if filter (\<lambda>i. i \<noteq> failed) (rlc_chain rc) \<noteq> [] then RpSuccess else RpFailed)"
  using assms by (simp_all add: attemptChainRepair_def Let_def split_beta)

lemma repair_of_stranger:
  "failed \<notin> set (rlc_chain rc) \<Longrightarrow> ro_newChain (attemptChainRepair fx now rc failed peers) = None"
  by (simp add: attemptChainRepair_def Let_def index_of_None [THEN iffD2])

lemma direct_link_gap:
  "direct_link (link_gap peers a b) \<longleftrightarrow> given_id a \<noteq> None \<and> given_id b \<noteq> None \<and> \<bar>depth_at peers b - depth_at peers a\<bar> \<le> 16"
  by (simp add: direct_link_def link_gap_def RELAY_INSERTION_DISTANCE_STEP_def)

text \<open>
  Repairing a chain around a node takes out that node and keeps the others in their order; the neighbours are the nodes before and after it,
  and the strategy is a bypass exactly when both are there and at most two relay steps apart in depth. Only a chain that would be empty is not repaired.
\<close>

theorem repair_removes_failed:
  assumes "rlc_chain rc = xs @ failed # ys" "failed \<notin> set xs" "failed \<notin> set ys"
  shows "case attemptChainRepair fx now rc failed peers of out \<Rightarrow>
    map_option rlc_chain (ro_newChain out) = (if xs @ ys = [] then None else Some (xs @ ys))
    \<and> cra_predecessor (ro_repair out) = (if xs = [] then None else Some (last xs))
    \<and> cra_successor (ro_repair out) = (if ys = [] then None else Some (hd ys))
    \<and> (cra_strategy (ro_repair out) = RsBypass) =
        (case (given_id (cra_predecessor (ro_repair out)), given_id (cra_successor (ro_repair out))) of
           (Some a, Some b) \<Rightarrow> \<bar>depth_at peers (Some b) - depth_at peers (Some a)\<bar> \<le> 16 | _ \<Rightarrow> False)"
proof -
  define out where "out = attemptChainRepair fx now rc failed peers"
  have idx: "index_of failed (rlc_chain rc) = Some (length xs)" using assms by (simp add: index_of_first)
  note facts = repair_of_member [OF idx, of fx now peers, folded out_def]
  have ends: "cra_predecessor (ro_repair out) = (if xs = [] then None else Some (last xs))"
    "cra_successor (ro_repair out) = (if ys = [] then None else Some (hd ys))"
    using facts(2,3) by (simp_all only: assms(1) node_before_at node_after_at)
  have "filter (\<lambda>i. i \<noteq> failed) (rlc_chain rc) = xs @ ys" using assms by (simp add: filter_others)
  then have "map_option rlc_chain (ro_newChain out) = (if xs @ ys = [] then None else Some (xs @ ys))"
    using facts(1) by (auto simp: Let_def repaired_state_def)
  moreover have "(cra_strategy (ro_repair out) = RsBypass) =
        (case (given_id (cra_predecessor (ro_repair out)), given_id (cra_successor (ro_repair out))) of
           (Some a, Some b) \<Rightarrow> \<bar>depth_at peers (Some b) - depth_at peers (Some a)\<bar> \<le> 16 | _ \<Rightarrow> False)"
    unfolding facts(4) direct_link_gap facts(2,3)
    by (auto simp: given_id_def split: option.splits if_splits)
  ultimately show ?thesis unfolding out_def [symmetric] using ends by blast
qed

subsection \<open>Snapshots and the explorer\<close>

definition explorer_ids :: "peer_table \<Rightarrow> ident list" where
  "explorer_ids peers = map fst (filter (\<lambda>ip. pi_role (snd ip) = PrExplorer) peers)"

lemma keys_put_present: "js_get m k \<noteq> None \<Longrightarrow> js_keys (js_put k v m) = js_keys m"
  by (induction m) (auto simp: js_keys_def)

lemma keys_take_drone: "js_keys (take_drone m d) = js_keys m"
  by (auto simp: take_drone_def keys_put_present split: option.split)

lemma keys_take_drones: "js_keys (foldl take_drone m ds) = js_keys m"
  by (induction ds arbitrary: m) (simp_all add: keys_take_drone)

lemma explorer_ids_crown: "explorer_ids (map (crown now ex) m) = filter (\<lambda>i. i = ex) (js_keys m)"
proof (induction m)
  case (Cons ip m)
  have "fst (crown now ex ip) = fst ip" by (cases ip) (simp add: crown_def)
  moreover have "(pi_role (snd (crown now ex ip)) = PrExplorer) = (fst ip = ex)" by (cases ip) (simp add: crown_def)
  ultimately show ?case using Cons.IH unfolding explorer_ids_def js_keys_def list.map filter.simps by simp
qed (simp add: explorer_ids_def js_keys_def)

text \<open>
  After a snapshot with an explorer is applied, that node is the only explorer if it is known, and nobody is if it is not: the own explorer
  steps down for a node the table does not hold.
\<close>

theorem snapshot_crowns:
  "case given_id (ssp_explorerId payload) of None \<Rightarrow> True
   | Some ex \<Rightarrow> explorer_ids (applyPayloadToPeers now peers payload) = filter (\<lambda>i. i = ex) (js_keys peers)"
  by (simp add: applyPayloadToPeers_def explorer_ids_crown keys_take_drones split: option.split)

lemma length_filter_member: "x \<in> set xs \<Longrightarrow> length (filter (\<lambda>i. i \<noteq> x) xs) < length xs"
  by (induction xs) (auto simp: less_Suc_eq_le)


subsection \<open>Witnesses\<close>

definition toy_peer :: "ident \<Rightarrow> peer_role \<Rightarrow> real \<Rightarrow> peer_info" where
  "toy_peer i r d = \<lparr> pi_nodeId = i, pi_name = i, pi_status = PsActive, pi_lastHeartbeat = 0, pi_staleSince = None, pi_depth = d, pi_role = r,
     pi_explorerVersion = 0, pi_explorerSince = 0, pi_partitionId = ''main'', pi_battery = 80, pi_position = \<lparr> pos_x = 0, pos_y = 0, pos_z = 0 \<rparr> \<rparr>"

definition toy_peers :: peer_table where
  "toy_peers = [(''e'', toy_peer ''e'' PrExplorer 30), (''r1'', toy_peer ''r1'' PrRelay 20), (''r2'', toy_peer ''r2'' PrRelay 10)]"

definition toy_chain :: relay_chain_state where
  "toy_chain = \<lparr> rlc_chain = [''r2'', ''r1'', ''e''], rlc_version = 1, rlc_updatedAt = 0, rlc_updatedBy = ''chain'', rlc_shadowChain = None, rlc_chainHealth = None \<rparr>"

lemma toy_peers_ok: "wf_peers toy_peers" "js_get toy_peers ''e'' \<noteq> None"
  by (simp_all add: toy_peers_def wf_peers_def wf_map_def toy_peer_def)

theorem relay_chain_built_witness: "last (rlc_chain (buildRelayChain 0 toy_peers (Some ''e'') ChStable None)) = ''e''"
  using relay_chain_built [OF toy_peers_ok, of 0 ChStable None] by simp

theorem repair_removes_failed_witness:
  "map_option rlc_chain (ro_newChain (attemptChainRepair (\<lambda>d x. []) 5 toy_chain ''r1'' toy_peers)) = Some [''r2'', ''e'']"
  using repair_removes_failed [of toy_chain "[''r2'']" "''r1''" "[''e'']" "\<lambda>d x. []" 5 toy_peers] by (simp add: toy_chain_def)

lemma toy_repaired: "ro_newChain (attemptChainRepair (\<lambda>d x. []) 5 toy_chain ''r1'' toy_peers)
    = Some (repaired_state 5 toy_chain [''r2'', ''e''] (direct_link (link_gap toy_peers (Some ''r2'') (Some ''e''))))"
  using repair_of_member(1) [of "''r1''" toy_chain 1 "\<lambda>d x. []" 5 toy_peers] by (simp add: toy_chain_def node_before_def node_after_def)


end
