(* ===== verification/PeerStore.thy ===== *)
theory PeerStore
  imports RelayChains
begin

section \<open>The coordination store of a peer\<close>

text \<open>
  Models \<open>src/src/store/p2pStore.ts\<close> with \<open>src/src/lib/nodePersist.ts\<close> and \<open>src/src/store/networkFaultContext.ts\<close>: the state that a browser client
  keeps of its swarm, the tick with its discovery, heartbeats, solo mode, chain repair and snapshots, and every action of the store. The storage of the browser is
  part of the state and holds what the store wrote to it. A step is given the clock, a generator and the texts of numbers; it draws in the order of the code.
  The lemmas show who is explorer after each action, which bounds the logs keep, and what a node that has lost its peers can
  still do by itself.
\<close>

subsection \<open>State\<close>

record p2p_metrics =
  pm_gossipMessagesSent :: nat
  pm_gossipMessagesReceived :: nat
  pm_heartbeatsSent :: nat
  pm_heartbeatsReceived :: nat
  pm_peersDiscovered :: nat
  pm_staleTransitions :: nat
  pm_deadTransitions :: nat
  pm_electionsHeld :: nat
  pm_electionsWon :: nat
  pm_chainRepairsAttempted :: nat
  pm_chainRepairsSucceeded :: nat
  pm_partitionsDetected :: nat
  pm_partitionsMerged :: nat
  pm_stateSyncsCompleted :: nat
  pm_volunteerRelays :: nat
  pm_bypassAttempts :: nat
  pm_bypassSuccesses :: nat
  pm_messageLatencyAvg :: real
  pm_messageLatencyHistory :: "real list"
  pm_stateMergesCompleted :: nat
  pm_reliableDeliveries :: nat
  pm_reliableFailures :: nat
  pm_stateSnapshotsBroadcast :: nat
  pm_discoverBroadcasts :: nat

definition defaultMetrics :: p2p_metrics where
  "defaultMetrics =
     \<lparr> pm_gossipMessagesSent = 0, pm_gossipMessagesReceived = 0, pm_heartbeatsSent = 0, pm_heartbeatsReceived = 0, pm_peersDiscovered = 0,
       pm_staleTransitions = 0, pm_deadTransitions = 0, pm_electionsHeld = 0, pm_electionsWon = 0, pm_chainRepairsAttempted = 0,
       pm_chainRepairsSucceeded = 0, pm_partitionsDetected = 0, pm_partitionsMerged = 0, pm_stateSyncsCompleted = 0, pm_volunteerRelays = 0,
       pm_bypassAttempts = 0, pm_bypassSuccesses = 0, pm_messageLatencyAvg = 0, pm_messageLatencyHistory = [], pm_stateMergesCompleted = 0,
       pm_reliableDeliveries = 0, pm_reliableFailures = 0, pm_stateSnapshotsBroadcast = 0, pm_discoverBroadcasts = 0 \<rparr>"

record drone_node_persisted =
  dnp_nodeId :: ident
  dnp_role :: peer_role
  dnp_depth :: real
  dnp_chainHint :: "ident list"
  dnp_peerIds :: "ident list"
  dnp_savedAt :: timestamp

record p2p_state =
  p2_peers :: peer_table
  p2_localNodeId :: ident
  p2_messageLog :: "gossip_message list"
  p2_pendingMessages :: "gossip_message list"
  p2_relayChain :: relay_chain_state
  p2_chainRepairs :: "chain_repair_attempt list"
  p2_elections :: "election_state list"
  p2_currentExplorerId :: "ident option"
  p2_managedState :: managed_state
  p2_partitions :: "partition_info list"
  p2_metrics :: p2p_metrics
  p2_coordinationEvents :: "coordination_event list"
  p2_running :: bool
  p2_tick :: nat
  p2_soloMode :: bool
  p2_lastPeerHeardAt :: timestamp
  p2_soloExitStableTicks :: nat
  p2_lastStateSnapshotAt :: timestamp
  p2_outbox :: "pending_reliable list"
  p2_disk :: "(swarm_state_payload \<times> bool) option"
  p2_node :: "drone_node_persisted option"
  p2_packetLossPercent :: real

text \<open>What a step is given: \<open>Date.now()\<close>, \<open>Math.random()\<close>, \<open>x.toFixed(d)\<close>, the text of a number, and \<open>x.toString(36)\<close>.\<close>

record p2p_env =
  en_now :: timestamp
  en_rng :: "nat \<Rightarrow> real"
  en_fx :: "nat \<Rightarrow> real \<Rightarrow> string"
  en_num :: "real \<Rightarrow> string"
  en_base36 :: "real \<Rightarrow> string"

definition SOLO_TIMEOUT_MS :: timestamp where
  "SOLO_TIMEOUT_MS = 30000"

definition SOLO_EXIT_STABLE_TICKS :: nat where
  "SOLO_EXIT_STABLE_TICKS = 3"

definition PERSIST_EVERY_TICKS :: nat where
  "PERSIST_EVERY_TICKS = 10"

definition STATE_SNAPSHOT_INTERVAL_MS :: timestamp where
  "STATE_SNAPSHOT_INTERVAL_MS = 30000"

definition DISCOVER_INTERVAL_TICKS :: nat where
  "DISCOVER_INTERVAL_TICKS = 3"

definition setNetworkFaultPacketLoss :: "real \<Rightarrow> p2p_state \<Rightarrow> p2p_state" where
  "setNetworkFaultPacketLoss percent s = s\<lparr> p2_packetLossPercent := max 0 (min 100 percent) \<rparr>"

definition pickExplorerId :: "peer_table \<Rightarrow> ident option" where
  "pickExplorerId peers =
     map_option pi_nodeId (List.find (\<lambda>p. pi_role p = PrExplorer \<and> pi_status p \<noteq> PsDead) (js_values peers))"

definition no_chain :: "timestamp \<Rightarrow> relay_chain_state" where
  "no_chain now = \<lparr> rlc_chain = [], rlc_version = 0, rlc_updatedAt = now, rlc_updatedBy = ''system'', rlc_shadowChain = None, rlc_chainHealth = Some ChForming \<rparr>"

definition initial_p2p :: "timestamp \<Rightarrow> p2p_state" where
  "initial_p2p now =
     \<lparr> p2_peers = [], p2_localNodeId = ''agent-0'', p2_messageLog = [], p2_pendingMessages = [], p2_relayChain = no_chain now, p2_chainRepairs = [],
       p2_elections = [], p2_currentExplorerId = None, p2_managedState = createInitialState, p2_partitions = [], p2_metrics = defaultMetrics,
       p2_coordinationEvents = [], p2_running = False, p2_tick = 0, p2_soloMode = False, p2_lastPeerHeardAt = now, p2_soloExitStableTicks = 0,
       p2_lastStateSnapshotAt = now, p2_outbox = [], p2_disk = None, p2_node = None, p2_packetLossPercent = 0 \<rparr>"

subsection \<open>Messages and events\<close>

definition coordination :: "timestamp \<Rightarrow> string \<Rightarrow> string \<Rightarrow> string \<Rightarrow> ident option \<Rightarrow> coordination_event" where
  "coordination now i kind txt node = \<lparr> co_id = i, co_timestamp = now, co_type = kind, co_description = txt, co_nodeId = node \<rparr>"

definition gossip_of :: "timestamp \<Rightarrow> string \<Rightarrow> string \<Rightarrow> ident \<Rightarrow> ident \<Rightarrow> obj \<Rightarrow> int \<Rightarrow> gossip_message" where
  "gossip_of now i kind source target payload ttl =
     \<lparr> gm_id = i, gm_type = kind, gm_source = source, gm_target = target, gm_payload = GpObject payload, gm_timestamp = now, gm_ttl = ttl \<rparr>"

fun chain_health_str :: "chain_health \<Rightarrow> string" where
  "chain_health_str ChForming = ''forming''"
| "chain_health_str ChStable = ''stable''"
| "chain_health_str ChRepairing = ''repairing''"
| "chain_health_str ChDegraded = ''degraded''"
| "chain_health_str ChSolo = ''solo''"

definition state_drone_json :: "state_drone \<Rightarrow> json" where
  "state_drone_json d = JObj [(''id'', JStr (sdr_id d)), (''name'', JStr (sdr_name d)), (''depth'', JNum (sdr_depth d)),
     (''role'', JStr (peer_role_str (sdr_role d))), (''timestamp'', jint (sdr_timestamp d)), (''explorerSince'', jint (sdr_explorerSince d)),
     (''battery'', JNum (sdr_battery d)), (''status'', JStr (peer_status_str (sdr_status d)))]"

definition state_payload_json :: "swarm_state_payload \<Rightarrow> json" where
  "state_payload_json p = JObj [(''drones'', JArr (map state_drone_json (ssp_drones p))), (''chain'', jstrs (ssp_chain p)), (''shadowChain'', jstrs (ssp_shadowChain p)),
     (''explorerId'', opt_json JStr (ssp_explorerId p)), (''chainHealth'', JStr (chain_health_str (ssp_chainHealth p))), (''savedAt'', jint (ssp_savedAt p))]"

definition add_log :: "gossip_message list \<Rightarrow> gossip_message list \<Rightarrow> gossip_message list" where
  "add_log entries ms = slice_tail 120 (entries @ ms)"

definition add_coordination :: "coordination_event list \<Rightarrow> coordination_event list \<Rightarrow> coordination_event list" where
  "add_coordination entries evs = slice_tail 220 (entries @ evs)"

subsection \<open>Start, stop and reset\<close>

definition DAY_MS :: timestamp where
  "DAY_MS = 86400000"

definition restore_own_node :: "timestamp \<Rightarrow> drone_node_persisted option \<Rightarrow> peer_table \<Rightarrow> peer_table" where
  "restore_own_node now restored peers =
     (case restored of
        None \<Rightarrow> peers
      | Some d \<Rightarrow>
          (case js_get peers (dnp_nodeId d) of
             None \<Rightarrow> peers
           | Some cur \<Rightarrow>
               if dnp_nodeId d \<noteq> [] \<and> dnp_savedAt d \<noteq> 0 \<and> now - dnp_savedAt d < DAY_MS
               then js_put (dnp_nodeId d) (cur\<lparr> pi_depth := dnp_depth d,
                      pi_role := (if dnp_role d \<in> {PrExplorer, PrRelay, PrStandby} then dnp_role d else pi_role cur) \<rparr>) peers
               else peers))"

definition restore_shadow :: "timestamp \<Rightarrow> (swarm_state_payload \<times> bool) option \<Rightarrow> relay_chain_state \<Rightarrow> relay_chain_state" where
  "restore_shadow now disk rc =
     (case disk of
        None \<Rightarrow> rc
      | Some (d, _) \<Rightarrow>
          if ssp_shadowChain d \<noteq> [] \<and> ssp_savedAt d \<noteq> 0 \<and> now - ssp_savedAt d < DAY_MS then rc\<lparr> rlc_shadowChain := Some (ssp_shadowChain d) \<rparr> else rc)"

definition initializeP2P :: "p2p_env \<Rightarrow> client_agent list \<Rightarrow> p2p_state \<Rightarrow> p2p_state" where
  "initializeP2P e agents s =
     (let now = en_now e;
          peers = restore_own_node now (p2_node s) (createInitialPeers now (en_rng e) agents);
          explorerId = given_id (map_option cla_id (List.find (\<lambda>a. cla_role a = ''explorer'') agents));
          rc = restore_shadow now (p2_disk s) (buildRelayChain now peers explorerId ChStable None);
          st1 = fst (updateLocalState now createInitialState ''explorer_id'' (opt_json JStr explorerId) ''agent-0'');
          st2 = fst (updateLocalState now st1 ''relay_chain'' (jstrs (rlc_chain rc)) ''agent-0'')
      in s\<lparr> p2_peers := peers, p2_localNodeId := ''agent-0'', p2_currentExplorerId := explorerId, p2_relayChain := rc, p2_managedState := st2,
            p2_soloMode := False, p2_lastPeerHeardAt := now, p2_soloExitStableTicks := 0, p2_lastStateSnapshotAt := now,
            p2_coordinationEvents := [coordination now (''ev-init-'' @ show_int now) ''peer_discovered''
              (''P2P network initialized with '' @ show_nat (length agents) @ '' nodes'') None],
            p2_metrics := defaultMetrics\<lparr> pm_peersDiscovered := length agents \<rparr>,
            p2_partitions := [\<lparr> pti_id = ''main'', pti_members = map cla_id agents, pti_explorerId = explorerId, pti_explorerVersion = 0, pti_detectedAt = now \<rparr>] \<rparr>)"

definition startP2P :: "p2p_state \<Rightarrow> p2p_state" where
  "startP2P s = s\<lparr> p2_running := True \<rparr>"

definition count_repair :: "chain_repair_attempt \<Rightarrow> p2p_metrics \<Rightarrow> p2p_metrics" where
  "count_repair r m = m\<lparr> pm_chainRepairsAttempted := pm_chainRepairsAttempted m + 1,
     pm_chainRepairsSucceeded := pm_chainRepairsSucceeded m + (if cra_status r = RpSuccess then 1 else 0) \<rparr>"

text \<open>
  The part that stopping and leaving share: the chain is repaired around a node that is in it. The result is the state with its chain, its
  repairs and its metrics, and the events of the repair.
\<close>

definition repair_around :: "p2p_env \<Rightarrow> ident \<Rightarrow> p2p_state \<Rightarrow> p2p_state \<times> coordination_event list" where
  "repair_around e node s =
     (if node \<in> set (rlc_chain (p2_relayChain s))
      then let out = attemptChainRepair (en_fx e) (en_now e) (p2_relayChain s) node (p2_peers s)
           in (s\<lparr> p2_relayChain := default_to (ro_newChain out) (p2_relayChain s),
                  p2_chainRepairs := slice_tail 20 (p2_chainRepairs s @ [ro_repair out]),
                  p2_metrics := count_repair (ro_repair out) (p2_metrics s) \<rparr>, ro_events out)
      else (s, []))"

definition stopP2P :: "p2p_env \<Rightarrow> p2p_state \<Rightarrow> p2p_state" where
  "stopP2P e s =
     (let now = en_now e; l = p2_localNodeId s; me = js_get (p2_peers s) l;
          leaving = gossip_of now (''lv-'' @ show_int now) ''LEAVING'' l ''broadcast'' [(''node_id'', JStr l)] 6;
          leaveEvt = coordination now (''ev-lv-'' @ show_int now) ''peer_leaving''
            (default_to (map_option pi_name me) l @ '' broadcast LEAVING (graceful shutdown)'') (Some l);
          (s', evs) = repair_around e l s
      in s'\<lparr> p2_running := False,
             p2_coordinationEvents := add_coordination (p2_coordinationEvents s) [leaveEvt] @ evs,
             p2_messageLog := add_log (p2_messageLog s) [leaving],
             p2_node := Some \<lparr> dnp_nodeId = l, dnp_role = default_to (map_option pi_role me) PrStandby, dnp_depth = default_to (map_option pi_depth me) 0,
               dnp_chainHint = rlc_chain (p2_relayChain s), dnp_peerIds = js_keys (p2_peers s), dnp_savedAt = now \<rparr> \<rparr>)"

definition resetP2P :: "timestamp \<Rightarrow> p2p_state \<Rightarrow> p2p_state" where
  "resetP2P now s =
     (initial_p2p now)\<lparr> p2_localNodeId := p2_localNodeId s, p2_outbox := [], p2_disk := p2_disk s, p2_node := p2_node s,
        p2_packetLossPercent := p2_packetLossPercent s \<rparr>"

subsection \<open>Elections and repairs on demand\<close>

definition step_down :: "ident \<Rightarrow> ident \<times> peer_info \<Rightarrow> ident \<times> peer_info" where
  "step_down cand ip = (if pi_role (snd ip) = PrExplorer \<and> fst ip \<noteq> cand then (fst ip, (snd ip)\<lparr> pi_role := PrStandby \<rparr>) else ip)"

text \<open>The others step down, and the candidate, where it is in the table, becomes explorer with the version of the election.\<close>

definition crown_candidate :: "timestamp \<Rightarrow> ident \<Rightarrow> int \<Rightarrow> peer_table \<Rightarrow> peer_table" where
  "crown_candidate now cand version peers =
     (let stepped = map (step_down cand) peers
      in case js_get stepped cand of
           None \<Rightarrow> stepped
         | Some p \<Rightarrow> js_put cand (p\<lparr> pi_role := PrExplorer, pi_explorerVersion := version, pi_explorerSince := or_num (pi_explorerSince p) now \<rparr>) stepped)"

definition triggerElection :: "p2p_env \<Rightarrow> ident \<Rightarrow> p2p_state \<Rightarrow> p2p_state" where
  "triggerElection e cand s =
     (let now = en_now e;
          (el, evs, msgs, _) = runElection (en_fx e) now (en_rng e) 0 cand (p2_peers s);
          won = (els_status el = EsWon);
          peers = (if won then crown_candidate now cand (els_explorerVersion el) (p2_peers s) else p2_peers s);
          m = p2_metrics s
      in s\<lparr> p2_elections := slice_tail 20 (p2_elections s @ [el]), p2_peers := peers,
            p2_currentExplorerId := (if won then Some cand else p2_currentExplorerId s),
            p2_relayChain := (if won then buildRelayChain now peers (Some cand) ChStable (Some (p2_relayChain s)) else p2_relayChain s),
            p2_metrics := m\<lparr> pm_electionsHeld := pm_electionsHeld m + 1, pm_electionsWon := pm_electionsWon m + (if won then 1 else 0) \<rparr>,
            p2_coordinationEvents := add_coordination (p2_coordinationEvents s) evs, p2_messageLog := add_log (p2_messageLog s) msgs \<rparr>)"

text \<open>\<open>Math.random().toString(36).slice(2, 9)\<close>\<close>

definition reliable_suffix :: "p2p_env \<Rightarrow> string" where
  "reliable_suffix e = take 7 (drop 2 (en_base36 e (en_rng e 0)))"

definition enqueue_p2p :: "p2p_env \<Rightarrow> ident \<Rightarrow> string \<Rightarrow> obj \<Rightarrow> p2p_state \<Rightarrow> p2p_state" where
  "enqueue_p2p e dest kind payload s =
     s\<lparr> p2_outbox := snd (enqueueReliable dest kind payload (en_now e) (reliable_suffix e) (p2_outbox s)) \<rparr>"

definition triggerChainRepair :: "p2p_env \<Rightarrow> ident \<Rightarrow> p2p_state \<Rightarrow> p2p_state" where
  "triggerChainRepair e failed s =
     (let out = attemptChainRepair (en_fx e) (en_now e) (p2_relayChain s) failed (p2_peers s);
          dest = (case given_id (p2_currentExplorerId s) of None \<Rightarrow> p2_localNodeId s
                  | Some c \<Rightarrow> if js_get (p2_peers s) c \<noteq> None then c else p2_localNodeId s);
          chain = (case ro_newChain out of None \<Rightarrow> rlc_chain (p2_relayChain s) | Some rc \<Rightarrow> rlc_chain rc);
          s1 = enqueue_p2p e dest ''CHAIN_UPDATE'' [(''chain'', jstrs chain), (''failedNodeId'', JStr failed)] s
      in s1\<lparr> p2_relayChain := default_to (ro_newChain out) (p2_relayChain s),
             p2_chainRepairs := slice_tail 20 (p2_chainRepairs s @ [ro_repair out]), p2_metrics := count_repair (ro_repair out) (p2_metrics s),
             p2_coordinationEvents := add_coordination (p2_coordinationEvents s) (ro_events out),
             p2_messageLog := add_log (p2_messageLog s) (ro_messages out) \<rparr>)"

subsection \<open>Partitions, failures and leaving\<close>

definition injectPartition :: "p2p_env \<Rightarrow> ident list \<Rightarrow> p2p_state \<Rightarrow> p2p_state" where
  "injectPartition e nodeIds s =
     (let now = en_now e; peers = p2_peers s;
          partition = ''partition-'' @ show_int now;
          move = (\<lambda>m i. case js_get m i of None \<Rightarrow> m | Some p \<Rightarrow> js_put i (p\<lparr> pi_partitionId := partition \<rparr>) m);
          name_of = (\<lambda>i. case js_get peers i of None \<Rightarrow> i | Some p \<Rightarrow> if pi_name p = [] then i else pi_name p)
      in s\<lparr> p2_peers := foldl move peers nodeIds,
            p2_coordinationEvents := add_coordination (p2_coordinationEvents s)
              [coordination now (''ev-part-'' @ show_int now) ''partition_detected''
                (''Network partition injected: '' @ str_join '', '' (map name_of nodeIds) @ '' isolated'') None] \<rparr>)"

definition better_explorer :: "peer_info \<Rightarrow> peer_info \<Rightarrow> peer_info" where
  "better_explorer a b =
     (if pi_depth b > pi_depth a then b
      else if pi_depth b = pi_depth a
      then (if pi_explorerVersion b > pi_explorerVersion a then b
            else if pi_explorerVersion b = pi_explorerVersion a \<and> pi_nodeId b < pi_nodeId a then b else a)
      else a)"

definition demote :: "ident \<Rightarrow> peer_table \<Rightarrow> peer_info \<Rightarrow> peer_table" where
  "demote winner m x =
     (if pi_nodeId x \<noteq> winner
      then (case js_get m (pi_nodeId x) of None \<Rightarrow> m | Some p \<Rightarrow> js_put (pi_nodeId x) (p\<lparr> pi_role := PrStandby \<rparr>) m) else m)"

definition resolve_explorers :: "peer_table \<Rightarrow> peer_table" where
  "resolve_explorers peers =
     (case filter (\<lambda>p. pi_role p = PrExplorer) (js_values peers) of
        x # y # rest \<Rightarrow> let winner = foldl better_explorer x (y # rest) in foldl (demote (pi_nodeId winner)) peers (x # y # rest)
      | _ \<Rightarrow> peers)"

definition rejoin :: "timestamp \<Rightarrow> peer_table \<Rightarrow> peer_table" where
  "rejoin now peers = map (\<lambda>(i, p). (i, p\<lparr> pi_partitionId := ''main'', pi_lastHeartbeat := now, pi_status := PsActive \<rparr>)) peers"

definition explorer_of :: "peer_table \<Rightarrow> ident option" where
  "explorer_of peers = map_option pi_nodeId (List.find (\<lambda>p. pi_role p = PrExplorer) (js_values peers))"

definition mergePartitions :: "p2p_env \<Rightarrow> p2p_state \<Rightarrow> p2p_state" where
  "mergePartitions e s =
     (let now = en_now e; peers = resolve_explorers (rejoin now (p2_peers s)); winner = explorer_of peers;
          chain = buildRelayChain now peers winner ChStable (Some (p2_relayChain s)); m = p2_metrics s
      in s\<lparr> p2_peers := peers,
            p2_partitions := [\<lparr> pti_id = ''main'', pti_members = js_keys peers, pti_explorerId = winner, pti_explorerVersion = 0, pti_detectedAt = now \<rparr>],
            p2_relayChain := chain, p2_currentExplorerId := winner,
            p2_coordinationEvents := add_coordination (p2_coordinationEvents s)
              [coordination now (''ev-merge-'' @ show_int now) ''partition_merged''
                (''All partitions merged '' @ long_dash @ '' explorer conflict resolved (depth / version / id tie-break)'') None],
            p2_metrics := m\<lparr> pm_partitionsMerged := pm_partitionsMerged m + 1 \<rparr>,
            p2_disk := Some (buildSwarmStatePayload now peers chain winner, p2_soloMode s) \<rparr>)"

definition broadcastStateUpdate :: "p2p_env \<Rightarrow> string \<Rightarrow> json \<Rightarrow> p2p_state \<Rightarrow> p2p_state" where
  "broadcastStateUpdate e key v s =
     (let now = en_now e; (ms, msg) = updateLocalState now (p2_managedState s) key v (p2_localNodeId s)
      in s\<lparr> p2_managedState := ms, p2_messageLog := add_log (p2_messageLog s) [msg],
            p2_coordinationEvents := add_coordination (p2_coordinationEvents s)
              [coordination now (''ev-state-bcast-'' @ show_int now) ''state_sync''
                (''State \"'' @ key @ ''\" broadcast (v'' @ (case js_get (mds_localVersionVector ms) key of None \<Rightarrow> ''undefined'' | Some x \<Rightarrow> en_num e x) @ '')'') None] \<rparr>)"

definition simulateNodeFailure :: "p2p_env \<Rightarrow> ident \<Rightarrow> p2p_state \<Rightarrow> p2p_state" where
  "simulateNodeFailure e node s =
     (case js_get (p2_peers s) node of
        None \<Rightarrow> s
      | Some p \<Rightarrow>
          s\<lparr> p2_peers := js_put node (p\<lparr> pi_status := PsDead, pi_lastHeartbeat := 0 \<rparr>) (p2_peers s),
             p2_coordinationEvents := add_coordination (p2_coordinationEvents s)
               [coordination (en_now e) (''ev-fail-'' @ show_int (en_now e)) ''peer_dead'' (pi_name p @ '' FAILED (simulated)'') (Some node)] \<rparr>)"

definition simulateNodeRecovery :: "p2p_env \<Rightarrow> ident \<Rightarrow> p2p_state \<Rightarrow> p2p_state" where
  "simulateNodeRecovery e node s =
     (case js_get (p2_peers s) node of
        None \<Rightarrow> s
      | Some p \<Rightarrow>
          s\<lparr> p2_peers := js_put node (p\<lparr> pi_status := PsActive, pi_lastHeartbeat := en_now e \<rparr>) (p2_peers s),
             p2_coordinationEvents := add_coordination (p2_coordinationEvents s)
               [coordination (en_now e) (''ev-recover-'' @ show_int (en_now e)) ''peer_discovered''
                 (pi_name p @ '' recovered '' @ long_dash @ '' use Takeover if this node should reclaim explorer'') (Some node)] \<rparr>)"

definition gracefulLeavePeer :: "p2p_env \<Rightarrow> ident \<Rightarrow> p2p_state \<Rightarrow> p2p_state" where
  "gracefulLeavePeer e node s =
     (case js_get (p2_peers s) node of
        None \<Rightarrow> s
      | Some p \<Rightarrow>
          let now = en_now e;
              leaving = gossip_of now (''lv-'' @ node @ ''-'' @ show_int now) ''LEAVING'' node ''broadcast'' [(''node_id'', JStr node)] 6;
              leaveEvt = coordination now (''ev-gl-'' @ show_int now) ''peer_leaving''
                (pi_name p @ '' LEAVING '' @ long_dash @ '' fast-path chain repair'') (Some node);
              (s1, evs) = repair_around e node s;
              dest = default_to (given_id (p2_currentExplorerId s)) (p2_localNodeId s);
              s2 = enqueue_p2p e dest ''CHAIN_UPDATE'' [(''chain'', jstrs (rlc_chain (p2_relayChain s1))), (''leaving'', JStr node)] s1
          in s2\<lparr> p2_coordinationEvents := slice_tail 220 (p2_coordinationEvents s @ [leaveEvt] @ evs),
                 p2_messageLog := add_log (p2_messageLog s) [leaving] \<rparr>)"

definition requestExplorerTakeover :: "p2p_env \<Rightarrow> ident \<Rightarrow> p2p_state \<Rightarrow> p2p_state" where
  "requestExplorerTakeover e requester s =
     (case js_get (p2_peers s) requester of
        None \<Rightarrow> s
      | Some p \<Rightarrow>
          let dest = default_to (given_id (p2_currentExplorerId s)) requester;
              s1 = enqueue_p2p e dest ''TAKEOVER'' [(''requester'', JStr requester), (''depth'', JNum (pi_depth p))] s;
              t = handleExplorerTakeover (en_fx e) (en_now e) (p2_peers s) (p2_currentExplorerId s) requester (pi_depth p)
          in if \<not> tko_accepted t then s1
             else s1\<lparr> p2_peers := tko_nextPeers t, p2_currentExplorerId := tko_nextExplorerId t,
                      p2_relayChain := buildRelayChain (en_now e) (tko_nextPeers t) (tko_nextExplorerId t) ChStable (Some (p2_relayChain s)),
                      p2_coordinationEvents := add_coordination (p2_coordinationEvents s) (tko_events t),
                      p2_messageLog := add_log (p2_messageLog s) (tko_messages t) \<rparr>)"

definition requestStateMerge :: "p2p_env \<Rightarrow> p2p_state \<Rightarrow> p2p_state" where
  "requestStateMerge e s =
     (let now = en_now e; explorerId = pickExplorerId (p2_peers s);
          ours = buildSwarmStatePayload now (p2_peers s) (p2_relayChain s) explorerId;
          nothing = s\<lparr> p2_coordinationEvents := add_coordination (p2_coordinationEvents s)
            [coordination now (''ev-nodisk-'' @ show_int now) ''state_sync'' ''No persisted swarm_state on disk to merge'' None] \<rparr>
      in case p2_disk s of
           None \<Rightarrow> nothing
         | Some (disk, _) \<Rightarrow>
             if ssp_drones disk = [] then nothing
             else let merged = mergeSwarmStatePayloads ours disk;
                      peers = applyPayloadToPeers now (p2_peers s) merged;
                      explorer = nullish (ssp_explorerId merged) explorerId;
                      m = p2_metrics s; l = p2_localNodeId s
                  in s\<lparr> p2_peers := peers,
                        p2_relayChain := buildRelayChain now peers explorer ChForming (Some (p2_relayChain s)),
                        p2_currentExplorerId := explorer,
                        p2_metrics := m\<lparr> pm_stateMergesCompleted := pm_stateMergesCompleted m + 1 \<rparr>,
                        p2_messageLog := add_log (p2_messageLog s)
                          [gossip_of now (''sr-manual-'' @ show_int now) ''STATE_REQUEST'' l ''broadcast'' [] 4,
                           gossip_of now (''srsp-manual-'' @ show_int now) ''STATE_RESPONSE'' ''peer-sim'' l [(''state'', state_payload_json disk)] 4],
                        p2_coordinationEvents := add_coordination (p2_coordinationEvents s)
                          [coordination now (''ev-merge-manual-'' @ show_int now) ''state_merge'' ''Manual STATE_REQUEST merge with persisted snapshot'' None] \<rparr>)"

subsection \<open>The tick\<close>

text \<open>What the tick has computed so far, with the number of draws it made.\<close>

record tick_vars =
  tk_peers :: peer_table
  tk_chain :: relay_chain_state
  tk_explorer :: "ident option"
  tk_solo :: bool
  tk_stable :: nat
  tk_heard :: timestamp
  tk_events :: "coordination_event list"
  tk_messages :: "gossip_message list"
  tk_metrics :: p2p_metrics
  tk_outbox :: "pending_reliable list"
  tk_draws :: nat

definition tick_start :: "p2p_state \<Rightarrow> tick_vars" where
  "tick_start s = \<lparr> tk_peers = p2_peers s, tk_chain = p2_relayChain s, tk_explorer = p2_currentExplorerId s, tk_solo = p2_soloMode s,
     tk_stable = p2_soloExitStableTicks s, tk_heard = p2_lastPeerHeardAt s, tk_events = [], tk_messages = [], tk_metrics = p2_metrics s,
     tk_outbox = p2_outbox s, tk_draws = 0 \<rparr>"

definition has_active_remote :: "ident \<Rightarrow> peer_table \<Rightarrow> bool" where
  "has_active_remote l peers \<longleftrightarrow> list_ex (\<lambda>ip. fst ip \<noteq> l \<and> pi_status (snd ip) = PsActive) peers"

definition tick_statuses :: "p2p_env \<Rightarrow> ident \<Rightarrow> tick_vars \<Rightarrow> tick_vars" where
  "tick_statuses e l t =
     (let (peers, evs, stale, dead) = updatePeerStatuses (tk_peers t) (en_now e) l; m = tk_metrics t
      in t\<lparr> tk_peers := peers, tk_events := tk_events t @ evs,
            tk_metrics := m\<lparr> pm_staleTransitions := pm_staleTransitions m + stale, pm_deadTransitions := pm_deadTransitions m + dead \<rparr> \<rparr>)"

text \<open>The due items of the outbox draw once each, and each failed one draws for its event.\<close>

definition due_items :: "timestamp \<Rightarrow> pending_reliable list \<Rightarrow> nat" where
  "due_items now q = length (filter (\<lambda>it. \<not> now < prl_nextAttemptAt it) q)"

definition degraded_event :: "p2p_env \<Rightarrow> nat \<Rightarrow> coordination_event" where
  "degraded_event e k = coordination (en_now e) (''ev-rel-fail-'' @ show_int (en_now e) @ ''-'' @ take 4 (drop 2 (en_base36 e (en_rng e k)))) ''reliable_degraded''
     (''Reliable message exhausted retries '' @ long_dash @ '' target may be unreachable'') None"

definition tick_outbox :: "p2p_env \<Rightarrow> ident \<Rightarrow> real \<Rightarrow> tick_vars \<Rightarrow> tick_vars" where
  "tick_outbox e l loss t =
     (let k = tk_draws t; m = tk_metrics t;
          (r, q) = processReliableOutbox (en_now e) l (Some loss) (\<lambda>i. en_rng e (k + i)) (tk_outbox t);
          k' = k + due_items (en_now e) (tk_outbox t); n = length (obr_failed r)
      in t\<lparr> tk_messages := tk_messages t @ obr_messages r, tk_outbox := q,
            tk_metrics := m\<lparr> pm_reliableDeliveries := pm_reliableDeliveries m + length (obr_sent r), pm_reliableFailures := pm_reliableFailures m + n \<rparr>,
            tk_events := tk_events t @ map (degraded_event e) [k' ..< k' + n], tk_draws := k' + n \<rparr>)"

definition tick_discover :: "p2p_env \<Rightarrow> ident \<Rightarrow> nat \<Rightarrow> bool \<Rightarrow> tick_vars \<Rightarrow> tick_vars" where
  "tick_discover e l tick remote t =
     (if \<not> remote \<and> \<not> tk_solo t \<and> tick mod DISCOVER_INTERVAL_TICKS = 0
      then let now = en_now e; me = js_get (tk_peers t) l; m = tk_metrics t
           in t\<lparr> tk_messages := tk_messages t @ generateDiscoverMessages now l (default_to (map_option pi_depth me) 0) (default_to (map_option pi_battery me) 0),
                 tk_metrics := m\<lparr> pm_discoverBroadcasts := pm_discoverBroadcasts m + 1 \<rparr>,
                 tk_events := tk_events t @ [coordination now (''ev-disc-'' @ show_int now) ''discover_sent'' ''DISCOVER broadcast while seeking peers'' (Some l)] \<rparr>
      else t)"

definition tick_gossip :: "p2p_env \<Rightarrow> ident \<Rightarrow> nat \<Rightarrow> tick_vars \<Rightarrow> tick_vars" where
  "tick_gossip e l tick t =
     (if tick mod 3 = 0
      then let (msgs, evs) = performGossipRound (en_now e) (tk_peers t) l; m = tk_metrics t
           in t\<lparr> tk_messages := tk_messages t @ msgs, tk_events := tk_events t @ evs,
                 tk_metrics := m\<lparr> pm_gossipMessagesSent := pm_gossipMessagesSent m + length msgs \<rparr> \<rparr>
      else t)"

definition receive_heartbeat :: "p2p_env \<Rightarrow> ident \<Rightarrow> tick_vars \<Rightarrow> ident \<times> peer_info \<Rightarrow> tick_vars" where
  "receive_heartbeat e l t ip =
     (let (i, p) = ip; k = tk_draws t; m = tk_metrics t
      in if i = l \<or> pi_status p = PsDead then t
         else if en_rng e k > 1 / 10
         then t\<lparr> tk_peers := js_put i (p\<lparr> pi_lastHeartbeat := en_now e \<rparr>) (tk_peers t), tk_heard := en_now e,
                 tk_metrics := m\<lparr> pm_heartbeatsReceived := pm_heartbeatsReceived m + 1 \<rparr>, tk_draws := k + 1 \<rparr>
         else t\<lparr> tk_draws := k + 1 \<rparr>)"

definition tick_heartbeats :: "p2p_env \<Rightarrow> ident \<Rightarrow> nat \<Rightarrow> tick_vars \<Rightarrow> tick_vars" where
  "tick_heartbeats e l tick t =
     (if tick mod 2 = 0
      then let hbs = generateHeartbeats (en_now e) (tk_peers t) l; m = tk_metrics t
           in foldl (receive_heartbeat e l)
                (t\<lparr> tk_messages := tk_messages t @ hbs, tk_metrics := m\<lparr> pm_heartbeatsSent := pm_heartbeatsSent m + length hbs \<rparr> \<rparr>) (tk_peers t)
      else t)"

definition tick_heard :: "p2p_env \<Rightarrow> bool \<Rightarrow> tick_vars \<Rightarrow> tick_vars" where
  "tick_heard e remote t = (if remote then t\<lparr> tk_heard := en_now e \<rparr> else t)"

definition enter_solo :: "p2p_env \<Rightarrow> ident \<Rightarrow> bool \<Rightarrow> tick_vars \<Rightarrow> tick_vars" where
  "enter_solo e l remote t =
     (let now = en_now e
      in if \<not> tk_solo t \<and> \<not> remote \<and> now - tk_heard t > SOLO_TIMEOUT_MS
         then let me = js_get (tk_peers t) l;
                  peers = (case me of
                             None \<Rightarrow> tk_peers t
                           | Some p \<Rightarrow> js_put l (p\<lparr> pi_role := PrExplorer, pi_explorerSince := or_num (pi_explorerSince p) now,
                               pi_explorerVersion := pi_explorerVersion p + 1 \<rparr>) (tk_peers t))
              in t\<lparr> tk_solo := True, tk_peers := peers, tk_explorer := Some l, tk_chain := buildRelayChain now peers (Some l) ChSolo (Some (tk_chain t)),
                    tk_events := tk_events t @ [coordination now (''ev-solo-in-'' @ show_int now) ''solo_mode_entered''
                      (default_to (map_option pi_name me) l @ '' entering solo mode '' @ long_dash @ '' no reachable peers for '' @ show_int (SOLO_TIMEOUT_MS div 1000) @ ''s'') (Some l)] \<rparr>
         else t)"

definition count_stable :: "bool \<Rightarrow> tick_vars \<Rightarrow> tick_vars" where
  "count_stable remote t = (if tk_solo t then t\<lparr> tk_stable := (if remote then tk_stable t + 1 else 0) \<rparr> else t)"

text \<open>Leaving solo mode, first the snapshot on disk, then an election.\<close>

definition meet_disk :: "p2p_env \<Rightarrow> ident \<Rightarrow> (swarm_state_payload \<times> bool) option \<Rightarrow> tick_vars \<Rightarrow> tick_vars" where
  "meet_disk e l disk t =
     (let now = en_now e;
          alone = t\<lparr> tk_explorer := Some (default_to (pickExplorerId (tk_peers t)) l),
            tk_events := tk_events t @ [coordination now (''ev-reint-'' @ show_int now) ''meet_greet''
              (''Reintegrated after solo '' @ long_dash @ '' no disk snapshot; using live peer roles'') None] \<rparr>
      in case disk of
           None \<Rightarrow> alone
         | Some (remote, _) \<Rightarrow>
             if ssp_drones remote = [] then alone
             else let merged = mergeSwarmStatePayloads (buildSwarmStatePayload now (tk_peers t) (tk_chain t) (tk_explorer t)) remote;
                      peers = applyPayloadToPeers now (tk_peers t) merged; m = tk_metrics t
                  in t\<lparr> tk_peers := peers, tk_metrics := m\<lparr> pm_stateMergesCompleted := pm_stateMergesCompleted m + 1 \<rparr>,
                        tk_explorer := Some (default_to (nullish (ssp_explorerId merged) (pickExplorerId peers)) l),
                        tk_messages := tk_messages t @
                          [gossip_of now (''sr-'' @ show_int now) ''STATE_REQUEST'' l ''broadcast'' [(''reason'', JStr ''post_solo_reintegration'')] 4,
                           gossip_of now (''srsp-'' @ show_int now) ''STATE_RESPONSE'' ''peer-sim'' l [(''state'', state_payload_json remote)] 4],
                        tk_events := tk_events t @
                          [coordination now (''ev-merge-'' @ show_int now) ''state_merge''
                             (''Merged persisted swarm state with live mesh ('' @ show_nat (length (ssp_drones merged)) @ '' drones)'') None,
                           coordination now (''ev-mg-'' @ show_int now) ''meet_greet'' ''Meet-and-greet: STATE_REQUEST / STATE_RESPONSE exchange (simulated)'' None] \<rparr>)"

definition solo_election :: "p2p_env \<Rightarrow> ident \<Rightarrow> tick_vars \<Rightarrow> tick_vars" where
  "solo_election e l t =
     (let now = en_now e; cand = default_to (tk_explorer t) l;
          (el, evs, msgs, k) = runElection (en_fx e) now (en_rng e) (tk_draws t) cand (tk_peers t);
          won = (els_status el = EsWon); m = tk_metrics t;
          peers = (if won then crown_candidate now cand (els_explorerVersion el) (tk_peers t) else tk_peers t);
          explorer = Some (default_to (pickExplorerId peers) cand)
      in t\<lparr> tk_events := tk_events t @ evs, tk_messages := tk_messages t @ msgs, tk_draws := k,
            tk_metrics := m\<lparr> pm_electionsHeld := pm_electionsHeld m + 1, pm_electionsWon := pm_electionsWon m + (if won then 1 else 0) \<rparr>,
            tk_peers := peers, tk_explorer := explorer, tk_chain := buildRelayChain now peers explorer ChForming (Some (tk_chain t)) \<rparr>)"

definition leave_solo :: "p2p_env \<Rightarrow> ident \<Rightarrow> bool \<Rightarrow> (swarm_state_payload \<times> bool) option \<Rightarrow> tick_vars \<Rightarrow> tick_vars" where
  "leave_solo e l remote disk t =
     (if tk_solo t \<and> remote \<and> SOLO_EXIT_STABLE_TICKS \<le> tk_stable t
      then let t' = solo_election e l (meet_disk e l disk t); now = en_now e
           in t'\<lparr> tk_solo := False, tk_stable := 0, tk_heard := now,
                  tk_events := tk_events t' @ [coordination now (''ev-solo-out-'' @ show_int now) ''solo_mode_exited''
                    (''Exiting solo mode '' @ long_dash @ '' peers stable, chain rebuilt'') (Some l)] \<rparr>
      else t)"

definition repair_dead :: "p2p_env \<Rightarrow> tick_vars \<Rightarrow> peer_info \<Rightarrow> tick_vars" where
  "repair_dead e t p =
     (if pi_nodeId p \<in> set (rlc_chain (tk_chain t))
      then let out = attemptChainRepair (en_fx e) (en_now e) (tk_chain t) (pi_nodeId p) (tk_peers t); m = tk_metrics t;
               m1 = m\<lparr> pm_chainRepairsAttempted := pm_chainRepairsAttempted m + 1 \<rparr>;
               t1 = t\<lparr> tk_events := tk_events t @ ro_events out, tk_messages := tk_messages t @ ro_messages out \<rparr>
           in case ro_newChain out of
                None \<Rightarrow> t1\<lparr> tk_metrics := m1 \<rparr>
              | Some rc \<Rightarrow> t1\<lparr> tk_chain := rc, tk_metrics := m1\<lparr> pm_chainRepairsSucceeded := pm_chainRepairsSucceeded m1 + 1,
                    pm_bypassSuccesses := pm_bypassSuccesses m1 + (if cra_strategy (ro_repair out) = RsBypass then 1 else 0) \<rparr> \<rparr>
      else t)"

definition tick_repairs :: "p2p_env \<Rightarrow> tick_vars \<Rightarrow> tick_vars" where
  "tick_repairs e t = foldl (repair_dead e) t (filter (\<lambda>p. pi_status p = PsDead \<and> pi_role p = PrRelay) (js_values (tk_peers t)))"

definition tick_vector :: "p2p_env \<Rightarrow> ident \<Rightarrow> nat \<Rightarrow> managed_state \<Rightarrow> tick_vars \<Rightarrow> tick_vars" where
  "tick_vector e l tick ms t =
     (if tick mod 10 = 0
      then let m = tk_metrics t
           in t\<lparr> tk_messages := tk_messages t @ [generateVersionVectorBroadcast (en_now e) ms l],
                 tk_metrics := m\<lparr> pm_stateSyncsCompleted := pm_stateSyncsCompleted m + 1 \<rparr> \<rparr>
      else t)"

definition tick_snapshot :: "p2p_env \<Rightarrow> ident \<Rightarrow> timestamp \<Rightarrow> tick_vars \<Rightarrow> tick_vars" where
  "tick_snapshot e l previous t =
     (let now = en_now e
      in if now - previous \<ge> STATE_SNAPSHOT_INTERVAL_MS
         then let snap = buildSwarmStatePayload now (tk_peers t) (tk_chain t) (nullish (tk_explorer t) (pickExplorerId (tk_peers t)));
                  version = rlc_version (tk_chain t) + now div 1000; m = tk_metrics t
              in t\<lparr> tk_messages := tk_messages t @ [gossip_of now (''snap-'' @ show_int now) ''STATE_SNAPSHOT'' l ''broadcast''
                      [(''version'', jint version), (''state'', state_payload_json snap)] 8],
                    tk_metrics := m\<lparr> pm_stateSnapshotsBroadcast := pm_stateSnapshotsBroadcast m + 1 \<rparr>,
                    tk_events := tk_events t @ [coordination now (''ev-snap-'' @ show_int now) ''state_sync''
                      (''STATE_SNAPSHOT v'' @ show_int version @ '' ('' @ show_nat (length (ssp_drones snap)) @ '' drones)'') None] \<rparr>
         else t)"

fun first_volunteer :: "p2p_env \<Rightarrow> real \<Rightarrow> tick_vars \<Rightarrow> peer_info list \<Rightarrow> tick_vars" where
  "first_volunteer e score t [] = t"
| "first_volunteer e score t (p # ps) =
     (let (r, k) = checkVolunteerRelay (en_now e) (en_rng e) (tk_draws t) p (tk_chain t) (tk_peers t) score; m = tk_metrics t
      in case r of
           None \<Rightarrow> first_volunteer e score (t\<lparr> tk_draws := k \<rparr>) ps
         | Some (ev, msg) \<Rightarrow> t\<lparr> tk_events := tk_events t @ [ev], tk_messages := tk_messages t @ [msg], tk_draws := k,
               tk_metrics := m\<lparr> pm_volunteerRelays := pm_volunteerRelays m + 1 \<rparr> \<rparr>)"

definition tick_volunteers :: "p2p_env \<Rightarrow> nat \<Rightarrow> p2p_metrics \<Rightarrow> tick_vars \<Rightarrow> tick_vars" where
  "tick_volunteers e tick before t =
     (if tick mod 5 = 0
      then first_volunteer e (if pm_gossipMessagesSent before > 0 then 15 else 0) t
             (filter (\<lambda>p. pi_role p = PrStandby \<and> pi_status p = PsActive) (js_values (tk_peers t)))
      else t)"

text \<open>The whole computation of a tick, in the order of the code; the flag is taken right after the statuses are updated.\<close>

definition tick_steps :: "p2p_env \<Rightarrow> p2p_state \<Rightarrow> tick_vars" where
  "tick_steps e s =
     (let l = p2_localNodeId s; tick = p2_tick s + 1;
          t0 = tick_statuses e l (tick_start s);
          remote = has_active_remote l (tk_peers t0);
          t1 = tick_heartbeats e l tick (tick_gossip e l tick (tick_discover e l tick remote (tick_outbox e l (p2_packetLossPercent s) t0)));
          t2 = leave_solo e l remote (p2_disk s) (count_stable remote (enter_solo e l remote (tick_heard e remote t1)))
      in tick_volunteers e tick (p2_metrics s) (tick_snapshot e l (p2_lastStateSnapshotAt s) (tick_vector e l tick (p2_managedState s) (tick_repairs e t2))))"

definition tickP2P :: "p2p_env \<Rightarrow> p2p_state \<Rightarrow> p2p_state" where
  "tickP2P e s =
     (let now = en_now e; l = p2_localNodeId s; tick = p2_tick s + 1; t = tick_steps e s; peers = tk_peers t;
          partitions = detectPartitions now peers;
          explorer = nullish (tk_explorer t) (pickExplorerId peers);
          persist = (tick mod PERSIST_EVERY_TICKS = 0);
          history = slice_tail 50 (pm_messageLatencyHistory (p2_metrics s) @ [10 + en_rng e (tk_draws t) * 30]);
          m = tk_metrics t
      in s\<lparr> p2_tick := tick, p2_peers := peers, p2_relayChain := tk_chain t, p2_currentExplorerId := explorer,
            p2_pendingMessages := tk_messages t, p2_messageLog := add_log (p2_messageLog s) (tk_messages t),
            p2_metrics := m\<lparr> pm_partitionsDetected := (if length partitions > 1 then length partitions else pm_partitionsDetected m),
              pm_messageLatencyHistory := history, pm_messageLatencyAvg := sum_list history / real (length history) \<rparr>,
            p2_coordinationEvents := add_coordination (p2_coordinationEvents s) (tk_events t), p2_partitions := partitions,
            p2_soloMode := tk_solo t, p2_lastPeerHeardAt := tk_heard t, p2_soloExitStableTicks := tk_stable t,
            p2_lastStateSnapshotAt := (if now - p2_lastStateSnapshotAt s \<ge> STATE_SNAPSHOT_INTERVAL_MS then now else p2_lastStateSnapshotAt s),
            p2_outbox := tk_outbox t,
            p2_disk := (if persist then Some (buildSwarmStatePayload now peers (tk_chain t) explorer, tk_solo t) else p2_disk s),
            p2_node := (case js_get peers l of
                None \<Rightarrow> p2_node s
              | Some me \<Rightarrow> if persist then Some \<lparr> dnp_nodeId = l, dnp_role = pi_role me, dnp_depth = pi_depth me, dnp_chainHint = rlc_chain (tk_chain t),
                    dnp_peerIds = js_keys peers, dnp_savedAt = now \<rparr> else p2_node s) \<rparr>)"

subsection \<open>The table of peers stays well formed\<close>

lemma foldl_keeps:
  assumes "\<And>a x. x \<in> set xs \<Longrightarrow> P a \<Longrightarrow> P (f a x)" "P a"
  shows "P (foldl f a xs)"
  using assms by (induction xs arbitrary: a) simp_all

lemma wf_peers_put: "wf_peers m \<Longrightarrow> pi_nodeId p = i \<Longrightarrow> wf_peers (js_put i p m)"
  by (auto simp: wf_peers_def intro: jsm.invar_insert list_all_put)

lemma wf_peers_map:
  assumes "wf_peers m" "\<And>ip. fst (g ip) = fst ip" "\<And>ip. pi_nodeId (snd (g ip)) = pi_nodeId (snd ip)"
  shows "wf_peers (map g m)"
proof -
  have "map fst (map g m) = map fst m" by (simp add: assms(2))
  moreover have "list_all (\<lambda>(i, p). pi_nodeId p = i) (map g m)"
    using assms(1) unfolding wf_peers_def list_all_iff by (simp add: split_beta assms(2,3))
  ultimately show ?thesis using assms(1) by (simp only: wf_peers_def wf_map_def)
qed

lemma wf_peers_member: "wf_peers m \<Longrightarrow> (i, p) \<in> set m \<Longrightarrow> pi_nodeId p = i"
  by (auto simp: wf_peers_def list_all_iff)

lemma wf_update_status: "wf_peers (fst u) \<Longrightarrow> pi_nodeId p = i \<Longrightarrow> wf_peers (fst (update_status now l u (i, p)))"
  by (cases u) (auto simp: update_status_def Let_def intro: wf_peers_put)

lemma wf_statuses: "wf_peers peers \<Longrightarrow> wf_peers (fst (updatePeerStatuses peers now l))"
  unfolding updatePeerStatuses_def
  by (rule foldl_keeps [where P = "\<lambda>u. wf_peers (fst u)"]) (auto simp: wf_peers_member wf_update_status)

lemma wf_take_drone: "wf_peers m \<Longrightarrow> wf_peers (take_drone m d)"
  by (auto simp: take_drone_def wf_peers_nodeId intro: wf_peers_put split: option.split)

lemma wf_apply_payload: "wf_peers peers \<Longrightarrow> wf_peers (applyPayloadToPeers now peers payload)"
proof -
  assume "wf_peers peers"
  then have *: "wf_peers (foldl take_drone peers (ssp_drones payload))" by (rule foldl_keeps [rotated]) (rule wf_take_drone)
  have "wf_peers (map (crown now ex) (foldl take_drone peers (ssp_drones payload)))" for ex
    by (rule wf_peers_map [OF *]) (simp_all add: crown_def split_beta Let_def)
  then show ?thesis using * by (simp add: applyPayloadToPeers_def Let_def split: option.split)
qed

lemma wf_crown_candidate: "wf_peers peers \<Longrightarrow> wf_peers (crown_candidate now cand version peers)"
proof -
  assume "wf_peers peers"
  then have *: "wf_peers (map (step_down cand) peers)" by (rule wf_peers_map) (simp_all add: step_down_def)
  then show ?thesis by (auto simp: crown_candidate_def Let_def wf_peers_nodeId intro: wf_peers_put split: option.split)
qed

lemma wf_demote: "wf_peers m \<Longrightarrow> wf_peers (demote w m x)"
  by (auto simp: demote_def wf_peers_nodeId intro!: wf_peers_put split: option.split)

lemma wf_resolve: "wf_peers m \<Longrightarrow> wf_peers (resolve_explorers m)"
  unfolding resolve_explorers_def Let_def
  by (auto split: list.split intro!: foldl_keeps [where P = wf_peers] wf_demote)

lemma wf_rejoin: "wf_peers m \<Longrightarrow> wf_peers (rejoin now m)"
  unfolding rejoin_def by (erule wf_peers_map) (simp_all add: split_beta)

lemma wf_takeover: "wf_peers peers \<Longrightarrow> wf_peers (tko_nextPeers (handleExplorerTakeover fx now peers c r d))"
  by (auto simp: handleExplorerTakeover_def Let_def wf_peers_nodeId intro!: wf_peers_put split: option.split)

lemma wf_initial: "wf_peers (createInitialPeers now rng agents)"
proof -
  have "wf_peers (foldl (\<lambda>m ia. js_put (cla_id (snd ia)) (initial_peer now rng ia) m) [] (enumerate 0 agents))"
    by (rule foldl_keeps) (auto simp: initial_peer_def Let_def wf_peers_def wf_map_def intro!: wf_peers_put [unfolded wf_peers_def wf_map_def])
  then show ?thesis by (simp add: createInitialPeers_def)
qed

lemma wf_restore: "wf_peers peers \<Longrightarrow> wf_peers (restore_own_node now d peers)"
  by (auto simp: restore_own_node_def wf_peers_nodeId intro: wf_peers_put split: option.split)

subsection \<open>What each part of the tick leaves alone\<close>

lemma heartbeat_frames:
  "tk_outbox (receive_heartbeat e l t ip) = tk_outbox t" "tk_solo (receive_heartbeat e l t ip) = tk_solo t"
  by (simp_all add: receive_heartbeat_def split_beta Let_def)

lemma repair_dead_frames:
  "tk_peers (repair_dead e t p) = tk_peers t" "tk_outbox (repair_dead e t p) = tk_outbox t" "tk_solo (repair_dead e t p) = tk_solo t"
  by (simp_all add: repair_dead_def Let_def split: option.split)

lemma tick_repairs_frames:
  "tk_peers (tick_repairs e t) = tk_peers t" "tk_outbox (tick_repairs e t) = tk_outbox t" "tk_solo (tick_repairs e t) = tk_solo t"
  unfolding tick_repairs_def
  by (rule foldl_keeps [where P = "\<lambda>x. tk_peers x = tk_peers t"], simp_all add: repair_dead_frames)
     (rule foldl_keeps [where P = "\<lambda>x. tk_outbox x = tk_outbox t"], simp_all add: repair_dead_frames,
      rule foldl_keeps [where P = "\<lambda>x. tk_solo x = tk_solo t"], simp_all add: repair_dead_frames)

lemma volunteer_frames:
  "tk_peers (first_volunteer e score t ps) = tk_peers t" "tk_outbox (first_volunteer e score t ps) = tk_outbox t"
  "tk_solo (first_volunteer e score t ps) = tk_solo t"
  by (induction ps arbitrary: t) (simp_all add: split_beta Let_def split: option.split prod.split)

lemma late_frames:
  "tk_peers (tick_volunteers e n m (tick_snapshot e l p (tick_vector e l n ms (tick_repairs e t)))) = tk_peers t"
  "tk_outbox (tick_volunteers e n m (tick_snapshot e l p (tick_vector e l n ms (tick_repairs e t)))) = tk_outbox t"
  "tk_solo (tick_volunteers e n m (tick_snapshot e l p (tick_vector e l n ms (tick_repairs e t)))) = tk_solo t"
  by (simp_all add: tick_volunteers_def volunteer_frames tick_snapshot_def tick_vector_def tick_repairs_frames Let_def)

lemma early_frames:
  "tk_peers (tick_gossip e l n (tick_discover e l n r (tick_outbox e l loss t))) = tk_peers t"
  "tk_solo (tick_gossip e l n (tick_discover e l n r (tick_outbox e l loss t))) = tk_solo t"
  "tk_outbox (tick_gossip e l n (tick_discover e l n r (tick_outbox e l loss t))) = tk_outbox (tick_outbox e l loss t)"
  by (simp_all add: tick_gossip_def tick_discover_def tick_outbox_def split_beta Let_def)

lemma tick_heartbeats_frames:
  "tk_outbox (tick_heartbeats e l n t) = tk_outbox t" "tk_solo (tick_heartbeats e l n t) = tk_solo t"
proof -
  have "tk_outbox (foldl (receive_heartbeat e l) u ps) = tk_outbox u" for u ps
    by (rule foldl_keeps [where P = "\<lambda>x. tk_outbox x = tk_outbox u"]) (simp_all add: heartbeat_frames)
  moreover have "tk_solo (foldl (receive_heartbeat e l) u ps) = tk_solo u" for u ps
    by (rule foldl_keeps [where P = "\<lambda>x. tk_solo x = tk_solo u"]) (simp_all add: heartbeat_frames)
  ultimately show "tk_outbox (tick_heartbeats e l n t) = tk_outbox t" "tk_solo (tick_heartbeats e l n t) = tk_solo t"
    by (simp_all add: tick_heartbeats_def Let_def)
qed

lemma middle_frames:
  "tk_outbox (leave_solo e l r d (count_stable r (enter_solo e l r (tick_heard e r t)))) = tk_outbox t"
  by (simp add: leave_solo_def count_stable_def enter_solo_def tick_heard_def solo_election_def meet_disk_def split_beta Let_def split: option.split)

lemma tick_outbox_bound: "length (tk_outbox (tick_steps e s)) \<le> 40"
proof -
  have "length (tk_outbox (tick_outbox e l loss t)) \<le> 40" for l loss t
    by (simp add: tick_outbox_def split_beta Let_def processReliableOutbox_def save_queue_def slice_tail_def)
  then show ?thesis by (simp add: tick_steps_def Let_def late_frames middle_frames tick_heartbeats_frames early_frames)
qed

lemma wf_heartbeats: "wf_peers (tk_peers t) \<Longrightarrow> wf_peers (tk_peers (tick_heartbeats e l n t))"
proof -
  assume wf: "wf_peers (tk_peers t)"
  have "wf_peers (tk_peers (foldl (receive_heartbeat e l) u (tk_peers t)))" if "wf_peers (tk_peers u)" for u
    by (rule foldl_keeps [where P = "\<lambda>x. wf_peers (tk_peers x)"])
       (use wf that in \<open>auto simp: receive_heartbeat_def Let_def wf_peers_member intro!: wf_peers_put\<close>)
  then show ?thesis using wf by (simp add: tick_heartbeats_def Let_def)
qed

lemma wf_solo:
  assumes "wf_peers (tk_peers t)"
  shows "wf_peers (tk_peers (leave_solo e l r d (count_stable r (enter_solo e l r (tick_heard e r t)))))"
proof -
  have enter: "wf_peers (tk_peers (count_stable r (enter_solo e l r (tick_heard e r t))))"
    using assms by (auto simp: count_stable_def enter_solo_def tick_heard_def Let_def wf_peers_nodeId intro!: wf_peers_put split: option.split)
  have "wf_peers (tk_peers (solo_election e l (meet_disk e l d u)))" if "wf_peers (tk_peers u)" for u
  proof -
    have "wf_peers (tk_peers (meet_disk e l d u))"
      using that by (auto simp: meet_disk_def Let_def wf_apply_payload split: option.split)
    then show ?thesis by (simp add: solo_election_def Let_def split_beta wf_crown_candidate)
  qed
  then have "wf_peers (tk_peers (leave_solo e l r d u))" if "wf_peers (tk_peers u)" for u
    using that by (simp add: leave_solo_def Let_def)
  then show ?thesis using enter by blast
qed

lemma wf_tick: "wf_peers (p2_peers s) \<Longrightarrow> wf_peers (tk_peers (tick_steps e s))"
proof -
  assume "wf_peers (p2_peers s)"
  then have "wf_peers (tk_peers (tick_statuses e (p2_localNodeId s) (tick_start s)))"
    using wf_statuses [of "p2_peers s" "en_now e" "p2_localNodeId s"] by (simp add: tick_statuses_def tick_start_def split_beta Let_def)
  then show ?thesis unfolding tick_steps_def Let_def late_frames by (intro wf_solo wf_heartbeats) (simp only: early_frames)
qed

subsection \<open>A node that has lost its peers\<close>

lemma set_js_put: "set (js_put k v m) \<subseteq> insert (k, v) (set m)"
  by (induction m) auto

lemma active_remote_put:
  "has_active_remote l (js_put i p m) \<Longrightarrow> \<not> has_active_remote l m \<Longrightarrow> i \<noteq> l \<and> pi_status p = PsActive"
  using set_js_put [of i p m] by (auto simp: has_active_remote_def list_ex_iff)

lemma quiet_update_status: "\<not> has_active_remote l (fst u) \<Longrightarrow> \<not> has_active_remote l (fst (update_status now l' u ip))"
  by (cases u; cases ip) (auto simp: update_status_def Let_def dest: active_remote_put)

lemma quiet_statuses: "\<not> has_active_remote l peers \<Longrightarrow> \<not> has_active_remote l (fst (updatePeerStatuses peers now l'))"
  unfolding updatePeerStatuses_def by (rule foldl_keeps [where P = "\<lambda>u. \<not> has_active_remote l (fst u)"]) (simp_all add: quiet_update_status)

lemma quiet_heartbeats: "\<not> has_active_remote l (tk_peers t) \<Longrightarrow> \<not> has_active_remote l (tk_peers (tick_heartbeats e l n t))"
proof -
  assume quiet: "\<not> has_active_remote l (tk_peers t)"
  have "\<not> has_active_remote l (tk_peers (foldl (receive_heartbeat e l) u (tk_peers t)))" if "\<not> has_active_remote l (tk_peers u)" for u
  proof (rule foldl_keeps [where P = "\<lambda>x. \<not> has_active_remote l (tk_peers x)", OF _ that])
    fix a :: tick_vars and ip assume ip: "ip \<in> set (tk_peers t)" and a: "\<not> has_active_remote l (tk_peers a)"
    obtain i p where [simp]: "ip = (i, p)" by (cases ip)
    have "i = l \<or> pi_status p \<noteq> PsActive" using quiet ip by (auto simp: has_active_remote_def list_ex_iff)
    then show "\<not> has_active_remote l (tk_peers (receive_heartbeat e l a ip))"
      using a active_remote_put [of l i "p\<lparr> pi_lastHeartbeat := en_now e \<rparr>" "tk_peers a"] by (auto simp: receive_heartbeat_def Let_def)
  qed
  then show ?thesis using quiet by (simp add: tick_heartbeats_def Let_def)
qed

lemma quiet_enter_solo: "\<not> has_active_remote l (tk_peers t) \<Longrightarrow> \<not> has_active_remote l (tk_peers (enter_solo e l r t))"
  by (auto simp: enter_solo_def Let_def dest: active_remote_put split: option.split)

lemma solo_stays: "tk_solo t \<Longrightarrow> tk_solo (enter_solo e l r t)"
  by (simp add: enter_solo_def Let_def)

lemma lonely_end:
  "leave_solo e l False d (count_stable False (enter_solo e l False (tick_heard e False t))) = count_stable False (enter_solo e l False t)"
  by (simp add: leave_solo_def tick_heard_def)

lemma quiet_tick:
  assumes "\<not> has_active_remote (p2_localNodeId s) (p2_peers s)"
  shows "\<not> has_active_remote (p2_localNodeId s) (p2_peers (tickP2P e s)) \<and> p2_localNodeId (tickP2P e s) = p2_localNodeId s
    \<and> (p2_soloMode s \<longrightarrow> p2_soloMode (tickP2P e s))"
proof -
  define l where "l = p2_localNodeId s"
  define t0 where "t0 = tick_statuses e l (tick_start s)"
  define t1 where "t1 = tick_heartbeats e l (Suc (p2_tick s)) (tick_gossip e l (Suc (p2_tick s)) (tick_discover e l (Suc (p2_tick s)) False
    (tick_outbox e l (p2_packetLossPercent s) t0)))"
  have t0: "\<not> has_active_remote l (tk_peers t0)" "tk_solo t0 = p2_soloMode s"
    using assms quiet_statuses [of l "p2_peers s" "en_now e" l] by (simp_all add: t0_def tick_statuses_def tick_start_def split_beta Let_def l_def)
  have t1: "\<not> has_active_remote l (tk_peers t1)"
    unfolding t1_def by (rule quiet_heartbeats) (simp add: early_frames t0(1))
  have solo: "tk_solo t1 = p2_soloMode s" unfolding t1_def by (simp add: early_frames tick_heartbeats_frames t0(2))
  have "tk_peers (tick_steps e s) = tk_peers (count_stable False (enter_solo e l False t1))
      \<and> tk_solo (tick_steps e s) = tk_solo (count_stable False (enter_solo e l False t1))"
    using t0(1) by (simp add: tick_steps_def Let_def late_frames lonely_end flip: l_def t0_def) (simp add: t1_def)
  then show ?thesis using quiet_enter_solo [OF t1, of e False] solo_stays [of t1 e l False] solo
    by (simp add: tickP2P_def Let_def count_stable_def l_def)
qed


subsection \<open>Who is explorer\<close>

lemma explorers_put:
  assumes "wf_map m" "js_get m c \<noteq> None" "set (explorer_ids m) \<subseteq> {c}" "pi_role p = PrExplorer"
  shows "explorer_ids (js_put c p m) = [c]"
  using assms
proof (induction m)
  case (Cons ip m)
  obtain i q where ip: "ip = (i, q)" by (cases ip)
  have "set (explorer_ids m) \<subseteq> set (explorer_ids (ip # m))" by (auto simp: explorer_ids_def)
  then have rest: "wf_map m" "i \<notin> fst ` set m" "set (explorer_ids m) \<subseteq> {c}"
    using Cons.prems(1,3) by (simp_all add: ip wf_map_def)
  show ?case
  proof (cases "i = c")
    case True
    have "set (explorer_ids m) \<subseteq> fst ` set m" by (auto simp: explorer_ids_def)
    then have "explorer_ids m = []" using rest True by (cases "explorer_ids m") auto
    then show ?thesis using True Cons.prems(4) by (simp add: ip explorer_ids_def)
  next
    case False
    then have "pi_role q \<noteq> PrExplorer" using Cons.prems(3) by (auto simp: ip explorer_ids_def)
    then show ?thesis using False Cons.IH [OF rest(1) _ rest(3) Cons.prems(4)] Cons.prems(2) by (simp add: ip explorer_ids_def)
  qed
qed simp

lemma explorers_stepped: "set (explorer_ids (map (step_down cand) m)) \<subseteq> {cand}"
  by (auto simp: explorer_ids_def step_down_def split: if_splits)

lemma keys_stepped: "map fst (map (step_down cand) m) = map fst m"
  by (simp add: step_down_def)

lemma get_stepped: "(js_get (map (step_down cand) m) i = None) = (js_get m i = None)"
  unfolding map_of_eq_None_iff by (metis keys_stepped list.set_map)

lemma explorers_crowned:
  assumes "wf_map m" "js_get m cand \<noteq> None"
  shows "explorer_ids (crown_candidate now cand version m) = [cand]"
proof -
  have "wf_map (map (step_down cand) m)" using assms(1) by (simp only: wf_map_def keys_stepped)
  moreover obtain p where "js_get (map (step_down cand) m) cand = Some p" using assms(2) get_stepped [of cand m cand] by fastforce
  ultimately show ?thesis using explorers_put [of "map (step_down cand) m" cand] explorers_stepped
    by (simp add: crown_candidate_def Let_def)
qed

text \<open>
  C20. An election that is won leaves the candidate as the only explorer, the current one, and the end of the relay chain; one that is lost changes neither
  the peers nor the chain nor the explorer.
\<close>

theorem election_crowns_one:
  assumes "wf_peers (p2_peers s)"
  shows "case (runElection (en_fx e) (en_now e) (en_rng e) 0 cand (p2_peers s), triggerElection e cand s) of
      ((el, _), s') \<Rightarrow>
        if els_status el = EsWon
        then explorer_ids (p2_peers s') = [cand] \<and> p2_currentExplorerId s' = Some cand
             \<and> (if cand = [] then True else last (rlc_chain (p2_relayChain s')) = cand)
             \<and> 2 * length (els_votes el) \<ge> length (active_ids (p2_peers s)) \<and> 2 \<le> length (els_votes el)
        else p2_peers s' = p2_peers s \<and> p2_relayChain s' = p2_relayChain s \<and> p2_currentExplorerId s' = p2_currentExplorerId s"
proof -
  obtain el evs msgs k where run: "runElection (en_fx e) (en_now e) (en_rng e) 0 cand (p2_peers s) = (el, evs, msgs, k)"
    by (cases "runElection (en_fx e) (en_now e) (en_rng e) 0 cand (p2_peers s)")
  show ?thesis
  proof (cases "els_status el = EsWon")
    case False
    then show ?thesis by (simp add: run triggerElection_def Let_def)
  next
    case True
    have quorum: "quorum_of (length (active_ids (p2_peers s))) \<le> length (els_votes el)" and known: "js_get (p2_peers s) cand \<noteq> None"
      using run True by (auto simp: runElection_def Let_def split: if_splits)
    have votes: "2 * length (els_votes el) \<ge> length (active_ids (p2_peers s)) \<and> 2 \<le> length (els_votes el)"
      using quorum by (auto simp: quorum_of_def)
    have one: "explorer_ids (crown_candidate (en_now e) cand (els_explorerVersion el) (p2_peers s)) = [cand]"
      using assms known by (simp add: explorers_crowned wf_peers_def)
    have "js_get (crown_candidate (en_now e) cand (els_explorerVersion el) (p2_peers s)) cand \<noteq> None"
    proof
      assume "js_get (crown_candidate (en_now e) cand (els_explorerVersion el) (p2_peers s)) cand = None"
      then have "cand \<notin> set (explorer_ids (crown_candidate (en_now e) cand (els_explorerVersion el) (p2_peers s)))"
        by (force simp: explorer_ids_def map_of_eq_None_iff)
      then show False by (simp add: one)
    qed
    then show ?thesis using True one votes by (simp add: run triggerElection_def Let_def chain_of_known)
  qed
qed

subsection \<open>Merging partitions\<close>

lemma get_demote:
  "js_get (demote w m x) i =
     (if i = pi_nodeId x \<and> pi_nodeId x \<noteq> w then map_option (\<lambda>p. p\<lparr> pi_role := PrStandby \<rparr>) (js_get m i) else js_get m i)"
  by (auto simp: demote_def js_map_simps split: option.split)

lemma get_demoted:
  "js_get (foldl (demote w) m xs) i =
     (if i \<in> pi_nodeId ` set xs \<and> i \<noteq> w then map_option (\<lambda>p. p\<lparr> pi_role := PrStandby \<rparr>) (js_get m i) else js_get m i)"
proof (induction xs arbitrary: m)
  case (Cons x xs)
  show ?case using Cons.IH [of "demote w m x"] by (cases "js_get m i") (auto simp: get_demote)
qed simp

lemma in_explorers: "wf_map m \<Longrightarrow> i \<in> set (explorer_ids m) \<longleftrightarrow> (\<exists>p. js_get m i = Some p \<and> pi_role p = PrExplorer)"
  by (force simp: explorer_ids_def wf_map_def)

lemma distinct_explorers: "wf_map m \<Longrightarrow> distinct (explorer_ids m)"
  unfolding explorer_ids_def wf_map_def by (induction m) auto

lemma better_explorer_deeper: "pi_depth a \<le> pi_depth (better_explorer a b) \<and> pi_depth b \<le> pi_depth (better_explorer a b) \<and> better_explorer a b \<in> {a, b}"
  by (simp add: better_explorer_def)

lemma best_explorer:
  "foldl better_explorer x xs \<in> insert x (set xs) \<and> list_all (\<lambda>y. pi_depth y \<le> pi_depth (foldl better_explorer x xs)) (x # xs)"
proof (induction xs arbitrary: x)
  case (Cons y xs)
  let ?b = "better_explorer x y"
  have "?b = x \<or> ?b = y" "pi_depth x \<le> pi_depth ?b" "pi_depth y \<le> pi_depth ?b" using better_explorer_deeper [of x y] by auto
  then show ?case using Cons.IH [of ?b] by (fastforce simp: list_all_iff)
qed simp

lemma explorers_only:
  assumes "wf_map m" "js_get m w = Some p" "pi_role p = PrExplorer" "\<And>i q. js_get m i = Some q \<Longrightarrow> pi_role q = PrExplorer \<Longrightarrow> i = w"
  shows "explorer_ids m = [w]"
proof -
  have "i \<in> set (explorer_ids m) \<longleftrightarrow> i = w" for i
    unfolding in_explorers [OF assms(1)] using assms(2-4) by blast
  then have only: "set (explorer_ids m) = {w}" by blast
  have "length (explorer_ids m) = card {w}" using distinct_card [OF distinct_explorers [OF assms(1)]] unfolding only by (rule sym)
  then obtain x where x: "explorer_ids m = [x]" by (cases "explorer_ids m") auto
  show ?thesis using only unfolding x by simp
qed

lemma find_explorer:
  assumes "wf_peers m" shows "explorer_of m = (if explorer_ids m = [] then None else Some (hd (explorer_ids m)))"
  using assms
proof (induction m)
  case (Cons ip m)
  obtain i p where ip: "ip = (i, p)" by (cases ip)
  have "wf_peers m" "pi_nodeId p = i" using Cons.prems by (auto simp: wf_peers_def wf_map_def ip)
  then show ?case using Cons.IH
    by (cases "pi_role p = PrExplorer") (simp_all add: explorer_of_def explorer_ids_def js_values_def ip)
qed (simp add: explorer_of_def explorer_ids_def js_values_def)

lemma resolved_explorers:
  assumes "wf_peers m"
  shows "case explorer_ids (resolve_explorers m) of [] \<Rightarrow> explorer_ids m = []
    | [w] \<Rightarrow> w \<in> set (explorer_ids m) \<and> list_all (\<lambda>i. pi_depth (the (js_get m i)) \<le> pi_depth (the (js_get m w))) (explorer_ids m)
    | _ \<Rightarrow> False"
proof -
  define xs where "xs = filter (\<lambda>p. pi_role p = PrExplorer) (js_values m)"
  have wf: "wf_map m" using assms by (simp add: wf_peers_def)
  have ids: "explorer_ids m = map pi_nodeId xs"
    using assms unfolding xs_def explorer_ids_def js_values_def by (induction m) (auto simp: wf_peers_def wf_map_def)
  have known: "js_get m (pi_nodeId x) = Some x" if "x \<in> set xs" for x using that wf_peers_get [OF assms] by (simp add: xs_def)
  consider "xs = []" | x where "xs = [x]" | x y rest where "xs = x # y # rest" by (metis list.exhaust)
  then show ?thesis
  proof cases
    case 1
    then show ?thesis using ids by (simp add: resolve_explorers_def flip: xs_def)
  next
    case 2
    then show ?thesis using ids by (simp add: resolve_explorers_def flip: xs_def)
  next
    case 3
    define w where "w = foldl better_explorer x (y # rest)"
    have w: "w \<in> set xs" "list_all (\<lambda>y. pi_depth y \<le> pi_depth w) xs" using best_explorer [of x "y # rest"] 3 by (auto simp: w_def)
    have res: "resolve_explorers m = foldl (demote (pi_nodeId w)) m xs"
      using 3 by (simp add: resolve_explorers_def Let_def w_def flip: xs_def)
    have "wf_map (resolve_explorers m)" using wf_resolve [OF assms] by (simp add: wf_peers_def)
    moreover have "js_get (resolve_explorers m) (pi_nodeId w) = Some w" unfolding res get_demoted using known [OF w(1)] by simp
    moreover have "pi_role w = PrExplorer" using w(1) by (simp add: xs_def)
    moreover have "i = pi_nodeId w" if q: "js_get (resolve_explorers m) i = Some q" "pi_role q = PrExplorer" for i q
    proof (rule ccontr)
      assume other: "i \<noteq> pi_nodeId w"
      have not_in: "i \<notin> pi_nodeId ` set xs" using q other unfolding res get_demoted by auto
      then have "js_get m i = Some q" using q(1) unfolding res get_demoted by simp
      then have "q \<in> set xs" "pi_nodeId q = i" using in_js_values wf_peers_nodeId [OF assms] q(2) by (auto simp: xs_def)
      then show False using not_in by blast
    qed
    ultimately have "explorer_ids (resolve_explorers m) = [pi_nodeId w]" by (rule explorers_only)
    then show ?thesis using w ids known by (auto simp: list_all_iff)
  qed
qed

lemma explorers_rejoin: "explorer_ids (rejoin now m) = explorer_ids m"
  by (induction m) (auto simp: explorer_ids_def rejoin_def)

lemma get_rejoin: "js_get (rejoin now m) i = map_option (\<lambda>p. p\<lparr> pi_partitionId := ''main'', pi_lastHeartbeat := now, pi_status := PsActive \<rparr>) (js_get m i)"
  by (simp add: rejoin_def map_of_map)

lemma active_resolved:
  assumes "wf_peers m" "list_all (\<lambda>p. pi_status p = PsActive) (js_values m)"
  shows "list_all (\<lambda>p. pi_status p = PsActive) (js_values (resolve_explorers m))"
proof -
  have "list_all (\<lambda>p. pi_status p = PsActive) (js_values (demote w m x))" if "list_all (\<lambda>p. pi_status p = PsActive) (js_values m)" for w m x
    using that by (auto simp: demote_def list_all_iff dest!: js_values_update in_js_values split: option.split)
  then have "list_all (\<lambda>p. pi_status p = PsActive) (js_values (foldl (demote w) m xs))" for w xs
    by (rule foldl_keeps [where P = "\<lambda>m. list_all (\<lambda>p. pi_status p = PsActive) (js_values m)", OF _ assms(2)])
  then show ?thesis using assms(2) unfolding resolve_explorers_def Let_def by (simp del: foldl_Cons split: list.split)
qed

text \<open>
  C21. Merging the partitions leaves at most one explorer, the deepest of those there were and the current one, and makes every peer
  active, the dead ones as well.
\<close>

theorem partitions_merge_to_one:
  assumes "wf_peers (p2_peers s)"
  shows "case mergePartitions e s of s' \<Rightarrow>
    list_all (\<lambda>p. pi_status p = PsActive) (js_values (p2_peers s'))
    \<and> (case p2_currentExplorerId s' of
         None \<Rightarrow> explorer_ids (p2_peers s) = [] \<and> explorer_ids (p2_peers s') = []
       | Some w \<Rightarrow> explorer_ids (p2_peers s') = [w] \<and> w \<in> set (explorer_ids (p2_peers s))
           \<and> list_all (\<lambda>i. pi_depth (the (js_get (p2_peers s) i)) \<le> pi_depth (the (js_get (p2_peers s) w))) (explorer_ids (p2_peers s)))"
proof -
  define peers where "peers = rejoin (en_now e) (p2_peers s)"
  have wf: "wf_peers peers" using assms by (simp add: peers_def wf_rejoin)
  have active: "list_all (\<lambda>p. pi_status p = PsActive) (js_values peers)" by (auto simp: peers_def rejoin_def js_values_def list_all_iff)
  have depth: "pi_depth (the (js_get peers i)) = pi_depth (the (js_get (p2_peers s) i))" if "i \<in> set (explorer_ids (p2_peers s))" for i
    using that assms by (auto simp: peers_def get_rejoin in_explorers wf_peers_def)
  have ids: "explorer_ids peers = explorer_ids (p2_peers s)" by (simp add: peers_def explorers_rejoin)
  have merged: "p2_peers (mergePartitions e s) = resolve_explorers peers"
    "p2_currentExplorerId (mergePartitions e s) = explorer_of (resolve_explorers peers)"
    by (simp_all add: mergePartitions_def Let_def peers_def)
  have current: "explorer_of (resolve_explorers peers) =
      (if explorer_ids (resolve_explorers peers) = [] then None else Some (hd (explorer_ids (resolve_explorers peers))))"
    by (rule find_explorer [OF wf_resolve [OF wf]])
  have "case explorer_of (resolve_explorers peers) of
         None \<Rightarrow> explorer_ids (p2_peers s) = [] \<and> explorer_ids (resolve_explorers peers) = []
       | Some w \<Rightarrow> explorer_ids (resolve_explorers peers) = [w] \<and> w \<in> set (explorer_ids (p2_peers s))
           \<and> list_all (\<lambda>i. pi_depth (the (js_get (p2_peers s) i)) \<le> pi_depth (the (js_get (p2_peers s) w))) (explorer_ids (p2_peers s))"
    using resolved_explorers [OF wf] depth unfolding current ids by (auto split: list.splits simp: list_all_iff)
  then show ?thesis unfolding merged using active_resolved [OF wf active] by simp
qed

subsection \<open>Leaving\<close>

lemma repair_around_frames:
  "p2_peers (fst (repair_around e n s)) = p2_peers s" "p2_elections (fst (repair_around e n s)) = p2_elections s"
  "p2_outbox (fst (repair_around e n s)) = p2_outbox s"
  by (simp_all add: repair_around_def Let_def)

lemma repair_around_chain:
  assumes "n \<in> set (rlc_chain (p2_relayChain s))" "filter (\<lambda>i. i \<noteq> n) (rlc_chain (p2_relayChain s)) \<noteq> []"
  shows "rlc_chain (p2_relayChain (fst (repair_around e n s))) = filter (\<lambda>i. i \<noteq> n) (rlc_chain (p2_relayChain s))"
proof -
  obtain idx where idx: "index_of n (rlc_chain (p2_relayChain s)) = Some idx"
    using assms(1) index_of_None [of n "rlc_chain (p2_relayChain s)"] by (cases "index_of n (rlc_chain (p2_relayChain s))") auto
  show ?thesis using assms repair_of_member(1) [OF idx] by (simp add: repair_around_def Let_def repaired_state_def)
qed

lemma leave_result:
  assumes "js_get (p2_peers s) n = Some p"
  shows "p2_peers (gracefulLeavePeer e n s) = p2_peers s"
    "p2_relayChain (gracefulLeavePeer e n s) = p2_relayChain (fst (repair_around e n s))"
  using assms repair_around_frames [of e n s] by (simp_all add: gracefulLeavePeer_def enqueue_p2p_def split_beta Let_def)


subsection \<open>Every reachable state\<close>

definition p2p_ok :: "p2p_state \<Rightarrow> bool" where
  "p2p_ok s \<longleftrightarrow> wf_peers (p2_peers s) \<and> length (p2_messageLog s) \<le> 120 \<and> length (p2_elections s) \<le> 20 \<and> length (p2_chainRepairs s) \<le> 20
     \<and> length (p2_outbox s) \<le> 40 \<and> length (p2_coordinationEvents s) \<le> 223 \<and> state_store (p2_managedState s)"

inductive p2p_reachable :: "p2p_state \<Rightarrow> bool" where
  pr_load: "length q \<le> 40 \<Longrightarrow> p2p_reachable ((initial_p2p now)\<lparr> p2_outbox := q, p2_disk := d, p2_node := nd \<rparr>)"
| pr_initialize: "p2p_reachable s \<Longrightarrow> p2p_reachable (initializeP2P e agents s)"
| pr_start: "p2p_reachable s \<Longrightarrow> p2p_reachable (startP2P s)"
| pr_stop: "p2p_reachable s \<Longrightarrow> p2p_reachable (stopP2P e s)"
| pr_reset: "p2p_reachable s \<Longrightarrow> p2p_reachable (resetP2P now s)"
| pr_tick: "p2p_reachable s \<Longrightarrow> p2p_reachable (tickP2P e s)"
| pr_election: "p2p_reachable s \<Longrightarrow> p2p_reachable (triggerElection e c s)"
| pr_repair: "p2p_reachable s \<Longrightarrow> p2p_reachable (triggerChainRepair e n s)"
| pr_partition: "p2p_reachable s \<Longrightarrow> p2p_reachable (injectPartition e ids s)"
| pr_merge: "p2p_reachable s \<Longrightarrow> p2p_reachable (mergePartitions e s)"
| pr_broadcast: "p2p_reachable s \<Longrightarrow> p2p_reachable (broadcastStateUpdate e key v s)"
| pr_fail: "p2p_reachable s \<Longrightarrow> p2p_reachable (simulateNodeFailure e n s)"
| pr_recover: "p2p_reachable s \<Longrightarrow> p2p_reachable (simulateNodeRecovery e n s)"
| pr_leave: "p2p_reachable s \<Longrightarrow> p2p_reachable (gracefulLeavePeer e n s)"
| pr_takeover: "p2p_reachable s \<Longrightarrow> p2p_reachable (requestExplorerTakeover e n s)"
| pr_merge_state: "p2p_reachable s \<Longrightarrow> p2p_reachable (requestStateMerge e s)"
| pr_loss: "p2p_reachable s \<Longrightarrow> p2p_reachable (setNetworkFaultPacketLoss r s)"

lemma slice_bound: "0 < k \<Longrightarrow> length (slice_tail k xs) \<le> k"
  by (simp add: slice_tail_def)

lemma log_bounds [simp]: "length (add_log xs ys) \<le> 120" "length (add_coordination evs evs') \<le> 223" "length (slice_tail 20 zs) \<le> 20" "length (slice_tail 40 qs) \<le> 40"
    "length (slice_tail 220 ws) \<le> 223"
  using slice_bound [of 120 "xs @ ys"] slice_bound [of 220 "evs @ evs'"] slice_bound [of 20 zs] slice_bound [of 40 qs] slice_bound [of 220 ws]
  by (simp_all add: add_log_def add_coordination_def)

lemma ok_load: "length q \<le> 40 \<Longrightarrow> p2p_ok ((initial_p2p now)\<lparr> p2_outbox := q, p2_disk := d, p2_node := nd \<rparr>)"
  by (simp add: p2p_ok_def initial_p2p_def wf_peers_def wf_map_def store_new)

lemma ok_initialize: "p2p_ok s \<Longrightarrow> p2p_ok (initializeP2P e agents s)"
  unfolding p2p_ok_def by (simp add: initializeP2P_def Let_def wf_restore wf_initial store_write store_new)

lemma repair_events_bound: "length (snd (repair_around e n s)) \<le> 3"
  by (simp add: repair_around_def attemptChainRepair_def repair_request_def Let_def split_beta split: option.split)

lemma repair_around_repairs: "length (p2_chainRepairs s) \<le> 20 \<Longrightarrow> length (p2_chainRepairs (fst (repair_around e n s))) \<le> 20"
  by (simp add: repair_around_def Let_def)

lemma repair_around_more:
  "p2_managedState (fst (repair_around e n s)) = p2_managedState s"
  by (simp add: repair_around_def Let_def)

lemma stop_bound: "length ys \<le> 3 \<Longrightarrow> length (add_coordination xs zs) + length ys \<le> 223"
  using slice_bound [of 220 "xs @ zs"] by (simp add: add_coordination_def)

lemma ok_stop: "p2p_ok s \<Longrightarrow> p2p_ok (stopP2P e s)"
  using repair_events_bound [of e "p2_localNodeId s" s] repair_around_repairs [of s e "p2_localNodeId s"]
  unfolding p2p_ok_def by (simp add: stopP2P_def split_beta Let_def repair_around_frames repair_around_more stop_bound)

lemma ok_reset: "p2p_ok (resetP2P now s)"
  by (simp add: p2p_ok_def resetP2P_def initial_p2p_def wf_peers_def wf_map_def store_new)

lemma ok_tick: "p2p_ok s \<Longrightarrow> p2p_ok (tickP2P e s)"
  unfolding p2p_ok_def by (simp add: tickP2P_def Let_def wf_tick tick_outbox_bound)

lemma ok_election: "p2p_ok s \<Longrightarrow> p2p_ok (triggerElection e c s)"
  unfolding p2p_ok_def by (simp add: triggerElection_def Let_def split_beta wf_crown_candidate)

lemma enqueue_bound: "length (p2_outbox (enqueue_p2p e d k pl s)) \<le> 40"
  by (simp add: enqueue_p2p_def enqueueReliable_def Let_def save_queue_def)

lemma enqueue_frames:
  "p2_peers (enqueue_p2p e d k pl s) = p2_peers s" "p2_messageLog (enqueue_p2p e d k pl s) = p2_messageLog s"
  "p2_elections (enqueue_p2p e d k pl s) = p2_elections s" "p2_chainRepairs (enqueue_p2p e d k pl s) = p2_chainRepairs s"
  "p2_coordinationEvents (enqueue_p2p e d k pl s) = p2_coordinationEvents s" "p2_managedState (enqueue_p2p e d k pl s) = p2_managedState s"
  by (simp_all add: enqueue_p2p_def)

lemma ok_repair: "p2p_ok s \<Longrightarrow> p2p_ok (triggerChainRepair e n s)"
  unfolding p2p_ok_def by (simp add: triggerChainRepair_def Let_def enqueue_frames enqueue_bound)

lemma ok_partition: "p2p_ok s \<Longrightarrow> p2p_ok (injectPartition e ids s)"
proof -
  assume ok: "p2p_ok s"
  have "wf_peers (foldl (\<lambda>m i. case js_get m i of None \<Rightarrow> m | Some p \<Rightarrow> js_put i (p\<lparr> pi_partitionId := pt \<rparr>) m) (p2_peers s) ids)" for pt
    by (rule foldl_keeps) (use ok in \<open>auto simp: p2p_ok_def wf_peers_nodeId intro!: wf_peers_put split: option.split\<close>)
  then show ?thesis using ok unfolding p2p_ok_def by (simp add: injectPartition_def Let_def)
qed

lemma ok_merge: "p2p_ok s \<Longrightarrow> p2p_ok (mergePartitions e s)"
  unfolding p2p_ok_def by (simp add: mergePartitions_def Let_def wf_resolve wf_rejoin)

lemma ok_broadcast: "p2p_ok s \<Longrightarrow> p2p_ok (broadcastStateUpdate e key v s)"
  using store_write [of "p2_managedState s" "en_now e" key v "p2_localNodeId s"]
  unfolding p2p_ok_def by (simp add: broadcastStateUpdate_def split_beta Let_def)

lemma ok_fail: "p2p_ok s \<Longrightarrow> p2p_ok (simulateNodeFailure e n s)"
  unfolding p2p_ok_def by (auto simp: simulateNodeFailure_def wf_peers_nodeId intro!: wf_peers_put split: option.split)

lemma ok_recover: "p2p_ok s \<Longrightarrow> p2p_ok (simulateNodeRecovery e n s)"
  unfolding p2p_ok_def by (auto simp: simulateNodeRecovery_def wf_peers_nodeId intro!: wf_peers_put split: option.split)

lemma ok_leave: "p2p_ok s \<Longrightarrow> p2p_ok (gracefulLeavePeer e n s)"
  using repair_around_repairs [of s e n] unfolding p2p_ok_def
  by (simp add: gracefulLeavePeer_def split_beta Let_def repair_around_frames repair_around_more enqueue_frames enqueue_bound split: option.split)

lemma ok_takeover: "p2p_ok s \<Longrightarrow> p2p_ok (requestExplorerTakeover e n s)"
  unfolding p2p_ok_def by (simp add: requestExplorerTakeover_def Let_def enqueue_frames enqueue_bound wf_takeover split: option.split)

lemma ok_merge_state: "p2p_ok s \<Longrightarrow> p2p_ok (requestStateMerge e s)"
  unfolding p2p_ok_def by (simp add: requestStateMerge_def Let_def wf_apply_payload split: option.split)

text \<open>
  C18. In every state that the actions of the store reach, each peer stands in the table once and under its own identifier, the version vector matches the
  entries, and the logs, the elections, the repairs and the outbox are bounded.
\<close>

theorem p2p_states_ok:
  assumes "p2p_reachable s" shows "p2p_ok s"
  using assms
proof (induction rule: p2p_reachable.induct)
  case (pr_start s)
  then show ?case by (simp add: p2p_ok_def startP2P_def)
next
  case (pr_loss s r)
  then show ?case by (simp add: p2p_ok_def setNetworkFaultPacketLoss_def)
qed (simp_all add: ok_load ok_initialize ok_stop ok_reset ok_tick ok_election ok_repair ok_partition ok_merge ok_broadcast ok_fail ok_recover ok_leave
    ok_takeover ok_merge_state)

subsection \<open>Witnesses\<close>

definition p2p_toy_env :: p2p_env where
  "p2p_toy_env = \<lparr> en_now = 1000, en_rng = (\<lambda>k. 1 / 2), en_fx = (\<lambda>d x. []), en_num = (\<lambda>x. []), en_base36 = (\<lambda>x. ''0.i'') \<rparr>"

definition toy_state :: p2p_state where
  "toy_state = (initial_p2p 0)\<lparr> p2_peers := toy_peers, p2_relayChain := toy_chain \<rparr>"

lemma toy_state_peers: "p2_peers toy_state = toy_peers" "p2_relayChain toy_state = toy_chain"
  by (simp_all add: toy_state_def)

theorem p2p_states_ok_witness: "p2p_ok (tickP2P p2p_toy_env (initial_p2p 0))"
proof -
  have "(initial_p2p 0)\<lparr> p2_outbox := [], p2_disk := None, p2_node := None \<rparr> = initial_p2p 0" by (simp add: initial_p2p_def)
  then have "p2p_reachable (initial_p2p 0)" using pr_load [where q = "[]" and now = 0 and d = None and nd = None] by simp
  then show ?thesis by (intro p2p_states_ok pr_tick)
qed

theorem election_crowns_one_witness:
  "p2_currentExplorerId (triggerElection p2p_toy_env ''r1'' toy_state) = Some ''r1''"
proof -
  obtain el evs msgs k where run: "runElection (en_fx p2p_toy_env) (en_now p2p_toy_env) (en_rng p2p_toy_env) 0 ''r1'' (p2_peers toy_state) = (el, evs, msgs, k)"
    by (cases "runElection (en_fx p2p_toy_env) (en_now p2p_toy_env) (en_rng p2p_toy_env) 0 ''r1'' (p2_peers toy_state)")
  then have "els_status el = EsWon"
    by (auto simp: runElection_def Let_def toy_state_peers toy_peers_def toy_peer_def active_ids_def js_keys_def quorum_of_def votes_drawn_def p2p_toy_env_def)
  moreover have "wf_peers (p2_peers toy_state)" by (simp add: toy_state_peers toy_peers_ok)
  ultimately show ?thesis using election_crowns_one [where s = toy_state and e = p2p_toy_env and cand = "''r1''"] by (simp add: run)
qed

theorem partitions_merge_to_one_witness:
  "list_all (\<lambda>p. pi_status p = PsActive) (js_values (p2_peers (mergePartitions p2p_toy_env toy_state)))"
  using partitions_merge_to_one [of toy_state p2p_toy_env] by (simp add: toy_state_peers toy_peers_ok)


end
