(* ===== verification/Spec2Isabelle.thy ===== *)
theory Spec2Isabelle
  imports MissionPhases SharedMap MissionMachine TaskBidding EventLedger Recovery Coordinator LatticeRewards
    LatticePlanner RewardSystem Connectivity MeshRouting MeshViews MeshReports HashChains MeshQueues FoxMessages
    VertexServices MissionReplay LatticeServices MissionServices MissionApi Settlement
    SwarmDiscovery SwarmNetwork SwarmFleet VertexSimulator MeshPeers MeshSimulator MeshSurvival
    PeerState RelayChains PeerStore
begin

text \<open>
  \<^bold>\<open>The program.\<close> The repository coordinates search-and-rescue swarms. Its TypeScript core keeps a mission
  (phases, nodes, targets, a shared map), lets nodes bid for tasks, records decisions in hash-chained
  ledgers, recovers missions from checkpoints, rewards contributions, and simulates a mesh network over
  which maps and messages spread. This development models that core; the React front end is not part of it.

  \<^bold>\<open>Theories and sources\<close> (paths under \<open>src/src\<close>).

  \<^item> \<open>Prelude\<close>: JavaScript idioms (\<open>Map\<close> as insertion-ordered association list, \<open>Set\<close> as duplicate-free
    list, stable sort by comparator, optional values, JSON and its text, hashing) with the locales
    \<open>dictionary\<close>, \<open>comparator\<close> and \<open>ranked_join\<close>.
  \<^item> \<open>MissionPhases\<close>: \<open>backend/shared/mission-phases.ts\<close>, \<open>mission-state.ts\<close>.
  \<^item> \<open>SharedMap\<close>, \<open>MissionMachine\<close>: the two halves of \<open>backend/shared/tashi-mission-map-machine.ts\<close>. The record
    \<open>shared_map\<close> holds the private fields of \<open>MonotonicSharedMap\<close>, \<open>mission_machine\<close> those of
    \<open>MissionStateMachine\<close> with the calls of its callbacks.
  \<^item> \<open>TaskBidding\<close>, \<open>EventLedger\<close>, \<open>Recovery\<close>, \<open>Coordinator\<close>: \<open>backend/shared/tashi-task-bidding-recovery.ts\<close>:
    bid registry and scoring, ledger, checkpoints and replay, and the two coordinators that call them. The
    contract of a checkpoint store is the locale \<open>checkpoint_storage\<close>.
  \<^item> \<open>LatticeRegistry\<close>, \<open>LatticeRewards\<close>, \<open>LatticePlanner\<close>, \<open>RewardSystem\<close>:
    \<open>backend/lattice/lattice-reward-stack.ts\<close>: node registry and policies, validation and reward amounts, assignment
    planning, and the system that owns them.
  \<^item> \<open>Connectivity\<close>, \<open>MeshRouting\<close>, \<open>MeshViews\<close>, \<open>MeshReports\<close>, \<open>MeshQueues\<close>:
    \<open>backend/vertex/connectivity-graph.ts\<close>, \<open>mesh/routeOptimizer.ts\<close>, the network conditions, graph views, relay
    planning, discovery, retry queues, recovery buffers and consensus of \<open>vertex2\<close> and \<open>mesh\<close>. Both graph searches are
    instances of the locale \<open>stack_search\<close>.
  \<^item> \<open>HashChains\<close>: \<open>backend/vertex/hash-chain.ts\<close>, \<open>event-types.ts\<close>, \<open>mission-ledger.ts\<close>,
    \<open>vertex2/eventLedger.ts\<close>; both ledgers are instances of the locale \<open>chained_log\<close>.
  \<^item> \<open>FoxMap\<close>, \<open>FoxSync\<close>, \<open>FoxMessages\<close>: the map cells, merge, deltas, snapshots, ledger, synchronisation engine,
    envelopes and registry of \<open>foxmq\<close>, with \<open>swarm/sharedMap.ts\<close> and \<open>swarm/recoveryManager.ts\<close>.
  \<^item> \<open>VertexServices\<close>: the Vertex services over the ledger and the graph: \<open>backend/vertex/consensus-gateway.ts\<close>,
    \<open>task-orchestrator.ts\<close>, \<open>bid-scorer.ts\<close>, \<open>vendor-profiles.ts\<close>, \<open>fallback-coordinator.ts\<close>, \<open>blackout-simulator.ts\<close>.
  \<^item> \<open>MissionReplay\<close>: \<open>backend/vertex/demo-replay.ts\<close>, \<open>shared/mission-policy.ts\<close>, \<open>shared/mission-scenarios.ts\<close>. The fold
    that turns ledger rows into the mission read model, one definition per handler.
  \<^item> \<open>LatticeServices\<close>: \<open>backend/lattice/node-registry.ts\<close>, \<open>capability-scoring.ts\<close>, \<open>reputation-engine.ts\<close>,
    \<open>allocation-policies.ts\<close>. The record \<open>trust_registry\<close> holds the private maps of \<open>NodeRegistry\<close>.
  \<^item> \<open>MissionServices\<close>: \<open>backend/recovery/recovery-manager.ts\<close>, \<open>safety/safety-engine.ts\<close>,
    \<open>replay/mission-replayer.ts\<close>, \<open>api/mission-safety.ts\<close>.
  \<^item> \<open>MissionApi\<close>: \<open>backend/api/missions.ts\<close>, \<open>nodes.ts\<close>, \<open>snapshot-bridge.ts\<close>, \<open>shared/build-envelope.ts\<close>: the calls
    a client makes over one ledger and one registry.
  \<^item> \<open>Settlement\<close>: \<open>backend/arc\<close>, \<open>api/settlement.ts\<close>, \<open>settlement/settlement-queue.ts\<close>; the queue is a step
    relation, because an emission is awaited between two of its steps.
  \<^item> \<open>SwarmDiscovery\<close>, \<open>SwarmNetwork\<close>: \<open>swarm\<close> (\<open>seededRng.ts\<close>, \<open>targetDiscovery.ts\<close>, \<open>roleManager.ts\<close>, \<open>messageBus.ts\<close>,
    \<open>networkModel.ts\<close>, \<open>peerProfiles.ts\<close>, \<open>explorationManager.ts\<close>), \<open>foxmq/mockWorldFactory.ts\<close>,
    \<open>backend/vertex/telemetry-normalizer.ts\<close>: target candidates, role handoff, the message bus and an exploration step over
    the map of \<open>FoxSync\<close>.
  \<^item> \<open>SwarmFleet\<close>, \<open>VertexSimulator\<close>: \<open>backend/vertex/agent-profiles.ts\<close>, \<open>scenario-presets.ts\<close>, \<open>swarm-simulator.ts\<close>, the driver over
    the graph, the tasks, the ledger, the map, discovery and roles. Rows that the code appends without awaiting them wait in a field of their own.
  \<^item> \<open>MeshPeers\<close>, \<open>MeshSimulator\<close>: \<open>vertex2\<close>: the peers of a step (profiles, discovery, partitions, roles, tasks) and
    \<open>meshResilienceSimulator.ts\<close>, whose step is one definition per stage.
  \<^item> \<open>MeshSurvival\<close>: \<open>mesh\<close>: envelopes, the message bus and \<open>meshSurvivalEngine.ts\<close>, whose step reads the view of the mesh simulator.
  \<^item> \<open>PeerState\<close>, \<open>RelayChains\<close>, \<open>PeerStore\<close>: the peer-to-peer coordination of a browser client: \<open>types/p2p.ts\<close>,
    \<open>store/peerDiscovery.ts\<close>, \<open>store/stateManager.ts\<close>, \<open>lib/reliableSender.ts\<close>, \<open>lib/foxmq/replicatedKv.ts\<close>; \<open>store/chainManager.ts\<close>; and
    \<open>store/p2pStore.ts\<close>, every action of which is a definition on one state that includes what the browser's storage holds.

  \<^bold>\<open>State and operations.\<close> The private fields of a class are a record, a method is a function from that record
  to the new one (paired with what it returns), a thrown error is a value of a sum type returned with the state the
  throw leaves behind. Objects that the code shares by reference are written back where the code
  mutates them. Definitions carry the names of the source; where a name is taken, a prefix or suffix was added.

  \<^bold>\<open>What the lemmas show.\<close> Phase paths and transitions: which requests are accepted and what every
  reachable mission satisfies. Maps: three merge disciplines, each with the join it implements; on which fields replicas
  converge and on which they do not; how dirty cells and partition buffers drain. Bidding and commits: registry
  invariants, optimality of the chosen bid, agreement of ledger and committed records. Ledgers: appended chains verify, a
  head hash pins the history. Rewards: balances equal the booked amounts. Mesh: searches,
  partitions and bridges equal their graph-theoretic specification, routing returns an optimum, queues lose nothing.
  Mission services: any sequence of API calls keeps the ledger verified and every replayed phase on a path of the contract;
  replay is a reading of the last relevant row; scores and rewards are exactly those the rows justify; the settlement queue
  never holds a mission twice and drains. Swarm: candidates are confirmed only on evidence, role changes are explained by their
  records, the bus accounts for every message, exploration forgets nothing. The simulator keeps phases on the contract
  and its map growing under every sequence of calls; its chain verifies unless rows that are not awaited fork it. The mesh
  simulator's chain always verifies, a task goes to the best peer, and it is shown when its consensus stalls for good and that votes buffered in a
  blackout are lost; the survival engine delivers no message twice. Peers of a client: the actions of the store keep its table of peers well formed and its logs
  bounded; elections and the merge of partitions leave one explorer; a repair takes out exactly the failed node; and it is shown what isolation, leaving,
  snapshots and concurrent writes leave behind that the code does not recover from.
  Some theorems state a behaviour that the code's comments do not promise or contradict; their texts say so.

  \<^bold>\<open>Assumptions of the models.\<close> Scores, coordinates and weights are exact reals; versions, counters and times are
  integers; checksums use 32-bit words. \<open>undefined\<close> and \<open>null\<close> are the same absent value. \<open>Date.now()\<close> is read
  once per call; random generators are streams of draws; fresh identifiers come from a stream. SHA-256, the text of a
  number, and the JSON text of an object behind a checksum are parameters; where a property needs a hash without
  collisions it says so. Asynchronous methods run one at a time. Object keys keep insertion order
  (none of the modelled keys is an array index). Loops are structural or terminate by a measure, except the queue loop
  and the path trace of the route search, which are partial functions: there \<open>None\<close> means that the call does not return, and
  \<open>shortest_path_returns_optimum\<close> proves that it returns for weights that are not negative. No fuel is used.

  \<^bold>\<open>Not modelled.\<close> React components, pages, routes, hooks, the stores other than the peer-to-peer one, wallets, billing and API clients
  (rendering, browser storage and network I/O); generated code, fixtures, mock factories and tests; the Python, ROS and
  Webots programs. The order of \<open>localeCompare\<close>, \<open>toFixed\<close>, \<open>parseFloat\<close> and \<open>toISOString\<close> are parameters; sorting by a random
  comparator is left out. The event log, the merged views of \<open>swarm\<close>, and the operations by which the swarm simulator hands calls
  on to the mesh layers are left out; the mesh layers themselves are modelled.
  The rows that services write to the event log are left out, since no modelled code reads them.
\<close>

end
